(* ===== verification/Prelude.thy ===== *)
theory Prelude
  imports Main "HOL-Library.Char_ord" "HOL-Library.List_Lexorder" "HOL-Library.Product_Lexorder"
begin

text \<open>
  Shared vocabulary of the development: results with error values and panics,
  the unsigned machine integers of the contracts (\<open>u64\<close>, \<open>u128\<close>) kept as natural
  numbers with every overflow check written out, the execution environment, the
  parameters that stand for library code which is not part of the repository, and
  the collections of rewrite rules used by the component theories.
\<close>

named_theorems outcome_simps \<open>when a chain of fallible steps returns Ok, Err or Panic\<close>
named_theorems arith_simps \<open>when a checked machine operation returns Ok\<close>

section \<open>Results\<close>

text \<open>
  \<open>Result<T, E>\<close> of the source, with a third value for a Rust panic.  The release profile
  of the workspace sets \<open>panic = 'abort'\<close> and \<open>overflow-checks = true\<close>, so a panicking
  transaction has no effect: neither \<open>Err\<close> nor \<open>Panic\<close> carries a state.
\<close>

datatype ('e, 'a) outcome = Ok 'a | Err 'e | Panic

text \<open>\<open>Result::and_then\<close>; it also models the question-mark operator.\<close>

primrec and_then :: "('e, 'a) outcome \<Rightarrow> ('a \<Rightarrow> ('e, 'b) outcome) \<Rightarrow> ('e, 'b) outcome" where
  "and_then (Ok x) f = f x"
| "and_then (Err e) f = Err e"
| "and_then Panic f = Panic"

primrec map_err :: "('e \<Rightarrow> 'f) \<Rightarrow> ('e, 'a) outcome \<Rightarrow> ('f, 'a) outcome" where
  "map_err g (Ok x) = Ok x"
| "map_err g (Err e) = Err (g e)"
| "map_err g Panic = Panic"

text \<open>\<open>Option::ok_or\<close>.\<close>

primrec ok_or :: "'e \<Rightarrow> 'a option \<Rightarrow> ('e, 'a) outcome" where
  "ok_or e None = Err e"
| "ok_or e (Some x) = Ok x"

text \<open>A guard with an early error return.\<close>

definition ensure :: "bool \<Rightarrow> 'e \<Rightarrow> ('e, unit) outcome" where
  "ensure b e = (if b then Ok () else Err e)"

text \<open>\<open>Option<T>::map(f).transpose()?\<close>.\<close>

primrec traverse_opt :: "('a \<Rightarrow> ('e, 'b) outcome) \<Rightarrow> 'a option \<Rightarrow> ('e, 'b option) outcome" where
  "traverse_opt f None = Ok None"
| "traverse_opt f (Some x) = and_then (f x) (\<lambda>y. Ok (Some y))"

lemma and_then_Ok_iff [outcome_simps]:
  "and_then m f = Ok y \<longleftrightarrow> (\<exists>x. m = Ok x \<and> f x = Ok y)"
  by (cases m) auto

lemma and_then_Err_iff:
  "and_then m f = Err e \<longleftrightarrow> m = Err e \<or> (\<exists>x. m = Ok x \<and> f x = Err e)"
  by (cases m) auto

lemma and_then_Panic_iff:
  "and_then m f = Panic \<longleftrightarrow> m = Panic \<or> (\<exists>x. m = Ok x \<and> f x = Panic)"
  by (cases m) auto

lemma map_err_Ok_iff [outcome_simps]: "map_err g m = Ok y \<longleftrightarrow> m = Ok y"
  by (cases m) auto

lemma map_err_Err_iff: "map_err g m = Err e \<longleftrightarrow> (\<exists>e'. m = Err e' \<and> e = g e')"
  by (cases m) auto

lemma map_err_Panic_iff: "map_err g m = Panic \<longleftrightarrow> m = Panic"
  by (cases m) auto

lemma ok_or_Ok_iff [outcome_simps]: "ok_or e v = Ok x \<longleftrightarrow> v = Some x"
  by (cases v) auto

lemma ok_or_Err_iff: "ok_or e v = Err e' \<longleftrightarrow> v = None \<and> e' = e"
  by (cases v) auto

lemma ok_or_not_Panic [simp]: "ok_or e v \<noteq> Panic"
  by (cases v) auto

lemma ensure_Ok_iff [outcome_simps]: "ensure b e = Ok u \<longleftrightarrow> b"
  by (simp add: ensure_def)

lemma ensure_Err_iff: "ensure b e = Err e' \<longleftrightarrow> \<not> b \<and> e' = e"
  by (auto simp: ensure_def)

lemma ensure_not_Panic [simp]: "ensure b e \<noteq> Panic"
  by (simp add: ensure_def)

lemma ensure_True [simp]: "ensure True e = Ok ()"
  by (simp add: ensure_def)

lemma ensure_False [simp]: "ensure False e = Err e"
  by (simp add: ensure_def)

lemma guard_Ok_iff [outcome_simps]:
  "(if b then Err e else m) = Ok y \<longleftrightarrow> \<not> b \<and> m = Ok y"
  "(if b then m else Err e) = Ok y \<longleftrightarrow> b \<and> m = Ok y"
  by simp_all

lemma traverse_opt_Ok_iff [outcome_simps]:
  "traverse_opt f v = Ok w \<longleftrightarrow>
     (case v of None \<Rightarrow> w = None | Some x \<Rightarrow> (\<exists>y. f x = Ok y \<and> w = Some y))"
  by (cases v) (auto simp: and_then_Ok_iff)

lemmas outcome_failures =
  and_then_Err_iff and_then_Panic_iff map_err_Err_iff map_err_Panic_iff ok_or_Err_iff ensure_Err_iff

text \<open>A fallible left fold: \<open>for x in xs { s = f(x, s)?; }\<close>.\<close>

fun fold_ok :: "('a \<Rightarrow> 's \<Rightarrow> ('e, 's) outcome) \<Rightarrow> 'a list \<Rightarrow> 's \<Rightarrow> ('e, 's) outcome" where
  "fold_ok f [] s = Ok s"
| "fold_ok f (x # xs) s = and_then (f x s) (\<lambda>s'. fold_ok f xs s')"

lemma fold_ok_append:
  "fold_ok f (xs @ ys) s = and_then (fold_ok f xs s) (\<lambda>s'. fold_ok f ys s')"
proof (induction xs arbitrary: s)
  case (Cons x xs)
  then show ?case by (cases "f x s") simp_all
qed simp

lemma fold_ok_invariant:
  assumes "fold_ok f xs s = Ok t" and "P s"
    and "\<And>x s s'. x \<in> set xs \<Longrightarrow> P s \<Longrightarrow> f x s = Ok s' \<Longrightarrow> P s'"
  shows "P t"
  using assms
proof (induction xs arbitrary: s)
  case (Cons x xs)
  from Cons.prems(1) obtain s' where step: "f x s = Ok s'" and rest: "fold_ok f xs s' = Ok t"
    by (auto simp: outcome_simps)
  from Cons.prems(2) step have "P s'"
    by (intro Cons.prems(3) [of x s s']) simp_all
  with rest show ?case
    by (rule Cons.IH) (rule Cons.prems(3), simp_all)
qed simp

text \<open>A fallible map: \<open>iter.map(f).collect::<Result<_, _>>()?\<close>.\<close>

fun map_ok :: "('a \<Rightarrow> ('e, 'b) outcome) \<Rightarrow> 'a list \<Rightarrow> ('e, 'b list) outcome" where
  "map_ok f [] = Ok []"
| "map_ok f (x # xs) = and_then (f x) (\<lambda>y. and_then (map_ok f xs) (\<lambda>ys. Ok (y # ys)))"

lemma map_ok_Ok_length: "map_ok f xs = Ok ys \<Longrightarrow> length ys = length xs"
  by (induction xs arbitrary: ys) (auto simp: outcome_simps)

lemma map_ok_Ok_iff: "map_ok f xs = Ok ys \<longleftrightarrow> map f xs = map Ok ys"
  by (induction xs arbitrary: ys) (auto simp: outcome_simps Cons_eq_map_conv)

section \<open>Machine integers\<close>

text \<open>
  \<open>Uint128\<close> and \<open>u128\<close> are natural numbers below \<open>2 ^ 128\<close>, \<open>u64\<close> below \<open>2 ^ 64\<close>.  The infix
  operators of the source panic on overflow and underflow; the \<open>checked_\<close> operations return
  an overflow error; division by zero panics.
\<close>

definition u64_lim :: nat where "u64_lim = 2 ^ 64"
definition u128_lim :: nat where "u128_lim = 2 ^ 128"

datatype std_error =
    Overflow
  | Not_found string
  | Generic_err string
  | Invalid_addr string
  | Parse_err string
  | Invalid_utf8

definition u128_add :: "nat \<Rightarrow> nat \<Rightarrow> ('e, nat) outcome" where
  "u128_add a b = (if a + b < u128_lim then Ok (a + b) else Panic)"

definition u128_sub :: "nat \<Rightarrow> nat \<Rightarrow> ('e, nat) outcome" where
  "u128_sub a b = (if b \<le> a then Ok (a - b) else Panic)"

definition u128_mul :: "nat \<Rightarrow> nat \<Rightarrow> ('e, nat) outcome" where
  "u128_mul a b = (if a * b < u128_lim then Ok (a * b) else Panic)"

definition u128_div :: "nat \<Rightarrow> nat \<Rightarrow> ('e, nat) outcome" where
  "u128_div a b = (if b = 0 then Panic else Ok (a div b))"

definition u128_checked_add :: "nat \<Rightarrow> nat \<Rightarrow> (std_error, nat) outcome" where
  "u128_checked_add a b = (if a + b < u128_lim then Ok (a + b) else Err Overflow)"

definition u128_checked_sub :: "nat \<Rightarrow> nat \<Rightarrow> (std_error, nat) outcome" where
  "u128_checked_sub a b = (if b \<le> a then Ok (a - b) else Err Overflow)"

text \<open>
  \<open>Uint128::multiply_ratio(n, d)\<close>: the product is formed in 256 bits, so only the quotient
  can overflow; a zero denominator panics.
\<close>

definition u128_multiply_ratio :: "nat \<Rightarrow> nat \<Rightarrow> nat \<Rightarrow> ('e, nat) outcome" where
  "u128_multiply_ratio a n d =
     (if d = 0 then Panic
      else if a * n div d < u128_lim then Ok (a * n div d) else Panic)"

definition u64_add :: "nat \<Rightarrow> nat \<Rightarrow> ('e, nat) outcome" where
  "u64_add a b = (if a + b < u64_lim then Ok (a + b) else Panic)"

definition u64_sub :: "nat \<Rightarrow> nat \<Rightarrow> ('e, nat) outcome" where
  "u64_sub a b = (if b \<le> a then Ok (a - b) else Panic)"

definition u64_mul :: "nat \<Rightarrow> nat \<Rightarrow> ('e, nat) outcome" where
  "u64_mul a b = (if a * b < u64_lim then Ok (a * b) else Panic)"

definition u64_div :: "nat \<Rightarrow> nat \<Rightarrow> ('e, nat) outcome" where
  "u64_div a b = (if b = 0 then Panic else Ok (a div b))"

definition u64_rem :: "nat \<Rightarrow> nat \<Rightarrow> ('e, nat) outcome" where
  "u64_rem a b = (if b = 0 then Panic else Ok (a mod b))"

definition u64_checked_add :: "nat \<Rightarrow> nat \<Rightarrow> (std_error, nat) outcome" where
  "u64_checked_add a b = (if a + b < u64_lim then Ok (a + b) else Err Overflow)"

definition u64_checked_sub :: "nat \<Rightarrow> nat \<Rightarrow> (std_error, nat) outcome" where
  "u64_checked_sub a b = (if b \<le> a then Ok (a - b) else Err Overflow)"

lemma u128_add_Ok [arith_simps]: "u128_add a b = Ok c \<longleftrightarrow> c = a + b \<and> a + b < u128_lim"
  by (auto simp: u128_add_def)

lemma u128_sub_Ok [arith_simps]: "u128_sub a b = Ok c \<longleftrightarrow> b \<le> a \<and> c = a - b"
  by (auto simp: u128_sub_def)

lemma u128_mul_Ok [arith_simps]: "u128_mul a b = Ok c \<longleftrightarrow> c = a * b \<and> a * b < u128_lim"
  by (auto simp: u128_mul_def)

lemma u128_div_Ok [arith_simps]: "u128_div a b = Ok c \<longleftrightarrow> b \<noteq> 0 \<and> c = a div b"
  by (auto simp: u128_div_def)

lemma u128_checked_add_Ok [arith_simps]:
  "u128_checked_add a b = Ok c \<longleftrightarrow> c = a + b \<and> a + b < u128_lim"
  by (auto simp: u128_checked_add_def)

lemma u128_checked_sub_Ok [arith_simps]:
  "u128_checked_sub a b = Ok c \<longleftrightarrow> b \<le> a \<and> c = a - b"
  by (auto simp: u128_checked_sub_def)

lemma u128_multiply_ratio_Ok [arith_simps]:
  "u128_multiply_ratio a n d = Ok c \<longleftrightarrow> d \<noteq> 0 \<and> c = a * n div d \<and> a * n div d < u128_lim"
  by (auto simp: u128_multiply_ratio_def)

lemma u64_add_Ok [arith_simps]: "u64_add a b = Ok c \<longleftrightarrow> c = a + b \<and> a + b < u64_lim"
  by (auto simp: u64_add_def)

lemma u64_sub_Ok [arith_simps]: "u64_sub a b = Ok c \<longleftrightarrow> b \<le> a \<and> c = a - b"
  by (auto simp: u64_sub_def)

lemma u64_mul_Ok [arith_simps]: "u64_mul a b = Ok c \<longleftrightarrow> c = a * b \<and> a * b < u64_lim"
  by (auto simp: u64_mul_def)

lemma u64_div_Ok [arith_simps]: "u64_div a b = Ok c \<longleftrightarrow> b \<noteq> 0 \<and> c = a div b"
  by (auto simp: u64_div_def)

lemma u64_rem_Ok [arith_simps]: "u64_rem a b = Ok c \<longleftrightarrow> b \<noteq> 0 \<and> c = a mod b"
  by (auto simp: u64_rem_def)

lemma u64_checked_add_Ok [arith_simps]:
  "u64_checked_add a b = Ok c \<longleftrightarrow> c = a + b \<and> a + b < u64_lim"
  by (auto simp: u64_checked_add_def)

lemma u64_checked_sub_Ok [arith_simps]:
  "u64_checked_sub a b = Ok c \<longleftrightarrow> b \<le> a \<and> c = a - b"
  by (auto simp: u64_checked_sub_def)

lemmas checked_int_defs =
  u128_add_def u128_sub_def u128_mul_def u128_div_def u128_checked_add_def u128_checked_sub_def
  u128_multiply_ratio_def u64_add_def u64_sub_def u64_mul_def u64_div_def u64_rem_def
  u64_checked_add_def u64_checked_sub_def u64_lim_def u128_lim_def

lemma u64_lim_pos [simp]: "0 < u64_lim"
  by (simp add: u64_lim_def)

lemma u128_lim_pos [simp]: "0 < u128_lim"
  by (simp add: u128_lim_def)

lemma checked_ops_no_panic [simp]:
  "u128_checked_add a b \<noteq> Panic" "u128_checked_sub a b \<noteq> Panic"
  "u64_checked_add a b \<noteq> Panic" "u64_checked_sub a b \<noteq> Panic"
  by (simp_all add: u128_checked_add_def u128_checked_sub_def u64_checked_add_def
      u64_checked_sub_def)

text \<open>Fixed-point numbers with 18 decimal places: \<open>Decimal\<close> by its \<open>atomics()\<close>.\<close>

type_synonym decimal = nat

definition decimal_one :: decimal where "decimal_one = 10 ^ 18"

definition u128_mul_decimal :: "nat \<Rightarrow> decimal \<Rightarrow> ('e, nat) outcome" where
  "u128_mul_decimal a d = u128_multiply_ratio a d decimal_one"

lemma u128_mul_decimal_Ok [arith_simps]:
  "u128_mul_decimal a d = Ok c \<longleftrightarrow> c = a * d div decimal_one \<and> c < u128_lim"
  by (auto simp: u128_mul_decimal_def arith_simps decimal_one_def)

section \<open>Execution environment and external code\<close>

type_synonym addr = string

record block_info =
  block_height :: nat
  block_time :: nat  \<comment> \<open>nanoseconds\<close>

definition seconds :: "block_info \<Rightarrow> nat" where
  "seconds b = block_time b div 1000000000"

record env =
  block :: block_info
  contract_address :: addr

record message_info =
  sender :: addr

datatype expiration = At_height nat | At_time nat | Never

datatype duration = Height nat | Time nat

text \<open>
  Library code outside the repository that the contracts call, as a parameter \<open>P\<close> of every
  operation that uses it: \<open>Api::addr_validate\<close>, \<open>Expiration::is_expired\<close> and
  \<open>Duration::after\<close>.
\<close>

record platform =
  addr_validate :: "string \<Rightarrow> (std_error, addr) outcome"
  is_expired :: "expiration \<Rightarrow> block_info \<Rightarrow> bool"
  after :: "duration \<Rightarrow> block_info \<Rightarrow> expiration"

text \<open>
  Documented behaviour of address validation: it accepts or rejects an address, and the
  accepted address is the string itself.
\<close>

definition platform_exact :: "platform \<Rightarrow> bool" where
  "platform_exact P \<longleftrightarrow> (\<forall>x a. addr_validate P x = Ok a \<longrightarrow> a = x)"

lemma platform_exactD: "platform_exact P \<Longrightarrow> addr_validate P x = Ok a \<Longrightarrow> a = x"
  by (simp add: platform_exact_def)

text \<open>A concrete platform for the witnesses; it follows the documentation of the libraries.\<close>

definition demo_platform :: platform where
  "demo_platform =
     \<lparr> addr_validate = (\<lambda>s. if s = [] then Err (Invalid_addr s) else Ok s),
       is_expired = (\<lambda>e b. case e of At_height h \<Rightarrow> h \<le> block_height b
                             | At_time t \<Rightarrow> t \<le> block_time b | Never \<Rightarrow> False),
       after = (\<lambda>d b. case d of Height h \<Rightarrow> At_height (block_height b + h)
                        | Time t \<Rightarrow> At_time (block_time b + t * 1000000000)) \<rparr>"

lemma demo_platform_exact [simp]: "platform_exact demo_platform"
  by (simp add: platform_exact_def demo_platform_def)

end
