(* ===== verification/Store.thy ===== *)
theory Store
  imports Prelude
begin

text \<open>
  Contract storage.  A \<open>cw_storage_plus\<close> map is an ordered collection of entries, read and
  iterated in key order; it is modelled as an association list kept strictly sorted by key,
  so that lookups, writes, removals and paginated range scans all compute.  A storage item
  is an \<open>option\<close> (\<open>None\<close> before the first save).

  The interface \<open>keyed_store\<close> states what the contracts rely on; \<open>ledger\<close> extends it by a
  total of natural-number entries and proves once how moving, adding and removing an amount
  changes the total.  Both are interpreted on the sorted lists.
\<close>

named_theorems kv_simps \<open>lookup equations of the storage maps\<close>

type_synonym ('k, 'v) kv = "('k \<times> 'v) list"

fun kv_get :: "('k, 'v) kv \<Rightarrow> 'k \<Rightarrow> 'v option" where
  "kv_get [] k = None"
| "kv_get ((k', v) # m) k = (if k' = k then Some v else kv_get m k)"

fun kv_set :: "('k::linorder, 'v) kv \<Rightarrow> 'k \<Rightarrow> 'v \<Rightarrow> ('k, 'v) kv" where
  "kv_set [] k v = [(k, v)]"
| "kv_set ((k', v') # m) k v =
     (if k < k' then (k, v) # (k', v') # m
      else if k' = k then (k, v) # m
      else (k', v') # kv_set m k v)"

definition kv_del :: "('k, 'v) kv \<Rightarrow> 'k \<Rightarrow> ('k, 'v) kv" where
  "kv_del m k = filter (\<lambda>e. fst e \<noteq> k) m"

definition kv_ok :: "('k::linorder, 'v) kv \<Rightarrow> bool" where
  "kv_ok m = sorted_wrt (<) (map fst m)"

text \<open>\<open>may_load(..)?.unwrap_or_default()\<close> on a map of integers.\<close>

definition kv_nat :: "('k, nat) kv \<Rightarrow> 'k \<Rightarrow> nat" where
  "kv_nat m k = (case kv_get m k of None \<Rightarrow> 0 | Some v \<Rightarrow> v)"

definition kv_total :: "('k, nat) kv \<Rightarrow> nat" where
  "kv_total m = sum_list (map snd m)"

text \<open>
  A range scan in ascending order that starts after an exclusive lower bound, and the keys
  of a scan.
\<close>

definition kv_after :: "('k::linorder, 'v) kv \<Rightarrow> 'k option \<Rightarrow> ('k, 'v) kv" where
  "kv_after m start =
     (case start of None \<Rightarrow> m | Some k \<Rightarrow> filter (\<lambda>e. k < fst e) m)"

definition kv_before :: "('k::linorder, 'v) kv \<Rightarrow> 'k option \<Rightarrow> ('k, 'v) kv" where
  "kv_before m bound =
     (case bound of None \<Rightarrow> m | Some k \<Rightarrow> filter (\<lambda>e. fst e < k) m)"

text \<open>The entries below one first component of a pair key (\<open>Map::prefix\<close>).\<close>

definition kv_prefix :: "('a \<times> 'b, 'v) kv \<Rightarrow> 'a \<Rightarrow> ('b, 'v) kv" where
  "kv_prefix m a = map (\<lambda>e. (snd (fst e), snd e)) (filter (\<lambda>e. fst (fst e) = a) m)"

section \<open>Lookup\<close>

lemma kv_get_set [simp, kv_simps]:
  "kv_get (kv_set m k v) k' = (if k' = k then Some v else kv_get m k')"
  by (induction m k v rule: kv_set.induct) auto

lemma kv_get_del [simp, kv_simps]:
  "kv_get (kv_del m k) k' = (if k' = k then None else kv_get m k')"
  by (induction m) (auto simp: kv_del_def)

lemma kv_nat_set [simp, kv_simps]: "kv_nat (kv_set m k v) k' = (if k' = k then v else kv_nat m k')"
  by (simp add: kv_nat_def)

lemma kv_nat_del [simp, kv_simps]: "kv_nat (kv_del m k) k' = (if k' = k then 0 else kv_nat m k')"
  by (simp add: kv_nat_def)

lemma kv_nat_Some: "kv_get m k = Some v \<Longrightarrow> kv_nat m k = v"
  by (simp add: kv_nat_def)

lemma kv_get_in_set: "kv_get m k = Some v \<Longrightarrow> (k, v) \<in> set m"
  by (induction m k rule: kv_get.induct) (auto split: if_splits)

lemma kv_get_None_iff: "kv_get m k = None \<longleftrightarrow> k \<notin> fst ` set m"
  by (induction m k rule: kv_get.induct) auto

lemma set_kv_set_keys: "fst ` set (kv_set m k v) = insert k (fst ` set m)"
  by (induction m k v rule: kv_set.induct) auto

lemma kv_ok_Nil [simp]: "kv_ok []"
  by (simp add: kv_ok_def)

lemma kv_ok_Cons: "kv_ok ((k, v) # m) \<longleftrightarrow> (\<forall>k' \<in> fst ` set m. k < k') \<and> kv_ok m"
  by (auto simp: kv_ok_def)

lemma kv_in_set_get: "kv_ok m \<Longrightarrow> (k, v) \<in> set m \<longleftrightarrow> kv_get m k = Some v"
proof (induction m k rule: kv_get.induct)
  case (2 k' v' m k)
  then show ?case by (cases "k' = k") (fastforce simp: kv_ok_Cons)+
qed simp

lemma kv_ok_set [simp]: "kv_ok m \<Longrightarrow> kv_ok (kv_set m k v)"
  by (induction m k v rule: kv_set.induct) (auto simp: kv_ok_Cons set_kv_set_keys)

lemma kv_ok_filter: "kv_ok m \<Longrightarrow> kv_ok (filter P m)"
  by (induction m) (auto simp: kv_ok_Cons kv_ok_def)

lemma kv_ok_del [simp]: "kv_ok m \<Longrightarrow> kv_ok (kv_del m k)"
  by (simp add: kv_del_def kv_ok_filter)

lemma kv_ok_distinct: "kv_ok m \<Longrightarrow> distinct (map fst m)"
  by (simp add: kv_ok_def strict_sorted_iff)

text \<open>A sorted map is determined by its lookups.\<close>

lemma kv_eqI:
  "kv_ok m \<Longrightarrow> kv_ok m' \<Longrightarrow> (\<And>k. kv_get m k = kv_get m' k) \<Longrightarrow> m = m'"
proof (induction m arbitrary: m')
  case Nil
  show ?case
  proof (cases m')
    case (Cons e r)
    with Nil.prems(3) [of "fst e"] show ?thesis by (cases e) simp
  qed simp
next
  case (Cons e r)
  obtain k v where e: "e = (k, v)" by force
  show ?case
  proof (cases m')
    case Nil
    with Cons.prems(3) [of k] e show ?thesis by simp
  next
    case (Cons e' r')
    obtain k' v' where e': "e' = (k', v')" by force
    have fresh: "kv_get r x = None" if "x \<le> k" for x
      using Cons.prems(1) that by (fastforce simp: e kv_ok_Cons kv_get_None_iff)
    have fresh': "kv_get r' x = None" if "x \<le> k'" for x
      using Cons.prems(2) that by (fastforce simp: e' kv_ok_Cons kv_get_None_iff Cons)
    have "k = k'"
      using Cons.prems(3) [of k] Cons.prems(3) [of k'] fresh [of k'] fresh' [of k]
      by (cases k k' rule: linorder_cases) (auto simp: e e' Cons less_imp_le split: if_splits)
    moreover have "v = v'" using Cons.prems(3) [of k] \<open>k = k'\<close> by (simp add: e e' Cons)
    moreover have "r = r'"
    proof (rule Cons.IH)
      show "kv_get r x = kv_get r' x" for x
        using Cons.prems(3) [of x] fresh [of k] fresh' [of k] \<open>k = k'\<close>
        by (cases "x = k") (auto simp: e e' Cons)
    qed (use Cons.prems e e' Cons in \<open>auto simp: kv_ok_Cons\<close>)
    ultimately show ?thesis by (simp add: e e' Cons)
  qed
qed

section \<open>Totals\<close>

lemma kv_nat_Cons [simp]: "kv_nat ((k', v) # m) k = (if k' = k then v else kv_nat m k)"
  by (simp add: kv_nat_def)

lemma kv_nat_Nil [simp]: "kv_nat [] k = 0"
  by (simp add: kv_nat_def)

lemma kv_nat_fresh: "k \<notin> fst ` set m \<Longrightarrow> kv_nat m k = 0"
  using kv_get_None_iff [of m k] by (simp add: kv_nat_def)

lemma kv_total_set: "kv_ok m \<Longrightarrow> kv_total (kv_set m k v) + kv_nat m k = kv_total m + v"
proof (induction m k v rule: kv_set.induct)
  case (2 k' v' m k v)
  then show ?case
    by (auto simp: kv_total_def kv_ok_Cons intro!: kv_nat_fresh)
qed (simp add: kv_total_def)

lemma kv_del_fresh: "k \<notin> fst ` set m \<Longrightarrow> kv_del m k = m"
  by (force simp: kv_del_def filter_id_conv)

lemma kv_total_del: "kv_ok m \<Longrightarrow> kv_total (kv_del m k) + kv_nat m k = kv_total m"
proof (induction m)
  case (Cons e m)
  obtain k' v' where e: "e = (k', v')" by force
  show ?case
  proof (cases "k' = k")
    case True
    with Cons.prems e have "kv_del (e # m) k = m"
      using kv_del_fresh [of k m] by (auto simp: kv_ok_Cons kv_del_def)
    with e True show ?thesis by (simp add: kv_total_def)
  next
    case False
    with Cons e show ?thesis by (auto simp: kv_ok_Cons kv_total_def kv_del_def)
  qed
qed (simp add: kv_total_def kv_del_def)

lemma kv_nat_le_total: "kv_nat m k \<le> kv_total m"
proof (induction m)
  case (Cons e m)
  then show ?case by (cases e) (auto simp: kv_total_def)
qed simp

section \<open>Weighted sums\<close>

text \<open>The sum of a quantity over all entries, and the quantity at one key.\<close>

definition kv_sum :: "('k \<Rightarrow> 'v \<Rightarrow> nat) \<Rightarrow> ('k, 'v) kv \<Rightarrow> nat" where
  "kv_sum f m = sum_list (map (\<lambda>e. f (fst e) (snd e)) m)"

definition kv_at :: "('k \<Rightarrow> 'v \<Rightarrow> nat) \<Rightarrow> ('k, 'v) kv \<Rightarrow> 'k \<Rightarrow> nat" where
  "kv_at f m k = (case kv_get m k of None \<Rightarrow> 0 | Some v \<Rightarrow> f k v)"

lemma kv_sum_Nil [simp]: "kv_sum f [] = 0"
  by (simp add: kv_sum_def)

lemma kv_sum_Cons [simp]: "kv_sum f (e # m) = f (fst e) (snd e) + kv_sum f m"
  by (simp add: kv_sum_def)

lemma kv_at_fresh: "k \<notin> fst ` set m \<Longrightarrow> kv_at f m k = 0"
  using kv_get_None_iff [of m k] by (simp add: kv_at_def)

lemma kv_at_Cons: "kv_at f ((k', v) # m) k = (if k' = k then f k v else kv_at f m k)"
  by (simp add: kv_at_def)

lemma kv_sum_set: "kv_ok m \<Longrightarrow> kv_sum f (kv_set m k v) + kv_at f m k = kv_sum f m + f k v"
proof (induction m k v rule: kv_set.induct)
  case (2 k' v' m k v)
  then show ?case
    by (auto simp: kv_at_Cons kv_ok_Cons intro!: kv_at_fresh)
qed (simp add: kv_at_def)

lemma kv_sum_del: "kv_ok m \<Longrightarrow> kv_sum f (kv_del m k) + kv_at f m k = kv_sum f m"
proof (induction m)
  case (Cons e m)
  obtain k' v' where e: "e = (k', v')" by force
  show ?case
  proof (cases "k' = k")
    case True
    with Cons.prems e have "kv_del (e # m) k = m"
      using kv_del_fresh [of k m] by (auto simp: kv_ok_Cons kv_del_def)
    with e True show ?thesis by (simp add: kv_at_Cons)
  next
    case False
    with Cons e show ?thesis by (auto simp: kv_ok_Cons kv_at_Cons kv_del_def)
  qed
qed (simp add: kv_at_def kv_del_def)

lemma kv_at_le_sum: "kv_at f m k \<le> kv_sum f m"
proof (induction m)
  case (Cons e m)
  then show ?case by (cases e) (auto simp: kv_at_Cons)
qed (simp add: kv_at_def)

section \<open>Range scans\<close>

lemma kv_ok_after: "kv_ok m \<Longrightarrow> kv_ok (kv_after m start)"
  by (simp add: kv_after_def kv_ok_filter split: option.split)

lemma kv_prefix_get: "kv_get (kv_prefix m a) b = kv_get m (a, b)"
  by (induction m) (auto simp: kv_prefix_def)

lemma kv_prefix_ok: "kv_ok m \<Longrightarrow> kv_ok (kv_prefix m a)"
proof (induction m)
  case (Cons e m)
  obtain x y v where e: "e = ((x, y), v)" by (metis surj_pair)
  have keys: "(a, b) \<in> fst ` set m" if "b \<in> fst ` set (kv_prefix m a)" for b
    using that by (force simp: kv_prefix_def)
  from Cons e show ?case
    by (auto simp: kv_prefix_def kv_ok_Cons less_prod_def) 
qed (simp add: kv_prefix_def)

lemma kv_ok_take: "kv_ok m \<Longrightarrow> kv_ok (take n m)"
  by (simp add: kv_ok_def take_map [symmetric] sorted_wrt_take)

lemma set_kv_after: "(k, v) \<in> set (kv_after m start) \<longleftrightarrow>
    (k, v) \<in> set m \<and> (case start of None \<Rightarrow> True | Some s \<Rightarrow> s < k)"
  by (auto simp: kv_after_def split: option.splits)

lemma kv_after_last:
  assumes "kv_ok m" and "n < length m"
  shows "kv_after m (Some (fst (m ! n))) = drop (Suc n) m"
  using assms
proof (induction m arbitrary: n)
  case (Cons e m)
  show ?case
  proof (cases n)
    case 0
    with Cons.prems show ?thesis
      by (cases e) (auto simp: kv_after_def kv_ok_Cons filter_id_conv)
  next
    case (Suc n')
    with Cons.prems have "fst e < fst (m ! n')"
      by (cases e) (auto simp: kv_ok_Cons)
    then have "\<not> fst (m ! n') < fst e" by simp
    with Cons.prems Suc Cons.IH [of n'] show ?thesis
      by (cases e) (auto simp: kv_after_def kv_ok_Cons)
  qed
qed simp

section \<open>The storage interface\<close>

locale keyed_store =
  fixes get :: "'m \<Rightarrow> 'k \<Rightarrow> 'v option"
    and put :: "'m \<Rightarrow> 'k \<Rightarrow> 'v \<Rightarrow> 'm"
    and del :: "'m \<Rightarrow> 'k \<Rightarrow> 'm"
    and valid :: "'m \<Rightarrow> bool"
  assumes get_put: "get (put m k v) k' = (if k' = k then Some v else get m k')"
    and get_del: "get (del m k) k' = (if k' = k then None else get m k')"
    and valid_put: "valid m \<Longrightarrow> valid (put m k v)"
    and valid_del: "valid m \<Longrightarrow> valid (del m k)"
begin

lemma put_frame: "k' \<noteq> k \<Longrightarrow> get (put m k v) k' = get m k'"
  by (simp add: get_put)

lemma put_put_get: "get (put (put m k v) k w) = get (put m k w)"
  by (auto simp: get_put)

lemma put_commute: "k \<noteq> k' \<Longrightarrow> get (put (put m k v) k' w) = get (put (put m k' w) k v)"
  by (auto simp: get_put)

end

locale ledger = keyed_store get put del valid
  for get :: "'m \<Rightarrow> 'k \<Rightarrow> nat option"
    and put :: "'m \<Rightarrow> 'k \<Rightarrow> nat \<Rightarrow> 'm"
    and del :: "'m \<Rightarrow> 'k \<Rightarrow> 'm"
    and valid :: "'m \<Rightarrow> bool" +
  fixes amount_at :: "'m \<Rightarrow> 'k \<Rightarrow> nat"
    and total :: "'m \<Rightarrow> nat"
  assumes amount_at_get: "amount_at m k = (case get m k of None \<Rightarrow> 0 | Some v \<Rightarrow> v)"
    and total_put: "valid m \<Longrightarrow> total (put m k v) + amount_at m k = total m + v"
begin

lemma amount_at_put: "amount_at (put m k v) k' = (if k' = k then v else amount_at m k')"
  by (simp add: amount_at_get get_put)

text \<open>Debit one account, then credit another (possibly the same one).\<close>

lemma move_total:
  assumes "valid m" and "x \<le> amount_at m a"
  defines "m' \<equiv> put m a (amount_at m a - x)"
  shows "total (put m' b (amount_at m' b + x)) = total m"
proof -
  have "total m' + amount_at m a = total m + (amount_at m a - x)"
    using assms by (simp add: total_put)
  then have debit: "total m' + x = total m"
    using assms(2) by simp
  have "valid m'"
    using assms(1) by (simp add: m'_def valid_put)
  then have "total (put m' b (amount_at m' b + x)) + amount_at m' b = total m' + (amount_at m' b + x)"
    by (rule total_put)
  with debit show ?thesis by simp
qed

lemma move_amount_at:
  assumes "x \<le> amount_at m a"
  defines "m' \<equiv> put m a (amount_at m a - x)"
  shows "amount_at (put m' b (amount_at m' b + x)) k =
    (if a = b then amount_at m k
     else if k = a then amount_at m a - x
     else if k = b then amount_at m b + x
     else amount_at m k)"
  using assms(1) by (auto simp: m'_def amount_at_put)

lemma credit_total: "valid m \<Longrightarrow> total (put m k (amount_at m k + x)) = total m + x"
  using total_put [of m k "amount_at m k + x"] by simp

lemma debit_total:
  "valid m \<Longrightarrow> x \<le> amount_at m k \<Longrightarrow> total (put m k (amount_at m k - x)) + x = total m"
  using total_put [of m k "amount_at m k - x"] by simp

lemma amount_le_total: "valid m \<Longrightarrow> amount_at m k \<le> total m"
  using debit_total [of m "amount_at m k" k] by simp

end

interpretation kvs: keyed_store kv_get kv_set kv_del kv_ok
  by unfold_locales simp_all

interpretation kvl: ledger kv_get kv_set kv_del kv_ok kv_nat kv_total
  by unfold_locales (simp add: kv_nat_def, rule kv_total_set)

section \<open>Pagination\<close>

text \<open>
  A client that reads a listing page by page: it asks again from the last key it has seen
  until a page comes back empty.  The fuel bounds the number of requests.
\<close>

fun read_pages ::
  "('k option \<Rightarrow> ('e, 'x list) outcome) \<Rightarrow> ('x \<Rightarrow> 'k) \<Rightarrow> nat \<Rightarrow> 'k option \<Rightarrow> ('e, 'x list) outcome"
where
  "read_pages page key 0 start = Panic"
| "read_pages page key (Suc fuel) start =
     and_then (page start) (\<lambda>xs.
     if xs = [] then Ok []
     else and_then (read_pages page key fuel (Some (key (last xs)))) (\<lambda>rest. Ok (xs @ rest)))"

locale paginated =
  fixes valid :: "'s \<Rightarrow> bool"
    and page :: "'s \<Rightarrow> 'k option \<Rightarrow> ('e, 'x list) outcome"
    and content :: "'s \<Rightarrow> 'x list"
    and key :: "'x \<Rightarrow> 'k"
    and page_size :: "'s \<Rightarrow> nat"
  assumes page_first: "valid s \<Longrightarrow> page s None = Ok (take (page_size s) (content s))"
    and page_next: "valid s \<Longrightarrow> n < length (content s) \<Longrightarrow>
      page s (Some (key (content s ! n))) = Ok (take (page_size s) (drop (Suc n) (content s)))"
    and page_size_pos: "valid s \<Longrightarrow> 0 < page_size s"
begin

lemma last_take: "xs \<noteq> [] \<Longrightarrow> 0 < k \<Longrightarrow> last (take k xs) = xs ! (min k (length xs) - 1)"
  by (cases "k \<le> length xs") (auto simp: last_conv_nth min_def)

lemma read_from:
  assumes "valid s"
  shows "n < length (content s) \<Longrightarrow> length (content s) - Suc n < fuel \<Longrightarrow>
    read_pages (page s) key fuel (Some (key (content s ! n))) = Ok (drop (Suc n) (content s))"
proof (induction fuel arbitrary: n)
  case (Suc fuel)
  let ?c = "content s" and ?k = "page_size s"
  let ?rest = "drop (Suc n) ?c"
  note page = page_next [OF assms Suc.prems(1)]
  show ?case
  proof (cases "?rest = []")
    case True
    with page show ?thesis by simp
  next
    case False
    define m where "m = Suc n + (min ?k (length ?rest) - 1)"
    from False page_size_pos [OF assms] have m: "m < length ?c" "n < m" "m = n + min ?k (length ?rest)"
      by (auto simp: m_def min_def)
    have last: "last (take ?k ?rest) = ?c ! m"
      using last_take [OF False page_size_pos [OF assms]] m(1) False by (simp add: m_def)
    have "read_pages (page s) key fuel (Some (key (?c ! m))) = Ok (drop (Suc m) ?c)"
      using m(1,2) Suc.prems(2) by (intro Suc.IH) linarith+
    moreover have "take ?k ?rest @ drop (Suc m) ?c = ?rest"
      by (subst append_take_drop_id [of ?k, symmetric]) (auto simp: m(3) min_def add.commute)
    moreover have "take ?k ?rest \<noteq> []"
      using False page_size_pos [OF assms] by simp
    ultimately show ?thesis using page last by simp
  qed
qed simp

lemma read_pages_all:
  assumes "valid s" and "length (content s) < fuel"
  shows "read_pages (page s) key fuel None = Ok (content s)"
proof (cases fuel)
  case 0
  with assms(2) show ?thesis by simp
next
  case (Suc fuel')
  let ?c = "content s" and ?k = "page_size s"
  note page = page_first [OF assms(1)]
  show ?thesis
  proof (cases "?c = []")
    case True
    with page Suc show ?thesis by simp
  next
    case False
    define m where "m = min ?k (length ?c) - 1"
    from False page_size_pos [OF assms(1)] have m: "m < length ?c" "Suc m = min ?k (length ?c)"
      by (auto simp: m_def min_def)
    have last: "last (take ?k ?c) = ?c ! m"
      using last_take [OF False page_size_pos [OF assms(1)]] by (simp add: m_def)
    have "read_pages (page s) key fuel' (Some (key (?c ! m))) = Ok (drop (Suc m) ?c)"
      using m assms Suc by (intro read_from) simp_all
    moreover have "take ?k ?c @ drop (Suc m) ?c = ?c"
      by (subst append_take_drop_id [of ?k, symmetric]) (auto simp: m(2) min_def)
    moreover have "take ?k ?c \<noteq> []"
      using False page_size_pos [OF assms(1)] by simp
    ultimately show ?thesis using page last Suc by simp
  qed
qed

end

text \<open>
  Scans of a sorted map give such listings: a page is the next entries after a key, put into
  the form the contract returns.
\<close>

definition kv_page :: "('k::linorder, 'v) kv \<Rightarrow> nat \<Rightarrow> 'k option \<Rightarrow> ('k \<times> 'v) list" where
  "kv_page m n start = take n (kv_after m start)"

interpretation kv_pages: paginated "\<lambda>(m, n). kv_ok m \<and> 0 < n" "\<lambda>(m, n) start. Ok (kv_page m n start)"
  fst fst snd
  by unfold_locales (auto simp: kv_page_def kv_after_last, simp add: kv_after_def)

end
