(* ===== verification/Curve.thy ===== *)
theory Curve
  imports Store
begin

text \<open>
  The vesting and distribution curves of \<open>packages/syne-curve-utils\<close>: constant,
  saturating-linear and piecewise-linear functions from a time (\<open>u64\<close>) to an amount
  (\<open>Uint128\<close>), their evaluation, validation, range and sum, and the scalable curves that
  are multiplied by an amount before use.  Evaluation panics where the source does: an
  empty list of steps, an overflow in an interpolation, a division by a zero width.
\<close>

section \<open>Data\<close>

datatype curve_error =
    Not_monotonic
  | Monotonic_increasing
  | Monotonic_decreasing
  | Points_out_of_order
  | Missing_steps
  | Too_complex

record saturating_linear =
  min_x :: nat
  min_y :: nat
  max_x :: nat
  max_y :: nat

record piecewise_linear =
  steps :: "(nat \<times> nat) list"

datatype curve =
    Constant nat
  | Saturating_linear saturating_linear
  | Piecewise_linear piecewise_linear

datatype shape = Shape_constant | Shape_increasing | Shape_decreasing | Shape_not_monotonic

section \<open>Evaluation\<close>

fun interpolate :: "nat \<times> nat \<Rightarrow> nat \<times> nat \<Rightarrow> nat \<Rightarrow> ('e, nat) outcome" where
  "interpolate (x0, y0) (x1, y1) x =
     (if y1 > y0 then
        and_then (u128_sub y1 y0) (\<lambda>dy.
        and_then (u64_sub x x0) (\<lambda>dx.
        and_then (u128_mul dy dx) (\<lambda>p.
        and_then (u64_sub x1 x0) (\<lambda>w.
        and_then (u128_div p w) (\<lambda>q.
        u128_add y0 q)))))
      else
        and_then (u128_sub y0 y1) (\<lambda>dy.
        and_then (u64_sub x x0) (\<lambda>dx.
        and_then (u128_mul dy dx) (\<lambda>p.
        and_then (u64_sub x1 x0) (\<lambda>w.
        and_then (u128_div p w) (\<lambda>q.
        u128_sub y0 q))))))"

definition sl_value :: "saturating_linear \<Rightarrow> nat \<Rightarrow> ('e, nat) outcome" where
  "sl_value s x =
     (if x < min_x s then Ok (min_y s)
      else if x > max_x s then Ok (max_y s)
      else interpolate (min_x s, min_y s) (max_x s, max_y s) x)"

text \<open>
  The loop of \<open>PiecewiseLinear::value\<close>: it carries the previous and the next point and
  breaks at the first step whose predecessor lies above \<open>x\<close>.
\<close>

fun pl_scan ::
  "nat \<Rightarrow> (nat \<times> nat) option \<Rightarrow> nat \<times> nat \<Rightarrow> (nat \<times> nat) list \<Rightarrow> (nat \<times> nat) option \<times> (nat \<times> nat)"
where
  "pl_scan x prev nxt [] = (prev, nxt)"
| "pl_scan x prev nxt (s # ss) =
     (if x \<ge> fst nxt then pl_scan x (Some nxt) s ss else (prev, nxt))"

fun pl_pick :: "nat \<Rightarrow> (nat \<times> nat) option \<times> (nat \<times> nat) \<Rightarrow> ('e, nat) outcome" where
  "pl_pick x (Some l, nxt) =
     (if x = fst l then Ok (snd l)
      else if x \<ge> fst nxt then Ok (snd nxt)
      else interpolate l nxt x)"
| "pl_pick x (None, nxt) = Ok (snd nxt)"

definition pl_value :: "piecewise_linear \<Rightarrow> nat \<Rightarrow> ('e, nat) outcome" where
  "pl_value p x =
     (case steps p of [] \<Rightarrow> Panic | s # ss \<Rightarrow> pl_pick x (pl_scan x None s ss))"

fun curve_value :: "curve \<Rightarrow> nat \<Rightarrow> ('e, nat) outcome" where
  "curve_value (Constant y) x = Ok y"
| "curve_value (Saturating_linear s) x = sl_value s x"
| "curve_value (Piecewise_linear p) x = pl_value p x"

section \<open>Validation\<close>

fun curve_size :: "curve \<Rightarrow> nat" where
  "curve_size (Constant _) = 1"
| "curve_size (Saturating_linear _) = 2"
| "curve_size (Piecewise_linear p) = length (steps p)"

definition sl_validate :: "saturating_linear \<Rightarrow> (curve_error, unit) outcome" where
  "sl_validate s = (if max_x s \<le> min_x s then Err Points_out_of_order else Ok ())"

definition sl_validate_monotonic_increasing :: "saturating_linear \<Rightarrow> (curve_error, unit) outcome"
where
  "sl_validate_monotonic_increasing s =
     and_then (sl_validate s) (\<lambda>_.
     if max_y s < min_y s then Err Monotonic_decreasing else Ok ())"

definition sl_validate_monotonic_decreasing :: "saturating_linear \<Rightarrow> (curve_error, unit) outcome"
where
  "sl_validate_monotonic_decreasing s =
     and_then (sl_validate s) (\<lambda>_.
     if max_y s > min_y s then Err Monotonic_increasing else Ok ())"

text \<open>The fold over the steps that \<open>PiecewiseLinear::validate\<close> starts at \<open>Ok(0)\<close>.\<close>

definition pl_order_step :: "nat \<times> nat \<Rightarrow> nat \<Rightarrow> (curve_error, nat) outcome" where
  "pl_order_step s prev = (if fst s > prev then Ok (fst s) else Err Points_out_of_order)"

definition pl_validate :: "piecewise_linear \<Rightarrow> (curve_error, unit) outcome" where
  "pl_validate p =
     (if steps p = [] then Err Missing_steps
      else and_then (fold_ok pl_order_step (steps p) 0) (\<lambda>_. Ok ()))"

fun next_shape :: "shape \<Rightarrow> nat \<Rightarrow> nat \<Rightarrow> shape" where
  "next_shape Shape_not_monotonic prev y = Shape_not_monotonic"
| "next_shape Shape_decreasing prev y =
     (if y > prev then Shape_not_monotonic else Shape_decreasing)"
| "next_shape Shape_increasing prev y =
     (if y < prev then Shape_not_monotonic else Shape_increasing)"
| "next_shape Shape_constant prev y =
     (if y > prev then Shape_increasing
      else if y < prev then Shape_decreasing
      else Shape_constant)"

fun classify_from :: "nat \<Rightarrow> shape \<Rightarrow> (nat \<times> nat) list \<Rightarrow> shape" where
  "classify_from prev sh [] = sh"
| "classify_from prev sh (s # ss) = classify_from (snd s) (next_shape sh prev (snd s)) ss"

definition classify_curve :: "piecewise_linear \<Rightarrow> ('e, shape) outcome" where
  "classify_curve p =
     (case steps p of [] \<Rightarrow> Panic | s # ss \<Rightarrow> Ok (classify_from (snd s) Shape_constant ss))"

definition pl_validate_monotonic_increasing :: "piecewise_linear \<Rightarrow> (curve_error, unit) outcome"
where
  "pl_validate_monotonic_increasing p =
     and_then (pl_validate p) (\<lambda>_.
     and_then (classify_curve p) (\<lambda>sh.
     case sh of
       Shape_not_monotonic \<Rightarrow> Err Not_monotonic
     | Shape_decreasing \<Rightarrow> Err Monotonic_decreasing
     | _ \<Rightarrow> Ok ()))"

definition pl_validate_monotonic_decreasing :: "piecewise_linear \<Rightarrow> (curve_error, unit) outcome"
where
  "pl_validate_monotonic_decreasing p =
     and_then (pl_validate p) (\<lambda>_.
     and_then (classify_curve p) (\<lambda>sh.
     case sh of
       Shape_not_monotonic \<Rightarrow> Err Not_monotonic
     | Shape_increasing \<Rightarrow> Err Monotonic_increasing
     | _ \<Rightarrow> Ok ()))"

fun curve_validate :: "curve \<Rightarrow> (curve_error, unit) outcome" where
  "curve_validate (Constant _) = Ok ()"
| "curve_validate (Saturating_linear s) = sl_validate s"
| "curve_validate (Piecewise_linear p) = pl_validate p"

fun validate_monotonic_increasing :: "curve \<Rightarrow> (curve_error, unit) outcome" where
  "validate_monotonic_increasing (Constant _) = Ok ()"
| "validate_monotonic_increasing (Saturating_linear s) = sl_validate_monotonic_increasing s"
| "validate_monotonic_increasing (Piecewise_linear p) = pl_validate_monotonic_increasing p"

fun validate_monotonic_decreasing :: "curve \<Rightarrow> (curve_error, unit) outcome" where
  "validate_monotonic_decreasing (Constant _) = Ok ()"
| "validate_monotonic_decreasing (Saturating_linear s) = sl_validate_monotonic_decreasing s"
| "validate_monotonic_decreasing (Piecewise_linear p) = pl_validate_monotonic_decreasing p"

definition validate_complexity :: "curve \<Rightarrow> nat \<Rightarrow> (curve_error, unit) outcome" where
  "validate_complexity c m = (if curve_size c \<le> m then Ok () else Err Too_complex)"

section \<open>Range\<close>

definition sl_range :: "saturating_linear \<Rightarrow> nat \<times> nat" where
  "sl_range s = (if max_y s > min_y s then (min_y s, max_y s) else (max_y s, min_y s))"

definition pl_range :: "piecewise_linear \<Rightarrow> ('e, nat \<times> nat) outcome" where
  "pl_range p =
     (case map snd (steps p) of
        [] \<Rightarrow> Panic
      | y # ys \<Rightarrow> Ok (foldl min y ys, foldl max y ys))"

fun curve_range :: "curve \<Rightarrow> ('e, nat \<times> nat) outcome" where
  "curve_range (Constant y) = Ok (y, y)"
| "curve_range (Saturating_linear s) = Ok (sl_range s)"
| "curve_range (Piecewise_linear p) = pl_range p"

section \<open>Sum of two curves\<close>

definition pl_from :: "saturating_linear \<Rightarrow> piecewise_linear" where
  "pl_from s = \<lparr> steps = [(min_x s, min_y s), (max_x s, max_y s)] \<rparr>"

definition pl_combine :: "piecewise_linear \<Rightarrow> piecewise_linear \<Rightarrow> ('e, piecewise_linear) outcome"
where
  "pl_combine p q =
     (let xs = remdups_adj (sort (map fst (steps p @ steps q)))
      in and_then (map_ok (\<lambda>x.
           and_then (pl_value p x) (\<lambda>a.
           and_then (pl_value q x) (\<lambda>b.
           and_then (u128_add a b) (\<lambda>y.
           Ok (x, y))))) xs) (\<lambda>ss.
         Ok \<lparr> steps = ss \<rparr>))"

fun combine_const :: "curve \<Rightarrow> nat \<Rightarrow> ('e, curve) outcome" where
  "combine_const (Constant y) c = and_then (u128_add c y) (\<lambda>y'. Ok (Constant y'))"
| "combine_const (Saturating_linear s) c =
     and_then (u128_add (min_y s) c) (\<lambda>lo.
     and_then (u128_add (max_y s) c) (\<lambda>hi.
     Ok (Saturating_linear
          \<lparr> min_x = min_x s, min_y = lo, max_x = max_x s, max_y = hi \<rparr>)))"
| "combine_const (Piecewise_linear p) c =
     and_then (map_ok (\<lambda>s. and_then (u128_add c (snd s)) (\<lambda>y. Ok (fst s, y))) (steps p)) (\<lambda>ss.
     Ok (Piecewise_linear \<lparr> steps = ss \<rparr>))"

fun curve_combine :: "curve \<Rightarrow> curve \<Rightarrow> ('e, curve) outcome" where
  "curve_combine (Constant y) c = combine_const c y"
| "curve_combine c (Constant y) = combine_const c y"
| "curve_combine (Saturating_linear s) (Saturating_linear t) =
     and_then (pl_combine (pl_from s) (pl_from t)) (\<lambda>p. Ok (Piecewise_linear p))"
| "curve_combine (Saturating_linear s) (Piecewise_linear p) =
     and_then (pl_combine (pl_from s) p) (\<lambda>r. Ok (Piecewise_linear r))"
| "curve_combine (Piecewise_linear p) (Saturating_linear s) =
     and_then (pl_combine (pl_from s) p) (\<lambda>r. Ok (Piecewise_linear r))"
| "curve_combine (Piecewise_linear p) (Piecewise_linear q) =
     and_then (pl_combine p q) (\<lambda>r. Ok (Piecewise_linear r))"

section \<open>Scalable curves\<close>

record scalable_linear =
  s_min_x :: nat
  s_min_y :: decimal
  s_max_x :: nat
  s_max_y :: decimal

record scalable_piecewise =
  s_steps :: "(nat \<times> decimal) list"

datatype scalable_curve =
    Scalable_constant decimal
  | Scalable_linear scalable_linear
  | Scalable_piecewise scalable_piecewise

definition scale_linear :: "scalable_linear \<Rightarrow> nat \<Rightarrow> ('e, curve) outcome" where
  "scale_linear s amount =
     and_then (u128_mul_decimal amount (s_min_y s)) (\<lambda>lo.
     and_then (u128_mul_decimal amount (s_max_y s)) (\<lambda>hi.
     Ok (Saturating_linear
          \<lparr> min_x = s_min_x s, min_y = lo, max_x = s_max_x s, max_y = hi \<rparr>)))"

definition scale_piecewise :: "scalable_piecewise \<Rightarrow> nat \<Rightarrow> ('e, curve) outcome" where
  "scale_piecewise s amount =
     and_then (map_ok (\<lambda>(x, y). and_then (u128_mul_decimal amount y) (\<lambda>v. Ok (x, v))) (s_steps s))
       (\<lambda>ss. Ok (Piecewise_linear \<lparr> steps = ss \<rparr>))"

fun scale :: "scalable_curve \<Rightarrow> nat \<Rightarrow> ('e, curve) outcome" where
  "scale (Scalable_constant r) amount =
     and_then (u128_mul_decimal amount r) (\<lambda>y. Ok (Constant y))"
| "scale (Scalable_linear s) amount = scale_linear s amount"
| "scale (Scalable_piecewise s) amount = scale_piecewise s amount"

definition scalable_validate_monotonic_increasing :: "scalable_curve \<Rightarrow> (curve_error, unit) outcome"
where
  "scalable_validate_monotonic_increasing c =
     and_then (scale c 1000000000) validate_monotonic_increasing"

definition scalable_validate_monotonic_decreasing :: "scalable_curve \<Rightarrow> (curve_error, unit) outcome"
where
  "scalable_validate_monotonic_decreasing c =
     and_then (scale c 1000000000) validate_monotonic_decreasing"

end
