(* ===== verification/Curve_Proofs.thy ===== *)
theory Curve_Proofs
  imports Curve
begin

text \<open>
  Correctness of the curves: a validated curve is monotone in time and stays within its
  range, the sum of two curves is exact at every breakpoint and keeps validity and
  direction, the piecewise form of a saturating-linear curve evaluates like the original,
  evaluation of small curves never panics.  Increasing and decreasing curves share one
  proof: \<open>dir True\<close> is \<open>\<le>\<close> and \<open>dir False\<close> is \<open>\<ge>\<close>.
\<close>

section \<open>Direction and interpolation\<close>

definition dir :: "bool \<Rightarrow> nat \<Rightarrow> nat \<Rightarrow> bool" where
  "dir up a b = (if up then a \<le> b else b \<le> a)"

lemma dir_refl [simp]: "dir up a a"
  by (simp add: dir_def)

lemma dir_trans: "dir up a b \<Longrightarrow> dir up b c \<Longrightarrow> dir up a c"
  by (auto simp: dir_def split: if_splits)

lemma dir_add: "dir up a b \<Longrightarrow> dir up c d \<Longrightarrow> dir up (a + c) (b + d)"
  by (auto simp: dir_def split: if_splits)

declare interpolate.simps [simp del]

lemma interpolate_up:
  assumes "y0 < y1"
  shows "interpolate (x0, y0) (x1, y1) x = Ok y \<longleftrightarrow>
    x0 \<le> x \<and> x0 < x1 \<and> (y1 - y0) * (x - x0) < u128_lim \<and> y < u128_lim \<and>
    y = y0 + (y1 - y0) * (x - x0) div (x1 - x0)"
  using assms by (auto simp: interpolate.simps outcome_simps arith_simps)

lemma interpolate_down:
  assumes "y1 \<le> y0"
  shows "interpolate (x0, y0) (x1, y1) x = Ok y \<longleftrightarrow>
    x0 \<le> x \<and> x0 < x1 \<and> (y0 - y1) * (x - x0) < u128_lim \<and>
    (y0 - y1) * (x - x0) div (x1 - x0) \<le> y0 \<and>
    y = y0 - (y0 - y1) * (x - x0) div (x1 - x0)"
  using assms by (auto simp: interpolate.simps outcome_simps arith_simps)

lemma share_le: "x \<le> x1 \<Longrightarrow> d * (x - x0) div (x1 - x0) \<le> (d::nat)"
  by (metis diff_le_mono div_le_mono div_mult_self_is_m le_zero_eq mult_le_mono2
      not_gr_zero div_by_0 zero_le)

lemma share_mono: "x \<le> x' \<Longrightarrow> d * (x - x0) div w \<le> d * (x' - x0) div (w::nat)"
  by (simp add: diff_le_mono div_le_mono)

lemma interpolate_dir:
  assumes "interpolate (x0, y0) (x1, y1) x = Ok y" and "dir up y0 y1" and "x \<le> x1"
  shows "dir up y0 y \<and> dir up y y1"
proof (cases "y0 < y1")
  case True
  define q where "q = (y1 - y0) * (x - x0) div (x1 - x0)"
  from assms(1) True have "y = y0 + q" by (simp only: interpolate_up q_def)
  moreover have "q \<le> y1 - y0" unfolding q_def by (rule share_le) (rule assms(3))
  ultimately show ?thesis using True assms(2) by (cases up) (auto simp: dir_def)
next
  case False
  define q where "q = (y0 - y1) * (x - x0) div (x1 - x0)"
  from assms(1) False have "y = y0 - q" by (simp only: interpolate_down q_def not_less)
  moreover have "q \<le> y0 - y1" unfolding q_def by (rule share_le) (rule assms(3))
  ultimately show ?thesis using False assms(2) by (cases up) (auto simp: dir_def)
qed

lemma interpolate_mono:
  assumes "interpolate (x0, y0) (x1, y1) x = Ok y" and "interpolate (x0, y0) (x1, y1) x' = Ok y'"
    and "dir up y0 y1" and "x \<le> x'"
  shows "dir up y y'"
proof (cases "y0 < y1")
  case True
  with assms(1,2) have "y = y0 + (y1 - y0) * (x - x0) div (x1 - x0)"
    "y' = y0 + (y1 - y0) * (x' - x0) div (x1 - x0)"
    by (simp_all only: interpolate_up)
  with share_mono [OF assms(4)] True assms(3) show ?thesis by (simp add: dir_def split: if_splits)
next
  case False
  with assms(1,2) have "y = y0 - (y0 - y1) * (x - x0) div (x1 - x0)"
    "y' = y0 - (y0 - y1) * (x' - x0) div (x1 - x0)"
    by (simp_all only: interpolate_down not_less)
  with share_mono [OF assms(4)] False assms(3) show ?thesis
    by (cases "y0 = y1") (auto simp: dir_def diff_le_mono2 split: if_splits)
qed

lemma interpolate_end:
  "interpolate (x0, y0) (x1, y1) x1 = Ok y \<Longrightarrow> y = y1"
  by (cases "y0 < y1") (auto simp: interpolate_up interpolate_down)

lemma interpolate_start:
  "interpolate (x0, y0) (x1, y1) x0 = Ok y \<Longrightarrow> y = y0"
  by (cases "y0 < y1") (auto simp: interpolate_up interpolate_down)

section \<open>The scan over the steps\<close>

text \<open>Steps with increasing times whose values move in one direction.\<close>

definition chain :: "bool \<Rightarrow> (nat \<times> nat) list \<Rightarrow> bool" where
  "chain up ss = sorted_wrt (\<lambda>p q. fst p < fst q \<and> dir up (snd p) (snd q)) ss"

lemma chain_Cons: "chain up (s # ss) \<longleftrightarrow>
    (\<forall>t \<in> set ss. fst s < fst t \<and> dir up (snd s) (snd t)) \<and> chain up ss"
  by (simp add: chain_def)

lemma pl_pick_Some_bounds:
  assumes "pl_pick x (Some l, n) = (Ok y :: ('e, nat) outcome)" and "fst l < fst n" and "dir up (snd l) (snd n)"
  shows "dir up (snd l) y \<and> dir up y (snd n)"
proof -
  consider "x = fst l" | "x \<noteq> fst l" "x \<ge> fst n" | "x \<noteq> fst l" "x < fst n" by linarith
  then show ?thesis
  proof cases
    case 3
    with assms(1) have "interpolate (fst l, snd l) (fst n, snd n) x = (Ok y :: ('e, nat) outcome)" by simp
    then show ?thesis by (rule interpolate_dir) (use assms(3) 3 in simp_all)
  qed (use assms in auto)
qed

lemma pl_pick_Some_mono:
  assumes "pl_pick x (Some l, n) = (Ok y :: ('e, nat) outcome)"
    and "pl_pick x' (Some l, n) = (Ok y' :: ('e, nat) outcome)"
    and "fst l < fst n" and "dir up (snd l) (snd n)" and "fst l \<le> x" and "x \<le> x'"
  shows "dir up y y'"
proof -
  note b = pl_pick_Some_bounds [OF assms(1,3,4)] and b' = pl_pick_Some_bounds [OF assms(2,3,4)]
  consider "x = fst l" | "x' \<ge> fst n" "x' \<noteq> fst l" | "x \<noteq> fst l" "x' \<noteq> fst l" "x' < fst n"
    using assms(5,6) by linarith
  then show ?thesis
  proof cases
    case 3
    with assms(1,2,6) have "interpolate (fst l, snd l) (fst n, snd n) x = (Ok y :: ('e, nat) outcome)"
      "interpolate (fst l, snd l) (fst n, snd n) x' = (Ok y' :: ('e, nat) outcome)" by simp_all
    then show ?thesis by (rule interpolate_mono) (use assms(4,6) in simp_all)
  qed (use assms(1,2) b b' in auto)
qed

lemma pl_scan_lower:
  assumes "pl_pick x (pl_scan x (Some l) n ss) = Ok y" and "chain up (l # n # ss)"
  shows "dir up (snd l) y"
  using assms
proof (induction ss arbitrary: l n)
  case Nil
  then show ?case using pl_pick_Some_bounds [of x l n y up] by (auto simp: chain_Cons)
next
  case (Cons s ss)
  show ?case
  proof (cases "x \<ge> fst n")
    case True
    with Cons.prems have "dir up (snd n) y"
      by (intro Cons.IH [of n s]) (auto simp: chain_Cons)
    moreover from Cons.prems have "dir up (snd l) (snd n)" by (simp add: chain_Cons)
    ultimately show ?thesis by (rule dir_trans [rotated])
  next
    case False
    with Cons.prems show ?thesis
      using pl_pick_Some_bounds [of x l n y up] by (auto simp: chain_Cons)
  qed
qed

lemma pl_scan_mono_Some:
  assumes "pl_pick x (pl_scan x (Some l) n ss) = (Ok y :: ('e, nat) outcome)"
    and "pl_pick x' (pl_scan x' (Some l) n ss) = (Ok y' :: ('e, nat) outcome)"
    and "chain up (l # n # ss)" and "fst l \<le> x" and "x \<le> x'"
  shows "dir up y y'"
  using assms
proof (induction ss arbitrary: l n)
  case Nil
  then show ?case using pl_pick_Some_mono [of x l n y x' y' up] by (auto simp: chain_Cons)
next
  case (Cons s ss)
  have ln: "fst l < fst n" "dir up (snd l) (snd n)" using Cons.prems(3) by (auto simp: chain_Cons)
  consider "x \<ge> fst n" | "x < fst n" "x' \<ge> fst n" | "x' < fst n" by linarith
  then show ?case
  proof cases
    case 1
    with Cons.prems show ?thesis by (intro Cons.IH [of n s]) (auto simp: chain_Cons)
  next
    case 2
    with Cons.prems(1) have "pl_pick x (Some l, n) = (Ok y :: ('e, nat) outcome)"
      by (simp del: pl_pick.simps)
    from pl_pick_Some_bounds [OF this ln] have "dir up y (snd n)" by simp
    moreover from 2 Cons.prems(2,3) have "dir up (snd n) y'"
      by (intro pl_scan_lower [of x' n s ss y' up]) (auto simp: chain_Cons)
    ultimately show ?thesis by (rule dir_trans)
  next
    case 3
    with Cons.prems ln show ?thesis using pl_pick_Some_mono [of x l n y x' y' up] by auto
  qed
qed

lemma pl_value_mono:
  assumes "pl_value p x = (Ok y :: ('e, nat) outcome)"
    and "pl_value p x' = (Ok y' :: ('e, nat) outcome)" and "chain up (steps p)" and "x \<le> x'"
  shows "dir up y y'"
proof -
  from assms(1) obtain s ss where st: "steps p = s # ss"
    by (auto simp: pl_value_def split: list.splits)
  show ?thesis
  proof (cases ss)
    case Nil
    with assms st show ?thesis by (simp add: pl_value_def)
  next
    case (Cons t ts)
    consider "fst s \<le> x" | "x < fst s" "fst s \<le> x'" | "x' < fst s" by linarith
    then show ?thesis
    proof cases
      case 1
      with assms st Cons show ?thesis
        by (intro pl_scan_mono_Some [of x s t ts y x' y' up]) (auto simp: pl_value_def)
    next
      case 2
      with assms st Cons have "y = snd s" and "dir up (snd s) y'"
        by (auto simp: pl_value_def intro: pl_scan_lower [of x' s t ts y' up])
      then show ?thesis by simp
    next
      case 3
      with assms st Cons show ?thesis by (auto simp: pl_value_def)
    qed
  qed
qed

section \<open>What validation establishes\<close>

lemma pl_order_fold:
  "(\<exists>b. fold_ok pl_order_step ss a = Ok b) \<longleftrightarrow> sorted_wrt (<) (a # map fst ss)"
proof (induction ss arbitrary: a)
  case (Cons s ss)
  then show ?case by (auto simp: pl_order_step_def)
qed simp

lemma pl_validate_Ok_iff:
  "pl_validate p = Ok u \<longleftrightarrow> steps p \<noteq> [] \<and> sorted_wrt (<) (0 # map fst (steps p))"
  using pl_order_fold [of "steps p" 0] by (auto simp: pl_validate_def outcome_simps)

definition shape_ok :: "bool \<Rightarrow> shape \<Rightarrow> bool" where
  "shape_ok up sh = (sh = Shape_constant \<or> sh = (if up then Shape_increasing else Shape_decreasing))"

lemma shape_ok_next: "shape_ok up (next_shape sh a y) \<longleftrightarrow> shape_ok up sh \<and> dir up a y"
  by (cases sh) (auto simp: shape_ok_def dir_def)

lemma shape_ok_classify:
  "shape_ok up (classify_from a sh ss) \<longleftrightarrow> shape_ok up sh \<and> sorted_wrt (dir up) (a # map snd ss)"
proof (induction ss arbitrary: a sh)
  case (Cons s ss)
  then show ?case by (auto simp: shape_ok_next intro: dir_trans)
qed simp

lemma chain_iff:
  "chain up ss \<longleftrightarrow> sorted_wrt (<) (map fst ss) \<and> sorted_wrt (dir up) (map snd ss)"
  by (induction ss) (auto simp: chain_def)

definition pl_mono :: "bool \<Rightarrow> piecewise_linear \<Rightarrow> (curve_error, unit) outcome" where
  "pl_mono up p =
     (if up then pl_validate_monotonic_increasing p else pl_validate_monotonic_decreasing p)"

lemma pl_mono_Ok_iff: "pl_mono up p = Ok u \<longleftrightarrow> pl_validate p = Ok () \<and> chain up (steps p)"
proof (cases "steps p")
  case Nil
  then show ?thesis
    by (simp add: pl_mono_def pl_validate_monotonic_increasing_def
        pl_validate_monotonic_decreasing_def pl_validate_def)
next
  case (Cons s ss)
  have "pl_mono up p = Ok u \<longleftrightarrow>
      pl_validate p = Ok () \<and> shape_ok up (classify_from (snd s) Shape_constant ss)"
    using Cons
    by (auto simp: pl_mono_def pl_validate_monotonic_increasing_def classify_curve_def
        pl_validate_monotonic_decreasing_def outcome_simps shape_ok_def split: shape.splits)
  also have "\<dots> \<longleftrightarrow> pl_validate p = Ok () \<and> sorted_wrt (dir up) (map snd (steps p))"
    by (simp add: shape_ok_classify Cons) (simp add: shape_ok_def)
  finally show ?thesis by (auto simp: chain_iff pl_validate_Ok_iff)
qed

text \<open>
  The direction of a curve without the side condition of \<open>validate\<close> that the first step of
  a piecewise curve lies after time 0; sums of valid curves satisfy this form.
\<close>

fun curve_dir :: "bool \<Rightarrow> curve \<Rightarrow> bool" where
  "curve_dir up (Constant y) = True"
| "curve_dir up (Saturating_linear s) = (min_x s < max_x s \<and> dir up (min_y s) (max_y s))"
| "curve_dir up (Piecewise_linear p) = (steps p \<noteq> [] \<and> chain up (steps p))"

lemma validate_increasing_dir: "validate_monotonic_increasing c = Ok u \<Longrightarrow> curve_dir True c"
  by (cases c) (auto simp: sl_validate_monotonic_increasing_def sl_validate_def dir_def outcome_simps
      pl_validate_Ok_iff pl_mono_Ok_iff [of True, simplified pl_mono_def if_True] split: if_splits)

lemma validate_decreasing_dir: "validate_monotonic_decreasing c = Ok u \<Longrightarrow> curve_dir False c"
  by (cases c) (auto simp: sl_validate_monotonic_decreasing_def sl_validate_def dir_def outcome_simps
      pl_validate_Ok_iff pl_mono_Ok_iff [of False, simplified pl_mono_def if_False] split: if_splits)

lemma sl_value_mono:
  assumes "sl_value s x = (Ok y :: ('e, nat) outcome)"
    and "sl_value s x' = (Ok y' :: ('e, nat) outcome)"
    and "dir up (min_y s) (max_y s)" and "x \<le> x'"
  shows "dir up y y'"
proof -
  let ?i = "\<lambda>x. interpolate (min_x s, min_y s) (max_x s, max_y s) x :: ('e, nat) outcome"
  consider "x < min_x s" "x' < min_x s" | "x < min_x s" "min_x s \<le> x'" "x' \<le> max_x s"
    | "x < min_x s" "min_x s \<le> x'" "max_x s < x'"
    | "min_x s \<le> x" "x' \<le> max_x s" | "min_x s \<le> x" "x \<le> max_x s" "max_x s < x'"
    | "min_x s \<le> x" "max_x s < x" using assms(4) by linarith
  then show ?thesis
  proof cases
    case 2
    with assms(1,2) have "y = min_y s" "?i x' = Ok y'" by (auto simp: sl_value_def)
    with interpolate_dir [OF this(2) assms(3)] 2 show ?thesis by simp
  next
    case 4
    with assms(1,2,4) have "?i x = Ok y" "?i x' = Ok y'" by (auto simp: sl_value_def)
    then show ?thesis using assms(3,4) by (rule interpolate_mono)
  next
    case 5
    with assms(1,2) have "y' = max_y s" "?i x = Ok y" by (auto simp: sl_value_def)
    with interpolate_dir [OF this(2) assms(3)] 5 show ?thesis by simp
  qed (use assms in \<open>auto simp: sl_value_def\<close>)
qed

lemma curve_dir_mono:
  assumes "curve_value c x = (Ok y :: ('e, nat) outcome)"
    and "curve_value c x' = (Ok y' :: ('e, nat) outcome)" and "curve_dir up c" and "x \<le> x'"
  shows "dir up y y'"
  using assms by (cases c) (auto intro: sl_value_mono pl_value_mono)

section \<open>Range\<close>

lemma foldl_min_le: "foldl min a ys \<le> (a::nat) \<and> (\<forall>y \<in> set ys. foldl min a ys \<le> y)"
proof (induction ys arbitrary: a)
  case (Cons b ys)
  show ?case using Cons.IH [of "min a b"] by auto
qed simp

lemma foldl_max_ge: "(a::nat) \<le> foldl max a ys \<and> (\<forall>y \<in> set ys. y \<le> foldl max a ys)"
proof (induction ys arbitrary: a)
  case (Cons b ys)
  show ?case using Cons.IH [of "max a b"] by auto
qed simp

lemma pl_range_bounds:
  assumes "pl_range p = Ok (lo, hi)" and "s \<in> set (steps p)"
  shows "lo \<le> snd s \<and> snd s \<le> hi"
proof -
  from assms(1) obtain y ys where st: "map snd (steps p) = y # ys"
    and "lo = foldl min y ys" "hi = foldl max y ys"
    by (auto simp: pl_range_def split: list.splits)
  moreover from st assms(2) have "snd s \<in> set (y # ys)"
    by (metis imageI set_map)
  ultimately show ?thesis using foldl_min_le [of y ys] foldl_max_ge [of y ys] by auto
qed

lemma dir_between:
  assumes "dir (y0 \<le> y1) y0 y \<and> dir (y0 \<le> y1) y y1" and "lo \<le> y0" "y0 \<le> hi" "lo \<le> y1" "y1 \<le> hi"
  shows "lo \<le> y \<and> y \<le> hi"
  using assms by (auto simp: dir_def split: if_splits)

lemma pl_scan_members:
  assumes "pl_scan x prev n ss = (prev', n')"
    and "sorted_wrt (<) (map fst (n # ss))"
    and "\<And>l. prev = Some l \<Longrightarrow> l \<in> S \<and> fst l < fst n \<and> fst l \<le> x" and "set (n # ss) \<subseteq> S"
  shows "n' \<in> S \<and> (\<forall>l. prev' = Some l \<longrightarrow> l \<in> S \<and> fst l < fst n' \<and> fst l \<le> x)"
  using assms
proof (induction ss arbitrary: prev n)
  case (Cons s ss)
  show ?case
  proof (cases "x \<ge> fst n")
    case True
    with Cons.prems show ?thesis by (intro Cons.IH [of "Some n" s]) auto
  qed (use Cons.prems in auto)
qed auto

lemma pl_scan_mem:
  "pl_scan x prev n ss = (prev', n') \<Longrightarrow>
     n' \<in> set (n # ss) \<and> (\<forall>l. prev' = Some l \<longrightarrow> prev = Some l \<or> l \<in> set (n # ss))"
proof (induction ss arbitrary: prev n)
  case (Cons s ss)
  show ?case
  proof (cases "x \<ge> fst n")
    case True
    with Cons.prems Cons.IH [of "Some n" s] show ?thesis by auto
  qed (use Cons.prems in auto)
qed simp

lemma pl_scan_start:
  assumes "steps p = s # ss" and "pl_validate p = Ok u" and "pl_scan x None s ss = (prev, n)"
  shows "n \<in> set (steps p) \<and> (\<forall>l. prev = Some l \<longrightarrow> l \<in> set (steps p) \<and> fst l < fst n \<and> fst l \<le> x)"
  using pl_scan_members [OF assms(3), of "set (steps p)"] assms(1,2)
  by (auto simp: pl_validate_Ok_iff)

lemma pl_value_in_range:
  assumes "pl_value p x = (Ok y :: ('e, nat) outcome)" and "pl_validate p = Ok u"
    and "pl_range p = (Ok (lo, hi) :: ('f, nat \<times> nat) outcome)"
  shows "lo \<le> y \<and> y \<le> hi"
proof -
  from assms(1) obtain s ss where st: "steps p = s # ss"
    by (auto simp: pl_value_def split: list.splits)
  obtain prev n where sc: "pl_scan x None s ss = (prev, n)" by (rule prod.exhaust)
  with assms(1) st have pick: "pl_pick x (prev, n) = (Ok y :: ('e, nat) outcome)"
    by (simp add: pl_value_def)
  note mem = pl_scan_start [OF st assms(2) sc] and rb = pl_range_bounds [OF assms(3)]
  show ?thesis
  proof (cases prev)
    case None
    with pick mem rb [of n] show ?thesis by simp
  next
    case (Some l)
    with mem have l: "l \<in> set (steps p)" "fst l < fst n" by auto
    have "dir (snd l \<le> snd n) (snd l) (snd n)" by (simp add: dir_def)
    from pl_pick_Some_bounds [OF pick [unfolded Some] l(2) this]
    show ?thesis by (rule dir_between) (use mem rb l in auto)
  qed
qed

lemma sl_value_in_range:
  assumes "sl_value s x = (Ok y :: ('e, nat) outcome)" and "sl_range s = (lo, hi)"
  shows "lo \<le> y \<and> y \<le> hi"
proof (cases "min_x s \<le> x \<and> x \<le> max_x s")
  case True
  with assms(1)
  have "interpolate (min_x s, min_y s) (max_x s, max_y s) x = (Ok y :: ('e, nat) outcome)"
    by (auto simp: sl_value_def)
  moreover have "dir (min_y s \<le> max_y s) (min_y s) (max_y s)" by (simp add: dir_def)
  ultimately have "dir (min_y s \<le> max_y s) (min_y s) y \<and> dir (min_y s \<le> max_y s) y (max_y s)"
    by (rule interpolate_dir) (use True in simp)
  then show ?thesis by (rule dir_between) (use assms(2) in \<open>auto simp: sl_range_def split: if_splits\<close>)
qed (use assms in \<open>auto simp: sl_value_def sl_range_def split: if_splits\<close>)

section \<open>Evaluation without panics\<close>

lemma interpolate_total:
  assumes "x0 \<le> x" "x \<le> x1" "x0 < x1" and "y0 < u64_lim" "y1 < u64_lim" "x < u64_lim"
  shows "\<exists>y. interpolate (x0, y0) (x1, y1) x = Ok y"
proof -
  have lim: "u64_lim * u64_lim = u128_lim" "u64_lim < u128_lim"
    by (simp_all add: u64_lim_def u128_lim_def)
  have bound: "d * (x - x0) < u128_lim" if "d < u64_lim" for d
    unfolding lim(1) [symmetric] by (rule mult_strict_mono') (use that assms(6) in auto)
  have share: "d * (x - x0) div (x1 - x0) \<le> d" for d
    by (rule share_le) (rule assms(2))
  show ?thesis
  proof (cases "y0 < y1")
    case True
    define q where "q = (y1 - y0) * (x - x0) div (x1 - x0)"
    have "q \<le> y1 - y0" using share by (simp add: q_def)
    with assms(5) lim(2) True have "y0 + q < u128_lim" by linarith
    with assms(1,3) True bound [of "y1 - y0"] assms(5) show ?thesis
      by (auto simp: interpolate_up q_def)
  next
    case False
    have "(y0 - y1) * (x - x0) div (x1 - x0) \<le> y0"
      using share [of "y0 - y1"] by linarith
    with assms(1,3,4) False bound [of "y0 - y1"] show ?thesis
      by (auto simp: interpolate_down not_less)
  qed
qed

fun curve_points :: "curve \<Rightarrow> nat list" where
  "curve_points (Constant y) = [y]"
| "curve_points (Saturating_linear s) = [min_y s, max_y s]"
| "curve_points (Piecewise_linear p) = map snd (steps p)"

lemma pl_value_total:
  assumes "pl_validate p = Ok u" and "\<forall>s \<in> set (steps p). snd s < u64_lim" and "x < u64_lim"
  shows "\<exists>y. pl_value p x = Ok y"
proof -
  from assms(1) obtain s ss where st: "steps p = s # ss"
    by (cases "steps p") (auto simp: pl_validate_def)
  obtain prev n where sc: "pl_scan x None s ss = (prev, n)" by (rule prod.exhaust)
  note mem = pl_scan_start [OF st assms(1) sc]
  show ?thesis
  proof (cases prev)
    case None
    with sc st show ?thesis by (simp add: pl_value_def)
  next
    case (Some l)
    have "\<exists>y. interpolate (fst l, snd l) (fst n, snd n) x = Ok y" if "x < fst n"
      by (rule interpolate_total) (use mem Some that assms(2,3) in auto)
    with sc st Some show ?thesis by (auto simp: pl_value_def)
  qed
qed

section \<open>Sums of curves\<close>

lemma pl_scan_at_step:
  assumes "sorted_wrt (<) (map fst (l # n # ss))" and "(x, y) \<in> set (l # n # ss)" and "fst l \<le> x"
  shows "pl_pick x (pl_scan x (Some l) n ss) = (Ok y :: ('e, nat) outcome)"
  using assms
proof (induction ss arbitrary: l n)
  case (Cons s ss)
  show ?case
  proof (cases "x \<ge> fst n")
    case True
    with Cons.prems have "pl_pick x (pl_scan x (Some n) s ss) = (Ok y :: ('e, nat) outcome)"
      by (intro Cons.IH [of n s]) auto
    with True show ?thesis by simp
  qed (use Cons.prems in auto)
qed auto

lemma pl_value_at_step:
  assumes "sorted_wrt (<) (map fst (steps p))" and "(x, y) \<in> set (steps p)"
  shows "pl_value p x = Ok y"
proof -
  from assms(2) obtain s ss where st: "steps p = s # ss" by (cases "steps p") auto
  show ?thesis
  proof (cases ss)
    case Nil
    with assms st show ?thesis by (auto simp: pl_value_def)
  next
    case (Cons t ts)
    show ?thesis
    proof (cases "x \<ge> fst s")
      case True
      with assms st Cons pl_scan_at_step [of s t ts x y] show ?thesis by (simp add: pl_value_def)
    next
      case False
      with assms st Cons show ?thesis by (auto simp: pl_value_def)
    qed
  qed
qed

lemma strict_remdups_adj: "sorted xs \<Longrightarrow> sorted_wrt (<) (remdups_adj (xs :: nat list))"
proof (induction xs rule: remdups_adj.induct)
  case (3 x y xs)
  show ?case
  proof (cases "x = y")
    case False
    with 3 have "x < y" "\<forall>z \<in> set xs. y \<le> z" "sorted_wrt (<) (remdups_adj (y # xs))" by auto
    with False show ?thesis by fastforce
  qed (use 3 in simp)
qed simp_all

lemma strict_remdups_adj_sort: "sorted_wrt (<) (remdups_adj (sort (xs :: nat list)))"
  by (rule strict_remdups_adj) simp

lemma pl_combine_steps:
  assumes "pl_combine p q = (Ok r :: ('e, piecewise_linear) outcome)"
  shows "map fst (steps r) = remdups_adj (sort (map fst (steps p @ steps q)))"
    and "\<And>x y. (x, y) \<in> set (steps r) \<Longrightarrow>
           \<exists>a b. pl_value p x = (Ok a :: ('e, nat) outcome) \<and>
                 pl_value q x = (Ok b :: ('e, nat) outcome) \<and> y = a + b"
proof -
  let ?xs = "remdups_adj (sort (map fst (steps p @ steps q)))"
  let ?f = "\<lambda>x. and_then (pl_value p x) (\<lambda>a. and_then (pl_value q x) (\<lambda>b.
    and_then (u128_add a b) (\<lambda>y. Ok (x, y)))) :: ('e, nat \<times> nat) outcome"
  from assms obtain ss where ss: "map ?f ?xs = map Ok ss" and r: "r = \<lparr> steps = ss \<rparr>"
    by (auto simp: pl_combine_def Let_def outcome_simps map_ok_Ok_iff)
  have len: "length ?xs = length ss" using arg_cong [OF ss, of length] by simp
  have nth: "?f (?xs ! i) = Ok (ss ! i)" if "i < length ss" for i
    using arg_cong [OF ss, of "\<lambda>l. l ! i"] that len by simp
  show "map fst (steps r) = ?xs"
  proof (rule nth_equalityI)
    show "length (map fst (steps r)) = length ?xs" by (simp add: r len del: map_append)
    show "map fst (steps r) ! i = ?xs ! i" if "i < length (map fst (steps r))" for i
      using nth [of i] that by (simp add: r outcome_simps) (metis fst_conv)
  qed
  show "\<exists>a b. pl_value p x = (Ok a :: ('e, nat) outcome) \<and>
      pl_value q x = (Ok b :: ('e, nat) outcome) \<and> y = a + b" if "(x, y) \<in> set (steps r)" for x y
  proof -
    from that obtain i where "i < length ss" "ss ! i = (x, y)"
      by (auto simp: r in_set_conv_nth)
    with nth [of i] show ?thesis by (auto simp: outcome_simps arith_simps)
  qed
qed

lemma pl_combine_sorted: "pl_combine p q = Ok r \<Longrightarrow> sorted_wrt (<) (map fst (steps r))"
  by (simp add: pl_combine_steps(1) strict_remdups_adj_sort)

lemma pl_combine_chain:
  assumes "pl_combine p q = (Ok r :: ('e, piecewise_linear) outcome)"
    and "chain up (steps p)" and "chain up (steps q)"
  shows "chain up (steps r)"
proof -
  have "sorted_wrt (dir up) (map snd (steps r))"
    unfolding sorted_wrt_iff_nth_less
  proof (intro allI impI)
    fix i j assume ij: "i < j" "j < length (map snd (steps r))"
    obtain x y where i: "steps r ! i = (x, y)" by (rule prod.exhaust)
    obtain x' y' where j: "steps r ! j = (x', y')" by (rule prod.exhaust)
    from ij i j have mem: "(x, y) \<in> set (steps r)" "(x', y') \<in> set (steps r)"
      by (metis length_map less_trans nth_mem)+
    have "x < x'"
      using sorted_wrt_nth_less [OF pl_combine_sorted [OF assms(1)] ij(1)] ij i j by simp
    obtain a b where ab: "pl_value p x = (Ok a :: ('e, nat) outcome)"
      "pl_value q x = (Ok b :: ('e, nat) outcome)" "y = a + b"
      using pl_combine_steps(2) [OF assms(1) mem(1)] by auto
    obtain a' b' where ab': "pl_value p x' = (Ok a' :: ('e, nat) outcome)"
      "pl_value q x' = (Ok b' :: ('e, nat) outcome)" "y' = a' + b'"
      using pl_combine_steps(2) [OF assms(1) mem(2)] by auto
    have "dir up (a + b) (a' + b')"
      by (intro dir_add pl_value_mono [OF ab(1) ab'(1) assms(2)]
          pl_value_mono [OF ab(2) ab'(2) assms(3)]) (use \<open>x < x'\<close> in simp_all)
    with ij i j ab(3) ab'(3) show "dir up (map snd (steps r) ! i) (map snd (steps r) ! j)" by simp
  qed
  with pl_combine_sorted [OF assms(1)] show ?thesis by (simp add: chain_iff)
qed

lemma pl_combine_nonempty:
  assumes "pl_combine p q = Ok r" and "steps p \<noteq> []"
  shows "steps r \<noteq> []"
proof -
  have "set (map fst (steps r)) = set (map fst (steps p @ steps q))"
    by (simp add: pl_combine_steps(1) [OF assms(1)])
  with assms(2) show ?thesis by (cases "steps p") auto
qed

lemma chain_shift:
  "map_ok (\<lambda>s. and_then (u128_add c (snd s)) (\<lambda>y. Ok (fst s, y))) ss = Ok ts \<Longrightarrow>
     ts = map (\<lambda>s. (fst s, c + snd s)) ss"
  by (induction ss arbitrary: ts) (auto simp: outcome_simps arith_simps)

lemma chain_add: "chain up ss \<Longrightarrow> chain up (map (\<lambda>s. (fst s, c + snd s)) ss)"
  by (induction ss) (auto simp: chain_Cons chain_def dir_def)

lemma combine_const_dir:
  "combine_const c k = Ok e \<Longrightarrow> curve_dir up c \<Longrightarrow> curve_dir up e"
  by (cases c) (auto simp: outcome_simps arith_simps dir_def dest!: chain_shift intro: chain_add)

lemma chain_pl_from: "min_x s < max_x s \<Longrightarrow> dir up (min_y s) (max_y s) \<Longrightarrow> chain up (steps (pl_from s))"
  by (simp add: pl_from_def chain_def)

lemma pl_from_nonempty [simp]: "steps (pl_from s) \<noteq> []"
  by (simp add: pl_from_def)

lemma pl_combine_dir:
  assumes "pl_combine p q = Ok r" and "steps p \<noteq> [] \<and> chain up (steps p)"
    and "steps q \<noteq> [] \<and> chain up (steps q)"
  shows "steps r \<noteq> [] \<and> chain up (steps r)"
  using pl_combine_chain [OF assms(1)] pl_combine_nonempty [OF assms(1)] assms(2,3) by blast

text \<open>The piecewise form of a curve that is not constant.\<close>

fun as_piecewise :: "curve \<Rightarrow> piecewise_linear option" where
  "as_piecewise (Constant y) = None"
| "as_piecewise (Saturating_linear s) = Some (pl_from s)"
| "as_piecewise (Piecewise_linear p) = Some p"

lemma as_piecewise_dir:
  "as_piecewise c = Some p \<Longrightarrow> curve_dir up c \<Longrightarrow> steps p \<noteq> [] \<and> chain up (steps p)"
  by (cases c) (auto simp: chain_pl_from)

lemma curve_combine_cases:
  assumes "curve_combine c d = (Ok e :: ('e, curve) outcome)"
  obtains (const_left) y where "c = Constant y" "combine_const d y = (Ok e :: ('e, curve) outcome)"
    | (const_right) y where "d = Constant y" "combine_const c y = (Ok e :: ('e, curve) outcome)"
    | (pieces) p q r where "as_piecewise c = Some p" "as_piecewise d = Some q"
        "pl_combine p q = (Ok r :: ('e, piecewise_linear) outcome) \<or>
         pl_combine q p = (Ok r :: ('e, piecewise_linear) outcome)" "e = Piecewise_linear r"
  using assms by (cases c; cases d) (auto simp: outcome_simps simp del: combine_const.simps)

lemma curve_combine_dir:
  assumes "curve_combine c d = (Ok e :: ('e, curve) outcome)"
    and "curve_dir up c" and "curve_dir up d"
  shows "curve_dir up e"
  using assms(1)
proof (cases rule: curve_combine_cases)
  case (pieces p q r)
  have "steps r \<noteq> [] \<and> chain up (steps r)"
    using pieces(3) as_piecewise_dir [OF pieces(1) assms(2)] as_piecewise_dir [OF pieces(2) assms(3)]
    by (auto dest: pl_combine_dir)
  with pieces(4) show ?thesis by simp
qed (use assms combine_const_dir in blast)+

text \<open>The breakpoints of a curve, and the breakpoints of a sum.\<close>

fun breakpoints :: "curve \<Rightarrow> nat list" where
  "breakpoints (Constant y) = []"
| "breakpoints (Saturating_linear s) = [min_x s, max_x s]"
| "breakpoints (Piecewise_linear p) = map fst (steps p)"

lemma pl_combine_at:
  assumes "pl_combine p q = (Ok r :: ('e, piecewise_linear) outcome)"
    and "x \<in> set (map fst (steps p @ steps q))"
  shows "\<exists>a b. pl_value p x = (Ok a :: ('e, nat) outcome) \<and>
    pl_value q x = (Ok b :: ('e, nat) outcome) \<and> pl_value r x = Ok (a + b)"
proof -
  have "x \<in> set (map fst (steps r))"
    using assms(2) by (simp only: pl_combine_steps(1) [OF assms(1)] remdups_adj_set set_sort)
  then obtain y where "(x, y) \<in> set (steps r)" by auto
  with pl_combine_steps(2) [OF assms(1)] pl_value_at_step [OF pl_combine_sorted [OF assms(1)]]
  show ?thesis by fastforce
qed

lemma pl_from_value:
  assumes "sl_value s x = (Ok y :: ('e, nat) outcome)" and "min_x s < max_x s"
  shows "pl_value (pl_from s) x = (Ok y :: ('e, nat) outcome)"
proof -
  let ?i = "interpolate (min_x s, min_y s) (max_x s, max_y s) :: nat \<Rightarrow> ('e, nat) outcome"
  consider "x < min_x s" | "x = min_x s" | "min_x s < x" "x < max_x s" | "x = max_x s" | "max_x s < x"
    by linarith
  then show ?thesis
  proof cases
    case 2
    with assms have "?i (min_x s) = Ok y" by (simp add: sl_value_def)
    then have "y = min_y s" by (rule interpolate_start)
    with 2 show ?thesis by (simp add: pl_value_def pl_from_def)
  next
    case 4
    with assms have "?i (max_x s) = Ok y" by (simp add: sl_value_def)
    then have "y = max_y s" by (rule interpolate_end)
    with 4 assms(2) show ?thesis by (simp add: pl_value_def pl_from_def)
  qed (use assms in \<open>simp_all add: pl_value_def pl_from_def sl_value_def\<close>)
qed

lemma interpolate_shift:
  assumes "interpolate (x0, y0) (x1, y1) x = (Ok y :: ('e, nat) outcome)" and "x \<le> x1"
    and "k + y0 < u128_lim" "k + y1 < u128_lim"
  shows "interpolate (x0, k + y0) (x1, k + y1) x = (Ok (k + y) :: ('e, nat) outcome)"
proof (cases "y0 < y1")
  case True
  define q where "q = (y1 - y0) * (x - x0) div (x1 - x0)"
  have "q \<le> y1 - y0" unfolding q_def by (rule share_le) (rule assms(2))
  with assms(1,4) True show ?thesis by (auto simp: interpolate_up q_def)
next
  case False
  define q where "q = (y0 - y1) * (x - x0) div (x1 - x0)"
  have "q \<le> y0 - y1" unfolding q_def by (rule share_le) (rule assms(2))
  with assms(1) False show ?thesis by (auto simp: interpolate_down q_def not_less)
qed

lemma pl_scan_map:
  "pl_scan x (map_option (\<lambda>s. (fst s, k + snd s)) prev) (fst n, k + snd n)
      (map (\<lambda>s. (fst s, k + snd s)) ss) =
    (case pl_scan x prev n ss of (l, m) \<Rightarrow>
       (map_option (\<lambda>s. (fst s, k + snd s)) l, (fst m, k + snd m)))"
proof (induction ss arbitrary: prev n)
  case (Cons s ss)
  show ?case using Cons.IH [of "Some n" s] by simp
qed simp

lemma pl_value_shift:
  assumes "pl_value p x = (Ok y :: ('e, nat) outcome)"
    and "\<forall>s \<in> set (steps p). k + snd s < u128_lim"
  shows "pl_value \<lparr> steps = map (\<lambda>s. (fst s, k + snd s)) (steps p) \<rparr> x =
    (Ok (k + y) :: ('e, nat) outcome)"
proof -
  from assms(1) obtain s ss where st: "steps p = s # ss"
    by (auto simp: pl_value_def split: list.splits)
  obtain prev n where sc: "pl_scan x None s ss = (prev, n)" by (rule prod.exhaust)
  have mem: "n \<in> set (steps p)" "\<And>l. prev = Some l \<Longrightarrow> l \<in> set (steps p)"
    using pl_scan_mem [OF sc] st by auto
  have sc': "pl_scan x None (fst s, k + snd s) (map (\<lambda>s. (fst s, k + snd s)) ss) =
      (map_option (\<lambda>s. (fst s, k + snd s)) prev, (fst n, k + snd n))"
    using pl_scan_map [of x k None s ss] sc by simp
  from assms(1) st sc have pick: "pl_pick x (prev, n) = (Ok y :: ('e, nat) outcome)"
    by (simp add: pl_value_def)
  show ?thesis
  proof (cases prev)
    case (Some l)
    have "k + snd l < u128_lim" "k + snd n < u128_lim" using mem Some assms(2) by blast+
    with pick Some interpolate_shift [of "fst l" "snd l" "fst n" "snd n" x y k]
    show ?thesis by (auto simp: pl_value_def st sc' split: if_splits)
  qed (use pick sc' st in \<open>auto simp: pl_value_def\<close>)
qed

lemma sl_value_shift:
  assumes "sl_value s x = (Ok y :: ('e, nat) outcome)"
    and "k + min_y s < u128_lim" "k + max_y s < u128_lim"
  shows "sl_value \<lparr> min_x = min_x s, min_y = min_y s + k, max_x = max_x s, max_y = max_y s + k \<rparr> x =
    (Ok (k + y) :: ('e, nat) outcome)"
  using assms interpolate_shift [of "min_x s" "min_y s" "max_x s" "max_y s" x y k]
  by (auto simp: sl_value_def add.commute split: if_splits)

lemma chain_shift_bound:
  "map_ok (\<lambda>s. and_then (u128_add c (snd s)) (\<lambda>y. Ok (fst s, y))) ss = Ok ts \<Longrightarrow>
     \<forall>s \<in> set ss. c + snd s < u128_lim"
  by (induction ss arbitrary: ts) (auto simp: outcome_simps arith_simps)

lemma combine_const_value:
  assumes "combine_const c k = (Ok e :: ('f, curve) outcome)"
    and "curve_value c x = (Ok y :: ('e, nat) outcome)"
  shows "curve_value e x = (Ok (k + y) :: ('e, nat) outcome)"
proof (cases c)
  case (Saturating_linear s)
  with assms show ?thesis
    by (auto simp: outcome_simps arith_simps add.commute dest: sl_value_shift [where k = k])
next
  case (Piecewise_linear p)
  from assms(1) Piecewise_linear obtain ss where
    ss: "map_ok (\<lambda>s. and_then (u128_add k (snd s)) (\<lambda>y. Ok (fst s, y))) (steps p)
      = (Ok ss :: ('f, (nat \<times> nat) list) outcome)"
    and e: "e = Piecewise_linear \<lparr> steps = ss \<rparr>"
    by (auto simp: outcome_simps)
  have "pl_value p x = (Ok y :: ('e, nat) outcome)" using assms(2) Piecewise_linear by simp
  from pl_value_shift [OF this chain_shift_bound [OF ss]] show ?thesis
    by (simp add: e chain_shift [OF ss])
qed (use assms in \<open>auto simp: outcome_simps arith_simps\<close>)

lemma as_piecewise_value:
  assumes "as_piecewise c = Some p" and "curve_validate c = Ok u"
    and "curve_value c x = (Ok y :: ('e, nat) outcome)"
  shows "pl_value p x = (Ok y :: ('e, nat) outcome)"
proof (cases c)
  case (Saturating_linear s)
  with assms have "sl_value s x = (Ok y :: ('e, nat) outcome)" "min_x s < max_x s"
    by (auto simp: sl_validate_def split: if_splits)
  from pl_from_value [OF this] assms(1) Saturating_linear show ?thesis by simp
qed (use assms in auto)

lemma as_piecewise_breakpoints: "as_piecewise c = Some p \<Longrightarrow> map fst (steps p) = breakpoints c"
  by (cases c) (auto simp: pl_from_def)

lemma combine_at_breakpoint:
  assumes "curve_combine c d = (Ok e :: ('f, curve) outcome)"
    and "curve_validate c = Ok u" "curve_validate d = Ok v"
    and "x \<in> set (breakpoints c) \<union> set (breakpoints d)"
    and "curve_value c x = (Ok a :: ('f, nat) outcome)"
    and "curve_value d x = (Ok b :: ('f, nat) outcome)"
  shows "curve_value e x = (Ok (a + b) :: ('f, nat) outcome)"
  using assms(1)
proof (cases rule: curve_combine_cases)
  case (const_left y)
  with assms(5) combine_const_value [OF const_left(2) assms(6)] show ?thesis by simp
next
  case (const_right y)
  with assms(6) combine_const_value [OF const_right(2) assms(5)] show ?thesis
    by (simp add: add.commute)
next
  case (pieces p q r)
  have pv: "pl_value p x = (Ok a :: ('f, nat) outcome)"
    using pieces(1) assms(2,5) by (rule as_piecewise_value)
  have qv: "pl_value q x = (Ok b :: ('f, nat) outcome)"
    using pieces(2) assms(3,6) by (rule as_piecewise_value)
  have x: "x \<in> set (map fst (steps p @ steps q))" "x \<in> set (map fst (steps q @ steps p))"
    using assms(4) as_piecewise_breakpoints [OF pieces(1)] as_piecewise_breakpoints [OF pieces(2)]
    by (simp_all add: set_map [symmetric] del: set_map) (auto simp del: set_map)
  from pieces(3) have "pl_value r x = (Ok (a + b) :: ('f, nat) outcome)"
  proof
    assume "pl_combine p q = (Ok r :: ('f, piecewise_linear) outcome)"
    from pl_combine_at [OF this x(1)] pv qv show ?thesis by auto
  next
    assume "pl_combine q p = (Ok r :: ('f, piecewise_linear) outcome)"
    from pl_combine_at [OF this x(2)] pv qv show ?thesis by (auto simp: add.commute)
  qed
  with pieces(4) show ?thesis by simp
qed

section \<open>Scaling\<close>

definition scalable_dir :: "bool \<Rightarrow> scalable_curve \<Rightarrow> bool" where
  "scalable_dir up c =
     (case c of
        Scalable_constant r \<Rightarrow> True
      | Scalable_linear s \<Rightarrow> s_min_x s < s_max_x s \<and> dir up (s_min_y s) (s_max_y s)
      | Scalable_piecewise s \<Rightarrow> s_steps s \<noteq> [] \<and> chain up (s_steps s))"

lemma mul_decimal_dir: "dir up d d' \<Longrightarrow> dir up (a * d div decimal_one) (a * d' div decimal_one)"
  by (simp add: dir_def div_le_mono split: if_splits)

lemma scale_steps:
  "map_ok (\<lambda>(x, y). and_then (u128_mul_decimal a y) (\<lambda>v. Ok (x, v))) ss = Ok ts \<Longrightarrow>
     ts = map (\<lambda>s. (fst s, a * snd s div decimal_one)) ss"
  by (induction ss arbitrary: ts) (auto simp: outcome_simps arith_simps)

lemma chain_scale: "chain up ss \<Longrightarrow> chain up (map (\<lambda>s. (fst s, a * snd s div decimal_one)) ss)"
proof (induction ss)
  case (Cons s ss)
  then show ?case by (auto simp: chain_Cons mul_decimal_dir)
qed (simp add: chain_def)

lemma scale_dir: "scale c a = Ok e \<Longrightarrow> scalable_dir up c \<Longrightarrow> curve_dir up e"
  by (cases c)
    (auto simp: scalable_dir_def scale_linear_def scale_piecewise_def outcome_simps arith_simps
      mul_decimal_dir dest!: scale_steps intro: chain_scale)

section \<open>Properties\<close>

text \<open>The linear curves of the unit tests, for the witnesses.\<close>

definition demo_increasing :: curve where
  "demo_increasing =
     Saturating_linear \<lparr> min_x = 100, min_y = 0, max_x = 200, max_y = 50 \<rparr>"

definition demo_decreasing :: curve where
  "demo_decreasing =
     Piecewise_linear \<lparr> steps = [(1700, 500), (1800, 400), (2000, 100)] \<rparr>"

lemmas demo_curves =
  demo_increasing_def demo_decreasing_def interpolate.simps sl_value_def pl_value_def
  sl_validate_monotonic_increasing_def sl_validate_def pl_validate_monotonic_decreasing_def
  pl_validate_def pl_order_step_def classify_curve_def checked_int_defs

text \<open>
  A curve that passes \<open>validate_monotonic_increasing\<close> never decreases: whenever it is
  evaluated at two times, the later time has at least the value of the earlier one.
  This covers the saturating form and every segment of the piecewise form, rounding included.
\<close>

theorem increasing_curve_is_monotone:
  assumes "validate_monotonic_increasing c = Ok u"
    and "curve_value c x = (Ok y :: (curve_error, nat) outcome)"
    and "curve_value c x' = (Ok y' :: (curve_error, nat) outcome)" and "x \<le> x'"
  shows "y \<le> y'"
  using curve_dir_mono [OF assms(2,3) validate_increasing_dir [OF assms(1)] assms(4)]
  by (simp add: dir_def)

theorem increasing_curve_is_monotone_witness:
  "\<exists>y y'. curve_value demo_increasing 103 = (Ok y :: (curve_error, nat) outcome)
     \<and> curve_value demo_increasing 150 = (Ok y' :: (curve_error, nat) outcome) \<and> y \<le> y'"
proof -
  have "validate_monotonic_increasing demo_increasing = Ok ()" "curve_value demo_increasing 103 = (Ok 1 :: (curve_error, nat) outcome)"
    "curve_value demo_increasing 150 = (Ok 25 :: (curve_error, nat) outcome)"
    by (simp_all add: demo_curves)
  with increasing_curve_is_monotone [OF this] show ?thesis by simp
qed

text \<open>
  A curve that passes \<open>validate_monotonic_decreasing\<close> (the check a vesting schedule has
  to pass) never increases over time: what it still locks only shrinks.
\<close>

theorem decreasing_curve_is_antitone:
  assumes "validate_monotonic_decreasing c = Ok u"
    and "curve_value c x = (Ok y :: (curve_error, nat) outcome)"
    and "curve_value c x' = (Ok y' :: (curve_error, nat) outcome)" and "x \<le> x'"
  shows "y' \<le> y"
  using curve_dir_mono [OF assms(2,3) validate_decreasing_dir [OF assms(1)] assms(4)]
  by (simp add: dir_def)

theorem decreasing_curve_is_antitone_witness:
  "\<exists>y y'. curve_value demo_decreasing 1750 = (Ok y :: (curve_error, nat) outcome)
     \<and> curve_value demo_decreasing 1998 = (Ok y' :: (curve_error, nat) outcome) \<and> y' \<le> y"
proof -
  have "validate_monotonic_decreasing demo_decreasing = Ok ()" "curve_value demo_decreasing 1750 = (Ok 450 :: (curve_error, nat) outcome)"
    "curve_value demo_decreasing 1998 = (Ok 103 :: (curve_error, nat) outcome)"
    by (simp_all add: demo_curves)
  with decreasing_curve_is_antitone [OF this] show ?thesis by simp
qed

text \<open>
  Every value of a valid curve, monotone or not, lies in the interval that \<open>range\<close>
  returns: interpolation between two points never leaves the points' values.
\<close>

theorem curve_value_within_range:
  assumes "curve_validate c = Ok u"
    and "curve_value c x = (Ok y :: (curve_error, nat) outcome)"
    and "curve_range c = (Ok (lo, hi) :: (curve_error, nat \<times> nat) outcome)"
  shows "lo \<le> y \<and> y \<le> hi"
proof (cases c)
  case (Saturating_linear s)
  with assms(2,3) show ?thesis by (intro sl_value_in_range [of s x y]) simp_all
next
  case (Piecewise_linear p)
  with assms show ?thesis by (intro pl_value_in_range [of p x y u lo hi]) simp_all
qed (use assms in auto)

theorem curve_value_within_range_witness:
  "\<exists>lo hi. curve_range demo_decreasing = (Ok (lo, hi) :: (curve_error, nat \<times> nat) outcome)
     \<and> curve_value demo_decreasing 1750 = (Ok 450 :: (curve_error, nat) outcome) \<and> lo \<le> 450 \<and> 450 \<le> hi"
proof -
  have "curve_validate demo_decreasing = Ok ()"
    and "curve_value demo_decreasing 1750 = (Ok 450 :: (curve_error, nat) outcome)"
    and "curve_range demo_decreasing = (Ok (100, 500) :: (curve_error, nat \<times> nat) outcome)"
    by (simp_all add: demo_curves pl_range_def)
  with curve_value_within_range [OF this] show ?thesis by simp
qed

text \<open>
  C40: Evaluating a valid curve always returns, without a panic, at every \<open>u64\<close> time, as long
  as its amounts fit 64 bits: the products of the interpolation then fit \<open>Uint128\<close> and no
  division by zero or underflow is possible.
\<close>

theorem curve_value_never_panics:
  assumes "curve_validate c = Ok u" and "\<forall>y \<in> set (curve_points c). y < u64_lim" and "x < u64_lim"
  shows "\<exists>y. curve_value c x = (Ok y :: (curve_error, nat) outcome)"
proof (cases c)
  case (Saturating_linear s)
  with assms show ?thesis
    using interpolate_total [of "min_x s" x "max_x s" "min_y s" "max_y s"]
    by (auto simp: sl_value_def sl_validate_def split: if_splits)
next
  case (Piecewise_linear p)
  with assms have "\<forall>s \<in> set (steps p). snd s < u64_lim" by auto
  with assms Piecewise_linear show ?thesis using pl_value_total [of p u x] by simp
qed simp

theorem curve_value_never_panics_witness:
  "\<exists>y. curve_value demo_decreasing 18446744073709551615 = (Ok y :: (curve_error, nat) outcome)"
  by (rule curve_value_never_panics [of _ "()"]) (simp_all add: demo_curves)

text \<open>
  The sum of two valid curves is exact at every breakpoint of either curve: there the
  combined curve has the sum of the two values.
\<close>

theorem combined_curve_exact_at_breakpoints:
  assumes "curve_combine c d = (Ok e :: (curve_error, curve) outcome)"
    and "curve_validate c = Ok u" "curve_validate d = Ok v"
    and "x \<in> set (breakpoints c) \<union> set (breakpoints d)"
    and "curve_value c x = (Ok a :: (curve_error, nat) outcome)"
    and "curve_value d x = (Ok b :: (curve_error, nat) outcome)"
  shows "curve_value e x = (Ok (a + b) :: (curve_error, nat) outcome)"
  using assms by (rule combine_at_breakpoint)

theorem combined_curve_exact_at_breakpoints_witness:
  "curve_value (Piecewise_linear
       \<lparr> steps = [(100, 500), (200, 550), (1700, 550), (1800, 450), (2000, 150)] \<rparr>) 1800
     = (Ok (50 + 400) :: (curve_error, nat) outcome)"
proof (rule combined_curve_exact_at_breakpoints)
  show "curve_combine demo_increasing demo_decreasing = Ok (Piecewise_linear
       \<lparr> steps = [(100, 500), (200, 550), (1700, 550), (1800, 450), (2000, 150)] \<rparr>)"
    by (simp add: demo_curves pl_combine_def pl_from_def)
  show "curve_validate demo_increasing = Ok ()" by (simp add: demo_curves)
  show "curve_validate demo_decreasing = Ok ()" by (simp add: demo_curves)
  show "1800 \<in> set (breakpoints demo_increasing) \<union> set (breakpoints demo_decreasing)"
    by (simp add: demo_curves)
  show "curve_value demo_increasing 1800 = Ok 50" by (simp add: demo_curves)
  show "curve_value demo_decreasing 1800 = Ok 400" by (simp add: demo_curves)
qed

text \<open>
  Adding a schedule to an account's existing schedule keeps it decreasing: if both
  curves pass \<open>validate_monotonic_decreasing\<close>, no later time of the combined curve has a
  larger value than an earlier one.
\<close>

theorem combined_schedule_is_antitone:
  assumes "validate_monotonic_decreasing c = Ok u" and "validate_monotonic_decreasing d = Ok v"
    and "curve_combine c d = (Ok e :: (curve_error, curve) outcome)"
    and "curve_value e x = (Ok y :: (curve_error, nat) outcome)"
    and "curve_value e x' = (Ok y' :: (curve_error, nat) outcome)" and "x \<le> x'"
  shows "y' \<le> y"
proof -
  have "curve_dir False e"
    using assms(3) validate_decreasing_dir [OF assms(1)] validate_decreasing_dir [OF assms(2)]
    by (rule curve_combine_dir)
  from curve_dir_mono [OF assms(4,5) this assms(6)] show ?thesis by (simp add: dir_def)
qed

theorem combined_schedule_is_antitone_witness:
  "\<exists>e y y'. curve_combine demo_decreasing (Constant 7) = (Ok e :: (curve_error, curve) outcome)
     \<and> curve_value e 1750 = (Ok y :: (curve_error, nat) outcome)
     \<and> curve_value e 1800 = (Ok y' :: (curve_error, nat) outcome) \<and> y' \<le> y"
proof -
  let ?e = "Piecewise_linear \<lparr> steps = [(1700, 507), (1800, 407), (2000, 107)] \<rparr>"
  have "validate_monotonic_decreasing demo_decreasing = Ok ()" "validate_monotonic_decreasing (Constant 7) = Ok ()"
    and e: "curve_combine demo_decreasing (Constant 7) = (Ok ?e :: (curve_error, curve) outcome)"
    and v: "curve_value ?e 1750 = (Ok 457 :: (curve_error, nat) outcome)"
      "curve_value ?e 1800 = (Ok 407 :: (curve_error, nat) outcome)"
    by (simp_all add: demo_curves)
  with combined_schedule_is_antitone [OF this] show ?thesis
    by (intro exI [of _ ?e] exI [of _ 457] exI [of _ 407]) simp
qed

text \<open>
  Converting a saturating-linear curve with \<open>PiecewiseLinear::from\<close> does not change it:
  wherever the original evaluates, the two-step piecewise curve has the same value.
\<close>

theorem piecewise_form_equivalent:
  assumes "sl_validate s = Ok u" and "sl_value s x = (Ok y :: (curve_error, nat) outcome)"
  shows "pl_value (pl_from s) x = (Ok y :: (curve_error, nat) outcome)"
  using assms(1) pl_from_value [OF assms(2)] by (simp add: sl_validate_def split: if_splits)

theorem piecewise_form_equivalent_witness:
  "pl_value (pl_from \<lparr> min_x = 100, min_y = 0, max_x = 200, max_y = 50 \<rparr>) 103
     = (Ok 1 :: (curve_error, nat) outcome)"
  by (rule piecewise_form_equivalent [of _ "()"]) (simp_all add: demo_curves)

text \<open>
  The monotonicity check of a scalable curve tests it at the fixed amount 1000000000, which
  is too coarse: this curve passes the check for an increasing curve, and at ten times the
  tested amount it decreases from 5000000001 to 5000000000.
\<close>

theorem scalable_check_misses_small_steps:
  "let c = Scalable_linear \<lparr> s_min_x = 1, s_min_y = 500000000100000000,
             s_max_x = 2, s_max_y = 500000000000000000 \<rparr>
   in scalable_validate_monotonic_increasing c = Ok () \<and>
      (\<exists>e. scale c 10000000000 = (Ok e :: (curve_error, curve) outcome) \<and>
         curve_value e 1 = (Ok 5000000001 :: (curve_error, nat) outcome) \<and>
         curve_value e 2 = (Ok 5000000000 :: (curve_error, nat) outcome) \<and>
         validate_monotonic_increasing e = Err Monotonic_decreasing)"
  by (simp add: Let_def scalable_validate_monotonic_increasing_def scale_linear_def
      u128_mul_decimal_def decimal_one_def demo_curves)

text \<open>
  The sum of two valid decreasing schedules can be rejected by the validation both passed:
  a saturating schedule may start at time 0, while the piecewise form of the sum may not,
  because the order check of \<open>PiecewiseLinear::validate\<close> starts from 0 and is strict.
\<close>

theorem combined_schedule_may_fail_validation:
  "let c = Saturating_linear \<lparr> min_x = 0, min_y = 10, max_x = 5, max_y = 0 \<rparr>
   in validate_monotonic_decreasing c = Ok () \<and>
      (\<exists>e. curve_combine c c = (Ok e :: (curve_error, curve) outcome) \<and>
         curve_validate e = Err Points_out_of_order)"
  by (simp add: Let_def sl_validate_monotonic_decreasing_def pl_combine_def pl_from_def demo_curves)

end
