(* ===== verification/Controllers.thy ===== *)
theory Controllers
  imports Store "HOL-Library.Multiset"
begin

text \<open>
  The shared controllers of \<open>packages/controllers\<close>: a single optional admin, a list of hook
  contracts that only the admin edits, and the claims an address can release after a
  waiting period.  The response attributes (event strings) are left out; everything else
  of each handler is kept, with the storage passed explicitly.

  The interface \<open>access_control\<close> is what every guarded operation relies on: a check that
  succeeds exactly for one controlling address.
\<close>

section \<open>Access control\<close>

locale access_control =
  fixes check :: "'s \<Rightarrow> addr \<Rightarrow> ('e, unit) outcome"
    and controller :: "'s \<Rightarrow> addr option"
  assumes check_Ok_iff: "check s a = Ok u \<longleftrightarrow> controller s = Some a"
begin

lemma guarded_Ok_iff:
  "and_then (check s a) f = Ok r \<longleftrightarrow> controller s = Some a \<and> f () = Ok r"
  by (auto simp: and_then_Ok_iff check_Ok_iff)

lemma guarded_denied: "controller s \<noteq> Some a \<Longrightarrow> and_then (check s a) f \<noteq> Ok r"
  by (simp add: guarded_Ok_iff)

lemma controller_unique: "check s a = Ok u \<Longrightarrow> check s b = Ok v \<Longrightarrow> a = b"
  by (simp add: check_Ok_iff)

end

section \<open>Admin\<close>

datatype admin_error = Admin_std std_error | Not_admin

text \<open>The stored item: unset, or an optional address.\<close>

type_synonym admin_item = "addr option option"

definition admin_set :: "admin_item \<Rightarrow> addr option \<Rightarrow> admin_item" where
  "admin_set st a = Some a"

definition admin_get :: "admin_item \<Rightarrow> (std_error, addr option) outcome" where
  "admin_get st = ok_or (Not_found ''admin'') st"

definition is_admin :: "admin_item \<Rightarrow> addr \<Rightarrow> (std_error, bool) outcome" where
  "is_admin st caller =
     and_then (ok_or (Not_found ''admin'') st) (\<lambda>a.
     case a of Some owner \<Rightarrow> Ok (caller = owner) | None \<Rightarrow> Ok False)"

definition assert_admin :: "admin_item \<Rightarrow> addr \<Rightarrow> (admin_error, unit) outcome" where
  "assert_admin st caller =
     and_then (map_err Admin_std (is_admin st caller)) (\<lambda>b.
     if \<not> b then Err Not_admin else Ok ())"

definition execute_update_admin ::
  "admin_item \<Rightarrow> message_info \<Rightarrow> addr option \<Rightarrow> (admin_error, admin_item) outcome"
where
  "execute_update_admin st info new_admin =
     and_then (assert_admin st (sender info)) (\<lambda>_.
     Ok (admin_set st new_admin))"

definition query_admin :: "admin_item \<Rightarrow> (std_error, string option) outcome" where
  "query_admin st = admin_get st"

definition admin_of :: "admin_item \<Rightarrow> addr option" where
  "admin_of st = (case st of None \<Rightarrow> None | Some a \<Rightarrow> a)"

lemma assert_admin_Ok_iff: "assert_admin st a = Ok u \<longleftrightarrow> admin_of st = Some a"
  by (auto simp: assert_admin_def is_admin_def admin_of_def outcome_simps split: option.splits if_splits)

interpretation adm: access_control assert_admin admin_of
  by unfold_locales (rule assert_admin_Ok_iff)

section \<open>Hooks\<close>

datatype hook_error =
    Hook_std std_error
  | Hook_admin admin_error
  | Hook_already_registered
  | Hook_not_registered

type_synonym hooks_item = "addr list option"

definition hooks_or_default :: "hooks_item \<Rightarrow> addr list" where
  "hooks_or_default st = (case st of None \<Rightarrow> [] | Some hs \<Rightarrow> hs)"

definition add_hook :: "hooks_item \<Rightarrow> addr \<Rightarrow> (hook_error, hooks_item) outcome" where
  "add_hook st a =
     (let hooks = hooks_or_default st
      in if a \<notin> set hooks then Ok (Some (hooks @ [a])) else Err Hook_already_registered)"

definition remove_hook :: "hooks_item \<Rightarrow> addr \<Rightarrow> (hook_error, hooks_item) outcome" where
  "remove_hook st a =
     and_then (map_err Hook_std (ok_or (Not_found ''hooks'') st)) (\<lambda>hooks.
     if a \<in> set hooks then Ok (Some (remove1 a hooks)) else Err Hook_not_registered)"

definition prepare_hooks ::
  "hooks_item \<Rightarrow> (addr \<Rightarrow> (std_error, 'm) outcome) \<Rightarrow> (std_error, 'm list) outcome"
where
  "prepare_hooks st prep = map_ok prep (hooks_or_default st)"

definition execute_add_hook ::
  "admin_item \<Rightarrow> hooks_item \<Rightarrow> message_info \<Rightarrow> addr \<Rightarrow> (hook_error, hooks_item) outcome"
where
  "execute_add_hook admin st info a =
     and_then (map_err Hook_admin (assert_admin admin (sender info))) (\<lambda>_.
     add_hook st a)"

definition execute_remove_hook ::
  "admin_item \<Rightarrow> hooks_item \<Rightarrow> message_info \<Rightarrow> addr \<Rightarrow> (hook_error, hooks_item) outcome"
where
  "execute_remove_hook admin st info a =
     and_then (map_err Hook_admin (assert_admin admin (sender info))) (\<lambda>_.
     remove_hook st a)"

definition query_hooks :: "hooks_item \<Rightarrow> (std_error, string list) outcome" where
  "query_hooks st = Ok (hooks_or_default st)"

definition query_hook :: "hooks_item \<Rightarrow> string \<Rightarrow> (std_error, bool) outcome" where
  "query_hook st h = and_then (query_hooks st) (\<lambda>hs. Ok (h \<in> set hs))"

definition hooks_ok :: "hooks_item \<Rightarrow> bool" where
  "hooks_ok st = distinct (hooks_or_default st)"

lemma add_hook_Ok_iff:
  "add_hook st a = Ok st' \<longleftrightarrow>
     a \<notin> set (hooks_or_default st) \<and> st' = Some (hooks_or_default st @ [a])"
  by (auto simp: add_hook_def Let_def)

lemma remove_hook_Ok_iff:
  "remove_hook st a = Ok st' \<longleftrightarrow>
     (\<exists>hs. st = Some hs \<and> a \<in> set hs \<and> st' = Some (remove1 a hs))"
  by (auto simp: remove_hook_def outcome_simps)

lemma add_hook_ok: "add_hook st a = Ok st' \<Longrightarrow> hooks_ok st \<Longrightarrow> hooks_ok st'"
  by (auto simp: add_hook_Ok_iff hooks_ok_def hooks_or_default_def)

lemma remove_hook_ok: "remove_hook st a = Ok st' \<Longrightarrow> hooks_ok st \<Longrightarrow> hooks_ok st'"
  by (auto simp: remove_hook_Ok_iff hooks_ok_def hooks_or_default_def)

interpretation hook_adm: access_control "\<lambda>st a. map_err Hook_admin (assert_admin st a)" admin_of
  by unfold_locales (simp add: map_err_Ok_iff assert_admin_Ok_iff)

lemma execute_add_hook_Ok_iff:
  "execute_add_hook admin st info a = Ok st' \<longleftrightarrow>
     admin_of admin = Some (sender info) \<and> add_hook st a = Ok st'"
  unfolding execute_add_hook_def by (rule hook_adm.guarded_Ok_iff)

lemma execute_remove_hook_Ok_iff:
  "execute_remove_hook admin st info a = Ok st' \<longleftrightarrow>
     admin_of admin = Some (sender info) \<and> remove_hook st a = Ok st'"
  unfolding execute_remove_hook_def by (rule hook_adm.guarded_Ok_iff)

section \<open>Claims\<close>

record claim =
  claim_amount :: nat
  release_at :: expiration

type_synonym claims_map = "(addr, claim list) kv"

definition claims_of :: "claims_map \<Rightarrow> addr \<Rightarrow> claim list" where
  "claims_of st a = (case kv_get st a of None \<Rightarrow> [] | Some cs \<Rightarrow> cs)"

definition create_claim ::
  "claims_map \<Rightarrow> addr \<Rightarrow> nat \<Rightarrow> expiration \<Rightarrow> (std_error, claims_map) outcome"
where
  "create_claim st a amount release =
     Ok (kv_set st a (claims_of st a @ [\<lparr> claim_amount = amount, release_at = release \<rparr>]))"

text \<open>
  The closure passed to \<open>partition\<close> in \<open>claim_tokens\<close>, run over the claims in order with the
  captured total \<open>to_send\<close>: it returns the final total and the claims that keep waiting.
\<close>

fun claim_partition ::
  "platform \<Rightarrow> block_info \<Rightarrow> nat option \<Rightarrow> claim list \<Rightarrow> nat \<Rightarrow> (std_error, nat \<times> claim list) outcome"
where
  "claim_partition P b cap [] to_send = Ok (to_send, [])"
| "claim_partition P b cap (c # cs) to_send =
     (let wait = and_then (claim_partition P b cap cs to_send) (\<lambda>(t, ws). Ok (t, c # ws));
          send = and_then (u128_add to_send (claim_amount c)) (\<lambda>t. claim_partition P b cap cs t)
      in if is_expired P (release_at c) b then
           (case cap of
              None \<Rightarrow> send
            | Some limit \<Rightarrow>
                and_then (u128_add to_send (claim_amount c)) (\<lambda>t.
                if t > limit then wait else send))
         else wait)"

definition claim_tokens ::
  "platform \<Rightarrow> claims_map \<Rightarrow> addr \<Rightarrow> block_info \<Rightarrow> nat option
     \<Rightarrow> (std_error, nat \<times> claims_map) outcome"
where
  "claim_tokens P st a b cap =
     and_then (claim_partition P b cap (claims_of st a) 0) (\<lambda>(to_send, waiting).
     Ok (to_send, kv_set st a waiting))"

definition query_claims :: "claims_map \<Rightarrow> addr \<Rightarrow> (std_error, claim list) outcome" where
  "query_claims st a = Ok (claims_of st a)"

abbreviation claims_sum :: "claim list \<Rightarrow> nat" where
  "claims_sum cs \<equiv> sum_list (map claim_amount cs)"

lemma claims_of_set [simp]:
  "claims_of (kv_set st a cs) a' = (if a' = a then cs else claims_of st a')"
  by (simp add: claims_of_def)

text \<open>One step of the loop: either the claim waits, or it is sent and the total grows.\<close>

lemma claim_partition_Cons:
  assumes "claim_partition P b cap (c # cs) s = Ok (t, ws)"
  obtains
    (waits) ws' where "claim_partition P b cap cs s = Ok (t, ws')" "ws = c # ws'"
      "is_expired P (release_at c) b \<Longrightarrow> \<exists>limit. cap = Some limit \<and> limit < s + claim_amount c"
  | (sent) "is_expired P (release_at c) b" "claim_partition P b cap cs (s + claim_amount c) = Ok (t, ws)"
      "\<And>limit. cap = Some limit \<Longrightarrow> s + claim_amount c \<le> limit" "s + claim_amount c < u128_lim"
  using assms
  by (auto simp: Let_def outcome_simps arith_simps split: if_splits option.splits prod.splits)

lemma claim_partition_conserves:
  "claim_partition P b cap cs s = Ok (t, ws) \<Longrightarrow> t + claims_sum ws = s + claims_sum cs"
proof (induction cs arbitrary: s ws)
  case (Cons c cs)
  from Cons.prems show ?case
    by (cases rule: claim_partition_Cons) (auto dest: Cons.IH)
qed simp

lemma claim_partition_grows: "claim_partition P b cap cs s = Ok (t, ws) \<Longrightarrow> s \<le> t"
proof (induction cs arbitrary: s ws)
  case (Cons c cs)
  from Cons.prems show ?case
    by (cases rule: claim_partition_Cons) (auto dest: Cons.IH)
qed simp

lemma claim_partition_cap:
  "claim_partition P b (Some limit) cs s = Ok (t, ws) \<Longrightarrow> s \<le> limit \<Longrightarrow> t \<le> limit"
proof (induction cs arbitrary: s ws)
  case (Cons c cs)
  from Cons.prems(1) show ?case
    by (cases rule: claim_partition_Cons) (auto dest: Cons.IH simp: Cons.prems(2))
qed simp

lemma claim_partition_keeps_immature:
  "claim_partition P b cap cs s = Ok (t, ws) \<Longrightarrow>
     filter (\<lambda>c. \<not> is_expired P (release_at c) b) ws
       = filter (\<lambda>c. \<not> is_expired P (release_at c) b) cs"
proof (induction cs arbitrary: s ws)
  case (Cons c cs)
  from Cons.prems show ?case
    by (cases rule: claim_partition_Cons) (auto dest: Cons.IH)
qed simp

lemma claim_partition_mset:
  "claim_partition P b cap cs s = Ok (t, ws) \<Longrightarrow> mset ws \<subseteq># mset cs"
proof (induction cs arbitrary: s ws)
  case (Cons c cs)
  from Cons.prems show ?case
    by (cases rule: claim_partition_Cons)
      (auto dest!: Cons.IH intro: subset_mset.order_trans)
qed simp

lemma claim_partition_greedy:
  "claim_partition P b cap cs s = Ok (t, ws) \<Longrightarrow> c \<in> set ws \<Longrightarrow> is_expired P (release_at c) b \<Longrightarrow>
     \<exists>limit. cap = Some limit \<and> limit < t + claim_amount c"
proof (induction cs arbitrary: s ws)
  case (Cons d cs)
  from Cons.prems(1) show ?case
  proof (cases rule: claim_partition_Cons)
    case (waits ws')
    show ?thesis
    proof (cases "c = d")
      case True
      with waits(3) Cons.prems(3) obtain limit where "cap = Some limit" "limit < s + claim_amount c"
        by auto
      with claim_partition_grows [OF waits(1)] show ?thesis by fastforce
    next
      case False
      with waits Cons.prems show ?thesis by (intro Cons.IH [of s ws']) auto
    qed
  next
    case sent
    with Cons.prems show ?thesis by (intro Cons.IH [of "s + claim_amount d" ws]) auto
  qed
qed simp

section \<open>Properties\<close>

definition demo_block :: block_info where
  "demo_block = \<lparr> block_height = 100, block_time = 5000000000 \<rparr>"

definition demo_claims :: claims_map where
  "demo_claims =
     [(''alice'', [\<lparr> claim_amount = 70, release_at = At_height 90 \<rparr>,
                  \<lparr> claim_amount = 50, release_at = At_height 95 \<rparr>,
                  \<lparr> claim_amount = 20, release_at = At_height 100 \<rparr>,
                  \<lparr> claim_amount = 10, release_at = At_height 101 \<rparr>]),
      (''bob'', [\<lparr> claim_amount = 5, release_at = Never \<rparr>])]"

definition demo_claims_after :: claims_map where
  "demo_claims_after =
     [(''alice'', [\<lparr> claim_amount = 50, release_at = At_height 95 \<rparr>,
                  \<lparr> claim_amount = 10, release_at = At_height 101 \<rparr>]),
      (''bob'', [\<lparr> claim_amount = 5, release_at = Never \<rparr>])]"

lemma demo_claim_run:
  "claim_tokens demo_platform demo_claims ''alice'' demo_block (Some 100) = Ok (90, demo_claims_after)"
  by (simp add: claim_tokens_def claims_of_def demo_claims_def demo_claims_after_def
      demo_block_def demo_platform_def checked_int_defs Let_def)

text \<open>
  Releasing claims neither creates nor destroys tokens: the amount paid out plus what
  still waits equals what the address had claimed before, every claim that has not
  matured is kept in its order, and no other address's claims change.
\<close>

theorem claim_tokens_conserves:
  assumes "claim_tokens P st a b cap = Ok (paid, st')"
  shows "paid + claims_sum (claims_of st' a) = claims_sum (claims_of st a)
    \<and> filter (\<lambda>c. \<not> is_expired P (release_at c) b) (claims_of st' a)
        = filter (\<lambda>c. \<not> is_expired P (release_at c) b) (claims_of st a)
    \<and> (\<forall>a'. a' = a \<or> claims_of st' a' = claims_of st a')"
proof -
  from assms obtain ws where run: "claim_partition P b cap (claims_of st a) 0 = Ok (paid, ws)"
    and st': "st' = kv_set st a ws"
    by (auto simp: claim_tokens_def outcome_simps split: prod.splits)
  from claim_partition_conserves [OF run] claim_partition_keeps_immature [OF run] st'
  show ?thesis by simp
qed

theorem claim_tokens_conserves_witness:
  "90 + claims_sum (claims_of demo_claims_after ''alice'') = claims_sum (claims_of demo_claims ''alice'')
    \<and> claims_of demo_claims_after ''bob'' = claims_of demo_claims ''bob''"
  using claim_tokens_conserves [OF demo_claim_run] by (auto simp: demo_claims_def demo_claims_after_def claims_of_def)

text \<open>
  A capped release never pays more than the cap, and it stops only where it has to: a
  matured claim stays behind only if paying it as well would have exceeded the cap.
\<close>

theorem claim_tokens_respects_cap:
  assumes "claim_tokens P st a b (Some limit) = Ok (paid, st')"
  shows "paid \<le> limit \<and>
    (\<forall>c \<in> set (claims_of st' a). is_expired P (release_at c) b \<longrightarrow> limit < paid + claim_amount c)"
proof -
  from assms obtain ws where run: "claim_partition P b (Some limit) (claims_of st a) 0 = Ok (paid, ws)"
    and st': "st' = kv_set st a ws"
    by (auto simp: claim_tokens_def outcome_simps split: prod.splits)
  from claim_partition_cap [OF run] claim_partition_greedy [OF run] st' show ?thesis by auto
qed

theorem claim_tokens_respects_cap_witness:
  "(90::nat) \<le> 100 \<and> (100::nat) < 90 + 50
    \<and> \<lparr> claim_amount = 50, release_at = At_height 95 \<rparr> \<in> set (claims_of demo_claims_after ''alice'')"
  using claim_tokens_respects_cap [OF demo_claim_run] by (simp add: demo_claims_after_def claims_of_def)

text \<open>
  Only the admin edits the hook list, the list never gets a duplicate, and removing a hook
  that was just added restores the list.
\<close>

theorem hook_edits_are_guarded:
  "(execute_add_hook admin st info a = Ok st' \<longrightarrow>
      admin_of admin = Some (sender info) \<and> (hooks_ok st \<longrightarrow> hooks_ok st')
      \<and> execute_remove_hook admin st' info a = Ok (Some (hooks_or_default st)))
   \<and> (execute_remove_hook admin st info a = Ok st' \<longrightarrow>
      admin_of admin = Some (sender info) \<and> (hooks_ok st \<longrightarrow> hooks_ok st' \<and> a \<notin> set (hooks_or_default st')))"
  by (auto simp: execute_add_hook_Ok_iff execute_remove_hook_Ok_iff add_hook_ok remove_hook_ok)
    (auto simp: add_hook_Ok_iff remove_hook_Ok_iff remove1_append hooks_ok_def hooks_or_default_def)

theorem hook_edits_are_guarded_witness:
  "hooks_ok (Some [''h1'', ''h2'']) \<and>
   execute_remove_hook (Some (Some ''boss'')) (Some [''h1'', ''h2'']) \<lparr> sender = ''boss'' \<rparr> ''h2''
     = Ok (Some [''h1''])"
proof -
  have run: "execute_add_hook (Some (Some ''boss'')) (Some [''h1'']) \<lparr> sender = ''boss'' \<rparr> ''h2''
      = Ok (Some [''h1'', ''h2''])"
    by (simp add: execute_add_hook_def assert_admin_def is_admin_def add_hook_def Let_def
        hooks_or_default_def)
  have "hooks_ok (Some [''h1''])" by (simp add: hooks_ok_def hooks_or_default_def)
  with run hook_edits_are_guarded [of "Some (Some ''boss'')" "Some [''h1'']" "\<lparr> sender = ''boss'' \<rparr>"
      "''h2''" "Some [''h1'', ''h2'']"]
  show ?thesis by (simp add: hooks_or_default_def)
qed

text \<open>
  Giving up the admin is final: once the admin is set to none, every later attempt to
  change the admin or to edit the hooks is rejected, whoever sends it.
\<close>

theorem renounced_admin_is_final:
  assumes "execute_update_admin st info None = Ok st'"
  shows "execute_update_admin st' info' a = Err Not_admin
    \<and> execute_add_hook st' hs info' h = Err (Hook_admin Not_admin)
    \<and> execute_remove_hook st' hs info' h = Err (Hook_admin Not_admin)"
  using assms
  by (auto simp: execute_update_admin_def execute_add_hook_def execute_remove_hook_def
      admin_set_def assert_admin_def is_admin_def outcome_simps)

theorem renounced_admin_is_final_witness:
  "execute_update_admin (Some None) \<lparr> sender = ''boss'' \<rparr> (Some ''boss'') = Err Not_admin"
proof -
  have "execute_update_admin (Some (Some ''boss'')) \<lparr> sender = ''boss'' \<rparr> None = Ok (Some None)"
    by (simp add: execute_update_admin_def assert_admin_def is_admin_def admin_set_def)
  from renounced_admin_is_final [OF this] show ?thesis by blast
qed

end
