(* ===== verification/Cw4_Group.thy ===== *)
theory Cw4_Group
  imports Controllers
begin

text \<open>
  The group contract of \<open>contracts/cw4-group\<close>: an admin maintains a set of weighted members and
  registered hooks are told about every change.  The current values of the two snapshot
  containers \<open>MEMBERS\<close> and \<open>TOTAL\<close> are a storage map and an item; every write is also logged
  with its block height, and the library's historical reads are a parameter over that log.
\<close>

section \<open>State, messages and errors\<close>

datatype group_error =
    Group_std std_error
  | Group_hook hook_error
  | Group_admin admin_error
  | Group_overflow
  | Duplicate_member string

record member =
  member_addr :: string
  member_weight :: nat

record member_diff =
  diff_key :: string
  diff_old :: "nat option"
  diff_new :: "nat option"

type_synonym member_log = "(nat \<times> addr \<times> nat option) list"
type_synonym total_log = "(nat \<times> nat) list"

record group_state =
  group_admin :: admin_item
  group_hooks :: hooks_item
  members :: "(addr, nat) kv"
  members_log :: member_log
  group_total :: "nat option"
  total_log :: total_log

definition group_empty :: group_state where
  "group_empty = \<lparr> group_admin = None, group_hooks = None, members = [], members_log = [],
     group_total = None, total_log = [] \<rparr>"

definition members_save :: "group_state \<Rightarrow> addr \<Rightarrow> nat \<Rightarrow> nat \<Rightarrow> group_state" where
  "members_save s a w h =
     s\<lparr> members := kv_set (members s) a w, members_log := (h, a, Some w) # members_log s \<rparr>"

definition members_remove :: "group_state \<Rightarrow> addr \<Rightarrow> nat \<Rightarrow> group_state" where
  "members_remove s a h =
     s\<lparr> members := kv_del (members s) a, members_log := (h, a, None) # members_log s \<rparr>"

definition total_save :: "group_state \<Rightarrow> nat \<Rightarrow> nat \<Rightarrow> group_state" where
  "total_save s t h = s\<lparr> group_total := Some t, total_log := (h, t) # total_log s \<rparr>"

section \<open>Instantiation\<close>

fun first_duplicate :: "member list \<Rightarrow> string option" where
  "first_duplicate (a # b # ms) =
     (if member_addr a = member_addr b then Some (member_addr a) else first_duplicate (b # ms))"
| "first_duplicate _ = None"

text \<open>\<open>validate_unique_members\<close> sorts its argument in place; the sorted list is returned.\<close>

definition validate_unique_members :: "member list \<Rightarrow> (group_error, member list) outcome" where
  "validate_unique_members ms =
     (let ms' = sort_key member_addr ms
      in case first_duplicate ms' of Some a \<Rightarrow> Err (Duplicate_member a) | None \<Rightarrow> Ok ms')"

fun create_members ::
  "platform \<Rightarrow> nat \<Rightarrow> member list \<Rightarrow> nat \<Rightarrow> group_state \<Rightarrow> (group_error, nat \<times> group_state) outcome"
where
  "create_members P h [] tot s = Ok (tot, s)"
| "create_members P h (m # ms) tot s =
     and_then (map_err (\<lambda>_. Group_overflow) (u64_checked_add tot (member_weight m))) (\<lambda>tot'.
     and_then (map_err Group_std (addr_validate P (member_addr m))) (\<lambda>a.
     create_members P h ms tot' (members_save s a (member_weight m) h)))"

definition create ::
  "platform \<Rightarrow> group_state \<Rightarrow> string option \<Rightarrow> member list \<Rightarrow> nat \<Rightarrow> (group_error, group_state) outcome"
where
  "create P s admin ms h =
     and_then (validate_unique_members ms) (\<lambda>ms'.
     and_then (map_err Group_std (traverse_opt (addr_validate P) admin)) (\<lambda>admin_addr.
     and_then (create_members P h ms' 0
                 (s\<lparr> group_admin := admin_set (group_admin s) admin_addr \<rparr>)) (\<lambda>(tot, s').
     Ok (total_save s' tot h))))"

text \<open>\<open>instantiate\<close> runs \<open>create\<close> on the empty storage of a new contract.\<close>

definition group_instantiate ::
  "platform \<Rightarrow> env \<Rightarrow> string option \<Rightarrow> member list \<Rightarrow> (group_error, group_state) outcome"
where
  "group_instantiate P e admin ms = create P group_empty admin ms (block_height (block e))"

section \<open>Member updates\<close>

text \<open>The two loops of \<open>update_members\<close>; the accumulator is the total, the diffs and the state.\<close>

fun add_members ::
  "platform \<Rightarrow> nat \<Rightarrow> member list \<Rightarrow> nat \<times> member_diff list \<times> group_state
     \<Rightarrow> (group_error, nat \<times> member_diff list \<times> group_state) outcome"
where
  "add_members P h [] acc = Ok acc"
| "add_members P h (m # ms) (tot, diffs, s) =
     and_then (map_err Group_std (addr_validate P (member_addr m))) (\<lambda>a.
     let old = kv_get (members s) a in
     and_then (map_err Group_std (u64_checked_sub tot (case old of None \<Rightarrow> 0 | Some w \<Rightarrow> w))) (\<lambda>t.
     and_then (map_err Group_std (u64_checked_add t (member_weight m))) (\<lambda>tot'.
     add_members P h ms
       (tot',
        diffs @ [\<lparr> diff_key = member_addr m, diff_old = old, diff_new = Some (member_weight m) \<rparr>],
        members_save s a (member_weight m) h))))"

fun remove_members ::
  "platform \<Rightarrow> nat \<Rightarrow> string list \<Rightarrow> nat \<times> member_diff list \<times> group_state
     \<Rightarrow> (group_error, nat \<times> member_diff list \<times> group_state) outcome"
where
  "remove_members P h [] acc = Ok acc"
| "remove_members P h (r # rs) (tot, diffs, s) =
     and_then (map_err Group_std (addr_validate P r)) (\<lambda>a.
     case kv_get (members s) a of
       None \<Rightarrow> remove_members P h rs (tot, diffs, s)
     | Some w \<Rightarrow>
         and_then (map_err (\<lambda>_. Group_overflow) (u64_checked_sub tot w)) (\<lambda>tot'.
         remove_members P h rs
           (tot',
            diffs @ [\<lparr> diff_key = r, diff_old = Some w, diff_new = None \<rparr>],
            members_remove s a h)))"

definition update_members ::
  "platform \<Rightarrow> group_state \<Rightarrow> nat \<Rightarrow> addr \<Rightarrow> member list \<Rightarrow> string list
     \<Rightarrow> (group_error, group_state \<times> member_diff list) outcome"
where
  "update_members P s h caller to_add to_remove =
     and_then (validate_unique_members to_add) (\<lambda>to_add'.
     and_then (map_err Group_admin (assert_admin (group_admin s) caller)) (\<lambda>_.
     and_then (map_err Group_std (ok_or (Not_found ''total'') (group_total s))) (\<lambda>tot.
     and_then (add_members P h to_add' (tot, [], s)) (\<lambda>acc.
     and_then (remove_members P h to_remove acc) (\<lambda>(tot', diffs, s').
     Ok (total_save s' tot' h, diffs))))))"

text \<open>A message to a hook: the hook contract and the member changes it is told about.\<close>

type_synonym hook_msg = "addr \<times> member_diff list"

definition execute_update_members ::
  "platform \<Rightarrow> group_state \<Rightarrow> env \<Rightarrow> message_info \<Rightarrow> member list \<Rightarrow> string list
     \<Rightarrow> (group_error, group_state \<times> hook_msg list) outcome"
where
  "execute_update_members P s e info add remove =
     and_then (update_members P s (block_height (block e)) (sender info) add remove) (\<lambda>(s', diffs).
     and_then (map_err Group_std (prepare_hooks (group_hooks s') (\<lambda>h. Ok (h, diffs)))) (\<lambda>msgs.
     Ok (s', msgs)))"

datatype group_msg =
    Update_admin "string option"
  | Update_members "member list" "string list"
  | Add_hook string
  | Remove_hook string

fun group_execute ::
  "platform \<Rightarrow> group_state \<Rightarrow> env \<Rightarrow> message_info \<Rightarrow> group_msg
     \<Rightarrow> (group_error, group_state \<times> hook_msg list) outcome"
where
  "group_execute P s e info (Update_admin admin) =
     and_then (map_err Group_std (traverse_opt (addr_validate P) admin)) (\<lambda>a.
     and_then (map_err Group_admin (execute_update_admin (group_admin s) info a)) (\<lambda>adm.
     Ok (s\<lparr> group_admin := adm \<rparr>, [])))"
| "group_execute P s e info (Update_members add remove) = execute_update_members P s e info add remove"
| "group_execute P s e info (Add_hook h) =
     and_then (map_err Group_std (addr_validate P h)) (\<lambda>a.
     and_then (map_err Group_hook (execute_add_hook (group_admin s) (group_hooks s) info a)) (\<lambda>hs.
     Ok (s\<lparr> group_hooks := hs \<rparr>, [])))"
| "group_execute P s e info (Remove_hook h) =
     and_then (map_err Group_std (addr_validate P h)) (\<lambda>a.
     and_then (map_err Group_hook (execute_remove_hook (group_admin s) (group_hooks s) info a)) (\<lambda>hs.
     Ok (s\<lparr> group_hooks := hs \<rparr>, [])))"

section \<open>Queries\<close>

text \<open>\<open>total_at\<close> and \<open>member_at\<close> stand for the historical reads of the snapshot containers.\<close>

definition query_total_weight ::
  "(total_log \<Rightarrow> nat \<Rightarrow> nat option) \<Rightarrow> group_state \<Rightarrow> nat option \<Rightarrow> (std_error, nat) outcome"
where
  "query_total_weight total_at s height =
     (let w = (case height of Some h \<Rightarrow> total_at (total_log s) h | None \<Rightarrow> group_total s)
      in Ok (case w of None \<Rightarrow> 0 | Some t \<Rightarrow> t))"

definition query_member ::
  "(member_log \<Rightarrow> addr \<Rightarrow> nat \<Rightarrow> nat option) \<Rightarrow> platform \<Rightarrow> group_state \<Rightarrow> string \<Rightarrow> nat option
     \<Rightarrow> (std_error, nat option) outcome"
where
  "query_member member_at P s a height =
     and_then (addr_validate P a) (\<lambda>a'.
     Ok (case height of
           Some h \<Rightarrow> member_at (members_log s) a' h
         | None \<Rightarrow> kv_get (members s) a'))"

definition page_limit :: "nat option \<Rightarrow> nat" where
  "page_limit limit = min (case limit of None \<Rightarrow> 10 | Some l \<Rightarrow> l) 30"

definition query_list_members ::
  "platform \<Rightarrow> group_state \<Rightarrow> string option \<Rightarrow> nat option \<Rightarrow> (std_error, member list) outcome"
where
  "query_list_members P s start_after limit =
     and_then (traverse_opt (addr_validate P) start_after) (\<lambda>start.
     Ok (map (\<lambda>(a, w). \<lparr> member_addr = a, member_weight = w \<rparr>)
           (take (page_limit limit) (kv_after (members s) start))))"

end
