(* ===== verification/Cw4_Proofs.thy ===== *)
theory Cw4_Proofs
  imports Cw4_Group
begin

text \<open>
  Correctness of the group contract: in every reachable state the stored total weight is the
  sum of the member weights, the reported differences replay the change, an update has the
  effect its message describes, only the admin changes anything, and the paginated listing
  enumerates the members without gaps or repetitions.
\<close>

section \<open>The total weight\<close>

definition group_inv :: "group_state \<Rightarrow> bool" where
  "group_inv s \<longleftrightarrow> kv_ok (members s) \<and> group_total s = Some (kv_total (members s))
     \<and> kv_total (members s) < u64_lim"

lemma members_save_simps [simp]:
  "members (members_save s a w h) = kv_set (members s) a w"
  "group_admin (members_save s a w h) = group_admin s"
  "group_hooks (members_save s a w h) = group_hooks s"
  by (simp_all add: members_save_def)

lemma members_remove_simps [simp]:
  "members (members_remove s a h) = kv_del (members s) a"
  "group_admin (members_remove s a h) = group_admin s"
  "group_hooks (members_remove s a h) = group_hooks s"
  by (simp_all add: members_remove_def)

lemma total_save_simps [simp]:
  "members (total_save s t h) = members s" "group_total (total_save s t h) = Some t"
  "group_admin (total_save s t h) = group_admin s" "group_hooks (total_save s t h) = group_hooks s"
  by (simp_all add: total_save_def)

text \<open>What the loops maintain between the running total and the stored members.\<close>

definition running :: "nat \<Rightarrow> group_state \<Rightarrow> bool" where
  "running tot s \<longleftrightarrow> kv_ok (members s) \<and> tot = kv_total (members s) \<and> tot < u64_lim"

lemma running_save:
  assumes "running tot s" and "tot - kv_nat (members s) a + w < u64_lim"
  shows "running (tot - kv_nat (members s) a + w) (members_save s a w h)"
  using assms kv_total_set [of "members s" a w] kv_nat_le_total [of "members s" a]
  by (simp add: running_def)

lemma running_remove:
  assumes "running tot s" and "kv_get (members s) a = Some w"
  shows "running (tot - w) (members_remove s a h)"
proof -
  have "kv_total (kv_del (members s) a) + w = tot"
    using assms kv_total_del [of "members s" a] by (simp add: running_def kv_nat_Some)
  then have "tot - w = kv_total (kv_del (members s) a)" "tot - w \<le> tot" by simp_all
  with assms(1) show ?thesis by (simp add: running_def)
qed

lemma kv_nat_case: "(case kv_get m a of None \<Rightarrow> 0 | Some w \<Rightarrow> w) = kv_nat m a"
  by (simp add: kv_nat_def)

lemma add_members_running:
  "add_members P h ms (tot, diffs, s) = Ok (tot', diffs', s') \<Longrightarrow> running tot s \<Longrightarrow> running tot' s'"
proof (induction ms arbitrary: tot diffs s)
  case (Cons m ms)
  from Cons.prems(1) obtain a ds where
    "tot - kv_nat (members s) a + member_weight m < u64_lim" and
    rest: "add_members P h ms (tot - kv_nat (members s) a + member_weight m, ds,
       members_save s a (member_weight m) h) = Ok (tot', diffs', s')"
    by (auto simp: outcome_simps arith_simps Let_def kv_nat_case)
  with Cons.prems(2) show ?case by (intro Cons.IH [OF rest] running_save)
qed simp

lemma remove_members_running:
  "remove_members P h rs (tot, diffs, s) = Ok (tot', diffs', s') \<Longrightarrow> running tot s \<Longrightarrow> running tot' s'"
proof (induction rs arbitrary: tot diffs s)
  case (Cons r rs)
  from Cons.prems(1) consider
      (absent) "remove_members P h rs (tot, diffs, s) = Ok (tot', diffs', s')"
    | (present) a w ds where "kv_get (members s) a = Some w"
        "remove_members P h rs (tot - w, ds, members_remove s a h) = Ok (tot', diffs', s')"
    by (auto simp: outcome_simps arith_simps split: option.splits)
  then show ?case
    by cases (use Cons.IH Cons.prems(2) running_remove in blast)+
qed simp

lemma create_members_running:
  assumes "create_members P h ms tot s = Ok (tot', s')" and "platform_exact P" and "running tot s"
    and "distinct (map member_addr ms)" and "\<forall>m \<in> set ms. kv_get (members s) (member_addr m) = None"
  shows "running tot' s'"
  using assms(1,3-)
proof (induction ms arbitrary: tot s)
  case (Cons m ms)
  let ?s = "members_save s (member_addr m) (member_weight m) h"
  from Cons.prems(1) assms(2) have lim: "tot + member_weight m < u64_lim"
    and rest: "create_members P h ms (tot + member_weight m) ?s = Ok (tot', s')"
    by (auto simp: outcome_simps arith_simps dest!: platform_exactD)
  have fresh: "kv_nat (members s) (member_addr m) = 0"
    using Cons.prems(4) by (simp add: kv_nat_def)
  have "running (tot + member_weight m) ?s"
    using running_save [OF Cons.prems(2), of "member_addr m" "member_weight m" h] lim fresh by simp
  with rest show ?case
    by (rule Cons.IH) (use Cons.prems(3,4) in \<open>auto simp: image_iff\<close>)
qed simp

lemma first_duplicate_None:
  "first_duplicate ms = None \<Longrightarrow> sorted (map member_addr ms) \<Longrightarrow> distinct (map member_addr ms)"
proof (induction ms rule: first_duplicate.induct)
  case (1 a b ms)
  then have "member_addr a < member_addr b" "distinct (map member_addr (b # ms))"
    by (auto split: if_splits simp: less_le)
  with 1(3) have "\<forall>c \<in> set (b # ms). member_addr a < member_addr c" by auto
  with \<open>distinct (map member_addr (b # ms))\<close> show ?case by (auto simp: image_iff)
qed simp_all

lemma validate_unique_members_Ok:
  assumes "validate_unique_members ms = Ok ms'"
  shows "ms' = sort_key member_addr ms \<and> distinct (map member_addr ms')"
  using assms first_duplicate_None [of "sort_key member_addr ms"]
  by (auto simp: validate_unique_members_def Let_def split: option.splits)

lemma create_inv:
  assumes "create P s admin ms h = Ok s'" and "platform_exact P" and "members s = []"
  shows "group_inv s'"
proof -
  from assms(1) obtain ms' adm tot t where v: "validate_unique_members ms = Ok ms'"
    and c: "create_members P h ms' 0 (s\<lparr> group_admin := adm \<rparr>) = Ok (tot, t)"
    and s': "s' = total_save t tot h"
    by (auto simp: create_def outcome_simps split: prod.splits)
  have "running tot t"
    by (rule create_members_running [OF c assms(2)])
      (simp_all add: assms(3) running_def kv_total_def validate_unique_members_Ok [OF v, THEN conjunct2])
  with s' show ?thesis by (simp add: group_inv_def running_def)
qed

lemma update_members_run:
  assumes "update_members P s h caller to_add to_remove = Ok (s', diffs)"
  obtains ms tot tot1 ds1 s1 tot2 s2 where
    "validate_unique_members to_add = Ok ms" "admin_of (group_admin s) = Some caller"
    "group_total s = Some tot" "add_members P h ms (tot, [], s) = Ok (tot1, ds1, s1)"
    "remove_members P h to_remove (tot1, ds1, s1) = Ok (tot2, diffs, s2)" "s' = total_save s2 tot2 h"
  using assms
  by (auto simp: update_members_def outcome_simps assert_admin_Ok_iff split: prod.splits)

lemma update_members_inv:
  assumes "update_members P s h caller to_add to_remove = Ok (s', diffs)" and "group_inv s"
  shows "group_inv s'"
  using assms(1)
proof (cases rule: update_members_run)
  case (1 ms tot tot1 ds1 s1 tot2 s2)
  with assms(2) have "running tot s" by (simp add: group_inv_def running_def)
  then have "running tot2 s2"
    using add_members_running [OF 1(4)] remove_members_running [OF 1(5)] by blast
  with 1(6) show ?thesis by (simp add: group_inv_def running_def)
qed

lemma execute_update_members_Ok:
  "execute_update_members P s e info add remove = Ok (s', msgs) \<longleftrightarrow>
     (\<exists>diffs. update_members P s (block_height (block e)) (sender info) add remove = Ok (s', diffs)
        \<and> msgs = map (\<lambda>h. (h, diffs)) (hooks_or_default (group_hooks s')))"
proof -
  have "map_ok (\<lambda>h. Ok (h, ds)) hs = (Ok (map (\<lambda>h. (h, ds)) hs) :: (std_error, _) outcome)" for ds :: "member_diff list" and hs :: "addr list"
    by (induction hs) simp_all
  then show ?thesis
    by (auto simp: execute_update_members_def outcome_simps prepare_hooks_def split: prod.splits)
qed

lemma group_execute_inv:
  assumes "group_execute P s e info msg = Ok (s', msgs)" and "group_inv s"
  shows "group_inv s'"
  using assms
  by (cases msg)
    (auto simp: outcome_simps execute_update_members_Ok group_inv_def [of "group_admin_update _ _"]
      group_inv_def [of "group_hooks_update _ _"] group_inv_def [of s] intro: update_members_inv)

text \<open>The states a deployed group contract can reach.\<close>

inductive group_reachable :: "platform \<Rightarrow> group_state \<Rightarrow> bool" for P where
  group_start: "group_instantiate P e admin ms = Ok s \<Longrightarrow> group_reachable P s"
| group_step: "group_reachable P s \<Longrightarrow> group_execute P s e info msg = Ok (s', msgs) \<Longrightarrow> group_reachable P s'"

lemma reachable_group_inv: "group_reachable P s \<Longrightarrow> platform_exact P \<Longrightarrow> group_inv s"
proof (induction rule: group_reachable.induct)
  case (group_start e admin ms s)
  then show ?case by (auto simp: group_instantiate_def group_empty_def intro: create_inv)
next
  case (group_step s e info msg s' msgs)
  then show ?case using group_execute_inv by blast
qed

section \<open>Effect of an update\<close>

text \<open>A difference record applied to a membership map, and a list that explains a change.\<close>

definition apply_diff :: "(addr, nat) kv \<Rightarrow> member_diff \<Rightarrow> (addr, nat) kv" where
  "apply_diff m d =
     (case diff_new d of None \<Rightarrow> kv_del m (diff_key d) | Some w \<Rightarrow> kv_set m (diff_key d) w)"

fun explains :: "(addr, nat) kv \<Rightarrow> member_diff list \<Rightarrow> (addr, nat) kv \<Rightarrow> bool" where
  "explains m [] m' = (m' = m)"
| "explains m (d # ds) m' = (diff_old d = kv_get m (diff_key d) \<and> explains (apply_diff m d) ds m')"

lemma explains_snoc:
  "explains m ds m' \<Longrightarrow> diff_old d = kv_get m' (diff_key d) \<Longrightarrow> explains m (ds @ [d]) (apply_diff m' d)"
  by (induction m ds m' rule: explains.induct) auto

lemma add_members_explains:
  assumes "add_members P h ms (tot, ds, s) = Ok (tot', ds', s')" and "platform_exact P"
    and "explains m0 ds (members s)"
  shows "explains m0 ds' (members s')"
  using assms(1,3)
proof (induction ms arbitrary: tot ds s)
  case (Cons m ms)
  let ?d = "\<lparr> diff_key = member_addr m, diff_old = kv_get (members s) (member_addr m),
      diff_new = Some (member_weight m) \<rparr>"
  from Cons.prems(1) assms(2) obtain t where
    rest: "add_members P h ms (t, ds @ [?d],
      members_save s (member_addr m) (member_weight m) h) = Ok (tot', ds', s')"
    by (auto simp: outcome_simps Let_def dest!: platform_exactD)
  from explains_snoc [OF Cons.prems(2), of ?d] show ?case
    by (intro Cons.IH [OF rest]) (simp add: apply_diff_def)
qed simp

lemma remove_members_explains:
  assumes "remove_members P h rs (tot, ds, s) = Ok (tot', ds', s')" and "platform_exact P"
    and "explains m0 ds (members s)"
  shows "explains m0 ds' (members s')"
  using assms(1,3)
proof (induction rs arbitrary: tot ds s)
  case (Cons r rs)
  show ?case
  proof (cases "kv_get (members s) r")
    case None
    with Cons.prems(1) assms(2) have "remove_members P h rs (tot, ds, s) = Ok (tot', ds', s')"
      by (auto simp: outcome_simps dest!: platform_exactD)
    then show ?thesis using Cons.prems(2) by (rule Cons.IH)
  next
    case (Some w)
    let ?d = "\<lparr> diff_key = r, diff_old = Some w, diff_new = None \<rparr>"
    from Some Cons.prems(1) assms(2) obtain t where
      rest: "remove_members P h rs (t, ds @ [?d], members_remove s r h) = Ok (tot', ds', s')"
      by (auto simp: outcome_simps dest!: platform_exactD)
    from explains_snoc [OF Cons.prems(2), of ?d] Some show ?thesis
      by (intro Cons.IH [OF rest]) (simp add: apply_diff_def)
  qed
qed simp

lemma add_members_get:
  assumes "add_members P h ms (tot, ds, s) = Ok (tot', ds', s')" and "platform_exact P"
    and "distinct (map member_addr ms)"
  shows "kv_get (members s') a =
    (case map_of (map (\<lambda>m. (member_addr m, member_weight m)) ms) a of
       Some w \<Rightarrow> Some w | None \<Rightarrow> kv_get (members s) a)"
  using assms(1,3)
proof (induction ms arbitrary: tot ds s)
  case (Cons m ms)
  from Cons.prems(1) assms(2) obtain t d where
    "add_members P h ms (t, d, members_save s (member_addr m) (member_weight m) h) = Ok (tot', ds', s')"
    by (auto simp: outcome_simps Let_def dest!: platform_exactD)
  note IH = Cons.IH [OF this]
  have "map_of (map (\<lambda>m. (member_addr m, member_weight m)) ms) (member_addr m) = None"
    using Cons.prems(2) by (auto simp: map_of_eq_None_iff)
  with IH Cons.prems(2) show ?case by (auto split: option.splits)
qed simp

lemma remove_members_get:
  assumes "remove_members P h rs (tot, ds, s) = Ok (tot', ds', s')" and "platform_exact P"
  shows "kv_get (members s') a = (if a \<in> set rs then None else kv_get (members s) a)"
  using assms(1)
proof (induction rs arbitrary: tot ds s)
  case (Cons r rs)
  show ?case
  proof (cases "kv_get (members s) r")
    case None
    with Cons.prems assms(2) have "remove_members P h rs (tot, ds, s) = Ok (tot', ds', s')"
      by (auto simp: outcome_simps dest!: platform_exactD)
    from Cons.IH [OF this] None show ?thesis by auto
  next
    case (Some w)
    with Cons.prems assms(2) obtain t d where
      "remove_members P h rs (t, d, members_remove s r h) = Ok (tot', ds', s')"
      by (auto simp: outcome_simps dest!: platform_exactD)
    from Cons.IH [OF this] show ?thesis by auto
  qed
qed simp

section \<open>Access and listing\<close>

lemma update_members_caller:
  "update_members P s h caller to_add to_remove = Ok r \<Longrightarrow> admin_of (group_admin s) = Some caller"
  by (auto simp: update_members_def outcome_simps assert_admin_Ok_iff)

lemma group_execute_caller:
  "group_execute P s e info msg = Ok r \<Longrightarrow> admin_of (group_admin s) = Some (sender info)"
  by (cases msg)
    (auto simp: outcome_simps execute_update_members_def execute_update_admin_def assert_admin_Ok_iff
      execute_add_hook_Ok_iff execute_remove_hook_Ok_iff dest: update_members_caller split: prod.splits)

abbreviation members_accepted :: "platform \<Rightarrow> group_state \<Rightarrow> bool" where
  "members_accepted P s \<equiv> \<forall>a \<in> fst ` set (members s). addr_validate P a = Ok a"

definition member_entry :: "addr \<times> nat \<Rightarrow> member" where
  "member_entry e = \<lparr> member_addr = fst e, member_weight = snd e \<rparr>"

lemma member_entry_addr [simp]: "member_addr (member_entry e) = fst e"
  by (simp add: member_entry_def)

lemma list_members_page:
  "query_list_members P s start limit =
     and_then (traverse_opt (addr_validate P) start) (\<lambda>b.
     Ok (map member_entry (take (page_limit limit) (kv_after (members s) b))))"
proof -
  have "(\<lambda>(a, w). \<lparr> member_addr = a, member_weight = w \<rparr>) = member_entry"
    by (auto simp: member_entry_def)
  then show ?thesis by (simp add: query_list_members_def)
qed

interpretation member_pages: paginated
  "\<lambda>(P, s, limit). group_inv s \<and> members_accepted P s \<and> 0 < page_limit limit"
  "\<lambda>(P, s, limit) start. query_list_members P s start limit"
  "\<lambda>(P, s, limit). map member_entry (members s)" member_addr "\<lambda>(P, s, limit). page_limit limit"
proof (unfold_locales, goal_cases)
  case (1 x)
  then show ?case
    by (auto simp: list_members_page kv_after_def take_map)
next
  case (2 x n)
  then show ?case
    by (auto simp: list_members_page kv_after_last group_inv_def take_map drop_map)
next
  case (3 x)
  then show ?case by auto
qed

section \<open>Properties\<close>

definition demo_env :: env where
  "demo_env = \<lparr> block = \<lparr> block_height = 12, block_time = 7000000000 \<rparr>, contract_address = ''group'' \<rparr>"

definition demo_members :: "member list" where
  "demo_members = [\<lparr> member_addr = ''bob'', member_weight = 4 \<rparr>, \<lparr> member_addr = ''ann'', member_weight = 3 \<rparr>]"

definition demo_group :: group_state where
  "demo_group = \<lparr> group_admin = Some (Some ''boss''), group_hooks = None,
     members = [(''ann'', 3), (''bob'', 4)],
     members_log = [(12, ''bob'', Some 4), (12, ''ann'', Some 3)], group_total = Some 7, total_log = [(12, 7)] \<rparr>"

lemma demo_group_start: "group_instantiate demo_platform demo_env (Some ''boss'') demo_members = Ok demo_group"
  by (simp add: group_instantiate_def create_def validate_unique_members_def demo_members_def
      demo_platform_def demo_group_def demo_env_def group_empty_def admin_set_def members_save_def
      total_save_def checked_int_defs Let_def insort_key.simps)

lemma demo_group_reachable: "group_reachable demo_platform demo_group"
  using group_start [OF demo_group_start] .

text \<open>
  In every state a deployed group can reach, the stored total weight is exactly the sum of
  the weights of its members, it fits 64 bits, and no member is listed twice.
\<close>

theorem group_total_is_sum_of_weights:
  assumes "platform_exact P" and "group_reachable P s"
  shows "group_total s = Some (sum_list (map snd (members s))) \<and> sum_list (map snd (members s)) < 2 ^ 64
    \<and> distinct (map fst (members s))"
  using reachable_group_inv [OF assms(2,1)] kv_ok_distinct [of "members s"]
  by (simp add: group_inv_def kv_total_def u64_lim_def)

theorem group_total_is_sum_of_weights_witness:
  "group_total demo_group = Some (3 + 4) \<and> distinct (map fst (members demo_group))"
  using group_total_is_sum_of_weights [OF demo_platform_exact demo_group_reachable]
  by (simp add: demo_group_def)

text \<open>
  An update of the group has the effect its message describes: removed members are gone
  (removal wins when an address is both added and removed), added members have the new weight,
  everybody else is unchanged; the total becomes the new sum; and the differences sent to
  every hook, replayed in order on the old membership, give the new one.
\<close>

theorem group_update_effect:
  assumes "platform_exact P" and "group_inv s"
    and "execute_update_members P s e info add remove = Ok (s', msgs)"
  shows "(\<forall>a. kv_get (members s') a =
      (if a \<in> set remove then None
       else case map_of (map (\<lambda>m. (member_addr m, member_weight m)) add) a of
              Some w \<Rightarrow> Some w | None \<Rightarrow> kv_get (members s) a))
    \<and> group_total s' = Some (kv_total (members s'))
    \<and> (\<exists>diffs. explains (members s) diffs (members s')
          \<and> msgs = map (\<lambda>h. (h, diffs)) (hooks_or_default (group_hooks s')))"
proof -
  from assms(3) obtain diffs where up:
    "update_members P s (block_height (block e)) (sender info) add remove = Ok (s', diffs)"
    and msgs: "msgs = map (\<lambda>h. (h, diffs)) (hooks_or_default (group_hooks s'))"
    by (auto simp: execute_update_members_Ok)
  from up show ?thesis
  proof (cases rule: update_members_run)
    case (1 ms tot tot1 ds1 s1 tot2 s2)
    let ?f = "\<lambda>m. (member_addr m, member_weight m)"
    have ms: "mset ms = mset add" "distinct (map member_addr ms)"
      using validate_unique_members_Ok [OF 1(1)] by auto
    have "set (map ?f ms) = set (map ?f add)"
      using mset_eq_setD [OF ms(1)] by simp
    moreover have "distinct (map member_addr add)"
      using ms mset_eq_imp_distinct_iff [of "map member_addr ms" "map member_addr add"] by simp
    ultimately have "map_of (map ?f ms) = map_of (map ?f add)"
      using ms(2) by (subst map_of_inject_set) (simp_all add: comp_def)
    with add_members_get [OF 1(4) assms(1) ms(2)] remove_members_get [OF 1(5) assms(1)] 1(6)
    have get: "kv_get (members s') a =
      (if a \<in> set remove then None
       else case map_of (map ?f add) a of Some w \<Rightarrow> Some w | None \<Rightarrow> kv_get (members s) a)" for a
      by simp
    have "explains (members s) diffs (members s2)"
      using add_members_explains [OF 1(4) assms(1), of "members s"]
      by (intro remove_members_explains [OF 1(5) assms(1)]) simp
    with get msgs 1(6) update_members_inv [OF up assms(2)] show ?thesis
      by (auto simp: group_inv_def)
  qed
qed

theorem group_update_effect_witness:
  "\<exists>s' msgs. execute_update_members demo_platform demo_group demo_env \<lparr> sender = ''boss'' \<rparr>
       [\<lparr> member_addr = ''cat'', member_weight = 5 \<rparr>] [''bob''] = Ok (s', msgs)
     \<and> kv_get (members s') ''bob'' = None \<and> kv_get (members s') ''cat'' = Some 5
     \<and> group_total s' = Some (kv_total (members s'))"
proof -
  obtain s' msgs where run: "execute_update_members demo_platform demo_group demo_env \<lparr> sender = ''boss'' \<rparr>
       [\<lparr> member_addr = ''cat'', member_weight = 5 \<rparr>] [''bob''] = Ok (s', msgs)"
    by (simp add: execute_update_members_def update_members_def validate_unique_members_def
      demo_platform_def demo_group_def demo_env_def assert_admin_def is_admin_def members_save_def
      members_remove_def prepare_hooks_def hooks_or_default_def
      total_save_def checked_int_defs Let_def kv_del_def)
  have "group_inv demo_group"
    by (rule reachable_group_inv [OF demo_group_reachable demo_platform_exact])
  from group_update_effect [OF demo_platform_exact this run] run show ?thesis by auto
qed

text \<open>
  Only the admin changes a group, whatever the message, and a group instantiated without
  an admin is immutable: every message is refused in every state it can reach.
\<close>

theorem group_changes_need_admin:
  "(group_execute P s e info msg = Ok (s', msgs) \<longrightarrow> admin_of (group_admin s) = Some (sender info))
   \<and> (group_instantiate P e0 None ms = Ok s0 \<longrightarrow> group_execute P s0 e info msg \<noteq> Ok r)"
proof -
  have "admin_of (group_admin s0) = None" if inst: "group_instantiate P e0 None ms = Ok s0"
  proof -
    have "create_members P h xs tot t = Ok (tot', t') \<Longrightarrow> group_admin t' = group_admin t" for h xs tot t tot' t'
      by (induction xs arbitrary: tot t) (fastforce simp: outcome_simps)+
    with inst show ?thesis
      by (auto simp: group_instantiate_def create_def outcome_simps admin_set_def admin_of_def
          split: prod.splits)
  qed
  then show ?thesis using group_execute_caller by fastforce
qed

theorem group_changes_need_admin_witness:
  "\<forall>info msg r. group_execute demo_platform (demo_group\<lparr> group_admin := Some None \<rparr>) demo_env info msg \<noteq> Ok r"
proof -
  have "group_instantiate demo_platform demo_env None demo_members = Ok (demo_group\<lparr> group_admin := Some None \<rparr>)"
    by (simp add: group_instantiate_def create_def validate_unique_members_def demo_members_def
      demo_platform_def demo_group_def demo_env_def group_empty_def admin_set_def members_save_def
      total_save_def checked_int_defs Let_def insort_key.simps)
  with group_changes_need_admin show ?thesis by blast
qed

text \<open>
  A client that pages through \<open>ListMembers\<close>, passing the last address it has seen as
  \<open>start_after\<close>, reads every member exactly once, in address order, whatever positive page
  size it asks for.
\<close>

theorem listing_members_is_complete:
  assumes "platform_exact P" and "group_reachable P s"
    and "\<forall>a \<in> fst ` set (members s). addr_validate P a = Ok a"
    and "limit \<noteq> Some 0"
  shows "read_pages (\<lambda>start. query_list_members P s start limit) member_addr (Suc (length (members s))) None
    = Ok (map (\<lambda>(a, w). \<lparr> member_addr = a, member_weight = w \<rparr>) (members s))"
proof -
  have "0 < page_limit limit"
    using assms(4) by (auto simp: page_limit_def split: option.splits)
  with member_pages.read_pages_all [of "(P, s, limit)" "Suc (length (members s))"] assms
    reachable_group_inv [OF assms(2,1)]
  show ?thesis by (simp add: member_entry_def case_prod_beta')
qed

theorem listing_members_is_complete_witness:
  "read_pages (\<lambda>start. query_list_members demo_platform demo_group start (Some 1)) member_addr 3 None
    = Ok [\<lparr> member_addr = ''ann'', member_weight = 3 \<rparr>, \<lparr> member_addr = ''bob'', member_weight = 4 \<rparr>]"
  using listing_members_is_complete [OF demo_platform_exact demo_group_reachable, of "Some 1"]
  by (simp add: demo_group_def demo_platform_def numeral_eq_Suc)

end
