(* ===== verification/Cw20_Base.thy ===== *)
theory Cw20_Base
  imports Store
begin

text \<open>
  The token contract of \<open>contracts/cw20-base\<close>: balances, minting under a cap, allowances kept
  in two mirrored maps, marketing data with a verified logo, paginated listings, migration.
  Strings are their UTF-8 bytes.  Response attributes are left out; the message a \<open>Send\<close>
  forwards to the receiving contract is kept.
\<close>

section \<open>State and errors\<close>

datatype token_error =
    Tok_std std_error
  | Unauthorized
  | Cannot_set_own_account
  | Expired
  | No_allowance
  | Cannot_exceed_cap
  | Logo_too_big
  | Invalid_xml_preamble
  | Invalid_png_header
  | Invalid_expiration
  | Duplicate_initial_balance_addresses

record minter_data =
  minter :: addr
  mint_cap :: "nat option"

record token_info =
  token_name :: string
  token_symbol :: string
  token_decimals :: nat
  total_supply :: nat
  mint :: "minter_data option"

definition get_cap :: "token_info \<Rightarrow> nat option" where
  "get_cap ti = (case mint ti of None \<Rightarrow> None | Some m \<Rightarrow> mint_cap m)"

text \<open>An allowance; \<open>unwrap_or_default\<close> of a missing one is zero that never expires.\<close>

record allowance =
  allowed :: nat
  expires :: expiration

definition allowance_default :: allowance where
  "allowance_default = \<lparr> allowed = 0, expires = Never \<rparr>"

type_synonym bytes = string

datatype logo = Logo_url string | Logo_svg bytes | Logo_png bytes

datatype logo_info = Info_url string | Info_embedded

record marketing_info =
  mk_project :: "string option"
  mk_description :: "string option"
  mk_marketing :: "addr option"
  mk_logo :: "logo_info option"

definition marketing_default :: marketing_info where
  "marketing_default =
     \<lparr> mk_project = None, mk_description = None, mk_marketing = None, mk_logo = None \<rparr>"

text \<open>The storage; \<open>cw2_version\<close> is the item of \<open>set_contract_version\<close> (name and version).\<close>

record token_state =
  cw2_version :: "(string \<times> string) option"
  token :: "token_info option"
  marketing_item :: "marketing_info option"
  logo_item :: "logo option"
  balances :: "(addr, nat) kv"
  allowances :: "(addr \<times> addr, allowance) kv"
  allowances_spender :: "(addr \<times> addr, allowance) kv"

definition token_empty :: token_state where
  "token_empty = \<lparr> cw2_version = None, token = None, marketing_item = None, logo_item = None,
     balances = [], allowances = [], allowances_spender = [] \<rparr>"

definition contract_name :: string where "contract_name = ''crates.io:cw20-base''"
definition contract_version :: string where "contract_version = ''1.0.1''"

section \<open>Logos\<close>

definition logo_size_cap :: nat where "logo_size_cap = 5 * 1024"

text \<open>\<open>data.split_inclusive(|c| *c == b'>').next()\<close>: everything up to and including the first \<open>>\<close>.\<close>

fun split_inclusive_first :: "bytes \<Rightarrow> bytes option" where
  "split_inclusive_first [] = None"
| "split_inclusive_first (c # cs) =
     Some (if c = CHR ''>'' then [c]
           else case split_inclusive_first cs of None \<Rightarrow> [c] | Some p \<Rightarrow> c # p)"

definition starts_with :: "bytes \<Rightarrow> bytes \<Rightarrow> bool" where
  "starts_with data p = (take (length p) data = p)"

definition ends_with :: "bytes \<Rightarrow> bytes \<Rightarrow> bool" where
  "ends_with data p = (length p \<le> length data \<and> drop (length data - length p) data = p)"

definition verify_xml_preamble :: "bytes \<Rightarrow> (token_error, unit) outcome" where
  "verify_xml_preamble data =
     and_then (ok_or Invalid_xml_preamble (split_inclusive_first data)) (\<lambda>preamble.
     if \<not> (starts_with preamble ''<?xml '' \<and> ends_with preamble ''?>'')
     then Err Invalid_xml_preamble
     else Ok ())"

definition verify_xml_logo :: "bytes \<Rightarrow> (token_error, unit) outcome" where
  "verify_xml_logo data =
     and_then (verify_xml_preamble data) (\<lambda>_.
     if length data > logo_size_cap then Err Logo_too_big else Ok ())"

definition png_header :: bytes where
  "png_header = map char_of [0x89::nat, 80, 78, 71, 0x0d, 0x0a, 0x1a, 0x0a]"

definition verify_png_logo :: "bytes \<Rightarrow> (token_error, unit) outcome" where
  "verify_png_logo data =
     (if length data > logo_size_cap then Err Logo_too_big
      else if \<not> starts_with data png_header then Err Invalid_png_header
      else Ok ())"

fun verify_logo :: "logo \<Rightarrow> (token_error, unit) outcome" where
  "verify_logo (Logo_svg data) = verify_xml_logo data"
| "verify_logo (Logo_png data) = verify_png_logo data"
| "verify_logo (Logo_url _) = Ok ()"

fun logo_info_of :: "logo \<Rightarrow> logo_info" where
  "logo_info_of (Logo_url url) = Info_url url"
| "logo_info_of (Logo_svg _) = Info_embedded"
| "logo_info_of (Logo_png _) = Info_embedded"

section \<open>Instantiation\<close>

record coin =
  coin_address :: string
  coin_amount :: nat

record minter_request =
  req_minter :: string
  req_cap :: "nat option"

record marketing_request =
  req_project :: "string option"
  req_description :: "string option"
  req_marketing :: "string option"
  req_logo :: "logo option"

record token_instantiate_msg =
  msg_name :: string
  msg_symbol :: string
  msg_decimals :: nat
  initial_balances :: "coin list"
  msg_mint :: "minter_request option"
  msg_marketing :: "marketing_request option"

definition msg_get_cap :: "token_instantiate_msg \<Rightarrow> nat option" where
  "msg_get_cap msg = (case msg_mint msg of None \<Rightarrow> None | Some m \<Rightarrow> req_cap m)"

definition has_valid_name :: "string \<Rightarrow> bool" where
  "has_valid_name n = (if length n < 3 \<or> length n > 50 then False else True)"

definition symbol_byte :: "char \<Rightarrow> bool" where
  "symbol_byte c =
     (let b = of_char c :: nat
      in \<not> (b \<noteq> 45 \<and> (b < 65 \<or> b > 90) \<and> (b < 97 \<or> b > 122)))"

definition has_valid_symbol :: "string \<Rightarrow> bool" where
  "has_valid_symbol s =
     (if length s < 3 \<or> length s > 12 then False else list_all symbol_byte s)"

definition token_msg_validate :: "token_instantiate_msg \<Rightarrow> (std_error, unit) outcome" where
  "token_msg_validate msg =
     (if \<not> has_valid_name (msg_name msg)
        then Err (Generic_err ''Name is not in the expected format (3-50 UTF-8 bytes)'')
      else if \<not> has_valid_symbol (msg_symbol msg)
        then Err (Generic_err (''Ticker symbol is not in expected format [a-zA-Z'' @ CHR 0x5C # ''-]{3,12}''))
      else if msg_decimals msg > 18 then Err (Generic_err ''Decimals must not exceed 18'')
      else Ok ())"

text \<open>\<open>sort\<close> and \<open>dedup\<close> leave as many entries as there are distinct addresses.\<close>

definition validate_accounts :: "coin list \<Rightarrow> (token_error, unit) outcome" where
  "validate_accounts accounts =
     (let addresses = remdups_adj (sort (map coin_address accounts))
      in if length addresses \<noteq> length accounts then Err Duplicate_initial_balance_addresses
         else Ok ())"

fun save_accounts ::
  "platform \<Rightarrow> coin list \<Rightarrow> (addr, nat) kv \<Rightarrow> nat \<Rightarrow> (token_error, nat \<times> (addr, nat) kv) outcome"
where
  "save_accounts P [] bs supply = Ok (supply, bs)"
| "save_accounts P (row # rows) bs supply =
     and_then (map_err Tok_std (addr_validate P (coin_address row))) (\<lambda>a.
     and_then (u128_add supply (coin_amount row)) (\<lambda>supply'.
     save_accounts P rows (kv_set bs a (coin_amount row)) supply'))"

definition create_accounts ::
  "platform \<Rightarrow> coin list \<Rightarrow> (addr, nat) kv \<Rightarrow> (token_error, nat \<times> (addr, nat) kv) outcome"
where
  "create_accounts P accounts bs =
     and_then (validate_accounts accounts) (\<lambda>_. save_accounts P accounts bs 0)"

text \<open>The marketing part of \<open>instantiate\<close>: the stored logo and the stored marketing data.\<close>

definition instantiate_marketing ::
  "platform \<Rightarrow> token_state \<Rightarrow> marketing_request \<Rightarrow> (token_error, token_state) outcome"
where
  "instantiate_marketing P s m =
     and_then
       (case req_logo m of
          Some l \<Rightarrow> and_then (verify_logo l) (\<lambda>_. Ok (s\<lparr> logo_item := Some l \<rparr>, Some (logo_info_of l)))
        | None \<Rightarrow> Ok (s, None)) (\<lambda>(s', info).
     and_then (map_err Tok_std (traverse_opt (addr_validate P) (req_marketing m))) (\<lambda>a.
     Ok (s'\<lparr> marketing_item := Some \<lparr> mk_project = req_project m, mk_description = req_description m,
           mk_marketing = a, mk_logo = info \<rparr> \<rparr>)))"

definition instantiate_minter ::
  "platform \<Rightarrow> minter_request option \<Rightarrow> (token_error, minter_data option) outcome"
where
  "instantiate_minter P req =
     (case req of
        Some m \<Rightarrow> and_then (map_err Tok_std (addr_validate P (req_minter m))) (\<lambda>a.
                  Ok (Some \<lparr> minter = a, mint_cap = req_cap m \<rparr>))
      | None \<Rightarrow> Ok None)"

definition token_instantiate ::
  "platform \<Rightarrow> token_instantiate_msg \<Rightarrow> (token_error, token_state) outcome"
where
  "token_instantiate P msg =
     and_then (map_err Tok_std (token_msg_validate msg)) (\<lambda>_.
     and_then (create_accounts P (initial_balances msg) []) (\<lambda>(supply, bs).
     and_then (case msg_get_cap msg of
                 Some limit \<Rightarrow>
                   if supply > limit then Err (Tok_std (Generic_err ''Initial supply greater than cap''))
                   else Ok ()
               | None \<Rightarrow> Ok ()) (\<lambda>_.
     and_then (instantiate_minter P (msg_mint msg)) (\<lambda>mint.
     let s = token_empty\<lparr> cw2_version := Some (contract_name, contract_version),
               balances := bs,
               token := Some \<lparr> token_name = msg_name msg, token_symbol = msg_symbol msg,
                          token_decimals = msg_decimals msg, total_supply = supply, mint = mint \<rparr> \<rparr>
     in case msg_marketing msg of
          Some m \<Rightarrow> instantiate_marketing P s m
        | None \<Rightarrow> Ok s))))"

section \<open>Moving tokens\<close>

text \<open>The two closures with which every operation updates \<open>BALANCES\<close>.\<close>

definition balance_sub :: "(addr, nat) kv \<Rightarrow> addr \<Rightarrow> nat \<Rightarrow> (token_error, (addr, nat) kv) outcome" where
  "balance_sub bs a amount =
     and_then (map_err Tok_std (u128_checked_sub (kv_nat bs a) amount)) (\<lambda>b. Ok (kv_set bs a b))"

definition balance_add :: "(addr, nat) kv \<Rightarrow> addr \<Rightarrow> nat \<Rightarrow> (token_error, (addr, nat) kv) outcome" where
  "balance_add bs a amount = and_then (u128_add (kv_nat bs a) amount) (\<lambda>b. Ok (kv_set bs a b))"

text \<open>\<open>TOKEN_INFO.update\<close> with a checked subtraction, as both burning operations do it.\<close>

definition supply_sub :: "token_info option \<Rightarrow> nat \<Rightarrow> (token_error, token_info option) outcome" where
  "supply_sub ti amount =
     and_then (map_err Tok_std (ok_or (Not_found ''TokenInfo'') ti)) (\<lambda>t.
     and_then (map_err Tok_std (u128_checked_sub (total_supply t) amount)) (\<lambda>n.
     Ok (Some (t\<lparr> total_supply := n \<rparr>))))"

text \<open>The message that tells a contract it has received tokens.\<close>

record receive_msg =
  receiver :: string
  receive_sender :: addr
  receive_amount :: nat
  receive_payload :: bytes

definition execute_transfer ::
  "platform \<Rightarrow> token_state \<Rightarrow> message_info \<Rightarrow> string \<Rightarrow> nat \<Rightarrow> (token_error, token_state) outcome"
where
  "execute_transfer P s info recipient amount =
     and_then (map_err Tok_std (addr_validate P recipient)) (\<lambda>rcpt.
     and_then (balance_sub (balances s) (sender info) amount) (\<lambda>bs.
     and_then (balance_add bs rcpt amount) (\<lambda>bs'.
     Ok (s\<lparr> balances := bs' \<rparr>))))"

definition execute_burn ::
  "token_state \<Rightarrow> message_info \<Rightarrow> nat \<Rightarrow> (token_error, token_state) outcome"
where
  "execute_burn s info amount =
     and_then (balance_sub (balances s) (sender info) amount) (\<lambda>bs.
     and_then (supply_sub (token s) amount) (\<lambda>ti.
     Ok (s\<lparr> balances := bs, token := ti \<rparr>)))"

definition execute_mint ::
  "platform \<Rightarrow> token_state \<Rightarrow> message_info \<Rightarrow> string \<Rightarrow> nat \<Rightarrow> (token_error, token_state) outcome"
where
  "execute_mint P s info recipient amount =
     and_then (ok_or Unauthorized (token s)) (\<lambda>config.
     and_then (ok_or Unauthorized (mint config)) (\<lambda>m.
     if minter m \<noteq> sender info then Err Unauthorized
     else
     and_then (u128_add (total_supply config) amount) (\<lambda>supply.
     let config' = config\<lparr> total_supply := supply \<rparr> in
     and_then (case get_cap config' of
                 Some limit \<Rightarrow> if supply > limit then Err Cannot_exceed_cap else Ok ()
               | None \<Rightarrow> Ok ()) (\<lambda>_.
     and_then (map_err Tok_std (addr_validate P recipient)) (\<lambda>rcpt.
     and_then (balance_add (balances s) rcpt amount) (\<lambda>bs.
     Ok (s\<lparr> token := Some config', balances := bs \<rparr>)))))))"

definition execute_send ::
  "platform \<Rightarrow> token_state \<Rightarrow> message_info \<Rightarrow> string \<Rightarrow> nat \<Rightarrow> bytes
     \<Rightarrow> (token_error, token_state \<times> receive_msg list) outcome"
where
  "execute_send P s info contract amount payload =
     and_then (map_err Tok_std (addr_validate P contract)) (\<lambda>rcpt.
     and_then (balance_sub (balances s) (sender info) amount) (\<lambda>bs.
     and_then (balance_add bs rcpt amount) (\<lambda>bs'.
     Ok (s\<lparr> balances := bs' \<rparr>,
         [\<lparr> receiver = contract, receive_sender = sender info, receive_amount = amount,
            receive_payload = payload \<rparr>]))))"

definition execute_update_minter ::
  "platform \<Rightarrow> token_state \<Rightarrow> message_info \<Rightarrow> string option \<Rightarrow> (token_error, token_state) outcome"
where
  "execute_update_minter P s info new_minter =
     and_then (ok_or Unauthorized (token s)) (\<lambda>config.
     and_then (ok_or Unauthorized (mint config)) (\<lambda>m.
     if minter m \<noteq> sender info then Err Unauthorized
     else
     and_then (map_err Tok_std (traverse_opt (addr_validate P) new_minter)) (\<lambda>a.
     Ok (s\<lparr> token := Some (config\<lparr> mint :=
           map_option (\<lambda>a. \<lparr> minter = a, mint_cap = mint_cap m \<rparr>) a \<rparr>) \<rparr>))))"

section \<open>Marketing\<close>

text \<open>
  \<open>trim().is_empty()\<close>: only characters with the Unicode property \<open>White_Space\<close>, here read off
  their UTF-8 bytes.
\<close>

definition wide_space :: "nat \<Rightarrow> nat \<Rightarrow> nat \<Rightarrow> bool" where
  "wide_space b c d =
     ((b, c, d) = (0xE1, 0x9A, 0x80)
      \<or> b = 0xE2 \<and> c = 0x80 \<and> (0x80 \<le> d \<and> d \<le> 0x8A \<or> d = 0xA8 \<or> d = 0xA9 \<or> d = 0xAF)
      \<or> (b, c, d) = (0xE2, 0x81, 0x9F)
      \<or> (b, c, d) = (0xE3, 0x80, 0x80))"

fun blank_bytes :: "nat list \<Rightarrow> bool" where
  "blank_bytes [] = True"
| "blank_bytes (b # bs) =
     (if 9 \<le> b \<and> b \<le> 13 \<or> b = 32 then blank_bytes bs
      else case bs of
        [] \<Rightarrow> False
      | c # cs \<Rightarrow>
          if b = 0xC2 \<and> (c = 0x85 \<or> c = 0xA0) then blank_bytes cs
          else case cs of
            [] \<Rightarrow> False
          | d # ds \<Rightarrow> wide_space b c d \<and> blank_bytes ds)"

definition blank :: "string \<Rightarrow> bool" where
  "blank s = blank_bytes (map of_char s)"

definition edit_text :: "string option \<Rightarrow> string option \<Rightarrow> string option" where
  "edit_text new old =
     (case new of Some t \<Rightarrow> if blank t then None else Some t | None \<Rightarrow> old)"

definition execute_update_marketing ::
  "platform \<Rightarrow> token_state \<Rightarrow> message_info \<Rightarrow> string option \<Rightarrow> string option \<Rightarrow> string option
     \<Rightarrow> (token_error, token_state) outcome"
where
  "execute_update_marketing P s info project description marketing =
     and_then (ok_or Unauthorized (marketing_item s)) (\<lambda>mi.
     and_then (ok_or Unauthorized (mk_marketing mi)) (\<lambda>owner.
     if owner \<noteq> sender info then Err Unauthorized
     else
     and_then (case marketing of
                 Some t \<Rightarrow> if blank t then Ok None
                          else and_then (map_err Tok_std (addr_validate P t)) (\<lambda>a. Ok (Some a))
               | None \<Rightarrow> Ok (mk_marketing mi)) (\<lambda>m.
     let mi' = mi\<lparr> mk_project := edit_text project (mk_project mi),
                   mk_description := edit_text description (mk_description mi),
                   mk_marketing := m \<rparr>
     in Ok (s\<lparr> marketing_item :=
          (if mk_project mi' = None \<and> mk_description mi' = None \<and> mk_marketing mi' = None
              \<and> mk_logo mi' = None then None else Some mi') \<rparr>))))"

definition execute_upload_logo ::
  "token_state \<Rightarrow> message_info \<Rightarrow> logo \<Rightarrow> (token_error, token_state) outcome"
where
  "execute_upload_logo s info l =
     and_then (ok_or Unauthorized (marketing_item s)) (\<lambda>mi.
     and_then (verify_logo l) (\<lambda>_.
     and_then (ok_or Unauthorized (mk_marketing mi)) (\<lambda>owner.
     if owner \<noteq> sender info then Err Unauthorized
     else Ok (s\<lparr> logo_item := Some l, marketing_item := Some (mi\<lparr> mk_logo := Some (logo_info_of l) \<rparr>) \<rparr>))))"

section \<open>Allowances\<close>

definition allowance_or_default :: "allowance option \<Rightarrow> allowance" where
  "allowance_or_default a = (case a of None \<Rightarrow> allowance_default | Some v \<Rightarrow> v)"

text \<open>The closure of \<open>execute_increase_allowance\<close>, run on both maps.\<close>

definition raise_allowance ::
  "platform \<Rightarrow> env \<Rightarrow> nat \<Rightarrow> expiration option \<Rightarrow> allowance option \<Rightarrow> (token_error, allowance) outcome"
where
  "raise_allowance P e amount new_expires allow =
     (let val = allowance_or_default allow in
      and_then (case new_expires of
                  Some ex \<Rightarrow> if is_expired P ex (block e) then Err Invalid_expiration
                            else Ok (val\<lparr> expires := ex \<rparr>)
                | None \<Rightarrow> Ok val) (\<lambda>val'.
      and_then (u128_add (allowed val') amount) (\<lambda>n. Ok (val'\<lparr> allowed := n \<rparr>))))"

definition execute_increase_allowance ::
  "platform \<Rightarrow> token_state \<Rightarrow> env \<Rightarrow> message_info \<Rightarrow> string \<Rightarrow> nat \<Rightarrow> expiration option
     \<Rightarrow> (token_error, token_state) outcome"
where
  "execute_increase_allowance P s e info spender amount new_expires =
     and_then (map_err Tok_std (addr_validate P spender)) (\<lambda>sp.
     if sp = sender info then Err Cannot_set_own_account
     else
     and_then (raise_allowance P e amount new_expires (kv_get (allowances s) (sender info, sp))) (\<lambda>a.
     and_then (raise_allowance P e amount new_expires (kv_get (allowances_spender s) (sp, sender info))) (\<lambda>b.
     Ok (s\<lparr> allowances := kv_set (allowances s) (sender info, sp) a,
           allowances_spender := kv_set (allowances_spender s) (sp, sender info) b \<rparr>))))"

definition execute_decrease_allowance ::
  "platform \<Rightarrow> token_state \<Rightarrow> env \<Rightarrow> message_info \<Rightarrow> string \<Rightarrow> nat \<Rightarrow> expiration option
     \<Rightarrow> (token_error, token_state) outcome"
where
  "execute_decrease_allowance P s e info spender amount new_expires =
     and_then (map_err Tok_std (addr_validate P spender)) (\<lambda>sp.
     if sp = sender info then Err Cannot_set_own_account
     else
     and_then (map_err Tok_std (ok_or (Not_found ''AllowanceResponse'')
                 (kv_get (allowances s) (sender info, sp)))) (\<lambda>a.
     if amount < allowed a then
       and_then (map_err Tok_std (u128_checked_sub (allowed a) amount)) (\<lambda>n.
       let a' = a\<lparr> allowed := n \<rparr> in
       and_then (case new_expires of
                   Some ex \<Rightarrow> if is_expired P ex (block e) then Err Invalid_expiration
                             else Ok (a'\<lparr> expires := ex \<rparr>)
                 | None \<Rightarrow> Ok a') (\<lambda>a''.
       Ok (s\<lparr> allowances := kv_set (allowances s) (sender info, sp) a'',
             allowances_spender := kv_set (allowances_spender s) (sp, sender info) a'' \<rparr>)))
     else
       Ok (s\<lparr> allowances := kv_del (allowances s) (sender info, sp),
             allowances_spender := kv_del (allowances_spender s) (sp, sender info) \<rparr>)))"

definition lower_allowance ::
  "platform \<Rightarrow> block_info \<Rightarrow> nat \<Rightarrow> allowance option \<Rightarrow> (token_error, allowance) outcome"
where
  "lower_allowance P b amount current =
     (case current of
        Some a \<Rightarrow>
          if is_expired P (expires a) b then Err Expired
          else and_then (map_err Tok_std (u128_checked_sub (allowed a) amount)) (\<lambda>n.
               Ok (a\<lparr> allowed := n \<rparr>))
      | None \<Rightarrow> Err No_allowance)"

definition deduct_allowance ::
  "platform \<Rightarrow> token_state \<Rightarrow> addr \<Rightarrow> addr \<Rightarrow> block_info \<Rightarrow> nat
     \<Rightarrow> (token_error, token_state \<times> allowance) outcome"
where
  "deduct_allowance P s owner spender b amount =
     and_then (lower_allowance P b amount (kv_get (allowances s) (owner, spender))) (\<lambda>a.
     and_then (lower_allowance P b amount (kv_get (allowances_spender s) (spender, owner))) (\<lambda>a'.
     Ok (s\<lparr> allowances := kv_set (allowances s) (owner, spender) a,
           allowances_spender := kv_set (allowances_spender s) (spender, owner) a' \<rparr>, a')))"

definition execute_transfer_from ::
  "platform \<Rightarrow> token_state \<Rightarrow> env \<Rightarrow> message_info \<Rightarrow> string \<Rightarrow> string \<Rightarrow> nat
     \<Rightarrow> (token_error, token_state) outcome"
where
  "execute_transfer_from P s e info owner recipient amount =
     and_then (map_err Tok_std (addr_validate P recipient)) (\<lambda>rcpt.
     and_then (map_err Tok_std (addr_validate P owner)) (\<lambda>own.
     and_then (deduct_allowance P s own (sender info) (block e) amount) (\<lambda>(s', _).
     and_then (balance_sub (balances s') own amount) (\<lambda>bs.
     and_then (balance_add bs rcpt amount) (\<lambda>bs'.
     Ok (s'\<lparr> balances := bs' \<rparr>))))))"

definition execute_burn_from ::
  "platform \<Rightarrow> token_state \<Rightarrow> env \<Rightarrow> message_info \<Rightarrow> string \<Rightarrow> nat \<Rightarrow> (token_error, token_state) outcome"
where
  "execute_burn_from P s e info owner amount =
     and_then (map_err Tok_std (addr_validate P owner)) (\<lambda>own.
     and_then (deduct_allowance P s own (sender info) (block e) amount) (\<lambda>(s', _).
     and_then (balance_sub (balances s') own amount) (\<lambda>bs.
     and_then (supply_sub (token s') amount) (\<lambda>ti.
     Ok (s'\<lparr> balances := bs, token := ti \<rparr>)))))"

definition execute_send_from ::
  "platform \<Rightarrow> token_state \<Rightarrow> env \<Rightarrow> message_info \<Rightarrow> string \<Rightarrow> string \<Rightarrow> nat \<Rightarrow> bytes
     \<Rightarrow> (token_error, token_state \<times> receive_msg list) outcome"
where
  "execute_send_from P s e info owner contract amount payload =
     and_then (map_err Tok_std (addr_validate P contract)) (\<lambda>rcpt.
     and_then (map_err Tok_std (addr_validate P owner)) (\<lambda>own.
     and_then (deduct_allowance P s own (sender info) (block e) amount) (\<lambda>(s', _).
     and_then (balance_sub (balances s') own amount) (\<lambda>bs.
     and_then (balance_add bs rcpt amount) (\<lambda>bs'.
     Ok (s'\<lparr> balances := bs' \<rparr>,
         [\<lparr> receiver = contract, receive_sender = sender info, receive_amount = amount,
            receive_payload = payload \<rparr>]))))))"

section \<open>The entry point\<close>

datatype token_msg =
    Transfer string nat
  | Burn nat
  | Send string nat bytes
  | Mint string nat
  | Increase_allowance string nat "expiration option"
  | Decrease_allowance string nat "expiration option"
  | Transfer_from string string nat
  | Burn_from string nat
  | Send_from string string nat bytes
  | Update_marketing "string option" "string option" "string option"
  | Upload_logo logo
  | Update_minter "string option"

definition no_msgs :: "('e, 's) outcome \<Rightarrow> ('e, 's \<times> receive_msg list) outcome" where
  "no_msgs r = and_then r (\<lambda>s. Ok (s, []))"

fun token_execute ::
  "platform \<Rightarrow> token_state \<Rightarrow> env \<Rightarrow> message_info \<Rightarrow> token_msg
     \<Rightarrow> (token_error, token_state \<times> receive_msg list) outcome"
where
  "token_execute P s e info (Transfer r n) = no_msgs (execute_transfer P s info r n)"
| "token_execute P s e info (Burn n) = no_msgs (execute_burn s info n)"
| "token_execute P s e info (Send c n m) = execute_send P s info c n m"
| "token_execute P s e info (Mint r n) = no_msgs (execute_mint P s info r n)"
| "token_execute P s e info (Increase_allowance sp n ex) =
     no_msgs (execute_increase_allowance P s e info sp n ex)"
| "token_execute P s e info (Decrease_allowance sp n ex) =
     no_msgs (execute_decrease_allowance P s e info sp n ex)"
| "token_execute P s e info (Transfer_from own r n) =
     no_msgs (execute_transfer_from P s e info own r n)"
| "token_execute P s e info (Burn_from own n) = no_msgs (execute_burn_from P s e info own n)"
| "token_execute P s e info (Send_from own c n m) = execute_send_from P s e info own c n m"
| "token_execute P s e info (Update_marketing p d m) =
     no_msgs (execute_update_marketing P s info p d m)"
| "token_execute P s e info (Upload_logo l) = no_msgs (execute_upload_logo s info l)"
| "token_execute P s e info (Update_minter m) = no_msgs (execute_update_minter P s info m)"

section \<open>Queries\<close>

definition query_balance :: "platform \<Rightarrow> token_state \<Rightarrow> string \<Rightarrow> (std_error, nat) outcome" where
  "query_balance P s address =
     and_then (addr_validate P address) (\<lambda>a. Ok (kv_nat (balances s) a))"

definition query_token_info ::
  "token_state \<Rightarrow> (std_error, string \<times> string \<times> nat \<times> nat) outcome"
where
  "query_token_info s =
     and_then (ok_or (Not_found ''TokenInfo'') (token s)) (\<lambda>ti.
     Ok (token_name ti, token_symbol ti, token_decimals ti, total_supply ti))"

definition query_minter :: "token_state \<Rightarrow> (std_error, minter_data option) outcome" where
  "query_minter s = and_then (ok_or (Not_found ''TokenInfo'') (token s)) (\<lambda>ti. Ok (mint ti))"

definition query_marketing_info :: "token_state \<Rightarrow> (std_error, marketing_info) outcome" where
  "query_marketing_info s =
     Ok (case marketing_item s of None \<Rightarrow> marketing_default | Some mi \<Rightarrow> mi)"

definition query_download_logo :: "token_state \<Rightarrow> (std_error, string \<times> bytes) outcome" where
  "query_download_logo s =
     and_then (ok_or (Not_found ''Logo'') (logo_item s)) (\<lambda>l.
     case l of
       Logo_svg data \<Rightarrow> Ok (''image/svg+xml'', data)
     | Logo_png data \<Rightarrow> Ok (''image/png'', data)
     | Logo_url _ \<Rightarrow> Err (Not_found ''logo''))"

definition query_allowance ::
  "platform \<Rightarrow> token_state \<Rightarrow> string \<Rightarrow> string \<Rightarrow> (std_error, allowance) outcome"
where
  "query_allowance P s owner spender =
     and_then (addr_validate P owner) (\<lambda>own.
     and_then (addr_validate P spender) (\<lambda>sp.
     Ok (allowance_or_default (kv_get (allowances s) (own, sp)))))"

text \<open>
  The listings of \<open>enumerable.rs\<close>.  The start of a page is compared as raw bytes and is not
  validated as an address.
\<close>

definition token_page_limit :: "nat option \<Rightarrow> nat" where
  "token_page_limit limit = min (case limit of None \<Rightarrow> 10 | Some l \<Rightarrow> l) 30"

record allowance_entry =
  counterparty :: addr
  entry_allowance :: nat
  entry_expires :: expiration

definition allowance_entry_of :: "addr \<times> allowance \<Rightarrow> allowance_entry" where
  "allowance_entry_of e = \<lparr> counterparty = fst e, entry_allowance = allowed (snd e),
     entry_expires = expires (snd e) \<rparr>"

definition query_owner_allowances ::
  "platform \<Rightarrow> token_state \<Rightarrow> string \<Rightarrow> string option \<Rightarrow> nat option
     \<Rightarrow> (std_error, allowance_entry list) outcome"
where
  "query_owner_allowances P s owner start_after limit =
     and_then (addr_validate P owner) (\<lambda>own.
     Ok (map allowance_entry_of
           (take (token_page_limit limit) (kv_after (kv_prefix (allowances s) own) start_after))))"

definition query_spender_allowances ::
  "platform \<Rightarrow> token_state \<Rightarrow> string \<Rightarrow> string option \<Rightarrow> nat option
     \<Rightarrow> (std_error, allowance_entry list) outcome"
where
  "query_spender_allowances P s spender start_after limit =
     and_then (addr_validate P spender) (\<lambda>sp.
     Ok (map allowance_entry_of
           (take (token_page_limit limit) (kv_after (kv_prefix (allowances_spender s) sp) start_after))))"

definition query_all_accounts ::
  "token_state \<Rightarrow> string option \<Rightarrow> nat option \<Rightarrow> (std_error, addr list) outcome"
where
  "query_all_accounts s start_after limit =
     Ok (map fst (take (token_page_limit limit) (kv_after (balances s) start_after)))"

section \<open>Migration\<close>

text \<open>
  \<open>ensure_older\<close> stands for \<open>ensure_from_older_version\<close> of the utility library (it returns the
  stored version and the new version item) and \<open>semver_less\<close> for the order of \<open>semver\<close>.
\<close>

definition rebuild_spender_allowances ::
  "(addr \<times> addr, allowance) kv \<Rightarrow> (addr \<times> addr, allowance) kv \<Rightarrow> (addr \<times> addr, allowance) kv"
where
  "rebuild_spender_allowances al sp =
     fold (\<lambda>((owner, spender), a) m. kv_set m (spender, owner) a) al sp"

definition token_migrate ::
  "((string \<times> string) option \<Rightarrow> string \<Rightarrow> string
      \<Rightarrow> (std_error, string \<times> (string \<times> string) option) outcome)
     \<Rightarrow> (string \<Rightarrow> string \<Rightarrow> bool) \<Rightarrow> token_state \<Rightarrow> (token_error, token_state) outcome"
where
  "token_migrate ensure_older semver_less s =
     and_then (map_err Tok_std (ensure_older (cw2_version s) contract_name contract_version)) (\<lambda>(original, v).
     let s' = s\<lparr> cw2_version := v \<rparr> in
     if semver_less original ''0.14.0''
     then Ok (s'\<lparr> allowances_spender :=
            rebuild_spender_allowances (allowances s') (allowances_spender s') \<rparr>)
     else Ok s')"

end
