(* ===== verification/Cw20_Proofs.thy ===== *)
theory Cw20_Proofs
  imports Cw20_Base
begin

text \<open>
  Correctness of the token contract: the supply equals the sum of the balances and respects
  the cap in every reachable state, tokens move only with the owner's consent, the two
  allowance maps mirror each other, and the paginated listings are complete.
\<close>

named_theorems token_ok \<open>when an operation of the token contract succeeds, and the state it leaves\<close>

section \<open>What each operation does\<close>

text \<open>The balances after a move of \<open>n\<close> tokens.\<close>

definition moved :: "(addr, nat) kv \<Rightarrow> addr \<Rightarrow> addr \<Rightarrow> nat \<Rightarrow> (addr, nat) kv" where
  "moved bs a b n =
     (let m = kv_set bs a (kv_nat bs a - n) in kv_set m b (kv_nat m b + n))"

lemma balance_sub_Ok [token_ok]:
  "balance_sub bs a n = Ok bs' \<longleftrightarrow> n \<le> kv_nat bs a \<and> bs' = kv_set bs a (kv_nat bs a - n)"
  by (auto simp: balance_sub_def outcome_simps arith_simps)

lemma balance_add_Ok [token_ok]:
  "balance_add bs a n = Ok bs' \<longleftrightarrow> kv_nat bs a + n < u128_lim \<and> bs' = kv_set bs a (kv_nat bs a + n)"
  by (auto simp: balance_add_def outcome_simps arith_simps)

lemma supply_sub_Ok [token_ok]:
  "supply_sub ti n = Ok ti' \<longleftrightarrow>
     (\<exists>t. ti = Some t \<and> n \<le> total_supply t \<and> ti' = Some (t\<lparr> total_supply := total_supply t - n \<rparr>))"
  by (auto simp: supply_sub_def outcome_simps arith_simps)

lemma lower_allowance_Ok [token_ok]:
  "lower_allowance P b n cur = Ok a' \<longleftrightarrow>
     (\<exists>a. cur = Some a \<and> \<not> is_expired P (expires a) b \<and> n \<le> allowed a
        \<and> a' = a\<lparr> allowed := allowed a - n \<rparr>)"
  by (auto simp: lower_allowance_def outcome_simps arith_simps split: option.splits)

lemma move_Ok:
  "(\<exists>m. balance_sub bs a n = Ok m \<and> balance_add m b n = Ok bs') \<longleftrightarrow>
     n \<le> kv_nat bs a \<and> kv_nat (kv_set bs a (kv_nat bs a - n)) b + n < u128_lim \<and> bs' = moved bs a b n"
  by (auto simp: balance_sub_Ok balance_add_Ok moved_def Let_def)

text \<open>One inversion lemma per operation, as elimination rules over the resulting state.\<close>

lemma transfer_cases:
  assumes "execute_transfer P s info r n = Ok s'"
  obtains rcpt where "addr_validate P r = Ok rcpt" "n \<le> kv_nat (balances s) (sender info)"
    "s' = s\<lparr> balances := moved (balances s) (sender info) rcpt n \<rparr>"
  using assms by (auto simp: execute_transfer_def outcome_simps token_ok moved_def Let_def)

lemma send_cases:
  assumes "execute_send P s info c n m = Ok (s', msgs)"
  obtains rcpt where "addr_validate P c = Ok rcpt" "n \<le> kv_nat (balances s) (sender info)"
    "s' = s\<lparr> balances := moved (balances s) (sender info) rcpt n \<rparr>"
    "msgs = [\<lparr> receiver = c, receive_sender = sender info, receive_amount = n, receive_payload = m \<rparr>]"
  using assms by (auto simp: execute_send_def outcome_simps token_ok moved_def Let_def)

lemma burn_cases:
  assumes "execute_burn s info n = Ok s'"
  obtains ti where "token s = Some ti" "n \<le> kv_nat (balances s) (sender info)" "n \<le> total_supply ti"
    "s' = s\<lparr> balances := kv_set (balances s) (sender info) (kv_nat (balances s) (sender info) - n),
            token := Some (ti\<lparr> total_supply := total_supply ti - n \<rparr>) \<rparr>"
  using assms by (auto simp: execute_burn_def outcome_simps token_ok)

lemma mint_cases:
  assumes "execute_mint P s info r n = Ok s'"
  obtains ti m rcpt where "token s = Some ti" "mint ti = Some m" "minter m = sender info"
    "addr_validate P r = Ok rcpt" "total_supply ti + n < u128_lim"
    "\<And>c. mint_cap m = Some c \<Longrightarrow> total_supply ti + n \<le> c"
    "s' = s\<lparr> token := Some (ti\<lparr> total_supply := total_supply ti + n \<rparr>),
            balances := kv_set (balances s) rcpt (kv_nat (balances s) rcpt + n) \<rparr>"
proof -
  from assms obtain ti m where t: "token s = Some ti" "mint ti = Some m" "minter m = sender info"
    by (auto simp: execute_mint_def outcome_simps split: if_splits)
  with assms obtain rcpt where "addr_validate P r = Ok rcpt" "total_supply ti + n < u128_lim"
    "case mint_cap m of None \<Rightarrow> True | Some c \<Rightarrow> total_supply ti + n \<le> c"
    "s' = s\<lparr> token := Some (ti\<lparr> total_supply := total_supply ti + n \<rparr>),
            balances := kv_set (balances s) rcpt (kv_nat (balances s) rcpt + n) \<rparr>"
    by (auto simp: execute_mint_def outcome_simps arith_simps token_ok get_cap_def Let_def
        split: if_splits option.splits)
  with t show ?thesis by (intro that) auto
qed

lemma update_minter_cases:
  assumes "execute_update_minter P s info nm = Ok s'"
  obtains ti m new where "token s = Some ti" "mint ti = Some m" "minter m = sender info"
    "new = None \<or> (\<exists>a. new = Some \<lparr> minter = a, mint_cap = mint_cap m \<rparr>)"
    "s' = s\<lparr> token := Some (ti\<lparr> mint := new \<rparr>) \<rparr>"
proof -
  from assms obtain ti m a where "token s = Some ti" "mint ti = Some m" "minter m = sender info"
    "s' = s\<lparr> token := Some (ti\<lparr> mint := map_option (\<lambda>a. \<lparr> minter = a, mint_cap = mint_cap m \<rparr>) a \<rparr>) \<rparr>"
    by (auto simp: execute_update_minter_def outcome_simps simp del: map_option_eq_Some split: if_splits)
  then show ?thesis by (cases a) (auto intro: that)
qed

lemma update_marketing_cases:
  assumes "execute_update_marketing P s info p d m = Ok s'"
  obtains mi where "s' = s\<lparr> marketing_item := mi \<rparr>"
  using assms
  by (auto simp: execute_update_marketing_def outcome_simps Let_def split: if_splits)

lemma upload_logo_cases:
  assumes "execute_upload_logo s info l = Ok s'"
  obtains mi where "verify_logo l = Ok ()" "s' = s\<lparr> logo_item := Some l, marketing_item := mi \<rparr>"
  using assms by (auto simp: execute_upload_logo_def outcome_simps split: if_splits)

lemma increase_cases:
  assumes "execute_increase_allowance P s e info spender n ex = Ok s'"
  obtains sp a b where "addr_validate P spender = Ok sp" "sp \<noteq> sender info"
    "raise_allowance P e n ex (kv_get (allowances s) (sender info, sp)) = Ok a"
    "raise_allowance P e n ex (kv_get (allowances_spender s) (sp, sender info)) = Ok b"
    "s' = s\<lparr> allowances := kv_set (allowances s) (sender info, sp) a,
            allowances_spender := kv_set (allowances_spender s) (sp, sender info) b \<rparr>"
  using assms by (auto simp: execute_increase_allowance_def outcome_simps split: if_splits)

lemma decrease_cases:
  assumes "execute_decrease_allowance P s e info spender n ex = Ok s'"
  obtains
    (kept) sp a a' where "addr_validate P spender = Ok sp" "sp \<noteq> sender info"
      "kv_get (allowances s) (sender info, sp) = Some a" "n < allowed a" "allowed a' = allowed a - n"
      "s' = s\<lparr> allowances := kv_set (allowances s) (sender info, sp) a',
              allowances_spender := kv_set (allowances_spender s) (sp, sender info) a' \<rparr>"
  | (gone) sp a where "addr_validate P spender = Ok sp" "sp \<noteq> sender info"
      "kv_get (allowances s) (sender info, sp) = Some a" "allowed a \<le> n"
      "s' = s\<lparr> allowances := kv_del (allowances s) (sender info, sp),
              allowances_spender := kv_del (allowances_spender s) (sp, sender info) \<rparr>"
proof -
  from assms obtain sp a where sp: "addr_validate P spender = Ok sp" "sp \<noteq> sender info"
    and a: "kv_get (allowances s) (sender info, sp) = Some a"
    by (auto simp: execute_decrease_allowance_def outcome_simps split: if_splits)
  show ?thesis
  proof (cases "n < allowed a")
    case True
    with assms sp a have "\<exists>a'. allowed a' = allowed a - n \<and>
      s' = s\<lparr> allowances := kv_set (allowances s) (sender info, sp) a',
              allowances_spender := kv_set (allowances_spender s) (sp, sender info) a' \<rparr>"
      by (cases ex) (auto simp: execute_decrease_allowance_def outcome_simps arith_simps Let_def
          split: if_splits intro: exI [of _ "a\<lparr> allowed := allowed a - n, expires := the ex \<rparr>"]
          exI [of _ "a\<lparr> allowed := allowed a - n \<rparr>"])
    with sp a True show ?thesis by (auto intro: kept)
  next
    case False
    with assms sp a have "s' = s\<lparr> allowances := kv_del (allowances s) (sender info, sp),
              allowances_spender := kv_del (allowances_spender s) (sp, sender info) \<rparr>"
      by (simp add: execute_decrease_allowance_def)
    moreover from False have "allowed a \<le> n" by (simp only: not_less)
    ultimately show ?thesis using gone [OF sp a] by blast
  qed
qed

lemma deduct_cases:
  assumes "deduct_allowance P s own sp b n = Ok (s', r)"
  obtains a a' where "kv_get (allowances s) (own, sp) = Some a" "\<not> is_expired P (expires a) b" "n \<le> allowed a"
    "kv_get (allowances_spender s) (sp, own) = Some a'"
    "s' = s\<lparr> allowances := kv_set (allowances s) (own, sp) (a\<lparr> allowed := allowed a - n \<rparr>),
            allowances_spender := kv_set (allowances_spender s) (sp, own) (a'\<lparr> allowed := allowed a' - n \<rparr>) \<rparr>"
  using assms by (auto simp: deduct_allowance_def outcome_simps token_ok)

lemma transfer_from_cases:
  assumes "execute_transfer_from P s e info own r n = Ok s'"
  obtains o' rcpt t al where "addr_validate P own = Ok o'" "addr_validate P r = Ok rcpt"
    "deduct_allowance P s o' (sender info) (block e) n = Ok (t, al)" "n \<le> kv_nat (balances t) o'"
    "s' = t\<lparr> balances := moved (balances t) o' rcpt n \<rparr>"
  using assms
  by (auto simp: execute_transfer_from_def outcome_simps token_ok moved_def Let_def split: prod.splits)

lemma send_from_cases:
  assumes "execute_send_from P s e info own r n m = Ok (s', msgs)"
  obtains o' rcpt t al where "addr_validate P own = Ok o'" "addr_validate P r = Ok rcpt"
    "deduct_allowance P s o' (sender info) (block e) n = Ok (t, al)" "n \<le> kv_nat (balances t) o'"
    "s' = t\<lparr> balances := moved (balances t) o' rcpt n \<rparr>"
  using assms
  by (auto simp: execute_send_from_def outcome_simps token_ok moved_def Let_def split: prod.splits)

lemma burn_from_cases:
  assumes "execute_burn_from P s e info own n = Ok s'"
  obtains o' t al ti where "addr_validate P own = Ok o'"
    "deduct_allowance P s o' (sender info) (block e) n = Ok (t, al)" "n \<le> kv_nat (balances t) o'"
    "token t = Some ti" "n \<le> total_supply ti"
    "s' = t\<lparr> balances := kv_set (balances t) o' (kv_nat (balances t) o' - n),
            token := Some (ti\<lparr> total_supply := total_supply ti - n \<rparr>) \<rparr>"
  using assms
  by (auto simp: execute_burn_from_def outcome_simps token_ok split: prod.splits)

lemma no_msgs_Ok [token_ok]: "no_msgs r = Ok (s, m) \<longleftrightarrow> r = Ok s \<and> m = []"
  by (auto simp: no_msgs_def outcome_simps)

section \<open>Supply\<close>

definition token_inv :: "token_state \<Rightarrow> bool" where
  "token_inv s \<longleftrightarrow> kv_ok (balances s) \<and>
     (\<exists>ti. token s = Some ti \<and> total_supply ti = kv_total (balances s) \<and> total_supply ti < u128_lim
        \<and> (\<forall>c. get_cap ti = Some c \<longrightarrow> total_supply ti \<le> c))"

lemma moved_total: "kv_ok bs \<Longrightarrow> n \<le> kv_nat bs a \<Longrightarrow> kv_total (moved bs a b n) = kv_total bs"
  unfolding moved_def Let_def by (rule kvl.move_total)

lemma moved_ok [simp]: "kv_ok bs \<Longrightarrow> kv_ok (moved bs a b n)"
  by (simp add: moved_def Let_def)

lemma moved_nat:
  "n \<le> kv_nat bs a \<Longrightarrow> kv_nat (moved bs a b n) k =
     (if a = b then kv_nat bs k else if k = a then kv_nat bs a - n
      else if k = b then kv_nat bs b + n else kv_nat bs k)"
  unfolding moved_def Let_def by (rule kvl.move_amount_at)

lemma token_inv_frame:
  "balances s' = balances s \<Longrightarrow> token s' = token s \<Longrightarrow> token_inv s' = token_inv s"
  by (simp add: token_inv_def)

lemma move_inv:
  assumes "token_inv t" and "n \<le> kv_nat (balances t) a"
  shows "token_inv (t\<lparr> balances := moved (balances t) a b n \<rparr>)"
  using assms by (simp add: token_inv_def moved_total)

lemma burn_inv:
  assumes "token_inv t" and "token t = Some ti" and "n \<le> kv_nat (balances t) a"
  shows "token_inv (t\<lparr> balances := kv_set (balances t) a (kv_nat (balances t) a - n),
     token := Some (ti\<lparr> total_supply := total_supply ti - n \<rparr>) \<rparr>)"
proof -
  have ok: "kv_ok (balances t)" using assms(1) by (simp add: token_inv_def)
  from kvl.debit_total [OF ok assms(3)] assms(1,2) show ?thesis
    by (fastforce simp: token_inv_def get_cap_def)
qed

lemma mint_inv:
  assumes "token_inv t" and "token t = Some ti" and "mint ti = Some m" and "total_supply ti + n < u128_lim"
    and "\<And>c. mint_cap m = Some c \<Longrightarrow> total_supply ti + n \<le> c"
  shows "token_inv (t\<lparr> token := Some (ti\<lparr> total_supply := total_supply ti + n \<rparr>),
     balances := kv_set (balances t) a (kv_nat (balances t) a + n) \<rparr>)"
proof -
  have ok: "kv_ok (balances t)" using assms(1) by (simp add: token_inv_def)
  from kvl.credit_total [OF ok] assms show ?thesis
    by (simp add: token_inv_def get_cap_def)
qed

lemma deduct_frame:
  assumes "deduct_allowance P s own sp b n = Ok (t, r)"
  shows "balances t = balances s" "token t = token s" "logo_item t = logo_item s"
  using assms by (auto elim!: deduct_cases)

lemma deduct_inv: "deduct_allowance P s own sp b n = Ok (t, r) \<Longrightarrow> token_inv s \<Longrightarrow> token_inv t"
  using token_inv_frame [of t s] deduct_frame by blast

lemma token_execute_inv:
  assumes run: "token_execute P s e info msg = Ok (s', msgs)" and inv: "token_inv s"
  shows "token_inv s'"
proof (cases msg)
  case (Transfer r n)
  with run inv show ?thesis by (auto simp: token_ok elim!: transfer_cases intro: move_inv)
next
  case (Burn n)
  with run inv show ?thesis by (auto simp: token_ok elim!: burn_cases intro: burn_inv)
next
  case (Send c n m)
  with run inv show ?thesis by (auto elim!: send_cases intro: move_inv)
next
  case (Mint r n)
  with run have "execute_mint P s info r n = Ok s'" by (simp add: token_ok)
  then show ?thesis by (rule mint_cases) (use inv mint_inv in blast)
next
  case (Increase_allowance sp n ex)
  with run inv show ?thesis by (auto simp: token_ok token_inv_def elim!: increase_cases)
next
  case (Decrease_allowance sp n ex)
  with run inv show ?thesis by (auto simp: token_ok token_inv_def elim!: decrease_cases)
next
  case (Transfer_from own r n)
  with run inv show ?thesis
    by (auto simp: token_ok elim!: transfer_from_cases intro: move_inv deduct_inv)
next
  case (Burn_from own n)
  with run inv show ?thesis
    by (auto simp: token_ok elim!: burn_from_cases intro: burn_inv deduct_inv)
next
  case (Send_from own c n m)
  with run inv show ?thesis by (auto elim!: send_from_cases intro: move_inv deduct_inv)
next
  case (Update_marketing p d m)
  with run inv show ?thesis by (auto simp: token_ok token_inv_def elim!: update_marketing_cases)
next
  case (Upload_logo l)
  with run inv show ?thesis by (auto simp: token_ok token_inv_def elim!: upload_logo_cases)
next
  case (Update_minter nm)
  with run inv show ?thesis
    by (auto simp: token_ok token_inv_def get_cap_def elim!: update_minter_cases)
qed

lemma save_accounts_total:
  assumes "save_accounts P accs bs n = Ok (n', bs')" and "platform_exact P"
    and "kv_ok bs" and "n = kv_total bs" and "n < u128_lim"
    and "distinct (map coin_address accs)" and "\<forall>r \<in> set accs. kv_get bs (coin_address r) = None"
  shows "kv_ok bs' \<and> n' = kv_total bs' \<and> n' < u128_lim"
  using assms(1,3-)
proof (induction accs arbitrary: bs n)
  case (Cons r accs)
  let ?bs = "kv_set bs (coin_address r) (coin_amount r)"
  from Cons.prems(1) assms(2) have lim: "n + coin_amount r < u128_lim"
    and rest: "save_accounts P accs ?bs (n + coin_amount r) = Ok (n', bs')"
    by (auto simp: outcome_simps arith_simps dest!: platform_exactD)
  have "kv_nat bs (coin_address r) = 0" using Cons.prems(6) by (simp add: kv_nat_def)
  with kv_total_set [OF Cons.prems(2), of "coin_address r" "coin_amount r"] Cons.prems(3)
  have total: "n + coin_amount r = kv_total ?bs" by simp
  show ?case
    by (rule Cons.IH [OF rest _ total lim]) (use Cons.prems in \<open>auto simp: image_iff\<close>)
qed simp

lemma sorted_distinct_adj: "sorted xs \<Longrightarrow> distinct_adj xs \<Longrightarrow> distinct (xs :: 'a::linorder list)"
proof (induction xs rule: induct_list012)
  case (3 x y xs)
  then have "x < y" by (auto simp: less_le)
  with 3 show ?case by force
qed simp_all

lemma validate_accounts_distinct:
  assumes "validate_accounts accs = Ok u"
  shows "distinct (map coin_address accs)"
proof -
  have "length (remdups_adj (sort (map coin_address accs))) = length accs"
    using assms by (simp add: validate_accounts_def Let_def split: if_splits)
  then have "distinct_adj (sort (map coin_address accs))"
    by (simp add: distinct_adj_conv_length_remdups_adj)
  then have "distinct (sort (map coin_address accs))"
    by (intro sorted_distinct_adj) simp_all
  then show ?thesis by simp
qed

lemma instantiate_marketing_frame:
  assumes "instantiate_marketing P t m = Ok s"
  shows "balances s = balances t" "token s = token t" "allowances s = allowances t"
    "allowances_spender s = allowances_spender t"
    "logo_item s = logo_item t \<or> (\<exists>l. logo_item s = Some l \<and> verify_logo l = Ok ())"
  using assms
  by (auto simp: instantiate_marketing_def outcome_simps split: option.splits prod.splits)

lemma token_instantiate_cases:
  assumes "token_instantiate P msg = Ok s"
  obtains n bs m where "create_accounts P (initial_balances msg) [] = Ok (n, bs)"
    "\<And>c. msg_get_cap msg = Some c \<Longrightarrow> n \<le> c" "get_cap (the (token s)) = msg_get_cap msg"
    "balances s = bs" "token s = Some \<lparr> token_name = msg_name msg, token_symbol = msg_symbol msg,
        token_decimals = msg_decimals msg, total_supply = n, mint = m \<rparr>"
    "allowances s = []" "allowances_spender s = []"
    "logo_item s = None \<or> (\<exists>l. logo_item s = Some l \<and> verify_logo l = Ok ())"
proof -
  from assms obtain n bs where c: "create_accounts P (initial_balances msg) [] = Ok (n, bs)"
    by (auto simp: token_instantiate_def outcome_simps split: prod.splits)
  have cap: "n \<le> k" if "msg_get_cap msg = Some k" for k
    using assms c that
    by (auto simp: token_instantiate_def outcome_simps split: prod.splits option.splits if_splits)
  from assms c obtain m where m: "instantiate_minter P (msg_mint msg) = Ok m"
    and rest: "(case msg_marketing msg of Some k \<Rightarrow> instantiate_marketing P (token_empty\<lparr>
         cw2_version := Some (contract_name, contract_version), balances := bs,
         token := Some \<lparr> token_name = msg_name msg, token_symbol = msg_symbol msg,
           token_decimals = msg_decimals msg, total_supply = n, mint = m \<rparr> \<rparr>) k
       | None \<Rightarrow> Ok (token_empty\<lparr>
         cw2_version := Some (contract_name, contract_version), balances := bs,
         token := Some \<lparr> token_name = msg_name msg, token_symbol = msg_symbol msg,
           token_decimals = msg_decimals msg, total_supply = n, mint = m \<rparr> \<rparr>)) = Ok s"
    by (auto simp: token_instantiate_def outcome_simps Let_def split: prod.splits)
  have m': "get_cap \<lparr> token_name = msg_name msg, token_symbol = msg_symbol msg,
        token_decimals = msg_decimals msg, total_supply = n, mint = m \<rparr> = msg_get_cap msg"
    using m by (auto simp: instantiate_minter_def get_cap_def msg_get_cap_def outcome_simps
        split: option.splits)
  show ?thesis
  proof (cases "msg_marketing msg")
    case None
    with rest m' show ?thesis by (intro that [OF c cap]) (auto simp: token_empty_def)
  next
    case (Some k)
    with rest have mk: "instantiate_marketing P (token_empty\<lparr>
         cw2_version := Some (contract_name, contract_version), balances := bs,
         token := Some \<lparr> token_name = msg_name msg, token_symbol = msg_symbol msg,
           token_decimals = msg_decimals msg, total_supply = n, mint = m \<rparr> \<rparr>) k = Ok s"
      by simp
    from instantiate_marketing_frame [OF mk] m' show ?thesis
      by (intro that [OF c cap]) (auto simp: token_empty_def)
  qed
qed

lemma token_instantiate_inv:
  assumes "token_instantiate P msg = Ok s" and "platform_exact P"
  shows "token_inv s"
  using assms(1)
proof (rule token_instantiate_cases)
  fix n bs m
  assume c: "create_accounts P (initial_balances msg) [] = Ok (n, bs)"
    and cap: "\<And>c. msg_get_cap msg = Some c \<Longrightarrow> n \<le> c" "get_cap (the (token s)) = msg_get_cap msg"
    and s: "balances s = bs" "token s = Some \<lparr> token_name = msg_name msg, token_symbol = msg_symbol msg,
        token_decimals = msg_decimals msg, total_supply = n, mint = m \<rparr>"
  from c obtain u where "validate_accounts (initial_balances msg) = Ok u"
    and run: "save_accounts P (initial_balances msg) [] 0 = Ok (n, bs)"
    by (auto simp: create_accounts_def outcome_simps)
  then have "kv_ok bs \<and> n = kv_total bs \<and> n < u128_lim"
    by (intro save_accounts_total [OF run assms(2)] validate_accounts_distinct)
      (simp_all add: kv_total_def)
  with s cap show ?thesis by (auto simp: token_inv_def)
qed

text \<open>The states a deployed token can reach.\<close>

inductive token_reachable :: "platform \<Rightarrow> token_state \<Rightarrow> bool" for P where
  token_start: "token_instantiate P msg = Ok s \<Longrightarrow> token_reachable P s"
| token_step: "token_reachable P s \<Longrightarrow> token_execute P s e info msg = Ok (s', msgs) \<Longrightarrow> token_reachable P s'"

lemma reachable_token_inv: "token_reachable P s \<Longrightarrow> platform_exact P \<Longrightarrow> token_inv s"
  by (induction rule: token_reachable.induct)
    (blast intro: token_instantiate_inv token_execute_inv)+

section \<open>Allowances mirror each other\<close>

definition mirrored :: "token_state \<Rightarrow> bool" where
  "mirrored s \<longleftrightarrow> kv_ok (allowances s) \<and> kv_ok (allowances_spender s)
     \<and> (\<forall>own sp. kv_get (allowances_spender s) (sp, own) = kv_get (allowances s) (own, sp))"

lemma mirrored_frame:
  "allowances s' = allowances s \<Longrightarrow> allowances_spender s' = allowances_spender s \<Longrightarrow> mirrored s' = mirrored s"
  by (simp add: mirrored_def)

lemma deduct_mirrored: "deduct_allowance P s own sp b n = Ok (t, r) \<Longrightarrow> mirrored s \<Longrightarrow> mirrored t"
  by (auto elim!: deduct_cases simp: mirrored_def)

lemma increase_mirrored:
  "execute_increase_allowance P s e info sp n ex = Ok t \<Longrightarrow> mirrored s \<Longrightarrow> mirrored t"
  by (auto elim!: increase_cases simp: mirrored_def)

lemma decrease_mirrored:
  "execute_decrease_allowance P s e info sp n ex = Ok t \<Longrightarrow> mirrored s \<Longrightarrow> mirrored t"
  by (auto elim!: decrease_cases simp: mirrored_def)

lemma token_execute_mirrored:
  assumes run: "token_execute P s e info msg = Ok (s', msgs)" and inv: "mirrored s"
  shows "mirrored s'"
proof (cases msg)
  case (Transfer r n)
  with run inv show ?thesis by (auto simp: token_ok mirrored_def elim!: transfer_cases)
next
  case (Burn n)
  with run inv show ?thesis by (auto simp: token_ok mirrored_def elim!: burn_cases)
next
  case (Send c n m)
  with run inv show ?thesis by (auto simp: mirrored_def elim!: send_cases)
next
  case (Mint r n)
  with run inv show ?thesis by (auto simp: token_ok mirrored_def elim!: mint_cases)
next
  case (Increase_allowance sp n ex)
  with run inv show ?thesis by (auto simp: token_ok intro: increase_mirrored)
next
  case (Decrease_allowance sp n ex)
  with run inv show ?thesis by (auto simp: token_ok intro: decrease_mirrored)
next
  case (Transfer_from own r n)
  with run obtain t al bs o' where "deduct_allowance P s o' (sender info) (block e) n = Ok (t, al)"
    "s' = t\<lparr> balances := bs \<rparr>" by (auto simp: token_ok elim!: transfer_from_cases)
  with inv show ?thesis using mirrored_frame [of s' t] by (simp add: deduct_mirrored)
next
  case (Burn_from own n)
  with run obtain t al bs ti o' where "deduct_allowance P s o' (sender info) (block e) n = Ok (t, al)"
    "s' = t\<lparr> balances := bs, token := ti \<rparr>" by (auto simp: token_ok elim!: burn_from_cases)
  with inv show ?thesis using mirrored_frame [of s' t] by (simp add: deduct_mirrored)
next
  case (Send_from own c n m)
  with run obtain t al bs o' where "deduct_allowance P s o' (sender info) (block e) n = Ok (t, al)"
    "s' = t\<lparr> balances := bs \<rparr>" by (auto elim!: send_from_cases)
  with inv show ?thesis using mirrored_frame [of s' t] by (simp add: deduct_mirrored)
next
  case (Update_marketing p d m)
  with run inv show ?thesis by (auto simp: token_ok mirrored_def elim!: update_marketing_cases)
next
  case (Upload_logo l)
  with run inv show ?thesis by (auto simp: token_ok mirrored_def elim!: upload_logo_cases)
next
  case (Update_minter nm)
  with run inv show ?thesis by (auto simp: token_ok mirrored_def elim!: update_minter_cases)
qed

lemma reachable_mirrored: "token_reachable P s \<Longrightarrow> mirrored s"
proof (induction rule: token_reachable.induct)
  case (token_start msg s)
  then show ?case by (rule token_instantiate_cases) (simp add: mirrored_def)
next
  case (token_step s e info msg s' msgs)
  then show ?case using token_execute_mirrored by blast
qed

section \<open>Consent\<close>

text \<open>What a spender may take from an owner: an unexpired allowance, reduced by the amount.\<close>

definition spends :: "platform \<Rightarrow> block_info \<Rightarrow> token_state \<Rightarrow> token_state \<Rightarrow> addr \<Rightarrow> addr \<Rightarrow> nat \<Rightarrow> bool" where
  "spends P b s s' own sp n \<longleftrightarrow> (\<exists>a. kv_get (allowances s) (own, sp) = Some a
     \<and> \<not> is_expired P (expires a) b \<and> n \<le> allowed a
     \<and> kv_get (allowances s') (own, sp) = Some (a\<lparr> allowed := allowed a - n \<rparr>))"

lemma deduct_spends:
  assumes "deduct_allowance P s own sp b n = Ok (t, r)" and "allowances s' = allowances t"
  shows "spends P b s s' own sp n"
  using assms by (auto simp: spends_def elim!: deduct_cases)

lemma moved_fall:
  assumes "kv_nat (moved bs a b n) k < kv_nat bs k" and "n \<le> kv_nat bs a"
  shows "k = a \<and> kv_nat bs k - kv_nat (moved bs a b n) k = n"
  using assms by (auto simp: moved_nat split: if_splits)

lemma set_fall:
  assumes "kv_nat (kv_set bs a (kv_nat bs a - n)) k < kv_nat bs k" and "n \<le> kv_nat bs a"
  shows "k = a \<and> kv_nat bs k - kv_nat (kv_set bs a (kv_nat bs a - n)) k = n"
  using assms by (auto split: if_splits)

lemma token_fall:
  assumes run: "token_execute P s e info msg = Ok (s', msgs)"
    and fall: "kv_nat (balances s') k < kv_nat (balances s) k"
  shows "k = sender info \<or> spends P (block e) s s' k (sender info) (kv_nat (balances s) k - kv_nat (balances s') k)"
proof (cases msg)
  case (Transfer r n)
  with run fall show ?thesis by (auto simp: token_ok elim!: transfer_cases dest: moved_fall)
next
  case (Burn n)
  with run fall show ?thesis by (auto simp: token_ok elim!: burn_cases split: if_splits)
next
  case (Send c n m)
  with run fall show ?thesis by (auto elim!: send_cases dest: moved_fall)
next
  case (Mint r n)
  with run fall show ?thesis by (auto simp: token_ok elim!: mint_cases split: if_splits)
next
  case (Increase_allowance sp n ex)
  with run fall show ?thesis by (auto simp: token_ok elim!: increase_cases)
next
  case (Decrease_allowance sp n ex)
  with run fall show ?thesis by (auto simp: token_ok elim!: decrease_cases)
next
  case (Transfer_from own r n)
  with run have "execute_transfer_from P s e info own r n = Ok s'" by (simp add: token_ok)
  then show ?thesis
  proof (rule transfer_from_cases)
    fix o' rcpt t al
    assume d: "deduct_allowance P s o' (sender info) (block e) n = Ok (t, al)" "n \<le> kv_nat (balances t) o'"
      and s': "s' = t\<lparr> balances := moved (balances t) o' rcpt n \<rparr>"
    have k: "k = o' \<and> kv_nat (balances s) k - kv_nat (balances s') k = n"
      using deduct_frame(1) [OF d(1)] s' d(2) fall by (auto dest: moved_fall)
    from k deduct_spends [OF d(1), of s'] s' show ?thesis by auto
  qed
next
  case (Burn_from own n)
  with run have "execute_burn_from P s e info own n = Ok s'" by (simp add: token_ok)
  then show ?thesis
  proof (rule burn_from_cases)
    fix o' t al ti
    assume d: "deduct_allowance P s o' (sender info) (block e) n = Ok (t, al)" "n \<le> kv_nat (balances t) o'"
      and s': "s' = t\<lparr> balances := kv_set (balances t) o' (kv_nat (balances t) o' - n),
            token := Some (ti\<lparr> total_supply := total_supply ti - n \<rparr>) \<rparr>"
    have k: "k = o' \<and> kv_nat (balances s) k - kv_nat (balances s') k = n"
      using deduct_frame(1) [OF d(1)] s' d(2) fall by (auto split: if_splits)
    from k deduct_spends [OF d(1), of s'] s' show ?thesis by auto
  qed
next
  case (Send_from own c n m)
  with run have "execute_send_from P s e info own c n m = Ok (s', msgs)" by simp
  then show ?thesis
  proof (rule send_from_cases)
    fix o' rcpt t al
    assume d: "deduct_allowance P s o' (sender info) (block e) n = Ok (t, al)" "n \<le> kv_nat (balances t) o'"
      and s': "s' = t\<lparr> balances := moved (balances t) o' rcpt n \<rparr>"
    have k: "k = o' \<and> kv_nat (balances s) k - kv_nat (balances s') k = n"
      using deduct_frame(1) [OF d(1)] s' d(2) fall by (auto dest: moved_fall)
    from k deduct_spends [OF d(1), of s'] s' show ?thesis by auto
  qed
next
  case (Update_marketing p d m)
  with run fall show ?thesis by (auto simp: token_ok elim!: update_marketing_cases)
next
  case (Upload_logo l)
  with run fall show ?thesis by (auto simp: token_ok elim!: upload_logo_cases)
next
  case (Update_minter nm)
  with run fall show ?thesis by (auto simp: token_ok elim!: update_minter_cases)
qed

section \<open>Listings\<close>

lemma allowance_entry_key [simp]: "counterparty (allowance_entry_of e) = fst e"
  by (simp add: allowance_entry_of_def)

interpretation account_pages: paginated
  "\<lambda>(s, limit). kv_ok (balances s) \<and> 0 < token_page_limit limit"
  "\<lambda>(s, limit) start. query_all_accounts s start limit" "\<lambda>(s, limit). map fst (balances s)"
  "\<lambda>a. a" "\<lambda>(s, limit). token_page_limit limit"
  by unfold_locales (auto simp: query_all_accounts_def kv_after_last take_map drop_map, simp add: kv_after_def)

interpretation owner_pages: paginated
  "\<lambda>(P, s, own, limit). kv_ok (allowances s) \<and> addr_validate P own = Ok own \<and> 0 < token_page_limit limit"
  "\<lambda>(P, s, own, limit) start. query_owner_allowances P s own start limit"
  "\<lambda>(P, s, own, limit). map allowance_entry_of (kv_prefix (allowances s) own)"
  counterparty "\<lambda>(P, s, own, limit). token_page_limit limit"
  by unfold_locales
    (auto simp: query_owner_allowances_def kv_after_last kv_prefix_ok take_map drop_map,
      simp add: kv_after_def)

interpretation spender_pages: paginated
  "\<lambda>(P, s, sp, limit). kv_ok (allowances_spender s) \<and> addr_validate P sp = Ok sp \<and> 0 < token_page_limit limit"
  "\<lambda>(P, s, sp, limit) start. query_spender_allowances P s sp start limit"
  "\<lambda>(P, s, sp, limit). map allowance_entry_of (kv_prefix (allowances_spender s) sp)"
  counterparty "\<lambda>(P, s, sp, limit). token_page_limit limit"
  by unfold_locales
    (auto simp: query_spender_allowances_def kv_after_last kv_prefix_ok take_map drop_map,
      simp add: kv_after_def)

lemma page_limit_pos: "limit \<noteq> Some 0 \<Longrightarrow> 0 < token_page_limit limit"
  by (cases limit) (auto simp: token_page_limit_def)

lemma allowance_entry_in:
  "kv_ok m \<Longrightarrow> x \<in> set (map allowance_entry_of (kv_prefix m a)) \<longleftrightarrow>
     (\<exists>v. kv_get m (a, counterparty x) = Some v \<and> entry_allowance x = allowed v \<and> entry_expires x = expires v)"
proof -
  assume ok: "kv_ok m"
  have "x \<in> set (map allowance_entry_of (kv_prefix m a)) \<longleftrightarrow>
    (\<exists>b v. (b, v) \<in> set (kv_prefix m a) \<and> x = allowance_entry_of (b, v))" by auto
  then show ?thesis
    by (cases x) (auto simp: kv_in_set_get [OF kv_prefix_ok [OF ok]] kv_prefix_get allowance_entry_of_def)
qed

section \<open>Migration\<close>

lemma rebuild_get:
  assumes "kv_ok al"
  shows "kv_get (rebuild_spender_allowances al sp) (y, x) =
    (case kv_get al (x, y) of Some a \<Rightarrow> Some a | None \<Rightarrow> kv_get sp (y, x))"
  using assms
proof (induction al arbitrary: sp)
  case (Cons e al)
  obtain o' s' a where e: "e = ((o', s'), a)" by (metis surj_pair)
  have "kv_get al (o', s') = None"
    using Cons.prems e kv_get_None_iff [of al "(o', s')"] by (auto simp: kv_ok_Cons)
  with Cons.IH [of "kv_set sp (s', o') a"] Cons.prems e show ?case
    by (auto simp: rebuild_spender_allowances_def kv_ok_Cons split: option.splits)
qed (simp add: rebuild_spender_allowances_def)

lemma rebuild_ok: "kv_ok sp \<Longrightarrow> kv_ok (rebuild_spender_allowances al sp)"
  by (induction al arbitrary: sp) (auto simp: rebuild_spender_allowances_def)

section \<open>Logos\<close>

lemma split_inclusive_prefix: "split_inclusive_first d = Some p \<Longrightarrow> take (length p) d = p"
  by (induction d arbitrary: p rule: split_inclusive_first.induct) (auto split: if_splits option.splits)

lemma starts_with_literals:
  "starts_with d png_header \<longleftrightarrow> take 8 d = png_header"
  "starts_with d ''<?xml '' \<longleftrightarrow> take 6 d = ''<?xml ''"
  by (simp_all add: starts_with_def png_header_def numeral_eq_Suc)

lemma verified_svg:
  assumes "verify_logo (Logo_svg d) = Ok ()"
  shows "length d \<le> 5120 \<and> take 6 d = ''<?xml ''"
proof -
  from assms obtain p where p: "split_inclusive_first d = Some p" "take 6 p = ''<?xml ''" "length d \<le> 5120"
    by (auto simp: verify_xml_logo_def verify_xml_preamble_def outcome_simps logo_size_cap_def
        starts_with_literals split: if_splits)
  have "length (take 6 p) = 6" by (simp add: p(2))
  then have "6 \<le> length p" by simp
  then have "take 6 d = take 6 (take (length p) d)" by (simp add: min_def)
  with p split_inclusive_prefix [OF p(1)] show ?thesis by simp
qed

lemma verified_png:
  "verify_logo (Logo_png d) = Ok () \<Longrightarrow> length d \<le> 5120 \<and> take 8 d = png_header"
  by (auto simp: verify_png_logo_def logo_size_cap_def starts_with_literals split: if_splits)

lemma token_execute_logo:
  assumes run: "token_execute P s e info msg = Ok (s', msgs)"
  shows "logo_item s' = logo_item s \<or> (\<exists>l. logo_item s' = Some l \<and> verify_logo l = Ok ())"
  using run
  by (cases msg)
    (auto simp: token_ok deduct_frame
      elim!: transfer_cases send_cases burn_cases mint_cases update_minter_cases
        update_marketing_cases upload_logo_cases increase_cases decrease_cases transfer_from_cases
        send_from_cases burn_from_cases)

lemma reachable_logo_verified: "token_reachable P s \<Longrightarrow> logo_item s = Some l \<Longrightarrow> verify_logo l = Ok ()"
proof (induction arbitrary: l rule: token_reachable.induct)
  case (token_start msg s)
  from token_start(1) show ?case by (rule token_instantiate_cases) (use token_start(2) in auto)
next
  case (token_step s e info msg s' msgs)
  from token_execute_logo [OF token_step(2)] token_step(3,4) show ?case by auto
qed

section \<open>Properties\<close>

definition demo_token_msg :: token_instantiate_msg where
  "demo_token_msg = \<lparr> msg_name = ''Juno'', msg_symbol = ''JNO'', msg_decimals = 6,
     initial_balances = [\<lparr> coin_address = ''bob'', coin_amount = 50 \<rparr>, \<lparr> coin_address = ''ann'', coin_amount = 100 \<rparr>],
     msg_mint = Some \<lparr> req_minter = ''boss'', req_cap = Some 200 \<rparr>,
     msg_marketing = None \<rparr>"

definition demo_token_info :: token_info where
  "demo_token_info = \<lparr> token_name = ''Juno'', token_symbol = ''JNO'', token_decimals = 6,
     total_supply = 150, mint = Some \<lparr> minter = ''boss'', mint_cap = Some 200 \<rparr> \<rparr>"

definition demo_token0 :: token_state where
  "demo_token0 = \<lparr> cw2_version = Some (contract_name, contract_version), token = Some demo_token_info,
     marketing_item = None, logo_item = None, balances = [(''ann'', 100), (''bob'', 50)],
     allowances = [], allowances_spender = [] \<rparr>"

definition demo_token :: token_state where
  "demo_token = demo_token0\<lparr> allowances := [((''ann'', ''cat''), \<lparr> allowed = 30, expires = At_height 20 \<rparr>)],
     allowances_spender := [((''cat'', ''ann''), \<lparr> allowed = 30, expires = At_height 20 \<rparr>)] \<rparr>"

definition demo_token_env :: env where
  "demo_token_env = \<lparr> block = \<lparr> block_height = 12, block_time = 7000000000 \<rparr>, contract_address = ''token'' \<rparr>"

lemma demo_token_start: "token_instantiate demo_platform demo_token_msg = Ok demo_token0"
  by (simp add: token_instantiate_def demo_token_msg_def token_msg_validate_def has_valid_name_def
      has_valid_symbol_def symbol_byte_def create_accounts_def validate_accounts_def insort_key.simps
      demo_platform_def msg_get_cap_def instantiate_minter_def token_empty_def demo_token0_def
      demo_token_info_def checked_int_defs Let_def)

lemma demo_token_allow:
  "token_execute demo_platform demo_token0 demo_token_env \<lparr> sender = ''ann'' \<rparr>
     (Increase_allowance ''cat'' 30 (Some (At_height 20))) = Ok (demo_token, [])"
  by (simp add: execute_increase_allowance_def raise_allowance_def allowance_or_default_def
      allowance_default_def demo_platform_def demo_token0_def demo_token_def demo_token_env_def
      no_msgs_def checked_int_defs Let_def)

lemma demo_token_reachable: "token_reachable demo_platform demo_token"
  by (rule token_step [OF token_start [OF demo_token_start] demo_token_allow])

lemmas demo_token_defs = demo_token_def demo_token0_def demo_token_info_def demo_token_env_def
  demo_platform_def

text \<open>
  C3: In every state a deployed token can reach, the total supply is exactly the sum of all
  balances, it fits 128 bits, and it does not exceed the cap of the current minter.
\<close>

theorem supply_is_sum_of_balances:
  assumes "platform_exact P" and "token_reachable P s"
  shows "\<exists>ti. token s = Some ti \<and> total_supply ti = sum_list (map snd (balances s))
    \<and> total_supply ti < 2 ^ 128 \<and> distinct (map fst (balances s))
    \<and> (case get_cap ti of None \<Rightarrow> True | Some c \<Rightarrow> total_supply ti \<le> c)"
  using reachable_token_inv [OF assms(2,1)] kv_ok_distinct [of "balances s"]
  by (fastforce simp: token_inv_def kv_total_def u128_lim_def split: option.splits)

theorem supply_is_sum_of_balances_witness:
  "\<exists>ti. token demo_token = Some ti \<and> total_supply ti = 100 + 50"
  using supply_is_sum_of_balances [OF demo_platform_exact demo_token_reachable]
  by (simp add: demo_token_defs)

text \<open>
  A transfer to a valid address succeeds exactly when the sender owns the amount (it can
  never panic, because the balances together fit 128 bits); then the amount moves from the
  sender to the recipient, a transfer to oneself changes nothing, every other balance, the
  supply and the allowances stay; otherwise the overflow error is returned.
\<close>

theorem transfer_moves_exactly:
  assumes "platform_exact P" and "token_reachable P s" and "addr_validate P r = Ok rcpt"
  shows "if n \<le> kv_nat (balances s) (sender info)
    then \<exists>s'. execute_transfer P s info r n = Ok s' \<and> token s' = token s \<and> allowances s' = allowances s
      \<and> (\<forall>a. kv_nat (balances s') a =
            (if (sender info) = rcpt then kv_nat (balances s) a
             else if a = (sender info) then kv_nat (balances s) (sender info) - n
             else if a = rcpt then kv_nat (balances s) rcpt + n
             else kv_nat (balances s) a))
    else execute_transfer P s info r n = Err (Tok_std Overflow)"
proof (cases "n \<le> kv_nat (balances s) (sender info)")
  case True
  from reachable_token_inv [OF assms(2,1)] have inv: "kv_ok (balances s)" "kv_total (balances s) < u128_lim"
    by (auto simp: token_inv_def)
  let ?m = "kv_set (balances s) (sender info) (kv_nat (balances s) (sender info) - n)"
  have "kv_total (moved (balances s) (sender info) rcpt n) < u128_lim"
    using moved_total [OF inv(1) True] inv(2) by simp
  moreover have "kv_nat ?m rcpt + n \<le> kv_total (moved (balances s) (sender info) rcpt n)"
    using kv_nat_le_total [of "moved (balances s) (sender info) rcpt n" rcpt] by (simp add: moved_def Let_def)
  ultimately have "kv_nat ?m rcpt + n < u128_lim" by linarith
  then have "execute_transfer P s info r n = Ok (s\<lparr> balances := moved (balances s) (sender info) rcpt n \<rparr>)"
    using True assms(3)
    by (simp add: execute_transfer_def balance_sub_def balance_add_def u128_checked_sub_def
        u128_add_def moved_def Let_def)
  with True show ?thesis by (simp add: moved_nat)
next
  case False
  with assms(3) show ?thesis
    by (simp add: execute_transfer_def balance_sub_def u128_checked_sub_def)
qed

theorem transfer_moves_exactly_witness:
  "\<exists>s'. execute_transfer demo_platform demo_token \<lparr> sender = ''ann'' \<rparr> ''bob'' 40 = Ok s'
     \<and> kv_nat (balances s') ''ann'' = 60 \<and> kv_nat (balances s') ''bob'' = 90"
proof -
  have "addr_validate demo_platform ''bob'' = Ok ''bob''" by (simp add: demo_platform_def)
  from transfer_moves_exactly [OF demo_platform_exact demo_token_reachable this, where n = 40 and info = "\<lparr> sender = ''ann'' \<rparr>"]
  show ?thesis by (auto simp: demo_token_def demo_token0_def)
qed

text \<open>
  The supply changes only by minting and burning, by exactly the amount: \<open>Mint\<close> raises it and
  is open to the current minter alone, \<open>Burn\<close> and \<open>BurnFrom\<close> lower it, every other message
  leaves it as it is.
\<close>

theorem supply_changes_only_by_mint_and_burn:
  assumes "token_execute P s e info msg = Ok (s', msgs)" and "token s = Some ti"
  shows "\<exists>ti'. token s' = Some ti' \<and> total_supply ti' =
    (case msg of Mint r n \<Rightarrow> total_supply ti + n
     | Burn n \<Rightarrow> total_supply ti - n
     | Burn_from own n \<Rightarrow> total_supply ti - n
     | _ \<Rightarrow> total_supply ti)
    \<and> (\<forall>r n. msg = Mint r n \<longrightarrow> (\<exists>m. mint ti = Some m \<and> minter m = sender info
         \<and> (\<forall>c. mint_cap m = Some c \<longrightarrow> total_supply ti + n \<le> c)))"
  using assms
  by (cases msg)
    (auto simp: token_ok deduct_frame
      elim!: transfer_cases send_cases burn_cases mint_cases update_minter_cases
        update_marketing_cases upload_logo_cases increase_cases decrease_cases transfer_from_cases
        send_from_cases burn_from_cases)

theorem supply_changes_only_by_mint_and_burn_witness:
  "\<exists>s' msgs ti'. token_execute demo_platform demo_token demo_token_env \<lparr> sender = ''boss'' \<rparr> (Mint ''dan'' 50) = Ok (s', msgs)
     \<and> token s' = Some ti' \<and> total_supply ti' = 200"
proof -
  obtain s' msgs where run: "token_execute demo_platform demo_token demo_token_env \<lparr> sender = ''boss'' \<rparr>
      (Mint ''dan'' 50) = Ok (s', msgs)"
    by (simp add: execute_mint_def demo_token_defs no_msgs_def balance_add_def get_cap_def
        checked_int_defs Let_def)
  have "token demo_token = Some demo_token_info" by (simp add: demo_token_defs)
  from supply_changes_only_by_mint_and_burn [OF run this] run show ?thesis
    by (auto simp: demo_token_info_def)
qed

text \<open>
  C36: Nobody loses tokens without consent: if a message lowers the balance of an account, then
  the account sent the message itself, or the sender held an unexpired allowance from that
  account that covers the loss and is reduced by exactly it.
\<close>

theorem balances_fall_only_with_consent:
  assumes "token_execute P s e info msg = Ok (s', msgs)"
    and "kv_nat (balances s') k < kv_nat (balances s) k"
  shows "k = sender info \<or>
    (\<exists>a. kv_get (allowances s) (k, sender info) = Some a \<and> \<not> is_expired P (expires a) (block e)
       \<and> kv_nat (balances s) k - kv_nat (balances s') k \<le> allowed a
       \<and> kv_get (allowances s') (k, sender info)
           = Some (a\<lparr> allowed := allowed a - (kv_nat (balances s) k - kv_nat (balances s') k) \<rparr>))"
  using token_fall [OF assms] by (simp add: spends_def)

theorem balances_fall_only_with_consent_witness:
  "\<exists>s' msgs. token_execute demo_platform demo_token demo_token_env \<lparr> sender = ''cat'' \<rparr>
       (Transfer_from ''ann'' ''bob'' 25) = Ok (s', msgs)
     \<and> kv_get (allowances s') (''ann'', ''cat'') = Some \<lparr> allowed = 5, expires = At_height 20 \<rparr>"
proof -
  obtain s' msgs where run: "token_execute demo_platform demo_token demo_token_env \<lparr> sender = ''cat'' \<rparr>
       (Transfer_from ''ann'' ''bob'' 25) = Ok (s', msgs)"
    and bal: "kv_nat (balances s') ''ann'' = 75"
    by (simp add: execute_transfer_from_def deduct_allowance_def lower_allowance_def
        demo_token_defs no_msgs_def balance_add_def balance_sub_def checked_int_defs Let_def)
  have "kv_nat (balances s') ''ann'' < kv_nat (balances demo_token) ''ann''"
    using bal by (simp add: demo_token_defs)
  from balances_fall_only_with_consent [OF run this] run bal show ?thesis
    by (auto simp: demo_token_defs)
qed

text \<open>
  The listing of the allowances an owner has granted and the listing of the allowances a
  spender holds, each read page by page to the end, agree entry by entry in every reachable
  state, although the contract keeps them in two separate maps.
\<close>

theorem allowance_listings_agree:
  assumes "token_reachable P s" and "addr_validate P own = Ok own" and "addr_validate P sp = Ok sp"
    and "limit \<noteq> Some 0"
  shows "\<exists>granted held.
    read_pages (\<lambda>start. query_owner_allowances P s own start limit) counterparty
      (Suc (length (allowances s))) None = Ok granted
    \<and> read_pages (\<lambda>start. query_spender_allowances P s sp start limit) counterparty
      (Suc (length (allowances_spender s))) None = Ok held
    \<and> (\<forall>n ex. \<lparr> counterparty = sp, entry_allowance = n, entry_expires = ex \<rparr> \<in> set granted
         \<longleftrightarrow> \<lparr> counterparty = own, entry_allowance = n, entry_expires = ex \<rparr> \<in> set held)"
proof -
  from reachable_mirrored [OF assms(1)] have ok: "kv_ok (allowances s)" "kv_ok (allowances_spender s)"
    and mirror: "kv_get (allowances_spender s) (sp, own) = kv_get (allowances s) (own, sp)"
    by (simp_all add: mirrored_def)
  have len: "length (kv_prefix m a) < Suc (length m)" for m :: "(addr \<times> addr, allowance) kv" and a
    by (simp add: kv_prefix_def le_imp_less_Suc)
  from owner_pages.read_pages_all [of "(P, s, own, limit)" "Suc (length (allowances s))"]
    spender_pages.read_pages_all [of "(P, s, sp, limit)" "Suc (length (allowances_spender s))"]
    ok assms(2,3) page_limit_pos [OF assms(4)] len
  have "read_pages (\<lambda>start. query_owner_allowances P s own start limit) counterparty
      (Suc (length (allowances s))) None = Ok (map allowance_entry_of (kv_prefix (allowances s) own))"
    "read_pages (\<lambda>start. query_spender_allowances P s sp start limit) counterparty
      (Suc (length (allowances_spender s))) None = Ok (map allowance_entry_of (kv_prefix (allowances_spender s) sp))"
    by simp_all
  moreover note allowance_entry_in [OF ok(1)] allowance_entry_in [OF ok(2)] mirror
  ultimately show ?thesis by simp
qed

theorem allowance_listings_agree_witness:
  "\<exists>held. read_pages (\<lambda>start. query_spender_allowances demo_platform demo_token ''cat'' start None) counterparty
      2 None = Ok held
    \<and> \<lparr> counterparty = ''ann'', entry_allowance = 30, entry_expires = At_height 20 \<rparr> \<in> set held"
proof -
  have "addr_validate demo_platform ''ann'' = Ok ''ann''" "addr_validate demo_platform ''cat'' = Ok ''cat''"
    by (simp_all add: demo_platform_def)
  from allowance_listings_agree [OF demo_token_reachable this, of None] obtain granted held where
    g: "read_pages (\<lambda>start. query_owner_allowances demo_platform demo_token ''ann'' start None) counterparty
          2 None = Ok granted"
    and h: "read_pages (\<lambda>start. query_spender_allowances demo_platform demo_token ''cat'' start None) counterparty
          2 None = Ok held"
    and agree: "\<lparr> counterparty = ''cat'', entry_allowance = 30, entry_expires = At_height 20 \<rparr> \<in> set granted
      \<longleftrightarrow> \<lparr> counterparty = ''ann'', entry_allowance = 30, entry_expires = At_height 20 \<rparr> \<in> set held"
    by (auto simp: demo_token_def numeral_2_eq_2)
  have "query_owner_allowances demo_platform demo_token ''ann'' None None
      = Ok [\<lparr> counterparty = ''cat'', entry_allowance = 30, entry_expires = At_height 20 \<rparr>]"
    "query_owner_allowances demo_platform demo_token ''ann'' (Some ''cat'') None = Ok []"
    by (simp_all add: demo_token_defs query_owner_allowances_def kv_prefix_def kv_after_def
        token_page_limit_def allowance_entry_of_def)
  with g have "granted = [\<lparr> counterparty = ''cat'', entry_allowance = 30, entry_expires = At_height 20 \<rparr>]"
    by (simp add: numeral_2_eq_2)
  with h agree show ?thesis by simp
qed

text \<open>
  Paging through \<open>AllAccounts\<close> from the last account seen lists every account that ever held
  tokens exactly once, in address order.
\<close>

theorem account_listing_is_complete:
  assumes "platform_exact P" and "token_reachable P s" and "limit \<noteq> Some 0"
  shows "read_pages (\<lambda>start. query_all_accounts s start limit) (\<lambda>a. a) (Suc (length (balances s))) None
    = Ok (map fst (balances s))"
  using account_pages.read_pages_all [of "(s, limit)" "Suc (length (balances s))"]
    reachable_token_inv [OF assms(2,1)] page_limit_pos [OF assms(3)]
  by (simp add: token_inv_def)

theorem account_listing_is_complete_witness:
  "read_pages (\<lambda>start. query_all_accounts demo_token start (Some 1)) (\<lambda>a. a) 3 None = Ok [''ann'', ''bob'']"
  using account_listing_is_complete [OF demo_platform_exact demo_token_reachable, of "Some 1"]
  by (simp add: demo_token_defs numeral_eq_Suc)

text \<open>
  Migrating a contract from before version 0.14.0, which kept no allowances per spender,
  builds the per-spender map that mirrors the allowances exactly, and touches neither balances
  nor supply.
\<close>

theorem migration_mirrors_allowances:
  assumes "token_migrate ensure_older semver_less s = Ok s'" and "kv_ok (allowances s)"
    and "allowances_spender s = []"
    and "\<And>v orig v'. ensure_older v contract_name contract_version = Ok (orig, v') \<Longrightarrow> semver_less orig ''0.14.0''"
  shows "kv_get (allowances_spender s') (sp, own) = kv_get (allowances s) (own, sp)
    \<and> kv_ok (allowances_spender s') \<and> allowances s' = allowances s
    \<and> balances s' = balances s \<and> token s' = token s"
proof -
  from assms(1) obtain orig v where "ensure_older (cw2_version s) contract_name contract_version = Ok (orig, v)"
    and "s' = (if semver_less orig ''0.14.0''
      then s\<lparr> cw2_version := v, allowances_spender := rebuild_spender_allowances (allowances s) (allowances_spender s) \<rparr>
      else s\<lparr> cw2_version := v \<rparr>)"
    by (auto simp: token_migrate_def outcome_simps Let_def split: prod.splits if_splits)
  with assms(4) have "s' = s\<lparr> cw2_version := v,
      allowances_spender := rebuild_spender_allowances (allowances s) (allowances_spender s) \<rparr>"
    by simp
  with assms(2,3) show ?thesis
    by (simp add: rebuild_get rebuild_ok split: option.split)
qed

theorem migration_mirrors_allowances_witness:
  "\<exists>s'. token_migrate (\<lambda>v n c. Ok (''0.13.4'', Some (n, c))) (<) (demo_token\<lparr> allowances_spender := [] \<rparr>) = Ok s'
     \<and> kv_get (allowances_spender s') (''cat'', ''ann'') = Some \<lparr> allowed = 30, expires = At_height 20 \<rparr>"
proof -
  obtain s' where run: "token_migrate (\<lambda>v n c. Ok (''0.13.4'', Some (n, c))) (<) (demo_token\<lparr> allowances_spender := [] \<rparr>) = Ok s'"
    by (simp add: token_migrate_def Let_def)
  have ok: "kv_ok (allowances (demo_token\<lparr> allowances_spender := [] \<rparr>))"
    by (simp add: demo_token_defs kv_ok_def)
  have "kv_get (allowances_spender s') (''cat'', ''ann'') =
      kv_get (allowances (demo_token\<lparr> allowances_spender := [] \<rparr>)) (''ann'', ''cat'')"
    using migration_mirrors_allowances [OF run ok, where sp = "''cat''" and own = "''ann''"] by simp
  with run show ?thesis by (simp add: demo_token_defs)
qed

text \<open>
  A logo that can be downloaded was verified, in every reachable state: it has at most 5 KB,
  an SVG starts like an XML declaration, a PNG with the eight bytes of the PNG signature.
\<close>

theorem downloaded_logos_are_verified:
  assumes "token_reachable P s" and "query_download_logo s = Ok (mime, data)"
  shows "length data \<le> 5120
    \<and> (mime = ''image/svg+xml'' \<and> take 6 data = ''<?xml ''
       \<or> mime = ''image/png'' \<and> take 8 data = map char_of [0x89::nat, 80, 78, 71, 13, 10, 26, 10])"
proof -
  from assms(2) consider (svg) "logo_item s = Some (Logo_svg data)" "mime = ''image/svg+xml''"
    | (png) "logo_item s = Some (Logo_png data)" "mime = ''image/png''"
    by (cases "logo_item s"; cases "the (logo_item s)") (auto simp: query_download_logo_def)
  then show ?thesis
  proof cases
    case svg
    with reachable_logo_verified [OF assms(1)] verified_svg show ?thesis by auto
  next
    case png
    with reachable_logo_verified [OF assms(1)] verified_png show ?thesis by (auto simp: png_header_def)
  qed
qed

definition demo_logo_token :: token_state where
  "demo_logo_token = demo_token0\<lparr> logo_item := Some (Logo_svg ''<?xml ?><svg/>''),
     marketing_item := Some \<lparr> mk_project = None, mk_description = None, mk_marketing = None,
       mk_logo = Some Info_embedded \<rparr> \<rparr>"

theorem downloaded_logos_are_verified_witness:
  "query_download_logo demo_logo_token = Ok (''image/svg+xml'', ''<?xml ?><svg/>'')
    \<and> length ''<?xml ?><svg/>'' \<le> 5120"
proof -
  have "token_instantiate demo_platform (demo_token_msg\<lparr> msg_marketing := Some \<lparr> req_project = None,
      req_description = None, req_marketing = None, req_logo = Some (Logo_svg ''<?xml ?><svg/>'') \<rparr> \<rparr>)
     = Ok demo_logo_token"
    by (simp add: token_instantiate_def demo_token_msg_def token_msg_validate_def has_valid_name_def
      has_valid_symbol_def symbol_byte_def create_accounts_def validate_accounts_def insort_key.simps
      demo_platform_def msg_get_cap_def instantiate_minter_def token_empty_def demo_token0_def
      instantiate_marketing_def verify_xml_logo_def verify_xml_preamble_def starts_with_def ends_with_def
      logo_size_cap_def demo_logo_token_def demo_token_info_def checked_int_defs Let_def)
  from token_start [OF this] have reach: "token_reachable demo_platform demo_logo_token" .
  have "query_download_logo demo_logo_token = Ok (''image/svg+xml'', ''<?xml ?><svg/>'')"
    by (simp add: query_download_logo_def demo_logo_token_def)
  with downloaded_logos_are_verified [OF reach this] show ?thesis by blast
qed

end
