(* ===== verification/Staking.thy ===== *)
theory Staking
  imports Controllers Cw20_Base
begin

text \<open>
  The staking contract of \<open>contracts/syneswap_staking\<close>: tokens are locked for a number of
  periods, a staker earns a share of a daily reward through a pool index, and the stake gives a
  voting power that decays linearly to zero over the lock.  Items that \<open>instantiate\<close> saves are
  plain fields; the contract's queries to itself all precede its writes, so they read the
  current state.  Response attributes and debug output are left out, the token messages a
  handler sends are kept.
\<close>

section \<open>State\<close>

record staking_config =
  token_addr :: addr
  owner_addr :: addr
  community_addr :: "addr option"
  last_distributed :: nat
  freeze :: bool
  freeze_lock_time :: nat
  freeze_start_time :: nat
  lock_time_frame :: nat
  wait_time :: nat  \<comment> \<open>\<open>wait_time_for_distribution_in_seconds\<close>\<close>
  restake_reset_flag :: bool
  syne_power_constant :: nat
  latest_syne_power_date :: nat
  day_factor :: nat  \<comment> \<open>\<open>day_factor_in_seconds\<close>\<close>
  vault_address :: string
  duration_values :: "nat list"
  last_syne_power_date :: nat
  second_owner :: "string option"

record reward_info =
  reward_index :: nat
  pending_reward :: nat

record syne_power_index =
  first_reward_index :: nat
  last_reward_index :: nat

record user_reward_response =
  user_reward :: nat
  calculated_days :: nat
  response_pending :: nat

record user_info =
  user_balance :: nat
  actual_balance :: nat
  mint_time :: nat
  last_claimed_time :: nat

definition no_user_info :: user_info where
  "no_user_info = \<lparr> user_balance = 0, actual_balance = 0, mint_time = 0, last_claimed_time = 0 \<rparr>"

record balance_info =
  total_power :: nat
  total_mint_time :: nat

definition no_balance_info :: balance_info where
  "no_balance_info = \<lparr> total_power = 0, total_mint_time = 0 \<rparr>"

record staking_state =
  config :: staking_config
  total_reward :: nat
  reward_in_contract :: nat  \<comment> \<open>\<open>TOTAL_REWARD_IN_CONTRACT\<close>\<close>
  distribution_reward :: nat
  pool_index :: nat  \<comment> \<open>\<open>REWARD_INDEX\<close>\<close>
  total_staked :: "(nat, nat) kv"  \<comment> \<open>\<open>TOTAL_STAKED_DURATION_WISE\<close>\<close>
  reward_infos :: "(addr \<times> nat, reward_info) kv"  \<comment> \<open>\<open>USER_REWARD_INFO\<close>\<close>
  power_dates :: "(nat, syne_power_index) kv"  \<comment> \<open>\<open>SYNE_POWER_DATE_WISE_MAP\<close>\<close>
  power_token :: token_info
  power_marketing :: "marketing_info option"
  power_logo :: "logo option"
  total_balances :: "(nat, balance_info) kv"
  power_balances :: "(addr, nat) kv"  \<comment> \<open>\<open>BALANCES\<close>\<close>
  positions :: "(addr \<times> nat, user_info) kv"  \<comment> \<open>\<open>MINT_TIME\<close>\<close>

definition reward_calc_unit :: nat where "reward_calc_unit = 1000000000000"

abbreviation unauthorized :: std_error where "unauthorized \<equiv> Generic_err ''unauthorized''"

text \<open>The owner check at the head of every administrative handler.\<close>

definition assert_owner :: "staking_config \<Rightarrow> addr \<Rightarrow> (std_error, unit) outcome" where
  "assert_owner c a = (if a \<noteq> owner_addr c then Err unauthorized else Ok ())"

text \<open>
  A query the contract sends to itself through the querier: an error or a panic of the queried
  entry point comes back as a querier error.
\<close>

definition self_query :: "(std_error, 'a) outcome \<Rightarrow> (std_error, 'a) outcome" where
  "self_query r = (case r of Ok x \<Rightarrow> Ok x | _ \<Rightarrow> Err (Generic_err ''Querier contract error''))"

section \<open>The voting token\<close>

definition logo_error :: "token_error \<Rightarrow> std_error" where
  "logo_error e = (case e of
      Logo_too_big \<Rightarrow> Generic_err ''Logo binary data exceeds 5KB limit''
    | Invalid_xml_preamble \<Rightarrow> Generic_err ''Invalid xml preamble for SVG''
    | Invalid_png_header \<Rightarrow> Generic_err ''Invalid png header''
    | Duplicate_initial_balance_addresses \<Rightarrow> Generic_err ''Duplicate initial balance addresses''
    | Tok_std e' \<Rightarrow> e'
    | _ \<Rightarrow> Generic_err ''unreachable'')"

text \<open>
  \<open>minter.rs\<close> repeats the instantiation of the base token line by line with \<open>StdError\<close>s; it is
  the base model with its errors renamed.
\<close>

definition instantiate_token ::
  "platform \<Rightarrow> token_instantiate_msg \<Rightarrow> (std_error, token_state) outcome"
where
  "instantiate_token P msg = map_err logo_error (token_instantiate P msg)"

definition staking_update_token_info ::
  "staking_state \<Rightarrow> message_info \<Rightarrow> string \<Rightarrow> string \<Rightarrow> (std_error, staking_state) outcome"
where
  "staking_update_token_info s info nm symbol =
     and_then (assert_owner (config s) (sender info)) (\<lambda>_.
     Ok (s\<lparr> power_token := (power_token s)\<lparr> token_name := nm, token_symbol := symbol \<rparr> \<rparr>))"

text \<open>
  The power left of a balance after \<open>diff\<close> of \<open>month\<close> seconds, in units of \<open>REWARD_CALC_UNIT\<close>;
  the surrounding \<open>if time_diff < month_seconds\<close> leaves \<open>old\<close> unchanged when the lock is over.
\<close>

definition decayed :: "nat \<Rightarrow> nat \<Rightarrow> nat \<Rightarrow> nat \<Rightarrow> (std_error, nat) outcome" where
  "decayed balance month diff old =
     (if diff < month then
        and_then (u64_sub month diff) (\<lambda>p0.
        and_then (u128_multiply_ratio reward_calc_unit p0 1) (\<lambda>p1.
        and_then (u128_multiply_ratio p1 1 month) (\<lambda>power.
        if power > 0 then
          and_then (u128_mul balance power) (\<lambda>b. u128_multiply_ratio b 1 reward_calc_unit)
        else Ok 0)))
      else Ok old)"

text \<open>The previous total of a duration, decayed and corrected by the recipient's own share.\<close>

definition mint_total ::
  "staking_config \<Rightarrow> env \<Rightarrow> balance_info \<Rightarrow> nat \<Rightarrow> nat \<Rightarrow> nat \<Rightarrow> (std_error, nat) outcome"
where
  "mint_total c e prev duration prev_balances prev_amount =
     (if total_power prev > 0 then
        and_then (u64_mul (lock_time_frame c) duration) (\<lambda>month.
        and_then (u64_sub (seconds (block e)) (total_mint_time prev)) (\<lambda>diff.
        if diff < month then
          and_then (u64_sub month diff) (\<lambda>p0.
          and_then (u128_multiply_ratio reward_calc_unit p0 1) (\<lambda>p1.
          and_then (u128_multiply_ratio p1 1 month) (\<lambda>power.
          if power > 0 then
            and_then (u128_mul (total_power prev) power) (\<lambda>b.
            and_then (u128_multiply_ratio b 1 reward_calc_unit) (\<lambda>t.
            if prev_balances > 0 then
              and_then (u128_sub t prev_balances) (\<lambda>t'. u128_add t' prev_amount)
            else Ok t))
          else Ok 0)))
        else Ok 0))
      else Ok 0)"

definition staking_mint ::
  "platform \<Rightarrow> staking_state \<Rightarrow> env \<Rightarrow> string \<Rightarrow> nat \<Rightarrow> nat \<Rightarrow> (std_error, staking_state) outcome"
where
  "staking_mint P s e recipient amount0 duration =
     (if amount0 = 0 then Err (Generic_err ''Invalid zero amount'')
      else
      and_then (u128_mul amount0 duration) (\<lambda>amount.
      and_then (u128_add (total_supply (power_token s)) amount) (\<lambda>supply.
      let ti = (power_token s)\<lparr> total_supply := supply \<rparr> in
      and_then (case get_cap ti of
                  Some limit \<Rightarrow>
                    if supply > limit then Err (Generic_err ''Minting cannot exceed the cap'') else Ok ()
                | None \<Rightarrow> Ok ()) (\<lambda>_.
      and_then (addr_validate P recipient) (\<lambda>rcpt.
      let prev_total = (case kv_get (total_balances s) duration of
                          None \<Rightarrow> no_balance_info | Some b \<Rightarrow> b);
          user = (case kv_get (positions s) (rcpt, duration) of
                    None \<Rightarrow> no_user_info | Some u \<Rightarrow> u);
          now = seconds (block e) in
      and_then (if mint_time user > 0 then
                  and_then (u64_mul (lock_time_frame (config s)) duration) (\<lambda>month.
                  and_then (u64_sub now (mint_time user)) (\<lambda>diff.
                  decayed (user_balance user) month diff 0))
                else Ok 0) (\<lambda>prev_balances.
      and_then (mint_total (config s) e prev_total duration prev_balances (actual_balance user)) (\<lambda>total.
      and_then (u128_add total amount) (\<lambda>total'.
      and_then (u128_add prev_balances amount) (\<lambda>b.
      and_then (u128_add amount (actual_balance user)) (\<lambda>bal.
      Ok (s\<lparr> power_token := ti,
            total_balances := kv_set (total_balances s) duration
              \<lparr> total_power = total', total_mint_time = now \<rparr>,
            power_balances := kv_set (power_balances s) rcpt b,
            positions := kv_set (positions s) (rcpt, duration)
              \<lparr> user_balance = bal, actual_balance = bal, mint_time = now,
                 last_claimed_time = now \<rparr> \<rparr>)))))))))))"

section \<open>Balance queries\<close>

definition position_of :: "staking_state \<Rightarrow> addr \<Rightarrow> nat \<Rightarrow> user_info" where
  "position_of s a d = (case kv_get (positions s) (a, d) of None \<Rightarrow> no_user_info | Some u \<Rightarrow> u)"

text \<open>
  The loop of \<open>query_balance\<close>.  The variable \<open>balance\<close> lives outside the loop and is carried over
  to the next duration.
\<close>

fun balance_loop ::
  "staking_state \<Rightarrow> nat \<Rightarrow> addr \<Rightarrow> nat list \<Rightarrow> nat \<Rightarrow> nat \<Rightarrow> (std_error, nat) outcome"
where
  "balance_loop s now a [] bal tot = Ok tot"
| "balance_loop s now a (d # ds) bal tot =
     (let user = position_of s a d in
      if mint_time user > 0 then
        and_then (u64_mul (lock_time_frame (config s)) d) (\<lambda>month.
        and_then (u64_sub now (mint_time user)) (\<lambda>diff.
        and_then (decayed (user_balance user) month diff bal) (\<lambda>bal'.
        and_then (u128_add tot bal') (\<lambda>tot'.
        balance_loop s now a ds bal' tot'))))
      else balance_loop s now a ds bal tot)"

definition staking_query_balance ::
  "platform \<Rightarrow> staking_state \<Rightarrow> env \<Rightarrow> string \<Rightarrow> (std_error, nat) outcome"
where
  "staking_query_balance P s e address =
     and_then (addr_validate P address) (\<lambda>a.
     balance_loop s (seconds (block e)) a (duration_values (config s)) 0 0)"

definition query_balance_by_duration ::
  "platform \<Rightarrow> staking_state \<Rightarrow> env \<Rightarrow> string \<Rightarrow> nat \<Rightarrow> (std_error, nat) outcome"
where
  "query_balance_by_duration P s e address duration =
     and_then (addr_validate P address) (\<lambda>a.
     let user = position_of s a duration in
     if mint_time user > 0 then
       and_then (u64_mul (lock_time_frame (config s)) duration) (\<lambda>month.
       and_then (u64_sub (seconds (block e)) (mint_time user)) (\<lambda>diff.
       decayed (user_balance user) month diff 0))
     else Ok 0)"

definition query_total_balance ::
  "staking_state \<Rightarrow> nat \<Rightarrow> nat \<Rightarrow> (std_error, nat) outcome"
where
  "query_total_balance s time0 duration =
     (let tb = (case kv_get (total_balances s) duration of
                  None \<Rightarrow> no_balance_info | Some b \<Rightarrow> b) in
      if total_mint_time tb > 0 then
        and_then (u64_mul (lock_time_frame (config s)) duration) (\<lambda>month.
        let time = (if time0 < total_mint_time tb then total_mint_time tb else time0) in
        and_then (u64_sub time (total_mint_time tb)) (\<lambda>diff.
        decayed (total_power tb) month diff 0))
      else Ok 0)"

definition staking_query_token_info ::
  "staking_state \<Rightarrow> (std_error, string \<times> string \<times> nat \<times> nat) outcome"
where
  "staking_query_token_info s =
     Ok (token_name (power_token s), token_symbol (power_token s), token_decimals (power_token s),
         total_supply (power_token s))"

definition staking_query_minter :: "staking_state \<Rightarrow> (std_error, minter_data option) outcome" where
  "staking_query_minter s = Ok (mint (power_token s))"

definition staking_query_marketing_info :: "staking_state \<Rightarrow> (std_error, marketing_info) outcome" where
  "staking_query_marketing_info s =
     Ok (case power_marketing s of None \<Rightarrow> marketing_default | Some mi \<Rightarrow> mi)"

section \<open>The reward of a user\<close>

record reward_loop =
  rl_index :: nat
  rl_reward :: nat
  rl_without_power :: nat
  rl_days :: nat

text \<open>One turn of the loop over \<open>SYNE_POWER_DATE_WISE_MAP\<close> (\<open>last_index\<close> is \<open>i.1.last_reward_index\<close>).\<close>

definition reward_step ::
  "staking_config \<Rightarrow> nat \<Rightarrow> nat \<Rightarrow> nat \<Rightarrow> nat \<Rightarrow> nat \<Rightarrow> nat \<times> syne_power_index \<Rightarrow> reward_loop
     \<Rightarrow> (std_error, reward_loop) outcome"
where
  "reward_step c pool actual duration end_time rem i l =
     (let last_index = last_reward_index (snd i) in
      and_then (if last_index = 0 then u128_sub pool (rl_index l)
                else if last_index > rl_index l then u128_sub last_index (rl_index l)
                else Ok 0) (\<lambda>diff.
      let l' = l\<lparr> rl_index := last_index \<rparr> in
      and_then (u64_add (fst i) rem) (\<lambda>at.
      if at < end_time then
        and_then (u128_multiply_ratio diff actual 1) (\<lambda>r0.
        and_then (u128_sub end_time at) (\<lambda>left.
        and_then (u128_mul (lock_time_frame c) duration) (\<lambda>lock.
        and_then (u128_multiply_ratio r0 left lock) (\<lambda>resp.
        and_then (u128_multiply_ratio diff actual 1) (\<lambda>full.
        and_then (u128_add (rl_without_power l') full) (\<lambda>wp.
        and_then (u128_add (rl_reward l') resp) (\<lambda>rw.
        Ok (l'\<lparr> rl_without_power := wp, rl_days := rl_days l' + 1, rl_reward := rw \<rparr>))))))))
      else Ok l')))"

definition query_user_reward ::
  "platform \<Rightarrow> staking_state \<Rightarrow> string \<Rightarrow> nat \<Rightarrow> (std_error, user_reward_response) outcome"
where
  "query_user_reward P s wallet duration =
     (let c = config s in
      and_then (addr_validate P wallet) (\<lambda>a.
      and_then (ok_or (Generic_err ''No Staked Found'') (kv_get (positions s) (a, duration))) (\<lambda>u.
      and_then (u64_mul (lock_time_frame c) duration) (\<lambda>lock.
      and_then (u64_add (mint_time u) lock) (\<lambda>user_end.
      and_then (if latest_syne_power_date c > mint_time u
                then u64_div (latest_syne_power_date c - mint_time u) (day_factor c) else Ok 0) (\<lambda>day_passed.
      and_then (u64_sub (last_claimed_time u) (mint_time u)) (\<lambda>claimed_secs.
      and_then (u64_div claimed_secs (day_factor c)) (\<lambda>claimed_days.
      and_then (u64_mul (day_factor c) day_passed) (\<lambda>passed_secs.
      and_then (u64_sub (latest_syne_power_date c) passed_secs) (\<lambda>start0.
      and_then (if mint_time u < start0 then u64_sub start0 (day_factor c) else Ok start0) (\<lambda>start1.
      and_then (u64_add start1 lock) (\<lambda>end_time.
      and_then (u64_mul claimed_days (day_factor c)) (\<lambda>off.
      and_then (u64_add off start1) (\<lambda>start_time.
      if last_claimed_time u \<ge> last_distributed c then
        Ok \<lparr> user_reward = 0, calculated_days = 0, response_pending = 0 \<rparr>
      else
      and_then (u64_rem (last_claimed_time u) (day_factor c)) (\<lambda>rem.
      let ri = (case kv_get (reward_infos s) (wallet, duration) of
                  Some r \<Rightarrow> r | None \<Rightarrow> \<lparr> reward_index = pool_index s, pending_reward = 0 \<rparr>);
          days = filter (\<lambda>i. start_time \<le> fst i \<and> fst i \<le> end_time) (power_dates s) in
      if days = [] then Ok \<lparr> user_reward = 0, calculated_days = 0, response_pending = 0 \<rparr>
      else
      and_then (fold_ok (reward_step c (pool_index s) (actual_balance u) duration user_end rem) days
                  \<lparr> rl_index = reward_index ri, rl_reward = 0, rl_without_power = 0, rl_days = 0 \<rparr>) (\<lambda>l.
      and_then (u128_multiply_ratio (rl_reward l) 1 reward_calc_unit) (\<lambda>reward.
      Ok \<lparr> user_reward = reward, calculated_days = rl_days l,
           response_pending = pending_reward ri \<rparr>)))))))))))))))))"

end
