(* ===== verification/Staking_Contract.thy ===== *)
theory Staking_Contract
  imports Staking
begin

text \<open>
  The handlers of \<open>contracts/syneswap_staking/src/contract.rs\<close> over the state, the voting token
  and the reward query of theory \<open>Staking\<close>.
\<close>

section \<open>Instantiation\<close>

record staking_instantiate_msg =
  im_token :: string
  im_lock_time_frame :: nat
  im_freeze_lock_time :: nat
  im_restake_reset_flag :: bool
  im_vault_address :: string
  im_token_instantiate_msg :: token_instantiate_msg

definition staking_instantiate ::
  "platform \<Rightarrow> env \<Rightarrow> message_info \<Rightarrow> staking_instantiate_msg \<Rightarrow> (std_error, staking_state) outcome"
where
  "staking_instantiate P e info msg =
     (let now = seconds (block e) in
      and_then (addr_validate P (im_token msg)) (\<lambda>tok.
      and_then (instantiate_token P (im_token_instantiate_msg msg)) (\<lambda>t.
      and_then (ok_or (Not_found ''TokenInfo'') (token t)) (\<lambda>ti.
      Ok \<lparr> config = \<lparr> token_addr = tok, owner_addr = sender info, community_addr = Some (sender info),
             last_distributed = now, freeze = False, freeze_lock_time = im_freeze_lock_time msg,
             freeze_start_time = now, lock_time_frame = im_lock_time_frame msg, wait_time = 86400,
             restake_reset_flag = im_restake_reset_flag msg, syne_power_constant = 13,
             latest_syne_power_date = now, day_factor = 86400, vault_address = im_vault_address msg,
             duration_values = [1, 3, 6, 12, 24], last_syne_power_date = now,
             second_owner = Some (sender info) \<rparr>,
           total_reward = 0, reward_in_contract = 0, distribution_reward = 0, pool_index = 0,
           total_staked = [], reward_infos = [], power_dates = [], power_token = ti,
           power_marketing = marketing_item t, power_logo = logo_item t, total_balances = [],
           power_balances = balances t, positions = [] \<rparr>))))"

section \<open>Administration\<close>

definition execute_update_config ::
  "platform \<Rightarrow> staking_state \<Rightarrow> message_info \<Rightarrow> string \<Rightarrow> (std_error, staking_state) outcome"
where
  "execute_update_config P s info owner =
     and_then (assert_owner (config s) (sender info)) (\<lambda>_.
     and_then (addr_validate P owner) (\<lambda>a.
     Ok (s\<lparr> config := (config s)\<lparr> owner_addr := a \<rparr> \<rparr>)))"

definition execute_update_second_owner ::
  "platform \<Rightarrow> staking_state \<Rightarrow> message_info \<Rightarrow> string \<Rightarrow> (std_error, staking_state) outcome"
where
  "execute_update_second_owner P s info owner =
     and_then (assert_owner (config s) (sender info)) (\<lambda>_.
     and_then (addr_validate P owner) (\<lambda>a.
     Ok (s\<lparr> config := (config s)\<lparr> second_owner := Some a \<rparr> \<rparr>)))"

definition execute_update_community_addr ::
  "platform \<Rightarrow> staking_state \<Rightarrow> message_info \<Rightarrow> string \<Rightarrow> (std_error, staking_state) outcome"
where
  "execute_update_community_addr P s info addr =
     and_then (assert_owner (config s) (sender info)) (\<lambda>_.
     and_then (addr_validate P addr) (\<lambda>a.
     Ok (s\<lparr> config := (config s)\<lparr> community_addr := Some a \<rparr> \<rparr>)))"

definition execute_update_freeze_flag ::
  "staking_state \<Rightarrow> env \<Rightarrow> message_info \<Rightarrow> bool \<Rightarrow> (std_error, staking_state) outcome"
where
  "execute_update_freeze_flag s e info flag =
     and_then (assert_owner (config s) (sender info)) (\<lambda>_.
     let c = (config s)\<lparr> freeze := flag \<rparr> in
     Ok (s\<lparr> config := (if flag then c\<lparr> freeze_start_time := seconds (block e) \<rparr> else c) \<rparr>))"

definition execute_update_syne_power_constant ::
  "staking_state \<Rightarrow> message_info \<Rightarrow> nat \<Rightarrow> (std_error, staking_state) outcome"
where
  "execute_update_syne_power_constant s info n =
     and_then (assert_owner (config s) (sender info)) (\<lambda>_.
     Ok (s\<lparr> config := (config s)\<lparr> syne_power_constant := n \<rparr> \<rparr>))"

definition execute_update_freeze_lock_time ::
  "staking_state \<Rightarrow> message_info \<Rightarrow> nat \<Rightarrow> (std_error, staking_state) outcome"
where
  "execute_update_freeze_lock_time s info n =
     and_then (assert_owner (config s) (sender info)) (\<lambda>_.
     Ok (s\<lparr> config := (config s)\<lparr> freeze_lock_time := n \<rparr> \<rparr>))"

definition execute_update_lock_time_frame ::
  "staking_state \<Rightarrow> message_info \<Rightarrow> nat \<Rightarrow> (std_error, staking_state) outcome"
where
  "execute_update_lock_time_frame s info n =
     and_then (assert_owner (config s) (sender info)) (\<lambda>_.
     Ok (s\<lparr> config := (config s)\<lparr> lock_time_frame := n \<rparr> \<rparr>))"

definition execute_add_new_duration ::
  "staking_state \<Rightarrow> message_info \<Rightarrow> nat \<Rightarrow> (std_error, staking_state) outcome"
where
  "execute_add_new_duration s info d =
     and_then (assert_owner (config s) (sender info)) (\<lambda>_.
     Ok (if d \<notin> set (duration_values (config s))
         then s\<lparr> config := (config s)\<lparr> duration_values := duration_values (config s) @ [d] \<rparr> \<rparr>
         else s))"

definition execute_update_wait_time_for_distributions ::
  "staking_state \<Rightarrow> message_info \<Rightarrow> nat \<Rightarrow> (std_error, staking_state) outcome"
where
  "execute_update_wait_time_for_distributions s info n =
     and_then (assert_owner (config s) (sender info)) (\<lambda>_.
     Ok (s\<lparr> config := (config s)\<lparr> wait_time := n \<rparr> \<rparr>))"

definition execute_update_restake_reset_flag ::
  "staking_state \<Rightarrow> message_info \<Rightarrow> bool \<Rightarrow> (std_error, staking_state) outcome"
where
  "execute_update_restake_reset_flag s info flag =
     and_then (assert_owner (config s) (sender info)) (\<lambda>_.
     Ok (s\<lparr> config := (config s)\<lparr> restake_reset_flag := flag \<rparr> \<rparr>))"

definition execute_update_day_factor_in_seconds ::
  "staking_state \<Rightarrow> message_info \<Rightarrow> nat \<Rightarrow> (std_error, staking_state) outcome"
where
  "execute_update_day_factor_in_seconds s info n =
     and_then (assert_owner (config s) (sender info)) (\<lambda>_.
     Ok (s\<lparr> config := (config s)\<lparr> day_factor := n \<rparr> \<rparr>))"

text \<open>\<open>unwrap\<close> of a missing second owner panics; it is only reached by somebody else than the owner.\<close>

definition execute_update_reward ::
  "staking_state \<Rightarrow> message_info \<Rightarrow> nat \<Rightarrow> (std_error, staking_state) outcome"
where
  "execute_update_reward s info amount =
     and_then (if sender info \<noteq> owner_addr (config s) then
                 (case second_owner (config s) of
                    None \<Rightarrow> Panic
                  | Some so \<Rightarrow>
                      if so = [] \<or> (so \<noteq> [] \<and> sender info \<noteq> so) then Err unauthorized else Ok ())
               else Ok ()) (\<lambda>_.
     Ok (s\<lparr> distribution_reward := amount \<rparr>))"

section \<open>Staking, claiming, unstaking\<close>

text \<open>A token transfer a handler asks for: the contract called, the recipient, the amount.\<close>

record transfer_msg =
  tm_target :: addr
  tm_recipient :: string
  tm_amount :: nat

definition execute_deposit_in_vault_address ::
  "staking_state \<Rightarrow> env \<Rightarrow> message_info \<Rightarrow> nat \<Rightarrow> (std_error, staking_state \<times> transfer_msg list) outcome"
where
  "execute_deposit_in_vault_address s e info amount =
     and_then (assert_owner (config s) (sender info)) (\<lambda>_.
     Ok (s, [\<lparr> tm_target = contract_address e, tm_recipient = vault_address (config s),
               tm_amount = amount \<rparr>]))"

definition execute_deposit :: "staking_state \<Rightarrow> nat \<Rightarrow> (std_error, staking_state) outcome" where
  "execute_deposit s amount =
     and_then (u128_add (reward_in_contract s) amount) (\<lambda>n. Ok (s\<lparr> reward_in_contract := n \<rparr>))"

text \<open>The day counter is moved forward by whole days.\<close>

definition advance_power_date :: "staking_config \<Rightarrow> nat \<Rightarrow> (std_error, nat) outcome" where
  "advance_power_date c now =
     and_then (u64_sub now (latest_syne_power_date c)) (\<lambda>elapsed.
     and_then (u64_div elapsed (day_factor c)) (\<lambda>previous_days.
     and_then (u64_add (latest_syne_power_date c) (day_factor c)) (\<lambda>next.
     if next \<le> now then
       and_then (u64_mul (day_factor c) previous_days) (\<lambda>d. u64_add (latest_syne_power_date c) d)
     else Ok (latest_syne_power_date c))))"

definition reward_info_of :: "staking_state \<Rightarrow> addr \<Rightarrow> nat \<Rightarrow> reward_info" where
  "reward_info_of s a d =
     (case kv_get (reward_infos s) (a, d) of
        Some r \<Rightarrow> r | None \<Rightarrow> \<lparr> reward_index = pool_index s, pending_reward = 0 \<rparr>)"

definition staked_add :: "staking_state \<Rightarrow> nat \<Rightarrow> nat \<Rightarrow> (std_error, (nat, nat) kv) outcome" where
  "staked_add s d amount =
     and_then (case kv_get (total_staked s) d of Some t \<Rightarrow> u128_add t amount | None \<Rightarrow> Ok amount) (\<lambda>t.
     Ok (kv_set (total_staked s) d t))"

definition execute_stake ::
  "platform \<Rightarrow> staking_state \<Rightarrow> env \<Rightarrow> addr \<Rightarrow> nat \<Rightarrow> nat \<Rightarrow> (std_error, staking_state) outcome"
where
  "execute_stake P s e staker amount duration =
     and_then (advance_power_date (config s) (seconds (block e))) (\<lambda>date.
     if duration \<notin> set (duration_values (config s))
     then Err (Generic_err ''Invalid duration parameter is passed'')
     else
     and_then (u128_multiply_ratio (actual_balance (position_of s staker duration)) 1 duration) (\<lambda>principal.
     and_then (if principal > 0 then self_query (query_user_reward P s staker duration)
               else Ok \<lparr> user_reward = 0, calculated_days = 0, response_pending = 0 \<rparr>) (\<lambda>resp.
     and_then (staked_add s duration amount) (\<lambda>staked.
     and_then (u128_add (pending_reward (reward_info_of s staker duration)) (user_reward resp)) (\<lambda>pending.
     staking_mint P
       (s\<lparr> total_staked := staked,
          reward_infos := kv_set (reward_infos s) (staker, duration)
            \<lparr> reward_index = pool_index s, pending_reward = pending \<rparr>,
          config := (config s)\<lparr> latest_syne_power_date := date \<rparr> \<rparr>)
       e staker amount duration)))))"

definition execute_restake ::
  "platform \<Rightarrow> staking_state \<Rightarrow> env \<Rightarrow> addr \<Rightarrow> nat \<Rightarrow> (std_error, staking_state) outcome"
where
  "execute_restake P s e staker duration =
     and_then (advance_power_date (config s) (seconds (block e))) (\<lambda>_.
     and_then (self_query (query_user_reward P s staker duration)) (\<lambda>resp.
     and_then (u128_add (user_reward resp) (pending_reward (reward_info_of s staker duration))) (\<lambda>reward.
     if reward = 0 then Err (Generic_err ''None reward for restaking.'')
     else
     and_then (u128_sub (total_reward s) reward) (\<lambda>tr.
     and_then (u128_sub (reward_in_contract s) reward) (\<lambda>rc.
     and_then (staked_add s duration reward) (\<lambda>staked.
     staking_mint P
       (s\<lparr> total_reward := tr, reward_in_contract := rc, total_staked := staked,
          reward_infos := kv_set (reward_infos s) (staker, duration)
            \<lparr> reward_index = pool_index s, pending_reward = 0 \<rparr> \<rparr>)
       e staker reward duration))))))"

text \<open>The maintenance window that blocks claims and withdrawals.\<close>

definition check_freeze :: "staking_config \<Rightarrow> env \<Rightarrow> (std_error, unit) outcome" where
  "check_freeze c e =
     (if freeze c then
        and_then (u64_add (freeze_start_time c) (freeze_lock_time c)) (\<lambda>until.
        if seconds (block e) < until
        then Err (Generic_err ''Sorry for inconvenience, system is under maintenance. Kindly check again later'')
        else Ok ())
      else Ok ())"

definition execute_unstake ::
  "platform \<Rightarrow> staking_state \<Rightarrow> env \<Rightarrow> addr \<Rightarrow> nat
     \<Rightarrow> (std_error, staking_state \<times> transfer_msg list) outcome"
where
  "execute_unstake P s e who duration =
     and_then (check_freeze (config s) e) (\<lambda>_.
     and_then (ok_or (Generic_err ''No staked amount found'') (kv_get (positions s) (who, duration))) (\<lambda>u.
     and_then (u64_sub (seconds (block e)) (mint_time u)) (\<lambda>held.
     and_then (u64_mul (lock_time_frame (config s)) duration) (\<lambda>lock.
     if held < lock
     then Err (Generic_err ''The rewards are still locked. Please wait patiently for the specified time'')
     else
     and_then (u128_multiply_ratio (actual_balance u) 1 duration) (\<lambda>principal.
     and_then (self_query (query_user_reward P s who duration)) (\<lambda>resp.
     and_then (u128_add (pending_reward (reward_info_of s who duration)) (user_reward resp)) (\<lambda>reward.
     and_then (u128_sub (total_reward s) reward) (\<lambda>tr.
     and_then (u128_sub (reward_in_contract s) reward) (\<lambda>rc.
     and_then (case kv_get (total_staked s) duration of
                 Some t \<Rightarrow> u128_sub t principal | None \<Rightarrow> Ok 0) (\<lambda>staked.
     Ok (s\<lparr> total_reward := tr, reward_in_contract := rc,
           reward_infos := kv_del (reward_infos s) (who, duration),
           total_staked := kv_set (total_staked s) duration staked,
           positions := kv_del (positions s) (who, duration) \<rparr>,
         \<lparr> tm_target = token_addr (config s), tm_recipient = who, tm_amount = principal \<rparr> #
         (if reward = 0 then []
          else [\<lparr> tm_target = token_addr (config s), tm_recipient = who, tm_amount = reward \<rparr>]))))))))))))"

definition execute_claim ::
  "platform \<Rightarrow> staking_state \<Rightarrow> env \<Rightarrow> addr \<Rightarrow> nat
     \<Rightarrow> (std_error, staking_state \<times> transfer_msg list) outcome"
where
  "execute_claim P s e who duration =
     and_then (check_freeze (config s) e) (\<lambda>_.
     and_then (ok_or (Generic_err ''No Staked Amount found'') (kv_get (positions s) (who, duration))) (\<lambda>u.
     and_then (self_query (query_user_reward P s who duration)) (\<lambda>resp.
     and_then (u128_add (user_reward resp) (pending_reward (reward_info_of s who duration))) (\<lambda>reward.
     and_then (u128_sub (total_reward s) reward) (\<lambda>tr.
     and_then (u128_sub (reward_in_contract s) reward) (\<lambda>rc.
     Ok (s\<lparr> total_reward := tr, reward_in_contract := rc,
           reward_infos := kv_set (reward_infos s) (who, duration)
             \<lparr> reward_index = pool_index s, pending_reward = 0 \<rparr>,
           positions := kv_set (positions s) (who, duration)
             (u\<lparr> last_claimed_time := seconds (block e) \<rparr>) \<rparr>,
         [\<lparr> tm_target = token_addr (config s), tm_recipient = who, tm_amount = reward \<rparr>])))))))"

section \<open>Distribution\<close>

record dist_loop =
  dl_index :: nat
  dl_total :: nat
  dl_day :: nat  \<comment> \<open>\<open>day_start_time\<close>\<close>
  dl_last_date :: nat  \<comment> \<open>\<open>config.last_syne_power_date\<close>\<close>
  dl_latest_date :: nat  \<comment> \<open>\<open>config.latest_syne_power_date\<close>\<close>
  dl_dates :: "(nat, syne_power_index) kv"

fun total_power_at :: "staking_state \<Rightarrow> nat \<Rightarrow> nat list \<Rightarrow> nat \<Rightarrow> (std_error, nat) outcome" where
  "total_power_at s t [] acc = Ok acc"
| "total_power_at s t (d # ds) acc =
     and_then (query_total_balance s t d) (\<lambda>b.
     and_then (u128_add acc b) (\<lambda>acc'. total_power_at s t ds acc'))"

text \<open>The pool index and the promised total after one day's reward.\<close>

definition distribute_day :: "staking_state \<Rightarrow> nat \<Rightarrow> dist_loop \<Rightarrow> (std_error, nat \<times> nat) outcome" where
  "distribute_day s lopo l =
     (if lopo \<noteq> 0 then
        and_then (u128_multiply_ratio reward_calc_unit (distribution_reward s) lopo) (\<lambda>inc.
        and_then (u128_add (dl_index l) inc) (\<lambda>idx.
        and_then (u128_add (dl_total l) (distribution_reward s)) (\<lambda>tot. Ok (idx, tot))))
      else Ok (dl_index l, dl_total l))"

text \<open>Closing the running power date (\<open>old\<close> is the index before the day) and moving to the next.\<close>

definition close_date :: "staking_config \<Rightarrow> nat \<Rightarrow> dist_loop \<Rightarrow> (std_error, dist_loop) outcome" where
  "close_date c old l =
     and_then (u64_add (dl_day l) (wait_time c)) (\<lambda>day_end.
     and_then (u64_add (dl_last_date l) (day_factor c)) (\<lambda>date_end.
     Ok (if day_end \<ge> date_end then
           l\<lparr> dl_dates := (case kv_get (dl_dates l) (dl_last_date l) of
                             Some i \<Rightarrow> kv_set (dl_dates l) (dl_last_date l) (i\<lparr> last_reward_index := old \<rparr>)
                           | None \<Rightarrow> dl_dates l),
              dl_last_date := date_end \<rparr>
         else l)))"

definition dist_step ::
  "staking_state \<Rightarrow> nat \<Rightarrow> nat \<Rightarrow> dist_loop \<Rightarrow> (std_error, dist_loop) outcome"
where
  "dist_step s now previous_days l =
     (let c = config s in
      and_then (total_power_at s (dl_day l) (duration_values c) 0) (\<lambda>lopo.
      if distribution_reward s \<noteq> 0 then
        and_then (u128_sub (reward_in_contract s) (dl_total l)) (\<lambda>free.
        if distribution_reward s \<le> free then
          and_then (distribute_day s lopo l) (\<lambda>(idx, tot).
          and_then (close_date c (dl_index l) (l\<lparr> dl_index := idx, dl_total := tot \<rparr>)) (\<lambda>l1.
          and_then (u64_add (dl_day l1) (wait_time c)) (\<lambda>day'.
          let i = (case kv_get (dl_dates l1) (dl_last_date l1) of
                     Some i \<Rightarrow> i
                   | None \<Rightarrow> \<lparr> first_reward_index = idx, last_reward_index = 0 \<rparr>);
              l2 = l1\<lparr> dl_day := day', dl_dates := kv_set (dl_dates l1) (dl_last_date l1) i \<rparr> in
          and_then (u64_add (dl_latest_date l2) (day_factor c)) (\<lambda>next.
          if next \<le> now then
            and_then (u64_mul (day_factor c) previous_days) (\<lambda>d.
            and_then (u64_add (dl_latest_date l2) d) (\<lambda>latest. Ok (l2\<lparr> dl_latest_date := latest \<rparr>)))
          else Ok l2))))
        else Err (Generic_err ''insufficient funds''))
      else Ok l))"

fun dist_days ::
  "staking_state \<Rightarrow> nat \<Rightarrow> nat \<Rightarrow> nat \<Rightarrow> dist_loop \<Rightarrow> (std_error, dist_loop) outcome"
where
  "dist_days s now previous_days 0 l = Ok l"
| "dist_days s now previous_days (Suc n) l =
     and_then (dist_step s now previous_days l) (\<lambda>l'. dist_days s now previous_days n l')"

definition execute_distribute :: "staking_state \<Rightarrow> env \<Rightarrow> (std_error, staking_state) outcome" where
  "execute_distribute s e =
     (let c = config s; now = seconds (block e) in
      and_then (u64_sub now (last_distributed c)) (\<lambda>elapsed.
      and_then (u64_div elapsed (wait_time c)) (\<lambda>days.
      and_then (u64_mul (wait_time c) days) (\<lambda>secs.
      and_then (u64_add (last_distributed c) secs) (\<lambda>last'.
      if days = 0 then Err (Generic_err ''please wait patiently for the specified time'')
      else
      and_then (u64_sub now (latest_syne_power_date c)) (\<lambda>since.
      and_then (u64_div since (day_factor c)) (\<lambda>previous_days.
      and_then (dist_days s now previous_days days
                 \<lparr> dl_index = pool_index s, dl_total = total_reward s, dl_day = last_distributed c,
                    dl_last_date = last_syne_power_date c, dl_latest_date = latest_syne_power_date c,
                    dl_dates = power_dates s \<rparr>) (\<lambda>l.
      Ok (s\<lparr> pool_index := dl_index l, total_reward := dl_total l, power_dates := dl_dates l,
            config := c\<lparr> last_distributed := last', last_syne_power_date := dl_last_date l,
                         latest_syne_power_date := dl_latest_date l \<rparr> \<rparr>)))))))))"

section \<open>The entry point\<close>

datatype cw20_hook_msg = Hook_stake nat | Hook_deposit

text \<open>
  \<open>Receive\<close> carries the sender and the amount of \<open>Cw20ReceiveMsg\<close> and the result of decoding
  its payload.
\<close>

datatype staking_msg =
    Stk_update_config string
  | Stk_update_second_owner string
  | Stk_update_token_info string string
  | Stk_update_community_addr string
  | Stk_update_freeze_flag bool
  | Stk_update_freeze_lock_time nat
  | Stk_update_lock_time_frame nat
  | Stk_update_wait_time nat
  | Stk_update_reward nat
  | Stk_update_restake_reset_flag bool
  | Stk_distribute
  | Stk_receive addr nat "(std_error, cw20_hook_msg) outcome"
  | Stk_claim nat
  | Stk_restake nat
  | Stk_unstake_and_claim nat
  | Stk_update_syne_power_constant nat
  | Stk_update_day_factor nat
  | Stk_add_new_duration nat
  | Stk_deposit_in_vault nat

definition receive_cw20 ::
  "platform \<Rightarrow> staking_state \<Rightarrow> env \<Rightarrow> message_info \<Rightarrow> addr \<Rightarrow> nat \<Rightarrow> (std_error, cw20_hook_msg) outcome
     \<Rightarrow> (std_error, staking_state) outcome"
where
  "receive_cw20 P s e info from amount payload =
     and_then payload (\<lambda>hook.
     case hook of
       Hook_stake duration \<Rightarrow>
         if token_addr (config s) \<noteq> sender info then Err unauthorized
         else execute_stake P s e from amount duration
     | Hook_deposit \<Rightarrow>
         if token_addr (config s) \<noteq> sender info then Err unauthorized
         else execute_deposit s amount)"

definition no_transfers ::
  "(std_error, staking_state) outcome \<Rightarrow> (std_error, staking_state \<times> transfer_msg list) outcome"
where
  "no_transfers r = and_then r (\<lambda>s. Ok (s, []))"

fun staking_execute ::
  "platform \<Rightarrow> staking_state \<Rightarrow> env \<Rightarrow> message_info \<Rightarrow> staking_msg
     \<Rightarrow> (std_error, staking_state \<times> transfer_msg list) outcome"
where
  "staking_execute P s e info (Stk_update_config o') = no_transfers (execute_update_config P s info o')"
| "staking_execute P s e info (Stk_update_second_owner o') =
     no_transfers (execute_update_second_owner P s info o')"
| "staking_execute P s e info (Stk_update_token_info n sy) =
     no_transfers (staking_update_token_info s info n sy)"
| "staking_execute P s e info (Stk_update_community_addr a) =
     no_transfers (execute_update_community_addr P s info a)"
| "staking_execute P s e info (Stk_update_freeze_flag b) = no_transfers (execute_update_freeze_flag s e info b)"
| "staking_execute P s e info (Stk_update_freeze_lock_time n) =
     no_transfers (execute_update_freeze_lock_time s info n)"
| "staking_execute P s e info (Stk_update_lock_time_frame n) =
     no_transfers (execute_update_lock_time_frame s info n)"
| "staking_execute P s e info (Stk_update_wait_time n) =
     no_transfers (execute_update_wait_time_for_distributions s info n)"
| "staking_execute P s e info (Stk_update_reward n) = no_transfers (execute_update_reward s info n)"
| "staking_execute P s e info (Stk_update_restake_reset_flag b) =
     no_transfers (execute_update_restake_reset_flag s info b)"
| "staking_execute P s e info Stk_distribute = no_transfers (execute_distribute s e)"
| "staking_execute P s e info (Stk_receive from n payload) =
     no_transfers (receive_cw20 P s e info from n payload)"
| "staking_execute P s e info (Stk_claim d) = execute_claim P s e (sender info) d"
| "staking_execute P s e info (Stk_restake d) = no_transfers (execute_restake P s e (sender info) d)"
| "staking_execute P s e info (Stk_unstake_and_claim d) = execute_unstake P s e (sender info) d"
| "staking_execute P s e info (Stk_update_syne_power_constant n) =
     no_transfers (execute_update_syne_power_constant s info n)"
| "staking_execute P s e info (Stk_update_day_factor n) =
     no_transfers (execute_update_day_factor_in_seconds s info n)"
| "staking_execute P s e info (Stk_add_new_duration d) = no_transfers (execute_add_new_duration s info d)"
| "staking_execute P s e info (Stk_deposit_in_vault n) = execute_deposit_in_vault_address s e info n"

section \<open>Queries\<close>

definition query_total_staked_by_duration :: "staking_state \<Rightarrow> nat \<Rightarrow> (std_error, nat) outcome" where
  "query_total_staked_by_duration s d = ok_or (Not_found ''Uint128'') (kv_get (total_staked s) d)"

definition query_total_reward :: "staking_state \<Rightarrow> (std_error, nat) outcome" where
  "query_total_reward s = Ok (total_reward s)"

definition query_total_reward_in_contract :: "staking_state \<Rightarrow> (std_error, nat) outcome" where
  "query_total_reward_in_contract s = Ok (reward_in_contract s)"

definition query_staked_by_user ::
  "platform \<Rightarrow> staking_state \<Rightarrow> string \<Rightarrow> nat \<Rightarrow> (std_error, nat) outcome"
where
  "query_staked_by_user P s wallet duration =
     and_then (addr_validate P wallet) (\<lambda>a.
     u128_multiply_ratio (actual_balance (position_of s a duration)) 1 duration)"

definition query_total_daily_reward :: "staking_state \<Rightarrow> (std_error, nat) outcome" where
  "query_total_daily_reward s = Ok (distribution_reward s)"

definition query_user_staked_time ::
  "platform \<Rightarrow> staking_state \<Rightarrow> string \<Rightarrow> nat \<Rightarrow> (std_error, nat) outcome"
where
  "query_user_staked_time P s wallet duration =
     and_then (addr_validate P wallet) (\<lambda>a.
     case kv_get (positions s) (a, duration) of Some u \<Rightarrow> Ok (mint_time u) | None \<Rightarrow> Ok 0)"

definition query_community_addr :: "staking_state \<Rightarrow> (std_error, addr) outcome" where
  "query_community_addr s = (case community_addr (config s) of Some a \<Rightarrow> Ok a | None \<Rightarrow> Panic)"

definition query_freeze_lock_time :: "staking_state \<Rightarrow> (std_error, nat) outcome" where
  "query_freeze_lock_time s = Ok (freeze_lock_time (config s))"

definition query_lock_time_frame :: "staking_state \<Rightarrow> (std_error, nat) outcome" where
  "query_lock_time_frame s = Ok (lock_time_frame (config s))"

definition query_distribution_wait_time :: "staking_state \<Rightarrow> (std_error, nat) outcome" where
  "query_distribution_wait_time s = Ok (wait_time (config s))"

definition query_last_distribution_time :: "staking_state \<Rightarrow> (std_error, nat) outcome" where
  "query_last_distribution_time s = Ok (last_distributed (config s))"

definition staking_query_config :: "staking_state \<Rightarrow> (std_error, staking_config) outcome" where
  "staking_query_config s = Ok (config s)"

end
