(* ===== verification/Staking_Proofs.thy ===== *)
theory Staking_Proofs
  imports Staking_Contract
begin

text \<open>
  Correctness of the staking contract: the books balance (promised rewards are funded, staked
  totals are the sums of the principals, every message conserves the tokens the contract
  owes), the lock and the maintenance window hold, rewards are paid once, and the voting power
  of a position decays to zero.
\<close>

named_theorems staking_ok \<open>when an operation of the staking contract succeeds, and what it leaves\<close>

section \<open>What each operation does\<close>

lemma self_query_Ok [staking_ok]: "self_query r = Ok x \<longleftrightarrow> r = Ok x"
  by (cases r) (auto simp: self_query_def)

lemma no_transfers_Ok [staking_ok]: "no_transfers r = Ok (s, ts) \<longleftrightarrow> r = Ok s \<and> ts = []"
  by (auto simp: no_transfers_def outcome_simps)

lemma assert_owner_Ok [staking_ok]: "assert_owner c a = Ok u \<longleftrightarrow> a = owner_addr c"
  by (simp add: assert_owner_def)

interpretation staking_adm: access_control assert_owner "\<lambda>c. Some (owner_addr c)"
  by unfold_locales (auto simp: assert_owner_def)

lemma staked_add_Ok [staking_ok]:
  "staked_add s d n = Ok m \<Longrightarrow> m = kv_set (total_staked s) d (kv_nat (total_staked s) d + n)"
  by (auto simp: staked_add_def outcome_simps arith_simps kv_nat_def split: option.splits)

lemma query_user_reward_position:
  assumes "query_user_reward P s w d = Ok r"
  obtains a u where "addr_validate P w = Ok a" "kv_get (positions s) (a, d) = Some u"
  using assms by (auto simp: query_user_reward_def Let_def outcome_simps)

lemma staking_mint_cases:
  assumes "staking_mint P s e r n d = Ok s'"
  obtains rcpt ti tb pb u where "0 < n" "addr_validate P r = Ok rcpt"
    "actual_balance u = n * d + actual_balance (position_of s rcpt d)" "user_balance u = actual_balance u"
    "mint_time u = seconds (block e)" "last_claimed_time u = seconds (block e)"
    "s' = s\<lparr> power_token := ti, total_balances := tb, power_balances := pb,
            positions := kv_set (positions s) (rcpt, d) u \<rparr>"
proof -
  let ?u = "\<lambda>rcpt. \<lparr> user_balance = n * d + actual_balance (position_of s rcpt d),
      actual_balance = n * d + actual_balance (position_of s rcpt d),
      mint_time = seconds (block e), last_claimed_time = seconds (block e) \<rparr>"
  from assms obtain rcpt ti tb pb where "n \<noteq> 0" "addr_validate P r = Ok rcpt"
    "s' = s\<lparr> power_token := ti, total_balances := tb, power_balances := pb,
            positions := kv_set (positions s) (rcpt, d) (?u rcpt) \<rparr>"
    by (auto simp: staking_mint_def Let_def outcome_simps arith_simps position_of_def split: if_splits)
  then show ?thesis by (intro that [of rcpt "?u rcpt"]) simp_all
qed

lemma stake_cases:
  assumes "execute_stake P s e a n d = Ok s'" and "platform_exact P"
  obtains u ri date ti tb pb where "0 < n" "0 < d" "d \<in> set (duration_values (config s))"
    "actual_balance u = n * d + actual_balance (position_of s a d)" "user_balance u = actual_balance u"
    "mint_time u = seconds (block e)" "last_claimed_time u = seconds (block e)"
    "s' = s\<lparr> total_staked := kv_set (total_staked s) d (kv_nat (total_staked s) d + n),
       reward_infos := ri, config := (config s)\<lparr> latest_syne_power_date := date \<rparr>,
       power_token := ti, total_balances := tb, power_balances := pb,
       positions := kv_set (positions s) (a, d) u \<rparr>"
proof -
  from assms(1) obtain date pr staked ri where d: "d \<in> set (duration_values (config s))"
    and pr: "u128_multiply_ratio (actual_balance (position_of s a d)) 1 d = (Ok pr :: (std_error, nat) outcome)"
    and st: "staked_add s d n = Ok staked"
    and m: "staking_mint P (s\<lparr> total_staked := staked, reward_infos := ri,
          config := (config s)\<lparr> latest_syne_power_date := date \<rparr> \<rparr>) e a n d = Ok s'"
    by (auto simp: execute_stake_def outcome_simps split: if_splits)
  from m show ?thesis
  proof (rule staking_mint_cases)
    fix rcpt ti tb pb u
    assume "0 < n" "addr_validate P a = Ok rcpt"
      "actual_balance u = n * d + actual_balance (position_of (s\<lparr> total_staked := staked, reward_infos := ri,
          config := (config s)\<lparr> latest_syne_power_date := date \<rparr> \<rparr>) rcpt d)" "user_balance u = actual_balance u"
      "mint_time u = seconds (block e)" "last_claimed_time u = seconds (block e)"
      "s' = s\<lparr> total_staked := staked, reward_infos := ri, config := (config s)\<lparr> latest_syne_power_date := date \<rparr>,
            power_token := ti, total_balances := tb, power_balances := pb,
            positions := kv_set (positions (s\<lparr> total_staked := staked, reward_infos := ri,
          config := (config s)\<lparr> latest_syne_power_date := date \<rparr> \<rparr>)) (rcpt, d) u \<rparr>"
    moreover from this(2) assms(2) have "rcpt = a" by (simp add: platform_exactD)
    ultimately show ?thesis
      using d pr staked_add_Ok [OF st] by (intro that [where u = u and ri = ri and date = date and ti = ti and tb = tb and pb = pb]) (auto simp: arith_simps position_of_def)
  qed
qed

lemma restake_cases:
  assumes "execute_restake P s e a d = Ok s'" and "platform_exact P"
  obtains u n resp old ri ti tb pb where "0 < n"
    "query_user_reward P s a d = Ok resp" "n = user_reward resp + pending_reward (reward_info_of s a d)"
    "kv_get (positions s) (a, d) = Some old" "n \<le> total_reward s" "n \<le> reward_in_contract s"
    "actual_balance u = n * d + actual_balance (position_of s a d)" "user_balance u = actual_balance u"
    "mint_time u = seconds (block e)" "last_claimed_time u = seconds (block e)"
    "s' = s\<lparr> total_reward := total_reward s - n, reward_in_contract := reward_in_contract s - n,
       total_staked := kv_set (total_staked s) d (kv_nat (total_staked s) d + n),
       reward_infos := ri,
       power_token := ti, total_balances := tb, power_balances := pb,
       positions := kv_set (positions s) (a, d) u \<rparr>"
proof -
  from assms(1) obtain resp n staked ri where q: "query_user_reward P s a d = Ok resp"
    and n: "n = user_reward resp + pending_reward (reward_info_of s a d)"
    and le: "n \<le> total_reward s" "n \<le> reward_in_contract s"
    and st: "staked_add s d n = Ok staked"
    and m: "staking_mint P (s\<lparr> total_reward := total_reward s - n, reward_in_contract := reward_in_contract s - n,
          total_staked := staked, reward_infos := ri \<rparr>) e a n d = Ok s'"
    by (auto simp: execute_restake_def outcome_simps arith_simps staking_ok split: if_splits)
  from q assms(2) obtain old where old: "kv_get (positions s) (a, d) = Some old"
    by (metis query_user_reward_position platform_exactD)
  from m show ?thesis
  proof (rule staking_mint_cases)
    fix rcpt ti tb pb u
    assume "0 < n" "addr_validate P a = Ok rcpt"
      "actual_balance u = n * d + actual_balance (position_of (s\<lparr> total_reward := total_reward s - n,
          reward_in_contract := reward_in_contract s - n,
          total_staked := staked, reward_infos := ri \<rparr>) rcpt d)" "user_balance u = actual_balance u"
      "mint_time u = seconds (block e)" "last_claimed_time u = seconds (block e)"
      "s' = s\<lparr> total_reward := total_reward s - n, reward_in_contract := reward_in_contract s - n,
            total_staked := staked, reward_infos := ri,
            power_token := ti, total_balances := tb, power_balances := pb,
            positions := kv_set (positions (s\<lparr> total_reward := total_reward s - n,
          reward_in_contract := reward_in_contract s - n,
          total_staked := staked, reward_infos := ri \<rparr>)) (rcpt, d) u \<rparr>"
    moreover from this(2) assms(2) have "rcpt = a" by (simp add: platform_exactD)
    ultimately show ?thesis
      using q n old le staked_add_Ok [OF st] by (intro that [where n = n and resp = resp and old = old and u = u and ri = ri and ti = ti and tb = tb and pb = pb]) (auto simp: position_of_def)
  qed
qed

lemma check_freeze_Ok:
  "check_freeze c e = Ok u \<Longrightarrow> \<not> (freeze c \<and> seconds (block e) < freeze_start_time c + freeze_lock_time c)"
  by (auto simp: check_freeze_def outcome_simps arith_simps split: if_splits)

lemma unstake_cases:
  assumes "execute_unstake P s e a d = Ok (s', ts)"
  obtains u resp n staked where "kv_get (positions s) (a, d) = Some u"
    "\<not> (freeze (config s) \<and> seconds (block e) < freeze_start_time (config s) + freeze_lock_time (config s))"
    "mint_time u + lock_time_frame (config s) * d \<le> seconds (block e)"
    "query_user_reward P s a d = Ok resp" "n = pending_reward (reward_info_of s a d) + user_reward resp"
    "n \<le> total_reward s" "n \<le> reward_in_contract s"
    "case kv_get (total_staked s) d of Some t \<Rightarrow> actual_balance u div d \<le> t \<and> staked = t - actual_balance u div d
       | None \<Rightarrow> staked = 0"
    "s' = s\<lparr> total_reward := total_reward s - n, reward_in_contract := reward_in_contract s - n,
       reward_infos := kv_del (reward_infos s) (a, d), total_staked := kv_set (total_staked s) d staked,
       positions := kv_del (positions s) (a, d) \<rparr>"
    "ts = \<lparr> tm_target = token_addr (config s), tm_recipient = a, tm_amount = actual_balance u div d \<rparr> #
       (if n = 0 then [] else [\<lparr> tm_target = token_addr (config s), tm_recipient = a, tm_amount = n \<rparr>])"
proof -
  from assms obtain u resp staked where 1: "kv_get (positions s) (a, d) = Some u"
    "check_freeze (config s) e = Ok ()" "mint_time u \<le> seconds (block e)"
    "\<not> seconds (block e) - mint_time u < lock_time_frame (config s) * d"
    "query_user_reward P s a d = Ok resp"
    "pending_reward (reward_info_of s a d) + user_reward resp \<le> total_reward s"
    "pending_reward (reward_info_of s a d) + user_reward resp \<le> reward_in_contract s"
    "(case kv_get (total_staked s) d of Some t \<Rightarrow> u128_sub t (actual_balance u div d) | None \<Rightarrow> Ok 0)
       = (Ok staked :: (std_error, nat) outcome)"
    "s' = s\<lparr> total_reward := total_reward s - (pending_reward (reward_info_of s a d) + user_reward resp),
       reward_in_contract := reward_in_contract s - (pending_reward (reward_info_of s a d) + user_reward resp),
       reward_infos := kv_del (reward_infos s) (a, d), total_staked := kv_set (total_staked s) d staked,
       positions := kv_del (positions s) (a, d) \<rparr>"
    "ts = \<lparr> tm_target = token_addr (config s), tm_recipient = a, tm_amount = actual_balance u div d \<rparr> #
       (if pending_reward (reward_info_of s a d) + user_reward resp = 0 then []
        else [\<lparr> tm_target = token_addr (config s), tm_recipient = a,
           tm_amount = pending_reward (reward_info_of s a d) + user_reward resp \<rparr>])"
    by (auto simp: execute_unstake_def outcome_simps arith_simps staking_ok)
  from 1(8) have "case kv_get (total_staked s) d of
      Some t \<Rightarrow> actual_balance u div d \<le> t \<and> staked = t - actual_balance u div d | None \<Rightarrow> staked = 0"
    by (auto simp: arith_simps split: option.splits)
  with 1 check_freeze_Ok [OF 1(2)] show ?thesis
    by (intro that [OF 1(1) _ _ 1(5) refl 1(6,7) _ 1(9,10)]) simp_all
qed

lemma claim_cases:
  assumes "execute_claim P s e a d = Ok (s', ts)"
  obtains u resp n where "kv_get (positions s) (a, d) = Some u"
    "\<not> (freeze (config s) \<and> seconds (block e) < freeze_start_time (config s) + freeze_lock_time (config s))"
    "query_user_reward P s a d = Ok resp" "n = user_reward resp + pending_reward (reward_info_of s a d)"
    "n \<le> total_reward s" "n \<le> reward_in_contract s"
    "s' = s\<lparr> total_reward := total_reward s - n, reward_in_contract := reward_in_contract s - n,
       reward_infos := kv_set (reward_infos s) (a, d) \<lparr> reward_index = pool_index s, pending_reward = 0 \<rparr>,
       positions := kv_set (positions s) (a, d) (u\<lparr> last_claimed_time := seconds (block e) \<rparr>) \<rparr>"
    "ts = [\<lparr> tm_target = token_addr (config s), tm_recipient = a, tm_amount = n \<rparr>]"
proof -
  from assms obtain u resp where 1: "kv_get (positions s) (a, d) = Some u"
    "check_freeze (config s) e = Ok ()" "query_user_reward P s a d = Ok resp"
    "user_reward resp + pending_reward (reward_info_of s a d) \<le> total_reward s"
    "user_reward resp + pending_reward (reward_info_of s a d) \<le> reward_in_contract s"
    "s' = s\<lparr> total_reward := total_reward s - (user_reward resp + pending_reward (reward_info_of s a d)),
       reward_in_contract := reward_in_contract s - (user_reward resp + pending_reward (reward_info_of s a d)),
       reward_infos := kv_set (reward_infos s) (a, d) \<lparr> reward_index = pool_index s, pending_reward = 0 \<rparr>,
       positions := kv_set (positions s) (a, d) (u\<lparr> last_claimed_time := seconds (block e) \<rparr>) \<rparr>"
    "ts = [\<lparr> tm_target = token_addr (config s), tm_recipient = a,
       tm_amount = user_reward resp + pending_reward (reward_info_of s a d) \<rparr>]"
    by (auto simp: execute_claim_def outcome_simps arith_simps staking_ok)
  show ?thesis
    by (rule that [OF 1(1) check_freeze_Ok [OF 1(2)] 1(3) refl 1(4-7)])
qed

section \<open>Distribution\<close>

lemma distribute_day_Ok:
  assumes "distribute_day s p l = Ok (idx, tot)" and "dl_total l + distribution_reward s \<le> m"
  shows "dl_index l \<le> idx \<and> dl_total l \<le> tot \<and> tot \<le> dl_total l + distribution_reward s \<and> tot \<le> m"
  using assms by (auto simp: distribute_day_def outcome_simps arith_simps split: if_splits)

lemma close_date_frame:
  assumes "close_date c old l = Ok l'"
  shows "dl_index l' = dl_index l" "dl_total l' = dl_total l"
  using assms by (auto simp: close_date_def outcome_simps arith_simps)

lemma dist_step_Ok:
  assumes "dist_step s now pd l = Ok l'" and "dl_total l \<le> reward_in_contract s"
  shows "dl_index l \<le> dl_index l' \<and> dl_total l \<le> dl_total l'
    \<and> dl_total l' \<le> dl_total l + distribution_reward s \<and> dl_total l' \<le> reward_in_contract s"
proof (cases "distribution_reward s = 0")
  case True
  with assms show ?thesis by (auto simp: dist_step_def Let_def outcome_simps)
next
  case False
  with assms(1) have "\<exists>p idx tot l1. dl_total l + distribution_reward s \<le> reward_in_contract s
    \<and> distribute_day s p l = Ok (idx, tot)
    \<and> close_date (config s) (dl_index l) (l\<lparr> dl_index := idx, dl_total := tot \<rparr>) = Ok l1
    \<and> dl_index l' = dl_index l1 \<and> dl_total l' = dl_total l1"
    by (fastforce simp: dist_step_def Let_def outcome_simps arith_simps split: prod.splits if_splits)
  then show ?thesis using distribute_day_Ok close_date_frame by fastforce
qed

lemma dist_days_Ok:
  assumes "dist_days s now pd n l = Ok l'" and "dl_total l \<le> reward_in_contract s"
  shows "dl_index l \<le> dl_index l' \<and> dl_total l \<le> dl_total l'
    \<and> dl_total l' \<le> dl_total l + n * distribution_reward s \<and> dl_total l' \<le> reward_in_contract s"
  using assms
proof (induction n arbitrary: l)
  case (Suc n)
  from Suc.prems(1) obtain l1 where step: "dist_step s now pd l = Ok l1"
    and rest: "dist_days s now pd n l1 = Ok l'"
    by (auto simp: outcome_simps)
  from dist_step_Ok [OF step Suc.prems(2)] Suc.IH [OF rest] show ?case by auto
qed simp

lemma distribute_cases:
  assumes "execute_distribute s e = Ok s'" and "total_reward s \<le> reward_in_contract s"
  obtains days idx tot dates last_date latest where
    "days = (seconds (block e) - last_distributed (config s)) div wait_time (config s)" "0 < days"
    "last_distributed (config s) \<le> seconds (block e)"
    "pool_index s \<le> idx" "total_reward s \<le> tot" "tot \<le> total_reward s + days * distribution_reward s"
    "tot \<le> reward_in_contract s"
    "s' = s\<lparr> pool_index := idx, total_reward := tot, power_dates := dates,
       config := (config s)\<lparr> last_distributed := last_distributed (config s) + wait_time (config s) * days,
         last_syne_power_date := last_date, latest_syne_power_date := latest \<rparr> \<rparr>"
proof -
  let ?days = "(seconds (block e) - last_distributed (config s)) div wait_time (config s)"
  from assms(1) obtain pd l where 1: "last_distributed (config s) \<le> seconds (block e)" "?days \<noteq> 0"
    and run: "dist_days s (seconds (block e)) pd ?days
      \<lparr> dl_index = pool_index s, dl_total = total_reward s, dl_day = last_distributed (config s),
         dl_last_date = last_syne_power_date (config s), dl_latest_date = latest_syne_power_date (config s),
         dl_dates = power_dates s \<rparr> = Ok l"
    and s': "s' = s\<lparr> pool_index := dl_index l, total_reward := dl_total l, power_dates := dl_dates l,
       config := (config s)\<lparr> last_distributed := last_distributed (config s) + wait_time (config s) * ?days,
         last_syne_power_date := dl_last_date l, latest_syne_power_date := dl_latest_date l \<rparr> \<rparr>"
    by (auto simp: execute_distribute_def Let_def outcome_simps arith_simps)
  from dist_days_Ok [OF run] assms(2) 1 show ?thesis
    by (intro that [OF refl _ _ _ _ _ _ s']) simp_all
qed

section \<open>The books\<close>

text \<open>
  The principal of a position, the invariant between the staked totals and the positions, and
  the tokens the contract owes: all principals and all rewards deposited and not yet paid.
\<close>

definition principal_at :: "nat \<Rightarrow> addr \<times> nat \<Rightarrow> user_info \<Rightarrow> nat" where
  "principal_at d k u = (if snd k = d then actual_balance u div d else 0)"

definition position_ok :: "nat \<Rightarrow> user_info \<Rightarrow> bool" where
  "position_ok d u \<longleftrightarrow> 0 < d \<and> d dvd actual_balance u \<and> user_balance u = actual_balance u"

definition books_ok :: "staking_state \<Rightarrow> bool" where
  "books_ok s \<longleftrightarrow> kv_ok (positions s) \<and> kv_ok (total_staked s)
     \<and> total_reward s \<le> reward_in_contract s
     \<and> (\<forall>a d u. kv_get (positions s) (a, d) = Some u \<longrightarrow> position_ok d u)
     \<and> (\<forall>d. kv_nat (total_staked s) d = kv_sum (principal_at d) (positions s))"

definition owed :: "staking_state \<Rightarrow> nat" where
  "owed s = kv_total (total_staked s) + reward_in_contract s"

lemma books_frame:
  "positions s' = positions s \<Longrightarrow> total_staked s' = total_staked s \<Longrightarrow> total_reward s' = total_reward s \<Longrightarrow>
   reward_in_contract s' = reward_in_contract s \<Longrightarrow> books_ok s' = books_ok s \<and> owed s' = owed s"
  by (simp add: books_ok_def owed_def)

text \<open>Adding \<open>n\<close> tokens to a position adds \<open>n\<close> to the principals of its duration only.\<close>

lemma add_principal:
  assumes ok: "books_ok s" and d: "0 < d"
    and u: "actual_balance u = n * d + actual_balance (position_of s a d)"
  shows "kv_sum (principal_at d') (kv_set (positions s) (a, d) u)
    = kv_sum (principal_at d') (positions s) + (if d' = d then n else 0)"
proof -
  have pos: "kv_ok (positions s)" using ok by (simp add: books_ok_def)
  have "kv_at (principal_at d') (positions s) (a, d)
      = (if d' = d then actual_balance (position_of s a d) div d else 0)"
    by (simp add: kv_at_def principal_at_def position_of_def no_user_info_def split: option.split)
  moreover have "principal_at d' (a, d) u
      = (if d' = d then n + actual_balance (position_of s a d) div d else 0)"
    using d u by (simp add: principal_at_def)
  ultimately show ?thesis
    using kv_sum_set [OF pos, of "principal_at d'" "(a, d)" u] by (simp split: if_splits)
qed

lemma position_ok_add:
  assumes "books_ok s" and "0 < d" and "actual_balance u = n * d + actual_balance (position_of s a d)"
    and "user_balance u = actual_balance u"
  shows "position_ok d u"
proof -
  have "d dvd actual_balance (position_of s a d)"
    using assms(1) by (auto simp: books_ok_def position_ok_def position_of_def no_user_info_def split: option.split)
  with assms show ?thesis by (simp add: position_ok_def)
qed

lemma grow_position:
  assumes ok: "books_ok s" and d: "0 < d"
    and u: "actual_balance u = n * d + actual_balance (position_of s a d)" "user_balance u = actual_balance u"
    and r: "tr \<le> rc"
    and s': "positions s' = kv_set (positions s) (a, d) u" "total_reward s' = tr" "reward_in_contract s' = rc"
      "total_staked s' = kv_set (total_staked s) d (kv_nat (total_staked s) d + n)"
  shows "books_ok s' \<and> kv_total (total_staked s') = kv_total (total_staked s) + n"
proof -
  from ok have ts: "kv_ok (total_staked s)" "\<And>d'. kv_nat (total_staked s) d' = kv_sum (principal_at d') (positions s)"
    by (simp_all add: books_ok_def)
  have "kv_nat (total_staked s') d' = kv_sum (principal_at d') (positions s')" for d'
    using add_principal [OF ok d u(1), of d'] ts(2) s' by simp
  with ok r s' position_ok_add [OF ok d u] have "books_ok s'"
    by (auto simp: books_ok_def)
  moreover have "kv_total (total_staked s') = kv_total (total_staked s) + n"
    using kvl.credit_total [OF ts(1), of d n] s' by simp
  ultimately show ?thesis by simp
qed

text \<open>Token movements of one message: what the token contract sends, what it is asked to send.\<close>

definition tokens_in :: "staking_state \<Rightarrow> message_info \<Rightarrow> staking_msg \<Rightarrow> nat" where
  "tokens_in s info msg = (case msg of Stk_receive giver n payload \<Rightarrow> n | _ \<Rightarrow> 0)"

definition tokens_out :: "staking_state \<Rightarrow> transfer_msg list \<Rightarrow> nat" where
  "tokens_out s ts = sum_list (map tm_amount (filter (\<lambda>t. tm_target t = token_addr (config s)) ts))"

lemma unstake_books:
  assumes run: "execute_unstake P s e a d = Ok (s', ts)" and ok: "books_ok s"
  shows "books_ok s' \<and> owed s' + tokens_out s ts = owed s"
  using run
proof (rule unstake_cases)
  fix u resp n staked
  assume u: "kv_get (positions s) (a, d) = Some u"
    and n: "n \<le> total_reward s" "n \<le> reward_in_contract s"
    and st: "case kv_get (total_staked s) d of Some t \<Rightarrow> actual_balance u div d \<le> t \<and> staked = t - actual_balance u div d
       | None \<Rightarrow> staked = 0"
    and s': "s' = s\<lparr> total_reward := total_reward s - n, reward_in_contract := reward_in_contract s - n,
       reward_infos := kv_del (reward_infos s) (a, d), total_staked := kv_set (total_staked s) d staked,
       positions := kv_del (positions s) (a, d) \<rparr>"
    and ts: "ts = \<lparr> tm_target = token_addr (config s), tm_recipient = a, tm_amount = actual_balance u div d \<rparr> #
       (if n = 0 then [] else [\<lparr> tm_target = token_addr (config s), tm_recipient = a, tm_amount = n \<rparr>])"
  from ok have kv: "kv_ok (positions s)" "kv_ok (total_staked s)"
    and tot: "\<And>d'. kv_nat (total_staked s) d' = kv_sum (principal_at d') (positions s)"
    by (simp_all add: books_ok_def)
  let ?p = "actual_balance u div d"
  have at: "kv_at (principal_at d') (positions s) (a, d) = (if d' = d then ?p else 0)" for d'
    using u by (simp add: kv_at_def principal_at_def)
  have le: "?p \<le> kv_nat (total_staked s) d"
    using kv_at_le_sum [of "principal_at d" "positions s" "(a, d)"] at [of d] tot [of d] by simp
  have staked: "staked = kv_nat (total_staked s) d - ?p"
    using st le by (cases "kv_get (total_staked s) d") (simp_all add: kv_nat_def)
  have "kv_nat (total_staked s') d' = kv_sum (principal_at d') (positions s')" for d'
    using kv_sum_del [OF kv(1), of "principal_at d'" "(a, d)"] at [of d'] tot [of d'] s' staked
    by (cases "d' = d") simp_all
  with ok n s' have "books_ok s'" by (auto simp: books_ok_def)
  moreover have "kv_total (total_staked s') + ?p = kv_total (total_staked s)"
    using kvl.debit_total [OF kv(2) le] s' staked by simp
  ultimately show ?thesis
    using n s' ts by (auto simp: owed_def tokens_out_def)
qed

lemma claim_books:
  assumes run: "execute_claim P s e a d = Ok (s', ts)" and ok: "books_ok s"
  shows "books_ok s' \<and> owed s' + tokens_out s ts = owed s"
  using run
proof (rule claim_cases)
  fix u resp n
  assume u: "kv_get (positions s) (a, d) = Some u"
    and n: "n \<le> total_reward s" "n \<le> reward_in_contract s"
    and s': "s' = s\<lparr> total_reward := total_reward s - n, reward_in_contract := reward_in_contract s - n,
       reward_infos := kv_set (reward_infos s) (a, d) \<lparr> reward_index = pool_index s, pending_reward = 0 \<rparr>,
       positions := kv_set (positions s) (a, d) (u\<lparr> last_claimed_time := seconds (block e) \<rparr>) \<rparr>"
    and ts: "ts = [\<lparr> tm_target = token_addr (config s), tm_recipient = a, tm_amount = n \<rparr>]"
  from ok have kv: "kv_ok (positions s)" and good: "position_ok d u"
    using u by (auto simp: books_ok_def)
  have "kv_sum (principal_at d') (positions s') = kv_sum (principal_at d') (positions s)" for d'
    using kv_sum_set [OF kv, of "principal_at d'" "(a, d)" "u\<lparr> last_claimed_time := seconds (block e) \<rparr>"] u s'
    by (simp add: kv_at_def principal_at_def split: if_splits)
  moreover have "position_ok d (u\<lparr> last_claimed_time := seconds (block e) \<rparr>)"
    using good by (simp add: position_ok_def)
  ultimately have "books_ok s'" using ok n s' by (auto simp: books_ok_def)
  with n s' ts show ?thesis by (simp add: owed_def tokens_out_def)
qed

lemma restake_books:
  assumes run: "execute_restake P s e a d = Ok s'" and P: "platform_exact P" and ok: "books_ok s"
  shows "books_ok s' \<and> owed s' = owed s"
  using run P
proof (rule restake_cases)
  fix u n resp old ri ti tb pb
  assume old: "kv_get (positions s) (a, d) = Some old" and n: "n \<le> total_reward s" "n \<le> reward_in_contract s"
    and u: "actual_balance u = n * d + actual_balance (position_of s a d)" "user_balance u = actual_balance u"
    and s': "s' = s\<lparr> total_reward := total_reward s - n, reward_in_contract := reward_in_contract s - n,
       total_staked := kv_set (total_staked s) d (kv_nat (total_staked s) d + n), reward_infos := ri,
       power_token := ti, total_balances := tb, power_balances := pb,
       positions := kv_set (positions s) (a, d) u \<rparr>"
  have d: "0 < d" using ok old by (auto simp: books_ok_def position_ok_def)
  have "total_reward s - n \<le> reward_in_contract s - n" using ok by (simp add: books_ok_def diff_le_mono)
  from grow_position [OF ok d u this, of s'] s' n show ?thesis by (simp add: owed_def)
qed

lemma stake_books:
  assumes run: "execute_stake P s e a n d = Ok s'" and P: "platform_exact P" and ok: "books_ok s"
  shows "books_ok s' \<and> owed s' = owed s + n"
  using run P
proof (rule stake_cases)
  fix u ri date ti tb pb
  assume d: "0 < d"
    and u: "actual_balance u = n * d + actual_balance (position_of s a d)" "user_balance u = actual_balance u"
    and s': "s' = s\<lparr> total_staked := kv_set (total_staked s) d (kv_nat (total_staked s) d + n),
       reward_infos := ri, config := (config s)\<lparr> latest_syne_power_date := date \<rparr>,
       power_token := ti, total_balances := tb, power_balances := pb,
       positions := kv_set (positions s) (a, d) u \<rparr>"
  have "total_reward s \<le> reward_in_contract s" using ok by (simp add: books_ok_def)
  from grow_position [OF ok d u this, of s'] s' show ?thesis by (simp add: owed_def)
qed

section \<open>Every message\<close>

fun administrative :: "staking_msg \<Rightarrow> bool" where
  "administrative Stk_distribute = False"
| "administrative (Stk_receive giver n payload) = False"
| "administrative (Stk_claim d) = False"
| "administrative (Stk_restake d) = False"
| "administrative (Stk_unstake_and_claim d) = False"
| "administrative _ = True"

lemmas staking_admin_defs =
  execute_update_config_def execute_update_second_owner_def execute_update_community_addr_def
  execute_update_freeze_flag_def execute_update_syne_power_constant_def
  execute_update_freeze_lock_time_def execute_update_lock_time_frame_def execute_add_new_duration_def
  execute_update_wait_time_for_distributions_def execute_update_restake_reset_flag_def
  execute_update_day_factor_in_seconds_def execute_update_reward_def
  execute_deposit_in_vault_address_def staking_update_token_info_def

lemma admin_step:
  assumes "staking_execute P s e info msg = Ok (s', ts)" and "administrative msg"
  shows "positions s' = positions s \<and> total_staked s' = total_staked s \<and> total_reward s' = total_reward s
    \<and> reward_in_contract s' = reward_in_contract s \<and> pool_index s' = pool_index s
    \<and> token_addr (config s') = token_addr (config s)
    \<and> (ts = [] \<or> (\<exists>r n. ts = [\<lparr> tm_target = contract_address e, tm_recipient = r, tm_amount = n \<rparr>]))"
  using assms
  by (cases msg) (auto simp: staking_admin_defs outcome_simps staking_ok Let_def split: if_splits)

lemma admin_caller:
  assumes "staking_execute P s e info msg = Ok (s', ts)" and "administrative msg"
  shows "sender info = owner_addr (config s)
    \<or> (\<exists>n. msg = Stk_update_reward n \<and> second_owner (config s) = Some (sender info))"
  using assms
  by (cases msg)
    (auto simp: staking_admin_defs outcome_simps staking_ok Let_def split: if_splits option.splits)

lemma receive_cases:
  assumes "receive_cw20 P s e info giver n payload = Ok s'"
  obtains (stake) d where "payload = Ok (Hook_stake d)" "sender info = token_addr (config s)"
      "execute_stake P s e giver n d = Ok s'"
    | (deposit) "payload = Ok Hook_deposit" "sender info = token_addr (config s)"
      "s' = s\<lparr> reward_in_contract := reward_in_contract s + n \<rparr>"
proof -
  from assms obtain hook where h: "payload = Ok hook" by (auto simp: receive_cw20_def outcome_simps)
  show ?thesis
  proof (cases hook)
    case (Hook_stake d)
    with assms h show ?thesis by (intro stake [of d]) (auto simp: receive_cw20_def outcome_simps)
  next
    case Hook_deposit
    with assms h show ?thesis
      by (intro deposit) (auto simp: receive_cw20_def outcome_simps execute_deposit_def arith_simps)
  qed
qed

lemma distribute_books:
  assumes "execute_distribute s e = Ok s'" and "books_ok s"
  shows "books_ok s' \<and> owed s' = owed s"
proof -
  have "total_reward s \<le> reward_in_contract s" using assms(2) by (simp add: books_ok_def)
  from assms(1) this show ?thesis
    by (rule distribute_cases) (use assms(2) in \<open>auto simp: books_ok_def owed_def\<close>)
qed

lemma staking_step_books:
  assumes run: "staking_execute P s e info msg = Ok (s', ts)" and P: "platform_exact P" and ok: "books_ok s"
  shows "books_ok s' \<and> (contract_address e \<noteq> token_addr (config s) \<longrightarrow>
    owed s' + tokens_out s ts = owed s + tokens_in s info msg)"
proof (cases "administrative msg")
  case True
  from admin_step [OF run True] books_frame [of s' s] ok True show ?thesis
    by (cases msg) (auto simp: tokens_in_def tokens_out_def)
next
  case False
  then show ?thesis
  proof (cases msg)
    case Stk_distribute
    with run distribute_books [of s e s'] ok show ?thesis
      by (simp add: staking_ok tokens_in_def tokens_out_def)
  next
    case (Stk_receive giver n payload)
    with run have "receive_cw20 P s e info giver n payload = Ok s'" "ts = []" by (simp_all add: staking_ok)
    then show ?thesis
      by (cases rule: receive_cases)
        (use Stk_receive ok stake_books [OF _ P ok] in
          \<open>fastforce simp: tokens_in_def tokens_out_def books_ok_def owed_def\<close>)+
  next
    case (Stk_claim d)
    with run claim_books [OF _ ok] show ?thesis by (simp add: tokens_in_def)
  next
    case (Stk_restake d)
    with run have r: "execute_restake P s e (sender info) d = Ok s'" "ts = []" by (simp_all add: staking_ok)
    from restake_books [OF r(1) P ok] r(2) Stk_restake show ?thesis
      by (simp add: tokens_in_def tokens_out_def)
  next
    case (Stk_unstake_and_claim d)
    with run unstake_books [OF _ ok] show ?thesis by (simp add: tokens_in_def)
  qed simp_all
qed

text \<open>The states a deployed staking contract can reach.\<close>

inductive staking_reachable :: "platform \<Rightarrow> staking_state \<Rightarrow> bool" for P where
  staking_start: "staking_instantiate P e info msg = Ok s \<Longrightarrow> staking_reachable P s"
| staking_step: "staking_reachable P s \<Longrightarrow> staking_execute P s e info msg = Ok (s', ts) \<Longrightarrow>
    staking_reachable P s'"

lemma staking_instantiate_books: "staking_instantiate P e info msg = Ok s \<Longrightarrow> books_ok s"
  by (auto simp: staking_instantiate_def Let_def outcome_simps books_ok_def)

lemma staking_reachable_books: "staking_reachable P s \<Longrightarrow> platform_exact P \<Longrightarrow> books_ok s"
proof (induction rule: staking_reachable.induct)
  case (staking_start e info msg s)
  then show ?case by (blast intro: staking_instantiate_books)
next
  case (staking_step s e info msg s' ts)
  then show ?case using staking_step_books by blast
qed

lemma pool_index_grows:
  assumes run: "staking_execute P s e info msg = Ok (s', ts)" and P: "platform_exact P" and ok: "books_ok s"
  shows "pool_index s \<le> pool_index s'"
proof (cases "administrative msg")
  case True
  from admin_step [OF run True] show ?thesis by simp
next
  case False
  then show ?thesis
  proof (cases msg)
    case Stk_distribute
    with run have "execute_distribute s e = Ok s'" by (simp add: staking_ok)
    moreover have "total_reward s \<le> reward_in_contract s" using ok by (simp add: books_ok_def)
    ultimately show ?thesis by (rule distribute_cases) simp
  next
    case (Stk_receive giver n payload)
    with run have "receive_cw20 P s e info giver n payload = Ok s'" by (simp add: staking_ok)
    then show ?thesis by (cases rule: receive_cases) (use P in \<open>auto elim: stake_cases\<close>)
  next
    case (Stk_claim d)
    with run have "execute_claim P s e (sender info) d = Ok (s', ts)" by simp
    then show ?thesis by (rule claim_cases) simp
  next
    case (Stk_restake d)
    with run have "execute_restake P s e (sender info) d = Ok s'" by (simp add: staking_ok)
    then show ?thesis using P by (rule restake_cases) simp
  next
    case (Stk_unstake_and_claim d)
    with run have "execute_unstake P s e (sender info) d = Ok (s', ts)" by simp
    then show ?thesis by (rule unstake_cases) simp
  qed simp_all
qed

section \<open>Decay\<close>

text \<open>The closed form of \<open>decayed\<close>; it computes whenever the product fits 128 bits.\<close>

definition power_left :: "nat \<Rightarrow> nat \<Rightarrow> nat \<Rightarrow> nat" where
  "power_left bal month diff =
     (if diff < month then bal * (reward_calc_unit * (month - diff) div month) div reward_calc_unit else 0)"

lemma unit_share_le:
  assumes "0 < month"
  shows "reward_calc_unit * (month - diff) div month \<le> reward_calc_unit"
proof -
  have "reward_calc_unit * (month - diff) div month \<le> reward_calc_unit * month div month"
    by (intro div_le_mono) simp
  with assms show ?thesis by simp
qed

lemma power_left_le: "power_left bal month diff \<le> bal"
proof (cases "diff < month")
  case True
  then have "bal * (reward_calc_unit * (month - diff) div month) \<le> bal * reward_calc_unit"
    using unit_share_le [of month diff] by simp
  then have "bal * (reward_calc_unit * (month - diff) div month) div reward_calc_unit
      \<le> bal * reward_calc_unit div reward_calc_unit"
    by (rule div_le_mono)
  with True show ?thesis by (simp add: power_left_def reward_calc_unit_def)
qed (simp add: power_left_def)

lemma power_left_antimono:
  assumes "diff \<le> diff'"
  shows "power_left bal month diff' \<le> power_left bal month diff"
proof -
  have "reward_calc_unit * (month - diff') div month \<le> reward_calc_unit * (month - diff) div month"
    using assms by (intro div_le_mono mult_le_mono2 diff_le_mono2)
  then show ?thesis using assms by (simp add: power_left_def div_le_mono)
qed

lemma decayed_value:
  assumes "month < u64_lim" and "bal * reward_calc_unit < u128_lim"
  shows "decayed bal month diff 0 = Ok (power_left bal month diff)"
proof (cases "diff < month")
  case True
  let ?p = "reward_calc_unit * (month - diff) div month"
  have "bal * ?p \<le> bal * reward_calc_unit" using unit_share_le [of month diff] True by simp
  then have fits: "bal * ?p < u128_lim" using assms(2) by linarith
  have "(month - diff) * reward_calc_unit < u64_lim * reward_calc_unit"
    using assms(1) True by (simp add: reward_calc_unit_def)
  then have "reward_calc_unit * (month - diff) < u128_lim"
    by (simp add: u64_lim_def u128_lim_def reward_calc_unit_def mult.commute)
  moreover have "?p < u128_lim"
    using div_le_dividend calculation by (rule le_less_trans)
  moreover have "bal * ?p div reward_calc_unit < u128_lim"
    using div_le_dividend fits by (rule le_less_trans)
  moreover have "reward_calc_unit \<noteq> 0" by (simp add: reward_calc_unit_def)
  ultimately show ?thesis
    using True fits
    by (simp add: decayed_def power_left_def u64_sub_def u128_multiply_ratio_def u128_mul_def)
qed (simp add: decayed_def power_left_def)

section \<open>Positions that are paid up\<close>

text \<open>A position without a pending reward whose clock is not behind the last distribution.\<close>

definition paid_up :: "staking_state \<Rightarrow> addr \<Rightarrow> nat \<Rightarrow> bool" where
  "paid_up s a d \<longleftrightarrow> pending_reward (reward_info_of s a d) = 0 \<and>
     (\<forall>u. kv_get (positions s) (a, d) = Some u \<longrightarrow> last_distributed (config s) \<le> last_claimed_time u)"

text \<open>Any messages but distributions, none of them before the second \<open>t\<close>.\<close>

inductive quiet_run :: "platform \<Rightarrow> nat \<Rightarrow> staking_state \<Rightarrow> staking_state \<Rightarrow> bool" for P t s where
  quiet_start: "quiet_run P t s s"
| quiet_step: "quiet_run P t s s1 \<Longrightarrow> staking_execute P s1 e info msg = Ok (s2, ts) \<Longrightarrow> msg \<noteq> Stk_distribute \<Longrightarrow>
    t \<le> seconds (block e) \<Longrightarrow> quiet_run P t s s2"

lemma pending_of:
  "pending_reward (reward_info_of s a d) = (case kv_get (reward_infos s) (a, d) of Some r \<Rightarrow> pending_reward r | None \<Rightarrow> 0)"
  by (simp add: reward_info_of_def split: option.split)

lemma paid_up_no_reward:
  assumes "paid_up s a d" "platform_exact P" "query_user_reward P s a d = Ok r"
  shows "user_reward r = 0"
proof -
  from assms(2,3) have "addr_validate P a = Ok a"
    by (metis query_user_reward_position platform_exactD)
  with assms(1,3) show ?thesis
    by (auto simp: query_user_reward_def paid_up_def Let_def outcome_simps)
qed

lemma claim_pays_up:
  assumes "execute_claim P s e a d = Ok (s', ts)" "last_distributed (config s) \<le> seconds (block e)"
  shows "paid_up s' a d" "last_distributed (config s') = last_distributed (config s)"
  by (rule claim_cases [OF assms(1)]; use assms(2) in \<open>simp add: paid_up_def pending_of\<close>)+

lemma staking_mint_infos: "staking_mint P s e r n d = Ok s' \<Longrightarrow> reward_infos s' = reward_infos s"
  by (erule staking_mint_cases) simp

lemma stake_pending:
  assumes "execute_stake P s e a n d = Ok s'" "platform_exact P" "paid_up s a d"
  shows "reward_infos s' = kv_set (reward_infos s) (a, d) \<lparr> reward_index = pool_index s, pending_reward = 0 \<rparr>"
proof -
  have none: "pending_reward (reward_info_of s a d) = 0" using assms(3) by (simp add: paid_up_def)
  show ?thesis
    using assms(1) by (auto simp: execute_stake_def outcome_simps arith_simps staking_ok none
        paid_up_no_reward [OF assms(3,2)] split: if_splits dest!: staking_mint_infos)
qed

lemma restake_pending:
  assumes "execute_restake P s e a d = Ok s'"
  shows "reward_infos s' = kv_set (reward_infos s) (a, d) \<lparr> reward_index = pool_index s, pending_reward = 0 \<rparr>"
  using assms by (auto simp: execute_restake_def outcome_simps arith_simps split: if_splits dest!: staking_mint_infos)

lemma admin_clock:
  assumes "staking_execute P s e info msg = Ok (s', ts)" and "administrative msg"
  shows "reward_infos s' = reward_infos s" "last_distributed (config s') = last_distributed (config s)"
  using assms
  by (cases msg; auto simp: staking_admin_defs outcome_simps staking_ok Let_def split: if_splits)+

lemma paid_up_step:
  assumes "paid_up s a d" and run: "staking_execute P s e info msg = Ok (s', ts)" and "msg \<noteq> Stk_distribute"
    and "platform_exact P" "last_distributed (config s) \<le> seconds (block e)"
  shows "paid_up s' a d \<and> last_distributed (config s') = last_distributed (config s)"
proof (cases "administrative msg")
  case True
  with admin_step [OF run True] admin_clock [OF run True] assms(1) show ?thesis
    by (auto simp: paid_up_def pending_of split: option.splits)
next
  case False
  note upd = paid_up_def pending_of
  have staked: ?thesis if st: "execute_stake P s e b n k = Ok s'" for b n k
  proof -
    have "pending_reward (reward_info_of s' a d) = 0"
    proof (cases "(b, k) = (a, d)")
      case True
      then show ?thesis using stake_pending [of P s e a n d s'] st assms(1,4) by (simp add: pending_of)
    next
      case False
      have "\<exists>v. reward_infos s' = kv_set (reward_infos s) (b, k) v"
        using st by (auto simp: execute_stake_def outcome_simps arith_simps split: if_splits dest!: staking_mint_infos)
      then show ?thesis using False assms(1) by (auto simp: upd)
    qed
    with st show ?thesis
      by (elim stake_cases [OF _ assms(4)]) (use assms(1,5) in \<open>auto simp: paid_up_def\<close>)
  qed
  show ?thesis
  proof (cases msg)
    case (Stk_receive giver n payload)
    with run have "receive_cw20 P s e info giver n payload = Ok s'" by (simp add: staking_ok)
    then show ?thesis
    proof (cases rule: receive_cases)
      case (stake k)
      then show ?thesis by (intro staked)
    qed (use assms(1) in \<open>simp add: upd\<close>)
  next
    case (Stk_claim k)
    with run have "execute_claim P s e (sender info) k = Ok (s', ts)" by simp
    then show ?thesis by (rule claim_cases) (use assms(1,5) in \<open>auto simp: upd\<close>)
  next
    case (Stk_restake k)
    with run have re: "execute_restake P s e (sender info) k = Ok s'" by (simp add: staking_ok)
    with restake_pending [OF re] show ?thesis
      by (elim restake_cases [OF _ assms(4)]) (use assms(1,5) in \<open>auto simp: upd\<close>)
  next
    case (Stk_unstake_and_claim k)
    with run have "execute_unstake P s e (sender info) k = Ok (s', ts)" by simp
    then show ?thesis by (rule unstake_cases) (use assms(1) in \<open>auto simp: upd\<close>)
  qed (use False assms(3) in simp_all)
qed

lemma quiet_run_paid_up:
  assumes "quiet_run P t s s'" "paid_up s a d" "platform_exact P" "last_distributed (config s) \<le> t"
  shows "paid_up s' a d"
proof -
  have "paid_up s' a d \<and> last_distributed (config s') = last_distributed (config s)"
    using assms(1)
  proof induction
    case (quiet_step s1 e info msg s2 ts)
    then have "last_distributed (config s1) \<le> seconds (block e)" using assms(4) by linarith
    with quiet_step show ?case using paid_up_step [of s1 a d P e info msg s2 ts] assms(3) by simp
  qed (use assms(2) in simp)
  then show ?thesis ..
qed

section \<open>A sample run\<close>

definition at_second :: "nat \<Rightarrow> env" where
  "at_second t = \<lparr> block = \<lparr> block_height = t, block_time = t * 1000000000 \<rparr>, contract_address = ''staking'' \<rparr>"

lemma at_second_simps [simp]: "seconds (block (at_second t)) = t" "contract_address (at_second t) = ''staking''"
  by (simp_all add: at_second_def seconds_def)

definition demo_power_msg :: token_instantiate_msg where
  "demo_power_msg = \<lparr> msg_name = ''Power'', msg_symbol = ''PWR'', msg_decimals = 6,
     initial_balances = [], msg_mint = None, msg_marketing = None \<rparr>"

definition demo_staking_msg :: staking_instantiate_msg where
  "demo_staking_msg = \<lparr> im_token = ''juno'', im_lock_time_frame = 1000, im_freeze_lock_time = 500,
     im_restake_reset_flag = False, im_vault_address = ''vault'', im_token_instantiate_msg = demo_power_msg \<rparr>"

definition demo_config :: staking_config where
  "demo_config = \<lparr> token_addr = ''juno'', owner_addr = ''boss'', community_addr = Some ''boss'',
     last_distributed = 1000, freeze = False, freeze_lock_time = 500, freeze_start_time = 1000,
     lock_time_frame = 1000, wait_time = 86400, restake_reset_flag = False, syne_power_constant = 13,
     latest_syne_power_date = 1000, day_factor = 86400, vault_address = ''vault'',
     duration_values = [1, 3, 6, 12, 24], last_syne_power_date = 1000, second_owner = Some ''boss'' \<rparr>"

definition demo_stk0 :: staking_state where
  "demo_stk0 = \<lparr> config = demo_config, total_reward = 0, reward_in_contract = 0, distribution_reward = 0,
     pool_index = 0, total_staked = [], reward_infos = [], power_dates = [],
     power_token = \<lparr> token_name = ''Power'', token_symbol = ''PWR'', token_decimals = 6,
       total_supply = 0, mint = None \<rparr>,
     power_marketing = None, power_logo = None, total_balances = [], power_balances = [], positions = [] \<rparr>"

text \<open>ann locks 100 tokens for three periods, the pool receives 50 tokens of rewards.\<close>

definition demo_stk1 :: staking_state where
  "demo_stk1 = demo_stk0\<lparr> total_staked := [(3, 100)],
     reward_infos := [((''ann'', 3), \<lparr> reward_index = 0, pending_reward = 0 \<rparr>)],
     power_token := (power_token demo_stk0)\<lparr> total_supply := 300 \<rparr>,
     total_balances := [(3, \<lparr> total_power = 300, total_mint_time = 1000 \<rparr>)],
     power_balances := [(''ann'', 300)],
     positions := [((''ann'', 3), \<lparr> user_balance = 300, actual_balance = 300, mint_time = 1000,
       last_claimed_time = 1000 \<rparr>)] \<rparr>"

definition demo_stk2 :: staking_state where
  "demo_stk2 = demo_stk1\<lparr> reward_in_contract := 50 \<rparr>"

text \<open>After the three periods she locks 100 more for one period.\<close>

definition demo_stk3 :: staking_state where
  "demo_stk3 = demo_stk2\<lparr> total_staked := [(1, 100), (3, 100)],
     reward_infos := [((''ann'', 1), \<lparr> reward_index = 0, pending_reward = 0 \<rparr>),
       ((''ann'', 3), \<lparr> reward_index = 0, pending_reward = 0 \<rparr>)],
     power_token := (power_token demo_stk0)\<lparr> total_supply := 400 \<rparr>,
     total_balances := [(1, \<lparr> total_power = 100, total_mint_time = 5000 \<rparr>),
       (3, \<lparr> total_power = 300, total_mint_time = 1000 \<rparr>)],
     power_balances := [(''ann'', 100)],
     positions := [((''ann'', 1), \<lparr> user_balance = 100, actual_balance = 100, mint_time = 5000,
         last_claimed_time = 5000 \<rparr>),
       ((''ann'', 3), \<lparr> user_balance = 300, actual_balance = 300, mint_time = 1000,
         last_claimed_time = 1000 \<rparr>)] \<rparr>"

lemmas demo_staking_defs = demo_stk3_def demo_stk2_def demo_stk1_def demo_stk0_def demo_config_def demo_platform_def

lemmas staking_run_defs =
  receive_cw20_def execute_stake_def advance_power_date_def position_of_def staked_add_def
  reward_info_of_def staking_mint_def mint_total_def get_cap_def no_user_info_def no_balance_info_def
  execute_deposit_def no_transfers_def decayed_def reward_calc_unit_def

lemma demo_staking_start:
  "staking_instantiate demo_platform (at_second 1000) \<lparr> sender = ''boss'' \<rparr> demo_staking_msg = Ok demo_stk0"
  by (simp add: staking_instantiate_def instantiate_token_def demo_staking_msg_def demo_power_msg_def
      token_instantiate_def token_msg_validate_def has_valid_name_def has_valid_symbol_def symbol_byte_def
      create_accounts_def validate_accounts_def msg_get_cap_def instantiate_minter_def token_empty_def
      demo_stk0_def demo_config_def demo_platform_def Let_def)

lemma demo_staking_run1:
  "staking_execute demo_platform demo_stk0 (at_second 1000) \<lparr> sender = ''juno'' \<rparr>
     (Stk_receive ''ann'' 100 (Ok (Hook_stake 3))) = Ok (demo_stk1, [])"
  by (simp add: staking_run_defs demo_staking_defs checked_int_defs Let_def)

lemma demo_staking_run2:
  "staking_execute demo_platform demo_stk1 (at_second 1000) \<lparr> sender = ''juno'' \<rparr>
     (Stk_receive ''boss'' 50 (Ok Hook_deposit)) = Ok (demo_stk2, [])"
  by (simp add: staking_run_defs demo_staking_defs checked_int_defs Let_def)

lemma demo_staking_run3:
  "staking_execute demo_platform demo_stk2 (at_second 5000) \<lparr> sender = ''juno'' \<rparr>
     (Stk_receive ''ann'' 100 (Ok (Hook_stake 1))) = Ok (demo_stk3, [])"
  by (simp add: staking_run_defs demo_staking_defs checked_int_defs Let_def)

lemma demo_stk2_reachable: "staking_reachable demo_platform demo_stk2"
  by (rule staking_step [OF staking_step [OF staking_start [OF demo_staking_start] demo_staking_run1]
        demo_staking_run2])

lemma demo_stk3_reachable: "staking_reachable demo_platform demo_stk3"
  by (rule staking_step [OF demo_stk2_reachable demo_staking_run3])

section \<open>Properties\<close>

text \<open>
  C34: The books of the staking contract balance in every reachable state: the rewards promised to
  stakers never exceed the rewards deposited, and for every duration the recorded total stake is
  the sum of the principals that the positions of that duration would be refunded.
\<close>

theorem staking_books_balance:
  assumes "platform_exact P" and "staking_reachable P s"
  shows "total_reward s \<le> reward_in_contract s
    \<and> kv_nat (total_staked s) d
        = sum_list (map (\<lambda>e. actual_balance (snd e) div d) (filter (\<lambda>e. snd (fst e) = d) (positions s)))"
proof -
  have "sum_list (map (\<lambda>e. principal_at d (fst e) (snd e)) xs)
      = sum_list (map (\<lambda>e. actual_balance (snd e) div d) (filter (\<lambda>e. snd (fst e) = d) xs))" for xs
    by (induction xs) (simp_all add: principal_at_def)
  with staking_reachable_books [OF assms(2,1)] show ?thesis
    by (simp add: books_ok_def kv_sum_def)
qed

theorem staking_books_balance_witness:
  "total_reward demo_stk3 \<le> 50 \<and> kv_nat (total_staked demo_stk3) 3 = 300 div 3"
  using staking_books_balance [OF demo_platform_exact demo_stk3_reachable, of 3]
  by (simp add: demo_staking_defs)

text \<open>
  C1: Every message conserves tokens: what the contract owes (all staked principals and all
  deposited rewards) changes by exactly the tokens the token contract delivers with the message
  minus the tokens the handler asks it to send out.
\<close>

theorem staking_messages_conserve_tokens:
  assumes "platform_exact P" and "staking_reachable P s"
    and "staking_execute P s e info msg = Ok (s', ts)"
    and "contract_address e \<noteq> token_addr (config s)"
  shows "owed s' + sum_list (map tm_amount (filter (\<lambda>t. tm_target t = token_addr (config s)) ts))
    = owed s + (case msg of Stk_receive giver n payload \<Rightarrow> n | _ \<Rightarrow> 0)"
  using staking_step_books [OF assms(3,1) staking_reachable_books [OF assms(2,1)]] assms(4)
  by (simp add: tokens_in_def tokens_out_def)

theorem staking_messages_conserve_tokens_witness:
  "owed demo_stk3 = owed demo_stk2 + 100 \<and> owed demo_stk3 = 250"
  using staking_messages_conserve_tokens [OF demo_platform_exact demo_stk2_reachable demo_staking_run3]
  by (simp add: demo_staking_defs owed_def kv_total_def)

text \<open>
  Staking credits exactly the deposited tokens to the sender's position of the chosen
  duration, accepts only the configured durations, restarts the lock of that whole position now,
  and leaves every other position as it was.
\<close>

theorem staking_credits_the_position:
  assumes "platform_exact P" and "staking_reachable P s" and "addr_validate P a = Ok a"
    and "execute_stake P s e a n d = Ok s'" and "query_staked_by_user P s a d = Ok old"
  shows "d \<in> set (duration_values (config s))
    \<and> (old + n < u128_lim \<longrightarrow> query_staked_by_user P s' a d = Ok (old + n))
    \<and> query_user_staked_time P s' a d = Ok (seconds (block e))
    \<and> (\<forall>b d'. (b, d') \<noteq> (a, d) \<longrightarrow> kv_get (positions s') (b, d') = kv_get (positions s) (b, d'))"
  using assms(4,1)
proof (rule stake_cases)
  fix u ri date ti tb pb
  assume d: "0 < d" "d \<in> set (duration_values (config s))"
    and u: "actual_balance u = n * d + actual_balance (position_of s a d)" "mint_time u = seconds (block e)"
    and s': "s' = s\<lparr> total_staked := kv_set (total_staked s) d (kv_nat (total_staked s) d + n),
       reward_infos := ri, config := (config s)\<lparr> latest_syne_power_date := date \<rparr>,
       power_token := ti, total_balances := tb, power_balances := pb,
       positions := kv_set (positions s) (a, d) u \<rparr>"
  have "old = actual_balance (position_of s a d) div d"
    using assms(3,5) by (auto simp: query_staked_by_user_def outcome_simps arith_simps)
  then have "actual_balance u div d = old + n" using d(1) u(1) by simp
  then show ?thesis
    using d u s' assms(3)
    by (auto simp: query_staked_by_user_def query_user_staked_time_def position_of_def u128_multiply_ratio_def)
qed

theorem staking_credits_the_position_witness:
  "query_staked_by_user demo_platform demo_stk3 ''ann'' 1 = Ok (0 + 100)
    \<and> query_user_staked_time demo_platform demo_stk3 ''ann'' 1 = Ok 5000"
proof -
  have a: "addr_validate demo_platform ''ann'' = Ok ''ann''" by (simp add: demo_platform_def)
  have run: "execute_stake demo_platform demo_stk2 (at_second 5000) ''ann'' 100 1 = Ok demo_stk3"
    using demo_staking_run3 by (simp add: receive_cw20_def demo_staking_defs staking_ok)
  have "query_staked_by_user demo_platform demo_stk2 ''ann'' 1 = Ok 0"
    by (simp add: query_staked_by_user_def staking_run_defs demo_staking_defs checked_int_defs)
  from staking_credits_the_position [OF demo_platform_exact demo_stk2_reachable a run this]
  show ?thesis by (simp add: u128_lim_def)
qed

text \<open>
  Unstaking succeeds only after the full lock and outside the maintenance window.  It pays the
  whole principal and the reward to the staker, removes the position and takes the same reward
  from both reward totals; the recorded total voting power of the duration is not reduced.
\<close>

theorem unstaking_pays_after_the_lock:
  assumes "execute_unstake P s e a d = Ok (s', ts)"
  shows "\<exists>u reward. kv_get (positions s) (a, d) = Some u
    \<and> mint_time u + lock_time_frame (config s) * d \<le> seconds (block e)
    \<and> (freeze (config s) \<longrightarrow> freeze_start_time (config s) + freeze_lock_time (config s) \<le> seconds (block e))
    \<and> sum_list (map tm_amount ts) = actual_balance u div d + reward
    \<and> (\<forall>t \<in> set ts. tm_target t = token_addr (config s) \<and> tm_recipient t = a)
    \<and> total_reward s = total_reward s' + reward \<and> reward_in_contract s = reward_in_contract s' + reward
    \<and> kv_get (positions s') (a, d) = None \<and> total_balances s' = total_balances s"
  using assms
proof (rule unstake_cases)
  fix u resp n staked
  assume "kv_get (positions s) (a, d) = Some u"
    "\<not> (freeze (config s) \<and> seconds (block e) < freeze_start_time (config s) + freeze_lock_time (config s))"
    "mint_time u + lock_time_frame (config s) * d \<le> seconds (block e)"
    "n \<le> total_reward s" "n \<le> reward_in_contract s"
    "s' = s\<lparr> total_reward := total_reward s - n, reward_in_contract := reward_in_contract s - n,
       reward_infos := kv_del (reward_infos s) (a, d), total_staked := kv_set (total_staked s) d staked,
       positions := kv_del (positions s) (a, d) \<rparr>"
    "ts = \<lparr> tm_target = token_addr (config s), tm_recipient = a, tm_amount = actual_balance u div d \<rparr> #
       (if n = 0 then [] else [\<lparr> tm_target = token_addr (config s), tm_recipient = a, tm_amount = n \<rparr>])"
  then show ?thesis by (intro exI [of _ u] exI [of _ n]) auto
qed

lemma demo_unstake:
  "execute_unstake demo_platform demo_stk3 (at_second 5000) ''ann'' 3 =
     Ok (demo_stk3\<lparr> reward_infos := kv_del (reward_infos demo_stk3) (''ann'', 3),
           total_staked := [(1, 100), (3, 0)], positions := kv_del (positions demo_stk3) (''ann'', 3) \<rparr>,
         [\<lparr> tm_target = ''juno'', tm_recipient = ''ann'', tm_amount = 100 \<rparr>])"
  by (simp add: execute_unstake_def check_freeze_def query_user_reward_def self_query_def
      reward_info_of_def demo_staking_defs checked_int_defs Let_def)

theorem unstaking_pays_after_the_lock_witness:
  "\<exists>u reward. kv_get (positions demo_stk3) (''ann'', 3) = Some u
    \<and> mint_time u + 3000 \<le> 5000 \<and> 100 = actual_balance u div 3 + reward"
  using unstaking_pays_after_the_lock [OF demo_unstake] by (simp add: demo_staking_defs)

text \<open>
  During the maintenance window nobody gets tokens out: whatever the state of the position,
  claiming and unstaking return the maintenance error, and restaking sends nothing.
\<close>

theorem maintenance_blocks_payouts:
  assumes "freeze (config s)" and "freeze_start_time (config s) + freeze_lock_time (config s) < u64_lim"
    and "seconds (block e) < freeze_start_time (config s) + freeze_lock_time (config s)"
  shows "execute_claim P s e a d
      = Err (Generic_err ''Sorry for inconvenience, system is under maintenance. Kindly check again later'')
    \<and> execute_unstake P s e a d
      = Err (Generic_err ''Sorry for inconvenience, system is under maintenance. Kindly check again later'')
    \<and> (staking_execute P s e info msg = Ok (s', ts) \<and> contract_address e \<noteq> token_addr (config s) \<longrightarrow>
        (\<forall>t \<in> set ts. tm_target t \<noteq> token_addr (config s)))"
proof -
  have c: "check_freeze (config s) e
      = Err (Generic_err ''Sorry for inconvenience, system is under maintenance. Kindly check again later'')"
    using assms by (simp add: check_freeze_def u64_add_def)
  moreover have "\<forall>t \<in> set ts. tm_target t \<noteq> token_addr (config s)"
    if run: "staking_execute P s e info msg = Ok (s', ts)" and self: "contract_address e \<noteq> token_addr (config s)"
  proof (cases "administrative msg")
    case True
    from admin_step [OF run True] self show ?thesis by auto
  next
    case False
    with run c show ?thesis
      by (cases msg) (simp_all add: staking_ok execute_claim_def execute_unstake_def)
  qed
  ultimately show ?thesis by (simp add: execute_claim_def execute_unstake_def)
qed

theorem maintenance_blocks_payouts_witness:
  "execute_claim demo_platform (demo_stk3\<lparr> config := demo_config\<lparr> freeze := True, freeze_start_time := 4900 \<rparr> \<rparr>)
     (at_second 5000) ''ann'' 3
   = Err (Generic_err ''Sorry for inconvenience, system is under maintenance. Kindly check again later'')"
  using maintenance_blocks_payouts
    [of "demo_stk3\<lparr> config := demo_config\<lparr> freeze := True, freeze_start_time := 4900 \<rparr> \<rparr>" "at_second 5000"]
  by (simp add: demo_config_def u64_lim_def)

text \<open>
  A distribution promises at most the daily reward per elapsed day and never more than the
  rewards in the contract; the pool index never falls; the distribution clock moves forward by
  whole days without passing the present, so the same day cannot be distributed again.
\<close>

theorem distribution_is_bounded:
  assumes "platform_exact P" and "staking_reachable P s" and "execute_distribute s e = Ok s'"
    and "0 < wait_time (config s)"
  defines "days \<equiv> (seconds (block e) - last_distributed (config s)) div wait_time (config s)"
  shows "pool_index s \<le> pool_index s' \<and> total_reward s \<le> total_reward s'
    \<and> total_reward s' \<le> total_reward s + days * distribution_reward s
    \<and> total_reward s' \<le> reward_in_contract s'
    \<and> last_distributed (config s) < last_distributed (config s')
    \<and> last_distributed (config s') \<le> seconds (block e)
    \<and> execute_distribute s' e = Err (Generic_err ''please wait patiently for the specified time'')"
proof -
  from staking_reachable_books [OF assms(2,1)] have "total_reward s \<le> reward_in_contract s"
    by (simp add: books_ok_def)
  with assms(3) show ?thesis
  proof (rule distribute_cases)
    fix days' idx tot dates last_date latest
    assume days': "days' = (seconds (block e) - last_distributed (config s)) div wait_time (config s)" "0 < days'"
      and now: "last_distributed (config s) \<le> seconds (block e)"
      and b: "pool_index s \<le> idx" "total_reward s \<le> tot" "tot \<le> total_reward s + days' * distribution_reward s"
        "tot \<le> reward_in_contract s"
      and s': "s' = s\<lparr> pool_index := idx, total_reward := tot, power_dates := dates,
        config := (config s)\<lparr> last_distributed := last_distributed (config s) + wait_time (config s) * days',
          last_syne_power_date := last_date, latest_syne_power_date := latest \<rparr> \<rparr>"
    let ?w = "wait_time (config s)" and ?gap = "seconds (block e) - last_distributed (config s)"
    have gap: "?w * days' \<le> ?gap" "?gap - ?w * days' < ?w"
      using assms(4) by (simp_all add: days'(1) minus_mult_div_eq_mod)
    have later: "last_distributed (config s') \<le> seconds (block e)"
      "seconds (block e) - last_distributed (config s') < ?w"
      using gap now s' by simp_all
    have lim: "last_distributed (config s') < u64_lim"
      using assms(3) days'(1) s' by (auto simp: execute_distribute_def Let_def outcome_simps arith_simps)
    have "execute_distribute s' e = Err (Generic_err ''please wait patiently for the specified time'')"
      using later lim s' assms(4)
      by (simp add: execute_distribute_def Let_def u64_sub_def u64_div_def u64_mul_def u64_add_def)
    with later b s' days' assms(4) show ?thesis by (simp add: days_def)
  qed
qed

definition demo_daily :: staking_state where
  "demo_daily = demo_stk2\<lparr> distribution_reward := 10 \<rparr>"

lemma demo_daily_reachable: "staking_reachable demo_platform demo_daily"
proof (rule staking_step [OF demo_stk2_reachable])
  show "staking_execute demo_platform demo_stk2 (at_second 1000) \<lparr> sender = ''boss'' \<rparr>
      (Stk_update_reward 10) = Ok (demo_daily, [])"
    by (simp add: execute_update_reward_def no_transfers_def demo_daily_def demo_staking_defs)
qed

definition demo_distributed :: staking_state where
  "demo_distributed = demo_daily\<lparr> pool_index := 33333333333, total_reward := 10,
     power_dates := [(87400, \<lparr> first_reward_index = 33333333333, last_reward_index = 0 \<rparr>)],
     config := demo_config\<lparr> last_distributed := 87400, latest_syne_power_date := 87400,
       last_syne_power_date := 87400 \<rparr> \<rparr>"

lemma demo_distribute: "execute_distribute demo_daily (at_second 90000) = Ok demo_distributed"
  by (simp add: execute_distribute_def demo_daily_def demo_distributed_def demo_staking_defs
      dist_step_def distribute_day_def close_date_def query_total_balance_def decayed_def
      no_balance_info_def reward_calc_unit_def checked_int_defs Let_def)

theorem distribution_is_bounded_witness:
  "total_reward demo_distributed \<le> 0 + 1 * 10 \<and> last_distributed (config demo_distributed) \<le> 90000
    \<and> execute_distribute demo_distributed (at_second 90000)
        = Err (Generic_err ''please wait patiently for the specified time'')"
proof -
  have "0 < wait_time (config demo_daily)" by (simp add: demo_daily_def demo_staking_defs)
  from distribution_is_bounded [OF demo_platform_exact demo_daily_reachable demo_distribute this]
  show ?thesis by (simp add: demo_daily_def demo_staking_defs)
qed

text \<open>
  C37: A reward is paid once.  After an account has claimed the reward of a position, every further payout
  of the position pays no reward until the next distribution, whatever messages the contract has
  handled in between: another claim pays nothing, and a withdrawal pays the principal alone.
\<close>

theorem rewards_are_claimed_once:
  assumes "platform_exact P" and "execute_claim P s e a d = Ok (s1, ts1)"
    and "last_distributed (config s) \<le> seconds (block e)"
    and "quiet_run P (seconds (block e)) s1 s2"
  shows "(execute_claim P s2 e' a d = Ok (s3, ts) \<longrightarrow> map tm_amount ts = [0] \<and> total_reward s3 = total_reward s2) \<and>
    (execute_unstake P s2 e' a d = Ok (s3, ts) \<longrightarrow>
       map tm_amount ts = [actual_balance (position_of s2 a d) div d] \<and> total_reward s3 = total_reward s2)"
proof -
  have up: "paid_up s2 a d"
    using quiet_run_paid_up [OF assms(4) claim_pays_up(1) [OF assms(2,3)] assms(1)] claim_pays_up(2) [OF assms(2,3)] assms(3)
    by simp
  then have pending: "pending_reward (reward_info_of s2 a d) = 0" by (simp add: paid_up_def)
  have "map tm_amount ts = [0] \<and> total_reward s3 = total_reward s2" if "execute_claim P s2 e' a d = Ok (s3, ts)"
    using that by (rule claim_cases) (use paid_up_no_reward [OF up assms(1)] pending in auto)
  moreover have "map tm_amount ts = [actual_balance (position_of s2 a d) div d] \<and> total_reward s3 = total_reward s2"
    if "execute_unstake P s2 e' a d = Ok (s3, ts)"
    using that by (rule unstake_cases) (use paid_up_no_reward [OF up assms(1)] pending in \<open>auto simp: position_of_def\<close>)
  ultimately show ?thesis by blast
qed

text \<open>With a lock that outlasts the distribution, ann claims 7 of the 10 tokens promised; bob locks tokens, then she claims again.\<close>

definition demo_rewarded :: staking_state where
  "demo_rewarded = demo_distributed\<lparr> config := (config demo_distributed)\<lparr> lock_time_frame := 100000 \<rparr> \<rparr>"

definition demo_claimed :: staking_state where
  "demo_claimed = demo_rewarded\<lparr> total_reward := 3, reward_in_contract := 43,
     reward_infos := [((''ann'', 3), \<lparr> reward_index = 33333333333, pending_reward = 0 \<rparr>)],
     positions := [((''ann'', 3), \<lparr> user_balance = 300, actual_balance = 300, mint_time = 1000, last_claimed_time = 90000 \<rparr>)] \<rparr>"

lemma demo_claim_once:
  "execute_claim demo_platform demo_rewarded (at_second 90000) ''ann'' 3
     = Ok (demo_claimed, [\<lparr> tm_target = ''juno'', tm_recipient = ''ann'', tm_amount = 7 \<rparr>])"
  by (simp add: execute_claim_def check_freeze_def query_user_reward_def self_query_def demo_claimed_def demo_rewarded_def
      demo_distributed_def demo_daily_def reward_step_def reward_info_of_def reward_calc_unit_def demo_staking_defs
      checked_int_defs Let_def)

theorem rewards_are_claimed_once_witness:
  "\<exists>s2 s3 ts. staking_execute demo_platform demo_claimed (at_second 90010) \<lparr> sender = ''juno'' \<rparr>
      (Stk_receive ''bob'' 60 (Ok (Hook_stake 6))) = Ok (s2, []) \<and>
    execute_claim demo_platform s2 (at_second 90020) ''ann'' 3 = Ok (s3, ts) \<and> map tm_amount ts = [0]"
proof -
  obtain s2 s3 ts where run: "staking_execute demo_platform demo_claimed (at_second 90010) \<lparr> sender = ''juno'' \<rparr>
      (Stk_receive ''bob'' 60 (Ok (Hook_stake 6))) = Ok (s2, [])"
    and again: "execute_claim demo_platform s2 (at_second 90020) ''ann'' 3 = Ok (s3, ts)"
    by (simp add: staking_run_defs execute_claim_def check_freeze_def query_user_reward_def self_query_def demo_claimed_def
        demo_rewarded_def demo_distributed_def demo_daily_def demo_staking_defs checked_int_defs Let_def)
  have "quiet_run demo_platform (seconds (block (at_second 90000))) demo_claimed s2"
    by (rule quiet_step [OF quiet_start run]) simp_all
  moreover have "last_distributed (config demo_rewarded) \<le> seconds (block (at_second 90000))"
    by (simp add: demo_rewarded_def demo_distributed_def demo_daily_def demo_staking_defs)
  ultimately show ?thesis
    using rewards_are_claimed_once [OF demo_platform_exact demo_claim_once] run again by blast
qed

text \<open>
  Administration is reserved: every administrative message that succeeds came from the owner
  (only the daily reward may also be set by the second owner), and all other messages leave the
  owner, the token, the lock, the maintenance settings, the durations and the daily reward alone.
\<close>

theorem administration_needs_the_owner:
  assumes "platform_exact P" and "staking_reachable P s"
    and "staking_execute P s e info msg = Ok (s', ts)"
  shows "sender info = owner_addr (config s)
    \<or> (\<exists>n. msg = Stk_update_reward n \<and> second_owner (config s) = Some (sender info)
          \<and> s' = s\<lparr> distribution_reward := n \<rparr>)
    \<or> (distribution_reward s' = distribution_reward s
       \<and> (\<exists>a b c. config s' = (config s)\<lparr> last_distributed := a, latest_syne_power_date := b,
            last_syne_power_date := c \<rparr>))"
proof (cases "administrative msg")
  case True
  from admin_caller [OF assms(3) True] assms(3) show ?thesis
    by (auto simp: staking_ok execute_update_reward_def outcome_simps)
next
  case False
  have same: "\<exists>a b c. config s = (config s)\<lparr> last_distributed := a, latest_syne_power_date := b,
      last_syne_power_date := c \<rparr>"
    by (intro exI [of _ "last_distributed (config s)"] exI [of _ "latest_syne_power_date (config s)"]
        exI [of _ "last_syne_power_date (config s)"]) simp
  have date: "\<exists>a b c. (config s)\<lparr> latest_syne_power_date := d \<rparr>
      = (config s)\<lparr> last_distributed := a, latest_syne_power_date := b, last_syne_power_date := c \<rparr>" for d
    by (intro exI [of _ "last_distributed (config s)"] exI [of _ d]
        exI [of _ "last_syne_power_date (config s)"]) simp
  from False show ?thesis
  proof (cases msg)
    case Stk_distribute
    with assms(3) have "execute_distribute s e = Ok s'" by (simp add: staking_ok)
    moreover have "total_reward s \<le> reward_in_contract s"
      using staking_reachable_books [OF assms(2,1)] by (simp add: books_ok_def)
    ultimately show ?thesis
    proof (rule distribute_cases)
      fix days idx tot dates last_date latest
      assume "s' = s\<lparr> pool_index := idx, total_reward := tot, power_dates := dates,
        config := (config s)\<lparr> last_distributed := last_distributed (config s) + wait_time (config s) * days,
          last_syne_power_date := last_date, latest_syne_power_date := latest \<rparr> \<rparr>"
      then show ?thesis
        by (intro disjI2 conjI exI [of _ "last_distributed (config s) + wait_time (config s) * days"]
            exI [of _ latest] exI [of _ last_date]) simp_all
    qed
  next
    case (Stk_receive giver n payload)
    with assms(3) have "receive_cw20 P s e info giver n payload = Ok s'" by (simp add: staking_ok)
    then show ?thesis
    proof (cases rule: receive_cases)
      case (stake d)
      from stake(3) assms(1) show ?thesis by (rule stake_cases) (simp add: date)
    next
      case deposit
      with same show ?thesis by simp
    qed
  next
    case (Stk_claim d)
    with assms(3) have "execute_claim P s e (sender info) d = Ok (s', ts)" by simp
    then show ?thesis by (rule claim_cases) (simp add: same)
  next
    case (Stk_restake d)
    with assms(3) have "execute_restake P s e (sender info) d = Ok s'" by (simp add: staking_ok)
    then show ?thesis using assms(1) by (rule restake_cases) (simp add: same)
  next
    case (Stk_unstake_and_claim d)
    with assms(3) have "execute_unstake P s e (sender info) d = Ok (s', ts)" by simp
    then show ?thesis by (rule unstake_cases) (simp add: same)
  qed simp_all
qed

theorem administration_needs_the_owner_witness:
  "\<exists>a b c. config demo_stk3 = (config demo_stk2)\<lparr> last_distributed := a, latest_syne_power_date := b,
            last_syne_power_date := c \<rparr>"
  using administration_needs_the_owner [OF demo_platform_exact demo_stk2_reachable demo_staking_run3]
  by (simp add: demo_staking_defs)

text \<open>
  The voting power of a position decays: at every later moment it is at most what it was, it
  never exceeds the staked balance, it is the full balance at the moment of staking and nothing
  once the lock is over; the query returns a value whenever the balance leaves room for the
  fixed-point factor.
\<close>

theorem voting_power_decays:
  assumes "addr_validate P a = Ok x" and "kv_get (positions s) (x, d) = Some u" and "0 < mint_time u"
    and "lock_time_frame (config s) * d < u64_lim" and "user_balance u * reward_calc_unit < u128_lim"
    and "mint_time u \<le> seconds (block e)" and "seconds (block e) \<le> seconds (block e')"
  shows "\<exists>v v'. query_balance_by_duration P s e a d = Ok v \<and> query_balance_by_duration P s e' a d = Ok v'
    \<and> v' \<le> v \<and> v \<le> user_balance u
    \<and> (seconds (block e) = mint_time u \<and> 0 < lock_time_frame (config s) * d \<longrightarrow> v = user_balance u)
    \<and> (mint_time u + lock_time_frame (config s) * d \<le> seconds (block e') \<longrightarrow> v' = 0)"
proof -
  let ?m = "lock_time_frame (config s) * d"
  have q: "query_balance_by_duration P s f a d = Ok (power_left (user_balance u) ?m (seconds (block f) - mint_time u))"
    if "mint_time u \<le> seconds (block f)" for f
    using assms that decayed_value [OF assms(4,5)]
    by (simp add: query_balance_by_duration_def position_of_def Let_def u64_mul_def u64_sub_def)
  have "power_left (user_balance u) ?m (seconds (block e') - mint_time u)
      \<le> power_left (user_balance u) ?m (seconds (block e) - mint_time u)"
    using assms(7) by (intro power_left_antimono diff_le_mono)
  moreover have "power_left (user_balance u) ?m 0 = user_balance u" if "0 < ?m"
  proof -
    have "reward_calc_unit * ?m div ?m = reward_calc_unit"
      using that by (rule nonzero_mult_div_cancel_right [OF gr_implies_not0])
    then show ?thesis using that by (simp add: power_left_def reward_calc_unit_def)
  qed
  moreover have "power_left (user_balance u) ?m (seconds (block e') - mint_time u) = 0"
    if "mint_time u + ?m \<le> seconds (block e')"
    using that by (simp add: power_left_def)
  ultimately show ?thesis
    using q [of e] q [of e'] assms(6,7) power_left_le by auto
qed

theorem voting_power_decays_witness:
  "\<exists>v v'. query_balance_by_duration demo_platform demo_stk3 (at_second 1000) ''ann'' 3 = Ok v
     \<and> query_balance_by_duration demo_platform demo_stk3 (at_second 4000) ''ann'' 3 = Ok v' \<and> v = 300 \<and> v' = 0"
  using voting_power_decays [of demo_platform "''ann''" "''ann''" demo_stk3 3
      "\<lparr> user_balance = 300, actual_balance = 300, mint_time = 1000, last_claimed_time = 1000 \<rparr>"
      "at_second 1000" "at_second 4000"]
  by (simp add: demo_staking_defs u64_lim_def u128_lim_def reward_calc_unit_def)

text \<open>
  The total balance query overstates the voting power after a lock has ended: there is a
  reachable state in which a wallet has power 100 in one duration and none in the others, but
  \<open>query_balance\<close>, which sums over the durations, answers 200, because the running value of the
  previous duration is added again for a position whose lock is over.
\<close>

theorem expired_lock_counts_twice:
  "\<exists>s. staking_reachable demo_platform s
    \<and> query_balance_by_duration demo_platform s (at_second 5000) ''ann'' 1 = Ok 100
    \<and> query_balance_by_duration demo_platform s (at_second 5000) ''ann'' 3 = Ok 0
    \<and> query_balance_by_duration demo_platform s (at_second 5000) ''ann'' 6 = Ok 0
    \<and> query_balance_by_duration demo_platform s (at_second 5000) ''ann'' 12 = Ok 0
    \<and> query_balance_by_duration demo_platform s (at_second 5000) ''ann'' 24 = Ok 0
    \<and> duration_values (config s) = [1, 3, 6, 12, 24]
    \<and> staking_query_balance demo_platform s (at_second 5000) ''ann'' = Ok 200"
proof (intro exI conjI)
  show "staking_reachable demo_platform demo_stk3" by (rule demo_stk3_reachable)
qed (simp_all add: query_balance_by_duration_def staking_query_balance_def staking_run_defs
    demo_staking_defs checked_int_defs Let_def)

end
