(* ===== verification/Proposal.thy ===== *)
theory Proposal
  imports Store
begin

text \<open>
  The governance contract of \<open>contracts/syneswap_proposal\<close>: holders of voting power propose
  messages, vote on them, and execute or close them.  The voting power comes from queries to
  the DAO contract; those queries, and the serialised size of a proposal, are the parameter
  \<open>H\<close> of the operations.  Response attributes and debug output are left out, the messages a
  passed proposal sends are kept.
\<close>

section \<open>Thresholds\<close>

datatype percentage_threshold = Majority | Percent decimal

datatype threshold =
    Absolute_percentage percentage_threshold
  | Threshold_quorum percentage_threshold percentage_threshold
  | Absolute_count nat

fun validate_percentage :: "percentage_threshold \<Rightarrow> (std_error, unit) outcome" where
  "validate_percentage (Percent p) =
     (if p = 0 then Err (Generic_err ''Zero threshold'')
      else if p > decimal_one then Err (Generic_err ''Unreachable threshold'')
      else Ok ())"
| "validate_percentage Majority = Ok ()"

fun validate_quorum :: "percentage_threshold \<Rightarrow> (std_error, unit) outcome" where
  "validate_quorum Majority = Ok ()"
| "validate_quorum (Percent q) =
     (if q > decimal_one then Err (Generic_err ''Unreachable threshold'') else Ok ())"

fun threshold_validate :: "threshold \<Rightarrow> (std_error, unit) outcome" where
  "threshold_validate (Absolute_percentage p) = validate_percentage p"
| "threshold_validate (Threshold_quorum t q) =
     and_then (validate_percentage t) (\<lambda>_. validate_quorum q)"
| "threshold_validate (Absolute_count n) =
     (if n = 0 then Err (Generic_err ''Zero threshold'') else Ok ())"

section \<open>Votes\<close>

datatype vote = Yes | No | Abstain

record votes =
  yes :: nat
  no :: nat
  abstain :: nat

definition votes_zero :: votes where
  "votes_zero = \<lparr> yes = 0, no = 0, abstain = 0 \<rparr>"

definition add_vote :: "votes \<Rightarrow> vote \<Rightarrow> nat \<Rightarrow> (std_error, votes) outcome" where
  "add_vote vs v n =
     (case v of
        Yes \<Rightarrow> and_then (u128_add (yes vs) n) (\<lambda>k. Ok (vs\<lparr> yes := k \<rparr>))
      | No \<Rightarrow> and_then (u128_add (no vs) n) (\<lambda>k. Ok (vs\<lparr> no := k \<rparr>))
      | Abstain \<Rightarrow> and_then (u128_add (abstain vs) n) (\<lambda>k. Ok (vs\<lparr> abstain := k \<rparr>)))"

definition remove_vote :: "votes \<Rightarrow> vote \<Rightarrow> nat \<Rightarrow> (std_error, votes) outcome" where
  "remove_vote vs v n =
     (case v of
        Yes \<Rightarrow> and_then (u128_sub (yes vs) n) (\<lambda>k. Ok (vs\<lparr> yes := k \<rparr>))
      | No \<Rightarrow> and_then (u128_sub (no vs) n) (\<lambda>k. Ok (vs\<lparr> no := k \<rparr>))
      | Abstain \<Rightarrow> and_then (u128_sub (abstain vs) n) (\<lambda>k. Ok (vs\<lparr> abstain := k \<rparr>)))"

definition votes_total :: "votes \<Rightarrow> (std_error, nat) outcome" where
  "votes_total vs = and_then (u128_add (yes vs) (no vs)) (\<lambda>n. u128_add n (abstain vs))"

definition precision_factor :: nat where "precision_factor = 10 ^ 9"

datatype vote_cmp = Greater | Geq

text \<open>
  The comparison runs in 256 bits, which hold every intermediate value; \<open>atomics / 10 ^ 18\<close> is
  the passing percentage.
\<close>

definition compare_vote_count :: "nat \<Rightarrow> vote_cmp \<Rightarrow> nat \<Rightarrow> decimal \<Rightarrow> bool" where
  "compare_vote_count n cmp dao_power pct =
     (let n' = n * precision_factor;
          dao_power' = dao_power * precision_factor;
          bound = dao_power' * pct div 10 ^ 18
      in case cmp of Greater \<Rightarrow> n' > bound | Geq \<Rightarrow> n' \<ge> bound)"

definition does_vote_count_pass :: "nat \<Rightarrow> nat \<Rightarrow> nat \<Rightarrow> percentage_threshold \<Rightarrow> bool" where
  "does_vote_count_pass yes_votes options dao_power percent =
     (if options = 0 then False
      else case percent of
        Majority \<Rightarrow> yes_votes * 2 > options
      | Percent p \<Rightarrow> compare_vote_count yes_votes Geq dao_power p)"

definition does_vote_count_fail :: "nat \<Rightarrow> nat \<Rightarrow> percentage_threshold \<Rightarrow> (std_error, bool) outcome" where
  "does_vote_count_fail no_votes options percent =
     (if options = 0 then Ok True
      else case percent of
        Majority \<Rightarrow> Ok (no_votes * 2 \<ge> options)
      | Percent p \<Rightarrow>
          and_then (u128_sub decimal_one p) (\<lambda>q. Ok (compare_vote_count no_votes Greater options q)))"

text \<open>The voting periods; \<open>validate_voting_period\<close> passes its arguments through.\<close>

fun validate_voting_period :: "duration \<Rightarrow> duration \<Rightarrow> (std_error, duration \<times> duration) outcome" where
  "validate_voting_period (Time a) (Time b) =
     (if a \<le> b then Ok (Time a, Time b) else Err (Generic_err ''Invalid voting period''))"
| "validate_voting_period (Height a) (Height b) =
     (if a \<le> b then Ok (Height a, Height b) else Err (Generic_err ''Invalid voting period''))"
| "validate_voting_period _ _ = Err (Generic_err ''Duration Minutes conflict'')"

fun verifying_voting_period :: "duration \<Rightarrow> duration \<Rightarrow> duration \<Rightarrow> bool" where
  "verifying_voting_period (Time vp) (Time lo) (Time hi) = (vp \<ge> lo \<and> vp \<le> hi)"
| "verifying_voting_period _ _ _ = False"

section \<open>Proposals\<close>

datatype status = Open | Rejected | Passed | Executed | Closed | Execution_failed

definition status_text :: "status \<Rightarrow> string" where
  "status_text st = (case st of
      Open \<Rightarrow> ''open'' | Rejected \<Rightarrow> ''rejected'' | Passed \<Rightarrow> ''passed'' | Executed \<Rightarrow> ''executed''
    | Closed \<Rightarrow> ''closed'' | Execution_failed \<Rightarrow> ''execution failed'')"

text \<open>A message of a proposal, as the bytes the chain will dispatch.\<close>

type_synonym cosmos_msg = string

record proposal =
  title :: string
  description :: string
  proposer :: addr
  expires_at :: expiration
  prop_threshold :: threshold
  msgs :: "cosmos_msg list"
  status :: status
  tally :: votes
  allow_revoting :: bool
  prop_total_power :: nat
  voting_start_time :: nat

record ballot =
  ballot_power :: nat
  ballot_vote :: vote

record passed_response =
  is_passed_flag :: bool
  pass_description :: string

definition passed :: "bool \<Rightarrow> (std_error, passed_response) outcome" where
  "passed b = Ok \<lparr> is_passed_flag = b, pass_description = [] \<rparr>"

definition is_passed :: "platform \<Rightarrow> block_info \<Rightarrow> proposal \<Rightarrow> (std_error, passed_response) outcome" where
  "is_passed P b p =
     (let expired = is_expired P (expires_at p) b; vs = tally p in
      if allow_revoting p \<and> \<not> expired then passed False
      else case prop_threshold p of
        Absolute_percentage pct \<Rightarrow>
          if \<not> expired then
            Ok \<lparr> is_passed_flag = False, pass_description = ''Voting time is not expired yet'' \<rparr>
          else
            and_then (votes_total vs) (\<lambda>tot.
            and_then (u128_sub tot (abstain vs)) (\<lambda>options.
            passed (does_vote_count_pass (yes vs) options (prop_total_power p) pct)))
      | Threshold_quorum thr quorum \<Rightarrow>
          and_then (votes_total vs) (\<lambda>tot.
          if \<not> does_vote_count_pass tot (prop_total_power p) (prop_total_power p) quorum then passed False
          else if expired then
            and_then (u128_sub tot (abstain vs)) (\<lambda>options.
            passed (does_vote_count_pass (yes vs) options (prop_total_power p) thr))
          else
            and_then (u128_sub (prop_total_power p) (abstain vs)) (\<lambda>options.
            passed (does_vote_count_pass (yes vs) options (prop_total_power p) thr)))
      | Absolute_count n \<Rightarrow> passed (yes vs \<ge> n))"

definition current_status :: "platform \<Rightarrow> block_info \<Rightarrow> proposal \<Rightarrow> (std_error, status) outcome" where
  "current_status P b p =
     (if status p = Open then
        and_then (is_passed P b p) (\<lambda>r.
        Ok (if is_expired P (expires_at p) b \<and> \<not> is_passed_flag r then Rejected
            else if is_passed_flag r then Passed
            else Open))
      else Ok (status p))"

definition update_status :: "platform \<Rightarrow> block_info \<Rightarrow> proposal \<Rightarrow> (std_error, proposal) outcome" where
  "update_status P b p = and_then (current_status P b p) (\<lambda>st. Ok (p\<lparr> status := st \<rparr>))"

section \<open>The contract\<close>

record prop_config =
  cfg_threshold :: threshold
  max_voting_period :: duration
  min_voting_period :: duration
  dao :: string
  cfg_admin :: addr
  creation_limit :: nat  \<comment> \<open>\<open>proposal_creation_token_limit\<close>\<close>
  hold_duration :: nat  \<comment> \<open>\<open>token_hold_duration\<close>\<close>

record gov_state =
  gov_config :: prop_config
  proposal_count :: nat
  proposals :: "(nat, proposal) kv"
  ballots :: "(nat \<times> addr, ballot) kv"
  proposers_info :: "(addr, nat) kv"

text \<open>
  The answers of the DAO contract to the three queries the module sends (\<open>None\<close> for a failed
  query whose error the code replaces by zero), and the size of a serialised proposal.
\<close>

record dao_host =
  dao_balance :: "string \<Rightarrow> addr \<Rightarrow> nat option"
  dao_durations :: "string \<Rightarrow> (std_error, nat list) outcome"
  dao_total_balance :: "string \<Rightarrow> nat \<Rightarrow> nat option"
  encoded_size :: "proposal \<Rightarrow> nat"

definition get_voting_power :: "dao_host \<Rightarrow> addr \<Rightarrow> string \<Rightarrow> nat" where
  "get_voting_power H a d = (case dao_balance H d a of Some n \<Rightarrow> n | None \<Rightarrow> 0)"

fun sum_powers :: "dao_host \<Rightarrow> string \<Rightarrow> nat list \<Rightarrow> nat \<Rightarrow> (std_error, nat) outcome" where
  "sum_powers H d [] acc = Ok acc"
| "sum_powers H d (t # ts) acc =
     and_then (u128_add acc (case dao_total_balance H d t of Some n \<Rightarrow> n | None \<Rightarrow> 0)) (\<lambda>acc'.
     sum_powers H d ts acc')"

definition get_total_power :: "dao_host \<Rightarrow> string \<Rightarrow> (std_error, nat) outcome" where
  "get_total_power H d = and_then (dao_durations H d) (\<lambda>ds. sum_powers H d ds 0)"

text \<open>The three flags of the message are read by no handler.\<close>

record gov_instantiate_msg =
  gim_threshold :: threshold
  gim_max_voting_period :: duration
  gim_min_voting_period :: duration
  gim_only_members_execute :: bool
  gim_allow_revoting :: bool
  gim_close_on_failure :: bool  \<comment> \<open>\<open>close_proposal_on_execution_failure\<close>\<close>
  gim_dao :: string
  gim_creation_limit :: nat
  gim_hold_duration :: nat

definition gov_instantiate ::
  "message_info \<Rightarrow> gov_instantiate_msg \<Rightarrow> (std_error, gov_state) outcome"
where
  "gov_instantiate info msg =
     and_then (threshold_validate (gim_threshold msg)) (\<lambda>_.
     and_then (validate_voting_period (gim_min_voting_period msg) (gim_max_voting_period msg)) (\<lambda>(lo, hi).
     Ok \<lparr> gov_config = \<lparr> cfg_threshold = gim_threshold msg, max_voting_period = hi,
            min_voting_period = lo, dao = gim_dao msg, cfg_admin = sender info,
            creation_limit = gim_creation_limit msg, hold_duration = gim_hold_duration msg \<rparr>,
          proposal_count = 0, proposals = [], ballots = [], proposers_info = [] \<rparr>))"

definition max_proposal_size :: nat where "max_proposal_size = 30000"

definition advance_proposal_id :: "gov_state \<Rightarrow> (std_error, nat) outcome" where
  "advance_proposal_id s = u64_add (proposal_count s) 1"

definition execute_propose ::
  "platform \<Rightarrow> dao_host \<Rightarrow> gov_state \<Rightarrow> env \<Rightarrow> addr \<Rightarrow> string \<Rightarrow> string \<Rightarrow> cosmos_msg list \<Rightarrow> duration
     \<Rightarrow> (std_error, gov_state) outcome"
where
  "execute_propose P H s e who ttl descr ms voting_period =
     (let c = gov_config s in
      if \<not> verifying_voting_period voting_period (min_voting_period c) (max_voting_period c)
      then Err (Generic_err ''invalid voting period'')
      else
      let vote_power = get_voting_power H who (dao c) in
      if vote_power = 0 then Err (Generic_err ''Power is zero can't create proposal'')
      else
      let locked = kv_nat (proposers_info s) who in
      and_then (u128_sub vote_power locked) (\<lambda>free.
      if free < creation_limit c then Err (Generic_err ''Power is not enough to create proposal'')
      else
      and_then (u128_add locked (creation_limit c)) (\<lambda>locked'.
      and_then (update_status P (block e)
        \<lparr> title = ttl, description = descr, proposer = who,
           expires_at = after P voting_period (block e), prop_threshold = cfg_threshold c, msgs = ms,
           status = Open, tally = votes_zero, allow_revoting = False, prop_total_power = 0,
           voting_start_time = seconds (block e) \<rparr>) (\<lambda>p.
      and_then (advance_proposal_id s) (\<lambda>pid.
      if encoded_size H p > max_proposal_size then Err (Generic_err ''Proposal size is too large'')
      else
      Ok (s\<lparr> proposers_info := kv_set (proposers_info s) who locked', proposal_count := pid,
            proposals := kv_set (proposals s) pid p \<rparr>))))))"

definition execute_execute ::
  "platform \<Rightarrow> dao_host \<Rightarrow> gov_state \<Rightarrow> env \<Rightarrow> message_info \<Rightarrow> nat
     \<Rightarrow> (std_error, gov_state \<times> cosmos_msg list) outcome"
where
  "execute_execute P H s e info pid =
     (let c = gov_config s in
      and_then (ok_or (Generic_err ''No Such Proposal'') (kv_get (proposals s) pid)) (\<lambda>p.
      if get_voting_power H (sender info) (dao c) = 0 then Err (Generic_err ''Unauthorized'')
      else
      and_then (u128_sub (kv_nat (proposers_info s) (proposer p)) (creation_limit c)) (\<lambda>locked.
      and_then (is_passed P (block e) p) (\<lambda>r.
      if pass_description r \<noteq> [] then Err (Generic_err (pass_description r))
      else
      and_then (update_status P (block e) p) (\<lambda>p'.
      if status p' \<noteq> Passed then Err (Generic_err ''Proposal is not in 'passed' state'')
      else
      Ok (s\<lparr> proposers_info := kv_set (proposers_info s) (proposer p) locked,
            proposals := kv_set (proposals s) pid (p'\<lparr> status := Executed \<rparr>) \<rparr>, msgs p))))))"

text \<open>The closure of \<open>BALLOTS.update\<close>: the new ballot and the tally without the old one.\<close>

definition recast ::
  "proposal \<Rightarrow> ballot option \<Rightarrow> vote \<Rightarrow> nat \<Rightarrow> (std_error, ballot \<times> votes) outcome"
where
  "recast p old v n =
     (let new = \<lparr> ballot_power = n, ballot_vote = v \<rparr> in
      case old of
        Some cur \<Rightarrow>
          if allow_revoting p then
            if ballot_vote cur = v then Err (Generic_err ''Already Casted'')
            else and_then (remove_vote (tally p) (ballot_vote cur) (ballot_power cur)) (\<lambda>vs. Ok (new, vs))
          else and_then (remove_vote (tally p) (ballot_vote cur) (ballot_power cur)) (\<lambda>vs. Ok (new, vs))
      | None \<Rightarrow> Ok (new, tally p))"

definition execute_vote ::
  "platform \<Rightarrow> dao_host \<Rightarrow> gov_state \<Rightarrow> env \<Rightarrow> message_info \<Rightarrow> nat \<Rightarrow> vote
     \<Rightarrow> (std_error, gov_state) outcome"
where
  "execute_vote P H s e info pid v =
     (let c = gov_config s in
      and_then (ok_or (Generic_err ''No such proposal'') (kv_get (proposals s) pid)) (\<lambda>p.
      let vote_power = get_voting_power H (sender info) (dao c) in
      if vote_power = 0
      then Err (Generic_err (''Not Registered'' @ ''sender '' @ sender info @ '' dao '' @ dao c))
      else if is_expired P (expires_at p) (block e) then Err (Generic_err ''Voting time expired'')
      else if status p = Executed \<or> status p = Closed
      then Err (Generic_err (''Proposal is in '' @ status_text (status p) @ '' state''))
      else
      and_then (recast p (kv_get (ballots s) (pid, sender info)) v vote_power) (\<lambda>(b, vs).
      and_then (add_vote vs v vote_power) (\<lambda>vs'.
      and_then (get_total_power H (dao c)) (\<lambda>dao_power.
      and_then (update_status P (block e) (p\<lparr> tally := vs', prop_total_power := dao_power \<rparr>)) (\<lambda>p'.
      Ok (s\<lparr> ballots := kv_set (ballots s) (pid, sender info) b,
            proposals := kv_set (proposals s) pid p' \<rparr>)))))))"

definition execute_close ::
  "platform \<Rightarrow> gov_state \<Rightarrow> env \<Rightarrow> nat \<Rightarrow> (std_error, gov_state) outcome"
where
  "execute_close P s e pid =
     (let c = gov_config s in
      and_then (ok_or (Not_found ''SingleChoiceProposal'') (kv_get (proposals s) pid)) (\<lambda>p.
      and_then (u64_add (voting_start_time p) (hold_duration c)) (\<lambda>until.
      if until > seconds (block e)
      then Err (Generic_err ''tokens are hold in the contract kindly wait for the specified time'')
      else
      and_then (update_status P (block e) p) (\<lambda>p'.
      if status p' \<noteq> Rejected then Err (Generic_err ''Only rejected proposals closed.'')
      else
      and_then (u128_sub (kv_nat (proposers_info s) (proposer p)) (creation_limit c)) (\<lambda>locked.
      Ok (s\<lparr> proposers_info := kv_set (proposers_info s) (proposer p) locked,
            proposals := kv_set (proposals s) pid (p'\<lparr> status := Closed \<rparr>) \<rparr>))))))"

record gov_update =
  up_threshold :: "threshold option"
  up_max_voting_period :: "duration option"
  up_min_voting_period :: "duration option"
  up_dao :: "string option"
  up_hold_duration :: "nat option"
  up_creation_limit :: "nat option"

definition or_else :: "'a option \<Rightarrow> 'a \<Rightarrow> 'a" where
  "or_else o' x = (case o' of Some y \<Rightarrow> y | None \<Rightarrow> x)"

definition gov_update_config ::
  "gov_state \<Rightarrow> message_info \<Rightarrow> gov_update \<Rightarrow> (std_error, gov_state) outcome"
where
  "gov_update_config s info u =
     (let c = gov_config s in
      if sender info \<noteq> cfg_admin c then Err (Generic_err ''Unauthorized'')
      else
      and_then (case up_threshold u of Some t \<Rightarrow> threshold_validate t | None \<Rightarrow> Ok ()) (\<lambda>_.
      and_then (validate_voting_period (or_else (up_min_voting_period u) (min_voting_period c))
                  (or_else (up_max_voting_period u) (max_voting_period c))) (\<lambda>(lo, hi).
      Ok (s\<lparr> gov_config := \<lparr> cfg_threshold = or_else (up_threshold u) (cfg_threshold c),
            max_voting_period = hi, min_voting_period = lo, dao = or_else (up_dao u) (dao c),
            cfg_admin = cfg_admin c,
            creation_limit = or_else (up_creation_limit u) (creation_limit c),
            hold_duration = or_else (up_hold_duration u) (hold_duration c) \<rparr> \<rparr>))))"

datatype gov_msg =
    Propose string string "cosmos_msg list" duration
  | Cast_vote nat vote
  | Execute_proposal nat
  | Close_proposal nat
  | Update_gov gov_update

definition no_cosmos ::
  "(std_error, gov_state) outcome \<Rightarrow> (std_error, gov_state \<times> cosmos_msg list) outcome"
where
  "no_cosmos r = and_then r (\<lambda>s. Ok (s, []))"

fun gov_execute ::
  "platform \<Rightarrow> dao_host \<Rightarrow> gov_state \<Rightarrow> env \<Rightarrow> message_info \<Rightarrow> gov_msg
     \<Rightarrow> (std_error, gov_state \<times> cosmos_msg list) outcome"
where
  "gov_execute P H s e info (Propose t d ms vp) = no_cosmos (execute_propose P H s e (sender info) t d ms vp)"
| "gov_execute P H s e info (Cast_vote pid v) = no_cosmos (execute_vote P H s e info pid v)"
| "gov_execute P H s e info (Execute_proposal pid) = execute_execute P H s e info pid"
| "gov_execute P H s e info (Close_proposal pid) = no_cosmos (execute_close P s e pid)"
| "gov_execute P H s e info (Update_gov u) = no_cosmos (gov_update_config s info u)"

section \<open>Queries\<close>

record proposal_response =
  resp_id :: nat
  resp_proposal :: proposal
  resp_votes :: nat

definition into_response ::
  "platform \<Rightarrow> block_info \<Rightarrow> nat \<Rightarrow> nat \<Rightarrow> proposal \<Rightarrow> (std_error, proposal_response) outcome"
where
  "into_response P b pid n p =
     and_then (update_status P b p) (\<lambda>p'.
     Ok \<lparr> resp_id = pid, resp_proposal = p', resp_votes = n \<rparr>)"

definition count_ballots :: "gov_state \<Rightarrow> nat \<Rightarrow> nat" where
  "count_ballots s pid = length (kv_prefix (ballots s) pid)"

definition query_proposal ::
  "platform \<Rightarrow> gov_state \<Rightarrow> env \<Rightarrow> nat \<Rightarrow> (std_error, proposal_response) outcome"
where
  "query_proposal P s e pid =
     and_then (ok_or (Not_found ''SingleChoiceProposal'') (kv_get (proposals s) pid)) (\<lambda>p.
     into_response P (block e) pid (count_ballots s pid) p)"

definition query_hold_amount :: "gov_state \<Rightarrow> string \<Rightarrow> (std_error, nat) outcome" where
  "query_hold_amount s a = Ok (kv_nat (proposers_info s) a)"

definition gov_page_limit :: "nat option \<Rightarrow> nat" where
  "gov_page_limit limit = (case limit of None \<Rightarrow> 30 | Some l \<Rightarrow> l)"

definition query_list_proposals ::
  "platform \<Rightarrow> gov_state \<Rightarrow> env \<Rightarrow> nat option \<Rightarrow> nat option \<Rightarrow> (std_error, proposal_response list) outcome"
where
  "query_list_proposals P s e start_after limit =
     map_ok (\<lambda>(pid, p). into_response P (block e) pid (count_ballots s pid) p)
       (take (gov_page_limit limit) (kv_after (proposals s) start_after))"

definition query_reverse_proposals ::
  "platform \<Rightarrow> gov_state \<Rightarrow> env \<Rightarrow> nat option \<Rightarrow> nat option \<Rightarrow> (std_error, proposal_response list) outcome"
where
  "query_reverse_proposals P s e start_before limit =
     map_ok (\<lambda>(pid, p). into_response P (block e) pid (count_ballots s pid) p)
       (take (gov_page_limit limit) (rev (kv_before (proposals s) start_before)))"

definition query_proposal_count :: "gov_state \<Rightarrow> (std_error, nat) outcome" where
  "query_proposal_count s = Ok (proposal_count s)"

record vote_info =
  voter :: addr
  info_vote :: vote
  info_power :: nat

definition vote_info_of :: "addr \<times> ballot \<Rightarrow> vote_info" where
  "vote_info_of e = \<lparr> voter = fst e, info_vote = ballot_vote (snd e), info_power = ballot_power (snd e) \<rparr>"

definition query_vote ::
  "platform \<Rightarrow> gov_state \<Rightarrow> nat \<Rightarrow> string \<Rightarrow> (std_error, vote_info option) outcome"
where
  "query_vote P s pid who =
     and_then (addr_validate P who) (\<lambda>a.
     Ok (map_option (\<lambda>b. vote_info_of (a, b)) (kv_get (ballots s) (pid, a))))"

definition query_list_votes ::
  "platform \<Rightarrow> gov_state \<Rightarrow> nat \<Rightarrow> string option \<Rightarrow> nat option \<Rightarrow> (std_error, vote_info list) outcome"
where
  "query_list_votes P s pid start_after limit =
     and_then (traverse_opt (addr_validate P) start_after) (\<lambda>start.
     Ok (map vote_info_of
           (take (gov_page_limit limit) (kv_after (kv_prefix (ballots s) pid) start))))"

definition query_gov_config :: "gov_state \<Rightarrow> (std_error, prop_config) outcome" where
  "query_gov_config s = Ok (gov_config s)"

definition query_dao :: "gov_state \<Rightarrow> (std_error, string) outcome" where
  "query_dao s = Ok (dao (gov_config s))"

end
