(* ===== verification/Proposal_Proofs.thy ===== *)
theory Proposal_Proofs
  imports Proposal
begin

text \<open>
  Correctness of the governance contract: tallies count exactly the ballots, deposits are
  locked and released exactly, a proposal executes only when passed and at most once, and the
  percentage rule against exact arithmetic.  The last properties show where the code departs
  from its comments.
\<close>

section \<open>Votes and status\<close>

definition votes_for :: "votes \<Rightarrow> vote \<Rightarrow> nat" where
  "votes_for vs v = (case v of Yes \<Rightarrow> yes vs | No \<Rightarrow> no vs | Abstain \<Rightarrow> abstain vs)"

lemma votes_for_zero [simp]: "votes_for votes_zero v = 0"
  by (simp add: votes_for_def votes_zero_def split: vote.split)

lemma add_vote_Ok:
  "add_vote vs v n = Ok vs' \<Longrightarrow> votes_for vs' w = votes_for vs w + (if w = v then n else 0)"
  by (cases v; cases w) (auto simp: add_vote_def votes_for_def outcome_simps arith_simps)

lemma remove_vote_Ok:
  "remove_vote vs v n = Ok vs' \<Longrightarrow>
     n \<le> votes_for vs v \<and> votes_for vs' w = votes_for vs w - (if w = v then n else 0)"
  by (cases v; cases w) (auto simp: remove_vote_def votes_for_def outcome_simps arith_simps)

lemma current_status_cases:
  assumes "current_status P b p = Ok st"
  obtains (kept) "st = status p" "status p \<noteq> Open \<or> \<not> is_expired P (expires_at p) b"
    | (rejected) r where "status p = Open" "st = Rejected" "is_expired P (expires_at p) b"
        "is_passed P b p = Ok r" "\<not> is_passed_flag r"
    | (passed) r where "status p = Open" "st = Passed" "is_passed P b p = Ok r" "is_passed_flag r"
proof (cases "status p = Open")
  case False
  with assms show ?thesis by (intro kept) (simp_all add: current_status_def)
next
  case True
  with assms obtain r where "is_passed P b p = Ok r"
    "st = (if is_expired P (expires_at p) b \<and> \<not> is_passed_flag r then Rejected
            else if is_passed_flag r then Passed else Open)"
    by (auto simp: current_status_def outcome_simps)
  with True show ?thesis using kept rejected passed by (auto split: if_splits)
qed

lemma update_status_Ok:
  "update_status P b p = Ok p' \<longleftrightarrow> (\<exists>st. current_status P b p = Ok st \<and> p' = p\<lparr> status := st \<rparr>)"
  by (auto simp: update_status_def outcome_simps)

section \<open>What each operation does\<close>

lemma propose_cases:
  assumes "execute_propose P H s e who t d ms vp = Ok s'"
  obtains p where "proposer p = who" "tally p = votes_zero" "allow_revoting p = False" "msgs p = ms"
    "status p \<in> {Open, Rejected, Passed}"
    "kv_nat (proposers_info s) who + creation_limit (gov_config s) \<le> get_voting_power H who (dao (gov_config s))"
    "s' = s\<lparr> proposers_info := kv_set (proposers_info s) who
              (kv_nat (proposers_info s) who + creation_limit (gov_config s)),
            proposal_count := proposal_count s + 1,
            proposals := kv_set (proposals s) (proposal_count s + 1) p \<rparr>"
proof -
  let ?p = "\<lparr> title = t, description = d, proposer = who, expires_at = after P vp (block e),
     prop_threshold = cfg_threshold (gov_config s), msgs = ms, status = Open, tally = votes_zero,
     allow_revoting = False, prop_total_power = 0, voting_start_time = seconds (block e) \<rparr>"
  from assms obtain p where up: "update_status P (block e) ?p = Ok p"
    and power: "kv_nat (proposers_info s) who \<le> get_voting_power H who (dao (gov_config s))"
      "creation_limit (gov_config s) \<le> get_voting_power H who (dao (gov_config s)) - kv_nat (proposers_info s) who"
    and s': "s' = s\<lparr> proposers_info := kv_set (proposers_info s) who
              (kv_nat (proposers_info s) who + creation_limit (gov_config s)),
            proposal_count := proposal_count s + 1,
            proposals := kv_set (proposals s) (proposal_count s + 1) p \<rparr>"
    by (auto simp: execute_propose_def Let_def outcome_simps arith_simps advance_proposal_id_def)
  from up obtain st where st: "current_status P (block e) ?p = Ok st" "p = ?p\<lparr> status := st \<rparr>"
    by (auto simp: update_status_Ok)
  have "st \<in> {Open, Rejected, Passed}" using st(1) by (cases rule: current_status_cases) simp_all
  with st(2) power s' show ?thesis by (intro that [of p]) simp_all
qed

lemma vote_cases:
  assumes "execute_vote P H s e info pid v = Ok s'"
  obtains p b vs vs' st tp where "kv_get (proposals s) pid = Some p"
    "0 < get_voting_power H (sender info) (dao (gov_config s))" "\<not> is_expired P (expires_at p) (block e)"
    "status p \<noteq> Executed" "status p \<noteq> Closed"
    "recast p (kv_get (ballots s) (pid, sender info)) v (get_voting_power H (sender info) (dao (gov_config s))) = Ok (b, vs)"
    "add_vote vs v (get_voting_power H (sender info) (dao (gov_config s))) = Ok vs'"
    "current_status P (block e) (p\<lparr> tally := vs', prop_total_power := tp \<rparr>) = Ok st"
    "get_total_power H (dao (gov_config s)) = Ok tp"
    "s' = s\<lparr> ballots := kv_set (ballots s) (pid, sender info) b,
            proposals := kv_set (proposals s) pid (p\<lparr> tally := vs', prop_total_power := tp, status := st \<rparr>) \<rparr>"
proof -
  from assms obtain p b vs vs' tp p' where 1: "kv_get (proposals s) pid = Some p"
    "0 < get_voting_power H (sender info) (dao (gov_config s))" "\<not> is_expired P (expires_at p) (block e)"
    "status p \<noteq> Executed" "status p \<noteq> Closed"
    "recast p (kv_get (ballots s) (pid, sender info)) v (get_voting_power H (sender info) (dao (gov_config s))) = Ok (b, vs)"
    "add_vote vs v (get_voting_power H (sender info) (dao (gov_config s))) = Ok vs'"
    "get_total_power H (dao (gov_config s)) = Ok tp"
    "update_status P (block e) (p\<lparr> tally := vs', prop_total_power := tp \<rparr>) = Ok p'"
    "s' = s\<lparr> ballots := kv_set (ballots s) (pid, sender info) b, proposals := kv_set (proposals s) pid p' \<rparr>"
    by (auto simp: execute_vote_def Let_def outcome_simps split: prod.splits)
  from 1(9) obtain st where "current_status P (block e) (p\<lparr> tally := vs', prop_total_power := tp \<rparr>) = Ok st"
    "p' = p\<lparr> tally := vs', prop_total_power := tp, status := st \<rparr>"
    by (auto simp: update_status_Ok)
  with 1 show ?thesis by (intro that) simp_all
qed

lemma recast_cases:
  assumes "recast p old v n = Ok (b, vs)"
  obtains "b = \<lparr> ballot_power = n, ballot_vote = v \<rparr>" "old = None" "vs = tally p"
    | cur where "b = \<lparr> ballot_power = n, ballot_vote = v \<rparr>" "old = Some cur"
        "remove_vote (tally p) (ballot_vote cur) (ballot_power cur) = Ok vs"
  using assms by (auto simp: recast_def Let_def outcome_simps split: option.splits if_splits)

lemma execute_cases:
  assumes "execute_execute P H s e info pid = Ok (s', ms)"
  obtains p where "kv_get (proposals s) pid = Some p" "ms = msgs p"
    "0 < get_voting_power H (sender info) (dao (gov_config s))"
    "current_status P (block e) p = Ok Passed"
    "creation_limit (gov_config s) \<le> kv_nat (proposers_info s) (proposer p)"
    "s' = s\<lparr> proposers_info := kv_set (proposers_info s) (proposer p)
              (kv_nat (proposers_info s) (proposer p) - creation_limit (gov_config s)),
            proposals := kv_set (proposals s) pid (p\<lparr> status := Executed \<rparr>) \<rparr>"
  using assms
  by (auto simp: execute_execute_def Let_def outcome_simps arith_simps update_status_Ok)

lemma close_cases:
  assumes "execute_close P s e pid = Ok s'"
  obtains p where "kv_get (proposals s) pid = Some p" "current_status P (block e) p = Ok Rejected"
    "voting_start_time p + hold_duration (gov_config s) \<le> seconds (block e)"
    "creation_limit (gov_config s) \<le> kv_nat (proposers_info s) (proposer p)"
    "s' = s\<lparr> proposers_info := kv_set (proposers_info s) (proposer p)
              (kv_nat (proposers_info s) (proposer p) - creation_limit (gov_config s)),
            proposals := kv_set (proposals s) pid (p\<lparr> status := Closed \<rparr>) \<rparr>"
  using assms
  by (auto simp: execute_close_def Let_def outcome_simps arith_simps update_status_Ok)

lemma update_config_cases:
  assumes "gov_update_config s info u = Ok s'"
  obtains c where "sender info = cfg_admin (gov_config s)" "cfg_admin c = cfg_admin (gov_config s)"
    "s' = s\<lparr> gov_config := c \<rparr>"
  using assms
  by (intro that [of "gov_config s'"]) (auto simp: gov_update_config_def Let_def outcome_simps split: prod.splits)

lemma no_cosmos_Ok: "no_cosmos r = Ok (s, ms) \<longleftrightarrow> r = Ok s \<and> ms = []"
  by (auto simp: no_cosmos_def outcome_simps)

section \<open>Tallies\<close>

definition cast_for :: "nat \<Rightarrow> vote \<Rightarrow> nat \<times> addr \<Rightarrow> ballot \<Rightarrow> nat" where
  "cast_for pid v k b = (if fst k = pid \<and> ballot_vote b = v then ballot_power b else 0)"

definition gov_inv :: "gov_state \<Rightarrow> bool" where
  "gov_inv s \<longleftrightarrow> kv_ok (proposals s) \<and> kv_ok (ballots s)
     \<and> (\<forall>pid p. kv_get (proposals s) pid = Some p \<longrightarrow>
          0 < pid \<and> pid \<le> proposal_count s \<and> \<not> allow_revoting p
          \<and> (\<forall>v. votes_for (tally p) v = kv_sum (cast_for pid v) (ballots s)))
     \<and> (\<forall>pid a b. kv_get (ballots s) (pid, a) = Some b \<longrightarrow> pid \<le> proposal_count s)"

lemma gov_inv_proposal:
  "gov_inv s \<Longrightarrow> kv_get (proposals s) pid = Some p \<Longrightarrow> pid \<le> proposal_count s"
  unfolding gov_inv_def by blast

lemma gov_inv_ballot:
  "gov_inv s \<Longrightarrow> kv_get (ballots s) (pid, a) = Some b \<Longrightarrow> pid \<le> proposal_count s"
  unfolding gov_inv_def by blast

lemma kv_sum_zero: "(\<And>k v. (k, v) \<in> set m \<Longrightarrow> f k v = 0) \<Longrightarrow> kv_sum f m = 0"
  by (induction m) (auto simp: kv_sum_def)

lemma no_early_ballots:
  assumes "gov_inv s" and "proposal_count s < pid"
  shows "kv_sum (cast_for pid v) (ballots s) = 0"
proof (rule kv_sum_zero)
  fix k b assume "(k, b) \<in> set (ballots s)"
  with assms have "fst k \<le> proposal_count s"
    using kv_in_set_get [of "ballots s" k b] gov_inv_ballot [of s "fst k" "snd k" b]
    by (simp add: gov_inv_def)
  with assms(2) show "cast_for pid v k b = 0" by (auto simp: cast_for_def)
qed

lemma propose_inv:
  assumes "execute_propose P H s e who t d ms vp = Ok s'" and inv: "gov_inv s"
  shows "gov_inv s'"
  using assms(1)
proof (rule propose_cases)
  fix p
  assume p: "tally p = votes_zero" "allow_revoting p = False"
    and s': "s' = s\<lparr> proposers_info := kv_set (proposers_info s) who
              (kv_nat (proposers_info s) who + creation_limit (gov_config s)),
            proposal_count := proposal_count s + 1,
            proposals := kv_set (proposals s) (proposal_count s + 1) p \<rparr>"
  from inv p s' no_early_ballots [OF inv, of "proposal_count s + 1"] show ?thesis
    by (fastforce simp: gov_inv_def le_SucI)
qed

lemma replace_proposal_inv:
  assumes "gov_inv s" and "kv_get (proposals s) pid = Some p" and "tally q = tally p"
    and "allow_revoting q = allow_revoting p"
    and "proposals s' = kv_set (proposals s) pid q" "ballots s' = ballots s" "proposal_count s' = proposal_count s"
  shows "gov_inv s'"
  using assms by (auto simp: gov_inv_def)

lemma vote_inv:
  assumes "execute_vote P H s e info pid v = Ok s'" and inv: "gov_inv s"
  shows "gov_inv s'"
  using assms(1)
proof (rule vote_cases)
  fix p b vs vs' st tp
  let ?n = "get_voting_power H (sender info) (dao (gov_config s))" and ?k = "(pid, sender info)"
  assume p: "kv_get (proposals s) pid = Some p"
    and re: "recast p (kv_get (ballots s) ?k) v ?n = Ok (b, vs)"
    and add: "add_vote vs v ?n = Ok vs'"
    and s': "s' = s\<lparr> ballots := kv_set (ballots s) ?k b,
            proposals := kv_set (proposals s) pid (p\<lparr> tally := vs', prop_total_power := tp, status := st \<rparr>) \<rparr>"
  from inv p have kv: "kv_ok (ballots s)" "pid \<le> proposal_count s" "0 < pid" "\<not> allow_revoting p"
    and tal: "\<And>w. votes_for (tally p) w = kv_sum (cast_for pid w) (ballots s)"
    by (auto simp: gov_inv_def)
  from re have b: "b = \<lparr> ballot_power = ?n, ballot_vote = v \<rparr>"
    and vs: "votes_for vs w + kv_at (cast_for pid w) (ballots s) ?k = votes_for (tally p) w" for w
    by (cases rule: recast_cases; auto simp: kv_at_def cast_for_def dest: remove_vote_Ok [where w = w])+
  have "votes_for vs' w = kv_sum (cast_for pid w) (ballots s')" for w
    using kv_sum_set [OF kv(1), of "cast_for pid w" ?k b] vs [of w] tal [of w] add_vote_Ok [OF add, of w] s' b
    by (simp add: cast_for_def split: if_splits)
  moreover have "kv_sum (cast_for q w) (ballots s') = kv_sum (cast_for q w) (ballots s)" if "q \<noteq> pid" for q w
  proof -
    have "kv_at (cast_for q w) (ballots s) ?k = 0" "cast_for q w ?k b = 0"
      using that by (auto simp: kv_at_def cast_for_def split: option.split)
    with kv_sum_set [OF kv(1), of "cast_for q w" ?k b] s' show ?thesis by simp
  qed
  moreover have "q \<le> proposal_count s" if "kv_get (ballots s') (q, a) = Some b'" for q a b'
    using that s' kv(2) gov_inv_ballot [OF inv, of q a b'] by (simp split: if_splits)
  moreover have "kv_ok (proposals s')" "kv_ok (ballots s')" "proposal_count s' = proposal_count s"
    using inv s' by (simp_all add: gov_inv_def)
  moreover have "0 < q \<and> q \<le> proposal_count s \<and> \<not> allow_revoting p'
      \<and> (q = pid \<and> tally p' = vs' \<or> q \<noteq> pid \<and> kv_get (proposals s) q = Some p')"
    if "kv_get (proposals s') q = Some p'" for q p'
    using that inv s' kv by (auto simp: gov_inv_def split: if_splits)
  moreover have "votes_for (tally p') w = kv_sum (cast_for q w) (ballots s)"
    if "kv_get (proposals s) q = Some p'" for q p' w
    using that inv by (auto simp: gov_inv_def)
  ultimately show ?thesis
    unfolding gov_inv_def by (metis (no_types, lifting))
qed

text \<open>The states a deployed governance contract can reach, whatever the DAO answers.\<close>

inductive gov_step :: "platform \<Rightarrow> gov_state \<Rightarrow> gov_state \<Rightarrow> bool" for P where
  gov_message: "gov_execute P H s e info msg = Ok (s', ms) \<Longrightarrow> gov_step P s s'"

inductive gov_reachable :: "platform \<Rightarrow> gov_state \<Rightarrow> bool" for P where
  gov_start: "gov_instantiate info msg = Ok s \<Longrightarrow> gov_reachable P s"
| gov_next: "gov_reachable P s \<Longrightarrow> gov_step P s s' \<Longrightarrow> gov_reachable P s'"

inductive_cases gov_stepE: "gov_step P s s'"

lemma gov_step_cases:
  assumes "gov_step P s s'"
  obtains (propose) H e who t d ms vp where "execute_propose P H s e who t d ms vp = Ok s'"
    | (vote) H e info pid v where "execute_vote P H s e info pid v = Ok s'"
    | (execute) H e info pid ms where "execute_execute P H s e info pid = Ok (s', ms)"
    | (close) e pid where "execute_close P s e pid = Ok s'"
    | (update) info u where "gov_update_config s info u = Ok s'"
proof -
  from assms obtain H e info msg ms where "gov_execute P H s e info msg = Ok (s', ms)"
    by (rule gov_stepE)
  then show ?thesis
    using propose vote execute close update by (cases msg) (auto simp: no_cosmos_Ok)
qed

lemma gov_step_inv:
  assumes "gov_step P s s'" and inv: "gov_inv s"
  shows "gov_inv s'"
  using assms(1)
proof (cases rule: gov_step_cases)
  case propose
  then show ?thesis using inv by (rule propose_inv)
next
  case vote
  then show ?thesis using inv by (rule vote_inv)
next
  case execute
  then show ?thesis by (rule execute_cases) (rule replace_proposal_inv [OF inv]; simp)
next
  case close
  then show ?thesis by (rule close_cases) (rule replace_proposal_inv [OF inv]; simp)
next
  case update
  then show ?thesis by (rule update_config_cases) (use inv in \<open>simp add: gov_inv_def\<close>)
qed

lemma gov_reachable_inv: "gov_reachable P s \<Longrightarrow> gov_inv s"
proof (induction rule: gov_reachable.induct)
  case (gov_start info msg s)
  then show ?case by (auto simp: gov_instantiate_def outcome_simps gov_inv_def split: prod.splits)
next
  case (gov_next s s')
  then show ?case by (blast intro: gov_step_inv)
qed

section \<open>Finished proposals\<close>

definition finished :: "proposal \<Rightarrow> bool" where
  "finished p \<longleftrightarrow> status p = Executed \<or> status p = Closed"

lemma current_status_finished:
  "current_status P b p = Ok st \<Longrightarrow> finished p \<Longrightarrow> st = status p"
  by (cases rule: current_status_cases [of P b p st]) (auto simp: finished_def)

lemma current_status_unfinished:
  assumes "current_status P b p = Ok st" and "\<not> finished p"
  shows "st \<noteq> Executed \<and> st \<noteq> Closed"
  using assms(1) by (cases rule: current_status_cases) (use assms(2) in \<open>auto simp: finished_def\<close>)

lemma finished_stays:
  assumes "gov_step P s s'" and inv: "gov_inv s" and p: "kv_get (proposals s) pid = Some p" "finished p"
  shows "kv_get (proposals s') pid = Some p"
  using assms(1)
proof (cases rule: gov_step_cases)
  case propose
  have "pid \<le> proposal_count s" using inv p by (auto simp: gov_inv_def)
  from propose show ?thesis by (rule propose_cases) (use p \<open>pid \<le> proposal_count s\<close> in simp)
next
  case (vote H e info pid' v)
  then show ?thesis by (rule vote_cases) (use p in \<open>auto simp: finished_def\<close>)
next
  case (execute H e info pid' ms)
  then show ?thesis by (rule execute_cases) (use p in \<open>auto simp: finished_def dest: current_status_finished\<close>)
next
  case (close e pid')
  then show ?thesis by (rule close_cases) (use p in \<open>auto simp: finished_def dest: current_status_finished\<close>)
next
  case update
  then show ?thesis by (rule update_config_cases) (use p in simp)
qed

lemma finished_stays_run:
  "rtranclp (gov_step P) s s' \<Longrightarrow> gov_reachable P s \<Longrightarrow> kv_get (proposals s) pid = Some p \<Longrightarrow> finished p \<Longrightarrow>
     kv_get (proposals s') pid = Some p"
proof (induction rule: converse_rtranclp_induct)
  case (step s t)
  from finished_stays [OF step(1) gov_reachable_inv [OF step(4)] step(5,6)] step(1,3,4,6) show ?case
    by (blast intro: gov_next)
qed simp

section \<open>Deposits\<close>

definition unfinished_of :: "addr \<Rightarrow> nat \<Rightarrow> proposal \<Rightarrow> nat" where
  "unfinished_of a pid p = (if proposer p = a \<and> \<not> finished p then 1 else 0)"

definition deposits_ok :: "nat \<Rightarrow> gov_state \<Rightarrow> bool" where
  "deposits_ok L s \<longleftrightarrow> gov_inv s \<and> creation_limit (gov_config s) = L
     \<and> (\<forall>a. kv_nat (proposers_info s) a = L * kv_sum (unfinished_of a) (proposals s))"

text \<open>The states reached while the deposit per proposal stays \<open>L\<close>.\<close>

inductive gov_fixed :: "platform \<Rightarrow> nat \<Rightarrow> gov_state \<Rightarrow> bool" for P L where
  fixed_start: "gov_instantiate info msg = Ok s \<Longrightarrow> gim_creation_limit msg = L \<Longrightarrow> gov_fixed P L s"
| fixed_next: "gov_fixed P L s \<Longrightarrow> gov_execute P H s e info msg = Ok (s', ms) \<Longrightarrow>
    (\<forall>u. msg = Update_gov u \<longrightarrow> up_creation_limit u \<in> {None, Some L}) \<Longrightarrow> gov_fixed P L s'"

lemma finish_deposit:
  assumes ok: "deposits_ok L s" and p: "kv_get (proposals s) pid = Some p" "\<not> finished p"
    and q: "finished q" "proposer q = proposer p"
    and s': "proposals s' = kv_set (proposals s) pid q" "gov_config s' = gov_config s"
      "proposers_info s' = kv_set (proposers_info s) (proposer p) (kv_nat (proposers_info s) (proposer p) - L)"
    and inv: "gov_inv s'"
  shows "deposits_ok L s'"
proof -
  have kv: "kv_ok (proposals s)" using ok by (simp add: deposits_ok_def gov_inv_def)
  have "kv_sum (unfinished_of a) (proposals s') + (if proposer p = a then 1 else 0)
      = kv_sum (unfinished_of a) (proposals s)" for a
    using kv_sum_set [OF kv, of "unfinished_of a" pid q] p q s'(1)
    by (simp add: kv_at_def unfinished_of_def split: if_splits)
  then have sums: "kv_sum (unfinished_of a) (proposals s)
      = kv_sum (unfinished_of a) (proposals s') + (if proposer p = a then 1 else 0)" for a
    by metis
  from ok inv s' show ?thesis by (simp add: deposits_ok_def sums)
qed

lemma keep_deposit:
  assumes ok: "deposits_ok L s" and p: "kv_get (proposals s) pid = Some p" "\<not> finished p"
    and q: "\<not> finished q" "proposer q = proposer p"
    and s': "proposals s' = kv_set (proposals s) pid q" "gov_config s' = gov_config s"
      "proposers_info s' = proposers_info s"
    and inv: "gov_inv s'"
  shows "deposits_ok L s'"
proof -
  have kv: "kv_ok (proposals s)" using ok by (simp add: deposits_ok_def gov_inv_def)
  have "kv_sum (unfinished_of a) (proposals s') = kv_sum (unfinished_of a) (proposals s)" for a
    using kv_sum_set [OF kv, of "unfinished_of a" pid q] p q s'(1)
    by (simp add: kv_at_def unfinished_of_def split: if_splits)
  with ok inv s' show ?thesis by (simp add: deposits_ok_def)
qed

lemma passed_or_rejected_unfinished:
  assumes "current_status P b p = Ok st" and "st = Passed \<or> st = Rejected"
  shows "\<not> finished p"
  using current_status_finished [OF assms(1)] assms(2) by (auto simp: finished_def)

lemma propose_deposit:
  assumes run: "execute_propose P H s e who t d ms vp = Ok s'" and ok: "deposits_ok L s"
  shows "deposits_ok L s'"
  using run
proof (rule propose_cases)
  fix p
  assume p: "proposer p = who" "status p \<in> {Open, Rejected, Passed}"
    and s': "s' = s\<lparr> proposers_info := kv_set (proposers_info s) who
              (kv_nat (proposers_info s) who + creation_limit (gov_config s)),
            proposal_count := proposal_count s + 1,
            proposals := kv_set (proposals s) (proposal_count s + 1) p \<rparr>"
  from ok have inv: "gov_inv s" and kv: "kv_ok (proposals s)" and L: "creation_limit (gov_config s) = L"
    by (simp_all add: deposits_ok_def gov_inv_def)
  have "kv_get (proposals s) (proposal_count s + 1) = None"
    using gov_inv_proposal [OF inv, of "proposal_count s + 1"]
    by (cases "kv_get (proposals s) (proposal_count s + 1)") simp_all
  then have "kv_sum (unfinished_of a) (proposals s')
      = kv_sum (unfinished_of a) (proposals s) + (if who = a then 1 else 0)" for a
    using kv_sum_set [OF kv, of "unfinished_of a" "proposal_count s + 1" p] p s'
    by (auto simp: kv_at_def unfinished_of_def finished_def)
  with ok L s' propose_inv [OF run inv] show ?thesis
    by (auto simp: deposits_ok_def algebra_simps)
qed

lemma gov_execute_deposit:
  assumes run: "gov_execute P H s e info msg = Ok (s', ms)" and ok: "deposits_ok L s"
    and L: "\<forall>u. msg = Update_gov u \<longrightarrow> up_creation_limit u \<in> {None, Some L}"
  shows "deposits_ok L s'"
proof -
  have inv: "gov_inv s'"
    using gov_step_inv [OF gov_message [OF run]] ok by (simp add: deposits_ok_def)
  show ?thesis
  proof (cases msg)
    case (Propose t d m vp)
    with run have "execute_propose P H s e (sender info) t d m vp = Ok s'" by (simp add: no_cosmos_Ok)
    then show ?thesis using ok by (rule propose_deposit)
  next
    case (Cast_vote pid v)
    with run have "execute_vote P H s e info pid v = Ok s'" by (simp add: no_cosmos_Ok)
    then show ?thesis
    proof (rule vote_cases)
      fix p b vs vs' st tp
      assume p: "kv_get (proposals s) pid = Some p" "status p \<noteq> Executed" "status p \<noteq> Closed"
        and st: "current_status P (block e) (p\<lparr> tally := vs', prop_total_power := tp \<rparr>) = Ok st"
        and s': "s' = s\<lparr> ballots := kv_set (ballots s) (pid, sender info) b,
            proposals := kv_set (proposals s) pid (p\<lparr> tally := vs', prop_total_power := tp, status := st \<rparr>) \<rparr>"
      from p(2,3) have np: "\<not> finished p" by (simp add: finished_def)
      have "\<not> finished (p\<lparr> tally := vs', prop_total_power := tp, status := st \<rparr>)"
        using current_status_unfinished [OF st] np by (simp add: finished_def)
      with s' show ?thesis
        by (intro keep_deposit [OF ok p(1) np _ _ _ _ _ inv]) simp_all
    qed
  next
    case (Execute_proposal pid)
    with run have "execute_execute P H s e info pid = Ok (s', ms)" by simp
    then show ?thesis
    proof (rule execute_cases)
      fix p
      assume p: "kv_get (proposals s) pid = Some p" and st: "current_status P (block e) p = Ok Passed"
        and s': "s' = s\<lparr> proposers_info := kv_set (proposers_info s) (proposer p)
              (kv_nat (proposers_info s) (proposer p) - creation_limit (gov_config s)),
            proposals := kv_set (proposals s) pid (p\<lparr> status := Executed \<rparr>) \<rparr>"
      have np: "\<not> finished p" using passed_or_rejected_unfinished [OF st] by simp
      have "creation_limit (gov_config s) = L" using ok by (simp add: deposits_ok_def)
      with s' show ?thesis
        by (intro finish_deposit [OF ok p np _ _ _ _ _ inv, of "p\<lparr> status := Executed \<rparr>"])
          (simp_all add: finished_def)
    qed
  next
    case (Close_proposal pid)
    with run have "execute_close P s e pid = Ok s'" by (simp add: no_cosmos_Ok)
    then show ?thesis
    proof (rule close_cases)
      fix p
      assume p: "kv_get (proposals s) pid = Some p" and st: "current_status P (block e) p = Ok Rejected"
        and s': "s' = s\<lparr> proposers_info := kv_set (proposers_info s) (proposer p)
              (kv_nat (proposers_info s) (proposer p) - creation_limit (gov_config s)),
            proposals := kv_set (proposals s) pid (p\<lparr> status := Closed \<rparr>) \<rparr>"
      have np: "\<not> finished p" using passed_or_rejected_unfinished [OF st] by simp
      have "creation_limit (gov_config s) = L" using ok by (simp add: deposits_ok_def)
      with s' show ?thesis
        by (intro finish_deposit [OF ok p np _ _ _ _ _ inv, of "p\<lparr> status := Closed \<rparr>"])
          (simp_all add: finished_def)
    qed
  next
    case (Update_gov u)
    with run L ok inv show ?thesis
      by (auto simp: no_cosmos_Ok gov_update_config_def Let_def outcome_simps or_else_def deposits_ok_def
          split: prod.splits)
  qed
qed

lemma gov_fixed_deposits: "gov_fixed P L s \<Longrightarrow> deposits_ok L s"
proof (induction rule: gov_fixed.induct)
  case (fixed_start info msg s)
  then have "gov_inv s" using gov_reachable_inv [OF gov_start] by blast
  with fixed_start show ?case
    by (auto simp: gov_instantiate_def outcome_simps deposits_ok_def split: prod.splits)
next
  case (fixed_next s H e info msg s' ms)
  then show ?case by (blast intro: gov_execute_deposit)
qed

section \<open>The percentage rule\<close>

lemma percent_bound: "t * precision_factor * p div 10 ^ 18 = t * p div 10 ^ 9"
proof -
  have "t * precision_factor * p div 10 ^ 18 = (10 ^ 9 * (t * p)) div (10 ^ 9 * 10 ^ 9)"
    by (simp add: precision_factor_def mult_ac)
  also have "\<dots> = t * p div 10 ^ 9"
    by (rule div_mult_mult1) simp
  finally show ?thesis .
qed

lemma pass_percent_iff:
  "does_vote_count_pass y opts t (Percent p) \<longleftrightarrow> 0 < opts \<and> t * p div 10 ^ 9 \<le> y * 10 ^ 9"
  by (simp add: does_vote_count_pass_def compare_vote_count_def Let_def percent_bound)
    (simp add: precision_factor_def mult.commute)

section \<open>A sample run\<close>

text \<open>
  ann holds all 100 units of power.  She proposes, votes yes (the proposal passes), and then
  changes her vote to no.
\<close>

definition demo_host :: dao_host where
  "demo_host = \<lparr> dao_balance = (\<lambda>d a. if a = ''ann'' then Some 100 else None),
     dao_durations = (\<lambda>d. Ok [1]), dao_total_balance = (\<lambda>d t. Some 100), encoded_size = (\<lambda>p. 500) \<rparr>"

definition demo_second :: "nat \<Rightarrow> env" where
  "demo_second t = \<lparr> block = \<lparr> block_height = t, block_time = t * 1000000000 \<rparr>, contract_address = ''gov'' \<rparr>"

definition demo_threshold :: threshold where
  "demo_threshold = Threshold_quorum Majority (Percent (10 ^ 17))"

definition demo_gov_msg :: gov_instantiate_msg where
  "demo_gov_msg = \<lparr> gim_threshold = demo_threshold, gim_max_voting_period = Time 100,
     gim_min_voting_period = Time 10, gim_only_members_execute = True, gim_allow_revoting = False,
     gim_close_on_failure = True, gim_dao = ''staking'', gim_creation_limit = 20, gim_hold_duration = 50 \<rparr>"

definition demo_gov0 :: gov_state where
  "demo_gov0 = \<lparr> gov_config = \<lparr> cfg_threshold = demo_threshold, max_voting_period = Time 100,
       min_voting_period = Time 10, dao = ''staking'', cfg_admin = ''boss'', creation_limit = 20,
       hold_duration = 50 \<rparr>,
     proposal_count = 0, proposals = [], ballots = [], proposers_info = [] \<rparr>"

definition demo_proposal :: proposal where
  "demo_proposal = \<lparr> title = ''t'', description = ''d'', proposer = ''ann'', expires_at = At_time 1050000000000,
     prop_threshold = demo_threshold, msgs = [''pay bob''], status = Open, tally = votes_zero,
     allow_revoting = False, prop_total_power = 0, voting_start_time = 1000 \<rparr>"

definition demo_gov1 :: gov_state where
  "demo_gov1 = demo_gov0\<lparr> proposers_info := [(''ann'', 20)], proposal_count := 1,
     proposals := [(1, demo_proposal)] \<rparr>"

definition demo_gov2 :: gov_state where
  "demo_gov2 = demo_gov1\<lparr> ballots := [((1, ''ann''), \<lparr> ballot_power = 100, ballot_vote = Yes \<rparr>)],
     proposals := [(1, demo_proposal\<lparr> tally := \<lparr> yes = 100, no = 0, abstain = 0 \<rparr>,
       prop_total_power := 100, status := Passed \<rparr>)] \<rparr>"

definition demo_gov3 :: gov_state where
  "demo_gov3 = demo_gov1\<lparr> ballots := [((1, ''ann''), \<lparr> ballot_power = 100, ballot_vote = No \<rparr>)],
     proposals := [(1, demo_proposal\<lparr> tally := \<lparr> yes = 0, no = 100, abstain = 0 \<rparr>,
       prop_total_power := 100, status := Passed \<rparr>)] \<rparr>"

definition demo_gov4 :: gov_state where
  "demo_gov4 = demo_gov3\<lparr> proposers_info := [(''ann'', 0)],
     proposals := [(1, demo_proposal\<lparr> tally := \<lparr> yes = 0, no = 100, abstain = 0 \<rparr>,
       prop_total_power := 100, status := Executed \<rparr>)] \<rparr>"

lemmas demo_gov_defs =
  demo_gov4_def demo_gov3_def demo_gov2_def demo_gov1_def demo_gov0_def demo_proposal_def demo_threshold_def
  demo_host_def demo_second_def demo_platform_def votes_zero_def

lemmas gov_run_defs =
  no_cosmos_def execute_propose_def execute_vote_def execute_execute_def update_status_def
  current_status_def is_passed_def passed_def votes_total_def does_vote_count_pass_def
  compare_vote_count_def precision_factor_def get_voting_power_def get_total_power_def
  advance_proposal_id_def recast_def add_vote_def remove_vote_def max_proposal_size_def seconds_def

lemma demo_gov_start: "gov_instantiate \<lparr> sender = ''boss'' \<rparr> demo_gov_msg = Ok demo_gov0"
  by (simp add: gov_instantiate_def demo_gov_msg_def demo_gov0_def demo_threshold_def decimal_one_def)

lemma demo_gov_run1:
  "gov_execute demo_platform demo_host demo_gov0 (demo_second 1000) \<lparr> sender = ''ann'' \<rparr>
     (Propose ''t'' ''d'' [''pay bob''] (Time 50)) = Ok (demo_gov1, [])"
  by (simp add: gov_run_defs demo_gov_defs checked_int_defs Let_def)

lemma demo_gov_run2:
  "gov_execute demo_platform demo_host demo_gov1 (demo_second 1010) \<lparr> sender = ''ann'' \<rparr>
     (Cast_vote 1 Yes) = Ok (demo_gov2, [])"
  by (simp add: gov_run_defs demo_gov_defs checked_int_defs Let_def)

lemma demo_gov_run3:
  "gov_execute demo_platform demo_host demo_gov2 (demo_second 1020) \<lparr> sender = ''ann'' \<rparr>
     (Cast_vote 1 No) = Ok (demo_gov3, [])"
  by (simp add: gov_run_defs demo_gov_defs checked_int_defs Let_def)

lemma demo_gov_run4:
  "gov_execute demo_platform demo_host demo_gov3 (demo_second 1030) \<lparr> sender = ''ann'' \<rparr>
     (Execute_proposal 1) = Ok (demo_gov4, [''pay bob''])"
  by (simp add: gov_run_defs demo_gov_defs checked_int_defs Let_def)

lemma demo_gov1_reachable: "gov_reachable demo_platform demo_gov1"
  by (rule gov_next [OF gov_start [OF demo_gov_start] gov_message [OF demo_gov_run1]])

lemma demo_gov2_reachable: "gov_reachable demo_platform demo_gov2"
  by (rule gov_next [OF demo_gov1_reachable gov_message [OF demo_gov_run2]])

lemma demo_gov3_reachable: "gov_reachable demo_platform demo_gov3"
  by (rule gov_next [OF demo_gov2_reachable gov_message [OF demo_gov_run3]])

section \<open>The life cycle\<close>

definition may_become :: "status \<Rightarrow> status \<Rightarrow> bool" where
  "may_become old new \<longleftrightarrow> new = old
     \<or> old = Open \<and> new \<noteq> Execution_failed
     \<or> old = Passed \<and> new = Executed
     \<or> old = Rejected \<and> new = Closed"

lemma may_become_refl [simp]: "may_become st st"
  by (simp add: may_become_def)









section \<open>Properties\<close>

text \<open>
  C4: The tally of every proposal counts every ballot: in every reachable state the yes, no and
  abstain totals of a proposal are the sums of the powers of the ballots stored for it, and no
  voter has two ballots on one proposal.
\<close>

theorem tallies_count_every_ballot:
  assumes "gov_reachable P s" and "kv_get (proposals s) pid = Some p"
  shows "yes (tally p) = sum_list (map (ballot_power \<circ> snd)
        (filter (\<lambda>e. fst (fst e) = pid \<and> ballot_vote (snd e) = Yes) (ballots s)))
    \<and> no (tally p) = sum_list (map (ballot_power \<circ> snd)
        (filter (\<lambda>e. fst (fst e) = pid \<and> ballot_vote (snd e) = No) (ballots s)))
    \<and> abstain (tally p) = sum_list (map (ballot_power \<circ> snd)
        (filter (\<lambda>e. fst (fst e) = pid \<and> ballot_vote (snd e) = Abstain) (ballots s)))
    \<and> distinct (map fst (ballots s))"
proof -
  have sums: "kv_sum (cast_for pid v) xs = sum_list (map (ballot_power \<circ> snd)
        (filter (\<lambda>e. fst (fst e) = pid \<and> ballot_vote (snd e) = v) xs))" for v xs
    by (induction xs) (simp_all add: cast_for_def)
  from gov_reachable_inv [OF assms(1)] assms(2)
  have tal: "\<And>v. votes_for (tally p) v = kv_sum (cast_for pid v) (ballots s)" and kv: "kv_ok (ballots s)"
    by (auto simp: gov_inv_def)
  show ?thesis
    using tal [of Yes] tal [of No] tal [of Abstain] kv_ok_distinct [OF kv] by (simp add: votes_for_def sums)
qed

theorem tallies_count_every_ballot_witness:
  "no (tally (the (kv_get (proposals demo_gov3) 1))) = 100
    \<and> sum_list (map (ballot_power \<circ> snd)
        (filter (\<lambda>e. fst (fst e) = 1 \<and> ballot_vote (snd e) = Yes) (ballots demo_gov3))) = 0"
  using tallies_count_every_ballot [OF demo_gov3_reachable, of 1 "the (kv_get (proposals demo_gov3) 1)"]
  by (simp add: demo_gov_defs)

text \<open>
  Casting a vote stores one ballot with the voting power the DAO reports for the sender, in
  place of the voter's earlier ballot; it needs positive power, an unexpired proposal that is
  neither executed nor closed, records the total power of that moment, and changes no other
  ballot, proposal or deposit.
\<close>

theorem votes_carry_the_reported_power:
  assumes "execute_vote P H s e info pid v = Ok s'"
  shows "\<exists>p q n. kv_get (proposals s) pid = Some p \<and> kv_get (proposals s') pid = Some q
    \<and> \<not> is_expired P (expires_at p) (block e) \<and> status p \<noteq> Executed \<and> status p \<noteq> Closed
    \<and> dao_balance H (dao (gov_config s)) (sender info) = Some n \<and> 0 < n
    \<and> get_total_power H (dao (gov_config s)) = Ok (prop_total_power q)
    \<and> kv_get (ballots s') (pid, sender info) = Some \<lparr> ballot_power = n, ballot_vote = v \<rparr>
    \<and> (\<forall>k. k \<noteq> (pid, sender info) \<longrightarrow> kv_get (ballots s') k = kv_get (ballots s) k)
    \<and> (\<forall>k. k \<noteq> pid \<longrightarrow> kv_get (proposals s') k = kv_get (proposals s) k)
    \<and> proposers_info s' = proposers_info s \<and> gov_config s' = gov_config s"
  using assms
proof (rule vote_cases)
  fix p b vs vs' st tp
  let ?n = "get_voting_power H (sender info) (dao (gov_config s))"
  assume p: "kv_get (proposals s) pid = Some p" "\<not> is_expired P (expires_at p) (block e)"
      "status p \<noteq> Executed" "status p \<noteq> Closed"
    and n: "0 < ?n" and re: "recast p (kv_get (ballots s) (pid, sender info)) v ?n = Ok (b, vs)"
    and tp: "get_total_power H (dao (gov_config s)) = Ok tp"
    and s': "s' = s\<lparr> ballots := kv_set (ballots s) (pid, sender info) b,
            proposals := kv_set (proposals s) pid (p\<lparr> tally := vs', prop_total_power := tp, status := st \<rparr>) \<rparr>"
  from n have "dao_balance H (dao (gov_config s)) (sender info) = Some ?n"
    by (simp add: get_voting_power_def split: option.splits)
  moreover have "b = \<lparr> ballot_power = ?n, ballot_vote = v \<rparr>"
    using re by (cases rule: recast_cases) simp_all
  ultimately show ?thesis
    using p n tp s'
    by (intro exI [of _ p] exI [of _ "p\<lparr> tally := vs', prop_total_power := tp, status := st \<rparr>"] exI [of _ ?n]) simp
qed

theorem votes_carry_the_reported_power_witness:
  "kv_get (ballots demo_gov3) (1, ''ann'') = Some \<lparr> ballot_power = 100, ballot_vote = No \<rparr>
    \<and> kv_get (ballots demo_gov2) (1, ''ann'') = Some \<lparr> ballot_power = 100, ballot_vote = Yes \<rparr>"
proof -
  have "execute_vote demo_platform demo_host demo_gov2 (demo_second 1020) \<lparr> sender = ''ann'' \<rparr> 1 No = Ok demo_gov3"
    using demo_gov_run3 by (simp add: no_cosmos_Ok)
  from votes_carry_the_reported_power [OF this]
  show ?thesis by (simp add: demo_gov2_def demo_host_def) (simp add: demo_gov_defs)
qed

text \<open>
  C2: A proposal is executed at most once and only when passed: an execution sends exactly the
  messages of the proposal, it needs a sender with voting power and a current status of passed, and
  in every later state the proposal is unchanged and marked as executed, and can be neither
  executed again, nor voted on, nor closed.
\<close>

theorem proposals_execute_once:
  assumes "gov_reachable P s" and "execute_execute P H s e info pid = Ok (s1, ms)"
    and "rtranclp (gov_step P) s1 s2"
  shows "\<exists>p. kv_get (proposals s) pid = Some p \<and> ms = msgs p
    \<and> 0 < get_voting_power H (sender info) (dao (gov_config s))
    \<and> current_status P (block e) p = Ok Passed
    \<and> kv_get (proposals s2) pid = Some (p\<lparr> status := Executed \<rparr>)
    \<and> (\<nexists>H' e' info' r. execute_execute P H' s2 e' info' pid = Ok r)
    \<and> (\<nexists>H' e' info' v r. execute_vote P H' s2 e' info' pid v = Ok r)
    \<and> (\<nexists>e' r. execute_close P s2 e' pid = Ok r)"
proof -
  from assms(2) obtain p where p: "kv_get (proposals s) pid = Some p" "ms = msgs p"
      "0 < get_voting_power H (sender info) (dao (gov_config s))" "current_status P (block e) p = Ok Passed"
    and s1: "kv_get (proposals s1) pid = Some (p\<lparr> status := Executed \<rparr>)"
    by (rule execute_cases) simp
  have "gov_step P s s1" using assms(2) by (intro gov_message [where msg = "Execute_proposal pid"]) simp
  with assms(1) have "gov_reachable P s1" by (rule gov_next)
  from finished_stays_run [OF assms(3) this s1]
  have s2: "kv_get (proposals s2) pid = Some (p\<lparr> status := Executed \<rparr>)" by (simp add: finished_def)
  have fin: "current_status P b (p\<lparr> status := Executed \<rparr>) = Ok Executed" for b
    by (simp add: current_status_def)
  have "False" if "execute_execute P H' s2 e' info' pid = Ok (s3, ms3)" for H' e' info' s3 ms3
    using that by (rule execute_cases) (use s2 fin in simp)
  moreover have "False" if "execute_vote P H' s2 e' info' pid v = Ok s3" for H' e' info' v s3
    using that by (rule vote_cases) (use s2 in auto)
  moreover have "False" if "execute_close P s2 e' pid = Ok s3" for e' s3
    using that by (rule close_cases) (use s2 fin in simp)
  ultimately show ?thesis using p s2 by fastforce
qed

theorem proposals_execute_once_witness:
  "\<nexists>H e info r. execute_execute demo_platform H demo_gov4 e info 1 = Ok r"
proof -
  have "execute_execute demo_platform demo_host demo_gov3 (demo_second 1030) \<lparr> sender = ''ann'' \<rparr> 1
      = Ok (demo_gov4, [''pay bob''])"
    using demo_gov_run4 by simp
  from proposals_execute_once [OF demo_gov3_reachable this rtranclp.rtrancl_refl] show ?thesis by blast
qed

text \<open>
  C35: Deposits are exact while the deposit per proposal is not changed: the amount held for an
  account is the deposit times the number of its proposals that are neither executed nor closed, so
  every deposit is taken once and released once.
\<close>

theorem deposits_are_exact:
  assumes "gov_fixed P L s"
  shows "query_hold_amount s a = Ok (L * length (filter (\<lambda>e. proposer (snd e) = a
      \<and> status (snd e) \<noteq> Executed \<and> status (snd e) \<noteq> Closed) (proposals s)))"
proof -
  have "kv_sum (unfinished_of a) xs = length (filter (\<lambda>e. proposer (snd e) = a
      \<and> status (snd e) \<noteq> Executed \<and> status (snd e) \<noteq> Closed) xs)" for xs
    by (induction xs) (simp_all add: unfinished_of_def finished_def)
  with gov_fixed_deposits [OF assms] show ?thesis by (simp add: deposits_ok_def query_hold_amount_def)
qed

theorem deposits_are_exact_witness:
  "query_hold_amount demo_gov2 ''ann'' = Ok (20 * 1)"
proof -
  have "gov_fixed demo_platform 20 demo_gov0"
    by (rule fixed_start [OF demo_gov_start]) (simp add: demo_gov_msg_def)
  then have "gov_fixed demo_platform 20 demo_gov1"
    by (rule fixed_next [OF _ demo_gov_run1]) simp
  then have "gov_fixed demo_platform 20 demo_gov2"
    by (rule fixed_next [OF _ demo_gov_run2]) simp
  from deposits_are_exact [OF this, of "''ann''"] show ?thesis by (simp add: demo_gov_defs)
qed

text \<open>
  C39: What the pass rules accept, in exact arithmetic.  A percentage is a percentage of the voting power of
  the whole DAO, not of the votes cast or the votes that count: every yes count that reaches it passes,
  none passes that misses it by a billionth of a vote or more, and for percentages with nine decimals the
  rule is exact; a smaller miss passes, because the bound is rounded down.  A majority is strictly more
  than half of the votes that count.  Neither passes when no votes count.
\<close>

theorem pass_rules_are_exact:
  assumes "0 < opts"
  shows "(t * p \<le> y * 10 ^ 18 \<longrightarrow> does_vote_count_pass y opts t (Percent p))
    \<and> (does_vote_count_pass y opts t (Percent p) \<longrightarrow> t * p < y * 10 ^ 18 + 10 ^ 9)
    \<and> (10 ^ 9 dvd p \<longrightarrow> does_vote_count_pass y opts t (Percent p) = (t * p \<le> y * 10 ^ 18))
    \<and> does_vote_count_pass y opts t Majority = (opts < 2 * y)
    \<and> \<not> does_vote_count_pass y 0 t rule"
proof -
  let ?b = "10 ^ 9 :: nat"
  have iff: "does_vote_count_pass y opts t (Percent p) \<longleftrightarrow> t * p < (y * ?b + 1) * ?b"
    using assms pass_percent_iff [of y opts t p] div_less_iff_less_mult [of ?b "t * p" "y * ?b + 1"]
    by (simp add: less_Suc_eq_le)
  have split: "(y * ?b + 1) * ?b = y * 10 ^ 18 + ?b"
    by (simp add: algebra_simps)
  have exact: "t * p \<le> y * 10 ^ 18" if "?b dvd p" "t * p < y * 10 ^ 18 + ?b"
  proof -
    from that(1) obtain k where k: "p = ?b * k" by (rule dvdE)
    with that(2) have "?b * (t * k) < ?b * (y * ?b + 1)" by (simp add: algebra_simps)
    then have "t * k < y * ?b + 1" by simp
    then have "?b * (t * k) \<le> ?b * (y * ?b)" by (simp add: less_Suc_eq_le mult.commute)
    with k show ?thesis by (simp add: algebra_simps)
  qed
  show ?thesis
    using iff split exact assms by (auto simp: does_vote_count_pass_def)
qed

theorem pass_rules_are_exact_witness:
  "does_vote_count_pass 34 60 100 (Percent (34 * 10 ^ 16)) \<and> \<not> does_vote_count_pass 33 60 100 (Percent (34 * 10 ^ 16))
    \<and> does_vote_count_pass 31 60 100 Majority \<and> \<not> does_vote_count_pass 30 60 100 Majority"
  using pass_rules_are_exact [of 60 100 "34 * 10 ^ 16" 34] pass_rules_are_exact [of 60 100 "34 * 10 ^ 16" 33]
    pass_rules_are_exact [of 60 100 0 31] pass_rules_are_exact [of 60 100 0 30]
  by simp

text \<open>
  Turnout does not help: when a quorum proposal expires with fewer yes votes than the percentage of the
  DAO's whole power, it is rejected, even if the quorum is reached and every vote cast is a yes.
\<close>

theorem percentage_rule_ignores_turnout:
  assumes "status p = Open" "is_expired P (expires_at p) b" "prop_threshold p = Threshold_quorum (Percent pct) quorum"
    and "yes (tally p) * 10 ^ 18 + 10 ^ 9 \<le> prop_total_power p * pct"
    and "yes (tally p) + no (tally p) + abstain (tally p) < 2 ^ 128"
  shows "current_status P b p = Ok Rejected"
proof -
  have "\<not> does_vote_count_pass (yes (tally p)) opts (prop_total_power p) (Percent pct)" for opts
  proof (cases "opts = 0")
    case False
    have "\<not> prop_total_power p * pct < (yes (tally p) * 10 ^ 9 + 1) * 10 ^ 9"
      using assms(4) by (simp add: algebra_simps)
    then show ?thesis
      using False pass_percent_iff [of "yes (tally p)" opts "prop_total_power p" pct]
        div_less_iff_less_mult [of "10 ^ 9" "prop_total_power p * pct" "yes (tally p) * 10 ^ 9 + 1"]
      by (simp add: less_Suc_eq_le)
  qed (simp add: does_vote_count_pass_def)
  then show ?thesis
    using assms by (simp add: current_status_def is_passed_def passed_def votes_total_def u128_add_def u128_sub_def u128_lim_def Let_def)
qed

theorem percentage_rule_ignores_turnout_witness:
  "current_status demo_platform (block (demo_second 1060)) (demo_proposal\<lparr> prop_total_power := 100,
     prop_threshold := Threshold_quorum (Percent (5 * 10 ^ 17)) (Percent (3 * 10 ^ 17)),
     tally := \<lparr> yes = 40, no = 0, abstain = 0 \<rparr> \<rparr>) = Ok Rejected"
  by (rule percentage_rule_ignores_turnout [where pct = "5 * 10 ^ 17" and quorum = "Percent (3 * 10 ^ 17)"])
    (simp_all add: demo_gov_defs)



section \<open>Departures from the comments\<close>

text \<open>
  A proposal that all voting power now opposes is executed, because it once passed: the votes may
  be changed, but the status is not recomputed.
\<close>

theorem outvoted_proposal_executes:
  "\<exists>s p s' ms. gov_reachable demo_platform s \<and> kv_get (proposals s) 1 = Some p
     \<and> no (tally p) = prop_total_power p \<and> yes (tally p) = 0
     \<and> execute_execute demo_platform demo_host s (demo_second 1030) \<lparr> sender = ''ann'' \<rparr> 1 = Ok (s', ms)
     \<and> ms = msgs p"
  using demo_gov3_reachable demo_gov_run4
  by (intro exI [of _ demo_gov3] exI [of _ "the (kv_get (proposals demo_gov3) 1)"] exI [of _ demo_gov4]
      exI [of _ "[''pay bob'']"]) (simp add: demo_gov_defs)

text \<open>
  The deposit released is the current setting, not the amount taken: after the administrator raises
  it, a passed proposal cannot be executed, the subtraction underflows.
\<close>

definition demo_raise :: gov_update where
  "demo_raise = \<lparr> up_threshold = None, up_max_voting_period = None, up_min_voting_period = None,
     up_dao = None, up_hold_duration = None, up_creation_limit = Some 30 \<rparr>"

theorem raised_deposit_blocks_execution:
  "\<exists>s. gov_execute demo_platform demo_host demo_gov2 (demo_second 1020) \<lparr> sender = ''boss'' \<rparr>
       (Update_gov demo_raise) = Ok (s, [])
     \<and> gov_execute demo_platform demo_host demo_gov2 (demo_second 1030) \<lparr> sender = ''ann'' \<rparr>
       (Execute_proposal 1) \<noteq> Panic
     \<and> gov_execute demo_platform demo_host s (demo_second 1030) \<lparr> sender = ''ann'' \<rparr>
       (Execute_proposal 1) = Panic"
  by (simp add: gov_update_config_def or_else_def demo_raise_def gov_run_defs demo_gov_defs checked_int_defs Let_def)

end
