(* ===== verification/Dao.thy ===== *)
theory Dao
  imports Staking_Proofs Proposal_Proofs
begin

text \<open>
  The governance contract on top of the staking contract: the queries that
  \<open>get_voting_power\<close> and \<open>get_total_power\<close> of \<open>syneswap_proposal\<close> send are answered by the query
  entry point of \<open>syneswap_staking\<close>.  The ballots then carry the decayed stake of the voter, as
  long as no lock of the voter has ended.
\<close>

section \<open>The staking contract as the DAO\<close>

definition answer :: "('e, 'a) outcome \<Rightarrow> 'a option" where
  "answer r = (case r of Ok x \<Rightarrow> Some x | _ \<Rightarrow> None)"

lemma answer_Some_iff [simp]: "answer r = Some x \<longleftrightarrow> r = Ok x"
  by (simp add: answer_def split: outcome.split)

definition dao_of_staking ::
  "platform \<Rightarrow> string \<Rightarrow> staking_state \<Rightarrow> env \<Rightarrow> (proposal \<Rightarrow> nat) \<Rightarrow> dao_host"
where
  "dao_of_staking P at s e sz =
     \<lparr> dao_balance = (\<lambda>d a. if d = at then answer (staking_query_balance P s e a) else None),
       dao_durations = (\<lambda>d. if d = at then and_then (staking_query_config s) (\<lambda>c. Ok (duration_values c))
                            else Err (Generic_err ''Querier contract error'')),
       dao_total_balance = (\<lambda>d t. if d = at then answer (query_total_balance s (seconds (block e)) t) else None),
       encoded_size = sz \<rparr>"

section \<open>The balance query without expired locks\<close>

text \<open>The power a wallet holds through one of its positions.\<close>

definition held_power :: "staking_state \<Rightarrow> nat \<Rightarrow> addr \<Rightarrow> nat \<Rightarrow> nat" where
  "held_power s now a d =
     (let u = position_of s a d in
      if 0 < mint_time u
      then power_left (user_balance u) (lock_time_frame (config s) * d) (now - mint_time u) else 0)"

lemma held_power_le: "held_power s now a d \<le> user_balance (position_of s a d)"
  by (simp add: held_power_def Let_def power_left_le)

lemma decayed_Ok:
  assumes "decayed bal month diff old = Ok x" and "diff < month"
  shows "x = power_left bal month diff"
  using assms by (auto simp: decayed_def power_left_def outcome_simps arith_simps split: if_splits)

definition locked_now :: "staking_state \<Rightarrow> nat \<Rightarrow> addr \<Rightarrow> nat \<Rightarrow> bool" where
  "locked_now s now a d \<longleftrightarrow> (\<forall>u. kv_get (positions s) (a, d) = Some u \<longrightarrow>
     now < mint_time u + lock_time_frame (config s) * d)"

lemma balance_loop_sum:
  assumes "balance_loop s now a ds bal tot = Ok r" and "\<forall>d \<in> set ds. locked_now s now a d"
  shows "r = tot + sum_list (map (held_power s now a) ds)"
  using assms
proof (induction ds arbitrary: bal tot)
  case (Cons d ds)
  let ?u = "position_of s a d"
  show ?case
  proof (cases "0 < mint_time ?u")
    case False
    with Cons.prems Cons.IH [of bal tot] show ?thesis by (simp add: held_power_def Let_def)
  next
    case True
    then have "kv_get (positions s) (a, d) = Some ?u"
      by (simp add: position_of_def no_user_info_def split: option.splits)
    with Cons.prems(2) have lock: "now < mint_time ?u + lock_time_frame (config s) * d"
      by (simp add: locked_now_def)
    from Cons.prems(1) True obtain bal' where
      bal': "decayed (user_balance ?u) (lock_time_frame (config s) * d) (now - mint_time ?u) bal = Ok bal'"
        "mint_time ?u \<le> now" and rest: "balance_loop s now a ds bal' (tot + bal') = Ok r"
      by (auto simp: Let_def outcome_simps arith_simps)
    have "bal' = held_power s now a d"
      using decayed_Ok [OF bal'(1)] lock bal'(2) True by (simp add: held_power_def Let_def)
    with Cons.IH [OF rest] Cons.prems(2) show ?thesis by simp
  qed
qed simp

section \<open>Properties\<close>

text \<open>
  C38: A ballot cast on a proposal of a DAO whose voting power comes from the staking contract
  carries the sum of the voter's decayed positions over the durations, and so never more than the
  voter's locked balance, provided that no lock of the voter has ended.
\<close>

theorem ballots_carry_the_decayed_stake:
  assumes "platform_exact P" and "dao (gov_config g) = at"
    and "execute_vote P (dao_of_staking P at s e sz) g e info pid v = Ok g'"
    and "\<forall>d \<in> set (duration_values (config s)). \<forall>u. kv_get (positions s) (sender info, d) = Some u \<longrightarrow>
      seconds (block e) < mint_time u + lock_time_frame (config s) * d"
  shows "\<exists>b. kv_get (ballots g') (pid, sender info) = Some b \<and> ballot_vote b = v
    \<and> ballot_power b = (\<Sum>d\<leftarrow>duration_values (config s). held_power s (seconds (block e)) (sender info) d)
    \<and> ballot_power b \<le> (\<Sum>d\<leftarrow>duration_values (config s). user_balance (position_of s (sender info) d))"
  using assms(3)
proof (rule vote_cases)
  fix p b vs vs' st tp
  let ?H = "dao_of_staking P at s e sz" and ?now = "seconds (block e)" and ?a = "sender info"
  let ?n = "get_voting_power ?H ?a (dao (gov_config g))"
  assume n: "0 < ?n" and re: "recast p (kv_get (ballots g) (pid, ?a)) v ?n = Ok (b, vs)"
    and g': "g' = g\<lparr> ballots := kv_set (ballots g) (pid, ?a) b,
            proposals := kv_set (proposals g) pid (p\<lparr> tally := vs', prop_total_power := tp, status := st \<rparr>) \<rparr>"
  from n have "staking_query_balance P s e ?a = Ok ?n"
    using assms(2) by (simp add: get_voting_power_def dao_of_staking_def split: option.splits)
  with assms(1) have "balance_loop s ?now ?a (duration_values (config s)) 0 0 = Ok ?n"
    by (auto simp: staking_query_balance_def outcome_simps dest: platform_exactD)
  from balance_loop_sum [OF this] assms(4)
  have "?n = (\<Sum>d\<leftarrow>duration_values (config s). held_power s ?now ?a d)"
    by (simp add: locked_now_def)
  moreover have "b = \<lparr> ballot_power = ?n, ballot_vote = v \<rparr>"
    using re by (cases rule: recast_cases) simp_all
  moreover have "(\<Sum>d\<leftarrow>duration_values (config s). held_power s ?now ?a d)
      \<le> (\<Sum>d\<leftarrow>duration_values (config s). user_balance (position_of s ?a d))"
    by (intro sum_list_mono held_power_le)
  ultimately show ?thesis using g' by simp
qed

section \<open>A sample run\<close>

definition staking_at :: "staking_state \<Rightarrow> nat \<Rightarrow> dao_host" where
  "staking_at s t = dao_of_staking demo_platform ''staking'' s (at_second t) (\<lambda>p. 500)"

definition demo_motion :: "nat \<Rightarrow> proposal" where
  "demo_motion t = demo_proposal\<lparr> expires_at := At_time ((t + 50) * 1000000000), voting_start_time := t \<rparr>"

definition demo_open :: "nat \<Rightarrow> gov_state" where
  "demo_open t = demo_gov1\<lparr> proposals := [(1, demo_motion t)] \<rparr>"

definition demo_voted :: "nat \<Rightarrow> nat \<Rightarrow> nat \<Rightarrow> gov_state" where
  "demo_voted t n tot = (demo_open t)\<lparr>
     ballots := [((1, ''ann''), \<lparr> ballot_power = n, ballot_vote = Yes \<rparr>)],
     proposals := [(1, (demo_motion t)\<lparr> tally := \<lparr> yes = n, no = 0, abstain = 0 \<rparr>,
       prop_total_power := tot, status := Passed \<rparr>)] \<rparr>"

lemmas dao_run_defs =
  staking_at_def dao_of_staking_def answer_def demo_motion_def demo_open_def demo_voted_def
  staking_query_balance_def staking_query_config_def query_total_balance_def position_of_def
  no_user_info_def no_balance_info_def decayed_def reward_calc_unit_def at_second_def

lemma demo_dao_vote:
  "execute_vote demo_platform (staking_at demo_stk1 1000) (demo_open 1000) (at_second 1000) \<lparr> sender = ''ann'' \<rparr> 1 Yes
     = Ok (demo_voted 1000 300 300)"
  by (simp add: dao_run_defs gov_run_defs demo_gov_defs demo_staking_defs checked_int_defs Let_def)

theorem ballots_carry_the_decayed_stake_witness:
  "ballot_power (the (kv_get (ballots (demo_voted 1000 300 300)) (1, ''ann''))) = 300
    \<and> 300 = (\<Sum>d\<leftarrow>[1, 3, 6, 12, 24]. held_power demo_stk1 1000 ''ann'' d)"
  using ballots_carry_the_decayed_stake [OF demo_platform_exact _ demo_dao_vote [unfolded staking_at_def]]
  by (simp add: dao_run_defs demo_gov_defs demo_staking_defs held_power_def power_left_def seconds_def Let_def)

text \<open>
  An expired lock inflates the ballots: there are reachable states of the staking contract and
  of a governance contract that asks it for the voting power, in which a single voter, whose
  positions carry a power of 100, has cast a ballot of 200, twice the total power of the DAO.
\<close>

theorem expired_lock_inflates_the_ballot:
  "\<exists>s g p. staking_reachable demo_platform s \<and> gov_reachable demo_platform g
     \<and> kv_get (proposals g) 1 = Some p \<and> ballots g = [((1, ''ann''), \<lparr> ballot_power = 200, ballot_vote = Yes \<rparr>)]
     \<and> yes (tally p) = 200 \<and> prop_total_power p = 100
     \<and> get_total_power (dao_of_staking demo_platform ''staking'' s (at_second 5000) (\<lambda>p. 500)) ''staking'' = Ok 100
     \<and> (\<Sum>d\<leftarrow>duration_values (config s). held_power s 5000 ''ann'' d) = 100"
proof -
  have "gov_execute demo_platform (staking_at demo_stk3 5000) demo_gov0 (at_second 5000) \<lparr> sender = ''ann'' \<rparr>
      (Propose ''t'' ''d'' [''pay bob''] (Time 50)) = Ok (demo_open 5000, [])"
    by (simp add: dao_run_defs gov_run_defs demo_gov_defs demo_staking_defs checked_int_defs Let_def)
  then have one: "gov_reachable demo_platform (demo_open 5000)"
    by (rule gov_next [OF gov_start [OF demo_gov_start] gov_message])
  have "gov_execute demo_platform (staking_at demo_stk3 5000) (demo_open 5000) (at_second 5000) \<lparr> sender = ''ann'' \<rparr>
      (Cast_vote 1 Yes) = Ok (demo_voted 5000 200 100, [])"
    by (simp add: dao_run_defs gov_run_defs demo_gov_defs demo_staking_defs checked_int_defs Let_def)
  then have two: "gov_reachable demo_platform (demo_voted 5000 200 100)"
    by (rule gov_next [OF one gov_message])
  show ?thesis
    by (rule exI [of _ demo_stk3], rule exI [of _ "demo_voted 5000 200 100"],
        rule exI [of _ "the (kv_get (proposals (demo_voted 5000 200 100)) 1)"],
        intro conjI demo_stk3_reachable two)
      (simp_all add: dao_run_defs get_total_power_def demo_gov_defs demo_staking_defs held_power_def
        power_left_def seconds_def checked_int_defs Let_def)
qed

end
