(* ===== verification/Vesting.thy ===== *)
theory Vesting
  imports Curve Cw20_Base
begin

text \<open>
  The vesting token of \<open>contracts/cw20-vesting\<close>: a token whose accounts may carry a vesting
  schedule (a decreasing curve of still locked tokens), whose minting cap is a curve over time,
  and whose holders may delegate locked tokens to one staking contract.  The schedules and the
  cap are the curves of \<open>Curve\<close>; allowances, marketing data, logos and the receive message have
  the shape they have in \<open>Cw20_Base\<close>.
\<close>

section \<open>State and errors\<close>

datatype vest_error =
    V_std std_error
  | V_curve curve_error
  | V_unauthorized
  | V_invalid_name
  | V_invalid_symbol
  | V_too_many_decimals
  | V_cannot_set_own_account
  | V_invalid_zero_amount
  | V_expired
  | V_no_allowance
  | V_cannot_exceed_cap
  | V_logo_too_big
  | V_invalid_xml_preamble
  | V_invalid_png_header
  | V_duplicate_initial_balance_addresses
  | V_never_fully_vested
  | V_vests_more_than_sent
  | V_cant_move_vesting_tokens
  | V_not_enough_to_delegate
  | V_address_not_found
  | V_address_already_exist
  | V_at_least_one_address_must_exist
  | V_staking_address_not_set
  | V_staking_address_already_updated
  | V_minter_address_not_set
  | V_unauthorized_update_staking_address
  | V_unauthorized_undelegate
  | V_no_tokens_delegated
  | V_migration_incorrect_curve

record vest_minter_data =
  v_minter :: addr
  v_cap :: "curve option"

record vest_token_info =
  v_name :: string
  v_symbol :: string
  v_decimals :: nat
  v_total_supply :: nat
  v_mint :: "vest_minter_data option"

text \<open>An optional curve evaluated at the time of a block, in seconds.\<close>

definition curve_now :: "block_info \<Rightarrow> curve option \<Rightarrow> ('e, nat option) outcome" where
  "curve_now b c = traverse_opt (\<lambda>c. curve_value c (seconds b)) c"

definition vest_get_cap :: "vest_token_info \<Rightarrow> block_info \<Rightarrow> ('e, nat option) outcome" where
  "vest_get_cap ti b = curve_now b (case v_mint ti of None \<Rightarrow> None | Some m \<Rightarrow> v_cap m)"

record vest_state =
  v_version :: "(string \<times> string) option"
  v_allowlist :: "addr list option"
  v_token :: "vest_token_info option"
  v_marketing :: "marketing_info option"
  v_logo :: "logo option"
  v_balances :: "(addr, nat) kv"
  v_allowances :: "(addr \<times> addr, allowance) kv"
  v_vesting :: "(addr, curve) kv"
  v_max_complexity :: "nat option"
  v_staking :: "addr option"
  v_delegated :: "(addr, nat) kv"

definition vest_empty :: vest_state where
  "vest_empty = \<lparr> v_version = None, v_allowlist = None, v_token = None, v_marketing = None,
     v_logo = None, v_balances = [], v_allowances = [], v_vesting = [], v_max_complexity = None,
     v_staking = None, v_delegated = [] \<rparr>"

definition vest_contract_name :: string where "vest_contract_name = ''crates.io:cw20-vesting''"
definition vest_contract_version :: string where "vest_contract_version = ''1.0.0''"

section \<open>Logos\<close>

definition vest_logo_size_cap :: nat where "vest_logo_size_cap = 5 * 1024"

definition vest_verify_xml_preamble :: "bytes \<Rightarrow> (vest_error, unit) outcome" where
  "vest_verify_xml_preamble data =
     and_then (ok_or V_invalid_xml_preamble (split_inclusive_first data)) (\<lambda>preamble.
     if \<not> (starts_with preamble ''<?xml '' \<and> ends_with preamble ''?>'')
     then Err V_invalid_xml_preamble
     else Ok ())"

definition vest_verify_xml_logo :: "bytes \<Rightarrow> (vest_error, unit) outcome" where
  "vest_verify_xml_logo data =
     and_then (vest_verify_xml_preamble data) (\<lambda>_.
     if length data > vest_logo_size_cap then Err V_logo_too_big else Ok ())"

definition vest_verify_png_logo :: "bytes \<Rightarrow> (vest_error, unit) outcome" where
  "vest_verify_png_logo data =
     (if length data > vest_logo_size_cap then Err V_logo_too_big
      else if \<not> starts_with data png_header then Err V_invalid_png_header
      else Ok ())"

fun vest_verify_logo :: "logo \<Rightarrow> (vest_error, unit) outcome" where
  "vest_verify_logo (Logo_svg data) = vest_verify_xml_logo data"
| "vest_verify_logo (Logo_png data) = vest_verify_png_logo data"
| "vest_verify_logo (Logo_url _) = Ok ()"

section \<open>Schedules\<close>

text \<open>
  A schedule that may be attached to \<open>amount\<close> tokens: it never increases, it reaches zero and
  it never locks more than is sent.
\<close>

definition assert_schedule_vests_amount :: "curve \<Rightarrow> nat \<Rightarrow> (vest_error, unit) outcome" where
  "assert_schedule_vests_amount schedule amount =
     and_then (map_err V_curve (validate_monotonic_decreasing schedule)) (\<lambda>_.
     and_then (curve_range schedule) (\<lambda>(low, high).
     if low \<noteq> 0 then Err V_never_fully_vested
     else if high > amount then Err V_vests_more_than_sent
     else Ok ()))"

definition fully_vested :: "curve \<Rightarrow> block_info \<Rightarrow> ('e, bool) outcome" where
  "fully_vested schedule b = and_then (curve_value schedule (seconds b)) (\<lambda>v. Ok (v = 0))"

text \<open>The cast \<open>as usize\<close> of a \<open>u64\<close>; the contracts run on \<open>wasm32\<close>, where it truncates.\<close>

definition as_usize :: "nat \<Rightarrow> nat" where "as_usize n = n mod 2 ^ 32"

definition check_complexity :: "nat option \<Rightarrow> curve \<Rightarrow> (vest_error, unit) outcome" where
  "check_complexity limit c =
     and_then (map_err V_std (ok_or (Not_found ''u64'') limit)) (\<lambda>m.
     map_err V_curve (validate_complexity c (as_usize m)))"

section \<open>Instantiation\<close>

record vest_coin =
  v_coin_address :: string
  v_coin_amount :: nat
  v_coin_vesting :: "curve option"

record vest_minter_request =
  v_req_minter :: string
  v_req_cap :: "curve option"

record vest_instantiate_msg =
  vm_name :: string
  vm_symbol :: string
  vm_decimals :: nat
  vm_initial_balances :: "vest_coin list"
  vm_mint :: "vest_minter_request option"
  vm_marketing :: "marketing_request option"
  vm_allowed_vesters :: "string list option"
  vm_max_curve_complexity :: nat

definition vm_get_curve :: "vest_instantiate_msg \<Rightarrow> curve option" where
  "vm_get_curve msg = (case vm_mint msg of None \<Rightarrow> None | Some m \<Rightarrow> v_req_cap m)"

definition vm_get_cap :: "vest_instantiate_msg \<Rightarrow> block_info \<Rightarrow> ('e, nat option) outcome" where
  "vm_get_cap msg b = curve_now b (vm_get_curve msg)"

definition is_valid_name :: "string \<Rightarrow> bool" where
  "is_valid_name n = (if length n < 3 \<or> length n > 50 then False else True)"

definition is_valid_symbol :: "string \<Rightarrow> bool" where
  "is_valid_symbol s =
     (if length s < 3 \<or> length s > 12 then False
      else list_all (\<lambda>c. let b = of_char c :: nat in
             \<not> (b \<noteq> 45 \<and> (b < 65 \<or> b > 90) \<and> (b < 97 \<or> b > 122))) s)"

definition vm_validate :: "vest_instantiate_msg \<Rightarrow> (vest_error, unit) outcome" where
  "vm_validate msg =
     (if \<not> is_valid_name (vm_name msg) then Err V_invalid_name
      else if \<not> is_valid_symbol (vm_symbol msg) then Err V_invalid_symbol
      else if vm_decimals msg > 18 then Err V_too_many_decimals
      else case vm_get_curve msg of
             Some c \<Rightarrow> map_err V_curve (validate_monotonic_increasing c)
           | None \<Rightarrow> Ok ())"

definition vest_validate_accounts :: "vest_coin list \<Rightarrow> (vest_error, unit) outcome" where
  "vest_validate_accounts accounts =
     (let addresses = remdups_adj (sort (map v_coin_address accounts))
      in if length addresses \<noteq> length accounts then Err V_duplicate_initial_balance_addresses
         else Ok ())"

text \<open>One round of the loop of \<open>create_accounts\<close>; the accumulator holds the supply so far.\<close>

definition vest_save_account ::
  "platform \<Rightarrow> env \<Rightarrow> vest_coin \<Rightarrow> nat \<times> vest_state \<Rightarrow> (vest_error, nat \<times> vest_state) outcome"
where
  "vest_save_account P e row acc =
     (case acc of (tot, s) \<Rightarrow>
     and_then
       (case v_coin_vesting row of
          Some c \<Rightarrow>
            and_then (assert_schedule_vests_amount c (v_coin_amount row)) (\<lambda>_.
            and_then (fully_vested c (block e)) (\<lambda>done_already.
            Ok (if done_already then None else Some c)))
        | None \<Rightarrow> Ok None) (\<lambda>vesting.
     and_then (map_err V_std (addr_validate P (v_coin_address row))) (\<lambda>a.
     and_then
       (case vesting of
          Some c \<Rightarrow> and_then (check_complexity (v_max_complexity s) c) (\<lambda>_.
                    Ok (s\<lparr> v_vesting := kv_set (v_vesting s) a c \<rparr>))
        | None \<Rightarrow> Ok s) (\<lambda>s'.
     let s'' = s'\<lparr> v_balances := kv_set (v_balances s') a (v_coin_amount row) \<rparr> in
     and_then (u128_add tot (v_coin_amount row)) (\<lambda>tot'. Ok (tot', s''))))))"

definition vest_create_accounts ::
  "platform \<Rightarrow> env \<Rightarrow> vest_coin list \<Rightarrow> vest_state \<Rightarrow> (vest_error, nat \<times> vest_state) outcome"
where
  "vest_create_accounts P e accounts s =
     and_then (vest_validate_accounts accounts) (\<lambda>_.
     fold_ok (vest_save_account P e) accounts (0, s))"

definition vest_instantiate_minter ::
  "platform \<Rightarrow> vest_minter_request option \<Rightarrow> (vest_error, vest_minter_data option) outcome"
where
  "vest_instantiate_minter P req =
     (case req of
        Some m \<Rightarrow> and_then (map_err V_std (addr_validate P (v_req_minter m))) (\<lambda>a.
                  Ok (Some \<lparr> v_minter = a, v_cap = v_req_cap m \<rparr>))
      | None \<Rightarrow> Ok None)"

definition vest_instantiate_marketing ::
  "platform \<Rightarrow> vest_state \<Rightarrow> marketing_request \<Rightarrow> (vest_error, vest_state) outcome"
where
  "vest_instantiate_marketing P s m =
     and_then
       (case req_logo m of
          Some l \<Rightarrow> and_then (vest_verify_logo l) (\<lambda>_. Ok (s\<lparr> v_logo := Some l \<rparr>, Some (logo_info_of l)))
        | None \<Rightarrow> Ok (s, None)) (\<lambda>(s', info).
     and_then (map_err V_std (traverse_opt (addr_validate P) (req_marketing m))) (\<lambda>a.
     Ok (s'\<lparr> v_marketing := Some \<lparr> mk_project = req_project m, mk_description = req_description m,
           mk_marketing = a, mk_logo = info \<rparr> \<rparr>)))"

definition vest_instantiate ::
  "platform \<Rightarrow> env \<Rightarrow> message_info \<Rightarrow> vest_instantiate_msg \<Rightarrow> (vest_error, vest_state) outcome"
where
  "vest_instantiate P e info msg =
     and_then (vm_validate msg) (\<lambda>_.
     and_then (vm_get_cap msg (block e)) (\<lambda>limit.
     let s = vest_empty\<lparr> v_version := Some (vest_contract_name, vest_contract_version),
               v_max_complexity := Some (vm_max_curve_complexity msg) \<rparr> in
     and_then (vest_create_accounts P e (vm_initial_balances msg) s) (\<lambda>(tot, s1).
     and_then (case limit of
                 Some l \<Rightarrow> if tot > l then Err (V_std (Generic_err ''Initial supply greater than cap''))
                          else Ok ()
               | None \<Rightarrow> Ok ()) (\<lambda>_.
     and_then (vest_instantiate_minter P (vm_mint msg)) (\<lambda>m.
     let s2 = s1\<lparr> v_token := Some \<lparr> v_name = vm_name msg, v_symbol = vm_symbol msg,
                v_decimals = vm_decimals msg, v_total_supply = tot, v_mint = m \<rparr> \<rparr> in
     and_then (case vm_marketing msg of
                 Some k \<Rightarrow> vest_instantiate_marketing P s2 k
               | None \<Rightarrow> Ok s2) (\<lambda>s3.
     and_then (case vm_allowed_vesters msg of
                 Some addrs \<Rightarrow> map_err V_std (map_ok (addr_validate P) addrs)
               | None \<Rightarrow> Ok [sender info]) (\<lambda>al.
     Ok (s3\<lparr> v_allowlist := Some al \<rparr>))))))))"

section \<open>Moving tokens\<close>

text \<open>
  Every debit goes through \<open>deduct_coins\<close>: it drops a schedule that has run out and demands
  that the balance and the delegated tokens left still cover what the schedule locks.
\<close>

definition deduct_coins ::
  "vest_state \<Rightarrow> env \<Rightarrow> addr \<Rightarrow> nat \<Rightarrow> (vest_error, vest_state) outcome"
where
  "deduct_coins s e a amount =
     and_then (curve_now (block e) (kv_get (v_vesting s) a)) (\<lambda>now.
     let vesting = (case now of None \<Rightarrow> 0 | Some v \<Rightarrow> v);
         s' = (if vesting = 0 then s\<lparr> v_vesting := kv_del (v_vesting s) a \<rparr> else s);
         delegated = kv_nat (v_delegated s') a;
         balance = kv_nat (v_balances s') a in
     and_then (u128_add balance delegated) (\<lambda>held.
     and_then (map_err V_std (u128_checked_sub held amount)) (\<lambda>remainder.
     if vesting > remainder then Err V_cant_move_vesting_tokens
     else
     and_then (map_err V_std (u128_checked_sub balance amount)) (\<lambda>b.
     Ok (s'\<lparr> v_balances := kv_set (v_balances s') a b \<rparr>)))))"

text \<open>The closure with which every operation credits \<open>BALANCES\<close>.\<close>

definition credit_coins :: "vest_state \<Rightarrow> addr \<Rightarrow> nat \<Rightarrow> (vest_error, vest_state) outcome" where
  "credit_coins s a amount =
     and_then (u128_add (kv_nat (v_balances s) a) amount) (\<lambda>b.
     Ok (s\<lparr> v_balances := kv_set (v_balances s) a b \<rparr>))"

definition vest_supply_sub :: "vest_state \<Rightarrow> nat \<Rightarrow> (vest_error, vest_state) outcome" where
  "vest_supply_sub s amount =
     and_then (map_err V_std (ok_or (Not_found ''TokenInfo'') (v_token s))) (\<lambda>t.
     and_then (map_err V_std (u128_checked_sub (v_total_supply t) amount)) (\<lambda>n.
     Ok (s\<lparr> v_token := Some (t\<lparr> v_total_supply := n \<rparr>) \<rparr>)))"

definition vest_execute_transfer ::
  "platform \<Rightarrow> vest_state \<Rightarrow> env \<Rightarrow> message_info \<Rightarrow> string \<Rightarrow> nat \<Rightarrow> (vest_error, vest_state) outcome"
where
  "vest_execute_transfer P s e info recipient amount =
     (if amount = 0 then Err V_invalid_zero_amount
      else
      and_then (map_err V_std (addr_validate P recipient)) (\<lambda>rcpt.
      and_then (deduct_coins s e (sender info) amount) (\<lambda>s'.
      credit_coins s' rcpt amount)))"

text \<open>The closure that attaches a new schedule to what the recipient already has.\<close>

definition attach_schedule ::
  "nat option \<Rightarrow> (addr, curve) kv \<Rightarrow> addr \<Rightarrow> curve \<Rightarrow> (vest_error, (addr, curve) kv) outcome"
where
  "attach_schedule limit vs a schedule =
     and_then (map_err V_std (ok_or (Not_found ''u64'') limit)) (\<lambda>m.
     and_then (case kv_get vs a of
                 Some old \<Rightarrow> curve_combine old schedule
               | None \<Rightarrow> Ok schedule) (\<lambda>c.
     and_then (map_err V_curve (validate_complexity c (as_usize m))) (\<lambda>_.
     Ok (kv_set vs a c))))"

definition vest_execute_transfer_vesting ::
  "platform \<Rightarrow> vest_state \<Rightarrow> env \<Rightarrow> message_info \<Rightarrow> string \<Rightarrow> nat \<Rightarrow> curve
     \<Rightarrow> (vest_error, vest_state) outcome"
where
  "vest_execute_transfer_vesting P s e info recipient amount schedule =
     and_then (map_err V_std (ok_or (Not_found ''Vec<Addr>'') (v_allowlist s))) (\<lambda>al.
     if sender info \<notin> set al then Err V_unauthorized
     else if amount = 0 then Err V_invalid_zero_amount
     else
     and_then (assert_schedule_vests_amount schedule amount) (\<lambda>_.
     and_then (map_err V_std (addr_validate P recipient)) (\<lambda>rcpt.
     and_then (fully_vested schedule (block e)) (\<lambda>done_already.
     and_then (if done_already then Ok s
               else and_then (attach_schedule (v_max_complexity s) (v_vesting s) rcpt schedule) (\<lambda>vs.
                    Ok (s\<lparr> v_vesting := vs \<rparr>))) (\<lambda>s1.
     and_then (deduct_coins s1 e (sender info) amount) (\<lambda>s2.
     credit_coins s2 rcpt amount))))))"

definition vest_execute_burn ::
  "vest_state \<Rightarrow> env \<Rightarrow> message_info \<Rightarrow> nat \<Rightarrow> (vest_error, vest_state) outcome"
where
  "vest_execute_burn s e info amount =
     (if amount = 0 then Err V_invalid_zero_amount
      else
      and_then (deduct_coins s e (sender info) amount) (\<lambda>s'.
      vest_supply_sub s' amount))"

definition vest_execute_mint ::
  "platform \<Rightarrow> vest_state \<Rightarrow> env \<Rightarrow> message_info \<Rightarrow> string \<Rightarrow> nat \<Rightarrow> (vest_error, vest_state) outcome"
where
  "vest_execute_mint P s e info recipient amount =
     (if amount = 0 then Err V_invalid_zero_amount
      else
      and_then (map_err V_std (ok_or (Not_found ''TokenInfo'') (v_token s))) (\<lambda>config.
      case v_mint config of
        None \<Rightarrow> Err V_unauthorized
      | Some m \<Rightarrow>
          if v_minter m \<noteq> sender info then Err V_unauthorized
          else
          and_then (u128_add (v_total_supply config) amount) (\<lambda>tot.
          let config' = config\<lparr> v_total_supply := tot \<rparr> in
          and_then (vest_get_cap config' (block e)) (\<lambda>limit.
          and_then (case limit of
                      Some l \<Rightarrow> if tot > l then Err V_cannot_exceed_cap else Ok ()
                    | None \<Rightarrow> Ok ()) (\<lambda>_.
          and_then (map_err V_std (addr_validate P recipient)) (\<lambda>rcpt.
          credit_coins (s\<lparr> v_token := Some config' \<rparr>) rcpt amount))))))"

definition vest_execute_update_minter ::
  "platform \<Rightarrow> vest_state \<Rightarrow> message_info \<Rightarrow> string \<Rightarrow> (vest_error, vest_state) outcome"
where
  "vest_execute_update_minter P s info new_minter =
     and_then (map_err V_std (ok_or (Not_found ''TokenInfo'') (v_token s))) (\<lambda>config.
     and_then (map_err V_std (addr_validate P new_minter)) (\<lambda>a.
     case v_mint config of
       Some old \<Rightarrow>
         if v_minter old \<noteq> sender info then Err V_unauthorized
         else Ok (s\<lparr> v_token := Some (config\<lparr> v_mint := Some (old\<lparr> v_minter := a \<rparr>) \<rparr>) \<rparr>)
     | None \<Rightarrow> Err V_unauthorized))"

text \<open>The messages a contract is sent: received tokens, and received delegations.\<close>

datatype vest_out = Receive receive_msg | Receive_delegation receive_msg

definition vest_execute_send ::
  "platform \<Rightarrow> vest_state \<Rightarrow> env \<Rightarrow> message_info \<Rightarrow> string \<Rightarrow> nat \<Rightarrow> bytes
     \<Rightarrow> (vest_error, vest_state \<times> vest_out list) outcome"
where
  "vest_execute_send P s e info contract amount payload =
     (if amount = 0 then Err V_invalid_zero_amount
      else
      and_then (map_err V_std (addr_validate P contract)) (\<lambda>rcpt.
      and_then (deduct_coins s e (sender info) amount) (\<lambda>s'.
      and_then (credit_coins s' rcpt amount) (\<lambda>s''.
      Ok (s'', [Receive \<lparr> receiver = contract, receive_sender = sender info,
                  receive_amount = amount, receive_payload = payload \<rparr>])))))"

section \<open>Marketing\<close>

definition vest_execute_update_marketing ::
  "platform \<Rightarrow> vest_state \<Rightarrow> message_info \<Rightarrow> string option \<Rightarrow> string option \<Rightarrow> string option
     \<Rightarrow> (vest_error, vest_state) outcome"
where
  "vest_execute_update_marketing P s info project description marketing =
     and_then (ok_or V_unauthorized (v_marketing s)) (\<lambda>mi.
     and_then (ok_or V_unauthorized (mk_marketing mi)) (\<lambda>owner.
     if owner \<noteq> sender info then Err V_unauthorized
     else
     and_then (case marketing of
                 Some t \<Rightarrow> if blank t then Ok None
                          else and_then (map_err V_std (addr_validate P t)) (\<lambda>a. Ok (Some a))
               | None \<Rightarrow> Ok (mk_marketing mi)) (\<lambda>m.
     let mi' = mi\<lparr> mk_project := edit_text project (mk_project mi),
                   mk_description := edit_text description (mk_description mi),
                   mk_marketing := m \<rparr>
     in Ok (s\<lparr> v_marketing :=
          (if mk_project mi' = None \<and> mk_description mi' = None \<and> mk_marketing mi' = None
              \<and> mk_logo mi' = None then None else Some mi') \<rparr>))))"

definition vest_execute_upload_logo ::
  "vest_state \<Rightarrow> message_info \<Rightarrow> logo \<Rightarrow> (vest_error, vest_state) outcome"
where
  "vest_execute_upload_logo s info l =
     and_then (ok_or V_unauthorized (v_marketing s)) (\<lambda>mi.
     and_then (vest_verify_logo l) (\<lambda>_.
     and_then (ok_or V_unauthorized (mk_marketing mi)) (\<lambda>owner.
     if owner \<noteq> sender info then Err V_unauthorized
     else Ok (s\<lparr> v_logo := Some l,
                v_marketing := Some (mi\<lparr> mk_logo := Some (logo_info_of l) \<rparr>) \<rparr>))))"

section \<open>Who may grant schedules\<close>

definition vest_execute_add_address ::
  "platform \<Rightarrow> vest_state \<Rightarrow> message_info \<Rightarrow> string \<Rightarrow> (vest_error, vest_state) outcome"
where
  "vest_execute_add_address P s info address =
     and_then (map_err V_std (ok_or (Not_found ''Vec<Addr>'') (v_allowlist s))) (\<lambda>al.
     if sender info \<notin> set al then Err V_unauthorized
     else
     and_then (map_err V_std (addr_validate P address)) (\<lambda>a.
     if a \<in> set al then Err V_address_already_exist
     else Ok (s\<lparr> v_allowlist := Some (al @ [a]) \<rparr>)))"

definition vest_execute_remove_address ::
  "platform \<Rightarrow> vest_state \<Rightarrow> message_info \<Rightarrow> string \<Rightarrow> (vest_error, vest_state) outcome"
where
  "vest_execute_remove_address P s info address =
     and_then (map_err V_std (ok_or (Not_found ''Vec<Addr>'') (v_allowlist s))) (\<lambda>al.
     if sender info \<notin> set al then Err V_unauthorized
     else
     and_then (map_err V_std (addr_validate P address)) (\<lambda>a.
     let al' = filter (\<lambda>x. x \<noteq> a) al in
     if length al = length al' then Err V_address_not_found
     else if al' = [] then Err V_at_least_one_address_must_exist
     else Ok (s\<lparr> v_allowlist := Some al' \<rparr>)))"

section \<open>Delegation\<close>

definition vest_execute_update_staking_address ::
  "platform \<Rightarrow> vest_state \<Rightarrow> message_info \<Rightarrow> string \<Rightarrow> (vest_error, vest_state) outcome"
where
  "vest_execute_update_staking_address P s info staking =
     (case v_staking s of
        Some _ \<Rightarrow> Err V_staking_address_already_updated
      | None \<Rightarrow>
          and_then (map_err V_std (ok_or (Not_found ''TokenInfo'') (v_token s))) (\<lambda>ti.
          case v_mint ti of
            Some m \<Rightarrow>
              if sender info = v_minter m then
                and_then (map_err V_std (addr_validate P staking)) (\<lambda>a.
                Ok (s\<lparr> v_staking := Some a \<rparr>))
              else Err V_unauthorized_update_staking_address
          | None \<Rightarrow> Err V_minter_address_not_set))"

text \<open>Delegating moves locked tokens too: no schedule is consulted.\<close>

definition vest_execute_delegate ::
  "vest_state \<Rightarrow> message_info \<Rightarrow> nat \<Rightarrow> bytes \<Rightarrow> (vest_error, vest_state \<times> vest_out list) outcome"
where
  "vest_execute_delegate s info amount payload =
     (if amount = 0 then Err V_invalid_zero_amount
      else
      and_then (ok_or V_staking_address_not_set (v_staking s)) (\<lambda>staking.
      and_then (map_err (\<lambda>_. V_not_enough_to_delegate)
                  (u128_checked_sub (kv_nat (v_balances s) (sender info)) amount)) (\<lambda>b.
      let s1 = s\<lparr> v_balances := kv_set (v_balances s) (sender info) b \<rparr> in
      and_then (credit_coins s1 staking amount) (\<lambda>s2.
      and_then (u128_add (kv_nat (v_delegated s2) (sender info)) amount) (\<lambda>d.
      Ok (s2\<lparr> v_delegated := kv_set (v_delegated s2) (sender info) d \<rparr>,
          [Receive_delegation \<lparr> receiver = staking, receive_sender = sender info,
             receive_amount = amount, receive_payload = payload \<rparr>]))))))"

definition vest_execute_undelegate ::
  "platform \<Rightarrow> vest_state \<Rightarrow> env \<Rightarrow> message_info \<Rightarrow> string \<Rightarrow> nat \<Rightarrow> (vest_error, vest_state) outcome"
where
  "vest_execute_undelegate P s e info recipient amount =
     (if amount = 0 then Err V_invalid_zero_amount
      else
      and_then (ok_or V_staking_address_not_set (v_staking s)) (\<lambda>staking.
      if staking \<noteq> sender info then Err V_unauthorized_undelegate
      else
      and_then (map_err V_std (addr_validate P recipient)) (\<lambda>rcpt.
      if kv_get (v_delegated s) rcpt = None then Err V_no_tokens_delegated
      else
      and_then (map_err V_std (u128_checked_sub (kv_nat (v_delegated s) rcpt) amount)) (\<lambda>d.
      let s1 = s\<lparr> v_delegated := kv_set (v_delegated s) rcpt d \<rparr> in
      and_then (deduct_coins s1 e (sender info) amount) (\<lambda>s2.
      credit_coins s2 rcpt amount)))))"

section \<open>Allowances\<close>

definition vest_execute_increase_allowance ::
  "platform \<Rightarrow> vest_state \<Rightarrow> message_info \<Rightarrow> string \<Rightarrow> nat \<Rightarrow> expiration option
     \<Rightarrow> (vest_error, vest_state) outcome"
where
  "vest_execute_increase_allowance P s info spender amount new_expires =
     and_then (map_err V_std (addr_validate P spender)) (\<lambda>sp.
     if sp = sender info then Err V_cannot_set_own_account
     else
     let val = allowance_or_default (kv_get (v_allowances s) (sender info, sp));
         val' = (case new_expires of Some ex \<Rightarrow> val\<lparr> expires := ex \<rparr> | None \<Rightarrow> val) in
     and_then (u128_add (allowed val') amount) (\<lambda>n.
     Ok (s\<lparr> v_allowances := kv_set (v_allowances s) (sender info, sp) (val'\<lparr> allowed := n \<rparr>) \<rparr>)))"

definition vest_execute_decrease_allowance ::
  "platform \<Rightarrow> vest_state \<Rightarrow> message_info \<Rightarrow> string \<Rightarrow> nat \<Rightarrow> expiration option
     \<Rightarrow> (vest_error, vest_state) outcome"
where
  "vest_execute_decrease_allowance P s info spender amount new_expires =
     and_then (map_err V_std (addr_validate P spender)) (\<lambda>sp.
     if sp = sender info then Err V_cannot_set_own_account
     else
     and_then (map_err V_std (ok_or (Not_found ''AllowanceResponse'')
                 (kv_get (v_allowances s) (sender info, sp)))) (\<lambda>a.
     if amount < allowed a then
       and_then (map_err V_std (u128_checked_sub (allowed a) amount)) (\<lambda>n.
       let a' = a\<lparr> allowed := n \<rparr>;
           a'' = (case new_expires of Some ex \<Rightarrow> a'\<lparr> expires := ex \<rparr> | None \<Rightarrow> a') in
       Ok (s\<lparr> v_allowances := kv_set (v_allowances s) (sender info, sp) a'' \<rparr>))
     else Ok (s\<lparr> v_allowances := kv_del (v_allowances s) (sender info, sp) \<rparr>)))"

definition vest_deduct_allowance ::
  "platform \<Rightarrow> vest_state \<Rightarrow> addr \<Rightarrow> addr \<Rightarrow> block_info \<Rightarrow> nat \<Rightarrow> (vest_error, vest_state) outcome"
where
  "vest_deduct_allowance P s owner spender b amount =
     (case kv_get (v_allowances s) (owner, spender) of
        Some a \<Rightarrow>
          if is_expired P (expires a) b then Err V_expired
          else
          and_then (map_err V_std (u128_checked_sub (allowed a) amount)) (\<lambda>n.
          Ok (s\<lparr> v_allowances := kv_set (v_allowances s) (owner, spender) (a\<lparr> allowed := n \<rparr>) \<rparr>))
      | None \<Rightarrow> Err V_no_allowance)"

definition vest_execute_transfer_from ::
  "platform \<Rightarrow> vest_state \<Rightarrow> env \<Rightarrow> message_info \<Rightarrow> string \<Rightarrow> string \<Rightarrow> nat
     \<Rightarrow> (vest_error, vest_state) outcome"
where
  "vest_execute_transfer_from P s e info owner recipient amount =
     and_then (map_err V_std (addr_validate P recipient)) (\<lambda>rcpt.
     and_then (map_err V_std (addr_validate P owner)) (\<lambda>own.
     and_then (vest_deduct_allowance P s own (sender info) (block e) amount) (\<lambda>s1.
     and_then (deduct_coins s1 e own amount) (\<lambda>s2.
     credit_coins s2 rcpt amount))))"

definition vest_execute_burn_from ::
  "platform \<Rightarrow> vest_state \<Rightarrow> env \<Rightarrow> message_info \<Rightarrow> string \<Rightarrow> nat \<Rightarrow> (vest_error, vest_state) outcome"
where
  "vest_execute_burn_from P s e info owner amount =
     and_then (map_err V_std (addr_validate P owner)) (\<lambda>own.
     and_then (vest_deduct_allowance P s own (sender info) (block e) amount) (\<lambda>s1.
     and_then (deduct_coins s1 e own amount) (\<lambda>s2.
     vest_supply_sub s2 amount)))"

definition vest_execute_send_from ::
  "platform \<Rightarrow> vest_state \<Rightarrow> env \<Rightarrow> message_info \<Rightarrow> string \<Rightarrow> string \<Rightarrow> nat \<Rightarrow> bytes
     \<Rightarrow> (vest_error, vest_state \<times> vest_out list) outcome"
where
  "vest_execute_send_from P s e info owner contract amount payload =
     and_then (map_err V_std (addr_validate P contract)) (\<lambda>rcpt.
     and_then (map_err V_std (addr_validate P owner)) (\<lambda>own.
     and_then (vest_deduct_allowance P s own (sender info) (block e) amount) (\<lambda>s1.
     and_then (deduct_coins s1 e own amount) (\<lambda>s2.
     and_then (credit_coins s2 rcpt amount) (\<lambda>s3.
     Ok (s3, [Receive \<lparr> receiver = contract, receive_sender = sender info,
                receive_amount = amount, receive_payload = payload \<rparr>]))))))"

section \<open>The entry point\<close>

datatype vest_msg =
    Vm_transfer string nat
  | Vm_transfer_vesting string nat curve
  | Vm_burn nat
  | Vm_send string nat bytes
  | Vm_increase_allowance string nat "expiration option"
  | Vm_decrease_allowance string nat "expiration option"
  | Vm_transfer_from string string nat
  | Vm_send_from string string nat bytes
  | Vm_burn_from string nat
  | Vm_mint string nat
  | Vm_update_minter string
  | Vm_update_marketing "string option" "string option" "string option"
  | Vm_upload_logo logo
  | Vm_allow_vester string
  | Vm_deny_vester string
  | Vm_update_staking_address string
  | Vm_delegate nat bytes
  | Vm_undelegate string nat

definition quiet :: "('e, 's) outcome \<Rightarrow> ('e, 's \<times> vest_out list) outcome" where
  "quiet r = and_then r (\<lambda>s. Ok (s, []))"

fun vest_execute ::
  "platform \<Rightarrow> vest_state \<Rightarrow> env \<Rightarrow> message_info \<Rightarrow> vest_msg
     \<Rightarrow> (vest_error, vest_state \<times> vest_out list) outcome"
where
  "vest_execute P s e info (Vm_transfer r n) = quiet (vest_execute_transfer P s e info r n)"
| "vest_execute P s e info (Vm_transfer_vesting r n c) =
     quiet (vest_execute_transfer_vesting P s e info r n c)"
| "vest_execute P s e info (Vm_burn n) = quiet (vest_execute_burn s e info n)"
| "vest_execute P s e info (Vm_send c n m) = vest_execute_send P s e info c n m"
| "vest_execute P s e info (Vm_increase_allowance sp n ex) =
     quiet (vest_execute_increase_allowance P s info sp n ex)"
| "vest_execute P s e info (Vm_decrease_allowance sp n ex) =
     quiet (vest_execute_decrease_allowance P s info sp n ex)"
| "vest_execute P s e info (Vm_transfer_from own r n) =
     quiet (vest_execute_transfer_from P s e info own r n)"
| "vest_execute P s e info (Vm_send_from own c n m) = vest_execute_send_from P s e info own c n m"
| "vest_execute P s e info (Vm_burn_from own n) = quiet (vest_execute_burn_from P s e info own n)"
| "vest_execute P s e info (Vm_mint r n) = quiet (vest_execute_mint P s e info r n)"
| "vest_execute P s e info (Vm_update_minter m) = quiet (vest_execute_update_minter P s info m)"
| "vest_execute P s e info (Vm_update_marketing p d m) =
     quiet (vest_execute_update_marketing P s info p d m)"
| "vest_execute P s e info (Vm_upload_logo l) = quiet (vest_execute_upload_logo s info l)"
| "vest_execute P s e info (Vm_allow_vester a) = quiet (vest_execute_add_address P s info a)"
| "vest_execute P s e info (Vm_deny_vester a) = quiet (vest_execute_remove_address P s info a)"
| "vest_execute P s e info (Vm_update_staking_address a) =
     quiet (vest_execute_update_staking_address P s info a)"
| "vest_execute P s e info (Vm_delegate n m) = vest_execute_delegate s info n m"
| "vest_execute P s e info (Vm_undelegate r n) = quiet (vest_execute_undelegate P s e info r n)"

section \<open>Queries\<close>

definition vest_query_balance :: "platform \<Rightarrow> vest_state \<Rightarrow> string \<Rightarrow> (std_error, nat) outcome" where
  "vest_query_balance P s address =
     and_then (addr_validate P address) (\<lambda>a. Ok (kv_nat (v_balances s) a))"

record vesting_response =
  vr_schedule :: "curve option"
  vr_locked :: nat

definition query_vesting ::
  "platform \<Rightarrow> vest_state \<Rightarrow> env \<Rightarrow> string \<Rightarrow> (std_error, vesting_response) outcome"
where
  "query_vesting P s e address =
     and_then (addr_validate P address) (\<lambda>a.
     let schedule = kv_get (v_vesting s) a in
     and_then (curve_now (block e) schedule) (\<lambda>now.
     Ok \<lparr> vr_schedule = schedule, vr_locked = (case now of None \<Rightarrow> 0 | Some v \<Rightarrow> v) \<rparr>))"

definition query_delegated :: "platform \<Rightarrow> vest_state \<Rightarrow> string \<Rightarrow> (std_error, nat) outcome" where
  "query_delegated P s address =
     and_then (addr_validate P address) (\<lambda>a. Ok (kv_nat (v_delegated s) a))"

definition vest_query_token_info ::
  "vest_state \<Rightarrow> (std_error, string \<times> string \<times> nat \<times> nat) outcome"
where
  "vest_query_token_info s =
     and_then (ok_or (Not_found ''TokenInfo'') (v_token s)) (\<lambda>ti.
     Ok (v_name ti, v_symbol ti, v_decimals ti, v_total_supply ti))"

definition query_max_complexity :: "vest_state \<Rightarrow> (std_error, nat) outcome" where
  "query_max_complexity s = ok_or (Not_found ''u64'') (v_max_complexity s)"

record vest_minter_response =
  mr_minter :: string
  mr_cap :: "curve option"
  mr_current_cap :: "nat option"

definition vest_query_minter ::
  "vest_state \<Rightarrow> env \<Rightarrow> (std_error, vest_minter_response option) outcome"
where
  "vest_query_minter s e =
     and_then (ok_or (Not_found ''TokenInfo'') (v_token s)) (\<lambda>ti.
     case v_mint ti of
       Some m \<Rightarrow> and_then (curve_now (block e) (v_cap m)) (\<lambda>now.
                 Ok (Some \<lparr> mr_minter = v_minter m, mr_cap = v_cap m, mr_current_cap = now \<rparr>))
     | None \<Rightarrow> Ok None)"

definition vest_query_marketing_info :: "vest_state \<Rightarrow> (std_error, marketing_info) outcome" where
  "vest_query_marketing_info s =
     Ok (case v_marketing s of None \<Rightarrow> marketing_default | Some mi \<Rightarrow> mi)"

definition query_allow_list :: "vest_state \<Rightarrow> (std_error, string list) outcome" where
  "query_allow_list s = ok_or (Not_found ''Vec<Addr>'') (v_allowlist s)"

definition vest_query_download_logo :: "vest_state \<Rightarrow> (std_error, string \<times> bytes) outcome" where
  "vest_query_download_logo s =
     and_then (ok_or (Not_found ''Logo'') (v_logo s)) (\<lambda>l.
     case l of
       Logo_svg data \<Rightarrow> Ok (''image/svg+xml'', data)
     | Logo_png data \<Rightarrow> Ok (''image/png'', data)
     | Logo_url _ \<Rightarrow> Err (Not_found ''logo''))"

definition query_staking_address :: "vest_state \<Rightarrow> (std_error, addr option) outcome" where
  "query_staking_address s = Ok (v_staking s)"

definition vest_query_allowance ::
  "platform \<Rightarrow> vest_state \<Rightarrow> string \<Rightarrow> string \<Rightarrow> (std_error, allowance) outcome"
where
  "vest_query_allowance P s owner spender =
     and_then (addr_validate P owner) (\<lambda>own.
     and_then (addr_validate P spender) (\<lambda>sp.
     Ok (allowance_or_default (kv_get (v_allowances s) (own, sp)))))"

definition vest_page_limit :: "nat option \<Rightarrow> nat" where
  "vest_page_limit limit = min (case limit of None \<Rightarrow> 10 | Some l \<Rightarrow> l) 30"

definition vest_query_all_allowances ::
  "platform \<Rightarrow> vest_state \<Rightarrow> string \<Rightarrow> string option \<Rightarrow> nat option
     \<Rightarrow> (std_error, allowance_entry list) outcome"
where
  "vest_query_all_allowances P s owner start_after limit =
     and_then (addr_validate P owner) (\<lambda>own.
     Ok (map allowance_entry_of
           (take (vest_page_limit limit) (kv_after (kv_prefix (v_allowances s) own) start_after))))"

definition vest_query_all_accounts ::
  "vest_state \<Rightarrow> string option \<Rightarrow> nat option \<Rightarrow> (std_error, addr list) outcome"
where
  "vest_query_all_accounts s start_after limit =
     Ok (map fst (take (vest_page_limit limit) (kv_after (v_balances s) start_after)))"

section \<open>Migration\<close>

text \<open>\<open>unwrap\<close> panics when the token has no minter; the new cap is not validated.\<close>

definition vest_migrate ::
  "((string \<times> string) option \<Rightarrow> string \<Rightarrow> string
      \<Rightarrow> (std_error, string \<times> (string \<times> string) option) outcome)
     \<Rightarrow> vest_state \<Rightarrow> curve \<Rightarrow> (vest_error, vest_state) outcome"
where
  "vest_migrate ensure_older s c =
     and_then (map_err V_std (ensure_older (v_version s) vest_contract_name vest_contract_version))
       (\<lambda>(original, v).
     let s' = s\<lparr> v_version := v \<rparr> in
     case c of
       Piecewise_linear _ \<Rightarrow>
         and_then (map_err V_std (ok_or (Not_found ''TokenInfo'') (v_token s'))) (\<lambda>ti.
         case v_mint ti of
           None \<Rightarrow> Panic
         | Some m \<Rightarrow>
             Ok (s'\<lparr> v_token := Some (ti\<lparr> v_mint := Some (m\<lparr> v_cap := Some c \<rparr>) \<rparr>) \<rparr>))
     | _ \<Rightarrow> Err V_migration_incorrect_curve)"

end
