(* ===== verification/Curve_Sums.thy ===== *)
theory Curve_Sums
  imports Curve_Proofs
begin

text \<open>
  What a decreasing curve locks, as a total function: \<open>curve_fall c x\<close> is the value of \<open>c\<close> at
  \<open>x\<close> with the overflow checks left out, and equals the evaluation whenever that succeeds.
  Falling segments round up, so the sum of two curves, which is rounded at the breakpoints of
  both, never lies below either of them: attaching a schedule to an account releases nothing
  that was locked.
\<close>

section \<open>Falling segments\<close>

text \<open>The formula of \<open>interpolate\<close> between two points that do not rise.\<close>

definition fall_seg :: "nat \<times> nat \<Rightarrow> nat \<times> nat \<Rightarrow> nat \<Rightarrow> nat" where
  "fall_seg s t x = snd s - (snd s - snd t) * (x - fst s) div (fst t - fst s)"

text \<open>It is the least integer on or above the line through the two points.\<close>

lemma fall_seg_le_iff:
  assumes "x0 < x1" "x0 \<le> x" "x \<le> x1" "y1 \<le> y0"
  shows "fall_seg (x0, y0) (x1, y1) x \<le> v \<longleftrightarrow> y0 * (x1 - x) + y1 * (x - x0) \<le> v * (x1 - x0)"
proof -
  obtain d where d: "y0 = y1 + d" using assms(4) le_Suc_ex by blast
  obtain i where i: "x = x0 + i" using assms(2) le_Suc_ex by blast
  obtain j where j: "x1 = x + j" using assms(3) le_Suc_ex by blast
  have w: "0 < i + j" using assms(1) i j by simp
  have "fall_seg (x0, y0) (x1, y1) x \<le> v \<longleftrightarrow> y0 - v \<le> d * i div (i + j)"
    by (auto simp: fall_seg_def d i j)
  also have "\<dots> \<longleftrightarrow> (y0 - v) * (i + j) \<le> d * i"
    using w by (rule less_eq_div_iff_mult_less_eq)
  also have "\<dots> \<longleftrightarrow> y0 * (i + j) \<le> d * i + v * (i + j)"
    by (simp add: diff_mult_distrib le_diff_conv)
  also have "\<dots> \<longleftrightarrow> y0 * (x1 - x) + y1 * (x - x0) \<le> v * (x1 - x0)"
    by (simp add: d i j algebra_simps)
  finally show ?thesis .
qed

lemma fall_seg_bounds:
  assumes "x0 < x1" "x0 \<le> x" "x \<le> x1" "y1 \<le> y0"
  shows "y1 \<le> fall_seg (x0, y0) (x1, y1) x" "fall_seg (x0, y0) (x1, y1) x \<le> y0"
proof -
  have "(y0 - y1) * (x - x0) div (x1 - x0) \<le> y0 - y1" by (rule share_le) (rule assms(3))
  with assms(4) show "y1 \<le> fall_seg (x0, y0) (x1, y1) x" by (simp add: fall_seg_def)
qed (simp add: fall_seg_def)

lemma fall_seg_start [simp]: "fall_seg s t (fst s) = snd s"
  by (simp add: fall_seg_def)

lemma fall_seg_end [simp]: "fst s < fst t \<Longrightarrow> snd t \<le> snd s \<Longrightarrow> fall_seg s t (fst t) = snd t"
  by (simp add: fall_seg_def)

lemma fall_seg_flat [simp]: "fall_seg (x0, y) (x1, y) x = y"
  by (simp add: fall_seg_def)

lemma fall_seg_anti: "x \<le> x' \<Longrightarrow> fall_seg s t x' \<le> fall_seg s t x"
  by (simp add: fall_seg_def diff_le_mono2 share_mono)

lemma fall_seg_shift:
  "y1 \<le> y0 \<Longrightarrow> x \<le> x1 \<Longrightarrow> fall_seg (x0, k + y0) (x1, k + y1) x = k + fall_seg (x0, y0) (x1, y1) x"
  using share_le [of x x1 "y0 - y1" x0] by (simp add: fall_seg_def)

text \<open>A line that is rounded up at two inner points and then again lies on or above itself.\<close>

lemma fall_seg_inner:
  assumes "u0 \<le> x0" "x0 < x1" "x1 \<le> u1" "x0 \<le> x" "x \<le> x1" "b \<le> a"
  shows "fall_seg (u0, a) (u1, b) x \<le>
    fall_seg (x0, fall_seg (u0, a) (u1, b) x0) (x1, fall_seg (u0, a) (u1, b) x1) x"
    (is "_ \<le> ?v")
proof -
  let ?f = "fall_seg (u0, a) (u1, b)"
  have u: "u0 < u1" using assms by linarith
  have f0: "a * (u1 - x0) + b * (x0 - u0) \<le> ?f x0 * (u1 - u0)"
    using fall_seg_le_iff [of u0 u1 x0 b a "?f x0"] u assms by simp
  have f1: "a * (u1 - x1) + b * (x1 - u0) \<le> ?f x1 * (u1 - u0)"
    using fall_seg_le_iff [of u0 u1 x1 b a "?f x1"] u assms by simp
  have v: "?f x0 * (x1 - x) + ?f x1 * (x - x0) \<le> ?v * (x1 - x0)"
    using fall_seg_le_iff [of x0 x1 x "?f x1" "?f x0" ?v] fall_seg_anti [of x0 x1] assms by simp
  obtain i where i: "x0 = u0 + i" using assms(1) le_Suc_ex by blast
  obtain j where j: "x = x0 + j" using assms(4) le_Suc_ex by blast
  obtain k where k: "x1 = x + k" using assms(5) le_Suc_ex by blast
  obtain l where l: "u1 = x1 + l" using assms(3) le_Suc_ex by blast
  let ?w = "j + k" and ?W = "i + j + k + l"
  have f0': "a * (j + k + l) + b * i \<le> ?f x0 * ?W" using f0 by (simp add: i j k l ac_simps)
  have f1': "a * l + b * (i + j + k) \<le> ?f x1 * ?W" using f1 by (simp add: i j k l ac_simps)
  have v': "?f x0 * k + ?f x1 * j \<le> ?v * ?w" using v by (simp add: i j k ac_simps)
  have "(a * (k + l) + b * (i + j)) * ?w
      = (a * (j + k + l) + b * i) * k + (a * l + b * (i + j + k)) * j"
    by (simp add: algebra_simps)
  also have "\<dots> \<le> (?f x0 * ?W) * k + (?f x1 * ?W) * j"
    by (intro add_mono mult_right_mono f0' f1') simp_all
  also have "\<dots> = (?f x0 * k + ?f x1 * j) * ?W" by (simp add: algebra_simps)
  also have "\<dots> \<le> (?v * ?w) * ?W" by (rule mult_right_mono [OF v']) simp
  also have "\<dots> = (?v * ?W) * ?w" by (simp add: ac_simps)
  finally have "a * (k + l) + b * (i + j) \<le> ?v * ?W"
    using assms(2) j k by auto
  then have "a * (u1 - x) + b * (x - u0) \<le> ?v * (u1 - u0)" by (simp add: i j k l ac_simps)
  then show ?thesis using fall_seg_le_iff [of u0 u1 x b a ?v] u assms by simp
qed

text \<open>Two segments over the same times, and their sum.\<close>

lemma fall_seg_sum:
  assumes "x0 < x1" "x0 \<le> x" "x \<le> x1" "a1 \<le> a0" "b1 \<le> b0"
  shows "fall_seg (x0, a0) (x1, a1) x \<le> fall_seg (x0, a0 + b0) (x1, a1 + b1) x"
    and "fall_seg (x0, a0) (x1, a1) x + fall_seg (x0, b0) (x1, b1) x
      \<le> fall_seg (x0, a0 + b0) (x1, a1 + b1) x + 1"
proof -
  let ?s = "fall_seg (x0, a0 + b0) (x1, a1 + b1) x"
  let ?a = "fall_seg (x0, a0) (x1, a1) x" and ?b = "fall_seg (x0, b0) (x1, b1) x"
  define A where "A = a0 * (x1 - x) + a1 * (x - x0)"
  define B where "B = b0 * (x1 - x) + b1 * (x - x0)"
  define w where "w = x1 - x0"
  have w: "0 < w" using assms(1) by (simp add: w_def)
  have a: "?a \<le> v \<longleftrightarrow> A \<le> v * w" for v
    unfolding A_def w_def by (rule fall_seg_le_iff) (use assms in simp_all)
  have b: "?b \<le> v \<longleftrightarrow> B \<le> v * w" for v
    unfolding B_def w_def by (rule fall_seg_le_iff) (use assms in simp_all)
  have "(a0 + b0) * (x1 - x) + (a1 + b1) * (x - x0) = A + B"
    by (simp add: A_def B_def algebra_simps)
  then have s: "?s \<le> v \<longleftrightarrow> A + B \<le> v * w" for v
    using fall_seg_le_iff [of x0 x1 x "a1 + b1" "a0 + b0" v] assms by (simp add: w_def)
  have sw: "A + B \<le> ?s * w" using s by blast
  then show "?a \<le> ?s" unfolding a by simp
  show "?a + ?b \<le> ?s + 1"
  proof (cases "?a = 0 \<or> ?b = 0")
    case True
    have "?b \<le> ?s" using sw unfolding b by simp
    with \<open>?a \<le> ?s\<close> True show ?thesis by auto
  next
    case False
    then have "\<not> ?a \<le> ?a - 1" "\<not> ?b \<le> ?b - 1" by auto
    then have "(?a - 1) * w < A" "(?b - 1) * w < B" unfolding a b by simp_all
    then have "((?a - 1) + (?b - 1)) * w < A + B" by (simp add: add_mult_distrib)
    with sw have "((?a - 1) + (?b - 1)) * w < ?s * w" by linarith
    then have "(?a - 1) + (?b - 1) < ?s" by simp
    then show ?thesis by linarith
  qed
qed

section \<open>Falling curves\<close>

fun fall :: "(nat \<times> nat) list \<Rightarrow> nat \<Rightarrow> nat" where
  "fall [] x = 0"
| "fall [s] x = snd s"
| "fall (s # t # ss) x =
     (if x \<le> fst s then snd s else if x < fst t then fall_seg s t x else fall (t # ss) x)"

fun curve_fall :: "curve \<Rightarrow> nat \<Rightarrow> nat" where
  "curve_fall (Constant y) x = y"
| "curve_fall (Saturating_linear s) x = fall (steps (pl_from s)) x"
| "curve_fall (Piecewise_linear p) x = fall (steps p) x"

lemma pl_pick_fall:
  assumes "pl_pick x (pl_scan x (Some l) n ss) = (Ok y :: ('e, nat) outcome)"
    and "chain False (l # n # ss)" and "fst l \<le> x"
  shows "y = fall (l # n # ss) x"
  using assms
proof (induction ss arbitrary: l n)
  case Nil
  then show ?case
    by (cases l; cases n) (auto simp: interpolate_down chain_def dir_def fall_seg_def split: if_splits)
next
  case (Cons s ss)
  show ?case
  proof (cases "x \<ge> fst n")
    case True
    with Cons.prems have "y = fall (n # s # ss) x"
      by (intro Cons.IH) (auto simp: chain_def)
    with True Cons.prems(2) show ?thesis by (auto simp: chain_def)
  next
    case False
    with Cons.prems show ?thesis
      by (cases l; cases n) (auto simp: interpolate_down chain_def dir_def fall_seg_def split: if_splits)
  qed
qed

lemma pl_value_fall:
  assumes "pl_value p x = (Ok y :: ('e, nat) outcome)" and "chain False (steps p)"
  shows "y = fall (steps p) x"
proof -
  from assms(1) obtain s ss where st: "steps p = s # ss"
    by (auto simp: pl_value_def split: list.splits)
  show ?thesis
  proof (cases ss)
    case Nil
    with assms st show ?thesis by (simp add: pl_value_def)
  next
    case (Cons t ts)
    with assms st pl_pick_fall [of x s t ts y] show ?thesis
      by (cases "fst s \<le> x") (auto simp: pl_value_def)
  qed
qed

lemma curve_value_fall:
  assumes "curve_value c x = (Ok y :: ('e, nat) outcome)" and "curve_dir False c"
  shows "y = curve_fall c x"
proof (cases c)
  case (Saturating_linear s)
  with assms have "sl_value s x = (Ok y :: ('e, nat) outcome)" "min_x s < max_x s"
    "dir False (min_y s) (max_y s)" by auto
  with pl_value_fall [OF pl_from_value [OF this(1,2)]] Saturating_linear show ?thesis
    by (simp add: chain_pl_from)
next
  case (Piecewise_linear p)
  with assms show ?thesis by (auto intro: pl_value_fall)
qed (use assms in simp)

lemma chain_tl: "chain up (s # ss) \<Longrightarrow> chain up ss"
  by (simp add: chain_def)

lemma fall_before: "chain False (s # ss) \<Longrightarrow> x \<le> fst s \<Longrightarrow> fall (s # ss) x = snd s"
  by (cases ss) auto

lemma fall_after:
  "chain False ss \<Longrightarrow> ss \<noteq> [] \<Longrightarrow> fst (last ss) \<le> x \<Longrightarrow> fall ss x = snd (last ss)"
proof (induction ss x rule: fall.induct)
  case (3 s t ss x)
  then have "fst t \<le> fst (last (t # ss))" by (auto simp: chain_def less_imp_le)
  with 3 show ?case by (auto simp: chain_def)
qed simp_all

text \<open>Between two neighbouring points the curve is the segment through them.\<close>

lemma fall_between:
  "chain False (as @ s # t # bs) \<Longrightarrow> fst s \<le> x \<Longrightarrow> x \<le> fst t \<Longrightarrow>
     fall (as @ s # t # bs) x = fall_seg s t x"
proof (induction as)
  case Nil
  then show ?case
    by (cases bs) (auto simp: chain_def dir_def le_less)
next
  case (Cons a as)
  obtain b cs where b: "as @ s # t # bs = b # cs" by (cases as) auto
  have ch: "chain False (a # b # cs)" using Cons.prems(1) b by simp
  have "fst b \<le> fst s" using ch b by (cases as) (auto simp: chain_def less_imp_le)
  moreover have "fst a < fst b" using ch by (simp add: chain_def)
  ultimately have "fall (a # b # cs) x = fall (b # cs) x"
    using Cons.prems(2) by auto
  with Cons.IH [OF chain_tl [OF Cons.prems(1) [unfolded append_Cons]] Cons.prems(2,3)] b show ?case
    by simp
qed

lemma locate:
  fixes x :: nat
  assumes "ss \<noteq> []"
  obtains "x < fst (hd ss)" | "fst (last ss) \<le> x"
  | as s t bs where "ss = as @ s # t # bs" "fst s \<le> x" "x < fst t"
  using assms
proof (induction ss arbitrary: thesis)
  case (Cons s ss)
  show ?case
  proof (cases ss)
    case Nil
    with Cons.prems(1,2) show ?thesis by (cases "x < fst s") (auto simp: not_less)
  next
    case (Cons t ts)
    note step = Cons
    show ?thesis
    proof (cases "x < fst t")
      case True
      with Cons.prems(1) Cons.prems(3) [of "[]" s t ts] step show ?thesis
        by (cases "x < fst s") auto
    next
      case False
      have "ss \<noteq> []" using step by simp
      show ?thesis
      proof (rule Cons.IH [OF _ _ _ \<open>ss \<noteq> []\<close>])
        show thesis if "x < fst (hd ss)" using that step False by simp
        show thesis if "fst (last ss) \<le> x" using that step Cons.prems(2) by simp
        show thesis if "ss = as @ a # b # bs" "fst a \<le> x" "x < fst b" for as a b bs
          using Cons.prems(3) [of "s # as" a b bs] that by simp
      qed
    qed
  qed
qed simp

lemma chain_nth_less: "chain up (as @ s # t # bs) \<Longrightarrow> fst s < fst t \<and> dir up (snd s) (snd t)"
  by (simp add: chain_def sorted_wrt_append)

lemma fall_le_first: "chain False (s # ss) \<Longrightarrow> fall (s # ss) x \<le> snd s"
proof (induction ss arbitrary: s)
  case (Cons t ss)
  from Cons.IH [OF chain_tl [OF Cons.prems]] Cons.prems have "fall (t # ss) x \<le> snd s"
    by (auto simp: chain_def dir_def)
  then show ?case by (auto simp: fall_seg_def)
qed simp

lemma fall_antitone: "chain False ss \<Longrightarrow> x \<le> x' \<Longrightarrow> fall ss x' \<le> fall ss x"
proof (induction ss)
  case (Cons s ss)
  show ?case
  proof (cases ss)
    case (Cons t ts)
    have ch: "chain False (t # ts)" "fst s < fst t" "snd t \<le> snd s"
      using Cons.prems(1) Cons by (auto simp: chain_def dir_def)
    consider "x \<le> fst s" | "fst s < x" "x' < fst t" | "fst s < x" "x < fst t" "fst t \<le> x'" | "fst t \<le> x"
      by linarith
    then show ?thesis
    proof cases
      case 1
      with fall_le_first [OF Cons.prems(1)] Cons show ?thesis by simp
    next
      case 2
      with Cons.prems(2) Cons show ?thesis by (simp add: fall_seg_anti)
    next
      case 3
      have "fall (t # ts) x' \<le> snd t" by (rule fall_le_first) (rule ch(1))
      also have "\<dots> \<le> fall_seg s t x"
        using fall_seg_bounds(1) [of "fst s" "fst t" x "snd t" "snd s"] 3 ch(2,3) by simp
      finally show ?thesis using 3 ch(2) Cons by simp
    next
      case 4
      with Cons.IH Cons.prems ch Cons show ?thesis by simp
    qed
  qed simp
qed simp

text \<open>
  Between two times with no breakpoint in between, a curve lies on or below the segment
  through its own values at these times.
\<close>

lemma fall_below_chord:
  assumes "chain False ss" and "ss \<noteq> []" and "u < v" and "u \<le> x" and "x \<le> v"
    and "\<forall>s \<in> set ss. \<not> (u < fst s \<and> fst s < v)"
  shows "fall ss x \<le> fall_seg (u, fall ss u) (v, fall ss v) x"
  using assms(2)
proof (cases rule: locate [where x = u])
  case 1
  have "v \<le> fst (hd ss)" using 1 assms(2,6) hd_in_set by (metis not_less)
  with 1 assms show ?thesis
    using fall_before [of "hd ss" "tl ss"] by simp
next
  case 2
  with assms show ?thesis using fall_after [of ss] by simp
next
  case (3 as s t bs)
  then have v: "v \<le> fst t" using assms(6) by (auto simp: not_less)
  have st: "fst s < fst t" "snd t \<le> snd s"
    using chain_nth_less [of False as s t bs] assms(1) 3(1) by (auto simp: dir_def)
  have between: "fall ss z = fall_seg s t z" if "fst s \<le> z" "z \<le> fst t" for z
    using fall_between [of as s t bs z] that assms(1) 3(1) by simp
  have "fall_seg (fst s, snd s) (fst t, snd t) x \<le>
      fall_seg (u, fall_seg (fst s, snd s) (fst t, snd t) u) (v, fall_seg (fst s, snd s) (fst t, snd t) v) x"
    by (rule fall_seg_inner) (use 3 v st assms(3,4,5) in simp_all)
  then show ?thesis using between [of x] between [of u] between [of v] 3 v assms(3,4,5) by simp
qed

section \<open>Sums release nothing\<close>

text \<open>The steps of a sum: the breakpoints of both curves, with the sum of their values.\<close>

definition sum_of :: "(nat \<times> nat) list \<Rightarrow> (nat \<times> nat) list \<Rightarrow> (nat \<times> nat) list \<Rightarrow> bool" where
  "sum_of ps qs rs \<longleftrightarrow> fst ` set rs = fst ` set ps \<union> fst ` set qs \<and>
     (\<forall>r \<in> set rs. snd r = fall ps (fst r) + fall qs (fst r))"

lemma chain_inner:
  "chain up (as @ s # t # bs) \<Longrightarrow> r \<in> set (as @ s # t # bs) \<Longrightarrow> \<not> (fst s < fst r \<and> fst r < fst t)"
  by (auto simp: chain_def sorted_wrt_append)

lemma hd_first: "chain up rs \<Longrightarrow> r \<in> set rs \<Longrightarrow> fst (hd rs) \<le> fst r"
  by (cases rs) (auto simp: chain_def)

lemma last_last: "chain up rs \<Longrightarrow> r \<in> set rs \<Longrightarrow> fst r \<le> fst (last rs)"
  by (induction rs) (auto simp: chain_def dest!: last_in_set bspec intro: less_imp_le)

lemma sum_of_falls:
  assumes ch: "chain False ps" "chain False qs" "chain False rs"
    and ne: "ps \<noteq> []" "qs \<noteq> []" and sum: "sum_of ps qs rs"
  shows "fall ps x \<le> fall rs x" and "fall ps x + fall qs x \<le> fall rs x + 1"
proof -
  have rne: "rs \<noteq> []" using sum ne by (auto simp: sum_of_def)
  have pt: "snd r = fall ps (fst r) + fall qs (fst r)" if "r \<in> set rs" for r
    using sum that by (simp add: sum_of_def)
  have mem: "\<exists>r \<in> set rs. fst r = fst s" if "s \<in> set ps \<union> set qs" for s
    using sum that unfolding sum_of_def by (metis Un_iff imageE image_Un image_eqI)
  have "fall ps x \<le> fall rs x \<and> fall ps x + fall qs x \<le> fall rs x + 1"
    using rne
  proof (cases rule: locate [where x = x])
    case 1
    have flat: "fall ss x = fall ss (fst (hd rs))" if "chain False ss" "ss \<noteq> []" "set ss \<subseteq> set ps \<union> set qs" for ss
    proof -
      from \<open>ss \<noteq> []\<close> obtain s ss' where ss: "ss = s # ss'" by (cases ss) auto
      have "fst (hd rs) \<le> fst s" using mem [of s] hd_first [OF ch(3)] that(3) ss by auto
      with 1 that(1) ss show ?thesis using fall_before [of s ss'] by simp
    qed
    have "fall rs x = snd (hd rs)"
      using fall_before [of "hd rs" "tl rs" x] ch(3) 1 rne by simp
    with flat [of ps] flat [of qs] pt [of "hd rs"] ch ne rne show ?thesis by simp
  next
    case 2
    have flat: "fall ss x = fall ss (fst (last rs))" if "chain False ss" "ss \<noteq> []" "set ss \<subseteq> set ps \<union> set qs" for ss
    proof -
      have "fst (last ss) \<le> fst (last rs)"
        using mem [of "last ss"] last_last [OF ch(3)] that(2,3) last_in_set [of ss] by fastforce
      with 2 that show ?thesis by (simp add: fall_after)
    qed
    have "fall rs x = snd (last rs)" using fall_after ch(3) 2 rne by simp
    with flat [of ps] flat [of qs] pt [of "last rs"] ch ne rne show ?thesis by simp
  next
    case (3 as s t bs)
    have st: "fst s < fst t" using chain_nth_less [of False as s t bs] ch(3) 3(1) by simp
    have inner: "\<not> (fst s < fst r \<and> fst r < fst t)" if "r \<in> set ps \<union> set qs" for r
      using mem [OF that] chain_inner [of False as s t bs] ch(3) 3(1) by metis
    have p: "fall ps x \<le> fall_seg (fst s, fall ps (fst s)) (fst t, fall ps (fst t)) x"
      by (rule fall_below_chord [OF ch(1) ne(1) st]) (use 3 inner in auto)
    have q: "fall qs x \<le> fall_seg (fst s, fall qs (fst s)) (fst t, fall qs (fst t)) x"
      by (rule fall_below_chord [OF ch(2) ne(2) st]) (use 3 inner in auto)
    have "fall rs x = fall_seg s t x"
      using fall_between [of as s t bs x] ch(3) 3 by simp
    also have "\<dots> = fall_seg (fst s, fall ps (fst s) + fall qs (fst s))
        (fst t, fall ps (fst t) + fall qs (fst t)) x"
      using pt [of s] pt [of t] 3(1) by (cases s; cases t) simp
    finally have r: "fall rs x = \<dots>" .
    have anti: "fall ss (fst t) \<le> fall ss (fst s)" if "chain False ss" for ss
      using fall_antitone [OF that] st by simp
    note sums = fall_seg_sum [OF st 3(2) less_imp_le [OF 3(3)] anti [OF ch(1)] anti [OF ch(2)]]
    from sums p q show ?thesis unfolding r by linarith
  qed
  then show "fall ps x \<le> fall rs x" and "fall ps x + fall qs x \<le> fall rs x + 1" by auto
qed

lemma sum_of_sym: "sum_of ps qs rs \<longleftrightarrow> sum_of qs ps rs"
  by (auto simp: sum_of_def)

lemma pl_combine_sum_of:
  assumes "pl_combine p q = (Ok r :: ('e, piecewise_linear) outcome)"
    and "chain False (steps p)" "chain False (steps q)"
  shows "sum_of (steps p) (steps q) (steps r)"
proof -
  have "set (map fst (steps r)) = set (map fst (steps p @ steps q))"
    by (simp only: pl_combine_steps(1) [OF assms(1)] remdups_adj_set set_sort)
  moreover have "snd s = fall (steps p) (fst s) + fall (steps q) (fst s)" if "s \<in> set (steps r)" for s
    using pl_combine_steps(2) [OF assms(1), of "fst s" "snd s"] that
      pl_value_fall [OF _ assms(2)] pl_value_fall [OF _ assms(3)] by (metis prod.collapse)
  ultimately show ?thesis by (simp add: sum_of_def image_Un)
qed

lemma fall_shift:
  "chain False ss \<Longrightarrow> ss \<noteq> [] \<Longrightarrow> fall (map (\<lambda>s. (fst s, k + snd s)) ss) x = k + fall ss x"
proof (induction ss x rule: fall.induct)
  case (3 s t ss x)
  have "fall_seg (fst s, k + snd s) (fst t, k + snd t) x = k + fall_seg s t x" if "x < fst t"
    using fall_seg_shift [of "snd t" "snd s" x "fst t" "fst s" k] that 3(2)
    by (auto simp: chain_def dir_def)
  moreover have "fall (map (\<lambda>s. (fst s, k + snd s)) (t # ss)) x = k + fall (t # ss) x"
    if "\<not> x \<le> fst s" "\<not> x < fst t"
    using "3.IH" [OF that] chain_tl [OF 3(2)] by simp
  ultimately show ?case by simp
qed simp_all

lemma combine_const_fall:
  assumes "combine_const c k = (Ok e :: ('e, curve) outcome)" and "curve_dir False c"
  shows "curve_fall e x = k + curve_fall c x"
proof (cases c)
  case (Saturating_linear s)
  with assms have "min_x s < max_x s" "max_y s \<le> min_y s" by (auto simp: dir_def)
  with assms Saturating_linear fall_seg_shift [of "max_y s" "min_y s" x "max_x s" "min_x s" k]
  show ?thesis by (auto simp: outcome_simps arith_simps pl_from_def add.commute)
next
  case (Piecewise_linear p)
  with assms obtain ss where
    "map_ok (\<lambda>s. and_then (u128_add k (snd s)) (\<lambda>y. Ok (fst s, y))) (steps p) = (Ok ss :: ('e, _) outcome)"
    "e = Piecewise_linear \<lparr> steps = ss \<rparr>" by (auto simp: outcome_simps)
  with chain_shift [OF this(1)] assms Piecewise_linear show ?thesis by (auto simp: fall_shift)
qed (use assms in \<open>auto simp: outcome_simps arith_simps\<close>)

lemma curve_fall_pieces: "as_piecewise c = Some p \<Longrightarrow> curve_fall c x = fall (steps p) x"
  by (cases c) auto

lemma curve_combine_fall:
  assumes "curve_combine c d = (Ok e :: ('e, curve) outcome)"
    and "curve_dir False c" and "curve_dir False d"
  shows "curve_fall c x \<le> curve_fall e x" "curve_fall d x \<le> curve_fall e x"
    "curve_fall c x + curve_fall d x \<le> curve_fall e x + 1"
proof -
  have "curve_fall c x \<le> curve_fall e x \<and> curve_fall d x \<le> curve_fall e x
      \<and> curve_fall c x + curve_fall d x \<le> curve_fall e x + 1"
    using assms(1)
  proof (cases rule: curve_combine_cases)
    case (const_left y)
    with combine_const_fall [OF const_left(2) assms(3), of x] show ?thesis by simp
  next
    case (const_right y)
    with combine_const_fall [OF const_right(2) assms(2), of x] show ?thesis by simp
  next
    case (pieces p q r)
    note p = as_piecewise_dir [OF pieces(1) assms(2)] and q = as_piecewise_dir [OF pieces(2) assms(3)]
    have sum: "sum_of (steps p) (steps q) (steps r)"
      using pieces(3) p q by (auto dest: pl_combine_sum_of simp: sum_of_sym)
    have r: "chain False (steps r)" using pieces(3) p q by (auto dest: pl_combine_chain)
    note a = sum_of_falls [OF _ _ r _ _ sum, of x]
      and b = sum_of_falls [OF _ _ r _ _ sum [THEN sum_of_sym [THEN iffD1]], of x]
    from a b p q show ?thesis
      by (simp add: curve_fall_pieces [OF pieces(1)] curve_fall_pieces [OF pieces(2)] pieces(4))
  qed
  then show "curve_fall c x \<le> curve_fall e x" "curve_fall d x \<le> curve_fall e x"
    "curve_fall c x + curve_fall d x \<le> curve_fall e x + 1" by auto
qed

lemma curve_fall_antitone: "curve_dir False c \<Longrightarrow> x \<le> x' \<Longrightarrow> curve_fall c x' \<le> curve_fall c x"
  by (cases c) (auto intro!: fall_antitone chain_pl_from simp del: fall.simps)

section \<open>How a curve ends\<close>

fun curve_end :: "curve \<Rightarrow> nat" where
  "curve_end (Constant y) = y"
| "curve_end (Saturating_linear s) = max_y s"
| "curve_end (Piecewise_linear p) = snd (last (steps p))"

text \<open>The time after which a curve keeps its last value.\<close>

fun curve_over :: "curve \<Rightarrow> nat" where
  "curve_over (Constant y) = 0"
| "curve_over (Saturating_linear s) = max_x s"
| "curve_over (Piecewise_linear p) = fst (last (steps p))"

lemma foldl_min_mem: "foldl min a ys \<in> set (a # ys :: nat list)"
proof (induction ys arbitrary: a)
  case (Cons b ys)
  show ?case using Cons.IH [of "min a b"] by (auto simp: min_def split: if_splits)
qed simp

lemma last_is_least: "chain False ss \<Longrightarrow> s \<in> set ss \<Longrightarrow> snd (last ss) \<le> snd s"
  by (induction ss) (auto simp: chain_def dir_def dest!: last_in_set bspec)

lemma curve_range_end:
  assumes "curve_range c = (Ok (lo, hi) :: ('e, nat \<times> nat) outcome)" and "curve_dir False c"
  shows "curve_end c = lo"
proof (cases c)
  case (Piecewise_linear p)
  with assms obtain s ss where st: "steps p = s # ss" "chain False (steps p)"
    and lo: "lo = foldl min (snd s) (map snd ss)"
    by (cases "steps p") (auto simp: pl_range_def)
  have "lo \<in> set (map snd (steps p))"
    using foldl_min_mem [of "snd s" "map snd ss"] by (simp add: lo st)
  then have "snd (last (steps p)) \<le> lo" using last_is_least [OF st(2)] by auto
  moreover have "lo \<le> snd (last (steps p))"
    using foldl_min_le [of "snd s" "map snd ss"] last_in_set [of "steps p"] by (auto simp: lo st(1))
  ultimately show ?thesis using Piecewise_linear by simp
qed (use assms in \<open>auto simp: sl_range_def dir_def split: if_splits\<close>)

lemma pl_scan_over:
  "sorted_wrt (<) (map fst (n # ss)) \<Longrightarrow> fst (last (n # ss)) \<le> x \<Longrightarrow>
     \<exists>l. pl_scan x prev n ss = (l, last (n # ss)) \<and> (ss \<noteq> [] \<longrightarrow> l \<noteq> None \<and> fst (the l) < fst (last (n # ss)))"
proof (induction ss arbitrary: prev n)
  case (Cons s ss)
  have "fst n < fst s" "fst s \<le> fst (last (s # ss))"
    using Cons.prems(1) by (auto simp: less_imp_le)
  with Cons.prems(2) have n: "fst n \<le> x" by (auto split: if_splits)
  show ?case
  proof (cases ss)
    case Nil
    with n \<open>fst n < fst s\<close> show ?thesis by simp
  next
    case (Cons t ts)
    have "\<exists>l. pl_scan x (Some n) s ss = (l, last (s # ss)) \<and>
        (ss \<noteq> [] \<longrightarrow> l \<noteq> None \<and> fst (the l) < fst (last (s # ss)))"
      by (rule Cons.IH) (use Cons.prems in auto)
    with n Cons show ?thesis by simp
  qed
qed simp

lemma pl_value_over:
  assumes "chain up (steps p)" and "steps p \<noteq> []" and "fst (last (steps p)) \<le> x"
  shows "pl_value p x = Ok (snd (last (steps p)))"
proof -
  obtain s ss where st: "steps p = s # ss" using assms(2) by (cases "steps p") auto
  have "sorted_wrt (<) (map fst (s # ss))"
    using assms(1) by (auto simp: chain_def st sorted_wrt_map elim: sorted_wrt_mono_rel [rotated])
  from pl_scan_over [OF this, of x None] assms(3) obtain l where
    l: "pl_scan x None s ss = (l, last (s # ss))"
    "ss \<noteq> [] \<longrightarrow> l \<noteq> None \<and> fst (the l) < fst (last (s # ss))" by (auto simp: st)
  show ?thesis
  proof (cases l)
    case None
    with l show ?thesis by (simp add: pl_value_def st)
  next
    case (Some m)
    have "ss \<noteq> []" using l(1) Some by (cases ss) auto
    with l Some assms(3) show ?thesis by (auto simp: pl_value_def st)
  qed
qed

lemma curve_value_over:
  "curve_dir up c \<Longrightarrow> curve_over c < x \<Longrightarrow> curve_value c x = Ok (curve_end c)"
  by (cases c) (auto simp: sl_value_def pl_value_over)

lemma combine_const_end:
  assumes "combine_const c k = (Ok e :: ('e, curve) outcome)" and "curve_dir up c"
  shows "curve_end e = k + curve_end c"
proof (cases c)
  case (Piecewise_linear p)
  with assms obtain ss where
    "map_ok (\<lambda>s. and_then (u128_add k (snd s)) (\<lambda>y. Ok (fst s, y))) (steps p) = (Ok ss :: ('e, _) outcome)"
    "e = Piecewise_linear \<lparr> steps = ss \<rparr>" by (auto simp: outcome_simps)
  with chain_shift [OF this(1)] assms Piecewise_linear show ?thesis by (auto simp: last_map)
qed (use assms in \<open>auto simp: outcome_simps arith_simps\<close>)

lemma sum_of_end:
  assumes "chain False ps" "chain False qs" "chain False rs" "ps \<noteq> []" "qs \<noteq> []" and "sum_of ps qs rs"
  shows "snd (last rs) = snd (last ps) + snd (last qs)"
proof -
  have "rs \<noteq> []" using assms(4,6) by (auto simp: sum_of_def)
  then have l: "last rs \<in> set rs" by simp
  have after: "fst (last ss) \<le> fst (last rs)" if "ss \<noteq> []" "set ss \<subseteq> set ps \<union> set qs" for ss
  proof -
    have "last ss \<in> set ps \<union> set qs" using that last_in_set [of ss] by blast
    then have "fst (last ss) \<in> fst ` set rs"
      using assms(6) unfolding sum_of_def by blast
    then show ?thesis using last_last [OF assms(3)] by auto
  qed
  from l assms(6) have "snd (last rs) = fall ps (fst (last rs)) + fall qs (fst (last rs))"
    by (simp add: sum_of_def)
  with after [of ps] after [of qs] assms show ?thesis by (simp add: fall_after)
qed

lemma curve_end_pieces: "as_piecewise c = Some p \<Longrightarrow> curve_end c = snd (last (steps p))"
  by (cases c) (auto simp: pl_from_def)

lemma curve_combine_end:
  assumes "curve_combine c d = (Ok e :: ('e, curve) outcome)"
    and "curve_dir False c" and "curve_dir False d"
  shows "curve_end e = curve_end c + curve_end d"
  using assms(1)
proof (cases rule: curve_combine_cases)
  case (const_left y)
  with combine_const_end [OF const_left(2) assms(3)] show ?thesis by simp
next
  case (const_right y)
  with combine_const_end [OF const_right(2) assms(2)] show ?thesis by simp
next
  case (pieces p q r)
  note p = as_piecewise_dir [OF pieces(1) assms(2)] and q = as_piecewise_dir [OF pieces(2) assms(3)]
  have sum: "sum_of (steps p) (steps q) (steps r)"
    using pieces(3) p q by (auto dest: pl_combine_sum_of simp: sum_of_sym)
  have "chain False (steps r)" using pieces(3) p q by (auto dest: pl_combine_chain)
  with sum_of_end [OF _ _ _ _ _ sum] p q show ?thesis
    by (simp add: curve_end_pieces [OF pieces(1)] curve_end_pieces [OF pieces(2)] pieces(4))
qed

end
