(* ===== verification/Vesting_Proofs.thy ===== *)
theory Vesting_Proofs
  imports Vesting Curve_Sums Cw20_Proofs
begin

text \<open>
  Correctness of the vesting token.  Every message that succeeds is a message of the plain
  token on the state without schedules and delegations (a refinement), so that the invariants
  of the plain token carry over; on top of that, schedules only ever grow until they run out,
  and no message takes an account below what its schedule locks.
\<close>

section \<open>What each operation does\<close>

text \<open>What an account's schedule locks at a time, and all the tokens the account answers for.\<close>

definition locked :: "vest_state \<Rightarrow> addr \<Rightarrow> nat \<Rightarrow> nat" where
  "locked s a t = (case kv_get (v_vesting s) a of None \<Rightarrow> 0 | Some c \<Rightarrow> curve_fall c t)"

definition holdings :: "vest_state \<Rightarrow> addr \<Rightarrow> nat" where
  "holdings s a = kv_nat (v_balances s) a + kv_nat (v_delegated s) a"

text \<open>The schedules after a debit of \<open>a\<close> that leaves \<open>held\<close> tokens.\<close>

definition debited :: "vest_state \<Rightarrow> env \<Rightarrow> addr \<Rightarrow> nat \<Rightarrow> (addr, curve) kv \<Rightarrow> bool" where
  "debited s e a held vs \<longleftrightarrow>
     (\<exists>now. curve_now (block e) (kv_get (v_vesting s) a) = (Ok now :: (vest_error, _) outcome) \<and>
        (case now of None \<Rightarrow> 0 | Some v \<Rightarrow> v) \<le> held \<and>
        vs = (if (case now of None \<Rightarrow> 0 | Some v \<Rightarrow> v) = 0 then kv_del (v_vesting s) a else v_vesting s))"

lemma debited_frame: "v_vesting t = v_vesting s \<Longrightarrow> debited t e a h vs = debited s e a h vs"
  by (simp add: debited_def)

lemma deduct_coins_cases:
  assumes "deduct_coins s e a n = Ok s'"
  obtains vs where "n \<le> kv_nat (v_balances s) a" "debited s e a (holdings s a - n) vs"
    "s' = s\<lparr> v_vesting := vs, v_balances := kv_set (v_balances s) a (kv_nat (v_balances s) a - n) \<rparr>"
proof -
  from assms obtain now :: "nat option" where now:
      "curve_now (block e) (kv_get (v_vesting s) a) = (Ok now :: (vest_error, _) outcome)"
    by (auto simp: deduct_coins_def outcome_simps)
  let ?v = "case now of None \<Rightarrow> 0 | Some v \<Rightarrow> v"
  let ?vs = "if ?v = 0 then kv_del (v_vesting s) a else v_vesting s"
  from assms now have "n \<le> kv_nat (v_balances s) a" "?v \<le> holdings s a - n"
    "s' = s\<lparr> v_vesting := ?vs, v_balances := kv_set (v_balances s) a (kv_nat (v_balances s) a - n) \<rparr>"
    by (auto simp: deduct_coins_def Let_def outcome_simps arith_simps holdings_def not_less
        split: if_splits)
  with now show ?thesis by (intro that [of ?vs]) (auto simp: debited_def)
qed

lemma credit_coins_Ok:
  "credit_coins s a n = Ok s' \<longleftrightarrow> kv_nat (v_balances s) a + n < u128_lim \<and>
     s' = s\<lparr> v_balances := kv_set (v_balances s) a (kv_nat (v_balances s) a + n) \<rparr>"
  by (auto simp: credit_coins_def outcome_simps arith_simps)

lemma vest_supply_sub_Ok:
  "vest_supply_sub s n = Ok s' \<longleftrightarrow> (\<exists>ti. v_token s = Some ti \<and> n \<le> v_total_supply ti \<and>
     s' = s\<lparr> v_token := Some (ti\<lparr> v_total_supply := v_total_supply ti - n \<rparr>) \<rparr>)"
  by (auto simp: vest_supply_sub_def outcome_simps arith_simps)

text \<open>A debit followed by a credit of the same amount.\<close>

definition can_move :: "(addr, nat) kv \<Rightarrow> addr \<Rightarrow> addr \<Rightarrow> nat \<Rightarrow> bool" where
  "can_move bs a b n \<longleftrightarrow>
     n \<le> kv_nat bs a \<and> kv_nat (kv_set bs a (kv_nat bs a - n)) b + n < u128_lim"

lemma move_coins_cases:
  assumes "deduct_coins s e a n = Ok s1" and "credit_coins s1 b n = Ok s2"
  obtains vs where "can_move (v_balances s) a b n" "debited s e a (holdings s a - n) vs"
    "s2 = s\<lparr> v_vesting := vs, v_balances := moved (v_balances s) a b n \<rparr>"
  using assms(1)
proof (rule deduct_coins_cases)
  fix vs assume d: "n \<le> kv_nat (v_balances s) a" "debited s e a (holdings s a - n) vs"
    "s1 = s\<lparr> v_vesting := vs, v_balances := kv_set (v_balances s) a (kv_nat (v_balances s) a - n) \<rparr>"
  with assms(2) show thesis
    by (intro that [of vs]) (auto simp: can_move_def credit_coins_Ok moved_def Let_def)
qed

lemma quiet_Ok: "quiet r = Ok (s, m) \<longleftrightarrow> r = Ok s \<and> m = []"
  by (auto simp: quiet_def outcome_simps)

lemma vest_transfer_cases:
  assumes "vest_execute_transfer P s e info r n = Ok s'"
  obtains rcpt vs where "addr_validate P r = Ok rcpt" "can_move (v_balances s) (sender info) rcpt n"
    "debited s e (sender info) (holdings s (sender info) - n) vs" "0 < n"
    "s' = s\<lparr> v_vesting := vs, v_balances := moved (v_balances s) (sender info) rcpt n \<rparr>"
proof -
  from assms obtain rcpt s1 where r: "0 < n" "addr_validate P r = Ok rcpt"
    "deduct_coins s e (sender info) n = Ok s1" "credit_coins s1 rcpt n = Ok s'"
    by (auto simp: vest_execute_transfer_def outcome_simps split: if_splits)
  from r(3,4) show ?thesis by (rule move_coins_cases) (use r that in blast)
qed

lemma vest_send_cases:
  assumes "vest_execute_send P s e info c n m = Ok (s', out)"
  obtains rcpt vs where "addr_validate P c = Ok rcpt" "can_move (v_balances s) (sender info) rcpt n"
    "debited s e (sender info) (holdings s (sender info) - n) vs"
    "s' = s\<lparr> v_vesting := vs, v_balances := moved (v_balances s) (sender info) rcpt n \<rparr>"
    "out = [Receive \<lparr> receiver = c, receive_sender = sender info, receive_amount = n, receive_payload = m \<rparr>]"
proof -
  from assms obtain rcpt s1 where r: "addr_validate P c = Ok rcpt"
    "deduct_coins s e (sender info) n = Ok s1" "credit_coins s1 rcpt n = Ok s'"
    "out = [Receive \<lparr> receiver = c, receive_sender = sender info, receive_amount = n, receive_payload = m \<rparr>]"
    by (auto simp: vest_execute_send_def outcome_simps split: if_splits)
  from r(2,3) show ?thesis by (rule move_coins_cases) (use r that in blast)
qed

lemma attach_schedule_cases:
  assumes "attach_schedule lim vs a c = Ok vs'"
  obtains c' m where "vs' = kv_set vs a c'" "lim = Some m" "curve_size c' \<le> as_usize m"
    "case kv_get vs a of None \<Rightarrow> c' = c | Some old \<Rightarrow> curve_combine old c = (Ok c' :: (vest_error, _) outcome)"
  using assms
  by (auto simp: attach_schedule_def outcome_simps validate_complexity_def split: option.splits if_splits)

text \<open>A valid schedule: it falls, and ends at zero, within the complexity allowed.\<close>

definition schedule_ok :: "curve \<Rightarrow> bool" where
  "schedule_ok c \<longleftrightarrow> curve_dir False c \<and> curve_end c = 0"

lemma vest_transfer_vesting_cases:
  assumes "vest_execute_transfer_vesting P s e info r n c = Ok s'"
  obtains rcpt s1 vs al b where "addr_validate P r = Ok rcpt" "v_allowlist s = Some al" "sender info \<in> set al"
    "assert_schedule_vests_amount c n = Ok ()" "fully_vested c (block e) = (Ok b :: (vest_error, _) outcome)"
    "if b then s1 = s
     else \<exists>w. attach_schedule (v_max_complexity s) (v_vesting s) rcpt c = Ok w \<and> s1 = s\<lparr> v_vesting := w \<rparr>"
    "can_move (v_balances s) (sender info) rcpt n"
    "debited s1 e (sender info) (holdings s (sender info) - n) vs"
    "s' = s\<lparr> v_vesting := vs, v_balances := moved (v_balances s) (sender info) rcpt n \<rparr>"
proof -
  from assms obtain al u rcpt b s1 s2 where r: "addr_validate P r = Ok rcpt" "v_allowlist s = Some al"
    "sender info \<in> set al" "assert_schedule_vests_amount c n = Ok u"
    "fully_vested c (block e) = (Ok b :: (vest_error, _) outcome)"
    and at: "(if b then Ok s
        else and_then (attach_schedule (v_max_complexity s) (v_vesting s) rcpt c) (\<lambda>vs.
             Ok (s\<lparr> v_vesting := vs \<rparr>))) = Ok s1"
    and mv: "deduct_coins s1 e (sender info) n = Ok s2" "credit_coins s2 rcpt n = Ok s'"
    by (simp only: vest_execute_transfer_vesting_def outcome_simps) blast
  from at have at': "if b then s1 = s
     else \<exists>w. attach_schedule (v_max_complexity s) (v_vesting s) rcpt c = Ok w \<and> s1 = s\<lparr> v_vesting := w \<rparr>"
    by (auto simp: outcome_simps split: if_splits)
  then have "\<exists>w. s1 = s\<lparr> v_vesting := w \<rparr>"
    by (cases b) (auto intro: exI [of _ "v_vesting s"])
  then obtain w where w: "s1 = s\<lparr> v_vesting := w \<rparr>" ..
  then have frame: "v_balances s1 = v_balances s" "holdings s1 = holdings s"
    by (simp_all add: holdings_def fun_eq_iff)
  from mv show ?thesis
  proof (rule move_coins_cases)
    fix vs assume "can_move (v_balances s1) (sender info) rcpt n"
      "debited s1 e (sender info) (holdings s1 (sender info) - n) vs"
      "s' = s1\<lparr> v_vesting := vs, v_balances := moved (v_balances s1) (sender info) rcpt n \<rparr>"
    moreover have "assert_schedule_vests_amount c n = Ok ()" using r(4) by simp
    ultimately show thesis
      by (intro that [OF r(1-3) _ r(5) at']) (simp_all only: frame, simp add: w)
  qed
qed

lemma vest_burn_cases:
  assumes "vest_execute_burn s e info n = Ok s'"
  obtains vs ti where "n \<le> kv_nat (v_balances s) (sender info)" "v_token s = Some ti" "n \<le> v_total_supply ti"
    "debited s e (sender info) (holdings s (sender info) - n) vs"
    "s' = s\<lparr> v_vesting := vs,
            v_balances := kv_set (v_balances s) (sender info) (kv_nat (v_balances s) (sender info) - n),
            v_token := Some (ti\<lparr> v_total_supply := v_total_supply ti - n \<rparr>) \<rparr>"
proof -
  from assms obtain s1 where r: "deduct_coins s e (sender info) n = Ok s1" "vest_supply_sub s1 n = Ok s'"
    by (auto simp: vest_execute_burn_def outcome_simps split: if_splits)
  from r(1) show ?thesis
    by (rule deduct_coins_cases) (use r(2) that in \<open>auto simp: vest_supply_sub_Ok\<close>)
qed

lemma vest_mint_cases:
  assumes "vest_execute_mint P s e info r n = Ok s'"
  obtains ti m rcpt limit where "v_token s = Some ti" "v_mint ti = Some m" "v_minter m = sender info"
    "addr_validate P r = Ok rcpt" "v_total_supply ti + n < u128_lim"
    "curve_now (block e) (v_cap m) = (Ok limit :: (vest_error, _) outcome)"
    "\<And>l. limit = Some l \<Longrightarrow> v_total_supply ti + n \<le> l"
    "kv_nat (v_balances s) rcpt + n < u128_lim"
    "s' = s\<lparr> v_token := Some (ti\<lparr> v_total_supply := v_total_supply ti + n \<rparr>),
            v_balances := kv_set (v_balances s) rcpt (kv_nat (v_balances s) rcpt + n) \<rparr>"
proof -
  from assms obtain ti m where t: "0 < n" "v_token s = Some ti" "v_mint ti = Some m" "v_minter m = sender info"
    by (auto simp: vest_execute_mint_def outcome_simps split: if_splits option.splits)
  with assms obtain rcpt limit where "v_total_supply ti + n < u128_lim"
    "vest_get_cap (ti\<lparr> v_total_supply := v_total_supply ti + n \<rparr>) (block e) = (Ok limit :: (vest_error, _) outcome)"
    "\<forall>l. limit = Some l \<longrightarrow> v_total_supply ti + n \<le> l"
    "addr_validate P r = Ok rcpt"
    "credit_coins (s\<lparr> v_token := Some (ti\<lparr> v_total_supply := v_total_supply ti + n \<rparr>) \<rparr>) rcpt n = Ok s'"
    by (auto simp: vest_execute_mint_def outcome_simps arith_simps Let_def not_less
        split: if_splits option.splits)
  with t show ?thesis
    by (intro that [of ti m rcpt limit]) (auto simp: credit_coins_Ok vest_get_cap_def)
qed

lemma vest_update_minter_cases:
  assumes "vest_execute_update_minter P s info nm = Ok s'"
  obtains ti m a where "v_token s = Some ti" "v_mint ti = Some m" "v_minter m = sender info"
    "addr_validate P nm = Ok a"
    "s' = s\<lparr> v_token := Some (ti\<lparr> v_mint := Some (m\<lparr> v_minter := a \<rparr>) \<rparr>) \<rparr>"
  using assms
  by (auto simp: vest_execute_update_minter_def outcome_simps split: option.splits if_splits)

lemma vest_staking_cases:
  assumes "vest_execute_update_staking_address P s info st = Ok s'"
  obtains a where "v_staking s = None" "addr_validate P st = Ok a" "s' = s\<lparr> v_staking := Some a \<rparr>"
  using assms
  by (auto simp: vest_execute_update_staking_address_def outcome_simps split: option.splits if_splits)

lemma vest_delegate_cases:
  assumes "vest_execute_delegate s info n m = Ok (s', out)"
  obtains st where "0 < n" "v_staking s = Some st" "can_move (v_balances s) (sender info) st n"
    "s' = s\<lparr> v_balances := moved (v_balances s) (sender info) st n,
            v_delegated := kv_set (v_delegated s) (sender info) (kv_nat (v_delegated s) (sender info) + n) \<rparr>"
    "out = [Receive_delegation \<lparr> receiver = st, receive_sender = sender info,
             receive_amount = n, receive_payload = m \<rparr>]"
proof -
  from assms obtain st where st: "0 < n" "v_staking s = Some st"
    by (auto simp: vest_execute_delegate_def outcome_simps split: if_splits)
  with assms have "can_move (v_balances s) (sender info) st n"
    "s' = s\<lparr> v_balances := moved (v_balances s) (sender info) st n,
            v_delegated := kv_set (v_delegated s) (sender info) (kv_nat (v_delegated s) (sender info) + n) \<rparr>"
    "out = [Receive_delegation \<lparr> receiver = st, receive_sender = sender info,
             receive_amount = n, receive_payload = m \<rparr>]"
    by (auto simp: vest_execute_delegate_def outcome_simps arith_simps Let_def credit_coins_Ok
        can_move_def moved_def)
  with st show ?thesis by (rule that)
qed

lemma vest_undelegate_cases:
  assumes "vest_execute_undelegate P s e info r n = Ok s'"
  obtains st rcpt d vs where "v_staking s = Some st" "sender info = st" "addr_validate P r = Ok rcpt" "0 < n"
    "kv_get (v_delegated s) rcpt = Some d" "n \<le> d" "can_move (v_balances s) st rcpt n"
    "debited s e st (kv_nat (v_balances s) st + kv_nat (kv_set (v_delegated s) rcpt (d - n)) st - n) vs"
    "s' = s\<lparr> v_delegated := kv_set (v_delegated s) rcpt (d - n), v_vesting := vs,
            v_balances := moved (v_balances s) st rcpt n \<rparr>"
proof -
  from assms obtain st rcpt d s2 where r: "v_staking s = Some st" "sender info = st"
    "addr_validate P r = Ok rcpt" "kv_get (v_delegated s) rcpt = Some d" "n \<le> d" "0 < n"
    and mv: "deduct_coins (s\<lparr> v_delegated := kv_set (v_delegated s) rcpt (d - n) \<rparr>) e (sender info) n = Ok s2"
      "credit_coins s2 rcpt n = Ok s'"
    by (auto simp: vest_execute_undelegate_def outcome_simps arith_simps Let_def kv_nat_def
        split: if_splits)
  let ?t = "s\<lparr> v_delegated := kv_set (v_delegated s) rcpt (d - n) \<rparr>"
  from mv show ?thesis
  proof (rule move_coins_cases)
    fix vs assume m: "can_move (v_balances ?t) (sender info) rcpt n"
      "debited ?t e (sender info) (holdings ?t (sender info) - n) vs"
      "s' = ?t\<lparr> v_vesting := vs, v_balances := moved (v_balances ?t) (sender info) rcpt n \<rparr>"
    have "debited s e st (kv_nat (v_balances s) st + kv_nat (kv_set (v_delegated s) rcpt (d - n)) st - n) vs"
      using m(2) debited_frame [of ?t s] r(2) by (simp add: holdings_def)
    then show thesis
      by (rule that [OF r(1,2,3,6,4,5), rotated]) (use m(1,3) r(2) in simp_all)
  qed
qed

lemma vest_add_address_cases:
  assumes "vest_execute_add_address P s info a = Ok s'"
  obtains al b where "v_allowlist s = Some al" "sender info \<in> set al" "addr_validate P a = Ok b"
    "b \<notin> set al" "s' = s\<lparr> v_allowlist := Some (al @ [b]) \<rparr>"
  using assms by (auto simp: vest_execute_add_address_def outcome_simps split: if_splits)

lemma vest_remove_address_cases:
  assumes "vest_execute_remove_address P s info a = Ok s'"
  obtains al b where "v_allowlist s = Some al" "sender info \<in> set al" "addr_validate P a = Ok b"
    "b \<in> set al" "filter (\<lambda>x. x \<noteq> b) al \<noteq> []"
    "s' = s\<lparr> v_allowlist := Some (filter (\<lambda>x. x \<noteq> b) al) \<rparr>"
proof -
  from assms obtain al b where r: "v_allowlist s = Some al" "sender info \<in> set al" "addr_validate P a = Ok b"
    "length al \<noteq> length (filter (\<lambda>x. x \<noteq> b) al)" "filter (\<lambda>x. x \<noteq> b) al \<noteq> []"
    "s' = s\<lparr> v_allowlist := Some (filter (\<lambda>x. x \<noteq> b) al) \<rparr>"
    by (auto simp: vest_execute_remove_address_def outcome_simps Let_def split: if_splits)
  have "b \<in> set al"
  proof (rule ccontr)
    assume "b \<notin> set al"
    then have "filter (\<lambda>x. x \<noteq> b) al = al" by (auto simp: filter_id_conv)
    with r(4) show False by simp
  qed
  from that [OF r(1-3) this r(5,6)] show ?thesis .
qed

lemma vest_marketing_cases:
  assumes "vest_execute_update_marketing P s info p d m = Ok s'"
  obtains mi where "s' = s\<lparr> v_marketing := mi \<rparr>"
  using assms
  by (auto simp: vest_execute_update_marketing_def outcome_simps Let_def split: if_splits)

lemma vest_logo_cases:
  assumes "vest_execute_upload_logo s info l = Ok s'"
  obtains mi where "vest_verify_logo l = Ok ()" "s' = s\<lparr> v_logo := Some l, v_marketing := mi \<rparr>"
  using assms by (auto simp: vest_execute_upload_logo_def outcome_simps split: if_splits)

lemma vest_increase_cases:
  assumes "vest_execute_increase_allowance P s info sp n ex = Ok s'"
  obtains a v where "s' = s\<lparr> v_allowances := kv_set (v_allowances s) (sender info, a) v \<rparr>"
  using assms
  by (auto simp: vest_execute_increase_allowance_def outcome_simps Let_def split: if_splits)

lemma vest_decrease_cases:
  assumes "vest_execute_decrease_allowance P s info sp n ex = Ok s'"
  obtains a v where "s' = s\<lparr> v_allowances := kv_set (v_allowances s) (sender info, a) v \<rparr>"
    | a where "s' = s\<lparr> v_allowances := kv_del (v_allowances s) (sender info, a) \<rparr>"
  using assms
  by (auto simp: vest_execute_decrease_allowance_def outcome_simps Let_def split: if_splits)

lemma vest_deduct_cases:
  assumes "vest_deduct_allowance P s own sp b n = Ok s'"
  obtains a where "kv_get (v_allowances s) (own, sp) = Some a" "\<not> is_expired P (expires a) b" "n \<le> allowed a"
    "s' = s\<lparr> v_allowances := kv_set (v_allowances s) (own, sp) (a\<lparr> allowed := allowed a - n \<rparr>) \<rparr>"
  using assms
  by (auto simp: vest_deduct_allowance_def outcome_simps arith_simps split: option.splits if_splits)

end
