(* ===== verification/Vesting_Refine.thy ===== *)
theory Vesting_Refine
  imports Vesting_Proofs
begin

text \<open>
  The vesting token refines the plain token of \<open>cw20-base\<close>: forgetting schedules, cap,
  delegations and the allow list turns every successful message into a successful message of
  the plain token, or into no step at all.  A delegation is a \<open>Send\<close> to the staking contract
  and an undelegation is a \<open>Transfer\<close> by it.  The supply and consent invariants of the plain
  token therefore hold of the vesting token.
\<close>

section \<open>The abstraction\<close>

text \<open>The allowances by spender, which only the plain token stores.\<close>

definition by_spender :: "(addr \<times> addr, allowance) kv \<Rightarrow> (addr \<times> addr, allowance) kv" where
  "by_spender al = rebuild_spender_allowances al []"

lemma by_spender_ok [simp]: "kv_ok (by_spender al)"
  by (simp add: by_spender_def rebuild_ok)

lemma by_spender_get: "kv_ok al \<Longrightarrow> kv_get (by_spender al) (sp, own) = kv_get al (own, sp)"
  by (simp add: by_spender_def rebuild_get split: option.splits)

lemma by_spender_set:
  assumes "kv_ok al"
  shows "by_spender (kv_set al (own, sp) v) = kv_set (by_spender al) (sp, own) v"
proof (rule kv_eqI)
  show "kv_get (by_spender (kv_set al (own, sp) v)) k = kv_get (kv_set (by_spender al) (sp, own) v) k" for k
    by (cases k) (use assms in \<open>auto simp: by_spender_get\<close>)
qed simp_all

lemma by_spender_del:
  assumes "kv_ok al"
  shows "by_spender (kv_del al (own, sp)) = kv_del (by_spender al) (sp, own)"
proof (rule kv_eqI)
  show "kv_get (by_spender (kv_del al (own, sp))) k = kv_get (kv_del (by_spender al) (sp, own)) k" for k
    by (cases k) (use assms in \<open>auto simp: by_spender_get\<close>)
qed simp_all

definition plain_info :: "vest_token_info \<Rightarrow> token_info" where
  "plain_info ti = \<lparr> token_name = v_name ti, token_symbol = v_symbol ti, token_decimals = v_decimals ti,
     total_supply = v_total_supply ti,
     mint = map_option (\<lambda>m. \<lparr> minter = v_minter m, mint_cap = None \<rparr>) (v_mint ti) \<rparr>"

definition plain :: "vest_state \<Rightarrow> token_state" where
  "plain s = \<lparr> cw2_version = v_version s, token = map_option plain_info (v_token s),
     marketing_item = v_marketing s, logo_item = v_logo s, balances = v_balances s,
     allowances = v_allowances s, allowances_spender = by_spender (v_allowances s) \<rparr>"

text \<open>The message of the plain token that a message of the vesting token amounts to, and its sender.\<close>

fun plain_msg :: "vest_state \<Rightarrow> vest_msg \<Rightarrow> token_msg option" where
  "plain_msg s (Vm_transfer r n) = Some (Transfer r n)"
| "plain_msg s (Vm_transfer_vesting r n c) = Some (Transfer r n)"
| "plain_msg s (Vm_burn n) = Some (Burn n)"
| "plain_msg s (Vm_send c n m) = Some (Send c n m)"
| "plain_msg s (Vm_increase_allowance sp n ex) = Some (Increase_allowance sp n ex)"
| "plain_msg s (Vm_decrease_allowance sp n ex) = Some (Decrease_allowance sp n ex)"
| "plain_msg s (Vm_transfer_from own r n) = Some (Transfer_from own r n)"
| "plain_msg s (Vm_send_from own c n m) = Some (Send_from own c n m)"
| "plain_msg s (Vm_burn_from own n) = Some (Burn_from own n)"
| "plain_msg s (Vm_mint r n) = Some (Mint r n)"
| "plain_msg s (Vm_update_minter m) = Some (Update_minter (Some m))"
| "plain_msg s (Vm_update_marketing p d m) = Some (Update_marketing p d m)"
| "plain_msg s (Vm_upload_logo l) = Some (Upload_logo l)"
| "plain_msg s (Vm_allow_vester a) = None"
| "plain_msg s (Vm_deny_vester a) = None"
| "plain_msg s (Vm_update_staking_address a) = None"
| "plain_msg s (Vm_delegate n m) = map_option (\<lambda>st. Send st n m) (v_staking s)"
| "plain_msg s (Vm_undelegate r n) = Some (Transfer r n)"

fun plain_out :: "vest_out \<Rightarrow> receive_msg" where
  "plain_out (Receive m) = m"
| "plain_out (Receive_delegation m) = m"

text \<open>The one check the vesting token leaves out: an expiration that has already passed.\<close>

fun stale :: "platform \<Rightarrow> env \<Rightarrow> vest_msg \<Rightarrow> bool" where
  "stale P e (Vm_increase_allowance sp n (Some ex)) = is_expired P ex (block e)"
| "stale P e (Vm_decrease_allowance sp n (Some ex)) = is_expired P ex (block e)"
| "stale P e _ = False"

lemma plain_sel [simp]:
  "balances (plain s) = v_balances s" "token (plain s) = map_option plain_info (v_token s)"
  "allowances (plain s) = v_allowances s" "allowances_spender (plain s) = by_spender (v_allowances s)"
  "marketing_item (plain s) = v_marketing s" "logo_item (plain s) = v_logo s"
  "cw2_version (plain s) = v_version s"
  by (simp_all add: plain_def)

lemma plain_update [simp]:
  "plain (s\<lparr> v_vesting := vs \<rparr>) = plain s" "plain (s\<lparr> v_delegated := ds \<rparr>) = plain s"
  "plain (s\<lparr> v_allowlist := al \<rparr>) = plain s" "plain (s\<lparr> v_staking := st \<rparr>) = plain s"
  "plain (s\<lparr> v_balances := bs \<rparr>) = (plain s)\<lparr> balances := bs \<rparr>"
  "plain (s\<lparr> v_token := ti \<rparr>) = (plain s)\<lparr> token := map_option plain_info ti \<rparr>"
  "plain (s\<lparr> v_marketing := mi \<rparr>) = (plain s)\<lparr> marketing_item := mi \<rparr>"
  "plain (s\<lparr> v_logo := l \<rparr>) = (plain s)\<lparr> logo_item := l \<rparr>"
  by (simp_all add: plain_def)

lemma plain_allowances_set [simp]:
  "kv_ok (v_allowances s) \<Longrightarrow> plain (s\<lparr> v_allowances := kv_set (v_allowances s) (own, sp) a \<rparr>) =
     (plain s)\<lparr> allowances := kv_set (v_allowances s) (own, sp) a,
                allowances_spender := kv_set (by_spender (v_allowances s)) (sp, own) a \<rparr>"
  by (simp add: plain_def by_spender_set)

lemma plain_allowances_del [simp]:
  "kv_ok (v_allowances s) \<Longrightarrow> plain (s\<lparr> v_allowances := kv_del (v_allowances s) (own, sp) \<rparr>) =
     (plain s)\<lparr> allowances := kv_del (v_allowances s) (own, sp),
                allowances_spender := kv_del (by_spender (v_allowances s)) (sp, own) \<rparr>"
  by (simp add: plain_def by_spender_del)

lemma plain_info_sel [simp]:
  "total_supply (plain_info ti) = v_total_supply ti"
  "mint (plain_info ti) = map_option (\<lambda>m. \<lparr> minter = v_minter m, mint_cap = None \<rparr>) (v_mint ti)"
  "plain_info (ti\<lparr> v_total_supply := n \<rparr>) = (plain_info ti)\<lparr> total_supply := n \<rparr>"
  "plain_info (ti\<lparr> v_mint := m \<rparr>) =
     (plain_info ti)\<lparr> mint := map_option (\<lambda>m. \<lparr> minter = v_minter m, mint_cap = None \<rparr>) m \<rparr>"
  by (simp_all add: plain_info_def)

section \<open>Steps of the plain token\<close>

lemma plain_move:
  "can_move bs a b n \<longleftrightarrow> (\<exists>m. balance_sub bs a n = Ok m \<and> balance_add m b n = Ok (moved bs a b n))"
  by (auto simp: can_move_def balance_sub_Ok balance_add_Ok moved_def Let_def)

lemma plain_transfer:
  assumes "addr_validate P r = Ok b" and "can_move (balances t) (sender info) b n"
  shows "execute_transfer P t info r n = Ok (t\<lparr> balances := moved (balances t) (sender info) b n \<rparr>)"
  using assms by (auto simp: execute_transfer_def plain_move)

lemma plain_send:
  assumes "addr_validate P c = Ok b" and "can_move (balances t) (sender info) b n"
  shows "execute_send P t info c n m = Ok (t\<lparr> balances := moved (balances t) (sender info) b n \<rparr>,
     [\<lparr> receiver = c, receive_sender = sender info, receive_amount = n, receive_payload = m \<rparr>])"
  using assms by (auto simp: execute_send_def plain_move)

lemma plain_deduct:
  assumes "vest_deduct_allowance P s own sp b n = Ok s1" and "kv_ok (v_allowances s)"
  shows "\<exists>a. deduct_allowance P (plain s) own sp b n = Ok (plain s1, a)"
  using assms(1)
proof (rule vest_deduct_cases)
  fix a assume "kv_get (v_allowances s) (own, sp) = Some a" "\<not> is_expired P (expires a) b" "n \<le> allowed a"
    "s1 = s\<lparr> v_allowances := kv_set (v_allowances s) (own, sp) (a\<lparr> allowed := allowed a - n \<rparr>) \<rparr>"
  with assms(2) show ?thesis
    by (simp add: deduct_allowance_def lower_allowance_def by_spender_get u128_checked_sub_def)
qed

lemma vest_deduct_frame:
  assumes "vest_deduct_allowance P s own sp b n = Ok s1"
  shows "v_balances s1 = v_balances s" "v_vesting s1 = v_vesting s" "v_delegated s1 = v_delegated s"
    "v_token s1 = v_token s" "v_staking s1 = v_staking s" "v_allowlist s1 = v_allowlist s"
    "v_max_complexity s1 = v_max_complexity s" "kv_ok (v_allowances s) \<Longrightarrow> kv_ok (v_allowances s1)"
  using assms by (auto elim!: vest_deduct_cases)


text \<open>The \<open>_from\<close> operations: deduct the allowance, then move the owner's coins.\<close>

lemma vest_transfer_from_cases:
  assumes "vest_execute_transfer_from P s e info own r n = Ok s'"
  obtains o' b s1 vs where "addr_validate P own = Ok o'" "addr_validate P r = Ok b"
    "vest_deduct_allowance P s o' (sender info) (block e) n = Ok s1" "can_move (v_balances s1) o' b n"
    "debited s1 e o' (holdings s1 o' - n) vs"
    "s' = s1\<lparr> v_vesting := vs, v_balances := moved (v_balances s1) o' b n \<rparr>"
proof -
  from assms obtain o' b s1 s2 where r: "addr_validate P own = Ok o'" "addr_validate P r = Ok b"
    "vest_deduct_allowance P s o' (sender info) (block e) n = Ok s1"
    "deduct_coins s1 e o' n = Ok s2" "credit_coins s2 b n = Ok s'"
    by (auto simp: vest_execute_transfer_from_def outcome_simps)
  from r(4,5) show ?thesis by (rule move_coins_cases) (rule that [OF r(1-3)])
qed

lemma vest_send_from_cases:
  assumes "vest_execute_send_from P s e info own r n m = Ok (s', out)"
  obtains o' b s1 vs where "addr_validate P own = Ok o'" "addr_validate P r = Ok b"
    "vest_deduct_allowance P s o' (sender info) (block e) n = Ok s1" "can_move (v_balances s1) o' b n"
    "debited s1 e o' (holdings s1 o' - n) vs"
    "s' = s1\<lparr> v_vesting := vs, v_balances := moved (v_balances s1) o' b n \<rparr>"
    "out = [Receive \<lparr> receiver = r, receive_sender = sender info, receive_amount = n, receive_payload = m \<rparr>]"
proof -
  from assms obtain o' b s1 s2 where r: "addr_validate P own = Ok o'" "addr_validate P r = Ok b"
    "vest_deduct_allowance P s o' (sender info) (block e) n = Ok s1"
    "deduct_coins s1 e o' n = Ok s2" "credit_coins s2 b n = Ok s'"
    "out = [Receive \<lparr> receiver = r, receive_sender = sender info, receive_amount = n, receive_payload = m \<rparr>]"
    by (auto simp: vest_execute_send_from_def outcome_simps)
  from r(4,5) show ?thesis by (rule move_coins_cases) (rule that [OF r(1-3) _ _ _ r(6)])
qed

lemma vest_burn_from_cases:
  assumes "vest_execute_burn_from P s e info own n = Ok s'"
  obtains o' s1 vs ti where "addr_validate P own = Ok o'"
    "vest_deduct_allowance P s o' (sender info) (block e) n = Ok s1" "n \<le> kv_nat (v_balances s1) o'"
    "debited s1 e o' (holdings s1 o' - n) vs" "v_token s1 = Some ti" "n \<le> v_total_supply ti"
    "s' = s1\<lparr> v_vesting := vs, v_balances := kv_set (v_balances s1) o' (kv_nat (v_balances s1) o' - n),
             v_token := Some (ti\<lparr> v_total_supply := v_total_supply ti - n \<rparr>) \<rparr>"
proof -
  from assms obtain o' s1 s2 where r: "addr_validate P own = Ok o'"
    "vest_deduct_allowance P s o' (sender info) (block e) n = Ok s1"
    "deduct_coins s1 e o' n = Ok s2" "vest_supply_sub s2 n = Ok s'"
    by (auto simp: vest_execute_burn_from_def outcome_simps)
  from r(3) show ?thesis
  proof (rule deduct_coins_cases)
    fix vs assume d: "n \<le> kv_nat (v_balances s1) o'" "debited s1 e o' (holdings s1 o' - n) vs"
      "s2 = s1\<lparr> v_vesting := vs, v_balances := kv_set (v_balances s1) o' (kv_nat (v_balances s1) o' - n) \<rparr>"
    with r(4) obtain ti where ti: "v_token s1 = Some ti" "n \<le> v_total_supply ti"
      "s' = s2\<lparr> v_token := Some (ti\<lparr> v_total_supply := v_total_supply ti - n \<rparr>) \<rparr>"
      by (auto simp: vest_supply_sub_Ok)
    show thesis by (rule that [OF r(1,2) d(1,2) ti(1,2)]) (simp add: ti(3) d(3))
  qed
qed

section \<open>Simulation\<close>

lemma plain_verify_logo: "vest_verify_logo l = Ok u \<Longrightarrow> verify_logo l = Ok ()"
  by (cases l) (auto simp: vest_verify_xml_logo_def verify_xml_logo_def vest_verify_png_logo_def
      verify_png_logo_def vest_verify_xml_preamble_def verify_xml_preamble_def vest_logo_size_cap_def
      logo_size_cap_def outcome_simps split: if_splits)

lemma plain_increase:
  assumes "vest_execute_increase_allowance P s info sp n ex = Ok s'" and "kv_ok (v_allowances s)"
    and "\<And>x. ex = Some x \<Longrightarrow> \<not> is_expired P x (block e)"
  shows "execute_increase_allowance P (plain s) e info sp n ex = Ok (plain s')"
  using assms
  by (cases ex) (auto simp: vest_execute_increase_allowance_def execute_increase_allowance_def Let_def
      outcome_simps arith_simps raise_allowance_def by_spender_get u128_add_def split: if_splits)

lemma plain_decrease_or_stale:
  assumes "vest_execute_decrease_allowance P s info sp n ex = Ok s'" and "kv_ok (v_allowances s)"
  shows "execute_decrease_allowance P (plain s) e info sp n ex = Ok (plain s') \<or>
    (\<exists>x. ex = Some x \<and> is_expired P x (block e) \<and> execute_decrease_allowance P (plain s) e info sp n ex = Err Invalid_expiration)"
proof -
  note defs = vest_execute_decrease_allowance_def execute_decrease_allowance_def Let_def
  from assms(1) obtain sp' a where sp: "addr_validate P sp = Ok sp'" "sp' \<noteq> sender info"
    and a: "kv_get (v_allowances s) (sender info, sp') = Some a"
    by (auto simp: vest_execute_decrease_allowance_def outcome_simps split: if_splits)
  show ?thesis
  proof (cases "n < allowed a")
    case True
    with assms sp a show ?thesis by (cases ex) (auto simp: defs u128_checked_sub_def)
  next
    case False
    with assms sp a show ?thesis by (auto simp: defs)
  qed
qed

lemma plain_decrease:
  assumes "vest_execute_decrease_allowance P s info sp n ex = Ok s'" and "kv_ok (v_allowances s)"
    and "\<And>x. ex = Some x \<Longrightarrow> \<not> is_expired P x (block e)"
  shows "execute_decrease_allowance P (plain s) e info sp n ex = Ok (plain s')"
  using plain_decrease_or_stale [OF assms(1,2), of e] assms(3) by blast

lemma plain_marketing:
  assumes "vest_execute_update_marketing P s info p d m = Ok s'"
  shows "execute_update_marketing P (plain s) info p d m = Ok (plain s')"
proof -
  from assms obtain mi where mi: "v_marketing s = Some mi" "mk_marketing mi = Some (sender info)"
    by (auto simp: vest_execute_update_marketing_def outcome_simps split: if_splits)
  note defs = vest_execute_update_marketing_def execute_update_marketing_def Let_def mi
  show ?thesis
  proof (cases "m = None \<or> blank (the m)")
    case True
    with assms show ?thesis by (cases m) (simp_all add: defs, auto)
  next
    case False
    then obtain t where m: "m = Some t" "\<not> blank t" by (cases m) auto
    with assms obtain a where "addr_validate P t = Ok a" by (auto simp: defs outcome_simps)
    with assms m show ?thesis by (simp add: defs) auto
  qed
qed

lemma plain_logo:
  assumes "vest_execute_upload_logo s info l = Ok s'"
  shows "execute_upload_logo (plain s) info l = Ok (plain s')"
  using assms
  by (auto simp: vest_execute_upload_logo_def execute_upload_logo_def outcome_simps
      dest: plain_verify_logo split: if_splits)

text \<open>What the simulation needs of the state.\<close>

definition storage_ok :: "platform \<Rightarrow> vest_state \<Rightarrow> bool" where
  "storage_ok P s \<longleftrightarrow> kv_ok (v_balances s) \<and> kv_ok (v_allowances s) \<and> kv_ok (v_vesting s)
     \<and> kv_ok (v_delegated s) \<and> (\<forall>st. v_staking s = Some st \<longrightarrow> addr_validate P st = Ok st)"

definition simulated ::
  "platform \<Rightarrow> vest_state \<Rightarrow> env \<Rightarrow> message_info \<Rightarrow> vest_msg \<Rightarrow> vest_state \<Rightarrow> vest_out list \<Rightarrow> bool"
where
  "simulated P s e info msg s' out \<longleftrightarrow>
     (case plain_msg s msg of
        None \<Rightarrow> plain s' = plain s \<and> out = []
      | Some m \<Rightarrow> token_execute P (plain s) e info m = Ok (plain s', map plain_out out))"

lemma no_msgs_plain: "r = Ok t \<Longrightarrow> no_msgs r = Ok (t, [])"
  by (simp add: no_msgs_def)

lemma vest_execute_simulated:
  assumes run: "vest_execute P s e info msg = Ok (s', out)" and inv: "storage_ok P s"
    and fresh: "\<not> stale P e msg"
  shows "simulated P s e info msg s' out"
proof (cases msg)
  case (Vm_transfer r n)
  with run show ?thesis
    by (auto simp: quiet_Ok simulated_def no_msgs_plain plain_transfer elim!: vest_transfer_cases)
next
  case (Vm_transfer_vesting r n c)
  with run show ?thesis
    by (auto simp: quiet_Ok simulated_def no_msgs_plain plain_transfer elim!: vest_transfer_vesting_cases)
next
  case (Vm_burn n)
  with run show ?thesis
    by (auto simp: quiet_Ok simulated_def no_msgs_plain execute_burn_def balance_sub_def supply_sub_def
        u128_checked_sub_def elim!: vest_burn_cases)
next
  case (Vm_send c n m)
  with run show ?thesis by (auto simp: simulated_def plain_send elim!: vest_send_cases)
next
  case (Vm_increase_allowance sp n ex)
  with run fresh inv plain_increase [of P s info sp n ex s' e] show ?thesis
    by (cases ex) (auto simp: quiet_Ok simulated_def storage_ok_def intro!: no_msgs_plain)
next
  case (Vm_decrease_allowance sp n ex)
  with run fresh inv plain_decrease [of P s info sp n ex s' e] show ?thesis
    by (cases ex) (auto simp: quiet_Ok simulated_def storage_ok_def intro!: no_msgs_plain)
next
  case (Vm_mint r n)
  with run show ?thesis
    by (auto simp: quiet_Ok simulated_def no_msgs_plain execute_mint_def get_cap_def Let_def
        u128_add_def balance_add_def elim!: vest_mint_cases)
next
  case (Vm_update_minter m)
  with run show ?thesis
    by (auto simp: quiet_Ok simulated_def no_msgs_plain execute_update_minter_def
        elim!: vest_update_minter_cases)
next
  case (Vm_update_marketing p d m)
  with run show ?thesis by (auto simp: quiet_Ok simulated_def intro!: no_msgs_plain plain_marketing)
next
  case (Vm_upload_logo l)
  with run show ?thesis by (auto simp: quiet_Ok simulated_def intro!: no_msgs_plain plain_logo)
next
  case (Vm_allow_vester a)
  with run show ?thesis by (auto simp: quiet_Ok simulated_def elim!: vest_add_address_cases)
next
  case (Vm_deny_vester a)
  with run show ?thesis by (auto simp: quiet_Ok simulated_def elim!: vest_remove_address_cases)
next
  case (Vm_update_staking_address a)
  with run show ?thesis by (auto simp: quiet_Ok simulated_def elim!: vest_staking_cases)
next
  case (Vm_delegate n m)
  with run have "vest_execute_delegate s info n m = Ok (s', out)" by simp
  then show ?thesis
  proof (rule vest_delegate_cases)
    fix st assume "v_staking s = Some st" "can_move (v_balances s) (sender info) st n"
      "s' = s\<lparr> v_balances := moved (v_balances s) (sender info) st n,
         v_delegated := kv_set (v_delegated s) (sender info) (kv_nat (v_delegated s) (sender info) + n) \<rparr>"
      "out = [Receive_delegation \<lparr> receiver = st, receive_sender = sender info,
         receive_amount = n, receive_payload = m \<rparr>]"
    with inv Vm_delegate show ?thesis by (simp add: simulated_def storage_ok_def plain_send)
  qed
next
  case (Vm_undelegate r n)
  with run have "vest_execute_undelegate P s e info r n = Ok s'" "out = []" by (simp_all add: quiet_Ok)
  from this(1) show ?thesis
    by (rule vest_undelegate_cases) (simp add: simulated_def Vm_undelegate \<open>out = []\<close> no_msgs_plain plain_transfer)
next
  case (Vm_transfer_from own r n)
  with run have "vest_execute_transfer_from P s e info own r n = Ok s'" "out = []" by (simp_all add: quiet_Ok)
  from this(1) show ?thesis
  proof (rule vest_transfer_from_cases)
    fix o' b s1 vs
    assume r: "addr_validate P own = Ok o'" "addr_validate P r = Ok b" "can_move (v_balances s1) o' b n"
      "s' = s1\<lparr> v_vesting := vs, v_balances := moved (v_balances s1) o' b n \<rparr>"
      and d: "vest_deduct_allowance P s o' (sender info) (block e) n = Ok s1"
    from plain_deduct [OF d] inv obtain a where
      "deduct_allowance P (plain s) o' (sender info) (block e) n = Ok (plain s1, a)"
      by (auto simp: storage_ok_def)
    with r \<open>out = []\<close> Vm_transfer_from show ?thesis
      by (auto simp: simulated_def execute_transfer_from_def plain_move intro!: no_msgs_plain)
  qed
next
  case (Vm_send_from own r n m)
  with run have "vest_execute_send_from P s e info own r n m = Ok (s', out)" by simp
  then show ?thesis
  proof (rule vest_send_from_cases)
    fix o' b s1 vs
    assume r: "addr_validate P own = Ok o'" "addr_validate P r = Ok b" "can_move (v_balances s1) o' b n"
      "s' = s1\<lparr> v_vesting := vs, v_balances := moved (v_balances s1) o' b n \<rparr>"
      "out = [Receive \<lparr> receiver = r, receive_sender = sender info, receive_amount = n, receive_payload = m \<rparr>]"
      and d: "vest_deduct_allowance P s o' (sender info) (block e) n = Ok s1"
    from plain_deduct [OF d] inv obtain a where
      "deduct_allowance P (plain s) o' (sender info) (block e) n = Ok (plain s1, a)"
      by (auto simp: storage_ok_def)
    with r Vm_send_from show ?thesis
      by (auto simp: simulated_def execute_send_from_def plain_move)
  qed
next
  case (Vm_burn_from own n)
  with run have "vest_execute_burn_from P s e info own n = Ok s'" "out = []" by (simp_all add: quiet_Ok)
  from this(1) show ?thesis
  proof (rule vest_burn_from_cases)
    fix o' s1 vs ti
    assume r: "addr_validate P own = Ok o'" "n \<le> kv_nat (v_balances s1) o'" "v_token s1 = Some ti"
      "n \<le> v_total_supply ti"
      "s' = s1\<lparr> v_vesting := vs, v_balances := kv_set (v_balances s1) o' (kv_nat (v_balances s1) o' - n),
         v_token := Some (ti\<lparr> v_total_supply := v_total_supply ti - n \<rparr>) \<rparr>"
      and d: "vest_deduct_allowance P s o' (sender info) (block e) n = Ok s1"
    from plain_deduct [OF d] inv obtain a where
      "deduct_allowance P (plain s) o' (sender info) (block e) n = Ok (plain s1, a)"
      by (auto simp: storage_ok_def)
    with r \<open>out = []\<close> Vm_burn_from show ?thesis
      by (auto simp: simulated_def execute_burn_from_def balance_sub_def supply_sub_def
          u128_checked_sub_def intro!: no_msgs_plain)
  qed
qed

text \<open>A stale message that succeeds is rejected by the plain token for its expiration, or removes the allowance in both.\<close>

lemma vest_execute_stale:
  assumes run: "vest_execute P s e info msg = Ok (s', out)" and inv: "storage_ok P s" and st: "stale P e msg"
  shows "\<exists>m. plain_msg s msg = Some m \<and>
    (token_execute P (plain s) e info m = Ok (plain s', map plain_out out) \<or>
     token_execute P (plain s) e info m = Err Invalid_expiration)"
proof (cases msg)
  case (Vm_increase_allowance sp n ex)
  with st obtain x where "ex = Some x" "is_expired P x (block e)" by (cases ex) auto
  with Vm_increase_allowance run show ?thesis
    by (auto simp: quiet_Ok vest_execute_increase_allowance_def execute_increase_allowance_def no_msgs_def
        raise_allowance_def outcome_simps split: if_splits)
next
  case (Vm_decrease_allowance sp n ex)
  with run inv plain_decrease_or_stale [of P s info sp n ex s' e] show ?thesis
    by (auto simp: quiet_Ok storage_ok_def no_msgs_def intro!: no_msgs_plain)
qed (use st in simp_all)

end
