(* ===== verification/Vesting_Safety.thy ===== *)
theory Vesting_Safety
  imports Vesting_Refine
begin

text \<open>
  Invariants of the vesting token and the theorems about it: the supply is the sum of the
  balances and stays below the cap curve, stored schedules are well formed, what is locked
  stays locked until the schedule releases it, and a released account can move its tokens.
\<close>

section \<open>Schedules under one message\<close>

definition schedules_fall :: "vest_state \<Rightarrow> bool" where
  "schedules_fall s \<longleftrightarrow> (\<forall>a c. kv_get (v_vesting s) a = Some c \<longrightarrow> curve_dir False c)"

lemma schedules_fallD: "schedules_fall s \<Longrightarrow> kv_get (v_vesting s) a = Some c \<Longrightarrow> curve_dir False c"
  by (auto simp: schedules_fall_def)

definition locked_in :: "(addr, curve) kv \<Rightarrow> addr \<Rightarrow> nat \<Rightarrow> nat" where
  "locked_in vs a t = (case kv_get vs a of None \<Rightarrow> 0 | Some c \<Rightarrow> curve_fall c t)"

lemma locked_in: "locked s a t = locked_in (v_vesting s) a t"
  by (simp add: locked_def locked_in_def)

lemma debited_now:
  assumes "debited s e a h vs" and "kv_get (v_vesting s) a = Some c" and "schedules_fall s"
  shows "curve_fall c (seconds (block e)) \<le> h"
    and "vs = (if curve_fall c (seconds (block e)) = 0 then kv_del (v_vesting s) a else v_vesting s)"
proof -
  from assms(1,2) obtain v where v: "curve_value c (seconds (block e)) = (Ok v :: (vest_error, nat) outcome)"
    "v \<le> h" "vs = (if v = 0 then kv_del (v_vesting s) a else v_vesting s)"
    by (auto simp: debited_def curve_now_def outcome_simps)
  from curve_value_fall [OF v(1) schedules_fallD [OF assms(3,2)]] v(2,3)
  show "curve_fall c (seconds (block e)) \<le> h"
    and "vs = (if curve_fall c (seconds (block e)) = 0 then kv_del (v_vesting s) a else v_vesting s)"
    by simp_all
qed

lemma debited_none:
  "debited s e a h vs \<Longrightarrow> kv_get (v_vesting s) a = None \<Longrightarrow> vs = kv_del (v_vesting s) a"
  by (auto simp: debited_def curve_now_def)

lemma debited_locked:
  assumes "debited s e a h vs" and "schedules_fall s"
  shows "locked s a (seconds (block e)) \<le> h"
  using assms debited_now(1) by (cases "kv_get (v_vesting s) a") (auto simp: locked_def)

lemma debited_keeps:
  assumes "debited s e a h vs" and "schedules_fall s" and "seconds (block e) \<le> t"
  shows "locked_in vs b t = locked s b t"
proof (cases "kv_get (v_vesting s) a")
  case None
  with debited_none [OF assms(1)] show ?thesis by (auto simp: locked_in_def locked_def)
next
  case (Some c)
  have "curve_fall c t \<le> curve_fall c (seconds (block e))"
    using schedules_fallD [OF assms(2) Some] assms(3) by (rule curve_fall_antitone)
  with debited_now(2) [OF assms(1) Some assms(2)] Some show ?thesis
    by (auto simp: locked_in_def locked_def)
qed

lemma debited_sub: "debited s e a h vs \<Longrightarrow> kv_get vs b = Some c \<Longrightarrow> kv_get (v_vesting s) b = Some c"
  by (auto simp: debited_def split: if_splits)

lemma debited_ok: "debited s e a h vs \<Longrightarrow> kv_ok (v_vesting s) \<Longrightarrow> kv_ok vs"
  by (auto simp: debited_def)

text \<open>A valid schedule is decreasing and ends at zero.\<close>

lemma assert_schedule_ok:
  assumes "assert_schedule_vests_amount c n = Ok u"
  shows "schedule_ok c"
proof -
  from assms obtain w hi where "validate_monotonic_decreasing c = Ok w"
    "curve_range c = (Ok (0, hi) :: (vest_error, nat \<times> nat) outcome)"
    by (auto simp: assert_schedule_vests_amount_def outcome_simps split: prod.splits if_splits)
  with validate_decreasing_dir curve_range_end show ?thesis by (auto simp: schedule_ok_def)
qed

lemma schedule_ok_combine:
  assumes "curve_combine c d = (Ok e :: ('e, curve) outcome)" and "schedule_ok c" and "schedule_ok d"
  shows "schedule_ok e"
  using assms curve_combine_dir [OF assms(1)] curve_combine_end [OF assms(1)]
  by (simp add: schedule_ok_def)

lemma attach_locked:
  assumes "attach_schedule lim (v_vesting s) a c = Ok vs" and "schedules_fall s" and "schedule_ok c"
  shows "locked s b t \<le> locked_in vs b t" and "curve_fall c t \<le> locked_in vs a t"
    and "locked s a t + curve_fall c t \<le> locked_in vs a t + 1"
    and "\<And>x d. kv_get vs x = Some d \<Longrightarrow> x = a \<or> kv_get (v_vesting s) x = Some d"
    and "kv_get vs a = Some d \<Longrightarrow>
      (kv_get (v_vesting s) a = None \<and> d = c) \<or>
      (\<exists>old. kv_get (v_vesting s) a = Some old \<and> curve_combine old c = (Ok d :: (vest_error, curve) outcome))"
    and "kv_ok (v_vesting s) \<Longrightarrow> kv_ok vs"
proof -
  from assms(1) obtain c' m where vs: "vs = kv_set (v_vesting s) a c'"
    and c': "case kv_get (v_vesting s) a of None \<Rightarrow> c' = c
      | Some old \<Rightarrow> curve_combine old c = (Ok c' :: (vest_error, _) outcome)"
    by (rule attach_schedule_cases)
  have "locked s a t \<le> curve_fall c' t \<and> curve_fall c t \<le> curve_fall c' t
      \<and> locked s a t + curve_fall c t \<le> curve_fall c' t + 1"
  proof (cases "kv_get (v_vesting s) a")
    case None
    with c' show ?thesis by (simp add: locked_def)
  next
    case (Some old)
    with c' have "curve_combine old c = (Ok c' :: (vest_error, _) outcome)" by simp
    from curve_combine_fall [OF this schedules_fallD [OF assms(2) Some], of t] assms(3) Some
    show ?thesis by (simp add: locked_def schedule_ok_def)
  qed
  then show "locked s b t \<le> locked_in vs b t" "curve_fall c t \<le> locked_in vs a t"
    "locked s a t + curve_fall c t \<le> locked_in vs a t + 1"
    by (auto simp: vs locked_in_def locked_def)
  show "\<And>x d. kv_get vs x = Some d \<Longrightarrow> x = a \<or> kv_get (v_vesting s) x = Some d"
    by (auto simp: vs split: if_splits)
  show "kv_get vs a = Some d \<Longrightarrow>
      (kv_get (v_vesting s) a = None \<and> d = c) \<or>
      (\<exists>old. kv_get (v_vesting s) a = Some old \<and> curve_combine old c = (Ok d :: (vest_error, curve) outcome))"
    using c' by (auto simp: vs split: option.splits)
  show "kv_ok (v_vesting s) \<Longrightarrow> kv_ok vs" by (simp add: vs)
qed

text \<open>The state from which a granted schedule's debit is taken.\<close>

lemma attach_fall:
  assumes "attach_schedule lim (v_vesting s) a c = Ok vs" and "schedules_fall s" and "schedule_ok c"
  shows "schedules_fall (s\<lparr> v_vesting := vs \<rparr>)"
proof -
  have "curve_dir False d" if d: "kv_get vs x = Some d" for x d
  proof (cases "x = a")
    case True
    with d have "kv_get vs a = Some d" by simp
    from attach_locked(5) [OF assms this] show ?thesis
      using schedules_fallD [OF assms(2), of a] curve_combine_dir assms(3)
      by (auto simp: schedule_ok_def)
  next
    case False
    with attach_locked(4) [OF assms d] schedules_fallD [OF assms(2)] show ?thesis by blast
  qed
  then show ?thesis by (simp add: schedules_fall_def)
qed

section \<open>Holdings under one message\<close>

lemma move_holdings:
  assumes "can_move (v_balances s) x y n" and "v_balances s' = moved (v_balances s) x y n"
    and "v_delegated s' = v_delegated s" and "holdings s' a < holdings s a"
  shows "a = x \<and> holdings s' a = holdings s x - n"
  using assms by (auto simp: holdings_def can_move_def moved_nat split: if_splits)

lemma burn_holdings:
  assumes "n \<le> kv_nat (v_balances s) x" and "v_balances s' = kv_set (v_balances s) x (kv_nat (v_balances s) x - n)"
    and "v_delegated s' = v_delegated s" and "holdings s' a < holdings s a"
  shows "a = x \<and> holdings s' a = holdings s x - n"
  using assms by (auto simp: holdings_def split: if_splits)

text \<open>What a message may do to schedules and holdings.\<close>

definition step_safe :: "vest_state \<Rightarrow> env \<Rightarrow> vest_state \<Rightarrow> bool" where
  "step_safe s e s' \<longleftrightarrow>
     (\<forall>b t. seconds (block e) \<le> t \<longrightarrow> locked s b t \<le> locked s' b t) \<and>
     (\<forall>a. holdings s' a < holdings s a \<longrightarrow> locked s' a (seconds (block e)) \<le> holdings s' a)"

lemma step_safe_debit:
  assumes "debited s1 e x h vs" and "schedules_fall s1" and "v_vesting s' = vs"
    and "\<And>b t. locked s b t \<le> locked s1 b t"
    and "\<And>a. holdings s' a < holdings s a \<Longrightarrow> a = x \<and> h \<le> holdings s' a"
  shows "step_safe s e s'"
  using assms debited_keeps [OF assms(1,2)] debited_locked [OF assms(1,2)]
  unfolding step_safe_def locked_in [of s'] by (metis le_refl le_trans)

lemma step_safe_frame:
  assumes "v_vesting s' = v_vesting s" and "\<And>a. holdings s a \<le> holdings s' a"
  shows "step_safe s e s'"
  by (simp add: step_safe_def locked_def assms(1) leD [OF assms(2)])

lemma vest_execute_safe:
  assumes run: "vest_execute P s e info msg = Ok (s', out)" and falls: "schedules_fall s"
  shows "step_safe s e s'"
proof (cases msg)
  case (Vm_transfer r n)
  with run have "vest_execute_transfer P s e info r n = Ok s'" by (simp add: quiet_Ok)
  then show ?thesis
  proof (rule vest_transfer_cases)
    fix rcpt vs
    assume c: "can_move (v_balances s) (sender info) rcpt n"
      and d: "debited s e (sender info) (holdings s (sender info) - n) vs"
      and s': "s' = s\<lparr> v_vesting := vs, v_balances := moved (v_balances s) (sender info) rcpt n \<rparr>"
    show ?thesis
      by (rule step_safe_debit [OF d falls]) (use move_holdings [OF c, of s'] s' in auto)
  qed
next
  case (Vm_send r n m)
  with run have "vest_execute_send P s e info r n m = Ok (s', out)" by simp
  then show ?thesis
  proof (rule vest_send_cases)
    fix rcpt vs
    assume c: "can_move (v_balances s) (sender info) rcpt n"
      and d: "debited s e (sender info) (holdings s (sender info) - n) vs"
      and s': "s' = s\<lparr> v_vesting := vs, v_balances := moved (v_balances s) (sender info) rcpt n \<rparr>"
    show ?thesis
      by (rule step_safe_debit [OF d falls]) (use move_holdings [OF c, of s'] s' in auto)
  qed
next
  case (Vm_burn n)
  with run have "vest_execute_burn s e info n = Ok s'" by (simp add: quiet_Ok)
  then show ?thesis
  proof (rule vest_burn_cases)
    fix vs ti
    assume c: "n \<le> kv_nat (v_balances s) (sender info)"
      and d: "debited s e (sender info) (holdings s (sender info) - n) vs"
      and s': "s' = s\<lparr> v_vesting := vs,
            v_balances := kv_set (v_balances s) (sender info) (kv_nat (v_balances s) (sender info) - n),
            v_token := Some (ti\<lparr> v_total_supply := v_total_supply ti - n \<rparr>) \<rparr>"
    show ?thesis
      by (rule step_safe_debit [OF d falls]) (use burn_holdings [OF c, of s'] s' in auto)
  qed
next
  case (Vm_transfer_vesting r n c)
  with run have "vest_execute_transfer_vesting P s e info r n c = Ok s'" by (simp add: quiet_Ok)
  then show ?thesis
  proof (rule vest_transfer_vesting_cases)
    fix rcpt s1 vs b
    assume ok: "assert_schedule_vests_amount c n = Ok ()"
      and s1: "if b then s1 = s
        else \<exists>w. attach_schedule (v_max_complexity s) (v_vesting s) rcpt c = Ok w \<and> s1 = s\<lparr> v_vesting := w \<rparr>"
      and mv: "can_move (v_balances s) (sender info) rcpt n"
      and d: "debited s1 e (sender info) (holdings s (sender info) - n) vs"
      and s': "s' = s\<lparr> v_vesting := vs, v_balances := moved (v_balances s) (sender info) rcpt n \<rparr>"
    note ok = assert_schedule_ok [OF ok]
    have "schedules_fall s1 \<and> (\<forall>b t. locked s b t \<le> locked s1 b t)"
      using s1 falls attach_fall [OF _ falls ok] attach_locked(1) [OF _ falls ok]
      by (cases b) (auto simp: locked_in)
    then show ?thesis
      by (intro step_safe_debit [OF d]) (use move_holdings [OF mv, of s'] s' in auto)
  qed
next
  case (Vm_mint r n)
  with run have "vest_execute_mint P s e info r n = Ok s'" by (simp add: quiet_Ok)
  then show ?thesis by (rule vest_mint_cases) (auto intro!: step_safe_frame simp: holdings_def)
next
  case (Vm_delegate n m)
  with run have "vest_execute_delegate s info n m = Ok (s', out)" by simp
  then show ?thesis
    by (rule vest_delegate_cases)
      (auto intro!: step_safe_frame simp: holdings_def can_move_def moved_nat)
next
  case (Vm_undelegate r n)
  with run have "vest_execute_undelegate P s e info r n = Ok s'" by (simp add: quiet_Ok)
  then show ?thesis
  proof (rule vest_undelegate_cases)
    fix st rcpt d vs
    assume del: "kv_get (v_delegated s) rcpt = Some d" "n \<le> d"
      and mv: "can_move (v_balances s) st rcpt n"
      and db: "debited s e st (kv_nat (v_balances s) st + kv_nat (kv_set (v_delegated s) rcpt (d - n)) st - n) vs"
      and s': "s' = s\<lparr> v_delegated := kv_set (v_delegated s) rcpt (d - n), v_vesting := vs,
            v_balances := moved (v_balances s) st rcpt n \<rparr>"
    show ?thesis
    proof (rule step_safe_debit [OF db falls])
      show "a = st \<and> kv_nat (v_balances s) st + kv_nat (kv_set (v_delegated s) rcpt (d - n)) st - n \<le> holdings s' a"
        if "holdings s' a < holdings s a" for a
        using that del mv by (auto simp: s' holdings_def can_move_def moved_nat kv_nat_Some split: if_splits)
    qed (simp_all add: s')
  qed
next
  case (Vm_transfer_from own r n)
  with run have "vest_execute_transfer_from P s e info own r n = Ok s'" by (simp add: quiet_Ok)
  then show ?thesis
  proof (rule vest_transfer_from_cases)
    fix o' b s1 vs
    assume al: "vest_deduct_allowance P s o' (sender info) (block e) n = Ok s1"
      and c: "can_move (v_balances s1) o' b n" and d: "debited s1 e o' (holdings s1 o' - n) vs"
      and s': "s' = s1\<lparr> v_vesting := vs, v_balances := moved (v_balances s1) o' b n \<rparr>"
    note fr = vest_deduct_frame [OF al]
    have h: "holdings s = holdings s1" using fr by (simp add: holdings_def fun_eq_iff)
    show ?thesis
      by (rule step_safe_debit [OF d])
        (use move_holdings [OF c, of s'] s' fr falls h in \<open>auto simp: schedules_fall_def locked_def\<close>)
  qed
next
  case (Vm_send_from own r n m)
  with run have "vest_execute_send_from P s e info own r n m = Ok (s', out)" by simp
  then show ?thesis
  proof (rule vest_send_from_cases)
    fix o' b s1 vs
    assume al: "vest_deduct_allowance P s o' (sender info) (block e) n = Ok s1"
      and c: "can_move (v_balances s1) o' b n" and d: "debited s1 e o' (holdings s1 o' - n) vs"
      and s': "s' = s1\<lparr> v_vesting := vs, v_balances := moved (v_balances s1) o' b n \<rparr>"
    note fr = vest_deduct_frame [OF al]
    have h: "holdings s = holdings s1" using fr by (simp add: holdings_def fun_eq_iff)
    show ?thesis
      by (rule step_safe_debit [OF d])
        (use move_holdings [OF c, of s'] s' fr falls h in \<open>auto simp: schedules_fall_def locked_def\<close>)
  qed
next
  case (Vm_burn_from own n)
  with run have "vest_execute_burn_from P s e info own n = Ok s'" by (simp add: quiet_Ok)
  then show ?thesis
  proof (rule vest_burn_from_cases)
    fix o' s1 vs ti
    assume al: "vest_deduct_allowance P s o' (sender info) (block e) n = Ok s1"
      and c: "n \<le> kv_nat (v_balances s1) o'" and d: "debited s1 e o' (holdings s1 o' - n) vs"
      and s': "s' = s1\<lparr> v_vesting := vs,
         v_balances := kv_set (v_balances s1) o' (kv_nat (v_balances s1) o' - n),
         v_token := Some (ti\<lparr> v_total_supply := v_total_supply ti - n \<rparr>) \<rparr>"
    note fr = vest_deduct_frame [OF al]
    have h: "holdings s = holdings s1" using fr by (simp add: holdings_def fun_eq_iff)
    show ?thesis
      by (rule step_safe_debit [OF d])
        (use burn_holdings [OF c, of s'] s' fr falls h in \<open>auto simp: schedules_fall_def locked_def\<close>)
  qed
qed (use run in \<open>auto simp: quiet_Ok holdings_def intro!: step_safe_frame
    elim!: vest_increase_cases vest_decrease_cases vest_update_minter_cases vest_marketing_cases
      vest_logo_cases vest_add_address_cases vest_remove_address_cases vest_staking_cases\<close>)


section \<open>The invariant\<close>

definition schedules_ok :: "vest_state \<Rightarrow> bool" where
  "schedules_ok s \<longleftrightarrow> (\<exists>m. v_max_complexity s = Some m \<and>
     (\<forall>a c. kv_get (v_vesting s) a = Some c \<longrightarrow> schedule_ok c \<and> curve_size c \<le> as_usize m))"

definition vest_inv :: "platform \<Rightarrow> vest_state \<Rightarrow> bool" where
  "vest_inv P s \<longleftrightarrow> storage_ok P s \<and> token_inv (plain s) \<and> schedules_ok s"

lemma schedules_ok_fall: "schedules_ok s \<Longrightarrow> schedules_fall s"
  by (auto simp: schedules_ok_def schedules_fall_def schedule_ok_def)

lemma debited_schedules_ok:
  "debited s e a h vs \<Longrightarrow> schedules_ok s \<Longrightarrow> v_vesting s' = vs \<Longrightarrow>
     v_max_complexity s' = v_max_complexity s \<Longrightarrow> schedules_ok s'"
  unfolding schedules_ok_def using debited_sub by metis

lemma attach_schedules_ok:
  assumes at: "attach_schedule (v_max_complexity s) (v_vesting s) a c = Ok vs"
    and ok: "schedules_ok s" and c: "schedule_ok c"
  shows "schedules_ok (s\<lparr> v_vesting := vs \<rparr>)"
  using at
proof (rule attach_schedule_cases)
  fix c' m assume vs: "vs = kv_set (v_vesting s) a c'" "v_max_complexity s = Some m" "curve_size c' \<le> as_usize m"
    and c': "case kv_get (v_vesting s) a of None \<Rightarrow> c' = c
      | Some old \<Rightarrow> curve_combine old c = (Ok c' :: (vest_error, _) outcome)"
  have "schedule_ok c'"
  proof (cases "kv_get (v_vesting s) a")
    case (Some old)
    then have "schedule_ok old" using ok by (auto simp: schedules_ok_def)
    with c' c Some show ?thesis by (auto dest: schedule_ok_combine)
  qed (use c c' in simp)
  with vs ok show ?thesis by (auto simp: schedules_ok_def)
qed

text \<open>Frame: the parts of the storage that a message may change.\<close>

definition vest_frame :: "platform \<Rightarrow> vest_state \<Rightarrow> vest_state \<Rightarrow> bool" where
  "vest_frame P s s' \<longleftrightarrow> (storage_ok P s \<longrightarrow> storage_ok P s') \<and> (schedules_ok s \<longrightarrow> schedules_ok s')"

lemma addr_fixed: "platform_exact P \<Longrightarrow> addr_validate P x = Ok a \<Longrightarrow> addr_validate P a = Ok a"
  using platform_exactD by fastforce

lemma vest_frame_debit:
  assumes "debited s e a h vs"
    and "s' = s\<lparr> v_vesting := vs, v_balances := bs \<rparr> \<or> s' = s\<lparr> v_vesting := vs, v_balances := bs, v_token := ti \<rparr>"
    and "kv_ok (v_balances s) \<Longrightarrow> kv_ok bs"
  shows "vest_frame P s s'"
  using assms(2,3) debited_ok [OF assms(1)] debited_schedules_ok [OF assms(1), of s']
  by (auto simp: vest_frame_def storage_ok_def)

lemma vest_frame_allowance:
  assumes "vest_deduct_allowance P s own sp b n = Ok s1"
  shows "vest_frame P s s1"
  using vest_deduct_frame [OF assms] by (auto simp: vest_frame_def storage_ok_def schedules_ok_def)

lemma vest_frame_trans: "vest_frame P s t \<Longrightarrow> vest_frame P t u \<Longrightarrow> vest_frame P s u"
  by (auto simp: vest_frame_def)

lemma vest_frame_same:
  assumes "v_vesting s' = v_vesting s" "v_max_complexity s' = v_max_complexity s"
    and "storage_ok P s \<Longrightarrow> storage_ok P s'"
  shows "vest_frame P s s'"
  using assms by (auto simp: vest_frame_def schedules_ok_def)

lemma vest_execute_frame:
  assumes run: "vest_execute P s e info msg = Ok (s', out)" and P: "platform_exact P"
  shows "vest_frame P s s'"
proof (cases msg)
  case (Vm_transfer r n)
  with run show ?thesis
    by (auto simp: quiet_Ok elim!: vest_transfer_cases intro: vest_frame_debit)
next
  case (Vm_send r n m)
  with run show ?thesis by (auto elim!: vest_send_cases intro: vest_frame_debit)
next
  case (Vm_burn n)
  with run show ?thesis by (auto simp: quiet_Ok elim!: vest_burn_cases intro: vest_frame_debit)
next
  case (Vm_transfer_vesting r n c)
  with run have "vest_execute_transfer_vesting P s e info r n c = Ok s'" by (simp add: quiet_Ok)
  then show ?thesis
  proof (rule vest_transfer_vesting_cases)
    fix rcpt s1 vs b
    assume ok: "assert_schedule_vests_amount c n = Ok ()"
      and s1: "if b then s1 = s
        else \<exists>w. attach_schedule (v_max_complexity s) (v_vesting s) rcpt c = Ok w \<and> s1 = s\<lparr> v_vesting := w \<rparr>"
      and d: "debited s1 e (sender info) (holdings s (sender info) - n) vs"
      and s': "s' = s\<lparr> v_vesting := vs, v_balances := moved (v_balances s) (sender info) rcpt n \<rparr>"
    have "vest_frame P s s1"
    proof (cases b)
      case False
      with s1 obtain w where "attach_schedule (v_max_complexity s) (v_vesting s) rcpt c = Ok w"
        "s1 = s\<lparr> v_vesting := w \<rparr>" by auto
      with attach_schedules_ok [OF this(1) _ assert_schedule_ok [OF ok]]
        attach_locked(6) [OF this(1) schedules_ok_fall assert_schedule_ok [OF ok]]
      show ?thesis
        by (auto simp: vest_frame_def storage_ok_def elim!: attach_schedule_cases)
    qed (use s1 in \<open>simp add: vest_frame_def\<close>)
    moreover have "s' = s1\<lparr> v_vesting := vs, v_balances := moved (v_balances s) (sender info) rcpt n \<rparr>"
      using s1 s' by (cases b) auto
    moreover have "v_balances s1 = v_balances s" using s1 by (cases b) auto
    ultimately show ?thesis
      using vest_frame_trans [OF _ vest_frame_debit [OF d, of s' "moved (v_balances s) (sender info) rcpt n"]]
      by simp
  qed
next
  case (Vm_mint r n)
  with run show ?thesis
    by (auto simp: quiet_Ok storage_ok_def elim!: vest_mint_cases intro!: vest_frame_same)
next
  case (Vm_delegate n m)
  with run show ?thesis
    by (auto simp: storage_ok_def elim!: vest_delegate_cases intro!: vest_frame_same)
next
  case (Vm_undelegate r n)
  with run have "vest_execute_undelegate P s e info r n = Ok s'" by (simp add: quiet_Ok)
  then show ?thesis
  proof (rule vest_undelegate_cases)
    fix st rcpt d vs h
    let ?t = "s\<lparr> v_delegated := kv_set (v_delegated s) rcpt (d - n) \<rparr>"
    assume db: "debited s e st (kv_nat (v_balances s) st + kv_nat (kv_set (v_delegated s) rcpt (d - n)) st - n) vs"
      and s': "s' = s\<lparr> v_delegated := kv_set (v_delegated s) rcpt (d - n), v_vesting := vs,
            v_balances := moved (v_balances s) st rcpt n \<rparr>"
    have "vest_frame P s ?t" by (rule vest_frame_same) (auto simp: storage_ok_def)
    moreover have "vest_frame P ?t s'"
      by (rule vest_frame_debit [OF db [unfolded debited_frame [of ?t s, simplified, symmetric]],
            where bs = "moved (v_balances s) st rcpt n"])
        (simp_all add: s')
    ultimately show ?thesis by (rule vest_frame_trans)
  qed
next
  case (Vm_transfer_from own r n)
  with run show ?thesis
    by (auto simp: quiet_Ok elim!: vest_transfer_from_cases
        intro: vest_frame_trans [OF vest_frame_allowance vest_frame_debit])
next
  case (Vm_send_from own r n m)
  with run show ?thesis
    by (auto elim!: vest_send_from_cases
        intro: vest_frame_trans [OF vest_frame_allowance vest_frame_debit])
next
  case (Vm_burn_from own n)
  with run show ?thesis
    by (auto simp: quiet_Ok elim!: vest_burn_from_cases
        intro: vest_frame_trans [OF vest_frame_allowance vest_frame_debit])
next
  case (Vm_update_staking_address a)
  with run P show ?thesis
    by (auto simp: quiet_Ok storage_ok_def elim!: vest_staking_cases intro!: vest_frame_same
        dest: addr_fixed)
qed (use run in \<open>auto simp: quiet_Ok storage_ok_def intro!: vest_frame_same
    elim!: vest_increase_cases vest_decrease_cases vest_update_minter_cases vest_marketing_cases
      vest_logo_cases vest_add_address_cases vest_remove_address_cases\<close>)

lemma stale_frame:
  assumes "vest_execute P s e info msg = Ok (s', out)" and "stale P e msg"
  shows "v_balances s' = v_balances s \<and> v_token s' = v_token s"
proof (cases msg)
  case (Vm_increase_allowance sp n ex)
  with assms(1) show ?thesis by (auto simp: quiet_Ok elim!: vest_increase_cases)
next
  case (Vm_decrease_allowance sp n ex)
  with assms(1) show ?thesis by (auto simp: quiet_Ok elim!: vest_decrease_cases)
qed (use assms(2) in simp_all)

lemma vest_execute_inv:
  assumes run: "vest_execute P s e info msg = Ok (s', out)" and inv: "vest_inv P s" and P: "platform_exact P"
  shows "vest_inv P s'"
proof -
  have "token_inv (plain s')"
  proof (cases "stale P e msg")
    case True
    with stale_frame [OF run] inv token_inv_frame [of "plain s'" "plain s"] show ?thesis
      by (simp add: vest_inv_def)
  next
    case False
    from vest_execute_simulated [OF run _ this] inv have "simulated P s e info msg s' out"
      by (simp add: vest_inv_def)
    with inv show ?thesis
      by (auto simp: simulated_def vest_inv_def split: option.splits intro: token_execute_inv)
  qed
  with vest_execute_frame [OF run P] inv show ?thesis by (auto simp: vest_frame_def vest_inv_def)
qed


section \<open>Deployment\<close>

lemma vest_save_account_cases:
  assumes "vest_save_account P e row (n, s) = Ok (n', s')" and "platform_exact P"
  obtains vs where "n' = n + v_coin_amount row" "n' < u128_lim"
    "s' = s\<lparr> v_vesting := vs, v_balances := kv_set (v_balances s) (v_coin_address row) (v_coin_amount row) \<rparr>"
    "vs = v_vesting s \<or> (\<exists>c m. vs = kv_set (v_vesting s) (v_coin_address row) c \<and> schedule_ok c
       \<and> v_max_complexity s = Some m \<and> curve_size c \<le> as_usize m)"
proof -
  let ?a = "v_coin_address row"
  from assms(1) obtain v a s1 where v: "(case v_coin_vesting row of
          Some c \<Rightarrow>
            and_then (assert_schedule_vests_amount c (v_coin_amount row)) (\<lambda>_.
            and_then (fully_vested c (block e)) (\<lambda>done_already.
            Ok (if done_already then None else Some c)))
        | None \<Rightarrow> Ok None) = (Ok v :: (vest_error, curve option) outcome)"
    and a: "addr_validate P ?a = Ok a"
    and s1: "(case v of
          Some c \<Rightarrow> and_then (check_complexity (v_max_complexity s) c) (\<lambda>_.
                    Ok (s\<lparr> v_vesting := kv_set (v_vesting s) a c \<rparr>))
        | None \<Rightarrow> Ok s) = (Ok s1 :: (vest_error, vest_state) outcome)"
    and n': "n' = n + v_coin_amount row" "n' < u128_lim"
      "s' = s1\<lparr> v_balances := kv_set (v_balances s1) a (v_coin_amount row) \<rparr>"
    by (auto simp: vest_save_account_def outcome_simps arith_simps Let_def)
  have a: "a = ?a" using a assms(2) by (rule platform_exactD [rotated])
  show ?thesis
  proof (cases v)
    case None
    with s1 n' show ?thesis by (intro that [of "v_vesting s"]) (auto simp: a)
  next
    case (Some c)
    have "schedule_ok c"
      using v Some by (auto simp: outcome_simps dest: assert_schedule_ok split: option.splits if_splits)
    moreover obtain m where "v_max_complexity s = Some m" "curve_size c \<le> as_usize m"
      "s1 = s\<lparr> v_vesting := kv_set (v_vesting s) a c \<rparr>"
      using s1 Some
      by (auto simp: check_complexity_def validate_complexity_def outcome_simps split: if_splits)
    ultimately show ?thesis using n' a by (intro that [of "kv_set (v_vesting s) ?a c"]) auto
  qed
qed

definition loading :: "nat \<Rightarrow> vest_state \<Rightarrow> bool" where
  "loading n s \<longleftrightarrow> kv_ok (v_balances s) \<and> kv_ok (v_vesting s) \<and> n = kv_total (v_balances s)
     \<and> n < u128_lim \<and> schedules_ok s \<and> v_allowances s = [] \<and> v_delegated s = [] \<and> v_staking s = None"

lemma vest_save_accounts_loading:
  assumes "fold_ok (vest_save_account P e) rows (n, s) = Ok (n', s')" and "platform_exact P"
    and "loading n s" and "distinct (map v_coin_address rows)"
    and "\<forall>r \<in> set rows. kv_get (v_balances s) (v_coin_address r) = None"
  shows "loading n' s'"
  using assms(1,3-)
proof (induction rows arbitrary: n s)
  case (Cons r rows)
  from Cons.prems(1) obtain n1 s1 where step: "vest_save_account P e r (n, s) = Ok (n1, s1)"
    and rest: "fold_ok (vest_save_account P e) rows (n1, s1) = Ok (n', s')"
    by (auto simp: outcome_simps)
  from step assms(2) show ?case
  proof (rule vest_save_account_cases)
    fix vs assume n1: "n1 = n + v_coin_amount r" "n1 < u128_lim"
      and s1: "s1 = s\<lparr> v_vesting := vs, v_balances := kv_set (v_balances s) (v_coin_address r) (v_coin_amount r) \<rparr>"
      and vs: "vs = v_vesting s \<or> (\<exists>c m. vs = kv_set (v_vesting s) (v_coin_address r) c \<and> schedule_ok c
       \<and> v_max_complexity s = Some m \<and> curve_size c \<le> as_usize m)"
    have "kv_nat (v_balances s) (v_coin_address r) = 0"
      using Cons.prems(4) by (simp add: kv_nat_def)
    with kv_total_set [of "v_balances s" "v_coin_address r" "v_coin_amount r"] Cons.prems(2)
    have "n1 = kv_total (kv_set (v_balances s) (v_coin_address r) (v_coin_amount r))"
      by (simp add: n1 loading_def)
    moreover have "schedules_ok s1" "kv_ok vs"
      using Cons.prems(2) vs by (auto simp: s1 loading_def schedules_ok_def)
    ultimately have "loading n1 s1" using Cons.prems(2) n1(2) by (simp add: loading_def s1)
    then show ?thesis by (rule Cons.IH [OF rest]) (use Cons.prems in \<open>auto simp: s1 image_iff\<close>)
  qed
qed simp

lemma vest_validate_accounts_distinct:
  assumes "vest_validate_accounts accs = Ok u"
  shows "distinct (map v_coin_address accs)"
proof -
  have "length (remdups_adj (sort (map v_coin_address accs))) = length accs"
    using assms by (simp add: vest_validate_accounts_def Let_def split: if_splits)
  then have "distinct_adj (sort (map v_coin_address accs))"
    by (simp add: distinct_adj_conv_length_remdups_adj)
  then have "distinct (sort (map v_coin_address accs))"
    by (intro sorted_distinct_adj) simp_all
  then show ?thesis by simp
qed

lemma vest_instantiate_marketing_frame:
  assumes "vest_instantiate_marketing P t m = Ok s"
  obtains l k where "s = t\<lparr> v_logo := l, v_marketing := k \<rparr>"
proof -
  from assms obtain s1 info a where
    l: "(case req_logo m of
          Some l \<Rightarrow> and_then (vest_verify_logo l) (\<lambda>_. Ok (t\<lparr> v_logo := Some l \<rparr>, Some (logo_info_of l)))
        | None \<Rightarrow> Ok (t, None)) = (Ok (s1, info) :: (vest_error, _) outcome)"
    and s: "s = s1\<lparr> v_marketing := Some \<lparr> mk_project = req_project m, mk_description = req_description m,
           mk_marketing = a, mk_logo = info \<rparr> \<rparr>"
    by (auto simp: vest_instantiate_marketing_def outcome_simps split: prod.splits)
  have "\<exists>l. s1 = t\<lparr> v_logo := l \<rparr>"
    using l by (auto simp: outcome_simps intro: exI [of _ "v_logo t"] split: option.splits)
  with s that show ?thesis by auto
qed

lemma vest_instantiate_cases:
  assumes "vest_instantiate P e info msg = Ok s"
  obtains n s1 mi l k al limit where "vm_validate msg = Ok ()"
    "vm_get_cap msg (block e) = (Ok limit :: (vest_error, _) outcome)"
    "vest_create_accounts P e (vm_initial_balances msg)
       (vest_empty\<lparr> v_version := Some (vest_contract_name, vest_contract_version),
          v_max_complexity := Some (vm_max_curve_complexity msg) \<rparr>) = Ok (n, s1)"
    "\<And>c. limit = Some c \<Longrightarrow> n \<le> c" "vest_instantiate_minter P (vm_mint msg) = Ok mi"
    "s = s1\<lparr> v_token := Some \<lparr> v_name = vm_name msg, v_symbol = vm_symbol msg,
           v_decimals = vm_decimals msg, v_total_supply = n, v_mint = mi \<rparr>,
         v_logo := l, v_marketing := k, v_allowlist := Some al \<rparr>"
proof -
  let ?s0 = "vest_empty\<lparr> v_version := Some (vest_contract_name, vest_contract_version),
          v_max_complexity := Some (vm_max_curve_complexity msg) \<rparr>"
  from assms obtain u limit n s1 where val: "vm_validate msg = Ok u"
    and lim: "vm_get_cap msg (block e) = (Ok limit :: (vest_error, _) outcome)"
    and c: "vest_create_accounts P e (vm_initial_balances msg) ?s0 = Ok (n, s1)"
    by (auto simp: vest_instantiate_def outcome_simps Let_def split: prod.splits)
  have cap: "n \<le> k" if "limit = Some k" for k
    using assms val lim c that
    by (auto simp: vest_instantiate_def outcome_simps Let_def split: prod.splits if_splits)
  let ?s2 = "\<lambda>mi. s1\<lparr> v_token := Some \<lparr> v_name = vm_name msg, v_symbol = vm_symbol msg,
           v_decimals = vm_decimals msg, v_total_supply = n, v_mint = mi \<rparr> \<rparr>"
  from assms val lim c obtain mi s3 al where mi: "vest_instantiate_minter P (vm_mint msg) = Ok mi"
    and s3: "(case vm_marketing msg of Some k \<Rightarrow> vest_instantiate_marketing P (?s2 mi) k
       | None \<Rightarrow> Ok (?s2 mi)) = Ok s3" and s: "s = s3\<lparr> v_allowlist := Some al \<rparr>"
    by (auto simp: vest_instantiate_def outcome_simps Let_def split: prod.splits)
  have "\<exists>l k. s3 = (?s2 mi)\<lparr> v_logo := l, v_marketing := k \<rparr>"
  proof (cases "vm_marketing msg")
    case None
    with s3 show ?thesis by (auto intro!: exI [of _ "v_logo s1"] exI [of _ "v_marketing s1"])
  next
    case (Some k)
    with s3 have "vest_instantiate_marketing P (?s2 mi) k = Ok s3" by simp
    then show ?thesis by (rule vest_instantiate_marketing_frame) blast
  qed
  then obtain l k where "s3 = (?s2 mi)\<lparr> v_logo := l, v_marketing := k \<rparr>" by blast
  with s have s': "s = s1\<lparr> v_token := Some \<lparr> v_name = vm_name msg, v_symbol = vm_symbol msg,
           v_decimals = vm_decimals msg, v_total_supply = n, v_mint = mi \<rparr>,
         v_logo := l, v_marketing := k, v_allowlist := Some al \<rparr>" by simp
  from val have "vm_validate msg = Ok ()" by simp
  from that [OF this lim c cap mi s'] show ?thesis .
qed

lemma vest_instantiate_inv:
  assumes "vest_instantiate P e info msg = Ok s" and P: "platform_exact P"
  shows "vest_inv P s"
  using assms(1)
proof (rule vest_instantiate_cases)
  fix n s1 mi l k al
  let ?s0 = "vest_empty\<lparr> v_version := Some (vest_contract_name, vest_contract_version),
          v_max_complexity := Some (vm_max_curve_complexity msg) \<rparr>"
  assume "vest_create_accounts P e (vm_initial_balances msg) ?s0 = Ok (n, s1)"
    and s: "s = s1\<lparr> v_token := Some \<lparr> v_name = vm_name msg, v_symbol = vm_symbol msg,
           v_decimals = vm_decimals msg, v_total_supply = n, v_mint = mi \<rparr>,
         v_logo := l, v_marketing := k, v_allowlist := Some al \<rparr>"
  then obtain u where "vest_validate_accounts (vm_initial_balances msg) = Ok u"
    and run: "fold_ok (vest_save_account P e) (vm_initial_balances msg) (0, ?s0) = Ok (n, s1)"
    by (auto simp: vest_create_accounts_def outcome_simps)
  then have "loading n s1"
    by (intro vest_save_accounts_loading [OF run P] vest_validate_accounts_distinct)
      (simp_all add: loading_def vest_empty_def kv_total_def schedules_ok_def)
  then show ?thesis
    by (auto simp: s vest_inv_def storage_ok_def token_inv_def loading_def schedules_ok_def get_cap_def
        plain_info_def split: option.splits)
qed

end
