(* ===== verification/Vesting_Props.thy ===== *)
theory Vesting_Props
  imports Vesting_Safety
begin

text \<open>
  Runs of a deployed vesting token, block times never decreasing, and the theorems about them.
\<close>

section \<open>Runs\<close>

text \<open>
  \<open>vest_run P migr t s t' s'\<close>: messages and, if \<open>migr\<close>, migrations lead from \<open>s\<close> at time \<open>t\<close>
  to \<open>s'\<close> at time \<open>t'\<close>; every message carries a block time not before the previous one.
\<close>

inductive vest_run :: "platform \<Rightarrow> bool \<Rightarrow> nat \<Rightarrow> vest_state \<Rightarrow> nat \<Rightarrow> vest_state \<Rightarrow> bool"
  for P migr t s where
  vest_rest: "vest_run P migr t s t s"
| vest_msg: "vest_run P migr t s t' s' \<Longrightarrow> t' \<le> seconds (block e) \<Longrightarrow>
    vest_execute P s' e info msg = Ok (s'', out) \<Longrightarrow> vest_run P migr t s (seconds (block e)) s''"
| vest_mig: "vest_run P migr t s t' s' \<Longrightarrow> migr \<Longrightarrow> vest_migrate ensure_older s' c = Ok s'' \<Longrightarrow>
    vest_run P migr t s t' s''"

definition vest_reachable :: "platform \<Rightarrow> bool \<Rightarrow> nat \<Rightarrow> vest_state \<Rightarrow> bool" where
  "vest_reachable P migr t s \<longleftrightarrow>
     (\<exists>e info msg s0. vest_instantiate P e info msg = Ok s0 \<and> vest_run P migr (seconds (block e)) s0 t s)"

lemma vest_migrate_cases:
  assumes "vest_migrate f s c = Ok s'"
  obtains v ti m where "v_token s = Some ti" "v_mint ti = Some m"
    "s' = s\<lparr> v_version := v, v_token := Some (ti\<lparr> v_mint := Some (m\<lparr> v_cap := Some c \<rparr>) \<rparr>) \<rparr>"
  using assms
  by (cases c) (auto simp: vest_migrate_def outcome_simps Let_def split: prod.splits option.splits)

lemma vest_migrate_inv:
  assumes "vest_migrate f s c = Ok s'" and "vest_inv P s"
  shows "vest_inv P s'"
  using assms(1)
  by (rule vest_migrate_cases)
    (use assms(2) in \<open>auto simp: vest_inv_def storage_ok_def schedules_ok_def token_inv_def get_cap_def
      plain_info_def split: option.splits\<close>)

lemma vest_run_time: "vest_run P migr t s t' s' \<Longrightarrow> t \<le> t'"
  by (induction rule: vest_run.induct) auto

lemma vest_run_inv:
  "vest_run P migr t s t' s' \<Longrightarrow> platform_exact P \<Longrightarrow> vest_inv P s \<Longrightarrow> vest_inv P s'"
  by (induction rule: vest_run.induct) (auto intro: vest_execute_inv vest_migrate_inv)

lemma vest_reachable_inv: "vest_reachable P migr t s \<Longrightarrow> platform_exact P \<Longrightarrow> vest_inv P s"
  by (auto simp: vest_reachable_def intro: vest_run_inv vest_instantiate_inv)

lemma vest_inv_fall: "vest_inv P s \<Longrightarrow> schedules_fall s"
  by (auto simp: vest_inv_def intro: schedules_ok_fall)

lemma vest_run_locked:
  assumes "vest_run P migr t s t' s'" and "platform_exact P" and "vest_inv P s" and "t' \<le> x"
  shows "locked s a x \<le> locked s' a x"
  using assms(1,4)
proof (induction rule: vest_run.induct)
  case (vest_msg t' s' e info msg s'' out)
  have "schedules_fall s'"
    by (rule vest_inv_fall) (rule vest_run_inv [OF vest_msg.hyps(1) assms(2,3)])
  from vest_execute_safe [OF vest_msg.hyps(3) this] vest_msg.prems
  have "locked s' a x \<le> locked s'' a x" by (simp add: step_safe_def)
  with vest_msg.IH vest_msg.hyps(2) vest_msg.prems show ?case by simp
next
  case (vest_mig t' s' f c s'')
  from vest_mig.hyps(3) have "v_vesting s'' = v_vesting s'" by (auto elim: vest_migrate_cases)
  with vest_mig.IH [OF vest_mig.prems] show ?case by (simp add: locked_def)
qed simp

section \<open>The cap\<close>

definition vest_cap :: "vest_state \<Rightarrow> curve option" where
  "vest_cap s = (case v_token s of None \<Rightarrow> None | Some ti \<Rightarrow>
     (case v_mint ti of None \<Rightarrow> None | Some m \<Rightarrow> v_cap m))"

definition vest_supply :: "vest_state \<Rightarrow> nat" where
  "vest_supply s = (case v_token s of None \<Rightarrow> 0 | Some ti \<Rightarrow> v_total_supply ti)"

definition cap_step :: "vest_state \<Rightarrow> env \<Rightarrow> vest_state \<Rightarrow> bool" where
  "cap_step s e s' \<longleftrightarrow> vest_cap s' = vest_cap s \<and>
     (vest_supply s' \<le> vest_supply s \<or>
      (\<exists>limit. curve_now (block e) (vest_cap s) = (Ok limit :: (vest_error, _) outcome)
         \<and> (\<forall>l. limit = Some l \<longrightarrow> vest_supply s' \<le> l)))"

lemma cap_step_same: "v_token s' = v_token s \<Longrightarrow> cap_step s e s'"
  by (simp add: cap_step_def vest_cap_def vest_supply_def)

lemma cap_step_burn:
  "v_token s = Some ti \<Longrightarrow> v_token s' = Some (ti\<lparr> v_total_supply := v_total_supply ti - n \<rparr>) \<Longrightarrow> cap_step s e s'"
  by (simp add: cap_step_def vest_cap_def vest_supply_def)

lemma vest_execute_cap:
  assumes run: "vest_execute P s e info msg = Ok (s', out)"
  shows "cap_step s e s'"
proof (cases msg)
  case (Vm_mint r n)
  with run have "vest_execute_mint P s e info r n = Ok s'" by (simp add: quiet_Ok)
  then show ?thesis
    by (rule vest_mint_cases) (auto simp: cap_step_def vest_cap_def vest_supply_def)
next
  case (Vm_update_minter m)
  with run show ?thesis
    by (auto simp: quiet_Ok cap_step_def vest_cap_def vest_supply_def elim!: vest_update_minter_cases)
next
  case (Vm_transfer_vesting r n c)
  with run show ?thesis
    by (auto simp: quiet_Ok intro!: cap_step_same elim!: vest_transfer_vesting_cases)
next
  case (Vm_burn n)
  with run show ?thesis by (auto simp: quiet_Ok elim!: vest_burn_cases intro: cap_step_burn)
next
  case (Vm_burn_from own n)
  with run show ?thesis
    by (auto simp: quiet_Ok elim!: vest_burn_from_cases intro!: cap_step_burn dest: vest_deduct_frame(4))
next
  case (Vm_transfer_from own r n)
  with run show ?thesis
    by (auto simp: quiet_Ok elim!: vest_transfer_from_cases intro!: cap_step_same dest: vest_deduct_frame(4))
next
  case (Vm_send_from own r n m)
  with run show ?thesis
    by (auto elim!: vest_send_from_cases intro!: cap_step_same dest: vest_deduct_frame(4))
qed (use run in \<open>auto simp: quiet_Ok intro!: cap_step_same
    elim!: vest_increase_cases vest_decrease_cases vest_marketing_cases vest_transfer_cases
      vest_send_cases vest_delegate_cases vest_undelegate_cases
      vest_logo_cases vest_add_address_cases vest_remove_address_cases vest_staking_cases\<close>)

text \<open>The supply was below a value the increasing cap has already had.\<close>

definition below_cap :: "nat \<Rightarrow> vest_state \<Rightarrow> bool" where
  "below_cap t s \<longleftrightarrow> (\<forall>c. vest_cap s = Some c \<longrightarrow> curve_dir True c \<and>
     (\<exists>x y. x \<le> t \<and> curve_value c x = (Ok y :: (vest_error, nat) outcome) \<and> vest_supply s \<le> y))"

lemma cap_step_below:
  assumes "cap_step s e s'" and "below_cap t s" and "t \<le> seconds (block e)"
  shows "below_cap (seconds (block e)) s'"
  unfolding below_cap_def
proof (intro allI impI conjI)
  fix c assume "vest_cap s' = Some c"
  then have c: "vest_cap s = Some c" using assms(1) by (simp add: cap_step_def)
  with assms(2) show "curve_dir True c" by (simp add: below_cap_def)
  from c assms(2) obtain x y where y: "x \<le> t" "curve_value c x = (Ok y :: (vest_error, nat) outcome)"
    "vest_supply s \<le> y" by (auto simp: below_cap_def)
  from assms(1) c consider "vest_supply s' \<le> vest_supply s"
    | l where "curve_value c (seconds (block e)) = (Ok l :: (vest_error, nat) outcome)" "vest_supply s' \<le> l"
    by (auto simp: cap_step_def curve_now_def outcome_simps)
  then show "\<exists>x y. x \<le> seconds (block e) \<and> curve_value c x = (Ok y :: (vest_error, nat) outcome)
      \<and> vest_supply s' \<le> y"
  proof cases
    case 1
    with y assms(3) show ?thesis by (meson order_trans)
  next
    case 2
    then show ?thesis by blast
  qed
qed

lemma vest_run_below_cap: "vest_run P False t s t' s' \<Longrightarrow> below_cap t s \<Longrightarrow> below_cap t' s'"
  by (induction rule: vest_run.induct) (auto intro: cap_step_below vest_execute_cap)

lemma vest_instantiate_below_cap:
  assumes "vest_instantiate P e info msg = Ok s"
  shows "below_cap (seconds (block e)) s"
  using assms
proof (rule vest_instantiate_cases)
  fix n s1 mi l k al limit
  assume a: "vm_validate msg = Ok ()" "vm_get_cap msg (block e) = (Ok limit :: (vest_error, _) outcome)"
    "\<And>c. limit = Some c \<Longrightarrow> n \<le> c" "vest_instantiate_minter P (vm_mint msg) = Ok mi"
    "s = s1\<lparr> v_token := Some \<lparr> v_name = vm_name msg, v_symbol = vm_symbol msg,
           v_decimals = vm_decimals msg, v_total_supply = n, v_mint = mi \<rparr>,
         v_logo := l, v_marketing := k, v_allowlist := Some al \<rparr>"
  have cap: "vest_cap s = vm_get_curve msg"
    using a(4,5) by (auto simp: vest_cap_def vm_get_curve_def vest_instantiate_minter_def outcome_simps
        split: option.splits)
  show ?thesis
    unfolding below_cap_def
  proof (intro allI impI conjI)
    fix c assume "vest_cap s = Some c"
    with cap have c: "vm_get_curve msg = Some c" by simp
    with a(1) have "validate_monotonic_increasing c = Ok ()"
      by (auto simp: vm_validate_def outcome_simps split: if_splits)
    then show "curve_dir True c" by (rule validate_increasing_dir)
    from a(2) c obtain y where "limit = Some y"
      "curve_value c (seconds (block e)) = (Ok y :: (vest_error, nat) outcome)"
      by (auto simp: vm_get_cap_def curve_now_def outcome_simps)
    with a(3,5) show "\<exists>x y. x \<le> seconds (block e) \<and>
        curve_value c x = (Ok y :: (vest_error, nat) outcome) \<and> vest_supply s \<le> y"
      by (auto simp: vest_supply_def)
  qed
qed


section \<open>A grant\<close>

lemma grant_locked:
  assumes run: "vest_execute P s e info (Vm_transfer_vesting r n c) = Ok (s', out)"
    and falls: "schedules_fall s" and r: "addr_validate P r = Ok a" and t: "seconds (block e) \<le> t"
  shows "locked s a t + curve_fall c t \<le> locked s' a t + 1 \<and> curve_fall c t \<le> locked s' a t"
proof -
  from run have "vest_execute_transfer_vesting P s e info r n c = Ok s'" by (simp add: quiet_Ok)
  then show ?thesis
  proof (rule vest_transfer_vesting_cases)
    fix rcpt s1 vs b
    assume a: "addr_validate P r = Ok rcpt"
      and valid: "assert_schedule_vests_amount c n = Ok ()"
      and b: "fully_vested c (block e) = (Ok b :: (vest_error, _) outcome)"
      and s1: "if b then s1 = s
        else \<exists>w. attach_schedule (v_max_complexity s) (v_vesting s) rcpt c = Ok w \<and> s1 = s\<lparr> v_vesting := w \<rparr>"
      and d: "debited s1 e (sender info) (holdings s (sender info) - n) vs"
      and s': "s' = s\<lparr> v_vesting := vs, v_balances := moved (v_balances s) (sender info) rcpt n \<rparr>"
    note ok = assert_schedule_ok [OF valid]
    have rc: "rcpt = a" using a r by simp
    show ?thesis
    proof (cases b)
      case True
      with b obtain v where v: "curve_value c (seconds (block e)) = (Ok v :: (vest_error, nat) outcome)" "v = 0"
        by (auto simp: fully_vested_def outcome_simps)
      with curve_value_fall [OF v(1)] ok have "curve_fall c (seconds (block e)) = 0"
        by (simp add: schedule_ok_def)
      then have "curve_fall c t = 0"
        using curve_fall_antitone [OF _ t, of c] ok by (simp add: schedule_ok_def)
      moreover have "locked s' a t = locked s a t"
        using debited_keeps [OF d _ t, of a] s1 True falls by (simp add: s' locked_in)
      ultimately show ?thesis by simp
    next
      case False
      with s1 obtain w where w: "attach_schedule (v_max_complexity s) (v_vesting s) a c = Ok w"
        "s1 = s\<lparr> v_vesting := w \<rparr>" by (auto simp: rc)
      have "schedules_fall s1" unfolding w(2) by (rule attach_fall [OF w(1) falls ok])
      from debited_keeps [OF d this t, of a] have "locked s' a t = locked_in w a t"
        by (simp add: s' locked_in w(2))
      with attach_locked(2,3) [OF w(1) falls ok, of t] show ?thesis by simp
    qed
  qed
qed

section \<open>A small deployment\<close>

definition demo_vest_msg :: vest_instantiate_msg where
  "demo_vest_msg = \<lparr> vm_name = ''Wynd'', vm_symbol = ''WYND'', vm_decimals = 6,
     vm_initial_balances = [\<lparr> v_coin_address = ''ann'', v_coin_amount = 1000, v_coin_vesting = None \<rparr>],
     vm_mint = Some \<lparr> v_req_minter = ''boss'',
       v_req_cap = Some (Saturating_linear \<lparr> min_x = 100, min_y = 1000, max_x = 200, max_y = 5000 \<rparr>) \<rparr>,
     vm_marketing = None, vm_allowed_vesters = None, vm_max_curve_complexity = 10 \<rparr>"

definition demo_vest_info :: vest_token_info where
  "demo_vest_info = \<lparr> v_name = ''Wynd'', v_symbol = ''WYND'', v_decimals = 6, v_total_supply = 1000,
     v_mint = Some \<lparr> v_minter = ''boss'',
       v_cap = Some (Saturating_linear \<lparr> min_x = 100, min_y = 1000, max_x = 200, max_y = 5000 \<rparr>) \<rparr> \<rparr>"

definition demo_vest0 :: vest_state where
  "demo_vest0 = \<lparr> v_version = Some (vest_contract_name, vest_contract_version), v_allowlist = Some [''ann''],
     v_token = Some demo_vest_info, v_marketing = None, v_logo = None, v_balances = [(''ann'', 1000)],
     v_allowances = [], v_vesting = [], v_max_complexity = Some 10, v_staking = None, v_delegated = [] \<rparr>"

definition demo_vest_env :: "nat \<Rightarrow> env" where
  "demo_vest_env t = \<lparr> block = \<lparr> block_height = t, block_time = t * 1000000000 \<rparr>, contract_address = ''wynd'' \<rparr>"

definition demo_schedule :: curve where
  "demo_schedule = Saturating_linear \<lparr> min_x = 100, min_y = 400, max_x = 300, max_y = 0 \<rparr>"

definition demo_vest1 :: vest_state where
  "demo_vest1 = demo_vest0\<lparr> v_balances := [(''ann'', 600), (''bob'', 400)],
     v_vesting := [(''bob'', demo_schedule)] \<rparr>"

definition demo_vest2 :: vest_state where
  "demo_vest2 = demo_vest1\<lparr> v_staking := Some ''stake'' \<rparr>"

lemmas demo_vest_defs = demo_vest_msg_def demo_vest_info_def demo_vest0_def demo_vest_env_def
  demo_schedule_def demo_vest1_def demo_vest2_def demo_platform_def seconds_def

lemmas vest_eval = deduct_coins_def credit_coins_def curve_now_def sl_value_def interpolate.simps
  quiet_def kv_del_def checked_int_defs Let_def

lemma demo_vest_start:
  "vest_instantiate demo_platform (demo_vest_env 150) \<lparr> sender = ''ann'' \<rparr> demo_vest_msg = Ok demo_vest0"
  by (simp add: vest_instantiate_def demo_vest_defs vm_validate_def is_valid_name_def is_valid_symbol_def
      vm_get_curve_def sl_validate_monotonic_increasing_def sl_validate_def vm_get_cap_def
      vest_create_accounts_def vest_validate_accounts_def vest_save_account_def insort_key.simps
      vest_instantiate_minter_def vest_empty_def vest_eval)

lemma demo_vest_grant:
  "vest_execute demo_platform demo_vest0 (demo_vest_env 150) \<lparr> sender = ''ann'' \<rparr>
     (Vm_transfer_vesting ''bob'' 400 demo_schedule) = Ok (demo_vest1, [])"
  by (simp add: vest_execute_transfer_vesting_def assert_schedule_vests_amount_def demo_vest_defs
      sl_validate_monotonic_decreasing_def sl_validate_def sl_range_def fully_vested_def
      attach_schedule_def validate_complexity_def as_usize_def vest_eval)

lemma demo_vest_staking:
  "vest_execute demo_platform demo_vest1 (demo_vest_env 160) \<lparr> sender = ''boss'' \<rparr>
     (Vm_update_staking_address ''stake'') = Ok (demo_vest2, [])"
  by (simp add: vest_execute_update_staking_address_def demo_vest_defs quiet_def)

lemma demo_env_seconds [simp]: "seconds (block (demo_vest_env t)) = t"
  by (simp add: demo_vest_env_def seconds_def)

lemma demo_vest_reachable: "vest_reachable demo_platform migr 150 demo_vest0"
  unfolding vest_reachable_def
  by (intro exI [of _ "demo_vest_env 150"] exI conjI, rule demo_vest_start) (simp add: vest_rest)

lemma demo_vest_run: "vest_run demo_platform migr 150 demo_vest1 160 demo_vest2"
  using vest_msg [OF vest_rest _ demo_vest_staking, of 150 migr] by simp

lemma demo_vest_reachable2: "vest_reachable demo_platform migr 160 demo_vest2"
proof -
  have "vest_run demo_platform migr 150 demo_vest0 150 demo_vest1"
    using vest_msg [OF vest_rest _ demo_vest_grant, of 150 migr] by simp
  from vest_msg [OF this _ demo_vest_staking] show ?thesis
    unfolding vest_reachable_def
    by (intro exI [of _ "demo_vest_env 150"] exI conjI, rule_tac demo_vest_start) simp
qed


section \<open>Properties\<close>

text \<open>
  C8: A schedule granted with \<open>TransferVesting\<close> is honoured whatever happens afterwards: after
  any run of messages and migrations, a message that lowers what the recipient holds (balance
  plus delegated tokens) leaves at least the amount the granted schedule still locks at that
  time, no matter how many further schedules were merged into it in between.
\<close>

theorem granted_schedule_is_honoured:
  assumes "platform_exact P" and "vest_reachable P migr t s"
    and grant: "vest_execute P s e0 info (Vm_transfer_vesting r n c) = Ok (s1, out)"
    and a: "addr_validate P r = Ok a"
    and run: "vest_run P migr' (seconds (block e0)) s1 t' s'" and "t' \<le> seconds (block e)"
    and move: "vest_execute P s' e info' msg = Ok (s2, out')" and "holdings s2 a < holdings s' a"
    and y: "curve_value c (seconds (block e)) = (Ok y :: (vest_error, nat) outcome)"
  shows "y \<le> holdings s2 a"
proof -
  let ?t = "seconds (block e)"
  note inv = vest_reachable_inv [OF assms(2,1)]
  note inv1 = vest_execute_inv [OF grant inv assms(1)]
  have time: "seconds (block e0) \<le> ?t" using vest_run_time [OF run] assms(6) by simp
  from grant obtain u where "assert_schedule_vests_amount c n = Ok u"
    by (auto simp: quiet_Ok elim: vest_transfer_vesting_cases)
  from curve_value_fall [OF y] assert_schedule_ok [OF this] have "y = curve_fall c ?t"
    by (simp add: schedule_ok_def)
  also have "\<dots> \<le> locked s1 a ?t"
    using grant_locked [OF grant vest_inv_fall [OF inv] a time] by simp
  also have "\<dots> \<le> locked s' a ?t"
    by (rule vest_run_locked [OF run assms(1) inv1 assms(6)])
  also have "\<dots> \<le> locked s2 a ?t"
    using vest_execute_safe [OF move vest_inv_fall [OF vest_run_inv [OF run assms(1) inv1]]]
    by (simp add: step_safe_def)
  also have "\<dots> \<le> holdings s2 a"
    using vest_execute_safe [OF move vest_inv_fall [OF vest_run_inv [OF run assms(1) inv1]]] assms(8)
    by (simp add: step_safe_def)
  finally show ?thesis .
qed

theorem granted_schedule_is_honoured_witness:
  "\<exists>s out. vest_execute demo_platform demo_vest2 (demo_vest_env 200) \<lparr> sender = ''bob'' \<rparr>
     (Vm_transfer ''eve'' 150) = Ok (s, out) \<and> 200 \<le> holdings s ''bob''"
proof -
  have sched: "curve_value demo_schedule (seconds (block (demo_vest_env 200))) = (Ok 200 :: (vest_error, nat) outcome)"
    by (simp add: demo_vest_defs vest_eval)
  obtain s where s: "vest_execute demo_platform demo_vest2 (demo_vest_env 200) \<lparr> sender = ''bob'' \<rparr>
     (Vm_transfer ''eve'' 150) = Ok (s, [])" "holdings s ''bob'' < holdings demo_vest2 ''bob''"
    by (simp add: vest_execute_transfer_def demo_vest_defs holdings_def vest_eval)
  have bob: "addr_validate demo_platform ''bob'' = Ok ''bob''" by (simp add: demo_platform_def)
  have run: "vest_run demo_platform False (seconds (block (demo_vest_env 150))) demo_vest1 160 demo_vest2"
    using demo_vest_run by simp
  have "160 \<le> seconds (block (demo_vest_env 200))" by simp
  from granted_schedule_is_honoured [OF demo_platform_exact demo_vest_reachable demo_vest_grant bob run
      this s sched]
  have "200 \<le> holdings s ''bob''" .
  with s(1) show ?thesis by blast
qed

text \<open>
  C10: Locked tokens cannot leave: a message that lowers what an account holds leaves at least
  what \<open>query_vesting\<close> reports as locked for it at that block, whichever way the tokens go out
  (transfer, send, burn, on behalf of the owner, or out of the staking contract).
\<close>

theorem locked_tokens_stay:
  assumes "platform_exact P" and "vest_reachable P migr t s"
    and "vest_execute P s e info msg = Ok (s', out)" and "holdings s' a < holdings s a"
    and "query_vesting P s e a = Ok r"
  shows "vr_locked r \<le> holdings s' a"
proof -
  note falls = vest_inv_fall [OF vest_reachable_inv [OF assms(2,1)]]
  from assms(5,1) obtain now where now: "curve_now (block e) (kv_get (v_vesting s) a) = (Ok now :: (std_error, _) outcome)"
    and r: "vr_locked r = (case now of None \<Rightarrow> 0 | Some v \<Rightarrow> v)"
    by (auto simp: query_vesting_def outcome_simps Let_def dest!: platform_exactD)
  have "vr_locked r = locked s a (seconds (block e))"
  proof (cases "kv_get (v_vesting s) a")
    case (Some c)
    with now r have "curve_value c (seconds (block e)) = (Ok (vr_locked r) :: (std_error, nat) outcome)"
      by (auto simp: curve_now_def outcome_simps)
    from curve_value_fall [OF this schedules_fallD [OF falls Some]] Some show ?thesis
      by (simp add: locked_def)
  qed (use now r in \<open>simp add: curve_now_def locked_def\<close>)
  with vest_execute_safe [OF assms(3) falls] assms(4) show ?thesis
    by (auto simp: step_safe_def intro: order_trans)
qed

theorem locked_tokens_stay_witness:
  "\<exists>s r. vest_execute demo_platform demo_vest2 (demo_vest_env 200) \<lparr> sender = ''bob'' \<rparr> (Vm_burn 200) = Ok (s, [])
     \<and> query_vesting demo_platform demo_vest2 (demo_vest_env 200) ''bob'' = Ok r
     \<and> vr_locked r = 200 \<and> vr_locked r \<le> holdings s ''bob''"
proof -
  obtain s where s: "vest_execute demo_platform demo_vest2 (demo_vest_env 200) \<lparr> sender = ''bob'' \<rparr> (Vm_burn 200) = Ok (s, [])"
    "holdings s ''bob'' < holdings demo_vest2 ''bob''"
    by (simp add: vest_execute_burn_def vest_supply_sub_def demo_vest_defs holdings_def vest_eval)
  obtain r where r: "query_vesting demo_platform demo_vest2 (demo_vest_env 200) ''bob'' = Ok r" "vr_locked r = 200"
    by (simp add: query_vesting_def demo_vest_defs vest_eval)
  from locked_tokens_stay [OF demo_platform_exact demo_vest_reachable2 s r(1)] s r show ?thesis by blast
qed

text \<open>
  C9: Refinement up to stale expirations: on every reachable state each message of the vesting token that
  succeeds is a successful message of the plain token of \<open>cw20-base\<close> on the state without schedules, cap,
  delegations and allow list, with the same outgoing amounts, or no step of it at all.  The one
  exception is a change of an allowance to an expiration that has already passed, which the plain
  token may reject as an invalid expiration.
\<close>

theorem vesting_token_refines_plain_token:
  assumes "platform_exact P" and "vest_reachable P migr t s"
    and "vest_execute P s e info msg = Ok (s', out)"
  shows "case plain_msg s msg of
      None \<Rightarrow> plain s' = plain s \<and> out = []
    | Some m \<Rightarrow> token_execute P (plain s) e info m = Ok (plain s', map plain_out out) \<or>
        stale P e msg \<and> token_execute P (plain s) e info m = Err Invalid_expiration"
proof -
  have ok: "storage_ok P s" using vest_reachable_inv [OF assms(2,1)] by (simp add: vest_inv_def)
  show ?thesis
  proof (cases "stale P e msg")
    case True
    then show ?thesis using vest_execute_stale [OF assms(3) ok] by auto
  next
    case False
    then show ?thesis
      using vest_execute_simulated [OF assms(3) ok] by (simp add: simulated_def split: option.splits)
  qed
qed

theorem vesting_token_refines_plain_token_witness:
  "\<exists>s out. vest_execute demo_platform demo_vest2 (demo_vest_env 200) \<lparr> sender = ''bob'' \<rparr> (Vm_delegate 400 []) = Ok (s, out)
     \<and> token_execute demo_platform (plain demo_vest2) (demo_vest_env 200) \<lparr> sender = ''bob'' \<rparr>
         (Send ''stake'' 400 []) = Ok (plain s, map plain_out out)"
proof -
  obtain s out where s: "vest_execute demo_platform demo_vest2 (demo_vest_env 200) \<lparr> sender = ''bob'' \<rparr>
      (Vm_delegate 400 []) = Ok (s, out)"
    by (simp add: vest_execute_delegate_def demo_vest_defs vest_eval)
  have "plain_msg demo_vest2 (Vm_delegate 400 []) = Some (Send ''stake'' 400 [])"
    by (simp add: demo_vest_defs)
  with vesting_token_refines_plain_token [OF demo_platform_exact demo_vest_reachable2 s] s
  show ?thesis by simp
qed

text \<open>
  The total supply of the vesting token is the sum of all balances and fits 128 bits in
  every reachable state, through grants, delegations and migrations.
\<close>

theorem vesting_supply_is_sum_of_balances:
  assumes "platform_exact P" and "vest_reachable P migr t s"
  shows "\<exists>ti. v_token s = Some ti \<and> v_total_supply ti = sum_list (map snd (v_balances s))
    \<and> v_total_supply ti < 2 ^ 128 \<and> distinct (map fst (v_balances s))"
  using vest_reachable_inv [OF assms(2,1)] kv_ok_distinct [of "v_balances s"]
  by (auto simp: vest_inv_def token_inv_def kv_total_def u128_lim_def)

theorem vesting_supply_is_sum_of_balances_witness:
  "\<exists>ti. v_token demo_vest2 = Some ti \<and> v_total_supply ti = sum_list (map snd (v_balances demo_vest2))"
  using vesting_supply_is_sum_of_balances [OF demo_platform_exact demo_vest_reachable2 [of True]] by blast

text \<open>
  Without a migration the supply never exceeds the minting cap of the moment: the cap curve
  is checked to be increasing at deployment and every mint is checked against its value at
  that block, so at any later time at which the cap evaluates the supply is at most its value.
\<close>

theorem supply_below_cap_curve:
  assumes "vest_reachable P False t s" and "vest_cap s = Some c" and "t \<le> x"
    and "curve_value c x = (Ok y :: (vest_error, nat) outcome)"
  shows "vest_supply s \<le> y"
proof -
  from assms(1) have "below_cap t s"
    by (auto simp: vest_reachable_def intro: vest_run_below_cap vest_instantiate_below_cap)
  with assms(2) obtain z w where "curve_dir True c" "z \<le> t"
    "curve_value c z = (Ok w :: (vest_error, nat) outcome)" "vest_supply s \<le> w"
    by (auto simp: below_cap_def)
  with curve_dir_mono [OF this(3) assms(4) this(1)] assms(3) show ?thesis by (simp add: dir_def)
qed

theorem supply_below_cap_curve_witness:
  "\<exists>c y. vest_cap demo_vest2 = Some c \<and> curve_value c 180 = (Ok y :: (vest_error, nat) outcome)
     \<and> vest_supply demo_vest2 \<le> y"
proof -
  obtain c y where c: "vest_cap demo_vest2 = Some c" "curve_value c 180 = (Ok y :: (vest_error, nat) outcome)"
    by (simp add: vest_cap_def demo_vest_defs vest_eval)
  with supply_below_cap_curve [OF demo_vest_reachable2 c(1) _ c(2)] show ?thesis by auto
qed

text \<open>
  C11: Every schedule in the storage is well formed: it never rises, it ends at zero, and it has
  no more breakpoints than the configured maximum, also after schedules have been merged.
\<close>

theorem stored_schedules_well_formed:
  assumes "platform_exact P" and "vest_reachable P migr t s" and "kv_get (v_vesting s) a = Some c"
  shows "curve_dir False c \<and> curve_end c = 0
    \<and> (\<exists>m. v_max_complexity s = Some m \<and> curve_size c \<le> as_usize m)"
  using vest_reachable_inv [OF assms(2,1)] assms(3)
  by (auto simp: vest_inv_def schedules_ok_def schedule_ok_def)

theorem stored_schedules_well_formed_witness:
  "kv_get (v_vesting demo_vest2) ''bob'' = Some demo_schedule \<and> curve_end demo_schedule = 0"
proof -
  have "kv_get (v_vesting demo_vest2) ''bob'' = Some demo_schedule"
    by (simp add: demo_vest2_def demo_vest1_def)
  with stored_schedules_well_formed [OF demo_platform_exact demo_vest_reachable2 [of True] this]
  show ?thesis by blast
qed

text \<open>
  Merging keeps both promises: after a grant the recipient has at least the new schedule's
  amount locked on top of what was locked before, up to one token unit lost to rounding.
\<close>

theorem grants_accumulate:
  assumes "platform_exact P" and "vest_reachable P migr t s"
    and "vest_execute P s e info (Vm_transfer_vesting r n c) = Ok (s', out)"
    and "addr_validate P r = Ok a" and "seconds (block e) \<le> x"
  shows "locked s a x + curve_fall c x \<le> locked s' a x + 1"
  using grant_locked [OF assms(3) vest_inv_fall [OF vest_reachable_inv [OF assms(2,1)]] assms(4,5)]
  by simp

theorem grants_accumulate_witness:
  "locked demo_vest0 ''bob'' 250 + curve_fall demo_schedule 250 \<le> locked demo_vest1 ''bob'' 250 + 1"
  using grants_accumulate [OF demo_platform_exact demo_vest_reachable demo_vest_grant, of "''bob''" 250]
  by (simp add: demo_platform_def)

text \<open>
  Round trip: what a holder delegates can be undelegated by the staking contract in full,
  as long as that contract carries no schedule of its own, and then every balance, every
  delegated amount and everything locked is as it was before, locked tokens included.
\<close>

theorem delegation_round_trip:
  assumes P: "platform_exact P" and reach: "vest_reachable P migr t s"
    and del: "vest_execute P s e0 info (Vm_delegate n m) = Ok (s1, out)"
    and st: "v_staking s = Some st" "st \<noteq> sender info" "kv_get (v_vesting s) st = None"
      "holdings s st + n < 2 ^ 128"
    and x: "addr_validate P (sender info) = Ok (sender info)"
  shows "\<exists>s2. vest_execute P s1 e \<lparr> sender = st \<rparr> (Vm_undelegate (sender info) n) = Ok (s2, [])
    \<and> kv_nat (v_balances s2) = kv_nat (v_balances s) \<and> kv_nat (v_delegated s2) = kv_nat (v_delegated s)
    \<and> locked s2 = locked s"
proof -
  let ?x = "sender info"
  from del have "vest_execute_delegate s info n m = Ok (s1, out)" by simp
  then have mv: "can_move (v_balances s) ?x st n" "0 < n"
    and s1: "s1 = s\<lparr> v_balances := moved (v_balances s) ?x st n,
            v_delegated := kv_set (v_delegated s) ?x (kv_nat (v_delegated s) ?x + n) \<rparr>"
    using st(1) by (auto elim: vest_delegate_cases)
  from mv(1) have n: "n \<le> kv_nat (v_balances s) ?x" by (simp add: can_move_def)
  note nat1 = moved_nat [OF n, of st]
  have bal: "kv_nat (v_balances s1) ?x = kv_nat (v_balances s) ?x - n"
    "kv_nat (v_balances s1) st = kv_nat (v_balances s) st + n"
    using st(2) by (simp_all add: s1 nat1)
  have "kv_nat (v_balances s) ?x < u128_lim"
    using vest_reachable_inv [OF reach P] kv_nat_le_total [of "v_balances s" ?x]
    by (auto simp: vest_inv_def token_inv_def)
  then have "\<exists>s2. vest_execute_undelegate P s1 e \<lparr> sender = st \<rparr> ?x n = Ok s2
      \<and> v_balances s2 = moved (v_balances s1) st ?x n
      \<and> v_delegated s2 = kv_set (v_delegated s1) ?x (kv_nat (v_delegated s) ?x)
      \<and> v_vesting s2 = kv_del (v_vesting s) st"
    using st x mv n bal
    by (simp add: vest_execute_undelegate_def deduct_coins_def curve_now_def credit_coins_def Let_def
        moved_def checked_int_defs s1 holdings_def)
  then obtain s2 where s2: "vest_execute_undelegate P s1 e \<lparr> sender = st \<rparr> ?x n = Ok s2"
    "v_balances s2 = moved (v_balances s1) st ?x n"
    "v_delegated s2 = kv_set (v_delegated s1) ?x (kv_nat (v_delegated s) ?x)"
    "v_vesting s2 = kv_del (v_vesting s) st" by blast
  have "n \<le> kv_nat (v_balances s1) st" using bal by simp
  note nat2 = moved_nat [OF this, of ?x]
  have "kv_nat (v_balances s2) k = kv_nat (v_balances s) k" for k
    using nat1 [of k] nat2 [of k] n st(2) bal by (auto simp: s2(2) s1 split: if_splits)
  moreover have "kv_nat (v_delegated s2) k = kv_nat (v_delegated s) k" for k
    by (simp add: s2(3) s1)
  moreover have "locked s2 k y = locked s k y" for k y
    using st(3) by (simp add: locked_def s2(4))
  ultimately show ?thesis using s2(1) by (auto simp: quiet_def fun_eq_iff)
qed

theorem delegation_round_trip_witness:
  "\<exists>s1 out s2. vest_execute demo_platform demo_vest2 (demo_vest_env 200) \<lparr> sender = ''bob'' \<rparr> (Vm_delegate 400 []) = Ok (s1, out)
     \<and> vest_execute demo_platform s1 (demo_vest_env 250) \<lparr> sender = ''stake'' \<rparr> (Vm_undelegate ''bob'' 400) = Ok (s2, [])
     \<and> locked s2 = locked demo_vest2"
proof -
  obtain s1 out where s1: "vest_execute demo_platform demo_vest2 (demo_vest_env 200) \<lparr> sender = ''bob'' \<rparr>
      (Vm_delegate 400 []) = Ok (s1, out)"
    by (simp add: vest_execute_delegate_def demo_vest_defs vest_eval)
  have "v_staking demo_vest2 = Some ''stake''" "kv_get (v_vesting demo_vest2) ''stake'' = None"
    "holdings demo_vest2 ''stake'' + 400 < 2 ^ 128"
    by (simp_all add: demo_vest_defs holdings_def)
  with delegation_round_trip [OF demo_platform_exact demo_vest_reachable2 s1, of "''stake''" "demo_vest_env 250"] s1
  show ?thesis by (auto simp: demo_platform_def)
qed

text \<open>
  Liveness: once the last breakpoint of its schedule has passed, an account can transfer any
  part of its balance to a valid address; the evaluation of the schedule cannot panic any more
  and the exhausted schedule is removed.
\<close>

theorem vested_tokens_are_free:
  assumes P: "platform_exact P" and reach: "vest_reachable P migr t s"
    and over: "\<And>c. kv_get (v_vesting s) a = Some c \<Longrightarrow> curve_over c < seconds (block e)"
    and n: "0 < n" "n \<le> kv_nat (v_balances s) a" and h: "holdings s a < 2 ^ 128"
    and r: "addr_validate P r = Ok b"
  shows "\<exists>s'. vest_execute P s e \<lparr> sender = a \<rparr> (Vm_transfer r n) = Ok (s', [])
    \<and> v_balances s' = moved (v_balances s) a b n \<and> kv_get (v_vesting s') a = None"
proof -
  note inv = vest_reachable_inv [OF reach P]
  have now: "\<exists>now. curve_now (block e) (kv_get (v_vesting s) a) = (Ok now :: (vest_error, _) outcome)
      \<and> (case now of None \<Rightarrow> 0 | Some v \<Rightarrow> v) = 0"
  proof (cases "kv_get (v_vesting s) a")
    case (Some c)
    with inv have "curve_dir False c" "curve_end c = 0"
      by (auto simp: vest_inv_def schedules_ok_def schedule_ok_def)
    then have "curve_value c (seconds (block e)) = (Ok 0 :: (vest_error, nat) outcome)"
      using curve_value_over [OF _ over [OF Some]] by metis
    with Some show ?thesis by (simp add: curve_now_def)
  qed (simp add: curve_now_def)
  then obtain now where "curve_now (block e) (kv_get (v_vesting s) a) = (Ok now :: (vest_error, _) outcome)"
    "(case now of None \<Rightarrow> 0 | Some v \<Rightarrow> v) = 0" by blast
  moreover have "kv_nat (moved (v_balances s) a b n) b < u128_lim"
  proof -
    have "kv_nat (moved (v_balances s) a b n) b \<le> kv_total (moved (v_balances s) a b n)"
      by (rule kv_nat_le_total)
    also have "\<dots> < u128_lim"
      using inv moved_total [OF _ n(2)] by (auto simp: vest_inv_def token_inv_def)
    finally show ?thesis .
  qed
  ultimately show ?thesis
    using n h r
    by (simp add: vest_execute_transfer_def deduct_coins_def credit_coins_def holdings_def Let_def
        moved_def checked_int_defs quiet_def)
qed

theorem vested_tokens_are_free_witness:
  "\<exists>s. vest_execute demo_platform demo_vest2 (demo_vest_env 301) \<lparr> sender = ''bob'' \<rparr> (Vm_transfer ''eve'' 400) = Ok (s, [])"
proof -
  have "kv_get (v_vesting demo_vest2) ''bob'' = Some c \<Longrightarrow> curve_over c < 301" for c
    by (auto simp: demo_vest_defs)
  with vested_tokens_are_free [OF demo_platform_exact demo_vest_reachable2 [of True], of "''bob''" "demo_vest_env 301" 400 "''eve''" "''eve''"]
  show ?thesis by (auto simp: demo_vest_defs holdings_def)
qed

text \<open>
  A migration does not validate the new cap: with an empty piecewise curve it succeeds, and
  afterwards every mint by the minter panics, although the supply has not reached any cap.
\<close>

theorem migration_can_disable_minting:
  assumes "vest_migrate f s (Piecewise_linear \<lparr> steps = [] \<rparr>) = Ok s'"
    and "vest_supply s' + n < 2 ^ 128" and "0 < n"
  shows "\<exists>ti m. v_token s' = Some ti \<and> v_mint ti = Some m \<and>
    vest_execute P s' e \<lparr> sender = v_minter m \<rparr> (Vm_mint r n) = Panic"
  using assms(1)
  by (rule vest_migrate_cases)
    (use assms(2,3) in \<open>auto simp: vest_execute_mint_def vest_get_cap_def curve_now_def pl_value_def
      vest_supply_def Let_def checked_int_defs quiet_def\<close>)

theorem migration_can_disable_minting_witness:
  "\<exists>s'. vest_migrate (\<lambda>v n k. Ok (''0.9.0'', Some (n, k))) demo_vest2 (Piecewise_linear \<lparr> steps = [] \<rparr>) = Ok s'
     \<and> vest_execute demo_platform s' (demo_vest_env 300) \<lparr> sender = ''boss'' \<rparr> (Vm_mint ''bob'' 1) = Panic"
proof -
  let ?m = "vest_migrate (\<lambda>v n k. Ok (''0.9.0'', Some (n, k))) demo_vest2 (Piecewise_linear \<lparr> steps = [] \<rparr>)"
  obtain s' where s': "?m = Ok s'" "vest_supply s' = 1000"
    "map_option (map_option v_minter \<circ> v_mint) (v_token s') = Some (Some ''boss'')"
    by (simp add: vest_migrate_def demo_vest_defs vest_supply_def)
  from migration_can_disable_minting [OF s'(1), of 1 demo_platform "demo_vest_env 300" "''bob''"] s'
  show ?thesis by auto
qed

end
