(* ===== verification/Decimals.thy ===== *)
theory Decimals
  imports Prelude
begin

text \<open>
  Decimals with 18 places by their atomics: the checked operations of \<open>cosmwasm_std::Decimal\<close> the
  contracts use, with the facts about whole numbers and rounding their proofs share; and the error
  of a failed query.
\<close>

section \<open>Operations\<close>

text \<open>
  \<open>Decimal::from_atomics(n, 0).unwrap()\<close>, and the checked product, quotient and sum of decimals,
  \<open>None\<close> for an overflow or a zero divisor.
\<close>

definition dec_of :: "nat \<Rightarrow> ('e, decimal) outcome" where
  "dec_of n = u128_mul n decimal_one"

definition dec_checked :: "nat \<Rightarrow> decimal option" where
  "dec_checked n = (if n < u128_lim then Some n else None)"

definition dec_mul :: "decimal \<Rightarrow> decimal \<Rightarrow> decimal option" where
  "dec_mul a b = dec_checked (a * b div decimal_one)"

definition dec_div :: "decimal \<Rightarrow> decimal \<Rightarrow> decimal option" where
  "dec_div a b = (if b = 0 then None else dec_checked (a * decimal_one div b))"

definition dec_add :: "decimal \<Rightarrow> decimal \<Rightarrow> decimal option" where
  "dec_add a b = dec_checked (a + b)"

definition dec_sub :: "decimal \<Rightarrow> decimal \<Rightarrow> decimal option" where
  "dec_sub a b = (if b \<le> a then Some (a - b) else None)"

definition dec_floor :: "decimal \<Rightarrow> nat" where
  "dec_floor d = d div decimal_one"

primrec or_panic :: "'a option \<Rightarrow> ('e, 'a) outcome" where
  "or_panic (Some x) = Ok x"
| "or_panic None = Panic"

text \<open>\<open>Decimal::from_ratio\<close> panics on a zero denominator and on an overflow.\<close>

definition decimal_from_ratio :: "nat \<Rightarrow> nat \<Rightarrow> ('e, decimal) outcome" where
  "decimal_from_ratio a b = u128_multiply_ratio a decimal_one b"

text \<open>A failed query to another contract.\<close>

definition query_failed :: "'a option \<Rightarrow> (std_error, 'a) outcome" where
  "query_failed r = ok_or (Generic_err ''Querier contract error'') r"

section \<open>Whole numbers and rounding\<close>

lemma decimal_one_pos [simp]: "0 < decimal_one" "decimal_one \<noteq> 0"
  by (simp_all add: decimal_one_def)

lemma or_panic_Ok [outcome_simps]: "or_panic x = Ok y \<longleftrightarrow> x = Some y"
  by (cases x) auto

lemma dec_of_Ok [arith_simps]: "dec_of n = Ok d \<longleftrightarrow> d = n * decimal_one \<and> n * decimal_one < u128_lim"
  by (simp add: dec_of_def arith_simps)

lemma dec_checked_Some [arith_simps]: "dec_checked n = Some d \<longleftrightarrow> d = n \<and> n < u128_lim"
  by (auto simp: dec_checked_def)

lemma dec_mul_whole: "dec_mul x (n * decimal_one) = Some d \<Longrightarrow> d = x * n"
  by (simp add: dec_mul_def arith_simps mult.assoc [symmetric])

lemma dec_mul_whole_left: "dec_mul (n * decimal_one) x = Some d \<Longrightarrow> d = n * x"
proof -
  have "n * decimal_one * x div decimal_one = n * x"
    by (metis decimal_one_pos(2) mult.assoc mult.commute nonzero_mult_div_cancel_left)
  then show "dec_mul (n * decimal_one) x = Some d \<Longrightarrow> d = n * x" by (simp add: dec_mul_def arith_simps)
qed

text \<open>Dividing whole decimals divides atomics by a number.\<close>

lemma dec_div_whole: "dec_div (n * decimal_one) (m * decimal_one) = Some d \<Longrightarrow> d = n * decimal_one div m"
  by (simp add: dec_div_def arith_simps mult.commute [of m] split: if_splits)

lemma dec_floor_le: "dec_floor d * decimal_one \<le> d"
  by (simp add: dec_floor_def)

end
