(* ===== verification/Gauge.thy ===== *)
theory Gauge
  imports Store Decimals
begin

text \<open>
  The gauge of \<open>contracts/synergistic_wynd_gauge\<close>: holders distribute their voting power over
  options, the tallies are kept in a main map and in an index sorted by points, and once per
  epoch the selected options are voted for in the outer WYND gauge.  What other contracts
  answer (the outer gauge, its adapter, the staking contract) is the parameter \<open>H\<close>.
\<close>

section \<open>Data\<close>

datatype gauge_error =
    G_std std_error
  | G_unauthorized
  | Gauge_missing nat
  | Too_much_voting_weight nat
  | No_voting_power string
  | Option_already_exists string nat
  | Option_invalid_by_adapter string nat
  | Option_valid_by_adapter string nat
  | Option_does_not_exist string nat
  | Epoch_not_reached nat nat nat
  | Reset_epoch_not_passed
  | Gauge_stopped nat
  | Gauge_pending nat
  | Gauge_no_pending nat
  | Gauge_resetting nat
  | Cannot_remove_nonexisting_vote
  | Epoch_size_too_short
  | Min_percent_selected_too_big
  | Max_options_selected_too_small
  | Max_available_percent_too_big
  | Gauge_cannot_create nat

record gauge_config =
  voting_powers :: addr
  gauge_owner :: addr
  dao_core :: addr
  wynd_gauge_addr :: addr
  wynd_staker :: addr

record gauge_vote =
  vote_option :: string
  vote_weight :: decimal

record vote_history =
  vh_epoch :: nat
  vh_next_epoch :: nat
  vh_votes :: "gauge_vote list"
  vh_executed :: bool

record gauge_reset =
  reset_last :: "nat option"
  reset_each :: nat
  reset_next :: nat

record gauge =
  g_title :: string
  g_adapter :: addr
  g_epoch :: nat
  g_min_percent_selected :: "decimal option"
  g_max_options_selected :: nat
  g_max_available_percentage :: "decimal option"
  g_is_stopped :: bool
  g_next_epoch :: nat
  g_last_executed_set :: "(string \<times> nat) list option"
  g_reset :: "gauge_reset option"
  g_epoch_pending_size :: nat
  g_wynd_gauge_id :: nat

record weighted_votes =
  wv_gauge_id :: nat
  wv_power :: nat
  wv_votes :: "gauge_vote list"
  wv_cast :: "nat option"

text \<open>
  The storage.  The primary key of \<open>votes\<close> is the pair of voter and gauge; its encoding puts the
  length of the voter's address first, so the key here does too.
\<close>

type_synonym vote_key = "nat \<times> addr \<times> nat"

definition vote_key :: "addr \<Rightarrow> nat \<Rightarrow> vote_key" where
  "vote_key voter g = (length voter, voter, g)"

record gauge_state =
  gs_version :: "(string \<times> string) option"
  gs_config :: "gauge_config option"
  gs_gauges :: "(nat, gauge) kv"
  gs_last_id :: "nat option"
  gs_last_epoch :: "(nat, nat) kv"
  gs_vote_history :: "(nat \<times> nat, vote_history) kv"
  gs_votes :: "(vote_key, weighted_votes) kv"
  gs_total_cast :: "(nat, nat) kv"
  gs_tally :: "(nat \<times> string, nat) kv"
  gs_points :: "(nat \<times> nat \<times> string, nat) kv"

definition gauge_empty :: gauge_state where
  "gauge_empty = \<lparr> gs_version = None, gs_config = None, gs_gauges = [], gs_last_id = None,
     gs_last_epoch = [], gs_vote_history = [], gs_votes = [], gs_total_cast = [], gs_tally = [],
     gs_points = [] \<rparr>"

definition gauge_contract_name :: string where "gauge_contract_name = ''crates.io:gauge''"
definition gauge_contract_version :: string where "gauge_contract_version = ''1.0.0''"

text \<open>What the outer gauge reports about one of its gauges.\<close>

record gauge_response =
  gr_id :: nat
  gr_wynd_gauge_id :: "nat option"
  gr_title :: string
  gr_adapter :: string
  gr_epoch_size :: nat
  gr_epoch_pending_size :: "nat option"
  gr_min_percent_selected :: "decimal option"
  gr_max_options_selected :: nat
  gr_max_available_percentage :: "decimal option"
  gr_is_stopped :: bool
  gr_next_epoch :: nat
  gr_reset :: "gauge_reset option"

text \<open>
  The other contracts, by contract address: the outer gauge (\<open>None\<close>: the query fails), the
  options and the verdict of an adapter, the voting power of a DAO, the durations and the
  balances of the staking contract; and the order in which a \<open>HashMap\<close> is iterated.
\<close>

record gauge_host =
  wynd_gauge :: "addr \<Rightarrow> nat \<Rightarrow> gauge_response option"
  all_options :: "addr \<Rightarrow> (std_error, string list) outcome"
  check_option :: "addr \<Rightarrow> string \<Rightarrow> bool option"
  dao_power :: "addr \<Rightarrow> addr \<Rightarrow> (std_error, nat) outcome"
  staking_durations :: "addr \<Rightarrow> (std_error, nat list) outcome"
  balance_by_duration :: "addr \<Rightarrow> addr \<Rightarrow> nat \<Rightarrow> nat option"
  hash_order :: "(string \<times> (nat \<times> nat)) list \<Rightarrow> (string \<times> (nat \<times> nat)) list"

text \<open>A loaded item or entry, or the not-found error with the name of its type.\<close>

definition load_gauge :: "gauge_state \<Rightarrow> nat \<Rightarrow> (gauge_error, gauge) outcome" where
  "load_gauge s g = map_err G_std (ok_or (Not_found ''Gauge'') (kv_get (gs_gauges s) g))"

definition load_gauge_config :: "gauge_state \<Rightarrow> (gauge_error, gauge_config) outcome" where
  "load_gauge_config s = map_err G_std (ok_or (Not_found ''Config'') (gs_config s))"

section \<open>Gauges and votes\<close>

definition fetch_last_id :: "gauge_state \<Rightarrow> (gauge_error, nat \<times> gauge_state) outcome" where
  "fetch_last_id s =
     (let i = (case gs_last_id s of Some i \<Rightarrow> i | None \<Rightarrow> 0) in
      and_then (u64_add i 1) (\<lambda>j. Ok (i, s\<lparr> gs_last_id := Some j \<rparr>)))"

definition is_resetting :: "gauge \<Rightarrow> bool" where
  "is_resetting g = (case g_reset g of None \<Rightarrow> False | Some r \<Rightarrow> reset_last r = Some (reset_next r))"

definition is_pending :: "gauge \<Rightarrow> nat \<Rightarrow> gauge_response \<Rightarrow> ('e, bool) outcome" where
  "is_pending g now w =
     and_then (u64_sub (g_next_epoch g) (g_epoch_pending_size g)) (\<lambda>start.
     Ok (if now > start \<and> now \<le> g_next_epoch g then True
         else if now > g_next_epoch g \<and> now > gr_next_epoch w then True
         else False))"

definition vote_is_expired :: "weighted_votes \<Rightarrow> gauge \<Rightarrow> bool" where
  "vote_is_expired v g =
     (case g_reset g of
        Some r \<Rightarrow> (case reset_last r of
                    Some expired \<Rightarrow> (case wv_cast v of None \<Rightarrow> 0 | Some c \<Rightarrow> c) < expired
                  | None \<Rightarrow> False)
      | None \<Rightarrow> False)"

definition weighted_votes_default :: weighted_votes where
  "weighted_votes_default = \<lparr> wv_gauge_id = 0, wv_power = 0, wv_votes = [], wv_cast = None \<rparr>"

definition save_votes :: "gauge_state \<Rightarrow> addr \<Rightarrow> nat \<Rightarrow> weighted_votes \<Rightarrow> gauge_state" where
  "save_votes s voter g v = s\<lparr> gs_votes := kv_set (gs_votes s) (vote_key voter g) v \<rparr>"

definition set_votes :: "gauge_state \<Rightarrow> env \<Rightarrow> addr \<Rightarrow> nat \<Rightarrow> gauge_vote list \<Rightarrow> nat \<Rightarrow> gauge_state" where
  "set_votes s e voter g vs pw =
     save_votes s voter g \<lparr> wv_gauge_id = g, wv_power = pw, wv_votes = vs,
       wv_cast = Some (seconds (block e)) \<rparr>"

definition remove_votes :: "gauge_state \<Rightarrow> addr \<Rightarrow> nat \<Rightarrow> gauge_state" where
  "remove_votes s voter g = s\<lparr> gs_votes := kv_del (gs_votes s) (vote_key voter g) \<rparr>"

definition may_load_votes :: "gauge_state \<Rightarrow> addr \<Rightarrow> nat \<Rightarrow> weighted_votes option" where
  "may_load_votes s voter g = kv_get (gs_votes s) (vote_key voter g)"

text \<open>Pages of the listings: \<open>DEFAULT_LIMIT\<close> and \<open>MAX_LIMIT\<close>.\<close>

definition gauge_page_limit :: "nat option \<Rightarrow> nat" where
  "gauge_page_limit limit = min (case limit of None \<Rightarrow> 30 | Some l \<Rightarrow> l) 100"

definition query_votes_by_voter ::
  "gauge_state \<Rightarrow> addr \<Rightarrow> nat option \<Rightarrow> nat option \<Rightarrow> weighted_votes list"
where
  "query_votes_by_voter s voter start_after limit =
     map snd (take (gauge_page_limit limit)
       (kv_after (kv_prefix (kv_prefix (gs_votes s) (length voter)) voter) start_after))"

record gauge_vote_info =
  vi_voter :: string
  vi_votes :: "gauge_vote list"
  vi_cast :: "nat option"

definition query_votes_by_gauge ::
  "platform \<Rightarrow> gauge_state \<Rightarrow> nat \<Rightarrow> string option \<Rightarrow> nat option
     \<Rightarrow> (gauge_error, gauge_vote_info list) outcome"
where
  "query_votes_by_gauge P s g start_after limit =
     and_then (map_err G_std (traverse_opt (addr_validate P) start_after)) (\<lambda>a.
     and_then (load_gauge s g) (\<lambda>gauge.
     let page = take (gauge_page_limit limit)
           (kv_after (filter (\<lambda>e. wv_gauge_id (snd e) = g) (gs_votes s))
              (map_option (\<lambda>x. vote_key x g) a))
     in Ok (map (\<lambda>e. \<lparr> vi_voter = fst (snd (fst e)), vi_votes = wv_votes (snd e), vi_cast = wv_cast (snd e) \<rparr>)
           (filter (\<lambda>e. \<not> vote_is_expired (snd e) gauge) page))))"

section \<open>Tallies\<close>

text \<open>
  One round of \<open>update_tallies\<close>: the accumulator holds the sums of the old and of the new
  votes so far.
\<close>

definition tally_step ::
  "nat \<Rightarrow> string \<times> nat \<times> nat \<Rightarrow> nat \<times> nat \<times> gauge_state
     \<Rightarrow> (gauge_error, nat \<times> nat \<times> gauge_state) outcome"
where
  "tally_step g update acc =
     (case update of (opt, old_vote, new_vote) \<Rightarrow>
      case acc of (olds, news, s) \<Rightarrow>
      and_then (u128_add olds old_vote) (\<lambda>olds'.
      and_then (u128_add news new_vote) (\<lambda>news'.
      let old_count = kv_get (gs_tally s) (g, opt) in
      and_then (u128_add (case old_count of None \<Rightarrow> 0 | Some c \<Rightarrow> c) new_vote) (\<lambda>c.
      and_then (u128_sub c old_vote) (\<lambda>count.
      let points = (case old_count of Some old \<Rightarrow> kv_del (gs_points s) (g, old, opt) | None \<Rightarrow> gs_points s) in
      Ok (olds', news', s\<lparr> gs_tally := kv_set (gs_tally s) (g, opt) count,
                           gs_points := kv_set points (g, count, opt) 1 \<rparr>))))))"

definition update_tallies ::
  "gauge_state \<Rightarrow> nat \<Rightarrow> (string \<times> nat \<times> nat) list \<Rightarrow> (gauge_error, gauge_state) outcome"
where
  "update_tallies s g updates =
     and_then (fold_ok (tally_step g) updates (0, 0, s)) (\<lambda>(olds, news, s').
     and_then (u128_add (kv_nat (gs_total_cast s') g) news) (\<lambda>t.
     and_then (u128_sub t olds) (\<lambda>tot.
     Ok (s'\<lparr> gs_total_cast := kv_set (gs_total_cast s') g tot \<rparr>))))"

definition update_tally ::
  "gauge_state \<Rightarrow> nat \<Rightarrow> string \<Rightarrow> nat \<Rightarrow> nat \<Rightarrow> (gauge_error, gauge_state) outcome"
where
  "update_tally s g opt old_vote new_vote = update_tallies s g [(opt, old_vote, new_vote)]"

definition remove_tally :: "gauge_state \<Rightarrow> nat \<Rightarrow> string \<Rightarrow> (gauge_error, gauge_state) outcome" where
  "remove_tally s g opt =
     (let old_vote = kv_get (gs_tally s) (g, opt);
          s' = s\<lparr> gs_tally := kv_del (gs_tally s) (g, opt) \<rparr> in
      case old_vote of
        None \<Rightarrow> Ok s'
      | Some old \<Rightarrow>
          and_then (u128_sub (kv_nat (gs_total_cast s') g) old) (\<lambda>tot.
          Ok (s'\<lparr> gs_total_cast := kv_set (gs_total_cast s') g tot,
                 gs_points := kv_del (gs_points s') (g, old, opt) \<rparr>)))"

section \<open>The selected set\<close>

text \<open>The filter of \<open>selected_set\<close>, and the cut at the available percentage.\<close>

definition option_selected :: "gauge \<Rightarrow> nat \<Rightarrow> nat \<Rightarrow> ('e, bool) outcome" where
  "option_selected g total_cast pw =
     (case g_min_percent_selected g of
        Some m \<Rightarrow> and_then (decimal_from_ratio pw total_cast) (\<lambda>r. Ok (r \<ge> m))
      | None \<Rightarrow> Ok (pw \<noteq> 0))"

definition available_power :: "gauge \<Rightarrow> nat \<Rightarrow> nat \<Rightarrow> ('e, nat) outcome" where
  "available_power g total_cast pw =
     (case g_max_available_percentage g of
        Some m \<Rightarrow>
          and_then (decimal_from_ratio pw total_cast) (\<lambda>r.
          if r > m then u128_mul_decimal total_cast m else Ok pw)
      | None \<Rightarrow> Ok pw)"

text \<open>The lazy chain of filter, map and take over the descending index.\<close>

fun select_loop ::
  "gauge \<Rightarrow> nat \<Rightarrow> nat \<Rightarrow> (nat \<times> string) list \<Rightarrow> ('e, (string \<times> nat) list) outcome"
where
  "select_loop g total_cast 0 es = Ok []"
| "select_loop g total_cast (Suc n) [] = Ok []"
| "select_loop g total_cast (Suc n) ((pw, opt) # es) =
     and_then (option_selected g total_cast pw) (\<lambda>b.
     if b then
       and_then (available_power g total_cast pw) (\<lambda>p.
       and_then (select_loop g total_cast n es) (\<lambda>rest.
       Ok ((opt, p) # rest)))
     else select_loop g total_cast (Suc n) es)"

definition points_of :: "gauge_state \<Rightarrow> nat \<Rightarrow> (nat \<times> string) list" where
  "points_of s g = map fst (kv_prefix (gs_points s) g)"

definition selected_set :: "gauge_state \<Rightarrow> nat \<Rightarrow> (gauge_error, (string \<times> nat) list) outcome" where
  "selected_set s g =
     and_then (load_gauge s g) (\<lambda>gauge.
     and_then (map_err G_std (ok_or (Not_found ''u128'') (kv_get (gs_total_cast s) g))) (\<lambda>total_cast.
     if is_resetting gauge \<or> total_cast = 0 then Ok []
     else select_loop gauge total_cast (g_max_options_selected gauge) (rev (points_of s g))))"

section \<open>Handlers\<close>

text \<open>The message sent: the votes for the outer gauge, to be placed by the staker contract.\<close>

record place_votes_msg =
  pv_contract :: addr
  pv_gauge :: nat
  pv_votes :: "gauge_vote list option"

definition add_option ::
  "gauge_host \<Rightarrow> gauge_state \<Rightarrow> addr \<Rightarrow> nat \<Rightarrow> string \<Rightarrow> bool \<Rightarrow> (gauge_error, gauge_state) outcome"
where
  "add_option H s who g opt check =
     (if kv_get (gs_tally s) (g, opt) \<noteq> None then Err (Option_already_exists opt g)
      else
      and_then
        (if check then
           and_then (load_gauge s g) (\<lambda>gauge.
           and_then (ok_or (Option_invalid_by_adapter opt g) (check_option H (g_adapter gauge) opt)) (\<lambda>valid.
           if \<not> valid then Err (Option_invalid_by_adapter opt g)
           else
           and_then (load_gauge_config s) (\<lambda>config.
           and_then (map_err G_std (dao_power H (voting_powers config) who)) (\<lambda>pw.
           if pw = 0 then Err (No_voting_power who) else Ok ()))))
         else Ok ()) (\<lambda>_.
      update_tally s g opt 0 0))"

record gauge_params =
  gp_title :: string
  gp_wynd_gauge_id :: nat
  gp_epoch_pending_size :: nat

definition attach_gauge ::
  "platform \<Rightarrow> gauge_host \<Rightarrow> gauge_state \<Rightarrow> gauge_params \<Rightarrow> (gauge_error, gauge_state \<times> addr) outcome"
where
  "attach_gauge P H s params =
     and_then (load_gauge_config s) (\<lambda>config.
     case wynd_gauge H (wynd_gauge_addr config) (gp_wynd_gauge_id params) of
       None \<Rightarrow> Panic
     | Some w \<Rightarrow>
         if gr_is_stopped w then Err (Gauge_cannot_create (gp_wynd_gauge_id params))
         else
         and_then (map_err G_std (addr_validate P (gr_adapter w))) (\<lambda>adapter.
         let gauge = \<lparr> g_title = gp_title params, g_adapter = adapter, g_epoch = gr_epoch_size w,
               g_min_percent_selected = gr_min_percent_selected w,
               g_max_options_selected = gr_max_options_selected w,
               g_max_available_percentage = gr_max_available_percentage w, g_is_stopped = False,
               g_next_epoch = gr_next_epoch w, g_last_executed_set = None, g_reset = None,
               g_epoch_pending_size = gp_epoch_pending_size params,
               g_wynd_gauge_id = gp_wynd_gauge_id params \<rparr> in
         and_then (fetch_last_id s) (\<lambda>(i, s1).
         let s2 = s1\<lparr> gs_gauges := kv_set (gs_gauges s1) i gauge \<rparr> in
         and_then (map_err G_std (all_options H (gr_adapter w))) (\<lambda>opts.
         and_then (fold_ok (\<lambda>opt t. add_option H t adapter i opt False) opts s2) (\<lambda>s3.
         Ok (s3\<lparr> gs_last_epoch := kv_set (gs_last_epoch s3) i 0 \<rparr>, adapter))))))"

record gauge_instantiate_msg =
  gi_voting_powers :: string
  gi_owner :: string
  gi_wynd_staker :: string
  gi_gauges :: "gauge_params list option"

definition wynd_gauge_const :: string where
  "wynd_gauge_const = ''juno14va0k6whnaptyr3pl8ajdjdu5p420sywyyuer3mqsvtl4xugh8lqatjcz6''"

definition gauge_instantiate ::
  "platform \<Rightarrow> gauge_host \<Rightarrow> message_info \<Rightarrow> gauge_instantiate_msg \<Rightarrow> (gauge_error, gauge_state) outcome"
where
  "gauge_instantiate P H info msg =
     and_then (map_err G_std (addr_validate P (gi_voting_powers msg))) (\<lambda>vp.
     and_then (map_err G_std (addr_validate P (gi_owner msg))) (\<lambda>owner.
     and_then (map_err G_std (addr_validate P (gi_wynd_staker msg))) (\<lambda>st.
     and_then (map_err G_std (addr_validate P wynd_gauge_const)) (\<lambda>wg.
     let s = gauge_empty\<lparr> gs_version := Some (gauge_contract_name, gauge_contract_version),
           gs_config := Some \<lparr> voting_powers = vp, gauge_owner = owner, dao_core = sender info,
             wynd_gauge_addr = wg, wynd_staker = st \<rparr> \<rparr> in
     fold_ok (\<lambda>params t. and_then (attach_gauge P H t params) (\<lambda>(t', _). Ok t'))
       (case gi_gauges msg of None \<Rightarrow> [] | Some gs \<Rightarrow> gs) s))))"

definition create_gauge ::
  "platform \<Rightarrow> gauge_host \<Rightarrow> gauge_state \<Rightarrow> addr \<Rightarrow> gauge_params \<Rightarrow> (gauge_error, gauge_state) outcome"
where
  "create_gauge P H s who params =
     and_then (load_gauge_config s) (\<lambda>config.
     if who \<noteq> gauge_owner config then Err G_unauthorized
     else and_then (attach_gauge P H s params) (\<lambda>(s', _). Ok s'))"

text \<open>The five optional settings of \<open>update_gauge\<close>, applied one after the other.\<close>

definition set_min_percent :: "decimal \<Rightarrow> gauge \<Rightarrow> (gauge_error, gauge) outcome" where
  "set_min_percent m g =
     (if m = 0 then Ok (g\<lparr> g_min_percent_selected := None \<rparr>)
      else and_then (ensure (m < decimal_one) Min_percent_selected_too_big) (\<lambda>_.
           Ok (g\<lparr> g_min_percent_selected := Some m \<rparr>)))"

definition set_max_available :: "decimal \<Rightarrow> gauge \<Rightarrow> (gauge_error, gauge) outcome" where
  "set_max_available m g =
     (if m = 0 then Ok (g\<lparr> g_max_available_percentage := None \<rparr>)
      else and_then (ensure (m < decimal_one) Max_available_percent_too_big) (\<lambda>_.
           Ok (g\<lparr> g_max_available_percentage := Some m \<rparr>)))"

definition when_some :: "'a option \<Rightarrow> ('a \<Rightarrow> 's \<Rightarrow> ('e, 's) outcome) \<Rightarrow> 's \<Rightarrow> ('e, 's) outcome" where
  "when_some x f s = (case x of None \<Rightarrow> Ok s | Some v \<Rightarrow> f v s)"

definition update_gauge ::
  "gauge_state \<Rightarrow> addr \<Rightarrow> nat \<Rightarrow> nat option \<Rightarrow> nat option \<Rightarrow> decimal option \<Rightarrow> nat option
     \<Rightarrow> decimal option \<Rightarrow> (gauge_error, gauge_state) outcome"
where
  "update_gauge s who i epoch_size pending_size min_percent max_options max_available =
     and_then (load_gauge_config s) (\<lambda>config.
     if who \<noteq> gauge_owner config then Err G_unauthorized
     else
     and_then (load_gauge s i) (\<lambda>g.
     and_then (when_some epoch_size (\<lambda>n g. and_then (ensure (n > 60) Epoch_size_too_short) (\<lambda>_.
                 Ok (g\<lparr> g_epoch := n \<rparr>))) g) (\<lambda>g.
     and_then (when_some pending_size (\<lambda>n g. and_then (ensure (n > 60) Epoch_size_too_short) (\<lambda>_.
                 Ok (g\<lparr> g_epoch_pending_size := n \<rparr>))) g) (\<lambda>g.
     and_then (when_some min_percent set_min_percent g) (\<lambda>g.
     and_then (when_some max_options (\<lambda>n g. and_then (ensure (n > 0) Max_options_selected_too_small) (\<lambda>_.
                 Ok (g\<lparr> g_max_options_selected := n \<rparr>))) g) (\<lambda>g.
     and_then (when_some max_available set_max_available g) (\<lambda>g.
     Ok (s\<lparr> gs_gauges := kv_set (gs_gauges s) i g \<rparr>))))))))"

definition stop_gauge :: "gauge_state \<Rightarrow> addr \<Rightarrow> nat \<Rightarrow> (gauge_error, gauge_state) outcome" where
  "stop_gauge s who i =
     and_then (load_gauge_config s) (\<lambda>config.
     if who \<noteq> gauge_owner config then Err G_unauthorized
     else
     and_then (load_gauge s i) (\<lambda>g.
     Ok (s\<lparr> gs_gauges := kv_set (gs_gauges s) i (g\<lparr> g_is_stopped := True \<rparr>) \<rparr>)))"

definition remove_option ::
  "gauge_state \<Rightarrow> addr \<Rightarrow> nat \<Rightarrow> string \<Rightarrow> (gauge_error, gauge_state) outcome"
where
  "remove_option s who g opt =
     (if kv_get (gs_tally s) (g, opt) = None then Err (Option_does_not_exist opt g)
      else
      and_then (load_gauge_config s) (\<lambda>config.
      if who \<noteq> gauge_owner config then Err G_unauthorized
      else remove_tally s g opt))"

section \<open>Changed members\<close>

record member_diff =
  md_key :: string
  md_old :: "nat option"
  md_new :: "nat option"

definition nat_or_0 :: "nat option \<Rightarrow> nat" where
  "nat_or_0 x = (case x of None \<Rightarrow> 0 | Some n \<Rightarrow> n)"

text \<open>The updates of one vote when the voter's power changes.\<close>

definition power_updates ::
  "nat \<Rightarrow> nat \<Rightarrow> gauge_vote list \<Rightarrow> (gauge_error, (string \<times> nat \<times> nat) list) outcome"
where
  "power_updates old new vs =
     map_ok (\<lambda>v. and_then (u128_mul_decimal old (vote_weight v)) (\<lambda>a.
                 and_then (u128_mul_decimal new (vote_weight v)) (\<lambda>b.
                 Ok (vote_option v, a, b)))) vs"

text \<open>The inner loop: one vote of the member.\<close>

definition member_vote ::
  "member_diff \<Rightarrow> addr \<Rightarrow> weighted_votes \<Rightarrow> gauge_state \<Rightarrow> (gauge_error, gauge_state) outcome"
where
  "member_vote d voter v s =
     (case kv_get (gs_gauges s) (wv_gauge_id v) of
        None \<Rightarrow> Panic
      | Some g \<Rightarrow>
          if vote_is_expired v g then Ok s
          else
          and_then (power_updates (nat_or_0 (md_old d)) (nat_or_0 (md_new d)) (wv_votes v)) (\<lambda>us.
          and_then (update_tallies s (wv_gauge_id v) us) (\<lambda>s'.
          Ok (save_votes s' voter (wv_gauge_id v) (v\<lparr> wv_power := nat_or_0 (md_new d) \<rparr>)))))"

definition member_changed ::
  "platform \<Rightarrow> gauge_state \<Rightarrow> addr \<Rightarrow> member_diff list \<Rightarrow> (gauge_error, gauge_state) outcome"
where
  "member_changed P s who diffs =
     and_then (load_gauge_config s) (\<lambda>config.
     if who \<noteq> voting_powers config then Err G_unauthorized
     else
     fold_ok (\<lambda>d t.
       and_then (map_err G_std (addr_validate P (md_key d))) (\<lambda>voter.
       fold_ok (member_vote d voter) (query_votes_by_voter t voter None (Some 100)) t)) diffs s)"

section \<open>Voting\<close>

text \<open>The sum over the durations of the staking contract; a failing balance query counts as zero.\<close>

definition gauge_voting_power :: "gauge_host \<Rightarrow> addr \<Rightarrow> addr \<Rightarrow> (gauge_error, nat) outcome" where
  "gauge_voting_power H who dao =
     and_then (map_err G_std (staking_durations H dao)) (\<lambda>ds.
     fold_ok (\<lambda>d acc. u128_add acc (nat_or_0 (balance_by_duration H dao who d))) ds 0)"

text \<open>The votes for the outer gauge: the share of each selected option.\<close>

definition sum_u128 :: "nat list \<Rightarrow> ('e, nat) outcome" where
  "sum_u128 xs = fold_ok (\<lambda>x acc. u128_add acc x) xs 0"

definition selected_shares :: "(string \<times> nat) list \<Rightarrow> (gauge_error, gauge_vote list) outcome" where
  "selected_shares sel =
     and_then (sum_u128 (map snd sel)) (\<lambda>tot.
     map_ok (\<lambda>(opt, pw). and_then (decimal_from_ratio pw tot) (\<lambda>w.
       Ok \<lparr> vote_option = opt, vote_weight = w \<rparr>)) sel)"

text \<open>\<open>update_epoch\<close> returns the gauge it has changed and saved together with the state.\<close>

definition update_epoch ::
  "gauge_state \<Rightarrow> gauge \<Rightarrow> nat \<Rightarrow> nat \<Rightarrow> gauge_vote list \<Rightarrow> bool \<Rightarrow> (gauge_error, gauge_state \<times> gauge) outcome"
where
  "update_epoch s g i next_ep vs executed =
     (case kv_get (gs_last_epoch s) i of
        None \<Rightarrow> Panic
      | Some last_epoch \<Rightarrow>
          let s1 = s\<lparr> gs_vote_history := kv_set (gs_vote_history s) (i, last_epoch)
                \<lparr> vh_epoch = g_epoch g, vh_next_epoch = g_next_epoch g, vh_votes = vs, vh_executed = executed \<rparr> \<rparr> in
          if last_epoch + 1 < u128_lim then
            let g' = g\<lparr> g_next_epoch := next_ep \<rparr> in
            Ok (s1\<lparr> gs_last_epoch := kv_set (gs_last_epoch s1) i (last_epoch + 1),
                   gs_gauges := kv_set (gs_gauges s1) i g' \<rparr>, g')
          else Panic)"

text \<open>The change of votes as a map from options to old and new points.\<close>

fun diff_old :: "nat \<Rightarrow> gauge_vote list \<Rightarrow> (string, nat \<times> nat) kv \<Rightarrow> (gauge_error, (string, nat \<times> nat) kv) outcome"
where
  "diff_old pw [] m = Ok m"
| "diff_old pw (v # vs) m =
     and_then (u128_mul_decimal pw (vote_weight v)) (\<lambda>old.
     diff_old pw vs (kv_set m (vote_option v) (old, 0)))"

fun diff_new :: "nat \<Rightarrow> gauge_vote list \<Rightarrow> (string, nat \<times> nat) kv \<Rightarrow> (gauge_error, (string, nat \<times> nat) kv) outcome"
where
  "diff_new pw [] m = Ok m"
| "diff_new pw (v # vs) m =
     and_then (u128_mul_decimal pw (vote_weight v)) (\<lambda>new.
     let old = (case kv_get m (vote_option v) of Some (old, _) \<Rightarrow> old | None \<Rightarrow> 0)
     in diff_new pw vs (kv_set m (vote_option v) (old, new)))"

text \<open>The options voted for the first time must exist; the first missing one is reported.\<close>

fun check_new_options ::
  "gauge_state \<Rightarrow> nat \<Rightarrow> (string \<times> nat \<times> nat) list \<Rightarrow> (gauge_error, unit) outcome"
where
  "check_new_options s g [] = Ok ()"
| "check_new_options s g ((opt, old, new) # ds) =
     (if old = 0 \<and> kv_get (gs_tally s) (g, opt) = None then Err (Option_does_not_exist opt g)
      else check_new_options s g ds)"

text \<open>The start of \<open>place_votes\<close>: the voting window, and closing an epoch nobody has executed.\<close>

definition enter_epoch ::
  "gauge_host \<Rightarrow> gauge_state \<Rightarrow> env \<Rightarrow> gauge_config \<Rightarrow> nat \<Rightarrow> gauge \<Rightarrow> (gauge_error, gauge_state \<times> gauge) outcome"
where
  "enter_epoch H s e config i g =
     (case wynd_gauge H (wynd_gauge_addr config) (g_wynd_gauge_id g) of
        None \<Rightarrow> Panic
      | Some w \<Rightarrow>
          and_then (is_pending g (seconds (block e)) w) (\<lambda>pending.
          if pending then Err (Gauge_pending i)
          else if seconds (block e) > g_next_epoch g \<and> seconds (block e) < gr_next_epoch w then
            and_then (selected_set s i) (\<lambda>sel.
            and_then (selected_shares sel) (\<lambda>vs.
            update_epoch s g i (gr_next_epoch w) vs False))
          else Ok (s, g)))"

definition sum_weights :: "gauge_vote list \<Rightarrow> ('e, decimal) outcome" where
  "sum_weights vs = fold_ok (\<lambda>v acc. u128_add acc (vote_weight v)) vs 0"

definition place_votes ::
  "gauge_host \<Rightarrow> gauge_state \<Rightarrow> env \<Rightarrow> addr \<Rightarrow> nat \<Rightarrow> gauge_vote list option
     \<Rightarrow> (gauge_error, gauge_state) outcome"
where
  "place_votes H s0 e who i new_votes =
     and_then (ok_or (Gauge_missing i) (kv_get (gs_gauges s0) i)) (\<lambda>g0.
     and_then (load_gauge_config s0) (\<lambda>config.
     and_then (enter_epoch H s0 e config i g0) (\<lambda>(s, g).
     if is_resetting g then Err (Gauge_resetting i)
     else
     let vs = (case new_votes of None \<Rightarrow> [] | Some vs \<Rightarrow> vs) in
     and_then (sum_weights vs) (\<lambda>weight.
     if weight > decimal_one then Err (Too_much_voting_weight weight)
     else
     and_then (gauge_voting_power H who (voting_powers config)) (\<lambda>pw.
     if pw = 0 then Err (No_voting_power who)
     else
     let previous = (case may_load_votes s who i of
                       Some v \<Rightarrow> if vote_is_expired v g then None else Some v
                     | None \<Rightarrow> None) in
     if previous = None \<and> vs = [] then Err Cannot_remove_nonexisting_vote
     else
     let prev = (case previous of Some v \<Rightarrow> v | None \<Rightarrow> weighted_votes_default) in
     and_then (diff_old (wv_power prev) (wv_votes prev) []) (\<lambda>m.
     and_then (diff_new pw vs m) (\<lambda>m'.
     let ds = hash_order H m' in
     and_then (check_new_options s i ds) (\<lambda>_.
     and_then (update_tallies s i ds) (\<lambda>s'.
     Ok (if vs = [] then remove_votes s' who i else set_votes s' e who i vs pw)))))))))) "

definition execute_gauge ::
  "gauge_host \<Rightarrow> gauge_state \<Rightarrow> env \<Rightarrow> nat \<Rightarrow> (gauge_error, gauge_state \<times> place_votes_msg list) outcome"
where
  "execute_gauge H s e i =
     and_then (load_gauge s i) (\<lambda>g.
     and_then (load_gauge_config s) (\<lambda>config.
     if g_is_stopped g then Err (Gauge_stopped i)
     else
     case wynd_gauge H (wynd_gauge_addr config) (g_wynd_gauge_id g) of
       None \<Rightarrow> Panic
     | Some w \<Rightarrow>
         and_then (is_pending g (seconds (block e)) w) (\<lambda>pending.
         if \<not> pending then Err (Gauge_no_pending i)
         else if is_resetting g then Err (Gauge_resetting i)
         else
         and_then (selected_set s i) (\<lambda>sel.
         let g1 = g\<lparr> g_last_executed_set := Some sel \<rparr> in
         and_then (selected_shares sel) (\<lambda>vs.
         let s1 = s\<lparr> gs_gauges := kv_set (gs_gauges s) i g1 \<rparr> in
         and_then (update_epoch s1 g1 i (gr_next_epoch w) vs True) (\<lambda>(s2, _).
         Ok (s2, [\<lparr> pv_contract = wynd_staker config, pv_gauge = g_wynd_gauge_id g1,
                    pv_votes = Some vs \<rparr>])))))))"

section \<open>The entry point\<close>

datatype gauge_msg =
    Member_changed_hook "member_diff list"
  | Create_gauge gauge_params
  | Update_gauge nat "nat option" "nat option" "decimal option" "nat option" "decimal option"
  | Stop_gauge nat
  | Add_option nat string
  | Remove_option nat string
  | Place_votes nat "gauge_vote list option"
  | Execute_gauge nat

definition silent :: "('e, 's) outcome \<Rightarrow> ('e, 's \<times> place_votes_msg list) outcome" where
  "silent r = and_then r (\<lambda>s. Ok (s, []))"

fun gauge_execute ::
  "platform \<Rightarrow> gauge_host \<Rightarrow> gauge_state \<Rightarrow> env \<Rightarrow> message_info \<Rightarrow> gauge_msg
     \<Rightarrow> (gauge_error, gauge_state \<times> place_votes_msg list) outcome"
where
  "gauge_execute P H s e info (Member_changed_hook ds) = silent (member_changed P s (sender info) ds)"
| "gauge_execute P H s e info (Create_gauge params) = silent (create_gauge P H s (sender info) params)"
| "gauge_execute P H s e info (Update_gauge i ep pe mi mo ma) =
     silent (update_gauge s (sender info) i ep pe mi mo ma)"
| "gauge_execute P H s e info (Stop_gauge i) = silent (stop_gauge s (sender info) i)"
| "gauge_execute P H s e info (Add_option i opt) = silent (add_option H s (sender info) i opt False)"
| "gauge_execute P H s e info (Remove_option i opt) = silent (remove_option s (sender info) i opt)"
| "gauge_execute P H s e info (Place_votes i vs) = silent (place_votes H s e (sender info) i vs)"
| "gauge_execute P H s e info (Execute_gauge i) = execute_gauge H s e i"

section \<open>Queries\<close>

definition to_gauge_response :: "nat \<Rightarrow> gauge \<Rightarrow> gauge_response" where
  "to_gauge_response i g =
     \<lparr> gr_id = i, gr_wynd_gauge_id = Some (g_wynd_gauge_id g), gr_title = g_title g,
       gr_adapter = g_adapter g, gr_epoch_size = g_epoch g,
       gr_epoch_pending_size = Some (g_epoch_pending_size g),
       gr_min_percent_selected = g_min_percent_selected g,
       gr_max_options_selected = g_max_options_selected g,
       gr_max_available_percentage = g_max_available_percentage g,
       gr_is_stopped = g_is_stopped g, gr_next_epoch = g_next_epoch g, gr_reset = g_reset g \<rparr>"

definition query_gauge :: "gauge_state \<Rightarrow> nat \<Rightarrow> (gauge_error, gauge_response) outcome" where
  "query_gauge s i = and_then (load_gauge s i) (\<lambda>g. Ok (to_gauge_response i g))"

definition list_gauges ::
  "gauge_state \<Rightarrow> nat option \<Rightarrow> nat option \<Rightarrow> (gauge_error, gauge_response list) outcome"
where
  "list_gauges s start_after limit =
     Ok (map (\<lambda>(i, g). to_gauge_response i g)
           (take (gauge_page_limit limit) (kv_after (gs_gauges s) start_after)))"

definition query_gauge_vote ::
  "platform \<Rightarrow> gauge_state \<Rightarrow> nat \<Rightarrow> string \<Rightarrow> (gauge_error, gauge_vote_info option) outcome"
where
  "query_gauge_vote P s i voter =
     and_then (map_err G_std (addr_validate P voter)) (\<lambda>a.
     and_then (load_gauge s i) (\<lambda>g.
     Ok (case may_load_votes s a i of
           Some v \<Rightarrow> if vote_is_expired v g then None
                    else Some \<lparr> vi_voter = voter, vi_votes = wv_votes v, vi_cast = wv_cast v \<rparr>
         | None \<Rightarrow> None)))"

definition list_vote_history ::
  "gauge_state \<Rightarrow> nat \<Rightarrow> nat option \<Rightarrow> nat option \<Rightarrow> (gauge_error, vote_history list) outcome"
where
  "list_vote_history s i start_after limit =
     Ok (map snd (take (gauge_page_limit limit) (kv_after (kv_prefix (gs_vote_history s) i) start_after)))"

definition list_vote_history_reverse ::
  "gauge_state \<Rightarrow> nat \<Rightarrow> nat option \<Rightarrow> nat option \<Rightarrow> (gauge_error, vote_history list) outcome"
where
  "list_vote_history_reverse s i start_after limit =
     Ok (map snd (take (gauge_page_limit limit)
           (rev (kv_after (kv_prefix (gs_vote_history s) i) start_after))))"

definition list_options ::
  "gauge_state \<Rightarrow> nat \<Rightarrow> string option \<Rightarrow> nat option \<Rightarrow> (gauge_error, (string \<times> nat) list) outcome"
where
  "list_options s i start_after limit =
     Ok (take (gauge_page_limit limit) (kv_after (kv_prefix (gs_tally s) i) start_after))"

definition last_executed_set ::
  "gauge_state \<Rightarrow> nat \<Rightarrow> (gauge_error, (string \<times> nat) list option) outcome"
where
  "last_executed_set s i = and_then (load_gauge s i) (\<lambda>g. Ok (g_last_executed_set g))"

definition gauge_version :: "gauge_state \<Rightarrow> nat \<Rightarrow> (gauge_error, nat \<times> nat) outcome" where
  "gauge_version s i =
     and_then (map_err G_std (ok_or (Not_found ''u128'') (kv_get (gs_last_epoch s) i))) (\<lambda>v. Ok (i, v))"

end
