(* ===== verification/Gauge_Proofs.thy ===== *)
theory Gauge_Proofs
  imports Gauge
begin

text \<open>
  The tallies of the gauge: the index of options by points lists exactly the tallied points, the
  total is the sum of the tallies, and the descending index yields the options with the most
  points.  The interface \<open>ranking\<close> states what the selection relies on.
\<close>

section \<open>The tally and its index\<close>

text \<open>Every tallied option is listed in the index under its points, and nothing else is.\<close>

definition indexed :: "gauge_state \<Rightarrow> bool" where
  "indexed s \<longleftrightarrow> kv_ok (gs_tally s) \<and> kv_ok (gs_points s) \<and>
     (\<forall>g c opt. kv_get (gs_points s) (g, c, opt) =
        (if kv_get (gs_tally s) (g, opt) = Some c then Some 1 else None))"

definition tally_sum :: "gauge_state \<Rightarrow> nat \<Rightarrow> nat" where
  "tally_sum s g = kv_sum (\<lambda>k c. if fst k = g then c else 0) (gs_tally s)"

lemma tally_sum_prefix: "tally_sum s g = kv_total (kv_prefix (gs_tally s) g)"
proof -
  have "kv_sum (\<lambda>k c. if fst k = g then c else 0) m = kv_total (kv_prefix m g)" for m :: "(nat \<times> string, nat) kv"
    by (induction m) (auto simp: kv_total_def kv_prefix_def)
  then show ?thesis by (simp add: tally_sum_def)
qed

text \<open>Replacing one tally, with its entry of the index.\<close>

definition put_tally :: "gauge_state \<Rightarrow> nat \<Rightarrow> string \<Rightarrow> nat \<Rightarrow> gauge_state" where
  "put_tally s g opt count =
     s\<lparr> gs_tally := kv_set (gs_tally s) (g, opt) count,
        gs_points := kv_set (case kv_get (gs_tally s) (g, opt) of
            Some old \<Rightarrow> kv_del (gs_points s) (g, old, opt) | None \<Rightarrow> gs_points s) (g, count, opt) 1 \<rparr>"

lemma put_tally_sel [simp]:
  "gs_tally (put_tally s g opt c) = kv_set (gs_tally s) (g, opt) c"
  "gs_version (put_tally s g opt c) = gs_version s"
  "gs_config (put_tally s g opt c) = gs_config s"
  "gs_gauges (put_tally s g opt c) = gs_gauges s"
  "gs_last_id (put_tally s g opt c) = gs_last_id s"
  "gs_last_epoch (put_tally s g opt c) = gs_last_epoch s"
  "gs_vote_history (put_tally s g opt c) = gs_vote_history s"
  "gs_votes (put_tally s g opt c) = gs_votes s"
  "gs_total_cast (put_tally s g opt c) = gs_total_cast s"
  by (simp_all add: put_tally_def)

lemma indexed_put_tally: "indexed s \<Longrightarrow> indexed (put_tally s g opt c)"
  by (auto simp: indexed_def put_tally_def split: option.splits)

lemma tally_sum_put_tally:
  "indexed s \<Longrightarrow> tally_sum (put_tally s g opt c) g' + (if g' = g then kv_nat (gs_tally s) (g, opt) else 0)
     = tally_sum s g' + (if g' = g then c else 0)"
  using kv_sum_set [of "gs_tally s" "\<lambda>k c. if fst k = g' then c else 0" "(g, opt)" c]
  by (auto simp: tally_sum_def indexed_def kv_at_def kv_nat_def split: option.splits)

lemma tally_step_Ok:
  "tally_step g (opt, a, b) (olds, news, s) = Ok (olds', news', s') \<longleftrightarrow>
     olds' = olds + a \<and> news' = news + b \<and> olds + a < u128_lim \<and> news + b < u128_lim \<and>
     kv_nat (gs_tally s) (g, opt) + b < u128_lim \<and> a \<le> kv_nat (gs_tally s) (g, opt) + b \<and>
     s' = put_tally s g opt (kv_nat (gs_tally s) (g, opt) + b - a)"
  by (auto simp: tally_step_def put_tally_def kv_nat_def Let_def outcome_simps arith_simps
      split: option.splits)

text \<open>What a run of the loop keeps, and how it moves the sums.\<close>

definition same_but_tallies :: "gauge_state \<Rightarrow> gauge_state \<Rightarrow> bool" where
  "same_but_tallies s t \<longleftrightarrow>
     gs_version t = gs_version s \<and> gs_config t = gs_config s \<and> gs_gauges t = gs_gauges s \<and>
     gs_last_id t = gs_last_id s \<and> gs_last_epoch t = gs_last_epoch s \<and>
     gs_vote_history t = gs_vote_history s \<and> gs_votes t = gs_votes s"

lemma same_but_tallies_trans [trans]:
  "same_but_tallies s t \<Longrightarrow> same_but_tallies t u \<Longrightarrow> same_but_tallies s u"
  by (simp add: same_but_tallies_def)

lemma same_but_tallies_refl [simp]: "same_but_tallies s s"
  by (simp add: same_but_tallies_def)

text \<open>The run of the loop, as one fact for the induction.\<close>

definition tally_moved :: "nat \<Rightarrow> nat \<times> nat \<times> gauge_state \<Rightarrow> nat \<times> nat \<times> gauge_state \<Rightarrow> bool" where
  "tally_moved g acc acc' \<longleftrightarrow>
     (case acc of (olds, news, s) \<Rightarrow> case acc' of (olds', news', t) \<Rightarrow>
        same_but_tallies s t \<and> gs_total_cast t = gs_total_cast s \<and>
        (indexed s \<longrightarrow> indexed t \<and> tally_sum t g + olds' + news = tally_sum s g + olds + news' \<and>
           (\<forall>g'. g' \<noteq> g \<longrightarrow> tally_sum t g' = tally_sum s g')))"

lemma tally_moved_refl: "tally_moved g acc acc"
  by (simp add: tally_moved_def split: prod.split)

lemma tally_moved_step:
  assumes "tally_moved g acc0 acc" and "tally_step g u acc = Ok acc'"
  shows "tally_moved g acc0 acc'"
proof -
  obtain opt a b where u: "u = (opt, a, b)" by (cases u) auto
  obtain olds news s olds' news' t where accs: "acc = (olds, news, s)" "acc' = (olds', news', t)"
    by (cases acc, cases acc') auto
  let ?c = "kv_nat (gs_tally s) (g, opt)"
  have t: "t = put_tally s g opt (?c + b - a)" "a \<le> ?c + b" "olds' = olds + a" "news' = news + b"
    using assms(2) by (simp_all add: u accs tally_step_Ok)
  have "tally_sum t g' + (if g' = g then ?c else 0) = tally_sum s g' + (if g' = g then ?c + b - a else 0)"
    if "indexed s" for g'
    using tally_sum_put_tally [OF that, of g opt "?c + b - a" g'] by (simp add: t(1))
  then have "indexed s \<Longrightarrow> tally_sum t g + a = tally_sum s g + b"
    and "indexed s \<Longrightarrow> g' \<noteq> g \<Longrightarrow> tally_sum t g' = tally_sum s g'" for g'
    using t(2) by (fastforce split: if_splits)+
  moreover have "same_but_tallies s t" by (simp add: t(1) same_but_tallies_def)
  moreover have "indexed s \<Longrightarrow> indexed t" by (simp add: t(1) indexed_put_tally)
  ultimately show ?thesis
    using assms(1) t(1)
    by (auto simp: tally_moved_def accs t(3,4) split: prod.splits
        elim: same_but_tallies_trans)
qed

lemma tally_fold:
  assumes "fold_ok (tally_step g) us acc = Ok acc'"
  shows "tally_moved g acc acc'"
  using assms tally_moved_refl
  by (rule fold_ok_invariant) (rule tally_moved_step)

text \<open>The total of a gauge is the sum of its tallies.\<close>

definition tallies_ok :: "gauge_state \<Rightarrow> bool" where
  "tallies_ok s \<longleftrightarrow> indexed s \<and> (\<forall>g. kv_nat (gs_total_cast s) g = tally_sum s g)"

lemma update_tallies_ok:
  assumes "update_tallies s g us = Ok t"
  shows "same_but_tallies s t" and "tallies_ok s \<Longrightarrow> tallies_ok t"
proof -
  obtain olds news u tot where run: "fold_ok (tally_step g) us (0, 0, s) = Ok (olds, news, u)"
    and t: "t = u\<lparr> gs_total_cast := kv_set (gs_total_cast u) g tot \<rparr>"
    and tot: "tot = kv_nat (gs_total_cast u) g + news - olds" "olds \<le> kv_nat (gs_total_cast u) g + news"
    using assms by (auto simp: update_tallies_def outcome_simps arith_simps)
  note moved = tally_fold [OF run, unfolded tally_moved_def prod.case]
  show "same_but_tallies s t" using moved by (simp add: t same_but_tallies_def)
  assume ok: "tallies_ok s"
  have "indexed t" using moved ok by (simp add: t tallies_ok_def indexed_def)
  moreover have "tally_sum t g' = tally_sum u g'" for g' by (simp add: t tally_sum_def)
  ultimately show "tallies_ok t"
    using moved ok tot by (auto simp: tallies_ok_def t)
qed

lemma remove_tally_ok:
  assumes "remove_tally s g opt = Ok t"
  shows "same_but_tallies s t" and "tallies_ok s \<Longrightarrow> tallies_ok t"
    and "gs_tally t = kv_del (gs_tally s) (g, opt)"
proof -
  have sum: "kv_sum f (kv_del (gs_tally s) (g, opt)) + kv_at f (gs_tally s) (g, opt) = kv_sum f (gs_tally s)"
    if "indexed s" for f
    using that by (simp add: indexed_def kv_sum_del)
  show "gs_tally t = kv_del (gs_tally s) (g, opt)" and same: "same_but_tallies s t"
    using assms by (auto simp: remove_tally_def Let_def same_but_tallies_def outcome_simps arith_simps
        split: option.splits)
  assume ok: "tallies_ok s"
  show "tallies_ok t"
  proof (cases "kv_get (gs_tally s) (g, opt)")
    case None
    then have t: "t = s\<lparr> gs_tally := kv_del (gs_tally s) (g, opt) \<rparr>"
      using assms by (simp add: remove_tally_def)
    have "tally_sum t g' = tally_sum s g'" for g'
      using sum [of "\<lambda>k c. if fst k = g' then c else 0"] ok None
      by (simp add: t tally_sum_def kv_at_def tallies_ok_def)
    with ok None show ?thesis by (auto simp: tallies_ok_def indexed_def t)
  next
    case (Some old)
    then have t: "t = s\<lparr> gs_tally := kv_del (gs_tally s) (g, opt),
        gs_total_cast := kv_set (gs_total_cast s) g (kv_nat (gs_total_cast s) g - old),
        gs_points := kv_del (gs_points s) (g, old, opt) \<rparr>" "old \<le> kv_nat (gs_total_cast s) g"
      using assms by (auto simp: remove_tally_def outcome_simps arith_simps)
    have moved: "tally_sum t g' + (if g' = g then old else 0) = tally_sum s g'" for g'
      using sum [of "\<lambda>k c. if fst k = g' then c else 0"] ok Some
      by (auto simp: t tally_sum_def kv_at_def tallies_ok_def)
    have "tally_sum t g + old = tally_sum s g" using moved [of g] by simp
    moreover have "g' \<noteq> g \<Longrightarrow> tally_sum t g' = tally_sum s g'" for g' using moved [of g'] by simp
    moreover have "indexed t" using ok Some by (auto simp: tallies_ok_def indexed_def t)
    ultimately show ?thesis using ok by (auto simp: tallies_ok_def t)
  qed
qed

section \<open>The ranking\<close>

text \<open>
  What the selection needs of the index: it lists the scored options of a gauge, best first.
\<close>

locale ranking =
  fixes score :: "'s \<Rightarrow> 'g \<Rightarrow> 'o::linorder \<Rightarrow> nat option"
    and ranked :: "'s \<Rightarrow> 'g \<Rightarrow> (nat \<times> 'o) list"
    and invar :: "'s \<Rightarrow> bool"
  assumes ranked_set: "invar s \<Longrightarrow> (c, opt) \<in> set (ranked s g) \<longleftrightarrow> score s g opt = Some c"
    and ranked_sorted: "invar s \<Longrightarrow> sorted_wrt (>) (ranked s g)"
begin

lemma ranked_distinct: "invar s \<Longrightarrow> distinct (map snd (ranked s g))"
proof -
  assume inv: "invar s"
  have "distinct (ranked s g)"
    using ranked_sorted [OF inv, of g] sorted_wrt_rev [of "(<)" "ranked s g"]
      strict_sorted_iff [of "rev (ranked s g)"] by simp
  moreover have "inj_on snd (set (ranked s g))"
    using ranked_set [OF inv] by (auto simp: inj_on_def)
  ultimately show ?thesis by (simp add: distinct_map)
qed

text \<open>The first entries of the ranking outrank the rest of those that qualify.\<close>

lemma take_outranks:
  assumes "invar s" "(c, opt) \<in> set (take n (filter ok (ranked s g)))"
    and "score s g opt' = Some c'" "ok (c', opt')" "opt' \<notin> snd ` set (take n (filter ok (ranked s g)))"
  shows "c' \<le> c"
proof -
  let ?xs = "filter ok (ranked s g)"
  have sorted: "sorted_wrt (>) (take n ?xs @ drop n ?xs)"
    using ranked_sorted [OF assms(1)] by (simp add: sorted_wrt_filter)
  have "(c', opt') \<in> set ?xs" using assms ranked_set by simp
  then have "(c', opt') \<in> set (take n ?xs) \<union> set (drop n ?xs)"
    by (simp only: set_append [symmetric] append_take_drop_id)
  moreover have "(c', opt') \<notin> set (take n ?xs)" using assms(5) by force
  ultimately have "(c', opt') \<in> set (drop n ?xs)" by blast
  with assms(2) sorted have "(c', opt') < (c, opt)"
    unfolding sorted_wrt_append by blast
  then show ?thesis by (auto simp: less_prod_def')
qed

end

lemma kv_prefix_in: "((b, v) \<in> set (kv_prefix m a)) \<longleftrightarrow> ((a, b), v) \<in> set m"
  by (force simp: kv_prefix_def)

lemma kv_ok_prefix: "kv_ok m \<Longrightarrow> kv_ok (kv_prefix m a)"
proof -
  assume "kv_ok m"
  then have "sorted_wrt (\<lambda>x y. fst x < fst y) (filter (\<lambda>e. fst (fst e) = a) m)"
    by (simp add: kv_ok_def sorted_wrt_map sorted_wrt_filter)
  then have "sorted_wrt (\<lambda>x y. snd (fst x) < snd (fst y)) (filter (\<lambda>e. fst (fst e) = a) m)"
    by (rule sorted_wrt_mono_rel [rotated]) (auto simp: less_prod_def')
  then show ?thesis by (simp add: kv_ok_def kv_prefix_def sorted_wrt_map)
qed

interpretation gr: ranking "\<lambda>s g opt. kv_get (gs_tally s) (g, opt)" "\<lambda>s g. rev (points_of s g)" indexed
proof
  fix s g c opt
  assume ok: "indexed s"
  have "(c, opt) \<in> set (points_of s g) \<longleftrightarrow> (\<exists>v. ((g, c, opt), v) \<in> set (gs_points s))"
    by (simp add: points_of_def image_iff Bex_def kv_prefix_in)
  also have "\<dots> \<longleftrightarrow> kv_get (gs_tally s) (g, opt) = Some c"
    using ok by (simp add: indexed_def kv_in_set_get)
  finally show "(c, opt) \<in> set (rev (points_of s g)) \<longleftrightarrow> kv_get (gs_tally s) (g, opt) = Some c"
    by simp
  show "sorted_wrt (>) (rev (points_of s g))"
    using ok kv_ok_prefix [of "gs_points s" g]
    by (simp add: indexed_def points_of_def kv_ok_def sorted_wrt_rev)
qed

section \<open>The selection\<close>

text \<open>An option qualifies with its points; the loop takes the first that do.\<close>

definition qualifies :: "gauge \<Rightarrow> nat \<Rightarrow> nat \<times> string \<Rightarrow> bool" where
  "qualifies g total_cast e \<longleftrightarrow> option_selected g total_cast (fst e) = (Ok True :: (gauge_error, bool) outcome)"

lemma select_loop_take:
  fixes sel :: "(string \<times> nat) list"
  assumes "select_loop g total_cast n es = (Ok sel :: (gauge_error, _) outcome)"
  shows "map fst sel = map snd (take n (filter (qualifies g total_cast) es))"
    and "list_all2 (\<lambda>(_, p) (c, _). available_power g total_cast c = (Ok p :: (gauge_error, _) outcome))
           sel (take n (filter (qualifies g total_cast) es))"
proof -
  have "map fst sel = map snd (take n (filter (qualifies g total_cast) es)) \<and>
      list_all2 (\<lambda>(_, p) (c, _). available_power g total_cast c = (Ok p :: (gauge_error, _) outcome))
           sel (take n (filter (qualifies g total_cast) es))"
    using assms
  proof (induction g total_cast n es arbitrary: sel rule: select_loop.induct)
    case (3 g total_cast n c opt es)
    show ?case
    proof (cases "option_selected g total_cast c :: (gauge_error, bool) outcome")
      case (Ok b)
      show ?thesis
      proof (cases b)
        case True
        with "3.prems" Ok obtain p rest where "available_power g total_cast c = (Ok p :: (gauge_error, _) outcome)"
          "select_loop g total_cast n es = (Ok rest :: (gauge_error, _) outcome)" "sel = (opt, p) # rest"
          by (auto simp: outcome_simps)
        with "3.IH"(1) [of True] True Ok show ?thesis by (simp add: qualifies_def)
      next
        case False
        with "3.prems" "3.IH"(2) [of False] Ok show ?thesis by (simp add: qualifies_def)
      qed
    qed (use "3.prems" in simp_all)
  qed simp_all
  then show "map fst sel = map snd (take n (filter (qualifies g total_cast) es))"
    and "list_all2 (\<lambda>(_, p) (c, _). available_power g total_cast c = (Ok p :: (gauge_error, _) outcome))
           sel (take n (filter (qualifies g total_cast) es))" by blast+
qed

section \<open>The shape of the storage\<close>

text \<open>The history of a gauge has one record for each closed epoch.\<close>

definition epochs_ok :: "gauge_state \<Rightarrow> bool" where
  "epochs_ok s \<longleftrightarrow>
     (\<forall>i n. kv_get (gs_vote_history s) (i, n) \<noteq> None \<longleftrightarrow>
        (\<exists>m. kv_get (gs_last_epoch s) i = Some m \<and> n < m)) \<and>
     (\<forall>i. kv_get (gs_last_epoch s) i \<noteq> None \<longleftrightarrow> kv_get (gs_gauges s) i \<noteq> None) \<and>
     (\<forall>i. kv_get (gs_gauges s) i \<noteq> None \<longrightarrow> i < nat_or_0 (gs_last_id s))"

definition votes_ok :: "gauge_state \<Rightarrow> bool" where
  "votes_ok s \<longleftrightarrow> kv_ok (gs_votes s) \<and>
     (\<forall>k v. kv_get (gs_votes s) k = Some v \<longrightarrow> wv_gauge_id v = snd (snd k))"

definition never_reset :: "gauge_state \<Rightarrow> bool" where
  "never_reset s \<longleftrightarrow> (\<forall>i g. kv_get (gs_gauges s) i = Some g \<longrightarrow> g_reset g = None)"

definition gauge_inv :: "gauge_state \<Rightarrow> bool" where
  "gauge_inv s \<longleftrightarrow> tallies_ok s \<and> epochs_ok s \<and> votes_ok s \<and> never_reset s"

lemma same_but_tallies_keeps:
  assumes "same_but_tallies s t"
  shows "epochs_ok t = epochs_ok s" "votes_ok t = votes_ok s" "never_reset t = never_reset s"
  using assms
  by (simp_all add: same_but_tallies_def epochs_ok_def votes_ok_def never_reset_def)

lemma tallies_ok_cong:
  "gs_tally t = gs_tally s \<Longrightarrow> gs_points t = gs_points s \<Longrightarrow> gs_total_cast t = gs_total_cast s
     \<Longrightarrow> tallies_ok t = tallies_ok s"
  by (simp add: tallies_ok_def indexed_def tally_sum_def)

lemma not_resetting [simp]: "g_reset g = None \<Longrightarrow> \<not> is_resetting g"
  by (simp add: is_resetting_def)

lemma not_expired [simp]: "g_reset g = None \<Longrightarrow> \<not> vote_is_expired v g"
  by (simp add: vote_is_expired_def)

text \<open>Changing a stored gauge.\<close>

lemma set_gauge_keeps:
  assumes "gauge_inv s" "kv_get (gs_gauges s) i = Some g" "g_reset g' = g_reset g"
  shows "gauge_inv (s\<lparr> gs_gauges := kv_set (gs_gauges s) i g' \<rparr>)"
  using assms tallies_ok_cong [of "s\<lparr> gs_gauges := kv_set (gs_gauges s) i g' \<rparr>" s]
  by (auto simp: gauge_inv_def epochs_ok_def votes_ok_def never_reset_def)

lemma load_gauge_Ok [outcome_simps]: "load_gauge s i = Ok g \<longleftrightarrow> kv_get (gs_gauges s) i = Some g"
  by (simp add: load_gauge_def outcome_simps)

lemma load_gauge_config_Ok [outcome_simps]: "load_gauge_config s = Ok c \<longleftrightarrow> gs_config s = Some c"
  by (simp add: load_gauge_config_def outcome_simps)

lemma update_tallies_keeps: "update_tallies s g us = Ok t \<Longrightarrow> gauge_inv s \<Longrightarrow> gauge_inv t"
  using update_tallies_ok [of s g us t] same_but_tallies_keeps [of s t] by (simp add: gauge_inv_def)

lemma remove_tally_keeps: "remove_tally s g opt = Ok t \<Longrightarrow> gauge_inv s \<Longrightarrow> gauge_inv t"
  using remove_tally_ok [of s g opt t] same_but_tallies_keeps [of s t] by (simp add: gauge_inv_def)

lemma save_votes_keeps:
  "gauge_inv s \<Longrightarrow> wv_gauge_id v = i \<Longrightarrow> gauge_inv (save_votes s voter i v)"
  using tallies_ok_cong [of "save_votes s voter i v" s]
  by (auto simp: gauge_inv_def epochs_ok_def votes_ok_def never_reset_def save_votes_def vote_key_def)

lemma remove_votes_keeps: "gauge_inv s \<Longrightarrow> gauge_inv (remove_votes s voter i)"
  using tallies_ok_cong [of "remove_votes s voter i" s]
  by (auto simp: gauge_inv_def epochs_ok_def votes_ok_def never_reset_def remove_votes_def)

text \<open>Closing an epoch.\<close>

lemma update_epoch_Ok:
  "update_epoch s g i next_ep vs ex = Ok (t, g') \<longleftrightarrow>
     (\<exists>n. kv_get (gs_last_epoch s) i = Some n \<and> n + 1 < u128_lim \<and> g' = g\<lparr> g_next_epoch := next_ep \<rparr> \<and>
        t = s\<lparr> gs_vote_history := kv_set (gs_vote_history s) (i, n)
                 \<lparr> vh_epoch = g_epoch g, vh_next_epoch = g_next_epoch g, vh_votes = vs, vh_executed = ex \<rparr>,
               gs_last_epoch := kv_set (gs_last_epoch s) i (n + 1),
               gs_gauges := kv_set (gs_gauges s) i g' \<rparr>)"
  by (auto simp: update_epoch_def Let_def split: option.split)

lemma update_epoch_keeps:
  assumes "update_epoch s g i next_ep vs ex = Ok (t, g')"
    and inv: "gauge_inv s" and g: "kv_get (gs_gauges s) i = Some g0" "g_reset g = None"
  shows "gauge_inv t" and "g_reset g' = None" and "kv_get (gs_gauges t) i = Some g'"
proof -
  obtain n where n: "kv_get (gs_last_epoch s) i = Some n" "g' = g\<lparr> g_next_epoch := next_ep \<rparr>"
    and t: "t = s\<lparr> gs_vote_history := kv_set (gs_vote_history s) (i, n)
                 \<lparr> vh_epoch = g_epoch g, vh_next_epoch = g_next_epoch g, vh_votes = vs, vh_executed = ex \<rparr>,
               gs_last_epoch := kv_set (gs_last_epoch s) i (n + 1),
               gs_gauges := kv_set (gs_gauges s) i g' \<rparr>"
    using assms(1) by (auto simp: update_epoch_Ok)
  have "epochs_ok t"
    using inv n g(1) by (auto simp: gauge_inv_def epochs_ok_def t)
  moreover have "tallies_ok t" using inv tallies_ok_cong [of t s] by (simp add: gauge_inv_def t)
  moreover have "votes_ok t" "never_reset t"
    using inv g n(2) by (auto simp: gauge_inv_def votes_ok_def never_reset_def t)
  ultimately show "gauge_inv t" by (simp add: gauge_inv_def)
  show "g_reset g' = None" using n(2) g(2) by simp
  show "kv_get (gs_gauges t) i = Some g'" by (simp add: t)
qed

end
