(* ===== verification/Gauge_Invariant.thy ===== *)
theory Gauge_Invariant
  imports Gauge_Proofs
begin

text \<open>
  What each handler of the gauge does when it succeeds, the reachable states, and the invariant
  they satisfy.
\<close>

section \<open>Handlers\<close>

lemma add_option_Ok:
  "add_option H s who g opt check = Ok t \<Longrightarrow>
     kv_get (gs_tally s) (g, opt) = None \<and> update_tallies s g [(opt, 0, 0)] = Ok t"
  by (auto simp: add_option_def update_tally_def outcome_simps)

text \<open>A zero update of a missing option adds a zero tally; the total becomes defined.\<close>

lemma zero_update:
  "update_tallies s g [(opt, 0, 0)] = Ok t \<Longrightarrow>
     gs_tally t = kv_set (gs_tally s) (g, opt) (kv_nat (gs_tally s) (g, opt)) \<and> same_but_tallies s t"
  using update_tallies_ok(1) [of s g "[(opt, 0, 0)]" t]
  by (auto simp: update_tallies_def outcome_simps arith_simps tally_step_Ok)

lemma add_options_Ok:
  assumes "fold_ok (\<lambda>opt t. add_option H t who i opt False) opts s = Ok t"
  shows "same_but_tallies s t" and "tallies_ok s \<Longrightarrow> tallies_ok t"
    and "kv_nat (gs_tally t) k = kv_nat (gs_tally s) k"
proof -
  have "same_but_tallies s t \<and> (tallies_ok s \<longrightarrow> tallies_ok t) \<and>
      (\<forall>k. kv_nat (gs_tally t) k = kv_nat (gs_tally s) k)"
    using assms
  proof (rule fold_ok_invariant)
    fix opt u u'
    assume inv: "same_but_tallies s u \<and> (tallies_ok s \<longrightarrow> tallies_ok u) \<and>
      (\<forall>k. kv_nat (gs_tally u) k = kv_nat (gs_tally s) k)"
      and "add_option H u who i opt False = Ok u'"
    then have upd: "update_tallies u i [(opt, 0, 0)] = Ok u'" by (simp add: add_option_Ok)
    show "same_but_tallies s u' \<and> (tallies_ok s \<longrightarrow> tallies_ok u') \<and>
      (\<forall>k. kv_nat (gs_tally u') k = kv_nat (gs_tally s) k)"
      using inv update_tallies_ok [OF upd] zero_update [OF upd]
      by (auto elim: same_but_tallies_trans)
  qed simp
  then show "same_but_tallies s t" and "tallies_ok s \<Longrightarrow> tallies_ok t"
    and "kv_nat (gs_tally t) k = kv_nat (gs_tally s) k" by blast+
qed

text \<open>Attaching a gauge: a fresh identifier, a gauge without a reset, zero tallies.\<close>

lemma attach_gauge_cases:
  assumes "attach_gauge P H s params = Ok (t, adapter)"
  obtains u g i opts where
    "i = nat_or_0 (gs_last_id s)" "g_reset g = None" "\<not> g_is_stopped g"
    "fold_ok (\<lambda>opt t. add_option H t adapter i opt False) opts
       (s\<lparr> gs_last_id := Some (i + 1), gs_gauges := kv_set (gs_gauges s) i g \<rparr>) = Ok u"
    "t = u\<lparr> gs_last_epoch := kv_set (gs_last_epoch u) i 0 \<rparr>"
proof -
  obtain config where config: "gs_config s = Some config"
    using assms by (auto simp: attach_gauge_def outcome_simps)
  obtain w where w: "wynd_gauge H (wynd_gauge_addr config) (gp_wynd_gauge_id params) = Some w"
    using assms by (cases "wynd_gauge H (wynd_gauge_addr config) (gp_wynd_gauge_id params)")
      (simp_all add: attach_gauge_def load_gauge_config_def config)
  let ?g = "\<lparr> g_title = gp_title params, g_adapter = adapter, g_epoch = gr_epoch_size w,
      g_min_percent_selected = gr_min_percent_selected w,
      g_max_options_selected = gr_max_options_selected w,
      g_max_available_percentage = gr_max_available_percentage w, g_is_stopped = False,
      g_next_epoch = gr_next_epoch w, g_last_executed_set = None, g_reset = None,
      g_epoch_pending_size = gp_epoch_pending_size params, g_wynd_gauge_id = gp_wynd_gauge_id params \<rparr>"
  obtain i s1 opts u where id: "fetch_last_id s = Ok (i, s1)"
    and run: "fold_ok (\<lambda>opt t. add_option H t adapter i opt False) opts
      (s1\<lparr> gs_gauges := kv_set (gs_gauges s1) i ?g \<rparr>) = Ok u"
    and t: "t = u\<lparr> gs_last_epoch := kv_set (gs_last_epoch u) i 0 \<rparr>"
    using assms by (auto simp: attach_gauge_def load_gauge_config_def config w Let_def outcome_simps)
  have "i = nat_or_0 (gs_last_id s)" "s1 = s\<lparr> gs_last_id := Some (i + 1) \<rparr>"
    using id by (auto simp: fetch_last_id_def nat_or_0_def Let_def outcome_simps arith_simps split: option.splits)
  with run t show thesis by (intro that) simp_all
qed

lemma attach_gauge_keeps:
  assumes "attach_gauge P H s params = Ok (t, adapter)" and inv: "gauge_inv s"
  shows "gauge_inv t"
  using assms(1)
proof (cases rule: attach_gauge_cases)
  case (1 u g i opts)
  let ?s = "s\<lparr> gs_last_id := Some (i + 1), gs_gauges := kv_set (gs_gauges s) i g \<rparr>"
  note added = add_options_Ok [OF 1(4)]
  have eps: "epochs_ok s" using inv by (simp add: gauge_inv_def)
  then have fresh: "kv_get (gs_gauges s) i = None"
    using 1(1) unfolding epochs_ok_def by (metis less_irrefl)
  then have fresh': "kv_get (gs_last_epoch s) i = None"
    using eps unfolding epochs_ok_def by (metis option.exhaust)
  then have fresh'': "kv_get (gs_vote_history s) (i, n) = None" for n
    using eps unfolding epochs_ok_def by (metis option.distinct(1))
  have "tallies_ok ?s" using inv tallies_ok_cong [of ?s s] by (simp add: gauge_inv_def)
  then have "tallies_ok t" using added(2) tallies_ok_cong [of t u] 1(5) by simp
  moreover have "epochs_ok t"
    using inv added(1) fresh fresh' fresh'' 1(1)
    by (auto simp: gauge_inv_def epochs_ok_def 1(5) same_but_tallies_def nat_or_0_def less_Suc_eq
        split: option.splits)
  moreover have "votes_ok t" "never_reset t"
    using inv added(1) 1(2)
    by (auto simp: gauge_inv_def votes_ok_def never_reset_def 1(5) same_but_tallies_def)
  ultimately show ?thesis by (simp add: gauge_inv_def)
qed

text \<open>The owner's settings change one stored gauge, never its reset or its epochs.\<close>

lemma when_some_Ok [outcome_simps]:
  "when_some x f s = Ok t \<longleftrightarrow> (case x of None \<Rightarrow> t = s | Some v \<Rightarrow> f v s = Ok t)"
  by (auto simp: when_some_def split: option.split)

definition retuned :: "gauge \<Rightarrow> gauge \<Rightarrow> bool" where
  "retuned g g' \<longleftrightarrow> g_reset g' = g_reset g \<and> g_next_epoch g' = g_next_epoch g \<and>
     g_adapter g' = g_adapter g \<and> g_wynd_gauge_id g' = g_wynd_gauge_id g"

lemma retuned_trans [trans]: "retuned g g' \<Longrightarrow> retuned g' g'' \<Longrightarrow> retuned g g''"
  by (simp add: retuned_def)

lemma retuned_fields [simp]:
  "retuned g g" "retuned g (g\<lparr> g_epoch := a \<rparr>)" "retuned g (g\<lparr> g_epoch_pending_size := a \<rparr>)"
  "retuned g (g\<lparr> g_min_percent_selected := b \<rparr>)" "retuned g (g\<lparr> g_max_options_selected := a \<rparr>)"
  "retuned g (g\<lparr> g_max_available_percentage := b \<rparr>)" "retuned g (g\<lparr> g_is_stopped := c \<rparr>)"
  by (simp_all add: retuned_def)

lemma when_some_retuned:
  assumes "when_some x f g = Ok g'" and "\<And>v h h'. f v h = Ok h' \<Longrightarrow> retuned h h'"
  shows "retuned g g'"
  using assms by (auto simp: when_some_Ok split: option.splits)

lemma update_gauge_Ok:
  assumes "update_gauge s who i ep pe mi mo ma = Ok t"
  shows "\<exists>c g g'. gs_config s = Some c \<and> who = gauge_owner c \<and> kv_get (gs_gauges s) i = Some g \<and>
    retuned g g' \<and> t = s\<lparr> gs_gauges := kv_set (gs_gauges s) i g' \<rparr>"
proof -
  obtain c g g1 g2 g3 g4 g5 where "gs_config s = Some c" "who = gauge_owner c"
    "kv_get (gs_gauges s) i = Some g"
    and 1: "when_some ep (\<lambda>n g. and_then (ensure (n > 60) Epoch_size_too_short) (\<lambda>_.
              Ok (g\<lparr> g_epoch := n \<rparr>))) g = Ok g1"
    and 2: "when_some pe (\<lambda>n g. and_then (ensure (n > 60) Epoch_size_too_short) (\<lambda>_.
              Ok (g\<lparr> g_epoch_pending_size := n \<rparr>))) g1 = Ok g2"
    and 3: "when_some mi set_min_percent g2 = Ok g3"
    and 4: "when_some mo (\<lambda>n g. and_then (ensure (n > 0) Max_options_selected_too_small) (\<lambda>_.
              Ok (g\<lparr> g_max_options_selected := n \<rparr>))) g3 = Ok g4"
    and 5: "when_some ma set_max_available g4 = Ok g5"
    and "t = s\<lparr> gs_gauges := kv_set (gs_gauges s) i g5 \<rparr>"
    using assms unfolding update_gauge_def and_then_Ok_iff load_gauge_Ok load_gauge_config_Ok guard_Ok_iff
    by blast
  moreover have "retuned g g1" using 1 by (rule when_some_retuned) (auto simp: outcome_simps)
  moreover have "retuned g1 g2" using 2 by (rule when_some_retuned) (auto simp: outcome_simps)
  moreover have "retuned g2 g3"
    using 3 by (rule when_some_retuned) (auto simp: set_min_percent_def outcome_simps split: if_splits)
  moreover have "retuned g3 g4" using 4 by (rule when_some_retuned) (auto simp: outcome_simps)
  moreover have "retuned g4 g5"
    using 5 by (rule when_some_retuned) (auto simp: set_max_available_def outcome_simps split: if_splits)
  ultimately show ?thesis
    by (intro exI [of _ c] exI [of _ g] exI [of _ g5]) (simp add: retuned_def)
qed

lemma stop_gauge_Ok:
  assumes "stop_gauge s who i = Ok t"
  shows "\<exists>c g g'. gs_config s = Some c \<and> who = gauge_owner c \<and> kv_get (gs_gauges s) i = Some g \<and>
    retuned g g' \<and> t = s\<lparr> gs_gauges := kv_set (gs_gauges s) i g' \<rparr>"
proof -
  obtain c g where "gs_config s = Some c" "who = gauge_owner c" "kv_get (gs_gauges s) i = Some g"
    "t = s\<lparr> gs_gauges := kv_set (gs_gauges s) i (g\<lparr> g_is_stopped := True \<rparr>) \<rparr>"
    using assms by (auto simp: stop_gauge_def outcome_simps)
  then show ?thesis by (intro exI [of _ c] exI [of _ g] exI [of _ "g\<lparr> g_is_stopped := True \<rparr>"]) simp
qed

lemma remove_option_Ok:
  "remove_option s who g opt = Ok t \<Longrightarrow>
     kv_get (gs_tally s) (g, opt) \<noteq> None \<and> remove_tally s g opt = Ok t \<and>
     (\<exists>c. gs_config s = Some c \<and> who = gauge_owner c)"
  by (auto simp: remove_option_def outcome_simps)

text \<open>The hook: every recorded vote of a member is moved to the new power.\<close>

lemma member_vote_Ok:
  assumes "member_vote d voter v s = Ok t"
  obtains (expired) g where "kv_get (gs_gauges s) (wv_gauge_id v) = Some g" "vote_is_expired v g" "t = s"
  | (moved) us u where "power_updates (nat_or_0 (md_old d)) (nat_or_0 (md_new d)) (wv_votes v) = Ok us"
      "update_tallies s (wv_gauge_id v) us = Ok u"
      "t = save_votes u voter (wv_gauge_id v) (v\<lparr> wv_power := nat_or_0 (md_new d) \<rparr>)"
  using assms by (auto simp: member_vote_def outcome_simps split: option.splits if_splits)

lemma member_vote_keeps: "member_vote d voter v s = Ok t \<Longrightarrow> gauge_inv s \<Longrightarrow> gauge_inv t"
  by (erule member_vote_Ok) (auto intro!: save_votes_keeps elim: update_tallies_keeps)

lemma member_changed_Ok:
  "member_changed P s who ds = Ok t \<Longrightarrow>
     fold_ok (\<lambda>d t. and_then (map_err G_std (addr_validate P (md_key d))) (\<lambda>voter.
       fold_ok (member_vote d voter) (query_votes_by_voter t voter None (Some 100)) t)) ds s = Ok t"
  by (auto simp: member_changed_def outcome_simps)

lemma member_changed_keeps:
  assumes "member_changed P s who ds = Ok t" and "gauge_inv s"
  shows "gauge_inv t"
  using member_changed_Ok [OF assms(1)] assms(2)
proof (rule fold_ok_invariant)
  fix d u u'
  assume u: "gauge_inv u"
    and "and_then (map_err G_std (addr_validate P (md_key d)))
      (\<lambda>voter. fold_ok (member_vote d voter) (query_votes_by_voter u voter None (Some 100)) u) = Ok u'"
  then obtain voter where
    "fold_ok (member_vote d voter) (query_votes_by_voter u voter None (Some 100)) u = Ok u'"
    by (auto simp: outcome_simps)
  from this u show "gauge_inv u'"
    by (rule fold_ok_invariant) (rule member_vote_keeps)
qed

text \<open>Entering \<open>place_votes\<close>: the gauge as it is, or with the epoch closed that nobody executed.\<close>

lemma enter_epoch_Ok:
  assumes "enter_epoch H s e config i g = Ok (t, g')"
  obtains w where "wynd_gauge H (wynd_gauge_addr config) (g_wynd_gauge_id g) = Some w"
    "is_pending g (seconds (block e)) w = (Ok False :: (gauge_error, bool) outcome)"
    "t = s \<and> g' = g \<or>
     (\<exists>sel vs. selected_set s i = Ok sel \<and> selected_shares sel = Ok vs \<and>
        update_epoch s g i (gr_next_epoch w) vs False = Ok (t, g'))"
  using assms
  by (auto simp: enter_epoch_def outcome_simps split: option.splits if_splits)

lemma enter_epoch_keeps:
  assumes "enter_epoch H s e config i g = Ok (t, g')" "gauge_inv s" "kv_get (gs_gauges s) i = Some g"
  shows "gauge_inv t" "g_reset g' = None" "kv_get (gs_gauges t) i = Some g'"
    and "gs_votes t = gs_votes s" "gs_tally t = gs_tally s" "gs_config t = gs_config s"
proof -
  have reset: "g_reset g = None" using assms(2,3) by (auto simp: gauge_inv_def never_reset_def)
  have "t = s \<and> g' = g \<or> (\<exists>n vs. update_epoch s g i n vs False = Ok (t, g'))"
    by (rule enter_epoch_Ok [OF assms(1)]) blast
  then have "gauge_inv t \<and> g_reset g' = None \<and> kv_get (gs_gauges t) i = Some g' \<and>
    gs_votes t = gs_votes s \<and> gs_tally t = gs_tally s \<and> gs_config t = gs_config s"
  proof (elim disjE exE conjE)
    fix n vs
    assume upd: "update_epoch s g i n vs False = Ok (t, g')"
    from update_epoch_keeps [OF upd assms(2,3) reset] upd show ?thesis by (auto simp: update_epoch_Ok)
  qed (use assms reset in simp)
  then show "gauge_inv t" "g_reset g' = None" "kv_get (gs_gauges t) i = Some g'"
    and "gs_votes t = gs_votes s" "gs_tally t = gs_tally s" "gs_config t = gs_config s" by blast+
qed

text \<open>A successful \<open>place_votes\<close>, step by step.\<close>

definition vote_changes ::
  "gauge_host \<Rightarrow> weighted_votes \<Rightarrow> nat \<Rightarrow> gauge_vote list \<Rightarrow> (string \<times> nat \<times> nat) list \<Rightarrow> bool"
where
  "vote_changes H prev pw vs ds \<longleftrightarrow>
     (\<exists>m m'. diff_old (wv_power prev) (wv_votes prev) [] = Ok m \<and> diff_new pw vs m = Ok m' \<and>
        ds = hash_order H m')"

lemma place_votes_cases:
  assumes "place_votes H s0 e who i new_votes = Ok t"
  obtains g0 config s g vs pw prev ds s' where
    "kv_get (gs_gauges s0) i = Some g0" "gs_config s0 = Some config"
    "enter_epoch H s0 e config i g0 = Ok (s, g)" "\<not> is_resetting g"
    "vs = (case new_votes of None \<Rightarrow> [] | Some vs \<Rightarrow> vs)"
    "gauge_voting_power H who (voting_powers config) = Ok pw" "pw \<noteq> 0"
    "prev = (case may_load_votes s who i of
               Some v \<Rightarrow> if vote_is_expired v g then weighted_votes_default else v
             | None \<Rightarrow> weighted_votes_default)"
    "vote_changes H prev pw vs ds" "check_new_options s i ds = Ok ()"
    "update_tallies s i ds = Ok s'"
    "t = (if vs = [] then remove_votes s' who i else set_votes s' e who i vs pw)"
proof -
  let ?vs = "case new_votes of None \<Rightarrow> [] | Some vs \<Rightarrow> vs"
  obtain g0 config s g where 1: "kv_get (gs_gauges s0) i = Some g0" "gs_config s0 = Some config"
    "enter_epoch H s0 e config i g0 = Ok (s, g)" "\<not> is_resetting g"
    using assms by (auto simp: place_votes_def outcome_simps)
  let ?prevo = "case may_load_votes s who i of
                       Some v \<Rightarrow> if vote_is_expired v g then None else Some v
                     | None \<Rightarrow> None"
  let ?prev = "case ?prevo of Some v \<Rightarrow> v | None \<Rightarrow> weighted_votes_default"
  obtain pw m m' s' where 2: "gauge_voting_power H who (voting_powers config) = Ok pw" "pw \<noteq> 0"
    and 3: "diff_old (wv_power ?prev) (wv_votes ?prev) [] = Ok m" "diff_new pw ?vs m = Ok m'"
    and 4: "check_new_options s i (hash_order H m') = Ok ()" "update_tallies s i (hash_order H m') = Ok s'"
      "t = (if ?vs = [] then remove_votes s' who i else set_votes s' e who i ?vs pw)"
    using assms 1(4)
    by (auto simp: place_votes_def load_gauge_config_def 1(1-3) Let_def outcome_simps)
  have "?prev = (case may_load_votes s who i of
               Some v \<Rightarrow> if vote_is_expired v g then weighted_votes_default else v
             | None \<Rightarrow> weighted_votes_default)"
    by (simp split: option.split)
  with 1 2 3 4 show thesis
    by (intro that [OF 1 refl 2 refl _ 4]) (auto simp: vote_changes_def)
qed

lemma set_votes_keeps: "gauge_inv s \<Longrightarrow> gauge_inv (set_votes s e voter i vs pw)"
  by (simp add: set_votes_def save_votes_keeps)

lemma place_votes_keeps:
  assumes "place_votes H s e who i vs = Ok t" "gauge_inv s"
  shows "gauge_inv t" "gs_config t = gs_config s"
  using assms(1)
proof (atomize (full), cases rule: place_votes_cases)
  case (1 g0 config s1 g vs pw prev ds s2)
  note entered = enter_epoch_keeps [OF 1(3) assms(2) 1(1)]
  have "gauge_inv s2" using update_tallies_keeps [OF 1(11) entered(1)] .
  moreover have "gs_config s2 = gs_config s"
    using update_tallies_ok(1) [OF 1(11)] entered(6) by (simp add: same_but_tallies_def)
  ultimately show "gauge_inv t \<and> gs_config t = gs_config s"
    by (simp add: 1(12) set_votes_keeps remove_votes_keeps)
      (simp add: set_votes_def save_votes_def remove_votes_def)
qed

lemma execute_gauge_cases:
  assumes "execute_gauge H s e i = Ok (t, out)"
  obtains g config w sel vs g' where
    "kv_get (gs_gauges s) i = Some g" "gs_config s = Some config" "\<not> g_is_stopped g"
    "wynd_gauge H (wynd_gauge_addr config) (g_wynd_gauge_id g) = Some w"
    "is_pending g (seconds (block e)) w = (Ok True :: (gauge_error, bool) outcome)"
    "selected_set s i = Ok sel" "selected_shares sel = Ok vs"
    "update_epoch (s\<lparr> gs_gauges := kv_set (gs_gauges s) i (g\<lparr> g_last_executed_set := Some sel \<rparr>) \<rparr>)
       (g\<lparr> g_last_executed_set := Some sel \<rparr>) i (gr_next_epoch w) vs True = Ok (t, g')"
    "out = [\<lparr> pv_contract = wynd_staker config, pv_gauge = g_wynd_gauge_id g, pv_votes = Some vs \<rparr>]"
proof -
  obtain g config where 1: "kv_get (gs_gauges s) i = Some g" "gs_config s = Some config" "\<not> g_is_stopped g"
    using assms by (auto simp: execute_gauge_def outcome_simps)
  obtain w where 2: "wynd_gauge H (wynd_gauge_addr config) (g_wynd_gauge_id g) = Some w"
    using assms 1 by (cases "wynd_gauge H (wynd_gauge_addr config) (g_wynd_gauge_id g)")
      (simp_all add: execute_gauge_def load_gauge_def load_gauge_config_def)
  from assms 1 2 show thesis
    by (auto simp: execute_gauge_def load_gauge_def load_gauge_config_def Let_def outcome_simps
        intro: that)
qed

lemma execute_gauge_keeps:
  assumes "execute_gauge H s e i = Ok (t, out)" "gauge_inv s"
  shows "gauge_inv t" "gs_config t = gs_config s"
  using assms(1)
proof (atomize (full), cases rule: execute_gauge_cases)
  case (1 g config w sel vs g')
  let ?g = "g\<lparr> g_last_executed_set := Some sel \<rparr>" and ?s = "s\<lparr> gs_gauges := kv_set (gs_gauges s) i (g\<lparr> g_last_executed_set := Some sel \<rparr>) \<rparr>"
  have "gauge_inv ?s" using set_gauge_keeps [OF assms(2) 1(1), of ?g] by simp
  moreover have "g_reset ?g = None" using assms(2) 1(1) by (simp add: gauge_inv_def never_reset_def)
  ultimately show "gauge_inv t \<and> gs_config t = gs_config s"
    using update_epoch_keeps(1) [OF 1(8), of ?g] 1(8) by (auto simp: update_epoch_Ok)
qed

section \<open>Reachable states\<close>

text \<open>
  A gauge contract from its instantiation on.  The other contracts may answer differently at
  every step.
\<close>

inductive gauge_reachable :: "platform \<Rightarrow> gauge_state \<Rightarrow> bool" for P where
  started: "gauge_instantiate P H info msg = Ok s \<Longrightarrow> gauge_reachable P s"
| stepped: "gauge_reachable P s \<Longrightarrow> gauge_execute P H s e info msg = Ok (t, out) \<Longrightarrow> gauge_reachable P t"

inductive_cases gauge_reachable_cases: "gauge_reachable P s"

lemma gauge_empty_inv: "gauge_inv (gauge_empty\<lparr> gs_version := v, gs_config := c \<rparr>)"
  by (simp add: gauge_inv_def gauge_empty_def tallies_ok_def indexed_def tally_sum_def epochs_ok_def
      votes_ok_def never_reset_def)

lemma silent_Ok [outcome_simps]: "silent r = Ok (t, out) \<longleftrightarrow> r = Ok t \<and> out = []"
  by (auto simp: silent_def outcome_simps)

lemma gauge_instantiate_inv: "gauge_instantiate P H info msg = Ok s \<Longrightarrow> gauge_inv s"
proof -
  assume "gauge_instantiate P H info msg = Ok s"
  then obtain v c ps where
    "fold_ok (\<lambda>params t. and_then (attach_gauge P H t params) (\<lambda>(t', _). Ok t')) ps
       (gauge_empty\<lparr> gs_version := v, gs_config := c \<rparr>) = Ok s"
    by (auto simp: gauge_instantiate_def Let_def outcome_simps)
  then show "gauge_inv s" using gauge_empty_inv
    by (rule fold_ok_invariant) (auto simp: outcome_simps intro: attach_gauge_keeps)
qed

lemma gauge_execute_inv:
  assumes "gauge_execute P H s e info msg = Ok (t, out)" "gauge_inv s"
  shows "gauge_inv t"
proof (cases msg)
  case (Member_changed_hook ds)
  with assms show ?thesis by (auto simp: outcome_simps intro: member_changed_keeps)
next
  case (Create_gauge params)
  with assms show ?thesis by (auto simp: outcome_simps create_gauge_def intro: attach_gauge_keeps)
next
  case (Update_gauge i ep pe mi mo ma)
  with assms have "update_gauge s (sender info) i ep pe mi mo ma = Ok t" by (simp add: outcome_simps)
  from update_gauge_Ok [OF this] assms(2) show ?thesis
    by (auto simp: retuned_def intro: set_gauge_keeps)
next
  case (Stop_gauge i)
  with assms have "stop_gauge s (sender info) i = Ok t" by (simp add: outcome_simps)
  from stop_gauge_Ok [OF this] assms(2) show ?thesis
    by (auto simp: retuned_def intro: set_gauge_keeps)
next
  case (Add_option i opt)
  with assms have "add_option H s (sender info) i opt False = Ok t" by (simp add: outcome_simps)
  from add_option_Ok [OF this] assms(2) show ?thesis by (blast intro: update_tallies_keeps)
next
  case (Remove_option i opt)
  with assms have "remove_option s (sender info) i opt = Ok t" by (simp add: outcome_simps)
  from remove_option_Ok [OF this] assms(2) show ?thesis by (blast intro: remove_tally_keeps)
next
  case (Place_votes i vs)
  with assms show ?thesis by (auto simp: outcome_simps intro: place_votes_keeps)
next
  case (Execute_gauge i)
  with assms show ?thesis by (auto intro: execute_gauge_keeps)
qed

theorem gauge_reachable_inv: "gauge_reachable P s \<Longrightarrow> gauge_inv s"
  by (induction rule: gauge_reachable.induct) (auto intro: gauge_instantiate_inv gauge_execute_inv)

end
