(* ===== verification/Gauge_Votes.thy ===== *)
theory Gauge_Votes
  imports Gauge_Invariant "HOL-Library.Multiset"
begin

text \<open>
  The tallies against the votes: in a run in which options are named once per vote, only
  options without points are removed, and the membership hook reports the power the votes were
  cast with, the tally of an option is the sum of what the recorded votes give to it.
\<close>

section \<open>What a vote gives to an option\<close>

definition vote_points :: "nat \<Rightarrow> gauge_vote list \<Rightarrow> string \<Rightarrow> nat" where
  "vote_points pw vs opt =
     sum_list (map (\<lambda>v. if vote_option v = opt then pw * vote_weight v div decimal_one else 0) vs)"

definition votes_for :: "gauge_state \<Rightarrow> nat \<Rightarrow> string \<Rightarrow> nat" where
  "votes_for s g opt =
     kv_sum (\<lambda>k v. if snd (snd k) = g then vote_points (wv_power v) (wv_votes v) opt else 0) (gs_votes s)"

definition names_once :: "gauge_vote list \<Rightarrow> bool" where
  "names_once vs \<longleftrightarrow> distinct (map vote_option vs)"

lemma vote_points_Nil [simp]: "vote_points pw [] opt = 0"
  by (simp add: vote_points_def)

lemma vote_points_Cons [simp]:
  "vote_points pw (v # vs) opt =
     (if vote_option v = opt then pw * vote_weight v div decimal_one else 0) + vote_points pw vs opt"
  by (simp add: vote_points_def)

lemma vote_points_absent: "opt \<notin> vote_option ` set vs \<Longrightarrow> vote_points pw vs opt = 0"
  by (induction vs) auto

section \<open>What the updates add up to\<close>

definition olds_of :: "(string \<times> nat \<times> nat) list \<Rightarrow> string \<Rightarrow> nat" where
  "olds_of ds opt = sum_list (map (\<lambda>(o', a, b). if o' = opt then a else 0) ds)"

definition news_of :: "(string \<times> nat \<times> nat) list \<Rightarrow> string \<Rightarrow> nat" where
  "news_of ds opt = sum_list (map (\<lambda>(o', a, b). if o' = opt then b else 0) ds)"

lemma updates_Nil [simp]: "olds_of [] opt = 0" "news_of [] opt = 0"
  by (simp_all add: olds_of_def news_of_def)

lemma updates_Cons [simp]:
  "olds_of ((o', a, b) # ds) opt = (if o' = opt then a else 0) + olds_of ds opt"
  "news_of ((o', a, b) # ds) opt = (if o' = opt then b else 0) + news_of ds opt"
  by (simp_all add: olds_of_def news_of_def)

lemma updates_perm:
  assumes "mset ds = mset ds'"
  shows "olds_of ds opt = olds_of ds' opt" "news_of ds opt = news_of ds' opt"
proof -
  have "sum_list (map f ds) = sum_list (map f ds')" for f :: "_ \<Rightarrow> nat"
    using assms by (metis mset_map sum_mset_sum_list)
  then show "olds_of ds opt = olds_of ds' opt" "news_of ds opt = news_of ds' opt"
    by (simp_all add: olds_of_def news_of_def)
qed

lemma tally_fold_counts:
  assumes "fold_ok (tally_step g) ds (olds, news, s) = Ok (olds', news', t)"
  shows "kv_nat (gs_tally t) (g', opt) + (if g' = g then olds_of ds opt else 0)
    = kv_nat (gs_tally s) (g', opt) + (if g' = g then news_of ds opt else 0)"
  using assms
proof (induction ds arbitrary: olds news s)
  case (Cons d ds)
  obtain o' a b where d: "d = (o', a, b)" by (cases d) auto
  from Cons.prems obtain olds1 news1 s1 where
    step: "tally_step g d (olds, news, s) = Ok (olds1, news1, s1)"
    and rest: "fold_ok (tally_step g) ds (olds1, news1, s1) = Ok (olds', news', t)"
    by (auto simp: outcome_simps)
  from step have "s1 = put_tally s g o' (kv_nat (gs_tally s) (g, o') + b - a)"
    and "a \<le> kv_nat (gs_tally s) (g, o') + b"
    by (simp_all add: d tally_step_Ok)
  then have "kv_nat (gs_tally s1) (g', opt) + (if g' = g \<and> o' = opt then a else 0)
    = kv_nat (gs_tally s) (g', opt) + (if g' = g \<and> o' = opt then b else 0)" by auto
  with Cons.IH [OF rest] show ?case by (auto simp: d split: if_splits)
qed simp

lemma update_tallies_counts:
  assumes "update_tallies s g ds = Ok t"
  shows "kv_nat (gs_tally t) (g', opt) + (if g' = g then olds_of ds opt else 0)
    = kv_nat (gs_tally s) (g', opt) + (if g' = g then news_of ds opt else 0)"
proof -
  obtain olds news u tot where "fold_ok (tally_step g) ds (0, 0, s) = Ok (olds, news, u)"
    "t = u\<lparr> gs_total_cast := tot \<rparr>"
    using assms by (auto simp: update_tallies_def outcome_simps)
  then show ?thesis using tally_fold_counts [of g ds 0 0 s olds news u g' opt] by simp
qed

text \<open>A sorted map holds each option once.\<close>

lemma updates_kv:
  assumes "kv_ok m"
  shows "olds_of m opt = (case kv_get m opt of Some (a, b) \<Rightarrow> a | None \<Rightarrow> 0)"
    and "news_of m opt = (case kv_get m opt of Some (a, b) \<Rightarrow> b | None \<Rightarrow> 0)"
proof -
  have "olds_of m opt = (case kv_get m opt of Some (a, b) \<Rightarrow> a | None \<Rightarrow> 0) \<and>
    news_of m opt = (case kv_get m opt of Some (a, b) \<Rightarrow> b | None \<Rightarrow> 0)"
    using assms
  proof (induction m)
    case (Cons e m)
    obtain o' a b where e: "e = (o', a, b)" by (cases e) auto
    have "kv_get m o' = None" using Cons.prems by (auto simp: e kv_ok_Cons kv_get_None_iff)
    with Cons show ?case by (auto simp: e kv_ok_Cons)
  qed simp
  then show "olds_of m opt = (case kv_get m opt of Some (a, b) \<Rightarrow> a | None \<Rightarrow> 0)"
    and "news_of m opt = (case kv_get m opt of Some (a, b) \<Rightarrow> b | None \<Rightarrow> 0)" by blast+
qed

lemma diff_old_get:
  assumes "diff_old pw vs m = Ok m'" "names_once vs" "kv_ok m"
  shows "kv_ok m'" and "kv_get m' opt =
    (if opt \<in> vote_option ` set vs then Some (vote_points pw vs opt, 0) else kv_get m opt)"
proof -
  have "kv_ok m' \<and> kv_get m' opt =
    (if opt \<in> vote_option ` set vs then Some (vote_points pw vs opt, 0) else kv_get m opt)"
    using assms
  proof (induction vs arbitrary: m)
    case (Cons v vs)
    have absent: "vote_option v \<notin> vote_option ` set vs" using Cons.prems(2) by (auto simp: names_once_def)
    from Cons.prems(1) have "diff_old pw vs (kv_set m (vote_option v) (pw * vote_weight v div decimal_one, 0)) = Ok m'"
      by (auto simp: outcome_simps u128_mul_decimal_def arith_simps)
    from Cons.IH [OF this] Cons.prems(2,3) absent show ?case
      by (auto simp: names_once_def vote_points_absent)
  qed simp
  then show "kv_ok m'" and "kv_get m' opt =
    (if opt \<in> vote_option ` set vs then Some (vote_points pw vs opt, 0) else kv_get m opt)" by blast+
qed

lemma diff_new_get:
  assumes "diff_new pw vs m = Ok m'" "names_once vs" "kv_ok m"
  shows "kv_ok m'" and "kv_get m' opt =
    (if opt \<in> vote_option ` set vs
     then Some (case kv_get m opt of Some (a, b) \<Rightarrow> a | None \<Rightarrow> 0, vote_points pw vs opt)
     else kv_get m opt)"
proof -
  have "kv_ok m' \<and> kv_get m' opt =
    (if opt \<in> vote_option ` set vs
     then Some (case kv_get m opt of Some (a, b) \<Rightarrow> a | None \<Rightarrow> 0, vote_points pw vs opt)
     else kv_get m opt)"
    using assms
  proof (induction vs arbitrary: m)
    case (Cons v vs)
    have absent: "vote_option v \<notin> vote_option ` set vs" using Cons.prems(2) by (auto simp: names_once_def)
    from Cons.prems(1) have "diff_new pw vs (kv_set m (vote_option v)
        (case kv_get m (vote_option v) of Some (a, b) \<Rightarrow> a | None \<Rightarrow> 0, pw * vote_weight v div decimal_one)) = Ok m'"
      by (auto simp: outcome_simps u128_mul_decimal_def arith_simps Let_def)
    from Cons.IH [OF this] Cons.prems(2,3) absent show ?case
      by (auto simp: names_once_def vote_points_absent)
  qed simp
  then show "kv_ok m'" and "kv_get m' opt =
    (if opt \<in> vote_option ` set vs
     then Some (case kv_get m opt of Some (a, b) \<Rightarrow> a | None \<Rightarrow> 0, vote_points pw vs opt)
     else kv_get m opt)" by blast+
qed

text \<open>The iteration order of a \<open>HashMap\<close> is some permutation of its entries.\<close>

definition hash_orders :: "gauge_host \<Rightarrow> bool" where
  "hash_orders H \<longleftrightarrow> (\<forall>m. mset (hash_order H m) = mset m)"

lemma vote_changes_counts:
  assumes "vote_changes H prev pw vs ds" "hash_orders H" "names_once (wv_votes prev)" "names_once vs"
  shows "olds_of ds opt = vote_points (wv_power prev) (wv_votes prev) opt"
    and "news_of ds opt = vote_points pw vs opt"
proof -
  obtain m m' where old: "diff_old (wv_power prev) (wv_votes prev) [] = Ok m"
    and new: "diff_new pw vs m = Ok m'" and ds: "ds = hash_order H m'"
    using assms(1) by (auto simp: vote_changes_def)
  note m = diff_old_get [OF old assms(3) kv_ok_Nil]
  note m' = diff_new_get [OF new assms(4) m(1)]
  have "mset ds = mset m'" using assms(2) by (simp add: ds hash_orders_def)
  note perm = updates_perm [OF this]
  show "olds_of ds opt = vote_points (wv_power prev) (wv_votes prev) opt"
    by (simp add: perm updates_kv [OF m'(1)] m'(2) m(2) vote_points_absent)
  show "news_of ds opt = vote_points pw vs opt"
    by (simp add: perm updates_kv [OF m'(1)] m'(2) m(2) vote_points_absent)
qed

lemma power_updates_counts:
  "power_updates old new vs = Ok us \<Longrightarrow>
     olds_of us opt = vote_points old vs opt \<and> news_of us opt = vote_points new vs opt"
  unfolding power_updates_def
  by (induction vs arbitrary: us) (auto simp: outcome_simps u128_mul_decimal_def arith_simps)

section \<open>The count\<close>

definition counted :: "gauge_state \<Rightarrow> bool" where
  "counted s \<longleftrightarrow> (\<forall>g opt. kv_nat (gs_tally s) (g, opt) = votes_for s g opt) \<and>
     (\<forall>k v. kv_get (gs_votes s) k = Some v \<longrightarrow> names_once (wv_votes v))"

lemma counted_once: "counted s \<Longrightarrow> kv_get (gs_votes s) k = Some v \<Longrightarrow> names_once (wv_votes v)"
  unfolding counted_def by blast

lemma counted_cong:
  "gs_votes t = gs_votes s \<Longrightarrow> (\<And>k. kv_nat (gs_tally t) k = kv_nat (gs_tally s) k) \<Longrightarrow> counted s \<Longrightarrow> counted t"
  by (simp add: counted_def votes_for_def)

text \<open>The points the recorded vote of one voter gives.\<close>

definition own_points :: "gauge_state \<Rightarrow> addr \<Rightarrow> nat \<Rightarrow> string \<Rightarrow> nat" where
  "own_points s voter i opt =
     (case kv_get (gs_votes s) (vote_key voter i) of
        Some v \<Rightarrow> vote_points (wv_power v) (wv_votes v) opt | None \<Rightarrow> 0)"

lemma votes_for_save:
  assumes "votes_ok s"
  shows "votes_for (save_votes s voter i v) g opt + (if g = i then own_points s voter i opt else 0)
    = votes_for s g opt + (if g = i then vote_points (wv_power v) (wv_votes v) opt else 0)"
  using assms kv_sum_set [of "gs_votes s"
      "\<lambda>k v. if snd (snd k) = g then vote_points (wv_power v) (wv_votes v) opt else 0" "vote_key voter i" v]
  by (auto simp: votes_for_def save_votes_def votes_ok_def own_points_def kv_at_def vote_key_def
      split: option.splits)

lemma votes_for_remove:
  assumes "votes_ok s"
  shows "votes_for (remove_votes s voter i) g opt + (if g = i then own_points s voter i opt else 0)
    = votes_for s g opt"
  using assms kv_sum_del [of "gs_votes s"
      "\<lambda>k v. if snd (snd k) = g then vote_points (wv_power v) (wv_votes v) opt else 0" "vote_key voter i"]
  by (auto simp: votes_for_def remove_votes_def votes_ok_def own_points_def kv_at_def vote_key_def
      split: option.splits)

text \<open>Moving the tallies by the change of one vote, and recording the new vote.\<close>

lemma counted_replace:
  assumes "counted s" "votes_ok s" and upd: "update_tallies s i ds = Ok u"
    and olds: "\<And>opt. olds_of ds opt = own_points s voter i opt"
    and news: "\<And>opt. news_of ds opt = vote_points (wv_power v) (wv_votes v) opt"
    and "names_once (wv_votes v)"
  shows "counted (save_votes u voter i v)"
proof -
  have same: "gs_votes u = gs_votes s"
    using update_tallies_ok(1) [OF upd] by (simp add: same_but_tallies_def)
  have "votes_ok u" using assms(2) same by (simp add: votes_ok_def)
  have "kv_nat (gs_tally u) (g, opt) = votes_for (save_votes u voter i v) g opt" for g opt
    using update_tallies_counts [OF upd, of g opt] votes_for_save [OF \<open>votes_ok u\<close>, of voter i v g opt]
      assms(1) olds [of opt] news [of opt]
    by (auto simp: counted_def votes_for_def own_points_def same split: if_splits)
  moreover have "names_once (wv_votes w)" if "kv_get (gs_votes (save_votes u voter i v)) k = Some w" for k w
    using that assms(6) counted_once [OF assms(1)] by (auto simp: save_votes_def same split: if_splits)
  moreover have "gs_tally (save_votes u voter i v) = gs_tally u" by (simp add: save_votes_def)
  ultimately show ?thesis unfolding counted_def by simp
qed

lemma counted_withdraw:
  assumes "counted s" "votes_ok s" and upd: "update_tallies s i ds = Ok u"
    and olds: "\<And>opt. olds_of ds opt = own_points s voter i opt" and news: "\<And>opt. news_of ds opt = 0"
  shows "counted (remove_votes u voter i)"
proof -
  have same: "gs_votes u = gs_votes s"
    using update_tallies_ok(1) [OF upd] by (simp add: same_but_tallies_def)
  have "votes_ok u" using assms(2) same by (simp add: votes_ok_def)
  have "kv_nat (gs_tally u) (g, opt) = votes_for (remove_votes u voter i) g opt" for g opt
    using update_tallies_counts [OF upd, of g opt] votes_for_remove [OF \<open>votes_ok u\<close>, of voter i g opt]
      assms(1) olds [of opt] news [of opt]
    by (auto simp: counted_def votes_for_def own_points_def same split: if_splits)
  moreover have "names_once (wv_votes w)" if "kv_get (gs_votes (remove_votes u voter i)) k = Some w" for k w
    using that counted_once [OF assms(1)] by (auto simp: remove_votes_def same split: if_splits)
  moreover have "gs_tally (remove_votes u voter i) = gs_tally u" by (simp add: remove_votes_def)
  ultimately show ?thesis unfolding counted_def by simp
qed

lemma weighted_votes_default_sel [simp]:
  "wv_power weighted_votes_default = 0" "wv_votes weighted_votes_default = []"
  by (simp_all add: weighted_votes_default_def)

lemma place_votes_counted:
  assumes "place_votes H s e who i new_votes = Ok t" "gauge_inv s" "counted s" "hash_orders H"
    and once: "\<And>vs. new_votes = Some vs \<Longrightarrow> names_once vs"
  shows "counted t"
  using assms(1)
proof (cases rule: place_votes_cases)
  case (1 g0 config s1 g vs pw prev ds s2)
  note entered = enter_epoch_keeps [OF 1(3) assms(2) 1(1)]
  have ok: "counted s1" "votes_ok s1"
    using counted_cong [OF entered(4) _ assms(3)] entered(1,5) by (simp_all add: gauge_inv_def)
  have prev: "prev = (case kv_get (gs_votes s1) (vote_key who i) of Some v \<Rightarrow> v | None \<Rightarrow> weighted_votes_default)"
    using 1(8) entered(2) by (simp add: may_load_votes_def split: option.splits)
  have "names_once (wv_votes prev)"
    using counted_once [OF ok(1)] by (auto simp: prev names_once_def [of "[]"] split: option.split)
  moreover have "names_once vs" using 1(5) once by (auto simp: names_once_def split: option.splits)
  ultimately have "olds_of ds opt = own_points s1 who i opt" "news_of ds opt = vote_points pw vs opt" for opt
    using vote_changes_counts [OF 1(9) assms(4)] by (simp_all add: prev own_points_def split: option.split)
  then show ?thesis
    using counted_withdraw [OF ok 1(11), of who] counted_replace [OF ok 1(11), of who] \<open>names_once vs\<close>
    by (simp add: 1(12) set_votes_def)
qed

section \<open>The membership hook\<close>

text \<open>The hook reports each member once, with the power their votes were recorded with.\<close>

definition reports_power :: "gauge_state \<Rightarrow> member_diff \<Rightarrow> bool" where
  "reports_power s d \<longleftrightarrow>
     (\<forall>g v. kv_get (gs_votes s) (vote_key (md_key d) g) = Some v \<longrightarrow> wv_power v = nat_or_0 (md_old d))"

definition hook_accurate :: "gauge_state \<Rightarrow> member_diff list \<Rightarrow> bool" where
  "hook_accurate s ds \<longleftrightarrow> distinct (map md_key ds) \<and> (\<forall>d\<in>set ds. reports_power s d)"

lemma member_vote_counted:
  assumes "member_vote d voter v s = Ok t" "gauge_inv s" "counted s"
    and v: "kv_get (gs_votes s) (vote_key voter (wv_gauge_id v)) = Some v" "wv_power v = nat_or_0 (md_old d)"
  shows "counted t" and "k \<noteq> vote_key voter (wv_gauge_id v) \<Longrightarrow> kv_get (gs_votes t) k = kv_get (gs_votes s) k"
  using assms(1)
proof (atomize (full), cases rule: member_vote_Ok)
  case (moved us u)
  have "olds_of us opt = own_points s voter (wv_gauge_id v) opt"
    "news_of us opt = vote_points (nat_or_0 (md_new d)) (wv_votes v) opt" for opt
    using power_updates_counts [OF moved(1), of opt] v by (simp_all add: own_points_def)
  then have "counted t"
    using counted_replace [OF assms(3) _ moved(2), of voter "v\<lparr> wv_power := nat_or_0 (md_new d) \<rparr>"]
      counted_once [OF assms(3) v(1)] assms(2)
    by (simp add: moved(3) gauge_inv_def)
  moreover have "k \<noteq> vote_key voter (wv_gauge_id v) \<Longrightarrow> kv_get (gs_votes t) k = kv_get (gs_votes s) k"
    using update_tallies_ok(1) [OF moved(2)] by (simp add: moved(3) save_votes_def same_but_tallies_def)
  ultimately show "counted t \<and> (k \<noteq> vote_key voter (wv_gauge_id v) \<longrightarrow> kv_get (gs_votes t) k = kv_get (gs_votes s) k)"
    by blast
qed (use assms(3) in simp)

lemma member_votes_counted:
  assumes "fold_ok (member_vote d voter) vs s = Ok t" "gauge_inv s" "counted s"
    and "distinct (map wv_gauge_id vs)"
    and "\<And>v. v \<in> set vs \<Longrightarrow> kv_get (gs_votes s) (vote_key voter (wv_gauge_id v)) = Some v \<and>
           wv_power v = nat_or_0 (md_old d)"
  shows "gauge_inv t \<and> counted t \<and>
    (\<forall>k. (\<forall>g. k \<noteq> vote_key voter g) \<longrightarrow> kv_get (gs_votes t) k = kv_get (gs_votes s) k)"
  using assms
proof (induction vs arbitrary: s)
  case (Cons v vs)
  obtain s1 where step: "member_vote d voter v s = Ok s1"
    and rest: "fold_ok (member_vote d voter) vs s1 = Ok t"
    using Cons.prems(1) by (auto simp: outcome_simps)
  have v: "kv_get (gs_votes s) (vote_key voter (wv_gauge_id v)) = Some v" "wv_power v = nat_or_0 (md_old d)"
    using Cons.prems(5) [of v] by simp_all
  note moved = member_vote_counted [OF step Cons.prems(2,3) v]
  have "kv_get (gs_votes s1) (vote_key voter (wv_gauge_id w)) = Some w \<and> wv_power w = nat_or_0 (md_old d)"
    if "w \<in> set vs" for w
  proof -
    have "wv_gauge_id w \<noteq> wv_gauge_id v" using Cons.prems(4) imageI [OF that, of wv_gauge_id] by auto
    then show ?thesis
      using Cons.prems(5) [of w] that moved(2) [of "vote_key voter (wv_gauge_id w)"]
      by (simp add: vote_key_def)
  qed
  then have "gauge_inv t \<and> counted t \<and>
    (\<forall>k. (\<forall>g. k \<noteq> vote_key voter g) \<longrightarrow> kv_get (gs_votes t) k = kv_get (gs_votes s1) k)"
    using Cons.prems(4) by (intro Cons.IH [OF rest member_vote_keeps [OF step Cons.prems(2)] moved(1)]) auto
  with moved(2) show ?case by auto
qed simp

text \<open>The votes listed for a voter are those recorded, one per gauge.\<close>

lemma query_votes_by_voter_listed:
  assumes "votes_ok s"
  shows "distinct (map wv_gauge_id (query_votes_by_voter s voter None (Some n)))"
    and "v \<in> set (query_votes_by_voter s voter None (Some n)) \<Longrightarrow>
      kv_get (gs_votes s) (vote_key voter (wv_gauge_id v)) = Some v"
proof -
  let ?m = "kv_prefix (kv_prefix (gs_votes s) (length voter)) voter"
  have ok: "kv_ok ?m" using assms by (simp add: votes_ok_def kv_ok_prefix)
  have entry: "kv_get (gs_votes s) (vote_key voter g) = Some v \<and> wv_gauge_id v = g"
    if "(g, v) \<in> set ?m" for g v
  proof -
    have get: "kv_get (gs_votes s) (vote_key voter g) = Some v"
      using that assms by (simp add: kv_prefix_in vote_key_def votes_ok_def kv_in_set_get)
    then show ?thesis using assms by (auto simp: votes_ok_def vote_key_def)
  qed
  have "map (\<lambda>e. wv_gauge_id (snd e)) ?m = map fst ?m"
    by (rule map_cong [OF refl]) (metis entry prod.collapse)
  then have "map wv_gauge_id (map snd ?m) = map fst ?m" by (simp add: comp_def)
  then have "distinct (map wv_gauge_id (map snd (take k ?m)))" for k
    using kv_ok_distinct [OF ok] by (metis distinct_take take_map)
  then show "distinct (map wv_gauge_id (query_votes_by_voter s voter None (Some n)))"
    by (simp add: query_votes_by_voter_def kv_after_def)
  show "v \<in> set (query_votes_by_voter s voter None (Some n)) \<Longrightarrow>
      kv_get (gs_votes s) (vote_key voter (wv_gauge_id v)) = Some v"
    using entry by (auto simp: query_votes_by_voter_def kv_after_def dest!: in_set_takeD)
qed

lemma member_changed_counted:
  assumes "member_changed P s who ds = Ok t" "gauge_inv s" "counted s" "hook_accurate s ds" "platform_exact P"
  shows "counted t"
proof -
  let ?step = "\<lambda>d t. and_then (map_err G_std (addr_validate P (md_key d))) (\<lambda>voter.
       fold_ok (member_vote d voter) (query_votes_by_voter t voter None (Some 100)) t)"
  have "fold_ok ?step ds s = Ok t" using assms(1) by (rule member_changed_Ok)
  then show ?thesis using assms(2-4)
  proof (induction ds arbitrary: s)
    case (Cons d ds)
    obtain voter s1 where "addr_validate P (md_key d) = Ok voter"
      and run: "fold_ok (member_vote d voter) (query_votes_by_voter s voter None (Some 100)) s = Ok s1"
      and rest: "fold_ok ?step ds s1 = Ok t"
      using Cons.prems(1) by (auto simp: outcome_simps)
    then have voter: "voter = md_key d" using platform_exactD [OF assms(5)] by simp
    have ok: "votes_ok s" using Cons.prems(2) by (simp add: gauge_inv_def)
    have "reports_power s d" using Cons.prems(4) by (simp add: hook_accurate_def)
    then have moved: "gauge_inv s1 \<and> counted s1 \<and>
      (\<forall>k. (\<forall>g. k \<noteq> vote_key voter g) \<longrightarrow> kv_get (gs_votes s1) k = kv_get (gs_votes s) k)"
      using query_votes_by_voter_listed [OF ok, where voter = voter and n = 100]
      by (intro member_votes_counted [OF run Cons.prems(2,3)]) (auto simp: reports_power_def voter)
    have "hook_accurate s1 ds"
      unfolding hook_accurate_def reports_power_def
    proof (intro conjI ballI allI impI)
      fix d' g v
      assume d': "d' \<in> set ds" and v: "kv_get (gs_votes s1) (vote_key (md_key d') g) = Some v"
      have "md_key d' \<noteq> md_key d" using Cons.prems(4) imageI [OF d', of md_key] by (auto simp: hook_accurate_def)
      then have "kv_get (gs_votes s) (vote_key (md_key d') g) = Some v"
        using moved v by (simp add: voter vote_key_def)
      then show "wv_power v = nat_or_0 (md_old d')"
        using Cons.prems(4) d' by (auto simp: hook_accurate_def reports_power_def)
    qed (use Cons.prems(4) in \<open>simp add: hook_accurate_def\<close>)
    with Cons.IH [OF rest] moved show ?case by blast
  qed simp
qed

section \<open>Careful runs\<close>

text \<open>
  The conditions under which the tallies stay true to the votes: each vote names its options
  once, only options without points are removed, the hook is accurate.
\<close>

fun careful :: "gauge_state \<Rightarrow> gauge_msg \<Rightarrow> bool" where
  "careful s (Place_votes i (Some vs)) = names_once vs"
| "careful s (Remove_option i opt) = (kv_nat (gs_tally s) (i, opt) = 0)"
| "careful s (Member_changed_hook ds) = hook_accurate s ds"
| "careful s msg = True"

inductive gauge_careful :: "platform \<Rightarrow> gauge_state \<Rightarrow> bool" for P where
  started: "gauge_instantiate P H info msg = Ok s \<Longrightarrow> gauge_careful P s"
| stepped: "gauge_careful P s \<Longrightarrow> hash_orders H \<Longrightarrow> careful s msg
     \<Longrightarrow> gauge_execute P H s e info msg = Ok (t, out) \<Longrightarrow> gauge_careful P t"

lemma gauge_careful_reachable: "gauge_careful P s \<Longrightarrow> gauge_reachable P s"
  by (induction rule: gauge_careful.induct) (auto intro: gauge_reachable.intros)

lemma attach_gauge_counted:
  assumes "attach_gauge P H s params = Ok (t, adapter)" "counted s"
  shows "counted t"
  using assms(1)
proof (cases rule: attach_gauge_cases)
  case (1 u g i opts)
  note added = add_options_Ok [OF 1(4)]
  show ?thesis
    using added(1,3) by (intro counted_cong [OF _ _ assms(2)]) (simp_all add: 1(5) same_but_tallies_def)
qed

lemma gauge_instantiate_counted: "gauge_instantiate P H info msg = Ok s \<Longrightarrow> counted s"
proof -
  assume "gauge_instantiate P H info msg = Ok s"
  then obtain v c ps where
    "fold_ok (\<lambda>params t. and_then (attach_gauge P H t params) (\<lambda>(t', _). Ok t')) ps
       (gauge_empty\<lparr> gs_version := v, gs_config := c \<rparr>) = Ok s"
    by (auto simp: gauge_instantiate_def Let_def outcome_simps)
  moreover have "counted (gauge_empty\<lparr> gs_version := v, gs_config := c \<rparr>)"
    by (simp add: counted_def votes_for_def gauge_empty_def)
  ultimately show "counted s"
    by (rule fold_ok_invariant) (auto simp: outcome_simps intro: attach_gauge_counted)
qed

lemma gauge_execute_counted:
  assumes run: "gauge_execute P H s e info msg = Ok (t, out)" and inv: "gauge_inv s" "counted s"
    and "hash_orders H" "careful s msg" "platform_exact P"
  shows "counted t"
proof (cases msg)
  case (Member_changed_hook ds)
  with assms show ?thesis by (auto simp: outcome_simps intro: member_changed_counted)
next
  case (Create_gauge params)
  with assms show ?thesis by (auto simp: outcome_simps create_gauge_def intro: attach_gauge_counted)
next
  case (Update_gauge i ep pe mi mo ma)
  with assms have "update_gauge s (sender info) i ep pe mi mo ma = Ok t" by (simp add: outcome_simps)
  from update_gauge_Ok [OF this] show ?thesis by (auto intro: counted_cong [OF _ _ inv(2)])
next
  case (Stop_gauge i)
  with assms have "stop_gauge s (sender info) i = Ok t" by (simp add: outcome_simps)
  from stop_gauge_Ok [OF this] show ?thesis by (auto intro: counted_cong [OF _ _ inv(2)])
next
  case (Add_option i opt)
  with assms have "add_option H s (sender info) i opt False = Ok t" by (simp add: outcome_simps)
  then have upd: "update_tallies s i [(opt, 0, 0)] = Ok t" by (simp add: add_option_Ok)
  show ?thesis
    using zero_update [OF upd] by (intro counted_cong [OF _ _ inv(2)]) (auto simp: same_but_tallies_def)
next
  case (Remove_option i opt)
  with assms have "remove_option s (sender info) i opt = Ok t" by (simp add: outcome_simps)
  then have rem: "remove_tally s i opt = Ok t" using remove_option_Ok by blast
  show ?thesis
    using remove_tally_ok(1,3) [OF rem] assms(5)
    by (intro counted_cong [OF _ _ inv(2)]) (auto simp: Remove_option same_but_tallies_def)
next
  case (Place_votes i vs)
  with assms have placed: "place_votes H s e (sender info) i vs = Ok t" by (simp add: outcome_simps)
  show ?thesis
    by (rule place_votes_counted [OF placed inv assms(4)]) (use assms(5) Place_votes in simp)
next
  case (Execute_gauge i)
  with assms have ex: "execute_gauge H s e i = Ok (t, out)" by simp
  then show ?thesis
  proof (cases rule: execute_gauge_cases)
    case (1 g config w sel vs g')
    then show ?thesis by (intro counted_cong [OF _ _ inv(2)]) (auto simp: update_epoch_Ok)
  qed
qed

theorem gauge_careful_counted: "gauge_careful P s \<Longrightarrow> platform_exact P \<Longrightarrow> counted s"
proof (induction rule: gauge_careful.induct)
  case (stepped s H msg e info t out)
  then show ?case
    using gauge_reachable_inv [OF gauge_careful_reachable] by (blast intro: gauge_execute_counted)
qed (rule gauge_instantiate_counted)

end
