(* ===== verification/Gauge_Props.thy ===== *)
theory Gauge_Props
  imports Gauge_Votes
begin

text \<open>
  The properties of the gauge, with witnesses on a small example: two voters, three options,
  one epoch of the outer gauge.
\<close>

section \<open>An example\<close>

definition gauge_env :: "nat \<Rightarrow> env" where
  "gauge_env t = \<lparr> block = \<lparr> block_height = 1, block_time = t * 1000000000 \<rparr>, contract_address = ''gauge'' \<rparr>"

lemma gauge_env_seconds [simp]: "seconds (block (gauge_env t)) = t"
  by (simp add: gauge_env_def seconds_def)

definition outer_gauge :: "nat \<Rightarrow> gauge_response" where
  "outer_gauge next_ep = \<lparr> gr_id = 7, gr_wynd_gauge_id = None, gr_title = ''outer'', gr_adapter = ''adapter'',
     gr_epoch_size = 1000, gr_epoch_pending_size = None, gr_min_percent_selected = None,
     gr_max_options_selected = 2, gr_max_available_percentage = Some (decimal_one div 2),
     gr_is_stopped = False, gr_next_epoch = next_ep, gr_reset = None \<rparr>"

definition gauge_demo_host :: "nat \<Rightarrow> gauge_host" where
  "gauge_demo_host next_ep = \<lparr> wynd_gauge = (\<lambda>c g. if g = 7 then Some (outer_gauge next_ep) else None),
     all_options = (\<lambda>c. Ok [''x'', ''y'', ''z'']), check_option = (\<lambda>c opt. Some True),
     dao_power = (\<lambda>c who. Ok 1), staking_durations = (\<lambda>c. Ok [10, 20]),
     balance_by_duration = (\<lambda>c who d. if who = ''ann'' then Some 100
                                      else if who = ''bob'' \<and> d = 10 then Some 60 else None),
     hash_order = (\<lambda>m. m) \<rparr>"

lemma gauge_demo_host_orders [simp]: "hash_orders (gauge_demo_host n)"
  by (simp add: hash_orders_def gauge_demo_host_def)

definition share :: "string \<Rightarrow> nat \<Rightarrow> gauge_vote" where
  "share opt tenths = \<lparr> vote_option = opt, vote_weight = tenths * (decimal_one div 10) \<rparr>"

definition demo_gauge :: gauge where
  "demo_gauge = \<lparr> g_title = ''g'', g_adapter = ''adapter'', g_epoch = 1000,
     g_min_percent_selected = None, g_max_options_selected = 2,
     g_max_available_percentage = Some (decimal_one div 2), g_is_stopped = False,
     g_next_epoch = 1000, g_last_executed_set = None, g_reset = None,
     g_epoch_pending_size = 100, g_wynd_gauge_id = 7 \<rparr>"

definition demo_gauge_fresh :: gauge_state where
  "demo_gauge_fresh = \<lparr> gs_version = Some (gauge_contract_name, gauge_contract_version),
     gs_config = Some \<lparr> voting_powers = ''staking'', gauge_owner = ''owner'', dao_core = ''dao'',
       wynd_gauge_addr = wynd_gauge_const, wynd_staker = ''staker'' \<rparr>,
     gs_gauges = [(0, demo_gauge)], gs_last_id = Some 1, gs_last_epoch = [(0, 0)],
     gs_vote_history = [], gs_votes = [], gs_total_cast = [(0, 0)],
     gs_tally = [((0, ''x''), 0), ((0, ''y''), 0), ((0, ''z''), 0)],
     gs_points = [((0, 0, ''x''), 1), ((0, 0, ''y''), 1), ((0, 0, ''z''), 1)] \<rparr>"

definition ann_votes :: weighted_votes where
  "ann_votes = \<lparr> wv_gauge_id = 0, wv_power = 200, wv_votes = [share ''x'' 7, share ''y'' 3], wv_cast = Some 50 \<rparr>"

definition bob_votes :: weighted_votes where
  "bob_votes = \<lparr> wv_gauge_id = 0, wv_power = 60, wv_votes = [share ''y'' 10], wv_cast = Some 60 \<rparr>"

definition demo_gauge_ann :: gauge_state where
  "demo_gauge_ann = demo_gauge_fresh\<lparr> gs_votes := [((3, ''ann'', 0), ann_votes)],
     gs_total_cast := [(0, 200)],
     gs_tally := [((0, ''x''), 140), ((0, ''y''), 60), ((0, ''z''), 0)],
     gs_points := [((0, 0, ''z''), 1), ((0, 60, ''y''), 1), ((0, 140, ''x''), 1)] \<rparr>"

definition demo_gauge_voted :: gauge_state where
  "demo_gauge_voted = demo_gauge_fresh\<lparr>
     gs_votes := [((3, ''ann'', 0), ann_votes), ((3, ''bob'', 0), bob_votes)],
     gs_total_cast := [(0, 260)],
     gs_tally := [((0, ''x''), 140), ((0, ''y''), 120), ((0, ''z''), 0)],
     gs_points := [((0, 0, ''z''), 1), ((0, 120, ''y''), 1), ((0, 140, ''x''), 1)] \<rparr>"

lemmas demo_gauge_defs = demo_gauge_voted_def demo_gauge_ann_def demo_gauge_fresh_def demo_gauge_def
  ann_votes_def bob_votes_def share_def decimal_one_def

lemma demo_gauge_started:
  "gauge_instantiate demo_platform (gauge_demo_host n) \<lparr> sender = ''dao'' \<rparr>
     \<lparr> gi_voting_powers = ''staking'', gi_owner = ''owner'', gi_wynd_staker = ''staker'',
       gi_gauges = Some [\<lparr> gp_title = ''g'', gp_wynd_gauge_id = 7, gp_epoch_pending_size = 100 \<rparr>] \<rparr>
     = Ok (demo_gauge_fresh\<lparr> gs_gauges := [(0, demo_gauge\<lparr> g_next_epoch := n \<rparr>)] \<rparr>)"
  by (simp add: gauge_instantiate_def attach_gauge_def load_gauge_config_def fetch_last_id_def
      add_option_def update_tally_def update_tallies_def tally_step_def gauge_empty_def
      gauge_demo_host_def outer_gauge_def demo_platform_def wynd_gauge_const_def demo_gauge_fresh_def demo_gauge_def
      decimal_one_def checked_int_defs Let_def)

lemma demo_gauge_started_1000:
  "gauge_instantiate demo_platform (gauge_demo_host 1000) \<lparr> sender = ''dao'' \<rparr>
     \<lparr> gi_voting_powers = ''staking'', gi_owner = ''owner'', gi_wynd_staker = ''staker'',
       gi_gauges = Some [\<lparr> gp_title = ''g'', gp_wynd_gauge_id = 7, gp_epoch_pending_size = 100 \<rparr>] \<rparr>
     = Ok demo_gauge_fresh"
  by (simp add: demo_gauge_started) (simp add: demo_gauge_fresh_def demo_gauge_def)

lemmas gauge_eval = place_votes_def load_gauge_config_def load_gauge_def enter_epoch_def is_pending_def
  sum_weights_def gauge_voting_power_def nat_or_0_def may_load_votes_def vote_key_def vote_is_expired_def
  is_resetting_def weighted_votes_default_def update_tallies_def tally_step_def set_votes_def
  save_votes_def remove_votes_def u128_mul_decimal_def gauge_demo_host_def outer_gauge_def
  kv_del_def checked_int_defs Let_def

lemma demo_gauge_ann_voted:
  "gauge_execute demo_platform (gauge_demo_host 1000) demo_gauge_fresh (gauge_env 50) \<lparr> sender = ''ann'' \<rparr>
     (Place_votes 0 (Some [share ''x'' 7, share ''y'' 3])) = Ok (demo_gauge_ann, [])"
  by (simp add: silent_def gauge_eval demo_gauge_defs)

lemma demo_gauge_bob_voted:
  "gauge_execute demo_platform (gauge_demo_host 1000) demo_gauge_ann (gauge_env 60) \<lparr> sender = ''bob'' \<rparr>
     (Place_votes 0 (Some [share ''y'' 10])) = Ok (demo_gauge_voted, [])"
  by (simp add: silent_def gauge_eval demo_gauge_defs)

lemma demo_gauge_careful: "gauge_careful demo_platform demo_gauge_voted"
proof -
  have "gauge_careful demo_platform demo_gauge_fresh"
    using demo_gauge_started_1000 by (rule gauge_careful.started)
  then have "gauge_careful demo_platform demo_gauge_ann"
    by (rule gauge_careful.stepped [OF _ _ _ demo_gauge_ann_voted])
      (simp_all add: names_once_def share_def)
  then show ?thesis
    by (rule gauge_careful.stepped [OF _ _ _ demo_gauge_bob_voted])
      (simp_all add: names_once_def share_def)
qed

lemma demo_gauge_reachable: "gauge_reachable demo_platform demo_gauge_voted"
  using demo_gauge_careful by (rule gauge_careful_reachable)

lemma select_loop_numeral [simp]:
  "select_loop g n (numeral k) [] = Ok []"
  "select_loop g n (numeral k) ((c, opt) # es) =
     and_then (option_selected g n c) (\<lambda>b.
     if b then
       and_then (available_power g n c) (\<lambda>p.
       and_then (select_loop g n (pred_numeral k) es) (\<lambda>rest.
       Ok ((opt, p) # rest)))
     else select_loop g n (numeral k) es)"
  by (simp_all only: numeral_eq_Suc select_loop.simps)

lemma demo_gauge_selected: "selected_set demo_gauge_voted 0 = Ok [(''x'', 130), (''y'', 120)]"
proof -
  have "points_of demo_gauge_voted 0 = [(0, ''z''), (120, ''y''), (140, ''x'')]"
    by (simp add: points_of_def kv_prefix_def demo_gauge_voted_def)
  then show ?thesis
    by (simp add: selected_set_def load_gauge_def is_resetting_def option_selected_def
        available_power_def decimal_from_ratio_def u128_mul_decimal_def checked_int_defs demo_gauge_defs)
qed

lemma demo_gauge_voted_sel:
  "gs_gauges demo_gauge_voted = [(0, demo_gauge)]" "gs_last_epoch demo_gauge_voted = [(0, 0)]"
  "gs_vote_history demo_gauge_voted = []"
  "gs_config demo_gauge_voted = Some \<lparr> voting_powers = ''staking'', gauge_owner = ''owner'',
     dao_core = ''dao'', wynd_gauge_addr = wynd_gauge_const, wynd_staker = ''staker'' \<rparr>"
  by (simp_all add: demo_gauge_voted_def demo_gauge_fresh_def)

definition demo_gauge_executed :: gauge_state where
  "demo_gauge_executed = demo_gauge_voted\<lparr>
     gs_gauges := [(0, demo_gauge\<lparr> g_next_epoch := 2000,
                      g_last_executed_set := Some [(''x'', 130), (''y'', 120)] \<rparr>)],
     gs_last_epoch := [(0, 1)],
     gs_vote_history := [((0, 0), \<lparr> vh_epoch = 1000, vh_next_epoch = 1000,
        vh_votes = [\<lparr> vote_option = ''x'', vote_weight = 520000000000000000 \<rparr>,
                    \<lparr> vote_option = ''y'', vote_weight = 480000000000000000 \<rparr>],
        vh_executed = True \<rparr>)] \<rparr>"

lemma demo_gauge_run:
  "execute_gauge (gauge_demo_host 2000) demo_gauge_voted (gauge_env 950) 0 =
     Ok (demo_gauge_executed,
       [\<lparr> pv_contract = ''staker'', pv_gauge = 7, pv_votes =
            Some [\<lparr> vote_option = ''x'', vote_weight = 520000000000000000 \<rparr>,
                  \<lparr> vote_option = ''y'', vote_weight = 480000000000000000 \<rparr>] \<rparr>])"
  by (simp add: execute_gauge_def demo_gauge_selected selected_shares_def sum_u128_def update_epoch_def
      decimal_from_ratio_def gauge_eval demo_gauge_executed_def demo_gauge_voted_sel demo_gauge_def decimal_one_def)

section \<open>The tallies\<close>

text \<open>In every reachable state the sorted index lists exactly the tallied points of each option,
  and the total of a gauge is the sum of the tallies of its options.\<close>

theorem gauge_index_mirrors_tallies:
  assumes "gauge_reachable P s"
  shows "kv_get (gs_points s) (g, c, opt) = (if kv_get (gs_tally s) (g, opt) = Some c then Some 1 else None) \<and>
    kv_nat (gs_total_cast s) g = kv_total (kv_prefix (gs_tally s) g)"
  using gauge_reachable_inv [OF assms]
  by (simp add: gauge_inv_def tallies_ok_def indexed_def tally_sum_prefix)

theorem gauge_index_mirrors_tallies_witness:
  "kv_get (gs_points demo_gauge_voted) (0, 120, ''y'') = Some 1 \<and>
   kv_nat (gs_total_cast demo_gauge_voted) 0 = kv_total (kv_prefix (gs_tally demo_gauge_voted) 0)"
  using gauge_index_mirrors_tallies [OF demo_gauge_reachable, of 0 120 "''y''"]
  by (simp add: demo_gauge_voted_def)

text \<open>C12: When every vote names its options once, only options without points are removed and the
  membership hook reports the recorded power, the tally of an option is the sum over all recorded
  votes of the share of the voter's power given to it.\<close>

theorem gauge_tallies_count_the_votes:
  assumes "gauge_careful P s" "platform_exact P"
  shows "kv_nat (gs_tally s) (g, opt) = votes_for s g opt"
  using gauge_careful_counted [OF assms] by (simp add: counted_def)

theorem gauge_tallies_count_the_votes_witness:
  "votes_for demo_gauge_voted 0 ''y'' = 120 \<and> kv_nat (gs_tally demo_gauge_voted) (0, ''y'') = 120"
  using gauge_tallies_count_the_votes [OF demo_gauge_careful demo_platform_exact, of 0 "''y''"]
  by (simp add: demo_gauge_voted_def)

section \<open>The selection\<close>

text \<open>
  What the documentation of the gauge promises of an option: it qualifies with the least share, or with
  any points when none is set, and counts with its points up to the greatest share.
\<close>

definition enough_points :: "gauge \<Rightarrow> nat \<Rightarrow> nat \<Rightarrow> bool" where
  "enough_points g n c =
     (case g_min_percent_selected g of Some m \<Rightarrow> m \<le> c * 10 ^ 18 div n | None \<Rightarrow> 0 < c)"

definition capped_points :: "gauge \<Rightarrow> nat \<Rightarrow> nat \<Rightarrow> nat" where
  "capped_points g n c =
     (case g_max_available_percentage g of
        Some m \<Rightarrow> if m < c * 10 ^ 18 div n then n * m div 10 ^ 18 else c
      | None \<Rightarrow> c)"

lemma qualifies_enough:
  assumes "c \<le> n" "n \<noteq> 0"
  shows "qualifies g n (c, opt) = enough_points g n c"
proof -
  have "c * 10 ^ 18 div n \<le> n * 10 ^ 18 div n" using assms by (intro div_le_mono) simp
  then have "c * 10 ^ 18 div n < u128_lim" using assms by (simp add: u128_lim_def)
  then have "decimal_from_ratio c n = (Ok (c * 10 ^ 18 div n) :: (gauge_error, nat) outcome)"
    using assms by (simp add: decimal_from_ratio_def u128_multiply_ratio_def decimal_one_def)
  then show ?thesis
    by (simp add: qualifies_def option_selected_def enough_points_def split: option.split)
qed

lemma available_power_capped:
  "available_power g n c = (Ok p :: (gauge_error, nat) outcome) \<Longrightarrow> p = capped_points g n c"
  by (auto simp: available_power_def capped_points_def decimal_from_ratio_def u128_mul_decimal_def
      outcome_simps arith_simps decimal_one_def split: option.splits if_splits)

lemma tally_le_total:
  assumes "gauge_reachable P s" "kv_get (gs_tally s) (i, opt) = Some c"
  shows "c \<le> kv_nat (gs_total_cast s) i"
proof -
  have "kv_at (\<lambda>_ n. n) (kv_prefix (gs_tally s) i) opt = c"
    using assms(2) by (simp add: kv_at_def kv_prefix_get)
  then show ?thesis
    using kv_at_le_sum [of "\<lambda>_ n. n" "kv_prefix (gs_tally s) i" opt] gauge_index_mirrors_tallies [OF assms(1), of i]
    by (simp add: kv_total_def kv_sum_def)
qed

lemma selected_set_cases:
  assumes "selected_set s i = Ok sel"
  obtains g n where "kv_get (gs_gauges s) i = Some g" "kv_get (gs_total_cast s) i = Some n"
    "is_resetting g \<or> n = 0" "sel = []"
  | g n where "kv_get (gs_gauges s) i = Some g" "kv_get (gs_total_cast s) i = Some n" "\<not> is_resetting g" "n \<noteq> 0"
    "select_loop g n (g_max_options_selected g) (rev (points_of s i)) = (Ok sel :: (gauge_error, _) outcome)"
  using assms
  by (auto simp: selected_set_def outcome_simps split: if_splits)

text \<open>The options that qualify, best first, are the tallied options with enough points.\<close>

lemma qualified_ranking:
  fixes g :: gauge
  assumes "gauge_reachable P s" "kv_nat (gs_total_cast s) i = n" "n \<noteq> 0"
  defines "es \<equiv> filter (qualifies g n) (rev (points_of s i))"
  shows "(c, opt) \<in> set es \<longleftrightarrow> kv_get (gs_tally s) (i, opt) = Some c \<and> enough_points g n c"
    and "sorted_wrt (>) es" and "distinct (map snd es)"
    and "length es = card {opt. \<exists>c. kv_get (gs_tally s) (i, opt) = Some c \<and> enough_points g n c}"
proof -
  have ix: "indexed s" using gauge_reachable_inv [OF assms(1)] by (simp add: gauge_inv_def tallies_ok_def)
  show mem: "(c, opt) \<in> set es \<longleftrightarrow> kv_get (gs_tally s) (i, opt) = Some c \<and> enough_points g n c" for c opt
    using gr.ranked_set [OF ix, of c opt i] tally_le_total [OF assms(1), of i opt c] qualifies_enough [of c n g opt] assms(2,3)
    by (auto simp: es_def)
  show "sorted_wrt (>) es" unfolding es_def by (rule sorted_wrt_filter) (rule gr.ranked_sorted [OF ix])
  show names: "distinct (map snd es)" unfolding es_def by (rule distinct_map_filter) (rule gr.ranked_distinct [OF ix])
  have "set (map snd es) = {opt. \<exists>c. kv_get (gs_tally s) (i, opt) = Some c \<and> enough_points g n c}"
    using mem by force
  then show "length es = card {opt. \<exists>c. kv_get (gs_tally s) (i, opt) = Some c \<and> enough_points g n c}"
    using distinct_card [OF names] by simp
qed

lemma selected_entry:
  assumes "map fst sel = map snd xs"
    and "list_all2 (\<lambda>(_, p) (c, _). available_power g n c = (Ok p :: (gauge_error, nat) outcome)) sel xs"
    and "(opt, p) \<in> set sel"
  shows "\<exists>c. (c, opt) \<in> set xs \<and> available_power g n c = (Ok p :: (gauge_error, nat) outcome)"
  using assms(2,1,3) by (induction rule: list_all2_induct) auto

lemma falling_firsts: "sorted_wrt (>) es \<Longrightarrow> sorted_wrt (\<ge>) (map fst (es :: (nat \<times> string) list))"
  by (induction es) (auto simp: less_prod_def')

lemma sorted_take_le:
  assumes "sorted_wrt (>) (take m es @ drop m es)" "(c, opt) \<in> set (take m es)"
    and "(c' :: nat, opt' :: string) \<in> set es" "(c', opt') \<notin> set (take m es)"
  shows "c' \<le> c"
proof -
  have "(c', opt') \<in> set (drop m es)"
    using assms(3,4) by (metis Un_iff append_take_drop_id set_append)
  with assms(1,2) have "(c', opt') < (c, opt)" unfolding sorted_wrt_append by blast
  then show ?thesis by (auto simp: less_prod_def')
qed

text \<open>C13: The selection of a gauge is exactly the best qualifying options.  A gauge that is resetting or
  holds no votes selects nothing.  Otherwise the selection is as long as the configured number and the
  qualifying options allow, names every option once, and holds only options with enough points, each
  with its points up to the greatest share; the tallied points fall along the selection, and an option
  that qualifies but was left out has no more of them than any selected one.\<close>

theorem gauge_selects_the_highest:
  assumes "gauge_reachable P s" "selected_set s i = Ok sel" "kv_get (gs_gauges s) i = Some g"
    and "kv_nat (gs_total_cast s) i = n"
  shows "if is_resetting g \<or> n = 0 then sel = [] else
    length sel = min (g_max_options_selected g)
      (card {opt. \<exists>c. kv_get (gs_tally s) (i, opt) = Some c \<and> enough_points g n c}) \<and>
    distinct (map fst sel) \<and> sorted_wrt (\<ge>) (map (\<lambda>e. kv_nat (gs_tally s) (i, fst e)) sel) \<and>
    (\<forall>(opt, p) \<in> set sel. \<exists>c. kv_get (gs_tally s) (i, opt) = Some c \<and> enough_points g n c \<and> p = capped_points g n c \<and>
       (\<forall>opt' c'. opt' \<notin> fst ` set sel \<longrightarrow> kv_get (gs_tally s) (i, opt') = Some c' \<longrightarrow> enough_points g n c' \<longrightarrow> c' \<le> c))"
  using assms(2)
proof (cases rule: selected_set_cases)
  case (2 g' n')
  have g: "g' = g" "n' = n" "n \<noteq> 0" using assms(3,4) 2 by (simp_all add: kv_nat_def)
  let ?es = "filter (qualifies g n) (rev (points_of s i))" and ?m = "g_max_options_selected g"
  note es = qualified_ranking [OF assms(1,4) g(3), where g = g]
  note loop = select_loop_take [OF 2(5) [unfolded g(1,2)]]
  have split: "sorted_wrt (>) (take ?m ?es @ drop ?m ?es)" using es(2) by simp
  have names: "fst ` set sel = snd ` set (take ?m ?es)" using loop(1) by (metis list.set_map)
  have "length sel = min ?m (length ?es)" using loop(1) by (metis length_map length_take min.commute)
  moreover have "distinct (map fst sel)" using es(3) by (simp add: loop(1) distinct_take flip: take_map)
  moreover have "sorted_wrt (\<ge>) (map (\<lambda>e. kv_nat (gs_tally s) (i, fst e)) sel)"
  proof -
    have "map (\<lambda>e. kv_nat (gs_tally s) (i, fst e)) sel = map (\<lambda>opt. kv_nat (gs_tally s) (i, opt)) (map fst sel)" by simp
    also have "\<dots> = map (\<lambda>e. kv_nat (gs_tally s) (i, snd e)) (take ?m ?es)" by (simp add: loop(1))
    also have "\<dots> = map fst (take ?m ?es)"
      using es(1) by (intro map_cong refl) (auto simp: kv_nat_def dest!: in_set_takeD)
    finally show ?thesis using split falling_firsts by (metis sorted_wrt_append)
  qed
  moreover have "\<exists>c. kv_get (gs_tally s) (i, opt) = Some c \<and> enough_points g n c \<and> p = capped_points g n c \<and>
       (\<forall>opt' c'. opt' \<notin> fst ` set sel \<longrightarrow> kv_get (gs_tally s) (i, opt') = Some c' \<longrightarrow> enough_points g n c' \<longrightarrow> c' \<le> c)"
    if in_sel: "(opt, p) \<in> set sel" for opt p
  proof -
    obtain c where c: "(c, opt) \<in> set (take ?m ?es)" "available_power g n c = (Ok p :: (gauge_error, _) outcome)"
      using selected_entry [OF loop in_sel] by blast
    have "c' \<le> c" if "opt' \<notin> fst ` set sel" "(c', opt') \<in> set ?es" for opt' c'
      using that c(1) sorted_take_le [OF split] by (force simp: names)
    with c es(1) show ?thesis by (auto dest!: in_set_takeD simp: available_power_capped)
  qed
  ultimately show ?thesis using 2 g es(4) by auto
qed (use assms(3,4) in \<open>auto simp: kv_nat_def\<close>)

theorem gauge_selects_the_highest_witness:
  "selected_set demo_gauge_voted 0 = Ok [(''x'', 130), (''y'', 120)] \<and>
   2 = min 2 (card {opt. \<exists>c. kv_get (gs_tally demo_gauge_voted) (0, opt) = Some c \<and> enough_points demo_gauge 260 c}) \<and>
   (\<exists>c. kv_get (gs_tally demo_gauge_voted) (0, ''x'') = Some c \<and> enough_points demo_gauge 260 c \<and> 130 = capped_points demo_gauge 260 c)"
proof -
  let ?S = "{opt. \<exists>c. kv_get (gs_tally demo_gauge_voted) (0, opt) = Some c \<and> enough_points demo_gauge 260 c}"
  have gauge: "kv_get (gs_gauges demo_gauge_voted) 0 = Some demo_gauge" "kv_nat (gs_total_cast demo_gauge_voted) 0 = 260"
    by (simp_all add: demo_gauge_voted_def demo_gauge_fresh_def)
  have running: "(is_resetting demo_gauge \<or> 260 = (0 :: nat)) = False" by (simp add: is_resetting_def demo_gauge_def)
  note best = gauge_selects_the_highest [OF demo_gauge_reachable demo_gauge_selected gauge, unfolded running if_False]
  have "length [(''x'', 130 :: nat), (''y'', 120)] = min (g_max_options_selected demo_gauge) (card ?S)"
    using best by (rule conjunct1)
  moreover from best have "\<exists>c. kv_get (gs_tally demo_gauge_voted) (0, ''x'') = Some c \<and> enough_points demo_gauge 260 c \<and>
      130 = capped_points demo_gauge 260 c"
    by simp (metis (no_types))
  ultimately show ?thesis using demo_gauge_selected by (simp add: demo_gauge_def)
qed

section \<open>Epochs\<close>

lemma sum_u128_Ok: "sum_u128 xs = (Ok n :: ('e, nat) outcome) \<Longrightarrow> n = sum_list xs"
proof -
  have run: "fold_ok (\<lambda>x acc. u128_add acc x) xs a = (Ok n :: ('e, nat) outcome) \<Longrightarrow> n = a + sum_list xs" for a
    by (induction xs arbitrary: a) (fastforce simp: outcome_simps arith_simps)+
  show "sum_u128 xs = (Ok n :: ('e, nat) outcome) \<Longrightarrow> n = sum_list xs"
    using run [of 0] by (simp add: sum_u128_def)
qed

text \<open>Shares rounded down add up to at most one.\<close>

lemma sum_div_le: "(\<Sum>x\<leftarrow>xs. x * k div (d::nat)) \<le> sum_list xs * k div d"
proof (induction xs)
  case (Cons x xs)
  have "x * k div d + sum_list xs * k div d \<le> (x * k + sum_list xs * k) div d"
    by (cases "d = 0") (simp_all add: div_add1_eq [of "x * k"])
  with Cons show ?case by (simp add: algebra_simps)
qed simp

lemma selected_shares_Ok:
  assumes "selected_shares sel = Ok vs"
  shows "map vote_option vs = map fst sel" "sum_list (map vote_weight vs) \<le> decimal_one"
proof -
  let ?n = "sum_list (map snd sel)"
  have shares: "map_ok (\<lambda>(opt, pw). and_then (decimal_from_ratio pw ?n) (\<lambda>w.
       Ok \<lparr> vote_option = opt, vote_weight = w \<rparr>)) sel = (Ok vs :: (gauge_error, _) outcome)"
    using assms sum_u128_Ok by (fastforce simp: selected_shares_def outcome_simps)
  have "map vote_option vs = map fst xs \<and> map vote_weight vs = map (\<lambda>p. p * decimal_one div n) (map snd xs)"
    if "map_ok (\<lambda>(opt, pw). and_then (decimal_from_ratio pw n) (\<lambda>w.
       Ok \<lparr> vote_option = opt, vote_weight = w \<rparr>)) xs = (Ok vs :: (gauge_error, _) outcome)" for n xs vs
    using that
    by (induction xs arbitrary: vs) (auto simp: outcome_simps decimal_from_ratio_def arith_simps)
  from this [OF shares] have vs: "map vote_option vs = map fst sel"
    "map vote_weight vs = map (\<lambda>p. p * decimal_one div ?n) (map snd sel)" by blast+
  then show "map vote_option vs = map fst sel" by blast
  have "sum_list (map vote_weight vs) \<le> ?n * decimal_one div ?n"
    unfolding vs(2) by (rule sum_div_le)
  also have "\<dots> \<le> decimal_one" by simp
  finally show "sum_list (map vote_weight vs) \<le> decimal_one" .
qed

text \<open>Executing a gauge closes exactly one epoch: the history gets one new record, the executed
  votes; the votes are sent to the staker, name the selected options in order and weigh at most one
  in total; tallies and recorded votes stay as they are, and the next epoch is the outer gauge's.\<close>

theorem gauge_execution_closes_the_epoch:
  assumes "execute_gauge H s e i = Ok (t, out)"
  shows "\<exists>config g w sel vs n. gs_config s = Some config \<and> kv_get (gs_gauges s) i = Some g \<and>
    wynd_gauge H (wynd_gauge_addr config) (g_wynd_gauge_id g) = Some w \<and>
    selected_set s i = Ok sel \<and> map vote_option vs = map fst sel \<and>
    sum_list (map vote_weight vs) \<le> decimal_one \<and>
    out = [\<lparr> pv_contract = wynd_staker config, pv_gauge = g_wynd_gauge_id g, pv_votes = Some vs \<rparr>] \<and>
    kv_get (gs_last_epoch s) i = Some n \<and> kv_get (gs_last_epoch t) i = Some (n + 1) \<and>
    gs_vote_history t = kv_set (gs_vote_history s) (i, n) \<lparr> vh_epoch = g_epoch g,
      vh_next_epoch = g_next_epoch g, vh_votes = vs, vh_executed = True \<rparr> \<and>
    kv_get (gs_gauges t) i = Some (g\<lparr> g_last_executed_set := Some sel, g_next_epoch := gr_next_epoch w \<rparr>) \<and>
    gs_tally t = gs_tally s \<and> gs_votes t = gs_votes s"
  using assms
proof (cases rule: execute_gauge_cases)
  case (1 g config w sel vs g')
  note shares = selected_shares_Ok [OF 1(7)]
  let ?rec = "\<lparr> vh_epoch = g_epoch g, vh_next_epoch = g_next_epoch g, vh_votes = vs, vh_executed = True \<rparr>"
  from 1(8) obtain n where n: "kv_get (gs_last_epoch s) i = Some n"
    and hist: "gs_vote_history t = kv_set (gs_vote_history s) (i, n) ?rec"
    and eps: "kv_get (gs_last_epoch t) i = Some (n + 1)"
    and gauge: "kv_get (gs_gauges t) i = Some (g\<lparr> g_last_executed_set := Some sel, g_next_epoch := gr_next_epoch w \<rparr>)"
    and same: "gs_tally t = gs_tally s" "gs_votes t = gs_votes s"
    by (auto simp: update_epoch_Ok)
  show ?thesis
    by (intro exI [of _ config] exI [of _ g] exI [of _ w] exI [of _ sel] exI [of _ vs] exI [of _ n] conjI
        1(1,2,4,6,9) shares n hist eps gauge same)
qed

theorem gauge_execution_closes_the_epoch_witness:
  "kv_get (gs_last_epoch demo_gauge_voted) 0 = Some 0 \<and> kv_get (gs_last_epoch demo_gauge_executed) 0 = Some 1"
  using gauge_execution_closes_the_epoch [OF demo_gauge_run]
  by (auto simp: demo_gauge_voted_sel)

text \<open>The vote history of a gauge has a record for exactly the epochs that were closed, from the
  first to the last, whether executed or skipped.\<close>

theorem gauge_history_is_complete:
  assumes "gauge_reachable P s"
  shows "kv_get (gs_vote_history s) (i, n) \<noteq> None \<longleftrightarrow> (\<exists>m. kv_get (gs_last_epoch s) i = Some m \<and> n < m)"
  using gauge_reachable_inv [OF assms] by (auto simp: gauge_inv_def epochs_ok_def)

lemma demo_gauge_executed_reachable: "gauge_reachable demo_platform demo_gauge_executed"
  by (rule gauge_reachable.stepped [OF demo_gauge_reachable, where msg = "Execute_gauge 0"])
    (simp, rule demo_gauge_run)

theorem gauge_history_is_complete_witness:
  "kv_get (gs_vote_history demo_gauge_executed) (0, 0) \<noteq> None \<and>
   kv_get (gs_vote_history demo_gauge_executed) (0, 1) = None"
  using gauge_history_is_complete [OF demo_gauge_executed_reachable, of 0 0]
    gauge_history_is_complete [OF demo_gauge_executed_reachable, of 0 1]
  by (simp add: demo_gauge_executed_def)

text \<open>Between the moment a gauge was executed and the start of the next pending window of the
  outer gauge's next epoch, executing it again is refused.\<close>

theorem gauge_executes_once_per_epoch:
  assumes "execute_gauge H s e i = Ok (t, out)"
    and "gs_config s = Some config" "kv_get (gs_gauges s) i = Some g"
    and "wynd_gauge H (wynd_gauge_addr config) (g_wynd_gauge_id g) = Some w"
    and "seconds (block e') + g_epoch_pending_size g \<le> gr_next_epoch w"
    and "wynd_gauge H' (wynd_gauge_addr config) (g_wynd_gauge_id g) = Some w'"
  shows "execute_gauge H' t e' i = Err (Gauge_no_pending i)"
  using assms(1)
proof (cases rule: execute_gauge_cases)
  case (1 g2 config2 w2 sel vs g')
  have same: "g2 = g" "config2 = config" "w2 = w" using assms(2-4) 1(1,2,4) by simp_all
  have t: "kv_get (gs_gauges t) i = Some (g\<lparr> g_last_executed_set := Some sel, g_next_epoch := gr_next_epoch w \<rparr>)"
    "gs_config t = Some config"
    using 1(8) assms(2) by (auto simp: update_epoch_Ok same)
  have "\<not> gr_next_epoch w - g_epoch_pending_size g < seconds (block e')"
    using assms(5) by simp
  then show ?thesis
    using assms(5,6) 1(3)
    by (simp add: execute_gauge_def load_gauge_def load_gauge_config_def t same is_pending_def u64_sub_def)
qed

theorem gauge_executes_once_per_epoch_witness:
  "execute_gauge (gauge_demo_host 3000) demo_gauge_executed (gauge_env 1900) 0 = Err (Gauge_no_pending 0)"
  by (rule gauge_executes_once_per_epoch [OF demo_gauge_run, where g = demo_gauge and w = "outer_gauge 2000"
        and w' = "outer_gauge 3000"])
    (simp_all add: demo_gauge_voted_sel demo_gauge_def gauge_demo_host_def outer_gauge_def)

text \<open>At no moment can a gauge both take votes and be executed.\<close>

theorem gauge_voting_and_execution_exclude:
  assumes "place_votes H s e who i vs = Ok t"
  shows "execute_gauge H s e i \<noteq> Ok r"
proof
  assume ex: "execute_gauge H s e i = Ok r"
  obtain t' out where r: "r = (t', out)" by force
  show False
    using assms
  proof (cases rule: place_votes_cases)
    case placed: (1 g0 config s1 g vs pw prev ds s2)
    from placed(3) obtain w where w: "wynd_gauge H (wynd_gauge_addr config) (g_wynd_gauge_id g0) = Some w"
      "is_pending g0 (seconds (block e)) w = (Ok False :: (gauge_error, bool) outcome)"
      by (rule enter_epoch_Ok) blast
    show False
      using ex [unfolded r]
    proof (cases rule: execute_gauge_cases)
      case (1 g' config' w' sel vs' g'')
      with placed(1,2) w show False by simp
    qed
  qed
qed

theorem gauge_voting_and_execution_exclude_witness:
  "execute_gauge (gauge_demo_host 1000) demo_gauge_ann (gauge_env 60) 0 \<noteq> Ok (demo_gauge_ann, [])"
proof -
  have "place_votes (gauge_demo_host 1000) demo_gauge_ann (gauge_env 60) ''bob'' 0 (Some [share ''y'' 10]) = Ok demo_gauge_voted"
    using demo_gauge_bob_voted by (simp add: outcome_simps)
  then show ?thesis by (rule gauge_voting_and_execution_exclude)
qed

section \<open>Removed options\<close>

text \<open>A voter whose recorded vote gives points to an option that the owner has removed can
  neither withdraw the vote nor replace it by one without the removed option: such a request never
  succeeds.\<close>

theorem removed_option_traps_its_voters:
  assumes "gauge_reachable P s" "hash_orders H"
    and "kv_get (gs_votes s) (vote_key who i) = Some v" "names_once (wv_votes v)"
    and "0 < vote_points (wv_power v) (wv_votes v) opt" "kv_get (gs_tally s) (i, opt) = None"
    and "\<forall>vs. new_votes = Some vs \<longrightarrow> names_once vs \<and> opt \<notin> vote_option ` set vs"
  shows "place_votes H s e who i new_votes \<noteq> Ok t"
proof
  assume "place_votes H s e who i new_votes = Ok t"
  then show False
  proof (cases rule: place_votes_cases)
    case (1 g0 config s1 g vs pw prev ds s2)
    note entered = enter_epoch_keeps [OF 1(3) gauge_reachable_inv [OF assms(1)] 1(1)]
    have prev: "prev = v" using 1(8) assms(3) entered(2,4) by (simp add: may_load_votes_def)
    have vs: "names_once vs" "opt \<notin> vote_option ` set vs"
      using 1(5) assms(7) by (auto simp: names_once_def split: option.splits)
    have "olds_of ds opt = vote_points (wv_power v) (wv_votes v) opt" "news_of ds opt = 0"
      using vote_changes_counts [OF 1(9) assms(2), of opt] assms(4) vs by (simp_all add: prev vote_points_absent)
    moreover have "kv_nat (gs_tally s1) (i, opt) = 0" using assms(6) entered(5) by (simp add: kv_nat_def)
    ultimately show False using update_tallies_counts [OF 1(11), of i opt] assms(5) by simp
  qed
qed

definition demo_gauge_removed :: gauge_state where
  "demo_gauge_removed = demo_gauge_voted\<lparr> gs_total_cast := [(0, 120)],
     gs_tally := [((0, ''y''), 120), ((0, ''z''), 0)],
     gs_points := [((0, 0, ''z''), 1), ((0, 120, ''y''), 1)] \<rparr>"

lemma demo_gauge_removed_reachable: "gauge_reachable demo_platform demo_gauge_removed"
  by (rule gauge_reachable.stepped [OF demo_gauge_reachable, where msg = "Remove_option 0 ''x''"
        and H = "gauge_demo_host 1000" and e = "gauge_env 70" and info = "\<lparr> sender = ''owner'' \<rparr>" and out = "[]"])
    (simp add: silent_def remove_option_def remove_tally_def demo_gauge_removed_def demo_gauge_voted_def
      demo_gauge_fresh_def load_gauge_config_def kv_del_def u128_sub_def Let_def)

theorem removed_option_traps_its_voters_witness:
  "place_votes (gauge_demo_host 1000) demo_gauge_removed (gauge_env 80) ''ann'' 0 None \<noteq> Ok demo_gauge_removed"
  by (rule removed_option_traps_its_voters [OF demo_gauge_removed_reachable, where v = ann_votes and opt = "''x''"])
    (simp_all add: demo_gauge_removed_def demo_gauge_defs vote_key_def names_once_def)

end
