(* ===== verification/Distribution.thy ===== *)
theory Distribution
  imports Store
begin

text \<open>
  The payment stream of \<open>contracts/distribution\<close>: a fixed amount of a token per epoch, paid out
  to one recipient when anybody asks for it.  Whatever the times of the requests, the total
  paid is the closed form \<open>payment * whole epochs elapsed\<close>.
\<close>

section \<open>State and messages\<close>

datatype dist_error = Dist_std std_error | Dist_unauthorized | Epoch_not_complete

record dist_config =
  cw20_contract :: addr
  epoch :: nat
  payment :: nat
  dist_recipient :: addr
  dist_admin :: addr
  last_payment :: nat

record dist_state =
  dist_version :: "(string \<times> string) option"
  dist_config_item :: "dist_config option"

record dist_instantiate_msg =
  im_cw20_contract :: string
  im_epoch :: nat
  im_payment :: nat
  im_recipient :: string
  im_admin :: string

text \<open>The messages sent: a token transfer, and the request to the recipient to distribute it.\<close>

datatype dist_out =
    Token_transfer addr string nat
  | Distribute_rewards addr

datatype dist_msg =
    Update_config "string option" "nat option" "nat option" "string option" "string option"
  | Payout

definition dist_contract_name :: string where "dist_contract_name = ''crates.io:syne-distribution''"
definition dist_contract_version :: string where "dist_contract_version = ''1.0.0''"

section \<open>Operations\<close>

definition dist_instantiate ::
  "platform \<Rightarrow> env \<Rightarrow> dist_instantiate_msg \<Rightarrow> (dist_error, dist_state) outcome"
where
  "dist_instantiate P e msg =
     and_then (map_err Dist_std (addr_validate P (im_cw20_contract msg))) (\<lambda>t.
     and_then (map_err Dist_std (addr_validate P (im_recipient msg))) (\<lambda>r.
     and_then (map_err Dist_std (addr_validate P (im_admin msg))) (\<lambda>a.
     Ok \<lparr> dist_version = Some (dist_contract_name, dist_contract_version),
          dist_config_item = Some \<lparr> cw20_contract = t, epoch = im_epoch msg, payment = im_payment msg,
            dist_recipient = r, dist_admin = a, last_payment = seconds (block e) \<rparr> \<rparr>)))"

definition load_dist_config :: "dist_state \<Rightarrow> (dist_error, dist_config) outcome" where
  "load_dist_config s = map_err Dist_std (ok_or (Not_found ''Config'') (dist_config_item s))"

text \<open>An optional new address: validated when present, the old one otherwise.\<close>

definition new_addr :: "platform \<Rightarrow> string option \<Rightarrow> addr \<Rightarrow> (dist_error, addr) outcome" where
  "new_addr P x old = (case x of Some a \<Rightarrow> map_err Dist_std (addr_validate P a) | None \<Rightarrow> Ok old)"

definition dist_execute_update_config ::
  "platform \<Rightarrow> dist_state \<Rightarrow> message_info \<Rightarrow> string option \<Rightarrow> nat option \<Rightarrow> nat option
     \<Rightarrow> string option \<Rightarrow> string option \<Rightarrow> (dist_error, dist_state \<times> dist_out list) outcome"
where
  "dist_execute_update_config P s info token_addr new_epoch new_payment rcpt adm =
     and_then (load_dist_config s) (\<lambda>c.
     if sender info \<noteq> dist_admin c then Err Dist_unauthorized
     else
     and_then (new_addr P token_addr (cw20_contract c)) (\<lambda>t.
     and_then (new_addr P rcpt (dist_recipient c)) (\<lambda>r.
     and_then (new_addr P adm (dist_admin c)) (\<lambda>a.
     Ok (s\<lparr> dist_config_item := Some (c\<lparr> cw20_contract := t,
           epoch := (case new_epoch of Some n \<Rightarrow> n | None \<Rightarrow> epoch c),
           payment := (case new_payment of Some n \<Rightarrow> n | None \<Rightarrow> payment c),
           dist_recipient := r, dist_admin := a \<rparr>) \<rparr>, [])))))"

definition execute_payout :: "dist_state \<Rightarrow> env \<Rightarrow> (dist_error, dist_state \<times> dist_out list) outcome"
where
  "execute_payout s e =
     and_then (load_dist_config s) (\<lambda>c.
     and_then (u64_sub (seconds (block e)) (last_payment c)) (\<lambda>elapsed.
     and_then (u64_div elapsed (epoch c)) (\<lambda>epochs.
     if epochs = 0 then Err Epoch_not_complete
     else
     and_then (u64_mul epochs (epoch c)) (\<lambda>span.
     and_then (u64_add (last_payment c) span) (\<lambda>t.
     let s' = s\<lparr> dist_config_item := Some (c\<lparr> last_payment := t \<rparr>) \<rparr> in
     if payment c = 0 then Ok (s', [])
     else
     and_then (u128_mul (payment c) epochs) (\<lambda>amount.
     Ok (s', [Token_transfer (cw20_contract c) (dist_recipient c) amount,
              Distribute_rewards (dist_recipient c)])))))))"

fun dist_execute ::
  "platform \<Rightarrow> dist_state \<Rightarrow> env \<Rightarrow> message_info \<Rightarrow> dist_msg
     \<Rightarrow> (dist_error, dist_state \<times> dist_out list) outcome"
where
  "dist_execute P s e info (Update_config t n p r a) = dist_execute_update_config P s info t n p r a"
| "dist_execute P s e info Payout = execute_payout s e"

definition dist_query_config :: "dist_state \<Rightarrow> (std_error, dist_config) outcome" where
  "dist_query_config s = ok_or (Not_found ''Config'') (dist_config_item s)"

definition dist_migrate ::
  "((string \<times> string) option \<Rightarrow> string \<Rightarrow> string
      \<Rightarrow> (std_error, string \<times> (string \<times> string) option) outcome)
     \<Rightarrow> dist_state \<Rightarrow> (dist_error, dist_state) outcome"
where
  "dist_migrate ensure_older s =
     and_then (map_err Dist_std (ensure_older (dist_version s) dist_contract_name dist_contract_version))
       (\<lambda>(original, v). Ok (s\<lparr> dist_version := v \<rparr>))"

section \<open>Sequences of requests\<close>

fun paid_out :: "dist_out list \<Rightarrow> nat" where
  "paid_out [] = 0"
| "paid_out (Token_transfer c r n # ms) = n + paid_out ms"
| "paid_out (Distribute_rewards r # ms) = paid_out ms"

text \<open>Requests at the given blocks; one that fails leaves the state as it is and pays nothing.\<close>

fun requests :: "platform \<Rightarrow> dist_state \<Rightarrow> (env \<times> message_info) list \<Rightarrow> dist_state \<times> nat" where
  "requests P s [] = (s, 0)"
| "requests P s ((e, info) # es) =
     (case dist_execute P s e info Payout of
        Ok (s', out) \<Rightarrow> (case requests P s' es of (t, n) \<Rightarrow> (t, paid_out out + n))
      | _ \<Rightarrow> requests P s es)"

definition ascending :: "nat \<Rightarrow> (env \<times> message_info) list \<Rightarrow> bool" where
  "ascending t es \<longleftrightarrow> sorted (t # map (\<lambda>e. seconds (block (fst e))) es)"

text \<open>A payout in closed form.\<close>

lemma payout_iff:
  assumes "dist_config_item s = Some c" and "last_payment c \<le> seconds (block e)" and "0 < epoch c"
    and "seconds (block e) < u64_lim" and "payment c * ((seconds (block e) - last_payment c) div epoch c) < u128_lim"
  shows "execute_payout s e =
    (let k = (seconds (block e) - last_payment c) div epoch c in
     if k = 0 then Err Epoch_not_complete
     else Ok (s\<lparr> dist_config_item := Some (c\<lparr> last_payment := last_payment c + k * epoch c \<rparr>) \<rparr>,
       if payment c = 0 then []
       else [Token_transfer (cw20_contract c) (dist_recipient c) (payment c * k),
             Distribute_rewards (dist_recipient c)]))"
proof -
  let ?d = "seconds (block e) - last_payment c"
  have "?d div epoch c * epoch c \<le> ?d" by simp
  then have "?d div epoch c * epoch c < u64_lim" "last_payment c + ?d div epoch c * epoch c < u64_lim"
    using assms(2,4) by linarith+
  with assms show ?thesis
    by (simp add: execute_payout_def load_dist_config_def u64_sub_def u64_div_def u64_mul_def u64_add_def
        u128_mul_def Let_def)
qed

lemma requests_closed_form:
  assumes "dist_config_item s = Some c" and "0 < epoch c" and "ascending (last_payment c) es" and "es \<noteq> []"
    and "T = seconds (block (fst (last es)))" and "T < u64_lim"
    and "payment c * ((T - last_payment c) div epoch c) < u128_lim"
  shows "requests P s es =
    (s\<lparr> dist_config_item := Some (c\<lparr> last_payment := last_payment c + (T - last_payment c) div epoch c * epoch c \<rparr>) \<rparr>,
     payment c * ((T - last_payment c) div epoch c))"
  using assms
proof (induction es arbitrary: s c)
  case (Cons x es)
  obtain e info where x: "x = (e, info)" by force
  let ?t = "seconds (block e)"
  let ?k = "(?t - last_payment c) div epoch c"
  have t: "last_payment c \<le> ?t" using Cons.prems(3) by (simp add: ascending_def x)
  have tT: "?t \<le> T"
    using Cons.prems(3,5) by (cases es rule: rev_cases) (auto simp: ascending_def x)
  then have kT: "?k \<le> (T - last_payment c) div epoch c" by (simp add: diff_le_mono div_le_mono)
  then have "payment c * ?k \<le> payment c * ((T - last_payment c) div epoch c)" by (rule mult_le_mono2)
  from this Cons.prems(7) have lim: "payment c * ?k < u128_lim" by (rule le_less_trans)
  note pay = payout_iff [OF Cons.prems(1) t Cons.prems(2) _ lim]
  let ?c = "c\<lparr> last_payment := last_payment c + ?k * epoch c \<rparr>"
  let ?s = "s\<lparr> dist_config_item := Some ?c \<rparr>"
  have kt: "last_payment c + ?k * epoch c \<le> ?t"
    using t div_times_less_eq_dividend [of "?t - last_payment c" "epoch c"] by linarith
  have split: "(T - last_payment c) div epoch c =
      ?k + (T - (last_payment c + ?k * epoch c)) div epoch c"
  proof -
    have "T - last_payment c = ?k * epoch c + (T - (last_payment c + ?k * epoch c))"
      using kt tT by simp
    then show ?thesis using Cons.prems(2) by (metis div_mult_self3 less_irrefl)
  qed
  have step: "requests P s (x # es) = (case requests P ?s es of (u, n) \<Rightarrow> (u, payment c * ?k + n))"
  proof (cases "?k = 0")
    case True
    have "requests P s (x # es) = requests P s es"
      using pay True tT Cons.prems(6) by (simp add: x)
    moreover have "?s = s" using True Cons.prems(1) by simp
    ultimately show ?thesis using True by (simp split: prod.split)
  next
    case False
    then show ?thesis using pay tT Cons.prems(6) by (auto simp: x Let_def split: prod.split)
  qed
  show ?case
  proof (cases es)
    case Nil
    with Cons.prems(5) have "T = ?t" by (simp add: x)
    with step Nil show ?thesis by simp
  next
    case (Cons y ys)
    have "requests P ?s es = (?s\<lparr> dist_config_item := Some (?c\<lparr> last_payment :=
          last_payment ?c + (T - last_payment ?c) div epoch ?c * epoch ?c \<rparr>) \<rparr>,
       payment ?c * ((T - last_payment ?c) div epoch ?c))"
    proof (rule Cons.IH)
      show "ascending (last_payment ?c) es"
        using Cons.prems(3) kt Cons by (auto simp: ascending_def x)
      have "payment c * ((T - (last_payment c + ?k * epoch c)) div epoch c)
          \<le> payment c * ((T - last_payment c) div epoch c)" using split by (intro mult_le_mono2) simp
      from le_less_trans [OF this Cons.prems(7)]
      show "payment ?c * ((T - last_payment ?c) div epoch ?c) < u128_lim" by simp
    qed (use Cons.prems Cons in simp_all)
    with step split show ?thesis by (simp add: algebra_simps)
  qed
qed simp


section \<open>Properties\<close>

definition demo_dist_msg :: dist_instantiate_msg where
  "demo_dist_msg = \<lparr> im_cw20_contract = ''token'', im_epoch = 100, im_payment = 7, im_recipient = ''farm'',
     im_admin = ''boss'' \<rparr>"

definition demo_dist_env :: "nat \<Rightarrow> env" where
  "demo_dist_env t = \<lparr> block = \<lparr> block_height = t, block_time = t * 1000000000 \<rparr>, contract_address = ''stream'' \<rparr>"

lemma demo_dist_seconds [simp]: "seconds (block (demo_dist_env t)) = t"
  by (simp add: demo_dist_env_def seconds_def)

definition demo_dist :: dist_state where
  "demo_dist = \<lparr> dist_version = Some (dist_contract_name, dist_contract_version),
     dist_config_item = Some \<lparr> cw20_contract = ''token'', epoch = 100, payment = 7, dist_recipient = ''farm'',
       dist_admin = ''boss'', last_payment = 1000 \<rparr> \<rparr>"

lemma demo_dist_start: "dist_instantiate demo_platform (demo_dist_env 1000) demo_dist_msg = Ok demo_dist"
  by (simp add: dist_instantiate_def demo_dist_msg_def demo_dist_def demo_platform_def)

text \<open>
  C14: The payment stream pays exactly its rate: starting from a deployment with a positive epoch,
  after any sequence of payout requests by anybody at non-decreasing times, failed requests
  included, the total transferred is the payment times the whole epochs between the deployment
  and the last request, whether the requests came often or rarely; the first unpaid epoch
  starts where the last paid one ended.
\<close>

theorem stream_pays_per_epoch:
  assumes "dist_instantiate P e0 msg = Ok s" and "0 < im_epoch msg"
    and "ascending (seconds (block e0)) es" and "es \<noteq> []"
    and "T = seconds (block (fst (last es)))" and "T < 2 ^ 64"
    and "im_payment msg * ((T - seconds (block e0)) div im_epoch msg) < 2 ^ 128"
  shows "\<exists>t c. requests P s es = (t, im_payment msg * ((T - seconds (block e0)) div im_epoch msg))
    \<and> dist_config_item t = Some c
    \<and> last_payment c = seconds (block e0) + (T - seconds (block e0)) div im_epoch msg * im_epoch msg"
proof -
  from assms(1) obtain c where c: "dist_config_item s = Some c" "epoch c = im_epoch msg"
    "payment c = im_payment msg" "last_payment c = seconds (block e0)"
    by (auto simp: dist_instantiate_def outcome_simps)
  from requests_closed_form [OF c(1), of es T P] assms c(2-4) show ?thesis
    by (simp add: u64_lim_def u128_lim_def)
qed

theorem stream_pays_per_epoch_witness:
  "\<exists>t. requests demo_platform demo_dist
     [(demo_dist_env 1050, \<lparr> sender = ''ann'' \<rparr>), (demo_dist_env 1130, \<lparr> sender = ''bob'' \<rparr>),
      (demo_dist_env 1420, \<lparr> sender = ''ann'' \<rparr>)] = (t, 28)"
  using stream_pays_per_epoch [OF demo_dist_start, of "[(demo_dist_env 1050, \<lparr> sender = ''ann'' \<rparr>),
      (demo_dist_env 1130, \<lparr> sender = ''bob'' \<rparr>), (demo_dist_env 1420, \<lparr> sender = ''ann'' \<rparr>)]" 1420]
  by (auto simp: demo_dist_msg_def ascending_def)

text \<open>
  Only the admin changes the terms of the stream: any other message keeps the token, the
  epoch, the payment, the recipient and the admin, and can only move the last payment forward
  to a time that has passed.
\<close>

theorem stream_terms_need_the_admin:
  assumes "dist_execute P s e info msg = Ok (s', out)" and "dist_config_item s = Some c"
    and "sender info \<noteq> dist_admin c"
  shows "\<exists>t. dist_config_item s' = Some (c\<lparr> last_payment := t \<rparr>) \<and> last_payment c < t \<and> t \<le> seconds (block e)"
proof (cases msg)
  case Payout
  with assms obtain k where k: "last_payment c \<le> seconds (block e)" "epoch c \<noteq> 0"
    "k = (seconds (block e) - last_payment c) div epoch c" "k \<noteq> 0"
    "dist_config_item s' = Some (c\<lparr> last_payment := last_payment c + k * epoch c \<rparr>)"
    by (auto simp: execute_payout_def load_dist_config_def outcome_simps arith_simps Let_def split: if_splits)
  have "k * epoch c \<le> seconds (block e) - last_payment c" by (simp add: k(3))
  with k(1) have "last_payment c + k * epoch c \<le> seconds (block e)" by linarith
  moreover have "last_payment c < last_payment c + k * epoch c" using k(2,4) by simp
  ultimately show ?thesis using k(5) by blast
next
  case (Update_config t n p r a)
  with assms show ?thesis
    by (auto simp: dist_execute_update_config_def load_dist_config_def outcome_simps)
qed

theorem stream_terms_need_the_admin_witness:
  "\<exists>s' out t. dist_execute demo_platform demo_dist (demo_dist_env 1250) \<lparr> sender = ''ann'' \<rparr> Payout = Ok (s', out)
     \<and> dist_config_item s' = Some ((the (dist_config_item demo_dist))\<lparr> last_payment := t \<rparr>)"
proof -
  obtain s' out where s': "dist_execute demo_platform demo_dist (demo_dist_env 1250) \<lparr> sender = ''ann'' \<rparr> Payout = Ok (s', out)"
    by (simp add: execute_payout_def load_dist_config_def demo_dist_def checked_int_defs Let_def)
  obtain c where "dist_config_item demo_dist = Some c" "dist_admin c = ''boss''"
    by (simp add: demo_dist_def)
  with stream_terms_need_the_admin [OF s' this(1)] s' show ?thesis by auto
qed

end
