(* ===== verification/Choice.thy ===== *)
theory Choice
  imports Store
begin

text \<open>
  The multiple-choice proposals of \<open>contracts/syneswap_loop_multiple_choice_proposal\<close>: holders
  distribute their voting power over the pools of a proposal of the outer LOOP gauge, and the
  executed result is voted for there by the staker contract.  What other contracts answer (the
  LOOP gauge, the staking contract), the comparison of expirations and the serialised size of a
  proposal are the parameter \<open>H\<close>.  The unused copies of thresholds and vote counts in
  \<open>threshold.rs\<close> and \<open>voting.rs\<close> are not modelled.
\<close>

section \<open>Data\<close>

datatype mc_status =
    Mc_open | Mc_voting_closed | Mc_passed | Mc_executed | Mc_closed | Mc_execution_failed
  | Mc_rejected | Mc_time_out

definition mc_status_text :: "mc_status \<Rightarrow> string" where
  "mc_status_text st = (case st of
      Mc_open \<Rightarrow> ''open'' | Mc_voting_closed \<Rightarrow> ''voting closed'' | Mc_passed \<Rightarrow> ''passed''
    | Mc_executed \<Rightarrow> ''executed'' | Mc_rejected \<Rightarrow> ''rejected'' | Mc_time_out \<Rightarrow> ''timeout''
    | Mc_closed \<Rightarrow> ''closed'' | Mc_execution_failed \<Rightarrow> ''execution failed'')"

record mc_vote =
  mv_pool :: string
  mv_percentage :: nat

record mc_choice =
  ch_pool :: string
  ch_power :: nat  \<comment> \<open>\<open>votes.power\<close>\<close>

record mc_ballot =
  mb_power :: nat
  mb_vote :: mc_vote
  mb_time :: nat

record mc_proposal =
  mp_title :: string
  mp_description :: string
  mp_proposer :: addr
  mp_expiration :: expiration
  mp_voting_period :: duration
  mp_pending_period :: duration
  mp_status :: mc_status
  mp_allow_revoting :: bool
  mp_total_power :: nat
  mp_voting_start_time :: nat
  mp_choices :: "mc_choice list"
  mp_amount :: nat
  mp_loop_gauge :: string
  mp_loop_id :: nat  \<comment> \<open>\<open>loop_gauge_proposal_id\<close>\<close>

text \<open>A proposal of the outer gauge: the fields the contract reads, the options by their pools.\<close>

record loop_proposal =
  lp_expiration :: expiration
  lp_voting_period :: duration
  lp_status :: mc_status
  lp_voting_start_time :: nat
  lp_options :: "string option list"

record mc_history =
  mh_time :: nat
  mh_status :: mc_status
  mh_total_power :: nat
  mh_choices :: "mc_choice list"
  mh_voting_start_time :: nat
  mh_expiration :: expiration

record mc_execution =
  me_version :: nat
  me_status :: mc_status

record mc_config =
  mcc_max_voting_period :: duration
  mcc_min_voting_period :: duration
  mcc_min_pending_period :: duration
  mcc_dao :: string
  mcc_admin :: addr
  mcc_creation_limit :: nat
  mcc_hold_duration :: nat
  mcc_loop_gauge :: string
  mcc_loop_staker :: string
  mcc_only_members :: bool
  mcc_default_limit :: nat
  mcc_max_limit :: nat

text \<open>
  The storage.  A ballot is stored under the decimal text \<open>id.version\<close>, the voter and the pool;
  the text determines the two numbers, which stand for it here.  The encoding of the voter puts
  its length first, so the key does too.
\<close>

type_synonym mc_key = "(nat \<times> nat) \<times> (nat \<times> addr) \<times> string"

definition mc_key :: "nat \<Rightarrow> nat \<Rightarrow> addr \<Rightarrow> string \<Rightarrow> mc_key" where
  "mc_key pid ver who pool = ((pid, ver), (length who, who), pool)"

record mc_state =
  mc_version_info :: "string \<times> string"
  mc_conf :: mc_config
  mc_count :: nat
  mc_version :: "(nat, nat) kv"
  mc_proposals :: "(nat, mc_proposal) kv"
  mc_ballots :: "(mc_key, mc_ballot) kv"
  mc_locked :: "(addr, nat) kv"  \<comment> \<open>\<open>PROPOSERS_INFO\<close>\<close>
  mc_pool_amounts :: "(nat \<times> nat, nat) kv"
  mc_executions :: "(nat \<times> nat, mc_execution) kv"
  mc_histories :: "(nat \<times> nat, mc_history) kv"

text \<open>
  The other contracts: the durations and balances of the staking contract, the proposals of
  the outer gauge (\<open>None\<close> for a failed query).  \<open>later a b\<close> stands for
  \<open>a.partial_cmp(&b) == Some(Ordering::Greater)\<close>.
\<close>

record mc_host =
  mh_durations :: "string \<Rightarrow> (std_error, nat list) outcome"
  mh_balance :: "string \<Rightarrow> addr \<Rightarrow> nat \<Rightarrow> nat option"
  mh_loop :: "string \<Rightarrow> nat \<Rightarrow> loop_proposal option"
  mh_later :: "expiration \<Rightarrow> expiration \<Rightarrow> bool"
  mh_size :: "mc_proposal \<Rightarrow> nat"

definition mc_contract_name :: string where "mc_contract_name = ''crates.io:cwd-proposal-single''"
definition mc_contract_version :: string where "mc_contract_version = ''1.0.0''"

section \<open>Periods\<close>

fun mc_validate_periods ::
  "duration \<Rightarrow> duration \<Rightarrow> duration \<Rightarrow> (std_error, duration \<times> duration \<times> duration) outcome"
where
  "mc_validate_periods (Time a) (Time p) (Time b) =
     (if a \<le> b \<and> p \<le> b then Ok (Time a, Time p, Time b) else Err (Generic_err ''Invalid voting period''))"
| "mc_validate_periods (Height a) (Height p) (Height b) =
     (if a \<le> b \<and> p \<le> b then Ok (Height a, Height p, Height b) else Err (Generic_err ''Invalid voting period''))"
| "mc_validate_periods _ _ _ = Err (Generic_err ''Duration Minutes conflict'')"

fun mc_verify_period :: "duration \<Rightarrow> duration \<Rightarrow> duration \<Rightarrow> bool" where
  "mc_verify_period (Time vp) (Time lo) (Time hi) = (vp \<ge> lo \<and> vp \<le> hi)"
| "mc_verify_period _ _ _ = False"

text \<open>\<open>Timestamp::plus_seconds\<close> and the addition of heights are checked.\<close>

fun is_expired_custom :: "expiration \<Rightarrow> block_info \<Rightarrow> duration \<Rightarrow> ('e, bool) outcome" where
  "is_expired_custom (At_time t) b (Time d) =
     and_then (u64_mul d 1000000000) (\<lambda>n.
     and_then (u64_add (block_time b) n) (\<lambda>m. Ok (m \<ge> t)))"
| "is_expired_custom (At_height h) b (Height d) = and_then (u64_add (block_height b) d) (\<lambda>m. Ok (m \<ge> h))"
| "is_expired_custom _ b _ = Ok False"

definition mc_current_status :: "platform \<Rightarrow> block_info \<Rightarrow> mc_proposal \<Rightarrow> mc_status" where
  "mc_current_status P b p =
     (if mp_status p = Mc_open \<and> is_expired P (mp_expiration p) b then Mc_voting_closed else mp_status p)"

definition mc_current_status_custom :: "block_info \<Rightarrow> mc_proposal \<Rightarrow> ('e, mc_status) outcome" where
  "mc_current_status_custom b p =
     (if mp_status p = Mc_open then
        and_then (is_expired_custom (mp_expiration p) b (mp_pending_period p)) (\<lambda>x.
        Ok (if x then Mc_voting_closed else mp_status p))
      else Ok (mp_status p))"

definition mc_update_status :: "platform \<Rightarrow> block_info \<Rightarrow> mc_proposal \<Rightarrow> mc_proposal" where
  "mc_update_status P b p = p\<lparr> mp_status := mc_current_status P b p \<rparr>"

definition lp_current_status :: "platform \<Rightarrow> block_info \<Rightarrow> loop_proposal \<Rightarrow> mc_status" where
  "lp_current_status P b l =
     (if lp_status l = Mc_open \<and> is_expired P (lp_expiration l) b then Mc_voting_closed else lp_status l)"

section \<open>The result of a vote\<close>

definition u32_lim :: nat where "u32_lim = 2 ^ 32"

definition u32_add :: "nat \<Rightarrow> nat \<Rightarrow> ('e, nat) outcome" where
  "u32_add a b = (if a + b < u32_lim then Ok (a + b) else Panic)"

text \<open>The message to the staker: a vote on a proposal of the outer gauge.\<close>

record mc_out =
  mo_contract :: string
  mo_proposal :: nat
  mo_votes :: "mc_vote list"

text \<open>The test for a zero total has no effect; a zero denominator panics.  The cast truncates.\<close>

definition calculate_vote_result :: "mc_proposal \<Rightarrow> mc_choice \<Rightarrow> ('e, nat) outcome" where
  "calculate_vote_result p c =
     and_then (u128_multiply_ratio (ch_power c) 100 (mp_total_power p)) (\<lambda>n. Ok (n mod u32_lim))"

definition choice_results :: "mc_proposal \<Rightarrow> ('e, mc_vote list \<times> nat) outcome" where
  "choice_results p =
     fold_ok (\<lambda>c (vs, tot).
       and_then (calculate_vote_result p c) (\<lambda>n.
       and_then (u32_add tot n) (\<lambda>tot'.
       Ok (vs @ [\<lparr> mv_pool = ch_pool c, mv_percentage = n \<rparr>], tot')))) (mp_choices p) ([], 0)"

text \<open>The loop that hands out the missing points, one to each vote popped from the end.\<close>

fun pad_votes :: "nat \<Rightarrow> mc_vote list \<Rightarrow> mc_vote list \<Rightarrow> ('e, mc_vote list) outcome" where
  "pad_votes 0 vs final = Ok (final @ vs)"
| "pad_votes (Suc k) vs final =
     (if vs = [] then Panic
      else
      let v = List.last vs in
      and_then (u32_add (mv_percentage v) 1) (\<lambda>n.
      pad_votes k (butlast vs) (final @ [v\<lparr> mv_percentage := n \<rparr>])))"

definition get_execution_message :: "mc_proposal \<Rightarrow> string \<Rightarrow> (std_error, mc_out list) outcome" where
  "get_execution_message p staker =
     and_then (choice_results p) (\<lambda>(vs, tot).
     and_then (if tot < 100 then pad_votes (100 - tot) (sort_key (\<lambda>v. - int (mv_percentage v)) vs) []
               else Ok []) (\<lambda>final.
     Ok [\<lparr> mo_contract = staker, mo_proposal = mp_loop_id p, mo_votes = final \<rparr>]))"

section \<open>Versions and history\<close>

definition advance_version :: "mc_state \<Rightarrow> nat \<Rightarrow> (std_error, mc_state) outcome" where
  "advance_version s pid =
     and_then (u128_add (kv_nat (mc_version s) pid) 1) (\<lambda>v.
     Ok (s\<lparr> mc_version := kv_set (mc_version s) pid v \<rparr>))"

definition upgrade_history :: "mc_state \<Rightarrow> env \<Rightarrow> nat \<Rightarrow> mc_proposal \<Rightarrow> (std_error, mc_state) outcome" where
  "upgrade_history s e pid p =
     and_then (ok_or (Not_found ''u128'') (kv_get (mc_version s) pid)) (\<lambda>ver.
     Ok (s\<lparr> mc_histories := kv_set (mc_histories s) (pid, ver)
              \<lparr> mh_time = seconds (block e), mh_status = mp_status p, mh_total_power = mp_total_power p,
                 mh_choices = mp_choices p, mh_voting_start_time = mp_voting_start_time p,
                 mh_expiration = mp_expiration p \<rparr>,
            mc_executions := kv_set (mc_executions s) (pid, seconds (block e))
              \<lparr> me_version = ver, me_status = mp_status p \<rparr> \<rparr>))"

text \<open>\<open>update_props\<close>: the version in the history, and the proposal reopened with no votes.\<close>

definition update_props ::
  "mc_state \<Rightarrow> env \<Rightarrow> loop_proposal \<Rightarrow> nat \<Rightarrow> mc_proposal \<Rightarrow> (std_error, mc_state \<times> mc_proposal) outcome"
where
  "update_props s e l pid p =
     and_then (upgrade_history s e pid (p\<lparr> mp_status := Mc_time_out \<rparr>)) (\<lambda>s'.
     Ok (s', p\<lparr> mp_status := Mc_open, mp_voting_start_time := lp_voting_start_time l,
                mp_expiration := lp_expiration l, mp_total_power := 0,
                mp_choices := map (\<lambda>c. c\<lparr> ch_power := 0 \<rparr>) (mp_choices p) \<rparr>))"

section \<open>Instantiation and configuration\<close>

text \<open>Three flags of the message (\<open>only_members_execute\<close>, \<open>allow_revoting\<close> and
  \<open>close_proposal_on_execution_failure\<close>) are read by no handler.\<close>

record mc_instantiate_msg =
  mi_max_voting_period :: duration
  mi_min_voting_period :: duration
  mi_min_pending_period :: duration
  mi_only_members :: bool
  mi_allow_revoting :: bool
  mi_close_on_failure :: bool
  mi_dao :: string
  mi_creation_limit :: nat
  mi_hold_duration :: nat
  mi_loop_staker :: string

definition loop_gauge_const :: string where
  "loop_gauge_const = ''juno18kvahfjnn2kmjvae3hmmgff8gn65swcf8tk83twlfu5hr2qrjwns7k4x4z''"

definition mc_instantiate :: "message_info \<Rightarrow> mc_instantiate_msg \<Rightarrow> (std_error, mc_state) outcome" where
  "mc_instantiate info msg =
     and_then (mc_validate_periods (mi_min_voting_period msg) (mi_min_pending_period msg)
                 (mi_max_voting_period msg)) (\<lambda>(lo, pend, hi).
     Ok \<lparr> mc_version_info = (mc_contract_name, mc_contract_version),
          mc_conf = \<lparr> mcc_max_voting_period = hi, mcc_min_voting_period = lo,
            mcc_min_pending_period = pend, mcc_dao = mi_dao msg, mcc_admin = sender info,
            mcc_creation_limit = mi_creation_limit msg, mcc_hold_duration = mi_hold_duration msg,
            mcc_loop_gauge = loop_gauge_const, mcc_loop_staker = mi_loop_staker msg,
            mcc_only_members = True, mcc_default_limit = 10, mcc_max_limit = 30 \<rparr>,
          mc_count = 0, mc_version = [], mc_proposals = [], mc_ballots = [], mc_locked = [],
          mc_pool_amounts = [], mc_executions = [], mc_histories = [] \<rparr>)"

record mc_update =
  mu_max_voting_period :: "duration option"
  mu_min_voting_period :: "duration option"
  mu_min_pending_period :: "duration option"
  mu_dao :: "string option"
  mu_hold_duration :: "nat option"
  mu_creation_limit :: "nat option"
  mu_loop_gauge :: "string option"
  mu_loop_staker :: "string option"
  mu_only_members :: "bool option"
  mu_default_limit :: "nat option"
  mu_max_limit :: "nat option"

definition mc_or :: "'a option \<Rightarrow> 'a \<Rightarrow> 'a" where
  "mc_or o' x = (case o' of Some y \<Rightarrow> y | None \<Rightarrow> x)"

definition mc_update_config :: "mc_state \<Rightarrow> message_info \<Rightarrow> mc_update \<Rightarrow> (std_error, mc_state) outcome" where
  "mc_update_config s info u =
     (let c = mc_conf s in
      if sender info \<noteq> mcc_admin c then Err (Generic_err ''Unauthorized'')
      else
      and_then (mc_validate_periods (mc_or (mu_min_voting_period u) (mcc_min_voting_period c))
                  (mc_or (mu_min_pending_period u) (mcc_min_pending_period c))
                  (mc_or (mu_max_voting_period u) (mcc_max_voting_period c))) (\<lambda>(lo, pend, hi).
      Ok (s\<lparr> mc_conf := \<lparr> mcc_max_voting_period = hi, mcc_min_voting_period = lo,
            mcc_min_pending_period = pend, mcc_dao = mc_or (mu_dao u) (mcc_dao c),
            mcc_admin = mcc_admin c,
            mcc_creation_limit = mc_or (mu_creation_limit u) (mcc_creation_limit c),
            mcc_hold_duration = mc_or (mu_hold_duration u) (mcc_hold_duration c),
            mcc_loop_gauge = mc_or (mu_loop_gauge u) (mcc_loop_gauge c),
            mcc_loop_staker = mc_or (mu_loop_staker u) (mcc_loop_staker c),
            mcc_only_members = mc_or (mu_only_members u) (mcc_only_members c),
            mcc_default_limit = mc_or (mu_default_limit u) (mcc_default_limit c),
            mcc_max_limit = mc_or (mu_max_limit u) (mcc_max_limit c) \<rparr> \<rparr>)))"

section \<open>Voting power\<close>

text \<open>The sum over the durations of the staking contract; each power is also written down.\<close>

definition mc_voting_power ::
  "mc_host \<Rightarrow> mc_state \<Rightarrow> addr \<Rightarrow> nat \<Rightarrow> (std_error, nat \<times> mc_state) outcome"
where
  "mc_voting_power H s who pid =
     and_then (mh_durations H (mcc_dao (mc_conf s))) (\<lambda>ds.
     fold_ok (\<lambda>d (tot, t).
       let pw = (case mh_balance H (mcc_dao (mc_conf s)) who d of None \<Rightarrow> 0 | Some n \<Rightarrow> n) in
       and_then (u128_add tot pw) (\<lambda>tot'.
       Ok (tot', t\<lparr> mc_pool_amounts := kv_set (mc_pool_amounts t) (pid, d) pw \<rparr>))) ds (0, s))"

section \<open>Proposals\<close>

definition mc_max_proposal_size :: nat where "mc_max_proposal_size = 30000"

definition mc_propose ::
  "mc_host \<Rightarrow> mc_state \<Rightarrow> addr \<Rightarrow> string \<Rightarrow> string \<Rightarrow> duration \<Rightarrow> string list \<Rightarrow> nat \<Rightarrow> nat
     \<Rightarrow> (std_error, mc_state) outcome"
where
  "mc_propose H s0 who ttl descr pending options amount loop_id =
     (let c = mc_conf s0 in
      and_then (mc_voting_power H s0 who 0) (\<lambda>(vote_power, s).
      if vote_power = 0 then Err (Generic_err ''Power is zero can't create proposal'')
      else
      case mh_loop H (mcc_loop_gauge c) loop_id of
        None \<Rightarrow> Panic
      | Some l \<Rightarrow>
          if lp_status l = Mc_closed then Err (Generic_err ''Closed proposal id'')
          else if \<not> mc_verify_period pending (mcc_min_pending_period c) (lp_voting_period l)
          then Err (Generic_err ''invalid active voting period'')
          else
          let locked = kv_nat (mc_locked s) who in
          and_then (u128_sub vote_power locked) (\<lambda>free.
          if free < mcc_creation_limit c then Err (Generic_err ''Power is not enough to create proposal'')
          else
          and_then (u128_add locked (mcc_creation_limit c)) (\<lambda>locked'.
          if \<exists>opt\<in>set options. Some opt \<notin> set (lp_options l) then Err (Generic_err ''invalid option'')
          else
          let p = \<lparr> mp_title = ttl, mp_description = descr, mp_proposer = who,
                mp_expiration = lp_expiration l, mp_voting_period = lp_voting_period l,
                mp_pending_period = pending, mp_status = Mc_open, mp_allow_revoting = False,
                mp_total_power = 0, mp_voting_start_time = lp_voting_start_time l,
                mp_choices = map (\<lambda>opt. \<lparr> ch_pool = opt, ch_power = 0 \<rparr>) options,
                mp_amount = amount, mp_loop_gauge = mcc_loop_gauge c, mp_loop_id = loop_id \<rparr> in
          and_then (u64_add (mc_count s) 1) (\<lambda>pid.
          and_then (advance_version
             (s\<lparr> mc_locked := kv_set (mc_locked s) who locked', mc_count := pid \<rparr>) pid) (\<lambda>s'.
          if mh_size H p > mc_max_proposal_size then Err (Generic_err ''Proposal size is too large'')
          else Ok (s'\<lparr> mc_proposals := kv_set (mc_proposals s') pid p \<rparr>)))))))"

text \<open>The checks shared by \<open>execute\<close> and \<open>reject\<close>, in their order.\<close>

definition closing_checks ::
  "mc_host \<Rightarrow> mc_state \<Rightarrow> env \<Rightarrow> addr \<Rightarrow> nat \<Rightarrow> (std_error, mc_state \<times> mc_proposal \<times> loop_proposal) outcome"
where
  "closing_checks H s0 e who pid =
     and_then (ok_or (Generic_err ''No Such Proposal'') (kv_get (mc_proposals s0) pid)) (\<lambda>p.
     and_then (mc_voting_power H s0 who pid) (\<lambda>(vote_power, s).
     if vote_power = 0 then Err (Generic_err ''Unauthorized'')
     else
     case mh_loop H (mcc_loop_gauge (mc_conf s)) (mp_loop_id p) of
       None \<Rightarrow> Panic
     | Some l \<Rightarrow>
         and_then (mc_current_status_custom (block e) p) (\<lambda>st.
         if st \<noteq> Mc_voting_closed then
           (if st = Mc_open then Err (Generic_err ''Voting not closed yet'')
            else Err (Generic_err (''Proposal is in '' @ mc_status_text st @ '' state'')))
         else Ok (s, p, l))))"

definition mc_execute_execute ::
  "mc_host \<Rightarrow> mc_state \<Rightarrow> env \<Rightarrow> addr \<Rightarrow> nat \<Rightarrow> (std_error, mc_state \<times> mc_out list) outcome"
where
  "mc_execute_execute H s0 e who pid =
     and_then (closing_checks H s0 e who pid) (\<lambda>(s, p, l).
     if mh_later H (lp_expiration l) (mp_expiration p) then
       and_then (advance_version s pid) (\<lambda>s1.
       and_then (update_props s1 e l pid p) (\<lambda>(s2, _). Ok (s2, [])))
     else
       and_then (get_execution_message p (mcc_loop_staker (mc_conf s))) (\<lambda>out.
       let p' = p\<lparr> mp_status := Mc_executed \<rparr> in
       and_then (upgrade_history (s\<lparr> mc_proposals := kv_set (mc_proposals s) pid p' \<rparr>) e pid p') (\<lambda>s'.
       Ok (s', out))))"

definition mc_reject :: "mc_host \<Rightarrow> mc_state \<Rightarrow> env \<Rightarrow> addr \<Rightarrow> nat \<Rightarrow> (std_error, mc_state) outcome" where
  "mc_reject H s0 e who pid =
     and_then (closing_checks H s0 e who pid) (\<lambda>(s, p, l).
     if mh_later H (lp_expiration l) (mp_expiration p) then
       and_then (advance_version s pid) (\<lambda>s1.
       and_then (update_props s1 e l pid p) (\<lambda>(s2, _). Ok s2))
     else
       let p' = p\<lparr> mp_status := Mc_rejected \<rparr> in
       upgrade_history (s\<lparr> mc_proposals := kv_set (mc_proposals s) pid p' \<rparr>) e pid p')"

text \<open>Adding checks each option against the outer gauge and then against the choices.\<close>

fun check_new_choices :: "loop_proposal \<Rightarrow> mc_choice list \<Rightarrow> string list \<Rightarrow> (std_error, unit) outcome" where
  "check_new_choices l cs [] = Ok ()"
| "check_new_choices l cs (opt # opts) =
     (if Some opt \<notin> set (lp_options l) then Err (Generic_err ''Invalid option'')
      else if opt \<in> ch_pool ` set cs then Err (Generic_err ''Duplicated lp address'')
      else check_new_choices l cs opts)"

definition mc_add_options :: "mc_host \<Rightarrow> mc_state \<Rightarrow> nat \<Rightarrow> string list \<Rightarrow> (std_error, mc_state) outcome" where
  "mc_add_options H s pid options =
     and_then (ok_or (Generic_err ''No Such Proposal'') (kv_get (mc_proposals s) pid)) (\<lambda>p.
     case mh_loop H (mcc_loop_gauge (mc_conf s)) (mp_loop_id p) of
       None \<Rightarrow> Panic
     | Some l \<Rightarrow>
         and_then (check_new_choices l (mp_choices p) options) (\<lambda>_.
         Ok (s\<lparr> mc_proposals := kv_set (mc_proposals s) pid
               (p\<lparr> mp_choices := mp_choices p @ map (\<lambda>opt. \<lparr> ch_pool = opt, ch_power = 0 \<rparr>) options \<rparr>) \<rparr>)))"

definition mc_remove_options :: "mc_state \<Rightarrow> nat \<Rightarrow> string list \<Rightarrow> (std_error, mc_state) outcome" where
  "mc_remove_options s pid options =
     and_then (ok_or (Generic_err ''No Such Proposal'') (kv_get (mc_proposals s) pid)) (\<lambda>p.
     Ok (s\<lparr> mc_proposals := kv_set (mc_proposals s) pid
           (p\<lparr> mp_choices := filter (\<lambda>c. ch_pool c \<notin> set options) (mp_choices p) \<rparr>) \<rparr>))"

section \<open>Voting\<close>

definition validate_votes_percentage :: "mc_vote list \<Rightarrow> (std_error, unit) outcome" where
  "validate_votes_percentage vs =
     and_then (fold_ok (\<lambda>v n. u32_add n (mv_percentage v)) vs 0) (\<lambda>n.
     if n > 100 then Err (Generic_err ''total percenatge voting is invalid'') else Ok ())"

definition validate_options_custom :: "mc_vote list \<Rightarrow> mc_proposal \<Rightarrow> (std_error, unit) outcome" where
  "validate_options_custom vs p =
     (if length vs > length (mp_choices p) then Err (Generic_err ''not valid options provided'') else Ok ())"

text \<open>\<open>iter().position(..)\<close>.\<close>

fun choice_index :: "string \<Rightarrow> mc_choice list \<Rightarrow> nat option" where
  "choice_index pool [] = None"
| "choice_index pool (c # cs) =
     (if ch_pool c = pool then Some 0 else map_option Suc (choice_index pool cs))"

definition choice_add_vote :: "mc_choice \<Rightarrow> nat \<Rightarrow> nat \<Rightarrow> (std_error, mc_choice) outcome" where
  "choice_add_vote c pw pct =
     and_then (u128_multiply_ratio pw pct 100) (\<lambda>n.
     and_then (u128_add (ch_power c) n) (\<lambda>m. Ok (c\<lparr> ch_power := m \<rparr>)))"

definition choice_remove_vote :: "mc_choice \<Rightarrow> nat \<Rightarrow> (std_error, mc_choice) outcome" where
  "choice_remove_vote c pw = and_then (u128_sub (ch_power c) pw) (\<lambda>m. Ok (c\<lparr> ch_power := m \<rparr>))"

definition set_choice :: "mc_proposal \<Rightarrow> nat \<Rightarrow> mc_choice \<Rightarrow> mc_proposal" where
  "set_choice p i c = p\<lparr> mp_choices := (mp_choices p)[i := c] \<rparr>"

text \<open>The closure of \<open>BALLOTS.update\<close>: the proposal without the old ballot.\<close>

definition withdraw_ballot ::
  "nat \<Rightarrow> mc_ballot option \<Rightarrow> mc_vote \<Rightarrow> mc_proposal \<Rightarrow> (std_error, mc_proposal) outcome"
where
  "withdraw_ballot i old v p =
     (case old of
        None \<Rightarrow> Ok p
      | Some cur \<Rightarrow>
          if mp_allow_revoting p \<and> mb_vote cur = v then Err (Generic_err ''Already Casted'')
          else
          and_then (choice_remove_vote (mp_choices p ! i) (mb_power cur)) (\<lambda>c.
          and_then (u128_sub (mp_total_power p) (mb_power cur)) (\<lambda>tot.
          Ok ((set_choice p i c)\<lparr> mp_total_power := tot \<rparr>))))"

text \<open>One round of the loop: one vote of the voter.\<close>

definition cast_choice ::
  "nat \<Rightarrow> nat \<Rightarrow> addr \<Rightarrow> nat \<Rightarrow> nat \<Rightarrow> mc_vote \<Rightarrow> mc_state \<times> mc_proposal
     \<Rightarrow> (std_error, mc_state \<times> mc_proposal) outcome"
where
  "cast_choice pid ver who vote_power now v sp =
     (case sp of (s, p) \<Rightarrow>
      case choice_index (mv_pool v) (mp_choices p) of
        None \<Rightarrow> Panic
      | Some i \<Rightarrow>
          let key = mc_key pid ver who (mv_pool v) in
          and_then (withdraw_ballot i (kv_get (mc_ballots s) key) v p) (\<lambda>p1.
          and_then (u128_multiply_ratio vote_power (mv_percentage v) 100) (\<lambda>pw.
          and_then (choice_add_vote (mp_choices p1 ! i) vote_power (mv_percentage v)) (\<lambda>c.
          Ok (s\<lparr> mc_ballots := kv_set (mc_ballots s) key
                   \<lparr> mb_power = pw, mb_vote = v, mb_time = now \<rparr> \<rparr>, set_choice p1 i c)))))"

text \<open>A vote reopens a finished proposal when the outer gauge has started a new round.\<close>

definition vote_round ::
  "mc_host \<Rightarrow> mc_state \<Rightarrow> env \<Rightarrow> nat \<Rightarrow> mc_proposal \<Rightarrow> loop_proposal
     \<Rightarrow> (std_error, mc_state \<times> mc_proposal) outcome"
where
  "vote_round H s e pid p l =
     and_then (mc_current_status_custom (block e) p) (\<lambda>st.
     if st = Mc_closed then Err (Generic_err (''Proposal is in '' @ mc_status_text st @ '' state''))
     else if st = Mc_executed \<or> st = Mc_execution_failed \<or> st = Mc_rejected \<or> st = Mc_voting_closed then
       (if mh_later H (lp_expiration l) (mp_expiration p) then
          and_then (advance_version s pid) (\<lambda>s1. update_props s1 e l pid p)
        else Err (Generic_err (''Proposal is in '' @ mc_status_text st @ '' state'')))
     else Ok (s, p))"

definition mc_vote_handler ::
  "platform \<Rightarrow> mc_host \<Rightarrow> mc_state \<Rightarrow> env \<Rightarrow> addr \<Rightarrow> nat \<Rightarrow> mc_vote list \<Rightarrow> (std_error, mc_state) outcome"
where
  "mc_vote_handler P H s0 e who pid vs =
     and_then (ok_or (Generic_err ''No such proposal'') (kv_get (mc_proposals s0) pid)) (\<lambda>p0.
     and_then (mc_voting_power H s0 who pid) (\<lambda>(vote_power, s1).
     and_then (validate_options_custom vs p0) (\<lambda>_.
     if vote_power = 0
     then Err (Generic_err (''Not Registered'' @ ''sender '' @ who @ '' dao '' @ mcc_dao (mc_conf s1)))
     else
     case mh_loop H (mcc_loop_gauge (mc_conf s1)) (mp_loop_id p0) of
       None \<Rightarrow> Panic
     | Some l \<Rightarrow>
         and_then (vote_round H s1 e pid p0 l) (\<lambda>(s2, p2).
         and_then (ok_or (Not_found ''u128'') (kv_get (mc_version s2) pid)) (\<lambda>ver.
         and_then (validate_votes_percentage vs) (\<lambda>_.
         and_then (fold_ok (cast_choice pid ver who vote_power (seconds (block e))) vs (s2, p2)) (\<lambda>(s3, p3).
         and_then (u128_add (mp_total_power p3) vote_power) (\<lambda>tot.
         Ok (s3\<lparr> mc_proposals := kv_set (mc_proposals s3) pid
               (mc_update_status P (block e) (p3\<lparr> mp_total_power := tot \<rparr>)) \<rparr>)))))))))"

definition mc_close :: "platform \<Rightarrow> mc_state \<Rightarrow> env \<Rightarrow> addr \<Rightarrow> nat \<Rightarrow> (std_error, mc_state) outcome" where
  "mc_close P s e who pid =
     and_then (ok_or (Not_found ''MultipleChoiceProposalCustom'') (kv_get (mc_proposals s) pid)) (\<lambda>p.
     if who \<noteq> mp_proposer p then Err (Generic_err ''Unauthorization'')
     else
     and_then (u64_add (mp_voting_start_time p) (mcc_hold_duration (mc_conf s))) (\<lambda>until.
     if until < seconds (block e)
     then Err (Generic_err ''tokens are hold in the contract kindly wait for the specified time'')
     else
     let p' = mc_update_status P (block e) p in
     and_then (u128_sub (kv_nat (mc_locked s) (mp_proposer p)) (mcc_creation_limit (mc_conf s))) (\<lambda>locked.
     Ok (s\<lparr> mc_locked := kv_set (mc_locked s) (mp_proposer p) locked,
           mc_proposals := kv_set (mc_proposals s) pid (p'\<lparr> mp_status := Mc_closed \<rparr>) \<rparr>))))"

section \<open>The entry point\<close>

datatype mc_msg =
    Mc_propose string string "string list" duration nat nat
  | Mc_cast nat "mc_vote list"
  | Mc_execute nat
  | Mc_reject nat
  | Mc_close nat
  | Mc_update_config mc_update
  | Mc_add_options nat "string list"
  | Mc_remove_options nat "string list"

definition mc_silent :: "('e, 's) outcome \<Rightarrow> ('e, 's \<times> mc_out list) outcome" where
  "mc_silent r = and_then r (\<lambda>s. Ok (s, []))"

fun mc_execute ::
  "platform \<Rightarrow> mc_host \<Rightarrow> mc_state \<Rightarrow> env \<Rightarrow> message_info \<Rightarrow> mc_msg \<Rightarrow> (std_error, mc_state \<times> mc_out list) outcome"
where
  "mc_execute P H s e info (Mc_propose ttl descr options pending amount loop_id) =
     (if sender info \<noteq> mcc_admin (mc_conf s) then Err (Generic_err ''Unauthorized'')
      else mc_silent (mc_propose H s (sender info) ttl descr pending options amount loop_id))"
| "mc_execute P H s e info (Mc_cast pid vs) = mc_silent (mc_vote_handler P H s e (sender info) pid vs)"
| "mc_execute P H s e info (Mc_execute pid) = mc_execute_execute H s e (sender info) pid"
| "mc_execute P H s e info (Mc_reject pid) = mc_silent (mc_reject H s e (sender info) pid)"
| "mc_execute P H s e info (Mc_close pid) = mc_silent (mc_close P s e (sender info) pid)"
| "mc_execute P H s e info (Mc_update_config u) = mc_silent (mc_update_config s info u)"
| "mc_execute P H s e info (Mc_add_options pid opts) = mc_silent (mc_add_options H s pid opts)"
| "mc_execute P H s e info (Mc_remove_options pid opts) = mc_silent (mc_remove_options s pid opts)"

section \<open>Queries\<close>

definition mc_query_proposal ::
  "platform \<Rightarrow> mc_host \<Rightarrow> mc_state \<Rightarrow> env \<Rightarrow> nat \<Rightarrow> (std_error, nat \<times> mc_proposal) outcome"
where
  "mc_query_proposal P H s e pid =
     and_then (ok_or (Not_found ''MultipleChoiceProposalCustom'') (kv_get (mc_proposals s) pid)) (\<lambda>p.
     case mh_loop H (mcc_loop_gauge (mc_conf s)) (mp_loop_id p) of
       None \<Rightarrow> Panic
     | Some l \<Rightarrow>
         and_then
           (if mh_later H (lp_expiration l) (mp_expiration p) then
              Ok (p\<lparr> mp_status := lp_current_status P (block e) l,
                      mp_voting_start_time := lp_voting_start_time l, mp_expiration := lp_expiration l,
                      mp_total_power := 0, mp_choices := map (\<lambda>c. c\<lparr> ch_power := 0 \<rparr>) (mp_choices p) \<rparr>)
            else and_then (mc_current_status_custom (block e) p) (\<lambda>st. Ok (p\<lparr> mp_status := st \<rparr>))) (\<lambda>p'.
         Ok (pid, mc_update_status P (block e) p')))"

definition mc_query_hold_amount :: "mc_state \<Rightarrow> string \<Rightarrow> nat" where
  "mc_query_hold_amount s a = kv_nat (mc_locked s) a"

definition mc_page_limit :: "nat option \<Rightarrow> nat" where
  "mc_page_limit limit = (case limit of None \<Rightarrow> 30 | Some l \<Rightarrow> l)"

text \<open>The listing asks the contract itself for each proposal.\<close>

definition mc_list_proposals ::
  "platform \<Rightarrow> mc_host \<Rightarrow> mc_state \<Rightarrow> env \<Rightarrow> nat option \<Rightarrow> nat option
     \<Rightarrow> (std_error, (nat \<times> mc_proposal) list) outcome"
where
  "mc_list_proposals P H s e start_after limit =
     map_ok (\<lambda>(pid, _). mc_query_proposal P H s e pid)
       (take (mc_page_limit limit) (kv_after (mc_proposals s) start_after))"

definition mc_reverse_proposals ::
  "platform \<Rightarrow> mc_host \<Rightarrow> mc_state \<Rightarrow> env \<Rightarrow> nat option \<Rightarrow> nat option
     \<Rightarrow> (std_error, (nat \<times> mc_proposal) list) outcome"
where
  "mc_reverse_proposals P H s e start_before limit =
     map_ok (\<lambda>(pid, _). mc_query_proposal P H s e pid)
       (take (mc_page_limit limit) (rev (kv_before (mc_proposals s) start_before)))"

record mc_vote_info =
  mvi_voter :: addr
  mvi_power :: nat
  mvi_pool :: string
  mvi_percentage :: nat

definition mc_user_votes ::
  "mc_state \<Rightarrow> nat \<Rightarrow> addr \<Rightarrow> nat option \<Rightarrow> (std_error, mc_vote_info list) outcome"
where
  "mc_user_votes s pid who version =
     and_then (ok_or (Not_found ''u128'') (kv_get (mc_version s) pid)) (\<lambda>cur.
     let ver = mc_or version cur in
     Ok (map (\<lambda>(pool, b). \<lparr> mvi_voter = who, mvi_power = mb_power b, mvi_pool = pool,
                 mvi_percentage = mv_percentage (mb_vote b) \<rparr>)
          (take 30 (kv_prefix (kv_prefix (mc_ballots s) (pid, ver)) (length who, who)))))"

definition mc_list_votes ::
  "mc_state \<Rightarrow> nat \<Rightarrow> (addr \<times> string) option \<Rightarrow> nat option \<Rightarrow> (std_error, mc_vote_info list) outcome"
where
  "mc_list_votes s pid start_after limit =
     and_then (ok_or (Not_found ''u128'') (kv_get (mc_version s) pid)) (\<lambda>ver.
     Ok (map (\<lambda>(((_, who), pool), b). \<lparr> mvi_voter = who, mvi_power = mb_power b, mvi_pool = pool,
                 mvi_percentage = mv_percentage (mb_vote b) \<rparr>)
          (take (mc_page_limit limit)
            (kv_after (kv_prefix (mc_ballots s) (pid, ver))
               (map_option (\<lambda>(a, pool). ((length a, a), pool)) start_after)))))"

definition mc_proposal_history ::
  "mc_state \<Rightarrow> nat \<Rightarrow> nat option \<Rightarrow> nat option \<Rightarrow> bool option \<Rightarrow> (nat \<times> mc_history) list"
where
  "mc_proposal_history s pid start_after limit rev_flag =
     (let es = kv_after (kv_prefix (mc_histories s) pid) start_after in
      take (min (mc_page_limit limit) (mcc_max_limit (mc_conf s)))
        (if rev_flag = Some True then rev es else es))"

definition mc_proposal_executions ::
  "mc_state \<Rightarrow> nat \<Rightarrow> nat option \<Rightarrow> nat option \<Rightarrow> (nat \<times> mc_execution) list"
where
  "mc_proposal_executions s pid start_after limit =
     take (min (mc_page_limit limit) (mcc_max_limit (mc_conf s)))
       (kv_after (kv_prefix (mc_executions s) pid) start_after)"

definition mc_proposal_version :: "mc_state \<Rightarrow> nat \<Rightarrow> (std_error, nat) outcome" where
  "mc_proposal_version s pid = ok_or (Not_found ''u128'') (kv_get (mc_version s) pid)"

end
