(* ===== verification/Choice_Proofs.thy ===== *)
theory Choice_Proofs
  imports Choice
begin

text \<open>
  What the handlers of the multiple-choice proposals do when they succeed, the reachable states,
  and two invariants: the choices never hold more power than the total, and (in runs without
  removed options and stale closings) a choice holds exactly the power of its ballots.
\<close>

section \<open>Sums of power\<close>

definition powers :: "mc_proposal \<Rightarrow> nat" where
  "powers p = sum_list (map ch_power (mp_choices p))"

definition pool_power :: "mc_proposal \<Rightarrow> string \<Rightarrow> nat" where
  "pool_power p pool = sum_list (map (\<lambda>c. if ch_pool c = pool then ch_power c else 0) (mp_choices p))"

definition ballots_for :: "mc_state \<Rightarrow> nat \<Rightarrow> nat \<Rightarrow> string \<Rightarrow> nat" where
  "ballots_for s pid ver pool =
     kv_sum (\<lambda>k b. if fst k = (pid, ver) \<and> snd (snd k) = pool then mb_power b else 0) (mc_ballots s)"

lemma sum_list_update_nat:
  "i < length xs \<Longrightarrow> sum_list (map f (xs[i := y])) + f (xs ! i) = sum_list (map f xs) + (f y :: nat)"
proof (induction xs arbitrary: i)
  case (Cons x xs)
  then show ?case by (cases i) (auto simp: algebra_simps)
qed simp

lemma choice_index_Some:
  "choice_index pool cs = Some i \<Longrightarrow> i < length cs \<and> ch_pool (cs ! i) = pool"
  by (induction cs arbitrary: i) (auto split: if_splits)

text \<open>One vote: the old ballot leaves, the new one enters.\<close>

definition ballot_size :: "mc_ballot option \<Rightarrow> nat" where
  "ballot_size b = (case b of Some b \<Rightarrow> mb_power b | None \<Rightarrow> 0)"

definition old_power :: "mc_state \<Rightarrow> nat \<Rightarrow> nat \<Rightarrow> addr \<Rightarrow> string \<Rightarrow> nat" where
  "old_power s pid ver who pool =
     ballot_size (kv_get (mc_ballots s) (mc_key pid ver who pool))"

lemma set_choice_sums:
  assumes "i < length (mp_choices p)" "ch_pool c = ch_pool (mp_choices p ! i)"
  shows "powers (set_choice p i c) + ch_power (mp_choices p ! i) = powers p + ch_power c"
    and "pool_power (set_choice p i c) pool + (if pool = ch_pool c then ch_power (mp_choices p ! i) else 0)
      = pool_power p pool + (if pool = ch_pool c then ch_power c else 0)"
  using sum_list_update_nat [OF assms(1), of ch_power c]
    sum_list_update_nat [OF assms(1), of "\<lambda>c. if ch_pool c = pool then ch_power c else 0" c] assms(2)
  by (auto simp: powers_def pool_power_def set_choice_def)

lemma withdraw_ballot_Ok:
  assumes "withdraw_ballot i old v p = Ok p'" "i < length (mp_choices p)"
  shows "powers p' + ballot_size old = powers p"
    and "mp_total_power p' + ballot_size old = mp_total_power p"
    and "pool_power p' pool + (if pool = ch_pool (mp_choices p ! i) then ballot_size old else 0) = pool_power p pool"
    and "map ch_pool (mp_choices p') = map ch_pool (mp_choices p)"
proof -
  let ?c = "mp_choices p ! i"
  have "powers p' + ballot_size old = powers p \<and> mp_total_power p' + ballot_size old = mp_total_power p \<and>
    pool_power p' pool + (if pool = ch_pool ?c then ballot_size old else 0) = pool_power p pool \<and>
    map ch_pool (mp_choices p') = map ch_pool (mp_choices p)"
  proof (cases old)
    case (Some b)
    let ?d = "?c\<lparr> ch_power := ch_power ?c - mb_power b \<rparr>"
    have le: "mb_power b \<le> ch_power ?c" "mb_power b \<le> mp_total_power p"
      and p': "p' = (set_choice p i ?d)\<lparr> mp_total_power := mp_total_power p - mb_power b \<rparr>"
      using assms(1)
      by (auto simp: Some withdraw_ballot_def choice_remove_vote_def outcome_simps arith_simps)
    have same: "powers p' = powers (set_choice p i ?d)" "pool_power p' pool = pool_power (set_choice p i ?d) pool"
      by (simp_all add: p' powers_def pool_power_def)
    have "map ch_pool (mp_choices p') = map ch_pool (mp_choices p)"
      using assms(2) by (simp add: p' set_choice_def map_update) (metis list_update_id map_update)
    moreover have "mp_total_power p' + mb_power b = mp_total_power p" using le by (simp add: p')
    moreover have "powers p' + mb_power b = powers p"
      using set_choice_sums(1) [OF assms(2), of ?d] le unfolding same by simp
    moreover have "pool_power p' pool + (if pool = ch_pool ?c then mb_power b else 0) = pool_power p pool"
      using set_choice_sums(2) [OF assms(2), of ?d pool] le unfolding same by (auto split: if_splits)
    ultimately show ?thesis unfolding Some ballot_size_def option.case by blast
  qed (use assms(1) in \<open>simp add: withdraw_ballot_def ballot_size_def\<close>)
  then show "powers p' + ballot_size old = powers p"
    and "mp_total_power p' + ballot_size old = mp_total_power p"
    and "pool_power p' pool + (if pool = ch_pool ?c then ballot_size old else 0) = pool_power p pool"
    and "map ch_pool (mp_choices p') = map ch_pool (mp_choices p)" by blast+
qed

lemma choice_add_vote_Ok:
  "choice_add_vote c pw pct = Ok c' \<longleftrightarrow>
     c' = c\<lparr> ch_power := ch_power c + pw * pct div 100 \<rparr> \<and> pw * pct div 100 < u128_lim \<and>
     ch_power c + pw * pct div 100 < u128_lim"
  by (auto simp: choice_add_vote_def outcome_simps arith_simps)

text \<open>The frame of a vote: everything but the ballots.\<close>

lemma cast_choice_cases:
  assumes "cast_choice pid ver who vp now v (s, p) = Ok (s', p')"
  shows "s' = s\<lparr> mc_ballots := kv_set (mc_ballots s) (mc_key pid ver who (mv_pool v))
                   \<lparr> mb_power = vp * mv_percentage v div 100, mb_vote = v, mb_time = now \<rparr> \<rparr>"
    and "powers p' + old_power s pid ver who (mv_pool v) = powers p + vp * mv_percentage v div 100"
    and "mp_total_power p' + old_power s pid ver who (mv_pool v) = mp_total_power p"
    and "pool_power p' pool + (if pool = mv_pool v then old_power s pid ver who (mv_pool v) else 0)
      = pool_power p pool + (if pool = mv_pool v then vp * mv_percentage v div 100 else 0)"
proof -
  obtain i p1 c where i: "choice_index (mv_pool v) (mp_choices p) = Some i"
    and out: "withdraw_ballot i (kv_get (mc_ballots s) (mc_key pid ver who (mv_pool v))) v p = Ok p1"
    and c: "choice_add_vote (mp_choices p1 ! i) vp (mv_percentage v) = Ok c"
    and s': "s' = s\<lparr> mc_ballots := kv_set (mc_ballots s) (mc_key pid ver who (mv_pool v))
                   \<lparr> mb_power = vp * mv_percentage v div 100, mb_vote = v, mb_time = now \<rparr> \<rparr>"
    and p': "p' = set_choice p1 i c"
    using assms
    by (auto simp: cast_choice_def Let_def outcome_simps arith_simps split: option.splits)
  note idx = choice_index_Some [OF i]
  note gone = withdraw_ballot_Ok [OF out conjunct1 [OF idx], folded old_power_def]
  have len: "i < length (mp_choices p1)" using gone(4) idx by (metis length_map)
  have pool: "ch_pool (mp_choices p1 ! i) = mv_pool v"
    using gone(4) idx len by (metis nth_map)
  have cp: "ch_power c = ch_power (mp_choices p1 ! i) + vp * mv_percentage v div 100" "ch_pool c = mv_pool v"
    using c pool by (auto simp: choice_add_vote_Ok)
  note sums = set_choice_sums [OF len, of c]
  show "s' = s\<lparr> mc_ballots := kv_set (mc_ballots s) (mc_key pid ver who (mv_pool v))
                   \<lparr> mb_power = vp * mv_percentage v div 100, mb_vote = v, mb_time = now \<rparr> \<rparr>" by (rule s')
  show "powers p' + old_power s pid ver who (mv_pool v) = powers p + vp * mv_percentage v div 100"
    using sums(1) gone(1) cp pool by (simp add: p')
  show "mp_total_power p' + old_power s pid ver who (mv_pool v) = mp_total_power p"
    using gone(2) by (simp add: p' set_choice_def)
  show "pool_power p' pool + (if pool = mv_pool v then old_power s pid ver who (mv_pool v) else 0)
      = pool_power p pool + (if pool = mv_pool v then vp * mv_percentage v div 100 else 0)"
    using sums(2) [of pool] gone(3) [of pool] cp pool idx by (auto simp: p' split: if_splits)
qed

section \<open>A whole vote\<close>

definition vote_sum :: "nat \<Rightarrow> mc_vote list \<Rightarrow> nat" where
  "vote_sum vp vs = sum_list (map (\<lambda>v. vp * mv_percentage v div 100) vs)"

lemma vote_sum_le: "sum_list (map mv_percentage vs) \<le> 100 \<Longrightarrow> vote_sum vp vs \<le> vp"
proof -
  have "vote_sum vp vs \<le> vp * sum_list (map mv_percentage vs) div 100"
  proof (induction vs)
    case (Cons v vs)
    have "vp * mv_percentage v div 100 + vp * sum_list (map mv_percentage vs) div 100
      \<le> (vp * mv_percentage v + vp * sum_list (map mv_percentage vs)) div 100"
      by (simp add: div_add1_eq [of "vp * mv_percentage v"])
    with Cons show ?case by (simp add: vote_sum_def algebra_simps)
  qed (simp add: vote_sum_def)
  also assume "sum_list (map mv_percentage vs) \<le> 100"
  then have "vp * sum_list (map mv_percentage vs) div 100 \<le> vp * 100 div 100"
    by (intro div_le_mono mult_le_mono2)
  finally show ?thesis by simp
qed

definition same_but_ballots :: "mc_state \<Rightarrow> mc_state \<Rightarrow> bool" where
  "same_but_ballots s t \<longleftrightarrow> (\<exists>b. t = s\<lparr> mc_ballots := b \<rparr>)"

lemma same_but_ballots_refl [simp]: "same_but_ballots s s"
  unfolding same_but_ballots_def by (rule exI [of _ "mc_ballots s"]) simp

lemma cast_all_sums:
  assumes "fold_ok (cast_choice pid ver who vp now) vs (s, p) = Ok (t, q)"
  shows "same_but_ballots s t" "\<exists>n. powers q + n = powers p + vote_sum vp vs \<and> mp_total_power q + n = mp_total_power p"
proof -
  have "same_but_ballots s t \<and>
    (\<exists>n. powers q + n = powers p + vote_sum vp vs \<and> mp_total_power q + n = mp_total_power p)"
    using assms
  proof (induction vs arbitrary: s p)
    case (Cons v vs)
    obtain s1 p1 where step: "cast_choice pid ver who vp now v (s, p) = Ok (s1, p1)"
      and rest: "fold_ok (cast_choice pid ver who vp now) vs (s1, p1) = Ok (t, q)"
      using Cons.prems by (auto simp: outcome_simps)
    note cast = cast_choice_cases [OF step]
    obtain n where "same_but_ballots s1 t" "powers q + n = powers p1 + vote_sum vp vs"
      "mp_total_power q + n = mp_total_power p1"
      using Cons.IH [OF rest] by blast
    moreover from this have "same_but_ballots s t" by (auto simp: same_but_ballots_def cast(1))
    ultimately show ?case
      using cast(2,3)
      by (intro conjI exI [of _ "n + old_power s pid ver who (mv_pool v)"]) (simp_all add: vote_sum_def)
  qed (simp add: vote_sum_def)
  then show "same_but_ballots s t" "\<exists>n. powers q + n = powers p + vote_sum vp vs \<and> mp_total_power q + n = mp_total_power p"
    by blast+
qed

lemma validate_votes_percentage_Ok:
  "validate_votes_percentage vs = Ok u \<Longrightarrow> sum_list (map mv_percentage vs) \<le> 100"
proof -
  have run: "fold_ok (\<lambda>v n. u32_add n (mv_percentage v)) vs a = (Ok n :: (std_error, nat) outcome)
      \<Longrightarrow> n = a + sum_list (map mv_percentage vs)" for a n
    by (induction vs arbitrary: a) (fastforce simp: outcome_simps u32_add_def split: if_splits)+
  show "validate_votes_percentage vs = Ok u \<Longrightarrow> sum_list (map mv_percentage vs) \<le> 100"
    using run [of 0] by (auto simp: validate_votes_percentage_def outcome_simps)
qed

text \<open>Reading the voting power writes only the pool amounts.\<close>

lemma mc_voting_power_frame:
  assumes "mc_voting_power H s who pid = Ok (vp, t)"
  obtains am where "t = s\<lparr> mc_pool_amounts := am \<rparr>"
proof -
  obtain ds where "fold_ok (\<lambda>d (tot, t).
       let pw = (case mh_balance H (mcc_dao (mc_conf s)) who d of None \<Rightarrow> 0 | Some n \<Rightarrow> n) in
       and_then (u128_add tot pw) (\<lambda>tot'.
       Ok (tot', t\<lparr> mc_pool_amounts := kv_set (mc_pool_amounts t) (pid, d) pw \<rparr>))) ds (0, s) = (Ok (vp, t) :: (std_error, _) outcome)"
    using assms by (auto simp: mc_voting_power_def outcome_simps)
  moreover have "(\<lambda>(_, t). \<exists>am. t = s\<lparr> mc_pool_amounts := am \<rparr>) (0 :: nat, s)"
    by (auto intro!: exI [of _ "mc_pool_amounts s"])
  ultimately have "(\<lambda>(_, t). \<exists>am. t = s\<lparr> mc_pool_amounts := am \<rparr>) (vp, t)"
    by (rule fold_ok_invariant) (auto simp: Let_def outcome_simps)
  then show thesis using that by auto
qed

lemma advance_version_Ok:
  "advance_version s pid = Ok t \<longleftrightarrow> t = s\<lparr> mc_version := kv_set (mc_version s) pid (kv_nat (mc_version s) pid + 1) \<rparr> \<and>
     kv_nat (mc_version s) pid + 1 < u128_lim"
  by (auto simp: advance_version_def outcome_simps arith_simps)

text \<open>The history record of a proposal as it stands.\<close>

definition history_of :: "env \<Rightarrow> mc_proposal \<Rightarrow> mc_history" where
  "history_of e p = \<lparr> mh_time = seconds (block e), mh_status = mp_status p, mh_total_power = mp_total_power p,
     mh_choices = mp_choices p, mh_voting_start_time = mp_voting_start_time p, mh_expiration = mp_expiration p \<rparr>"

lemma upgrade_history_Ok:
  "upgrade_history s e pid p = Ok t \<longleftrightarrow> (\<exists>ver. kv_get (mc_version s) pid = Some ver \<and>
     t = s\<lparr> mc_histories := kv_set (mc_histories s) (pid, ver) (history_of e p),
            mc_executions := kv_set (mc_executions s) (pid, seconds (block e))
              \<lparr> me_version = ver, me_status = mp_status p \<rparr> \<rparr>)"
  by (auto simp: upgrade_history_def history_of_def outcome_simps)

definition reopened :: "loop_proposal \<Rightarrow> mc_proposal \<Rightarrow> mc_proposal" where
  "reopened l p = p\<lparr> mp_status := Mc_open, mp_voting_start_time := lp_voting_start_time l,
     mp_expiration := lp_expiration l, mp_total_power := 0,
     mp_choices := map (\<lambda>c. c\<lparr> ch_power := 0 \<rparr>) (mp_choices p) \<rparr>"

lemma update_props_Ok:
  "update_props s e l pid p = Ok (t, q) \<longleftrightarrow>
     upgrade_history s e pid (p\<lparr> mp_status := Mc_time_out \<rparr>) = Ok t \<and> q = reopened l p"
  by (auto simp: update_props_def reopened_def outcome_simps)

lemma reopened_power [simp]:
  "powers (reopened l p) = 0" "pool_power (reopened l p) pool = 0" "mp_total_power (reopened l p) = 0"
  by (auto simp: reopened_def powers_def pool_power_def comp_def)

text \<open>A round of voting: the proposal as stored, or reopened as a new version.\<close>

lemma vote_round_Ok:
  assumes "vote_round H s e pid p l = Ok (t, q)"
  obtains (same) "t = s" "q = p"
  | (fresh) s1 where "mh_later H (lp_expiration l) (mp_expiration p)" "advance_version s pid = Ok s1"
      "upgrade_history s1 e pid (p\<lparr> mp_status := Mc_time_out \<rparr>) = Ok t" "q = reopened l p"
  using assms
  by (auto simp: vote_round_def update_props_Ok outcome_simps split: if_splits)

section \<open>Handlers\<close>

lemma mc_propose_cases:
  assumes "mc_propose H s0 who ttl descr pending options amount loop_id = Ok t"
  obtains vp am p l where "mc_voting_power H s0 who 0 = Ok (vp, s0\<lparr> mc_pool_amounts := am \<rparr>)"
    "mh_loop H (mcc_loop_gauge (mc_conf s0)) loop_id = Some l"
    "mp_status p = Mc_open" "mp_total_power p = 0" "mp_proposer p = who" "mp_voting_start_time p = lp_voting_start_time l"
    "mp_choices p = map (\<lambda>opt. \<lparr> ch_pool = opt, ch_power = 0 \<rparr>) options" "mp_allow_revoting p = False"
    "t = s0\<lparr> mc_pool_amounts := am,
        mc_locked := kv_set (mc_locked s0) who (kv_nat (mc_locked s0) who + mcc_creation_limit (mc_conf s0)),
        mc_count := mc_count s0 + 1,
        mc_version := kv_set (mc_version s0) (mc_count s0 + 1) (kv_nat (mc_version s0) (mc_count s0 + 1) + 1),
        mc_proposals := kv_set (mc_proposals s0) (mc_count s0 + 1) p \<rparr>"
proof -
  obtain vp s where vp: "mc_voting_power H s0 who 0 = Ok (vp, s)"
    using assms by (auto simp: mc_propose_def Let_def outcome_simps)
  then obtain am where s: "s = s0\<lparr> mc_pool_amounts := am \<rparr>" by (rule mc_voting_power_frame)
  obtain l where l: "mh_loop H (mcc_loop_gauge (mc_conf s0)) loop_id = Some l"
    using assms vp by (auto simp: mc_propose_def Let_def outcome_simps split: option.splits)
  from assms show thesis
    by (auto simp: mc_propose_def Let_def vp s l outcome_simps arith_simps advance_version_Ok intro!: that)
qed

lemma closing_checks_cases:
  assumes "closing_checks H s0 e who pid = Ok (s, p, l)"
  obtains am where "kv_get (mc_proposals s0) pid = Some p" "s = s0\<lparr> mc_pool_amounts := am \<rparr>"
    "mh_loop H (mcc_loop_gauge (mc_conf s0)) (mp_loop_id p) = Some l"
    "mc_current_status_custom (block e) p = (Ok Mc_voting_closed :: (std_error, mc_status) outcome)"
proof -
  obtain vp where p: "kv_get (mc_proposals s0) pid = Some p" and vp: "mc_voting_power H s0 who pid = Ok (vp, s)"
    using assms by (auto simp: closing_checks_def outcome_simps split: option.splits if_splits)
  from vp obtain am where s: "s = s0\<lparr> mc_pool_amounts := am \<rparr>" by (rule mc_voting_power_frame)
  from assms p s show thesis
    by (auto simp: closing_checks_def vp outcome_simps split: option.splits if_splits intro!: that)
qed

lemma mc_execute_cases:
  assumes "mc_execute_execute H s e who pid = Ok (t, out)"
  obtains (stale) am p l where "closing_checks H s e who pid = Ok (s\<lparr> mc_pool_amounts := am \<rparr>, p, l)"
      "mh_later H (lp_expiration l) (mp_expiration p)" "out = []"
      "t = s\<lparr> mc_pool_amounts := am,
         mc_version := kv_set (mc_version s) pid (kv_nat (mc_version s) pid + 1),
         mc_histories := kv_set (mc_histories s) (pid, kv_nat (mc_version s) pid + 1) (history_of e (p\<lparr> mp_status := Mc_time_out \<rparr>)),
         mc_executions := kv_set (mc_executions s) (pid, seconds (block e))
           \<lparr> me_version = kv_nat (mc_version s) pid + 1, me_status = Mc_time_out \<rparr> \<rparr>"
  | (executed) am p l ver where "closing_checks H s e who pid = Ok (s\<lparr> mc_pool_amounts := am \<rparr>, p, l)"
      "\<not> mh_later H (lp_expiration l) (mp_expiration p)"
      "get_execution_message p (mcc_loop_staker (mc_conf s)) = Ok out"
      "kv_get (mc_version s) pid = Some ver"
      "t = s\<lparr> mc_pool_amounts := am,
         mc_proposals := kv_set (mc_proposals s) pid (p\<lparr> mp_status := Mc_executed \<rparr>),
         mc_histories := kv_set (mc_histories s) (pid, ver) (history_of e (p\<lparr> mp_status := Mc_executed \<rparr>)),
         mc_executions := kv_set (mc_executions s) (pid, seconds (block e))
           \<lparr> me_version = ver, me_status = Mc_executed \<rparr> \<rparr>"
proof -
  obtain s1 p l where checks: "closing_checks H s e who pid = Ok (s1, p, l)"
    using assms by (auto simp: mc_execute_execute_def outcome_simps)
  from checks obtain am where s1: "s1 = s\<lparr> mc_pool_amounts := am \<rparr>" by (rule closing_checks_cases)
  show thesis
  proof (cases "mh_later H (lp_expiration l) (mp_expiration p)")
    case True
    with assms show thesis
      by (intro stale [of am p l])
        (auto simp: mc_execute_execute_def checks s1 outcome_simps advance_version_Ok update_props_Ok upgrade_history_Ok)
  next
    case False
    with assms obtain ver where "get_execution_message p (mcc_loop_staker (mc_conf s)) = Ok out"
      "kv_get (mc_version s) pid = Some ver"
      "t = s\<lparr> mc_pool_amounts := am,
         mc_proposals := kv_set (mc_proposals s) pid (p\<lparr> mp_status := Mc_executed \<rparr>),
         mc_histories := kv_set (mc_histories s) (pid, ver) (history_of e (p\<lparr> mp_status := Mc_executed \<rparr>)),
         mc_executions := kv_set (mc_executions s) (pid, seconds (block e))
           \<lparr> me_version = ver, me_status = Mc_executed \<rparr> \<rparr>"
      by (auto simp: mc_execute_execute_def checks s1 Let_def outcome_simps upgrade_history_Ok)
    with False checks s1 show thesis by (intro executed [of am p l ver]) simp_all
  qed
qed

lemma mc_reject_cases:
  assumes "mc_reject H s e who pid = Ok t"
  obtains (stale) am p l where "closing_checks H s e who pid = Ok (s\<lparr> mc_pool_amounts := am \<rparr>, p, l)"
      "mh_later H (lp_expiration l) (mp_expiration p)"
      "mc_execute_execute H s e who pid = Ok (t, [])"
  | (rejected) am p l ver where "closing_checks H s e who pid = Ok (s\<lparr> mc_pool_amounts := am \<rparr>, p, l)"
      "\<not> mh_later H (lp_expiration l) (mp_expiration p)" "kv_get (mc_version s) pid = Some ver"
      "t = s\<lparr> mc_pool_amounts := am,
         mc_proposals := kv_set (mc_proposals s) pid (p\<lparr> mp_status := Mc_rejected \<rparr>),
         mc_histories := kv_set (mc_histories s) (pid, ver) (history_of e (p\<lparr> mp_status := Mc_rejected \<rparr>)),
         mc_executions := kv_set (mc_executions s) (pid, seconds (block e))
           \<lparr> me_version = ver, me_status = Mc_rejected \<rparr> \<rparr>"
proof -
  obtain s1 p l where checks: "closing_checks H s e who pid = Ok (s1, p, l)"
    using assms by (auto simp: mc_reject_def outcome_simps)
  from checks obtain am where s1: "s1 = s\<lparr> mc_pool_amounts := am \<rparr>" by (rule closing_checks_cases)
  show thesis
  proof (cases "mh_later H (lp_expiration l) (mp_expiration p)")
    case True
    with assms checks s1 show thesis
      by (intro stale [of am p l])
        (auto simp: mc_reject_def mc_execute_execute_def outcome_simps)
  next
    case False
    with assms obtain ver where "kv_get (mc_version s) pid = Some ver"
      "t = s\<lparr> mc_pool_amounts := am,
         mc_proposals := kv_set (mc_proposals s) pid (p\<lparr> mp_status := Mc_rejected \<rparr>),
         mc_histories := kv_set (mc_histories s) (pid, ver) (history_of e (p\<lparr> mp_status := Mc_rejected \<rparr>)),
         mc_executions := kv_set (mc_executions s) (pid, seconds (block e))
           \<lparr> me_version = ver, me_status = Mc_rejected \<rparr> \<rparr>"
      by (auto simp: mc_reject_def checks s1 Let_def upgrade_history_Ok)
    with False checks s1 show thesis by (intro rejected [of am p l ver]) simp_all
  qed
qed

text \<open>A vote: the round, the ballots, and the stored proposal with the whole power added.\<close>

lemma mc_vote_cases:
  assumes "mc_vote_handler P H s0 e who pid vs = Ok t"
  obtains vp am p0 l s2 p2 ver s3 p3 where
    "kv_get (mc_proposals s0) pid = Some p0" "mc_voting_power H s0 who pid = Ok (vp, s0\<lparr> mc_pool_amounts := am \<rparr>)"
    "vp \<noteq> 0" "mh_loop H (mcc_loop_gauge (mc_conf s0)) (mp_loop_id p0) = Some l"
    "vote_round H (s0\<lparr> mc_pool_amounts := am \<rparr>) e pid p0 l = Ok (s2, p2)"
    "kv_get (mc_version s2) pid = Some ver" "sum_list (map mv_percentage vs) \<le> 100"
    "fold_ok (cast_choice pid ver who vp (seconds (block e))) vs (s2, p2) = Ok (s3, p3)"
    "t = s3\<lparr> mc_proposals := kv_set (mc_proposals s3) pid
           (mc_update_status P (block e) (p3\<lparr> mp_total_power := mp_total_power p3 + vp \<rparr>)) \<rparr>"
proof -
  obtain p0 vp s1 where p0: "kv_get (mc_proposals s0) pid = Some p0"
    and vp: "mc_voting_power H s0 who pid = Ok (vp, s1)"
    using assms by (auto simp: mc_vote_handler_def outcome_simps)
  from vp obtain am where s1: "s1 = s0\<lparr> mc_pool_amounts := am \<rparr>" by (rule mc_voting_power_frame)
  obtain l where l: "mh_loop H (mcc_loop_gauge (mc_conf s0)) (mp_loop_id p0) = Some l"
    using assms by (auto simp: mc_vote_handler_def p0 vp s1 outcome_simps split: option.splits)
  obtain s2 p2 where round: "vote_round H s1 e pid p0 l = Ok (s2, p2)"
    using assms by (auto simp: mc_vote_handler_def p0 vp s1 l outcome_simps)
  obtain ver s3 p3 u where "vp \<noteq> 0" "kv_get (mc_version s2) pid = Some ver"
    "validate_votes_percentage vs = Ok u"
    "fold_ok (cast_choice pid ver who vp (seconds (block e))) vs (s2, p2) = Ok (s3, p3)"
    "t = s3\<lparr> mc_proposals := kv_set (mc_proposals s3) pid
           (mc_update_status P (block e) (p3\<lparr> mp_total_power := mp_total_power p3 + vp \<rparr>)) \<rparr>"
    using assms l round
    by (auto simp: mc_vote_handler_def p0 vp s1 outcome_simps arith_simps)
  with p0 vp l round show thesis
    by (intro that [of p0 vp am l s2 p2 ver s3 p3]) (simp_all add: s1 validate_votes_percentage_Ok)
qed

lemma mc_update_status_sums [simp]:
  "powers (mc_update_status P b p) = powers p" "pool_power (mc_update_status P b p) pool = pool_power p pool"
  "mp_total_power (mc_update_status P b p) = mp_total_power p"
  "mp_allow_revoting (mc_update_status P b p) = mp_allow_revoting p"
  by (simp_all add: mc_update_status_def powers_def pool_power_def)

lemma powers_fields [simp]:
  "powers (p\<lparr> mp_status := st \<rparr>) = powers p" "powers (p\<lparr> mp_total_power := n \<rparr>) = powers p"
  "pool_power (p\<lparr> mp_status := st \<rparr>) = pool_power p" "pool_power (p\<lparr> mp_total_power := n \<rparr>) = pool_power p"
  by (simp_all add: powers_def pool_power_def fun_eq_iff)

lemma mc_close_cases:
  assumes "mc_close P s e who pid = Ok t"
  obtains p where "kv_get (mc_proposals s) pid = Some p" "who = mp_proposer p"
    "seconds (block e) \<le> mp_voting_start_time p + mcc_hold_duration (mc_conf s)"
    "mcc_creation_limit (mc_conf s) \<le> kv_nat (mc_locked s) who"
    "t = s\<lparr> mc_locked := kv_set (mc_locked s) who (kv_nat (mc_locked s) who - mcc_creation_limit (mc_conf s)),
           mc_proposals := kv_set (mc_proposals s) pid (p\<lparr> mp_status := Mc_closed \<rparr>) \<rparr>"
  using assms
  by (auto simp: mc_close_def Let_def mc_update_status_def outcome_simps arith_simps)

text \<open>Executing, rejecting and closing change at most the status of the stored proposal.\<close>

definition status_moved :: "mc_state \<Rightarrow> mc_state \<Rightarrow> nat \<Rightarrow> bool" where
  "status_moved s t pid \<longleftrightarrow> mc_proposals t = mc_proposals s \<or>
     (\<exists>p st. kv_get (mc_proposals s) pid = Some p \<and>
        mc_proposals t = kv_set (mc_proposals s) pid (p\<lparr> mp_status := st \<rparr>))"

lemma mc_execute_moved: "mc_execute_execute H s e who pid = Ok (t, out) \<Longrightarrow> status_moved s t pid"
  by (erule mc_execute_cases) (auto simp: status_moved_def elim!: closing_checks_cases)

lemma mc_reject_moved: "mc_reject H s e who pid = Ok t \<Longrightarrow> status_moved s t pid"
proof (erule mc_reject_cases)
  fix am p l assume "mc_execute_execute H s e who pid = Ok (t, [])"
  then show ?thesis by (rule mc_execute_moved)
qed (auto simp: status_moved_def elim!: closing_checks_cases)

lemma mc_close_moved: "mc_close P s e who pid = Ok t \<Longrightarrow> status_moved s t pid"
  by (erule mc_close_cases) (auto simp: status_moved_def)

section \<open>Reachable states\<close>

inductive mc_reachable :: "platform \<Rightarrow> mc_state \<Rightarrow> bool" for P where
  started: "mc_instantiate info msg = Ok s \<Longrightarrow> mc_reachable P s"
| stepped: "mc_reachable P s \<Longrightarrow> mc_execute P H s e info msg = Ok (t, out) \<Longrightarrow> mc_reachable P t"

lemma mc_silent_Ok [outcome_simps]: "mc_silent r = Ok (t, out) \<longleftrightarrow> r = Ok t \<and> out = []"
  by (auto simp: mc_silent_def outcome_simps)

text \<open>Every stored proposal has at least the power of its choices as total.\<close>

definition covered :: "mc_state \<Rightarrow> bool" where
  "covered s \<longleftrightarrow> (\<forall>pid p. kv_get (mc_proposals s) pid = Some p \<longrightarrow> powers p \<le> mp_total_power p)"

lemma coveredD: "covered s \<Longrightarrow> kv_get (mc_proposals s) pid = Some p \<Longrightarrow> powers p \<le> mp_total_power p"
  by (simp add: covered_def)

lemma covered_set:
  "covered s \<Longrightarrow> mc_proposals t = kv_set (mc_proposals s) pid p \<Longrightarrow> powers p \<le> mp_total_power p \<Longrightarrow> covered t"
  by (simp add: covered_def)

lemma covered_cong: "covered s \<Longrightarrow> mc_proposals t = mc_proposals s \<Longrightarrow> covered t"
  by (simp add: covered_def)

lemma covered_moved: "covered s \<Longrightarrow> status_moved s t pid \<Longrightarrow> covered t"
  by (auto simp: status_moved_def covered_def split: if_splits)

lemma mc_vote_covered:
  assumes "mc_vote_handler P H s e who pid vs = Ok t" "covered s"
  shows "covered t"
  using assms(1)
proof (cases rule: mc_vote_cases)
  case (1 vp am p0 l s2 p2 ver s3 p3)
  have round: "mc_proposals s2 = mc_proposals s \<and> powers p2 \<le> mp_total_power p2"
    using 1(5)
  proof (cases rule: vote_round_Ok)
    case same
    then show ?thesis using coveredD [OF assms(2) 1(1)] by simp
  next
    case (fresh s1)
    then show ?thesis by (auto simp: advance_version_Ok upgrade_history_Ok)
  qed
  obtain n where "powers p3 + n = powers p2 + vote_sum vp vs" "mp_total_power p3 + n = mp_total_power p2"
    using cast_all_sums(2) [OF 1(8)] by blast
  moreover have "mc_proposals s3 = mc_proposals s"
    using cast_all_sums(1) [OF 1(8)] round by (auto simp: same_but_ballots_def)
  ultimately show ?thesis
    using vote_sum_le [OF 1(7), of vp] round
    by (intro covered_set [OF assms(2), of _ pid]) (auto simp: 1(9))
qed

lemma mc_execute_covered:
  assumes run: "mc_execute P H s e info msg = Ok (t, out)" and inv: "covered s"
  shows "covered t"
proof (cases msg)
  case (Mc_propose ttl descr options pending amount loop_id)
  with run have "mc_propose H s (sender info) ttl descr pending options amount loop_id = Ok t"
    by (auto simp: outcome_simps)
  then show ?thesis
    by (rule mc_propose_cases) (auto intro!: covered_set [OF inv] simp: powers_def comp_def)
next
  case (Mc_cast pid vs)
  with run show ?thesis by (auto simp: outcome_simps intro: mc_vote_covered inv)
next
  case (Mc_execute pid)
  with run have "mc_execute_execute H s e (sender info) pid = Ok (t, out)" by simp
  from covered_moved [OF inv mc_execute_moved [OF this]] show ?thesis .
next
  case (Mc_reject pid)
  with run have "mc_reject H s e (sender info) pid = Ok t" by (simp add: outcome_simps)
  from covered_moved [OF inv mc_reject_moved [OF this]] show ?thesis .
next
  case (Mc_close pid)
  with run have "mc_close P s e (sender info) pid = Ok t" by (simp add: outcome_simps)
  from covered_moved [OF inv mc_close_moved [OF this]] show ?thesis .
next
  case (Mc_update_config u)
  with run show ?thesis
    by (auto simp: mc_update_config_def Let_def outcome_simps intro: covered_cong [OF inv])
next
  case (Mc_add_options pid opts)
  with run have "mc_add_options H s pid opts = Ok t" by (simp add: outcome_simps)
  then obtain p where "kv_get (mc_proposals s) pid = Some p"
    "mc_proposals t = kv_set (mc_proposals s) pid (p\<lparr> mp_choices := mp_choices p @ map (\<lambda>opt. \<lparr> ch_pool = opt, ch_power = 0 \<rparr>) opts \<rparr>)"
    by (auto simp: mc_add_options_def outcome_simps split: option.splits)
  then show ?thesis
    using coveredD [OF inv] by (intro covered_set [OF inv]) (auto simp: powers_def comp_def)
next
  case (Mc_remove_options pid opts)
  with run have "mc_remove_options s pid opts = Ok t" by (simp add: outcome_simps)
  then obtain p where p: "kv_get (mc_proposals s) pid = Some p"
    "mc_proposals t = kv_set (mc_proposals s) pid (p\<lparr> mp_choices := filter (\<lambda>c. ch_pool c \<notin> set opts) (mp_choices p) \<rparr>)"
    by (auto simp: mc_remove_options_def outcome_simps)
  have "sum_list (map ch_power (filter Q cs)) \<le> sum_list (map ch_power cs)" for Q cs
    by (induction cs) auto
  then show ?thesis
    using coveredD [OF inv p(1)] p(2) by (intro covered_set [OF inv p(2)]) (auto simp: powers_def intro: order_trans)
qed

theorem mc_reachable_covered: "mc_reachable P s \<Longrightarrow> covered s"
  by (induction rule: mc_reachable.induct)
    (auto simp: covered_def mc_instantiate_def outcome_simps intro: mc_execute_covered [unfolded covered_def, rule_format])

end
