(* ===== verification/Choice_Ballots.thy ===== *)
theory Choice_Ballots
  imports Choice_Proofs
begin

text \<open>
  Choices against ballots: in runs that remove only options without power and do not close a
  stale round, every choice of a stored proposal holds exactly the power of the ballots cast for
  its pool in the current version.
\<close>

section \<open>The invariant\<close>

definition tallied :: "mc_state \<Rightarrow> nat \<Rightarrow> nat \<Rightarrow> mc_proposal \<Rightarrow> bool" where
  "tallied s pid ver p \<longleftrightarrow> (\<forall>pool. pool_power p pool = ballots_for s pid ver pool)"

text \<open>No ballot belongs to a version that has not begun.\<close>

definition ballots_current :: "mc_state \<Rightarrow> bool" where
  "ballots_current s \<longleftrightarrow> kv_ok (mc_ballots s) \<and>
     (\<forall>k b. kv_get (mc_ballots s) k = Some b \<longrightarrow> snd (fst k) \<le> kv_nat (mc_version s) (fst (fst k)))"

lemma ballots_currentD:
  "ballots_current s \<Longrightarrow> kv_get (mc_ballots s) k = Some b \<Longrightarrow> snd (fst k) \<le> kv_nat (mc_version s) (fst (fst k))"
  unfolding ballots_current_def by blast

definition matched :: "mc_state \<Rightarrow> bool" where
  "matched s \<longleftrightarrow> ballots_current s \<and>
     (\<forall>pid p. kv_get (mc_proposals s) pid = Some p \<longrightarrow> tallied s pid (kv_nat (mc_version s) pid) p) \<and>
     (\<forall>pid. kv_nat (mc_version s) pid \<noteq> 0 \<longrightarrow> pid \<le> mc_count s) \<and>
     (\<forall>pid p. kv_get (mc_proposals s) pid = Some p \<longrightarrow> pid \<le> mc_count s)"

lemma ballots_for_cong: "mc_ballots t = mc_ballots s \<Longrightarrow> ballots_for t pid ver pool = ballots_for s pid ver pool"
  by (simp add: ballots_for_def)

lemma ballots_for_future:
  assumes "ballots_current s" "kv_nat (mc_version s) pid < ver"
  shows "ballots_for s pid ver pool = 0"
proof -
  have "(if fst k = (pid, ver) \<and> snd (snd k) = pool then mb_power b else 0) = 0"
    if "(k, b) \<in> set (mc_ballots s)" for k b
    using that assms by (cases k) (fastforce simp: ballots_current_def kv_in_set_get)
  then show ?thesis by (simp add: ballots_for_def kv_sum_def sum_list_eq_0_iff)
qed

text \<open>One vote of the loop.\<close>

lemma cast_choice_tallied:
  assumes "cast_choice pid ver who vp now v (s, p) = Ok (s', p')"
    and "ballots_current s" "tallied s pid ver p" "ver \<le> kv_nat (mc_version s) pid"
  shows "ballots_current s'" "tallied s' pid ver p'"
    and "(pid', ver') \<noteq> (pid, ver) \<Longrightarrow> ballots_for s' pid' ver' pool = ballots_for s pid' ver' pool"
proof -
  note cast = cast_choice_cases [OF assms(1)]
  let ?k = "mc_key pid ver who (mv_pool v)"
  let ?b = "\<lparr> mb_power = vp * mv_percentage v div 100, mb_vote = v, mb_time = now \<rparr>"
  have ok: "kv_ok (mc_ballots s)" using assms(2) by (simp add: ballots_current_def)
  have key: "fst (fst ?k) = pid" "snd (fst ?k) = ver" "snd (snd ?k) = mv_pool v" "fst ?k = (pid, ver)"
    by (simp_all add: mc_key_def)
  show "ballots_current s'"
    unfolding ballots_current_def
  proof (intro conjI allI impI)
    fix k b
    assume "kv_get (mc_ballots s') k = Some b"
    then have "k = ?k \<or> kv_get (mc_ballots s) k = Some b" by (auto simp: cast(1) split: if_splits)
    moreover have "mc_version s' = mc_version s" by (simp add: cast(1))
    ultimately show "snd (fst k) \<le> kv_nat (mc_version s') (fst (fst k))"
      using ballots_currentD [OF assms(2), of k b] assms(4) key by auto
  qed (simp add: cast(1) ok)
  have sum: "ballots_for s' pid' ver' pool + (if (pid', ver') = (pid, ver) \<and> pool = mv_pool v then old_power s pid ver who (mv_pool v) else 0)
    = ballots_for s pid' ver' pool + (if (pid', ver') = (pid, ver) \<and> pool = mv_pool v then vp * mv_percentage v div 100 else 0)"
    for pid' ver' pool
    using kv_sum_set [OF ok, of "\<lambda>k b. if fst k = (pid', ver') \<and> snd (snd k) = pool then mb_power b else 0" ?k ?b] key
    by (auto simp: ballots_for_def cast(1) old_power_def ballot_size_def kv_at_def split: option.splits if_splits)
  show "tallied s' pid ver p'"
    unfolding tallied_def
  proof
    fix pool
    show "pool_power p' pool = ballots_for s' pid ver pool"
      using sum [of pid ver pool] cast(4) [of pool] assms(3) by (auto simp: tallied_def split: if_splits)
  qed
  show "(pid', ver') \<noteq> (pid, ver) \<Longrightarrow> ballots_for s' pid' ver' pool = ballots_for s pid' ver' pool"
    using sum [of pid' ver' pool] by auto
qed

lemma cast_all_tallied:
  assumes "fold_ok (cast_choice pid ver who vp now) vs (s, p) = Ok (t, q)"
    and "ballots_current s" "tallied s pid ver p" "ver \<le> kv_nat (mc_version s) pid"
  shows "ballots_current t \<and> tallied t pid ver q \<and>
    (\<forall>pid' ver' pool. (pid', ver') \<noteq> (pid, ver) \<longrightarrow> ballots_for t pid' ver' pool = ballots_for s pid' ver' pool)"
  using assms
proof (induction vs arbitrary: s p)
  case (Cons v vs)
  obtain s1 p1 where step: "cast_choice pid ver who vp now v (s, p) = Ok (s1, p1)"
    and rest: "fold_ok (cast_choice pid ver who vp now) vs (s1, p1) = Ok (t, q)"
    using Cons.prems(1) by (auto simp: outcome_simps)
  note one = cast_choice_tallied [OF step Cons.prems(2-4)]
  have "mc_version s1 = mc_version s" using cast_choice_cases(1) [OF step] by simp
  then show ?case using Cons.IH [OF rest one(1,2)] Cons.prems(4) one(3) by simp
qed simp

section \<open>The operations\<close>

lemma matched_cong:
  assumes "matched s" "mc_ballots t = mc_ballots s" "mc_version t = mc_version s" "mc_count t = mc_count s"
    and "\<And>pid p. kv_get (mc_proposals t) pid = Some p \<Longrightarrow>
      \<exists>p'. kv_get (mc_proposals s) pid = Some p' \<and> (\<forall>pool. pool_power p pool = pool_power p' pool)"
  shows "matched t"
  unfolding matched_def
proof (intro conjI allI impI)
  show "ballots_current t" using assms(1-3) by (simp add: matched_def ballots_current_def)
  show "pid \<le> mc_count t" if "kv_nat (mc_version t) pid \<noteq> 0" for pid
    using that assms(1,3,4) by (simp add: matched_def)
  fix pid p
  assume "kv_get (mc_proposals t) pid = Some p"
  then obtain p' where p': "kv_get (mc_proposals s) pid = Some p'" "\<And>pool. pool_power p pool = pool_power p' pool"
    using assms(5) by blast
  then show "tallied t pid (kv_nat (mc_version t) pid) p"
    using assms(1) by (simp add: matched_def tallied_def ballots_for_cong [OF assms(2)] assms(3))
  show "pid \<le> mc_count t" using p'(1) assms(1,4) by (simp add: matched_def)
qed

lemma matched_moved:
  assumes "matched s" "status_moved s t pid" "mc_ballots t = mc_ballots s" "mc_version t = mc_version s"
    "mc_count t = mc_count s"
  shows "matched t"
  using assms(2) by (intro matched_cong [OF assms(1,3-5)]) (auto simp: status_moved_def split: if_splits)

lemma mc_vote_matched:
  assumes "mc_vote_handler P H s e who pid vs = Ok t" "matched s"
  shows "matched t"
  using assms(1)
proof (cases rule: mc_vote_cases)
  case (1 vp am p0 l s2 p2 ver s3 p3)
  have le: "pid \<le> mc_count s" using assms(2) 1(1) by (auto simp: matched_def)
  have round: "mc_proposals s2 = mc_proposals s \<and> mc_ballots s2 = mc_ballots s \<and> mc_count s2 = mc_count s \<and>
    (\<forall>pid'. pid' \<noteq> pid \<longrightarrow> kv_nat (mc_version s2) pid' = kv_nat (mc_version s) pid') \<and>
    ballots_current s2 \<and> tallied s2 pid ver p2"
    using 1(5)
  proof (cases rule: vote_round_Ok)
    case same
    have "ver = kv_nat (mc_version s) pid" using 1(6) same by (simp add: kv_nat_def)
    then show ?thesis
      using assms(2) 1(1) by (auto simp: same matched_def ballots_current_def tallied_def ballots_for_def)
  next
    case (fresh s1)
    have cur: "ballots_current s" using assms(2) by (simp add: matched_def)
    have s1: "mc_version s1 = kv_set (mc_version s) pid (kv_nat (mc_version s) pid + 1)"
      "mc_proposals s1 = mc_proposals s" "mc_ballots s1 = mc_ballots s" "mc_count s1 = mc_count s"
      using fresh(2) by (auto simp: advance_version_Ok)
    have s2: "mc_version s2 = mc_version s1" "mc_proposals s2 = mc_proposals s1" "mc_ballots s2 = mc_ballots s1"
      "mc_count s2 = mc_count s1"
      using fresh(3) by (auto simp: upgrade_history_Ok)
    have "ver = kv_nat (mc_version s) pid + 1" using 1(6) by (simp add: s1 s2)
    then have "tallied s2 pid ver p2"
      using ballots_for_future [OF cur] ballots_for_cong [of s2 s] by (simp add: tallied_def fresh(4) s1 s2)
    moreover have "ballots_current s2"
      using cur by (fastforce simp: ballots_current_def s1 s2)
    ultimately show ?thesis by (simp add: s1 s2)
  qed
  have ver: "kv_nat (mc_version s2) pid = ver" using 1(6) by (simp add: kv_nat_def)
  have cast: "ballots_current s3 \<and> tallied s3 pid ver p3 \<and>
    (\<forall>pid' ver' pool. (pid', ver') \<noteq> (pid, ver) \<longrightarrow> ballots_for s3 pid' ver' pool = ballots_for s2 pid' ver' pool)"
    using cast_all_tallied [OF 1(8)] round ver by simp
  have same: "mc_version s3 = mc_version s2" "mc_proposals s3 = mc_proposals s2" "mc_count s3 = mc_count s2"
    using cast_all_sums(1) [OF 1(8)] by (auto simp: same_but_ballots_def)
  have t: "mc_ballots t = mc_ballots s3" "mc_version t = mc_version s2" "mc_count t = mc_count s"
    "mc_proposals t = kv_set (mc_proposals s) pid (mc_update_status P (block e) (p3\<lparr> mp_total_power := mp_total_power p3 + vp \<rparr>))"
    using round same by (simp_all add: 1(9))
  have other: "tallied t pid' (kv_nat (mc_version t) pid') p"
    if "kv_get (mc_proposals s) pid' = Some p" "pid' \<noteq> pid" for pid' p
    using that assms(2) round cast by (simp add: matched_def tallied_def t ballots_for_cong [of t s3] ballots_for_cong [of s2 s])
  have own: "tallied t pid ver (mc_update_status P (block e) (p3\<lparr> mp_total_power := mp_total_power p3 + vp \<rparr>))"
    using cast by (simp add: tallied_def ballots_for_cong [OF t(1)])
  show ?thesis
    unfolding matched_def
  proof (intro conjI allI impI)
    show "ballots_current t" using cast same by (simp add: ballots_current_def t)
    show "tallied t pid' (kv_nat (mc_version t) pid') p" if "kv_get (mc_proposals t) pid' = Some p" for pid' p
      using that other [of pid' p] own ver by (auto simp: t split: if_splits)
    show "pid' \<le> mc_count t" if "kv_nat (mc_version t) pid' \<noteq> 0" for pid'
      using that round assms(2) le by (cases "pid' = pid") (auto simp: matched_def t)
    show "pid' \<le> mc_count t" if "kv_get (mc_proposals t) pid' = Some p" for pid' p
      using that assms(2) le by (auto simp: matched_def t split: if_splits)
  qed
qed

lemma mc_propose_matched:
  assumes "mc_propose H s who ttl descr pending options amount loop_id = Ok t" "matched s"
  shows "matched t"
  using assms(1)
proof (cases rule: mc_propose_cases)
  case (1 vp am p l)
  let ?pid = "mc_count s + 1"
  have fresh: "kv_nat (mc_version s) ?pid = 0"
    using assms(2) unfolding matched_def by (metis Suc_eq_plus1 not_less_eq_eq order_refl)
  have cur: "ballots_current s" using assms(2) by (simp add: matched_def)
  have t: "mc_ballots t = mc_ballots s" "mc_count t = ?pid" "mc_version t = kv_set (mc_version s) ?pid 1"
    "mc_proposals t = kv_set (mc_proposals s) ?pid p"
    using fresh by (simp_all add: 1(9))
  have new: "tallied t ?pid 1 p"
    using ballots_for_future [OF cur, of ?pid 1] fresh
    by (auto simp: tallied_def ballots_for_cong [OF t(1)] pool_power_def 1(7) comp_def)
  have old: "pid \<noteq> ?pid" if "kv_get (mc_proposals s) pid = Some q" for pid q
    using that assms(2) by (auto simp: matched_def)
  show ?thesis
    unfolding matched_def
  proof (intro conjI allI impI)
    show "ballots_current t"
      unfolding ballots_current_def
    proof (intro conjI allI impI)
      fix k b
      assume "kv_get (mc_ballots t) k = Some b"
      from ballots_currentD [OF cur this [unfolded t]]
      show "snd (fst k) \<le> kv_nat (mc_version t) (fst (fst k))" using fresh by (auto simp: t)
    qed (use cur in \<open>simp add: t ballots_current_def\<close>)
    show "tallied t pid (kv_nat (mc_version t) pid) q" if "kv_get (mc_proposals t) pid = Some q" for pid q
      using that new assms(2) by (auto simp: t matched_def tallied_def ballots_for_cong [OF t(1)] split: if_splits)
    show "pid \<le> mc_count t" if "kv_nat (mc_version t) pid \<noteq> 0" for pid
      using that assms(2) by (cases "pid = ?pid") (auto simp: t matched_def intro: le_SucI)
    show "pid \<le> mc_count t" if "kv_get (mc_proposals t) pid = Some q" for pid q
      using that assms(2) by (auto simp: t matched_def intro: le_SucI split: if_splits)
  qed
qed

section \<open>Careful runs\<close>

text \<open>A round that the outer gauge has not replaced.\<close>

definition current_round :: "mc_host \<Rightarrow> mc_state \<Rightarrow> nat \<Rightarrow> bool" where
  "current_round H s pid \<longleftrightarrow> (\<forall>p l. kv_get (mc_proposals s) pid = Some p \<longrightarrow>
     mh_loop H (mcc_loop_gauge (mc_conf s)) (mp_loop_id p) = Some l \<longrightarrow>
     \<not> mh_later H (lp_expiration l) (mp_expiration p))"

fun mc_careful :: "mc_host \<Rightarrow> mc_state \<Rightarrow> mc_msg \<Rightarrow> bool" where
  "mc_careful H s (Mc_execute pid) = current_round H s pid"
| "mc_careful H s (Mc_reject pid) = current_round H s pid"
| "mc_careful H s (Mc_remove_options pid opts) =
     (\<forall>p. kv_get (mc_proposals s) pid = Some p \<longrightarrow> (\<forall>pool\<in>set opts. pool_power p pool = 0))"
| "mc_careful H s msg = True"

inductive mc_careful_run :: "platform \<Rightarrow> mc_state \<Rightarrow> bool" for P where
  started: "mc_instantiate info msg = Ok s \<Longrightarrow> mc_careful_run P s"
| stepped: "mc_careful_run P s \<Longrightarrow> mc_careful H s msg \<Longrightarrow> mc_execute P H s e info msg = Ok (t, out)
     \<Longrightarrow> mc_careful_run P t"

lemma mc_careful_run_reachable: "mc_careful_run P s \<Longrightarrow> mc_reachable P s"
  by (induction rule: mc_careful_run.induct) (auto intro: mc_reachable.intros)

lemma mc_execute_same:
  assumes "mc_execute_execute H s e who pid = Ok (t, out)" "current_round H s pid"
  shows "mc_ballots t = mc_ballots s" "mc_version t = mc_version s" "mc_count t = mc_count s"
  using assms(1)
proof (atomize (full), cases rule: mc_execute_cases)
  case (stale am p l)
  then show "mc_ballots t = mc_ballots s \<and> mc_version t = mc_version s \<and> mc_count t = mc_count s"
    using assms(2) by (auto simp: current_round_def elim: closing_checks_cases)
qed simp

lemma mc_reject_same:
  assumes "mc_reject H s e who pid = Ok t" "current_round H s pid"
  shows "mc_ballots t = mc_ballots s" "mc_version t = mc_version s" "mc_count t = mc_count s"
  using assms(1)
proof (atomize (full), cases rule: mc_reject_cases)
  case (stale am p l)
  then show "mc_ballots t = mc_ballots s \<and> mc_version t = mc_version s \<and> mc_count t = mc_count s"
    using assms(2) by (auto simp: current_round_def elim: closing_checks_cases)
qed simp

lemma pool_power_filter:
  assumes "\<forall>pool\<in>set opts. sum_list (map (\<lambda>c. if ch_pool c = pool then ch_power c else 0) cs) = 0"
  shows "sum_list (map (\<lambda>c. if ch_pool c = pool then ch_power c else 0) (filter (\<lambda>c. ch_pool c \<notin> set opts) cs))
     = sum_list (map (\<lambda>c. if ch_pool c = pool then ch_power c else 0) cs)"
proof (cases "pool \<in> set opts")
  case True
  have "sum_list (map (\<lambda>c. if ch_pool c = pool then ch_power c else 0) (filter (\<lambda>c. ch_pool c \<notin> set opts) cs)) = 0"
    using True by (auto simp: sum_list_eq_0_iff)
  then show ?thesis using bspec [OF assms True] by (rule trans [OF _ sym])
next
  case False
  then show ?thesis by (induction cs) simp_all
qed

lemma mc_step_matched:
  assumes run: "mc_execute P H s e info msg = Ok (t, out)" and inv: "matched s" and "mc_careful H s msg"
  shows "matched t"
proof (cases msg)
  case (Mc_propose ttl descr options pending amount loop_id)
  with run show ?thesis by (auto simp: outcome_simps intro: mc_propose_matched inv)
next
  case (Mc_cast pid vs)
  with run show ?thesis by (auto simp: outcome_simps intro: mc_vote_matched inv)
next
  case (Mc_execute pid)
  with run have ex: "mc_execute_execute H s e (sender info) pid = Ok (t, out)" by simp
  show ?thesis
    using assms(3) by (intro matched_moved [OF inv mc_execute_moved [OF ex]] mc_execute_same [OF ex]) (simp_all add: Mc_execute)
next
  case (Mc_reject pid)
  with run have rj: "mc_reject H s e (sender info) pid = Ok t" by (simp add: outcome_simps)
  show ?thesis
    using assms(3) by (intro matched_moved [OF inv mc_reject_moved [OF rj]] mc_reject_same [OF rj]) (simp_all add: Mc_reject)
next
  case (Mc_close pid)
  with run have cl: "mc_close P s e (sender info) pid = Ok t" by (simp add: outcome_simps)
  from cl show ?thesis
    by (intro matched_moved [OF inv mc_close_moved [OF cl]]) (erule mc_close_cases, simp)+
next
  case (Mc_update_config u)
  with run obtain c where t: "t = s\<lparr> mc_conf := c \<rparr>"
    by (auto simp: mc_update_config_def Let_def outcome_simps)
  show ?thesis by (intro matched_cong [OF inv]) (simp_all add: t)
next
  case (Mc_add_options pid opts)
  with run have "mc_add_options H s pid opts = Ok t" by (simp add: outcome_simps)
  then obtain p where "kv_get (mc_proposals s) pid = Some p"
    "t = s\<lparr> mc_proposals := kv_set (mc_proposals s) pid (p\<lparr> mp_choices := mp_choices p @ map (\<lambda>opt. \<lparr> ch_pool = opt, ch_power = 0 \<rparr>) opts \<rparr>) \<rparr>"
    by (auto simp: mc_add_options_def outcome_simps split: option.splits)
  then show ?thesis
    by (intro matched_cong [OF inv]) (auto simp: pool_power_def comp_def split: if_splits)
next
  case (Mc_remove_options pid opts)
  with run have "mc_remove_options s pid opts = Ok t" by (simp add: outcome_simps)
  then obtain p where p: "kv_get (mc_proposals s) pid = Some p"
    "t = s\<lparr> mc_proposals := kv_set (mc_proposals s) pid (p\<lparr> mp_choices := filter (\<lambda>c. ch_pool c \<notin> set opts) (mp_choices p) \<rparr>) \<rparr>"
    by (auto simp: mc_remove_options_def outcome_simps)
  have "\<forall>pool\<in>set opts. pool_power p pool = 0" using assms(3) p(1) by (simp add: Mc_remove_options)
  with p show ?thesis
    by (intro matched_cong [OF inv]) (auto simp: pool_power_def pool_power_filter split: if_splits)
qed

theorem mc_careful_matched: "mc_careful_run P s \<Longrightarrow> matched s"
proof (induction rule: mc_careful_run.induct)
  case (started info msg s)
  then show ?case
    by (auto simp: mc_instantiate_def outcome_simps matched_def ballots_current_def)
qed (rule mc_step_matched)

end
