(* ===== verification/Choice_Shares.thy ===== *)
theory Choice_Shares
  imports Choice_Ballots "HOL-Library.Multiset"
begin

text \<open>
  The votes an execution of a multiple-choice proposal sends to the outer gauge: the rounded-down
  shares of the choices, the loop that hands out the missing points, and their sum.
\<close>

section \<open>The votes of an execution\<close>

definition share_of :: "mc_proposal \<Rightarrow> mc_choice \<Rightarrow> nat" where
  "share_of p c = ch_power c * 100 div mp_total_power p"

definition shares :: "mc_proposal \<Rightarrow> mc_vote list" where
  "shares p = map (\<lambda>c. \<lparr> mv_pool = ch_pool c, mv_percentage = share_of p c \<rparr>) (mp_choices p)"

definition share_sum :: "mc_proposal \<Rightarrow> nat" where
  "share_sum p = sum_list (map (share_of p) (mp_choices p))"

lemma sum_share_le: "(\<Sum>x\<leftarrow>xs. f x * k div (d::nat)) \<le> sum_list (map f xs) * k div d"
proof (induction xs)
  case (Cons x xs)
  have "f x * k div d + sum_list (map f xs) * k div d \<le> (f x * k + sum_list (map f xs) * k) div d"
    by (cases "d = 0") (simp_all add: div_add1_eq [of "f x * k"])
  with Cons show ?case by (simp add: algebra_simps)
qed simp

lemma share_sum_le: "powers p \<le> mp_total_power p \<Longrightarrow> share_sum p \<le> 100"
proof -
  assume le: "powers p \<le> mp_total_power p"
  have "share_sum p \<le> powers p * 100 div mp_total_power p"
    unfolding share_sum_def share_of_def powers_def by (rule sum_share_le)
  also have "\<dots> \<le> mp_total_power p * 100 div mp_total_power p"
    using le by (intro div_le_mono) simp
  also have "\<dots> \<le> 100" by simp
  finally show "share_sum p \<le> 100" .
qed

lemma choice_results_fold:
  assumes "mp_total_power p \<noteq> 0" "a + sum_list (map (share_of p) cs) \<le> 100"
  shows "fold_ok (\<lambda>c (vs, tot).
       and_then (calculate_vote_result p c) (\<lambda>n.
       and_then (u32_add tot n) (\<lambda>tot'.
       Ok (vs @ [\<lparr> mv_pool = ch_pool c, mv_percentage = n \<rparr>], tot')))) cs (vs, a)
    = (Ok (vs @ map (\<lambda>c. \<lparr> mv_pool = ch_pool c, mv_percentage = share_of p c \<rparr>) cs,
           a + sum_list (map (share_of p) cs)) :: ('e, _) outcome)"
  using assms(2)
proof (induction cs arbitrary: vs a)
  case (Cons c cs)
  have small: "share_of p c \<le> 100" using Cons.prems by simp
  then have "calculate_vote_result p c = (Ok (share_of p c) :: ('e, nat) outcome)"
    using assms(1)
    by (simp add: calculate_vote_result_def u128_multiply_ratio_def share_of_def u128_lim_def u32_lim_def)
  moreover have "u32_add a (share_of p c) = (Ok (a + share_of p c) :: ('e, nat) outcome)"
    using Cons.prems by (simp add: u32_add_def u32_lim_def)
  ultimately show ?case
    using Cons.IH [of "a + share_of p c"] Cons.prems by (simp add: add.assoc)
qed simp

lemma choice_results_Ok:
  assumes "mp_total_power p \<noteq> 0" "powers p \<le> mp_total_power p"
  shows "choice_results p = (Ok (shares p, share_sum p) :: ('e, _) outcome)"
  using choice_results_fold [OF assms(1), of 0 "mp_choices p" "[]"] share_sum_le [OF assms(2)]
  by (simp add: choice_results_def shares_def share_sum_def)

definition bump :: "mc_vote \<Rightarrow> mc_vote" where
  "bump v = v\<lparr> mv_percentage := mv_percentage v + 1 \<rparr>"

lemma pad_votes_split:
  assumes "\<forall>v\<in>set (ts @ ds). mv_percentage v \<le> 100"
  shows "pad_votes (length ds) (ts @ ds) final = (Ok (final @ rev (map bump ds) @ ts) :: ('e, _) outcome)"
  using assms
proof (induction ds arbitrary: final rule: rev_induct)
  case (snoc v ds)
  have "u32_add (mv_percentage v) 1 = (Ok (mv_percentage v + 1) :: ('e, nat) outcome)"
    using snoc.prems by (simp add: u32_add_def u32_lim_def)
  with snoc show ?case by (simp add: Let_def butlast_append bump_def)
qed simp

lemma pad_votes_short:
  assumes "length vs < k" "\<forall>v\<in>set vs. mv_percentage v \<le> 100"
  shows "pad_votes k vs final = (Panic :: ('e, _) outcome)"
  using assms
proof (induction k arbitrary: vs final)
  case (Suc k)
  show ?case
  proof (cases vs rule: rev_cases)
    case (snoc us v)
    have "u32_add (mv_percentage v) 1 = (Ok (mv_percentage v + 1) :: ('e, nat) outcome)"
      using Suc.prems(2) by (simp add: snoc u32_add_def u32_lim_def)
    then show ?thesis using Suc by (simp add: snoc Let_def)
  qed simp
qed simp

lemma bumped_votes:
  "sum_list (map mv_percentage (rev (map bump ds) @ ts)) = sum_list (map mv_percentage (ts @ ds)) + length ds"
  "mset (map mv_pool (rev (map bump ds) @ ts)) = mset (map mv_pool (ts @ ds))"
proof -
  have "sum_list (map mv_percentage (map bump ds)) = sum_list (map mv_percentage ds) + length ds"
    by (induction ds) (simp_all add: bump_def)
  then show "sum_list (map mv_percentage (rev (map bump ds) @ ts)) = sum_list (map mv_percentage (ts @ ds)) + length ds"
    by (simp only: rev_map [symmetric] map_append sum_list_append sum_list_rev)
  show "mset (map mv_pool (rev (map bump ds) @ ts)) = mset (map mv_pool (ts @ ds))"
    by (induction ds) (simp_all add: bump_def)
qed

lemma mset_map_sorted: "mset (map g (sort_key f xs)) = mset (map g xs)"
  by simp

lemma sum_list_mset_cong: "mset xs = mset ys \<Longrightarrow> sum_list xs = sum_list (ys :: nat list)"
  by (metis sum_mset_sum_list)

lemma execution_message_padded:
  assumes "mp_total_power p \<noteq> 0" "powers p \<le> mp_total_power p" "share_sum p < 100"
    and "100 - share_sum p \<le> length (mp_choices p)"
  shows "\<exists>votes. get_execution_message p staker = Ok [\<lparr> mo_contract = staker, mo_proposal = mp_loop_id p, mo_votes = votes \<rparr>] \<and>
    sum_list (map mv_percentage votes) = 100 \<and>
    mset (map mv_pool votes) = mset (map ch_pool (mp_choices p)) \<and>
    (\<forall>v\<in>set votes. \<exists>c\<in>set (mp_choices p). ch_pool c = mv_pool v \<and>
       (mv_percentage v = share_of p c \<or> mv_percentage v = share_of p c + 1))"
proof -
  let ?vs = "sort_key (\<lambda>v. - int (mv_percentage v)) (shares p)" and ?k = "100 - share_sum p"
  let ?ts = "take (length ?vs - ?k) ?vs" and ?ds = "drop (length ?vs - ?k) ?vs"
  have small: "\<forall>v\<in>set ?vs. mv_percentage v \<le> 100"
  proof
    fix v assume "v \<in> set ?vs"
    then obtain c where c: "c \<in> set (mp_choices p)" "v = \<lparr> mv_pool = ch_pool c, mv_percentage = share_of p c \<rparr>"
      by (auto simp: shares_def)
    have "share_of p c \<le> share_sum p" using c(1) unfolding share_sum_def by (intro member_le_sum_list) simp_all
    then show "mv_percentage v \<le> 100" using assms(3) by (simp add: c(2))
  qed
  have len: "length ?ds = ?k" using assms(4) by (simp add: shares_def)
  have split: "?vs = ?ts @ ?ds" by simp
  let ?votes = "rev (map bump ?ds) @ ?ts"
  have "pad_votes (length ?ds) (?ts @ ?ds) [] = (Ok ([] @ ?votes) :: (std_error, _) outcome)"
    using small split by (intro pad_votes_split) simp
  then have "pad_votes ?k ?vs [] = (Ok ?votes :: (std_error, _) outcome)"
    using len by simp
  then have "get_execution_message p staker = Ok [\<lparr> mo_contract = staker, mo_proposal = mp_loop_id p, mo_votes = ?votes \<rparr>]"
    using assms(3) by (simp add: get_execution_message_def choice_results_Ok [OF assms(1,2)])
  moreover have "sum_list (map mv_percentage ?votes) = 100"
    unfolding bumped_votes(1) split [symmetric]
    using sum_list_mset_cong [OF mset_map_sorted [of mv_percentage "\<lambda>v. - int (mv_percentage v)" "shares p"]] len assms(3)
    by (simp add: shares_def share_sum_def comp_def)
  moreover have "mset (map mv_pool ?votes) = mset (map ch_pool (mp_choices p))"
    unfolding bumped_votes(2) split [symmetric] by (simp add: shares_def image_mset.compositionality comp_def)
  moreover have "\<forall>v\<in>set ?votes. \<exists>c\<in>set (mp_choices p). ch_pool c = mv_pool v \<and>
       (mv_percentage v = share_of p c \<or> mv_percentage v = share_of p c + 1)"
  proof
    fix v assume "v \<in> set ?votes"
    then obtain w where "w \<in> set ?vs" "v = w \<or> v = bump w" by (auto dest: in_set_takeD in_set_dropD)
    then show "\<exists>c\<in>set (mp_choices p). ch_pool c = mv_pool v \<and>
       (mv_percentage v = share_of p c \<or> mv_percentage v = share_of p c + 1)"
      by (auto simp: shares_def bump_def)
  qed
  ultimately show ?thesis by blast
qed

lemma execution_message_short:
  assumes "mp_total_power p \<noteq> 0" "powers p \<le> mp_total_power p" "length (mp_choices p) < 100 - share_sum p"
  shows "get_execution_message p staker = Panic"
proof -
  have "\<forall>v\<in>set (shares p). mv_percentage v \<le> 100"
  proof
    fix v assume "v \<in> set (shares p)"
    then obtain c where c: "c \<in> set (mp_choices p)" "v = \<lparr> mv_pool = ch_pool c, mv_percentage = share_of p c \<rparr>"
      by (auto simp: shares_def)
    have "share_of p c \<le> share_sum p" using c(1) unfolding share_sum_def by (intro member_le_sum_list) simp_all
    then show "mv_percentage v \<le> 100" using assms(3) by (simp add: c(2))
  qed
  then have "pad_votes (100 - share_sum p) (sort_key (\<lambda>v. - int (mv_percentage v)) (shares p)) []
    = (Panic :: (std_error, _) outcome)"
    using assms(3) by (intro pad_votes_short) (simp_all add: shares_def)
  then show ?thesis
    using assms(3) by (simp add: get_execution_message_def choice_results_Ok [OF assms(1,2)])
qed

text \<open>When the choices hold all the power, at most one point per choice is lost in rounding.\<close>

lemma missing_points:
  assumes "mp_total_power p \<noteq> 0" "powers p = mp_total_power p"
  shows "100 - share_sum p \<le> length (mp_choices p)"
proof -
  have "sum_list (map ch_power cs) * 100 \<le> mp_total_power p * (sum_list (map (share_of p) cs) + length cs)" for cs
  proof (induction cs)
    case (Cons c cs)
    have "ch_power c * 100 \<le> mp_total_power p * (share_of p c + 1)"
      using assms(1) by (simp add: share_of_def) (metis dividend_less_times_div less_imp_le mult_Suc_right neq0_conv)
    with Cons show ?case by (simp add: algebra_simps)
  qed simp
  from this [of "mp_choices p"] have "mp_total_power p * 100 \<le> mp_total_power p * (share_sum p + length (mp_choices p))"
    using assms(2) by (simp add: powers_def share_sum_def)
  then show ?thesis using assms(1) by simp
qed

end
