(* ===== verification/Choice_Props.thy ===== *)
theory Choice_Props
  imports Choice_Shares
begin

text \<open>
  The properties of the multiple-choice proposals: the votes an execution sends to the outer
  gauge, the ballots behind the choices, and the ways in which votes are counted twice, deposits
  released twice, executions blocked and history records misfiled.  A small run of the contract
  gives the witnesses.
\<close>

section \<open>A small run\<close>

definition choice_loop :: "nat \<Rightarrow> loop_proposal" where
  "choice_loop round_end = \<lparr> lp_expiration = At_time (round_end * 1000000000), lp_voting_period = Time 500,
     lp_status = Mc_open, lp_voting_start_time = 100, lp_options = [Some ''A'', Some ''B''] \<rparr>"

definition choice_host :: "nat \<Rightarrow> mc_host" where
  "choice_host round_end = \<lparr> mh_durations = (\<lambda>c. Ok [10]),
     mh_balance = (\<lambda>c who d. if who = ''ann'' then Some 2 else if who = ''bob'' then Some 1 else None),
     mh_loop = (\<lambda>g n. if n = 7 then Some (choice_loop round_end) else None),
     mh_later = (\<lambda>a b. case a of At_time t \<Rightarrow> (case b of At_time u \<Rightarrow> u < t | _ \<Rightarrow> False) | _ \<Rightarrow> False),
     mh_size = (\<lambda>p. 0) \<rparr>"

definition choice_env :: "nat \<Rightarrow> env" where
  "choice_env t = \<lparr> block = \<lparr> block_height = 5, block_time = t * 1000000000 \<rparr>, contract_address = ''choice'' \<rparr>"

lemma choice_env_seconds [simp]: "seconds (block (choice_env t)) = t"
  by (simp add: choice_env_def seconds_def)

definition choice_demo_msg :: mc_instantiate_msg where
  "choice_demo_msg = \<lparr> mi_max_voting_period = Time 1000, mi_min_voting_period = Time 10,
     mi_min_pending_period = Time 20, mi_only_members = True, mi_allow_revoting = False,
     mi_close_on_failure = False, mi_dao = ''staking'', mi_creation_limit = 1, mi_hold_duration = 600,
     mi_loop_staker = ''staker'' \<rparr>"

definition choice_demo_conf :: mc_config where
  "choice_demo_conf = \<lparr> mcc_max_voting_period = Time 1000, mcc_min_voting_period = Time 10,
     mcc_min_pending_period = Time 20, mcc_dao = ''staking'', mcc_admin = ''ann'',
     mcc_creation_limit = 1, mcc_hold_duration = 600, mcc_loop_gauge = loop_gauge_const,
     mcc_loop_staker = ''staker'', mcc_only_members = True, mcc_default_limit = 10, mcc_max_limit = 30 \<rparr>"

definition choice_fresh :: mc_state where
  "choice_fresh = \<lparr> mc_version_info = (mc_contract_name, mc_contract_version), mc_conf = choice_demo_conf,
     mc_count = 0, mc_version = [], mc_proposals = [], mc_ballots = [], mc_locked = [],
     mc_pool_amounts = [], mc_executions = [], mc_histories = [] \<rparr>"

text \<open>A proposal with the given powers of its choices.\<close>

definition choice_proposal :: "nat \<Rightarrow> nat \<Rightarrow> nat \<Rightarrow> mc_proposal" where
  "choice_proposal tot a b = \<lparr> mp_title = ''p'', mp_description = ''d'', mp_proposer = ''ann'',
     mp_expiration = At_time 600000000000, mp_voting_period = Time 500, mp_pending_period = Time 50,
     mp_status = Mc_open, mp_allow_revoting = False, mp_total_power = tot, mp_voting_start_time = 100,
     mp_choices = [\<lparr> ch_pool = ''A'', ch_power = a \<rparr>, \<lparr> ch_pool = ''B'', ch_power = b \<rparr>],
     mp_amount = 9, mp_loop_gauge = loop_gauge_const, mp_loop_id = 7 \<rparr>"

definition choice_opened :: mc_state where
  "choice_opened = choice_fresh\<lparr> mc_count := 1, mc_version := [(1, 1)], mc_locked := [(''ann'', 1)],
     mc_proposals := [(1, choice_proposal 0 0 0)], mc_pool_amounts := [((0, 10), 2)] \<rparr>"

definition choice_ballot :: "nat \<Rightarrow> string \<Rightarrow> nat \<Rightarrow> mc_ballot" where
  "choice_ballot pw pool t = \<lparr> mb_power = pw, mb_vote = \<lparr> mv_pool = pool, mv_percentage = 100 \<rparr>, mb_time = t \<rparr>"

definition choice_one :: mc_state where
  "choice_one = choice_opened\<lparr> mc_proposals := [(1, choice_proposal 2 2 0)],
     mc_ballots := [(((1, 1), (3, ''ann''), ''A''), choice_ballot 2 ''A'' 150)],
     mc_pool_amounts := [((0, 10), 2), ((1, 10), 2)] \<rparr>"

definition choice_final :: mc_proposal where "choice_final = choice_proposal 3 2 1"

definition choice_two :: mc_state where
  "choice_two = choice_opened\<lparr> mc_proposals := [(1, choice_final)],
     mc_ballots := [(((1, 1), (3, ''ann''), ''A''), choice_ballot 2 ''A'' 150),
                    (((1, 1), (3, ''bob''), ''B''), choice_ballot 1 ''B'' 160)],
     mc_pool_amounts := [((0, 10), 2), ((1, 10), 1)] \<rparr>"

lemmas choice_demo_defs = choice_two_def choice_final_def choice_one_def choice_opened_def choice_fresh_def
  choice_proposal_def choice_ballot_def choice_demo_conf_def

lemmas choice_eval = mc_voting_power_def choice_host_def choice_loop_def mc_key_def
  cast_choice_def choice_add_vote_def choice_remove_vote_def withdraw_ballot_def set_choice_def
  validate_votes_percentage_def validate_options_custom_def vote_round_def mc_current_status_custom_def
  mc_update_status_def mc_current_status_def advance_version_def update_props_def upgrade_history_def
  kv_del_def checked_int_defs u32_add_def u32_lim_def Let_def

definition all_for :: "string \<Rightarrow> mc_vote list" where
  "all_for pool = [\<lparr> mv_pool = pool, mv_percentage = 100 \<rparr>]"

lemma choice_demo_started: "mc_instantiate \<lparr> sender = ''ann'' \<rparr> choice_demo_msg = Ok choice_fresh"
  by (simp add: mc_instantiate_def choice_demo_msg_def choice_fresh_def choice_demo_conf_def)

lemma choice_demo_opened:
  "mc_execute demo_platform (choice_host 600) choice_fresh (choice_env 110) \<lparr> sender = ''ann'' \<rparr>
     (Mc_propose ''p'' ''d'' [''A'', ''B''] (Time 50) 9 7) = Ok (choice_opened, [])"
  by (simp add: mc_silent_def mc_propose_def mc_max_proposal_size_def choice_eval choice_demo_defs)

lemma choice_demo_one:
  "mc_execute demo_platform (choice_host 600) choice_opened (choice_env 150) \<lparr> sender = ''ann'' \<rparr>
     (Mc_cast 1 (all_for ''A'')) = Ok (choice_one, [])"
  by (simp add: mc_silent_def mc_vote_handler_def all_for_def demo_platform_def choice_env_def seconds_def
      choice_eval choice_demo_defs)

lemma choice_demo_two:
  "mc_execute demo_platform (choice_host 600) choice_one (choice_env 160) \<lparr> sender = ''bob'' \<rparr>
     (Mc_cast 1 (all_for ''B'')) = Ok (choice_two, [])"
  by (simp add: mc_silent_def mc_vote_handler_def all_for_def demo_platform_def choice_env_def seconds_def
      choice_eval choice_demo_defs)

lemma choice_two_careful: "mc_careful_run demo_platform choice_two"
proof -
  have "mc_careful_run demo_platform choice_fresh" using choice_demo_started by (rule mc_careful_run.started)
  then have "mc_careful_run demo_platform choice_opened"
    by (rule mc_careful_run.stepped [OF _ _ choice_demo_opened]) simp
  then have "mc_careful_run demo_platform choice_one"
    by (rule mc_careful_run.stepped [OF _ _ choice_demo_one]) simp
  then show ?thesis
    by (rule mc_careful_run.stepped [OF _ _ choice_demo_two]) simp
qed

lemma choice_two_reachable: "mc_reachable demo_platform choice_two"
  using choice_two_careful by (rule mc_careful_run_reachable)

section \<open>The votes of an execution\<close>

text \<open>In every reachable state the execution of a proposal is blocked or empty in exactly these
  cases: nobody has voted or more points are missing than there are choices (the execution panics),
  or the shares sum up to one hundred without rounding (the message carries no votes at all).\<close>

theorem execution_blocked_or_empty:
  assumes "mc_reachable P s" "kv_get (mc_proposals s) pid = Some p"
  shows "(get_execution_message p staker = Panic \<longleftrightarrow>
      mp_total_power p = 0 \<or> length (mp_choices p) < 100 - share_sum p) \<and>
    (get_execution_message p staker = Ok [\<lparr> mo_contract = staker, mo_proposal = mp_loop_id p, mo_votes = [] \<rparr>] \<longleftrightarrow>
      mp_total_power p \<noteq> 0 \<and> share_sum p = 100)"
proof -
  have le: "powers p \<le> mp_total_power p" using coveredD [OF mc_reachable_covered] assms by blast
  show ?thesis
  proof (cases "mp_total_power p = 0")
    case True
    have "get_execution_message p staker = Panic"
    proof (cases "mp_choices p")
      case Nil
      then show ?thesis
        by (simp add: get_execution_message_def choice_results_def pad_votes_short)
    next
      case (Cons c cs)
      then show ?thesis
        by (simp add: get_execution_message_def choice_results_def calculate_vote_result_def
            u128_multiply_ratio_def True)
    qed
    then show ?thesis using True by simp
  next
    case False
    note results = choice_results_Ok [OF False le]
    have "share_sum p \<le> 100" using share_sum_le [OF le] .
    then consider "share_sum p = 100" | "share_sum p < 100" "100 - share_sum p \<le> length (mp_choices p)"
      | "share_sum p < 100" "length (mp_choices p) < 100 - share_sum p" by linarith
    then show ?thesis
    proof cases
      case 1
      then show ?thesis using False by (simp add: get_execution_message_def results)
    next
      case 2
      obtain votes where "get_execution_message p staker =
          Ok [\<lparr> mo_contract = staker, mo_proposal = mp_loop_id p, mo_votes = votes \<rparr>]"
        "sum_list (map mv_percentage votes) = 100"
        using execution_message_padded [OF False le 2, of staker] by blast
      moreover from this have "votes \<noteq> []" by auto
      ultimately show ?thesis using 2 False by simp
    next
      case 3
      then have "get_execution_message p staker = Panic"
        using execution_message_short [OF False le] by blast
      then show ?thesis using 3 False by simp
    qed
  qed
qed

theorem execution_blocked_or_empty_witness:
  "get_execution_message choice_final ''staker'' \<noteq> Panic"
  using execution_blocked_or_empty [OF choice_two_reachable, of 1 choice_final "''staker''"]
  by (simp add: choice_two_def) (simp add: choice_final_def choice_proposal_def share_sum_def share_of_def)

text \<open>C16: What the execution of a stored proposal sends, in every reachable state and every case.  It panics
  exactly when nobody has voted or more points are missing to one hundred than there are choices, which
  cannot happen when the choices hold the whole total.  Otherwise it sends one message for the proposal
  of the outer gauge: without any votes when the rounded-down shares already sum up to one hundred, and
  else with one vote for every choice, its rounded-down share or one point more, one hundred in all.\<close>

theorem executed_votes_sum_to_hundred:
  assumes "mc_reachable P s" "kv_get (mc_proposals s) pid = Some p"
  defines "missing \<equiv> 100 - sum_list (map (share_of p) (mp_choices p))"
  shows "case get_execution_message p staker of
      Panic \<Rightarrow> mp_total_power p = 0 \<or> length (mp_choices p) < missing \<and> powers p < mp_total_power p
    | Err _ \<Rightarrow> False
    | Ok ms \<Rightarrow> mp_total_power p \<noteq> 0 \<and> missing \<le> length (mp_choices p) \<and>
        (\<exists>votes. ms = [\<lparr> mo_contract = staker, mo_proposal = mp_loop_id p, mo_votes = votes \<rparr>] \<and>
          (if missing = 0 then votes = []
           else sum_list (map mv_percentage votes) = 100 \<and> mset (map mv_pool votes) = mset (map ch_pool (mp_choices p)) \<and>
             (\<forall>v\<in>set votes. \<exists>c\<in>set (mp_choices p). ch_pool c = mv_pool v \<and>
                (mv_percentage v = share_of p c \<or> mv_percentage v = share_of p c + 1))))"
proof -
  have le: "powers p \<le> mp_total_power p" using coveredD [OF mc_reachable_covered [OF assms(1)] assms(2)] .
  have missing: "missing = 100 - share_sum p" "share_sum p \<le> 100"
    using share_sum_le [OF le] by (simp_all add: missing_def share_sum_def)
  note blocked = execution_blocked_or_empty [OF assms(1,2), of staker]
  consider (none) "mp_total_power p = 0" | (short) "mp_total_power p \<noteq> 0" "length (mp_choices p) < missing"
    | (full) "mp_total_power p \<noteq> 0" "share_sum p = 100"
    | (padded) "mp_total_power p \<noteq> 0" "share_sum p < 100" "missing \<le> length (mp_choices p)"
    using missing by linarith
  then show ?thesis
  proof cases
    case short
    then have "powers p \<noteq> mp_total_power p" using missing_points [of p] missing by auto
    with short blocked le missing show ?thesis by simp
  next
    case padded
    then show ?thesis using execution_message_padded [OF padded(1) le padded(2), of staker] missing by auto
  qed (use blocked missing in auto)
qed

theorem executed_votes_sum_to_hundred_witness:
  "\<exists>votes. get_execution_message choice_final ''staker'' =
      Ok [\<lparr> mo_contract = ''staker'', mo_proposal = 7, mo_votes = votes \<rparr>] \<and>
    sum_list (map mv_percentage votes) = 100"
proof -
  have stored: "kv_get (mc_proposals choice_two) 1 = Some choice_final" by (simp add: choice_two_def)
  have "get_execution_message choice_final ''staker'' \<noteq> Panic"
    using execution_blocked_or_empty [OF choice_two_reachable stored]
    by (simp add: choice_final_def choice_proposal_def share_sum_def share_of_def)
  then show ?thesis
    using executed_votes_sum_to_hundred [OF choice_two_reachable stored, of "''staker''"]
    by (auto simp: choice_final_def choice_proposal_def share_of_def split: outcome.splits)
qed

section \<open>Ballots and choices\<close>

text \<open>C15: In every state reached without removing options that hold votes and without closing a round the
  outer gauge has replaced, each choice of a stored proposal holds exactly the sum of the ballots
  cast for its pool in the current version, and all choices together never hold more than the total
  against which the shares are computed.\<close>

theorem choices_hold_their_ballots:
  assumes "mc_careful_run P s" "kv_get (mc_proposals s) pid = Some p"
  shows "pool_power p pool = ballots_for s pid (kv_nat (mc_version s) pid) pool \<and>
    sum_list (map ch_power (mp_choices p)) \<le> mp_total_power p"
  using mc_careful_matched [OF assms(1)] assms(2)
    coveredD [OF mc_reachable_covered [OF mc_careful_run_reachable [OF assms(1)]] assms(2)]
  by (simp add: matched_def tallied_def powers_def)

theorem choices_hold_their_ballots_witness:
  "pool_power choice_final ''A'' = ballots_for choice_two 1 1 ''A'' \<and> ballots_for choice_two 1 1 ''A'' = 2"
  using choices_hold_their_ballots [OF choice_two_careful, of 1 choice_final "''A''"]
  by (simp add: choice_two_def choice_opened_def choice_final_def choice_proposal_def pool_power_def)

lemma cast_all_fresh:
  assumes "fold_ok (cast_choice pid ver who vp now) vs (s, p) = Ok (t, q)"
    and "distinct (map mv_pool vs)" "\<forall>v\<in>set vs. kv_get (mc_ballots s) (mc_key pid ver who (mv_pool v)) = None"
  shows "mp_total_power q = mp_total_power p \<and> powers q = powers p + vote_sum vp vs"
  using assms
proof (induction vs arbitrary: s p)
  case (Cons v vs)
  obtain s1 p1 where step: "cast_choice pid ver who vp now v (s, p) = Ok (s1, p1)"
    and rest: "fold_ok (cast_choice pid ver who vp now) vs (s1, p1) = Ok (t, q)"
    using Cons.prems(1) by (auto simp: outcome_simps)
  note cast = cast_choice_cases [OF step]
  have "\<forall>w\<in>set vs. kv_get (mc_ballots s1) (mc_key pid ver who (mv_pool w)) = None"
  proof
    fix w assume w: "w \<in> set vs"
    then have "mv_pool w \<noteq> mv_pool v" using Cons.prems(2) by (metis distinct.simps(2) image_eqI list.set_map list.simps(9))
    then show "kv_get (mc_ballots s1) (mc_key pid ver who (mv_pool w)) = None"
      using Cons.prems(3) w by (simp add: cast(1) mc_key_def)
  qed
  moreover have "old_power s pid ver who (mv_pool v) = 0"
    using Cons.prems(3) by (simp add: old_power_def ballot_size_def)
  ultimately show ?case
    using Cons.IH [OF rest] Cons.prems(2) cast(2,3) by (simp add: vote_sum_def)
qed (simp add: vote_sum_def)

text \<open>A vote replaces only the ballots the voter holds for the very same pools: when the pools voted
  for are new to the voter, the proposal's total grows by the voter's whole power and the choices by
  the whole vote, whatever ballots the voter already holds for other pools.\<close>

theorem moved_votes_are_counted_again:
  assumes "mc_vote_handler P H s e who pid vs = Ok t" "kv_get (mc_proposals s) pid = Some p"
    and "current_round H s pid" "distinct (map mv_pool vs)"
    and "\<forall>v\<in>set vs. kv_get (mc_ballots s) (mc_key pid (kv_nat (mc_version s) pid) who (mv_pool v)) = None"
  shows "\<exists>q vp u. kv_get (mc_proposals t) pid = Some q \<and> mc_voting_power H s who pid = Ok (vp, u) \<and>
    mp_total_power q = mp_total_power p + vp \<and>
    sum_list (map ch_power (mp_choices q)) = sum_list (map ch_power (mp_choices p)) + vote_sum vp vs"
  using assms(1)
proof (cases rule: mc_vote_cases)
  case (1 vp am p0 l s2 p2 ver s3 p3)
  from 1(5) show ?thesis
  proof (cases rule: vote_round_Ok)
    case same
    have "ver = kv_nat (mc_version s) pid" using 1(6) same by (simp add: kv_nat_def)
    then have "mp_total_power p3 = mp_total_power p \<and> powers p3 = powers p + vote_sum vp vs"
      using cast_all_fresh [OF 1(8) assms(4)] assms(2,5) 1(1) same by simp
    then show ?thesis using 1(2) by (simp add: 1(9) flip: powers_def)
  next
    case (fresh s1)
    then show ?thesis using assms(2,3) 1(1,4) by (auto simp: current_round_def)
  qed
qed

text \<open>A voter of power 2 votes for one pool and then for another: 4 of a total of 4.\<close>

theorem moved_votes_are_counted_again_witness:
  "\<exists>t q. mc_vote_handler demo_platform (choice_host 600) choice_one (choice_env 170) ''ann'' 1 (all_for ''B'') = Ok t \<and>
    kv_get (mc_proposals t) 1 = Some q \<and> mp_total_power q = 4 \<and> sum_list (map ch_power (mp_choices q)) = 4"
proof -
  obtain t where t: "mc_vote_handler demo_platform (choice_host 600) choice_one (choice_env 170) ''ann'' 1 (all_for ''B'') = Ok t"
    by (simp add: mc_vote_handler_def all_for_def demo_platform_def choice_env_def seconds_def
      choice_eval choice_demo_defs)
  have "kv_get (mc_proposals choice_one) 1 = Some (choice_proposal 2 2 0)"
    "current_round (choice_host 600) choice_one 1" "distinct (map mv_pool (all_for ''B''))"
    "\<forall>v\<in>set (all_for ''B''). kv_get (mc_ballots choice_one)
        (mc_key 1 (kv_nat (mc_version choice_one) 1) ''ann'' (mv_pool v)) = None"
    by (simp_all add: current_round_def all_for_def choice_host_def choice_loop_def mc_key_def choice_demo_defs)
  from moved_votes_are_counted_again [OF t this] show ?thesis
    using t by (auto simp: mc_voting_power_def choice_host_def choice_proposal_def all_for_def vote_sum_def
        checked_int_defs Let_def)
qed


section \<open>Finished proposals\<close>

definition numbered :: "mc_state \<Rightarrow> bool" where
  "numbered s \<longleftrightarrow> (\<forall>pid p. kv_get (mc_proposals s) pid = Some p \<longrightarrow> pid \<le> mc_count s)"

lemma numbered_moved: "numbered s \<Longrightarrow> status_moved s t pid \<Longrightarrow> mc_count t = mc_count s \<Longrightarrow> numbered t"
  by (auto simp: numbered_def status_moved_def split: if_splits)

lemma mc_execute_count: "mc_execute_execute H s e who pid = Ok (t, out) \<Longrightarrow> mc_count t = mc_count s"
  by (erule mc_execute_cases) simp_all

lemma mc_reject_count: "mc_reject H s e who pid = Ok t \<Longrightarrow> mc_count t = mc_count s"
  by (erule mc_reject_cases) (auto dest: mc_execute_count)

text \<open>What a vote leaves of the other proposals.\<close>

lemma mc_vote_others:
  assumes "mc_vote_handler P H s e who pid vs = Ok t"
  obtains q where "mc_proposals t = kv_set (mc_proposals s) pid q" "mc_count t = mc_count s"
  using assms
proof (cases rule: mc_vote_cases)
  case (1 vp am p0 l s2 p2 ver s3 p3)
  have "mc_proposals s2 = mc_proposals s \<and> mc_count s2 = mc_count s"
    using 1(5) by (cases rule: vote_round_Ok) (auto simp: advance_version_Ok upgrade_history_Ok)
  moreover have "mc_proposals s3 = mc_proposals s2 \<and> mc_count s3 = mc_count s2"
    using cast_all_sums(1) [OF 1(8)] by (auto simp: same_but_ballots_def)
  ultimately show thesis using that by (simp add: 1(9))
qed

lemma mc_step_numbered:
  assumes run: "mc_execute P H s e info msg = Ok (t, out)" and inv: "numbered s"
  shows "numbered t"
proof (cases msg)
  case (Mc_propose ttl descr options pending amount loop_id)
  with run have "mc_propose H s (sender info) ttl descr pending options amount loop_id = Ok t"
    by (auto simp: outcome_simps)
  then show ?thesis
    by (rule mc_propose_cases) (use inv in \<open>auto simp: numbered_def intro: le_SucI split: if_splits\<close>)
next
  case (Mc_cast pid vs)
  with run have v: "mc_vote_handler P H s e (sender info) pid vs = Ok t" by (simp add: outcome_simps)
  then obtain p where "kv_get (mc_proposals s) pid = Some p" by (rule mc_vote_cases)
  with v show ?thesis
    by (elim mc_vote_others) (use inv in \<open>auto simp: numbered_def split: if_splits\<close>)
next
  case (Mc_execute pid)
  with run have "mc_execute_execute H s e (sender info) pid = Ok (t, out)" by simp
  from numbered_moved [OF inv mc_execute_moved [OF this] mc_execute_count [OF this]] show ?thesis .
next
  case (Mc_reject pid)
  with run have "mc_reject H s e (sender info) pid = Ok t" by (simp add: outcome_simps)
  from numbered_moved [OF inv mc_reject_moved [OF this] mc_reject_count [OF this]] show ?thesis .
next
  case (Mc_close pid)
  with run have cl: "mc_close P s e (sender info) pid = Ok t" by (simp add: outcome_simps)
  then have "mc_count t = mc_count s" by (rule mc_close_cases) simp
  from numbered_moved [OF inv mc_close_moved [OF cl] this] show ?thesis .
next
  case (Mc_update_config u)
  with run inv show ?thesis by (auto simp: mc_update_config_def Let_def outcome_simps numbered_def)
next
  case (Mc_add_options pid opts)
  with run inv show ?thesis
    by (auto simp: mc_add_options_def outcome_simps numbered_def split: option.splits if_splits)
next
  case (Mc_remove_options pid opts)
  with run inv show ?thesis
    by (auto simp: mc_remove_options_def outcome_simps numbered_def split: if_splits)
qed

lemma mc_reachable_numbered: "mc_reachable P s \<Longrightarrow> numbered s"
proof (induction rule: mc_reachable.induct)
  case (started info msg s)
  then show ?case by (auto simp: mc_instantiate_def outcome_simps numbered_def)
qed (rule mc_step_numbered)

definition finished :: "mc_state \<Rightarrow> nat \<Rightarrow> bool" where
  "finished s pid \<longleftrightarrow> (\<exists>p. kv_get (mc_proposals s) pid = Some p \<and> mp_status p \<in> {Mc_executed, Mc_rejected, Mc_closed})"

lemma finished_not_closing:
  assumes "finished s pid"
  shows "closing_checks H s e who pid \<noteq> Ok x"
proof
  assume ok: "closing_checks H s e who pid = Ok x"
  obtain s' p l where x: "x = (s', p, l)" by (cases x)
  from ok [unfolded x] obtain am where "kv_get (mc_proposals s) pid = Some p"
    "mc_current_status_custom (block e) p = (Ok Mc_voting_closed :: (std_error, mc_status) outcome)"
    by (rule closing_checks_cases)
  then show False using assms by (auto simp: finished_def mc_current_status_custom_def)
qed

lemma finished_moved: "finished s pid \<Longrightarrow> status_moved s t pid' \<Longrightarrow> pid' \<noteq> pid \<Longrightarrow> finished t pid"
  by (auto simp: finished_def status_moved_def)

text \<open>A proposal that has been executed, rejected or closed is finished: it can be neither executed nor
  rejected, and no message of anybody changes that, except a vote for it after the outer gauge has
  started a new round.\<close>

theorem finished_until_a_new_round:
  assumes "mc_reachable P s" "finished s pid" "mc_execute P H s e info msg = Ok (t, out)"
  shows "msg \<noteq> Mc_execute pid \<and> msg \<noteq> Mc_reject pid \<and>
    (finished t pid \<or> (\<exists>vs p l. msg = Mc_cast pid vs \<and> kv_get (mc_proposals s) pid = Some p \<and>
       mh_loop H (mcc_loop_gauge (mc_conf s)) (mp_loop_id p) = Some l \<and> mh_later H (lp_expiration l) (mp_expiration p)))"
proof (cases msg)
  case (Mc_propose ttl descr options pending amount loop_id)
  with assms(3) have "mc_propose H s (sender info) ttl descr pending options amount loop_id = Ok t"
    by (auto simp: outcome_simps)
  then have "finished t pid"
    by (rule mc_propose_cases)
      (use assms(2) mc_reachable_numbered [OF assms(1)] in \<open>fastforce simp: finished_def numbered_def\<close>)
  then show ?thesis by (simp add: Mc_propose)
next
  case (Mc_cast pid' vs)
  with assms(3) have v: "mc_vote_handler P H s e (sender info) pid' vs = Ok t" by (simp add: outcome_simps)
  show ?thesis
  proof (cases "pid' = pid")
    case False
    from v obtain q where "mc_proposals t = kv_set (mc_proposals s) pid' q" by (rule mc_vote_others)
    then show ?thesis using False assms(2) by (simp add: Mc_cast finished_def)
  next
    case True
    from v show ?thesis
    proof (cases rule: mc_vote_cases)
      case (1 vp am p0 l s2 p2 ver s3 p3)
      have "mp_status p0 \<in> {Mc_executed, Mc_rejected, Mc_closed}"
        using assms(2) 1(1) True by (auto simp: finished_def)
      with 1(5) have "mh_later H (lp_expiration l) (mp_expiration p0)"
        by (auto simp: vote_round_def mc_current_status_custom_def outcome_simps split: if_splits)
      then show ?thesis using 1(1,4) by (auto simp: Mc_cast True)
    qed
  qed
next
  case (Mc_execute pid')
  with assms(3) have ex: "mc_execute_execute H s e (sender info) pid' = Ok (t, out)" by simp
  then have ne: "pid' \<noteq> pid"
    using finished_not_closing [OF assms(2)] by (auto elim!: mc_execute_cases)
  show ?thesis using finished_moved [OF assms(2) mc_execute_moved [OF ex]] ne by (simp add: Mc_execute)
next
  case (Mc_reject pid')
  with assms(3) have rj: "mc_reject H s e (sender info) pid' = Ok t" by (simp add: outcome_simps)
  then have ne: "pid' \<noteq> pid"
    using finished_not_closing [OF assms(2)] by (auto elim!: mc_reject_cases)
  show ?thesis using finished_moved [OF assms(2) mc_reject_moved [OF rj]] ne by (simp add: Mc_reject)
next
  case (Mc_close pid')
  with assms(3) have "mc_close P s e (sender info) pid' = Ok t" by (simp add: outcome_simps)
  then have "finished t pid" by (rule mc_close_cases) (use assms(2) in \<open>auto simp: finished_def\<close>)
  then show ?thesis by (simp add: Mc_close)
next
  case (Mc_update_config u)
  with assms(2,3) show ?thesis by (auto simp: mc_update_config_def Let_def outcome_simps finished_def)
next
  case (Mc_add_options pid' opts)
  with assms(2,3) show ?thesis
    by (auto simp: mc_add_options_def outcome_simps finished_def split: option.splits)
next
  case (Mc_remove_options pid' opts)
  with assms(2,3) show ?thesis by (auto simp: mc_remove_options_def outcome_simps finished_def)
qed

definition choice_done :: mc_state where
  "choice_done = choice_two\<lparr> mc_pool_amounts := [((0, 10), 2), ((1, 10), 2)],
     mc_proposals := [(1, choice_final\<lparr> mp_status := Mc_executed \<rparr>)],
     mc_histories := [((1, 1), history_of (choice_env 560) (choice_final\<lparr> mp_status := Mc_executed \<rparr>))],
     mc_executions := [((1, 560), \<lparr> me_version = 1, me_status = Mc_executed \<rparr>)] \<rparr>"

lemma choice_message:
  "get_execution_message choice_final ''staker'' = Ok [\<lparr> mo_contract = ''staker'', mo_proposal = 7,
     mo_votes = [\<lparr> mv_pool = ''B'', mv_percentage = 34 \<rparr>, \<lparr> mv_pool = ''A'', mv_percentage = 66 \<rparr>] \<rparr>]"
  by (simp add: get_execution_message_def choice_results_def calculate_vote_result_def u128_multiply_ratio_def
      choice_final_def choice_proposal_def u128_lim_def u32_lim_def u32_add_def insort_key.simps Let_def)

lemma choice_demo_done:
  "mc_execute demo_platform (choice_host 600) choice_two (choice_env 560) \<lparr> sender = ''ann'' \<rparr> (Mc_execute 1) =
     Ok (choice_done, [\<lparr> mo_contract = ''staker'', mo_proposal = 7,
       mo_votes = [\<lparr> mv_pool = ''B'', mv_percentage = 34 \<rparr>, \<lparr> mv_pool = ''A'', mv_percentage = 66 \<rparr>] \<rparr>])"
proof -
  have checks: "closing_checks (choice_host 600) choice_two (choice_env 560) ''ann'' 1
    = Ok (choice_two\<lparr> mc_pool_amounts := [((0, 10), 2), ((1, 10), 2)] \<rparr>, choice_final, choice_loop 600)"
    by (simp add: closing_checks_def choice_env_def seconds_def choice_eval choice_demo_defs)
  have current: "\<not> mh_later (choice_host 600) (lp_expiration (choice_loop 600)) (mp_expiration choice_final)"
    by (simp add: choice_host_def choice_loop_def choice_final_def choice_proposal_def)
  have staker: "mcc_loop_staker (mc_conf choice_two) = ''staker''" by (simp add: choice_demo_defs)
  show ?thesis
    unfolding mc_execute.simps message_info.simps mc_execute_execute_def checks
    by (simp add: current choice_message staker)
      (simp add: upgrade_history_def history_of_def choice_done_def choice_two_def choice_opened_def Let_def choice_fresh_def)
qed

theorem finished_until_a_new_round_witness:
  "\<not> (\<exists>t out. mc_execute demo_platform (choice_host 600) choice_done (choice_env 570) \<lparr> sender = ''ann'' \<rparr>
       (Mc_execute 1) = Ok (t, out))"
proof -
  have "mc_reachable demo_platform choice_done"
    using choice_two_reachable choice_demo_done by (rule mc_reachable.stepped)
  moreover have "finished choice_done 1" by (simp add: finished_def choice_done_def)
  ultimately show ?thesis using finished_until_a_new_round by blast
qed


section \<open>Stale executions and closing twice\<close>

lemma voting_power_any_state:
  assumes "mc_voting_power H s who pid = Ok (vp, u)" "mc_conf t = mc_conf s"
  shows "\<exists>u'. mc_voting_power H t who pid = Ok (vp, u') \<and> mc_conf u' = mc_conf t \<and>
    mc_proposals u' = mc_proposals t \<and> mc_version u' = mc_version t"
proof -
  have run: "\<exists>u'. fold_ok (\<lambda>d (tot, t). and_then (u128_add tot (w d)) (\<lambda>tot'.
        Ok (tot', t\<lparr> mc_pool_amounts := kv_set (mc_pool_amounts t) (pid, d) (w d) \<rparr>))) ds (a, t) = (Ok (vp, u') :: (std_error, _) outcome)"
    if "fold_ok (\<lambda>d (tot, t). and_then (u128_add tot (w d)) (\<lambda>tot'.
        Ok (tot', t\<lparr> mc_pool_amounts := kv_set (mc_pool_amounts t) (pid, d) (w d) \<rparr>))) ds (a, s) = (Ok (vp, u) :: (std_error, _) outcome)"
    for w :: "nat \<Rightarrow> nat" and ds a s t
    using that
  proof (induction ds arbitrary: a s t)
    case (Cons d ds)
    then obtain n where n: "(u128_add a (w d) :: (std_error, nat) outcome) = Ok n"
      and rest: "fold_ok (\<lambda>d (tot, t). and_then (u128_add tot (w d)) (\<lambda>tot'.
        Ok (tot', t\<lparr> mc_pool_amounts := kv_set (mc_pool_amounts t) (pid, d) (w d) \<rparr>))) ds
          (n, s\<lparr> mc_pool_amounts := kv_set (mc_pool_amounts s) (pid, d) (w d) \<rparr>) = (Ok (vp, u) :: (std_error, _) outcome)"
      by (auto simp: outcome_simps)
    show ?case using Cons.IH [OF rest] n by simp
  qed simp
  have "\<exists>u'. mc_voting_power H t who pid = Ok (vp, u')"
    using assms by (auto simp: mc_voting_power_def Let_def outcome_simps intro: run)
  then obtain u' where u': "mc_voting_power H t who pid = Ok (vp, u')" by blast
  then obtain am where "u' = t\<lparr> mc_pool_amounts := am \<rparr>" by (rule mc_voting_power_frame)
  with u' show ?thesis by auto
qed

lemma closing_checks_again:
  assumes "closing_checks H s e who pid = Ok (s', p, l)" "mc_conf t = mc_conf s" "mc_proposals t = mc_proposals s"
  shows "\<exists>u. closing_checks H t e who pid = Ok (u, p, l) \<and> mc_proposals u = mc_proposals t \<and> mc_version u = mc_version t"
proof -
  obtain vp where p: "kv_get (mc_proposals s) pid = Some p" and vp: "mc_voting_power H s who pid = Ok (vp, s')"
    using assms(1) by (auto simp: closing_checks_def outcome_simps split: option.splits if_splits)
  from vp have same: "mc_conf s' = mc_conf s" by (rule mc_voting_power_frame) simp
  obtain u where u: "mc_voting_power H t who pid = Ok (vp, u)" "mc_conf u = mc_conf t"
    "mc_proposals u = mc_proposals t" "mc_version u = mc_version t"
    using voting_power_any_state [OF vp assms(2)] by blast
  show ?thesis
    using assms u p vp same
    by (auto simp: closing_checks_def outcome_simps split: option.splits if_splits)
qed

text \<open>Executing a round that the outer gauge has replaced sends nothing and does not save the reopened
  proposal: only the version moves, the timed-out record is filed under the new version instead of the
  version that was voted on, and since the stored proposal is unchanged the same call succeeds again
  and moves the version once more.\<close>

theorem stale_execution_repeats:
  assumes "mc_execute_execute H s e who pid = Ok (t, out)" "\<not> current_round H s pid"
  shows "out = [] \<and> mc_proposals t = mc_proposals s \<and>
    kv_get (mc_version t) pid = Some (kv_nat (mc_version s) pid + 1) \<and>
    (\<exists>h. kv_get (mc_histories t) (pid, kv_nat (mc_version s) pid + 1) = Some h \<and> mh_status h = Mc_time_out) \<and>
    kv_get (mc_histories t) (pid, kv_nat (mc_version s) pid) = kv_get (mc_histories s) (pid, kv_nat (mc_version s) pid) \<and>
    (kv_nat (mc_version s) pid + 2 < u128_lim \<longrightarrow> (\<exists>t'. mc_execute_execute H t e who pid = Ok (t', []) \<and>
       kv_get (mc_version t') pid = Some (kv_nat (mc_version s) pid + 2)))"
  using assms(1)
proof (cases rule: mc_execute_cases)
  case (executed am p l ver)
  then show ?thesis using assms(2) by (auto simp: current_round_def elim!: closing_checks_cases)
next
  case (stale am p l)
  have "mc_conf t = mc_conf s" "mc_proposals t = mc_proposals s" by (simp_all add: stale(4))
  from closing_checks_again [OF stale(1) this] obtain u
    where u: "closing_checks H t e who pid = Ok (u, p, l)" "mc_proposals u = mc_proposals t" "mc_version u = mc_version t" by blast
  have ver: "kv_nat (mc_version u) pid = kv_nat (mc_version s) pid + 1" by (simp add: u(3) stale(4))
  have "\<exists>t'. mc_execute_execute H t e who pid = Ok (t', []) \<and>
       kv_get (mc_version t') pid = Some (kv_nat (mc_version s) pid + 2)"
    if "kv_nat (mc_version s) pid + 2 < u128_lim"
    using that stale(2) ver
    by (simp add: mc_execute_execute_def u(1) advance_version_def u128_add_def update_props_def upgrade_history_def)
  then show ?thesis using stale by (auto simp: history_of_def)
qed

text \<open>In the demo run the gauge has moved on to a round that ends at 1600.\<close>

theorem stale_execution_repeats_witness:
  "\<exists>t. mc_execute_execute (choice_host 1600) choice_two (choice_env 560) ''ann'' 1 = Ok (t, []) \<and>
    kv_get (mc_version t) 1 = Some 2 \<and> mc_proposals t = mc_proposals choice_two"
proof -
  have "\<exists>t. mc_execute_execute (choice_host 1600) choice_two (choice_env 560) ''ann'' 1 = Ok (t, [])"
    by (simp add: mc_execute_execute_def closing_checks_def choice_env_def seconds_def choice_eval choice_demo_defs)
  then obtain t where t: "mc_execute_execute (choice_host 1600) choice_two (choice_env 560) ''ann'' 1 = Ok (t, [])" by blast
  have "\<not> current_round (choice_host 1600) choice_two 1"
    by (simp add: current_round_def choice_host_def choice_loop_def choice_demo_defs)
  from stale_execution_repeats [OF t this] t show ?thesis by (auto simp: choice_two_def choice_opened_def)
qed

text \<open>A proposer gets the limit back only while the hold lasts, never after it, and a closed proposal
  can be closed again: as long as other proposals keep enough of the proposer's power locked,
  closing the same proposal a second time in the same block releases the limit a second time.\<close>

theorem closing_twice_releases_twice:
  assumes "mc_close P s e who pid = Ok t" "2 * mcc_creation_limit (mc_conf s) \<le> kv_nat (mc_locked s) who"
  shows "\<exists>p t'. kv_get (mc_proposals s) pid = Some p \<and>
    seconds (block e) \<le> mp_voting_start_time p + mcc_hold_duration (mc_conf s) \<and>
    mc_close P t e who pid = Ok t' \<and>
    kv_nat (mc_locked t') who = kv_nat (mc_locked s) who - 2 * mcc_creation_limit (mc_conf s)"
  using assms(1)
proof (cases rule: mc_close_cases)
  case (1 p)
  have "mp_voting_start_time p + mcc_hold_duration (mc_conf s) < u64_lim"
    using assms(1) 1(1) by (auto simp: mc_close_def outcome_simps arith_simps)
  then show ?thesis
    using 1 assms(2)
    by (auto simp: mc_close_def outcome_simps arith_simps u64_add_def u128_sub_def mc_update_status_def Let_def not_less)
qed

definition choice_twice :: mc_state where
  "choice_twice = choice_two\<lparr> mc_locked := [(''ann'', 2)] \<rparr>"

theorem closing_twice_releases_twice_witness:
  "\<exists>t t'. mc_close demo_platform choice_twice (choice_env 170) ''ann'' 1 = Ok t \<and>
    mc_close demo_platform t (choice_env 170) ''ann'' 1 = Ok t' \<and> kv_nat (mc_locked t') ''ann'' = 0"
proof -
  obtain t where t: "mc_close demo_platform choice_twice (choice_env 170) ''ann'' 1 = Ok t"
    by (simp add: mc_close_def mc_update_status_def choice_twice_def choice_demo_defs checked_int_defs Let_def)
  have "2 * mcc_creation_limit (mc_conf choice_twice) \<le> kv_nat (mc_locked choice_twice) ''ann''"
    by (simp add: choice_twice_def choice_demo_defs)
  from closing_twice_releases_twice [OF t this] t show ?thesis by (auto simp: choice_twice_def choice_demo_defs)
qed


section \<open>Removing options\<close>

text \<open>Anybody, voter or not, may remove options from any proposal, also while it is voted on; the total
  is not reduced, so when the shares of the options that stay miss more points than there are such
  options, no execution of the round can succeed any more.\<close>

theorem anybody_can_block_an_execution:
  assumes "mc_reachable P s" "kv_get (mc_proposals s) pid = Some p" "mp_total_power p \<noteq> 0"
    and "sum_list (map (\<lambda>c. ch_power c * 100 div mp_total_power p) (filter (\<lambda>c. ch_pool c \<notin> set opts) (mp_choices p)))
      + length (filter (\<lambda>c. ch_pool c \<notin> set opts) (mp_choices p)) < 100"
  shows "\<exists>t q. mc_execute P H s e info (Mc_remove_options pid opts) = Ok (t, []) \<and>
    kv_get (mc_proposals t) pid = Some q \<and> (\<forall>staker. get_execution_message q staker = Panic)"
proof -
  let ?q = "p\<lparr> mp_choices := filter (\<lambda>c. ch_pool c \<notin> set opts) (mp_choices p) \<rparr>"
  let ?t = "s\<lparr> mc_proposals := kv_set (mc_proposals s) pid ?q \<rparr>"
  have run: "mc_execute P H s e info (Mc_remove_options pid opts) = Ok (?t, [])"
    using assms(2) by (simp add: mc_silent_def mc_remove_options_def)
  then have "mc_reachable P ?t" by (rule mc_reachable.stepped [OF assms(1)])
  then have "powers ?q \<le> mp_total_power ?q"
    using coveredD [OF mc_reachable_covered, of P ?t pid ?q] by simp
  moreover have "length (mp_choices ?q) < 100 - share_sum ?q"
    using assms(4) by (simp add: share_sum_def share_of_def [abs_def])
  ultimately have "get_execution_message ?q staker = Panic" for staker
    using assms(3) by (intro execution_message_short) simp_all
  then show ?thesis using run by (intro exI [of _ ?t] exI [of _ ?q]) simp
qed

theorem anybody_can_block_an_execution_witness:
  "\<exists>t q. mc_execute demo_platform (choice_host 600) choice_two (choice_env 550) \<lparr> sender = ''eve'' \<rparr>
     (Mc_remove_options 1 [''A'']) = Ok (t, []) \<and>
    kv_get (mc_proposals t) 1 = Some q \<and> get_execution_message q ''staker'' = Panic"
proof -
  have "kv_get (mc_proposals choice_two) 1 = Some choice_final" by (simp add: choice_two_def)
  moreover have "mp_total_power choice_final \<noteq> 0" by (simp add: choice_final_def choice_proposal_def)
  moreover have "sum_list (map (\<lambda>c. ch_power c * 100 div mp_total_power choice_final)
        (filter (\<lambda>c. ch_pool c \<notin> set [''A'']) (mp_choices choice_final)))
      + length (filter (\<lambda>c. ch_pool c \<notin> set [''A'']) (mp_choices choice_final)) < 100"
    by (simp add: choice_final_def choice_proposal_def)
  ultimately show ?thesis
    using anybody_can_block_an_execution [OF choice_two_reachable] by blast
qed

end
