(* ===== verification/Multisig.thy ===== *)
theory Multisig
  imports Store
begin

text \<open>
  The fixed multisig of \<open>contracts/cw3-fixed-multisig\<close>: a list of voters with weights fixed at
  instantiation, who propose messages and vote on them; passed proposals are executed by anybody.
  Statuses, tallies and thresholds belong to the packages \<open>cw3\<close> and \<open>cw-utils\<close>, which are not in
  the repository: their operations are the parameter \<open>L\<close>, with what the contract relies on stated
  in \<open>cw3_laws\<close>.  Votes and thresholds are type variables, and a message to be sent is an opaque
  text.
\<close>

section \<open>Data\<close>

datatype ms_vote = Ms_yes | Ms_no | Ms_abstain | Ms_veto

datatype ms_status = Ms_pending | Ms_open | Ms_rejected | Ms_passed | Ms_executed

datatype ms_error =
    Ms_std std_error
  | Ms_threshold string
  | Zero_weight
  | Unreachable_weight
  | No_voters
  | Ms_unauthorized
  | Not_open
  | Ms_expired
  | Not_expired
  | Wrong_expiration
  | Already_voted
  | Wrong_execute_status
  | Wrong_close_status

record ms_ballot =
  bal_weight :: nat
  bal_vote :: ms_vote

text \<open>A proposal of \<open>cw3\<close>; the deposit is always \<open>None\<close> here and left out.\<close>

record ('v, 'th) ms_proposal =
  pr_title :: string
  pr_description :: string
  pr_start_height :: nat
  pr_expires :: expiration
  pr_msgs :: "string list"
  pr_status :: ms_status
  pr_votes :: 'v
  pr_threshold :: 'th
  pr_total_weight :: nat
  pr_proposer :: addr

record 'th ms_config =
  cfg_threshold :: 'th
  cfg_total_weight :: nat
  cfg_max_voting_period :: duration

record ('v, 'th) ms_state =
  ms_version :: "string \<times> string"
  ms_conf :: "'th ms_config"
  ms_count :: "nat option"  \<comment> \<open>\<open>PROPOSAL_COUNT\<close>\<close>
  ms_ballots :: "(nat \<times> addr, ms_ballot) kv"
  ms_proposals :: "(nat, ('v, 'th) ms_proposal) kv"
  ms_voters :: "(addr, nat) kv"

text \<open>The library: thresholds, tallies, statuses and the partial order of expirations.\<close>

datatype exp_order = Exp_less | Exp_equal | Exp_greater

record ('v, 'th) cw3_lib =
  lib_validate :: "'th \<Rightarrow> nat \<Rightarrow> (string, unit) outcome"
  lib_yes :: "nat \<Rightarrow> 'v"  \<comment> \<open>\<open>Votes::yes\<close>\<close>
  lib_add :: "'v \<Rightarrow> ms_vote \<Rightarrow> nat \<Rightarrow> (ms_error, 'v) outcome"  \<comment> \<open>\<open>Votes::add_vote\<close>\<close>
  lib_count :: "'v \<Rightarrow> ms_vote \<Rightarrow> nat"  \<comment> \<open>the four fields of \<open>Votes\<close>\<close>
  lib_current :: "block_info \<Rightarrow> ('v, 'th) ms_proposal \<Rightarrow> ms_status"  \<comment> \<open>\<open>Proposal::current_status\<close>\<close>
  lib_update :: "block_info \<Rightarrow> ('v, 'th) ms_proposal \<Rightarrow> ('v, 'th) ms_proposal"  \<comment> \<open>\<open>Proposal::update_status\<close>\<close>
  lib_compare :: "expiration \<Rightarrow> expiration \<Rightarrow> exp_order option"

text \<open>
  Documented behaviour of \<open>cw3\<close>: updating the status stores the current one; only an open proposal
  changes its status, to passed or rejected; a fresh tally holds the first yes vote and adding a
  vote adds its weight to its kind.
\<close>

definition cw3_laws :: "('v, 'th) cw3_lib \<Rightarrow> bool" where
  "cw3_laws L \<longleftrightarrow>
     (\<forall>b p. lib_update L b p = p\<lparr> pr_status := lib_current L b p \<rparr>) \<and>
     (\<forall>b p. pr_status p \<noteq> Ms_open \<longrightarrow> lib_current L b p = pr_status p) \<and>
     (\<forall>b p. pr_status p = Ms_open \<longrightarrow> lib_current L b p \<in> {Ms_open, Ms_passed, Ms_rejected}) \<and>
     (\<forall>w x. lib_count L (lib_yes L w) x = (if x = Ms_yes then w else 0)) \<and>
     (\<forall>v x w v' y. lib_add L v x w = Ok v' \<longrightarrow> lib_count L v' y = lib_count L v y + (if y = x then w else 0))"

definition ms_contract_name :: string where "ms_contract_name = ''crates.io:cw3-fixed-multisig''"
definition ms_contract_version :: string where "ms_contract_version = ''1.0.1''"

section \<open>Instantiation\<close>

record ms_voter =
  vo_addr :: string
  vo_weight :: nat

record 'th ms_instantiate_msg =
  mi_voters :: "ms_voter list"
  mi_threshold :: 'th
  mi_max_voting_period :: duration

text \<open>\<open>sum()\<close> of the weights, an addition that panics on overflow.\<close>

definition sum_voters :: "ms_voter list \<Rightarrow> ('e, nat) outcome" where
  "sum_voters vs = fold_ok (\<lambda>v n. u64_add n (vo_weight v)) vs 0"

text \<open>Every voter is saved under its address; a later entry replaces an earlier one.\<close>

definition save_voters :: "platform \<Rightarrow> ms_voter list \<Rightarrow> (ms_error, (addr, nat) kv) outcome" where
  "save_voters P vs =
     fold_ok (\<lambda>v m. and_then (map_err Ms_std (addr_validate P (vo_addr v))) (\<lambda>a.
       Ok (kv_set m a (vo_weight v)))) vs []"

definition ms_instantiate ::
  "platform \<Rightarrow> ('v, 'th) cw3_lib \<Rightarrow> 'th ms_instantiate_msg \<Rightarrow> (ms_error, ('v, 'th) ms_state) outcome"
where
  "ms_instantiate P L msg =
     (if mi_voters msg = [] then Err No_voters
      else
      and_then (sum_voters (mi_voters msg)) (\<lambda>tot.
      and_then (map_err Ms_threshold (lib_validate L (mi_threshold msg) tot)) (\<lambda>_.
      and_then (save_voters P (mi_voters msg)) (\<lambda>vs.
      Ok \<lparr> ms_version = (ms_contract_name, ms_contract_version),
           ms_conf = \<lparr> cfg_threshold = mi_threshold msg, cfg_total_weight = tot,
                       cfg_max_voting_period = mi_max_voting_period msg \<rparr>,
           ms_count = None, ms_ballots = [], ms_proposals = [], ms_voters = vs \<rparr>))))"

section \<open>Messages\<close>

definition next_id :: "('v, 'th) ms_state \<Rightarrow> ('e, nat \<times> ('v, 'th) ms_state) outcome" where
  "next_id s =
     and_then (u64_add (case ms_count s of Some n \<Rightarrow> n | None \<Rightarrow> 0) 1) (\<lambda>i. Ok (i, s\<lparr> ms_count := Some i \<rparr>))"

text \<open>The expiration asked for, at most the longest voting period.\<close>

definition choose_expiration ::
  "platform \<Rightarrow> ('v, 'th) cw3_lib \<Rightarrow> block_info \<Rightarrow> duration \<Rightarrow> expiration option \<Rightarrow> (ms_error, expiration) outcome"
where
  "choose_expiration P L b period latest =
     (let max_expires = after P period b;
          expires = (case latest of Some x \<Rightarrow> x | None \<Rightarrow> max_expires) in
      case lib_compare L expires max_expires of
        Some Exp_greater \<Rightarrow> Ok max_expires
      | None \<Rightarrow> Err Wrong_expiration
      | Some _ \<Rightarrow> Ok expires)"

definition ms_propose ::
  "platform \<Rightarrow> ('v, 'th) cw3_lib \<Rightarrow> ('v, 'th) ms_state \<Rightarrow> env \<Rightarrow> addr \<Rightarrow> string \<Rightarrow> string \<Rightarrow> string list
     \<Rightarrow> expiration option \<Rightarrow> (ms_error, ('v, 'th) ms_state) outcome"
where
  "ms_propose P L s e who ttl descr out latest =
     and_then (ok_or Ms_unauthorized (kv_get (ms_voters s) who)) (\<lambda>w.
     and_then (choose_expiration P L (block e) (cfg_max_voting_period (ms_conf s)) latest) (\<lambda>expires.
     let p = lib_update L (block e) \<lparr> pr_title = ttl, pr_description = descr,
           pr_start_height = block_height (block e), pr_expires = expires, pr_msgs = out,
           pr_status = Ms_open, pr_votes = lib_yes L w, pr_threshold = cfg_threshold (ms_conf s),
           pr_total_weight = cfg_total_weight (ms_conf s), pr_proposer = who \<rparr> in
     and_then (next_id s) (\<lambda>(i, s').
     Ok (s'\<lparr> ms_proposals := kv_set (ms_proposals s') i p,
             ms_ballots := kv_set (ms_ballots s') (i, who) \<lparr> bal_weight = w, bal_vote = Ms_yes \<rparr> \<rparr>))))"

definition load_ms_proposal :: "('v, 'th) ms_state \<Rightarrow> nat \<Rightarrow> (std_error, ('v, 'th) ms_proposal) outcome" where
  "load_ms_proposal s i = ok_or (Not_found ''Proposal'') (kv_get (ms_proposals s) i)"

definition ms_cast ::
  "platform \<Rightarrow> ('v, 'th) cw3_lib \<Rightarrow> ('v, 'th) ms_state \<Rightarrow> env \<Rightarrow> addr \<Rightarrow> nat \<Rightarrow> ms_vote
     \<Rightarrow> (ms_error, ('v, 'th) ms_state) outcome"
where
  "ms_cast P L s e who i v =
     (case kv_get (ms_voters s) who of
        None \<Rightarrow> Err Ms_unauthorized
      | Some w \<Rightarrow>
          if w < 1 then Err Ms_unauthorized
          else
          and_then (map_err Ms_std (load_ms_proposal s i)) (\<lambda>p.
          if pr_status p \<notin> {Ms_open, Ms_passed, Ms_rejected} then Err Not_open
          else if is_expired P (pr_expires p) (block e) then Err Ms_expired
          else
          case kv_get (ms_ballots s) (i, who) of
            Some _ \<Rightarrow> Err Already_voted
          | None \<Rightarrow>
              and_then (lib_add L (pr_votes p) v w) (\<lambda>vs.
              Ok (s\<lparr> ms_ballots := kv_set (ms_ballots s) (i, who) \<lparr> bal_weight = w, bal_vote = v \<rparr>,
                     ms_proposals := kv_set (ms_proposals s) i (lib_update L (block e) (p\<lparr> pr_votes := vs \<rparr>)) \<rparr>))))"

definition ms_run_proposal ::
  "('v, 'th) cw3_lib \<Rightarrow> ('v, 'th) ms_state \<Rightarrow> env \<Rightarrow> nat \<Rightarrow> (ms_error, ('v, 'th) ms_state \<times> string list) outcome"
where
  "ms_run_proposal L s e i =
     and_then (map_err Ms_std (load_ms_proposal s i)) (\<lambda>p0.
     let p = lib_update L (block e) p0 in
     if pr_status p \<noteq> Ms_passed then Err Wrong_execute_status
     else Ok (s\<lparr> ms_proposals := kv_set (ms_proposals s) i (p\<lparr> pr_status := Ms_executed \<rparr>) \<rparr>, pr_msgs p))"

definition ms_close ::
  "platform \<Rightarrow> ('v, 'th) cw3_lib \<Rightarrow> ('v, 'th) ms_state \<Rightarrow> env \<Rightarrow> nat \<Rightarrow> (ms_error, ('v, 'th) ms_state) outcome"
where
  "ms_close P L s e i =
     and_then (map_err Ms_std (load_ms_proposal s i)) (\<lambda>p.
     if pr_status p \<in> {Ms_executed, Ms_rejected, Ms_passed} then Err Wrong_close_status
     else if lib_current L (block e) p = Ms_passed then Err Wrong_close_status
     else if \<not> is_expired P (pr_expires p) (block e) then Err Not_expired
     else Ok (s\<lparr> ms_proposals := kv_set (ms_proposals s) i (p\<lparr> pr_status := Ms_rejected \<rparr>) \<rparr>))"

datatype ms_msg =
    Ms_propose string string "string list" "expiration option"
  | Ms_cast nat ms_vote
  | Ms_execute nat
  | Ms_close nat

definition ms_silent :: "('e, 's) outcome \<Rightarrow> ('e, 's \<times> string list) outcome" where
  "ms_silent r = and_then r (\<lambda>s. Ok (s, []))"

fun ms_execute ::
  "platform \<Rightarrow> ('v, 'th) cw3_lib \<Rightarrow> ('v, 'th) ms_state \<Rightarrow> env \<Rightarrow> message_info \<Rightarrow> ms_msg
     \<Rightarrow> (ms_error, ('v, 'th) ms_state \<times> string list) outcome"
where
  "ms_execute P L s e info (Ms_propose ttl descr out latest) =
     ms_silent (ms_propose P L s e (sender info) ttl descr out latest)"
| "ms_execute P L s e info (Ms_cast i v) = ms_silent (ms_cast P L s e (sender info) i v)"
| "ms_execute P L s e info (Ms_execute i) = ms_run_proposal L s e i"
| "ms_execute P L s e info (Ms_close i) = ms_silent (ms_close P L s e i)"

section \<open>Queries\<close>

text \<open>The rendering of a threshold (\<open>Threshold::to_response\<close>) is the argument \<open>resp\<close>.\<close>

definition ms_query_threshold :: "('th \<Rightarrow> nat \<Rightarrow> 'r) \<Rightarrow> ('v, 'th) ms_state \<Rightarrow> 'r" where
  "ms_query_threshold resp s = resp (cfg_threshold (ms_conf s)) (cfg_total_weight (ms_conf s))"

record 'r ms_proposal_response =
  rp_id :: nat
  rp_title :: string
  rp_description :: string
  rp_msgs :: "string list"
  rp_status :: ms_status
  rp_expires :: expiration
  rp_proposer :: addr
  rp_threshold :: 'r

definition map_proposal ::
  "('v, 'th) cw3_lib \<Rightarrow> ('th \<Rightarrow> nat \<Rightarrow> 'r) \<Rightarrow> block_info \<Rightarrow> nat \<times> ('v, 'th) ms_proposal \<Rightarrow> 'r ms_proposal_response"
where
  "map_proposal L resp b ip = (case ip of (i, p) \<Rightarrow>
     \<lparr> rp_id = i, rp_title = pr_title p, rp_description = pr_description p, rp_msgs = pr_msgs p,
        rp_status = lib_current L b p, rp_expires = pr_expires p, rp_proposer = pr_proposer p,
        rp_threshold = resp (pr_threshold p) (pr_total_weight p) \<rparr>)"

definition ms_query_proposal ::
  "('v, 'th) cw3_lib \<Rightarrow> ('th \<Rightarrow> nat \<Rightarrow> 'r) \<Rightarrow> ('v, 'th) ms_state \<Rightarrow> env \<Rightarrow> nat
     \<Rightarrow> (std_error, 'r ms_proposal_response) outcome"
where
  "ms_query_proposal L resp s e i = and_then (load_ms_proposal s i) (\<lambda>p. Ok (map_proposal L resp (block e) (i, p)))"

definition ms_page_limit :: "nat option \<Rightarrow> nat" where
  "ms_page_limit limit = min (case limit of None \<Rightarrow> 10 | Some l \<Rightarrow> l) 30"

definition ms_list_proposals ::
  "('v, 'th) cw3_lib \<Rightarrow> ('th \<Rightarrow> nat \<Rightarrow> 'r) \<Rightarrow> ('v, 'th) ms_state \<Rightarrow> env \<Rightarrow> nat option \<Rightarrow> nat option
     \<Rightarrow> 'r ms_proposal_response list"
where
  "ms_list_proposals L resp s e start_after limit =
     map (map_proposal L resp (block e)) (take (ms_page_limit limit) (kv_after (ms_proposals s) start_after))"

definition ms_reverse_proposals ::
  "('v, 'th) cw3_lib \<Rightarrow> ('th \<Rightarrow> nat \<Rightarrow> 'r) \<Rightarrow> ('v, 'th) ms_state \<Rightarrow> env \<Rightarrow> nat option \<Rightarrow> nat option
     \<Rightarrow> 'r ms_proposal_response list"
where
  "ms_reverse_proposals L resp s e start_before limit =
     map (map_proposal L resp (block e)) (take (ms_page_limit limit) (rev (kv_before (ms_proposals s) start_before)))"

record ms_vote_info =
  vi_proposal :: nat
  vi_voter :: addr
  vi_vote :: ms_vote
  vi_weight :: nat

definition vote_info_of :: "nat \<Rightarrow> addr \<times> ms_ballot \<Rightarrow> ms_vote_info" where
  "vote_info_of i ab = (case ab of (a, b) \<Rightarrow>
     \<lparr> vi_proposal = i, vi_voter = a, vi_vote = bal_vote b, vi_weight = bal_weight b \<rparr>)"

definition ms_query_vote ::
  "platform \<Rightarrow> ('v, 'th) ms_state \<Rightarrow> nat \<Rightarrow> string \<Rightarrow> (std_error, ms_vote_info option) outcome"
where
  "ms_query_vote P s i who =
     and_then (addr_validate P who) (\<lambda>a.
     Ok (map_option (\<lambda>b. vote_info_of i (a, b)) (kv_get (ms_ballots s) (i, a))))"

definition ms_list_votes ::
  "('v, 'th) ms_state \<Rightarrow> nat \<Rightarrow> addr option \<Rightarrow> nat option \<Rightarrow> ms_vote_info list"
where
  "ms_list_votes s i start_after limit =
     map (vote_info_of i) (take (ms_page_limit limit) (kv_after (kv_prefix (ms_ballots s) i) start_after))"

definition ms_query_voter :: "platform \<Rightarrow> ('v, 'th) ms_state \<Rightarrow> string \<Rightarrow> (std_error, nat option) outcome" where
  "ms_query_voter P s who = and_then (addr_validate P who) (\<lambda>a. Ok (kv_get (ms_voters s) a))"

definition ms_list_voters :: "('v, 'th) ms_state \<Rightarrow> addr option \<Rightarrow> nat option \<Rightarrow> (addr \<times> nat) list" where
  "ms_list_voters s start_after limit = take (ms_page_limit limit) (kv_after (ms_voters s) start_after)"

end
