(* ===== verification/Multisig_Props.thy ===== *)
theory Multisig_Props
  imports Multisig
begin

text \<open>
  The multisig: what the handlers do when they succeed, runs and reachable states, the tallies as
  the weights of the ballots, executions that happen once and send what was proposed, and passed
  proposals that wait for their execution.
\<close>

section \<open>Handlers\<close>

lemma ms_silent_Ok [outcome_simps]: "ms_silent r = Ok (t, out) \<longleftrightarrow> r = Ok t \<and> out = []"
  by (auto simp: ms_silent_def outcome_simps)

lemma load_ms_proposal_Ok [outcome_simps]: "load_ms_proposal s i = Ok p \<longleftrightarrow> kv_get (ms_proposals s) i = Some p"
  by (simp add: load_ms_proposal_def outcome_simps)

definition counted_ids :: "('v, 'th) ms_state \<Rightarrow> nat" where
  "counted_ids s = (case ms_count s of Some n \<Rightarrow> n | None \<Rightarrow> 0)"

lemma ms_propose_cases:
  assumes "ms_propose P L s e who ttl descr out latest = Ok t"
  obtains w x where "kv_get (ms_voters s) who = Some w"
    "t = s\<lparr> ms_count := Some (counted_ids s + 1),
       ms_proposals := kv_set (ms_proposals s) (counted_ids s + 1) (lib_update L (block e)
         \<lparr> pr_title = ttl, pr_description = descr, pr_start_height = block_height (block e), pr_expires = x,
           pr_msgs = out, pr_status = Ms_open, pr_votes = lib_yes L w, pr_threshold = cfg_threshold (ms_conf s),
           pr_total_weight = cfg_total_weight (ms_conf s), pr_proposer = who \<rparr>),
       ms_ballots := kv_set (ms_ballots s) (counted_ids s + 1, who) \<lparr> bal_weight = w, bal_vote = Ms_yes \<rparr> \<rparr>"
proof -
  obtain w where w: "kv_get (ms_voters s) who = Some w"
    using assms by (auto simp: ms_propose_def outcome_simps)
  obtain x where x: "choose_expiration P L (block e) (cfg_max_voting_period (ms_conf s)) latest = Ok x"
    using assms by (auto simp: ms_propose_def outcome_simps)
  show thesis
    using assms by (intro that [OF w, of x])
      (auto simp: ms_propose_def w x next_id_def counted_ids_def Let_def outcome_simps arith_simps)
qed

lemma ms_cast_cases:
  assumes "ms_cast P L s e who i v = Ok t"
  obtains w p vs where "kv_get (ms_voters s) who = Some w" "1 \<le> w" "kv_get (ms_proposals s) i = Some p"
    "pr_status p \<in> {Ms_open, Ms_passed, Ms_rejected}" "\<not> is_expired P (pr_expires p) (block e)"
    "kv_get (ms_ballots s) (i, who) = None" "lib_add L (pr_votes p) v w = Ok vs"
    "t = s\<lparr> ms_ballots := kv_set (ms_ballots s) (i, who) \<lparr> bal_weight = w, bal_vote = v \<rparr>,
            ms_proposals := kv_set (ms_proposals s) i (lib_update L (block e) (p\<lparr> pr_votes := vs \<rparr>)) \<rparr>"
  using assms
  by (auto simp: ms_cast_def outcome_simps not_less split: option.splits if_splits)

lemma ms_run_proposal_cases:
  assumes "ms_run_proposal L s e i = Ok (t, out)"
  obtains p where "kv_get (ms_proposals s) i = Some p" "pr_status (lib_update L (block e) p) = Ms_passed"
    "out = pr_msgs (lib_update L (block e) p)"
    "t = s\<lparr> ms_proposals := kv_set (ms_proposals s) i ((lib_update L (block e) p)\<lparr> pr_status := Ms_executed \<rparr>) \<rparr>"
  using assms by (auto simp: ms_run_proposal_def Let_def outcome_simps)

lemma ms_close_cases:
  assumes "ms_close P L s e i = Ok t"
  obtains p where "kv_get (ms_proposals s) i = Some p" "pr_status p \<notin> {Ms_executed, Ms_rejected, Ms_passed}"
    "lib_current L (block e) p \<noteq> Ms_passed" "is_expired P (pr_expires p) (block e)"
    "t = s\<lparr> ms_proposals := kv_set (ms_proposals s) i (p\<lparr> pr_status := Ms_rejected \<rparr>) \<rparr>"
  using assms by (auto simp: ms_close_def outcome_simps)

section \<open>Laws of the library\<close>

lemma cw3_lawsD:
  assumes "cw3_laws L"
  shows lib_update_eq: "lib_update L b p = p\<lparr> pr_status := lib_current L b p \<rparr>"
    and lib_current_decided: "pr_status p \<noteq> Ms_open \<Longrightarrow> lib_current L b p = pr_status p"
    and lib_current_open: "pr_status p = Ms_open \<Longrightarrow> lib_current L b p \<in> {Ms_open, Ms_passed, Ms_rejected}"
    and lib_count_yes: "lib_count L (lib_yes L w) x = (if x = Ms_yes then w else 0)"
    and lib_count_add: "lib_add L v x w = Ok v' \<Longrightarrow> lib_count L v' y = lib_count L v y + (if y = x then w else 0)"
  using assms unfolding cw3_laws_def by blast+

section \<open>Runs and reachable states\<close>

inductive ms_run :: "platform \<Rightarrow> ('v, 'th) cw3_lib \<Rightarrow> ('v, 'th) ms_state \<Rightarrow> ('v, 'th) ms_state \<Rightarrow> bool" for P L where
  nothing: "ms_run P L s s"
| message: "ms_run P L s t \<Longrightarrow> ms_execute P L t e info msg = Ok (u, out) \<Longrightarrow> ms_run P L s u"

definition ms_reachable :: "platform \<Rightarrow> ('v, 'th) cw3_lib \<Rightarrow> ('v, 'th) ms_state \<Rightarrow> bool" where
  "ms_reachable P L s \<longleftrightarrow> (\<exists>msg s0. ms_instantiate P L msg = Ok s0 \<and> ms_run P L s0 s)"

text \<open>The weight of the ballots for a proposal and a kind of vote.\<close>

definition weight_of :: "('v, 'th) ms_state \<Rightarrow> nat \<Rightarrow> ms_vote \<Rightarrow> nat" where
  "weight_of s i x = kv_sum (\<lambda>k b. if fst k = i \<and> bal_vote b = x then bal_weight b else 0) (ms_ballots s)"

definition ms_inv :: "('v, 'th) cw3_lib \<Rightarrow> ('v, 'th) ms_state \<Rightarrow> bool" where
  "ms_inv L s \<longleftrightarrow> kv_ok (ms_ballots s) \<and> kv_ok (ms_voters s) \<and> kv_total (ms_voters s) \<le> cfg_total_weight (ms_conf s) \<and>
     (\<forall>i p. kv_get (ms_proposals s) i = Some p \<longrightarrow> i \<le> counted_ids s \<and> (\<forall>x. lib_count L (pr_votes p) x = weight_of s i x)) \<and>
     (\<forall>k b. kv_get (ms_ballots s) k = Some b \<longrightarrow> fst k \<le> counted_ids s \<and> kv_get (ms_voters s) (snd k) = Some (bal_weight b))"

lemma ms_inv_proposal:
  "ms_inv L s \<Longrightarrow> kv_get (ms_proposals s) i = Some p \<Longrightarrow> i \<le> counted_ids s \<and> lib_count L (pr_votes p) x = weight_of s i x"
  by (simp add: ms_inv_def)

lemma ms_inv_id: "ms_inv L s \<Longrightarrow> kv_get (ms_proposals s) i = Some p \<Longrightarrow> i \<le> counted_ids s"
  by (simp add: ms_inv_def)

lemma ms_inv_ballot:
  "ms_inv L s \<Longrightarrow> kv_get (ms_ballots s) k = Some b \<Longrightarrow> fst k \<le> counted_ids s \<and> kv_get (ms_voters s) (snd k) = Some (bal_weight b)"
  unfolding ms_inv_def by blast

lemma weight_of_future:
  assumes "ms_inv L s" "counted_ids s < i"
  shows "weight_of s i x = 0"
proof -
  have "(if fst k = i \<and> bal_vote b = x then bal_weight b else 0) = 0" if "(k, b) \<in> set (ms_ballots s)" for k b
  proof -
    have "kv_get (ms_ballots s) k = Some b" using that assms(1) by (simp add: ms_inv_def kv_in_set_get)
    then show ?thesis using ms_inv_ballot [OF assms(1)] assms(2) by fastforce
  qed
  then show ?thesis by (simp add: weight_of_def kv_sum_def sum_list_eq_0_iff)
qed

text \<open>A new ballot adds its weight to its proposal and kind only.\<close>

lemma weight_of_ballot:
  assumes "kv_ok (ms_ballots s)" "kv_get (ms_ballots s) (i, who) = None"
    and "ms_ballots t = kv_set (ms_ballots s) (i, who) \<lparr> bal_weight = w, bal_vote = v \<rparr>"
  shows "weight_of t j x = weight_of s j x + (if j = i \<and> x = v then w else 0)"
  using kv_sum_set [OF assms(1), of "\<lambda>k b. if fst k = j \<and> bal_vote b = x then bal_weight b else 0" "(i, who)"] assms(2)
  by (auto simp: weight_of_def assms(3) kv_at_def)

lemma ms_inv_cast:
  assumes laws: "cw3_laws L" and inv: "ms_inv L s" and run: "ms_cast P L s e who i v = Ok t"
  shows "ms_inv L t"
  using run
proof (cases rule: ms_cast_cases)
  case (1 w p vs)
  have ok: "kv_ok (ms_ballots s)" using inv by (simp add: ms_inv_def)
  have t: "ms_ballots t = kv_set (ms_ballots s) (i, who) \<lparr> bal_weight = w, bal_vote = v \<rparr>"
    "ms_proposals t = kv_set (ms_proposals s) i (lib_update L (block e) (p\<lparr> pr_votes := vs \<rparr>))"
    "ms_voters t = ms_voters s" "ms_conf t = ms_conf s" "counted_ids t = counted_ids s"
    by (simp_all add: 1(8) counted_ids_def)
  note weights = weight_of_ballot [OF ok 1(6) t(1)]
  show ?thesis
    unfolding ms_inv_def
  proof (intro conjI allI impI)
    fix j q x
    assume "kv_get (ms_proposals t) j = Some q"
    then have q: "(j = i \<and> q = lib_update L (block e) (p\<lparr> pr_votes := vs \<rparr>)) \<or> (j \<noteq> i \<and> kv_get (ms_proposals s) j = Some q)"
      by (auto simp: t split: if_splits)
    then show "j \<le> counted_ids t" using ms_inv_proposal [OF inv] 1(3) t(5) by metis
    show "lib_count L (pr_votes q) x = weight_of t j x"
      using q ms_inv_proposal [OF inv] 1(3) lib_count_add [OF laws 1(7)]
      by (auto simp: weights lib_update_eq [OF laws])
  next
    fix k b
    assume "kv_get (ms_ballots t) k = Some b"
    then have "(k = (i, who) \<and> b = \<lparr> bal_weight = w, bal_vote = v \<rparr>) \<or> kv_get (ms_ballots s) k = Some b"
      by (auto simp: t split: if_splits)
    then show "fst k \<le> counted_ids t" "kv_get (ms_voters t) (snd k) = Some (bal_weight b)"
      using ms_inv_ballot [OF inv, of k b] ms_inv_proposal [OF inv 1(3)] 1(1) by (auto simp: t(3,5))
  qed (use inv in \<open>simp_all add: ms_inv_def t\<close>)
qed

lemma ms_inv_propose:
  assumes laws: "cw3_laws L" and inv: "ms_inv L s" and run: "ms_propose P L s e who ttl descr out latest = Ok t"
  shows "ms_inv L t"
  using run
proof (cases rule: ms_propose_cases)
  case (1 w y)
  let ?i = "counted_ids s + 1"
  have ok: "kv_ok (ms_ballots s)" using inv by (simp add: ms_inv_def)
  have t: "ms_ballots t = kv_set (ms_ballots s) (?i, who) \<lparr> bal_weight = w, bal_vote = Ms_yes \<rparr>"
    "ms_voters t = ms_voters s" "ms_conf t = ms_conf s" "counted_ids t = ?i"
    by (simp_all add: 1(2) counted_ids_def)
  have fresh: "kv_get (ms_ballots s) (?i, who) = None"
    using ms_inv_ballot [OF inv, of "(?i, who)"] by (cases "kv_get (ms_ballots s) (?i, who)") auto
  note weights = weight_of_ballot [OF ok fresh t(1)]
  have stored: "kv_get (ms_proposals t) j = Some q \<Longrightarrow>
     (j = ?i \<and> pr_votes q = lib_yes L w) \<or> kv_get (ms_proposals s) j = Some q" for j q
    by (auto simp: 1(2) lib_update_eq [OF laws] split: if_splits)
  show ?thesis
    unfolding ms_inv_def
  proof (intro conjI allI impI)
    fix j q x
    assume q: "kv_get (ms_proposals t) j = Some q"
    show "j \<le> counted_ids t"
      using stored [OF q] ms_inv_id [OF inv, of j q] by (auto simp: t(4))
    show "lib_count L (pr_votes q) x = weight_of t j x"
      using stored [OF q]
    proof
      assume "j = ?i \<and> pr_votes q = lib_yes L w"
      then show ?thesis using weight_of_future [OF inv, of ?i x] by (simp add: weights lib_count_yes [OF laws])
    next
      assume old: "kv_get (ms_proposals s) j = Some q"
      then have "j \<noteq> ?i" using ms_inv_proposal [OF inv] by fastforce
      then show ?thesis using ms_inv_proposal [OF inv old] by (simp add: weights)
    qed
  next
    fix k b
    assume "kv_get (ms_ballots t) k = Some b"
    then have "(k = (?i, who) \<and> b = \<lparr> bal_weight = w, bal_vote = Ms_yes \<rparr>) \<or> kv_get (ms_ballots s) k = Some b"
      by (auto simp: t split: if_splits)
    then show "fst k \<le> counted_ids t" "kv_get (ms_voters t) (snd k) = Some (bal_weight b)"
      using ms_inv_ballot [OF inv, of k b] 1(1) by (auto simp: t(2,4))
  qed (use inv in \<open>simp_all add: ms_inv_def t\<close>)
qed

lemma ms_inv_status:
  assumes "ms_inv L s" "kv_get (ms_proposals s) i = Some p" "pr_votes q = pr_votes p"
  shows "ms_inv L (s\<lparr> ms_proposals := kv_set (ms_proposals s) i q \<rparr>)"
  using assms ms_inv_proposal [OF assms(1,2)]
  by (auto simp: ms_inv_def counted_ids_def weight_of_def)

lemma ms_inv_step:
  assumes laws: "cw3_laws L" and inv: "ms_inv L s" and run: "ms_execute P L s e info msg = Ok (t, out)"
  shows "ms_inv L t"
proof (cases msg)
  case (Ms_propose ttl descr ms latest)
  with run show ?thesis by (auto simp: outcome_simps intro: ms_inv_propose [OF laws inv])
next
  case (Ms_cast i v)
  with run show ?thesis by (auto simp: outcome_simps intro: ms_inv_cast [OF laws inv])
next
  case (Ms_execute i)
  with run have "ms_run_proposal L s e i = Ok (t, out)" by simp
  then show ?thesis
    by (rule ms_run_proposal_cases) (auto intro: ms_inv_status [OF inv] simp: lib_update_eq [OF laws])
next
  case (Ms_close i)
  with run have "ms_close P L s e i = Ok t" by (simp add: outcome_simps)
  then show ?thesis by (rule ms_close_cases) (auto intro: ms_inv_status [OF inv])
qed

section \<open>Voters\<close>

lemma sum_voters_Ok: "sum_voters vs = (Ok n :: ('e, nat) outcome) \<Longrightarrow> n = sum_list (map vo_weight vs)"
proof -
  have "fold_ok (\<lambda>v n. u64_add n (vo_weight v)) vs a = (Ok n :: ('e, nat) outcome) \<Longrightarrow> n = a + sum_list (map vo_weight vs)" for a
    by (induction vs arbitrary: a) (fastforce simp: outcome_simps arith_simps)+
  from this [of 0] show "sum_voters vs = (Ok n :: ('e, nat) outcome) \<Longrightarrow> n = sum_list (map vo_weight vs)"
    by (simp add: sum_voters_def)
qed

text \<open>The saved weights never exceed the sum; they reach it when no address is given twice.\<close>

lemma save_voters_fold:
  assumes "fold_ok (\<lambda>v m. and_then (map_err Ms_std (addr_validate P (vo_addr v))) (\<lambda>a.
       Ok (kv_set m a (vo_weight v)))) vs m = Ok m'" "kv_ok m"
  shows "kv_ok m' \<and> kv_total m' \<le> kv_total m + sum_list (map vo_weight vs) \<and>
    (platform_exact P \<longrightarrow> distinct (map vo_addr vs) \<longrightarrow> vo_addr ` set vs \<inter> fst ` set m = {} \<longrightarrow>
       kv_total m' = kv_total m + sum_list (map vo_weight vs))"
  using assms
proof (induction vs arbitrary: m)
  case (Cons v vs)
  then obtain a where a: "addr_validate P (vo_addr v) = Ok a"
    and rest: "fold_ok (\<lambda>v m. and_then (map_err Ms_std (addr_validate P (vo_addr v))) (\<lambda>a.
       Ok (kv_set m a (vo_weight v)))) vs (kv_set m a (vo_weight v)) = Ok m'"
    by (auto simp: outcome_simps)
  have step: "kv_total (kv_set m a (vo_weight v)) + kv_nat m a = kv_total m + vo_weight v"
    using Cons.prems(2) by (rule kv_total_set)
  have eq: "kv_total (kv_set m a (vo_weight v)) = kv_total m + vo_weight v"
    if "platform_exact P" "vo_addr ` set (v # vs) \<inter> fst ` set m = {}"
    using that step platform_exactD [OF that(1) a] kv_nat_fresh [of a m] by auto
  have disj: "vo_addr ` set vs \<inter> fst ` set (kv_set m a (vo_weight v)) = {}"
    if "platform_exact P" "distinct (map vo_addr (v # vs))" "vo_addr ` set (v # vs) \<inter> fst ` set m = {}"
    using that platform_exactD [OF that(1) a] by (auto simp: set_kv_set_keys)
  show ?case
    using Cons.IH [OF rest] Cons.prems(2) step eq disj by simp
qed simp

lemma ms_inv_start: "ms_instantiate P L msg = Ok s \<Longrightarrow> ms_inv L s"
proof -
  assume run: "ms_instantiate P L msg = Ok s"
  then obtain n m where sum: "sum_voters (mi_voters msg) = (Ok n :: (ms_error, nat) outcome)"
    and save: "save_voters P (mi_voters msg) = Ok m"
    and s: "ms_voters s = m" "ms_ballots s = []" "ms_proposals s = []" "cfg_total_weight (ms_conf s) = n"
    by (auto simp: ms_instantiate_def outcome_simps)
  from save have "kv_ok m \<and> kv_total m \<le> sum_list (map vo_weight (mi_voters msg))"
    using save_voters_fold [of P "mi_voters msg" "[]" m] by (simp add: save_voters_def kv_total_def)
  then show "ms_inv L s" using sum_voters_Ok [OF sum] by (simp add: ms_inv_def s)
qed

lemma ms_run_inv: "ms_run P L s t \<Longrightarrow> cw3_laws L \<Longrightarrow> ms_inv L s \<Longrightarrow> ms_inv L t"
  by (induction rule: ms_run.induct) (auto intro: ms_inv_step)

lemma ms_reachable_inv: "ms_reachable P L s \<Longrightarrow> cw3_laws L \<Longrightarrow> ms_inv L s"
  unfolding ms_reachable_def by (auto intro: ms_run_inv ms_inv_start)


section \<open>What a message keeps of a proposal\<close>

definition same_matter :: "('v, 'th) ms_proposal \<Rightarrow> ('v, 'th) ms_proposal \<Rightarrow> bool" where
  "same_matter p q \<longleftrightarrow> pr_msgs q = pr_msgs p \<and> pr_proposer q = pr_proposer p \<and> pr_expires q = pr_expires p \<and>
     pr_threshold q = pr_threshold p \<and> pr_total_weight q = pr_total_weight p"

lemma same_matter_refl [simp]: "same_matter p p"
  by (simp add: same_matter_def)

lemma same_matter_trans: "same_matter p q \<Longrightarrow> same_matter q r \<Longrightarrow> same_matter p r"
  by (simp add: same_matter_def)

text \<open>A decided proposal keeps its status, except that a passed one is executed.\<close>

definition follows :: "ms_status \<Rightarrow> ms_status \<Rightarrow> bool" where
  "follows x y \<longleftrightarrow> (x = Ms_executed \<longrightarrow> y = Ms_executed) \<and> (x = Ms_passed \<longrightarrow> y \<in> {Ms_passed, Ms_executed})"

lemma follows_refl [simp]: "follows x x"
  by (simp add: follows_def)

lemma follows_trans: "follows x y \<Longrightarrow> follows y z \<Longrightarrow> follows x z"
  by (auto simp: follows_def)

lemma ms_step_keeps:
  assumes laws: "cw3_laws L" and inv: "ms_inv L s" and run: "ms_execute P L s e info msg = Ok (t, out)"
    and p: "kv_get (ms_proposals s) i = Some p"
  shows "\<exists>q. kv_get (ms_proposals t) i = Some q \<and> same_matter p q \<and> follows (pr_status p) (pr_status q)"
proof (cases msg)
  case (Ms_propose ttl descr ms latest)
  with run have "ms_propose P L s e (sender info) ttl descr ms latest = Ok t" by (simp add: outcome_simps)
  moreover have "i \<noteq> counted_ids s + 1" using ms_inv_id [OF inv p] by simp
  ultimately show ?thesis using p by (elim ms_propose_cases) simp
next
  case (Ms_cast j v)
  with run have "ms_cast P L s e (sender info) j v = Ok t" by (simp add: outcome_simps)
  then show ?thesis
    using p lib_current_decided [OF laws]
    by (elim ms_cast_cases) (auto simp: lib_update_eq [OF laws] same_matter_def follows_def)
next
  case (Ms_execute j)
  with run have "ms_run_proposal L s e j = Ok (t, out)" by simp
  then show ?thesis
    using p by (elim ms_run_proposal_cases) (auto simp: lib_update_eq [OF laws] same_matter_def follows_def)
next
  case (Ms_close j)
  with run have "ms_close P L s e j = Ok t" by (simp add: outcome_simps)
  then show ?thesis using p by (elim ms_close_cases) (auto simp: same_matter_def follows_def)
qed

lemma ms_run_keeps:
  assumes "ms_run P L s t" "cw3_laws L" "ms_inv L s" "kv_get (ms_proposals s) i = Some p"
  shows "\<exists>q. kv_get (ms_proposals t) i = Some q \<and> same_matter p q \<and> follows (pr_status p) (pr_status q)"
  using assms
proof (induction rule: ms_run.induct)
  case (message s t e info msg u out)
  then obtain q where q: "kv_get (ms_proposals t) i = Some q" "same_matter p q" "follows (pr_status p) (pr_status q)"
    by blast
  have "ms_inv L t" using ms_run_inv [OF message.hyps(1)] message.prems by blast
  from ms_step_keeps [OF message.prems(1) this message.hyps(2) q(1)] show ?case
    using q(2,3) by (blast intro: same_matter_trans follows_trans)
qed auto

lemma ms_reachable_run: "ms_reachable P L s \<Longrightarrow> ms_run P L s t \<Longrightarrow> ms_reachable P L t"
proof -
  have "ms_run P L b c \<Longrightarrow> ms_run P L a b \<Longrightarrow> ms_run P L a c" for a b c
    by (induction rule: ms_run.induct) (auto intro: ms_run.message)
  then show "ms_reachable P L s \<Longrightarrow> ms_run P L s t \<Longrightarrow> ms_reachable P L t"
    unfolding ms_reachable_def by blast
qed

section \<open>A small run\<close>

definition demo_cw3 :: "(ms_vote \<Rightarrow> nat, nat) cw3_lib" where
  "demo_cw3 = \<lparr> lib_validate = (\<lambda>th tot. if th = 0 then Err ''zero'' else if tot < th then Err ''unreachable'' else Ok ()),
     lib_yes = (\<lambda>w x. if x = Ms_yes then w else 0), lib_add = (\<lambda>v x w. Ok (v(x := v x + w))),
     lib_count = (\<lambda>v x. v x),
     lib_current = (\<lambda>b p. if pr_status p = Ms_open then
         (if pr_threshold p \<le> pr_votes p Ms_yes then Ms_passed
          else if is_expired demo_platform (pr_expires p) b then Ms_rejected else Ms_open) else pr_status p),
     lib_update = (\<lambda>b p. p\<lparr> pr_status := (if pr_status p = Ms_open then
         (if pr_threshold p \<le> pr_votes p Ms_yes then Ms_passed
          else if is_expired demo_platform (pr_expires p) b then Ms_rejected else Ms_open) else pr_status p) \<rparr>),
     lib_compare = (\<lambda>x y. case (x, y) of
         (At_height a, At_height b) \<Rightarrow> Some (if a < b then Exp_less else if a = b then Exp_equal else Exp_greater)
       | _ \<Rightarrow> None) \<rparr>"

lemma demo_cw3_laws: "cw3_laws demo_cw3"
  by (auto simp: cw3_laws_def demo_cw3_def)

definition ms_env :: "nat \<Rightarrow> env" where
  "ms_env h = \<lparr> block = \<lparr> block_height = h, block_time = 0 \<rparr>, contract_address = ''multisig'' \<rparr>"

definition ms_demo_msg :: "nat ms_instantiate_msg" where
  "ms_demo_msg = \<lparr> mi_voters = [\<lparr> vo_addr = ''ann'', vo_weight = 2 \<rparr>, \<lparr> vo_addr = ''bob'', vo_weight = 1 \<rparr>],
     mi_threshold = 3, mi_max_voting_period = Height 10 \<rparr>"

definition ms_fresh :: "(ms_vote \<Rightarrow> nat, nat) ms_state" where
  "ms_fresh = \<lparr> ms_version = (ms_contract_name, ms_contract_version),
     ms_conf = \<lparr> cfg_threshold = 3, cfg_total_weight = 3, cfg_max_voting_period = Height 10 \<rparr>,
     ms_count = None, ms_ballots = [], ms_proposals = [], ms_voters = [(''ann'', 2), (''bob'', 1)] \<rparr>"

definition ms_demo_proposal :: "ms_status \<Rightarrow> (ms_vote \<Rightarrow> nat) \<Rightarrow> (ms_vote \<Rightarrow> nat, nat) ms_proposal" where
  "ms_demo_proposal st v = \<lparr> pr_title = ''t'', pr_description = ''d'', pr_start_height = 5, pr_expires = At_height 15,
     pr_msgs = [''pay''], pr_status = st, pr_votes = v, pr_threshold = 3, pr_total_weight = 3, pr_proposer = ''ann'' \<rparr>"

definition ms_opened :: "(ms_vote \<Rightarrow> nat, nat) ms_state" where
  "ms_opened = ms_fresh\<lparr> ms_count := Some 1,
     ms_proposals := [(1, ms_demo_proposal Ms_open (\<lambda>x. if x = Ms_yes then 2 else 0))],
     ms_ballots := [((1, ''ann''), \<lparr> bal_weight = 2, bal_vote = Ms_yes \<rparr>)] \<rparr>"

definition ms_voted :: "(ms_vote \<Rightarrow> nat, nat) ms_state" where
  "ms_voted = ms_opened\<lparr>
     ms_proposals := [(1, ms_demo_proposal Ms_passed ((\<lambda>x. if x = Ms_yes then 2 else 0)(Ms_yes := 3)))],
     ms_ballots := [((1, ''ann''), \<lparr> bal_weight = 2, bal_vote = Ms_yes \<rparr>), ((1, ''bob''), \<lparr> bal_weight = 1, bal_vote = Ms_yes \<rparr>)] \<rparr>"

definition ms_paid :: "(ms_vote \<Rightarrow> nat, nat) ms_state" where
  "ms_paid = ms_voted\<lparr>
     ms_proposals := [(1, ms_demo_proposal Ms_executed ((\<lambda>x. if x = Ms_yes then 2 else 0)(Ms_yes := 3)))] \<rparr>"

lemmas ms_demo_defs = ms_paid_def ms_voted_def ms_opened_def ms_fresh_def ms_demo_proposal_def ms_env_def
  demo_cw3_def demo_platform_def

lemma ms_demo_start: "ms_instantiate demo_platform demo_cw3 ms_demo_msg = Ok ms_fresh"
  by (simp add: ms_instantiate_def ms_demo_msg_def sum_voters_def save_voters_def ms_demo_defs checked_int_defs)

lemma ms_demo_open:
  "ms_execute demo_platform demo_cw3 ms_fresh (ms_env 5) \<lparr> sender = ''ann'' \<rparr> (Ms_propose ''t'' ''d'' [''pay''] None) = Ok (ms_opened, [])"
  by (simp add: ms_silent_def ms_propose_def choose_expiration_def next_id_def ms_demo_defs checked_int_defs Let_def)

lemma ms_demo_vote:
  "ms_execute demo_platform demo_cw3 ms_opened (ms_env 6) \<lparr> sender = ''bob'' \<rparr> (Ms_cast 1 Ms_yes) = Ok (ms_voted, [])"
  by (simp add: ms_silent_def ms_cast_def load_ms_proposal_def ms_demo_defs Let_def) (simp add: numeral_3_eq_3)

lemma ms_demo_pay:
  "ms_execute demo_platform demo_cw3 ms_voted (ms_env 20) \<lparr> sender = ''eve'' \<rparr> (Ms_execute 1) = Ok (ms_paid, [''pay''])"
  by (simp add: ms_run_proposal_def load_ms_proposal_def ms_demo_defs Let_def)

lemma ms_demo_run: "ms_run demo_platform demo_cw3 ms_fresh ms_voted"
  by (rule ms_run.message [OF ms_run.message [OF ms_run.nothing ms_demo_open] ms_demo_vote])

lemma ms_opened_reachable: "ms_reachable demo_platform demo_cw3 ms_opened"
  unfolding ms_reachable_def using ms_demo_start ms_run.message [OF ms_run.nothing ms_demo_open] by blast

lemma ms_voted_reachable: "ms_reachable demo_platform demo_cw3 ms_voted"
  unfolding ms_reachable_def using ms_demo_start ms_demo_run by blast


section \<open>Properties\<close>

lemma kv_sum_le_total:
  assumes "kv_ok m" "kv_ok n" "\<And>k v. kv_get m k = Some v \<Longrightarrow> f v \<le> kv_nat n k"
  shows "kv_sum (\<lambda>_. f) m \<le> kv_total n"
  using assms
proof (induction m arbitrary: n)
  case (Cons e m)
  obtain k v where e: "e = (k, v)" by (cases e)
  have ok: "kv_ok m" and fresh: "k \<notin> fst ` set m" using Cons.prems(1) by (auto simp: e kv_ok_Cons)
  have "kv_sum (\<lambda>_. f) m \<le> kv_total (kv_del n k)"
  proof (rule Cons.IH [OF ok])
    show "kv_ok (kv_del n k)" using Cons.prems(2) by simp
    fix k' v' assume get: "kv_get m k' = Some v'"
    then have "k' \<noteq> k" using fresh by (metis kv_get_None_iff option.distinct(1))
    with get Cons.prems(3) [of k' v'] show "f v' \<le> kv_nat (kv_del n k) k'" by (simp add: e)
  qed
  moreover have "f v \<le> kv_nat n k" using Cons.prems(3) [of k v] by (simp add: e)
  ultimately show ?case using kv_total_del [OF Cons.prems(2), of k] by (simp add: e)
qed simp

lemma kv_sum_prefix:
  "kv_sum (\<lambda>k b. if fst k = i \<and> g b then f b else 0) m = kv_sum (\<lambda>_ b. if g b then f b else 0) (kv_prefix m i)"
  by (induction m) (auto simp: kv_prefix_def)

lemma weights_within_total:
  assumes "ms_inv L s"
  shows "weight_of s i Ms_yes + weight_of s i Ms_no + weight_of s i Ms_abstain + weight_of s i Ms_veto
    \<le> kv_total (ms_voters s)"
proof -
  let ?m = "kv_prefix (ms_ballots s) i"
  have "weight_of s i Ms_yes + weight_of s i Ms_no + weight_of s i Ms_abstain + weight_of s i Ms_veto
    = kv_sum (\<lambda>_. bal_weight) ?m"
  proof -
    have "kv_sum (\<lambda>_ b. if bal_vote b = Ms_yes then bal_weight b else 0) m + kv_sum (\<lambda>_ b. if bal_vote b = Ms_no then bal_weight b else 0) m
      + kv_sum (\<lambda>_ b. if bal_vote b = Ms_abstain then bal_weight b else 0) m + kv_sum (\<lambda>_ b. if bal_vote b = Ms_veto then bal_weight b else 0) m
      = kv_sum (\<lambda>_. bal_weight) m" for m :: "(addr, ms_ballot) kv"
    proof (induction m)
      case (Cons e m)
      then show ?case by (cases "bal_vote (snd e)") simp_all
    qed simp
    then show ?thesis by (simp add: weight_of_def kv_sum_prefix)
  qed
  also have "\<dots> \<le> kv_total (ms_voters s)"
  proof (rule kv_sum_le_total)
    show "kv_ok ?m" using assms by (simp add: ms_inv_def kv_prefix_ok)
    show "kv_ok (ms_voters s)" using assms by (simp add: ms_inv_def)
    fix k v assume "kv_get ?m k = Some v"
    then have "kv_get (ms_voters s) k = Some (bal_weight v)"
      using ms_inv_ballot [OF assms, of "(i, k)" v] by (simp add: kv_prefix_get)
    then show "bal_weight v \<le> kv_nat (ms_voters s) k" by (simp add: kv_nat_Some)
  qed
  finally show ?thesis .
qed

text \<open>C18: In every reachable state each count of a proposal of the multisig is the weight of the ballots of
  that kind, every ballot has the weight its voter was given at instantiation, and all counts together
  stay within the weight of the voters and the total weight against which thresholds are computed.\<close>

theorem multisig_counts_each_voter_once:
  assumes "cw3_laws L" "ms_reachable P L s" "kv_get (ms_proposals s) i = Some p"
  shows "(\<forall>x. lib_count L (pr_votes p) x = weight_of s i x) \<and>
    (\<forall>a b. kv_get (ms_ballots s) (i, a) = Some b \<longrightarrow> kv_get (ms_voters s) a = Some (bal_weight b)) \<and>
    lib_count L (pr_votes p) Ms_yes + lib_count L (pr_votes p) Ms_no + lib_count L (pr_votes p) Ms_abstain
      + lib_count L (pr_votes p) Ms_veto \<le> kv_total (ms_voters s) \<and>
    kv_total (ms_voters s) \<le> cfg_total_weight (ms_conf s)"
proof -
  have inv: "ms_inv L s" using ms_reachable_inv [OF assms(2,1)] .
  have counts: "lib_count L (pr_votes p) x = weight_of s i x" for x
    using ms_inv_proposal [OF inv assms(3)] by blast
  have voter: "kv_get (ms_voters s) a = Some (bal_weight b)" if "kv_get (ms_ballots s) (i, a) = Some b" for a b
    using ms_inv_ballot [OF inv that] by simp
  have "kv_total (ms_voters s) \<le> cfg_total_weight (ms_conf s)" using inv by (simp add: ms_inv_def)
  then show ?thesis using weights_within_total [OF inv, of i] counts voter by simp
qed

theorem multisig_counts_each_voter_once_witness:
  "weight_of ms_voted 1 Ms_yes = 3 \<and> (3 :: nat) \<le> kv_total (ms_voters ms_voted)"
proof -
  have "kv_get (ms_proposals ms_voted) 1
    = Some (ms_demo_proposal Ms_passed ((\<lambda>x. if x = Ms_yes then 2 else 0)(Ms_yes := 3)))"
    by (simp add: ms_voted_def)
  note facts = multisig_counts_each_voter_once [OF demo_cw3_laws ms_voted_reachable this]
  have "weight_of ms_voted 1 Ms_yes = 3"
    using spec [OF conjunct1 [OF facts], of Ms_yes] by (simp add: ms_demo_proposal_def demo_cw3_def)
  moreover have "3 \<le> kv_total (ms_voters ms_voted)"
    using conjunct1 [OF conjunct2 [OF conjunct2 [OF facts]]] by (simp add: ms_demo_proposal_def demo_cw3_def)
  ultimately show ?thesis by simp
qed

text \<open>C17: An execution of the multisig sends exactly the messages the proposal had at any earlier moment of
  the run, and after it, whatever messages follow, the proposal is never executed again.\<close>

theorem multisig_executes_once_as_proposed:
  assumes "cw3_laws L" "ms_reachable P L s" "kv_get (ms_proposals s) i = Some p" "ms_run P L s t"
    and "ms_execute P L t e info (Ms_execute i) = Ok (u, out)" "ms_run P L u v"
  shows "out = pr_msgs p \<and> \<not> (\<exists>e' info' x. ms_execute P L v e' info' (Ms_execute i) = Ok x)"
proof -
  have inv: "ms_inv L s" using ms_reachable_inv [OF assms(2,1)] .
  obtain q where q: "kv_get (ms_proposals t) i = Some q" "same_matter p q"
    using ms_run_keeps [OF assms(4,1) inv assms(3)] by blast
  have inv_u: "ms_inv L u"
    using ms_inv_step [OF assms(1) ms_run_inv [OF assms(4,1) inv] assms(5)] .
  from assms(5) have "ms_run_proposal L t e i = Ok (u, out)" by simp
  then obtain r where r: "out = pr_msgs p" "kv_get (ms_proposals u) i = Some r" "pr_status r = Ms_executed"
    using q by (elim ms_run_proposal_cases) (auto simp: lib_update_eq [OF assms(1)] same_matter_def)
  obtain w where w: "kv_get (ms_proposals v) i = Some w" "pr_status w = Ms_executed"
    using ms_run_keeps [OF assms(6,1) inv_u r(2)] r(3) by (auto simp: follows_def)
  have "ms_execute P L v e' info' (Ms_execute i) \<noteq> Ok x" for e' info' x
  proof
    assume "ms_execute P L v e' info' (Ms_execute i) = Ok x"
    then have "ms_run_proposal L v e' i = Ok (fst x, snd x)" by simp
    then show False
      using w lib_current_decided [OF assms(1), of w]
      by (elim ms_run_proposal_cases) (simp add: lib_update_eq [OF assms(1)])
  qed
  with r(1) show ?thesis by blast
qed

theorem multisig_executes_once_as_proposed_witness:
  "\<not> (\<exists>e info x. ms_execute demo_platform demo_cw3 ms_paid e info (Ms_execute 1) = Ok x)"
proof -
  have p: "kv_get (ms_proposals ms_opened) 1 = Some (ms_demo_proposal Ms_open (\<lambda>x. if x = Ms_yes then 2 else 0))"
    by (simp add: ms_opened_def)
  from multisig_executes_once_as_proposed [OF demo_cw3_laws ms_opened_reachable p
      ms_run.message [OF ms_run.nothing ms_demo_vote] ms_demo_pay ms_run.nothing]
  show ?thesis by blast
qed

text \<open>C19: Once a proposal of the multisig has passed it waits for its execution: whatever messages follow,
  it has either been executed, or anybody can execute it at any time, also after it has expired, and
  the execution sends the messages that passed.\<close>

theorem passed_proposals_stay_executable:
  assumes "cw3_laws L" "ms_reachable P L s" "kv_get (ms_proposals s) i = Some p" "pr_status p = Ms_passed"
    and "ms_run P L s t"
  shows "\<exists>q. kv_get (ms_proposals t) i = Some q \<and>
    (pr_status q = Ms_executed \<or> (\<forall>e info. \<exists>u. ms_execute P L t e info (Ms_execute i) = Ok (u, pr_msgs p)))"
proof -
  obtain q where q: "kv_get (ms_proposals t) i = Some q" "same_matter p q" "follows Ms_passed (pr_status q)"
    using ms_run_keeps [OF assms(5,1) ms_reachable_inv [OF assms(2,1)] assms(3)] assms(4) by auto
  have "\<exists>u. ms_execute P L t e info (Ms_execute i) = Ok (u, pr_msgs p)" if "pr_status q = Ms_passed" for e info
    using q(1,2) that lib_current_decided [OF assms(1), of q]
    by (simp add: ms_run_proposal_def load_ms_proposal_def lib_update_eq [OF assms(1)] same_matter_def)
  then show ?thesis using q by (auto simp: follows_def)
qed

theorem passed_proposals_stay_executable_witness:
  "\<exists>u. ms_execute demo_platform demo_cw3 ms_voted (ms_env 999) \<lparr> sender = ''eve'' \<rparr> (Ms_execute 1) = Ok (u, [''pay''])"
proof -
  have p: "kv_get (ms_proposals ms_voted) 1
    = Some (ms_demo_proposal Ms_passed ((\<lambda>x. if x = Ms_yes then 2 else 0)(Ms_yes := 3)))"
    by (simp add: ms_voted_def)
  have st: "pr_status (ms_demo_proposal Ms_passed ((\<lambda>x. if x = Ms_yes then 2 else 0)(Ms_yes := 3))) = Ms_passed"
    by (simp add: ms_demo_proposal_def)
  from passed_proposals_stay_executable [OF demo_cw3_laws ms_voted_reachable p st ms_run.nothing]
  have "\<forall>e info. \<exists>u. ms_execute demo_platform demo_cw3 ms_voted e info (Ms_execute 1) = Ok (u, [''pay''])"
    using p by (auto simp: ms_demo_proposal_def)
  then show ?thesis by blast
qed

text \<open>The total weight fixed at instantiation is the weight the voters can cast when no address is given
  twice; it is never less, and an address given twice counts twice in the total although its voter can
  only cast the last of its weights.\<close>

theorem total_weight_is_castable:
  assumes "platform_exact P" "ms_instantiate P L msg = Ok s"
  shows "kv_total (ms_voters s) \<le> cfg_total_weight (ms_conf s) \<and>
    (distinct (map vo_addr (mi_voters msg)) \<longrightarrow> kv_total (ms_voters s) = cfg_total_weight (ms_conf s)) \<and>
    cfg_total_weight (ms_conf s) = sum_list (map vo_weight (mi_voters msg))"
proof -
  from assms(2) obtain n m where sum: "sum_voters (mi_voters msg) = (Ok n :: (ms_error, nat) outcome)"
    and save: "save_voters P (mi_voters msg) = Ok m"
    and s: "ms_voters s = m" "cfg_total_weight (ms_conf s) = n"
    by (auto simp: ms_instantiate_def outcome_simps)
  from save_voters_fold [OF save [unfolded save_voters_def]] assms(1) show ?thesis
    using sum_voters_Ok [OF sum] by (simp add: s kv_total_def)
qed

definition ms_twice_msg :: "nat ms_instantiate_msg" where
  "ms_twice_msg = \<lparr> mi_voters = [\<lparr> vo_addr = ''ann'', vo_weight = 2 \<rparr>, \<lparr> vo_addr = ''ann'', vo_weight = 1 \<rparr>],
     mi_threshold = 3, mi_max_voting_period = Height 10 \<rparr>"

text \<open>With one voter given twice a threshold of 3 is accepted, but only a weight of 1 can be cast.\<close>

theorem total_weight_is_castable_witness:
  "(\<exists>s. ms_instantiate demo_platform demo_cw3 ms_demo_msg = Ok s \<and> kv_total (ms_voters s) = cfg_total_weight (ms_conf s)) \<and>
   (\<exists>s. ms_instantiate demo_platform demo_cw3 ms_twice_msg = Ok s \<and> kv_total (ms_voters s) = 1 \<and> cfg_total_weight (ms_conf s) = 3)"
proof
  have "distinct (map vo_addr (mi_voters ms_demo_msg))" by (simp add: ms_demo_msg_def)
  then show "\<exists>s. ms_instantiate demo_platform demo_cw3 ms_demo_msg = Ok s \<and> kv_total (ms_voters s) = cfg_total_weight (ms_conf s)"
    using total_weight_is_castable [OF demo_platform_exact ms_demo_start] ms_demo_start by blast
  show "\<exists>s. ms_instantiate demo_platform demo_cw3 ms_twice_msg = Ok s \<and> kv_total (ms_voters s) = 1 \<and> cfg_total_weight (ms_conf s) = 3"
    by (simp add: ms_instantiate_def ms_twice_msg_def sum_voters_def save_voters_def ms_demo_defs checked_int_defs kv_total_def)
qed

end
