(* ===== verification/Vault.thy ===== *)
theory Vault
  imports Controllers Decimals
begin

text \<open>
  The liquid staking vaults \<open>contracts/bwynd-vault\<close> and \<open>contracts/bloop-vault\<close>.  The two contracts
  have the same code up to the query for the rewards that wait in the staking protocol, so the
  handlers take that query as the argument \<open>Q\<close> and each vault is an instance.  A vault holds staked
  bTokens and pays rewards in the same token: \<open>power\<close> accumulates the rewards per staked token, and
  an account remembers the power up to which it has been paid.  When rewards wait in the protocol, a
  handler only records what was asked (\<open>REWARD_ACTION\<close>) and asks the converter to withdraw them; the
  converter's transfer with \<open>DistributeRewards\<close> then completes the action.
  The crate \<open>cw-controllers\<close> is the package \<open>packages/controllers\<close> (theory \<open>Controllers\<close>).
  The field \<open>syne_power\<close> of the bloop vault is never read or written and left out.
\<close>

section \<open>Data\<close>

text \<open>The errors the handlers raise.\<close>

datatype vault_error =
    Vault_std std_error
  | Vault_admin admin_error
  | Vault_unauthorized
  | Vault_invalid_asset
  | Vault_invalid_amount
  | Vault_no_withdrawable
  | Vault_invalid_action
  | Vault_invalid_fee
  | Vault_invalid_distributor
  | Vault_no_data

text \<open>The duration is a field of the bloop vault only.\<close>

record vault_config =
  vc_admin :: addr
  vc_token :: addr
  vc_converter :: addr
  vc_min_bond :: nat
  vc_staking_module :: addr
  vc_treasury_wallet :: "addr option"
  vc_treasury_withdrawer :: "addr option"
  vc_distributor :: "addr option"
  vc_treasury_fee :: decimal
  vc_syne_fee :: decimal
  vc_total_fee_cap :: decimal
  vc_treasury_fee_limit :: decimal
  vc_duration :: "nat option"

record vault_totals =
  vt_staked :: nat
  vt_treasury :: nat
  vt_syne :: nat
  vt_power :: decimal

record vault_stake =
  vs_stake :: nat
  vs_power_diff :: decimal

datatype reward_action =
    No_action
  | Act_reward addr
  | Act_stake addr nat
  | Act_treasury "nat option"
  | Act_syne "nat option"
  | Act_unstake addr nat

record vault_state =
  va_version :: "(string \<times> string) option"
  va_admin :: admin_item
  va_conf :: vault_config
  va_totals :: vault_totals
  va_stakes :: "(addr, vault_stake) kv"
  va_action :: "reward_action option"

text \<open>What a vault sends: the request to the converter, and transfers of the token.\<close>

datatype vault_out =
    Ask_rewards addr
  | Token_pay addr addr nat

definition zero_stake :: vault_stake where "zero_stake = \<lparr> vs_stake = 0, vs_power_diff = 0 \<rparr>"

definition stake_of :: "vault_state \<Rightarrow> addr \<Rightarrow> vault_stake" where
  "stake_of s a = (case kv_get (va_stakes s) a of Some st \<Rightarrow> st | None \<Rightarrow> zero_stake)"

definition action_of :: "vault_state \<Rightarrow> reward_action" where
  "action_of s = (case va_action s of Some a \<Rightarrow> a | None \<Rightarrow> No_action)"

section \<open>Instantiation and configuration\<close>

record vault_instantiate_msg =
  vim_admin :: string
  vim_token :: string
  vim_staking_module :: string
  vim_min_bond :: nat

text \<open>The names of the two crates and the duration of the bloop vault are arguments.\<close>

definition vault_contract_version :: string where "vault_contract_version = ''1.0.1''"

definition vault_instantiate ::
  "platform \<Rightarrow> string \<Rightarrow> nat option \<Rightarrow> message_info \<Rightarrow> vault_instantiate_msg \<Rightarrow> (vault_error, vault_state) outcome"
where
  "vault_instantiate P name period info msg =
     and_then (map_err Vault_std (addr_validate P (vim_admin msg))) (\<lambda>adm.
     and_then (map_err Vault_std (addr_validate P (vim_admin msg))) (\<lambda>adm'.
     and_then (map_err Vault_std (addr_validate P (vim_token msg))) (\<lambda>tok.
     and_then (map_err Vault_std (addr_validate P (vim_staking_module msg))) (\<lambda>mod_addr.
     Ok \<lparr> va_version = Some (name, vault_contract_version), va_admin = admin_set None (Some adm),
          va_conf = \<lparr> vc_admin = adm', vc_token = tok, vc_converter = sender info,
            vc_min_bond = max (vim_min_bond msg) 1, vc_staking_module = mod_addr,
            vc_treasury_wallet = None, vc_treasury_withdrawer = None, vc_distributor = None,
            vc_treasury_fee = 2 * (decimal_one div 10), vc_syne_fee = 0,
            vc_total_fee_cap = 3 * (decimal_one div 10), vc_treasury_fee_limit = 5 * (decimal_one div 100),
            vc_duration = period \<rparr>,
          va_totals = \<lparr> vt_staked = 0, vt_treasury = 0, vt_syne = 0, vt_power = 0 \<rparr>,
          va_stakes = [], va_action = None \<rparr>))))"

record vault_update =
  vu_min_bond :: "nat option"
  vu_treasury_wallet :: "string option"
  vu_treasury_withdrawer :: "string option"
  vu_distributor :: "string option"
  vu_treasury_fee :: "decimal option"
  vu_syne_fee :: "decimal option"

text \<open>The new configuration is computed and checked, but never saved.\<close>

definition new_vault_config :: "platform \<Rightarrow> vault_config \<Rightarrow> vault_update \<Rightarrow> (vault_error, vault_config) outcome" where
  "new_vault_config P c u =
     (let c1 = (case vu_min_bond u of Some n \<Rightarrow> c\<lparr> vc_min_bond := n \<rparr> | None \<Rightarrow> c) in
      and_then (map_err Vault_std (traverse_opt (addr_validate P) (vu_treasury_wallet u))) (\<lambda>w.
      and_then (map_err Vault_std (traverse_opt (addr_validate P) (vu_treasury_withdrawer u))) (\<lambda>wd.
      and_then (map_err Vault_std (traverse_opt (addr_validate P) (vu_distributor u))) (\<lambda>d.
      let c2 = c1\<lparr> vc_treasury_wallet := (case w of Some a \<Rightarrow> Some a | None \<Rightarrow> vc_treasury_wallet c1),
                  vc_treasury_withdrawer := (case wd of Some a \<Rightarrow> Some a | None \<Rightarrow> vc_treasury_withdrawer c1),
                  vc_distributor := (case d of Some a \<Rightarrow> Some a | None \<Rightarrow> vc_distributor c1) \<rparr> in
      and_then (case vu_treasury_fee u of
           Some f \<Rightarrow> if f > vc_treasury_fee_limit c2 then Ok (c2\<lparr> vc_treasury_fee := f \<rparr>) else Err Vault_invalid_fee
         | None \<Rightarrow> Ok c2) (\<lambda>c3.
      Ok (case vu_syne_fee u of Some f \<Rightarrow> c3\<lparr> vc_syne_fee := f \<rparr> | None \<Rightarrow> c3))))))"

definition vault_update_given :: "vault_update \<Rightarrow> bool" where
  "vault_update_given u \<longleftrightarrow> vu_min_bond u \<noteq> None \<or> vu_treasury_wallet u \<noteq> None \<or> vu_treasury_withdrawer u \<noteq> None \<or>
     vu_distributor u \<noteq> None \<or> vu_treasury_fee u \<noteq> None \<or> vu_syne_fee u \<noteq> None"

definition vault_update_config ::
  "platform \<Rightarrow> vault_state \<Rightarrow> message_info \<Rightarrow> vault_update \<Rightarrow> (vault_error, vault_state) outcome"
where
  "vault_update_config P s info u =
     (if sender info \<noteq> vc_admin (va_conf s) then Err Vault_unauthorized
      else
      and_then (new_vault_config P (va_conf s) u) (\<lambda>c.
      and_then (or_panic (dec_add (vc_treasury_fee c) (vc_syne_fee c))) (\<lambda>fees.
      if \<not> fees \<le> vc_total_fee_cap c then Err Vault_invalid_fee
      else if \<not> vault_update_given u then Err Vault_no_data
      else Ok s)))"

section \<open>Rewards and stakes\<close>

text \<open>\<open>update_total_rewards\<close>: the fees are set aside, the rest raises the power of the stakers.\<close>

definition update_total_rewards :: "vault_state \<Rightarrow> nat \<Rightarrow> (vault_error, vault_state) outcome" where
  "update_total_rewards s reward =
     (let t = va_totals s; c = va_conf s in
      and_then (dec_of reward) (\<lambda>r.
      and_then (or_panic (dec_mul r (vc_treasury_fee c))) (\<lambda>tf.
      and_then (dec_of reward) (\<lambda>r'.
      and_then (or_panic (dec_mul r' (vc_syne_fee c))) (\<lambda>sf.
      and_then (u128_add (vt_treasury t) (dec_floor tf)) (\<lambda>tr.
      and_then (u128_add (vt_syne t) (dec_floor sf)) (\<lambda>sy.
      and_then
        (if vt_staked t > 0 then
           and_then (u128_sub reward (dec_floor tf)) (\<lambda>n.
           and_then (u128_sub n (dec_floor sf)) (\<lambda>m.
           and_then (dec_of m) (\<lambda>share.
           and_then (dec_of (vt_staked t)) (\<lambda>n_staked.
           and_then (or_panic (dec_div share n_staked)) (\<lambda>q.
           or_panic (dec_add (vt_power t) q))))))
         else Ok (vt_power t)) (\<lambda>p.
      Ok (s\<lparr> va_totals := t\<lparr> vt_treasury := tr, vt_syne := sy, vt_power := p \<rparr> \<rparr>)))))))))"

text \<open>The rewards of an account since it was last paid, as in the three closures of \<open>STAKE.update\<close>.\<close>

definition pending_of :: "vault_totals \<Rightarrow> vault_stake \<Rightarrow> ('e, nat) outcome" where
  "pending_of t st =
     and_then (dec_of (vs_stake st)) (\<lambda>n.
     Ok (dec_floor (case dec_mul (vt_power t - vs_power_diff st) n of Some d \<Rightarrow> d | None \<Rightarrow> 0)))"

definition update_rewards :: "vault_state \<Rightarrow> addr \<Rightarrow> (vault_error, nat \<times> vault_state) outcome" where
  "update_rewards s a =
     (let t = va_totals s; st = stake_of s a in
      and_then (pending_of t st) (\<lambda>n.
      Ok (n, s\<lparr> va_stakes := kv_set (va_stakes s) a (st\<lparr> vs_power_diff := vt_power t \<rparr>) \<rparr>)))"

text \<open>\<open>checked_add(..).unwrap_or_default()\<close> and \<open>checked_sub(..).unwrap_or_default()\<close>.\<close>

definition add_or_zero :: "nat \<Rightarrow> nat \<Rightarrow> nat" where
  "add_or_zero a b = (if a + b < u128_lim then a + b else 0)"

definition add_stake :: "vault_state \<Rightarrow> addr \<Rightarrow> nat \<Rightarrow> (vault_error, nat \<times> vault_state) outcome" where
  "add_stake s a amount =
     (let t = va_totals s; st = stake_of s a in
      and_then (pending_of t st) (\<lambda>n.
      Ok (n, s\<lparr> va_stakes := kv_set (va_stakes s) a
                  (st\<lparr> vs_stake := add_or_zero (vs_stake st) amount, vs_power_diff := vt_power t \<rparr>),
                va_totals := t\<lparr> vt_staked := add_or_zero (vt_staked t) amount \<rparr> \<rparr>)))"

definition remove_stake :: "vault_state \<Rightarrow> addr \<Rightarrow> nat \<Rightarrow> (vault_error, nat \<times> vault_state) outcome" where
  "remove_stake s a amount =
     (let t = va_totals s; st = stake_of s a in
      and_then (pending_of t st) (\<lambda>n.
      Ok (n, s\<lparr> va_stakes := kv_set (va_stakes s) a
                  (st\<lparr> vs_stake := vs_stake st - amount, vs_power_diff := vt_power t \<rparr>),
                va_totals := t\<lparr> vt_staked := vt_staked t - amount \<rparr> \<rparr>)))"

definition update_treasury_amounts ::
  "vault_state \<Rightarrow> addr \<Rightarrow> nat option \<Rightarrow> (vault_error, nat \<times> vault_state) outcome"
where
  "update_treasury_amounts s who amount =
     (let t = va_totals s; n = (case amount of Some x \<Rightarrow> x | None \<Rightarrow> vt_treasury t) in
      if who \<noteq> vc_converter (va_conf s) then Err Vault_unauthorized
      else if \<not> n \<le> vt_treasury t then Err Vault_invalid_amount
      else and_then (u128_sub (vt_treasury t) n) (\<lambda>m. Ok (n, s\<lparr> va_totals := t\<lparr> vt_treasury := m \<rparr> \<rparr>)))"

definition update_syne_staking_amounts ::
  "vault_state \<Rightarrow> addr \<Rightarrow> nat option \<Rightarrow> (vault_error, nat \<times> vault_state) outcome"
where
  "update_syne_staking_amounts s who amount =
     (let t = va_totals s; n = (case amount of Some x \<Rightarrow> x | None \<Rightarrow> vt_syne t) in
      if who \<noteq> vc_converter (va_conf s) then Err Vault_unauthorized
      else if \<not> n \<le> vt_syne t then Err Vault_invalid_amount
      else and_then (u128_sub (vt_syne t) n) (\<lambda>m. Ok (n, s\<lparr> va_totals := t\<lparr> vt_syne := m \<rparr> \<rparr>)))"

section \<open>Handlers\<close>

text \<open>The branch all handlers take when rewards wait: record the action, ask the converter.\<close>

definition defer_action ::
  "vault_state \<Rightarrow> (vault_error, reward_action) outcome \<Rightarrow> (vault_error, vault_state \<times> vault_out list) outcome"
where
  "defer_action s act =
     (case action_of s of
        No_action \<Rightarrow> and_then act (\<lambda>a. Ok (s\<lparr> va_action := Some a \<rparr>, [Ask_rewards (vc_converter (va_conf s))]))
      | _ \<Rightarrow> Err Vault_invalid_action)"

text \<open>A transfer that is sent only when it is positive.\<close>

definition pay_positive :: "vault_state \<Rightarrow> addr \<Rightarrow> nat \<Rightarrow> vault_out list" where
  "pay_positive s a n = (if n > 0 then [Token_pay (vc_token (va_conf s)) a n] else [])"

definition vault_execute_stake ::
  "platform \<Rightarrow> (vault_config \<Rightarrow> (std_error, nat) outcome) \<Rightarrow> vault_state \<Rightarrow> string \<Rightarrow> nat
     \<Rightarrow> (vault_error, vault_state \<times> vault_out list) outcome"
where
  "vault_execute_stake P Q s who amount =
     and_then (map_err Vault_std (Q (va_conf s))) (\<lambda>waiting.
     if waiting > 0 then
       defer_action s (and_then (map_err Vault_std (addr_validate P who)) (\<lambda>a. Ok (Act_stake a amount)))
     else
       and_then (map_err Vault_std (addr_validate P who)) (\<lambda>a.
       and_then (add_stake s a amount) (\<lambda>(n, s').
       Ok (s', pay_positive s who n))))"

definition vault_withdraw_rewards ::
  "platform \<Rightarrow> (vault_config \<Rightarrow> (std_error, nat) outcome) \<Rightarrow> vault_state \<Rightarrow> string
     \<Rightarrow> (vault_error, vault_state \<times> vault_out list) outcome"
where
  "vault_withdraw_rewards P Q s who =
     and_then (map_err Vault_std (Q (va_conf s))) (\<lambda>waiting.
     if waiting > 0 then
       defer_action s (and_then (map_err Vault_std (addr_validate P who)) (\<lambda>a. Ok (Act_reward a)))
     else
       and_then (map_err Vault_std (addr_validate P who)) (\<lambda>a.
       and_then (update_rewards s a) (\<lambda>(n, s').
       Ok (s', [Token_pay (vc_token (va_conf s)) who n]))))"

definition vault_withdraw_treasury ::
  "(vault_config \<Rightarrow> (std_error, nat) outcome) \<Rightarrow> vault_state \<Rightarrow> message_info \<Rightarrow> nat option
     \<Rightarrow> (vault_error, vault_state \<times> vault_out list) outcome"
where
  "vault_withdraw_treasury Q s info amount =
     and_then (or_panic (vc_treasury_withdrawer (va_conf s))) (\<lambda>wd.
     if sender info \<noteq> wd then Err Vault_unauthorized
     else
     and_then (map_err Vault_std (Q (va_conf s))) (\<lambda>waiting.
     if waiting > 0 then defer_action s (Ok (Act_treasury amount))
     else
       and_then (update_treasury_amounts s (sender info) amount) (\<lambda>(n, s').
       if \<not> n > 0 then Err Vault_no_withdrawable
       else
       and_then (or_panic (vc_treasury_wallet (va_conf s))) (\<lambda>w.
       Ok (s', [Token_pay (vc_token (va_conf s)) w n])))))"

definition vault_withdraw_syne ::
  "(vault_config \<Rightarrow> (std_error, nat) outcome) \<Rightarrow> vault_state \<Rightarrow> message_info \<Rightarrow> nat option
     \<Rightarrow> (vault_error, vault_state \<times> vault_out list) outcome"
where
  "vault_withdraw_syne Q s info amount =
     and_then (map_err Vault_std (Q (va_conf s))) (\<lambda>waiting.
     if waiting > 0 then defer_action s (Ok (Act_syne amount))
     else
       and_then (update_syne_staking_amounts s (sender info) amount) (\<lambda>(n, s').
       if \<not> n > 0 then Err Vault_no_withdrawable
       else
       case vc_distributor (va_conf s) of
         Some d \<Rightarrow> Ok (s', [Token_pay (vc_token (va_conf s)) d n])
       | None \<Rightarrow> Err Vault_invalid_distributor))"

definition vault_distribute_user :: "vault_state \<Rightarrow> addr \<Rightarrow> (vault_error, vault_state \<times> vault_out list) outcome" where
  "vault_distribute_user s a = and_then (update_rewards s a) (\<lambda>(n, s'). Ok (s', pay_positive s a n))"

text \<open>Completing the recorded action once the rewards have arrived.\<close>

fun complete_action ::
  "vault_state \<Rightarrow> addr \<Rightarrow> reward_action \<Rightarrow> (vault_error, vault_state \<times> vault_out list) outcome"
where
  "complete_action s who No_action = Ok (s, [])"
| "complete_action s who (Act_reward a) =
     and_then (update_rewards s a) (\<lambda>(n, s'). Ok (s', pay_positive s a n))"
| "complete_action s who (Act_stake a amount) =
     and_then (add_stake s a amount) (\<lambda>(n, s'). Ok (s', pay_positive s a n))"
| "complete_action s who (Act_treasury amount) =
     and_then (update_treasury_amounts s who amount) (\<lambda>(n, s').
     and_then (or_panic (vc_treasury_wallet (va_conf s))) (\<lambda>w.
     Ok (s', [Token_pay (vc_token (va_conf s)) w n])))"
| "complete_action s who (Act_syne amount) =
     and_then (update_syne_staking_amounts s who amount) (\<lambda>(n, s').
     case vc_distributor (va_conf s) of
       Some d \<Rightarrow> Ok (s', [Token_pay (vc_token (va_conf s)) d n])
     | None \<Rightarrow> Err Vault_invalid_distributor)"
| "complete_action s who (Act_unstake a amount) =
     and_then (remove_stake s a amount) (\<lambda>(n, s').
     Ok (s', Token_pay (vc_token (va_conf s)) a amount # pay_positive s a n))"

definition vault_distribute ::
  "vault_state \<Rightarrow> message_info \<Rightarrow> addr option \<Rightarrow> nat \<Rightarrow> (vault_error, vault_state \<times> vault_out list) outcome"
where
  "vault_distribute s info address amount =
     (let act = (case address of Some a \<Rightarrow> Act_reward a | None \<Rightarrow> action_of s) in
      and_then (update_total_rewards s amount) (\<lambda>s1.
      and_then (complete_action s1 (sender info) act) (\<lambda>(s2, out).
      Ok (s2\<lparr> va_action := Some No_action \<rparr>, out))))"

definition vault_unstake ::
  "(vault_config \<Rightarrow> (std_error, nat) outcome) \<Rightarrow> vault_state \<Rightarrow> message_info \<Rightarrow> nat
     \<Rightarrow> (vault_error, vault_state \<times> vault_out list) outcome"
where
  "vault_unstake Q s info amount =
     (if \<not> amount > 0 then Err Vault_invalid_amount
      else if \<not> amount \<le> vs_stake (stake_of s (sender info)) then Err Vault_invalid_amount
      else
      and_then (map_err Vault_std (Q (va_conf s))) (\<lambda>waiting.
      if waiting > 0 then defer_action s (Ok (Act_unstake (sender info) amount))
      else
        and_then (remove_stake s (sender info) amount) (\<lambda>(n, s').
        Ok (s', Token_pay (vc_token (va_conf s)) (sender info) amount # pay_positive s (sender info) n))))"

text \<open>The message inside a transfer, \<open>None\<close> when it cannot be parsed.\<close>

datatype vault_hook = Hook_stake | Hook_distribute "addr option"

definition vault_receive ::
  "platform \<Rightarrow> (vault_config \<Rightarrow> (std_error, nat) outcome) \<Rightarrow> vault_state \<Rightarrow> message_info \<Rightarrow> string \<Rightarrow> nat
     \<Rightarrow> vault_hook option \<Rightarrow> (vault_error, vault_state \<times> vault_out list) outcome"
where
  "vault_receive P Q s info who amount hook =
     (if sender info \<noteq> vc_token (va_conf s) then Err Vault_invalid_asset
      else
      case hook of
        None \<Rightarrow> Err (Vault_std (Generic_err ''Error parsing''))
      | Some Hook_stake \<Rightarrow> vault_execute_stake P Q s who amount
      | Some (Hook_distribute address) \<Rightarrow> vault_distribute s info address amount)"

datatype vault_msg =
    Vm_update_admin "string option"
  | Vm_update_config vault_update
  | Vm_receive string nat "vault_hook option"
  | Vm_withdraw_rewards string
  | Vm_withdraw_treasury "nat option"
  | Vm_withdraw_syne "nat option"
  | Vm_unstake nat
  | Vm_distribute addr

definition vault_silent :: "('e, 's) outcome \<Rightarrow> ('e, 's \<times> vault_out list) outcome" where
  "vault_silent r = and_then r (\<lambda>s. Ok (s, []))"

fun vault_execute ::
  "platform \<Rightarrow> (vault_config \<Rightarrow> (std_error, nat) outcome) \<Rightarrow> vault_state \<Rightarrow> message_info \<Rightarrow> vault_msg
     \<Rightarrow> (vault_error, vault_state \<times> vault_out list) outcome"
where
  "vault_execute P Q s info (Vm_update_admin new_adm) =
     and_then (map_err Vault_std (traverse_opt (addr_validate P) new_adm)) (\<lambda>a.
     and_then (map_err Vault_admin (execute_update_admin (va_admin s) info a)) (\<lambda>item.
     Ok (s\<lparr> va_admin := item \<rparr>, [])))"
| "vault_execute P Q s info (Vm_update_config u) = vault_silent (vault_update_config P s info u)"
| "vault_execute P Q s info (Vm_receive who amount hook) = vault_receive P Q s info who amount hook"
| "vault_execute P Q s info (Vm_withdraw_rewards who) = vault_withdraw_rewards P Q s who"
| "vault_execute P Q s info (Vm_withdraw_treasury amount) = vault_withdraw_treasury Q s info amount"
| "vault_execute P Q s info (Vm_withdraw_syne amount) = vault_withdraw_syne Q s info amount"
| "vault_execute P Q s info (Vm_unstake amount) = vault_unstake Q s info amount"
| "vault_execute P Q s info (Vm_distribute a) = vault_distribute_user s a"

section \<open>Queries and migration\<close>

definition vault_query_admin :: "vault_state \<Rightarrow> addr" where
  "vault_query_admin s = vc_admin (va_conf s)"

record vault_config_response =
  vcr_token :: addr
  vcr_converter :: addr
  vcr_staking_module :: addr
  vcr_min_bond :: nat
  vcr_treasury_wallet :: "addr option"
  vcr_treasury_withdrawer :: "addr option"
  vcr_treasury_fee :: decimal
  vcr_distributor :: "addr option"
  vcr_syne_fee :: decimal
  vcr_duration :: "nat option"

definition vault_query_config :: "vault_state \<Rightarrow> vault_config_response" where
  "vault_query_config s = (let c = va_conf s in
     \<lparr> vcr_token = vc_token c, vcr_converter = vc_converter c, vcr_staking_module = vc_staking_module c,
       vcr_min_bond = vc_min_bond c, vcr_treasury_wallet = vc_treasury_wallet c,
       vcr_treasury_withdrawer = vc_treasury_withdrawer c, vcr_treasury_fee = vc_treasury_fee c,
       vcr_distributor = vc_distributor c, vcr_syne_fee = vc_syne_fee c, vcr_duration = vc_duration c \<rparr>)"

text \<open>Staked tokens, power and pending treasury rewards.\<close>

definition vault_query_total :: "vault_state \<Rightarrow> nat \<times> decimal \<times> nat" where
  "vault_query_total s = (vt_staked (va_totals s), vt_power (va_totals s), vt_treasury (va_totals s))"

text \<open>A failed validation panics here.\<close>

definition valid_or_panic :: "platform \<Rightarrow> string \<Rightarrow> ('e, addr) outcome" where
  "valid_or_panic P a = (case addr_validate P a of Ok x \<Rightarrow> Ok x | _ \<Rightarrow> Panic)"

definition vault_query_staked :: "platform \<Rightarrow> vault_state \<Rightarrow> string \<Rightarrow> (std_error, vault_stake) outcome" where
  "vault_query_staked P s who = and_then (valid_or_panic P who) (\<lambda>a. Ok (stake_of s a))"

definition vault_pending_reward ::
  "(vault_config \<Rightarrow> (std_error, nat) outcome) \<Rightarrow> vault_state \<Rightarrow> (std_error, nat) outcome"
where
  "vault_pending_reward Q s = Q (va_conf s)"

definition vault_query_reward ::
  "platform \<Rightarrow> (vault_config \<Rightarrow> (std_error, nat) outcome) \<Rightarrow> vault_state \<Rightarrow> string \<Rightarrow> (std_error, nat) outcome"
where
  "vault_query_reward P Q s who =
     (let t = va_totals s; c = va_conf s in
      if vt_staked t = 0 then Ok 0
      else
      and_then (valid_or_panic P who) (\<lambda>a.
      let st = stake_of s a in
      and_then (Q c) (\<lambda>waiting.
      and_then (or_panic (dec_sub (vt_power t) (vs_power_diff st))) (\<lambda>d.
      and_then (dec_of (vs_stake st)) (\<lambda>n.
      and_then (or_panic (dec_mul d n)) (\<lambda>earned.
      and_then (dec_of waiting) (\<lambda>w.
      and_then (or_panic (dec_sub decimal_one (vc_treasury_fee c))) (\<lambda>f.
      and_then (or_panic (dec_sub f (vc_syne_fee c))) (\<lambda>f'.
      and_then (or_panic (dec_mul w f')) (\<lambda>x.
      and_then (or_panic (dec_mul x n)) (\<lambda>y.
      and_then (dec_of (vt_staked t)) (\<lambda>tot.
      and_then (or_panic (dec_div y tot)) (\<lambda>z.
      u128_checked_add (dec_floor earned) (dec_floor z))))))))))))))"

definition vault_query_treasury ::
  "(vault_config \<Rightarrow> (std_error, nat) outcome) \<Rightarrow> vault_state \<Rightarrow> (std_error, nat) outcome"
where
  "vault_query_treasury Q s =
     and_then (Q (va_conf s)) (\<lambda>waiting.
     and_then (dec_of waiting) (\<lambda>w.
     and_then (or_panic (dec_mul w (vc_treasury_fee (va_conf s)))) (\<lambda>x.
     u128_add (vt_treasury (va_totals s)) (dec_floor x))))"

definition vault_query_syne ::
  "(vault_config \<Rightarrow> (std_error, nat) outcome) \<Rightarrow> vault_state \<Rightarrow> (std_error, nat) outcome"
where
  "vault_query_syne Q s =
     and_then (Q (va_conf s)) (\<lambda>waiting.
     and_then (dec_of waiting) (\<lambda>w.
     and_then (or_panic (dec_mul w (vc_syne_fee (va_conf s)))) (\<lambda>x.
     u128_add (vt_syne (va_totals s)) (dec_floor x))))"

datatype vault_question =
    Vq_admin
  | Vq_config
  | Vq_stake string
  | Vq_total_stake
  | Vq_total_pending
  | Vq_reward string
  | Vq_treasury
  | Vq_syne

datatype vault_answer =
    Va_admin addr
  | Va_config vault_config_response
  | Va_stake vault_stake
  | Va_total nat decimal nat
  | Va_amount nat

fun vault_query ::
  "platform \<Rightarrow> (vault_config \<Rightarrow> (std_error, nat) outcome) \<Rightarrow> vault_state \<Rightarrow> vault_question \<Rightarrow> (std_error, vault_answer) outcome"
where
  "vault_query P Q s Vq_admin = Ok (Va_admin (vault_query_admin s))"
| "vault_query P Q s Vq_config = Ok (Va_config (vault_query_config s))"
| "vault_query P Q s (Vq_stake who) = and_then (vault_query_staked P s who) (\<lambda>st. Ok (Va_stake st))"
| "vault_query P Q s Vq_total_stake = (case vault_query_total s of (n, p, t) \<Rightarrow> Ok (Va_total n p t))"
| "vault_query P Q s Vq_total_pending = and_then (vault_pending_reward Q s) (\<lambda>n. Ok (Va_amount n))"
| "vault_query P Q s (Vq_reward who) = and_then (vault_query_reward P Q s who) (\<lambda>n. Ok (Va_amount n))"
| "vault_query P Q s Vq_treasury = and_then (vault_query_treasury Q s) (\<lambda>n. Ok (Va_amount n))"
| "vault_query P Q s Vq_syne = and_then (vault_query_syne Q s) (\<lambda>n. Ok (Va_amount n))"

text \<open>The version check of the migration (\<open>ensure_from_older_version\<close>) is the argument.\<close>

definition vault_migrate ::
  "((string \<times> string) option \<Rightarrow> string \<Rightarrow> string \<Rightarrow> (std_error, string \<times> (string \<times> string) option) outcome)
     \<Rightarrow> string \<Rightarrow> vault_state \<Rightarrow> (vault_error, vault_state) outcome"
where
  "vault_migrate ensure_older name s =
     and_then (map_err Vault_std (ensure_older (va_version s) name vault_contract_version)) (\<lambda>(original, v).
     Ok (s\<lparr> va_version := v \<rparr>))"

end
