(* ===== verification/Converter.thy ===== *)
theory Converter
  imports Vault Gauge Choice
begin

text \<open>
  The converters \<open>contracts/bwynd-converter-and-staker\<close> (prefix \<open>bw_\<close>) and
  \<open>contracts/bloop-converter-and-staker\<close> (prefix \<open>bl_\<close>), which own the stake in the outer protocol:
  they stake what users convert and mint bTokens for it, withdraw the rewards and send them to the
  vault, and pass on the votes of the gauges.  Operations whose code is the same in both contracts
  have one definition with the prefix \<open>conv_\<close>; the names of the fields differ there.  The answers of
  the staking protocols are the parameter \<open>H\<close>.  The votes that are passed on have the fields of the
  gauge's and the multiple-choice contract's votes, whose types are used for them.
\<close>

section \<open>Data\<close>

datatype conv_error =
    Conv_std std_error
  | Conv_unauthorized
  | Conv_invalid_zero_amount
  | Conv_invalid_token
  | Conv_invalid_addr
  | Conv_error_reply
  | Conv_unknown_reply nat
  | Conv_generic
  | Conv_unbonding_period
  | Conv_invalid_params
  | Conv_no_data
  | Conv_no_addr

text \<open>The token and the module of the outer protocol, the bToken and its vault, and the unbonding period
  (\<open>bw_\<close>) or the staking duration (\<open>bl_\<close>).\<close>

record conv_config =
  cc_admin :: addr
  cc_cw20_code :: nat
  cc_vault_code :: nat
  cc_token :: addr
  cc_module :: addr
  cc_btoken :: "addr option"
  cc_vault :: "addr option"
  cc_period :: nat

record conv_gauge =
  cg_outer :: string
  cg_synergistic :: "string option"

record conv_state =
  cv_version :: "string \<times> string"
  cv_conf :: conv_config
  cv_gauge :: "conv_gauge option"

record conv_instantiate_msg =
  cim_admin :: string
  cim_cw20_code :: nat
  cim_vault_code :: nat
  cim_synergistic :: "string option"

text \<open>The staking protocols: the withdrawable rewards (\<open>None\<close> for a failed query), and for LOOP the user
  reward and the pending reward.\<close>

record protocol_host =
  wynd_rewards :: "addr \<Rightarrow> addr \<Rightarrow> nat option"
  loop_rewards :: "addr \<Rightarrow> addr \<Rightarrow> (nat \<times> nat) option"

text \<open>Messages, submessages and the messages of the administrator (opaque texts).\<close>

datatype conv_out =
    Vesting_delegate addr nat nat
  | Protocol_stake addr addr nat nat
  | Module_withdraw addr
  | Module_restake addr nat
  | Btoken_mint addr addr nat
  | Vault_send addr addr nat "addr option"
  | Vault_pay_user addr addr
  | Gauge_votes place_votes_msg
  | Choice_votes mc_out
  | Cosmos_msg string
  | Create_token nat addr string addr
  | Create_vault nat addr addr addr nat

section \<open>The queries of rewards\<close>

definition bw_query_rewards :: "protocol_host \<Rightarrow> addr \<Rightarrow> addr \<Rightarrow> (std_error, nat) outcome" where
  "bw_query_rewards H module account = query_failed (wynd_rewards H module account)"

text \<open>The LOOP converter takes zero for a failed query; the LOOP vault fails.\<close>

definition bl_query_rewards :: "protocol_host \<Rightarrow> addr \<Rightarrow> addr \<Rightarrow> (std_error, nat \<times> nat) outcome" where
  "bl_query_rewards H module account =
     Ok (case loop_rewards H module account of Some r \<Rightarrow> r | None \<Rightarrow> (0, 0))"

definition bl_vault_query_rewards :: "protocol_host \<Rightarrow> addr \<Rightarrow> addr \<Rightarrow> (std_error, nat \<times> nat) outcome" where
  "bl_vault_query_rewards H module account = query_failed (loop_rewards H module account)"

text \<open>What a handler takes as the withdrawable amount.\<close>

definition bw_withdrawable :: "protocol_host \<Rightarrow> conv_config \<Rightarrow> addr \<Rightarrow> (conv_error, nat) outcome" where
  "bw_withdrawable H c self = map_err Conv_std (bw_query_rewards H (cc_module c) self)"

definition bl_withdrawable :: "protocol_host \<Rightarrow> conv_config \<Rightarrow> addr \<Rightarrow> (conv_error, nat) outcome" where
  "bl_withdrawable H c self =
     and_then (map_err Conv_std (bl_query_rewards H (cc_module c) self)) (\<lambda>(u, p). u128_add u p)"

definition bw_vault_rewards :: "protocol_host \<Rightarrow> vault_config \<Rightarrow> (std_error, nat) outcome" where
  "bw_vault_rewards H c = bw_query_rewards H (vc_staking_module c) (vc_converter c)"

definition bl_vault_rewards :: "protocol_host \<Rightarrow> vault_config \<Rightarrow> (std_error, nat) outcome" where
  "bl_vault_rewards H c =
     and_then (bl_vault_query_rewards H (vc_staking_module c) (vc_converter c)) (\<lambda>(u, p). u128_add u p)"

section \<open>Instantiation and configuration\<close>

definition bw_name :: string where "bw_name = ''bwynd-converter-and-staker''"
definition bl_name :: string where "bl_name = ''bloop-converter-and-staker''"
definition conv_version :: string where "conv_version = ''1.0.0''"

definition wynd_gauge_address :: string where
  "wynd_gauge_address = ''juno14va0k6whnaptyr3pl8ajdjdu5p420sywyyuer3mqsvtl4xugh8lqatjcz6''"

definition bw_instantiate ::
  "platform \<Rightarrow> env \<Rightarrow> conv_instantiate_msg \<Rightarrow> (std_error, conv_state \<times> conv_out list) outcome"
where
  "bw_instantiate P e msg =
     and_then (addr_validate P (cim_admin msg)) (\<lambda>adm.
     and_then (addr_validate P ''juno1mkw83sv6c7sjdvsaplrzc8yaes9l42p4mhy0ssuxjnyzl87c9eps7ce3m9'') (\<lambda>tok.
     and_then (addr_validate P ''juno1sy9mlw47w44f94zea7g98y5ff4cvtc8rfv75jgwphlet83wlf4ssa050mv'') (\<lambda>module.
     Ok (\<lparr> cv_version = (bw_name, conv_version),
            cv_conf = \<lparr> cc_admin = adm, cc_cw20_code = cim_cw20_code msg, cc_vault_code = cim_vault_code msg,
              cc_token = tok, cc_module = module, cc_btoken = None, cc_vault = None, cc_period = 63072000 \<rparr>,
            cv_gauge = Some \<lparr> cg_outer = wynd_gauge_address, cg_synergistic = cim_synergistic msg \<rparr> \<rparr>,
         [Create_token (cim_cw20_code msg) adm ''bWYND'' (contract_address e)]))))"

definition bl_instantiate ::
  "platform \<Rightarrow> env \<Rightarrow> conv_instantiate_msg \<Rightarrow> (std_error, conv_state \<times> conv_out list) outcome"
where
  "bl_instantiate P e msg =
     and_then (addr_validate P (cim_admin msg)) (\<lambda>adm.
     and_then (addr_validate P ''juno1qsrercqegvs4ye0yqg93knv73ye5dc3prqwd6jcdcuj8ggp6w0us66deup'') (\<lambda>tok.
     and_then (addr_validate P ''juno1rl77a4jpwf5rzmk9d6krrjekukty0m207h0sky97ls7zwq06htdqq6eq7r'') (\<lambda>module.
     Ok (\<lparr> cv_version = (bl_name, conv_version),
            cv_conf = \<lparr> cc_admin = adm, cc_cw20_code = cim_cw20_code msg, cc_vault_code = cim_vault_code msg,
              cc_token = tok, cc_module = module, cc_btoken = None, cc_vault = None, cc_period = 12 \<rparr>,
            cv_gauge = Some \<lparr> cg_outer = loop_gauge_const, cg_synergistic = cim_synergistic msg \<rparr> \<rparr>,
         [Create_token (cim_cw20_code msg) adm ''bLOOP'' (contract_address e)]))))"

definition conv_update_admin ::
  "platform \<Rightarrow> conv_state \<Rightarrow> message_info \<Rightarrow> string \<Rightarrow> (conv_error, conv_state) outcome"
where
  "conv_update_admin P s info a =
     (if sender info \<noteq> cc_admin (cv_conf s) then Err Conv_unauthorized
      else and_then (map_err Conv_std (addr_validate P a)) (\<lambda>adm.
        Ok (s\<lparr> cv_conf := (cv_conf s)\<lparr> cc_admin := adm \<rparr> \<rparr>)))"

definition conv_update_config :: "conv_state \<Rightarrow> message_info \<Rightarrow> nat option \<Rightarrow> (conv_error, conv_state) outcome" where
  "conv_update_config s info period =
     (if sender info \<noteq> cc_admin (cv_conf s) then Err Conv_unauthorized
      else case period of
        None \<Rightarrow> Err Conv_invalid_params
      | Some n \<Rightarrow> Ok (s\<lparr> cv_conf := (cv_conf s)\<lparr> cc_period := n \<rparr> \<rparr>))"

text \<open>The default of the first contract is the WYND gauge, of the second the LOOP gauge, and the error
  without any field is \<open>InvalidParams\<close> or \<open>NoData\<close>.\<close>

definition conv_update_gauge_config ::
  "string \<Rightarrow> conv_error \<Rightarrow> conv_state \<Rightarrow> message_info \<Rightarrow> string option \<Rightarrow> string option
     \<Rightarrow> (conv_error, conv_state) outcome"
where
  "conv_update_gauge_config outer0 nothing s info outer syn =
     (let g = (case cv_gauge s of Some g \<Rightarrow> g | None \<Rightarrow> \<lparr> cg_outer = outer0, cg_synergistic = None \<rparr>);
          g1 = (case outer of Some o' \<Rightarrow> g\<lparr> cg_outer := o' \<rparr> | None \<Rightarrow> g);
          g2 = (case syn of Some x \<Rightarrow> g1\<lparr> cg_synergistic := Some x \<rparr> | None \<Rightarrow> g1) in
      if sender info \<noteq> cc_admin (cv_conf s) then Err Conv_unauthorized
      else if outer = None \<and> syn = None then Err nothing
      else Ok (s\<lparr> cv_gauge := Some g2 \<rparr>))"

definition bw_update_gauge_config ::
  "conv_state \<Rightarrow> message_info \<Rightarrow> string option \<Rightarrow> string option \<Rightarrow> (conv_error, conv_state) outcome"
where
  "bw_update_gauge_config = conv_update_gauge_config wynd_gauge_address Conv_invalid_params"

definition bl_update_gauge_config ::
  "conv_state \<Rightarrow> message_info \<Rightarrow> string option \<Rightarrow> string option \<Rightarrow> (conv_error, conv_state) outcome"
where
  "bl_update_gauge_config = conv_update_gauge_config loop_gauge_const Conv_no_data"

section \<open>Conversion\<close>

text \<open>The vault is unwrapped before the address of the user is validated.\<close>

definition bw_convert ::
  "platform \<Rightarrow> protocol_host \<Rightarrow> conv_state \<Rightarrow> env \<Rightarrow> message_info \<Rightarrow> string \<Rightarrow> nat
     \<Rightarrow> (conv_error, conv_out list) outcome"
where
  "bw_convert P H s e info who amount =
     (let c = cv_conf s; self = contract_address e in
      if sender info \<noteq> cc_token c then Err Conv_invalid_token
      else if \<not> amount > 0 then Err Conv_invalid_zero_amount
      else if \<not> cc_period c > 0 then Err Conv_unbonding_period
      else
      and_then (or_panic (cc_btoken c)) (\<lambda>b.
      and_then (bw_withdrawable H c self) (\<lambda>w.
      let stake = [Vesting_delegate (cc_token c) amount (cc_period c), Btoken_mint b who amount] in
      and_then (or_panic (cc_vault c)) (\<lambda>v.
      and_then (map_err Conv_std (addr_validate P who)) (\<lambda>a.
      if w > 0 then
        Ok (stake @ [Module_withdraw (cc_module c), Vesting_delegate (cc_token c) w (cc_period c),
                     Btoken_mint b self w, Vault_send b v w (Some a)])
      else Ok (stake @ [Vault_pay_user v a]))))))"

definition bl_convert ::
  "platform \<Rightarrow> protocol_host \<Rightarrow> conv_state \<Rightarrow> env \<Rightarrow> message_info \<Rightarrow> string \<Rightarrow> nat
     \<Rightarrow> (conv_error, conv_out list) outcome"
where
  "bl_convert P H s e info who amount =
     (let c = cv_conf s; self = contract_address e in
      if sender info \<noteq> cc_token c then Err Conv_invalid_token
      else if \<not> amount > 0 then Err Conv_invalid_zero_amount
      else
      and_then (or_panic (cc_btoken c)) (\<lambda>b.
      and_then (bl_withdrawable H c self) (\<lambda>w.
      let stake = [Protocol_stake (cc_token c) (cc_module c) amount (cc_period c), Btoken_mint b who amount] in
      and_then (or_panic (cc_vault c)) (\<lambda>v.
      and_then (map_err Conv_std (addr_validate P who)) (\<lambda>a.
      if w > 0 then Ok (stake @ [Btoken_mint b self w, Vault_send b v w (Some a)])
      else Ok (stake @ [Vault_pay_user v a]))))))"

text \<open>The message inside a transfer; the only one that parses is \<open>Convert\<close>.\<close>

definition bw_receive ::
  "platform \<Rightarrow> protocol_host \<Rightarrow> conv_state \<Rightarrow> env \<Rightarrow> message_info \<Rightarrow> string \<Rightarrow> nat \<Rightarrow> bool
     \<Rightarrow> (conv_error, conv_out list) outcome"
where
  "bw_receive P H s e info who amount parses =
     (if parses then bw_convert P H s e info who amount else Err Conv_generic)"

definition bl_receive ::
  "platform \<Rightarrow> protocol_host \<Rightarrow> conv_state \<Rightarrow> env \<Rightarrow> message_info \<Rightarrow> string \<Rightarrow> nat \<Rightarrow> bool
     \<Rightarrow> (conv_error, conv_out list) outcome"
where
  "bl_receive P H s e info who amount parses =
     (if parses then bl_convert P H s e info who amount else Err Conv_generic)"

section \<open>Rewards, minting and votes\<close>

definition bw_withdraw_rewards ::
  "protocol_host \<Rightarrow> conv_state \<Rightarrow> env \<Rightarrow> (conv_error, conv_out list) outcome"
where
  "bw_withdraw_rewards H s e =
     (let c = cv_conf s; self = contract_address e in
      and_then (bw_withdrawable H c self) (\<lambda>w.
      if \<not> w > 0 then Err Conv_invalid_zero_amount
      else
      and_then (or_panic (cc_btoken c)) (\<lambda>b.
      and_then (or_panic (cc_vault c)) (\<lambda>v.
      Ok [Module_withdraw (cc_module c), Vesting_delegate (cc_token c) w (cc_period c),
          Btoken_mint b self w, Vault_send b v w None]))))"

definition bl_withdraw_rewards ::
  "protocol_host \<Rightarrow> conv_state \<Rightarrow> env \<Rightarrow> (conv_error, conv_out list) outcome"
where
  "bl_withdraw_rewards H s e =
     (let c = cv_conf s; self = contract_address e in
      and_then (or_panic (cc_btoken c)) (\<lambda>b.
      and_then (or_panic (cc_vault c)) (\<lambda>v.
      and_then (bl_withdrawable H c self) (\<lambda>w.
      if \<not> w > 0 then Err Conv_invalid_zero_amount
      else Ok [Module_restake (cc_module c) (cc_period c), Btoken_mint b self w, Vault_send b v w None]))))"

definition conv_cosmos_msgs ::
  "conv_state \<Rightarrow> message_info \<Rightarrow> string list \<Rightarrow> (conv_error, conv_out list) outcome"
where
  "conv_cosmos_msgs s info ms =
     (if sender info \<noteq> cc_admin (cv_conf s) then Err Conv_unauthorized else Ok (map Cosmos_msg ms))"

definition conv_mint ::
  "conv_state \<Rightarrow> message_info \<Rightarrow> string \<Rightarrow> nat \<Rightarrow> (conv_error, conv_out list) outcome"
where
  "conv_mint s info recipient amount =
     (if sender info \<noteq> cc_admin (cv_conf s) then Err Conv_unauthorized
      else and_then (or_panic (cc_btoken (cv_conf s))) (\<lambda>b. Ok [Btoken_mint b recipient amount]))"

definition load_conv_gauge :: "conv_state \<Rightarrow> (conv_error, conv_gauge) outcome" where
  "load_conv_gauge s = map_err Conv_std (ok_or (Not_found ''GaugeConfig'') (cv_gauge s))"

definition bw_vote ::
  "conv_state \<Rightarrow> addr \<Rightarrow> nat \<Rightarrow> gauge_vote list option \<Rightarrow> (conv_error, conv_out list) outcome"
where
  "bw_vote s who gauge votes =
     and_then (load_conv_gauge s) (\<lambda>g.
     case cg_synergistic g of
       None \<Rightarrow> Err Conv_invalid_addr
     | Some a \<Rightarrow>
         if a \<noteq> who then Err Conv_unauthorized
         else Ok [Gauge_votes \<lparr> pv_contract = cg_outer g, pv_gauge = gauge, pv_votes = votes \<rparr>])"

definition bl_vote ::
  "conv_state \<Rightarrow> message_info \<Rightarrow> nat \<Rightarrow> mc_vote list \<Rightarrow> (conv_error, conv_out list) outcome"
where
  "bl_vote s info pid votes =
     and_then (load_conv_gauge s) (\<lambda>g.
     case cg_synergistic g of
       None \<Rightarrow> Err Conv_no_addr
     | Some a \<Rightarrow>
         if a \<noteq> sender info then Err Conv_unauthorized
         else Ok [Choice_votes \<lparr> mo_contract = cg_outer g, mo_proposal = pid, mo_votes = votes \<rparr>])"

section \<open>Entry points\<close>

datatype conv_msg =
    Cm_cosmos "string list"
  | Cm_receive string nat bool
  | Cm_update_admin string
  | Cm_update_config "nat option"
  | Cm_update_gauge "string option" "string option"
  | Cm_withdraw
  | Cm_mint string nat
  | Cm_place_votes nat "gauge_vote list option"  \<comment> \<open>\<open>bw_\<close> only\<close>
  | Cm_vote nat "mc_vote list"  \<comment> \<open>\<open>bl_\<close> only\<close>

definition same_state :: "'s \<Rightarrow> ('e, 'm list) outcome \<Rightarrow> ('e, 's \<times> 'm list) outcome" where
  "same_state s r = and_then r (\<lambda>out. Ok (s, out))"

definition no_out :: "('e, 's) outcome \<Rightarrow> ('e, 's \<times> conv_out list) outcome" where
  "no_out r = and_then r (\<lambda>s. Ok (s, []))"

text \<open>A message of the other contract does not parse.\<close>

fun bw_execute ::
  "platform \<Rightarrow> protocol_host \<Rightarrow> conv_state \<Rightarrow> env \<Rightarrow> message_info \<Rightarrow> conv_msg
     \<Rightarrow> (conv_error, conv_state \<times> conv_out list) outcome"
where
  "bw_execute P H s e info (Cm_update_admin a) = no_out (conv_update_admin P s info a)"
| "bw_execute P H s e info (Cm_update_config n) = no_out (conv_update_config s info n)"
| "bw_execute P H s e info (Cm_update_gauge x y) = no_out (bw_update_gauge_config s info x y)"
| "bw_execute P H s e info (Cm_receive who n ok) = same_state s (bw_receive P H s e info who n ok)"
| "bw_execute P H s e info Cm_withdraw = same_state s (bw_withdraw_rewards H s e)"
| "bw_execute P H s e info (Cm_cosmos ms) = same_state s (conv_cosmos_msgs s info ms)"
| "bw_execute P H s e info (Cm_mint r n) = same_state s (conv_mint s info r n)"
| "bw_execute P H s e info (Cm_place_votes g vs) = same_state s (bw_vote s (sender info) g vs)"
| "bw_execute P H s e info (Cm_vote pid vs) = Err (Conv_std (Generic_err ''Error parsing''))"

fun bl_execute ::
  "platform \<Rightarrow> protocol_host \<Rightarrow> conv_state \<Rightarrow> env \<Rightarrow> message_info \<Rightarrow> conv_msg
     \<Rightarrow> (conv_error, conv_state \<times> conv_out list) outcome"
where
  "bl_execute P H s e info (Cm_update_admin a) = no_out (conv_update_admin P s info a)"
| "bl_execute P H s e info (Cm_update_config n) = no_out (conv_update_config s info n)"
| "bl_execute P H s e info (Cm_update_gauge x y) = no_out (bl_update_gauge_config s info x y)"
| "bl_execute P H s e info (Cm_receive who n ok) = same_state s (bl_receive P H s e info who n ok)"
| "bl_execute P H s e info Cm_withdraw = same_state s (bl_withdraw_rewards H s e)"
| "bl_execute P H s e info (Cm_cosmos ms) = same_state s (conv_cosmos_msgs s info ms)"
| "bl_execute P H s e info (Cm_mint r n) = same_state s (conv_mint s info r n)"
| "bl_execute P H s e info (Cm_vote pid vs) = same_state s (bl_vote s info pid vs)"
| "bl_execute P H s e info (Cm_place_votes g vs) = Err (Conv_std (Generic_err ''Error parsing''))"

text \<open>The vaults of the two converters.\<close>

definition bw_vault_execute ::
  "platform \<Rightarrow> protocol_host \<Rightarrow> vault_state \<Rightarrow> message_info \<Rightarrow> vault_msg \<Rightarrow> (vault_error, vault_state \<times> vault_out list) outcome"
where
  "bw_vault_execute P H = vault_execute P (bw_vault_rewards H)"

definition bl_vault_execute ::
  "platform \<Rightarrow> protocol_host \<Rightarrow> vault_state \<Rightarrow> message_info \<Rightarrow> vault_msg \<Rightarrow> (vault_error, vault_state \<times> vault_out list) outcome"
where
  "bl_vault_execute P H = vault_execute P (bl_vault_rewards H)"

definition bl_vault_instantiate ::
  "platform \<Rightarrow> message_info \<Rightarrow> vault_instantiate_msg \<Rightarrow> (vault_error, vault_state) outcome"
where
  "bl_vault_instantiate P = vault_instantiate P ''crates.io:bloop_vault'' (Some 12)"

text \<open>The handlers of the LOOP vault that read the waiting rewards.\<close>

definition bl_vault_stake ::
  "platform \<Rightarrow> protocol_host \<Rightarrow> vault_state \<Rightarrow> string \<Rightarrow> nat \<Rightarrow> (vault_error, vault_state \<times> vault_out list) outcome"
where
  "bl_vault_stake P H = vault_execute_stake P (bl_vault_rewards H)"

definition bl_vault_withdraw ::
  "platform \<Rightarrow> protocol_host \<Rightarrow> vault_state \<Rightarrow> string \<Rightarrow> (vault_error, vault_state \<times> vault_out list) outcome"
where
  "bl_vault_withdraw P H = vault_withdraw_rewards P (bl_vault_rewards H)"

definition bl_vault_withdraw_treasury ::
  "protocol_host \<Rightarrow> vault_state \<Rightarrow> message_info \<Rightarrow> nat option \<Rightarrow> (vault_error, vault_state \<times> vault_out list) outcome"
where
  "bl_vault_withdraw_treasury H = vault_withdraw_treasury (bl_vault_rewards H)"

definition bl_vault_withdraw_syne ::
  "protocol_host \<Rightarrow> vault_state \<Rightarrow> message_info \<Rightarrow> nat option \<Rightarrow> (vault_error, vault_state \<times> vault_out list) outcome"
where
  "bl_vault_withdraw_syne H = vault_withdraw_syne (bl_vault_rewards H)"

definition bl_vault_unstake ::
  "protocol_host \<Rightarrow> vault_state \<Rightarrow> message_info \<Rightarrow> nat \<Rightarrow> (vault_error, vault_state \<times> vault_out list) outcome"
where
  "bl_vault_unstake H = vault_unstake (bl_vault_rewards H)"

definition bl_vault_query_reward ::
  "platform \<Rightarrow> protocol_host \<Rightarrow> vault_state \<Rightarrow> string \<Rightarrow> (std_error, nat) outcome"
where
  "bl_vault_query_reward P H = vault_query_reward P (bl_vault_rewards H)"

definition bl_vault_query_treasury :: "protocol_host \<Rightarrow> vault_state \<Rightarrow> (std_error, nat) outcome" where
  "bl_vault_query_treasury H = vault_query_treasury (bl_vault_rewards H)"

definition bl_vault_query_syne :: "protocol_host \<Rightarrow> vault_state \<Rightarrow> (std_error, nat) outcome" where
  "bl_vault_query_syne H = vault_query_syne (bl_vault_rewards H)"

section \<open>Replies and queries\<close>

text \<open>A reply: whether it succeeded, its id, and the parsed address of the new contract.\<close>

definition conv_reply_btoken ::
  "platform \<Rightarrow> conv_state \<Rightarrow> string \<Rightarrow> (conv_error, conv_state \<times> conv_out list) outcome"
where
  "conv_reply_btoken P s new =
     and_then (map_err Conv_std (addr_validate P new)) (\<lambda>b.
     let c = cv_conf s in
     Ok (s\<lparr> cv_conf := c\<lparr> cc_btoken := Some b \<rparr> \<rparr>,
         [Create_vault (cc_vault_code c) (cc_admin c) b (cc_module c) 1000000]))"

definition conv_reply_vault :: "platform \<Rightarrow> conv_state \<Rightarrow> string \<Rightarrow> (conv_error, conv_state \<times> conv_out list) outcome" where
  "conv_reply_vault P s new =
     and_then (map_err Conv_std (addr_validate P new)) (\<lambda>v.
     Ok (s\<lparr> cv_conf := (cv_conf s)\<lparr> cc_vault := Some v \<rparr> \<rparr>, []))"

definition conv_reply ::
  "platform \<Rightarrow> conv_state \<Rightarrow> bool \<Rightarrow> nat \<Rightarrow> string option \<Rightarrow> (conv_error, conv_state \<times> conv_out list) outcome"
where
  "conv_reply P s succeeded rid parsed =
     (if \<not> succeeded then Err Conv_error_reply
      else if rid = 1 \<or> rid = 2 then
        and_then (ok_or (Conv_std (Generic_err ''failed to parse data'')) parsed) (\<lambda>new.
        if rid = 1 then conv_reply_btoken P s new else conv_reply_vault P s new)
      else Err (Conv_unknown_reply rid))"

definition conv_query_config :: "conv_state \<Rightarrow> conv_config" where
  "conv_query_config s = cv_conf s"

definition conv_query_gauge_config :: "conv_state \<Rightarrow> (std_error, conv_gauge) outcome" where
  "conv_query_gauge_config s = ok_or (Not_found ''GaugeConfig'') (cv_gauge s)"

datatype conv_query = Query_config | Query_gauge_config

datatype conv_answer = Answer_config conv_config | Answer_gauge conv_gauge

text \<open>The WYND converter answers the query for the gauges with the configuration.\<close>

fun bw_query :: "conv_state \<Rightarrow> conv_query \<Rightarrow> (std_error, conv_answer) outcome" where
  "bw_query s Query_config = Ok (Answer_config (conv_query_config s))"
| "bw_query s Query_gauge_config = Ok (Answer_config (conv_query_config s))"

fun bl_query :: "conv_state \<Rightarrow> conv_query \<Rightarrow> (std_error, conv_answer) outcome" where
  "bl_query s Query_config = Ok (Answer_config (conv_query_config s))"
| "bl_query s Query_gauge_config = and_then (conv_query_gauge_config s) (\<lambda>g. Ok (Answer_gauge g))"

end
