(* ===== verification/Vault_Proofs.thy ===== *)
theory Vault_Proofs
  imports Vault
begin

text \<open>
  The books of a vault: what it owes its stakers, the treasury and the distributor, as an exact sum
  of decimals; every operation keeps the stakes adding up and never lets the debt grow by more than
  the tokens that arrive, less the tokens it pays.
\<close>

section \<open>Debt\<close>

text \<open>The unpaid rewards of a stake, in 18-digit atomics.\<close>

definition earned :: "decimal \<Rightarrow> vault_stake \<Rightarrow> nat" where
  "earned p st = (p - vs_power_diff st) * vs_stake st"

definition all_earned :: "vault_state \<Rightarrow> nat" where
  "all_earned s = kv_sum (\<lambda>_. earned (vt_power (va_totals s))) (va_stakes s)"

definition vault_debt :: "vault_state \<Rightarrow> nat" where
  "vault_debt s = decimal_one * (vt_staked (va_totals s) + vt_treasury (va_totals s) + vt_syne (va_totals s)) + all_earned s"

definition vault_ok :: "vault_state \<Rightarrow> bool" where
  "vault_ok s \<longleftrightarrow> kv_ok (va_stakes s) \<and> kv_sum (\<lambda>_. vs_stake) (va_stakes s) = vt_staked (va_totals s) \<and>
     (\<forall>a st. kv_get (va_stakes s) a = Some st \<longrightarrow> vs_power_diff st \<le> vt_power (va_totals s))"

definition fees_fit :: "vault_config \<Rightarrow> bool" where
  "fees_fit c \<longleftrightarrow> vc_treasury_fee c + vc_syne_fee c \<le> decimal_one"

text \<open>A reward never exceeds what was earned.\<close>

lemma pending_of_le:
  assumes "pending_of t st = (Ok n :: ('e, nat) outcome)"
  shows "n * decimal_one \<le> earned (vt_power t) st"
proof -
  obtain k where k: "k = vs_stake st * decimal_one"
    and n: "n = dec_floor (case dec_mul (vt_power t - vs_power_diff st) k of Some d \<Rightarrow> d | None \<Rightarrow> 0)"
    using assms by (auto simp: pending_of_def outcome_simps arith_simps)
  show ?thesis
  proof (cases "dec_mul (vt_power t - vs_power_diff st) k")
    case None
    then show ?thesis by (simp add: n dec_floor_def)
  next
    case (Some d)
    then have "d = earned (vt_power t) st" using dec_mul_whole k by (simp add: earned_def)
    then show ?thesis using dec_floor_le [of d] by (simp add: n Some)
  qed
qed

section \<open>One account\<close>

lemma stake_of_at: "f zero_stake = 0 \<Longrightarrow> kv_at (\<lambda>_. f) (va_stakes s) a = f (stake_of s a)"
  by (auto simp: kv_at_def stake_of_def split: option.splits)

lemma zero_stake_simps [simp]: "vs_stake zero_stake = 0" "earned p zero_stake = 0"
  by (simp_all add: zero_stake_def earned_def)

lemma stake_of_le:
  assumes "vault_ok s"
  shows "vs_stake (stake_of s a) \<le> vt_staked (va_totals s)"
  using kv_at_le_sum [of "\<lambda>_. vs_stake" "va_stakes s" a] assms
  by (simp add: stake_of_at vault_ok_def)

text \<open>Paying an account up to the present and changing its stake from the old value to \<open>k\<close>.\<close>

lemma settled_account:
  assumes ok: "vault_ok s" and m: "m + vs_stake (stake_of s a) = vt_staked (va_totals s) + k"
    and s': "s' = s\<lparr> va_stakes := kv_set (va_stakes s) a
        ((stake_of s a)\<lparr> vs_stake := k, vs_power_diff := vt_power (va_totals s) \<rparr>),
      va_totals := (va_totals s)\<lparr> vt_staked := m \<rparr> \<rparr>"
  shows "vault_ok s'"
    and "vault_debt s' + earned (vt_power (va_totals s)) (stake_of s a) + decimal_one * vs_stake (stake_of s a)
      = vault_debt s + decimal_one * k"
proof -
  let ?st = "(stake_of s a)\<lparr> vs_stake := k, vs_power_diff := vt_power (va_totals s) \<rparr>"
  have kv: "kv_ok (va_stakes s)" using ok by (simp add: vault_ok_def)
  have stakes: "kv_sum (\<lambda>_. vs_stake) (kv_set (va_stakes s) a ?st) = m"
    using kv_sum_set [OF kv, of "\<lambda>_. vs_stake" a ?st] ok m by (simp add: stake_of_at vault_ok_def)
  have rewards: "kv_sum (\<lambda>_. earned (vt_power (va_totals s))) (kv_set (va_stakes s) a ?st)
      + earned (vt_power (va_totals s)) (stake_of s a) = all_earned s"
    using kv_sum_set [OF kv, of "\<lambda>_. earned (vt_power (va_totals s))" a ?st]
    by (simp add: stake_of_at all_earned_def) (simp add: earned_def)
  show "vault_ok s'"
    using ok stakes by (auto simp: vault_ok_def s' split: if_splits)
  have "decimal_one * (m + vs_stake (stake_of s a)) = decimal_one * (vt_staked (va_totals s) + k)" using m by simp
  then show "vault_debt s' + earned (vt_power (va_totals s)) (stake_of s a) + decimal_one * vs_stake (stake_of s a)
      = vault_debt s + decimal_one * k"
    using rewards by (simp add: vault_debt_def s' all_earned_def algebra_simps)
qed

text \<open>The frame of the account operations.\<close>

definition same_setup :: "vault_state \<Rightarrow> vault_state \<Rightarrow> bool" where
  "same_setup s t \<longleftrightarrow> va_conf t = va_conf s \<and> va_admin t = va_admin s \<and> va_action t = va_action s \<and>
     vt_treasury (va_totals s) \<le> vt_treasury (va_totals t) \<and> vt_syne (va_totals s) \<le> vt_syne (va_totals t)"

lemma update_rewards_books:
  assumes "update_rewards s a = Ok (n, s')" "vault_ok s"
  shows "vault_ok s'" "vault_debt s' + decimal_one * n \<le> vault_debt s" "same_setup s s'"
proof -
  have n: "pending_of (va_totals s) (stake_of s a) = (Ok n :: (vault_error, nat) outcome)"
    and s': "s' = s\<lparr> va_stakes := kv_set (va_stakes s) a
        ((stake_of s a)\<lparr> vs_stake := vs_stake (stake_of s a), vs_power_diff := vt_power (va_totals s) \<rparr>),
      va_totals := (va_totals s)\<lparr> vt_staked := vt_staked (va_totals s) \<rparr> \<rparr>"
    using assms(1) by (auto simp: update_rewards_def Let_def outcome_simps)
  note books = settled_account [OF assms(2) refl s']
  show "vault_ok s'" by (rule books)
  show "vault_debt s' + decimal_one * n \<le> vault_debt s"
    using books(2) pending_of_le [OF n] by (simp add: mult.commute)
  show "same_setup s s'" by (simp add: same_setup_def s')
qed

lemma add_stake_books:
  assumes "add_stake s a k = Ok (n, s')" "vault_ok s" "vt_staked (va_totals s) + k < u128_lim"
  shows "vault_ok s'" "vault_debt s' + decimal_one * n \<le> vault_debt s + decimal_one * k" "same_setup s s'"
proof -
  have small: "vs_stake (stake_of s a) + k < u128_lim" using stake_of_le [OF assms(2), of a] assms(3) by simp
  have n: "pending_of (va_totals s) (stake_of s a) = (Ok n :: (vault_error, nat) outcome)"
    and s': "s' = s\<lparr> va_stakes := kv_set (va_stakes s) a
        ((stake_of s a)\<lparr> vs_stake := vs_stake (stake_of s a) + k, vs_power_diff := vt_power (va_totals s) \<rparr>),
      va_totals := (va_totals s)\<lparr> vt_staked := vt_staked (va_totals s) + k \<rparr> \<rparr>"
    using assms(1,3) small by (auto simp: add_stake_def add_or_zero_def Let_def outcome_simps)
  have "vt_staked (va_totals s) + k + vs_stake (stake_of s a) = vt_staked (va_totals s) + (vs_stake (stake_of s a) + k)"
    by simp
  note books = settled_account [OF assms(2) this s']
  show "vault_ok s'" by (rule books)
  show "vault_debt s' + decimal_one * n \<le> vault_debt s + decimal_one * k"
    using books(2) pending_of_le [OF n] by (simp add: algebra_simps)
  show "same_setup s s'" by (simp add: same_setup_def s')
qed

lemma remove_stake_books:
  assumes "remove_stake s a k = Ok (n, s')" "vault_ok s" "k \<le> vs_stake (stake_of s a)"
  shows "vault_ok s'" "vault_debt s' + decimal_one * (k + n) \<le> vault_debt s" "same_setup s s'"
proof -
  have n: "pending_of (va_totals s) (stake_of s a) = (Ok n :: (vault_error, nat) outcome)"
    and s': "s' = s\<lparr> va_stakes := kv_set (va_stakes s) a
        ((stake_of s a)\<lparr> vs_stake := vs_stake (stake_of s a) - k, vs_power_diff := vt_power (va_totals s) \<rparr>),
      va_totals := (va_totals s)\<lparr> vt_staked := vt_staked (va_totals s) - k \<rparr> \<rparr>"
    using assms(1) by (auto simp: remove_stake_def Let_def outcome_simps)
  have "vt_staked (va_totals s) - k + vs_stake (stake_of s a) = vt_staked (va_totals s) + (vs_stake (stake_of s a) - k)"
    using assms(3) stake_of_le [OF assms(2), of a] by simp
  note books = settled_account [OF assms(2) this s']
  show "vault_ok s'" by (rule books)
  obtain r where "vs_stake (stake_of s a) = k + r" using assms(3) le_Suc_ex by blast
  then show "vault_debt s' + decimal_one * (k + n) \<le> vault_debt s"
    using books(2) pending_of_le [OF n] by (simp add: algebra_simps)
  show "same_setup s s'" by (simp add: same_setup_def s')
qed

section \<open>Arriving rewards\<close>

lemma earned_raised:
  assumes "\<And>a st. (a, st) \<in> set m \<Longrightarrow> vs_power_diff st \<le> p"
  shows "kv_sum (\<lambda>_. earned (p + q)) m = kv_sum (\<lambda>_. earned p) m + q * kv_sum (\<lambda>_. vs_stake) m"
  using assms
proof (induction m)
  case (Cons e m)
  have "vs_power_diff (snd e) \<le> p" using Cons.prems [of "fst e" "snd e"] by simp
  then have "earned (p + q) (snd e) = earned p (snd e) + q * vs_stake (snd e)"
    by (simp add: earned_def algebra_simps)
  moreover have "kv_sum (\<lambda>_. earned (p + q)) m = kv_sum (\<lambda>_. earned p) m + q * kv_sum (\<lambda>_. vs_stake) m"
    using Cons.prems by (intro Cons.IH) auto
  ultimately show ?case by (simp add: algebra_simps)
qed simp

lemma fee_floors:
  assumes "fees_fit c"
  shows "dec_floor (r * vc_treasury_fee c) + dec_floor (r * vc_syne_fee c) \<le> r"
proof -
  have "(dec_floor (r * vc_treasury_fee c) + dec_floor (r * vc_syne_fee c)) * decimal_one
    \<le> r * vc_treasury_fee c + r * vc_syne_fee c"
    using dec_floor_le [of "r * vc_treasury_fee c"] dec_floor_le [of "r * vc_syne_fee c"] by (simp add: algebra_simps)
  also have "\<dots> = r * (vc_treasury_fee c + vc_syne_fee c)" by (simp add: algebra_simps)
  also have "\<dots> \<le> r * decimal_one" using assms by (intro mult_le_mono2) (simp add: fees_fit_def)
  finally show ?thesis by simp
qed

lemma update_total_rewards_cases:
  assumes "update_total_rewards s r = Ok s'"
  obtains tf sf q where "tf = dec_floor (r * vc_treasury_fee (va_conf s))" "sf = dec_floor (r * vc_syne_fee (va_conf s))"
    "s' = s\<lparr> va_totals := (va_totals s)\<lparr> vt_treasury := vt_treasury (va_totals s) + tf,
        vt_syne := vt_syne (va_totals s) + sf, vt_power := vt_power (va_totals s) + q \<rparr> \<rparr>"
    "q = 0 \<and> vt_staked (va_totals s) = 0 \<or>
     0 < vt_staked (va_totals s) \<and> tf + sf \<le> r \<and> q = (r - tf - sf) * decimal_one div vt_staked (va_totals s)"
proof -
  obtain x y p where x: "dec_mul (r * decimal_one) (vc_treasury_fee (va_conf s)) = Some x"
    and y: "dec_mul (r * decimal_one) (vc_syne_fee (va_conf s)) = Some y"
    and p: "(if vt_staked (va_totals s) > 0 then
           and_then (u128_sub r (dec_floor x)) (\<lambda>n.
           and_then (u128_sub n (dec_floor y)) (\<lambda>m.
           and_then (dec_of m) (\<lambda>share.
           and_then (dec_of (vt_staked (va_totals s))) (\<lambda>n_staked.
           and_then (or_panic (dec_div share n_staked)) (\<lambda>q.
           or_panic (dec_add (vt_power (va_totals s)) q))))))
         else Ok (vt_power (va_totals s))) = (Ok p :: (vault_error, decimal) outcome)"
    and s': "s' = s\<lparr> va_totals := (va_totals s)\<lparr> vt_treasury := vt_treasury (va_totals s) + dec_floor x,
        vt_syne := vt_syne (va_totals s) + dec_floor y, vt_power := p \<rparr> \<rparr>"
    using assms by (auto simp: update_total_rewards_def Let_def outcome_simps arith_simps)
  have xy: "x = r * vc_treasury_fee (va_conf s)" "y = r * vc_syne_fee (va_conf s)"
    using dec_mul_whole_left x y by auto
  show thesis
  proof (cases "vt_staked (va_totals s) > 0")
    case False
    then show thesis using p s' xy by (intro that [of "dec_floor x" "dec_floor y" 0]) simp_all
  next
    case True
    then obtain q where le: "dec_floor x \<le> r" "dec_floor y \<le> r - dec_floor x"
      and q: "dec_div ((r - dec_floor x - dec_floor y) * decimal_one) (vt_staked (va_totals s) * decimal_one) = Some q"
      and pq: "p = vt_power (va_totals s) + q"
      using p by (auto simp: outcome_simps arith_simps dec_add_def)
    show thesis
      using True le dec_div_whole [OF q] s' xy pq
      by (intro that [of "dec_floor x" "dec_floor y" q]) simp_all
  qed
qed

lemma update_total_rewards_books:
  assumes "update_total_rewards s r = Ok s'" "vault_ok s" "fees_fit (va_conf s)"
  shows "vault_ok s'" "vault_debt s' \<le> vault_debt s + decimal_one * r" "same_setup s s'"
    "va_stakes s' = va_stakes s" "vt_staked (va_totals s') = vt_staked (va_totals s)"
proof -
  from assms(1) obtain tf sf q where f: "tf = dec_floor (r * vc_treasury_fee (va_conf s))" "sf = dec_floor (r * vc_syne_fee (va_conf s))"
    and s': "s' = s\<lparr> va_totals := (va_totals s)\<lparr> vt_treasury := vt_treasury (va_totals s) + tf,
        vt_syne := vt_syne (va_totals s) + sf, vt_power := vt_power (va_totals s) + q \<rparr> \<rparr>"
    and q: "q = 0 \<and> vt_staked (va_totals s) = 0 \<or>
     0 < vt_staked (va_totals s) \<and> tf + sf \<le> r \<and> q = (r - tf - sf) * decimal_one div vt_staked (va_totals s)"
    by (rule update_total_rewards_cases)
  have le: "tf + sf \<le> r" using fee_floors [OF assms(3), of r] f by simp
  have get: "vs_power_diff st \<le> vt_power (va_totals s)" if "(a, st) \<in> set (va_stakes s)" for a st
    using that assms(2) by (auto simp: vault_ok_def kv_in_set_get)
  have rewards: "all_earned s' = all_earned s + q * vt_staked (va_totals s)"
    using earned_raised [of "va_stakes s" "vt_power (va_totals s)" q] get assms(2)
    by (simp add: all_earned_def s' vault_ok_def)
  have "q * vt_staked (va_totals s) \<le> decimal_one * (r - tf - sf)"
    using q by (auto simp: mult.commute [of decimal_one])
  then have "q * vt_staked (va_totals s) + decimal_one * (tf + sf) \<le> decimal_one * (r - tf - sf) + decimal_one * (tf + sf)"
    by simp
  also have "\<dots> = decimal_one * r" using le by (simp add: distrib_left [symmetric])
  finally show "vault_debt s' \<le> vault_debt s + decimal_one * r"
    using rewards by (simp add: vault_debt_def s' algebra_simps)
  show "vault_ok s'" using assms(2) by (fastforce simp: vault_ok_def s' intro: trans_le_add1)
  show "same_setup s s'" "va_stakes s' = va_stakes s" "vt_staked (va_totals s') = vt_staked (va_totals s)"
    by (simp_all add: same_setup_def s')
qed

section \<open>Completed actions and calls\<close>

text \<open>The tokens the outputs pay, the tokens that wait to be staked, and the outputs that only pay.\<close>

fun paid :: "vault_out list \<Rightarrow> nat" where
  "paid [] = 0"
| "paid (Token_pay t a n # out) = n + paid out"
| "paid (Ask_rewards c # out) = paid out"

fun only_pays :: "vault_out list \<Rightarrow> bool" where
  "only_pays [] = True"
| "only_pays (Token_pay t a n # out) = only_pays out"
| "only_pays (Ask_rewards c # out) = False"

fun waiting_stake :: "reward_action \<Rightarrow> nat" where
  "waiting_stake (Act_stake a n) = n"
| "waiting_stake act = 0"

text \<open>A recorded withdrawal is covered by the stake of its account.\<close>

definition action_covered :: "vault_state \<Rightarrow> reward_action \<Rightarrow> bool" where
  "action_covered s act = (case act of Act_unstake a k \<Rightarrow> k \<le> vs_stake (stake_of s a) | _ \<Rightarrow> True)"

lemma pay_positive_simps [simp]: "paid (pay_positive s a n) = n" "only_pays (pay_positive s a n)"
  by (simp_all add: pay_positive_def)

lemma same_setup_trans: "same_setup s t \<Longrightarrow> same_setup t u \<Longrightarrow> same_setup s u"
  by (auto simp: same_setup_def)

text \<open>Without withdrawers the treasury and the distributor are never paid.\<close>

definition no_withdrawers :: "vault_config \<Rightarrow> bool" where
  "no_withdrawers c \<longleftrightarrow> vc_treasury_withdrawer c = None \<and> vc_treasury_wallet c = None \<and> vc_distributor c = None"

lemma complete_action_books:
  assumes "complete_action s who act = Ok (s', out)" "vault_ok s" "no_withdrawers (va_conf s)"
    and "action_covered s act" "vt_staked (va_totals s) + waiting_stake act < u128_lim"
  shows "vault_ok s' \<and> vault_debt s' + decimal_one * paid out \<le> vault_debt s + decimal_one * waiting_stake act
    \<and> only_pays out \<and> same_setup s s'"
proof (cases act)
  case No_action
  then show ?thesis using assms(1,2) by (simp add: same_setup_def)
next
  case (Act_reward a)
  then obtain n where n: "update_rewards s a = Ok (n, s')" "out = pay_positive s a n"
    using assms(1) by (auto simp: outcome_simps)
  show ?thesis using update_rewards_books [OF n(1) assms(2)] by (simp add: n(2) Act_reward)
next
  case (Act_stake a k)
  then obtain n where n: "add_stake s a k = Ok (n, s')" "out = pay_positive s a n"
    using assms(1) by (auto simp: outcome_simps)
  show ?thesis using add_stake_books [OF n(1) assms(2)] assms(5) by (simp add: n(2) Act_stake)
next
  case (Act_unstake a k)
  then obtain n where n: "remove_stake s a k = Ok (n, s')"
      "out = Token_pay (vc_token (va_conf s)) a k # pay_positive s a n"
    using assms(1) by (auto simp: outcome_simps)
  show ?thesis using remove_stake_books [OF n(1) assms(2)] assms(4) by (simp add: n(2) Act_unstake action_covered_def)
qed (use assms(1,3) in \<open>auto simp: outcome_simps no_withdrawers_def split: option.splits\<close>)

end
