(* ===== verification/Vault_System.thy ===== *)
theory Vault_System
  imports Converter Vault_Proofs
begin

text \<open>
  A vault, its bToken and its converter running together: the calls of one transaction, with the
  tokens that arrive with a transfer and the transfers the vault pays, and the transactions that
  reach a state from the set-up.  Of the token only the vault's own balance is tracked.
\<close>

section \<open>The result of one call\<close>

text \<open>What no call changes, and what a call may leave behind with a balance of \<open>h\<close> tokens.\<close>

definition vault_frame :: "vault_state \<Rightarrow> vault_state \<Rightarrow> bool" where
  "vault_frame s t \<longleftrightarrow> va_conf t = va_conf s \<and> vt_treasury (va_totals s) \<le> vt_treasury (va_totals t) \<and>
     vt_syne (va_totals s) \<le> vt_syne (va_totals t)"

definition vault_safe :: "vault_state \<Rightarrow> nat \<Rightarrow> bool" where
  "vault_safe s h \<longleftrightarrow> vault_ok s \<and> fees_fit (va_conf s) \<and> no_withdrawers (va_conf s) \<and> h < u128_lim \<and>
     vault_debt s + decimal_one * waiting_stake (action_of s) \<le> decimal_one * h \<and> action_covered s (action_of s)"

definition call_pays :: "vault_state \<Rightarrow> nat \<Rightarrow> vault_state \<Rightarrow> vault_out list \<Rightarrow> bool" where
  "call_pays s h t out \<longleftrightarrow> only_pays out \<and> action_of t = No_action \<and> vault_ok t \<and> vault_frame s t \<and>
     vault_debt t + decimal_one * paid out \<le> decimal_one * h"

definition call_defers :: "vault_state \<Rightarrow> nat \<Rightarrow> vault_state \<Rightarrow> vault_out list \<Rightarrow> bool" where
  "call_defers s h t out \<longleftrightarrow> out = [Ask_rewards (vc_converter (va_conf s))] \<and> vault_safe t h \<and> vault_frame s t \<and>
     va_totals t = va_totals s \<and> va_stakes t = va_stakes s"

definition call_result :: "vault_state \<Rightarrow> nat \<Rightarrow> vault_state \<Rightarrow> vault_out list \<Rightarrow> bool" where
  "call_result s h t out \<longleftrightarrow> call_pays s h t out \<or> call_defers s h t out"

lemma vault_frame_refl [simp]: "vault_frame s s"
  by (simp add: vault_frame_def)

lemma vault_frame_trans: "vault_frame s t \<Longrightarrow> vault_frame t u \<Longrightarrow> vault_frame s u"
  by (auto simp: vault_frame_def)

lemma same_setup_frame: "same_setup s t \<Longrightarrow> vault_frame s t \<and> action_of t = action_of s"
  by (simp add: same_setup_def vault_frame_def action_of_def)

lemma with_action_simps [simp]:
  "vault_ok (s\<lparr> va_action := x \<rparr>) = vault_ok s" "vault_debt (s\<lparr> va_action := x \<rparr>) = vault_debt s"
  "stake_of (s\<lparr> va_action := x \<rparr>) a = stake_of s a" "action_of (s\<lparr> va_action := Some act \<rparr>) = act"
  "action_covered (s\<lparr> va_action := x \<rparr>) act = action_covered s act"
  by (simp_all add: vault_ok_def vault_debt_def all_earned_def stake_of_def action_of_def action_covered_def
        cong: reward_action.case_cong)

text \<open>A balance bounds the stakes.\<close>

lemma safe_staked:
  assumes "vault_debt s + decimal_one * n \<le> decimal_one * h"
  shows "vt_staked (va_totals s) + n \<le> h"
proof -
  have "decimal_one * (vt_staked (va_totals s) + n) \<le> decimal_one * h"
    using assms by (simp add: vault_debt_def algebra_simps)
  then show ?thesis by simp
qed

lemma defer_action_result:
  assumes "defer_action s act = Ok (s', out)" "vault_safe s h" "action_of s = No_action" "h \<le> h'" "h' < u128_lim"
    and "\<And>x. act = Ok x \<Longrightarrow> vault_debt s + decimal_one * waiting_stake x \<le> decimal_one * h' \<and> action_covered s x"
  shows "call_defers s h' s' out"
proof -
  obtain x where x: "act = Ok x" and s': "s' = s\<lparr> va_action := Some x \<rparr>"
    and out: "out = [Ask_rewards (vc_converter (va_conf s))]"
    using assms(1,3) by (auto simp: defer_action_def outcome_simps)
  show ?thesis using assms(2,5) assms(6) [OF x]
    by (simp add: call_defers_def vault_safe_def s' out vault_frame_def)
qed

section \<open>The handlers\<close>

lemma stake_result:
  assumes "vault_execute_stake P Q s who n = Ok (s', out)" "vault_safe s h" "action_of s = No_action" "h + n < u128_lim"
  shows "call_result s (h + n) s' out"
proof -
  have debt: "vault_debt s + decimal_one * n \<le> decimal_one * (h + n)"
    using assms(2,3) by (simp add: vault_safe_def distrib_left)
  obtain w where w: "Q (va_conf s) = Ok w"
    using assms(1) by (auto simp: vault_execute_stake_def outcome_simps)
  show ?thesis
  proof (cases "w > 0")
    case True
    then have "defer_action s (and_then (map_err Vault_std (addr_validate P who)) (\<lambda>a. Ok (Act_stake a n))) = Ok (s', out)"
      using assms(1) by (simp add: vault_execute_stake_def w)
    then have "call_defers s (h + n) s' out"
      using assms(2-4) debt
      by (intro defer_action_result [of s _ s' out h]) (auto simp: outcome_simps action_covered_def)
    then show ?thesis by (simp add: call_result_def)
  next
    case False
    then obtain a k where add: "add_stake s a n = Ok (k, s')" and out: "out = pay_positive s who k"
      using assms(1) by (auto simp: vault_execute_stake_def w outcome_simps)
    have small: "vt_staked (va_totals s) + n < u128_lim" using safe_staked [OF debt] assms(4) by simp
    have ok: "vault_ok s" using assms(2) by (simp add: vault_safe_def)
    show ?thesis
      using add_stake_books [OF add ok small] same_setup_frame [of s s'] debt assms(3)
      by (simp add: call_result_def call_pays_def out)
  qed
qed

text \<open>The other handlers without an incoming transfer.\<close>

lemma withdraw_result:
  assumes "vault_withdraw_rewards P Q s who = Ok (s', out)" "vault_safe s h" "action_of s = No_action"
  shows "call_result s h s' out"
proof -
  obtain w where w: "Q (va_conf s) = Ok w"
    using assms(1) by (auto simp: vault_withdraw_rewards_def outcome_simps)
  show ?thesis
  proof (cases "w > 0")
    case True
    then have "defer_action s (and_then (map_err Vault_std (addr_validate P who)) (\<lambda>a. Ok (Act_reward a))) = Ok (s', out)"
      using assms(1) by (simp add: vault_withdraw_rewards_def w)
    then have "call_defers s h s' out"
      using assms(2,3)
      by (intro defer_action_result [of s _ s' out h]) (auto simp: outcome_simps action_covered_def vault_safe_def)
    then show ?thesis by (simp add: call_result_def)
  next
    case False
    then obtain a k where up: "update_rewards s a = Ok (k, s')" and out: "out = [Token_pay (vc_token (va_conf s)) who k]"
      using assms(1) by (auto simp: vault_withdraw_rewards_def w outcome_simps)
    have ok: "vault_ok s" using assms(2) by (simp add: vault_safe_def)
    show ?thesis
      using update_rewards_books [OF up ok] same_setup_frame [of s s'] assms(2,3)
      by (simp add: call_result_def call_pays_def out vault_safe_def)
  qed
qed

lemma unstake_result:
  assumes "vault_unstake Q s info n = Ok (s', out)" "vault_safe s h" "action_of s = No_action"
  shows "call_result s h s' out"
proof -
  obtain w where w: "Q (va_conf s) = Ok w" and n: "n \<le> vs_stake (stake_of s (sender info))"
    using assms(1) by (auto simp: vault_unstake_def outcome_simps split: if_splits)
  show ?thesis
  proof (cases "w > 0")
    case True
    then have "defer_action s (Ok (Act_unstake (sender info) n)) = Ok (s', out)"
      using assms(1) by (simp add: vault_unstake_def w split: if_splits)
    then have "call_defers s h s' out"
      using assms(2,3) n
      by (intro defer_action_result [of s _ s' out h]) (auto simp: action_covered_def vault_safe_def)
    then show ?thesis by (simp add: call_result_def)
  next
    case False
    then obtain k where rem: "remove_stake s (sender info) n = Ok (k, s')"
      and out: "out = Token_pay (vc_token (va_conf s)) (sender info) n # pay_positive s (sender info) k"
      using assms(1) by (auto simp: vault_unstake_def w outcome_simps split: if_splits)
    have ok: "vault_ok s" using assms(2) by (simp add: vault_safe_def)
    show ?thesis
      using remove_stake_books [OF rem ok n] same_setup_frame [of s s'] assms(2,3)
      by (simp add: call_result_def call_pays_def out vault_safe_def)
  qed
qed

lemma syne_result:
  assumes "vault_withdraw_syne Q s info n = Ok (s', out)" "vault_safe s h" "action_of s = No_action"
  shows "call_defers s h s' out" "action_of s' = Act_syne n"
proof -
  obtain w where w: "Q (va_conf s) = Ok w"
    using assms(1) by (auto simp: vault_withdraw_syne_def outcome_simps)
  have "w > 0"
    using assms(1,2) by (auto simp: vault_withdraw_syne_def w outcome_simps vault_safe_def no_withdrawers_def split: if_splits)
  then have d: "defer_action s (Ok (Act_syne n)) = Ok (s', out)"
    using assms(1) by (simp add: vault_withdraw_syne_def w)
  show "call_defers s h s' out"
    using assms(2,3) d
    by (intro defer_action_result [of s _ s' out h]) (auto simp: action_covered_def vault_safe_def)
  show "action_of s' = Act_syne n" using d assms(3) by (auto simp: defer_action_def)
qed

lemma treasury_panics:
  "no_withdrawers (va_conf s) \<Longrightarrow> vault_withdraw_treasury Q s info n = Panic"
  by (simp add: vault_withdraw_treasury_def no_withdrawers_def)

text \<open>Rewards that arrive complete the recorded action, or pay the given account instead.\<close>

lemma distribute_result:
  assumes "vault_distribute s info address n = Ok (s', out)" "vault_safe s h" "h + n < u128_lim"
  shows "call_pays s (h + n) s' out"
proof -
  obtain act where act: "act = (case address of Some a \<Rightarrow> Act_reward a | None \<Rightarrow> action_of s)" by simp
  obtain s1 s2 where s1: "update_total_rewards s n = Ok s1"
    and s2: "complete_action s1 (sender info) act = Ok (s2, out)" and s': "s' = s2\<lparr> va_action := Some No_action \<rparr>"
    using assms(1) by (auto simp: vault_distribute_def Let_def act outcome_simps)
  have ok: "vault_ok s" "fees_fit (va_conf s)" using assms(2) by (simp_all add: vault_safe_def)
  note u = update_total_rewards_books [OF s1 ok]
  have f1: "vault_frame s s1" using same_setup_frame [OF u(3)] by simp
  have wait: "waiting_stake act \<le> waiting_stake (action_of s)" by (simp add: act split: option.splits)
  then have debt: "vault_debt s + decimal_one * waiting_stake act \<le> decimal_one * h"
    using assms(2) mult_le_mono2 [OF wait, of decimal_one] unfolding vault_safe_def by linarith
  have "vt_staked (va_totals s1) + waiting_stake act < u128_lim"
    using safe_staked [OF debt] assms(3) u(5) by simp
  moreover have "action_covered s1 act"
    using assms(2) u(4) by (simp add: act vault_safe_def action_covered_def stake_of_def split: option.splits cong: reward_action.case_cong)
  moreover have "no_withdrawers (va_conf s1)" using f1 assms(2) by (simp add: vault_frame_def vault_safe_def)
  ultimately have books: "vault_ok s2" "vault_debt s2 + decimal_one * paid out \<le> vault_debt s1 + decimal_one * waiting_stake act"
      "only_pays out" "same_setup s1 s2"
    using complete_action_books [OF s2 u(1)] by auto
  have "vault_frame s s2" using same_setup_frame [OF books(4)] f1 vault_frame_trans by blast
  moreover have "vault_debt s2 + decimal_one * paid out \<le> decimal_one * (h + n)"
    using books(2) u(2) debt by (simp add: distrib_left)
  ultimately show ?thesis using books by (simp add: call_pays_def s' vault_frame_def)
qed

section \<open>Calls with their transfers\<close>

text \<open>
  The bToken lets the vault receive \<open>amount\<close> tokens before it calls the vault, and only the token
  calls with a true amount; a balance stays below \<open>2^128\<close> as the supply of the token does.
\<close>

definition arriving :: "vault_state \<Rightarrow> message_info \<Rightarrow> vault_msg \<Rightarrow> nat" where
  "arriving s info msg =
     (case msg of Vm_receive who n hook \<Rightarrow> if sender info = vc_token (va_conf s) then n else 0 | _ \<Rightarrow> 0)"

definition call_vault ::
  "platform \<Rightarrow> (vault_config \<Rightarrow> (std_error, nat) outcome) \<Rightarrow> vault_state \<times> nat \<Rightarrow> message_info \<Rightarrow> vault_msg
     \<Rightarrow> (vault_state \<times> nat \<times> vault_out list) option"
where
  "call_vault P Q sh info msg =
     (let h = snd sh + arriving (fst sh) info msg in
      if h < u128_lim then
        (case vault_execute P Q (fst sh) info msg of Ok (s', out) \<Rightarrow> Some (s', h, out) | _ \<Rightarrow> None)
      else None)"

text \<open>The transfers, which the token refuses when the balance is too small.\<close>

fun take_payments :: "addr \<Rightarrow> nat \<Rightarrow> vault_out list \<Rightarrow> nat option" where
  "take_payments self h [] = Some h"
| "take_payments self h (Token_pay t a n # out) =
     (if n \<le> h then take_payments self (if a = self then h else h - n) out else None)"
| "take_payments self h (Ask_rewards c # out) = None"

lemma take_payments_enough:
  "only_pays out \<Longrightarrow> paid out \<le> h \<Longrightarrow> \<exists>h'. take_payments self h out = Some h' \<and> h \<le> h' + paid out \<and> h' \<le> h"
proof (induction self h out rule: take_payments.induct)
  case (2 self h t a n out)
  have "paid out \<le> (if a = self then h else h - n)" using "2.prems" by auto
  then obtain h' where "take_payments self (if a = self then h else h - n) out = Some h'"
    "(if a = self then h else h - n) \<le> h' + paid out" "h' \<le> (if a = self then h else h - n)"
    using "2.IH" "2.prems" by auto
  then show ?case using "2.prems" by (auto split: if_splits)
qed auto

lemma call_pays_taken:
  assumes "call_pays s h s' out" "vault_safe s0 h0" "vault_frame s0 s" "h < u128_lim"
  shows "\<exists>h'. take_payments self h out = Some h' \<and> h \<le> h' + paid out \<and> h' \<le> h \<and> vault_safe s' h' \<and> action_of s' = No_action"
proof -
  have out: "only_pays out" and books: "vault_debt s' + decimal_one * paid out \<le> decimal_one * h"
    and no: "action_of s' = No_action" and s': "vault_ok s'" "vault_frame s s'"
    using assms(1) by (auto simp: call_pays_def)
  have "decimal_one * paid out \<le> decimal_one * h" using books by linarith
  then have "paid out \<le> h" by simp
  then obtain h' where h': "take_payments self h out = Some h'" "h \<le> h' + paid out" "h' \<le> h"
    using take_payments_enough [OF out] by blast
  have "decimal_one * h \<le> decimal_one * h' + decimal_one * paid out"
    using mult_le_mono2 [OF h'(2), of decimal_one] by (simp add: distrib_left)
  then have "vault_debt s' \<le> decimal_one * h'" using books by linarith
  then have "vault_safe s' h'"
    using assms(2-4) s' no h'(3) by (simp add: vault_safe_def vault_frame_def action_covered_def)
  then show ?thesis using h' no by blast
qed

text \<open>A call whose outputs must be transfers.\<close>

definition settled_call ::
  "platform \<Rightarrow> (vault_config \<Rightarrow> (std_error, nat) outcome) \<Rightarrow> addr \<Rightarrow> vault_state \<times> nat \<Rightarrow> message_info \<Rightarrow> vault_msg
     \<Rightarrow> (vault_state \<times> nat) option"
where
  "settled_call P Q self sh info msg =
     (case call_vault P Q sh info msg of
        Some (s', h, out) \<Rightarrow> map_option (Pair s') (take_payments self h out)
      | None \<Rightarrow> None)"

text \<open>Every call at rest pays or defers, and within its balance.\<close>

lemma call_vault_result:
  assumes "call_vault P Q (s, h) info msg = Some (s', h1, out)" "vault_safe s h" "action_of s = No_action"
  shows "call_result s h1 s' out \<and> h1 = h + arriving s info msg \<and> h1 < u128_lim"
proof -
  have run: "vault_execute P Q s info msg = Ok (s', out)" and h1: "h1 = h + arriving s info msg" "h1 < u128_lim"
    using assms(1) by (auto simp: call_vault_def Let_def split: if_splits outcome.splits)
  have "call_result s h1 s' out"
  proof (cases msg)
    case (Vm_update_admin x)
    then obtain item where "s' = s\<lparr> va_admin := item \<rparr>" "out = []"
      using run by (auto simp: outcome_simps)
    then show ?thesis using assms(2,3) h1(1)
      by (simp add: call_result_def call_pays_def vault_safe_def vault_frame_def vault_ok_def vault_debt_def
          all_earned_def action_of_def arriving_def Vm_update_admin)
  next
    case (Vm_update_config u)
    then have "s' = s" "out = []"
      using run by (auto simp: vault_silent_def vault_update_config_def outcome_simps split: if_splits)
    then show ?thesis using assms(2,3) h1(1)
      by (simp add: call_result_def call_pays_def vault_safe_def arriving_def Vm_update_config)
  next
    case (Vm_receive who n hook)
    then have tok: "sender info = vc_token (va_conf s)" and h1n: "h1 = h + n"
      using run h1 by (auto simp: vault_receive_def arriving_def split: if_splits)
    show ?thesis
    proof (cases "hook = Some Hook_stake")
      case True
      then show ?thesis
        using stake_result [of P Q s who n s' out h] run assms(2,3) h1 tok by (simp add: Vm_receive vault_receive_def h1n)
    next
      case False
      then obtain x where "vault_distribute s info x n = Ok (s', out)"
        using run tok by (cases hook) (auto simp: Vm_receive vault_receive_def split: vault_hook.splits)
      then show ?thesis using distribute_result assms(2) h1 by (simp add: call_result_def h1n)
    qed
  next
    case (Vm_withdraw_rewards who)
    then show ?thesis using withdraw_result [of P Q s who s' out h] run assms(2,3) h1 by (simp add: arriving_def)
  next
    case (Vm_withdraw_treasury n)
    then show ?thesis using run treasury_panics [of s Q info n] assms(2) by (simp add: vault_safe_def)
  next
    case (Vm_withdraw_syne n)
    then show ?thesis using syne_result(1) [of Q s info n s' out h] run assms(2,3) h1
      by (simp add: arriving_def call_result_def)
  next
    case (Vm_unstake n)
    then show ?thesis using unstake_result [of Q s info n s' out h] run assms(2,3) h1 by (simp add: arriving_def)
  next
    case (Vm_distribute a)
    then obtain k where up: "update_rewards s a = Ok (k, s')" and out: "out = pay_positive s a k"
      using run by (auto simp: vault_distribute_user_def outcome_simps)
    have ok: "vault_ok s" using assms(2) by (simp add: vault_safe_def)
    show ?thesis
      using update_rewards_books [OF up ok] same_setup_frame [of s s'] assms(2,3) h1(1)
      by (simp add: call_result_def call_pays_def out vault_safe_def arriving_def Vm_distribute)
  qed
  then show ?thesis using h1 by blast
qed

text \<open>The two calls a converter makes always settle, whatever was recorded before.\<close>

lemma settled_distribute:
  assumes "settled_call P Q self (s, h) info (Vm_receive who n (Some (Hook_distribute x))) = Some (s', h')"
    "vault_safe s h"
  shows "vault_safe s' h' \<and> action_of s' = No_action \<and> vault_frame s s'"
proof -
  obtain h1 out where call: "call_vault P Q (s, h) info (Vm_receive who n (Some (Hook_distribute x))) = Some (s', h1, out)"
    and take: "take_payments self h1 out = Some h'"
    using assms(1) by (auto simp: settled_call_def split: option.splits)
  then have run: "vault_distribute s info x n = Ok (s', out)" and h1: "h1 = h + n" "h1 < u128_lim"
    by (auto simp: call_vault_def Let_def arriving_def vault_receive_def split: if_splits outcome.splits)
  have pays: "call_pays s h1 s' out" using distribute_result [OF run assms(2)] h1 by simp
  obtain h2 where "take_payments self h1 out = Some h2" "vault_safe s' h2" "action_of s' = No_action"
    using call_pays_taken [OF pays assms(2) vault_frame_refl h1(2)] by blast
  then show ?thesis using pays take by (simp add: call_pays_def)
qed

lemma settled_at_rest:
  assumes "settled_call P Q self (s, h) info msg = Some (s', h')" "vault_safe s h" "action_of s = No_action"
  shows "vault_safe s' h' \<and> action_of s' = No_action \<and> vault_frame s s'"
proof -
  obtain h1 out where call: "call_vault P Q (s, h) info msg = Some (s', h1, out)"
    and take: "take_payments self h1 out = Some h'"
    using assms(1) by (auto simp: settled_call_def split: option.splits)
  have r: "call_result s h1 s' out" "h1 < u128_lim" using call_vault_result [OF call assms(2,3)] by auto
  have "\<not> call_defers s h1 s' out" using take by (auto simp: call_defers_def)
  then have pays: "call_pays s h1 s' out" using r by (simp add: call_result_def)
  then show ?thesis using call_pays_taken [OF pays assms(2) vault_frame_refl r(2), of self] take
    by (auto simp: call_pays_def)
qed

section \<open>The two systems\<close>

datatype outer_protocol = Wynd_protocol | Loop_protocol

text \<open>The code of the two contracts, chosen by the protocol.\<close>

fun start_converter ::
  "outer_protocol \<Rightarrow> platform \<Rightarrow> env \<Rightarrow> conv_instantiate_msg \<Rightarrow> (std_error, conv_state \<times> conv_out list) outcome"
where
  "start_converter Wynd_protocol = bw_instantiate"
| "start_converter Loop_protocol = bl_instantiate"

fun start_vault ::
  "outer_protocol \<Rightarrow> platform \<Rightarrow> message_info \<Rightarrow> vault_instantiate_msg \<Rightarrow> (vault_error, vault_state) outcome"
where
  "start_vault Wynd_protocol P = vault_instantiate P ''crates.io:bwynd_vault'' None"
| "start_vault Loop_protocol P = bl_vault_instantiate P"

fun waiting_rewards :: "outer_protocol \<Rightarrow> protocol_host \<Rightarrow> vault_config \<Rightarrow> (std_error, nat) outcome" where
  "waiting_rewards Wynd_protocol = bw_vault_rewards"
| "waiting_rewards Loop_protocol = bl_vault_rewards"

fun withdraw_waiting :: "outer_protocol \<Rightarrow> protocol_host \<Rightarrow> conv_state \<Rightarrow> env \<Rightarrow> (conv_error, conv_out list) outcome" where
  "withdraw_waiting Wynd_protocol = bw_withdraw_rewards"
| "withdraw_waiting Loop_protocol = bl_withdraw_rewards"

fun run_converter ::
  "outer_protocol \<Rightarrow> platform \<Rightarrow> protocol_host \<Rightarrow> conv_state \<Rightarrow> env \<Rightarrow> message_info \<Rightarrow> conv_msg
     \<Rightarrow> (conv_error, conv_state \<times> conv_out list) outcome"
where
  "run_converter Wynd_protocol = bw_execute"
| "run_converter Loop_protocol = bl_execute"

text \<open>The addresses of the vault, the converter and the token, and the library.\<close>

record vault_net =
  vn_outer :: outer_protocol
  vn_platform :: platform
  vn_vault :: addr
  vn_converter :: addr
  vn_token :: addr

record vault_system =
  vy_converter :: conv_state
  vy_vault :: vault_state
  vy_held :: nat

definition converter_env :: "vault_net \<Rightarrow> block_info \<Rightarrow> env" where
  "converter_env N b = \<lparr> block = b, contract_address = vn_converter N \<rparr>"

text \<open>
  The set-up: the converter creates the token, the reply with its address creates the vault, and
  the reply with the vault's address ends it.
\<close>

definition vault_setup :: "vault_net \<Rightarrow> block_info \<Rightarrow> conv_instantiate_msg \<Rightarrow> vault_system option" where
  "vault_setup N b msg =
     (case start_converter (vn_outer N) (vn_platform N) (converter_env N b) msg of
        Ok (c, out0) \<Rightarrow>
          (case conv_reply (vn_platform N) c True 1 (Some (vn_token N)) of
             Ok (c1, [Create_vault code adm tok module bond]) \<Rightarrow>
               (case start_vault (vn_outer N) (vn_platform N) \<lparr> sender = vn_converter N \<rparr>
                       \<lparr> vim_admin = adm, vim_token = tok, vim_staking_module = module, vim_min_bond = bond \<rparr> of
                  Ok v \<Rightarrow>
                    (case conv_reply (vn_platform N) c1 True 2 (Some (vn_vault N)) of
                       Ok (c2, out2) \<Rightarrow> Some \<lparr> vy_converter = c2, vy_vault = v, vy_held = 0 \<rparr>
                     | _ \<Rightarrow> None)
                | _ \<Rightarrow> None)
           | _ \<Rightarrow> None)
      | _ \<Rightarrow> None)"

text \<open>The effect of the converter's messages on the vault and its balance, in their order.\<close>

definition settle_at ::
  "vault_net \<Rightarrow> protocol_host \<Rightarrow> vault_state \<times> nat \<Rightarrow> addr \<Rightarrow> vault_msg \<Rightarrow> (vault_state \<times> nat) option"
where
  "settle_at N H sh who msg =
     settled_call (vn_platform N) (waiting_rewards (vn_outer N) H) (vn_vault N) sh \<lparr> sender = who \<rparr> msg"

fun deliver_msg :: "vault_net \<Rightarrow> protocol_host \<Rightarrow> conv_out \<Rightarrow> vault_state \<times> nat \<Rightarrow> (vault_state \<times> nat) option" where
  "deliver_msg N H (Vault_send tok v n x) sh =
     (if tok = vn_token N \<and> v = vn_vault N
      then settle_at N H sh (vn_token N) (Vm_receive (vn_converter N) n (Some (Hook_distribute x)))
      else Some sh)"
| "deliver_msg N H (Vault_pay_user v a) sh =
     (if v = vn_vault N then settle_at N H sh (vn_converter N) (Vm_distribute a) else Some sh)"
| "deliver_msg N H (Btoken_mint tok r n) sh =
     (if tok = vn_token N \<and> r = vn_vault N
      then (if snd sh + n < u128_lim then Some (fst sh, snd sh + n) else None)
      else Some sh)"
| "deliver_msg N H out sh = Some sh"

primrec deliver :: "vault_net \<Rightarrow> protocol_host \<Rightarrow> conv_out list \<Rightarrow> vault_state \<times> nat \<Rightarrow> (vault_state \<times> nat) option" where
  "deliver N H [] sh = Some sh"
| "deliver N H (m # ms) sh = (case deliver_msg N H m sh of Some sh' \<Rightarrow> deliver N H ms sh' | None \<Rightarrow> None)"

text \<open>A transaction at the vault: its request for rewards runs the converter before it ends.\<close>

definition vault_tx ::
  "vault_net \<Rightarrow> protocol_host \<Rightarrow> block_info \<Rightarrow> vault_system \<Rightarrow> message_info \<Rightarrow> vault_msg \<Rightarrow> vault_system option"
where
  "vault_tx N H b y info msg =
     (case call_vault (vn_platform N) (waiting_rewards (vn_outer N) H) (vy_vault y, vy_held y) info msg of
        None \<Rightarrow> None
      | Some (s, h, out) \<Rightarrow>
          (if out = [Ask_rewards (vn_converter N)] then
             (case withdraw_waiting (vn_outer N) H (vy_converter y) (converter_env N b) of
                Ok cout \<Rightarrow>
                  map_option (\<lambda>(s', h'). y\<lparr> vy_vault := s', vy_held := h' \<rparr>) (deliver N H cout (s, h))
              | _ \<Rightarrow> None)
           else map_option (\<lambda>h'. y\<lparr> vy_vault := s, vy_held := h' \<rparr>) (take_payments (vn_vault N) h out)))"

definition converter_tx ::
  "vault_net \<Rightarrow> protocol_host \<Rightarrow> block_info \<Rightarrow> vault_system \<Rightarrow> message_info \<Rightarrow> conv_msg \<Rightarrow> vault_system option"
where
  "converter_tx N H b y info msg =
     (case run_converter (vn_outer N) (vn_platform N) H (vy_converter y) (converter_env N b) info msg of
        Ok (c, cout) \<Rightarrow>
          map_option (\<lambda>(s', h'). \<lparr> vy_converter = c, vy_vault = s', vy_held = h' \<rparr>)
            (deliver N H cout (vy_vault y, vy_held y))
      | _ \<Rightarrow> None)"

text \<open>The reachable systems; anybody may also transfer tokens to the vault.\<close>

inductive vault_step :: "vault_net \<Rightarrow> vault_system \<Rightarrow> vault_system \<Rightarrow> bool" for N where
  at_vault: "vault_tx N H b y info msg = Some y' \<Longrightarrow> vault_step N y y'"
| at_converter: "converter_tx N H b y info msg = Some y' \<Longrightarrow> vault_step N y y'"
| gift: "vy_held y + n < u128_lim \<Longrightarrow> vault_step N y (y\<lparr> vy_held := vy_held y + n \<rparr>)"

inductive vault_reachable :: "vault_net \<Rightarrow> vault_system \<Rightarrow> bool" for N where
  set_up: "vault_setup N b msg = Some y \<Longrightarrow> vault_reachable N y"
| step: "vault_reachable N y \<Longrightarrow> vault_step N y y' \<Longrightarrow> vault_reachable N y'"

text \<open>The three contracts have different addresses.\<close>

definition vault_net_ok :: "vault_net \<Rightarrow> bool" where
  "vault_net_ok N \<longleftrightarrow> platform_exact (vn_platform N) \<and> vn_token N \<noteq> vn_converter N \<and>
     vn_vault N \<noteq> vn_converter N"

section \<open>The converter as a deliverer of rewards\<close>

definition wired :: "vault_net \<Rightarrow> conv_state \<Rightarrow> bool" where
  "wired N c \<longleftrightarrow> cc_btoken (cv_conf c) = Some (vn_token N) \<and> cc_vault (cv_conf c) = Some (vn_vault N)"

text \<open>Messages that do not concern the vault.\<close>

fun passes_by :: "conv_out \<Rightarrow> bool" where
  "passes_by (Vault_send tok v n x) = False"
| "passes_by (Vault_pay_user v a) = False"
| "passes_by (Btoken_mint tok r n) = False"
| "passes_by m = True"

lemma passes_by_deliver: "passes_by m \<Longrightarrow> deliver_msg N H m sh = Some sh"
  by (cases m) simp_all

lemma deliver_append:
  "deliver N H (xs @ ys) sh = (case deliver N H xs sh of Some sh' \<Rightarrow> deliver N H ys sh' | None \<Rightarrow> None)"
  by (induction xs arbitrary: sh) (auto split: option.splits)

lemma deliver_passing: "list_all passes_by xs \<Longrightarrow> deliver N H xs sh = Some sh"
  by (induction xs) (auto simp: passes_by_deliver)

text \<open>
  The contract of the converters: a withdrawal that succeeds mints the positive waiting amount to
  the converter and sends all of it to the vault, for nobody in particular.
\<close>

locale reward_deliverer =
  fixes withdraw :: "protocol_host \<Rightarrow> conv_state \<Rightarrow> env \<Rightarrow> (conv_error, conv_out list) outcome"
    and waiting :: "protocol_host \<Rightarrow> conv_state \<Rightarrow> env \<Rightarrow> (conv_error, nat) outcome"
  assumes delivers: "cc_btoken (cv_conf c) = Some b \<Longrightarrow> cc_vault (cv_conf c) = Some v \<Longrightarrow>
      withdraw H c e = Ok out \<Longrightarrow> \<exists>pre w. list_all passes_by pre \<and> 0 < w \<and> waiting H c e = Ok w \<and>
        out = pre @ [Btoken_mint b (contract_address e) w, Vault_send b v w None]"
    and able: "cc_btoken (cv_conf c) = Some b \<Longrightarrow> cc_vault (cv_conf c) = Some v \<Longrightarrow>
      waiting H c e = Ok w \<Longrightarrow> 0 < w \<Longrightarrow> \<exists>out. withdraw H c e = Ok out"
begin

lemma delivery:
  assumes "withdraw H c (converter_env N b) = Ok out" "wired N c" "vn_vault N \<noteq> vn_converter N"
  obtains w where "0 < w" "waiting H c (converter_env N b) = Ok w"
    "deliver N H out sh = settle_at N H sh (vn_token N) (Vm_receive (vn_converter N) w (Some (Hook_distribute None)))"
proof -
  have toks: "cc_btoken (cv_conf c) = Some (vn_token N)" "cc_vault (cv_conf c) = Some (vn_vault N)"
    using assms(2) by (simp_all add: wired_def)
  obtain pre w where pre: "list_all passes_by pre" "0 < w" "waiting H c (converter_env N b) = Ok w"
    and out: "out = pre @ [Btoken_mint (vn_token N) (contract_address (converter_env N b)) w,
        Vault_send (vn_token N) (vn_vault N) w None]"
    using delivers [OF toks assms(1)] by blast
  have "deliver N H out sh = settle_at N H sh (vn_token N) (Vm_receive (vn_converter N) w (Some (Hook_distribute None)))"
    using assms(3) by (simp add: out deliver_append deliver_passing [OF pre(1)] converter_env_def split: option.splits)
  then show thesis using that pre by blast
qed

end

definition bw_waiting :: "protocol_host \<Rightarrow> conv_state \<Rightarrow> env \<Rightarrow> (conv_error, nat) outcome" where
  "bw_waiting H c e = bw_withdrawable H (cv_conf c) (contract_address e)"

definition bl_waiting :: "protocol_host \<Rightarrow> conv_state \<Rightarrow> env \<Rightarrow> (conv_error, nat) outcome" where
  "bl_waiting H c e = bl_withdrawable H (cv_conf c) (contract_address e)"

interpretation bw: reward_deliverer bw_withdraw_rewards bw_waiting
proof unfold_locales
  fix c b v H e out
  assume "cc_btoken (cv_conf c) = Some b" "cc_vault (cv_conf c) = Some v" "bw_withdraw_rewards H c e = Ok out"
  then show "\<exists>pre w. list_all passes_by pre \<and> 0 < w \<and> bw_waiting H c e = Ok w \<and>
      out = pre @ [Btoken_mint b (contract_address e) w, Vault_send b v w None]"
    by (intro exI [of _ "butlast (butlast out)"])
      (auto simp: bw_withdraw_rewards_def bw_waiting_def Let_def outcome_simps)
qed (auto simp: bw_withdraw_rewards_def bw_waiting_def Let_def outcome_simps)

interpretation bl: reward_deliverer bl_withdraw_rewards bl_waiting
proof unfold_locales
  fix c b v H e out
  assume "cc_btoken (cv_conf c) = Some b" "cc_vault (cv_conf c) = Some v" "bl_withdraw_rewards H c e = Ok out"
  then show "\<exists>pre w. list_all passes_by pre \<and> 0 < w \<and> bl_waiting H c e = Ok w \<and>
      out = pre @ [Btoken_mint b (contract_address e) w, Vault_send b v w None]"
    by (intro exI [of _ "butlast (butlast out)"])
      (auto simp: bl_withdraw_rewards_def bl_waiting_def Let_def outcome_simps)
qed (auto simp: bl_withdraw_rewards_def bl_waiting_def Let_def outcome_simps)

section \<open>The invariant\<close>

definition system_ok :: "vault_net \<Rightarrow> vault_system \<Rightarrow> bool" where
  "system_ok N y \<longleftrightarrow> vault_safe (vy_vault y) (vy_held y) \<and> action_of (vy_vault y) = No_action \<and>
     wired N (vy_converter y) \<and> vc_token (va_conf (vy_vault y)) = vn_token N \<and>
     vc_converter (va_conf (vy_vault y)) = vn_converter N"

lemma deliver_at_rest:
  assumes "deliver N H out (s, h) = Some (s', h')" "vault_safe s h" "action_of s = No_action"
  shows "vault_safe s' h' \<and> action_of s' = No_action \<and> vault_frame s s'"
  using assms
proof (induction out arbitrary: s h)
  case (Cons m out)
  obtain s1 h1 where m: "deliver_msg N H m (s, h) = Some (s1, h1)" and r: "deliver N H out (s1, h1) = Some (s', h')"
    using Cons.prems(1) by (auto split: option.splits)
  have "vault_safe s1 h1 \<and> action_of s1 = No_action \<and> vault_frame s s1"
  proof (cases m)
    case (Vault_send tok v n x)
    then show ?thesis
      using m Cons.prems settled_at_rest by (auto simp: settle_at_def split: if_splits)
  next
    case (Vault_pay_user v a)
    then show ?thesis
      using m Cons.prems settled_at_rest by (auto simp: settle_at_def split: if_splits)
  next
    case (Btoken_mint tok r n)
    then show ?thesis using m Cons.prems by (auto simp: vault_safe_def distrib_left split: if_splits)
  qed (use m Cons.prems in auto)
  then show ?case using Cons.IH [OF r] vault_frame_trans by blast
qed simp

lemma run_converter_wired:
  assumes "run_converter k P H c e info msg = Ok (c', out)" "wired N c"
  shows "wired N c'"
proof -
  have conf: "cc_btoken (cv_conf c') = cc_btoken (cv_conf c) \<and> cc_vault (cv_conf c') = cc_vault (cv_conf c)"
    using assms(1)
    by (cases k; cases msg)
      (auto simp: no_out_def same_state_def conv_update_admin_def conv_update_config_def bw_update_gauge_config_def
        bl_update_gauge_config_def conv_update_gauge_config_def Let_def outcome_simps split: if_splits option.splits)
  then show ?thesis using assms(2) by (simp add: wired_def)
qed

lemma withdraw_waiting_delivery:
  assumes "withdraw_waiting k H c (converter_env N b) = Ok out" "wired N c" "vn_vault N \<noteq> vn_converter N"
  obtains w where "0 < w"
    "deliver N H out sh = settle_at N H sh (vn_token N) (Vm_receive (vn_converter N) w (Some (Hook_distribute None)))"
  using assms bw.delivery bl.delivery by (cases k) (metis withdraw_waiting.simps(1), metis withdraw_waiting.simps(2))

lemma vault_setup_ok:
  assumes "vault_setup N b msg = Some y" "vault_net_ok N"
  shows "system_ok N y"
proof -
  obtain c out0 c1 code adm tok module bond v c2 out2
    where c1: "conv_reply (vn_platform N) c True 1 (Some (vn_token N)) = Ok (c1, [Create_vault code adm tok module bond])"
      and v: "start_vault (vn_outer N) (vn_platform N) \<lparr> sender = vn_converter N \<rparr>
          \<lparr> vim_admin = adm, vim_token = tok, vim_staking_module = module, vim_min_bond = bond \<rparr> = Ok v"
      and c2: "conv_reply (vn_platform N) c1 True 2 (Some (vn_vault N)) = Ok (c2, out2)"
      and y: "y = \<lparr> vy_converter = c2, vy_vault = v, vy_held = 0 \<rparr>"
    using assms(1) by (auto simp: vault_setup_def split: outcome.splits prod.splits list.splits conv_out.splits)
  have P: "platform_exact (vn_platform N)" using assms(2) by (simp add: vault_net_ok_def)
  have tok: "tok = vn_token N" "cc_btoken (cv_conf c1) = Some (vn_token N)"
    using c1 platform_exactD [OF P] by (auto simp: conv_reply_def conv_reply_btoken_def Let_def outcome_simps)
  have w: "wired N c2"
    using c2 tok(2) platform_exactD [OF P] by (auto simp: conv_reply_def conv_reply_vault_def wired_def outcome_simps)
  have "vc_token (va_conf v) = vn_token N \<and> vc_converter (va_conf v) = vn_converter N \<and> no_withdrawers (va_conf v) \<and>
      fees_fit (va_conf v) \<and> va_action v = None \<and> va_stakes v = [] \<and>
      va_totals v = \<lparr> vt_staked = 0, vt_treasury = 0, vt_syne = 0, vt_power = 0 \<rparr>"
    using v tok platform_exactD [OF P]
    by (cases "vn_outer N")
      (auto simp: bl_vault_instantiate_def vault_instantiate_def outcome_simps no_withdrawers_def fees_fit_def decimal_one_def)
  then show ?thesis using w
    by (simp add: system_ok_def y vault_safe_def vault_ok_def vault_debt_def all_earned_def action_of_def action_covered_def)
qed

text \<open>What a transaction at the vault does: it settles, or completes the action it records.\<close>

lemma vault_tx_cases:
  assumes "vault_tx N H b y info msg = Some y'" "system_ok N y" "vault_net_ok N"
  obtains
    (pays) s h1 out h' where
      "call_vault (vn_platform N) (waiting_rewards (vn_outer N) H) (vy_vault y, vy_held y) info msg = Some (s, h1, out)"
      "call_pays (vy_vault y) h1 s out" "h1 = vy_held y + arriving (vy_vault y) info msg" "h1 < u128_lim"
      "take_payments (vn_vault N) h1 out = Some h'" "y' = y\<lparr> vy_vault := s, vy_held := h' \<rparr>"
  | (defers) s h1 out w s' h' where
      "call_vault (vn_platform N) (waiting_rewards (vn_outer N) H) (vy_vault y, vy_held y) info msg = Some (s, h1, out)"
      "call_defers (vy_vault y) h1 s out" "h1 = vy_held y + arriving (vy_vault y) info msg" "h1 < u128_lim" "0 < w"
      "settle_at N H (s, h1) (vn_token N) (Vm_receive (vn_converter N) w (Some (Hook_distribute None))) = Some (s', h')"
      "y' = y\<lparr> vy_vault := s', vy_held := h' \<rparr>"
proof -
  have inv: "vault_safe (vy_vault y) (vy_held y)" "action_of (vy_vault y) = No_action" "wired N (vy_converter y)"
    "vc_converter (va_conf (vy_vault y)) = vn_converter N" "vn_vault N \<noteq> vn_converter N"
    using assms(2,3) by (auto simp: system_ok_def vault_net_ok_def)
  obtain s h1 out where
    call: "call_vault (vn_platform N) (waiting_rewards (vn_outer N) H) (vy_vault y, vy_held y) info msg = Some (s, h1, out)"
    using assms(1) by (auto simp: vault_tx_def split: option.splits)
  have r: "call_result (vy_vault y) h1 s out" "h1 = vy_held y + arriving (vy_vault y) info msg" "h1 < u128_lim"
    using call_vault_result [OF call inv(1,2)] by auto
  show thesis
  proof (cases "call_pays (vy_vault y) h1 s out")
    case True
    then have "out \<noteq> [Ask_rewards (vn_converter N)]" by (auto simp: call_pays_def)
    then obtain h' where "take_payments (vn_vault N) h1 out = Some h'" "y' = y\<lparr> vy_vault := s, vy_held := h' \<rparr>"
      using assms(1) by (auto simp: vault_tx_def call)
    then show thesis using pays call True r by blast
  next
    case False
    then have d: "call_defers (vy_vault y) h1 s out" using r(1) by (simp add: call_result_def)
    then have "out = [Ask_rewards (vn_converter N)]" using inv(4) by (simp add: call_defers_def)
    then obtain cout s' h' where cout: "withdraw_waiting (vn_outer N) H (vy_converter y) (converter_env N b) = Ok cout"
      and del: "deliver N H cout (s, h1) = Some (s', h')" and y': "y' = y\<lparr> vy_vault := s', vy_held := h' \<rparr>"
      using assms(1) by (auto simp: vault_tx_def call split: outcome.splits)
    obtain w where w: "0 < w"
      "deliver N H cout (s, h1) = settle_at N H (s, h1) (vn_token N) (Vm_receive (vn_converter N) w (Some (Hook_distribute None)))"
      by (rule withdraw_waiting_delivery [OF cout inv(3,5), of "(s, h1)"])
    then show thesis using defers [OF call d r(2,3) w(1), of s' h'] del w(2) y' by simp
  qed
qed

lemma vault_tx_ok:
  assumes "vault_tx N H b y info msg = Some y'" "system_ok N y" "vault_net_ok N"
  shows "system_ok N y' \<and> vault_frame (vy_vault y) (vy_vault y')"
  using assms
proof (cases rule: vault_tx_cases)
  case (pays s h1 out h')
  then obtain h2 where "take_payments (vn_vault N) h1 out = Some h2" "vault_safe s h2" "action_of s = No_action"
    using call_pays_taken [OF pays(2) _ vault_frame_refl pays(4), of _ "vn_vault N"] assms(2)
    by (auto simp: system_ok_def)
  then show ?thesis using pays assms(2) by (auto simp: system_ok_def call_pays_def vault_frame_def)
next
  case (defers s h1 out w s' h')
  have "vault_safe s' h' \<and> action_of s' = No_action \<and> vault_frame s s'"
    using settled_distribute defers(2,6) by (simp add: settle_at_def call_defers_def)
  moreover have "vault_frame (vy_vault y) s" using defers(2) by (simp add: call_defers_def)
  ultimately show ?thesis using vault_frame_trans [of "vy_vault y" s s'] assms(2) defers(7)
    by (auto simp: system_ok_def vault_frame_def)
qed

lemma converter_tx_ok:
  assumes "converter_tx N H b y info msg = Some y'" "system_ok N y"
  shows "system_ok N y' \<and> vault_frame (vy_vault y) (vy_vault y')"
proof -
  obtain c out s' h' where run: "run_converter (vn_outer N) (vn_platform N) H (vy_converter y) (converter_env N b) info msg = Ok (c, out)"
    and del: "deliver N H out (vy_vault y, vy_held y) = Some (s', h')"
    and y': "y' = \<lparr> vy_converter = c, vy_vault = s', vy_held = h' \<rparr>"
    using assms(1) by (auto simp: converter_tx_def split: outcome.splits)
  have "vault_safe s' h' \<and> action_of s' = No_action \<and> vault_frame (vy_vault y) s'"
    using deliver_at_rest [OF del] assms(2) by (simp add: system_ok_def)
  then show ?thesis using run_converter_wired [OF run] assms(2) by (auto simp: system_ok_def y' vault_frame_def)
qed

lemma vault_step_ok:
  assumes "vault_step N y y'" "system_ok N y" "vault_net_ok N"
  shows "system_ok N y' \<and> vault_frame (vy_vault y) (vy_vault y')"
  using assms
proof (cases rule: vault_step.cases)
  case (gift n)
  then show ?thesis using assms(2) by (auto simp: system_ok_def vault_safe_def distrib_left)
qed (use vault_tx_ok converter_tx_ok in blast)+

lemma vault_reachable_ok:
  assumes "vault_reachable N y" "vault_net_ok N"
  shows "system_ok N y"
  using assms(1) by induction (use vault_setup_ok vault_step_ok assms(2) in blast)+

end
