(* ===== verification/Vault_Props.thy ===== *)
theory Vault_Props
  imports Vault_System
begin

text \<open>
  The properties of the vaults and their converters, each over every state that transactions reach
  from the set-up, with a concrete run for the witnesses.
\<close>

section \<open>What the stakes become\<close>

lemma settled_distribution_run:
  assumes "settle_at N H (s, h) tok (Vm_receive who w (Some (Hook_distribute None))) = Some (s', h')"
  obtains s1 s2 out where "update_total_rewards s w = Ok s1" "complete_action s1 tok (action_of s) = Ok (s2, out)"
    "s' = s2\<lparr> va_action := Some No_action \<rparr>"
proof -
  have "\<exists>out. vault_distribute s \<lparr> sender = tok \<rparr> None w = Ok (s', out)"
    using assms by (auto simp: settle_at_def settled_call_def call_vault_def Let_def vault_receive_def
        split: if_splits option.splits outcome.splits)
  then show thesis using that by (auto simp: vault_distribute_def Let_def outcome_simps)
qed

lemma stake_of_set: "stake_of (s\<lparr> va_stakes := kv_set m a st, va_totals := t \<rparr>) x =
    (if x = a then st else stake_of (s\<lparr> va_stakes := m \<rparr>) x)"
  "stake_of (s\<lparr> va_stakes := kv_set m a st \<rparr>) x = (if x = a then st else stake_of (s\<lparr> va_stakes := m \<rparr>) x)"
  by (simp_all add: stake_of_def)

lemma same_stakes: "va_stakes t = va_stakes s \<Longrightarrow> stake_of t x = stake_of s x"
  by (simp add: stake_of_def)

lemma remove_stake_stakes:
  assumes "remove_stake s a k = Ok (n, s')"
  shows "vs_stake (stake_of s' x) = vs_stake (stake_of s x) - (if x = a then k else 0)"
  using assms by (auto simp: remove_stake_def Let_def outcome_simps stake_of_set)

lemma add_stake_stakes:
  assumes "add_stake s a k = Ok (n, s')" "vault_ok s" "vt_staked (va_totals s) + k < u128_lim"
  shows "vs_stake (stake_of s' x) = vs_stake (stake_of s x) + (if x = a then k else 0)"
  using assms stake_of_le [OF assms(2), of a]
  by (auto simp: add_stake_def add_or_zero_def Let_def outcome_simps stake_of_set)

lemma update_total_rewards_stakes:
  assumes "update_total_rewards s r = Ok s'"
  shows "va_stakes s' = va_stakes s" "vt_staked (va_totals s') = vt_staked (va_totals s)" "va_conf s' = va_conf s"
proof -
  obtain tf sf q where "s' = s\<lparr> va_totals := (va_totals s)\<lparr> vt_treasury := vt_treasury (va_totals s) + tf,
        vt_syne := vt_syne (va_totals s) + sf, vt_power := vt_power (va_totals s) + q \<rparr> \<rparr>"
    using update_total_rewards_cases [OF assms] by metis
  then show "va_stakes s' = va_stakes s" "vt_staked (va_totals s') = vt_staked (va_totals s)" "va_conf s' = va_conf s"
    by simp_all
qed

lemma pay_positive_never_asks [simp]: "pay_positive s a n \<noteq> [Ask_rewards c]"
  by (simp add: pay_positive_def)

lemma unstake_tx_stakes:
  assumes "vault_tx N H b y info (Vm_unstake k) = Some y'" "system_ok N y" "vault_net_ok N"
  shows "0 < k" "k \<le> vs_stake (stake_of (vy_vault y) (sender info))"
    "vs_stake (stake_of (vy_vault y') x) = vs_stake (stake_of (vy_vault y) x) - (if x = sender info then k else 0)"
proof -
  have "0 < k \<and> k \<le> vs_stake (stake_of (vy_vault y) (sender info)) \<and>
    vs_stake (stake_of (vy_vault y') x) = vs_stake (stake_of (vy_vault y) x) - (if x = sender info then k else 0)"
    using assms
  proof (cases rule: vault_tx_cases)
    case (pays s h1 out h')
    have run: "vault_unstake (waiting_rewards (vn_outer N) H) (vy_vault y) info k = Ok (s, out)"
      using pays(1) by (auto simp: call_vault_def Let_def split: if_splits outcome.splits)
    then obtain n where "remove_stake (vy_vault y) (sender info) k = Ok (n, s)"
      using pays(2) by (auto simp: vault_unstake_def defer_action_def call_pays_def outcome_simps
          split: if_splits reward_action.splits)
    then show ?thesis using run pays(6) remove_stake_stakes by (auto simp: vault_unstake_def split: if_splits)
  next
    case (defers s h1 out w s' h')
    have run: "vault_unstake (waiting_rewards (vn_outer N) H) (vy_vault y) info k = Ok (s, out)"
      using defers(1) by (auto simp: call_vault_def Let_def split: if_splits outcome.splits)
    then have act: "action_of s = Act_unstake (sender info) k"
      using defers(2) by (auto simp: vault_unstake_def defer_action_def call_defers_def outcome_simps
          split: if_splits reward_action.splits)
    obtain s1 s2 out2 where s1: "update_total_rewards s w = Ok s1"
      and "complete_action s1 (vn_token N) (action_of s) = Ok (s2, out2)"
      and s': "s' = s2\<lparr> va_action := Some No_action \<rparr>"
      by (rule settled_distribution_run [OF defers(6)])
    then obtain n where rem: "remove_stake s1 (sender info) k = Ok (n, s2)"
      by (auto simp: act outcome_simps)
    have "stake_of s1 z = stake_of (vy_vault y) z" for z
      using update_total_rewards_stakes(1) [OF s1] defers(2) by (intro same_stakes) (simp add: call_defers_def)
    then show ?thesis
      using run defers(7) remove_stake_stakes [OF rem, of x] by (auto simp: s' vault_unstake_def split: if_splits)
  qed
  then show "0 < k" "k \<le> vs_stake (stake_of (vy_vault y) (sender info))"
    "vs_stake (stake_of (vy_vault y') x) = vs_stake (stake_of (vy_vault y) x) - (if x = sender info then k else 0)"
    by blast+
qed

lemma stake_tx_stakes:
  assumes "vault_tx N H b y \<lparr> sender = vn_token N \<rparr> (Vm_receive who k (Some Hook_stake)) = Some y'" "system_ok N y" "vault_net_ok N"
  shows "vs_stake (stake_of (vy_vault y') x) = vs_stake (stake_of (vy_vault y) x) + (if x = who then k else 0)"
proof -
  have tok: "vc_token (va_conf (vy_vault y)) = vn_token N" and P: "platform_exact (vn_platform N)"
    using assms(2,3) by (simp_all add: system_ok_def vault_net_ok_def)
  show ?thesis
    using assms
  proof (cases rule: vault_tx_cases)
    case (pays s h1 out h')
    have run: "vault_execute_stake (vn_platform N) (waiting_rewards (vn_outer N) H) (vy_vault y) who k = Ok (s, out)"
      using pays(1) tok by (auto simp: call_vault_def vault_receive_def Let_def split: if_splits outcome.splits)
    then obtain n a where a: "addr_validate (vn_platform N) who = Ok a" and "add_stake (vy_vault y) a k = Ok (n, s)"
      using pays(2) by (auto simp: vault_execute_stake_def defer_action_def call_pays_def outcome_simps
          split: if_splits reward_action.splits)
    moreover have "a = who" using platform_exactD [OF P a] .
    moreover have "vault_ok (vy_vault y)" "vt_staked (va_totals (vy_vault y)) + k < u128_lim"
      using assms(2) pays(3,4) safe_staked [of "vy_vault y" 0 "vy_held y"]
      by (auto simp: system_ok_def vault_safe_def arriving_def tok)
    ultimately show ?thesis using add_stake_stakes pays(6) by simp
  next
    case (defers s h1 out w s' h')
    have run: "vault_execute_stake (vn_platform N) (waiting_rewards (vn_outer N) H) (vy_vault y) who k = Ok (s, out)"
      using defers(1) tok by (auto simp: call_vault_def vault_receive_def Let_def split: if_splits outcome.splits)
    then have act: "action_of s = Act_stake who k"
      using defers(2) platform_exactD [OF P] by (auto simp: vault_execute_stake_def defer_action_def call_defers_def outcome_simps
          split: if_splits reward_action.splits)
    obtain s1 s2 out2 where s1: "update_total_rewards s w = Ok s1"
      and "complete_action s1 (vn_token N) (action_of s) = Ok (s2, out2)"
      and s': "s' = s2\<lparr> va_action := Some No_action \<rparr>"
      by (rule settled_distribution_run [OF defers(6)])
    then obtain n where add: "add_stake s1 who k = Ok (n, s2)"
      by (auto simp: act outcome_simps)
    have safe: "vault_safe s h1" using defers(2) by (simp add: call_defers_def)
    have "vault_ok s1" using update_total_rewards_books(1) [OF s1] safe by (simp add: vault_safe_def)
    moreover have "vt_staked (va_totals s) + k \<le> h1" using safe safe_staked by (simp add: vault_safe_def act)
    ultimately have "vs_stake (stake_of s2 x) = vs_stake (stake_of s1 x) + (if x = who then k else 0)"
      using add_stake_stakes [OF add] defers(4) update_total_rewards_stakes(2) [OF s1] by simp
    moreover have "stake_of s1 x = stake_of (vy_vault y) x"
      using update_total_rewards_stakes(1) [OF s1] defers(2) by (intro same_stakes) (simp add: call_defers_def)
    ultimately show ?thesis using defers(7) by (simp add: s')
  qed
qed

text \<open>The distributor is never served: the request fails, or its completion does.\<close>

lemma syne_tx_fails:
  assumes "system_ok N y" "vault_net_ok N"
  shows "vault_tx N H b y info (Vm_withdraw_syne k) = None"
proof (rule ccontr)
  assume "vault_tx N H b y info (Vm_withdraw_syne k) \<noteq> None"
  then obtain y' where tx: "vault_tx N H b y info (Vm_withdraw_syne k) = Some y'" by auto
  have inv: "vault_safe (vy_vault y) (vy_held y)" "action_of (vy_vault y) = No_action"
    using assms(1) by (simp_all add: system_ok_def)
  have run: "call_defers (vy_vault y) (vy_held y) s out \<and> action_of s = Act_syne k"
    if "call_vault (vn_platform N) Q (vy_vault y, vy_held y) info (Vm_withdraw_syne k) = Some (s, h1, out)" for Q s h1 out
    using that syne_result [OF _ inv] by (auto simp: call_vault_def Let_def split: if_splits outcome.splits)
  show False using tx assms
  proof (cases rule: vault_tx_cases)
    case (pays s h1 out h')
    then show False using run by (auto simp: call_pays_def call_defers_def)
  next
    case (defers s h1 out w s' h')
    obtain s1 s2 out2 where s1: "update_total_rewards s w = Ok s1"
      and c: "complete_action s1 (vn_token N) (action_of s) = Ok (s2, out2)"
      by (rule settled_distribution_run [OF defers(6)])
    have "vc_converter (va_conf s1) = vn_converter N"
      using update_total_rewards_stakes(3) [OF s1] defers(2) assms(1) by (simp add: call_defers_def vault_frame_def system_ok_def)
    then show False using c run [OF defers(1)] assms(2)
      by (auto simp: update_syne_staking_amounts_def Let_def outcome_simps vault_net_ok_def split: if_splits)
  qed
qed

lemma treasury_tx_fails:
  assumes "system_ok N y"
  shows "vault_execute P Q (vy_vault y) info (Vm_withdraw_treasury k) = Panic"
    "vault_tx N H b y info (Vm_withdraw_treasury k) = None"
proof -
  have "no_withdrawers (va_conf (vy_vault y))" using assms by (simp add: system_ok_def vault_safe_def)
  then show "vault_execute P Q (vy_vault y) info (Vm_withdraw_treasury k) = Panic"
    "vault_tx N H b y info (Vm_withdraw_treasury k) = None"
    using treasury_panics by (auto simp: vault_tx_def call_vault_def Let_def)
qed

section \<open>What the converters mint\<close>

fun minted :: "conv_out list \<Rightarrow> nat" where
  "minted [] = 0"
| "minted (Btoken_mint t r n # out) = n + minted out"
| "minted (_ # out) = minted out"

fun put_to_work :: "conv_out list \<Rightarrow> nat" where
  "put_to_work [] = 0"
| "put_to_work (Vesting_delegate t n p # out) = n + put_to_work out"
| "put_to_work (Protocol_stake t m n p # out) = n + put_to_work out"
| "put_to_work (_ # out) = put_to_work out"

lemma cosmos_mints_nothing: "minted (map Cosmos_msg ms) = 0" "put_to_work (map Cosmos_msg ms) = 0"
  by (induction ms) auto

section \<open>A concrete run\<close>

definition demo_net :: vault_net where
  "demo_net = \<lparr> vn_outer = Wynd_protocol, vn_platform = demo_platform, vn_vault = ''vault'',
     vn_converter = ''converter'', vn_token = ''btoken'' \<rparr>"

definition vault_demo_block :: block_info where
  "vault_demo_block = \<lparr> block_height = 1, block_time = 0 \<rparr>"

text \<open>A protocol in which \<open>w\<close> tokens wait.\<close>

definition demo_host :: "nat \<Rightarrow> protocol_host" where
  "demo_host w = \<lparr> wynd_rewards = (\<lambda>m a. Some w), loop_rewards = (\<lambda>m a. Some (w, 0)) \<rparr>"

definition demo_conv_msg :: conv_instantiate_msg where
  "demo_conv_msg = \<lparr> cim_admin = ''admin'', cim_cw20_code = 7, cim_vault_code = 8, cim_synergistic = None \<rparr>"

definition demo_converter :: conv_state where
  "demo_converter = \<lparr> cv_version = (bw_name, conv_version),
     cv_conf = \<lparr> cc_admin = ''admin'', cc_cw20_code = 7, cc_vault_code = 8,
       cc_token = ''juno1mkw83sv6c7sjdvsaplrzc8yaes9l42p4mhy0ssuxjnyzl87c9eps7ce3m9'',
       cc_module = ''juno1sy9mlw47w44f94zea7g98y5ff4cvtc8rfv75jgwphlet83wlf4ssa050mv'',
       cc_btoken = Some ''btoken'', cc_vault = Some ''vault'', cc_period = 63072000 \<rparr>,
     cv_gauge = Some \<lparr> cg_outer = wynd_gauge_address, cg_synergistic = None \<rparr> \<rparr>"

definition demo_vault :: "vault_totals \<Rightarrow> (addr, vault_stake) kv \<Rightarrow> reward_action option \<Rightarrow> vault_state" where
  "demo_vault t stakes act = \<lparr> va_version = Some (''crates.io:bwynd_vault'', vault_contract_version),
     va_admin = Some (Some ''admin''),
     va_conf = \<lparr> vc_admin = ''admin'', vc_token = ''btoken'', vc_converter = ''converter'',
       vc_min_bond = 1000000, vc_staking_module = ''juno1sy9mlw47w44f94zea7g98y5ff4cvtc8rfv75jgwphlet83wlf4ssa050mv'',
       vc_treasury_wallet = None, vc_treasury_withdrawer = None, vc_distributor = None,
       vc_treasury_fee = 2 * (decimal_one div 10), vc_syne_fee = 0, vc_total_fee_cap = 3 * (decimal_one div 10),
       vc_treasury_fee_limit = 5 * (decimal_one div 100), vc_duration = None \<rparr>,
     va_totals = t, va_stakes = stakes, va_action = act \<rparr>"

text \<open>The set-up; a stake of 1000; and a withdrawal of 400 while 500 tokens of rewards wait.\<close>

definition demo_set_up :: vault_system where
  "demo_set_up = \<lparr> vy_converter = demo_converter,
     vy_vault = demo_vault \<lparr> vt_staked = 0, vt_treasury = 0, vt_syne = 0, vt_power = 0 \<rparr> [] None, vy_held = 0 \<rparr>"

definition demo_staked :: vault_system where
  "demo_staked = \<lparr> vy_converter = demo_converter,
     vy_vault = demo_vault \<lparr> vt_staked = 1000, vt_treasury = 0, vt_syne = 0, vt_power = 0 \<rparr>
       [(''alice'', \<lparr> vs_stake = 1000, vs_power_diff = 0 \<rparr>)] None, vy_held = 1000 \<rparr>"

definition demo_left :: vault_system where
  "demo_left = \<lparr> vy_converter = demo_converter,
     vy_vault = demo_vault \<lparr> vt_staked = 600, vt_treasury = 100, vt_syne = 0, vt_power = 4 * (decimal_one div 10) \<rparr>
       [(''alice'', \<lparr> vs_stake = 600, vs_power_diff = 4 * (decimal_one div 10) \<rparr>)] (Some No_action), vy_held = 700 \<rparr>"

lemmas vault_demo_defs = demo_net_def vault_demo_block_def demo_host_def demo_conv_msg_def demo_converter_def
  demo_vault_def demo_set_up_def demo_staked_def demo_left_def

lemma demo_net_ok [simp]: "vault_net_ok demo_net"
  by (simp add: vault_net_ok_def demo_net_def)

lemma demo_vault_setup: "vault_setup demo_net vault_demo_block demo_conv_msg = Some demo_set_up"
  by (simp add: vault_setup_def vault_demo_defs converter_env_def bw_instantiate_def conv_reply_def
      conv_reply_btoken_def conv_reply_vault_def vault_instantiate_def demo_platform_def Let_def admin_set_def)

lemmas vault_run_defs = vault_tx_def call_vault_def settle_at_def settled_call_def arriving_def vault_receive_def
  vault_execute_stake_def vault_unstake_def defer_action_def vault_distribute_def update_total_rewards_def
  add_stake_def remove_stake_def add_or_zero_def pending_of_def pay_positive_def stake_of_def action_of_def
  zero_stake_def dec_of_def dec_mul_def dec_div_def dec_add_def dec_checked_def dec_floor_def decimal_one_def
  bw_vault_rewards_def bw_query_rewards_def query_failed_def bw_withdraw_rewards_def bw_withdrawable_def
  converter_env_def u128_lim_def

lemma demo_vault_stake:
  "vault_tx demo_net (demo_host 0) vault_demo_block demo_set_up \<lparr> sender = ''btoken'' \<rparr>
     (Vm_receive ''alice'' 1000 (Some Hook_stake)) = Some demo_staked"
  by (simp add: vault_demo_defs vault_run_defs checked_int_defs demo_platform_def Let_def)

lemma demo_vault_unstake:
  "vault_tx demo_net (demo_host 500) vault_demo_block demo_staked \<lparr> sender = ''alice'' \<rparr> (Vm_unstake 400) = Some demo_left"
  by (simp add: vault_demo_defs vault_run_defs checked_int_defs demo_platform_def Let_def)

lemma demo_staked_reachable: "vault_reachable demo_net demo_staked"
  using vault_reachable.step [OF vault_reachable.set_up [OF demo_vault_setup] vault_step.at_vault [OF demo_vault_stake]] .

lemma demo_left_reachable: "vault_reachable demo_net demo_left"
  using vault_reachable.step [OF demo_staked_reachable vault_step.at_vault [OF demo_vault_unstake]] .

section \<open>Properties\<close>

text \<open>C20: In every reachable state of a vault with its converter and token, the stakes of the accounts
  add up to the staked total, the vault's tokens cover the staked tokens, the fees set aside and the
  rewards all stakers have earned so far (counted exactly, in 18-digit fractions), and no action is
  left recorded; so the transfers of any call the vault accepts can be paid.\<close>

theorem vault_is_solvent:
  assumes "vault_net_ok N" "vault_reachable N y"
  shows "kv_sum (\<lambda>_. vs_stake) (va_stakes (vy_vault y)) = vt_staked (va_totals (vy_vault y)) \<and>
    decimal_one * (vt_staked (va_totals (vy_vault y)) + vt_treasury (va_totals (vy_vault y)) + vt_syne (va_totals (vy_vault y)))
      + kv_sum (\<lambda>_. earned (vt_power (va_totals (vy_vault y)))) (va_stakes (vy_vault y)) \<le> decimal_one * vy_held y \<and>
    action_of (vy_vault y) = No_action \<and>
    (\<forall>H info msg s h out. call_vault (vn_platform N) (waiting_rewards (vn_outer N) H) (vy_vault y, vy_held y) info msg
        = Some (s, h, out) \<longrightarrow> out = [Ask_rewards (vn_converter N)] \<or> (\<exists>h'. take_payments (vn_vault N) h out = Some h'))"
proof (intro conjI allI impI)
  have ok: "system_ok N y" using vault_reachable_ok assms by blast
  then have safe: "vault_safe (vy_vault y) (vy_held y)" and no: "action_of (vy_vault y) = No_action"
    and conv: "vc_converter (va_conf (vy_vault y)) = vn_converter N"
    by (simp_all add: system_ok_def)
  show "kv_sum (\<lambda>_. vs_stake) (va_stakes (vy_vault y)) = vt_staked (va_totals (vy_vault y))"
    using safe by (simp add: vault_safe_def vault_ok_def)
  show "decimal_one * (vt_staked (va_totals (vy_vault y)) + vt_treasury (va_totals (vy_vault y)) + vt_syne (va_totals (vy_vault y)))
      + kv_sum (\<lambda>_. earned (vt_power (va_totals (vy_vault y)))) (va_stakes (vy_vault y)) \<le> decimal_one * vy_held y"
    using safe no by (simp add: vault_safe_def vault_debt_def all_earned_def)
  show "action_of (vy_vault y) = No_action" by (rule no)
  fix H info msg s h out
  assume "call_vault (vn_platform N) (waiting_rewards (vn_outer N) H) (vy_vault y, vy_held y) info msg = Some (s, h, out)"
  from call_vault_result [OF this safe no] have "call_result (vy_vault y) h s out" "h < u128_lim" by auto
  then show "out = [Ask_rewards (vn_converter N)] \<or> (\<exists>h'. take_payments (vn_vault N) h out = Some h')"
    using call_pays_taken [OF _ safe vault_frame_refl, of h s out "vn_vault N"] conv
    by (auto simp: call_result_def call_defers_def)
qed

theorem vault_is_solvent_witness:
  "decimal_one * (600 + 100) + kv_sum (\<lambda>_. earned (vt_power (va_totals (vy_vault demo_left)))) (va_stakes (vy_vault demo_left))
    \<le> decimal_one * vy_held demo_left"
  using vault_is_solvent [OF demo_net_ok demo_left_reachable] by (simp add: vault_demo_defs)

text \<open>C21: A staker can always leave: in every reachable state with no rewards waiting, the withdrawal of
  any part of an own stake succeeds and pays that part and the earned reward (whole tokens), for a
  stake below \<open>2^128 / 10^18\<close>; a reward that does not fit an 18-digit decimal is paid as zero.\<close>

theorem stakers_can_leave:
  assumes "vault_net_ok N" "vault_reachable N y" "a \<noteq> vn_vault N"
    and "waiting_rewards (vn_outer N) H (va_conf (vy_vault y)) = Ok 0"
    and "0 < k" "k \<le> vs_stake (stake_of (vy_vault y) a)"
    and "vs_stake (stake_of (vy_vault y) a) * decimal_one < u128_lim"
  shows "\<exists>y' n. vault_tx N H b y \<lparr> sender = a \<rparr> (Vm_unstake k) = Some y' \<and>
    vs_stake (stake_of (vy_vault y') a) + k = vs_stake (stake_of (vy_vault y) a) \<and>
    vy_held y' + k + n = vy_held y \<and>
    (let e = earned (vt_power (va_totals (vy_vault y))) (stake_of (vy_vault y) a)
     in n = (if e < u128_lim then e div decimal_one else 0))"
proof -
  have safe: "vault_safe (vy_vault y) (vy_held y)" "action_of (vy_vault y) = No_action"
    using vault_reachable_ok [OF assms(2,1)] by (simp_all add: system_ok_def)
  then have ok: "vault_ok (vy_vault y)" "vy_held y < u128_lim" "vault_debt (vy_vault y) \<le> decimal_one * vy_held y"
    by (simp_all add: vault_safe_def)
  let ?e = "earned (vt_power (va_totals (vy_vault y))) (stake_of (vy_vault y) a)"
  let ?n = "if ?e < u128_lim then ?e div decimal_one else 0"
  have mul: "dec_mul (vt_power (va_totals (vy_vault y)) - vs_power_diff (stake_of (vy_vault y) a))
      (vs_stake (stake_of (vy_vault y) a) * decimal_one) = dec_checked ?e"
    by (simp add: dec_mul_def earned_def mult.assoc [symmetric])
  have "pending_of (va_totals (vy_vault y)) (stake_of (vy_vault y) a) = (Ok ?n :: (vault_error, nat) outcome)"
    using assms(7) by (simp add: pending_of_def dec_of_def checked_int_defs mul dec_checked_def dec_floor_def)
  then obtain s' where rem: "remove_stake (vy_vault y) a k = Ok (?n, s')"
    by (simp add: remove_stake_def Let_def)
  have "vault_debt s' + decimal_one * (k + ?n) \<le> decimal_one * vy_held y"
    using remove_stake_books(2) [OF rem ok(1) assms(6)] ok(3) by linarith
  then have "decimal_one * (k + ?n) \<le> decimal_one * vy_held y" by linarith
  then have fit: "k + ?n \<le> vy_held y" by simp
  have "call_vault (vn_platform N) (waiting_rewards (vn_outer N) H) (vy_vault y, vy_held y) \<lparr> sender = a \<rparr> (Vm_unstake k)
      = Some (s', vy_held y, Token_pay (vc_token (va_conf (vy_vault y))) a k # pay_positive (vy_vault y) a ?n)"
    using assms(4-6) ok(2) rem by (simp add: call_vault_def arriving_def vault_unstake_def Let_def)
  then have "vault_tx N H b y \<lparr> sender = a \<rparr> (Vm_unstake k) = Some (y\<lparr> vy_vault := s', vy_held := vy_held y - (k + ?n) \<rparr>)"
    using fit assms(3) by (auto simp: vault_tx_def pay_positive_def)
  moreover have "vs_stake (stake_of s' a) + k = vs_stake (stake_of (vy_vault y) a)"
    using remove_stake_stakes [OF rem, of a] assms(6) by simp
  ultimately show ?thesis
    using fit by (intro exI [of _ "y\<lparr> vy_vault := s', vy_held := vy_held y - (k + ?n) \<rparr>"] exI [of _ ?n]) (simp add: Let_def)
qed

theorem stakers_can_leave_witness:
  "\<exists>y'. vault_tx demo_net (demo_host 0) vault_demo_block demo_left \<lparr> sender = ''alice'' \<rparr> (Vm_unstake 600) = Some y' \<and>
     vs_stake (stake_of (vy_vault y') ''alice'') = 0"
  using stakers_can_leave [OF demo_net_ok demo_left_reachable, of "''alice''" "demo_host 0" 600 vault_demo_block]
  by (auto simp: vault_demo_defs bw_vault_rewards_def bw_query_rewards_def query_failed_def stake_of_def
      decimal_one_def u128_lim_def)

text \<open>C22: A transaction at the vault changes exactly the stake it names, whether rewards wait in the outer
  protocol or not: a withdrawal that succeeds was positive, at most the sender's stake, and takes
  exactly that from it; an accepted deposit adds exactly the transferred tokens to the depositor's.\<close>

theorem vault_stakes_follow_requests:
  assumes "vault_net_ok N" "vault_reachable N y"
  shows "(vault_tx N H b y info (Vm_unstake k) = Some y' \<longrightarrow>
      0 < k \<and> k \<le> vs_stake (stake_of (vy_vault y) (sender info)) \<and>
      (\<forall>x. vs_stake (stake_of (vy_vault y') x) = vs_stake (stake_of (vy_vault y) x) - (if x = sender info then k else 0))) \<and>
    (vault_tx N H b y \<lparr> sender = vn_token N \<rparr> (Vm_receive who k (Some Hook_stake)) = Some y' \<longrightarrow>
      (\<forall>x. vs_stake (stake_of (vy_vault y') x) = vs_stake (stake_of (vy_vault y) x) + (if x = who then k else 0)))"
proof -
  have ok: "system_ok N y" using vault_reachable_ok assms by blast
  show ?thesis
    by (intro conjI impI allI) (rule unstake_tx_stakes [OF _ ok assms(1)] stake_tx_stakes [OF _ ok assms(1)], assumption)+
qed

theorem vault_stakes_follow_requests_witness:
  "vs_stake (stake_of (vy_vault demo_left) ''alice'') = vs_stake (stake_of (vy_vault demo_staked) ''alice'') - 400 \<and>
   vs_stake (stake_of (vy_vault demo_staked) ''alice'') = vs_stake (stake_of (vy_vault demo_set_up) ''alice'') + 1000"
  using vault_stakes_follow_requests [OF demo_net_ok demo_staked_reachable, of "demo_host 500"
      vault_demo_block "\<lparr> sender = ''alice'' \<rparr>" 400 demo_left "''alice''"]
    vault_stakes_follow_requests [OF demo_net_ok vault_reachable.set_up [OF demo_vault_setup], of "demo_host 0"
      vault_demo_block "\<lparr> sender = ''alice'' \<rparr>" 1000 demo_staked "''alice''"] demo_vault_stake demo_vault_unstake
  by (simp add: demo_net_def)

text \<open>C23: Fees that are set aside can never be withdrawn.  \<open>UpdateConfig\<close> does not save what it computes, so
  the withdrawer, the wallet and the distributor stay unset: in every reachable state a withdrawal
  of the treasury panics, a withdrawal for the distributor fails for every sender and every state of
  the outer protocol, and no transaction lowers the two amounts.\<close>

theorem treasury_fees_are_locked:
  assumes "vault_net_ok N" "vault_reachable N y"
  shows "vault_execute P Q (vy_vault y) info (Vm_withdraw_treasury k) = Panic \<and>
    vault_tx N H b y info (Vm_withdraw_treasury k) = None \<and>
    vault_tx N H b y info (Vm_withdraw_syne k) = None \<and>
    (\<forall>y'. vault_step N y y' \<longrightarrow> va_conf (vy_vault y') = va_conf (vy_vault y) \<and>
       vt_treasury (va_totals (vy_vault y)) \<le> vt_treasury (va_totals (vy_vault y')) \<and>
       vt_syne (va_totals (vy_vault y)) \<le> vt_syne (va_totals (vy_vault y')))"
proof -
  have ok: "system_ok N y" using vault_reachable_ok assms by blast
  show ?thesis
    using treasury_tx_fails [OF ok] syne_tx_fails [OF ok assms(1)] vault_step_ok [OF _ ok assms(1)]
    by (auto simp: vault_frame_def)
qed

theorem treasury_fees_are_locked_witness:
  "vt_treasury (va_totals (vy_vault demo_left)) = 100 \<and>
   vault_tx demo_net (demo_host 0) vault_demo_block demo_left \<lparr> sender = ''admin'' \<rparr> (Vm_withdraw_treasury (Some 100)) = None"
  using treasury_fees_are_locked [OF demo_net_ok demo_left_reachable] by (simp add: vault_demo_defs)

text \<open>Arriving rewards are shared in proportion to the stakes: with anything staked, the fees are the
  whole-token part of their rates, and every staker's earned reward grows by the stake's share of
  the rest, rounded down by at most one atomic unit (\<open>10^-18\<close>) per staked token.\<close>

theorem reward_shares_are_proportional:
  assumes "update_total_rewards s w = Ok s'" "0 < vt_staked (va_totals s)" "vs_power_diff st \<le> vt_power (va_totals s)"
  defines "fees \<equiv> w * vc_treasury_fee (va_conf s) div decimal_one + w * vc_syne_fee (va_conf s) div decimal_one"
    and "gain \<equiv> earned (vt_power (va_totals s')) st - earned (vt_power (va_totals s)) st"
  shows "vt_treasury (va_totals s') + vt_syne (va_totals s') = vt_treasury (va_totals s) + vt_syne (va_totals s) + fees \<and>
    fees \<le> w \<and> earned (vt_power (va_totals s)) st \<le> earned (vt_power (va_totals s')) st \<and>
    vt_staked (va_totals s) * gain \<le> vs_stake st * ((w - fees) * decimal_one) \<and>
    vs_stake st * ((w - fees) * decimal_one) \<le> vt_staked (va_totals s) * (gain + vs_stake st)"
proof -
  from assms(1) obtain tf sf q where f: "tf = dec_floor (w * vc_treasury_fee (va_conf s))" "sf = dec_floor (w * vc_syne_fee (va_conf s))"
    and s': "s' = s\<lparr> va_totals := (va_totals s)\<lparr> vt_treasury := vt_treasury (va_totals s) + tf,
        vt_syne := vt_syne (va_totals s) + sf, vt_power := vt_power (va_totals s) + q \<rparr> \<rparr>"
    and q: "q = 0 \<and> vt_staked (va_totals s) = 0 \<or>
     0 < vt_staked (va_totals s) \<and> tf + sf \<le> w \<and> q = (w - tf - sf) * decimal_one div vt_staked (va_totals s)"
    by (rule update_total_rewards_cases)
  have fees: "fees = tf + sf" "fees \<le> w" using q assms(2) by (auto simp: fees_def f dec_floor_def)
  have gain: "earned (vt_power (va_totals s')) st = earned (vt_power (va_totals s)) st + q * vs_stake st"
    using assms(3) by (simp add: s' earned_def algebra_simps)
  define S where "S = vt_staked (va_totals s)"
  define r where "r = (w - fees) * decimal_one"
  have qr: "q = r div S" "0 < S" using q assms(2) by (auto simp: r_def fees S_def)
  have lower: "S * q \<le> r" and upper: "r \<le> S * (q + 1)"
    using qr div_times_less_eq_dividend [of r S] dividend_less_times_div [of S r] by (auto simp: mult.commute)
  have "S * (q * vs_stake st) \<le> vs_stake st * r"
    using mult_le_mono2 [OF lower, of "vs_stake st"] by (metis mult.assoc mult.commute)
  moreover have "vs_stake st * r \<le> S * (q * vs_stake st + vs_stake st)"
    using mult_le_mono2 [OF upper, of "vs_stake st"] by (simp add: algebra_simps)
  moreover have "gain = q * vs_stake st" by (simp add: gain_def gain)
  moreover have "vt_treasury (va_totals s') + vt_syne (va_totals s') = vt_treasury (va_totals s) + vt_syne (va_totals s) + fees"
    by (simp add: s' fees)
  ultimately show ?thesis using fees(2) gain by (simp add: S_def r_def)
qed

theorem reward_shares_are_proportional_witness:
  "\<exists>s'. update_total_rewards (vy_vault demo_staked) 500 = Ok s' \<and>
     1000 * (earned (vt_power (va_totals s')) \<lparr> vs_stake = 1000, vs_power_diff = 0 \<rparr>) \<le> 1000 * (400 * decimal_one)"
proof -
  obtain s' where s': "update_total_rewards (vy_vault demo_staked) 500 = Ok s'"
    by (simp add: vault_demo_defs vault_run_defs checked_int_defs Let_def)
  show ?thesis
    using s' reward_shares_are_proportional [OF s', of "\<lparr> vs_stake = 1000, vs_power_diff = 0 \<rparr>"]
    by (simp add: vault_demo_defs decimal_one_def earned_def)
qed

text \<open>The WYND converter backs its bToken one to one: whatever it accepts, unless its administrator mints
  by hand, the bTokens it mints are exactly the tokens it delegates to the staking module.\<close>

theorem wynd_mints_what_it_delegates:
  assumes "bw_execute P H s e info msg = Ok (s', out)" "\<And>r n. msg \<noteq> Cm_mint r n"
  shows "minted out = put_to_work out"
proof (cases msg)
  case (Cm_receive who n parses)
  then show ?thesis using assms(1)
    by (auto simp: same_state_def bw_receive_def bw_convert_def Let_def outcome_simps split: if_splits)
next
  case Cm_withdraw
  then show ?thesis using assms(1)
    by (auto simp: same_state_def bw_withdraw_rewards_def Let_def outcome_simps split: if_splits)
next
  case (Cm_cosmos ms)
  then show ?thesis using assms(1) cosmos_mints_nothing
    by (auto simp: same_state_def conv_cosmos_msgs_def outcome_simps split: if_splits)
qed (use assms in \<open>auto simp: same_state_def no_out_def bw_vote_def outcome_simps split: if_splits option.splits\<close>)

theorem wynd_mints_what_it_delegates_witness:
  "\<exists>out. bw_execute demo_platform (demo_host 30) demo_converter (converter_env demo_net vault_demo_block)
      \<lparr> sender = cc_token (cv_conf demo_converter) \<rparr> (Cm_receive ''bob'' 50 True) = Ok (demo_converter, out) \<and>
      minted out = 80 \<and> put_to_work out = 80"
proof -
  obtain out where out: "bw_execute demo_platform (demo_host 30) demo_converter (converter_env demo_net vault_demo_block)
      \<lparr> sender = cc_token (cv_conf demo_converter) \<rparr> (Cm_receive ''bob'' 50 True) = Ok (demo_converter, out)"
    and "minted out = 80"
    by (simp add: same_state_def bw_receive_def bw_convert_def Let_def demo_converter_def demo_host_def
        bw_withdrawable_def bw_query_rewards_def query_failed_def demo_platform_def)
  then show ?thesis using wynd_mints_what_it_delegates [OF out] by auto
qed

text \<open>The LOOP converter mints more than it stakes in a conversion while rewards wait: it mints the
  converted tokens, which it stakes, and the waiting rewards, which it sends to the vault without a
  message that claims or restakes them (a withdrawal restakes them); the backing of these bTokens
  is left to the outer protocol.\<close>

theorem loop_conversion_mints_waiting_rewards:
  assumes "bl_execute P H s e info (Cm_receive who n True) = Ok (s', out)"
  shows "\<exists>w. bl_withdrawable H (cv_conf s) (contract_address e) = Ok w \<and> s' = s \<and> put_to_work out = n \<and>
    minted out = n + w \<and> (\<forall>m p. Module_restake m p \<notin> set out) \<and> (\<forall>m. Module_withdraw m \<notin> set out)"
  using assms by (auto simp: same_state_def bl_receive_def bl_convert_def Let_def outcome_simps split: if_splits)

theorem loop_conversion_mints_waiting_rewards_witness:
  "\<exists>out. bl_execute demo_platform (demo_host 30) demo_converter (converter_env demo_net vault_demo_block)
      \<lparr> sender = cc_token (cv_conf demo_converter) \<rparr> (Cm_receive ''bob'' 50 True) = Ok (demo_converter, out) \<and>
      put_to_work out = 50 \<and> minted out = 80"
proof -
  obtain out where out: "bl_execute demo_platform (demo_host 30) demo_converter (converter_env demo_net vault_demo_block)
      \<lparr> sender = cc_token (cv_conf demo_converter) \<rparr> (Cm_receive ''bob'' 50 True) = Ok (demo_converter, out)"
    by (simp add: same_state_def bl_receive_def bl_convert_def Let_def demo_converter_def demo_host_def
        bl_withdrawable_def bl_query_rewards_def demo_platform_def checked_int_defs u128_lim_def)
  moreover have "bl_withdrawable (demo_host 30) (cv_conf demo_converter)
      (contract_address (converter_env demo_net vault_demo_block)) = Ok 30"
    by (simp add: demo_host_def bl_withdrawable_def bl_query_rewards_def checked_int_defs u128_lim_def)
  ultimately show ?thesis using loop_conversion_mints_waiting_rewards [OF out] by auto
qed

end
