(* ===== verification/Farming.thy ===== *)
theory Farming
  imports Store Decimals
begin

text \<open>
  The farming contract \<open>contracts/loopswap_farming\<close>: it pools the stakes of its users in the outer
  LOOP farm.  Every request of a user first asks the farm to distribute; the reply reads the rewards
  that are pending for the whole contract and starts the user's action in the farm; the reply to that
  settles the account.  \<open>TOTAL_REWARDS_WEIGHT\<close> accumulates the rewards per staked token, for each pool
  and reward token, and an account keeps the weight up to which its rewards are settled.  While
  rewards stay pending in the farm, \<open>PENDING_REWARDS\<close> remembers what has been counted already.

  Keys of the maps are concatenated strings, as in the source.  The outer farm is the parameter
  \<open>H\<close>.  Storage maps that no code reads or writes are left out.
\<close>

section \<open>Data\<close>

record farm_config =
  fc_owner :: addr
  fc_loop_farm :: addr
  fc_treasury_addr :: addr
  fc_treasury_fee :: nat
  fc_fee_multiplier :: nat
  fc_default_limit :: nat
  fc_max_limit :: nat

record farm_reward_info =
  ri_weight :: decimal
  ri_pending :: nat

type_synonym amounts = "(string \<times> nat) list"

record farm_unstake_info =
  cu_sender :: string
  cu_pool :: string
  cu_amount :: nat
  cu_pending :: amounts

record farm_stake_info =
  cs_sender :: string
  cs_amount :: nat
  cs_pool :: string
  cs_pending :: amounts

record farm_claim_info =
  cl_account :: string
  cl_pool :: string
  cl_pending :: amounts

record farm_action =
  fa_action :: nat
  fa_account :: string
  fa_pool :: string
  fa_amount :: "nat option"
  fa_flp :: "string option"
  fa_claimed :: "bool option"

text \<open>A token of the distribution of a pool, with the daily reward and the reserve.\<close>

record farm_distribution =
  fd_token :: string
  fd_amount :: nat
  fd_reserve :: nat

record stakeable_token =
  sk_liquidity :: string
  sk_token :: string
  sk_distribution :: "farm_distribution list"

record farm_state =
  fs_version :: "string \<times> string"
  fs_config :: farm_config
  fs_stakeable :: "(string, stakeable_token) kv"
  fs_liquidity :: "(string, string) kv"
  fs_unclaimed :: "(string, nat) kv"
  fs_user_staked :: "(string, nat) kv"
  fs_total_staked :: "(string, nat) kv"
  fs_user_info :: "(string, farm_reward_info) kv"
  fs_start_time :: "(string, nat) kv"
  fs_compound_flag :: "(string, bool) kv"
  fs_compounded :: "(string, nat) kv"
  fs_unstake :: "farm_unstake_info option"
  fs_stake :: "farm_stake_info option"
  fs_claim :: "farm_claim_info option"
  fs_pending :: "(string, amounts) kv"
  fs_rewards :: "(string, amounts) kv"
  fs_weights :: "(string, (string \<times> decimal) list) kv"
  fs_action :: "farm_action option"
  fs_treasury :: "(string, nat) kv"

text \<open>The queries to the outer farm and to token contracts, \<open>None\<close> for a failed query.\<close>

record farm_host =
  fh_flp :: "addr \<Rightarrow> string \<Rightarrow> string option"
  fh_pool_rewards :: "addr \<Rightarrow> string \<Rightarrow> amounts option"
  fh_user_rewards :: "addr \<Rightarrow> string \<Rightarrow> string \<Rightarrow> (string \<times> amounts) list option"
  fh_reward_in_pool :: "addr \<Rightarrow> string \<Rightarrow> string \<Rightarrow> nat option"
  fh_wait_time :: "addr \<Rightarrow> nat option"
  fh_lock_time :: "addr \<Rightarrow> nat option"
  fh_last_time :: "addr \<Rightarrow> string \<Rightarrow> nat option"
  fh_balance :: "addr \<Rightarrow> addr \<Rightarrow> nat option"

text \<open>The messages: submessages with their reply id, then plain messages.\<close>

datatype farm_out =
    Sub_distribute addr "string option" "nat option"
  | Sub_stake string addr nat
  | Sub_unstake string addr nat
  | Sub_claim addr string
  | Farm_distribute addr "string option" "nat option"
  | Farm_transfer string addr nat
  | Farm_restake string addr nat

definition stake_id :: nat where "stake_id = 1"
definition unstake_and_claim_id :: nat where "unstake_and_claim_id = 2"
definition claim_reward_id :: nat where "claim_reward_id = 3"
definition distribute_by_limit_id :: nat where "distribute_by_limit_id = 4"

definition claim_action :: nat where "claim_action = 1"
definition unstake_and_claim_action :: nat where "unstake_and_claim_action = 2"
definition stake_action :: nat where "stake_action = 3"

section \<open>Queries to the farm\<close>

definition query_stakable_token :: "farm_host \<Rightarrow> addr \<Rightarrow> string \<Rightarrow> (std_error, stakeable_token) outcome" where
  "query_stakable_token H farm pool =
     and_then (query_failed (fh_flp H farm pool)) (\<lambda>flp.
     and_then (query_failed (fh_pool_rewards H farm pool)) (\<lambda>rewards.
     Ok \<lparr> sk_liquidity = flp, sk_token = pool,
          sk_distribution = map (\<lambda>(token, daily). \<lparr> fd_token = token, fd_amount = daily, fd_reserve = 0 \<rparr>) rewards \<rparr>))"

text \<open>A response without the pool panics.\<close>

definition query_pending_rewards :: "farm_host \<Rightarrow> addr \<Rightarrow> string \<Rightarrow> string \<Rightarrow> (std_error, amounts) outcome" where
  "query_pending_rewards H farm account pool =
     and_then (query_failed (fh_user_rewards H farm account pool)) (\<lambda>rows. or_panic (map_of rows pool))"

section \<open>Storage\<close>

text \<open>\<open>load(..).unwrap_or(vec![])\<close>.\<close>

definition kv_list :: "(string, 'a list) kv \<Rightarrow> string \<Rightarrow> 'a list" where
  "kv_list m k = (case kv_get m k of Some xs \<Rightarrow> xs | None \<Rightarrow> [])"

definition user_reward_info :: "farm_state \<Rightarrow> string \<Rightarrow> decimal \<Rightarrow> farm_reward_info" where
  "user_reward_info s key weight =
     (case kv_get (fs_user_info s) key of Some i \<Rightarrow> i | None \<Rightarrow> \<lparr> ri_weight = weight, ri_pending = 0 \<rparr>)"

definition total_staked_in_pool :: "farm_state \<Rightarrow> string \<Rightarrow> nat" where
  "total_staked_in_pool s pool = kv_nat (fs_total_staked s) pool"

definition user_staked_in_pool :: "farm_state \<Rightarrow> string \<Rightarrow> nat" where
  "user_staked_in_pool s key = kv_nat (fs_user_staked s) key"

section \<open>Administration\<close>

definition farm_instantiate ::
  "platform \<Rightarrow> message_info \<Rightarrow> string \<Rightarrow> (std_error, farm_state) outcome"
where
  "farm_instantiate P info treasury =
     and_then (addr_validate P ''juno1l6p6qa0l4hdhedgvwhdqcua9sq4un8ugg5rk4nhh4mnrz7a3sl9sfwzg7l'') (\<lambda>farm.
     and_then (addr_validate P treasury) (\<lambda>tr.
     Ok \<lparr> fs_version = (''loopswap-farming'', ''1.0.0''),
          fs_config = \<lparr> fc_owner = sender info, fc_loop_farm = farm, fc_treasury_addr = tr,
            fc_treasury_fee = 200000, fc_fee_multiplier = 1000000, fc_default_limit = 10, fc_max_limit = 30 \<rparr>,
          fs_stakeable = [], fs_liquidity = [], fs_unclaimed = [], fs_user_staked = [], fs_total_staked = [],
          fs_user_info = [], fs_start_time = [], fs_compound_flag = [], fs_compounded = [],
          fs_unstake = None, fs_stake = None, fs_claim = None, fs_pending = [], fs_rewards = [], fs_weights = [],
          fs_action = None, fs_treasury = [] \<rparr>))"

definition farm_update_config ::
  "platform \<Rightarrow> farm_state \<Rightarrow> message_info \<Rightarrow> string option \<Rightarrow> (std_error, farm_state) outcome"
where
  "farm_update_config P s info owner =
     (let c = fs_config s in
      if sender info \<noteq> fc_owner c then Err (Generic_err ''unauthorized'')
      else
      and_then (traverse_opt (addr_validate P) owner) (\<lambda>a.
      Ok (s\<lparr> fs_config := (case a of Some x \<Rightarrow> c\<lparr> fc_owner := x \<rparr> | None \<Rightarrow> c) \<rparr>)))"

definition farm_update_treasury_addr ::
  "platform \<Rightarrow> farm_state \<Rightarrow> message_info \<Rightarrow> string \<Rightarrow> (std_error, farm_state) outcome"
where
  "farm_update_treasury_addr P s info treasury =
     (if sender info \<noteq> fc_owner (fs_config s) then Err (Generic_err ''unauthorized'')
      else and_then (addr_validate P treasury) (\<lambda>a. Ok (s\<lparr> fs_config := (fs_config s)\<lparr> fc_treasury_addr := a \<rparr> \<rparr>)))"

definition farm_update_treasury_fee :: "farm_state \<Rightarrow> message_info \<Rightarrow> nat \<Rightarrow> (std_error, farm_state) outcome" where
  "farm_update_treasury_fee s info fee =
     (if sender info \<noteq> fc_owner (fs_config s) then Err (Generic_err ''unauthorized'')
      else Ok (s\<lparr> fs_config := (fs_config s)\<lparr> fc_treasury_fee := fee \<rparr> \<rparr>))"

definition add_pool :: "string \<times> string \<Rightarrow> farm_state \<Rightarrow> (std_error, farm_state) outcome" where
  "add_pool entry s =
     (case entry of (pool, liquidity) \<Rightarrow>
      if kv_get (fs_stakeable s) pool \<noteq> None then Err (Generic_err ''Token already exists in list'')
      else Ok (s\<lparr> fs_stakeable := kv_set (fs_stakeable s) pool
                    \<lparr> sk_liquidity = liquidity, sk_token = pool, sk_distribution = [] \<rparr>,
                  fs_liquidity := kv_set (fs_liquidity s) liquidity pool \<rparr>))"

definition farm_add_token ::
  "farm_state \<Rightarrow> message_info \<Rightarrow> string \<Rightarrow> string \<Rightarrow> (std_error, farm_state) outcome"
where
  "farm_add_token s info pool liquidity =
     (if sender info \<noteq> fc_owner (fs_config s) then Err (Generic_err ''unauthorized'')
      else add_pool (pool, liquidity) s)"

definition farm_add_tokens ::
  "farm_state \<Rightarrow> message_info \<Rightarrow> string list \<Rightarrow> string list \<Rightarrow> (std_error, farm_state) outcome"
where
  "farm_add_tokens s info pools liquidities =
     (if sender info \<noteq> fc_owner (fs_config s) then Err (Generic_err ''unauthorized'')
      else if length pools \<noteq> length liquidities then Err (Generic_err ''length mismatch'')
      else fold_ok add_pool (zip pools liquidities) s)"

text \<open>The guard asks for more than there is.\<close>

definition farm_withdraw_treasury ::
  "farm_state \<Rightarrow> message_info \<Rightarrow> string \<Rightarrow> nat \<Rightarrow> (std_error, farm_state \<times> farm_out list) outcome"
where
  "farm_withdraw_treasury s info token amount =
     (let c = fs_config s; tr = kv_nat (fs_treasury s) token in
      if fc_treasury_addr c \<noteq> sender info then Err (Generic_err ''Unauthorized'')
      else if \<not> amount > tr then Err (Generic_err ''Invalid amount'')
      else
      and_then (u128_sub tr amount) (\<lambda>rest.
      Ok (s\<lparr> fs_treasury := kv_set (fs_treasury s) token rest \<rparr>,
          [Farm_transfer token (fc_treasury_addr c) amount])))"

section \<open>Requests\<close>

text \<open>The request is recorded and the farm asked to distribute; the reply continues it.\<close>

definition start_action :: "farm_state \<Rightarrow> farm_action \<Rightarrow> string option \<Rightarrow> farm_state \<times> farm_out list" where
  "start_action s act start =
     (s\<lparr> fs_action := Some act \<rparr>, [Sub_distribute (fc_loop_farm (fs_config s)) start (Some 1)])"

definition farm_execute_stake ::
  "farm_state \<Rightarrow> string \<Rightarrow> string \<Rightarrow> nat \<Rightarrow> string option \<Rightarrow> (std_error, farm_state \<times> farm_out list) outcome"
where
  "farm_execute_stake s account pool amount start =
     Ok (start_action s \<lparr> fa_action = stake_action, fa_account = account, fa_pool = pool, fa_amount = Some amount,
           fa_flp = None, fa_claimed = None \<rparr> start)"

text \<open>The message inside a transfer: \<open>None\<close> when it does not parse, else the start of the distribution.\<close>

definition farm_receive ::
  "farm_state \<Rightarrow> message_info \<Rightarrow> string \<Rightarrow> nat \<Rightarrow> string option option
     \<Rightarrow> (std_error, farm_state \<times> farm_out list) outcome"
where
  "farm_receive s info who amount hook =
     (case hook of
        None \<Rightarrow> Err (Generic_err ''Unsuccessful'')
      | Some start \<Rightarrow>
          if kv_get (fs_stakeable s) (sender info) \<noteq> None
          then farm_execute_stake s who (sender info) amount start
          else Err (Generic_err ''Incorrect Asset Provided''))"

definition farm_unstake_and_claim ::
  "farm_state \<Rightarrow> message_info \<Rightarrow> string \<Rightarrow> nat \<Rightarrow> string option \<Rightarrow> (std_error, farm_state \<times> farm_out list) outcome"
where
  "farm_unstake_and_claim s info pool amount start =
     (if kv_get (fs_stakeable s) pool \<noteq> None then
        Ok (start_action s \<lparr> fa_action = unstake_and_claim_action, fa_account = sender info, fa_pool = pool,
              fa_amount = Some amount, fa_flp = None, fa_claimed = None \<rparr> start)
      else Err (Generic_err ''Incorrect Asset Provided''))"

definition farm_claim_reward ::
  "farm_state \<Rightarrow> message_info \<Rightarrow> string \<Rightarrow> string option \<Rightarrow> (std_error, farm_state \<times> farm_out list) outcome"
where
  "farm_claim_reward s info pool start =
     Ok (start_action s \<lparr> fa_action = claim_action, fa_account = sender info, fa_pool = pool, fa_amount = None,
           fa_flp = None, fa_claimed = None \<rparr> start)"

definition farm_distribute_by_limit ::
  "farm_state \<Rightarrow> string option \<Rightarrow> nat option \<Rightarrow> (std_error, farm_state \<times> farm_out list) outcome"
where
  "farm_distribute_by_limit s start lim =
     (if (case start of Some x \<Rightarrow> kv_get (fs_stakeable s) x \<noteq> None | None \<Rightarrow> False)
      then Err (Generic_err ''Token already exists in list'')
      else Ok (s, [Farm_distribute (fc_loop_farm (fs_config s)) start lim]))"

datatype farm_msg =
    Fm_update_config "string option"
  | Fm_treasury_addr string
  | Fm_treasury_fee nat
  | Fm_receive string nat "string option option"
  | Fm_claim string "string option"
  | Fm_unstake string nat "string option"
  | Fm_add_token string string
  | Fm_add_tokens "string list" "string list"
  | Fm_distribute "string option" "nat option"
  | Fm_withdraw_treasury string nat

definition farm_silent :: "('e, 's) outcome \<Rightarrow> ('e, 's \<times> farm_out list) outcome" where
  "farm_silent r = and_then r (\<lambda>s. Ok (s, []))"

fun farm_execute ::
  "platform \<Rightarrow> farm_state \<Rightarrow> message_info \<Rightarrow> farm_msg \<Rightarrow> (std_error, farm_state \<times> farm_out list) outcome"
where
  "farm_execute P s info (Fm_update_config owner) = farm_silent (farm_update_config P s info owner)"
| "farm_execute P s info (Fm_treasury_addr a) = farm_silent (farm_update_treasury_addr P s info a)"
| "farm_execute P s info (Fm_treasury_fee f) = farm_silent (farm_update_treasury_fee s info f)"
| "farm_execute P s info (Fm_receive who n hook) = farm_receive s info who n hook"
| "farm_execute P s info (Fm_claim pool start) = farm_claim_reward s info pool start"
| "farm_execute P s info (Fm_unstake pool n start) = farm_unstake_and_claim s info pool n start"
| "farm_execute P s info (Fm_add_token pool l) = farm_silent (farm_add_token s info pool l)"
| "farm_execute P s info (Fm_add_tokens pools ls) = farm_silent (farm_add_tokens s info pools ls)"
| "farm_execute P s info (Fm_distribute start lim) = farm_distribute_by_limit s start lim"
| "farm_execute P s info (Fm_withdraw_treasury token n) = farm_withdraw_treasury s info token n"

section \<open>Continuing a request after the distribution\<close>

definition handle_unstake_and_claim ::
  "farm_host \<Rightarrow> farm_state \<Rightarrow> env \<Rightarrow> farm_action \<Rightarrow> (std_error, farm_state \<times> farm_out list) outcome"
where
  "handle_unstake_and_claim H s e act =
     (let farm = fc_loop_farm (fs_config s); pool = fa_pool act in
      and_then (or_panic (fa_amount act)) (\<lambda>amount.
      if \<not> amount > 0 then Err (Generic_err ''Invalid zero amount'')
      else
      and_then (ok_or (Not_found ''StakeableToken'') (kv_get (fs_stakeable s) pool)) (\<lambda>st.
      if sk_liquidity st = [] then Err (Generic_err ''Undefined liquidity token address'')
      else
      and_then (query_pending_rewards H farm (contract_address e) pool) (\<lambda>pending.
      and_then (ok_or (Not_found ''Uint128'') (kv_get (fs_total_staked s) pool)) (\<lambda>tot.
      Ok (s\<lparr> fs_unstake := Some \<lparr> cu_sender = fa_account act, cu_pool = pool, cu_amount = amount, cu_pending = pending \<rparr> \<rparr>,
          [Sub_unstake (sk_liquidity st) farm tot]))))))"

definition handle_claim ::
  "farm_host \<Rightarrow> farm_state \<Rightarrow> env \<Rightarrow> farm_action \<Rightarrow> (std_error, farm_state \<times> farm_out list) outcome"
where
  "handle_claim H s e act =
     (let farm = fc_loop_farm (fs_config s); pool = fa_pool act in
      and_then (query_pending_rewards H farm (contract_address e) pool) (\<lambda>pending.
      Ok (s\<lparr> fs_claim := Some \<lparr> cl_account = fa_account act, cl_pool = pool, cl_pending = pending \<rparr> \<rparr>,
          [Sub_claim farm pool])))"

definition handle_stake ::
  "farm_host \<Rightarrow> farm_state \<Rightarrow> env \<Rightarrow> farm_action \<Rightarrow> (std_error, farm_state \<times> farm_out list) outcome"
where
  "handle_stake H s e act =
     (let farm = fc_loop_farm (fs_config s); pool = fa_pool act;
          amount = (case fa_amount act of Some n \<Rightarrow> n | None \<Rightarrow> 0) in
      and_then (query_pending_rewards H farm (contract_address e) pool) (\<lambda>pending.
      Ok (s\<lparr> fs_stake := Some \<lparr> cs_sender = fa_account act, cs_amount = amount, cs_pool = pool, cs_pending = pending \<rparr> \<rparr>,
          [Sub_stake pool farm amount])))"

definition no_response :: "(std_error, 'a) outcome" where
  "no_response = Err (Generic_err ''no successful response get from staking reply data'')"

text \<open>The unknown number is left out of the error text.\<close>

definition handle_distribute_by_limit_reply ::
  "farm_host \<Rightarrow> farm_state \<Rightarrow> env \<Rightarrow> bool \<Rightarrow> (std_error, farm_state \<times> farm_out list) outcome"
where
  "handle_distribute_by_limit_reply H s e succeeded =
     (if \<not> succeeded then no_response
      else
      and_then (ok_or (Not_found ''UserAction'') (fs_action s)) (\<lambda>act.
      if fa_action act = unstake_and_claim_action then handle_unstake_and_claim H s e act
      else if fa_action act = claim_action then handle_claim H s e act
      else if fa_action act = stake_action then handle_stake H s e act
      else Err (Generic_err ''Unknown user action id'')))"

section \<open>Settling an account\<close>

text \<open>The pending reward of a token that has not been counted yet; two versions of the subtraction.\<close>

definition amount_of :: "amounts \<Rightarrow> string \<Rightarrow> nat" where
  "amount_of xs t = (case map_of xs t of Some n \<Rightarrow> n | None \<Rightarrow> 0)"

fun deduct_seen :: "string \<Rightarrow> amounts \<Rightarrow> nat \<Rightarrow> (std_error, nat) outcome" where
  "deduct_seen t [] n = Ok n"
| "deduct_seen t ((t', m) # seen) n =
     (if t' = t then and_then (u128_sub n m) (deduct_seen t seen) else deduct_seen t seen n)"

fun deduct_seen_strictly :: "string \<Rightarrow> amounts \<Rightarrow> nat \<Rightarrow> (std_error, nat) outcome" where
  "deduct_seen_strictly t [] n = Ok n"
| "deduct_seen_strictly t ((t', m) # seen) n =
     (if t' = t then
        (if \<not> n > m then Err (Generic_err ''current_pending_reward must be greater than prev reward'')
         else and_then (u128_checked_sub n m) (deduct_seen_strictly t seen))
      else deduct_seen_strictly t seen n)"

definition position_of :: "(string \<times> 'a) list \<Rightarrow> string \<Rightarrow> nat option" where
  "position_of xs t =
     (let n = length (takeWhile (\<lambda>e. fst e \<noteq> t) xs) in if n < length xs then Some n else None)"

text \<open>\<open>xs[i].1\<close>, which panics out of bounds.\<close>

definition second_at :: "(string \<times> 'a) list \<Rightarrow> nat \<Rightarrow> ('e, 'a) outcome" where
  "second_at xs i = (if i < length xs then Ok (snd (xs ! i)) else Panic)"

definition set_second :: "(string \<times> 'a) list \<Rightarrow> nat \<Rightarrow> 'a \<Rightarrow> (string \<times> 'a) list" where
  "set_second xs i y = xs[i := (fst (xs ! i), y)]"

text \<open>The totals of a pool: the rewards counted so far and the weights, by token.\<close>

type_synonym pool_totals = "amounts \<times> (string \<times> decimal) list"

text \<open>Counting a reward without stakes: it is added to the total, the weight stays.\<close>

definition count_reward :: "string \<Rightarrow> nat \<Rightarrow> pool_totals \<Rightarrow> (std_error, pool_totals \<times> decimal) outcome" where
  "count_reward t fresh tw =
     (case tw of (totals, weights) \<Rightarrow>
      case position_of totals t of
        Some i \<Rightarrow>
          and_then (second_at totals i) (\<lambda>r. and_then (u128_add r fresh) (\<lambda>r'.
          and_then (second_at weights i) (\<lambda>w. Ok ((set_second totals i r', weights), w))))
      | None \<Rightarrow> Ok ((totals @ [(t, fresh)], weights @ [(t, 0)]), 0))"

text \<open>Counting a reward over the stakes of the pool, with the new weight.\<close>

definition raise_weight :: "string \<Rightarrow> nat \<Rightarrow> nat \<Rightarrow> pool_totals \<Rightarrow> (std_error, pool_totals \<times> decimal) outcome" where
  "raise_weight t fresh tot tw =
     (case tw of (totals, weights) \<Rightarrow>
      case position_of totals t of
        Some i \<Rightarrow>
          and_then (second_at totals i) (\<lambda>r. and_then (u128_add r fresh) (\<lambda>r'.
          and_then (second_at weights i) (\<lambda>w. and_then (decimal_from_ratio fresh tot) (\<lambda>q.
          and_then (u128_add w q) (\<lambda>w'. Ok ((set_second totals i r', set_second weights i w'), w'))))))
      | None \<Rightarrow>
          and_then (decimal_from_ratio fresh tot) (\<lambda>q.
          Ok ((totals @ [(t, fresh)], weights @ [(t, q)]), q)))"

text \<open>\<open>diff * staked\<close>, rounded down.\<close>

definition weighted_reward :: "decimal \<Rightarrow> nat \<Rightarrow> ('e, nat) outcome" where
  "weighted_reward diff staked =
     and_then (decimal_from_ratio staked 1) (\<lambda>n. and_then (or_panic (dec_mul diff n)) (\<lambda>d. Ok (dec_floor d)))"

text \<open>The split of a reward by the treasury fee: what the user gets, and the fee.\<close>

definition split_reward :: "farm_config \<Rightarrow> nat \<Rightarrow> (std_error, nat \<times> nat) outcome" where
  "split_reward c reward =
     and_then (u64_sub (fc_fee_multiplier c) (fc_treasury_fee c)) (\<lambda>k.
     and_then (u128_multiply_ratio reward k (fc_fee_multiplier c)) (\<lambda>user. Ok (user, reward - user)))"

definition info_key :: "string \<Rightarrow> string \<Rightarrow> string \<Rightarrow> string" where
  "info_key account pool token = account @ pool @ token"

text \<open>One token of the loop in \<open>handle_stake_reply\<close>, without and with stakes in the pool.\<close>

definition first_stake_step ::
  "string \<Rightarrow> string \<Rightarrow> amounts \<Rightarrow> amounts \<Rightarrow> farm_distribution \<Rightarrow> pool_totals \<times> farm_state
     \<Rightarrow> (std_error, pool_totals \<times> farm_state) outcome"
where
  "first_stake_step account pool current seen d acc =
     (case acc of (tw, s) \<Rightarrow>
      let t = fd_token d; key = info_key account pool t in
      and_then (deduct_seen t seen (amount_of current t)) (\<lambda>fresh.
      and_then (count_reward t fresh tw) (\<lambda>(tw', w).
      Ok (tw', s\<lparr> fs_user_info := kv_set (fs_user_info s) key (user_reward_info s key w) \<rparr>))))"

definition stake_step ::
  "string \<Rightarrow> string \<Rightarrow> amounts \<Rightarrow> amounts \<Rightarrow> nat \<Rightarrow> nat \<Rightarrow> farm_distribution \<Rightarrow> pool_totals \<times> farm_state
     \<Rightarrow> (std_error, pool_totals \<times> farm_state) outcome"
where
  "stake_step account pool current seen tot staked d acc =
     (case acc of (tw, s) \<Rightarrow>
      let t = fd_token d; key = info_key account pool t in
      and_then (deduct_seen t seen (amount_of current t)) (\<lambda>fresh.
      and_then (raise_weight t fresh tot tw) (\<lambda>(tw', w).
      let i = user_reward_info s key w in
      and_then (u128_sub w (ri_weight i)) (\<lambda>diff.
      and_then (weighted_reward diff staked) (\<lambda>n.
      and_then (u128_add (ri_pending i) n) (\<lambda>pend.
      Ok (tw', s\<lparr> fs_user_info := kv_set (fs_user_info s) key \<lparr> ri_weight = w, ri_pending = pend \<rparr> \<rparr>)))))))"

definition handle_stake_reply ::
  "farm_host \<Rightarrow> farm_state \<Rightarrow> env \<Rightarrow> bool \<Rightarrow> (std_error, farm_state \<times> farm_out list) outcome"
where
  "handle_stake_reply H s e succeeded =
     (if \<not> succeeded then no_response
      else
      and_then (ok_or (Not_found ''CurrentStakeInfo'') (fs_stake s)) (\<lambda>cur.
      let pool = cs_pool cur; account = cs_sender cur; amount = cs_amount cur; current = cs_pending cur;
          tw = (kv_list (fs_rewards s) pool, kv_list (fs_weights s) pool); seen = kv_list (fs_pending s) pool in
      and_then (query_stakable_token H (fc_loop_farm (fs_config s)) pool) (\<lambda>st.
      let tot = total_staked_in_pool s pool; staked = user_staked_in_pool s (account @ pool) in
      and_then (fold_ok (if tot = 0 then first_stake_step account pool current seen
                         else stake_step account pool current seen tot staked) (sk_distribution st) (tw, s))
        (\<lambda>((totals, weights), s1).
      and_then (u128_add staked amount) (\<lambda>staked'.
      and_then (u128_add tot amount) (\<lambda>tot'.
      Ok (s1\<lparr> fs_rewards := kv_set (fs_rewards s1) pool totals, fs_pending := kv_set (fs_pending s1) pool current,
              fs_weights := kv_set (fs_weights s1) pool weights,
              fs_start_time := kv_set (fs_start_time s1) (account @ pool) (seconds (block e)),
              fs_user_staked := kv_set (fs_user_staked s1) (account @ pool) staked',
              fs_total_staked := kv_set (fs_total_staked s1) pool tot' \<rparr>, [])))))))"

text \<open>One token of the loop in \<open>handle_unstake_and_claim_reply\<close>.\<close>

definition unstake_step ::
  "string \<Rightarrow> string \<Rightarrow> amounts \<Rightarrow> amounts \<Rightarrow> nat \<Rightarrow> nat \<Rightarrow> nat \<Rightarrow> farm_distribution
     \<Rightarrow> pool_totals \<times> farm_state \<times> farm_out list \<Rightarrow> (std_error, pool_totals \<times> farm_state \<times> farm_out list) outcome"
where
  "unstake_step account pool current seen tot staked amount d acc =
     (case acc of (tw, s, out) \<Rightarrow>
      let t = fd_token d; key = info_key account pool t; treasury = kv_nat (fs_treasury s) t in
      and_then (deduct_seen t seen (amount_of current t)) (\<lambda>fresh.
      and_then (raise_weight t fresh tot tw) (\<lambda>(tw', w).
      let i = user_reward_info s key w in
      and_then (u128_sub w (ri_weight i)) (\<lambda>diff.
      and_then (weighted_reward diff staked) (\<lambda>n.
      and_then (u128_add (ri_pending i) n) (\<lambda>reward.
      and_then (split_reward (fs_config s) reward) (\<lambda>(user, fee).
      and_then (u128_add treasury fee) (\<lambda>treasury'.
      Ok (tw', s\<lparr> fs_treasury := kv_set (fs_treasury s) t treasury',
            fs_user_info := (if staked > amount
              then kv_set (fs_user_info s) key \<lparr> ri_weight = w, ri_pending = 0 \<rparr>
              else kv_del (fs_user_info s) key) \<rparr>,
          out @ (if user > 0 then [Farm_transfer t account user] else []))))))))))"

definition handle_unstake_and_claim_reply ::
  "farm_host \<Rightarrow> farm_state \<Rightarrow> env \<Rightarrow> bool \<Rightarrow> (std_error, farm_state \<times> farm_out list) outcome"
where
  "handle_unstake_and_claim_reply H s e succeeded =
     (if \<not> succeeded then Err (Generic_err ''no successful response get from unstaking reply data'')
      else
      and_then (ok_or (Not_found ''CurrentUnstakeInfo'') (fs_unstake s)) (\<lambda>cur.
      let pool = cu_pool cur; account = cu_sender cur; amount = cu_amount cur; current = cu_pending cur;
          tw = (kv_list (fs_rewards s) pool, kv_list (fs_weights s) pool); seen = kv_list (fs_pending s) pool;
          farm = fc_loop_farm (fs_config s) in
      and_then (query_stakable_token H farm pool) (\<lambda>st.
      let staked = user_staked_in_pool s (account @ pool) in
      if \<not> staked > amount then Err (Generic_err ''Unstake amount is bigger than user staked amount'')
      else
      let tot = total_staked_in_pool s pool in
      and_then (u128_sub staked amount) (\<lambda>staked'.
      and_then (fold_ok (unstake_step account pool current seen tot staked amount) (sk_distribution st)
          (tw, s\<lparr> fs_user_staked := kv_set (fs_user_staked s) (account @ pool) staked' \<rparr>, [Farm_transfer pool account amount]))
        (\<lambda>((totals, weights), s1, out).
      and_then (u128_sub tot amount) (\<lambda>tot'.
      Ok (s1\<lparr> fs_rewards := kv_set (fs_rewards s1) pool totals, fs_weights := kv_set (fs_weights s1) pool weights,
              fs_pending := kv_del (fs_pending s1) pool, fs_total_staked := kv_set (fs_total_staked s1) pool tot' \<rparr>,
          out @ (if tot' > 0 then [Farm_restake pool farm tot'] else []))))))))"

text \<open>One token of the loop in \<open>handle_claim_reward_reply\<close>.\<close>

definition claim_step ::
  "string \<Rightarrow> string \<Rightarrow> amounts \<Rightarrow> amounts \<Rightarrow> nat \<Rightarrow> nat \<Rightarrow> farm_distribution
     \<Rightarrow> pool_totals \<times> farm_state \<times> farm_out list \<Rightarrow> (std_error, pool_totals \<times> farm_state \<times> farm_out list) outcome"
where
  "claim_step account pool current seen tot staked d acc =
     (case acc of (tw, s, out) \<Rightarrow>
      let t = fd_token d; key = info_key account pool t; treasury = kv_nat (fs_treasury s) t in
      and_then (deduct_seen_strictly t seen (amount_of current t)) (\<lambda>fresh.
      and_then (raise_weight t fresh tot tw) (\<lambda>(tw', w).
      let i = user_reward_info s key w in
      and_then (weighted_reward (w - ri_weight i) staked) (\<lambda>n.
      and_then (u128_checked_add (ri_pending i) n) (\<lambda>reward.
      and_then (split_reward (fs_config s) reward) (\<lambda>(user, fee).
      and_then (u128_add treasury fee) (\<lambda>treasury'.
      Ok (tw', s\<lparr> fs_treasury := kv_set (fs_treasury s) t treasury',
            fs_user_info := kv_set (fs_user_info s) key \<lparr> ri_weight = w, ri_pending = 0 \<rparr> \<rparr>,
          out @ (if user > 0 then [Farm_transfer t account user] else [])))))))))"

definition handle_claim_reward_reply ::
  "farm_host \<Rightarrow> farm_state \<Rightarrow> env \<Rightarrow> bool \<Rightarrow> (std_error, farm_state \<times> farm_out list) outcome"
where
  "handle_claim_reward_reply H s e succeeded =
     (if \<not> succeeded then no_response
      else
      and_then (ok_or (Not_found ''CurrentClaimRewardInfo'') (fs_claim s)) (\<lambda>cur.
      let pool = cl_pool cur; account = cl_account cur; current = cl_pending cur;
          tw = (kv_list (fs_rewards s) pool, kv_list (fs_weights s) pool); seen = kv_list (fs_pending s) pool in
      and_then (query_stakable_token H (fc_loop_farm (fs_config s)) pool) (\<lambda>st.
      let tot = total_staked_in_pool s pool; staked = user_staked_in_pool s (account @ pool) in
      and_then (fold_ok (claim_step account pool current seen tot staked) (sk_distribution st) (tw, s, []))
        (\<lambda>((totals, weights), s1, out).
      Ok (s1\<lparr> fs_rewards := kv_set (fs_rewards s1) pool totals, fs_weights := kv_set (fs_weights s1) pool weights,
              fs_pending := kv_del (fs_pending s1) pool \<rparr>, out)))))"

definition farm_reply ::
  "farm_host \<Rightarrow> farm_state \<Rightarrow> env \<Rightarrow> bool \<Rightarrow> nat \<Rightarrow> (std_error, farm_state \<times> farm_out list) outcome"
where
  "farm_reply H s e succeeded rid =
     (if rid = stake_id then handle_stake_reply H s e succeeded
      else if rid = unstake_and_claim_id then handle_unstake_and_claim_reply H s e succeeded
      else if rid = claim_reward_id then handle_claim_reward_reply H s e succeeded
      else if rid = distribute_by_limit_id then handle_distribute_by_limit_reply H s e succeeded
      else Err (Generic_err ''Unknown reply id''))"

section \<open>Queries\<close>

definition farm_known_pool :: "farm_state \<Rightarrow> string \<Rightarrow> (std_error, 'a) outcome \<Rightarrow> (std_error, 'a) outcome" where
  "farm_known_pool s pool answer =
     (if kv_get (fs_stakeable s) pool \<noteq> None then answer else Err (Generic_err ''Incorrect Asset Provided''))"

definition farm_treasury_address :: "farm_state \<Rightarrow> addr" where
  "farm_treasury_address s = fc_treasury_addr (fs_config s)"

definition farm_treasury_fee :: "farm_state \<Rightarrow> nat" where
  "farm_treasury_fee s = fc_treasury_fee (fs_config s)"

definition farm_fee_multiplier :: "farm_state \<Rightarrow> nat" where
  "farm_fee_multiplier s = fc_fee_multiplier (fs_config s)"

definition farm_total_compounded :: "farm_state \<Rightarrow> string \<Rightarrow> nat" where
  "farm_total_compounded s pool = kv_nat (fs_compounded s) pool"

definition farm_auto_compound :: "farm_state \<Rightarrow> string \<Rightarrow> string \<Rightarrow> bool" where
  "farm_auto_compound s user pool = (case kv_get (fs_compound_flag s) (user @ pool) of Some b \<Rightarrow> b | None \<Rightarrow> False)"

definition farm_reward_in_pool :: "farm_host \<Rightarrow> farm_state \<Rightarrow> string \<Rightarrow> string \<Rightarrow> (std_error, nat) outcome" where
  "farm_reward_in_pool H s pool token =
     farm_known_pool s pool (query_failed (fh_reward_in_pool H (fc_loop_farm (fs_config s)) pool token))"

definition farm_staked_by_user :: "farm_state \<Rightarrow> string \<Rightarrow> string \<Rightarrow> (std_error, nat) outcome" where
  "farm_staked_by_user s wallet token = farm_known_pool s token (Ok (kv_nat (fs_user_staked s) (wallet @ token)))"

definition farm_query_staked :: "farm_state \<Rightarrow> string \<Rightarrow> (std_error, nat) outcome" where
  "farm_query_staked s token = farm_known_pool s token (Ok (kv_nat (fs_total_staked s) token))"

definition farm_list_tokens ::
  "farm_host \<Rightarrow> farm_state \<Rightarrow> string option \<Rightarrow> nat option \<Rightarrow> (std_error, stakeable_token list) outcome"
where
  "farm_list_tokens H s start lim =
     (let c = fs_config s;
          n = min (case lim of Some l \<Rightarrow> l | None \<Rightarrow> fc_default_limit c) (fc_max_limit c) in
      if (case start of Some x \<Rightarrow> kv_get (fs_stakeable s) x = None | None \<Rightarrow> False)
      then Err (Generic_err ''not a valid address passed'')
      else map_ok (\<lambda>(pool, _). query_stakable_token H (fc_loop_farm c) pool) (take n (kv_after (fs_stakeable s) start)))"

definition farm_pool_rewards :: "farm_host \<Rightarrow> farm_state \<Rightarrow> string \<Rightarrow> (std_error, amounts) outcome" where
  "farm_pool_rewards H s pool =
     farm_known_pool s pool (query_failed (fh_pool_rewards H (fc_loop_farm (fs_config s)) pool))"

text \<open>One token of the loop in \<open>query_user_reward_in_pool\<close>.\<close>

definition reward_row ::
  "farm_state \<Rightarrow> string \<Rightarrow> string \<Rightarrow> amounts \<Rightarrow> nat \<Rightarrow> nat \<Rightarrow> farm_distribution \<Rightarrow> amounts
     \<Rightarrow> (std_error, amounts) outcome"
where
  "reward_row s wallet pool current tot staked d rows =
     (let t = fd_token d; totals = kv_list (fs_rewards s) pool; weights = kv_list (fs_weights s) pool in
      and_then (deduct_seen t (kv_list (fs_pending s) pool) (amount_of current t)) (\<lambda>fresh.
      and_then
        (case position_of totals t of
           Some i \<Rightarrow> and_then (second_at weights i) (\<lambda>w. and_then (decimal_from_ratio fresh tot) (\<lambda>q. u128_add w q))
         | None \<Rightarrow> decimal_from_ratio fresh tot) (\<lambda>w.
      let i = user_reward_info s (info_key wallet pool t) w in
      and_then (u128_sub w (ri_weight i)) (\<lambda>diff.
      and_then (weighted_reward diff staked) (\<lambda>n.
      and_then (u128_add n (ri_pending i)) (\<lambda>reward.
      if reward > 0 then and_then (split_reward (fs_config s) reward) (\<lambda>(user, fee). Ok (rows @ [(t, user)]))
      else Ok rows))))))"

definition farm_user_reward ::
  "farm_host \<Rightarrow> farm_state \<Rightarrow> env \<Rightarrow> string \<Rightarrow> string \<Rightarrow> (std_error, (string \<times> amounts) list) outcome"
where
  "farm_user_reward H s e wallet pool =
     farm_known_pool s pool
      (let farm = fc_loop_farm (fs_config s) in
       and_then (query_stakable_token H farm pool) (\<lambda>st.
       and_then (case query_pending_rewards H farm (contract_address e) pool of Err x \<Rightarrow> Ok [] | r \<Rightarrow> r) (\<lambda>current.
       let tot = total_staked_in_pool s pool; staked = kv_nat (fs_user_staked s) (wallet @ pool) in
       and_then (if tot > 0 then fold_ok (reward_row s wallet pool current tot staked) (sk_distribution st) []
                 else Ok []) (\<lambda>rows.
       Ok [(pool, rows)]))))"

text \<open>The text answers as numbers; \<open>None\<close> is the empty text.\<close>

definition farm_staked_time :: "farm_state \<Rightarrow> string \<Rightarrow> string \<Rightarrow> nat option" where
  "farm_staked_time s wallet pool = kv_get (fs_start_time s) (wallet @ pool)"

definition farm_lock_time :: "farm_host \<Rightarrow> farm_state \<Rightarrow> (std_error, nat) outcome" where
  "farm_lock_time H s = query_failed (fh_lock_time H (fc_loop_farm (fs_config s)))"

definition farm_wait_time :: "farm_host \<Rightarrow> farm_state \<Rightarrow> (std_error, nat) outcome" where
  "farm_wait_time H s = query_failed (fh_wait_time H (fc_loop_farm (fs_config s)))"

definition farm_last_time :: "farm_host \<Rightarrow> farm_state \<Rightarrow> string \<Rightarrow> (std_error, nat) outcome" where
  "farm_last_time H s pool = query_failed (fh_last_time H (fc_loop_farm (fs_config s)) pool)"

definition farm_token_balance ::
  "platform \<Rightarrow> farm_host \<Rightarrow> farm_state \<Rightarrow> env \<Rightarrow> string \<Rightarrow> (std_error, nat) outcome"
where
  "farm_token_balance P H s e token =
     and_then (addr_validate P token) (\<lambda>a.
     and_then (query_failed (fh_balance H a (contract_address e))) (\<lambda>n.
     u128_sub n (kv_nat (fs_unclaimed s) token)))"

definition farm_flp_token :: "farm_state \<Rightarrow> string \<Rightarrow> (std_error, string) outcome" where
  "farm_flp_token s pool =
     (case kv_get (fs_stakeable s) pool of Some st \<Rightarrow> Ok (sk_liquidity st) | None \<Rightarrow> Err (Generic_err ''Pool not found''))"

definition farm_treasury_rewards :: "farm_state \<Rightarrow> string \<Rightarrow> string \<times> nat" where
  "farm_treasury_rewards s token = (token, kv_nat (fs_treasury s) token)"

datatype farm_question =
    Fq_reward_in_pool string string
  | Fq_staked_by_user string string
  | Fq_total_staked string
  | Fq_tokens "string option" "nat option"
  | Fq_pool_rewards string
  | Fq_user_reward string string
  | Fq_staked_time string string
  | Fq_wait_time
  | Fq_lock_time
  | Fq_last_time string
  | Fq_balance string
  | Fq_auto_compound string string
  | Fq_compounded string
  | Fq_flp string
  | Fq_treasury_address
  | Fq_treasury_fee
  | Fq_fee_multiplier
  | Fq_treasury string

datatype farm_answer =
    Fa_number nat
  | Fa_text string
  | Fa_flag bool
  | Fa_tokens "stakeable_token list"
  | Fa_amounts amounts
  | Fa_rewards "(string \<times> amounts) list"
  | Fa_time "nat option"
  | Fa_treasury string nat

definition answer_with :: "('a \<Rightarrow> farm_answer) \<Rightarrow> (std_error, 'a) outcome \<Rightarrow> (std_error, farm_answer) outcome" where
  "answer_with f r = and_then r (\<lambda>x. Ok (f x))"

fun farm_query ::
  "platform \<Rightarrow> farm_host \<Rightarrow> farm_state \<Rightarrow> env \<Rightarrow> farm_question \<Rightarrow> (std_error, farm_answer) outcome"
where
  "farm_query P H s e Fq_treasury_address = Ok (Fa_text (farm_treasury_address s))"
| "farm_query P H s e Fq_treasury_fee = Ok (Fa_number (farm_treasury_fee s))"
| "farm_query P H s e Fq_fee_multiplier = Ok (Fa_number (farm_fee_multiplier s))"
| "farm_query P H s e (Fq_reward_in_pool pool t) = answer_with Fa_number (farm_reward_in_pool H s pool t)"
| "farm_query P H s e (Fq_staked_by_user w t) = answer_with Fa_number (farm_staked_by_user s w t)"
| "farm_query P H s e (Fq_total_staked t) = answer_with Fa_number (farm_query_staked s t)"
| "farm_query P H s e (Fq_tokens start lim) = answer_with Fa_tokens (farm_list_tokens H s start lim)"
| "farm_query P H s e (Fq_pool_rewards pool) = answer_with Fa_amounts (farm_pool_rewards H s pool)"
| "farm_query P H s e (Fq_user_reward w pool) = answer_with Fa_rewards (farm_user_reward H s e w pool)"
| "farm_query P H s e (Fq_staked_time w pool) = Ok (Fa_time (farm_staked_time s w pool))"
| "farm_query P H s e Fq_wait_time = answer_with Fa_number (farm_wait_time H s)"
| "farm_query P H s e Fq_lock_time = answer_with Fa_number (farm_lock_time H s)"
| "farm_query P H s e (Fq_last_time pool) = answer_with Fa_number (farm_last_time H s pool)"
| "farm_query P H s e (Fq_balance t) = answer_with Fa_number (farm_token_balance P H s e t)"
| "farm_query P H s e (Fq_auto_compound u pool) = Ok (Fa_flag (farm_auto_compound s u pool))"
| "farm_query P H s e (Fq_compounded pool) = Ok (Fa_number (farm_total_compounded s pool))"
| "farm_query P H s e (Fq_flp pool) = answer_with Fa_text (farm_flp_token s pool)"
| "farm_query P H s e (Fq_treasury t) = (case farm_treasury_rewards s t of (x, n) \<Rightarrow> Ok (Fa_treasury x n))"

end
