(* ===== verification/Farming_Proofs.thy ===== *)
theory Farming_Proofs
  imports Farming
begin

text \<open>
  The books of the farming contract.  Keys are concatenated strings, so the accounts are summed over a
  finite set of addresses none of which is a proper prefix of another.  For one pool, \<open>books_ok\<close>
  relates the weights, the settled accounts, what has been spent and a limit; one step of each
  settlement loop keeps it, and so does the loop.
\<close>

section \<open>Addresses and keys\<close>

definition apart :: "string set \<Rightarrow> bool" where
  "apart A \<longleftrightarrow> (\<forall>x\<in>A. \<forall>y\<in>A. \<forall>u v. x @ u = y @ v \<longrightarrow> x = y)"

lemma apartD: "apart A \<Longrightarrow> x \<in> A \<Longrightarrow> y \<in> A \<Longrightarrow> x @ u = y @ v \<longleftrightarrow> x = y \<and> u = v"
  by (auto simp: apart_def)

lemma info_key_eq:
  assumes "apart A" "a \<in> A" "a' \<in> A" "p \<in> A" "p' \<in> A"
  shows "info_key a p t = info_key a' p' t' \<longleftrightarrow> a = a' \<and> p = p' \<and> t = t'"
  using apartD [OF assms(1-3)] apartD [OF assms(1,4,5)] by (auto simp: info_key_def)

section \<open>Named amounts\<close>

lemma amount_of_simps [simp]:
  "amount_of [] t = 0" "amount_of ((u, n) # xs) t = (if u = t then n else amount_of xs t)"
  by (auto simp: amount_of_def)

lemma amount_of_absent: "t \<notin> fst ` set xs \<Longrightarrow> amount_of xs t = 0"
  by (induction xs) auto

lemma amount_of_append:
  "amount_of (xs @ ys) t = (if t \<in> fst ` set xs then amount_of xs t else amount_of ys t)"
proof (induction xs)
  case (Cons e xs)
  then show ?case by (cases e) (simp split del: if_split cong: if_cong, force)
qed simp

lemma position_of_None: "position_of xs t = None \<longleftrightarrow> t \<notin> fst ` set xs"
proof (induction xs)
  case (Cons e xs)
  then show ?case by (cases e) (auto simp: position_of_def Let_def split: if_splits)
qed (simp add: position_of_def)

lemma position_of_Some: "position_of xs t = Some i \<Longrightarrow> i < length xs \<and> fst (xs ! i) = t"
  using nth_length_takeWhile [of "\<lambda>e. fst e \<noteq> t" xs] by (auto simp: position_of_def Let_def split: if_splits)

lemma amount_of_nth:
  assumes "distinct (map fst xs)" "i < length xs"
  shows "amount_of xs (fst (xs ! i)) = snd (xs ! i)"
proof -
  have "map_of xs (fst (xs ! i)) = Some (snd (xs ! i))"
    by (rule map_of_is_SomeI) (use assms in simp_all)
  then show ?thesis by (simp only: amount_of_def option.case)
qed

lemma set_second_keys: "i < length xs \<Longrightarrow> map fst (set_second xs i y) = map fst xs"
  by (simp add: set_second_def map_update list_update_same_conv)

lemma amount_of_set_second:
  assumes "distinct (map fst xs)" "i < length xs"
  shows "amount_of (set_second xs i y) t = (if t = fst (xs ! i) then y else amount_of xs t)"
  using assms
proof (induction xs arbitrary: i)
  case (Cons e xs)
  obtain u n where e: "e = (u, n)" by force
  show ?case
  proof (cases i)
    case 0
    then show ?thesis by (auto simp: set_second_def e)
  next
    case (Suc j)
    then have j: "j < length xs" "distinct (map fst xs)" "fst (xs ! j) \<noteq> u"
      using Cons.prems by (auto simp: e)
    have "set_second (e # xs) i y = (u, n) # set_second xs j y" by (simp add: set_second_def e Suc)
    then show ?thesis using Cons.IH [OF j(2,1)] j(3) by (auto simp: e Suc)
  qed
qed simp

lemma deduct_seen_Ok:
  "distinct (map fst seen) \<Longrightarrow> deduct_seen t seen n = Ok m \<Longrightarrow> amount_of seen t \<le> n \<and> m + amount_of seen t = n"
proof (induction seen arbitrary: n)
  case (Cons e seen)
  obtain t' k where e: "e = (t', k)" by force
  show ?case
  proof (cases "t' = t")
    case True
    then have "amount_of seen t = 0" using Cons.prems(1) by (intro amount_of_absent) (auto simp: e)
    moreover have "k \<le> n" "deduct_seen t seen (n - k) = Ok m"
      using Cons.prems(2) True by (auto simp: e outcome_simps arith_simps)
    ultimately show ?thesis using Cons.IH [of "n - k"] Cons.prems(1) True by (auto simp: e)
  qed (use Cons in \<open>auto simp: e\<close>)
qed simp

lemma deduct_seen_strictly_Ok:
  "distinct (map fst seen) \<Longrightarrow> deduct_seen_strictly t seen n = Ok m \<Longrightarrow> amount_of seen t \<le> n \<and> m + amount_of seen t = n"
proof (induction seen arbitrary: n)
  case (Cons e seen)
  obtain t' k where e: "e = (t', k)" by force
  show ?case
  proof (cases "t' = t")
    case True
    then have "amount_of seen t = 0" using Cons.prems(1) by (intro amount_of_absent) (auto simp: e)
    moreover have "k \<le> n" "deduct_seen_strictly t seen (n - k) = Ok m"
      using Cons.prems(2) True by (auto simp: e outcome_simps arith_simps split: if_splits)
    ultimately show ?thesis using Cons.IH [of "n - k"] Cons.prems(1) True by (auto simp: e)
  qed (use Cons in \<open>auto simp: e\<close>)
qed simp

section \<open>Weights\<close>

lemma decimal_from_ratio_Ok:
  "decimal_from_ratio a b = Ok q \<Longrightarrow> b \<noteq> 0 \<and> q = a * decimal_one div b"
  by (auto simp: decimal_from_ratio_def u128_multiply_ratio_def split: if_splits)

lemma weighted_reward_Ok:
  assumes "weighted_reward diff staked = Ok n"
  shows "decimal_one * n \<le> diff * staked"
proof -
  obtain d where d: "dec_mul diff (staked * decimal_one) = Some d" and n: "n = dec_floor d"
    using assms by (auto simp: weighted_reward_def outcome_simps dest!: decimal_from_ratio_Ok)
  show ?thesis using dec_mul_whole [OF d] dec_floor_le [of d] by (simp add: n mult.commute)
qed

definition totals_ok :: "pool_totals \<Rightarrow> bool" where
  "totals_ok tw \<longleftrightarrow> map fst (fst tw) = map fst (snd tw) \<and> distinct (map fst (snd tw))"

definition tokens_of :: "pool_totals \<Rightarrow> string set" where
  "tokens_of tw = fst ` set (snd tw)"

definition weight_in :: "pool_totals \<Rightarrow> string \<Rightarrow> decimal" where
  "weight_in tw t = amount_of (snd tw) t"

lemma totals_ok_length: "totals_ok tw \<Longrightarrow> length (fst tw) = length (snd tw)"
  by (auto simp: totals_ok_def dest: map_eq_imp_length_eq)

lemma totals_ok_nth: "totals_ok tw \<Longrightarrow> i < length (fst tw) \<Longrightarrow> fst (fst tw ! i) = fst (snd tw ! i)"
  by (metis nth_map totals_ok_def totals_ok_length)

lemma totals_ok_tokens: "totals_ok tw \<Longrightarrow> fst ` set (fst tw) = tokens_of tw"
  by (metis list.set_map totals_ok_def tokens_of_def)

text \<open>What counting a reward does to the totals of a pool.\<close>

definition counted :: "string \<Rightarrow> nat \<Rightarrow> pool_totals \<Rightarrow> pool_totals \<Rightarrow> bool" where
  "counted t q tw tw' \<longleftrightarrow> totals_ok tw' \<and> tokens_of tw' = insert t (tokens_of tw) \<and>
     weight_in tw' t = weight_in tw t + q \<and> (\<forall>u. u \<noteq> t \<longrightarrow> weight_in tw' u = weight_in tw u)"

lemma counted_append:
  assumes "totals_ok (totals, weights)" "t \<notin> tokens_of (totals, weights)"
  shows "counted t q (totals, weights) (totals @ [(t, n)], weights @ [(t, q)])"
  using assms by (auto simp: counted_def totals_ok_def tokens_of_def weight_in_def amount_of_append amount_of_absent)

lemma counted_update:
  assumes "totals_ok (totals, weights)" "position_of totals t = Some i"
  shows "counted t q (totals, weights) (set_second totals i n, set_second weights i (snd (weights ! i) + q))"
    "snd (weights ! i) = weight_in (totals, weights) t" "i < length weights"
proof -
  have i: "i < length totals" "fst (totals ! i) = t" using position_of_Some [OF assms(2)] by auto
  have w: "i < length weights" "fst (weights ! i) = t" "distinct (map fst weights)"
    using i totals_ok_length [OF assms(1)] totals_ok_nth [OF assms(1), of i] assms(1) by (auto simp: totals_ok_def)
  have keys: "map fst (set_second totals i n) = map fst weights"
      "map fst (set_second weights i (snd (weights ! i) + q)) = map fst weights"
    using set_second_keys [OF i(1)] set_second_keys [OF w(1)] assms(1) by (simp_all add: totals_ok_def)
  have mem: "t \<in> set (map fst weights)" using w by (metis nth_map nth_mem length_map)
  show snd: "snd (weights ! i) = weight_in (totals, weights) t"
    using amount_of_nth [OF w(3,1)] w(2) by (simp add: weight_in_def)
  have "tokens_of (set_second totals i n, set_second weights i (snd (weights ! i) + q)) = tokens_of (totals, weights)"
    using arg_cong [OF keys(2), of set] by (simp add: tokens_of_def)
  moreover have "insert t (tokens_of (totals, weights)) = tokens_of (totals, weights)"
    using mem by (auto simp: tokens_of_def)
  ultimately show "counted t q (totals, weights) (set_second totals i n, set_second weights i (snd (weights ! i) + q))"
    using keys w(3) amount_of_set_second [OF w(3,1)] w(2) snd
    by (simp add: counted_def totals_ok_def weight_in_def)
  show "i < length weights" by (rule w)
qed

lemma raise_weight_Ok:
  assumes "raise_weight t fresh tot tw = Ok (tw', w)" "totals_ok tw"
  obtains q where "counted t q tw tw'" "w = weight_in tw' t" "q * tot \<le> decimal_one * fresh" "tot \<noteq> 0"
proof -
  obtain totals weights where tw: "tw = (totals, weights)" by force
  have share: "q * tot \<le> decimal_one * fresh" if "q = fresh * decimal_one div tot" for q
    by (simp add: that mult.commute [of decimal_one])
  show thesis
  proof (cases "position_of totals t")
    case None
    then obtain q where q: "decimal_from_ratio fresh tot = (Ok q :: (std_error, decimal) outcome)"
      "tw' = (totals @ [(t, fresh)], weights @ [(t, q)])" "w = q"
      using assms(1) by (auto simp: raise_weight_def tw outcome_simps)
    have "t \<notin> tokens_of tw" using None totals_ok_tokens [OF assms(2)] by (simp add: tw position_of_None)
    then have "counted t q tw tw'" using counted_append assms(2) by (simp add: tw q)
    moreover from this have "w = weight_in tw' t"
      using \<open>t \<notin> tokens_of tw\<close> by (simp add: counted_def q weight_in_def tokens_of_def amount_of_absent)
    ultimately show thesis using that share decimal_from_ratio_Ok [OF q(1)] by blast
  next
    case (Some i)
    note up = counted_update [OF assms(2) [unfolded tw] Some]
    obtain r q where q: "decimal_from_ratio fresh tot = (Ok q :: (std_error, decimal) outcome)"
      "tw' = (set_second totals i r, set_second weights i (snd (weights ! i) + q))" "w = snd (weights ! i) + q"
      using assms(1) Some up(3)
      by (auto simp: raise_weight_def tw outcome_simps arith_simps second_at_def split: if_splits)
    then have "counted t q tw tw'" using up(1) by (simp add: tw)
    moreover from this have "w = weight_in tw' t" using up(2) by (simp add: counted_def q tw)
    ultimately show thesis using that share decimal_from_ratio_Ok [OF q(1)] by blast
  qed
qed

lemma count_reward_Ok:
  assumes "count_reward t fresh tw = Ok (tw', w)" "totals_ok tw"
  shows "counted t 0 tw tw'" "w = weight_in tw' t"
proof -
  obtain totals weights where tw: "tw = (totals, weights)" by force
  have "counted t 0 tw tw' \<and> w = weight_in tw' t"
  proof (cases "position_of totals t")
    case None
    then have out: "tw' = (totals @ [(t, fresh)], weights @ [(t, 0)])" "w = 0"
      using assms(1) by (auto simp: count_reward_def tw)
    have "t \<notin> tokens_of tw" using None totals_ok_tokens [OF assms(2)] by (simp add: tw position_of_None)
    then have "counted t 0 tw tw'" using counted_append assms(2) by (simp add: tw out)
    then show ?thesis using \<open>t \<notin> tokens_of tw\<close>
      by (simp add: counted_def out weight_in_def tokens_of_def amount_of_absent)
  next
    case (Some i)
    note up = counted_update [OF assms(2) [unfolded tw] Some]
    obtain r where out: "tw' = (set_second totals i r, weights)" "w = snd (weights ! i)"
      using assms(1) Some up(3)
      by (auto simp: count_reward_def tw outcome_simps arith_simps second_at_def split: if_splits)
    have "set_second weights i (snd (weights ! i) + 0) = weights" by (simp add: set_second_def)
    then have "counted t 0 tw tw'" using up(1) [of 0 r] by (simp add: tw out)
    then show ?thesis using up(2) by (simp add: counted_def out tw)
  qed
  then show "counted t 0 tw tw'" "w = weight_in tw' t" by auto
qed

section \<open>What a pool owes\<close>

type_synonym infos = "(string, farm_reward_info) kv"

text \<open>The unpaid rewards of an account in one token, for the stakes \<open>st\<close> of the pool, in 18-digit atomics.\<close>

definition user_owed :: "infos \<Rightarrow> (string \<Rightarrow> nat) \<Rightarrow> decimal \<Rightarrow> string \<Rightarrow> string \<Rightarrow> string \<Rightarrow> nat" where
  "user_owed I st w p t a =
     (case kv_get I (info_key a p t) of
        None \<Rightarrow> 0
      | Some i \<Rightarrow> (w - ri_weight i) * st a + decimal_one * ri_pending i)"

definition pool_owed :: "string set \<Rightarrow> infos \<Rightarrow> (string \<Rightarrow> nat) \<Rightarrow> decimal \<Rightarrow> string \<Rightarrow> string \<Rightarrow> nat" where
  "pool_owed A I st w p t = (\<Sum>a\<in>A. user_owed I st w p t a)"

lemma user_owed_raised: "user_owed I st (w + q) p t a \<le> user_owed I st w p t a + q * st a"
proof (cases "kv_get I (info_key a p t)")
  case (Some i)
  have "(w + q - ri_weight i) * st a \<le> (w - ri_weight i + q) * st a" by (intro mult_le_mono1) simp
  then show ?thesis by (simp add: user_owed_def Some distrib_right)
qed (simp add: user_owed_def)

lemma pool_owed_raised: "pool_owed A I st (w + q) p t \<le> pool_owed A I st w p t + q * (\<Sum>a\<in>A. st a)"
proof -
  have "pool_owed A I st (w + q) p t \<le> (\<Sum>a\<in>A. user_owed I st w p t a + q * st a)"
    unfolding pool_owed_def by (rule sum_mono) (rule user_owed_raised)
  then show ?thesis by (simp add: pool_owed_def sum.distrib sum_distrib_left)
qed

text \<open>Settling one account changes what is owed by that account only.\<close>

lemma user_owed_other:
  assumes "apart A" "a \<in> A" "b \<in> A" "p \<in> A" "p' \<in> A" "(a, p, t) \<noteq> (b, p', u)"
  shows "user_owed (kv_set I (info_key a p t) i) st w p' u b = user_owed I st w p' u b"
  using info_key_eq [OF assms(1-5), of t u] assms(6) by (auto simp: user_owed_def)

lemma pool_owed_other:
  assumes "apart A" "a \<in> A" "p \<in> A" "p' \<in> A" "(p, t) \<noteq> (p', u)"
  shows "pool_owed A (kv_set I (info_key a p t) i) st w p' u = pool_owed A I st w p' u"
  unfolding pool_owed_def using assms by (intro sum.cong refl user_owed_other) auto

lemma pool_owed_settled:
  assumes "apart A" "finite A" "a \<in> A" "p \<in> A"
  shows "pool_owed A (kv_set I (info_key a p t) i) st w p t + user_owed I st w p t a
    = pool_owed A I st w p t + ((w - ri_weight i) * st a + decimal_one * ri_pending i)"
proof -
  have "(\<Sum>b\<in>A - {a}. user_owed (kv_set I (info_key a p t) i) st w p t b) = (\<Sum>b\<in>A - {a}. user_owed I st w p t b)"
    using assms by (intro sum.cong refl user_owed_other) auto
  then show ?thesis
    using sum.remove [OF assms(2,3), of "user_owed (kv_set I (info_key a p t) i) st w p t"]
      sum.remove [OF assms(2,3), of "user_owed I st w p t"]
    by (simp add: pool_owed_def) (simp add: user_owed_def)
qed

section \<open>The books of a pool\<close>

text \<open>
  For a pool \<open>p\<close> with stakes \<open>st\<close>: what was spent on a token and what its accounts are owed stays below
  a limit, in whole tokens; the weight of an account is one the pool has reached.
\<close>

definition books_ok ::
  "string set \<Rightarrow> string \<Rightarrow> (string \<Rightarrow> nat) \<Rightarrow> pool_totals \<Rightarrow> infos \<Rightarrow> (string \<Rightarrow> nat) \<Rightarrow> (string \<Rightarrow> nat) \<Rightarrow> bool"
where
  "books_ok A p st tw I spent lim \<longleftrightarrow> totals_ok tw \<and>
     (\<forall>a\<in>A. \<forall>t\<in>A. \<forall>i. kv_get I (info_key a p t) = Some i \<longrightarrow> ri_weight i \<le> weight_in tw t \<and> t \<in> tokens_of tw) \<and>
     (\<forall>t\<in>A. t \<notin> tokens_of tw \<longrightarrow> spent t = 0) \<and>
     (\<forall>t\<in>tokens_of tw. t \<in> A \<longrightarrow> decimal_one * spent t + pool_owed A I st (weight_in tw t) p t \<le> decimal_one * lim t)"

lemma books_okD:
  assumes "books_ok A p st tw I spent lim"
  shows "totals_ok tw"
    and "a \<in> A \<Longrightarrow> t \<in> A \<Longrightarrow> kv_get I (info_key a p t) = Some i \<Longrightarrow> ri_weight i \<le> weight_in tw t \<and> t \<in> tokens_of tw"
    and "t \<in> A \<Longrightarrow> decimal_one * spent t + pool_owed A I st (weight_in tw t) p t \<le> decimal_one * lim t"
proof -
  have none: "pool_owed A I st w p t = 0 \<and> spent t = 0" if "t \<in> A" "t \<notin> tokens_of tw" for w
  proof -
    have "kv_get I (info_key a p t) = None" if "a \<in> A" for a
    proof (rule ccontr)
      assume "kv_get I (info_key a p t) \<noteq> None"
      then obtain i where "kv_get I (info_key a p t) = Some i" by auto
      then have "t \<in> tokens_of tw" using assms \<open>a \<in> A\<close> \<open>t \<in> A\<close> unfolding books_ok_def by blast
      then show False using \<open>t \<notin> tokens_of tw\<close> by simp
    qed
    then have "pool_owed A I st w p t = 0" by (simp add: pool_owed_def user_owed_def)
    then show ?thesis using assms that by (simp add: books_ok_def)
  qed
  show "totals_ok tw"
    and "a \<in> A \<Longrightarrow> t \<in> A \<Longrightarrow> kv_get I (info_key a p t) = Some i \<Longrightarrow> ri_weight i \<le> weight_in tw t \<and> t \<in> tokens_of tw"
    using assms by (simp_all add: books_ok_def)
  show "t \<in> A \<Longrightarrow> decimal_one * spent t + pool_owed A I st (weight_in tw t) p t \<le> decimal_one * lim t"
    using assms none [of "weight_in tw t"] by (cases "t \<in> tokens_of tw") (simp_all add: books_ok_def)
qed

lemma books_okI:
  assumes "totals_ok tw"
    and "\<And>a t i. a \<in> A \<Longrightarrow> t \<in> A \<Longrightarrow> kv_get I (info_key a p t) = Some i \<Longrightarrow> ri_weight i \<le> weight_in tw t \<and> t \<in> tokens_of tw"
    and "\<And>t. t \<in> A \<Longrightarrow> t \<notin> tokens_of tw \<Longrightarrow> spent t = 0"
    and "\<And>t. t \<in> tokens_of tw \<Longrightarrow> t \<in> A \<Longrightarrow> decimal_one * spent t + pool_owed A I st (weight_in tw t) p t \<le> decimal_one * lim t"
  shows "books_ok A p st tw I spent lim"
  using assms unfolding books_ok_def by blast

text \<open>
  One settlement: the weight of a token rises by \<open>q\<close>, and the account is settled at the new weight,
  keeping \<open>pend\<close> of its reward as pending while \<open>x\<close> of it is spent.
\<close>

lemma books_settle:
  assumes ok: "books_ok A p st tw I spent lim" and A: "apart A" "finite A" "a \<in> A" "p \<in> A" "t \<in> A"
    and c: "counted t q tw tw'" "q * (\<Sum>a\<in>A. st a) \<le> decimal_one * fresh"
    and i: "i = (case kv_get I (info_key a p t) of Some i \<Rightarrow> i | None \<Rightarrow> \<lparr> ri_weight = weight_in tw' t, ri_pending = 0 \<rparr>)"
    and n: "decimal_one * n \<le> (weight_in tw' t - ri_weight i) * st a" "pend + x = ri_pending i + n"
  shows "books_ok A p st tw' (kv_set I (info_key a p t) \<lparr> ri_weight = weight_in tw' t, ri_pending = pend \<rparr>)
    (spent(t := spent t + x)) (lim(t := lim t + fresh))" (is "books_ok A p st tw' ?I ?spent ?lim")
proof -
  note D = books_okD [OF ok]
  have tw': "totals_ok tw'" "tokens_of tw' = insert t (tokens_of tw)" "weight_in tw' t = weight_in tw t + q"
    "\<And>u. u \<noteq> t \<Longrightarrow> weight_in tw' u = weight_in tw u"
    using c(1) by (simp_all add: counted_def)
  have infos: "ri_weight j \<le> weight_in tw' u \<and> u \<in> tokens_of tw'"
    if "b \<in> A" "u \<in> A" "kv_get ?I (info_key b p u) = Some j" for b u j
  proof (cases "(b, u) = (a, t)")
    case True
    then show ?thesis using that tw'(2) by auto
  next
    case False
    then have "kv_get I (info_key b p u) = Some j"
      using that info_key_eq [OF A(1,3) that(1) A(4) A(4), of t u] by (auto split: if_splits)
    then show ?thesis using D(2) [OF that(1,2)] tw' by (cases "u = t") auto
  qed
  have old: "user_owed I st (weight_in tw' t) p t a + decimal_one * 0 \<ge> decimal_one * (pend + x)"
  proof (cases "kv_get I (info_key a p t)")
    case None
    then have "n = 0" using n(1) i by simp
    then have "pend + x = 0" using n(2) None i by simp
    then show ?thesis by simp
  next
    case (Some j)
    then show ?thesis using n i by (simp add: user_owed_def distrib_left)
  qed
  have "pool_owed A I st (weight_in tw' t) p t \<le> pool_owed A I st (weight_in tw t) p t + decimal_one * fresh"
    using pool_owed_raised [of A I st "weight_in tw t" q p t] c(2) by (simp add: tw'(3))
  then have "pool_owed A ?I st (weight_in tw' t) p t + decimal_one * x \<le> pool_owed A I st (weight_in tw t) p t + decimal_one * fresh"
    using pool_owed_settled [OF A(1,2,3,4), of I t "\<lparr> ri_weight = weight_in tw' t, ri_pending = pend \<rparr>" st "weight_in tw' t"] old
    by (simp add: distrib_left)
  then have here: "decimal_one * (spent t + x) + pool_owed A ?I st (weight_in tw' t) p t \<le> decimal_one * (lim t + fresh)"
    using D(3) [OF A(5)] by (simp add: distrib_left)
  have there: "decimal_one * spent u + pool_owed A ?I st (weight_in tw' u) p u \<le> decimal_one * lim u"
    if "u \<in> A" "u \<noteq> t" for u
    using D(3) [OF that(1)] pool_owed_other [OF A(1,3,4,4), of t u I] that(2) tw'(4) by simp
  show ?thesis
  proof (rule books_okI)
    show "totals_ok tw'" by (rule tw'(1))
    show "ri_weight j \<le> weight_in tw' u \<and> u \<in> tokens_of tw'"
      if "b \<in> A" "u \<in> A" "kv_get ?I (info_key b p u) = Some j" for b u j
      by (rule infos [OF that])
    show "?spent u = 0" if "u \<in> A" "u \<notin> tokens_of tw'" for u
      using ok that tw'(2) by (simp add: books_ok_def)
    show "decimal_one * ?spent u + pool_owed A ?I st (weight_in tw' u) p u \<le> decimal_one * ?lim u"
      if "u \<in> tokens_of tw'" "u \<in> A" for u
      using here there [OF that(2)] by (cases "u = t") simp_all
  qed
qed

text \<open>A limit may grow and stakes that are settled may change.\<close>

lemma books_ok_mono:
  assumes "books_ok A p st tw I spent lim" "\<And>t. t \<in> tokens_of tw \<Longrightarrow> t \<in> A \<Longrightarrow> lim t \<le> lim' t"
    and "\<And>t. t \<in> A \<Longrightarrow> spent' t = spent t"
  shows "books_ok A p st tw I spent' lim'"
proof (rule books_okI)
  show "totals_ok tw" by (rule books_okD [OF assms(1)])
  show "ri_weight i \<le> weight_in tw t \<and> t \<in> tokens_of tw" if "a \<in> A" "t \<in> A" "kv_get I (info_key a p t) = Some i" for a t i
    by (rule books_okD(2) [OF assms(1) that])
  show "spent' t = 0" if "t \<in> A" "t \<notin> tokens_of tw" for t
    using assms(1,3) that by (simp add: books_ok_def)
  show "decimal_one * spent' t + pool_owed A I st (weight_in tw t) p t \<le> decimal_one * lim' t"
    if "t \<in> tokens_of tw" "t \<in> A" for t
  proof -
    have "decimal_one * lim t \<le> decimal_one * lim' t" using assms(2) [OF that] by simp
    from order_trans [OF books_okD(3) [OF assms(1) that(2)] this]
    show ?thesis by (simp only: assms(3) [OF that(2)])
  qed
qed

section \<open>The settlement loops\<close>

text \<open>The tokens a list of messages transfers.\<close>

fun paid_for :: "farm_out list \<Rightarrow> string \<Rightarrow> nat" where
  "paid_for [] t = 0"
| "paid_for (Farm_transfer u a n # out) t = (if u = t then n else 0) + paid_for out t"
| "paid_for (_ # out) t = paid_for out t"

lemma paid_for_append [simp]: "paid_for (xs @ ys) t = paid_for xs t + paid_for ys t"
  by (induction xs t rule: paid_for.induct) auto

definition settle_hyps ::
  "string set \<Rightarrow> string \<Rightarrow> string \<Rightarrow> (string \<Rightarrow> nat) \<Rightarrow> nat \<Rightarrow> nat \<Rightarrow> amounts \<Rightarrow> bool"
where
  "settle_hyps A a p st tot staked seen \<longleftrightarrow> apart A \<and> finite A \<and> a \<in> A \<and> p \<in> A \<and> st a = staked \<and>
     (\<Sum>b\<in>A. st b) = tot \<and> distinct (map fst seen)"

text \<open>What settling the tokens \<open>T\<close> of a pool does to state and messages.\<close>

definition settled ::
  "string set \<Rightarrow> string \<Rightarrow> string \<Rightarrow> (string \<Rightarrow> nat) \<Rightarrow> nat \<Rightarrow> amounts \<Rightarrow> amounts \<Rightarrow> string set \<Rightarrow> (string \<Rightarrow> nat) \<Rightarrow> (string \<Rightarrow> nat)
     \<Rightarrow> pool_totals \<times> farm_state \<times> farm_out list \<Rightarrow> pool_totals \<times> farm_state \<times> farm_out list \<Rightarrow> bool"
where
  "settled A a p st tot current seen T spent lim old_acc new_acc \<longleftrightarrow>
     (case old_acc of (tw, s, out) \<Rightarrow> case new_acc of (tw', s', out') \<Rightarrow>
      \<exists>I tr rest spent'. s' = s\<lparr> fs_user_info := I, fs_treasury := tr \<rparr> \<and> out' = out @ rest \<and>
        books_ok A p st tw' I spent' (\<lambda>t. lim t + (if t \<in> T then amount_of current t - amount_of seen t else 0)) \<and>
        (\<forall>t. spent' t + kv_nat (fs_treasury s) t = spent t + kv_nat tr t + paid_for rest t) \<and>
        (\<forall>t\<in>T. amount_of seen t \<le> amount_of current t) \<and> tokens_of tw' = tokens_of tw \<union> T \<and>
        (tot = 0 \<longrightarrow> (\<forall>t. weight_in tw' t = 0)) \<and>
        (\<forall>k. k \<notin> info_key a p ` T \<longrightarrow> kv_get I k = kv_get (fs_user_info s) k) \<and>
        (\<forall>t. kv_nat (fs_treasury s) t \<le> kv_nat tr t) \<and>
        (\<forall>t. t \<notin> T \<longrightarrow> weight_in tw' t = weight_in tw t) \<and>
        (\<forall>t\<in>T. \<exists>i. kv_get I (info_key a p t) = Some i \<and> ri_weight i = weight_in tw' t))"

lemma settledE:
  assumes "settled A a p st tot current seen T spent lim (tw, s, out) (tw', s', out')"
  obtains I tr rest spent' where "s' = s\<lparr> fs_user_info := I, fs_treasury := tr \<rparr>" "out' = out @ rest"
      "books_ok A p st tw' I spent' (\<lambda>t. lim t + (if t \<in> T then amount_of current t - amount_of seen t else 0))"
      "\<forall>t. spent' t + kv_nat (fs_treasury s) t = spent t + kv_nat tr t + paid_for rest t"
      "\<forall>t\<in>T. amount_of seen t \<le> amount_of current t" "tokens_of tw' = tokens_of tw \<union> T"
      "tot = 0 \<longrightarrow> (\<forall>t. weight_in tw' t = 0)"
      "\<forall>k. k \<notin> info_key a p ` T \<longrightarrow> kv_get I k = kv_get (fs_user_info s) k"
      "\<forall>t. kv_nat (fs_treasury s) t \<le> kv_nat tr t" "\<forall>t. t \<notin> T \<longrightarrow> weight_in tw' t = weight_in tw t"
      "\<forall>t\<in>T. \<exists>i. kv_get I (info_key a p t) = Some i \<and> ri_weight i = weight_in tw' t"
  using assms unfolding settled_def prod.case by (elim exE conjE) (rule that; assumption)

text \<open>The interface of a settlement step, with the state seen through \<open>view\<close>.\<close>

locale settlement =
  fixes step :: "string \<Rightarrow> string \<Rightarrow> amounts \<Rightarrow> amounts \<Rightarrow> nat \<Rightarrow> nat \<Rightarrow> farm_distribution \<Rightarrow> 'acc \<Rightarrow> (std_error, 'acc) outcome"
    and view :: "'acc \<Rightarrow> pool_totals \<times> farm_state \<times> farm_out list"
  assumes step_settles: "step a p current seen tot staked d acc = Ok acc' \<Longrightarrow> settle_hyps A a p st tot staked seen \<Longrightarrow>
      fd_token d \<in> A \<Longrightarrow> view acc = (tw, s, out) \<Longrightarrow> books_ok A p st tw (fs_user_info s) spent lim \<Longrightarrow>
      (tot = 0 \<Longrightarrow> \<forall>t. weight_in tw t = 0) \<Longrightarrow>
      settled A a p st tot current seen {fd_token d} spent lim (view acc) (view acc')"
begin

lemma loop_settles:
  assumes "fold_ok (step a p current seen tot staked) ds acc = Ok acc'" "settle_hyps A a p st tot staked seen"
    and "fd_token ` set ds \<subseteq> A" "distinct (map fd_token ds)" "view acc = (tw, s, out)"
    and "books_ok A p st tw (fs_user_info s) spent lim" "tot = 0 \<Longrightarrow> \<forall>t. weight_in tw t = 0"
  shows "settled A a p st tot current seen (fd_token ` set ds) spent lim (view acc) (view acc')"
  using assms
proof (induction ds arbitrary: acc tw s out spent lim)
  case Nil
  then show ?case by (force simp: settled_def intro!: exI [of _ "fs_user_info s"] exI [of _ "fs_treasury s"])
next
  case (Cons d ds)
  obtain acc1 where step1: "step a p current seen tot staked d acc = Ok acc1"
    and rest: "fold_ok (step a p current seen tot staked) ds acc1 = Ok acc'"
    using Cons.prems(1) by (auto simp: outcome_simps)
  obtain tw1 s1 out1 where v1: "view acc1 = (tw1, s1, out1)" using prod_cases3 by blast
  obtain tw2 s2 out2 where v2: "view acc' = (tw2, s2, out2)" using prod_cases3 by blast
  let ?lim1 = "\<lambda>t. lim t + (if t \<in> {fd_token d} then amount_of current t - amount_of seen t else 0)"
  have "settled A a p st tot current seen {fd_token d} spent lim (view acc) (view acc1)"
    using step_settles [OF step1 Cons.prems(2) _ Cons.prems(5,6,7)] Cons.prems(3) by simp
  then obtain I tr rest1 spent1 where one: "s1 = s\<lparr> fs_user_info := I, fs_treasury := tr \<rparr>" "out1 = out @ rest1"
      "books_ok A p st tw1 I spent1 (\<lambda>t. lim t + (if t \<in> {fd_token d} then amount_of current t - amount_of seen t else 0))"
      "\<forall>t. spent1 t + kv_nat (fs_treasury s) t = spent t + kv_nat tr t + paid_for rest1 t"
      "\<forall>t\<in>{fd_token d}. amount_of seen t \<le> amount_of current t" "tokens_of tw1 = tokens_of tw \<union> {fd_token d}"
      "tot = 0 \<longrightarrow> (\<forall>t. weight_in tw1 t = 0)"
      "\<forall>k. k \<notin> info_key a p ` {fd_token d} \<longrightarrow> kv_get I k = kv_get (fs_user_info s) k"
      "\<forall>t. kv_nat (fs_treasury s) t \<le> kv_nat tr t" "\<forall>t. t \<notin> {fd_token d} \<longrightarrow> weight_in tw1 t = weight_in tw t"
      "\<forall>t\<in>{fd_token d}. \<exists>i. kv_get I (info_key a p t) = Some i \<and> ri_weight i = weight_in tw1 t"
    unfolding Cons.prems(5) v1 by (rule settledE)
  have "settled A a p st tot current seen (fd_token ` set ds) spent1 ?lim1 (view acc1) (view acc')"
    using Cons.prems one by (intro Cons.IH [OF rest _ _ _ v1]) auto
  then obtain J tr2 rest2 spent2 where two: "s2 = s1\<lparr> fs_user_info := J, fs_treasury := tr2 \<rparr>" "out2 = out1 @ rest2"
      "books_ok A p st tw2 J spent2 (\<lambda>t. ?lim1 t + (if t \<in> fd_token ` set ds then amount_of current t - amount_of seen t else 0))"
      "\<forall>t. spent2 t + kv_nat (fs_treasury s1) t = spent1 t + kv_nat tr2 t + paid_for rest2 t"
      "\<forall>t\<in>fd_token ` set ds. amount_of seen t \<le> amount_of current t" "tokens_of tw2 = tokens_of tw1 \<union> fd_token ` set ds"
      "tot = 0 \<longrightarrow> (\<forall>t. weight_in tw2 t = 0)"
      "\<forall>k. k \<notin> info_key a p ` fd_token ` set ds \<longrightarrow> kv_get J k = kv_get (fs_user_info s1) k"
      "\<forall>t. kv_nat (fs_treasury s1) t \<le> kv_nat tr2 t" "\<forall>t. t \<notin> fd_token ` set ds \<longrightarrow> weight_in tw2 t = weight_in tw1 t"
      "\<forall>t\<in>fd_token ` set ds. \<exists>i. kv_get J (info_key a p t) = Some i \<and> ri_weight i = weight_in tw2 t"
    unfolding v1 v2 by (rule settledE)
  have fresh: "fd_token d \<notin> fd_token ` set ds" using Cons.prems(4) by auto
  have lims: "(\<lambda>t. ?lim1 t + (if t \<in> fd_token ` set ds then amount_of current t - amount_of seen t else 0))
      = (\<lambda>t. lim t + (if t \<in> fd_token ` set (d # ds) then amount_of current t - amount_of seen t else 0))"
    using fresh by (intro ext) auto
  have "spent2 t + kv_nat (fs_treasury s) t = spent t + kv_nat tr2 t + paid_for (rest1 @ rest2) t" for t
    using one(4) [rule_format, of t] two(4) [rule_format, of t] by (simp add: one(1))
  moreover have "s2 = s\<lparr> fs_user_info := J, fs_treasury := tr2 \<rparr>" "out2 = out @ (rest1 @ rest2)"
    by (simp_all add: two(1,2) one(1,2))
  moreover have "kv_get J k = kv_get (fs_user_info s) k" if "k \<notin> info_key a p ` fd_token ` set (d # ds)" for k
    using two(8) one(8) that by (simp add: one(1))
  moreover have "kv_nat (fs_treasury s) t \<le> kv_nat tr2 t" for t
    using one(9) two(9) by (auto simp: one(1) intro: order_trans)
  moreover have "\<exists>i. kv_get J (info_key a p t) = Some i \<and> ri_weight i = weight_in tw2 t"
    if "t \<in> fd_token ` set (d # ds)" for t
  proof (cases "t \<in> fd_token ` set ds")
    case False
    then have "t = fd_token d" "info_key a p t \<notin> info_key a p ` fd_token ` set ds"
      using that by (auto simp: info_key_def)
    then show ?thesis using two(8,10) one(11) False by (simp add: one(1))
  qed (use two(11) in blast)
  moreover have "weight_in tw2 t = weight_in tw t" if "t \<notin> fd_token ` set (d # ds)" for t
    using two(10) one(10) that by simp
  ultimately show ?case
    unfolding settled_def Cons.prems(5) v2 prod.case
    using two(3) [unfolded lims] two(5,6,7) one(5,6)
    by (intro exI [of _ J] exI [of _ tr2] exI [of _ "rest1 @ rest2"] exI [of _ spent2] conjI) auto
qed

end

section \<open>The steps\<close>

lemma split_reward_Ok:
  assumes "split_reward c reward = Ok (user, fee)"
  shows "user + fee = reward" "user = reward * (fc_fee_multiplier c - fc_treasury_fee c) div fc_fee_multiplier c"
proof -
  have u: "user = reward * (fc_fee_multiplier c - fc_treasury_fee c) div fc_fee_multiplier c" "fee = reward - user"
    using assms by (auto simp: split_reward_def outcome_simps arith_simps u128_multiply_ratio_def split: if_splits)
  have "reward * (fc_fee_multiplier c - fc_treasury_fee c) \<le> reward * fc_fee_multiplier c" by simp
  then have "user \<le> reward * fc_fee_multiplier c div fc_fee_multiplier c" unfolding u(1) by (rule div_le_mono)
  then have "user \<le> reward" by (cases "fc_fee_multiplier c = 0") simp_all
  then show "user + fee = reward" by (simp add: u(2))
  show "user = reward * (fc_fee_multiplier c - fc_treasury_fee c) div fc_fee_multiplier c" by (rule u)
qed

lemma raised_books:
  assumes h: "settle_hyps A a p st tot staked seen" and t: "t \<in> A"
    and ok: "books_ok A p st tw (fs_user_info s) spent lim" and r: "raise_weight t fresh tot tw = Ok (tw', w)"
    and n: "decimal_one * n \<le> (w - ri_weight (user_reward_info s (info_key a p t) w)) * staked"
    and x: "pend + x = ri_pending (user_reward_info s (info_key a p t) w) + n"
  shows "books_ok A p st tw' (kv_set (fs_user_info s) (info_key a p t) \<lparr> ri_weight = w, ri_pending = pend \<rparr>)
      (spent(t := spent t + x)) (lim(t := lim t + fresh))"
    and "tokens_of tw' = tokens_of tw \<union> {t}" "tot \<noteq> 0" "w = weight_in tw' t" "u \<noteq> t \<Longrightarrow> weight_in tw' u = weight_in tw u"
proof -
  obtain q where q: "counted t q tw tw'" "w = weight_in tw' t" "q * tot \<le> decimal_one * fresh" "tot \<noteq> 0"
    using raise_weight_Ok [OF r] books_okD(1) [OF ok] by blast
  have A: "apart A" "finite A" "a \<in> A" "p \<in> A" "st a = staked" "(\<Sum>b\<in>A. st b) = tot"
    using h by (simp_all add: settle_hyps_def)
  show "books_ok A p st tw' (kv_set (fs_user_info s) (info_key a p t) \<lparr> ri_weight = w, ri_pending = pend \<rparr>)
      (spent(t := spent t + x)) (lim(t := lim t + fresh))"
    using books_settle [OF ok A(1-4) t q(1) _ refl, of fresh n pend x] q(2,3) n x A(5,6)
    by (simp add: user_reward_info_def)
  show "tokens_of tw' = tokens_of tw \<union> {t}" using q(1) by (simp add: counted_def)
  show "tot \<noteq> 0" "w = weight_in tw' t" by (rule q)+
  show "u \<noteq> t \<Longrightarrow> weight_in tw' u = weight_in tw u" using q(1) by (simp add: counted_def)
qed

text \<open>The conclusion of the interface from the books of one token.\<close>

lemma settled_token:
  assumes "books_ok A p st tw' I (spent(t := spent t + x)) (lim(t := lim t + fresh))" "tokens_of tw' = tokens_of tw \<union> {t}"
    and "amount_of seen t \<le> amount_of current t \<and> fresh + amount_of seen t = amount_of current t"
    and "s' = s\<lparr> fs_user_info := I, fs_treasury := tr \<rparr>"
    and "\<And>u. (if u = t then x else 0) + kv_nat (fs_treasury s) u = kv_nat tr u + paid_for rest u"
    and "tot = 0 \<Longrightarrow> \<forall>u. weight_in tw' u = 0"
    and "\<And>k. k \<noteq> info_key a p t \<Longrightarrow> kv_get I k = kv_get (fs_user_info s) k"
    and "\<And>u. kv_nat (fs_treasury s) u \<le> kv_nat tr u" "\<And>u. u \<noteq> t \<Longrightarrow> weight_in tw' u = weight_in tw u"
    and "kv_get I (info_key a p t) = Some i" "ri_weight i = weight_in tw' t"
  shows "settled A a p st tot current seen {t} spent lim (tw, s, out) (tw', s', out @ rest)"
proof -
  have lims: "lim(t := lim t + fresh) = (\<lambda>u. lim u + (if u \<in> {t} then amount_of current u - amount_of seen u else 0))"
    using assms(3) by (intro ext) auto
  have "(spent(t := spent t + x)) u + kv_nat (fs_treasury s) u = spent u + kv_nat tr u + paid_for rest u" for u
    using assms(5) [of u] by (cases "u = t") auto
  then show ?thesis unfolding settled_def prod.case
    using assms(1) [unfolded lims] assms(2,3,4,6-11)
    by (intro exI [of _ I] exI [of _ tr] exI [of _ rest] exI [of _ "spent(t := spent t + x)"] conjI) auto
qed

interpretation staking: settlement stake_step "\<lambda>(tw, s). (tw, s, [])"
proof
  fix a p current seen tot staked d and acc acc' :: "pool_totals \<times> farm_state"
    and A st and tw :: pool_totals and s out spent lim
  assume step: "stake_step a p current seen tot staked d acc = Ok acc'" and h: "settle_hyps A a p st tot staked seen"
    and d: "fd_token d \<in> A" and v: "(case acc of (tw, s) \<Rightarrow> (tw, s, [])) = (tw, s, out)"
    and ok: "books_ok A p st tw (fs_user_info s) spent lim"
  let ?t = "fd_token d"
  have acc: "acc = (tw, s)" "out = []" using v by (cases acc; simp)+
  obtain fresh tw' w n pend s' where f: "deduct_seen ?t seen (amount_of current ?t) = Ok fresh"
    and r: "raise_weight ?t fresh tot tw = Ok (tw', w)"
    and n: "weighted_reward (w - ri_weight (user_reward_info s (info_key a p ?t) w)) staked = (Ok n :: (std_error, nat) outcome)"
    and pend: "pend = ri_pending (user_reward_info s (info_key a p ?t) w) + n" and acc': "acc' = (tw', s')"
    and s': "s' = s\<lparr> fs_user_info := kv_set (fs_user_info s) (info_key a p ?t) \<lparr> ri_weight = w, ri_pending = pend \<rparr> \<rparr>"
    using step by (auto simp: stake_step_def acc Let_def outcome_simps arith_simps split: prod.splits)
  have "distinct (map fst seen)" using h by (simp add: settle_hyps_def)
  note seen = deduct_seen_Ok [OF this f]
  note books = raised_books [OF h d ok r weighted_reward_Ok [OF n], of pend 0]
  have "settled A a p st tot current seen {?t} spent lim (tw, s, []) (tw', s', [] @ [])"
    using books pend by (intro settled_token [OF _ _ seen, where x = 0 and tr = "fs_treasury s"
        and I = "kv_set (fs_user_info s) (info_key a p ?t) \<lparr> ri_weight = w, ri_pending = pend \<rparr>"
        and i = "\<lparr> ri_weight = w, ri_pending = pend \<rparr>"]) (simp_all add: s')
  then show "settled A a p st tot current seen {?t} spent lim
      (case acc of (tw, s) \<Rightarrow> (tw, s, [])) (case acc' of (tw, s) \<Rightarrow> (tw, s, []))"
    by (simp add: acc acc')
qed

interpretation first_staking: settlement "\<lambda>a p current seen tot staked. if tot = 0 then first_stake_step a p current seen else (\<lambda>d acc. Panic)" "\<lambda>(tw, s). (tw, s, [])"
proof
  fix a p current seen tot staked d and acc acc' :: "pool_totals \<times> farm_state"
    and A st and tw :: pool_totals and s out spent lim
  assume step: "(if tot = 0 then first_stake_step a p current seen else (\<lambda>d acc. Panic)) d acc = Ok acc'"
    and h: "settle_hyps A a p st tot staked seen"
    and d: "fd_token d \<in> A" and v: "(case acc of (tw, s) \<Rightarrow> (tw, s, [])) = (tw, s, out)"
    and ok: "books_ok A p st tw (fs_user_info s) spent lim" and zero: "tot = 0 \<Longrightarrow> \<forall>t. weight_in tw t = 0"
  let ?t = "fd_token d"
  have acc: "acc = (tw, s)" "out = []" using v by (cases acc; simp)+
  have tot: "tot = 0" using step by (simp split: if_splits)
  obtain fresh tw' w s' where f: "deduct_seen ?t seen (amount_of current ?t) = Ok fresh"
    and r: "count_reward ?t fresh tw = Ok (tw', w)" and acc': "acc' = (tw', s')"
    and s': "s' = s\<lparr> fs_user_info := kv_set (fs_user_info s) (info_key a p ?t) (user_reward_info s (info_key a p ?t) w) \<rparr>"
    using step tot by (auto simp: first_stake_step_def acc Let_def outcome_simps split: prod.splits)
  note c = count_reward_Ok [OF r books_okD(1) [OF ok]]
  have zeros: "weight_in tw' u = 0" for u
    using c(1) zero tot by (cases "u = ?t") (simp_all add: counted_def)
  have A: "apart A" "finite A" "a \<in> A" "p \<in> A" "distinct (map fst seen)" using h by (simp_all add: settle_hyps_def)
  have weight: "ri_weight (user_reward_info s (info_key a p ?t) w) = w"
    using books_okD(2) [OF ok A(3) d] zero tot zeros by (auto simp: user_reward_info_def c(2) split: option.splits)
  have info: "user_reward_info s (info_key a p ?t) w
      = \<lparr> ri_weight = weight_in tw' ?t, ri_pending = ri_pending (user_reward_info s (info_key a p ?t) w) \<rparr>"
    using weight c(2) by simp
  have books: "books_ok A p st tw' (kv_set (fs_user_info s) (info_key a p ?t) (user_reward_info s (info_key a p ?t) w))
      (spent(?t := spent ?t + 0)) (lim(?t := lim ?t + fresh))"
    by (subst (1) info, rule books_settle [OF ok A(1-4) d c(1) _ refl, where n = 0])
      (simp_all add: user_reward_info_def c(2))
  note seen = deduct_seen_Ok [OF A(5) f]
  have "settled A a p st tot current seen {?t} spent lim (tw, s, []) (tw', s', [] @ [])"
    using c(1) zeros weight by (intro settled_token [OF books _ seen, where tr = "fs_treasury s"
        and i = "user_reward_info s (info_key a p ?t) w"]) (simp_all add: s' counted_def c(2))
  then show "settled A a p st tot current seen {?t} spent lim
      (case acc of (tw, s) \<Rightarrow> (tw, s, [])) (case acc' of (tw, s) \<Rightarrow> (tw, s, []))"
    by (simp add: acc acc')
qed

text \<open>Claims and withdrawals pay the whole reward of the account, less the fee.\<close>

lemma paid_step:
  assumes h: "settle_hyps A a p st tot staked seen" and d: "t \<in> A"
    and ok: "books_ok A p st tw (fs_user_info s) spent lim"
    and seen: "amount_of seen t \<le> amount_of current t \<and> fresh + amount_of seen t = amount_of current t"
    and r: "raise_weight t fresh tot tw = Ok (tw', w)"
    and n: "weighted_reward (w - ri_weight (user_reward_info s (info_key a p t) w)) staked = (Ok n :: (std_error, nat) outcome)"
    and split: "split_reward c (ri_pending (user_reward_info s (info_key a p t) w) + n) = Ok (user, fee)"
    and s': "s' = s\<lparr> fs_treasury := kv_set (fs_treasury s) t (kv_nat (fs_treasury s) t + fee),
        fs_user_info := kv_set (fs_user_info s) (info_key a p t) \<lparr> ri_weight = w, ri_pending = 0 \<rparr> \<rparr>"
  shows "settled A a p st tot current seen {t} spent lim (tw, s, out)
    (tw', s', out @ (if user > 0 then [Farm_transfer t a user] else []))"
proof -
  let ?x = "ri_pending (user_reward_info s (info_key a p t) w) + n"
  note books = raised_books [OF h d ok r weighted_reward_Ok [OF n], of 0 ?x]
  have split': "?x = user + fee" using split_reward_Ok(1) [OF split] by simp
  have paid: "(if u = t then ?x else 0) + kv_nat (fs_treasury s) u
    = kv_nat (kv_set (fs_treasury s) t (kv_nat (fs_treasury s) t + fee)) u
      + paid_for (if user > 0 then [Farm_transfer t a user] else []) u" for u
    unfolding split' by simp
  have s'': "s' = s\<lparr> fs_user_info := kv_set (fs_user_info s) (info_key a p t) \<lparr> ri_weight = w, ri_pending = 0 \<rparr>,
      fs_treasury := kv_set (fs_treasury s) t (kv_nat (fs_treasury s) t + fee) \<rparr>"
    by (simp add: s')
  show ?thesis
    using books(3-5) by (intro settled_token [OF books(1) books(2) seen s'' paid, where i = "\<lparr> ri_weight = w, ri_pending = 0 \<rparr>"])
      simp_all
qed

interpretation claiming: settlement claim_step "\<lambda>acc. acc"
proof
  fix a p current seen tot staked d and acc acc' :: "pool_totals \<times> farm_state \<times> farm_out list"
    and A st and tw :: pool_totals and s out spent lim
  assume step: "claim_step a p current seen tot staked d acc = Ok acc'" and h: "settle_hyps A a p st tot staked seen"
    and d: "fd_token d \<in> A" and acc: "acc = (tw, s, out)"
    and ok: "books_ok A p st tw (fs_user_info s) spent lim"
  let ?t = "fd_token d"
  obtain fresh tw' w n user fee s' where f: "deduct_seen_strictly ?t seen (amount_of current ?t) = Ok fresh"
    and r: "raise_weight ?t fresh tot tw = Ok (tw', w)"
    and n: "weighted_reward (w - ri_weight (user_reward_info s (info_key a p ?t) w)) staked = (Ok n :: (std_error, nat) outcome)"
    and split: "split_reward (fs_config s) (ri_pending (user_reward_info s (info_key a p ?t) w) + n) = Ok (user, fee)"
    and acc': "acc' = (tw', s', out @ (if user > 0 then [Farm_transfer ?t a user] else []))"
    and s': "s' = s\<lparr> fs_treasury := kv_set (fs_treasury s) ?t (kv_nat (fs_treasury s) ?t + fee),
        fs_user_info := kv_set (fs_user_info s) (info_key a p ?t) \<lparr> ri_weight = w, ri_pending = 0 \<rparr> \<rparr>"
    using step by (auto simp: claim_step_def acc Let_def outcome_simps arith_simps split: prod.splits)
  have "distinct (map fst seen)" using h by (simp add: settle_hyps_def)
  note seen = deduct_seen_strictly_Ok [OF this f]
  show "settled A a p st tot current seen {?t} spent lim acc acc'"
    unfolding acc acc' by (rule paid_step [OF h d ok seen r n split s'])
qed

interpretation unstaking: settlement
  "\<lambda>a p current seen tot staked. if staked > amount then unstake_step a p current seen tot staked amount else (\<lambda>d acc. Panic)"
  "\<lambda>acc. acc" for amount
proof
  fix a p current seen tot staked d and acc acc' :: "pool_totals \<times> farm_state \<times> farm_out list"
    and A st and tw :: pool_totals and s out spent lim
  assume step0: "(if staked > amount then unstake_step a p current seen tot staked amount else (\<lambda>d acc. Panic)) d acc = Ok acc'"
    and h: "settle_hyps A a p st tot staked seen"
    and d: "fd_token d \<in> A" and acc: "acc = (tw, s, out)"
    and ok: "books_ok A p st tw (fs_user_info s) spent lim"
  have more: "staked > amount" and step: "unstake_step a p current seen tot staked amount d acc = Ok acc'"
    using step0 by (simp_all split: if_splits)
  let ?t = "fd_token d"
  obtain fresh tw' w n user fee s' where f: "deduct_seen ?t seen (amount_of current ?t) = Ok fresh"
    and r: "raise_weight ?t fresh tot tw = Ok (tw', w)"
    and n: "weighted_reward (w - ri_weight (user_reward_info s (info_key a p ?t) w)) staked = (Ok n :: (std_error, nat) outcome)"
    and split: "split_reward (fs_config s) (ri_pending (user_reward_info s (info_key a p ?t) w) + n) = Ok (user, fee)"
    and acc': "acc' = (tw', s', out @ (if user > 0 then [Farm_transfer ?t a user] else []))"
    and s': "s' = s\<lparr> fs_treasury := kv_set (fs_treasury s) ?t (kv_nat (fs_treasury s) ?t + fee),
        fs_user_info := kv_set (fs_user_info s) (info_key a p ?t) \<lparr> ri_weight = w, ri_pending = 0 \<rparr> \<rparr>"
    using step more by (auto simp: unstake_step_def acc Let_def outcome_simps arith_simps split: prod.splits)
  have "distinct (map fst seen)" using h by (simp add: settle_hyps_def)
  note seen = deduct_seen_Ok [OF this f]
  show "settled A a p st tot current seen {?t} spent lim acc acc'"
    unfolding acc acc' by (rule paid_step [OF h d ok seen r n split s'])
qed

end
