(* ===== verification/Farming_System.thy ===== *)
theory Farming_System
  imports Farming_Proofs
begin

text \<open>
  The farming contract in whole transactions: a request, the distribution by the outer farm, the
  user's action there, and the replies.  Two counters accompany a run: the rewards the farm has paid
  to the contract for a pool, and what the contract has spent of them on payments and fees.
\<close>

section \<open>The invariant\<close>

definition stakes_of :: "farm_state \<Rightarrow> string \<Rightarrow> string \<Rightarrow> nat" where
  "stakes_of s p a = user_staked_in_pool s (a @ p)"

definition totals_in :: "farm_state \<Rightarrow> string \<Rightarrow> pool_totals" where
  "totals_in s p = (kv_list (fs_rewards s) p, kv_list (fs_weights s) p)"

text \<open>Rewards still in the farm that the weights have counted already.\<close>

definition counted_pending :: "farm_state \<Rightarrow> string \<Rightarrow> string \<Rightarrow> nat" where
  "counted_pending s p t = amount_of (kv_list (fs_pending s) p) t"

type_synonym counters = "string \<Rightarrow> string \<Rightarrow> nat"

definition pool_ok :: "string set \<Rightarrow> farm_state \<Rightarrow> counters \<Rightarrow> counters \<Rightarrow> string \<Rightarrow> bool" where
  "pool_ok A s got spent p \<longleftrightarrow> (\<Sum>a\<in>A. stakes_of s p a) = total_staked_in_pool s p \<and>
     books_ok A p (stakes_of s p) (totals_in s p) (fs_user_info s) (spent p) (\<lambda>t. got p t + counted_pending s p t) \<and>
     distinct (map fst (kv_list (fs_pending s) p)) \<and>
     (total_staked_in_pool s p = 0 \<longrightarrow> (\<forall>t. weight_in (totals_in s p) t = 0))"

definition farm_ok :: "string set \<Rightarrow> farm_state \<Rightarrow> counters \<Rightarrow> counters \<Rightarrow> bool" where
  "farm_ok A s got spent \<longleftrightarrow> (\<forall>p\<in>A. pool_ok A s got spent p)"

lemma kv_list_set [simp]: "kv_list (kv_set m k xs) k' = (if k' = k then xs else kv_list m k')"
  by (simp add: kv_list_def)

lemma kv_list_del [simp]: "kv_list (kv_del m k) k' = (if k' = k then [] else kv_list m k')"
  by (simp add: kv_list_def)

text \<open>The books depend on the accounts only through what each is owed.\<close>

lemma books_ok_owed:
  assumes "books_ok A p st tw I spent lim"
    and "\<And>a t. a \<in> A \<Longrightarrow> t \<in> A \<Longrightarrow> kv_get I' (info_key a p t) = kv_get I (info_key a p t)"
    and "\<And>a t. a \<in> A \<Longrightarrow> t \<in> A \<Longrightarrow> t \<in> tokens_of tw \<Longrightarrow>
      user_owed I' st' (weight_in tw t) p t a \<le> user_owed I st (weight_in tw t) p t a"
    and "\<And>t. t \<in> A \<Longrightarrow> spent' t = spent t" "\<And>t. t \<in> tokens_of tw \<Longrightarrow> t \<in> A \<Longrightarrow> lim t \<le> lim' t"
  shows "books_ok A p st' tw I' spent' lim'"
proof (rule books_okI)
  show "totals_ok tw" by (rule books_okD [OF assms(1)])
  show "ri_weight i \<le> weight_in tw t \<and> t \<in> tokens_of tw" if "a \<in> A" "t \<in> A" "kv_get I' (info_key a p t) = Some i" for a t i
    using that by (intro books_okD(2) [OF assms(1) that(1,2)]) (simp add: assms(2))
  show "spent' t = 0" if "t \<in> A" "t \<notin> tokens_of tw" for t
    using assms(1,4) that by (simp add: books_ok_def)
  show "decimal_one * spent' t + pool_owed A I' st' (weight_in tw t) p t \<le> decimal_one * lim' t"
    if t: "t \<in> tokens_of tw" "t \<in> A" for t
  proof -
    have "pool_owed A I' st' (weight_in tw t) p t \<le> pool_owed A I st (weight_in tw t) p t"
      unfolding pool_owed_def using assms(3) t by (intro sum_mono) blast
    moreover have "decimal_one * lim t \<le> decimal_one * lim' t" using assms(5) [OF t] by simp
    ultimately show ?thesis using books_okD(3) [OF assms(1) t(2)] unfolding assms(4) [OF t(2)] by linarith
  qed
qed

lemma user_owed_cong:
  "kv_get I' (info_key a p t) = kv_get I (info_key a p t) \<Longrightarrow> st' a = st a \<Longrightarrow> user_owed I' st' w p t a = user_owed I st w p t a"
  by (simp add: user_owed_def cong: option.case_cong)

text \<open>A pool that a transaction does not touch.\<close>

lemma pool_ok_frame:
  assumes "pool_ok A s got spent p"
    and "\<And>a t. a \<in> A \<Longrightarrow> t \<in> A \<Longrightarrow> kv_get (fs_user_info s') (info_key a p t) = kv_get (fs_user_info s) (info_key a p t)"
    and "\<And>a. a \<in> A \<Longrightarrow> stakes_of s' p a = stakes_of s p a" "total_staked_in_pool s' p = total_staked_in_pool s p"
    and "totals_in s' p = totals_in s p" "kv_list (fs_pending s') p = kv_list (fs_pending s) p"
    and "got' p = got p" "spent' p = spent p"
  shows "pool_ok A s' got' spent' p"
proof -
  have "books_ok A p (stakes_of s' p) (totals_in s' p) (fs_user_info s') (spent' p) (\<lambda>t. got' p t + counted_pending s' p t)"
    unfolding assms(5,7,8)
  proof (rule books_ok_owed)
    show "books_ok A p (stakes_of s p) (totals_in s p) (fs_user_info s) (spent p) (\<lambda>t. got p t + counted_pending s p t)"
      using assms(1) by (simp add: pool_ok_def)
    show "user_owed (fs_user_info s') (stakes_of s' p) (weight_in (totals_in s p) t) p t a
        \<le> user_owed (fs_user_info s) (stakes_of s p) (weight_in (totals_in s p) t) p t a"
      if "a \<in> A" "t \<in> A" for a t
      using user_owed_cong [of "fs_user_info s'" a p t "fs_user_info s"] assms(2,3) that by simp
  qed (simp_all add: assms(2,6) counted_pending_def)
  moreover have "(\<Sum>a\<in>A. stakes_of s' p a) = (\<Sum>a\<in>A. stakes_of s p a)"
    using assms(3) by (intro sum.cong) auto
  ultimately show ?thesis using assms(1,4,5,6) by (simp add: pool_ok_def)
qed

text \<open>
  Settling an account of pool \<open>p\<close> over all tokens the pool has counted: the account's stake may then
  change freely, since it is settled at the newest weight.
\<close>

lemma settled_farm_ok:
  assumes A: "apart A" "finite A" "a \<in> A" "p \<in> A" and ok: "farm_ok A s got spent"
    and set: "settled A a p (stakes_of s p) (total_staked_in_pool s p) current (kv_list (fs_pending s) p) T (spent p)
        (\<lambda>t. got p t + counted_pending s p t) (totals_in s p, s0, out) (tw', s1, out @ rest)"
    and s0: "fs_user_info s0 = fs_user_info s" "fs_treasury s0 = fs_treasury s"
    and T: "tokens_of (totals_in s p) \<subseteq> T"
    and s': "fs_user_info s' = fs_user_info s1" "\<And>q. totals_in s' q = (if q = p then tw' else totals_in s q)"
      "\<And>q. kv_list (fs_pending s') q = (if q = p then seen' else kv_list (fs_pending s) q)"
      "\<And>b q. b \<in> A \<Longrightarrow> q \<in> A \<Longrightarrow> stakes_of s' q b = (if q = p \<and> b = a then k else stakes_of s q b)"
      "\<And>q. total_staked_in_pool s' q = (if q = p then m else total_staked_in_pool s q)"
    and m: "m + stakes_of s p a = total_staked_in_pool s p + k" "m = 0 \<Longrightarrow> total_staked_in_pool s p = 0"
    and seen': "distinct (map fst seen')"
    and got': "\<And>t. t \<in> T \<Longrightarrow> got p t + amount_of current t \<le> got' p t + amount_of seen' t" "\<And>q. q \<noteq> p \<Longrightarrow> got' q = got q"
    and spent': "\<And>t. spent' p t = spent p t + (kv_nat (fs_treasury s1) t - kv_nat (fs_treasury s) t) + paid_for rest t"
      "\<And>q. q \<noteq> p \<Longrightarrow> spent' q = spent q"
  shows "farm_ok A s' got' spent'"
  unfolding farm_ok_def
proof
  fix q assume q: "q \<in> A"
  from set obtain I tr rest' inner where e: "s1 = s0\<lparr> fs_user_info := I, fs_treasury := tr \<rparr>" "out @ rest = out @ rest'"
      "books_ok A p (stakes_of s p) tw' I inner (\<lambda>t. got p t + counted_pending s p t +
        (if t \<in> T then amount_of current t - amount_of (kv_list (fs_pending s) p) t else 0))"
      "\<forall>t. inner t + kv_nat (fs_treasury s0) t = spent p t + kv_nat tr t + paid_for rest' t"
      "\<forall>t\<in>T. amount_of (kv_list (fs_pending s) p) t \<le> amount_of current t" "tokens_of tw' = tokens_of (totals_in s p) \<union> T"
      "total_staked_in_pool s p = 0 \<longrightarrow> (\<forall>t. weight_in tw' t = 0)"
      "\<forall>k. k \<notin> info_key a p ` T \<longrightarrow> kv_get I k = kv_get (fs_user_info s0) k"
      "\<forall>t. kv_nat (fs_treasury s0) t \<le> kv_nat tr t" "\<forall>t. t \<notin> T \<longrightarrow> weight_in tw' t = weight_in (totals_in s p) t"
      "\<forall>t\<in>T. \<exists>i. kv_get I (info_key a p t) = Some i \<and> ri_weight i = weight_in tw' t"
    by (rule settledE)
  have I: "fs_user_info s' = I" "fs_treasury s1 = tr" "rest' = rest" using s'(1) e(1,2) by simp_all
  have pq: "pool_ok A s got spent q" "pool_ok A s got spent p" using ok q A(4) by (simp_all add: farm_ok_def)
  show "pool_ok A s' got' spent' q"
  proof (cases "q = p")
    case False
    have "kv_get I (info_key b q t) = kv_get (fs_user_info s) (info_key b q t)" if "b \<in> A" "t \<in> A" for b t
    proof -
      have "info_key a p u \<noteq> info_key b q t" for u
        using info_key_eq [OF A(1,3) that(1) A(4) q] False by simp
      then have "info_key b q t \<notin> info_key a p ` T" by (metis imageE)
      then show ?thesis using e(8) by (simp add: s0(1))
    qed
    then show ?thesis
      using pq(1) False s'(2-5) q got'(2) spent'(2) by (intro pool_ok_frame [OF pq(1)]) (simp_all add: I)
  next
    case True
    have tokens: "tokens_of tw' = T" using e(6) T by auto
    have stakes: "(\<Sum>b\<in>A. stakes_of s' p b) + stakes_of s p a = (\<Sum>b\<in>A. stakes_of s p b) + k"
      using sum.remove [OF A(2,3), of "stakes_of s' p"] sum.remove [OF A(2,3), of "stakes_of s p"]
        sum.cong [of "A - {a}" "A - {a}" "stakes_of s' p" "stakes_of s p"] s'(4) A(3,4) by simp
    have "books_ok A p (stakes_of s' p) tw' I (spent' p) (\<lambda>t. got' p t + counted_pending s' p t)"
    proof (rule books_ok_owed [OF e(3)])
      show "user_owed I (stakes_of s' p) (weight_in tw' t) p t b \<le> user_owed I (stakes_of s p) (weight_in tw' t) p t b"
        if "b \<in> A" "t \<in> A" "t \<in> tokens_of tw'" for b t
      proof (cases "b = a")
        case True
        then show ?thesis using e(11) that(3) tokens by (auto simp: user_owed_def)
      next
        case False
        then have same: "stakes_of s' p b = stakes_of s p b" using s'(4) [OF that(1) A(4)] by simp
        have "user_owed I (stakes_of s' p) (weight_in tw' t) p t b = user_owed I (stakes_of s p) (weight_in tw' t) p t b"
          by (rule user_owed_cong) (rule refl, rule same)
        then show ?thesis by simp
      qed
      show "spent' p t = inner t" for t
        using e(4) [rule_format, of t] e(9) [rule_format, of t] by (simp add: spent'(1) I s0(2))
      show "got p t + counted_pending s p t + (if t \<in> T then amount_of current t - amount_of (kv_list (fs_pending s) p) t else 0)
          \<le> got' p t + counted_pending s' p t" if "t \<in> tokens_of tw'" for t
        using got'(1) [of t] e(5) that tokens s'(3) [of p] by (simp add: counted_pending_def)
    qed simp
    moreover have "m = 0 \<longrightarrow> (\<forall>t. weight_in tw' t = 0)" using e(7) m(2) by blast
    moreover have "(\<Sum>b\<in>A. stakes_of s' p b) = m" using stakes m(1) pq(2) by (simp add: pool_ok_def)
    ultimately show ?thesis using True s'(2,3,5) seen' by (simp add: pool_ok_def I)
  qed
qed

section \<open>Transactions\<close>

text \<open>The reply id of a submessage.\<close>

fun reply_id :: "farm_out \<Rightarrow> nat option" where
  "reply_id (Sub_stake _ _ _) = Some stake_id"
| "reply_id (Sub_unstake _ _ _) = Some unstake_and_claim_id"
| "reply_id (Sub_claim _ _) = Some claim_reward_id"
| "reply_id (Sub_distribute _ _ _) = Some distribute_by_limit_id"
| "reply_id _ = None"

text \<open>The reply to the only submessage of a response, or the response when it has none.\<close>

definition then_reply ::
  "(farm_state \<Rightarrow> nat \<Rightarrow> (std_error, farm_state \<times> farm_out list) outcome) \<Rightarrow> farm_state \<times> farm_out list
     \<Rightarrow> (std_error, farm_state \<times> farm_out list) outcome"
where
  "then_reply f r = (case map reply_id (snd r) of [Some i] \<Rightarrow> f (fst r) i | _ \<Rightarrow> Ok r)"

text \<open>
  A whole transaction in which the farm carries out what it is asked: the request, the reply after the
  distribution (when the farm answers as \<open>H1\<close>), and the reply after the action (when it answers as \<open>H2\<close>).
\<close>

definition farm_tx ::
  "platform \<Rightarrow> farm_host \<Rightarrow> farm_host \<Rightarrow> farm_state \<Rightarrow> env \<Rightarrow> message_info \<Rightarrow> farm_msg
     \<Rightarrow> (std_error, farm_state \<times> farm_out list) outcome"
where
  "farm_tx P H1 H2 s e info msg =
     and_then (farm_execute P s info msg)
       (then_reply (\<lambda>s1 i. and_then (farm_reply H1 s1 e True i) (then_reply (\<lambda>s2. farm_reply H2 s2 e True))))"

text \<open>The account and the pool of a request; what the farm reports for the pool; its tokens.\<close>

fun target_of :: "message_info \<Rightarrow> farm_msg \<Rightarrow> (string \<times> string) option" where
  "target_of info (Fm_receive who n hook) = Some (who, sender info)"
| "target_of info (Fm_claim pool start) = Some (sender info, pool)"
| "target_of info (Fm_unstake pool n start) = Some (sender info, pool)"
| "target_of info _ = None"

definition farm_reported :: "farm_host \<Rightarrow> farm_state \<Rightarrow> env \<Rightarrow> string \<Rightarrow> amounts" where
  "farm_reported H s e p =
     (case query_pending_rewards H (fc_loop_farm (fs_config s)) (contract_address e) p of Ok xs \<Rightarrow> xs | _ \<Rightarrow> [])"

definition farm_listed :: "farm_host \<Rightarrow> farm_state \<Rightarrow> string \<Rightarrow> string list" where
  "farm_listed H s p =
     (case fh_pool_rewards H (fc_loop_farm (fs_config s)) p of Some rows \<Rightarrow> map fst rows | None \<Rightarrow> [])"

text \<open>
  What the farm has transferred to the contract for a pool, and what the contract has spent of it, after a
  transaction in which the farm transfers the amounts \<open>pay\<close>.
\<close>

fun pays_out :: "farm_msg \<Rightarrow> bool" where
  "pays_out (Fm_claim _ _) = True"
| "pays_out (Fm_unstake _ _ _) = True"
| "pays_out _ = False"

fun reward_messages :: "farm_msg \<Rightarrow> farm_out list \<Rightarrow> farm_out list" where
  "reward_messages (Fm_unstake _ _ _) out = tl out"
| "reward_messages _ out = out"

definition on_target :: "message_info \<Rightarrow> farm_msg \<Rightarrow> counters \<Rightarrow> (string \<Rightarrow> nat) \<Rightarrow> counters" where
  "on_target info msg n extra p t =
     n p t + (if map_option snd (target_of info msg) = Some p then extra t else 0)"

definition got_after :: "(string \<Rightarrow> nat) \<Rightarrow> message_info \<Rightarrow> farm_msg \<Rightarrow> counters \<Rightarrow> counters" where
  "got_after pay info msg got = on_target info msg got pay"

definition spent_after ::
  "farm_state \<Rightarrow> farm_state \<Rightarrow> farm_out list \<Rightarrow> message_info \<Rightarrow> farm_msg \<Rightarrow> counters \<Rightarrow> counters"
where
  "spent_after s s' out info msg spent = on_target info msg spent
     (\<lambda>t. (kv_nat (fs_treasury s') t - kv_nat (fs_treasury s) t) + paid_for (reward_messages msg out) t)"

text \<open>
  What is expected of the outer farm, whose code is not in the repository: it reports no token twice and
  lists no token twice, it keeps listing every token in which the contract has counted rewards, and when
  it is told to pay it transfers at least what it has reported as pending just before.
\<close>

definition farm_keeps_its_word ::
  "farm_host \<Rightarrow> farm_host \<Rightarrow> (string \<Rightarrow> nat) \<Rightarrow> farm_state \<Rightarrow> env \<Rightarrow> message_info \<Rightarrow> farm_msg \<Rightarrow> bool"
where
  "farm_keeps_its_word H1 H2 pay s e info msg =
     (case target_of info msg of
        None \<Rightarrow> True
      | Some (a, p) \<Rightarrow> distinct (map fst (farm_reported H1 s e p)) \<and> distinct (farm_listed H2 s p) \<and>
          fst ` set (kv_list (fs_weights s) p) \<subseteq> set (farm_listed H2 s p) \<and>
          (pays_out msg \<longrightarrow> (\<forall>(t, n) \<in> set (farm_reported H1 s e p). n \<le> pay t)))"

text \<open>The transactions the accounts are kept for: among the addresses of \<open>A\<close>, with a farm that keeps its word.\<close>

definition farm_clean ::
  "string set \<Rightarrow> farm_host \<Rightarrow> farm_host \<Rightarrow> (string \<Rightarrow> nat) \<Rightarrow> farm_state \<Rightarrow> env \<Rightarrow> message_info \<Rightarrow> farm_msg \<Rightarrow> bool"
where
  "farm_clean A H1 H2 pay s e info msg \<longleftrightarrow>
     (case target_of info msg of
        None \<Rightarrow> True
      | Some (a, p) \<Rightarrow> a \<in> A \<and> p \<in> A \<and> set (farm_listed H2 s p) \<subseteq> A) \<and>
     farm_keeps_its_word H1 H2 pay s e info msg"

inductive farm_run :: "string set \<Rightarrow> farm_state \<Rightarrow> counters \<Rightarrow> counters \<Rightarrow> bool" for A where
  farm_start: "farm_instantiate P info treasury = Ok s \<Longrightarrow> farm_run A s (\<lambda>p t. 0) (\<lambda>p t. 0)"
| farm_next: "farm_run A s got spent \<Longrightarrow> farm_tx P H1 H2 s e info msg = Ok (s', out) \<Longrightarrow>
    farm_clean A H1 H2 pay s e info msg \<Longrightarrow>
    farm_run A s' (got_after pay info msg got) (spent_after s s' out info msg spent)"

lemma clean_pays:
  assumes "farm_clean A H1 H2 pay s e info msg" "pays_out msg" "target_of info msg = Some (a, p)"
  shows "amount_of (farm_reported H1 s e p) t \<le> pay t"
proof -
  have "\<forall>(t, n) \<in> set xs. n \<le> pay t \<Longrightarrow> amount_of xs t \<le> pay t" for xs
    by (auto simp: amount_of_def split: option.split dest!: map_of_SomeD)
  with assms show ?thesis by (simp add: farm_clean_def farm_keeps_its_word_def)
qed

section \<open>The three kinds of settlement\<close>

lemma query_stakable_token_Ok:
  assumes "query_stakable_token H (fc_loop_farm (fs_config s)) p = Ok st"
  shows "map fd_token (sk_distribution st) = farm_listed H s p"
  using assms by (auto simp: query_stakable_token_def outcome_simps query_failed_def farm_listed_def split: option.splits)

lemma query_pending_rewards_Ok:
  "query_pending_rewards H (fc_loop_farm (fs_config s)) (contract_address e) p = Ok xs \<Longrightarrow> farm_reported H s e p = xs"
  by (simp add: farm_reported_def)

lemma then_reply_sub: "reply_id m = Some i \<Longrightarrow> then_reply f (s, [m]) = f s i"
  by (simp add: then_reply_def)

lemmas farm_phases = start_action_def farm_reply_def handle_distribute_by_limit_reply_def then_reply_sub
  stake_id_def distribute_by_limit_id_def unstake_and_claim_id_def claim_reward_id_def
  stake_action_def claim_action_def unstake_and_claim_action_def

lemma kv_list_totals: "(kv_list (fs_rewards s) p, kv_list (fs_weights s) p) = totals_in s p"
  by (simp add: totals_in_def)

lemma staked_of_request [simp]:
  "user_staked_in_pool (s\<lparr> fs_action := x \<rparr>) k = user_staked_in_pool s k"
  "user_staked_in_pool (s\<lparr> fs_stake := y \<rparr>) k = user_staked_in_pool s k"
  "user_staked_in_pool (s\<lparr> fs_unstake := z \<rparr>) k = user_staked_in_pool s k"
  "user_staked_in_pool (s\<lparr> fs_claim := c \<rparr>) k = user_staked_in_pool s k"
  "total_staked_in_pool (s\<lparr> fs_action := x \<rparr>) k = total_staked_in_pool s k"
  "total_staked_in_pool (s\<lparr> fs_stake := y \<rparr>) k = total_staked_in_pool s k"
  "total_staked_in_pool (s\<lparr> fs_unstake := z \<rparr>) k = total_staked_in_pool s k"
  "total_staked_in_pool (s\<lparr> fs_claim := c \<rparr>) k = total_staked_in_pool s k"
  by (simp_all add: user_staked_in_pool_def total_staked_in_pool_def)

lemma farm_stake_tx:
  assumes "farm_tx P H1 H2 s e info (Fm_receive a n hook) = Ok (s', out)" "p = sender info"
  obtains st :: stakeable_token and act cur totals weights s1 where "map fd_token (sk_distribution st) = farm_listed H2 s p"
    and "fold_ok (if total_staked_in_pool s p = 0 then first_stake_step a p (farm_reported H1 s e p) (kv_list (fs_pending s) p)
        else stake_step a p (farm_reported H1 s e p) (kv_list (fs_pending s) p) (total_staked_in_pool s p) (stakes_of s p a))
      (sk_distribution st) (totals_in s p, s\<lparr> fs_action := act, fs_stake := cur \<rparr>) = Ok ((totals, weights), s1)"
    and "s' = s1\<lparr> fs_rewards := kv_set (fs_rewards s1) p totals, fs_pending := kv_set (fs_pending s1) p (farm_reported H1 s e p),
              fs_weights := kv_set (fs_weights s1) p weights,
              fs_start_time := kv_set (fs_start_time s1) (a @ p) (seconds (block e)),
              fs_user_staked := kv_set (fs_user_staked s1) (a @ p) (stakes_of s p a + n),
              fs_total_staked := kv_set (fs_total_staked s1) p (total_staked_in_pool s p + n) \<rparr>" "out = []"
proof -
  let ?f = "fc_loop_farm (fs_config s)"
  obtain start pending where q: "query_pending_rewards H1 ?f (contract_address e) p = Ok pending"
    and r: "handle_stake_reply H2 (s\<lparr> fs_action := Some \<lparr> fa_action = stake_action, fa_account = a, fa_pool = p,
        fa_amount = Some n, fa_flp = None, fa_claimed = None \<rparr>, fs_stake := Some \<lparr> cs_sender = a, cs_amount = n,
        cs_pool = p, cs_pending = pending \<rparr> \<rparr>) e True = Ok (s', out)"
    using assms
    by (auto simp: farm_tx_def farm_receive_def farm_execute_stake_def farm_phases handle_stake_def Let_def outcome_simps
        split: option.splits if_splits)
  from r obtain st totals weights s1 where st: "query_stakable_token H2 ?f p = Ok st"
    and loop: "fold_ok (if total_staked_in_pool s p = 0 then first_stake_step a p pending (kv_list (fs_pending s) p)
        else stake_step a p pending (kv_list (fs_pending s) p) (total_staked_in_pool s p) (stakes_of s p a))
      (sk_distribution st) (totals_in s p, s\<lparr> fs_action := Some \<lparr> fa_action = stake_action, fa_account = a, fa_pool = p,
        fa_amount = Some n, fa_flp = None, fa_claimed = None \<rparr>, fs_stake := Some \<lparr> cs_sender = a, cs_amount = n,
        cs_pool = p, cs_pending = pending \<rparr> \<rparr>) = Ok ((totals, weights), s1)"
    and s': "s' = s1\<lparr> fs_rewards := kv_set (fs_rewards s1) p totals, fs_pending := kv_set (fs_pending s1) p pending,
              fs_weights := kv_set (fs_weights s1) p weights,
              fs_start_time := kv_set (fs_start_time s1) (a @ p) (seconds (block e)),
              fs_user_staked := kv_set (fs_user_staked s1) (a @ p) (stakes_of s p a + n),
              fs_total_staked := kv_set (fs_total_staked s1) p (total_staked_in_pool s p + n) \<rparr>" "out = []"
    by (simp add: handle_stake_reply_def outcome_simps arith_simps stakes_of_def [of s p a, symmetric] kv_list_totals
        Let_def split del: if_split cong: if_cong) (elim exE conjE, rule that, assumption, assumption, (rule sym, assumption)+)
  show thesis
    by (rule that [OF query_stakable_token_Ok [OF st] loop [folded query_pending_rewards_Ok [OF q]]
          s' [folded query_pending_rewards_Ok [OF q]]])
qed

lemma farm_claim_tx:
  assumes "farm_tx P H1 H2 s e info (Fm_claim p start) = Ok (s', out)" "a = sender info"
  obtains st :: stakeable_token and act cur totals weights s1 where "map fd_token (sk_distribution st) = farm_listed H2 s p"
    and "fold_ok (claim_step a p (farm_reported H1 s e p) (kv_list (fs_pending s) p) (total_staked_in_pool s p) (stakes_of s p a))
      (sk_distribution st) (totals_in s p, s\<lparr> fs_action := act, fs_claim := cur \<rparr>, []) = Ok ((totals, weights), s1, out)"
    and "s' = s1\<lparr> fs_rewards := kv_set (fs_rewards s1) p totals, fs_weights := kv_set (fs_weights s1) p weights,
              fs_pending := kv_del (fs_pending s1) p \<rparr>"
proof -
  let ?f = "fc_loop_farm (fs_config s)"
  let ?s = "\<lambda>pending. s\<lparr> fs_action := Some \<lparr> fa_action = claim_action, fa_account = a, fa_pool = p,
        fa_amount = None, fa_flp = None, fa_claimed = None \<rparr>, fs_claim := Some \<lparr> cl_account = a, cl_pool = p, cl_pending = pending \<rparr> \<rparr>"
  obtain pending where q: "query_pending_rewards H1 ?f (contract_address e) p = Ok pending"
    and r: "handle_claim_reward_reply H2 (?s pending) e True = Ok (s', out)"
    using assms
    by (auto simp: farm_tx_def farm_claim_reward_def farm_phases handle_claim_def Let_def outcome_simps
        split: option.splits if_splits)
  from r obtain st totals weights s1 where st: "query_stakable_token H2 ?f p = Ok st"
    and loop: "fold_ok (claim_step a p pending (kv_list (fs_pending s) p) (total_staked_in_pool s p) (stakes_of s p a))
      (sk_distribution st) (totals_in s p, ?s pending, []) = Ok ((totals, weights), s1, out)"
    and s': "s' = s1\<lparr> fs_rewards := kv_set (fs_rewards s1) p totals, fs_weights := kv_set (fs_weights s1) p weights,
              fs_pending := kv_del (fs_pending s1) p \<rparr>"
    by (simp add: handle_claim_reward_reply_def outcome_simps arith_simps stakes_of_def [of s p a, symmetric] kv_list_totals
        Let_def) (elim exE conjE, rule that, assumption, assumption, (rule sym, assumption)+)
  show thesis
    by (rule that [OF query_stakable_token_Ok [OF st] loop [folded query_pending_rewards_Ok [OF q]] s'])
qed

lemma farm_unstake_tx:
  assumes "farm_tx P H1 H2 s e info (Fm_unstake p n start) = Ok (s', out)" "a = sender info"
  obtains st :: stakeable_token and act cur totals weights s1 out1 where "map fd_token (sk_distribution st) = farm_listed H2 s p"
    and "0 < n" "n < stakes_of s p a" "n \<le> total_staked_in_pool s p"
    and "fold_ok (unstake_step a p (farm_reported H1 s e p) (kv_list (fs_pending s) p) (total_staked_in_pool s p) (stakes_of s p a) n)
      (sk_distribution st) (totals_in s p, s\<lparr> fs_action := act, fs_unstake := cur,
          fs_user_staked := kv_set (fs_user_staked s) (a @ p) (stakes_of s p a - n) \<rparr>, [Farm_transfer p a n])
      = Ok ((totals, weights), s1, out1)"
    and "s' = s1\<lparr> fs_rewards := kv_set (fs_rewards s1) p totals, fs_weights := kv_set (fs_weights s1) p weights,
              fs_pending := kv_del (fs_pending s1) p,
              fs_total_staked := kv_set (fs_total_staked s1) p (total_staked_in_pool s p - n) \<rparr>"
    and "out = out1 @ (if n < total_staked_in_pool s p
        then [Farm_restake p (fc_loop_farm (fs_config s)) (total_staked_in_pool s p - n)] else [])"
proof -
  let ?f = "fc_loop_farm (fs_config s)"
  let ?s = "\<lambda>pending. s\<lparr> fs_action := Some \<lparr> fa_action = unstake_and_claim_action, fa_account = a, fa_pool = p,
        fa_amount = Some n, fa_flp = None, fa_claimed = None \<rparr>,
      fs_unstake := Some \<lparr> cu_sender = a, cu_pool = p, cu_amount = n, cu_pending = pending \<rparr> \<rparr>"
  obtain pending where q: "query_pending_rewards H1 ?f (contract_address e) p = Ok pending" and n: "0 < n"
    and r: "handle_unstake_and_claim_reply H2 (?s pending) e True = Ok (s', out)"
    using assms
    by (auto simp: farm_tx_def farm_unstake_and_claim_def farm_phases handle_unstake_and_claim_def Let_def outcome_simps
        split: option.splits if_splits)
  from r obtain st totals weights s1 out1 where st: "query_stakable_token H2 ?f p = Ok st" and more: "n < stakes_of s p a"
    and loop: "fold_ok (unstake_step a p pending (kv_list (fs_pending s) p) (total_staked_in_pool s p) (stakes_of s p a) n)
      (sk_distribution st) (totals_in s p, (?s pending)\<lparr> fs_user_staked := kv_set (fs_user_staked s) (a @ p) (stakes_of s p a - n) \<rparr>,
        [Farm_transfer p a n]) = Ok ((totals, weights), s1, out1)" and le: "n \<le> total_staked_in_pool s p"
    and s': "s' = s1\<lparr> fs_rewards := kv_set (fs_rewards s1) p totals, fs_weights := kv_set (fs_weights s1) p weights,
              fs_pending := kv_del (fs_pending s1) p,
              fs_total_staked := kv_set (fs_total_staked s1) p (total_staked_in_pool s p - n) \<rparr>"
      "out = out1 @ (if n < total_staked_in_pool s p then [Farm_restake p ?f (total_staked_in_pool s p - n)] else [])"
    by (simp add: handle_unstake_and_claim_reply_def outcome_simps arith_simps stakes_of_def [of s p a, symmetric] kv_list_totals
        Let_def split del: if_split cong: if_cong) (elim exE conjE, rule that, assumption, assumption, assumption, assumption, (rule sym, assumption)+)
  show thesis
    by (rule that [OF query_stakable_token_Ok [OF st] n more le loop [folded query_pending_rewards_Ok [OF q]] s'])
qed

section \<open>The invariant is kept\<close>

lemma settled_frame:
  assumes "settled A a p st tot current seen T spent lim (tw, s, out) (tw', s', out')"
  obtains I tr rest where "s' = s\<lparr> fs_user_info := I, fs_treasury := tr \<rparr>" "out' = out @ rest"
  using assms unfolding settled_def prod.case by (elim exE conjE) (rule that)

lemma farm_ok_hyps:
  assumes "apart A" "finite A" "farm_ok A s got spent" "a \<in> A" "p \<in> A"
  shows "settle_hyps A a p (stakes_of s p) (total_staked_in_pool s p) (stakes_of s p a) (kv_list (fs_pending s) p)"
    and "books_ok A p (stakes_of s p) (totals_in s p) (fs_user_info s) (spent p) (\<lambda>t. got p t + counted_pending s p t)"
    and "total_staked_in_pool s p = 0 \<Longrightarrow> \<forall>t. weight_in (totals_in s p) t = 0"
    and "(\<Sum>b\<in>A. stakes_of s p b) = total_staked_in_pool s p"
  using assms by (simp_all add: farm_ok_def pool_ok_def settle_hyps_def)

lemma key_in:
  "apart A \<Longrightarrow> a \<in> A \<Longrightarrow> b \<in> A \<Longrightarrow> kv_nat (kv_set m (a @ p) k) (b @ q) = (if q = p \<and> b = a then k else kv_nat m (b @ q))"
  using apartD [of A b a q p] by simp

lemma on_target_at:
  "target_of info msg = Some (a, p) \<Longrightarrow> on_target info msg n extra q = (if q = p then (\<lambda>t. n p t + extra t) else n q)"
  by (auto simp: on_target_def)

lemma farm_ok_stake:
  assumes A: "apart A" "finite A" and ok: "farm_ok A s got spent"
    and tx: "farm_tx P H1 H2 s e info (Fm_receive a n hook) = Ok (s', out)"
    and clean: "farm_clean A H1 H2 pay s e info (Fm_receive a n hook)"
  shows "farm_ok A s' (got_after pay info (Fm_receive a n hook) got) (spent_after s s' out info (Fm_receive a n hook) spent)"
proof -
  define p where "p = sender info"
  let ?cur = "farm_reported H1 s e p" and ?T = "set (farm_listed H2 s p)"
  obtain st :: stakeable_token and act cur totals weights s1 where st: "map fd_token (sk_distribution st) = farm_listed H2 s p"
    and loop: "fold_ok (if total_staked_in_pool s p = 0 then first_stake_step a p ?cur (kv_list (fs_pending s) p)
        else stake_step a p ?cur (kv_list (fs_pending s) p) (total_staked_in_pool s p) (stakes_of s p a))
      (sk_distribution st) (totals_in s p, s\<lparr> fs_action := act, fs_stake := cur \<rparr>) = Ok ((totals, weights), s1)"
    and s': "s' = s1\<lparr> fs_rewards := kv_set (fs_rewards s1) p totals, fs_pending := kv_set (fs_pending s1) p ?cur,
              fs_weights := kv_set (fs_weights s1) p weights,
              fs_start_time := kv_set (fs_start_time s1) (a @ p) (seconds (block e)),
              fs_user_staked := kv_set (fs_user_staked s1) (a @ p) (stakes_of s p a + n),
              fs_total_staked := kv_set (fs_total_staked s1) p (total_staked_in_pool s p + n) \<rparr>" "out = []"
    by (rule farm_stake_tx [OF tx p_def])
  have c: "a \<in> A" "p \<in> A" "distinct (map fst ?cur)" "distinct (farm_listed H2 s p)" "?T \<subseteq> A" "tokens_of (totals_in s p) \<subseteq> ?T"
    using clean by (simp_all add: farm_clean_def farm_keeps_its_word_def p_def tokens_of_def totals_in_def)
  have T: "fd_token ` set (sk_distribution st) = ?T" using arg_cong [OF st, of set] by simp
  note hyps = farm_ok_hyps [OF A ok c(1,2)]
  let ?s0 = "s\<lparr> fs_action := act, fs_stake := cur \<rparr>"
  have set: "settled A a p (stakes_of s p) (total_staked_in_pool s p) ?cur (kv_list (fs_pending s) p) ?T (spent p)
      (\<lambda>t. got p t + counted_pending s p t) (totals_in s p, ?s0, []) ((totals, weights), s1, [] @ [])"
  proof (cases "total_staked_in_pool s p = 0")
    case True
    then show ?thesis
      using first_staking.loop_settles [where a = a and p = p and current = ?cur and seen = "kv_list (fs_pending s) p" and staked = "stakes_of s p a"
            and tot = "total_staked_in_pool s p" and ds = "sk_distribution st" and tw = "totals_in s p" and s = ?s0 and out = "[]"
            and acc = "(totals_in s p, ?s0)" and acc' = "((totals, weights), s1)" and spent = "spent p"
            and lim = "\<lambda>t. got p t + counted_pending s p t",
          OF _ hyps(1) _ _ _ _ hyps(3)] loop hyps(2) c(4,5) by (simp add: T st)
  next
    case False
    then show ?thesis
      using staking.loop_settles [where a = a and p = p and current = ?cur and seen = "kv_list (fs_pending s) p" and staked = "stakes_of s p a"
            and tot = "total_staked_in_pool s p" and ds = "sk_distribution st" and tw = "totals_in s p" and s = ?s0 and out = "[]"
            and acc = "(totals_in s p, ?s0)" and acc' = "((totals, weights), s1)" and spent = "spent p"
            and lim = "\<lambda>t. got p t + counted_pending s p t",
          OF _ hyps(1) _ _ _ _ hyps(3)] loop hyps(2) c(4,5) by (simp add: T st)
  qed
  obtain I tr rest where s1: "s1 = ?s0\<lparr> fs_user_info := I, fs_treasury := tr \<rparr>" by (rule settled_frame [OF set])
  show ?thesis
  proof (rule settled_farm_ok [OF A c(1,2) ok set _ _ c(6), where k = "stakes_of s p a + n" and m = "total_staked_in_pool s p + n"
        and seen' = ?cur])
    show "stakes_of s' q b = (if q = p \<and> b = a then stakes_of s p a + n else stakes_of s q b)" if "b \<in> A" "q \<in> A" for b q
      using key_in [OF A(1) c(1) that(1)] by (simp add: stakes_of_def user_staked_in_pool_def s' s1)
    show "got p t + amount_of ?cur t \<le> got_after pay info (Fm_receive a n hook) got p t + amount_of ?cur t" if "t \<in> ?T" for t
      by (simp add: got_after_def on_target_def)
    show "got_after pay info (Fm_receive a n hook) got q = got q" if "q \<noteq> p" for q
      using that on_target_at [of info "Fm_receive a n hook" a p] by (simp add: got_after_def p_def)
  qed (use c(3) in \<open>simp_all add: s' s1 totals_in_def total_staked_in_pool_def spent_after_def on_target_at [of _ _ a] p_def\<close>)
qed

lemma farm_ok_claim:
  assumes A: "apart A" "finite A" and ok: "farm_ok A s got spent"
    and tx: "farm_tx P H1 H2 s e info (Fm_claim p start) = Ok (s', out)"
    and clean: "farm_clean A H1 H2 pay s e info (Fm_claim p start)"
  shows "farm_ok A s' (got_after pay info (Fm_claim p start) got) (spent_after s s' out info (Fm_claim p start) spent)"
proof -
  define a where "a = sender info"
  let ?cur = "farm_reported H1 s e p" and ?T = "set (farm_listed H2 s p)"
  obtain st :: stakeable_token and act cur totals weights s1 where st: "map fd_token (sk_distribution st) = farm_listed H2 s p"
    and loop: "fold_ok (claim_step a p ?cur (kv_list (fs_pending s) p) (total_staked_in_pool s p) (stakes_of s p a))
      (sk_distribution st) (totals_in s p, s\<lparr> fs_action := act, fs_claim := cur \<rparr>, []) = Ok ((totals, weights), s1, out)"
    and s': "s' = s1\<lparr> fs_rewards := kv_set (fs_rewards s1) p totals, fs_weights := kv_set (fs_weights s1) p weights,
              fs_pending := kv_del (fs_pending s1) p \<rparr>"
    by (rule farm_claim_tx [OF tx a_def])
  have c: "a \<in> A" "p \<in> A" "distinct (farm_listed H2 s p)" "?T \<subseteq> A" "tokens_of (totals_in s p) \<subseteq> ?T"
    using clean by (simp_all add: farm_clean_def farm_keeps_its_word_def a_def tokens_of_def totals_in_def)
  have T: "fd_token ` set (sk_distribution st) = ?T" using arg_cong [OF st, of set] by simp
  note hyps = farm_ok_hyps [OF A ok c(1,2)]
  let ?s0 = "s\<lparr> fs_action := act, fs_claim := cur \<rparr>"
  have set: "settled A a p (stakes_of s p) (total_staked_in_pool s p) ?cur (kv_list (fs_pending s) p) ?T (spent p)
      (\<lambda>t. got p t + counted_pending s p t) (totals_in s p, ?s0, []) ((totals, weights), s1, [] @ out)"
    unfolding T [symmetric] append_Nil
    by (rule claiming.loop_settles [OF loop hyps(1) _ _ refl _ hyps(3)]) (use hyps(2) c(3,4) in \<open>simp_all add: T st\<close>)
  obtain I tr rest where s1: "s1 = ?s0\<lparr> fs_user_info := I, fs_treasury := tr \<rparr>" by (rule settled_frame [OF set])
  note target = on_target_at [of info "Fm_claim p start" a p]
  show ?thesis
  proof (rule settled_farm_ok [OF A c(1,2) ok set _ _ c(5), where k = "stakes_of s p a" and m = "total_staked_in_pool s p" and seen' = "[]"])
    show "got p t + amount_of ?cur t \<le> got_after pay info (Fm_claim p start) got p t + amount_of [] t" if "t \<in> ?T" for t
      using target clean_pays [OF clean, of a p t] by (simp add: got_after_def a_def)
    show "got_after pay info (Fm_claim p start) got q = got q" if "q \<noteq> p" for q
      using that target by (simp add: got_after_def a_def)
  qed (use target in \<open>simp_all add: s' s1 stakes_of_def user_staked_in_pool_def totals_in_def total_staked_in_pool_def
      spent_after_def a_def\<close>)
qed

lemma farm_ok_unstake:
  assumes A: "apart A" "finite A" and ok: "farm_ok A s got spent"
    and tx: "farm_tx P H1 H2 s e info (Fm_unstake p n start) = Ok (s', out)"
    and clean: "farm_clean A H1 H2 pay s e info (Fm_unstake p n start)"
  shows "farm_ok A s' (got_after pay info (Fm_unstake p n start) got) (spent_after s s' out info (Fm_unstake p n start) spent)"
proof -
  define a where "a = sender info"
  let ?cur = "farm_reported H1 s e p" and ?T = "set (farm_listed H2 s p)" and ?k = "stakes_of s p a - n"
  obtain st :: stakeable_token and act cur totals weights s1 out1 where st: "map fd_token (sk_distribution st) = farm_listed H2 s p"
    and n: "0 < n" "n < stakes_of s p a" "n \<le> total_staked_in_pool s p"
    and loop: "fold_ok (unstake_step a p ?cur (kv_list (fs_pending s) p) (total_staked_in_pool s p) (stakes_of s p a) n)
      (sk_distribution st) (totals_in s p, s\<lparr> fs_action := act, fs_unstake := cur,
          fs_user_staked := kv_set (fs_user_staked s) (a @ p) ?k \<rparr>, [Farm_transfer p a n]) = Ok ((totals, weights), s1, out1)"
    and s': "s' = s1\<lparr> fs_rewards := kv_set (fs_rewards s1) p totals, fs_weights := kv_set (fs_weights s1) p weights,
              fs_pending := kv_del (fs_pending s1) p,
              fs_total_staked := kv_set (fs_total_staked s1) p (total_staked_in_pool s p - n) \<rparr>"
    and out: "out = out1 @ (if n < total_staked_in_pool s p
        then [Farm_restake p (fc_loop_farm (fs_config s)) (total_staked_in_pool s p - n)] else [])"
    by (rule farm_unstake_tx [OF tx a_def])
  have c: "a \<in> A" "p \<in> A" "distinct (farm_listed H2 s p)" "?T \<subseteq> A" "tokens_of (totals_in s p) \<subseteq> ?T"
    using clean by (simp_all add: farm_clean_def farm_keeps_its_word_def a_def tokens_of_def totals_in_def)
  have T: "fd_token ` set (sk_distribution st) = ?T" using arg_cong [OF st, of set] by simp
  note hyps = farm_ok_hyps [OF A ok c(1,2)]
  have more: "n < total_staked_in_pool s p"
    using n(2) hyps(4) sum.remove [OF A(2) c(1), of "stakes_of s p"] by simp
  let ?s0 = "s\<lparr> fs_action := act, fs_unstake := cur, fs_user_staked := kv_set (fs_user_staked s) (a @ p) ?k \<rparr>"
  have set': "settled A a p (stakes_of s p) (total_staked_in_pool s p) ?cur (kv_list (fs_pending s) p) ?T (spent p)
      (\<lambda>t. got p t + counted_pending s p t) (totals_in s p, ?s0, [Farm_transfer p a n]) ((totals, weights), s1, out1)"
    unfolding T [symmetric]
    by (rule unstaking.loop_settles [where amount = n, OF _ hyps(1) _ _ refl _ hyps(3)]) (use loop n hyps(2) c(3,4) in \<open>simp_all add: T st\<close>)
  obtain I tr rest where s1: "s1 = ?s0\<lparr> fs_user_info := I, fs_treasury := tr \<rparr>" and out1: "out1 = [Farm_transfer p a n] @ rest"
    by (rule settled_frame [OF set'])
  note set = set' [unfolded out1]
  note target = on_target_at [of info "Fm_unstake p n start" a p]
  show ?thesis
  proof (rule settled_farm_ok [OF A c(1,2) ok set _ _ c(5), where k = ?k and m = "total_staked_in_pool s p - n" and seen' = "[]"])
    show "got p t + amount_of ?cur t \<le> got_after pay info (Fm_unstake p n start) got p t + amount_of [] t" if "t \<in> ?T" for t
      using target clean_pays [OF clean, of a p t] by (simp add: got_after_def a_def)
    show "got_after pay info (Fm_unstake p n start) got q = got q" if "q \<noteq> p" for q
      using that target by (simp add: got_after_def a_def)
    show "stakes_of s' q b = (if q = p \<and> b = a then ?k else stakes_of s q b)" if "b \<in> A" "q \<in> A" for b q
      using key_in [OF A(1) c(1) that(1)] by (simp add: stakes_of_def user_staked_in_pool_def s' s1)
    show "total_staked_in_pool s p - n + stakes_of s p a = total_staked_in_pool s p + ?k" using n by simp
    show "total_staked_in_pool s p = 0" if "total_staked_in_pool s p - n = 0" using that more by simp
    show "spent_after s s' out info (Fm_unstake p n start) spent p t
      = spent p t + (kv_nat (fs_treasury s1) t - kv_nat (fs_treasury s) t) + paid_for rest t" for t
      using target by (simp add: spent_after_def a_def out out1 s')
    show "spent_after s s' out info (Fm_unstake p n start) spent q = spent q" if "q \<noteq> p" for q
      using that target by (simp add: spent_after_def a_def)
  qed (simp_all add: s' s1 totals_in_def total_staked_in_pool_def)
qed

text \<open>The other requests leave stakes and rewards alone; the treasury cannot be withdrawn at all.\<close>

lemma withdrawal_never_Ok: "farm_withdraw_treasury s info token amount \<noteq> Ok r"
  by (auto simp: farm_withdraw_treasury_def Let_def outcome_simps arith_simps split: if_splits)

lemma add_pools_frame:
  "fold_ok add_pool entries s = Ok s' \<Longrightarrow> \<exists>x y. s' = s\<lparr> fs_stakeable := x, fs_liquidity := y \<rparr>"
proof (induction entries arbitrary: s)
  case Nil
  then show ?case by (auto intro!: exI [of _ "fs_stakeable s"] exI [of _ "fs_liquidity s"])
next
  case (Cons entry entries)
  then obtain s1 where "add_pool entry s = Ok s1" "fold_ok add_pool entries s1 = Ok s'" by (auto simp: outcome_simps)
  then show ?case using Cons.IH by (fastforce simp: add_pool_def split: prod.splits if_splits)
qed

definition quiet_change :: "farm_state \<Rightarrow> farm_state \<Rightarrow> bool" where
  "quiet_change s s' \<longleftrightarrow> (\<exists>c x y. s' = s\<lparr> fs_config := c, fs_stakeable := x, fs_liquidity := y \<rparr>)"

lemma quiet_changeI:
  "quiet_change s s" "quiet_change s (s\<lparr> fs_config := c \<rparr>)" "quiet_change s (s\<lparr> fs_stakeable := x, fs_liquidity := y \<rparr>)"
  unfolding quiet_change_def
  by (intro exI [of _ "fs_config s"] exI [of _ "fs_stakeable s"] exI [of _ "fs_liquidity s"], simp)
     (intro exI [of _ c] exI [of _ "fs_stakeable s"] exI [of _ "fs_liquidity s"], simp,
      intro exI [of _ "fs_config s"] exI [of _ x] exI [of _ y], simp)

lemma quiet_tx:
  assumes "farm_tx P H1 H2 s e info msg = Ok (s', out)" "target_of info msg = None"
  shows "quiet_change s s'"
proof -
  have none: "\<exists>r. farm_execute P s info msg = Ok r \<and> then_reply (\<lambda>s1 i. and_then (farm_reply H1 s1 e True i) (then_reply (\<lambda>s2. farm_reply H2 s2 e True))) r = Ok (s', out)"
    using assms(1) by (auto simp: farm_tx_def outcome_simps)
  show ?thesis
  proof (cases msg)
    case (Fm_add_tokens pools ls)
    then show ?thesis using none add_pools_frame [of "zip pools ls" s s']
      by (auto simp: farm_silent_def farm_add_tokens_def then_reply_def outcome_simps split: if_splits intro: quiet_changeI)
  next
    case (Fm_withdraw_treasury token n)
    then show ?thesis using none by (simp add: withdrawal_never_Ok)
  qed (use none assms(2) in \<open>auto simp: farm_silent_def farm_update_config_def farm_update_treasury_addr_def
      farm_update_treasury_fee_def farm_add_token_def add_pool_def farm_distribute_by_limit_def then_reply_def outcome_simps Let_def
      split: if_splits intro: quiet_changeI\<close>)
qed

lemma farm_ok_quiet:
  assumes "farm_ok A s got spent" "quiet_change s s'"
  shows "farm_ok A s' got spent"
proof -
  obtain c x y where s': "s' = s\<lparr> fs_config := c, fs_stakeable := x, fs_liquidity := y \<rparr>"
    using assms(2) by (auto simp: quiet_change_def)
  have "stakes_of s' = stakes_of s" by (intro ext) (simp add: s' stakes_of_def user_staked_in_pool_def)
  then show ?thesis
    using assms(1) by (simp add: s' farm_ok_def pool_ok_def total_staked_in_pool_def totals_in_def counted_pending_def)
qed

lemma counters_quiet:
  assumes "target_of info msg = None"
  shows "got_after pay info msg got = got" "spent_after s s' out info msg spent = spent"
  using assms by (auto simp: got_after_def spent_after_def on_target_def intro!: ext)

lemma farm_ok_step:
  assumes "apart A" "finite A" "farm_ok A s got spent" "farm_tx P H1 H2 s e info msg = Ok (s', out)"
    and "farm_clean A H1 H2 pay s e info msg"
  shows "farm_ok A s' (got_after pay info msg got) (spent_after s s' out info msg spent)"
proof (cases "target_of info msg")
  case None
  show ?thesis unfolding counters_quiet [OF None] by (rule farm_ok_quiet [OF assms(3) quiet_tx [OF assms(4) None]])
next
  case (Some x)
  then consider who n hook where "msg = Fm_receive who n hook" | p start where "msg = Fm_claim p start"
    | p n start where "msg = Fm_unstake p n start"
    by (cases msg) auto
  then show ?thesis
  proof cases
    case 1
    show ?thesis unfolding 1 by (rule farm_ok_stake [OF assms [unfolded 1]])
  next
    case 2
    show ?thesis unfolding 2 by (rule farm_ok_claim [OF assms [unfolded 2]])
  next
    case 3
    show ?thesis unfolding 3 by (rule farm_ok_unstake [OF assms [unfolded 3]])
  qed
qed

lemma farm_run_ok: "farm_run A s got spent \<Longrightarrow> apart A \<Longrightarrow> finite A \<Longrightarrow> farm_ok A s got spent"
proof (induction rule: farm_run.induct)
  case (farm_start P info treasury s)
  then show ?case
    by (auto simp: farm_instantiate_def outcome_simps farm_ok_def pool_ok_def stakes_of_def user_staked_in_pool_def
        total_staked_in_pool_def totals_in_def counted_pending_def kv_list_def totals_ok_def tokens_of_def weight_in_def intro!: books_okI)
next
  case (farm_next s got spent P H1 H2 e info msg s' out pay)
  show ?case by (rule farm_ok_step [OF farm_next.prems farm_next.IH [OF farm_next.prems] farm_next.hyps(2,3)])
qed

section \<open>What every transaction does\<close>

text \<open>The treasury through the settlement loops, whatever the farm answers.\<close>

lemma loops_keep_treasury:
  "fold_ok (if tot = 0 then first_stake_step a p current seen else stake_step a p current seen tot staked) ds (tw, s) = Ok (tw', s')
     \<Longrightarrow> fs_treasury s' = fs_treasury s" (is "_ \<Longrightarrow> ?stake")
  "fold_ok (claim_step a p current seen tot staked) ds (tw, s, out) = Ok (tw', s', out')
     \<Longrightarrow> kv_nat (fs_treasury s) t \<le> kv_nat (fs_treasury s') t" (is "_ \<Longrightarrow> ?claim")
  "fold_ok (unstake_step a p current seen tot staked amount) ds (tw, s, out) = Ok (tw', s', out')
     \<Longrightarrow> kv_nat (fs_treasury s) t \<le> kv_nat (fs_treasury s') t" (is "_ \<Longrightarrow> ?unstake")
proof -
  show ?stake if "fold_ok (if tot = 0 then first_stake_step a p current seen else stake_step a p current seen tot staked) ds (tw, s) = Ok (tw', s')"
  proof -
    have "fs_treasury (snd (tw', s')) = fs_treasury s"
      by (rule fold_ok_invariant [OF that, where P = "\<lambda>acc. fs_treasury (snd acc) = fs_treasury s"])
        (auto simp: first_stake_step_def stake_step_def Let_def outcome_simps split: if_splits)
    then show ?thesis by simp
  qed
  show ?claim if "fold_ok (claim_step a p current seen tot staked) ds (tw, s, out) = Ok (tw', s', out')"
  proof -
    have "kv_nat (fs_treasury s) t \<le> kv_nat (fs_treasury (fst (snd (tw', s', out')))) t"
      by (rule fold_ok_invariant [OF that, where P = "\<lambda>acc. kv_nat (fs_treasury s) t \<le> kv_nat (fs_treasury (fst (snd acc))) t"])
        (auto simp: claim_step_def Let_def outcome_simps arith_simps)
    then show ?thesis by simp
  qed
  show ?unstake if "fold_ok (unstake_step a p current seen tot staked amount) ds (tw, s, out) = Ok (tw', s', out')"
  proof -
    have "kv_nat (fs_treasury s) t \<le> kv_nat (fs_treasury (fst (snd (tw', s', out')))) t"
      by (rule fold_ok_invariant [OF that, where P = "\<lambda>acc. kv_nat (fs_treasury s) t \<le> kv_nat (fs_treasury (fst (snd acc))) t"])
        (auto simp: unstake_step_def Let_def outcome_simps arith_simps)
    then show ?thesis by simp
  qed
qed

lemma unstake_loop_frame:
  assumes "fold_ok (unstake_step a p current seen tot staked amount) ds (tw, s, out) = Ok (tw', s', out')"
  shows "fs_user_staked s' = fs_user_staked s \<and> fs_total_staked s' = fs_total_staked s \<and> (\<exists>rest. out' = out @ rest)"
proof -
  let ?P = "\<lambda>(tw, s', out'). fs_user_staked s' = fs_user_staked s \<and> fs_total_staked s' = fs_total_staked s \<and> (\<exists>rest. out' = out @ rest)"
  have "?P (tw', s', out')"
    by (rule fold_ok_invariant [OF assms, where P = ?P]) (auto simp: unstake_step_def Let_def outcome_simps)
  then show ?thesis by simp
qed

lemma treasury_never_falls:
  assumes tx: "farm_tx P H1 H2 s e info msg = Ok (s', out)"
  shows "kv_nat (fs_treasury s) t \<le> kv_nat (fs_treasury s') t"
proof (cases "target_of info msg")
  case None
  then show ?thesis using quiet_tx [OF tx None] by (auto simp: quiet_change_def)
next
  case (Some x)
  then consider a n hook where "msg = Fm_receive a n hook" | p start where "msg = Fm_claim p start"
    | p n start where "msg = Fm_unstake p n start"
    by (cases msg) auto
  then show ?thesis
  proof cases
    case 1
    show ?thesis by (rule farm_stake_tx [OF tx [unfolded 1] refl]) (drule loops_keep_treasury(1), simp)
  next
    case 2
    show ?thesis by (rule farm_claim_tx [OF tx [unfolded 2] refl]) (drule loops_keep_treasury(2) [where t = t], simp)
  next
    case 3
    show ?thesis by (rule farm_unstake_tx [OF tx [unfolded 3] refl]) (drule loops_keep_treasury(3) [where t = t], simp)
  qed
qed

text \<open>What was counted as pending is received with the next claim or withdrawal, and only then paid.\<close>

lemma pending_after:
  assumes "farm_tx P H1 H2 s e info msg = Ok (s', out)" "target_of info msg = Some (a, p)"
  shows "pays_out msg \<Longrightarrow> kv_list (fs_pending s') p = []"
    and "\<not> pays_out msg \<Longrightarrow> fs_treasury s' = fs_treasury s \<and> out = []"
proof -
  show "kv_list (fs_pending s') p = []" if "pays_out msg"
  proof (cases msg)
    case (Fm_claim q start)
    have "kv_list (fs_pending s') q = []" by (rule farm_claim_tx [OF assms(1) [unfolded Fm_claim] refl]) simp
    then show ?thesis using assms(2) Fm_claim by simp
  next
    case (Fm_unstake q n start)
    have "kv_list (fs_pending s') q = []" by (rule farm_unstake_tx [OF assms(1) [unfolded Fm_unstake] refl]) simp
    then show ?thesis using assms(2) Fm_unstake by simp
  qed (use that in simp_all)
  show "fs_treasury s' = fs_treasury s \<and> out = []" if "\<not> pays_out msg"
  proof (cases msg)
    case (Fm_receive b n hook)
    show ?thesis
      by (rule farm_stake_tx [OF assms(1) [unfolded Fm_receive] refl]) (drule loops_keep_treasury(1), simp)
  qed (use that assms(2) in simp_all)
qed

lemma farm_run_spends_received:
  assumes "farm_run A s got spent" "apart A" "finite A" "p \<in> A" "t \<in> A"
  shows "spent p t \<le> got p t"
  using assms
proof (induction rule: farm_run.induct)
  case (farm_next s got spent P H1 H2 e info msg s' out pay)
  show ?case
  proof (cases "target_of info msg")
    case None
    then show ?thesis using farm_next.IH farm_next.prems by (simp add: counters_quiet)
  next
    case (Some x)
    obtain a q where x: "target_of info msg = Some (a, q)" using Some by (cases x) simp
    have ok: "farm_ok A s' (got_after pay info msg got) (spent_after s s' out info msg spent)"
      using farm_ok_step farm_run_ok farm_next by blast
    show ?thesis
    proof (cases "q = p")
      case False
      then show ?thesis using farm_next.IH farm_next.prems
        by (simp add: got_after_def spent_after_def on_target_at [OF x])
    next
      case q: True
      show ?thesis
      proof (cases "pays_out msg")
        case True
        have "kv_list (fs_pending s') p = []" using pending_after(1) [OF farm_next.hyps(2) x True] q by simp
        then have "decimal_one * spent_after s s' out info msg spent p t + pool_owed A (fs_user_info s') (stakes_of s' p)
            (weight_in (totals_in s' p) t) p t \<le> decimal_one * got_after pay info msg got p t"
          using books_okD(3) [OF farm_ok_hyps(2) [OF farm_next.prems(1,2) ok farm_next.prems(3,3)] farm_next.prems(4)]
          by (simp add: counted_pending_def)
        then have "decimal_one * spent_after s s' out info msg spent p t \<le> decimal_one * got_after pay info msg got p t" by linarith
        then show ?thesis by simp
      next
        case False
        then have "fs_treasury s' = fs_treasury s \<and> out = []" using pending_after(2) [OF farm_next.hyps(2) x] by simp
        moreover have "reward_messages msg [] = []" by (cases msg) simp_all
        ultimately show ?thesis using farm_next.IH farm_next.prems
          by (simp add: got_after_def spent_after_def on_target_def)
      qed
    qed
  qed
qed simp

text \<open>A claim goes through only when every listed token that was counted before has new rewards.\<close>

lemma fold_ok_reaches:
  "fold_ok f xs s = Ok s' \<Longrightarrow> x \<in> set xs \<Longrightarrow> \<exists>u v. f x u = Ok v"
proof (induction xs arbitrary: s)
  case (Cons y xs)
  then show ?case by (auto simp: outcome_simps)
qed simp

lemma deduct_seen_strictly_stale:
  "deduct_seen_strictly t seen n = Ok m \<Longrightarrow> map_of seen t = Some k \<Longrightarrow> k < n"
  by (induction seen arbitrary: n) (auto simp: outcome_simps split: if_splits)

end
