(* ===== verification/Farming_Props.thy ===== *)
theory Farming_Props
  imports Farming_System
begin

text \<open>
  The properties of the farming contract over every run of clean transactions, and what single
  transactions do, with a concrete run for the witnesses: two stakes, then a withdrawal that pays the
  first user and stakes the rest again.
\<close>

section \<open>A concrete run\<close>

definition farm_demo_addrs :: "string set" where
  "farm_demo_addrs = {''a'', ''b'', ''P'', ''R''}"

definition farm_demo_host :: "amounts \<Rightarrow> farm_host" where
  "farm_demo_host reported = \<lparr> fh_flp = (\<lambda>f p. Some ''flp''), fh_pool_rewards = (\<lambda>f p. Some [(''R'', 5)]),
     fh_user_rewards = (\<lambda>f a p. Some [(''P'', reported)]), fh_reward_in_pool = (\<lambda>f p t. None), fh_wait_time = (\<lambda>f. None),
     fh_lock_time = (\<lambda>f. None), fh_last_time = (\<lambda>f p. None), fh_balance = (\<lambda>f a. None) \<rparr>"

definition farm_demo_env :: env where
  "farm_demo_env = \<lparr> block = \<lparr> block_height = 12, block_time = 7000000000 \<rparr>, contract_address = ''farming'' \<rparr>"

definition farm_demo_outer :: addr where
  "farm_demo_outer = ''juno1l6p6qa0l4hdhedgvwhdqcua9sq4un8ugg5rk4nhh4mnrz7a3sl9sfwzg7l''"

definition farm_demo_start :: farm_state where
  "farm_demo_start = \<lparr> fs_version = (''loopswap-farming'', ''1.0.0''),
     fs_config = \<lparr> fc_owner = ''boss'', fc_loop_farm = farm_demo_outer, fc_treasury_addr = ''t'',
       fc_treasury_fee = 200000, fc_fee_multiplier = 1000000, fc_default_limit = 10, fc_max_limit = 30 \<rparr>,
     fs_stakeable = [], fs_liquidity = [], fs_unclaimed = [], fs_user_staked = [], fs_total_staked = [],
     fs_user_info = [], fs_start_time = [], fs_compound_flag = [], fs_compounded = [],
     fs_unstake = None, fs_stake = None, fs_claim = None, fs_pending = [], fs_rewards = [], fs_weights = [],
     fs_action = None, fs_treasury = [] \<rparr>"

definition farm_demo_open :: farm_state where
  "farm_demo_open = farm_demo_start\<lparr>
     fs_stakeable := [(''P'', \<lparr> sk_liquidity = ''flp'', sk_token = ''P'', sk_distribution = [] \<rparr>)],
     fs_liquidity := [(''flp'', ''P'')] \<rparr>"

definition farm_demo_first :: farm_state where
  "farm_demo_first = farm_demo_open\<lparr> fs_user_staked := [(''aP'', 600)], fs_total_staked := [(''P'', 600)],
     fs_user_info := [(''aPR'', \<lparr> ri_weight = 0, ri_pending = 0 \<rparr>)], fs_start_time := [(''aP'', 7)],
     fs_stake := Some \<lparr> cs_sender = ''a'', cs_amount = 600, cs_pool = ''P'', cs_pending = [] \<rparr>,
     fs_pending := [(''P'', [])], fs_rewards := [(''P'', [(''R'', 0)])], fs_weights := [(''P'', [(''R'', 0)])],
     fs_action := Some \<lparr> fa_action = 3, fa_account = ''a'', fa_pool = ''P'', fa_amount = Some 600, fa_flp = None,
       fa_claimed = None \<rparr> \<rparr>"

definition farm_demo_second :: farm_state where
  "farm_demo_second = farm_demo_first\<lparr> fs_user_staked := [(''aP'', 600), (''bP'', 400)], fs_total_staked := [(''P'', 1000)],
     fs_user_info := [(''aPR'', \<lparr> ri_weight = 0, ri_pending = 0 \<rparr>), (''bPR'', \<lparr> ri_weight = decimal_one div 10, ri_pending = 0 \<rparr>)],
     fs_start_time := [(''aP'', 7), (''bP'', 7)],
     fs_stake := Some \<lparr> cs_sender = ''b'', cs_amount = 400, cs_pool = ''P'', cs_pending = [(''R'', 60)] \<rparr>,
     fs_pending := [(''P'', [(''R'', 60)])], fs_rewards := [(''P'', [(''R'', 60)])],
     fs_weights := [(''P'', [(''R'', decimal_one div 10)])],
     fs_action := Some \<lparr> fa_action = 3, fa_account = ''b'', fa_pool = ''P'', fa_amount = Some 400, fa_flp = None,
       fa_claimed = None \<rparr> \<rparr>"

definition farm_demo_left :: farm_state where
  "farm_demo_left = farm_demo_second\<lparr> fs_user_staked := [(''aP'', 400), (''bP'', 400)], fs_total_staked := [(''P'', 800)],
     fs_user_info := [(''aPR'', \<lparr> ri_weight = decimal_one div 5, ri_pending = 0 \<rparr>),
       (''bPR'', \<lparr> ri_weight = decimal_one div 10, ri_pending = 0 \<rparr>)],
     fs_unstake := Some \<lparr> cu_sender = ''a'', cu_pool = ''P'', cu_amount = 200, cu_pending = [(''R'', 160)] \<rparr>,
     fs_pending := [], fs_rewards := [(''P'', [(''R'', 160)])], fs_weights := [(''P'', [(''R'', decimal_one div 5)])],
     fs_action := Some \<lparr> fa_action = 2, fa_account = ''a'', fa_pool = ''P'', fa_amount = Some 200, fa_flp = None,
       fa_claimed = None \<rparr>,
     fs_treasury := [(''R'', 24)] \<rparr>"

definition farm_demo_got :: counters where
  "farm_demo_got p t = (if p = ''P'' \<and> t = ''R'' then 160 else 0)"

definition farm_demo_spent :: counters where
  "farm_demo_spent p t = (if p = ''P'' \<and> t = ''R'' then 120 else 0)"

lemmas farm_demo_defs = farm_demo_host_def farm_demo_env_def farm_demo_start_def farm_demo_open_def farm_demo_first_def
  farm_demo_second_def farm_demo_left_def

lemmas farm_tx_defs = farm_tx_def farm_receive_def farm_execute_stake_def farm_unstake_and_claim_def farm_claim_reward_def
  farm_add_token_def add_pool_def farm_silent_def farm_phases handle_stake_def handle_claim_def handle_unstake_and_claim_def
  handle_stake_reply_def handle_claim_reward_reply_def handle_unstake_and_claim_reply_def
  query_pending_rewards_def query_stakable_token_def query_failed_def kv_list_def user_reward_info_def
  total_staked_in_pool_def user_staked_in_pool_def kv_del_def

lemmas farm_loop_defs = first_stake_step_def stake_step_def unstake_step_def claim_step_def count_reward_def raise_weight_def
  position_of_def second_at_def set_second_def weighted_reward_def split_reward_def decimal_from_ratio_def info_key_def
  dec_mul_def dec_checked_def dec_floor_def decimal_one_def

lemma farm_demo_apart [simp]: "apart farm_demo_addrs" "finite farm_demo_addrs"
  by (auto simp: apart_def farm_demo_addrs_def)

lemma farm_demo_instantiate: "farm_instantiate demo_platform \<lparr> sender = ''boss'' \<rparr> ''t'' = Ok farm_demo_start"
  by (simp add: farm_instantiate_def demo_platform_def farm_demo_start_def farm_demo_outer_def)

lemma farm_demo_adds:
  "farm_tx demo_platform (farm_demo_host []) (farm_demo_host []) farm_demo_start farm_demo_env \<lparr> sender = ''boss'' \<rparr>
     (Fm_add_token ''P'' ''flp'') = Ok (farm_demo_open, [])"
  by (simp add: farm_tx_defs farm_demo_defs then_reply_def)

lemma farm_demo_stakes:
  "farm_tx demo_platform (farm_demo_host []) (farm_demo_host []) farm_demo_open farm_demo_env \<lparr> sender = ''P'' \<rparr>
     (Fm_receive ''a'' 600 (Some None)) = Ok (farm_demo_first, [])"
  by (simp add: farm_tx_defs farm_loop_defs farm_demo_defs checked_int_defs Let_def seconds_def)

lemma farm_demo_stakes_more:
  "farm_tx demo_platform (farm_demo_host [(''R'', 60)]) (farm_demo_host []) farm_demo_first farm_demo_env \<lparr> sender = ''P'' \<rparr>
     (Fm_receive ''b'' 400 (Some None)) = Ok (farm_demo_second, [])"
  by (simp add: farm_tx_defs farm_loop_defs farm_demo_defs checked_int_defs Let_def seconds_def)

lemma farm_demo_leaves:
  "farm_tx demo_platform (farm_demo_host [(''R'', 160)]) (farm_demo_host []) farm_demo_second farm_demo_env \<lparr> sender = ''a'' \<rparr>
     (Fm_unstake ''P'' 200 None)
   = Ok (farm_demo_left, [Farm_transfer ''P'' ''a'' 200, Farm_transfer ''R'' ''a'' 96, Farm_restake ''P'' farm_demo_outer 800])"
  by (simp add: farm_tx_defs farm_loop_defs farm_demo_defs checked_int_defs Let_def)

lemma farm_demo_counters:
  "got_after (\<lambda>t. if t = ''R'' then 160 else 0) \<lparr> sender = ''a'' \<rparr> (Fm_unstake ''P'' 200 None) (\<lambda>p t. 0)
     = farm_demo_got"
  "spent_after farm_demo_second farm_demo_left [Farm_transfer ''P'' ''a'' 200, Farm_transfer ''R'' ''a'' 96, Farm_restake ''P'' farm_demo_outer 800]
     \<lparr> sender = ''a'' \<rparr> (Fm_unstake ''P'' 200 None) (\<lambda>p t. 0) = farm_demo_spent"
  by (intro ext; simp add: got_after_def spent_after_def on_target_def farm_reported_def farm_demo_got_def farm_demo_spent_def
      query_pending_rewards_def query_failed_def farm_demo_defs)+

lemma farm_demo_run: "farm_run farm_demo_addrs farm_demo_left farm_demo_got farm_demo_spent"
proof -
  have quiet: "on_target info msg (\<lambda>p t. 0) (\<lambda>t. 0) = (\<lambda>p t. 0)" for info msg
    by (intro ext) (simp add: on_target_def)
  have "farm_run farm_demo_addrs farm_demo_start (\<lambda>p t. 0) (\<lambda>p t. 0)"
    by (rule farm_run.farm_start [OF farm_demo_instantiate])
  from farm_run.farm_next [OF this farm_demo_adds, where pay = "\<lambda>t. 0"]
  have "farm_run farm_demo_addrs farm_demo_open (\<lambda>p t. 0) (\<lambda>p t. 0)"
    by (simp add: farm_clean_def farm_keeps_its_word_def counters_quiet)
  from farm_run.farm_next [OF this farm_demo_stakes, where pay = "\<lambda>t. 0"]
  have "farm_run farm_demo_addrs farm_demo_first (\<lambda>p t. 0) (\<lambda>p t. 0)"
    by (simp add: farm_clean_def farm_keeps_its_word_def got_after_def spent_after_def quiet farm_demo_defs farm_demo_addrs_def farm_reported_def
        farm_listed_def query_pending_rewards_def query_failed_def kv_list_def)
  from farm_run.farm_next [OF this farm_demo_stakes_more, where pay = "\<lambda>t. 0"]
  have "farm_run farm_demo_addrs farm_demo_second (\<lambda>p t. 0) (\<lambda>p t. 0)"
    by (simp add: farm_clean_def farm_keeps_its_word_def got_after_def spent_after_def quiet farm_demo_defs farm_demo_addrs_def farm_reported_def
        farm_listed_def query_pending_rewards_def query_failed_def kv_list_def)
  from farm_run.farm_next [OF this farm_demo_leaves, where pay = "\<lambda>t. if t = ''R'' then 160 else 0", unfolded farm_demo_counters]
  show ?thesis
    by (simp add: farm_clean_def farm_keeps_its_word_def farm_demo_defs farm_demo_addrs_def farm_reported_def
        farm_listed_def query_pending_rewards_def query_failed_def kv_list_def)
qed

section \<open>Properties of runs\<close>

text \<open>
  C24: Over an outer farm that keeps its word (\<open>farm_keeps_its_word\<close>), and for accounts, pools and tokens
  from a finite set of addresses none of which begins another (the keys are concatenations of them): for
  every pool and token of a run, what has been paid out and kept as fees, and what the accounts are still
  owed by their weights and pending rewards, never exceeds what the outer farm has transferred to the
  contract for the pool plus what it was last seen to hold ready, whatever was lost to rounding.
\<close>

theorem farm_rewards_are_covered:
  assumes "farm_run A s got spent" "apart A" "finite A" "p \<in> A" "t \<in> A"
  shows "decimal_one * spent p t + pool_owed A (fs_user_info s) (stakes_of s p) (weight_in (totals_in s p) t) p t
    \<le> decimal_one * (got p t + counted_pending s p t)"
  by (rule books_okD(3) [OF farm_ok_hyps(2) [OF assms(2,3) farm_run_ok [OF assms(1-3)] assms(4,4)] assms(5)])

lemma farm_rewards_are_covered_witness:
  "farm_run farm_demo_addrs farm_demo_left farm_demo_got farm_demo_spent \<and>
   decimal_one * 120 + pool_owed farm_demo_addrs (fs_user_info farm_demo_left) (stakes_of farm_demo_left ''P'')
     (decimal_one div 5) ''P'' ''R'' \<le> decimal_one * 160"
  using farm_demo_run farm_rewards_are_covered [OF farm_demo_run, of "''P''" "''R''"]
  by (simp add: farm_demo_addrs_def [symmetric] farm_demo_spent_def farm_demo_got_def counted_pending_def kv_list_def totals_in_def
      weight_in_def) (simp add: farm_demo_addrs_def farm_demo_defs)

text \<open>
  The contract never spends more of a token on the rewards and fees of a pool than the outer farm
  has paid for that pool: rewards that are only counted as pending are not paid out in advance.
\<close>

theorem farm_pays_what_it_receives:
  assumes "farm_run A s got spent" "apart A" "finite A" "p \<in> A" "t \<in> A"
  shows "spent p t \<le> got p t"
  by (rule farm_run_spends_received [OF assms])

lemma farm_pays_what_it_receives_witness:
  "farm_run farm_demo_addrs farm_demo_left farm_demo_got farm_demo_spent \<and> farm_demo_spent ''P'' ''R'' = 120 \<and>
   farm_demo_spent ''P'' ''R'' \<le> farm_demo_got ''P'' ''R'' \<and> farm_demo_got ''P'' ''R'' = 160"
  using farm_demo_run farm_pays_what_it_receives [OF farm_demo_run, of "''P''" "''R''"]
  by (simp add: farm_demo_spent_def farm_demo_got_def)

text \<open>
  The recorded stakes of the accounts in a pool always add up to the recorded total of the pool,
  which is the amount the contract unstakes and stakes again in the outer farm.
\<close>

theorem farm_stakes_add_up:
  assumes "farm_run A s got spent" "apart A" "finite A" "p \<in> A"
  shows "(\<Sum>a\<in>A. user_staked_in_pool s (a @ p)) = total_staked_in_pool s p"
  using farm_ok_hyps(4) [OF assms(2,3) farm_run_ok [OF assms(1-3)] assms(4,4)] by (simp add: stakes_of_def)

lemma farm_stakes_add_up_witness:
  "(\<Sum>a\<in>farm_demo_addrs. user_staked_in_pool farm_demo_left (a @ ''P'')) = 800"
  using farm_stakes_add_up [OF farm_demo_run, of "''P''"]
  by (simp add: farm_demo_addrs_def [symmetric]) (simp add: farm_demo_addrs_def farm_demo_left_def total_staked_in_pool_def)

section \<open>Properties of transactions\<close>

text \<open>
  A withdrawal that goes through pays the sender exactly the amount asked for, before anything
  else, lowers the stake and the total by it, and hands the whole rest of the pool back to the outer
  farm.  The amount must be positive and strictly below the stake: the last unit of a stake cannot be
  withdrawn.
\<close>

theorem unstaking_returns_the_amount:
  assumes "farm_tx P H1 H2 s e info (Fm_unstake p n start) = Ok (s', out)"
  shows "0 < n \<and> n < stakes_of s p (sender info) \<and> stakes_of s' p (sender info) = stakes_of s p (sender info) - n \<and>
    n \<le> total_staked_in_pool s p \<and> total_staked_in_pool s' p = total_staked_in_pool s p - n \<and>
    (\<exists>rewards. out = Farm_transfer p (sender info) n # rewards @
       (if n < total_staked_in_pool s p then [Farm_restake p (fc_loop_farm (fs_config s)) (total_staked_in_pool s p - n)] else []))"
  by (rule farm_unstake_tx [OF assms refl])
    (frule unstake_loop_frame, auto simp: stakes_of_def user_staked_in_pool_def total_staked_in_pool_def)

lemma unstaking_returns_the_amount_witness:
  "200 < stakes_of farm_demo_second ''P'' ''a'' \<and> stakes_of farm_demo_left ''P'' ''a'' = 400 \<and> total_staked_in_pool farm_demo_left ''P'' = 800"
  using unstaking_returns_the_amount [OF farm_demo_leaves]
  by (simp add: farm_demo_second_def farm_demo_left_def stakes_of_def user_staked_in_pool_def total_staked_in_pool_def)

text \<open>
  The fees of the treasury are locked: no transaction of any kind lowers the recorded amount of any
  token, and a request to withdraw it never goes through, whoever sends it and whatever is asked for.
\<close>

theorem farm_treasury_is_locked:
  assumes "farm_tx P H1 H2 s e info msg = Ok (s', out)"
  shows "kv_nat (fs_treasury s) t \<le> kv_nat (fs_treasury s') t \<and> msg \<noteq> Fm_withdraw_treasury u n"
proof -
  have "msg \<noteq> Fm_withdraw_treasury u n"
    using assms by (auto simp: farm_tx_def outcome_simps withdrawal_never_Ok)
  then show ?thesis using treasury_never_falls [OF assms] by simp
qed

lemma farm_treasury_is_locked_witness:
  "kv_nat (fs_treasury farm_demo_second) ''R'' \<le> kv_nat (fs_treasury farm_demo_left) ''R'' \<and> kv_nat (fs_treasury farm_demo_left) ''R'' = 24"
  using farm_treasury_is_locked [OF farm_demo_leaves, of "''R''"] by (simp add: farm_demo_left_def)

text \<open>
  After a stake has counted the pending rewards of a token, claims from the pool fail, for every
  account, until the outer farm reports more of that token.
\<close>

theorem stale_claims_fail:
  assumes "map_of (kv_list (fs_pending s) p) t = Some k" "amount_of (farm_reported H1 s e p) t \<le> k" "t \<in> set (farm_listed H2 s p)"
  shows "farm_tx P H1 H2 s e info (Fm_claim p start) \<noteq> Ok (s', out)"
proof
  assume tx: "farm_tx P H1 H2 s e info (Fm_claim p start) = Ok (s', out)"
  show False
  proof (rule farm_claim_tx [OF tx refl])
    fix st :: stakeable_token and act cur totals weights s1
    assume st: "map fd_token (sk_distribution st) = farm_listed H2 s p"
      and loop: "fold_ok (claim_step (sender info) p (farm_reported H1 s e p) (kv_list (fs_pending s) p) (total_staked_in_pool s p)
          (stakes_of s p (sender info))) (sk_distribution st) (totals_in s p, s\<lparr> fs_action := act, fs_claim := cur \<rparr>, [])
        = Ok ((totals, weights), s1, out)"
    obtain d where d: "d \<in> set (sk_distribution st)" "fd_token d = t"
      using assms(3) by (auto simp: st [symmetric])
    obtain u v where "claim_step (sender info) p (farm_reported H1 s e p) (kv_list (fs_pending s) p) (total_staked_in_pool s p)
        (stakes_of s p (sender info)) d u = Ok v"
      using fold_ok_reaches [OF loop d(1)] by blast
    then obtain m where "deduct_seen_strictly t (kv_list (fs_pending s) p) (amount_of (farm_reported H1 s e p) t) = (Ok m :: (std_error, nat) outcome)"
      by (cases u) (auto simp: claim_step_def d(2) Let_def outcome_simps)
    from deduct_seen_strictly_stale [OF this assms(1)] show False using assms(2) by simp
  qed
qed

lemma stale_claims_fail_witness:
  "farm_tx demo_platform (farm_demo_host [(''R'', 60)]) (farm_demo_host []) farm_demo_second farm_demo_env \<lparr> sender = ''a'' \<rparr>
     (Fm_claim ''P'' None) \<noteq> Ok (farm_demo_left, [])"
  by (rule stale_claims_fail [where t = "''R''" and k = 60])
    (simp_all add: farm_demo_defs farm_reported_def farm_listed_def query_pending_rewards_def query_failed_def kv_list_def)

end
