(* ===== verification/Synedex.thy ===== *)
theory Synedex
  imports Store Decimals
begin

text \<open>
  The package \<open>packages/synedex\<close> without its price oracle: assets and what is done with them, the
  helpers of a pair (spread check, shares of a pool, referral commission), fees, the set-up replies
  that fix the addresses of a pair, and the transfer of ownership in two steps.  Queries to other
  contracts are the record \<open>dex_host\<close>.  Letters are changed in case as in ASCII.
\<close>

section \<open>Assets\<close>

text \<open>\<open>AssetInfo\<close> before, \<open>AssetInfoValidated\<close> after validation.\<close>

datatype asset_info = Asset_token string | Asset_native string

datatype asset_valid = Valid_token addr | Valid_native string

record asset =
  as_info :: asset_info
  as_amount :: nat

record asset_validated =
  av_info :: asset_valid
  av_amount :: nat

text \<open>An asset with a 256-bit decimal amount, by its atomics.\<close>

record decimal_asset =
  ad_info :: asset_valid
  ad_amount :: nat

record token_facts =
  tf_symbol :: string
  tf_decimals :: nat
  tf_supply :: nat

record factory_config =
  fg_owner :: addr
  fg_max_commission :: decimal

text \<open>
  Queries: balances of coins and tokens, the information of a token, the configuration and the pairs
  to migrate of a factory; \<open>None\<close> for a failed query, or for a missing raw value.
\<close>

record dex_host =
  dh_bank :: "addr \<Rightarrow> string \<Rightarrow> nat option"
  dh_cw20 :: "addr \<Rightarrow> addr \<Rightarrow> nat option"
  dh_token :: "addr \<Rightarrow> token_facts option"
  dh_factory :: "addr \<Rightarrow> factory_config option"
  dh_to_migrate :: "addr \<Rightarrow> addr list option"
  dh_fee_info :: "addr \<Rightarrow> string \<Rightarrow> (addr option \<times> nat \<times> nat) option"

datatype asset_out =
    Cw20_transfer addr string nat
  | Cw20_transfer_from addr addr addr nat
  | Cw20_mint addr addr nat
  | Bank_send string string nat

definition ascii_lower :: "char \<Rightarrow> char" where
  "ascii_lower c = (if 65 \<le> (of_char c :: nat) \<and> (of_char c :: nat) \<le> 90 then char_of (of_char c + 32 :: nat) else c)"

definition ascii_upper :: "char \<Rightarrow> char" where
  "ascii_upper c = (if 97 \<le> (of_char c :: nat) \<and> (of_char c :: nat) \<le> 122 then char_of (of_char c - 32 :: nat) else c)"

primrec is_native :: "asset_valid \<Rightarrow> bool" where
  "is_native (Valid_token a) = False"
| "is_native (Valid_native d) = True"

primrec info_is_native :: "asset_info \<Rightarrow> bool" where
  "info_is_native (Asset_token a) = False"
| "info_is_native (Asset_native d) = True"

definition asset_is_native :: "asset \<Rightarrow> bool" where
  "asset_is_native a = info_is_native (as_info a)"

definition asset_validated_is_native :: "asset_validated \<Rightarrow> bool" where
  "asset_validated_is_native a = is_native (av_info a)"

primrec native_denom :: "asset_valid \<Rightarrow> string option" where
  "native_denom (Valid_token a) = None"
| "native_denom (Valid_native d) = Some d"

text \<open>The denomination is left out of the error text.\<close>

primrec validate_info :: "platform \<Rightarrow> asset_info \<Rightarrow> (std_error, asset_valid) outcome" where
  "validate_info P (Asset_token a) = and_then (addr_validate P a) (\<lambda>x. Ok (Valid_token x))"
| "validate_info P (Asset_native d) =
     (if take 4 d \<noteq> ''ibc/'' \<and> d \<noteq> map ascii_lower d then Err (Generic_err ''Non-IBC token denom should be lowercase'')
      else Ok (Valid_native d))"

definition validate_asset :: "platform \<Rightarrow> asset \<Rightarrow> (std_error, asset_validated) outcome" where
  "validate_asset P a = and_then (validate_info P (as_info a)) (\<lambda>i. Ok \<lparr> av_info = i, av_amount = as_amount a \<rparr>)"

primrec info_of_valid :: "asset_valid \<Rightarrow> asset_info" where
  "info_of_valid (Valid_token a) = Asset_token a"
| "info_of_valid (Valid_native d) = Asset_native d"

definition asset_of_valid :: "asset_validated \<Rightarrow> asset" where
  "asset_of_valid a = \<lparr> as_info = info_of_valid (av_info a), as_amount = av_amount a \<rparr>"

text \<open>The bytes of an asset, and its text.\<close>

primrec info_bytes :: "asset_info \<Rightarrow> string" where
  "info_bytes (Asset_token a) = a"
| "info_bytes (Asset_native d) = d"

primrec valid_bytes :: "asset_valid \<Rightarrow> string" where
  "valid_bytes (Valid_token a) = a"
| "valid_bytes (Valid_native d) = d"

definition asset_into_msg :: "asset_validated \<Rightarrow> string \<Rightarrow> asset_out" where
  "asset_into_msg a recipient =
     (case av_info a of
        Valid_token t \<Rightarrow> Cw20_transfer t recipient (av_amount a)
      | Valid_native d \<Rightarrow> Bank_send recipient d (av_amount a))"

text \<open>The coins sent along with a message are \<open>funds\<close>.\<close>

definition balance_mismatch :: std_error where
  "balance_mismatch = Generic_err ''Native token balance mismatch between the argument and the transferred''"

definition assert_sent_native :: "(string \<times> nat) list \<Rightarrow> asset_validated \<Rightarrow> (std_error, unit) outcome" where
  "assert_sent_native funds a =
     (case av_info a of
        Valid_native d \<Rightarrow>
          (case map_of funds d of
             Some n \<Rightarrow> if av_amount a = n then Ok () else Err balance_mismatch
           | None \<Rightarrow> if av_amount a = 0 then Ok () else Err balance_mismatch)
      | Valid_token t \<Rightarrow> Ok ())"

definition receive_asset ::
  "env \<Rightarrow> message_info \<Rightarrow> (string \<times> nat) list \<Rightarrow> asset_validated \<Rightarrow> asset_out list
     \<Rightarrow> (std_error, asset_out list) outcome"
where
  "receive_asset e info funds a out =
     (if av_amount a = 0 then Ok out
      else case av_info a of
        Valid_native d \<Rightarrow> and_then (assert_sent_native funds a) (\<lambda>_. Ok out)
      | Valid_token t \<Rightarrow> Ok (out @ [Cw20_transfer_from t (sender info) (contract_address e) (av_amount a)]))"

primrec same_asset :: "asset_valid \<Rightarrow> asset_valid \<Rightarrow> bool" where
  "same_asset (Valid_native d) y = (case y of Valid_native d' \<Rightarrow> d = d' | Valid_token _ \<Rightarrow> False)"
| "same_asset (Valid_token a) y = (case y of Valid_token a' \<Rightarrow> a = a' | Valid_native _ \<Rightarrow> False)"

text \<open>The parts of a storage key: a type tag and the text.\<close>

primrec asset_key :: "asset_valid \<Rightarrow> nat \<times> string" where
  "asset_key (Valid_native d) = (0, d)"
| "asset_key (Valid_token a) = (1, a)"

definition asset_from_key :: "nat \<times> string \<Rightarrow> (std_error, asset_valid) outcome" where
  "asset_from_key k =
     (if fst k = 0 then Ok (Valid_native (snd k))
      else if fst k = 1 then Ok (Valid_token (snd k))
      else Err (Generic_err ''Invalid AssetInfoValidated key, invalid type''))"

definition addr_opt_validate :: "platform \<Rightarrow> string option \<Rightarrow> (std_error, addr option) outcome" where
  "addr_opt_validate P a = traverse_opt (addr_validate P) a"

definition native_asset :: "string \<Rightarrow> nat \<Rightarrow> asset_validated" where
  "native_asset d n = \<lparr> av_info = Valid_native d, av_amount = n \<rparr>"

definition token_asset :: "addr \<Rightarrow> nat \<Rightarrow> asset_validated" where
  "token_asset a n = \<lparr> av_info = Valid_token a, av_amount = n \<rparr>"

definition with_balance :: "asset_valid \<Rightarrow> nat \<Rightarrow> asset_validated" where
  "with_balance i n = \<lparr> av_info = i, av_amount = n \<rparr>"

definition check_swap_parameters :: "nat list \<Rightarrow> nat \<Rightarrow> (std_error, unit) outcome" where
  "check_swap_parameters pools n =
     (if \<exists>p\<in>set pools. p = 0 then Err (Generic_err ''One of the pools is empty'')
      else if n = 0 then Err (Generic_err ''Swap amount must not be zero'')
      else Ok ())"

section \<open>Queries\<close>

definition native_precision :: nat where "native_precision = 6"

definition query_bank :: "dex_host \<Rightarrow> addr \<Rightarrow> string \<Rightarrow> (std_error, nat) outcome" where
  "query_bank H a d = query_failed (dh_bank H a d)"

text \<open>A failed query for the balance of a token counts as zero.\<close>

definition query_token_balance :: "dex_host \<Rightarrow> addr \<Rightarrow> addr \<Rightarrow> (std_error, nat) outcome" where
  "query_token_balance H t a = Ok (case dh_cw20 H t a of Some n \<Rightarrow> n | None \<Rightarrow> 0)"

definition query_token_symbol :: "dex_host \<Rightarrow> addr \<Rightarrow> (std_error, string) outcome" where
  "query_token_symbol H t = and_then (query_failed (dh_token H t)) (\<lambda>i. Ok (tf_symbol i))"

definition query_supply :: "dex_host \<Rightarrow> addr \<Rightarrow> (std_error, nat) outcome" where
  "query_supply H t = and_then (query_failed (dh_token H t)) (\<lambda>i. Ok (tf_supply i))"

primrec query_token_precision :: "dex_host \<Rightarrow> asset_valid \<Rightarrow> (std_error, nat) outcome" where
  "query_token_precision H (Valid_native d) = Ok native_precision"
| "query_token_precision H (Valid_token t) = and_then (query_failed (dh_token H t)) (\<lambda>i. Ok (tf_decimals i))"

definition query_factory_config :: "dex_host \<Rightarrow> addr \<Rightarrow> (std_error, factory_config) outcome" where
  "query_factory_config H f = query_failed (dh_factory H f)"

definition query_asset_balance :: "dex_host \<Rightarrow> asset_valid \<Rightarrow> addr \<Rightarrow> (std_error, nat) outcome" where
  "query_asset_balance H i a =
     (case i of Valid_token t \<Rightarrow> query_token_balance H t a | Valid_native d \<Rightarrow> query_bank H a d)"

definition asset_decimals :: "dex_host \<Rightarrow> asset_valid \<Rightarrow> (std_error, nat) outcome" where
  "asset_decimals H i =
     (case i of Valid_native d \<Rightarrow> Ok native_precision
      | Valid_token t \<Rightarrow> and_then (query_failed (dh_token H t)) (\<lambda>f. Ok (tf_decimals f)))"

definition query_pool :: "dex_host \<Rightarrow> asset_info \<Rightarrow> addr \<Rightarrow> (std_error, nat) outcome" where
  "query_pool H i a =
     (case i of Asset_token t \<Rightarrow> query_token_balance H t a | Asset_native d \<Rightarrow> query_bank H a d)"

definition migration_check :: "dex_host \<Rightarrow> addr \<Rightarrow> addr \<Rightarrow> bool" where
  "migration_check H factory pair = (case dh_to_migrate H factory of Some pairs \<Rightarrow> pair \<in> set pairs | None \<Rightarrow> False)"

text \<open>The name of a liquidity token: four letters of each symbol, joined, in upper case.\<close>

fun join_dash :: "string list \<Rightarrow> string" where
  "join_dash [] = []"
| "join_dash [x] = x"
| "join_dash (x # xs) = x @ ''-'' @ join_dash xs"

definition short_symbol :: "dex_host \<Rightarrow> asset_valid \<Rightarrow> (std_error, string) outcome" where
  "short_symbol H i =
     (case i of Valid_native d \<Rightarrow> Ok (take 4 d)
      | Valid_token t \<Rightarrow> and_then (query_token_symbol H t) (\<lambda>s. Ok (take 4 s)))"

definition format_lp_token_name :: "dex_host \<Rightarrow> asset_valid list \<Rightarrow> (std_error, string) outcome" where
  "format_lp_token_name H infos =
     and_then (map_ok (short_symbol H) infos) (\<lambda>ss. Ok (map ascii_upper (join_dash ss @ ''-LP'')))"

section \<open>256-bit decimals\<close>

definition u256_lim :: nat where "u256_lim = 2 ^ 256"

definition dec256_places :: nat where "dec256_places = 18"

text \<open>\<open>Decimal256::from_atomics\<close>: with more than 18 places the surplus digits are cut off.\<close>

definition dec256_with_precision :: "nat \<Rightarrow> nat \<Rightarrow> (std_error, nat) outcome" where
  "dec256_with_precision n places =
     (if places < dec256_places
      then (if n * 10 ^ (dec256_places - places) < u256_lim then Ok (n * 10 ^ (dec256_places - places))
            else Err (Generic_err ''Decimal256 range exceeded''))
      else Ok (n div 10 ^ (places - dec256_places)))"

definition to_decimal_asset :: "asset_validated \<Rightarrow> nat \<Rightarrow> (std_error, decimal_asset) outcome" where
  "to_decimal_asset a places =
     and_then (dec256_with_precision (av_amount a) places) (\<lambda>d. Ok \<lparr> ad_info = av_info a, ad_amount = d \<rparr>)"

definition dec256_to_uint256 :: "nat \<Rightarrow> nat" where
  "dec256_to_uint256 d = d div decimal_one"

text \<open>More than 18 places underflow.\<close>

definition dec256_scale :: "nat \<Rightarrow> ('e, nat) outcome" where
  "dec256_scale places = (if places \<le> dec256_places then Ok (10 ^ (dec256_places - places)) else Panic)"

definition to_uint256_with_precision :: "nat \<Rightarrow> nat \<Rightarrow> (std_error, nat) outcome" where
  "to_uint256_with_precision d places = and_then (dec256_scale places) (\<lambda>k. Ok (d div k))"

definition to_uint128_with_precision :: "nat \<Rightarrow> nat \<Rightarrow> (std_error, nat) outcome" where
  "to_uint128_with_precision d places =
     and_then (dec256_scale places) (\<lambda>k.
     if d div k < u128_lim then Ok (d div k) else Err (Generic_err ''Error converting''))"

definition dec256_from_integer :: "nat \<Rightarrow> ('e, nat) outcome" where
  "dec256_from_integer n = (if n * decimal_one < u256_lim then Ok (n * decimal_one) else Panic)"

definition dec256_checked_multiply_ratio :: "nat \<Rightarrow> nat \<Rightarrow> nat \<Rightarrow> (std_error, nat) outcome" where
  "dec256_checked_multiply_ratio d n m =
     (if m = 0 \<or> \<not> d * n div m < u256_lim then Err (Generic_err ''CheckedMultiplyRatioError'') else Ok (d * n div m))"

section \<open>Pairs\<close>

datatype pair_error =
    Pair_std std_error
  | Pair_parse
  | Unknown_reply nat
  | Pair_unauthorized
  | Addr_already_set string
  | Max_spread_assertion
  | Allowed_spread_assertion
  | Doubling_assets
  | Referral_commission_too_high
  | Invalid_fee_bps

definition check_asset_infos :: "platform \<Rightarrow> asset_info list \<Rightarrow> (pair_error, asset_valid list) outcome" where
  "check_asset_infos P infos =
     (if \<not> distinct infos then Err Doubling_assets
      else map_err Pair_std (map_ok (validate_info P) infos))"

definition check_assets :: "platform \<Rightarrow> asset list \<Rightarrow> (pair_error, asset_validated list) outcome" where
  "check_assets P assets =
     (if \<not> distinct (map as_info assets) then Err Doubling_assets
      else map_err Pair_std (map_ok (validate_asset P) assets))"

definition check_cw20_in_pool :: "asset_valid list \<Rightarrow> addr \<Rightarrow> (pair_error, unit) outcome" where
  "check_cw20_in_pool infos who = (if Valid_token who \<in> set infos then Ok () else Err Pair_unauthorized)"

definition default_slippage :: decimal where "default_slippage = 5 * 10 ^ 15"
definition max_allowed_slippage :: decimal where "max_allowed_slippage = 5 * 10 ^ 17"

text \<open>\<open>Decimal::inv\<close>.\<close>

definition dec_inv :: "decimal \<Rightarrow> decimal option" where
  "dec_inv d = (if d = 0 then None else Some (decimal_one * decimal_one div d))"

definition assert_max_spread ::
  "decimal option \<Rightarrow> decimal option \<Rightarrow> nat \<Rightarrow> nat \<Rightarrow> nat \<Rightarrow> (pair_error, unit) outcome"
where
  "assert_max_spread belief limit offer return_amount spread =
     (let m = (case limit of Some d \<Rightarrow> d | None \<Rightarrow> default_slippage) in
      if m > max_allowed_slippage then Err Allowed_spread_assertion
      else case belief of
        Some price \<Rightarrow>
          and_then (ok_or (Pair_std (Generic_err ''Invalid belief_price. Check the input values.'')) (dec_inv price)) (\<lambda>inv.
          and_then (u128_mul_decimal offer inv) (\<lambda>expected.
          if return_amount < expected then
            and_then (decimal_from_ratio (expected - return_amount) expected) (\<lambda>q.
            if q > m then Err Max_spread_assertion else Ok ())
          else Ok ()))
      | None \<Rightarrow>
          and_then (u128_add return_amount spread) (\<lambda>n.
          and_then (decimal_from_ratio spread n) (\<lambda>q.
          if q > m then Err Max_spread_assertion else Ok ())))"

definition mint_token_message :: "addr \<Rightarrow> addr \<Rightarrow> nat \<Rightarrow> asset_out list" where
  "mint_token_message t recipient n = [Cw20_mint t recipient n]"

definition get_share_in_assets ::
  "asset_validated list \<Rightarrow> nat \<Rightarrow> nat \<Rightarrow> ('e, asset_validated list) outcome"
where
  "get_share_in_assets pools amount total_share =
     and_then (if total_share \<noteq> 0 then decimal_from_ratio amount total_share else Ok 0) (\<lambda>ratio.
     map_ok (\<lambda>p. and_then (u128_mul_decimal (av_amount p) ratio) (\<lambda>n. Ok \<lparr> av_info = av_info p, av_amount = n \<rparr>)) pools)"

section \<open>Referral commission\<close>

text \<open>What is left of the offer, and the commission.\<close>

definition take_referral ::
  "factory_config \<Rightarrow> decimal option \<Rightarrow> asset_validated \<Rightarrow> (pair_error, asset_validated \<times> nat) outcome"
where
  "take_referral F commission offer =
     (if commission = Some 0 then Ok (offer, 0)
      else let r = (case commission of Some d \<Rightarrow> d | None \<Rightarrow> fg_max_commission F) in
      if r > fg_max_commission F then Err Referral_commission_too_high
      else
      and_then (u128_mul_decimal (av_amount offer) r) (\<lambda>c.
      and_then (u128_sub (av_amount offer) c) (\<lambda>rest.
      Ok (offer\<lparr> av_amount := rest \<rparr>, c))))"

definition handle_referral ::
  "factory_config \<Rightarrow> addr option \<Rightarrow> decimal option \<Rightarrow> asset_validated \<Rightarrow> asset_out list
     \<Rightarrow> (pair_error, asset_validated \<times> asset_out list) outcome"
where
  "handle_referral F who commission offer out =
     (case who of
        None \<Rightarrow> Ok (offer, out)
      | Some a \<Rightarrow>
          and_then (take_referral F commission offer) (\<lambda>(offer', c).
          Ok (offer', if c = 0 then out else out @ [asset_into_msg (with_balance (av_info offer') c) a])))"

text \<open>
  The inverse: the offer is raised so that taking the commission gives it back.  The quotient is
  formed in 256 bits and its range checked at the end.
\<close>

definition referral_on_top :: "nat \<Rightarrow> decimal \<Rightarrow> ('e, nat) outcome" where
  "referral_on_top n r =
     (if decimal_one \<le> r then Panic
      else let c = (n * decimal_one * r div decimal_one) * decimal_one div (decimal_one - r) div decimal_one in
      if c < u128_lim then Ok c else Panic)"

definition add_referral ::
  "dex_host \<Rightarrow> addr \<Rightarrow> bool \<Rightarrow> decimal option \<Rightarrow> asset_validated \<Rightarrow> (pair_error, asset_validated \<times> nat) outcome"
where
  "add_referral H factory referral commission offer =
     (if \<not> referral \<or> commission = Some 0 then Ok (offer, 0)
      else
      and_then (map_err Pair_std (query_factory_config H factory)) (\<lambda>F.
      let r = (case commission of Some d \<Rightarrow> d | None \<Rightarrow> fg_max_commission F) in
      if r > fg_max_commission F then Err Referral_commission_too_high
      else
      and_then (referral_on_top (av_amount offer) r) (\<lambda>c.
      and_then (u128_add (av_amount offer) c) (\<lambda>n.
      Ok (offer\<lparr> av_amount := n \<rparr>, c)))))"

section \<open>Fees\<close>

record fee_config =
  fe_total_bps :: nat
  fe_protocol_bps :: nat

definition valid_fee_bps :: "fee_config \<Rightarrow> bool" where
  "valid_fee_bps f \<longleftrightarrow> fe_total_bps f \<le> 10000 \<and> fe_protocol_bps f \<le> 10000"

definition total_fee_rate :: "fee_config \<Rightarrow> ('e, decimal) outcome" where
  "total_fee_rate f = decimal_from_ratio (fe_total_bps f) 10000"

definition protocol_fee_rate :: "fee_config \<Rightarrow> ('e, decimal) outcome" where
  "protocol_fee_rate f = decimal_from_ratio (fe_protocol_bps f) 10000"

definition validate_fees :: "fee_config \<Rightarrow> (pair_error, unit) outcome" where
  "validate_fees f = ensure (valid_fee_bps f) Invalid_fee_bps"

record fee_info =
  fi_address :: "addr option"
  fi_total_rate :: decimal
  fi_protocol_rate :: decimal

definition query_fee_info :: "dex_host \<Rightarrow> addr \<Rightarrow> string \<Rightarrow> (std_error, fee_info) outcome" where
  "query_fee_info H factory kind =
     and_then (query_failed (dh_fee_info H factory kind)) (\<lambda>(a, t, p).
     and_then (decimal_from_ratio t 10000) (\<lambda>tr.
     and_then (decimal_from_ratio p 10000) (\<lambda>pr.
     Ok \<lparr> fi_address = a, fi_total_rate = tr, fi_protocol_rate = pr \<rparr>)))"

section \<open>Setting up a pair\<close>

record stake_config =
  kc_code_id :: nat
  kc_tokens_per_power :: nat
  kc_min_bond :: nat
  kc_unbonding :: "nat list"
  kc_max_distributions :: nat

record partial_stake_config =
  pc_code_id :: "nat option"
  pc_tokens_per_power :: "nat option"
  pc_min_bond :: "nat option"
  pc_unbonding :: "nat list option"
  pc_max_distributions :: "nat option"

definition given :: "'a option \<Rightarrow> 'a \<Rightarrow> 'a" where
  "given x y = (case x of Some z \<Rightarrow> z | None \<Rightarrow> y)"

text \<open>\<open>combine_with\<close> and \<open>update\<close> of the default configuration do the same.\<close>

definition combine_with :: "stake_config \<Rightarrow> partial_stake_config \<Rightarrow> stake_config" where
  "combine_with d p = \<lparr> kc_code_id = given (pc_code_id p) (kc_code_id d),
     kc_tokens_per_power = given (pc_tokens_per_power p) (kc_tokens_per_power d),
     kc_min_bond = given (pc_min_bond p) (kc_min_bond d), kc_unbonding = given (pc_unbonding p) (kc_unbonding d),
     kc_max_distributions = given (pc_max_distributions p) (kc_max_distributions d) \<rparr>"

record pair_info =
  pi_assets :: "asset_valid list"
  pi_contract :: addr
  pi_liquidity :: addr
  pi_staking :: addr
  pi_fee :: fee_config

text \<open>The instantiations a pair asks for: of its liquidity token, and of the staking contract.\<close>

datatype pair_out =
    Instantiate_lp addr nat string addr
  | Instantiate_stake addr nat addr stake_config addr

definition create_lp_token ::
  "dex_host \<Rightarrow> env \<Rightarrow> nat \<Rightarrow> asset_valid list \<Rightarrow> addr \<Rightarrow> (std_error, pair_out) outcome"
where
  "create_lp_token H e code infos factory =
     and_then (format_lp_token_name H infos) (\<lambda>name.
     and_then (query_factory_config H factory) (\<lambda>F.
     Ok (Instantiate_lp (fg_owner F) code name (contract_address e))))"

definition into_init_msg :: "dex_host \<Rightarrow> stake_config \<Rightarrow> string \<Rightarrow> string \<Rightarrow> (std_error, pair_out) outcome" where
  "into_init_msg H k lp factory =
     and_then (query_factory_config H factory) (\<lambda>F.
     Ok (Instantiate_stake (fg_owner F) (kc_code_id k) lp k factory))"

definition lp_token_reply_id :: nat where "lp_token_reply_id = 1"
definition stake_reply_id :: nat where "stake_reply_id = 2"

definition instantiate_lp_token_reply ::
  "platform \<Rightarrow> dex_host \<Rightarrow> stake_config option \<Rightarrow> string \<Rightarrow> addr \<Rightarrow> pair_info
     \<Rightarrow> (pair_error, pair_info \<times> pair_out list) outcome"
where
  "instantiate_lp_token_reply P H tmp res factory p =
     (if pi_liquidity p \<noteq> [] then Err (Addr_already_set ''liquidity_token'')
      else
      and_then (map_err Pair_std (addr_validate P res)) (\<lambda>a.
      and_then (ok_or (Pair_std (Not_found ''StakeConfig'')) tmp) (\<lambda>k.
      and_then (map_err Pair_std (into_init_msg H k res factory)) (\<lambda>m.
      Ok (p\<lparr> pi_liquidity := a \<rparr>, [m])))))"

definition instantiate_staking_reply ::
  "platform \<Rightarrow> string \<Rightarrow> pair_info \<Rightarrow> (pair_error, pair_info \<times> pair_out list) outcome"
where
  "instantiate_staking_reply P res p =
     (if pi_staking p \<noteq> [] then Err (Addr_already_set ''staking'')
      else and_then (map_err Pair_std (addr_validate P res)) (\<lambda>a. Ok (p\<lparr> pi_staking := a \<rparr>, [])))"

text \<open>\<open>parsed\<close> is the address in the reply, \<open>None\<close> when it cannot be parsed.\<close>

definition pair_handle_reply ::
  "platform \<Rightarrow> dex_host \<Rightarrow> stake_config option \<Rightarrow> nat \<Rightarrow> string option \<Rightarrow> addr \<Rightarrow> pair_info
     \<Rightarrow> (pair_error, pair_info \<times> pair_out list) outcome"
where
  "pair_handle_reply P H tmp rid parsed factory p =
     and_then (ok_or Pair_parse parsed) (\<lambda>res.
     if rid = lp_token_reply_id then instantiate_lp_token_reply P H tmp res factory p
     else if rid = stake_reply_id then instantiate_staking_reply P res p
     else Err (Unknown_reply rid))"

definition query_pools :: "dex_host \<Rightarrow> pair_info \<Rightarrow> addr \<Rightarrow> (std_error, asset_validated list) outcome" where
  "query_pools H p a =
     map_ok (\<lambda>i. and_then (query_asset_balance H i a) (\<lambda>n. Ok \<lparr> av_info = i, av_amount = n \<rparr>)) (pi_assets p)"

definition query_pools_decimal :: "dex_host \<Rightarrow> pair_info \<Rightarrow> addr \<Rightarrow> (std_error, decimal_asset list) outcome" where
  "query_pools_decimal H p a =
     map_ok (\<lambda>i. and_then (query_asset_balance H i a) (\<lambda>n.
                 and_then (asset_decimals H i) (\<lambda>k.
                 and_then (case dec256_with_precision n k of Err x \<Rightarrow> Err (Generic_err ''Decimal256RangeExceeded'') | r \<Rightarrow> r) (\<lambda>d.
                 Ok \<lparr> ad_info = i, ad_amount = d \<rparr>)))) (pi_assets p)"

section \<open>Ownership\<close>

definition max_proposal_ttl :: nat where "max_proposal_ttl = 1209600"

record ownership_proposal =
  op_owner :: addr
  op_ttl :: nat

definition propose_new_owner ::
  "platform \<Rightarrow> message_info \<Rightarrow> env \<Rightarrow> string \<Rightarrow> nat \<Rightarrow> addr \<Rightarrow> (std_error, ownership_proposal) outcome"
where
  "propose_new_owner P info e new_owner expires_in owner =
     (if sender info \<noteq> owner then Err (Generic_err ''Unauthorized'')
      else
      and_then (addr_validate P new_owner) (\<lambda>a.
      if a = owner then Err (Generic_err ''New owner cannot be same'')
      else if max_proposal_ttl < expires_in then Err (Generic_err ''Parameter expires_in cannot be higher than 1209600'')
      else and_then (u64_add (seconds (block e)) expires_in) (\<lambda>ttl. Ok \<lparr> op_owner = a, op_ttl = ttl \<rparr>)))"

definition drop_ownership_proposal :: "message_info \<Rightarrow> addr \<Rightarrow> (std_error, ownership_proposal option) outcome" where
  "drop_ownership_proposal info owner = (if sender info \<noteq> owner then Err (Generic_err ''Unauthorized'') else Ok None)"

text \<open>The callback \<open>cb\<close> changes the rest of the state.\<close>

definition claim_ownership ::
  "message_info \<Rightarrow> env \<Rightarrow> ownership_proposal option \<Rightarrow> (addr \<Rightarrow> 's \<Rightarrow> (std_error, 's) outcome) \<Rightarrow> 's
     \<Rightarrow> (std_error, ownership_proposal option \<times> 's) outcome"
where
  "claim_ownership info e proposal cb s =
     (case proposal of
        None \<Rightarrow> Err (Generic_err ''Ownership proposal not found'')
      | Some p \<Rightarrow>
          if sender info \<noteq> op_owner p then Err (Generic_err ''Unauthorized'')
          else if seconds (block e) > op_ttl p then Err (Generic_err ''Ownership proposal expired'')
          else and_then (cb (op_owner p) s) (\<lambda>s'. Ok (None, s')))"

definition validate_addresses :: "platform \<Rightarrow> string list \<Rightarrow> (std_error, addr list) outcome" where
  "validate_addresses P admins = map_ok (addr_validate P) admins"

end
