(* ===== verification/Synedex_Proofs.thy ===== *)
theory Synedex_Proofs
  imports Synedex
begin

text \<open>
  The helpers of a pair: referral commissions, shares of a pool, the spread check; and the ownership
  that changes hands in two steps.
\<close>

section \<open>Referral commission\<close>

text \<open>The commission on top of \<open>n\<close> is the commission of the raised offer, exactly.\<close>

lemma referral_on_top_Ok:
  assumes "referral_on_top n r = Ok c"
  shows "r < decimal_one" "c < u128_lim" "(n + c) * r div decimal_one = c"
proof -
  show r: "r < decimal_one" using assms by (simp add: referral_on_top_def split: if_splits)
  have c: "c = n * decimal_one * r div decimal_one * decimal_one div (decimal_one - r) div decimal_one" "c < u128_lim"
    using assms by (auto simp: referral_on_top_def Let_def split: if_splits)
  have "n * decimal_one * r div decimal_one = n * r"
    using nonzero_mult_div_cancel_left [of decimal_one "n * r"] by (simp add: ac_simps)
  then have "c = n * r * decimal_one div ((decimal_one - r) * decimal_one)"
    using c(1) by (simp add: div_mult2_eq)
  then have q: "c = n * r div (decimal_one - r)" by simp
  show "c < u128_lim" by (rule c)
  have low: "c * (decimal_one - r) \<le> n * r" unfolding q by simp
  have high: "n * r < (c + 1) * (decimal_one - r)"
    unfolding q using dividend_less_div_times [of "decimal_one - r" "n * r"] r by (simp add: algebra_simps)
  define k where "k = decimal_one - r"
  have k: "decimal_one = k + r" using r by (simp add: k_def)
  have "c * decimal_one \<le> (n + c) * r" using low unfolding k_def [symmetric] k by (simp add: algebra_simps)
  moreover have "(n + c) * r < (c + 1) * decimal_one"
    using high unfolding k_def [symmetric] k by (simp add: algebra_simps)
  ultimately show "(n + c) * r div decimal_one = c" by (intro div_nat_eqI) (simp_all add: ac_simps)
qed

lemma add_referral_take:
  assumes "add_referral H factory True commission offer = Ok (raised, c)" "dh_factory H factory = Some F"
  shows "take_referral F commission raised = Ok (offer, c)"
proof (cases "commission = Some 0")
  case True
  then show ?thesis using assms by (simp add: add_referral_def take_referral_def)
next
  case False
  define r where "r = (case commission of Some d \<Rightarrow> d | None \<Rightarrow> fg_max_commission F)"
  have "\<not> r > fg_max_commission F" and top: "referral_on_top (av_amount offer) r = (Ok c :: (pair_error, nat) outcome)"
    and raised: "raised = offer\<lparr> av_amount := av_amount offer + c \<rparr>"
    using assms False by (auto simp: add_referral_def query_factory_config_def query_failed_def r_def Let_def outcome_simps arith_simps)
  then show ?thesis
    using False referral_on_top_Ok [OF top] by (simp add: take_referral_def r_def [symmetric] Let_def u128_mul_decimal_def
        u128_multiply_ratio_def u128_sub_def)
qed

section \<open>Shares of a pool\<close>

lemma share_amounts:
  assumes "get_share_in_assets pools n total_share = (Ok out :: ('e, asset_validated list) outcome)" "i < length pools"
  shows "av_amount (out ! i) * total_share \<le> av_amount (pools ! i) * n \<and> (total_share = 0 \<longrightarrow> av_amount (out ! i) = 0)"
proof -
  define ratio where "ratio = (if total_share \<noteq> 0 then n * decimal_one div total_share else 0)"
  have out: "map_ok (\<lambda>p. and_then (u128_mul_decimal (av_amount p) ratio) (\<lambda>n. Ok \<lparr> av_info = av_info p, av_amount = n \<rparr>)) pools
      = (Ok out :: ('e, asset_validated list) outcome)"
    using assms(1) by (auto simp: get_share_in_assets_def outcome_simps decimal_from_ratio_def arith_simps ratio_def split: if_splits)
  have "map (\<lambda>p. and_then (u128_mul_decimal (av_amount p) ratio) (\<lambda>n. Ok \<lparr> av_info = av_info p, av_amount = n \<rparr>)) pools ! i
      = map (Ok :: asset_validated \<Rightarrow> ('e, asset_validated) outcome) out ! i"
    using out by (simp add: map_ok_Ok_iff)
  then have share: "av_amount (out ! i) = av_amount (pools ! i) * ratio div decimal_one"
    using assms(2) map_ok_Ok_length [OF out] by (auto simp: outcome_simps arith_simps dest!: arg_cong [where f = av_amount])
  have "av_amount (out ! i) * decimal_one \<le> av_amount (pools ! i) * ratio" unfolding share by simp
  then have "av_amount (out ! i) * decimal_one * total_share \<le> av_amount (pools ! i) * (ratio * total_share)"
    by (metis mult.assoc mult_le_mono1)
  also have "\<dots> \<le> av_amount (pools ! i) * (n * decimal_one)"
    by (intro mult_le_mono2) (simp add: ratio_def)
  finally have "decimal_one * (av_amount (out ! i) * total_share) \<le> decimal_one * (av_amount (pools ! i) * n)"
    by (simp add: ac_simps)
  then show ?thesis using share by (simp add: ratio_def)
qed

section \<open>Ownership\<close>

text \<open>
  A contract with an owner, read from its state by \<open>owner\<close>, and a pending proposal.  The contract passes
  its owner to the operations, and its callback \<open>cb\<close> to \<open>claim_ownership\<close>; every other operation leaves
  the owner and the proposal alone.  The events, latest first, record who sent which request and when.
\<close>

datatype own_event = Proposed addr string nat nat | Dropped addr | Claimed addr nat

inductive own_run ::
  "platform \<Rightarrow> ('c \<Rightarrow> addr) \<Rightarrow> (addr \<Rightarrow> 'c \<Rightarrow> (std_error, 'c) outcome) \<Rightarrow> own_event list \<Rightarrow> 'c
     \<Rightarrow> ownership_proposal option \<Rightarrow> bool"
  for P owner cb
where
  own_start: "own_run P owner cb [] c None"
| own_other: "own_run P owner cb evs c proposal \<Longrightarrow> owner c' = owner c \<Longrightarrow> own_run P owner cb evs c' proposal"
| own_propose: "own_run P owner cb evs c old \<Longrightarrow>
    propose_new_owner P info e new_owner expires_in (owner c) = Ok p \<Longrightarrow>
    own_run P owner cb (Proposed (sender info) new_owner (seconds (block e)) expires_in # evs) c (Some p)"
| own_drop: "own_run P owner cb evs c old \<Longrightarrow> drop_ownership_proposal info (owner c) = Ok none \<Longrightarrow>
    own_run P owner cb (Dropped (sender info) # evs) c none"
| own_claim: "own_run P owner cb evs c proposal \<Longrightarrow> claim_ownership info e proposal cb c = Ok (none, c') \<Longrightarrow>
    own_run P owner cb (Claimed (sender info) (seconds (block e)) # evs) c' none"

lemma claim_ownership_Ok:
  assumes "claim_ownership info e proposal cb c = Ok (none, c')"
  shows "none = None" "cb (sender info) c = Ok c'"
    "\<exists>p. proposal = Some p \<and> op_owner p = sender info \<and> seconds (block e) \<le> op_ttl p"
  using assms by (auto simp: claim_ownership_def outcome_simps split: option.splits if_splits)

text \<open>A pending proposal was made by the owner, and nothing has happened to it since.\<close>

lemma own_run_proposal:
  "own_run P owner cb evs c proposal \<Longrightarrow> proposal = Some p \<Longrightarrow>
    \<exists>name t n rest. evs = Proposed (owner c) name t n # rest \<and> addr_validate P name = Ok (op_owner p) \<and>
      op_owner p \<noteq> owner c \<and> op_ttl p = t + n \<and> n \<le> max_proposal_ttl"
proof (induction arbitrary: p rule: own_run.induct)
  case (own_claim evs c proposal info e none c')
  then show ?case using claim_ownership_Ok [OF own_claim.hyps(2)] by simp
next
  case (own_other evs c proposal c')
  then show ?case by metis
qed (auto simp: propose_new_owner_def drop_ownership_proposal_def outcome_simps arith_simps split: if_splits)

section \<open>Properties\<close>

text \<open>
  C26: Raising an offer by the referral commission and then taking the commission is a round trip: it
  gives back exactly the original offer, and the same commission, without any loss to rounding.
\<close>

theorem referral_round_trip:
  assumes "add_referral H factory True commission offer = Ok (raised, c)" "dh_factory H factory = Some F"
  shows "take_referral F commission raised = Ok (offer, c) \<and> av_amount raised = av_amount offer + c"
proof -
  have "av_amount raised = av_amount offer + c"
    using assms by (auto simp: add_referral_def Let_def outcome_simps arith_simps split: if_splits)
  then show ?thesis using add_referral_take [OF assms] by simp
qed

definition dex_demo_host :: dex_host where
  "dex_demo_host = \<lparr> dh_bank = (\<lambda>a d. None), dh_cw20 = (\<lambda>t a. None), dh_token = (\<lambda>t. None),
     dh_factory = (\<lambda>f. Some \<lparr> fg_owner = ''boss'', fg_max_commission = 5 * 10 ^ 17 \<rparr>), dh_to_migrate = (\<lambda>f. None),
     dh_fee_info = (\<lambda>f k. None) \<rparr>"

lemma referral_round_trip_witness:
  "take_referral \<lparr> fg_owner = ''boss'', fg_max_commission = 5 * 10 ^ 17 \<rparr> (Some (3 * 10 ^ 17)) (native_asset ''ujuno'' 1428)
     = Ok (native_asset ''ujuno'' 1000, 428)"
  by (rule referral_round_trip [of dex_demo_host "''factory''", THEN conjunct1])
    (simp_all add: add_referral_def query_factory_config_def query_failed_def dex_demo_host_def referral_on_top_def
      native_asset_def decimal_one_def checked_int_defs)

text \<open>
  Withdrawing from a pool is safe: whatever shares its liquidity tokens are redeemed in, as long as
  they add up to at most the total supply, the assets paid out for them never add up to more than the
  pool holds, for every asset of the pool.
\<close>

theorem shares_never_exceed_the_pool:
  assumes "\<forall>(n, out)\<in>set redeemed. get_share_in_assets pools n total_share = Ok out"
    and "sum_list (map fst redeemed) \<le> total_share" "i < length pools"
  shows "sum_list (map (\<lambda>(n, out). av_amount (out ! i)) redeemed) \<le> av_amount (pools ! i)"
proof -
  have each: "av_amount (out ! i) * total_share \<le> av_amount (pools ! i) * n \<and> (total_share = 0 \<longrightarrow> av_amount (out ! i) = 0)"
    if "(n, out) \<in> set redeemed" for n out
    using assms(1) that share_amounts [OF _ assms(3), of n total_share out] by blast
  have "sum_list (map (\<lambda>(n, out). av_amount (out ! i) * total_share) redeemed)
      \<le> sum_list (map (\<lambda>(n, out). av_amount (pools ! i) * n) redeemed)"
    using each by (intro sum_list_mono) fastforce
  also have "\<dots> = av_amount (pools ! i) * sum_list (map fst redeemed)"
    by (simp add: sum_list_const_mult [symmetric] case_prod_unfold)
  also have "\<dots> \<le> av_amount (pools ! i) * total_share" using assms(2) by (rule mult_le_mono2)
  finally have "sum_list (map (\<lambda>(n, out). av_amount (out ! i)) redeemed) * total_share \<le> av_amount (pools ! i) * total_share"
    by (simp add: sum_list_mult_const [symmetric] case_prod_unfold)
  then have "0 < total_share \<Longrightarrow> ?thesis" by simp
  moreover have "sum_list (map (\<lambda>(n, out). av_amount (out ! i)) redeemed) = 0" if "total_share = 0"
    using each that by (auto simp: sum_list_eq_0_iff)
  ultimately show ?thesis by (metis gr_zeroI le0)
qed

lemma shares_never_exceed_the_pool_witness:
  "get_share_in_assets [native_asset ''ujuno'' 100, token_asset ''loop'' 7] 2 3
     = (Ok [native_asset ''ujuno'' 66, token_asset ''loop'' 4] :: (pair_error, asset_validated list) outcome) \<and>
   66 + (33 :: nat) \<le> 100"
proof -
  have two: "get_share_in_assets [native_asset ''ujuno'' 100, token_asset ''loop'' 7] 2 3
      = (Ok [native_asset ''ujuno'' 66, token_asset ''loop'' 4] :: (pair_error, asset_validated list) outcome)"
    and one: "get_share_in_assets [native_asset ''ujuno'' 100, token_asset ''loop'' 7] 1 3
      = (Ok [native_asset ''ujuno'' 33, token_asset ''loop'' 2] :: (pair_error, asset_validated list) outcome)"
    by (simp_all add: get_share_in_assets_def decimal_from_ratio_def u128_mul_decimal_def checked_int_defs decimal_one_def
        native_asset_def token_asset_def)
  show ?thesis
    using two one shares_never_exceed_the_pool [of "[(2, [native_asset ''ujuno'' 66, token_asset ''loop'' 4]),
        (1, [native_asset ''ujuno'' 33, token_asset ''loop'' 2])]" "[native_asset ''ujuno'' 100, token_asset ''loop'' 7]" 3 0]
    by (simp add: native_asset_def token_asset_def)
qed

text \<open>
  A swap that passes the spread check at a believed price returns at least the expected amount less
  the tolerated spread, and the tolerance is never more than one half; without a believed price the
  reported spread is within the tolerance of what the swap could have returned.
\<close>

theorem spread_check_limits_the_loss:
  assumes "assert_max_spread belief limit offer ret spread = Ok ()"
    and "m = (case limit of Some d \<Rightarrow> d | None \<Rightarrow> default_slippage)"
  shows "2 * m \<le> decimal_one \<and>
    (case belief of
       Some price \<Rightarrow> price \<noteq> 0 \<and>
         offer * (decimal_one * decimal_one div price) div decimal_one * (decimal_one - Suc m) \<le> ret * decimal_one
     | None \<Rightarrow> 0 < ret + spread \<and> spread * decimal_one < Suc m * (ret + spread))"
proof -
  have m: "m \<le> max_allowed_slippage"
    using assms by (auto simp: assert_max_spread_def Let_def outcome_simps)
  then have half: "2 * m \<le> decimal_one" by (simp add: max_allowed_slippage_def decimal_one_def)
  show ?thesis
  proof (cases belief)
    case None
    then have q: "ret + spread \<noteq> 0" "spread * decimal_one div (ret + spread) \<le> m"
      using assms m by (auto simp: assert_max_spread_def Let_def outcome_simps arith_simps decimal_from_ratio_def)
    then have "spread * decimal_one < Suc m * (ret + spread)"
      by (metis dividend_less_div_times le_imp_less_Suc less_le_trans mult_le_mono1 not_gr0 Suc_leI add.commute mult_Suc)
    then show ?thesis using half q None by simp
  next
    case (Some price)
    define expected where "expected = offer * (decimal_one * decimal_one div price) div decimal_one"
    have price: "price \<noteq> 0" and q: "ret < expected \<Longrightarrow> (expected - ret) * decimal_one div expected \<le> m"
      using assms m by (auto simp: assert_max_spread_def Let_def outcome_simps arith_simps decimal_from_ratio_def dec_inv_def
          expected_def Some split: if_splits)
    have "expected * (decimal_one - Suc m) \<le> ret * decimal_one"
    proof (cases "ret < expected")
      case False
      then have "expected * (decimal_one - Suc m) \<le> ret * (decimal_one - Suc m)" by (intro mult_le_mono1) simp
      also have "\<dots> \<le> ret * decimal_one" by (intro mult_le_mono2) simp
      finally show ?thesis .
    next
      case True
      obtain gap where gap: "expected = ret + gap" using True less_imp_add_positive by blast
      have "gap * decimal_one < Suc m * expected"
      proof -
        have "gap * decimal_one < Suc (gap * decimal_one div expected) * expected"
          using True by (metis dividend_less_div_times gr_zeroI less_zeroE mult_Suc add.commute)
        also have "\<dots> \<le> Suc m * expected" using q [OF True] gap by (intro mult_le_mono1) simp
        finally show ?thesis .
      qed
      moreover have "expected * decimal_one = ret * decimal_one + gap * decimal_one" by (simp add: gap distrib_right)
      moreover have "expected * (decimal_one - Suc m) = expected * decimal_one - Suc m * expected"
        by (simp add: diff_mult_distrib2 mult.commute)
      ultimately show ?thesis by linarith
    qed
    then show ?thesis using half price Some by (simp add: expected_def)
  qed
qed

lemma spread_check_limits_the_loss_witness:
  "assert_max_spread (Some (2 * 10 ^ 18)) None 1000 498 0 = Ok () \<and>
   (1000 :: nat) * (decimal_one * decimal_one div (2 * 10 ^ 18)) div decimal_one * (decimal_one - Suc default_slippage) \<le> 498 * decimal_one"
proof -
  have ok: "assert_max_spread (Some (2 * 10 ^ 18)) None 1000 498 0 = Ok ()"
    by (simp add: assert_max_spread_def default_slippage_def max_allowed_slippage_def dec_inv_def u128_mul_decimal_def
        decimal_from_ratio_def checked_int_defs decimal_one_def)
  show ?thesis using ok spread_check_limits_the_loss [OF ok refl] by simp
qed

text \<open>
  C27: Ownership changes only by consent: a claim that succeeds makes the claiming account the owner and
  uses the proposal up; the last request before it was a proposal sent by the owner of that moment, naming
  the claiming account, which is not the owner, and the claim comes within the time the proposal grants,
  at most two weeks.  Of the contract it is assumed that its callback makes the given account the owner.
\<close>

theorem ownership_moves_by_consent:
  assumes "own_run P owner cb evs c proposal" "\<And>a c1 c2. cb a c1 = Ok c2 \<Longrightarrow> owner c2 = a"
    and "claim_ownership info e proposal cb c = Ok (pending, c')"
  shows "owner c' = sender info \<and> owner c' \<noteq> owner c \<and> pending = None \<and>
    (\<exists>name t n rest. evs = Proposed (owner c) name t n # rest \<and> addr_validate P name = Ok (sender info) \<and>
       seconds (block e) \<le> t + n \<and> n \<le> 14 * 24 * 60 * 60)"
proof -
  note claim = claim_ownership_Ok [OF assms(3)]
  then obtain p where p: "proposal = Some p" "op_owner p = sender info" "seconds (block e) \<le> op_ttl p" by blast
  from own_run_proposal [OF assms(1) p(1)] assms(2) [OF claim(2)] claim(1) p(2,3) show ?thesis
    by (auto simp: max_proposal_ttl_def)
qed

lemma ownership_moves_by_consent_witness:
  "\<exists>p evs. own_run demo_platform (\<lambda>c. c) (\<lambda>a c. Ok a) (Proposed ''boss'' ''heir'' 100 60 # evs) ''boss'' (Some p) \<and>
    op_ttl p = 160 \<and> ''heir'' \<noteq> ''boss''"
proof -
  let ?e = "\<lparr> block = \<lparr> block_height = 1, block_time = 100000000000 \<rparr>, contract_address = ''pair'' \<rparr>"
  let ?p = "\<lparr> op_owner = ''heir'', op_ttl = 160 \<rparr>" and ?cb = "\<lambda>a c. Ok a"
  have "propose_new_owner demo_platform \<lparr> sender = ''boss'' \<rparr> ?e ''heir'' 60 ''boss'' = Ok ?p"
    by (simp add: propose_new_owner_def demo_platform_def max_proposal_ttl_def checked_int_defs seconds_def)
  from own_run.own_propose [OF own_run.own_start, of demo_platform _ ?e _ _ "\<lambda>c. c" "''boss''", OF this]
  have run: "own_run demo_platform (\<lambda>c. c) ?cb [Proposed ''boss'' ''heir'' 100 60] ''boss'' (Some ?p)"
    by (simp add: seconds_def)
  have "claim_ownership \<lparr> sender = ''heir'' \<rparr> ?e (Some ?p) ?cb ''boss'' = Ok (None, ''heir'')"
    by (simp add: claim_ownership_def seconds_def)
  from ownership_moves_by_consent [OF run _ this] run show ?thesis by auto
qed

end
