(* ===== verification/Oracle.thy ===== *)
theory Oracle
  imports Synedex
begin

text \<open>
  The price oracle of a pair, \<open>packages/synedex/src/oracle.rs\<close>: three ring buffers of prices over
  time, filled at most once per step, and the history a query returns.  Times are in seconds, far
  below the range of \<open>u64\<close>, so their sums are not checked.
\<close>

section \<open>Ring buffers over time\<close>

text \<open>
  The data by ring index, and the start: the ring index and the time the indices count from.  The
  parameters \<open>step\<close> and \<open>cap\<close> are the constants of the type in the source.
\<close>

record 'v time_buffer =
  tb_data :: "(nat, nat \<times> 'v) kv"
  tb_start :: "(nat \<times> nat) option"

definition tb_new :: "'v time_buffer" where
  "tb_new = \<lparr> tb_data = [], tb_start = None \<rparr>"

definition tb_save :: "nat \<Rightarrow> nat \<Rightarrow> 'v time_buffer \<Rightarrow> nat \<Rightarrow> 'v \<Rightarrow> ('e, 'v time_buffer) outcome" where
  "tb_save step cap b now v =
     (let fresh = tb_start b = None;
          (index, time) = (case tb_start b of Some s \<Rightarrow> s | None \<Rightarrow> (0, now)) in
      if now < time then Panic
      else
        let actual = (now - time) div step + index;
            moved = time + step * cap \<le> now;
            start = (if moved then ((actual + 1) mod cap, time + (actual + 1 - cap) * step) else (index, time)) in
        Ok (b\<lparr> tb_start := (if fresh \<or> moved then Some start else tb_start b),
               tb_data := kv_set (tb_data b) (actual mod cap) (now, v) \<rparr>))"

text \<open>The entries from the start of the ring, then those before it, without the outdated ones.\<close>

definition tb_all :: "'v time_buffer \<Rightarrow> nat \<Rightarrow> (nat \<times> 'v) list" where
  "tb_all b now =
     (let (index, time) = (case tb_start b of Some s \<Rightarrow> s | None \<Rightarrow> (0, now)) in
      filter (\<lambda>e. time \<le> fst e)
        (map snd (filter (\<lambda>e. index \<le> fst e) (tb_data b) @ filter (\<lambda>e. fst e < index) (tb_data b))))"

section \<open>Prices\<close>

definition minute :: nat where "minute = 60"
definition half_hour :: nat where "half_hour = 30 * minute"
definition twelve_hours :: nat where "twelve_hours = 60 * minute"

record last_updates =
  lu_minutes :: nat
  lu_half_hours :: nat
  lu_twelve_hours :: nat

record price_point =
  pp_from :: asset_valid
  pp_to :: asset_valid
  pp_price :: nat

record oracle_state =
  or_updated :: "last_updates option"
  or_minutes :: "nat list time_buffer"
  or_day :: "nat list time_buffer"
  or_week :: "nat list time_buffer"

datatype history_duration = Fifteen_minutes | Day | Week

text \<open>Two versions of all ordered pairs of different assets.\<close>

definition cartesian_product :: "asset_valid list \<Rightarrow> (asset_valid \<times> asset_valid) list" where
  "cartesian_product infos = concat (map (\<lambda>a. map (\<lambda>b. (a, b)) (filter (\<lambda>b. \<not> same_asset a b) infos)) infos)"

definition combinations :: "asset_valid list \<Rightarrow> (asset_valid \<times> asset_valid) list" where
  "combinations infos = concat (map (\<lambda>a. map (\<lambda>b. (a, b)) (filter (\<lambda>b. a \<noteq> b) infos)) infos)"

definition pp_pair :: "price_point \<Rightarrow> asset_valid \<times> asset_valid" where
  "pp_pair p = (pp_from p, pp_to p)"

text \<open>The index of a pair: of a repeated pair the last one, as in a hash map.\<close>

definition pair_index :: "asset_valid list \<Rightarrow> asset_valid \<times> asset_valid \<Rightarrow> nat option" where
  "pair_index infos pr = (let ps = cartesian_product infos in map_of (rev (zip ps [0..<length ps])) pr)"

text \<open>Sorting looks every price up, and panics for an unknown pair, when there are two or more.\<close>

definition ordered_prices :: "asset_valid list \<Rightarrow> price_point list \<Rightarrow> ('e, nat list) outcome" where
  "ordered_prices infos prices =
     (if 2 \<le> length prices \<and> (\<exists>p\<in>set prices. pair_index infos (pp_pair p) = None) then Panic
      else Ok (map pp_price (sort_key (\<lambda>p. case pair_index infos (pp_pair p) of Some i \<Rightarrow> i | None \<Rightarrow> 0) prices)))"

definition no_updates :: last_updates where
  "no_updates = \<lparr> lu_minutes = 0, lu_half_hours = 0, lu_twelve_hours = 0 \<rparr>"

text \<open>A buffer is written when its step has passed since the last time.\<close>

definition save_when_due ::
  "nat \<Rightarrow> nat \<Rightarrow> nat \<Rightarrow> nat \<Rightarrow> 'v time_buffer \<Rightarrow> 'v \<Rightarrow> ('e, 'v time_buffer \<times> nat) outcome"
where
  "save_when_due step cap updated now b v =
     (if updated + step \<le> now then and_then (tb_save step cap b now v) (\<lambda>b'. Ok (b', now)) else Ok (b, updated))"

definition store_price ::
  "oracle_state \<Rightarrow> nat \<Rightarrow> asset_valid list \<Rightarrow> price_point list \<Rightarrow> (pair_error, oracle_state) outcome"
where
  "store_price s now infos prices =
     (let u = (case or_updated s of Some u \<Rightarrow> u | None \<Rightarrow> no_updates) in
      if now = lu_minutes u then Ok s
      else
      and_then (ordered_prices infos prices) (\<lambda>vs.
      and_then (save_when_due minute 15 (lu_minutes u) now (or_minutes s) vs) (\<lambda>(b1, m).
      and_then (save_when_due half_hour 48 (lu_half_hours u) now (or_day s) vs) (\<lambda>(b2, h).
      and_then (save_when_due twelve_hours 14 (lu_twelve_hours u) now (or_week s) vs) (\<lambda>(b3, t).
      let u' = \<lparr> lu_minutes = m, lu_half_hours = h, lu_twelve_hours = t \<rparr>;
          updated = (lu_minutes u + minute \<le> now \<or> lu_half_hours u + half_hour \<le> now \<or> lu_twelve_hours u + twelve_hours \<le> now) in
      Ok (s\<lparr> or_updated := (if updated then Some u' else or_updated s), or_minutes := b1, or_day := b2, or_week := b3 \<rparr>))))))"

text \<open>One entry of a buffer added to the rows, a row for every pair; too few prices panic.\<close>

type_synonym price_row = "asset_valid \<times> asset_valid \<times> (nat \<times> nat) list"

definition push_prices :: "nat \<times> nat list \<Rightarrow> price_row list \<Rightarrow> ('e, price_row list) outcome" where
  "push_prices entry rows =
     (case entry of (time, prices) \<Rightarrow>
      if length prices < length rows then Panic
      else Ok (map (\<lambda>((a, b, xs), p). (a, b, xs @ [(time, p)])) (zip rows prices)))"

definition query_timebuffer :: "nat list time_buffer \<Rightarrow> nat \<Rightarrow> asset_valid list \<Rightarrow> (std_error, price_row list) outcome" where
  "query_timebuffer b now infos = fold_ok push_prices (tb_all b now) (map (\<lambda>(x, y). (x, y, [])) (combinations infos))"

primrec query_historical ::
  "oracle_state \<Rightarrow> nat \<Rightarrow> asset_valid list \<Rightarrow> history_duration \<Rightarrow> (std_error, price_row list) outcome"
where
  "query_historical s now infos Fifteen_minutes = query_timebuffer (or_minutes s) now infos"
| "query_historical s now infos Day = query_timebuffer (or_day s) now infos"
| "query_historical s now infos Week = query_timebuffer (or_week s) now infos"

end
