(* ===== verification/Oracle_Proofs.thy ===== *)
theory Oracle_Proofs
  imports Oracle
begin

text \<open>
  The ring buffers hold what was saved last within their window, in order while the window has not
  moved; afterwards the window moves too far and entries are lost or returned out of order.  The
  prices of a history belong to the pairs they are returned for.
\<close>

section \<open>Runs of a buffer\<close>

text \<open>A buffer after saving the values of a log, with times that never fall.\<close>

inductive tb_run :: "nat \<Rightarrow> nat \<Rightarrow> 'v time_buffer \<Rightarrow> (nat \<times> 'v) list \<Rightarrow> bool" for step cap where
  tb_fresh: "tb_run step cap tb_new []"
| tb_next: "tb_run step cap b log \<Longrightarrow> \<forall>e\<in>set log. fst e \<le> now \<Longrightarrow> tb_save step cap b now v = (Ok b' :: (pair_error, _) outcome) \<Longrightarrow>
    tb_run step cap b' (log @ [(now, v)])"

definition tb_ok :: "nat \<Rightarrow> nat \<Rightarrow> 'v time_buffer \<Rightarrow> (nat \<times> 'v) list \<Rightarrow> bool" where
  "tb_ok step cap b log \<longleftrightarrow> kv_ok (tb_data b) \<and> (\<forall>k\<in>fst ` set (tb_data b). k < cap) \<and> snd ` set (tb_data b) \<subseteq> set log \<and>
     (case tb_start b of
        None \<Rightarrow> log = []
      | Some (index, time) \<Rightarrow> log \<noteq> [] \<and> index < cap \<and> time \<le> fst (last log) \<and> fst (last log) < time + step * cap \<and>
          last log \<in> snd ` set (tb_data b))"

text \<open>Saving never panics and keeps the window around the newest entry.\<close>

lemma tb_save_ok:
  assumes ok: "tb_ok step cap b log" and late: "\<forall>e\<in>set log. fst e \<le> now" and pos: "0 < step" "0 < cap"
  obtains b' where "tb_save step cap b now v = (Ok b' :: ('e, _) outcome)" "tb_ok step cap b' (log @ [(now, v)])"
proof -
  define index time where "index = (case tb_start b of Some s \<Rightarrow> fst s | None \<Rightarrow> 0)" and "time = (case tb_start b of Some s \<Rightarrow> snd s | None \<Rightarrow> now)"
  have start: "(case tb_start b of Some s \<Rightarrow> s | None \<Rightarrow> (0, now)) = (index, time)"
    by (simp add: index_def time_def split: option.splits)
  have idx: "index < cap" "time \<le> now"
  proof -
    have newest: "fst (last log) \<le> now" if "log \<noteq> []" using late last_in_set [OF that] by blast
    show "index < cap" "time \<le> now"
      using ok newest pos by (cases "tb_start b"; force simp: tb_ok_def index_def time_def)+
  qed
  define actual where "actual = (now - time) div step + index"
  define moved where "moved \<longleftrightarrow> time + step * cap \<le> now"
  define new_start where "new_start = (if moved then ((actual + 1) mod cap, time + (actual + 1 - cap) * step) else (index, time))"
  let ?b = "b\<lparr> tb_start := (if tb_start b = None \<or> moved then Some new_start else tb_start b),
               tb_data := kv_set (tb_data b) (actual mod cap) (now, v) \<rparr>"
  have saved: "tb_save step cap b now v = (Ok ?b :: ('e, _) outcome)"
    using idx(2) by (simp add: tb_save_def start Let_def actual_def [symmetric] moved_def [symmetric] new_start_def [symmetric])
  have is_start: "tb_start ?b = Some new_start"
    using start by (auto simp: new_start_def split: option.splits)
  have window: "fst new_start < cap \<and> snd new_start \<le> now \<and> now < snd new_start + step * cap"
  proof (cases moved)
    case False
    then show ?thesis using idx by (simp add: new_start_def moved_def)
  next
    case True
    define m where "m = (now - time) div step"
    have m: "m * step \<le> now - time" "now - time < (m + 1) * step"
      using pos by (simp_all add: m_def) (metis add.commute dividend_less_times_div mult.commute mult_Suc_right)
    have "cap * step \<le> now - time" using True by (simp add: moved_def ac_simps)
    then have cap: "cap \<le> m" using pos by (simp add: m_def less_eq_div_iff_mult_less_eq)
    have "actual + 1 - cap \<le> m" using idx(1) by (simp add: actual_def m_def [symmetric])
    then have "(actual + 1 - cap) * step \<le> m * step" by (rule mult_le_mono1)
    moreover have "(m + 1) * step \<le> (actual + 1 - cap) * step + cap * step"
      using cap by (simp add: actual_def m_def [symmetric] distrib_right [symmetric] del: add_mult_distrib)
    ultimately have "time + (actual + 1 - cap) * step \<le> now" "now < time + (actual + 1 - cap) * step + step * cap"
      using m idx(2) unfolding mult.commute [of step cap] by linarith+
    then show ?thesis using True pos by (simp add: new_start_def)
  qed
  have get: "kv_get (tb_data ?b) (actual mod cap) = Some (now, v)" by simp
  have "tb_ok step cap ?b (log @ [(now, v)])"
    unfolding tb_ok_def is_start option.case
  proof (intro conjI)
    show "kv_ok (tb_data ?b)" using ok by (simp add: tb_ok_def)
    show "\<forall>k\<in>fst ` set (tb_data ?b). k < cap" using ok pos by (auto simp: tb_ok_def set_kv_set_keys)
    show "snd ` set (tb_data ?b) \<subseteq> set (log @ [(now, v)])"
    proof
      fix e assume "e \<in> snd ` set (tb_data ?b)"
      then obtain k where "(k, e) \<in> set (tb_data ?b)" by auto
      moreover have "kv_ok (tb_data ?b)" "kv_ok (tb_data b)" using ok by (simp_all add: tb_ok_def)
      ultimately have "e = (now, v) \<or> (k, e) \<in> set (tb_data b)"
        by (auto simp: kv_in_set_get split: if_splits)
      then show "e \<in> set (log @ [(now, v)])" using ok by (auto simp: tb_ok_def)
    qed
    show "case new_start of (index, time) \<Rightarrow> log @ [(now, v)] \<noteq> [] \<and> index < cap \<and> time \<le> fst (last (log @ [(now, v)])) \<and>
        fst (last (log @ [(now, v)])) < time + step * cap \<and> last (log @ [(now, v)]) \<in> snd ` set (tb_data ?b)"
      using window kv_get_in_set [OF get] by (cases new_start) force
  qed
  then show thesis using that saved by blast
qed

lemma tb_run_ok: "tb_run step cap b log \<Longrightarrow> 0 < step \<Longrightarrow> 0 < cap \<Longrightarrow> tb_ok step cap b log"
proof (induction rule: tb_run.induct)
  case tb_fresh
  then show ?case by (simp add: tb_ok_def tb_new_def)
next
  case (tb_next b log now v b')
  obtain b'' where "tb_save step cap b now v = (Ok b'' :: (pair_error, _) outcome)" "tb_ok step cap b'' (log @ [(now, v)])"
    by (rule tb_save_ok [OF tb_next.IH [OF tb_next.prems] tb_next.hyps(2) tb_next.prems])
  then show ?case using tb_next.hyps(3) by simp
qed

lemma tb_all_entries:
  assumes "tb_start b = Some (index, time)"
  shows "set (tb_all b now) = {e \<in> snd ` set (tb_data b). time \<le> fst e}" "length (tb_all b now) \<le> length (tb_data b)"
proof -
  show "set (tb_all b now) = {e \<in> snd ` set (tb_data b). time \<le> fst e}"
    by (force simp: tb_all_def assms image_iff)
  have "length (filter (\<lambda>e. index \<le> fst e) (tb_data b)) + length (filter (\<lambda>e. fst e < index) (tb_data b)) = length (tb_data b)"
    using sum_length_filter_compl [of "\<lambda>e. index \<le> fst e" "tb_data b"] by (simp add: not_le)
  then show "length (tb_all b now) \<le> length (tb_data b)"
    using length_filter_le [of "\<lambda>e. time \<le> fst e" "map snd (filter (\<lambda>e. index \<le> fst e) (tb_data b) @ filter (\<lambda>e. fst e < index) (tb_data b))"]
    by (simp add: tb_all_def assms)
qed

lemma keys_below_length:
  assumes "kv_ok m" "\<forall>k\<in>fst ` set m. k < (cap :: nat)"
  shows "length m \<le> cap"
proof -
  have "length m = card (fst ` set m)"
    using distinct_card [OF kv_ok_distinct [OF assms(1)]] by simp
  also have "\<dots> \<le> card {..<cap}" using assms(2) by (intro card_mono) auto
  finally show ?thesis by simp
qed

section \<open>The first window\<close>

text \<open>Until the window moves the data is the log, by step.\<close>

lemma kv_set_last: "\<forall>k'\<in>fst ` set m. k' < k \<Longrightarrow> kv_set m k v = m @ [(k, v)]"
  by (induction m) auto

lemma first_window:
  assumes "tb_run step cap b log" "log \<noteq> []" "0 < step"
    and "\<forall>e\<in>set log. fst e < fst (hd log) + step * cap"
    and "sorted_wrt (\<lambda>x y. (fst x - fst (hd log)) div step < (fst y - fst (hd log)) div step) log"
  shows "tb_start b = Some (0, fst (hd log)) \<and> tb_data b = map (\<lambda>e. ((fst e - fst (hd log)) div step, e)) log"
  using assms
proof (induction rule: tb_run.induct)
  case (tb_next b log now v b')
  show ?case
  proof (cases "log = []")
    case True
    from tb_next.hyps(1) True have "b = tb_new" by (cases rule: tb_run.cases) auto
    then show ?thesis using tb_next.hyps(3) tb_next.prems(3) True by (auto simp: tb_save_def tb_new_def Let_def split: if_splits)
  next
    case False
    have hd: "hd (log @ [(now, v)]) = hd log" using False by simp
    have old: "tb_start b = Some (0, fst (hd log))" "tb_data b = map (\<lambda>e. ((fst e - fst (hd log)) div step, e)) log"
      using tb_next.IH False tb_next.prems unfolding hd by (simp_all add: sorted_wrt_append)
    have late: "fst (hd log) \<le> now" "now < fst (hd log) + step * cap"
      using tb_next.hyps(2) tb_next.prems(3) False by simp_all
    have "(now - fst (hd log)) div step < cap" using late by (simp add: div_less_iff_less_mult tb_next.prems(2) ac_simps)
    then have "b' = b\<lparr> tb_data := kv_set (tb_data b) ((now - fst (hd log)) div step) (now, v) \<rparr>"
      using tb_next.hyps(3) late by (auto simp: tb_save_def old(1) Let_def)
    moreover have "\<forall>k\<in>fst ` set (tb_data b). k < (now - fst (hd log)) div step"
      using tb_next.prems(4) unfolding hd old(2) by (auto simp: sorted_wrt_append)
    ultimately show ?thesis unfolding hd by (simp add: kv_set_last old)
  qed
qed simp

lemma tb_all_first_window:
  assumes "tb_start b = Some (0, t)" "tb_data b = map (\<lambda>e. (f e, e)) log" "\<forall>e\<in>set log. t \<le> fst e"
  shows "tb_all b now = log"
  using assms by (simp add: tb_all_def filter_id_conv comp_def)

section \<open>Prices and pairs\<close>

lemma same_asset_eq: "same_asset a b \<longleftrightarrow> a = b"
  by (cases a; cases b) auto

lemma combinations_are_product: "combinations infos = cartesian_product infos"
  by (simp add: combinations_def cartesian_product_def same_asset_eq)

lemma distinct_product: "distinct infos \<Longrightarrow> distinct (cartesian_product infos)"
  unfolding cartesian_product_def
proof (rule distinct_concat)
  assume d: "distinct infos"
  show "distinct (map (\<lambda>a. map (\<lambda>b. (a, b)) (filter (\<lambda>b. \<not> same_asset a b) infos)) infos)"
  proof (simp add: distinct_map d same_asset_eq, rule inj_onI)
    fix x y assume xy: "x \<in> set infos" "y \<in> set infos" "map (Pair x) (filter ((\<noteq>) x) infos) = map (Pair y) (filter ((\<noteq>) y) infos)"
    from arg_cong [OF xy(3), of set] xy(1,2) show "x = y" by (cases "x = y") auto
  qed
qed (auto simp: distinct_map same_asset_eq inj_on_def)

lemma pair_index_nth:
  assumes "distinct infos" "i < length (cartesian_product infos)"
  shows "pair_index infos (cartesian_product infos ! i) = Some i"
proof -
  let ?ps = "cartesian_product infos"
  have "distinct (map fst (rev (zip ?ps [0..<length ?ps])))"
    using distinct_product [OF assms(1)] by (simp add: rev_map [symmetric])
  moreover have "(?ps ! i, i) \<in> set (rev (zip ?ps [0..<length ?ps]))"
    using assms(2) by (auto simp: set_zip)
  ultimately show ?thesis by (simp add: pair_index_def Let_def)
qed

text \<open>The price given for a pair.\<close>

definition price_of :: "price_point list \<Rightarrow> asset_valid \<times> asset_valid \<Rightarrow> nat" where
  "price_of prices pr = (case map_of (map (\<lambda>p. (pp_pair p, pp_price p)) prices) pr of Some n \<Rightarrow> n | None \<Rightarrow> 0)"

text \<open>Every pair has one price, in any order.\<close>

definition prices_for :: "asset_valid list \<Rightarrow> price_point list \<Rightarrow> bool" where
  "prices_for infos prices \<longleftrightarrow> distinct infos \<and> distinct (map pp_pair prices) \<and>
     set (map pp_pair prices) = set (cartesian_product infos)"

lemma ordered_prices_of_pairs:
  assumes "prices_for infos prices"
  shows "ordered_prices infos prices = Ok (map (price_of prices) (combinations infos))"
proof -
  let ?ps = "cartesian_product infos"
  let ?f = "\<lambda>pr. case pair_index infos pr of Some i \<Rightarrow> i | None \<Rightarrow> 0"
  let ?s = "sort_key (\<lambda>p. ?f (pp_pair p)) prices"
  have d: "distinct infos" "distinct (map pp_pair prices)" "set (map pp_pair prices) = set ?ps"
    using assms by (simp_all add: prices_for_def)
  have index: "?f (?ps ! i) = i" if "i < length ?ps" for i using pair_index_nth [OF d(1) that] by simp
  have map_ps: "map ?f ?ps = [0..<length ?ps]" by (rule nth_equalityI) (simp_all add: index)
  have known: "\<exists>i. pair_index infos (pp_pair p) = Some i" if "p \<in> set prices" for p
  proof -
    have "pp_pair p \<in> set ?ps" using that d(3) by auto
    then obtain i where "i < length ?ps" "?ps ! i = pp_pair p" unfolding in_set_conv_nth by blast
    then show ?thesis using pair_index_nth [OF d(1), of i] by metis
  qed
  have inj: "inj_on ?f (set ?ps)" using distinct_map [of ?f ?ps] map_ps by simp
  have "map ?f (map pp_pair ?s) = map ?f ?ps"
  proof (rule sorted_distinct_set_unique)
    show "sorted (map ?f (map pp_pair ?s))" using sorted_sort_key [of "\<lambda>p. ?f (pp_pair p)" prices] by (simp add: comp_def)
    have "distinct (map pp_pair ?s)" using d(2) by (simp add: distinct_map)
    moreover have "set (map pp_pair ?s) = set ?ps" using d(3) by simp
    ultimately show "distinct (map ?f (map pp_pair ?s))"
      unfolding distinct_map [of ?f "map pp_pair ?s"] using inj by metis
    show "sorted (map ?f ?ps)" "distinct (map ?f ?ps)" unfolding map_ps by simp_all
    show "set (map ?f (map pp_pair ?s)) = set (map ?f ?ps)" using arg_cong [OF d(3), of "image ?f"] by (simp add: image_image)
  qed
  moreover have "set (map pp_pair ?s) \<union> set ?ps = set ?ps" using d(3) by simp
  ultimately have order: "map pp_pair ?s = ?ps" using inj by (metis map_inj_on)
  have price: "price_of prices (pp_pair p) = pp_price p" if "p \<in> set prices" for p
  proof -
    have "map_of (map (\<lambda>p. (pp_pair p, pp_price p)) prices) (pp_pair p) = Some (pp_price p)"
      by (rule map_of_is_SomeI) (use that d(2) in \<open>auto simp: comp_def\<close>)
    then show ?thesis by (simp only: price_of_def option.case)
  qed
  have "map pp_price ?s = map (price_of prices) (map pp_pair ?s)" using price by simp
  then show ?thesis
    using known order by (auto simp: ordered_prices_def combinations_are_product)
qed

lemma push_prices_fold:
  assumes "\<forall>e\<in>set entries. length (snd e) = length rows"
  shows "fold_ok push_prices entries rows
    = (Ok (map (\<lambda>i. case rows ! i of (a, b, xs) \<Rightarrow> (a, b, xs @ map (\<lambda>e. (fst e, snd e ! i)) entries)) [0..<length rows])
       :: ('e, price_row list) outcome)"
  using assms
proof (induction entries arbitrary: rows)
  case Nil
  then show ?case by (auto intro!: nth_equalityI split: prod.splits)
next
  case (Cons e entries)
  obtain t ps where e: "e = (t, ps)" by force
  let ?rows = "map (\<lambda>((a, b, xs), p). (a, b, xs @ [(t, p)])) (zip rows ps)"
  have len: "length ?rows = length rows" using Cons.prems by (simp add: e)
  have "fold_ok push_prices (e # entries) rows = (fold_ok push_prices entries ?rows :: ('e, price_row list) outcome)"
    using Cons.prems by (simp add: e push_prices_def)
  also have "\<dots> = Ok (map (\<lambda>i. case ?rows ! i of (a, b, xs) \<Rightarrow> (a, b, xs @ map (\<lambda>e. (fst e, snd e ! i)) entries)) [0..<length ?rows])"
    using Cons.prems len by (intro Cons.IH) simp
  finally show ?case using Cons.prems len by (auto simp: e split: prod.splits)
qed

section \<open>Runs of the oracle\<close>

text \<open>
  The prices an oracle was fed, with the times, oldest first.  Of a feed a buffer samples the first
  entry of every step.
\<close>

definition oracle_new :: oracle_state where
  "oracle_new = \<lparr> or_updated = None, or_minutes = tb_new, or_day = tb_new, or_week = tb_new \<rparr>"

inductive oracle_run :: "asset_valid list \<Rightarrow> oracle_state \<Rightarrow> (nat \<times> price_point list) list \<Rightarrow> bool" for infos where
  oracle_fresh: "oracle_run infos oracle_new []"
| oracle_feed: "oracle_run infos s feeds \<Longrightarrow> \<forall>e\<in>set feeds. fst e \<le> now \<Longrightarrow> prices_for infos prices \<Longrightarrow>
    store_price s now infos prices = Ok s' \<Longrightarrow> oracle_run infos s' (feeds @ [(now, prices)])"

fun step_of :: "history_duration \<Rightarrow> nat" where
  "step_of Fifteen_minutes = minute"
| "step_of Day = half_hour"
| "step_of Week = twelve_hours"

fun capacity_of :: "history_duration \<Rightarrow> nat" where
  "capacity_of Fifteen_minutes = 15"
| "capacity_of Day = 48"
| "capacity_of Week = 14"

fun buffer_of :: "oracle_state \<Rightarrow> history_duration \<Rightarrow> nat list time_buffer" where
  "buffer_of s Fifteen_minutes = or_minutes s"
| "buffer_of s Day = or_day s"
| "buffer_of s Week = or_week s"

fun updated_in :: "last_updates \<Rightarrow> history_duration \<Rightarrow> nat" where
  "updated_in u Fifteen_minutes = lu_minutes u"
| "updated_in u Day = lu_half_hours u"
| "updated_in u Week = lu_twelve_hours u"

definition updated_of :: "oracle_state \<Rightarrow> history_duration \<Rightarrow> nat" where
  "updated_of s d = updated_in (case or_updated s of Some u \<Rightarrow> u | None \<Rightarrow> no_updates) d"

fun sampled_from :: "nat \<Rightarrow> nat \<Rightarrow> (nat \<times> 'v) list \<Rightarrow> (nat \<times> 'v) list" where
  "sampled_from step u [] = []"
| "sampled_from step u ((t, v) # fs) =
     (if u + step \<le> t then (t, v) # sampled_from step t fs else sampled_from step u fs)"

definition sampled :: "nat \<Rightarrow> (nat \<times> 'v) list \<Rightarrow> (nat \<times> 'v) list" where
  "sampled step fs = sampled_from step 0 fs"

definition last_sample :: "nat \<Rightarrow> (nat \<times> 'v) list \<Rightarrow> nat" where
  "last_sample u fs = (if fs = [] then u else fst (last fs))"

lemma sampled_from_append:
  "sampled_from step u (fs @ [(t, v)]) =
     sampled_from step u fs @ (if last_sample u (sampled_from step u fs) + step \<le> t then [(t, v)] else [])"
  by (induction step u fs rule: sampled_from.induct) (auto simp: last_sample_def)

lemma sampled_snoc:
  "sampled step (fs @ [(t, v)]) = sampled step fs @ (if last_sample 0 (sampled step fs) + step \<le> t then [(t, v)] else [])"
  unfolding sampled_def by (rule sampled_from_append)

lemma sampled_from_subset: "set (sampled_from step u fs) \<subseteq> set fs"
  by (induction step u fs rule: sampled_from.induct) auto

lemma sampled_from_late: "e \<in> set (sampled_from step u fs) \<Longrightarrow> u + step \<le> fst e"
  by (induction step u fs rule: sampled_from.induct) (fastforce split: if_splits)+

lemma sampled_from_spaced: "sorted_wrt (\<lambda>x y. fst x + step \<le> fst y) (sampled_from step u fs)"
  by (induction step u fs rule: sampled_from.induct) (auto dest: sampled_from_late)

lemmas sampled_subset = sampled_from_subset [of _ 0, folded sampled_def]
  and sampled_spaced = sampled_from_spaced [of _ 0, folded sampled_def]

text \<open>What a buffer was given.\<close>

definition priced :: "asset_valid list \<Rightarrow> nat \<times> price_point list \<Rightarrow> nat \<times> nat list" where
  "priced infos e = (fst e, map (price_of (snd e)) (combinations infos))"

definition sample_log :: "asset_valid list \<Rightarrow> history_duration \<Rightarrow> (nat \<times> price_point list) list \<Rightarrow> (nat \<times> nat list) list" where
  "sample_log infos d feeds = map (priced infos) (sampled (step_of d) feeds)"

lemma save_when_due_run:
  assumes "save_when_due step cap u now b v = (Ok (b', u') :: (pair_error, _) outcome)"
    and "tb_run step cap b log" "\<forall>e\<in>set log. fst e \<le> now"
  shows "tb_run step cap b' (log @ (if u + step \<le> now then [(now, v)] else [])) \<and> u' = (if u + step \<le> now then now else u)"
proof (cases "u + step \<le> now")
  case True
  then have "\<exists>b''. tb_save step cap b now v = (Ok b'' :: (pair_error, _) outcome) \<and> b'' = b' \<and> u' = now"
    using assms(1) by (auto simp: save_when_due_def and_then_Ok_iff)
  then have ok: "tb_save step cap b now v = (Ok b' :: (pair_error, _) outcome)" and now: "u' = now" by simp_all
  then show ?thesis using True tb_run.tb_next [OF assms(2,3)] by simp
qed (use assms in \<open>simp add: save_when_due_def\<close>)

text \<open>A call that stores feeds each buffer that is due.\<close>

lemma store_price_cases:
  assumes "store_price s now infos prices = Ok s'"
  obtains (same) "now = updated_of s Fifteen_minutes" "s' = s"
  | (fed) vs where "ordered_prices infos prices = (Ok vs :: (pair_error, _) outcome)"
      "\<And>d. save_when_due (step_of d) (capacity_of d) (updated_of s d) now (buffer_of s d) vs
         = (Ok (buffer_of s' d, updated_of s' d) :: (pair_error, _) outcome)"
      "now \<noteq> updated_of s Fifteen_minutes"
proof -
  define u where "u = (case or_updated s of Some u \<Rightarrow> u | None \<Rightarrow> no_updates)"
  have upd: "updated_of s d = updated_in u d" for d by (simp add: updated_of_def u_def)
  show thesis
  proof (cases "now = lu_minutes u")
    case True
    then have "now = updated_of s Fifteen_minutes" "s' = s"
      unfolding upd using assms by (simp_all add: store_price_def u_def [symmetric] Let_def)
    then show ?thesis by (rule same)
  next
    case False
    then obtain vs b1 m b2 h b3 t where vs: "ordered_prices infos prices = (Ok vs :: (pair_error, _) outcome)"
      and saves: "save_when_due minute 15 (lu_minutes u) now (or_minutes s) vs = (Ok (b1, m) :: (pair_error, _) outcome)"
        "save_when_due half_hour 48 (lu_half_hours u) now (or_day s) vs = (Ok (b2, h) :: (pair_error, _) outcome)"
        "save_when_due twelve_hours 14 (lu_twelve_hours u) now (or_week s) vs = (Ok (b3, t) :: (pair_error, _) outcome)"
      and s': "s' = s\<lparr> or_updated := (if lu_minutes u + minute \<le> now \<or> lu_half_hours u + half_hour \<le> now \<or> lu_twelve_hours u + twelve_hours \<le> now
              then Some \<lparr> lu_minutes = m, lu_half_hours = h, lu_twelve_hours = t \<rparr> else or_updated s),
            or_minutes := b1, or_day := b2, or_week := b3 \<rparr>"
      using assms by (auto simp: store_price_def u_def [symmetric] Let_def and_then_Ok_iff split: prod.splits)
    have kept: "u' = u0" if "save_when_due st cap u0 now b vs = (Ok (b', u') :: (pair_error, _) outcome)" "\<not> u0 + st \<le> now" for st cap u0 u' and b b' :: "nat list time_buffer"
      using that by (simp add: save_when_due_def)
    have upd': "updated_of s' d = updated_in \<lparr> lu_minutes = m, lu_half_hours = h, lu_twelve_hours = t \<rparr> d" for d
      using kept [OF saves(1)] kept [OF saves(2)] kept [OF saves(3)] by (cases d) (auto simp: updated_of_def s' u_def [symmetric])
    show ?thesis
    proof (rule fed [OF vs])
      show "save_when_due (step_of d) (capacity_of d) (updated_of s d) now (buffer_of s d) vs
         = (Ok (buffer_of s' d, updated_of s' d) :: (pair_error, _) outcome)" for d
        using saves unfolding upd upd' by (cases d) (simp_all add: s')
    qed (use False in \<open>simp add: upd\<close>)
  qed
qed

definition oracle_ok :: "asset_valid list \<Rightarrow> oracle_state \<Rightarrow> (nat \<times> price_point list) list \<Rightarrow> bool" where
  "oracle_ok infos s feeds \<longleftrightarrow> (\<forall>d. tb_run (step_of d) (capacity_of d) (buffer_of s d) (sample_log infos d feeds) \<and>
     updated_of s d = last_sample 0 (sampled (step_of d) feeds) \<and> updated_of s Fifteen_minutes < updated_of s d + step_of d)"

lemma steps_pos [simp]: "0 < step_of d" "0 < capacity_of d"
  by (cases d; simp add: minute_def half_hour_def twelve_hours_def)+

lemma oracle_run_ok: "oracle_run infos s feeds \<Longrightarrow> oracle_ok infos s feeds"
proof (induction rule: oracle_run.induct)
  case oracle_fresh
  have "buffer_of oracle_new d = tb_new" "updated_of oracle_new d = 0" for d
    by (cases d; simp add: oracle_new_def updated_of_def no_updates_def)+
  then show ?case by (simp add: oracle_ok_def sample_log_def sampled_def last_sample_def tb_run.tb_fresh)
next
  case (oracle_feed s feeds now prices s')
  have run: "tb_run (step_of d) (capacity_of d) (buffer_of s d) (sample_log infos d feeds)"
    and upd: "updated_of s d = last_sample 0 (sampled (step_of d) feeds)"
    and behind: "updated_of s Fifteen_minutes < updated_of s d + step_of d" for d
    using oracle_feed.IH unfolding oracle_ok_def by blast+
  have late: "\<forall>e\<in>set (sample_log infos d feeds). fst e \<le> now" for d
    using oracle_feed.hyps(2) sampled_subset by (fastforce simp: sample_log_def priced_def)
  have snoc: "sampled (step_of d) (feeds @ [(now, prices)])
      = sampled (step_of d) feeds @ (if updated_of s d + step_of d \<le> now then [(now, prices)] else [])" for d
    unfolding upd by (rule sampled_snoc)
  from oracle_feed.hyps(4) show ?case
  proof (cases rule: store_price_cases)
    case same
    then have unsampled: "sampled (step_of d) (feeds @ [(now, prices)]) = sampled (step_of d) feeds" for d
      unfolding snoc using behind [of d] by simp
    show ?thesis using oracle_feed.IH unfolding oracle_ok_def sample_log_def same(2) unsampled .
  next
    case (fed vs)
    have vs: "vs = map (price_of prices) (combinations infos)"
      using fed(1) ordered_prices_of_pairs [OF oracle_feed.hyps(3)] by (metis outcome.inject(1))
    have step: "tb_run (step_of d) (capacity_of d) (buffer_of s' d)
        (sample_log infos d feeds @ (if updated_of s d + step_of d \<le> now then [(now, vs)] else [])) \<and>
        updated_of s' d = (if updated_of s d + step_of d \<le> now then now else updated_of s d)" for d
      by (rule save_when_due_run [OF fed(2) run late])
    have "updated_of s' d = last_sample 0 (sampled (step_of d) (feeds @ [(now, prices)]))" for d
      using step [of d] by (simp add: snoc last_sample_def upd)
    moreover have "tb_run (step_of d) (capacity_of d) (buffer_of s' d) (sample_log infos d (feeds @ [(now, prices)]))" for d
      using step [of d] by (auto simp: sample_log_def snoc priced_def vs split: if_splits)
    moreover have "updated_of s' Fifteen_minutes < updated_of s' d + step_of d" for d
      using step [of d] step [of Fifteen_minutes] behind [of d] steps_pos(1) [of d] by (auto split: if_splits)
    ultimately show ?thesis by (simp add: oracle_ok_def)
  qed
qed

text \<open>The rows of a history: of every pair the prices it was fed.\<close>

definition history_rows :: "asset_valid list \<Rightarrow> (nat \<times> price_point list) list \<Rightarrow> price_row list" where
  "history_rows infos es = map (\<lambda>(x, y). (x, y, map (\<lambda>e. (fst e, price_of (snd e) (x, y))) es)) (combinations infos)"

lemma query_timebuffer_rows:
  assumes "tb_all b now = map (priced infos) es"
  shows "query_timebuffer b now infos = Ok (history_rows infos es)"
proof -
  let ?cs = "combinations infos"
  have "fold_ok push_prices (map (priced infos) es) (map (\<lambda>(x, y). (x, y, [])) ?cs)
    = Ok (map (\<lambda>i. case map (\<lambda>(x, y). (x, y, [])) ?cs ! i of (a, b, xs) \<Rightarrow> (a, b, xs @ map (\<lambda>e. (fst e, snd e ! i)) (map (priced infos) es)))
           [0..<length (map (\<lambda>(x, y). (x, y, [] :: (nat \<times> nat) list)) ?cs)])"
    by (rule push_prices_fold) (auto simp: priced_def)
  moreover have "\<dots> = Ok (history_rows infos es)"
    by (auto simp: history_rows_def priced_def comp_def intro!: nth_equalityI split: prod.splits)
  ultimately show ?thesis by (simp add: query_timebuffer_def assms)
qed

lemma query_historical_buffer: "query_historical s now infos d = query_timebuffer (buffer_of s d) now infos"
  by (cases d) simp_all

lemma oracle_run_fold:
  assumes "fold_ok (\<lambda>e s. store_price s (fst e) infos (snd e)) feeds oracle_new = Ok s"
    and "sorted (map fst feeds)" "\<forall>e\<in>set feeds. prices_for infos (snd e)"
  shows "oracle_run infos s feeds"
  using assms
proof (induction feeds arbitrary: s rule: rev_induct)
  case Nil
  then show ?case by (simp add: oracle_run.oracle_fresh)
next
  case (snoc e feeds)
  obtain t prices where e: "e = (t, prices)" by force
  obtain s1 where s1: "fold_ok (\<lambda>e s. store_price s (fst e) infos (snd e)) feeds oracle_new = Ok s1"
    "store_price s1 t infos prices = Ok s"
    using snoc.prems(1) by (auto simp: e fold_ok_append and_then_Ok_iff)
  have "oracle_run infos s1 feeds" using snoc.IH [OF s1(1)] snoc.prems(2,3) by (simp add: sorted_append)
  then show ?case unfolding e
    by (rule oracle_run.oracle_feed) (use snoc.prems s1(2) in \<open>auto simp: e sorted_append\<close>)
qed

lemma spaced_steps:
  assumes "sorted_wrt (\<lambda>x y. fst x + step \<le> fst y) log" "\<forall>e\<in>set log. t \<le> fst e" "0 < (step :: nat)"
  shows "sorted_wrt (\<lambda>x y. (fst x - t) div step < (fst y - t) div step) log"
proof (rule sorted_wrt_mono_rel [OF _ assms(1)])
  fix x y assume xy: "x \<in> set log" "y \<in> set log" "fst x + step \<le> fst y"
  have "(fst x - t) div step < (fst x - t + step) div step" using assms(3) by (simp add: div_add_self2)
  also have "\<dots> \<le> (fst y - t) div step" using xy assms(2) by (intro div_le_mono) simp
  finally show "(fst x - t) div step < (fst y - t) div step" .
qed

section \<open>What a history returns\<close>

text \<open>An example: two assets, with the same prices at several times.\<close>

definition demo_infos :: "asset_valid list" where
  "demo_infos = [Valid_native ''ujuno'', Valid_native ''uatom'']"

definition demo_prices :: "nat \<Rightarrow> price_point list" where
  "demo_prices n = [\<lparr> pp_from = Valid_native ''uatom'', pp_to = Valid_native ''ujuno'', pp_price = 7 * n \<rparr>,
                    \<lparr> pp_from = Valid_native ''ujuno'', pp_to = Valid_native ''uatom'', pp_price = n \<rparr>]"

definition demo_feeds :: "nat list \<Rightarrow> (nat \<times> price_point list) list" where
  "demo_feeds ts = map (\<lambda>t. (t, demo_prices t)) ts"

lemmas demo_oracle_defs = demo_infos_def demo_prices_def demo_feeds_def

lemma demo_prices_for [simp]: "prices_for demo_infos (demo_prices n)"
  by (auto simp: prices_for_def demo_infos_def demo_prices_def cartesian_product_def pp_pair_def)

lemma demo_ordered [simp]: "ordered_prices demo_infos (demo_prices n) = Ok [n, 7 * n]"
  unfolding ordered_prices_of_pairs [OF demo_prices_for]
  by (simp add: demo_oracle_defs combinations_def price_of_def pp_pair_def)

lemmas store_demo_defs = store_price_def oracle_new_def no_updates_def save_when_due_def tb_save_def tb_new_def
  minute_def half_hour_def twelve_hours_def Let_def

lemma priced_demo [simp]: "priced demo_infos (t, demo_prices n) = (t, [n, 7 * n])"
  by (simp add: priced_def demo_oracle_defs combinations_def price_of_def pp_pair_def)

lemma demo_history:
  assumes "\<exists>s. fold_ok (\<lambda>e s. store_price s (fst e) demo_infos (snd e)) (demo_feeds ts) oracle_new = Ok s \<and>
      tb_all (or_minutes s) now = map (priced demo_infos) (demo_feeds us)" "sorted ts"
  shows "\<exists>s. oracle_run demo_infos s (demo_feeds ts) \<and>
      query_historical s now demo_infos Fifteen_minutes = Ok (history_rows demo_infos (demo_feeds us))"
proof -
  obtain s where s: "fold_ok (\<lambda>e s. store_price s (fst e) demo_infos (snd e)) (demo_feeds ts) oracle_new = Ok s"
    "tb_all (or_minutes s) now = map (priced demo_infos) (demo_feeds us)"
    using assms(1) by blast
  have "oracle_run demo_infos s (demo_feeds ts)"
    by (rule oracle_run_fold [OF s(1)]) (use assms(2) in \<open>auto simp: demo_feeds_def comp_def\<close>)
  then show ?thesis using query_timebuffer_rows [OF s(2)] by auto
qed

text \<open>C25: While the samples lie within one window of the first one, the history returns exactly the
  sampled feed, in order: for every ordered pair of different assets the prices that were fed for
  this pair, whatever order they were fed in.\<close>

theorem history_is_the_sampled_feed:
  assumes "oracle_run infos s feeds"
    and "\<forall>e\<in>set (sampled (step_of d) feeds). fst e < fst (hd (sampled (step_of d) feeds)) + step_of d * capacity_of d"
  shows "query_historical s now infos d = Ok (history_rows infos (sampled (step_of d) feeds))"
proof -
  let ?es = "sampled (step_of d) feeds" and ?log = "sample_log infos d feeds"
  have run: "tb_run (step_of d) (capacity_of d) (buffer_of s d) ?log"
    using oracle_run_ok [OF assms(1)] by (simp add: oracle_ok_def)
  have "tb_all (buffer_of s d) now = ?log"
  proof (cases "?es = []")
    case True
    then have "tb_run (step_of d) (capacity_of d) (buffer_of s d) []" using run by (simp add: sample_log_def)
    then have "buffer_of s d = tb_new" by (cases rule: tb_run.cases) auto
    then show ?thesis using True by (simp add: sample_log_def tb_all_def tb_new_def)
  next
    case False
    then have first: "?log \<noteq> []" "fst (hd ?log) = fst (hd ?es)" by (simp_all add: sample_log_def hd_map priced_def)
    have late: "fst (hd ?es) \<le> fst e" if "e \<in> set ?es" for e
      using sampled_spaced [of "step_of d" feeds] that False by (cases ?es) (auto dest: add_leD1)
    have "sorted_wrt (\<lambda>x y. fst x + step_of d \<le> fst y) ?log" "\<forall>e\<in>set ?log. fst (hd ?es) \<le> fst e"
      using sampled_spaced [of "step_of d" feeds] late by (auto simp: sample_log_def priced_def sorted_wrt_map)
    then have "sorted_wrt (\<lambda>x y. (fst x - fst (hd ?es)) div step_of d < (fst y - fst (hd ?es)) div step_of d) ?log"
      by (rule spaced_steps) simp
    then have held: "tb_start (buffer_of s d) = Some (0, fst (hd ?log)) \<and>
        tb_data (buffer_of s d) = map (\<lambda>e. ((fst e - fst (hd ?log)) div step_of d, e)) ?log"
      using assms(2) first by (intro first_window [OF run]) (auto simp: sample_log_def priced_def)
    have "\<forall>e\<in>set ?log. fst (hd ?log) \<le> fst e" using late first(2) by (auto simp: sample_log_def priced_def)
    then show ?thesis by (rule tb_all_first_window [OF conjunct1 [OF held] conjunct2 [OF held]])
  qed
  then show ?thesis unfolding query_historical_buffer sample_log_def by (rule query_timebuffer_rows)
qed

theorem history_is_the_sampled_feed_witness:
  "\<exists>s. query_historical s 200 demo_infos Fifteen_minutes
     = Ok [(Valid_native ''ujuno'', Valid_native ''uatom'', [(60, 60), (120, 120), (200, 200)]),
           (Valid_native ''uatom'', Valid_native ''ujuno'', [(60, 420), (120, 840), (200, 1400)])]"
proof -
  let ?feeds = "demo_feeds [60, 100, 120, 200]"
  obtain s where "fold_ok (\<lambda>e s. store_price s (fst e) demo_infos (snd e)) ?feeds oracle_new = Ok s"
    by (simp add: demo_feeds_def store_demo_defs)
  then have "oracle_run demo_infos s ?feeds"
    by (rule oracle_run_fold) (simp_all add: demo_feeds_def)
  from history_is_the_sampled_feed [OF this, of Fifteen_minutes 200] show ?thesis
    by (intro exI [of _ s])
      (simp add: sampled_def demo_oracle_defs minute_def history_rows_def combinations_def price_of_def pp_pair_def)
qed

text \<open>C28: Whatever was fed before, a history holds at most as many entries as the buffer has slots,
  every entry is one of the sampled feed with the prices of its pair, the newest sample is among them,
  and no entry is older than the window of the buffer before the newest sample.\<close>

theorem history_stays_within_its_window:
  assumes "oracle_run infos s feeds" "sampled (step_of d) feeds \<noteq> []"
  shows "\<exists>es. query_historical s now infos d = Ok (history_rows infos es) \<and> set es \<subseteq> set (sampled (step_of d) feeds) \<and>
    length es \<le> capacity_of d \<and> fst (last (sampled (step_of d) feeds)) \<in> fst ` set es \<and>
    (\<forall>e\<in>set es. fst (last (sampled (step_of d) feeds)) < fst e + step_of d * capacity_of d)"
proof -
  let ?es = "sampled (step_of d) feeds" and ?log = "sample_log infos d feeds" and ?b = "buffer_of s d"
  have "tb_ok (step_of d) (capacity_of d) ?b ?log"
    using oracle_run_ok [OF assms(1)] by (intro tb_run_ok) (simp_all add: oracle_ok_def)
  moreover have newest: "?log \<noteq> []" "fst (last ?log) = fst (last ?es)"
    using assms(2) by (simp_all add: sample_log_def last_map priced_def)
  ultimately obtain index time where start: "tb_start ?b = Some (index, time)"
    and ok: "kv_ok (tb_data ?b)" "\<forall>k\<in>fst ` set (tb_data ?b). k < capacity_of d" "snd ` set (tb_data ?b) \<subseteq> set ?log"
    and window: "time \<le> fst (last ?es)" "fst (last ?es) < time + step_of d * capacity_of d" "last ?log \<in> snd ` set (tb_data ?b)"
    by (auto simp: tb_ok_def split: option.splits)
  have entries: "set (tb_all ?b now) = {e \<in> snd ` set (tb_data ?b). time \<le> fst e}" by (rule tb_all_entries(1) [OF start])
  then have "tb_all ?b now \<in> lists (priced infos ` set ?es)" using ok(3) by (auto simp: sample_log_def)
  then obtain es where es: "set es \<subseteq> set ?es" "tb_all ?b now = map (priced infos) es"
    unfolding lists_image by auto
  have times: "fst ` set es = fst ` set (tb_all ?b now)" by (simp add: es(2) priced_def image_image)
  have "length es \<le> capacity_of d"
    using tb_all_entries(2) [OF start, of now] keys_below_length [OF ok(1,2)] by (simp add: es(2))
  moreover have "fst (last ?es) \<in> fst ` set es"
    unfolding times entries using window newest(2) by (metis (mono_tags, lifting) image_eqI mem_Collect_eq)
  moreover have "fst (last ?es) < fst e + step_of d * capacity_of d" if "e \<in> set es" for e
  proof -
    have "fst e \<in> fst ` set (tb_all ?b now)" using that unfolding times [symmetric] by blast
    then show ?thesis unfolding entries using window(2) by auto
  qed
  moreover have "query_historical s now infos d = Ok (history_rows infos es)"
    unfolding query_historical_buffer by (rule query_timebuffer_rows [OF es(2)])
  ultimately show ?thesis using es(1) by blast
qed

theorem history_stays_within_its_window_witness:
  "\<exists>s es. query_historical s 1080 demo_infos Fifteen_minutes = Ok (history_rows demo_infos es) \<and>
     length es \<le> 15 \<and> 1080 \<in> fst ` set es \<and> (\<forall>e\<in>set es. 180 < fst e)"
proof -
  let ?feeds = "demo_feeds [60, 960, 1020, 1080]"
  obtain s where "fold_ok (\<lambda>e s. store_price s (fst e) demo_infos (snd e)) ?feeds oracle_new = Ok s"
    by (simp add: demo_feeds_def store_demo_defs)
  then have "oracle_run demo_infos s ?feeds"
    by (rule oracle_run_fold) (simp_all add: demo_feeds_def)
  from history_stays_within_its_window [OF this, of Fifteen_minutes 1080] show ?thesis
    by (intro exI [of _ s]) (auto simp: sampled_def demo_feeds_def minute_def)
qed

text \<open>After the window has moved a history can lose and disorder recent prices: of prices fed
  60, 960, 1020 and 1080 seconds after the start, the history of the last fifteen minutes has no price
  of second 1020, and of prices fed at 60, 1260, 2160 and 2220 it returns the last two in the wrong
  order.\<close>

theorem history_can_lose_and_disorder_prices:
  "(\<exists>s. oracle_run demo_infos s (demo_feeds [60, 960, 1020, 1080]) \<and>
        query_historical s 1080 demo_infos Fifteen_minutes = Ok (history_rows demo_infos (demo_feeds [960, 1080]))) \<and>
   (\<exists>s. oracle_run demo_infos s (demo_feeds [60, 1260, 2160, 2220]) \<and>
        query_historical s 2220 demo_infos Fifteen_minutes = Ok (history_rows demo_infos (demo_feeds [2220, 2160])))"
proof (intro conjI)
  have "\<exists>s. fold_ok (\<lambda>e s. store_price s (fst e) demo_infos (snd e)) (demo_feeds [60, 960, 1020, 1080]) oracle_new = Ok s \<and>
      tb_all (or_minutes s) 1080 = map (priced demo_infos) (demo_feeds [960, 1080])"
    by (simp add: demo_feeds_def store_demo_defs tb_all_def)
  then show "\<exists>s. oracle_run demo_infos s (demo_feeds [60, 960, 1020, 1080]) \<and>
      query_historical s 1080 demo_infos Fifteen_minutes = Ok (history_rows demo_infos (demo_feeds [960, 1080]))"
    by (rule demo_history) simp
  have "\<exists>s. fold_ok (\<lambda>e s. store_price s (fst e) demo_infos (snd e)) (demo_feeds [60, 1260, 2160, 2220]) oracle_new = Ok s \<and>
      tb_all (or_minutes s) 2220 = map (priced demo_infos) (demo_feeds [2220, 2160])"
    by (simp add: demo_feeds_def store_demo_defs tb_all_def)
  then show "\<exists>s. oracle_run demo_infos s (demo_feeds [60, 1260, 2160, 2220]) \<and>
      query_historical s 2220 demo_infos Fifteen_minutes = Ok (history_rows demo_infos (demo_feeds [2220, 2160]))"
    by (rule demo_history) simp
qed

end
