(* ===== verification/Token_System.thy ===== *)
theory Token_System
  imports Staking_Proofs Vesting_Safety
begin

text \<open>
  A token and the staking contract together, as the chain runs them: a message to the token and the
  hooks it triggers, or a message to the staking contract and the transfers it asks for, form one
  transaction.  Both tokens of the repository take the part of the token, \<open>cw20-base\<close> and
  \<open>cw20-vesting\<close>.
\<close>

section \<open>Transactions\<close>

text \<open>
  A token contract: its entry point, and the message by which another contract asks it for a
  transfer.  The hooks it calls are those of the vesting token, which has one more.
\<close>

record ('t, 'm, 'e) token_contract =
  tc_execute :: "'t \<Rightarrow> env \<Rightarrow> message_info \<Rightarrow> 'm \<Rightarrow> ('e, 't \<times> vest_out list) outcome"
  tc_transfer :: "string \<Rightarrow> nat \<Rightarrow> 'm"

text \<open>The addresses of both contracts, and the decoding of the payload of a hook.\<close>

record deployment =
  at_token :: addr
  at_staking :: addr
  hook_of :: "bytes \<Rightarrow> (std_error, cw20_hook_msg) outcome"

record 't joint =
  jt_token :: 't
  jt_staking :: staking_state

datatype 'e joint_error = Token_call 'e | Staking_call std_error | Unknown_message

datatype 'm joint_msg = To_token 'm | To_staking staking_msg

definition env_at :: "block_info \<Rightarrow> addr \<Rightarrow> env" where
  "env_at b a = \<lparr> block = b, contract_address = a \<rparr>"

text \<open>
  The transfers the staking contract asks for, in order.  A transfer that is addressed to anything
  but the token reaches a contract without such a message.
\<close>

fun pay_transfers ::
  "('t, 'm, 'e) token_contract \<Rightarrow> deployment \<Rightarrow> block_info \<Rightarrow> transfer_msg list \<Rightarrow> 't \<Rightarrow> ('e joint_error, 't) outcome"
where
  "pay_transfers C D b [] t = Ok t"
| "pay_transfers C D b (m # ms) t =
     (if tm_target m \<noteq> at_token D then Err Unknown_message
      else and_then (map_err Token_call
             (tc_execute C t (env_at b (at_token D)) \<lparr> sender = at_staking D \<rparr>
               (tc_transfer C (tm_recipient m) (tm_amount m)))) (\<lambda>(t', out).
           pay_transfers C D b ms t'))"

definition call_staking ::
  "platform \<Rightarrow> ('t, 'm, 'e) token_contract \<Rightarrow> deployment \<Rightarrow> block_info \<Rightarrow> addr \<Rightarrow> staking_msg \<Rightarrow> 't joint
     \<Rightarrow> ('e joint_error, 't joint) outcome"
where
  "call_staking P C D b who msg j =
     and_then (map_err Staking_call
       (staking_execute P (jt_staking j) (env_at b (at_staking D)) \<lparr> sender = who \<rparr> msg)) (\<lambda>(s', ts).
     and_then (pay_transfers C D b ts (jt_token j)) (\<lambda>t'.
     Ok (j\<lparr> jt_token := t', jt_staking := s' \<rparr>)))"

text \<open>
  The hooks of a token.  Those to other contracts leave these two contracts alone; what such a
  contract then does is a transaction of its own.  The staking contract knows no delegation hook.
\<close>

fun deliver ::
  "platform \<Rightarrow> ('t, 'm, 'e) token_contract \<Rightarrow> deployment \<Rightarrow> block_info \<Rightarrow> vest_out list \<Rightarrow> 't joint
     \<Rightarrow> ('e joint_error, 't joint) outcome"
where
  "deliver P C D b [] j = Ok j"
| "deliver P C D b (Receive m # ms) j =
     (if receiver m = at_staking D then
        and_then (call_staking P C D b (at_token D)
          (Stk_receive (receive_sender m) (receive_amount m) (hook_of D (receive_payload m))) j) (\<lambda>j'.
        deliver P C D b ms j')
      else deliver P C D b ms j)"
| "deliver P C D b (Receive_delegation m # ms) j =
     (if receiver m = at_staking D then Err Unknown_message else deliver P C D b ms j)"

definition call_token ::
  "platform \<Rightarrow> ('t, 'm, 'e) token_contract \<Rightarrow> deployment \<Rightarrow> block_info \<Rightarrow> addr \<Rightarrow> 'm \<Rightarrow> 't joint
     \<Rightarrow> ('e joint_error, 't joint) outcome"
where
  "call_token P C D b who msg j =
     and_then (map_err Token_call
       (tc_execute C (jt_token j) (env_at b (at_token D)) \<lparr> sender = who \<rparr> msg)) (\<lambda>(t', out).
     deliver P C D b out (j\<lparr> jt_token := t' \<rparr>))"

fun joint_tx ::
  "platform \<Rightarrow> ('t, 'm, 'e) token_contract \<Rightarrow> deployment \<Rightarrow> block_info \<Rightarrow> addr \<Rightarrow> 'm joint_msg \<Rightarrow> 't joint
     \<Rightarrow> ('e joint_error, 't joint) outcome"
where
  "joint_tx P C D b who (To_token m) j = call_token P C D b who m j"
| "joint_tx P C D b who (To_staking m) j = call_staking P C D b who m j"

text \<open>
  The states the two contracts reach: the token exists and the new staking contract has granted no
  allowance; then anybody but the two contracts sends messages, at any time.
\<close>

definition no_grant :: "(addr \<times> addr, allowance) kv \<Rightarrow> addr \<Rightarrow> bool" where
  "no_grant al a \<longleftrightarrow> (\<forall>sp. kv_get al (a, sp) = None)"

inductive joint_run ::
  "platform \<Rightarrow> ('t, 'm, 'e) token_contract \<Rightarrow> ('t \<Rightarrow> bool) \<Rightarrow> deployment \<Rightarrow> 't joint \<Rightarrow> bool"
for P C fresh D where
  joint_start: "fresh t \<Longrightarrow> at_staking D \<noteq> at_token D \<Longrightarrow>
    staking_instantiate P e info msg = Ok s \<Longrightarrow> im_token msg = at_token D \<Longrightarrow>
    joint_run P C fresh D \<lparr> jt_token = t, jt_staking = s \<rparr>"
| joint_step: "joint_run P C fresh D j \<Longrightarrow> who \<noteq> at_staking D \<Longrightarrow> who \<noteq> at_token D \<Longrightarrow>
    joint_tx P C D b who msg j = Ok j' \<Longrightarrow> joint_run P C fresh D j'"

section \<open>What the staking contract needs of a token\<close>

lemma staking_keeps_token:
  assumes "staking_execute P s e info msg = Ok (s', ts)" "platform_exact P"
  shows "token_addr (config s') = token_addr (config s)"
proof (cases "administrative msg")
  case True
  then show ?thesis using admin_step [OF assms(1)] by simp
next
  case False
  then show ?thesis
  proof (cases msg)
    case Stk_distribute
    then have "execute_distribute s e = Ok s'" using assms by (simp add: staking_ok)
    then show ?thesis by (auto simp: execute_distribute_def Let_def outcome_simps split: if_splits)
  next
    case (Stk_receive giver n payload)
    then have "receive_cw20 P s e info giver n payload = Ok s'" using assms by (simp add: staking_ok)
    then show ?thesis
    proof (cases rule: receive_cases)
      case (stake d')
      from stake(3) assms(2) show ?thesis by (rule stake_cases) simp
    qed simp
  next
    case (Stk_claim d)
    then have "execute_claim P s e (sender info) d = Ok (s', ts)" using assms by simp
    then show ?thesis by (rule claim_cases) simp
  next
    case (Stk_restake d)
    then have "execute_restake P s e (sender info) d = Ok s'" using assms by (simp add: staking_ok)
    then show ?thesis by (rule restake_cases) (use assms(2) in simp_all)
  next
    case (Stk_unstake_and_claim d)
    then have "execute_unstake P s e (sender info) d = Ok (s', ts)" using assms by simp
    then show ?thesis by (rule unstake_cases) simp
  qed simp_all
qed

text \<open>What hooks announce to have arrived at an address.\<close>

fun arrived :: "addr \<Rightarrow> vest_out \<Rightarrow> nat" where
  "arrived a (Receive m) = (if receiver m = a then receive_amount m else 0)"
| "arrived a (Receive_delegation m) = 0"

text \<open>
  A token that is safe to hold: the holder loses at most what it transfers, nobody else takes
  anything from a holder without allowances, and every hook announces tokens that did arrive.
\<close>

locale safe_token =
  fixes C :: "('t, 'm, 'e) token_contract"
    and bal :: "'t \<Rightarrow> addr \<Rightarrow> nat"
    and held :: "'t \<Rightarrow> addr \<Rightarrow> bool"
  assumes others: "tc_execute C t e info m = Ok (t', out) \<Longrightarrow> held t a \<Longrightarrow> sender info \<noteq> a \<Longrightarrow>
      held t' a \<and> length out \<le> 1 \<and> bal t a + sum_list (map (arrived a) out) \<le> bal t' a"
    and transfers: "tc_execute C t e info (tc_transfer C r n) = Ok (t', out) \<Longrightarrow> held t (sender info) \<Longrightarrow>
      held t' (sender info) \<and> bal t (sender info) \<le> bal t' (sender info) + n"
begin

lemma pay_transfers_cost:
  "pay_transfers C D b ts t = Ok t' \<Longrightarrow> held t (at_staking D) \<Longrightarrow>
     held t' (at_staking D) \<and> (\<forall>m\<in>set ts. tm_target m = at_token D) \<and>
     bal t (at_staking D) \<le> bal t' (at_staking D) + sum_list (map tm_amount ts)"
proof (induction ts arbitrary: t)
  case (Cons m ms)
  from Cons.prems(1) obtain t1 out where target: "tm_target m = at_token D"
    and run: "tc_execute C t (env_at b (at_token D)) \<lparr> sender = at_staking D \<rparr>
        (tc_transfer C (tm_recipient m) (tm_amount m)) = Ok (t1, out)"
    and rest: "pay_transfers C D b ms t1 = Ok t'"
    by (auto simp: outcome_simps split: if_splits)
  have "held t1 (at_staking D) \<and> bal t (at_staking D) \<le> bal t1 (at_staking D) + tm_amount m"
    using transfers [OF run] Cons.prems(2) by simp
  with Cons.IH [OF rest] target show ?case by auto
qed simp

text \<open>The books of the staking contract are backed by its tokens.\<close>

definition backed :: "deployment \<Rightarrow> 't joint \<Rightarrow> bool" where
  "backed D j \<longleftrightarrow> held (jt_token j) (at_staking D) \<and> books_ok (jt_staking j) \<and>
     token_addr (config (jt_staking j)) = at_token D \<and> at_staking D \<noteq> at_token D \<and>
     owed (jt_staking j) \<le> bal (jt_token j) (at_staking D)"

lemma call_staking_backed:
  assumes "call_staking P C D b who msg j = Ok j'" and "platform_exact P"
    and "held (jt_token j) (at_staking D)" "books_ok (jt_staking j)" "token_addr (config (jt_staking j)) = at_token D"
    and "at_staking D \<noteq> at_token D"
    and "owed (jt_staking j) + tokens_in (jt_staking j) \<lparr> sender = who \<rparr> msg \<le> bal (jt_token j) (at_staking D)"
  shows "backed D j'"
proof -
  obtain s' ts t' where run: "staking_execute P (jt_staking j) (env_at b (at_staking D)) \<lparr> sender = who \<rparr> msg = Ok (s', ts)"
    and pay: "pay_transfers C D b ts (jt_token j) = Ok t'" and j': "j' = j\<lparr> jt_token := t', jt_staking := s' \<rparr>"
    using assms(1) by (auto simp: call_staking_def outcome_simps)
  note cost = pay_transfers_cost [OF pay assms(3)]
  have "tokens_out (jt_staking j) ts = sum_list (map tm_amount ts)"
    using cost assms(5) by (simp add: tokens_out_def)
  moreover have "books_ok s' \<and> owed s' + tokens_out (jt_staking j) ts
      = owed (jt_staking j) + tokens_in (jt_staking j) \<lparr> sender = who \<rparr> msg"
    using staking_step_books [OF run assms(2,4)] assms(5,6) by (simp add: env_at_def)
  ultimately show ?thesis
    using cost assms(5-7) staking_keeps_token [OF run assms(2)] by (simp add: backed_def j')
qed

lemma deliver_backed:
  assumes "deliver P C D b out j = Ok j'" and "platform_exact P"
    and "held (jt_token j) (at_staking D)" "books_ok (jt_staking j)" "token_addr (config (jt_staking j)) = at_token D"
    and "at_staking D \<noteq> at_token D" "length out \<le> 1"
    and "owed (jt_staking j) + sum_list (map (arrived (at_staking D)) out) \<le> bal (jt_token j) (at_staking D)"
  shows "backed D j'"
proof (cases out)
  case Nil
  then show ?thesis using assms by (simp add: backed_def)
next
  case (Cons x xs)
  then have out: "out = [x]" using assms(7) by simp
  show ?thesis
  proof (cases x)
    case (Receive m)
    show ?thesis
    proof (cases "receiver m = at_staking D")
      case True
      then have "call_staking P C D b (at_token D)
          (Stk_receive (receive_sender m) (receive_amount m) (hook_of D (receive_payload m))) j = Ok j'"
        using assms(1) by (simp add: out Receive outcome_simps)
      then show ?thesis
        by (rule call_staking_backed) (use assms(2-6,8) True in \<open>simp_all add: out Receive tokens_in_def\<close>)
    next
      case False
      then show ?thesis using assms by (simp add: out Receive backed_def)
    qed
  next
    case (Receive_delegation m)
    then show ?thesis using assms by (auto simp: out backed_def split: if_splits)
  qed
qed

lemma joint_tx_backed:
  assumes "joint_tx P C D b who msg j = Ok j'" and "platform_exact P" "backed D j"
    and "who \<noteq> at_staking D" "who \<noteq> at_token D"
  shows "backed D j'"
proof (cases msg)
  case (To_staking m)
  have call: "call_staking P C D b who m j = Ok j'" using assms(1) by (simp add: To_staking)
  have "tokens_in (jt_staking j) \<lparr> sender = who \<rparr> m = 0 \<or> (\<exists>giver n p. m = Stk_receive giver n p)"
    by (cases m) (simp_all add: tokens_in_def)
  then show ?thesis
  proof
    assume "tokens_in (jt_staking j) \<lparr> sender = who \<rparr> m = 0"
    then show ?thesis using assms(3) by (intro call_staking_backed [OF call assms(2)]) (simp_all add: backed_def)
  next
    assume "\<exists>giver n p. m = Stk_receive giver n p"
    then obtain giver n p s' where "receive_cw20 P (jt_staking j) (env_at b (at_staking D)) \<lparr> sender = who \<rparr> giver n p = Ok s'"
      using call by (auto simp: call_staking_def outcome_simps staking_ok)
    then have "who = at_token D" using assms(3) by (cases rule: receive_cases) (simp_all add: backed_def)
    then show ?thesis using assms(5) by simp
  qed
next
  case (To_token m)
  then obtain t' out where run: "tc_execute C (jt_token j) (env_at b (at_token D)) \<lparr> sender = who \<rparr> m = Ok (t', out)"
    and del: "deliver P C D b out (j\<lparr> jt_token := t' \<rparr>) = Ok j'"
    using assms(1) by (auto simp: call_token_def outcome_simps)
  have "held t' (at_staking D) \<and> length out \<le> 1 \<and>
      bal (jt_token j) (at_staking D) + sum_list (map (arrived (at_staking D)) out) \<le> bal t' (at_staking D)"
    using others [OF run, of "at_staking D"] assms(3,4) by (simp add: backed_def)
  then show ?thesis
    using assms(3) by (intro deliver_backed [OF del assms(2)]) (simp_all add: backed_def)
qed

lemma joint_run_backed:
  assumes "joint_run P C fresh D j" "platform_exact P"
    and "\<And>t. fresh t \<Longrightarrow> held t (at_staking D)"
  shows "backed D j"
  using assms(1)
proof (induction rule: joint_run.induct)
  case (joint_start t e info msg s)
  have "token_addr (config s) = at_token D" "total_staked s = []" "reward_in_contract s = 0"
    using joint_start.hyps(3,4) assms(2) by (auto simp: staking_instantiate_def outcome_simps Let_def dest: platform_exactD)
  then show ?case
    using assms(3) [OF joint_start.hyps(1)] joint_start.hyps(2) staking_instantiate_books [OF joint_start.hyps(3)]
    by (simp add: backed_def owed_def kv_total_def)
next
  case (joint_step j who b msg j')
  then show ?case using joint_tx_backed assms(2) by blast
qed

end

text \<open>With a token that also pays out every transfer its balances cover, nothing gets stuck.\<close>

locale paying_token = safe_token C bal held
  for C :: "('t, 'm, 'e) token_contract" and bal held +
  fixes P :: platform
  assumes pays: "held t (sender info) \<Longrightarrow> addr_validate P r = Ok r \<Longrightarrow> n \<le> bal t (sender info) \<Longrightarrow>
      \<exists>t' out. tc_execute C t e info (tc_transfer C r n) = Ok (t', out)"
    and paid: "tc_execute C t e info (tc_transfer C r n) = Ok (t', out) \<Longrightarrow> held t (sender info) \<Longrightarrow>
      addr_validate P r = Ok r \<Longrightarrow> r \<noteq> sender info \<Longrightarrow>
      bal t' r = bal t r + n \<and> bal t' (sender info) + n = bal t (sender info)"
begin

lemma pay_transfers_works:
  assumes "held t (at_staking D)" "\<forall>m\<in>set ts. tm_target m = at_token D \<and> tm_recipient m = who"
    and "addr_validate P who = Ok who" "who \<noteq> at_staking D"
    and "sum_list (map tm_amount ts) \<le> bal t (at_staking D)"
  shows "\<exists>t'. pay_transfers C D b ts t = Ok t' \<and> bal t' who = bal t who + sum_list (map tm_amount ts)"
  using assms(1,2,5)
proof (induction ts arbitrary: t)
  case (Cons m ms)
  let ?e = "env_at b (at_token D)" and ?i = "\<lparr> sender = at_staking D \<rparr>"
  obtain t1 out where run: "tc_execute C t ?e ?i (tc_transfer C who (tm_amount m)) = Ok (t1, out)"
    using pays [of t ?i who "tm_amount m" ?e] Cons.prems assms(3) by auto
  have moved: "bal t1 who = bal t who + tm_amount m" "bal t1 (at_staking D) + tm_amount m = bal t (at_staking D)"
    using paid [OF run] Cons.prems(1) assms(3,4) by simp_all
  have "held t1 (at_staking D)" using transfers [OF run] Cons.prems(1) by simp
  moreover have "\<forall>m\<in>set ms. tm_target m = at_token D \<and> tm_recipient m = who" using Cons.prems(2) by simp
  moreover have "sum_list (map tm_amount ms) \<le> bal t1 (at_staking D)" using Cons.prems(3) moved(2) by simp
  ultimately obtain t' where "pay_transfers C D b ms t1 = Ok t'" "bal t' who = bal t1 who + sum_list (map tm_amount ms)"
    using Cons.IH by blast
  then show ?case using Cons.prems(2) run moved by simp
qed simp

lemma payout_goes_through:
  assumes "backed D j" "platform_exact P"
    and "staking_execute P (jt_staking j) (env_at b (at_staking D)) \<lparr> sender = who \<rparr> m = Ok (s', ts)"
    and "m = Stk_unstake_and_claim d \<or> m = Stk_claim d"
    and "addr_validate P who = Ok who" "who \<noteq> at_staking D"
  shows "\<exists>t'. joint_tx P C D b who (To_staking m) j = Ok (j\<lparr> jt_token := t', jt_staking := s' \<rparr>) \<and>
    bal t' who = bal (jt_token j) who + sum_list (map tm_amount ts)"
proof -
  have ts: "\<forall>t\<in>set ts. tm_target t = at_token D \<and> tm_recipient t = who"
    using assms(1,3,4) by (auto simp: backed_def elim!: unstake_cases claim_cases split: if_splits)
  then have out: "tokens_out (jt_staking j) ts = sum_list (map tm_amount ts)"
    using assms(1) by (simp add: tokens_out_def backed_def)
  have "tokens_in (jt_staking j) \<lparr> sender = who \<rparr> m = 0" using assms(4) by (auto simp: tokens_in_def)
  then have "sum_list (map tm_amount ts) \<le> bal (jt_token j) (at_staking D)"
    using staking_step_books [OF assms(3,2)] assms(1) by (simp add: backed_def env_at_def out)
  then obtain t' where "pay_transfers C D b ts (jt_token j) = Ok t'" "bal t' who = bal (jt_token j) who + sum_list (map tm_amount ts)"
    using pay_transfers_works [of "jt_token j" D ts who b] assms(1,5,6) ts by (auto simp: backed_def)
  then show ?thesis by (intro exI [of _ t']) (simp add: call_staking_def assms(3))
qed

end

section \<open>The plain token\<close>

definition base_token :: "platform \<Rightarrow> (token_state, token_msg, token_error) token_contract" where
  "base_token P = \<lparr> tc_execute = (\<lambda>t e info m. and_then (token_execute P t e info m) (\<lambda>(t', out). Ok (t', map Receive out))),
     tc_transfer = Transfer \<rparr>"

definition base_held :: "platform \<Rightarrow> token_state \<Rightarrow> addr \<Rightarrow> bool" where
  "base_held P t a \<longleftrightarrow> platform_exact P \<and> token_inv t \<and> no_grant (allowances t) a"

lemma no_grant_set: "no_grant al a \<Longrightarrow> own \<noteq> a \<Longrightarrow> no_grant (kv_set al (own, sp) v) a"
  by (simp add: no_grant_def)

lemma no_grant_del: "no_grant al a \<Longrightarrow> no_grant (kv_del al k) a"
  by (simp add: no_grant_def)

text \<open>An allowance that nobody granted cannot be used.\<close>

lemma deduct_no_grant:
  assumes "deduct_allowance P s own sp b n = Ok (t, r)" "no_grant (allowances s) a"
  shows "own \<noteq> a \<and> no_grant (allowances t) a \<and> balances t = balances s"
  using assms(1)
proof (rule deduct_cases)
  fix x x' assume "kv_get (allowances s) (own, sp) = Some x"
    and t: "t = s\<lparr> allowances := kv_set (allowances s) (own, sp) (x\<lparr> allowed := allowed x - n \<rparr>),
      allowances_spender := kv_set (allowances_spender s) (sp, own) (x'\<lparr> allowed := allowed x' - n \<rparr>) \<rparr>"
  then have "own \<noteq> a" using assms(2) by (auto simp: no_grant_def)
  then show ?thesis using assms(2) by (simp add: t no_grant_set)
qed

lemma moved_gain: "n \<le> kv_nat bs own \<Longrightarrow> own \<noteq> a \<Longrightarrow> kv_nat (moved bs own b n) a = kv_nat bs a + (if b = a then n else 0)"
  by (auto simp: moved_nat)

lemma token_execute_held:
  assumes run: "token_execute P s e info m = Ok (s', out)" and P: "platform_exact P"
    and grants: "no_grant (allowances s) a" and other: "sender info \<noteq> a"
  shows "no_grant (allowances s') a \<and> length out \<le> 1 \<and>
    kv_nat (balances s) a + sum_list (map (arrived a) (map Receive out)) \<le> kv_nat (balances s') a"
proof (cases m)
  case (Transfer r n)
  with run assms show ?thesis by (auto simp: token_ok moved_gain elim!: transfer_cases)
next
  case (Burn n)
  with run assms show ?thesis by (auto simp: token_ok elim!: burn_cases)
next
  case (Send c n p)
  with run have "execute_send P s info c n p = Ok (s', out)" by simp
  then show ?thesis by (rule send_cases) (use grants other P in \<open>auto simp: moved_gain dest: platform_exactD\<close>)
next
  case (Mint r n)
  with run assms show ?thesis by (auto simp: token_ok elim!: mint_cases)
next
  case (Increase_allowance sp n ex)
  with run assms show ?thesis by (auto simp: token_ok no_grant_set elim!: increase_cases)
next
  case (Decrease_allowance sp n ex)
  with run assms show ?thesis by (auto simp: token_ok no_grant_set no_grant_del elim!: decrease_cases)
next
  case (Transfer_from own r n)
  with run have "execute_transfer_from P s e info own r n = Ok s'" "out = []" by (simp_all add: token_ok)
  from this(1) show ?thesis
    by (rule transfer_from_cases) (use grants \<open>out = []\<close> in \<open>auto simp: moved_gain dest!: deduct_no_grant [where a = a]\<close>)
next
  case (Burn_from own n)
  with run have "execute_burn_from P s e info own n = Ok s'" "out = []" by (simp_all add: token_ok)
  from this(1) show ?thesis
    by (rule burn_from_cases) (use grants \<open>out = []\<close> in \<open>auto dest!: deduct_no_grant [where a = a]\<close>)
next
  case (Send_from own c n p)
  with run have sent: "execute_send_from P s e info own c n p = Ok (s', out)" by simp
  then have "out = [\<lparr> receiver = c, receive_sender = sender info, receive_amount = n, receive_payload = p \<rparr>]"
    by (auto simp: execute_send_from_def outcome_simps split: prod.splits)
  with sent show ?thesis
    by (cases rule: send_from_cases) (use grants P in \<open>auto simp: moved_gain dest!: deduct_no_grant [where a = a] dest: platform_exactD\<close>)
next
  case (Update_marketing p d mk)
  with run grants show ?thesis by (auto simp: token_ok elim!: update_marketing_cases)
next
  case (Upload_logo l)
  with run grants show ?thesis by (auto simp: token_ok elim!: upload_logo_cases)
next
  case (Update_minter nm)
  with run grants show ?thesis by (auto simp: token_ok elim!: update_minter_cases)
qed

definition base_bal :: "token_state \<Rightarrow> addr \<Rightarrow> nat" where
  "base_bal t a = kv_nat (balances t) a"

lemma base_tc_Ok:
  "tc_execute (base_token P) t e info m = Ok (t', out) \<longleftrightarrow> (\<exists>rs. token_execute P t e info m = Ok (t', rs) \<and> out = map Receive rs)"
  by (auto simp: base_token_def outcome_simps)

lemma token_transfer_self:
  assumes "token_execute P t e info (Transfer r n) = Ok (t', out)"
  shows "allowances t' = allowances t \<and> out = [] \<and> kv_nat (balances t) (sender info) \<le> kv_nat (balances t') (sender info) + n"
  using assms by (auto simp: token_ok moved_nat elim!: transfer_cases)

interpretation base: safe_token "base_token P" base_bal "base_held P" for P
proof unfold_locales
  fix t e info m t' out a
  assume run: "tc_execute (base_token P) t e info m = Ok (t', out)" and held: "base_held P t a" "sender info \<noteq> a"
  obtain rs where rs: "token_execute P t e info m = Ok (t', rs)" "out = map Receive rs"
    using run by (auto simp: base_tc_Ok)
  show "base_held P t' a \<and> length out \<le> 1 \<and> base_bal t a + sum_list (map (arrived a) out) \<le> base_bal t' a"
    using token_execute_held [OF rs(1) _ _ held(2)] token_execute_inv [OF rs(1)] held(1)
    by (simp add: base_held_def base_bal_def rs(2))
next
  fix t e info r n t' out
  assume run: "tc_execute (base_token P) t e info (tc_transfer (base_token P) r n) = Ok (t', out)" and held: "base_held P t (sender info)"
  obtain rs where rs: "token_execute P t e info (Transfer r n) = Ok (t', rs)"
    using run by (auto simp: base_tc_Ok) (auto simp: base_token_def)
  show "base_held P t' (sender info) \<and> base_bal t (sender info) \<le> base_bal t' (sender info) + n"
    using token_transfer_self [OF rs] token_execute_inv [OF rs] held by (simp add: base_held_def base_bal_def)
qed

text \<open>A transfer that the balance covers succeeds, because the supply bounds every balance.\<close>

lemma token_transfer_pays:
  assumes "token_inv t" "addr_validate P r = Ok r" "n \<le> kv_nat (balances t) (sender info)"
  shows "token_execute P t e info (Transfer r n) = Ok (t\<lparr> balances := moved (balances t) (sender info) r n \<rparr>, [])"
proof -
  let ?bs = "balances t" and ?a = "sender info"
  have ok: "kv_ok ?bs" "kv_total ?bs < u128_lim" using assms(1) by (auto simp: token_inv_def)
  have "kv_nat (moved ?bs ?a r n) r \<le> kv_total (moved ?bs ?a r n)" by (rule kvl.amount_le_total) (simp add: ok)
  then have "kv_nat (moved ?bs ?a r n) r < u128_lim" using moved_total [OF ok(1) assms(3)] ok(2) by simp
  then have "can_move ?bs ?a r n" using assms(3) by (simp add: can_move_def moved_def Let_def)
  from plain_transfer [OF assms(2) this] show ?thesis by (simp add: no_msgs_def)
qed

interpretation base_pay: paying_token "base_token P" base_bal "base_held P" P for P
proof unfold_locales
  fix t r n and info :: message_info and e :: env
  assume "base_held P t (sender info)" "addr_validate P r = Ok r" "n \<le> base_bal t (sender info)"
  then have "token_execute P t e info (Transfer r n) = Ok (t\<lparr> balances := moved (balances t) (sender info) r n \<rparr>, [])"
    by (intro token_transfer_pays) (simp_all add: base_held_def base_bal_def)
  then show "\<exists>t' out. tc_execute (base_token P) t e info (tc_transfer (base_token P) r n) = Ok (t', out)"
    by (simp add: base_token_def)
next
  fix t r n t' out and info :: message_info and e :: env
  assume "tc_execute (base_token P) t e info (tc_transfer (base_token P) r n) = Ok (t', out)" "base_held P t (sender info)"
    "addr_validate P r = Ok r" "r \<noteq> sender info"
  then have "execute_transfer P t info r n = Ok t'" "platform_exact P"
    by (auto simp: base_token_def outcome_simps token_ok base_held_def)
  then show "base_bal t' r = base_bal t r + n \<and> base_bal t' (sender info) + n = base_bal t (sender info)"
    using \<open>addr_validate P r = Ok r\<close> \<open>r \<noteq> sender info\<close>
    by (auto simp: base_bal_def moved_nat elim!: transfer_cases)
qed

section \<open>The vesting token\<close>

definition vesting_token :: "platform \<Rightarrow> (vest_state, vest_msg, vest_error) token_contract" where
  "vesting_token P = \<lparr> tc_execute = vest_execute P, tc_transfer = Vm_transfer \<rparr>"

definition vesting_held :: "platform \<Rightarrow> vest_state \<Rightarrow> addr \<Rightarrow> bool" where
  "vesting_held P t a \<longleftrightarrow> platform_exact P \<and> vest_inv P t \<and> no_grant (v_allowances t) a"

definition vesting_bal :: "vest_state \<Rightarrow> addr \<Rightarrow> nat" where
  "vesting_bal t a = kv_nat (v_balances t) a"

lemma arrived_plain: "arrived a x \<le> arrived a (Receive (plain_out x))"
  by (cases x) simp_all

lemma arrived_plain_list: "sum_list (map (arrived a) out) \<le> sum_list (map (arrived a) (map Receive (map plain_out out)))"
proof (induction out)
  case (Cons x xs)
  then show ?case using arrived_plain [of a x] by (simp only: list.map sum_list.Cons add_mono)
qed simp

lemma plain_same: "plain s' = plain s \<Longrightarrow> v_balances s' = v_balances s \<and> v_allowances s' = v_allowances s"
  by (simp add: plain_def)

lemma vest_stale_held:
  assumes "vest_execute P s e info m = Ok (s', out)" "stale P e m" "sender info \<noteq> a" "no_grant (v_allowances s) a"
  shows "no_grant (v_allowances s') a \<and> out = []"
proof (cases m)
  case (Vm_increase_allowance sp n ex)
  with assms show ?thesis by (auto simp: quiet_Ok no_grant_set elim!: vest_increase_cases)
next
  case (Vm_decrease_allowance sp n ex)
  with assms show ?thesis by (auto simp: quiet_Ok no_grant_set no_grant_del elim!: vest_decrease_cases)
qed (use assms(2) in simp_all)

lemma vest_execute_held:
  assumes run: "vest_execute P s e info m = Ok (s', out)" and held: "vesting_held P s a" and other: "sender info \<noteq> a"
  shows "vesting_held P s' a \<and> length out \<le> 1 \<and> vesting_bal s a + sum_list (map (arrived a) out) \<le> vesting_bal s' a"
proof -
  have P: "platform_exact P" and inv: "vest_inv P s" and grants: "no_grant (v_allowances s) a"
    using held by (simp_all add: vesting_held_def)
  have "no_grant (v_allowances s') a \<and> length out \<le> 1 \<and> vesting_bal s a + sum_list (map (arrived a) out) \<le> vesting_bal s' a"
  proof (cases "stale P e m")
    case True
    then show ?thesis using vest_stale_held [OF run True other grants] stale_frame [OF run True] by (simp add: vesting_bal_def)
  next
    case False
    have sim: "simulated P s e info m s' out"
      using vest_execute_simulated [OF run _ False] inv by (simp add: vest_inv_def)
    show ?thesis
    proof (cases "plain_msg s m")
      case None
      then have plain: "plain s' = plain s" "out = []" using sim by (simp_all add: simulated_def)
      then show ?thesis using plain_same [OF plain(1)] grants by (simp add: vesting_bal_def)
    next
      case (Some pm)
      then have "token_execute P (plain s) e info pm = Ok (plain s', map plain_out out)" using sim by (simp add: simulated_def)
      from token_execute_held [OF this P, of a] grants other arrived_plain_list [of a out] show ?thesis
        by (simp add: vesting_bal_def)
    qed
  qed
  then show ?thesis using vest_execute_inv [OF run inv P] P by (simp add: vesting_held_def)
qed

interpretation vesting: safe_token "vesting_token P" vesting_bal "vesting_held P" for P
proof unfold_locales
  fix t e info m t' out a
  assume "tc_execute (vesting_token P) t e info m = Ok (t', out)" "vesting_held P t a" "sender info \<noteq> a"
  then show "vesting_held P t' a \<and> length out \<le> 1 \<and> vesting_bal t a + sum_list (map (arrived a) out) \<le> vesting_bal t' a"
    using vest_execute_held by (simp add: vesting_token_def)
next
  fix t e info r n t' out
  assume "tc_execute (vesting_token P) t e info (tc_transfer (vesting_token P) r n) = Ok (t', out)"
    and held: "vesting_held P t (sender info)"
  then have run: "vest_execute P t e info (Vm_transfer r n) = Ok (t', out)" by (simp add: vesting_token_def)
  have sim: "simulated P t e info (Vm_transfer r n) t' out"
    using vest_execute_simulated [OF run] held by (simp add: vesting_held_def vest_inv_def)
  then have "token_execute P (plain t) e info (Transfer r n) = Ok (plain t', map plain_out out)"
    by (simp add: simulated_def)
  from token_transfer_self [OF this] vest_execute_inv [OF run] held
  show "vesting_held P t' (sender info) \<and> vesting_bal t (sender info) \<le> vesting_bal t' (sender info) + n"
    by (simp add: vesting_held_def vesting_bal_def)
qed

end
