(* ===== verification/Token_System_Props.thy ===== *)
theory Token_System_Props
  imports Token_System Vesting_Props
begin

text \<open>
  The staking contract over either token: it always holds what it owes, payouts go through, and
  tokens sent to it with a stake request arrive in the position.
\<close>

section \<open>Deployments\<close>

text \<open>A plain token, or a vesting token, as it is when the staking contract is set up.\<close>

definition plain_deployed :: "platform \<Rightarrow> addr \<Rightarrow> token_state \<Rightarrow> bool" where
  "plain_deployed P a t \<longleftrightarrow> token_reachable P t \<and> no_grant (allowances t) a"

definition vesting_deployed :: "platform \<Rightarrow> addr \<Rightarrow> vest_state \<Rightarrow> bool" where
  "vesting_deployed P a t \<longleftrightarrow> (\<exists>migr now. vest_reachable P migr now t) \<and> no_grant (v_allowances t) a"

abbreviation plain_run :: "platform \<Rightarrow> deployment \<Rightarrow> token_state joint \<Rightarrow> bool" where
  "plain_run P D \<equiv> joint_run P (base_token P) (plain_deployed P (at_staking D)) D"

abbreviation vesting_run :: "platform \<Rightarrow> deployment \<Rightarrow> vest_state joint \<Rightarrow> bool" where
  "vesting_run P D \<equiv> joint_run P (vesting_token P) (vesting_deployed P (at_staking D)) D"

lemma plain_run_backed: "plain_run P D j \<Longrightarrow> platform_exact P \<Longrightarrow> base.backed P D j"
  by (erule base.joint_run_backed) (auto simp: plain_deployed_def base_held_def intro: reachable_token_inv)

lemma vesting_run_backed: "vesting_run P D j \<Longrightarrow> platform_exact P \<Longrightarrow> vesting.backed P D j"
  by (erule vesting.joint_run_backed) (auto simp: vesting_deployed_def vesting_held_def vest_reachable_inv)

section \<open>A sample run\<close>

definition demo_deployment :: deployment where
  "demo_deployment = \<lparr> at_token = ''juno'', at_staking = ''staking'',
     hook_of = (\<lambda>p. if p = ''stake3'' then Ok (Hook_stake 3) else Ok Hook_deposit) \<rparr>"

definition demo_joint0 :: "token_state joint" where
  "demo_joint0 = \<lparr> jt_token = demo_token, jt_staking = demo_stk0 \<rparr>"

definition demo_joint1 :: "token_state joint" where
  "demo_joint1 = \<lparr> jt_token = demo_token\<lparr> balances := [(''ann'', 0), (''bob'', 50), (''staking'', 100)] \<rparr>,
     jt_staking = demo_stk1 \<rparr>"

definition demo_joint2 :: "token_state joint" where
  "demo_joint2 = \<lparr> jt_token = demo_token\<lparr> balances := [(''ann'', 0), (''bob'', 0), (''staking'', 150)] \<rparr>,
     jt_staking = demo_stk2 \<rparr>"

lemma env_at_second: "env_at (block (at_second t)) ''staking'' = at_second t"
  by (simp add: env_at_def at_second_def)

lemma demo_joint_start: "plain_run demo_platform demo_deployment demo_joint0"
  unfolding demo_joint0_def
proof (rule joint_start [OF _ _ demo_staking_start])
  show "plain_deployed demo_platform (at_staking demo_deployment) demo_token"
    unfolding plain_deployed_def
    by (intro conjI demo_token_reachable) (simp add: no_grant_def demo_token_def demo_token0_def demo_deployment_def)
qed (simp_all add: demo_deployment_def demo_staking_msg_def)

lemma demo_joint_stake:
  "joint_tx demo_platform (base_token demo_platform) demo_deployment (block (at_second 1000)) ''ann''
     (To_token (Send ''staking'' 100 ''stake3'')) demo_joint0 = Ok demo_joint1"
proof -
  have "call_staking demo_platform (base_token demo_platform) demo_deployment (block (at_second 1000)) ''juno''
      (Stk_receive ''ann'' 100 (Ok (Hook_stake 3))) (demo_joint0\<lparr> jt_token := jt_token demo_joint1 \<rparr>) = Ok demo_joint1"
    using demo_staking_run1 by (simp add: call_staking_def demo_joint0_def demo_joint1_def demo_deployment_def env_at_second)
  then show ?thesis
    by (simp add: call_token_def base_token_def execute_send_def balance_sub_def balance_add_def demo_joint0_def demo_joint1_def
        demo_deployment_def demo_token_defs checked_int_defs)
qed

lemma demo_joint_deposit:
  "joint_tx demo_platform (base_token demo_platform) demo_deployment (block (at_second 1000)) ''bob''
     (To_token (Send ''staking'' 50 ''deposit'')) demo_joint1 = Ok demo_joint2"
proof -
  have "staking_execute demo_platform demo_stk1 (at_second 1000) \<lparr> sender = ''juno'' \<rparr>
      (Stk_receive ''bob'' 50 (Ok Hook_deposit)) = Ok (demo_stk2, [])"
    by (simp add: staking_run_defs demo_staking_defs checked_int_defs Let_def)
  then have "call_staking demo_platform (base_token demo_platform) demo_deployment (block (at_second 1000)) ''juno''
      (Stk_receive ''bob'' 50 (Ok Hook_deposit)) (demo_joint1\<lparr> jt_token := jt_token demo_joint2 \<rparr>) = Ok demo_joint2"
    by (simp add: call_staking_def demo_joint1_def demo_joint2_def demo_deployment_def env_at_second)
  then show ?thesis
    by (simp add: call_token_def base_token_def execute_send_def balance_sub_def balance_add_def demo_joint1_def demo_joint2_def
        demo_deployment_def demo_token_defs checked_int_defs)
qed

lemma demo_joint1_run: "plain_run demo_platform demo_deployment demo_joint1"
  by (rule joint_step [OF demo_joint_start _ _ demo_joint_stake]) (simp_all add: demo_deployment_def)

lemma demo_joint2_run: "plain_run demo_platform demo_deployment demo_joint2"
  by (rule joint_step [OF demo_joint1_run _ _ demo_joint_deposit]) (simp_all add: demo_deployment_def)

section \<open>Properties\<close>

text \<open>C5: Over the plain token the staking contract is solvent: in every state the two contracts reach,
  the contract's token balance covers all staked principals and all deposited rewards, whoever sends
  which messages to either contract.\<close>

theorem staking_is_solvent:
  assumes "platform_exact P" and "joint_run P (base_token P) (plain_deployed P (at_staking D)) D j"
  shows "kv_total (total_staked (jt_staking j)) + reward_in_contract (jt_staking j)
    \<le> kv_nat (balances (jt_token j)) (at_staking D)"
  using plain_run_backed [OF assms(2,1)] by (simp add: base.backed_def owed_def base_bal_def)

theorem staking_is_solvent_witness:
  "100 + 50 \<le> kv_nat (balances (jt_token demo_joint2)) ''staking''"
  using staking_is_solvent [OF demo_platform_exact demo_joint2_run]
  by (simp add: demo_joint2_def demo_staking_defs demo_deployment_def kv_total_def)

text \<open>C6: Over the plain token payouts go through: in every state the two contracts reach, whenever the
  staking contract accepts a withdrawal or a claim, the whole transaction succeeds, the transfers included,
  and the account receives exactly the amounts granted.  (Over the vesting token a schedule may lock
  tokens of the staking contract, and then its transfers can fail.)\<close>

theorem payouts_go_through:
  assumes "platform_exact P" and "joint_run P (base_token P) (plain_deployed P (at_staking D)) D j"
    and "staking_execute P (jt_staking j) (env_at b (at_staking D)) \<lparr> sender = who \<rparr> m = Ok (s', ts)"
    and "m = Stk_unstake_and_claim d \<or> m = Stk_claim d"
    and "addr_validate P who = Ok who" "who \<noteq> at_staking D"
  shows "\<exists>t'. joint_tx P (base_token P) D b who (To_staking m) j = Ok (j\<lparr> jt_token := t', jt_staking := s' \<rparr>) \<and>
    kv_nat (balances t') who = kv_nat (balances (jt_token j)) who + sum_list (map tm_amount ts)"
  using base_pay.payout_goes_through [OF plain_run_backed [OF assms(2,1)] assms(1,3-6)] by (simp add: base_bal_def)

theorem payouts_go_through_witness:
  "\<exists>j'. joint_tx demo_platform (base_token demo_platform) demo_deployment (block (at_second 5000)) ''ann''
       (To_staking (Stk_unstake_and_claim 3)) demo_joint2 = Ok j' \<and> kv_nat (balances (jt_token j')) ''ann'' = 100"
proof -
  let ?s = "demo_stk2\<lparr> reward_infos := [], total_staked := [(3, 0)], positions := [] \<rparr>"
  have "staking_execute demo_platform (jt_staking demo_joint2) (env_at (block (at_second 5000)) (at_staking demo_deployment))
      \<lparr> sender = ''ann'' \<rparr> (Stk_unstake_and_claim 3) = Ok (?s, [\<lparr> tm_target = ''juno'', tm_recipient = ''ann'', tm_amount = 100 \<rparr>])"
    by (simp add: demo_joint2_def demo_deployment_def env_at_second execute_unstake_def check_freeze_def query_user_reward_def
        self_query_def reward_info_of_def demo_staking_defs checked_int_defs kv_del_def Let_def)
  from payouts_go_through [OF demo_platform_exact demo_joint2_run this, of 3] show ?thesis
    by (auto simp: demo_deployment_def demo_platform_def demo_joint2_def)
qed

text \<open>C29: Staking through the token: if tokens sent with a stake request are accepted, the sender has
  paid exactly the amount, the staking contract has received it, and the sender's position of the
  chosen duration has grown by exactly the amount.\<close>

theorem staking_through_the_token:
  assumes "platform_exact P" and "joint_run P (base_token P) (plain_deployed P (at_staking D)) D j"
    and "hook_of D p = Ok (Hook_stake d)" "who \<noteq> at_staking D"
    and "joint_tx P (base_token P) D b who (To_token (Send (at_staking D) n p)) j = Ok j'"
  shows "kv_nat (balances (jt_token j')) who + n = kv_nat (balances (jt_token j)) who \<and>
    kv_nat (balances (jt_token j')) (at_staking D) = kv_nat (balances (jt_token j)) (at_staking D) + n \<and>
    actual_balance (position_of (jt_staking j') who d) = actual_balance (position_of (jt_staking j) who d) + n * d"
proof -
  obtain t' out where sent: "execute_send P (jt_token j) \<lparr> sender = who \<rparr> (at_staking D) n p = Ok (t', out)"
    and del: "deliver P (base_token P) D b (map Receive out) (j\<lparr> jt_token := t' \<rparr>) = Ok j'"
    using assms(5) by (auto simp: call_token_def base_token_def outcome_simps)
  from sent have t': "n \<le> kv_nat (balances (jt_token j)) who"
      "t' = (jt_token j)\<lparr> balances := moved (balances (jt_token j)) who (at_staking D) n \<rparr>"
    and out: "out = [\<lparr> receiver = at_staking D, receive_sender = who, receive_amount = n, receive_payload = p \<rparr>]"
    using assms(1) by (auto elim!: send_cases dest: platform_exactD)
  obtain s' where run: "receive_cw20 P (jt_staking j) (env_at b (at_staking D)) \<lparr> sender = at_token D \<rparr> who n (Ok (Hook_stake d)) = Ok s'"
    and j': "j' = j\<lparr> jt_token := t', jt_staking := s' \<rparr>"
    using del by (auto simp: out assms(3) call_staking_def outcome_simps staking_ok)
  have "execute_stake P (jt_staking j) (env_at b (at_staking D)) who n d = Ok s'"
    using run by (cases rule: receive_cases) simp_all
  from this assms(1) have "actual_balance (position_of s' who d) = actual_balance (position_of (jt_staking j) who d) + n * d"
    by (rule stake_cases) (simp add: position_of_def)
  then show ?thesis using t' assms(4) by (auto simp: j' moved_nat)
qed

theorem staking_through_the_token_witness:
  "kv_nat (balances (jt_token demo_joint1)) ''ann'' + 100 = 100 \<and>
   actual_balance (position_of (jt_staking demo_joint1) ''ann'' 3) = 300"
  using staking_through_the_token [OF demo_platform_exact demo_joint_start, of "''stake3''" 3 "''ann''" "block (at_second 1000)" 100 demo_joint1]
    demo_joint_stake
  by (simp add: demo_deployment_def demo_joint0_def demo_token_def demo_token0_def demo_stk0_def position_of_def no_user_info_def)

text \<open>C30: Over the vesting token the staking contract is solvent as well, schedules, delegations and
  migrations of the token notwithstanding.\<close>

theorem staking_is_solvent_over_vesting:
  assumes "platform_exact P" and "joint_run P (vesting_token P) (vesting_deployed P (at_staking D)) D j"
  shows "kv_total (total_staked (jt_staking j)) + reward_in_contract (jt_staking j)
    \<le> kv_nat (v_balances (jt_token j)) (at_staking D)"
  using vesting_run_backed [OF assms(2,1)] by (simp add: vesting.backed_def owed_def vesting_bal_def)

theorem staking_is_solvent_over_vesting_witness:
  "\<exists>j. joint_tx demo_platform (vesting_token demo_platform) demo_deployment (block (at_second 1000)) ''ann''
       (To_token (Vm_send ''staking'' 100 ''stake3'')) \<lparr> jt_token = demo_vest0, jt_staking = demo_stk0 \<rparr> = Ok j \<and>
     100 \<le> kv_nat (v_balances (jt_token j)) ''staking''"
proof -
  let ?init = "\<lparr> jt_token = demo_vest0, jt_staking = demo_stk0 \<rparr>" and ?b = "block (at_second 1000)"
  let ?j = "\<lparr> jt_token = demo_vest0\<lparr> v_balances := [(''ann'', 900), (''staking'', 100)] \<rparr>, jt_staking = demo_stk1 \<rparr>"
  have start: "vesting_run demo_platform demo_deployment ?init"
  proof (rule joint_start [OF _ _ demo_staking_start])
    show "vesting_deployed demo_platform (at_staking demo_deployment) demo_vest0"
      unfolding vesting_deployed_def
      by (intro conjI exI [of _ False] exI [of _ 150] demo_vest_reachable) (simp add: no_grant_def demo_vest0_def)
  qed (simp_all add: demo_deployment_def demo_staking_msg_def)
  have "call_staking demo_platform (vesting_token demo_platform) demo_deployment ?b ''juno''
      (Stk_receive ''ann'' 100 (Ok (Hook_stake 3))) (?init\<lparr> jt_token := jt_token ?j \<rparr>) = Ok ?j"
    using demo_staking_run1 by (simp add: call_staking_def demo_deployment_def env_at_second)
  then have run: "joint_tx demo_platform (vesting_token demo_platform) demo_deployment ?b ''ann''
      (To_token (Vm_send ''staking'' 100 ''stake3'')) ?init = Ok ?j"
    by (simp add: call_token_def vesting_token_def vest_execute_send_def demo_vest0_def demo_deployment_def vest_eval demo_platform_def)
  have "vesting_run demo_platform demo_deployment ?j"
    by (rule joint_step [OF start _ _ run]) (simp_all add: demo_deployment_def)
  from staking_is_solvent_over_vesting [OF demo_platform_exact this] run show ?thesis
    by (intro exI [of _ ?j]) (simp add: demo_deployment_def demo_stk1_def demo_stk0_def kv_total_def)
qed

text \<open>The vault of the staking contract gets nothing: its transfers are addressed to the contract itself.\<close>

lemma vault_transfers_fail:
  assumes "plain_run P D j" "platform_exact P"
  shows "joint_tx P (base_token P) D b who (To_staking (Stk_deposit_in_vault n)) j \<noteq> Ok j'"
  using plain_run_backed [OF assms]
  by (auto simp: base.backed_def call_staking_def execute_deposit_in_vault_address_def outcome_simps env_at_def)

end
