(* ===== verification/Staking_Token.thy ===== *)
theory Staking_Token
  imports Staking
begin

text \<open>
  The set-up of the staking contract's voting token as \<open>minter.rs\<close> and \<open>msg.rs\<close> of
  \<open>syneswap_staking\<close> spell it out, a copy of the plain token's set-up with other errors, and the proof
  that the copy behaves like the original.
\<close>

section \<open>The message\<close>

definition stk_get_cap :: "token_instantiate_msg \<Rightarrow> nat option" where
  "stk_get_cap msg = (case msg_mint msg of Some v \<Rightarrow> req_cap v | None \<Rightarrow> None)"

definition stk_is_valid_name :: "string \<Rightarrow> bool" where
  "stk_is_valid_name n = (let bytes = n in if length bytes < 3 \<or> length bytes > 50 then False else True)"

text \<open>The loop over the bytes of a symbol.\<close>

fun stk_symbol_bytes :: "string \<Rightarrow> bool" where
  "stk_symbol_bytes [] = True"
| "stk_symbol_bytes (c # cs) =
     (let byte = of_char c :: nat in
      if byte \<noteq> 45 \<and> (byte < 65 \<or> byte > 90) \<and> (byte < 97 \<or> byte > 122) then False else stk_symbol_bytes cs)"

definition stk_is_valid_symbol :: "string \<Rightarrow> bool" where
  "stk_is_valid_symbol s = (if length s < 3 \<or> length s > 12 then False else stk_symbol_bytes s)"

definition stk_validate :: "token_instantiate_msg \<Rightarrow> (std_error, unit) outcome" where
  "stk_validate msg =
     (if \<not> stk_is_valid_name (msg_name msg)
        then Err (Generic_err ''Name is not in the expected format (3-50 UTF-8 bytes)'')
      else if \<not> stk_is_valid_symbol (msg_symbol msg)
        then Err (Generic_err (''Ticker symbol is not in expected format [a-zA-Z'' @ CHR 0x5C # ''-]{3,12}''))
      else if msg_decimals msg > 18 then Err (Generic_err ''Decimals must not exceed 18'')
      else Ok ())"

section \<open>Logos and accounts\<close>

definition stk_verify_xml_preamble :: "bytes \<Rightarrow> (std_error, unit) outcome" where
  "stk_verify_xml_preamble data =
     and_then (ok_or (Generic_err ''Invalid xml preamble for SVG'') (split_inclusive_first data)) (\<lambda>preamble.
     if \<not> (starts_with preamble ''<?xml '' \<and> ends_with preamble ''?>'')
     then Err (Generic_err ''Invalid xml preamble for SVG'')
     else Ok ())"

definition stk_verify_xml_logo :: "bytes \<Rightarrow> (std_error, unit) outcome" where
  "stk_verify_xml_logo data =
     and_then (stk_verify_xml_preamble data) (\<lambda>_.
     if length data > 5 * 1024 then Err (Generic_err ''Logo binary data exceeds 5KB limit'') else Ok ())"

definition stk_verify_png_logo :: "bytes \<Rightarrow> (std_error, unit) outcome" where
  "stk_verify_png_logo data =
     (let header = map char_of [0x89::nat, 80, 78, 71, 0x0d, 0x0a, 0x1a, 0x0a] in
      if length data > 5 * 1024 then Err (Generic_err ''Logo binary data exceeds 5KB limit'')
      else if \<not> starts_with data header then Err (Generic_err ''Invalid png header'')
      else Ok ())"

primrec stk_verify_logo :: "logo \<Rightarrow> (std_error, unit) outcome" where
  "stk_verify_logo (Logo_svg data) = stk_verify_xml_logo data"
| "stk_verify_logo (Logo_png data) = stk_verify_png_logo data"
| "stk_verify_logo (Logo_url _) = Ok ()"

definition stk_validate_accounts :: "coin list \<Rightarrow> (std_error, unit) outcome" where
  "stk_validate_accounts accounts =
     (let addresses = remdups_adj (sort (map coin_address accounts))
      in if length addresses \<noteq> length accounts then Err (Generic_err ''Duplicate initial balance addresses'')
         else Ok ())"

text \<open>The loop of \<open>instantiate_token\<close> over the initial balances.\<close>

fun stk_save_accounts ::
  "platform \<Rightarrow> coin list \<Rightarrow> (addr, nat) kv \<Rightarrow> nat \<Rightarrow> (std_error, nat \<times> (addr, nat) kv) outcome"
where
  "stk_save_accounts P [] bs supply = Ok (supply, bs)"
| "stk_save_accounts P (row # rest) bs supply =
     and_then (addr_validate P (coin_address row)) (\<lambda>address.
     and_then (u128_add supply (coin_amount row)) (\<lambda>supply'.
     stk_save_accounts P rest (kv_set bs address (coin_amount row)) supply'))"

section \<open>The set-up\<close>

text \<open>Version 1.0.0 is that of the staking contract's package.\<close>

definition stk_instantiate_token ::
  "platform \<Rightarrow> token_instantiate_msg \<Rightarrow> (std_error, token_state) outcome"
where
  "stk_instantiate_token P msg =
     (let s0 = token_empty\<lparr> cw2_version := Some (''crates.io:cw20-base'', ''1.0.0'') \<rparr> in
      and_then (stk_validate msg) (\<lambda>_.
      and_then (stk_validate_accounts (initial_balances msg)) (\<lambda>_.
      and_then (stk_save_accounts P (initial_balances msg) [] 0) (\<lambda>(supply, bs).
      and_then (case stk_get_cap msg of
                  Some limit \<Rightarrow> if supply > limit then Err (Generic_err ''Initial supply greater than cap'') else Ok ()
                | None \<Rightarrow> Ok ()) (\<lambda>_.
      and_then (case msg_mint msg of
                  Some m \<Rightarrow> and_then (addr_validate P (req_minter m)) (\<lambda>a. Ok (Some \<lparr> minter = a, mint_cap = req_cap m \<rparr>))
                | None \<Rightarrow> Ok None) (\<lambda>mint.
      let s1 = s0\<lparr> balances := bs, token := Some \<lparr> token_name = msg_name msg, token_symbol = msg_symbol msg,
                token_decimals = msg_decimals msg, total_supply = supply, mint = mint \<rparr> \<rparr> in
      case msg_marketing msg of
        Some marketing \<Rightarrow>
          and_then (case req_logo marketing of
                      Some l \<Rightarrow> and_then (stk_verify_logo l) (\<lambda>_. Ok (s1\<lparr> logo_item := Some l \<rparr>, Some (logo_info_of l)))
                    | None \<Rightarrow> Ok (s1, None)) (\<lambda>(s2, info).
          and_then (traverse_opt (addr_validate P) (req_marketing marketing)) (\<lambda>a.
          Ok (s2\<lparr> marketing_item := Some \<lparr> mk_project = req_project marketing, mk_description = req_description marketing,
                mk_marketing = a, mk_logo = info \<rparr> \<rparr>)))
      | None \<Rightarrow> Ok s1))))))"

section \<open>The copy agrees with the plain token\<close>

named_theorems setup_copy \<open>the steps of the copied set-up, as those of the plain token with other errors\<close>

lemma map_err_and_then [setup_copy]: "map_err f (and_then r g) = and_then (map_err f r) (\<lambda>x. map_err f (g x))"
  by (cases r) simp_all

lemma and_then_assoc [setup_copy]: "and_then (and_then r g) h = and_then r (\<lambda>x. and_then (g x) h)"
  by (cases r) simp_all

lemma map_err_twice [setup_copy]: "map_err f (map_err g r) = map_err (f \<circ> g) r"
  by (cases r) simp_all

lemma map_err_std [setup_copy]: "map_err (logo_error \<circ> Tok_std) r = r"
  by (cases r) (simp_all add: logo_error_def)

lemma logo_error_std [simp]: "logo_error (Tok_std e) = e"
  by (simp add: logo_error_def)

lemma map_err_u128_add [setup_copy]: "map_err f (u128_add a b) = u128_add a b"
  by (simp add: u128_add_def)

lemma symbol_bytes_all: "stk_symbol_bytes s = list_all symbol_byte s"
  by (induction s) (auto simp: symbol_byte_def Let_def)

lemma stk_validate_copy [setup_copy]: "stk_validate msg = token_msg_validate msg"
  by (simp add: stk_validate_def token_msg_validate_def stk_is_valid_name_def has_valid_name_def
      stk_is_valid_symbol_def has_valid_symbol_def symbol_bytes_all Let_def)

lemma stk_verify_xml_logo_copy [setup_copy]: "stk_verify_xml_logo data = map_err logo_error (verify_xml_logo data)"
  by (cases "split_inclusive_first data")
    (auto simp: stk_verify_xml_logo_def stk_verify_xml_preamble_def verify_xml_logo_def verify_xml_preamble_def
      logo_size_cap_def logo_error_def)

lemma stk_verify_png_logo_copy [setup_copy]: "stk_verify_png_logo data = map_err logo_error (verify_png_logo data)"
  by (simp add: stk_verify_png_logo_def verify_png_logo_def logo_size_cap_def png_header_def logo_error_def)

lemma stk_verify_logo_copy [setup_copy]: "stk_verify_logo l = map_err logo_error (verify_logo l)"
  by (cases l) (simp_all add: setup_copy)

lemma stk_validate_accounts_copy [setup_copy]: "stk_validate_accounts cs = map_err logo_error (validate_accounts cs)"
  by (simp add: stk_validate_accounts_def validate_accounts_def logo_error_def Let_def)

lemma stk_save_accounts_copy [setup_copy]: "stk_save_accounts P cs bs n = map_err logo_error (save_accounts P cs bs n)"
proof (induction cs arbitrary: bs n)
  case (Cons c cs)
  then show ?case by (cases "addr_validate P (coin_address c)"; cases "u128_add n (coin_amount c) :: (std_error, nat) outcome")
    (simp_all add: setup_copy u128_add_def split: if_splits)
qed simp

text \<open>The voting token of the staking contract is set up exactly as the plain token is: the copied
  code accepts the same messages, stores the same token, balances, marketing data and logo, and fails
  with the same errors, written as standard errors.\<close>

theorem voting_token_setup_agrees:
  "stk_instantiate_token P msg =
     and_then (instantiate_token P msg) (\<lambda>t. Ok (t\<lparr> cw2_version := Some (''crates.io:cw20-base'', ''1.0.0'') \<rparr>))"
proof (cases "token_msg_validate msg")
  case (Ok u)
  have cap: "stk_get_cap msg = msg_get_cap msg" by (simp add: stk_get_cap_def msg_get_cap_def split: option.splits)
  note defs = stk_instantiate_token_def instantiate_token_def token_instantiate_def create_accounts_def
    instantiate_minter_def instantiate_marketing_def
  show ?thesis
  proof (cases "validate_accounts (initial_balances msg)")
    case valid: (Ok w)
    show ?thesis
    proof (cases "save_accounts P (initial_balances msg) [] 0")
      case saved: (Ok r)
      obtain n bs where r: "r = (n, bs)" by (cases r)
      show ?thesis
        by (auto simp: defs setup_copy cap Ok valid saved r token_empty_def Let_def split: option.split)
    qed (simp_all add: defs setup_copy Ok valid)
  qed (simp_all add: defs setup_copy Ok)
qed (simp_all add: stk_instantiate_token_def instantiate_token_def token_instantiate_def setup_copy)

end
