(* ===== verification/Power_Sources.thy ===== *)
theory Power_Sources
  imports Dao Gauge_Props Choice_Props Token_System_Props
begin

text \<open>
  The gauge and the multiple-choice contract on top of the staking contract, and the staking contract
  on top of the token: the votes carry the decayed stake, both contracts grant the same power, and all
  of it is backed by tokens the staking contract holds.
\<close>

section \<open>The staking contract as the source of power\<close>

text \<open>
  The queries of both contracts, for the configuration of the staking contract and for the balance of
  an account in one duration, answered by its query entry point.
\<close>

definition durations_at :: "string \<Rightarrow> staking_state \<Rightarrow> string \<Rightarrow> (std_error, nat list) outcome" where
  "durations_at at s c =
     (if c = at then and_then (staking_query_config s) (\<lambda>cfg. Ok (duration_values cfg))
      else Err (Generic_err ''Querier contract error''))"

definition balance_at :: "platform \<Rightarrow> string \<Rightarrow> staking_state \<Rightarrow> env \<Rightarrow> string \<Rightarrow> addr \<Rightarrow> nat \<Rightarrow> nat option" where
  "balance_at P at s e c who d = (if c = at then answer (query_balance_by_duration P s e who d) else None)"

definition gauge_over_staking :: "platform \<Rightarrow> string \<Rightarrow> staking_state \<Rightarrow> env \<Rightarrow> gauge_host \<Rightarrow> gauge_host" where
  "gauge_over_staking P at s e H =
     H\<lparr> staking_durations := durations_at at s, balance_by_duration := balance_at P at s e \<rparr>"

definition choice_over_staking :: "platform \<Rightarrow> string \<Rightarrow> staking_state \<Rightarrow> env \<Rightarrow> mc_host \<Rightarrow> mc_host" where
  "choice_over_staking P at s e H = H\<lparr> mh_durations := durations_at at s, mh_balance := balance_at P at s e \<rparr>"

section \<open>A source of power\<close>

text \<open>The interface: what a source answers is what it holds; a source may also fail to answer.\<close>

locale power_source =
  fixes ask :: "addr \<Rightarrow> nat \<Rightarrow> nat option"
    and held :: "addr \<Rightarrow> nat \<Rightarrow> nat"
  assumes told: "ask a d = Some n \<Longrightarrow> n = held a d"
begin

definition granted :: "addr \<Rightarrow> nat list \<Rightarrow> nat" where
  "granted a ds = (\<Sum>d\<leftarrow>ds. nat_or_0 (ask a d))"

lemma granted_le: "granted a ds \<le> (\<Sum>d\<leftarrow>ds. held a d)"
  unfolding granted_def by (intro sum_list_mono) (auto simp: nat_or_0_def dest: told split: option.split)

lemma granted_exact:
  assumes "\<forall>d\<in>set ds. ask a d \<noteq> None"
  shows "granted a ds = (\<Sum>d\<leftarrow>ds. held a d)"
proof -
  have "nat_or_0 (ask a d) = held a d" if "d \<in> set ds" for d
    using assms that told [of a d] by (cases "ask a d") (auto simp: nat_or_0_def)
  then show ?thesis by (simp add: granted_def cong: map_cong)
qed

end

text \<open>What the positions of the validated account still carry.\<close>

definition told_power :: "platform \<Rightarrow> staking_state \<Rightarrow> nat \<Rightarrow> addr \<Rightarrow> nat \<Rightarrow> nat" where
  "told_power P s now a d = (case addr_validate P a of Ok x \<Rightarrow> held_power s now x d | _ \<Rightarrow> 0)"

lemma told_power_le: "platform_exact P \<Longrightarrow> told_power P s now a d \<le> held_power s now a d"
  by (auto simp: told_power_def dest: platform_exactD split: outcome.split)

lemma decayed_from_zero: "decayed bal month diff 0 = Ok n \<Longrightarrow> n = power_left bal month diff"
  using decayed_Ok [of bal month diff 0 n] by (cases "diff < month") (simp_all add: decayed_def power_left_def)

lemma query_balance_told:
  assumes "query_balance_by_duration P s e a d = Ok n"
  shows "n = told_power P s (seconds (block e)) a d"
proof -
  obtain x where x: "addr_validate P a = Ok x" using assms by (auto simp: query_balance_by_duration_def outcome_simps)
  show ?thesis
  proof (cases "0 < mint_time (position_of s x d)")
    case True
    then show ?thesis
      using assms x by (auto simp: query_balance_by_duration_def told_power_def held_power_def outcome_simps arith_simps Let_def
          dest!: decayed_from_zero)
  next
    case False
    then show ?thesis
      using assms x by (simp add: query_balance_by_duration_def told_power_def held_power_def Let_def)
  qed
qed

text \<open>A position whose power the query can compute.\<close>

definition computable :: "staking_state \<Rightarrow> nat \<Rightarrow> addr \<Rightarrow> nat \<Rightarrow> bool" where
  "computable s now a d \<longleftrightarrow> mint_time (position_of s a d) \<le> now \<and> lock_time_frame (config s) * d < u64_lim \<and>
     user_balance (position_of s a d) * reward_calc_unit < u128_lim"

lemma query_balance_answers:
  assumes "addr_validate P a = Ok a" and "computable s (seconds (block e)) a d"
  shows "answer (query_balance_by_duration P s e a d) \<noteq> None"
  using assms decayed_value [of "lock_time_frame (config s) * d" "user_balance (position_of s a d)"]
  by (auto simp: query_balance_by_duration_def computable_def answer_def u64_mul_def u64_sub_def Let_def)

interpretation stakes: power_source
  "balance_at P at s e at" "told_power P s (seconds (block e))" for P at s e
  by unfold_locales (simp add: balance_at_def query_balance_told)

section \<open>What the contracts make of it\<close>

lemma fold_u128_sum:
  "tot < u128_lim \<Longrightarrow> fold_ok (\<lambda>d acc. u128_add acc (f d)) ds tot = Ok n \<longleftrightarrow>
     n = tot + (\<Sum>d\<leftarrow>ds. f d) \<and> n < u128_lim"
  by (induction ds arbitrary: tot) (auto simp: outcome_simps arith_simps)

lemma gauge_power_granted:
  "gauge_voting_power (gauge_over_staking P at s e H) who at = Ok n \<longleftrightarrow>
     n = stakes.granted P at s e who (duration_values (config s)) \<and> n < u128_lim"
  using fold_u128_sum [of 0 "\<lambda>d. nat_or_0 (balance_at P at s e at who d)" "duration_values (config s)" n]
  by (auto simp: gauge_voting_power_def gauge_over_staking_def durations_at_def staking_query_config_def
      stakes.granted_def outcome_simps u128_lim_def)

lemma choice_fold_sum:
  "tot < u128_lim \<Longrightarrow>
   (\<exists>m'. fold_ok (\<lambda>d (tot, t).
       let pw = (case f d of None \<Rightarrow> 0 | Some n \<Rightarrow> n) in
       and_then (u128_add tot pw) (\<lambda>tot'.
       Ok (tot', t\<lparr> mc_pool_amounts := kv_set (mc_pool_amounts t) (pid, d) pw \<rparr>))) ds (tot, m)
     = (Ok (n, m') :: (std_error, _) outcome)) \<longleftrightarrow> n = tot + (\<Sum>d\<leftarrow>ds. nat_or_0 (f d)) \<and> n < u128_lim"
proof (induction ds arbitrary: tot m)
  case (Cons d ds)
  let ?pw = "nat_or_0 (f d)"
  have pw: "(case f d of None \<Rightarrow> 0 | Some n \<Rightarrow> n) = ?pw" by (simp add: nat_or_0_def)
  show ?case
  proof (cases "tot + ?pw < u128_lim")
    case True
    then show ?thesis
      using Cons.IH [OF True, of "m\<lparr> mc_pool_amounts := kv_set (mc_pool_amounts m) (pid, d) ?pw \<rparr>"]
      by (simp add: pw u128_add_def Let_def add.assoc)
  next
    case False
    then show ?thesis by (simp add: pw u128_add_def Let_def)
  qed
qed auto

lemma choice_power_granted:
  assumes "mcc_dao (mc_conf m) = at"
  shows "(\<exists>m'. mc_voting_power (choice_over_staking P at s e H) m who pid = Ok (n, m')) \<longleftrightarrow>
     n = stakes.granted P at s e who (duration_values (config s)) \<and> n < u128_lim"
  using choice_fold_sum [of 0 "balance_at P at s e at who" pid "duration_values (config s)" m n] assms
  by (simp add: mc_voting_power_def choice_over_staking_def durations_at_def staking_query_config_def
      stakes.granted_def u128_lim_def)

lemma granted_held:
  assumes "platform_exact P"
  shows "stakes.granted P at s e who ds \<le> (\<Sum>d\<leftarrow>ds. held_power s (seconds (block e)) who d)"
  using stakes.granted_le by (rule le_trans) (intro sum_list_mono told_power_le assms)

section \<open>All power together\<close>

lemma kv_at_sum_le: "finite K \<Longrightarrow> (\<Sum>k\<in>K. kv_at f m k) \<le> kv_sum f m"
proof (induction m arbitrary: K)
  case (Cons x m)
  obtain k0 v where x: "x = (k0, v)" by (cases x)
  have "(\<Sum>k\<in>K. kv_at f (x # m) k) \<le> f k0 v + (\<Sum>k\<in>K - {k0}. kv_at f (x # m) k)"
    using Cons.prems by (cases "k0 \<in> K") (simp_all add: sum.remove kv_at_def x)
  also have "(\<Sum>k\<in>K - {k0}. kv_at f (x # m) k) = (\<Sum>k\<in>K - {k0}. kv_at f m k)"
    by (rule sum.cong) (auto simp: kv_at_def x)
  also have "\<dots> \<le> kv_sum f m" using Cons by simp
  finally show ?case by (simp add: x)
qed (simp add: kv_at_def)

text \<open>The principals of some accounts and durations are part of the staked total.\<close>

lemma principals_le_total:
  assumes "books_ok s" "finite A" "finite M"
  shows "(\<Sum>d\<in>M. \<Sum>a\<in>A. kv_at (principal_at d) (positions s) (a, d)) \<le> kv_total (total_staked s)"
proof -
  have "(\<Sum>a\<in>A. kv_at (principal_at d) (positions s) (a, d)) \<le> kv_nat (total_staked s) d" for d
  proof -
    have "(\<Sum>a\<in>A. kv_at (principal_at d) (positions s) (a, d))
        = (\<Sum>k\<in>(\<lambda>a. (a, d)) ` A. kv_at (principal_at d) (positions s) k)"
      by (subst sum.reindex) (auto simp: inj_on_def)
    also have "\<dots> \<le> kv_sum (principal_at d) (positions s)" using assms(2) by (intro kv_at_sum_le) simp
    finally show ?thesis using assms(1) by (simp add: books_ok_def)
  qed
  then have "(\<Sum>d\<in>M. \<Sum>a\<in>A. kv_at (principal_at d) (positions s) (a, d)) \<le> (\<Sum>d\<in>M. kv_at (\<lambda>_ n. n) (total_staked s) d)"
    by (intro sum_mono) (simp add: kv_at_def kv_nat_def)
  also have "\<dots> \<le> kv_sum (\<lambda>_ n. n) (total_staked s)" using assms(3) by (rule kv_at_sum_le)
  also have "\<dots> = kv_total (total_staked s)" by (simp add: kv_sum_def kv_total_def)
  finally show ?thesis .
qed

lemma held_power_principal:
  assumes "books_ok s" "d \<le> m"
  shows "held_power s now a d \<le> m * kv_at (principal_at d) (positions s) (a, d)"
proof (cases "kv_get (positions s) (a, d)")
  case (Some u)
  then have "position_ok d u" using assms(1) by (auto simp: books_ok_def)
  then have "user_balance u = d * (actual_balance u div d)" by (simp add: position_ok_def)
  then have "held_power s now a d \<le> d * (actual_balance u div d)"
    using held_power_le [of s now a d] Some by (simp add: position_of_def)
  also have "\<dots> \<le> m * (actual_balance u div d)" using assms(2) by (rule mult_le_mono1)
  finally show ?thesis by (simp add: kv_at_def principal_at_def Some)
qed (simp add: held_power_def position_of_def no_user_info_def)

lemma power_within_stakes:
  assumes "books_ok s" "finite A" "distinct ds" "\<forall>d\<in>set ds. d \<le> m"
  shows "(\<Sum>a\<in>A. \<Sum>d\<leftarrow>ds. held_power s now a d) \<le> m * kv_total (total_staked s)"
proof -
  have "(\<Sum>a\<in>A. \<Sum>d\<leftarrow>ds. held_power s now a d) = (\<Sum>d\<in>set ds. \<Sum>a\<in>A. held_power s now a d)"
    using assms(3) by (simp add: sum_list_distinct_conv_sum_set sum.swap [of _ A])
  also have "\<dots> \<le> (\<Sum>d\<in>set ds. \<Sum>a\<in>A. m * kv_at (principal_at d) (positions s) (a, d))"
    using assms(1,4) by (intro sum_mono held_power_principal) simp_all
  also have "\<dots> = m * (\<Sum>d\<in>set ds. \<Sum>a\<in>A. kv_at (principal_at d) (positions s) (a, d))"
    by (simp add: sum_distrib_left)
  also have "\<dots> \<le> m * kv_total (total_staked s)"
    using principals_le_total [OF assms(1,2)] by simp
  finally show ?thesis .
qed

text \<open>The durations on offer are listed once.\<close>

lemma staking_step_durations:
  assumes "staking_execute P s e info msg = Ok (s', ts)" "platform_exact P" "distinct (duration_values (config s))"
  shows "distinct (duration_values (config s'))"
proof (cases "administrative msg")
  case True
  then show ?thesis
    using assms(1,3) by (cases msg) (auto simp: staking_admin_defs outcome_simps staking_ok Let_def split: if_splits)
next
  case False
  then show ?thesis
  proof (cases msg)
    case Stk_distribute
    then have "execute_distribute s e = Ok s'" using assms by (simp add: staking_ok)
    then show ?thesis using assms(3) by (auto simp: execute_distribute_def Let_def outcome_simps split: if_splits)
  next
    case (Stk_receive giver n payload)
    then have "receive_cw20 P s e info giver n payload = Ok s'" using assms by (simp add: staking_ok)
    then show ?thesis
    proof (cases rule: receive_cases)
      case (stake d')
      from stake(3) assms(2) show ?thesis by (rule stake_cases) (use assms(3) in simp)
    qed (use assms(3) in simp)
  next
    case (Stk_claim d)
    then have "execute_claim P s e (sender info) d = Ok (s', ts)" using assms by simp
    then show ?thesis by (rule claim_cases) (use assms(3) in simp)
  next
    case (Stk_restake d)
    then have "execute_restake P s e (sender info) d = Ok s'" using assms by (simp add: staking_ok)
    then show ?thesis by (rule restake_cases) (use assms(2,3) in simp_all)
  next
    case (Stk_unstake_and_claim d)
    then have "execute_unstake P s e (sender info) d = Ok (s', ts)" using assms by simp
    then show ?thesis by (rule unstake_cases) (use assms(3) in simp)
  qed simp_all
qed

lemma reachable_durations: "staking_reachable P s \<Longrightarrow> platform_exact P \<Longrightarrow> distinct (duration_values (config s))"
proof (induction rule: staking_reachable.induct)
  case (staking_start e info msg s)
  then show ?case by (auto simp: staking_instantiate_def Let_def outcome_simps)
qed (blast intro: staking_step_durations)

text \<open>In a run of token and staking contract the latter is in one of its reachable states.\<close>

lemma call_staking_reaches:
  "call_staking P C D b who m j = Ok j' \<Longrightarrow> staking_reachable P (jt_staking j) \<Longrightarrow> staking_reachable P (jt_staking j')"
  by (auto simp: call_staking_def outcome_simps intro: staking_step)

lemma deliver_reaches:
  "deliver P C D b out j = Ok j' \<Longrightarrow> staking_reachable P (jt_staking j) \<Longrightarrow> staking_reachable P (jt_staking j')"
proof (induction out arbitrary: j)
  case (Cons x out)
  show ?case
  proof (cases x)
    case (Receive m)
    then show ?thesis
      using Cons call_staking_reaches by (fastforce simp: outcome_simps split: if_splits)
  next
    case (Receive_delegation m)
    then show ?thesis using Cons by (auto split: if_splits)
  qed
qed simp

lemma joint_run_reaches: "joint_run P C fresh D j \<Longrightarrow> staking_reachable P (jt_staking j)"
proof (induction rule: joint_run.induct)
  case (joint_start t e info msg s)
  then show ?case by (auto intro: staking_start)
next
  case (joint_step j who b msg j')
  show ?case
  proof (cases msg)
    case (To_token m)
    then obtain t' out where "deliver P C D b out (j\<lparr> jt_token := t' \<rparr>) = Ok j'"
      using joint_step.hyps(4) by (auto simp: call_token_def outcome_simps)
    then show ?thesis by (rule deliver_reaches) (simp add: joint_step.IH)
  next
    case (To_staking m)
    then show ?thesis using joint_step.hyps(4) joint_step.IH call_staking_reaches by (metis joint_tx.simps(2))
  qed
qed

section \<open>Properties\<close>

text \<open>C31: The votes placed in the gauge carry at most the decayed stake of the voter, an ended lock
  counting nothing, and exactly that stake when the staking contract can compute every part of it.\<close>

theorem gauge_votes_carry_the_decayed_stake:
  assumes "platform_exact P" and "gs_config g = Some c" and "voting_powers c = at" and "vs \<noteq> []"
    and "place_votes (gauge_over_staking P at s e H) g e' who i (Some vs) = Ok g'"
  shows "\<exists>v. may_load_votes g' who i = Some v \<and> wv_votes v = vs \<and> 0 < wv_power v \<and>
     wv_power v \<le> (\<Sum>d\<leftarrow>duration_values (config s). held_power s (seconds (block e)) who d) \<and>
     (addr_validate P who = Ok who \<and> (\<forall>d\<in>set (duration_values (config s)). computable s (seconds (block e)) who d) \<longrightarrow>
       wv_power v = (\<Sum>d\<leftarrow>duration_values (config s). held_power s (seconds (block e)) who d))"
  using assms(5)
proof (rule place_votes_cases)
  let ?ds = "duration_values (config s)" and ?now = "seconds (block e)"
  fix g0 config0 s1 g1 vs' pw prev ds s'
  assume "gs_config g = Some config0" "vs' = (case Some vs of None \<Rightarrow> [] | Some vs \<Rightarrow> vs)" "pw \<noteq> 0"
    and power: "gauge_voting_power (gauge_over_staking P at s e H) who (voting_powers config0) = Ok pw"
    and g': "g' = (if vs' = [] then remove_votes s' who i else set_votes s' e' who i vs' pw)"
  then have pw: "pw = stakes.granted P at s e who ?ds" and stored: "g' = set_votes s' e' who i vs pw"
    using assms(2-4) gauge_power_granted by auto
  have "pw = (\<Sum>d\<leftarrow>?ds. held_power s ?now who d)"
    if "addr_validate P who = Ok who" "\<forall>d\<in>set ?ds. computable s ?now who d"
    using stakes.granted_exact [of ?ds P at s e who] query_balance_answers [of P who s e] that
    by (simp add: pw balance_at_def told_power_def)
  then show ?thesis
    using \<open>pw \<noteq> 0\<close> granted_held [OF assms(1), of at s e who ?ds]
    by (auto simp: stored pw [symmetric] set_votes_def save_votes_def may_load_votes_def)
qed

theorem gauge_votes_carry_the_decayed_stake_witness:
  "\<exists>g' v. place_votes (gauge_over_staking demo_platform ''staking'' demo_stk1 (at_second 1000) (gauge_demo_host 1000))
       demo_gauge_fresh (gauge_env 50) ''ann'' 0 (Some [share ''x'' 7, share ''y'' 3]) = Ok g' \<and>
     may_load_votes g' ''ann'' 0 = Some v \<and> wv_power v = 300"
proof -
  let ?H = "gauge_over_staking demo_platform ''staking'' demo_stk1 (at_second 1000) (gauge_demo_host 1000)"
  have ask: "query_balance_by_duration demo_platform demo_stk1 (at_second 1000) ''ann'' d = Ok (if d = 3 then 300 else 0)" for d
    by (simp add: query_balance_by_duration_def position_of_def no_user_info_def decayed_def reward_calc_unit_def
        demo_staking_defs checked_int_defs Let_def)
  have "\<exists>g'. place_votes ?H demo_gauge_fresh (gauge_env 50) ''ann'' 0 (Some [share ''x'' 7, share ''y'' 3]) = Ok g'"
    by (simp add: gauge_eval gauge_over_staking_def durations_at_def balance_at_def staking_query_config_def ask answer_def
        demo_gauge_defs) (simp add: gauge_eval demo_staking_defs decimal_one_def)
  then obtain g' where run: "place_votes ?H demo_gauge_fresh (gauge_env 50) ''ann'' 0 (Some [share ''x'' 7, share ''y'' 3]) = Ok g'"
    by blast
  have "held_power demo_stk1 1000 ''ann'' d = (if d = 3 then 300 else 0)" for d
    by (simp add: held_power_def position_of_def no_user_info_def demo_staking_defs power_left_def Let_def reward_calc_unit_def)
  then have "(\<Sum>d\<leftarrow>duration_values (config demo_stk1). held_power demo_stk1 1000 ''ann'' d) = 300"
    by (simp add: demo_staking_defs)
  then show ?thesis
    using gauge_votes_carry_the_decayed_stake [OF demo_platform_exact _ _ _ run] run
    by (auto simp: demo_gauge_fresh_def computable_def position_of_def no_user_info_def demo_staking_defs checked_int_defs reward_calc_unit_def)
qed

text \<open>C32: Over the same staking contract the gauge and the multiple-choice contract grant an account
  the same voting power at every moment, and fail to compute it at the same moments.\<close>

theorem gauge_and_choice_grant_the_same_power:
  "(gauge_voting_power (gauge_over_staking P (mcc_dao (mc_conf m)) s e G) who (mcc_dao (mc_conf m)) = Ok n) \<longleftrightarrow>
   (\<exists>m'. mc_voting_power (choice_over_staking P (mcc_dao (mc_conf m)) s e H) m who pid = Ok (n, m'))"
  by (simp add: gauge_power_granted choice_power_granted [OF refl])

text \<open>C7: The voting power that the gauge grants to all accounts at one moment is backed by tokens: over
  the plain token it is at most the tokens the staking contract holds, times the longest duration.\<close>

theorem voting_power_is_backed_by_tokens:
  assumes "platform_exact P" and "joint_run P (base_token P) (plain_deployed P (at_staking D)) D j"
    and "finite A" and "\<forall>d\<in>set (duration_values (config (jt_staking j))). d \<le> m"
  shows "(\<Sum>a\<in>A. case gauge_voting_power (gauge_over_staking P at (jt_staking j) e H) a at of Ok n \<Rightarrow> n | _ \<Rightarrow> 0)
    \<le> m * kv_nat (balances (jt_token j)) (at_staking D)"
proof -
  let ?s = "jt_staking j" and ?now = "seconds (block e)"
  let ?ds = "duration_values (config ?s)"
  note backed = plain_run_backed [OF assms(2,1)]
  have "(\<Sum>a\<in>A. case gauge_voting_power (gauge_over_staking P at ?s e H) a at of Ok n \<Rightarrow> n | _ \<Rightarrow> 0)
      \<le> (\<Sum>a\<in>A. \<Sum>d\<leftarrow>?ds. held_power ?s ?now a d)"
    using granted_held [OF assms(1)]
    by (intro sum_mono) (auto simp: gauge_power_granted split: outcome.split)
  also have "\<dots> \<le> m * kv_total (total_staked ?s)"
    using backed assms(3,4) reachable_durations [OF joint_run_reaches [OF assms(2)] assms(1)]
    by (intro power_within_stakes) (simp_all add: base.backed_def)
  also have "\<dots> \<le> m * kv_nat (balances (jt_token j)) (at_staking D)"
    using backed by (intro mult_le_mono2) (simp add: base.backed_def owed_def base_bal_def)
  finally show ?thesis .
qed

theorem voting_power_is_backed_by_tokens_witness:
  "(\<Sum>a\<in>{''ann'', ''bob''}. case gauge_voting_power (gauge_over_staking demo_platform ''staking'' (jt_staking demo_joint2)
      (at_second 1000) (gauge_demo_host 1000)) a ''staking'' of Ok n \<Rightarrow> n | _ \<Rightarrow> 0)
    \<le> 24 * kv_nat (balances (jt_token demo_joint2)) ''staking''"
  using voting_power_is_backed_by_tokens [OF demo_platform_exact demo_joint2_run, of "{''ann'', ''bob''}" 24 "''staking''" "at_second 1000"]
  by (simp add: demo_joint2_def demo_deployment_def demo_staking_defs)

end
