(* ===== verification/Syneswap.thy ===== *)
theory Syneswap
  imports Synedex Farming
begin

text \<open>
  The package \<open>packages/syneswap\<close>: assets in readable and in canonical form, the pools of a pair and
  of a stakeable token, its queries, and the checks of a token's instantiation.  Assets have the
  constructors of \<open>Synedex\<close>; addresses are turned into canonical bytes and back by an
  \<open>address_codec\<close>.
\<close>

section \<open>Canonical addresses\<close>

text \<open>\<open>Api::addr_canonicalize\<close> and \<open>Api::addr_humanize\<close>.\<close>

record address_codec =
  canonicalize :: "string \<Rightarrow> (std_error, string) outcome"
  humanize :: "string \<Rightarrow> (std_error, addr) outcome"

text \<open>
  Documented behaviour of \<open>addr_validate\<close>: an address is accepted only if it can be canonicalized
  and the canonical form is humanized to the same address.
\<close>

definition codec_exact :: "platform \<Rightarrow> address_codec \<Rightarrow> bool" where
  "codec_exact P A \<longleftrightarrow>
     (\<forall>x a. addr_validate P x = Ok a \<longrightarrow> (\<exists>c. canonicalize A x = Ok c \<and> humanize A c = Ok x))"

text \<open>The contracts that are asked, besides those of \<open>dex_host\<close>: a factory and pairs.\<close>

record simulation_response =
  sim_return :: nat
  sim_spread :: nat
  sim_commission :: nat

record reverse_simulation_response =
  rsim_offer :: nat
  rsim_spread :: nat
  rsim_commission :: nat

text \<open>\<open>PairInfo\<close>: arrays of length two are pairs.\<close>

record swap_pair =
  sp_assets :: "asset_info \<times> asset_info"
  sp_contract :: string
  sp_liquidity :: string
  sp_decimals :: "nat \<times> nat"

record swap_host = dex_host +
  sh_coins :: "addr \<Rightarrow> (string \<times> nat) list option"
  sh_factory_pair :: "addr \<Rightarrow> asset_info \<times> asset_info \<Rightarrow> swap_pair option"
  sh_own_pair :: "addr \<Rightarrow> swap_pair option"
  sh_simulation :: "addr \<Rightarrow> asset \<Rightarrow> simulation_response option"
  sh_reverse :: "addr \<Rightarrow> asset \<Rightarrow> reverse_simulation_response option"

section \<open>Queries\<close>

definition sw_query_balance :: "swap_host \<Rightarrow> addr \<Rightarrow> string \<Rightarrow> (std_error, nat) outcome" where
  "sw_query_balance H account denom = query_failed (dh_bank H account denom)"

definition sw_query_all_balances :: "swap_host \<Rightarrow> addr \<Rightarrow> (std_error, (string \<times> nat) list) outcome" where
  "sw_query_all_balances H account = query_failed (sh_coins H account)"

definition sw_query_token_balance :: "swap_host \<Rightarrow> addr \<Rightarrow> addr \<Rightarrow> (std_error, nat) outcome" where
  "sw_query_token_balance H token account = query_failed (dh_cw20 H token account)"

definition sw_query_token_info :: "swap_host \<Rightarrow> addr \<Rightarrow> (std_error, token_facts) outcome" where
  "sw_query_token_info H token = query_failed (dh_token H token)"

definition sw_query_pair_info :: "swap_host \<Rightarrow> addr \<Rightarrow> asset_info \<times> asset_info \<Rightarrow> (std_error, swap_pair) outcome" where
  "sw_query_pair_info H factory infos = query_failed (sh_factory_pair H factory infos)"

definition sw_simulate :: "swap_host \<Rightarrow> addr \<Rightarrow> asset \<Rightarrow> (std_error, simulation_response) outcome" where
  "sw_simulate H pair offer = query_failed (sh_simulation H pair offer)"

definition sw_reverse_simulate :: "swap_host \<Rightarrow> addr \<Rightarrow> asset \<Rightarrow> (std_error, reverse_simulation_response) outcome" where
  "sw_reverse_simulate H pair ask = query_failed (sh_reverse H pair ask)"

definition sw_query_pair_info_from_pair :: "swap_host \<Rightarrow> addr \<Rightarrow> (std_error, swap_pair) outcome" where
  "sw_query_pair_info_from_pair H pair = query_failed (sh_own_pair H pair)"

section \<open>Assets\<close>

fun digits :: "nat \<Rightarrow> string" where
  "digits n = (if n < 10 then [char_of (48 + n)] else digits (n div 10) @ [char_of (48 + n mod 10)])"

declare digits.simps [simp del]

primrec sw_info_text :: "asset_info \<Rightarrow> string" where
  "sw_info_text (Asset_native d) = d"
| "sw_info_text (Asset_token a) = a"

definition sw_asset_text :: "asset \<Rightarrow> string" where
  "sw_asset_text a = digits (as_amount a) @ sw_info_text (as_info a)"

primrec sw_info_is_native :: "asset_info \<Rightarrow> bool" where
  "sw_info_is_native (Asset_native d) = True"
| "sw_info_is_native (Asset_token a) = False"

definition sw_is_native_token :: "asset \<Rightarrow> bool" where
  "sw_is_native_token a = sw_info_is_native (as_info a)"

definition sw_into_msg :: "asset \<Rightarrow> addr \<Rightarrow> (std_error, asset_out) outcome" where
  "sw_into_msg a recipient =
     (let amount = as_amount a in
      case as_info a of
        Asset_token t \<Rightarrow> Ok (Cw20_transfer t recipient amount)
      | Asset_native d \<Rightarrow> Ok (Bank_send recipient d (as_amount a)))"

definition sw_into_submsg :: "asset \<Rightarrow> addr \<Rightarrow> (std_error, asset_out) outcome" where
  "sw_into_submsg a recipient = sw_into_msg a recipient"

definition sw_assert_sent :: "(string \<times> nat) list \<Rightarrow> asset \<Rightarrow> (std_error, unit) outcome" where
  "sw_assert_sent funds a =
     (case as_info a of
        Asset_native d \<Rightarrow>
          (case find (\<lambda>x. fst x = d) funds of
             Some coin \<Rightarrow> if as_amount a = snd coin then Ok () else Err balance_mismatch
           | None \<Rightarrow> if as_amount a = 0 then Ok () else Err balance_mismatch)
      | Asset_token t \<Rightarrow> Ok ())"

primrec sw_equal :: "asset_info \<Rightarrow> asset_info \<Rightarrow> bool" where
  "sw_equal (Asset_token a) y = (case y of Asset_token a' \<Rightarrow> a = a' | Asset_native _ \<Rightarrow> False)"
| "sw_equal (Asset_native d) y = (case y of Asset_token _ \<Rightarrow> False | Asset_native d' \<Rightarrow> d = d')"

primrec sw_query_pool :: "swap_host \<Rightarrow> platform \<Rightarrow> asset_info \<Rightarrow> addr \<Rightarrow> (std_error, nat) outcome" where
  "sw_query_pool H P (Asset_token t) pool =
     and_then (addr_validate P t) (\<lambda>t'. sw_query_token_balance H t' pool)"
| "sw_query_pool H P (Asset_native d) pool = sw_query_balance H pool d"

text \<open>A failed query is unwrapped, so it panics.\<close>

definition sw_unwrap :: "(std_error, 'a) outcome \<Rightarrow> (std_error, 'a) outcome" where
  "sw_unwrap r = (case r of Ok v \<Rightarrow> Ok v | Err e \<Rightarrow> Panic | Panic \<Rightarrow> Panic)"

primrec sw_query_decimals :: "swap_host \<Rightarrow> asset_info \<Rightarrow> addr \<Rightarrow> (std_error, nat) outcome" where
  "sw_query_decimals H (Asset_native d) account =
     and_then (sw_unwrap (sw_query_balance H account d)) (\<lambda>n.
     if n = 0 then Err (Generic_err ''invalid native token'') else Ok 6)"
| "sw_query_decimals H (Asset_token t) account =
     and_then (sw_unwrap (sw_query_token_info H t)) (\<lambda>i. Ok (tf_decimals i))"

section \<open>Canonical form\<close>

datatype asset_info_raw = Raw_token string | Raw_native string

record asset_raw =
  ar_info :: asset_info_raw
  ar_amount :: nat

record swap_pair_raw =
  spr_assets :: "asset_info_raw \<times> asset_info_raw"
  spr_contract :: string
  spr_liquidity :: string
  spr_decimals :: "nat \<times> nat"

record stakeable_raw =
  str_asset :: asset_info_raw
  str_contract :: string
  str_liquidity :: string

primrec sw_info_to_raw :: "address_codec \<Rightarrow> asset_info \<Rightarrow> (std_error, asset_info_raw) outcome" where
  "sw_info_to_raw A (Asset_native d) = Ok (Raw_native d)"
| "sw_info_to_raw A (Asset_token a) = and_then (canonicalize A a) (\<lambda>c. Ok (Raw_token c))"

definition sw_asset_to_raw :: "address_codec \<Rightarrow> asset \<Rightarrow> (std_error, asset_raw) outcome" where
  "sw_asset_to_raw A a =
     and_then (case as_info a of
                 Asset_native d \<Rightarrow> Ok (Raw_native d)
               | Asset_token t \<Rightarrow> and_then (canonicalize A t) (\<lambda>c. Ok (Raw_token c))) (\<lambda>i.
     Ok \<lparr> ar_info = i, ar_amount = as_amount a \<rparr>)"

primrec sw_info_to_normal :: "address_codec \<Rightarrow> asset_info_raw \<Rightarrow> (std_error, asset_info) outcome" where
  "sw_info_to_normal A (Raw_native d) = Ok (Asset_native d)"
| "sw_info_to_normal A (Raw_token c) = and_then (humanize A c) (\<lambda>a. Ok (Asset_token a))"

definition sw_asset_to_normal :: "address_codec \<Rightarrow> asset_raw \<Rightarrow> (std_error, asset) outcome" where
  "sw_asset_to_normal A r =
     and_then (case ar_info r of
                 Raw_native d \<Rightarrow> Ok (Asset_native d)
               | Raw_token c \<Rightarrow> and_then (humanize A c) (\<lambda>a. Ok (Asset_token a))) (\<lambda>i.
     Ok \<lparr> as_info = i, as_amount = ar_amount r \<rparr>)"

primrec sw_raw_bytes :: "asset_info_raw \<Rightarrow> string" where
  "sw_raw_bytes (Raw_native d) = d"
| "sw_raw_bytes (Raw_token c) = c"

primrec sw_raw_equal :: "asset_info_raw \<Rightarrow> asset_info_raw \<Rightarrow> bool" where
  "sw_raw_equal (Raw_token c) y = (case y of Raw_token c' \<Rightarrow> c = c' | Raw_native _ \<Rightarrow> False)"
| "sw_raw_equal (Raw_native d) y = (case y of Raw_token _ \<Rightarrow> False | Raw_native d' \<Rightarrow> d = d')"

definition sw_pair_to_normal :: "address_codec \<Rightarrow> swap_pair_raw \<Rightarrow> (std_error, swap_pair) outcome" where
  "sw_pair_to_normal A r =
     and_then (humanize A (spr_liquidity r)) (\<lambda>liquidity.
     and_then (humanize A (spr_contract r)) (\<lambda>contract.
     and_then (sw_info_to_normal A (fst (spr_assets r))) (\<lambda>i0.
     and_then (sw_info_to_normal A (snd (spr_assets r))) (\<lambda>i1.
     Ok \<lparr> sp_assets = (i0, i1), sp_contract = contract, sp_liquidity = liquidity,
          sp_decimals = spr_decimals r \<rparr>))))"

definition sw_pair_pools ::
  "swap_host \<Rightarrow> platform \<Rightarrow> address_codec \<Rightarrow> swap_pair_raw \<Rightarrow> addr \<Rightarrow> (std_error, asset \<times> asset) outcome"
where
  "sw_pair_pools H P A r contract =
     and_then (sw_info_to_normal A (fst (spr_assets r))) (\<lambda>i0.
     and_then (sw_info_to_normal A (snd (spr_assets r))) (\<lambda>i1.
     and_then (sw_query_pool H P i0 contract) (\<lambda>n0.
     and_then (sw_query_pool H P i1 contract) (\<lambda>n1.
     Ok (\<lparr> as_info = i0, as_amount = n0 \<rparr>, \<lparr> as_info = i1, as_amount = n1 \<rparr>)))))"

definition sw_stakeable_to_normal :: "address_codec \<Rightarrow> stakeable_raw \<Rightarrow> (std_error, stakeable_token) outcome" where
  "sw_stakeable_to_normal A r =
     and_then (humanize A (str_liquidity r)) (\<lambda>liquidity.
     and_then (sw_info_to_normal A (str_asset r)) (\<lambda>i.
     Ok \<lparr> sk_liquidity = liquidity, sk_token = sw_info_text i, sk_distribution = [] \<rparr>))"

definition sw_stakeable_pools ::
  "swap_host \<Rightarrow> platform \<Rightarrow> address_codec \<Rightarrow> stakeable_raw \<Rightarrow> addr \<Rightarrow> (std_error, asset) outcome"
where
  "sw_stakeable_pools H P A r contract =
     and_then (sw_info_to_normal A (str_asset r)) (\<lambda>i.
     and_then (sw_query_pool H P i contract) (\<lambda>n. Ok \<lparr> as_info = i, as_amount = n \<rparr>))"

section \<open>Canonical forms and back\<close>

text \<open>
  The interface of a type with a canonical form: what is well formed has one, and gets back its
  readable form from it.
\<close>

locale canonical_form =
  fixes raw_of :: "'a \<Rightarrow> ('e, 'r) outcome"
    and normal_of :: "'r \<Rightarrow> ('e, 'a) outcome"
    and good :: "'a \<Rightarrow> bool"
  assumes returns: "good x \<Longrightarrow> \<exists>r. raw_of x = Ok r \<and> normal_of r = Ok x"
begin

lemma raw_normal: "good x \<Longrightarrow> raw_of x = Ok r \<Longrightarrow> normal_of r = Ok x"
  using returns by fastforce

lemma raw_inj: "good x \<Longrightarrow> good y \<Longrightarrow> raw_of x = Ok r \<Longrightarrow> raw_of y = Ok q \<Longrightarrow> r = q \<longleftrightarrow> x = y"
  using raw_normal [of x r] raw_normal [of y q] by auto

end

text \<open>Addresses that pass the validation are well formed, and so are native denominations.\<close>

primrec sw_valid_info :: "platform \<Rightarrow> asset_info \<Rightarrow> bool" where
  "sw_valid_info P (Asset_token a) = (\<exists>v. addr_validate P a = Ok v)"
| "sw_valid_info P (Asset_native d) = True"

interpretation codec: canonical_form "canonicalize A" "humanize A" "\<lambda>x. codec_exact P A \<and> (\<exists>v. addr_validate P x = Ok v)"
  for A P
  by unfold_locales (auto simp: codec_exact_def)

interpretation info: canonical_form "sw_info_to_raw A" "sw_info_to_normal A" "\<lambda>i. codec_exact P A \<and> sw_valid_info P i"
  for A P
proof unfold_locales
  fix x assume good: "codec_exact P A \<and> sw_valid_info P x"
  show "\<exists>r. sw_info_to_raw A x = Ok r \<and> sw_info_to_normal A r = Ok x"
  proof (cases x)
    case (Asset_token a)
    then obtain c where "canonicalize A a = Ok c" "humanize A c = Ok a" using codec.returns [of P A a] good by auto
    then show ?thesis by (simp add: Asset_token)
  qed simp
qed

lemma sw_asset_raw_info: "sw_asset_to_raw A a = and_then (sw_info_to_raw A (as_info a)) (\<lambda>i. Ok \<lparr> ar_info = i, ar_amount = as_amount a \<rparr>)"
  by (cases "as_info a") (simp_all add: sw_asset_to_raw_def)

lemma sw_asset_normal_info: "sw_asset_to_normal A r = and_then (sw_info_to_normal A (ar_info r)) (\<lambda>i. Ok \<lparr> as_info = i, as_amount = ar_amount r \<rparr>)"
  by (cases "ar_info r") (simp_all add: sw_asset_to_normal_def)

interpretation asset: canonical_form "sw_asset_to_raw A" "sw_asset_to_normal A" "\<lambda>a. codec_exact P A \<and> sw_valid_info P (as_info a)"
  for A P
proof unfold_locales
  fix x :: asset assume good: "codec_exact P A \<and> sw_valid_info P (as_info x)"
  then obtain r where "sw_info_to_raw A (as_info x) = Ok r" "sw_info_to_normal A r = Ok (as_info x)"
    using info.returns [of P A "as_info x"] by auto
  then show "\<exists>r. sw_asset_to_raw A x = Ok r \<and> sw_asset_to_normal A r = Ok x"
    by (simp add: sw_asset_raw_info sw_asset_normal_info)
qed

lemma sw_equal_eq [simp]: "sw_equal x y \<longleftrightarrow> x = y"
  by (cases x; cases y) auto

lemma sw_raw_equal_eq [simp]: "sw_raw_equal x y \<longleftrightarrow> x = y"
  by (cases x; cases y) auto

lemma sw_into_msg_Ok: "sw_into_msg a r = Ok (asset_into_msg (\<lparr> av_info = (case as_info a of Asset_token t \<Rightarrow> Valid_token t | Asset_native d \<Rightarrow> Valid_native d), av_amount = as_amount a \<rparr>) r)"
  by (cases "as_info a") (simp_all add: sw_into_msg_def asset_into_msg_def)

text \<open>The pools of a stored pair hold what the tokens and the bank report for its own assets.\<close>

lemma sw_pair_pools_of_raw:
  assumes "codec_exact P A" "sw_valid_info P i0" "sw_valid_info P i1"
    and "sw_info_to_raw A i0 = Ok r0" "sw_info_to_raw A i1 = Ok r1"
  shows "sw_pair_pools H P A \<lparr> spr_assets = (r0, r1), spr_contract = c, spr_liquidity = l, spr_decimals = ds \<rparr> pool =
     and_then (sw_query_pool H P i0 pool) (\<lambda>n0. and_then (sw_query_pool H P i1 pool) (\<lambda>n1.
     Ok (\<lparr> as_info = i0, as_amount = n0 \<rparr>, \<lparr> as_info = i1, as_amount = n1 \<rparr>)))"
  using assms info.raw_normal [of P A i0 r0] info.raw_normal [of P A i1 r1] by (simp add: sw_pair_pools_def)

text \<open>The decimals are asked with a panic instead of an error.\<close>

lemma sw_query_decimals_never_fails_politely:
  "sw_query_decimals H i account = Err e \<Longrightarrow> (\<exists>d. i = Asset_native d) \<and> e = Generic_err ''invalid native token''"
  by (cases i) (auto simp: sw_unwrap_def outcome_simps split: outcome.splits if_splits)

section \<open>Properties\<close>

definition demo_codec :: address_codec where
  "demo_codec = \<lparr> canonicalize = (\<lambda>a. Ok (rev a)), humanize = (\<lambda>c. Ok (rev c)) \<rparr>"

text \<open>Canonical forms lose nothing: an asset whose token address passes the validation has a
  canonical form, gets back its readable form from it, and is compared in canonical form exactly as in
  readable form.\<close>

theorem canonical_assets_return:
  assumes "codec_exact P A" and "sw_valid_info P (as_info a)" and "sw_valid_info P (as_info b)"
  shows "\<exists>r q. sw_asset_to_raw A a = Ok r \<and> sw_asset_to_raw A b = Ok q \<and> sw_asset_to_normal A r = Ok a \<and>
    (sw_raw_equal (ar_info r) (ar_info q) \<longleftrightarrow> sw_equal (as_info a) (as_info b))"
proof -
  obtain r q where raw: "sw_asset_to_raw A a = Ok r" "sw_asset_to_normal A r = Ok a" "sw_asset_to_raw A b = Ok q"
    using asset.returns [of P A a] asset.returns [of P A b] assms by auto
  then have "sw_info_to_raw A (as_info a) = Ok (ar_info r)" "sw_info_to_raw A (as_info b) = Ok (ar_info q)"
    by (auto simp: sw_asset_raw_info outcome_simps)
  then have "ar_info r = ar_info q \<longleftrightarrow> as_info a = as_info b"
    using info.raw_inj [of P A "as_info a" "as_info b"] assms by simp
  then show ?thesis using raw by auto
qed

theorem canonical_assets_return_witness:
  "\<exists>r. sw_asset_to_raw demo_codec \<lparr> as_info = Asset_token ''juno'', as_amount = 5 \<rparr> = Ok r \<and>
     sw_asset_to_normal demo_codec r = Ok \<lparr> as_info = Asset_token ''juno'', as_amount = 5 \<rparr> \<and>
     \<not> sw_raw_equal (ar_info r) (Raw_native ''onuj'')"
  using canonical_assets_return [of demo_platform demo_codec "\<lparr> as_info = Asset_token ''juno'', as_amount = 5 \<rparr>"
      "\<lparr> as_info = Asset_native ''onuj'', as_amount = 0 \<rparr>"]
  by (auto simp: codec_exact_def demo_codec_def demo_platform_def sw_asset_to_raw_def)

end
