(* ===== verification/Dex_Queries.thy ===== *)
theory Dex_Queries
  imports Syneswap
begin

text \<open>
  The remaining queries of \<open>packages/synedex\<close>, which ask a factory or a pair outside the repository and
  hand the answer on, with the fields they fill in; the texts of assets and pair types; and the
  operations of a multi-hop swap in both packages.
\<close>

section \<open>Queries that are handed on\<close>

record dex_simulation =
  ds_return :: nat
  ds_spread :: nat
  ds_commission :: nat
  ds_referral :: nat

record dex_reverse =
  dr_offer :: nat
  dr_spread :: nat
  dr_commission :: nat
  dr_referral :: nat

text \<open>The questions to a pair.\<close>

datatype pair_question =
    Ask_simulation asset "asset_info option" bool "decimal option"
  | Ask_reverse "asset_info option" asset bool "decimal option"

record query_host = swap_host +
  qh_pair_of :: "string \<Rightarrow> asset_info list \<Rightarrow> pair_info option"
  qh_pairs :: "string \<Rightarrow> asset_info list option \<Rightarrow> nat option \<Rightarrow> pair_info list option"
  qh_simulation :: "string \<Rightarrow> pair_question \<Rightarrow> dex_simulation option"
  qh_reverse :: "string \<Rightarrow> pair_question \<Rightarrow> dex_reverse option"
  qh_minter :: "string \<Rightarrow> string option"
  qh_pair :: "string \<Rightarrow> pair_info option"

definition dex_query_all_balances :: "query_host \<Rightarrow> addr \<Rightarrow> (std_error, (string \<times> nat) list) outcome" where
  "dex_query_all_balances H account = query_failed (sh_coins H account)"

definition dex_query_pair_info :: "query_host \<Rightarrow> string \<Rightarrow> asset_info list \<Rightarrow> (std_error, pair_info) outcome" where
  "dex_query_pair_info H factory infos = query_failed (qh_pair_of H factory infos)"

definition dex_query_pairs_info ::
  "query_host \<Rightarrow> string \<Rightarrow> asset_info list option \<Rightarrow> nat option \<Rightarrow> (std_error, pair_info list) outcome"
where
  "dex_query_pairs_info H factory start_after limit = query_failed (qh_pairs H factory start_after limit)"

definition dex_simulate :: "query_host \<Rightarrow> string \<Rightarrow> asset \<Rightarrow> (std_error, dex_simulation) outcome" where
  "dex_simulate H pair offer = query_failed (qh_simulation H pair (Ask_simulation offer None False None))"

definition dex_reverse_simulate :: "query_host \<Rightarrow> string \<Rightarrow> asset \<Rightarrow> (std_error, dex_reverse) outcome" where
  "dex_reverse_simulate H pair ask = query_failed (qh_reverse H pair (Ask_reverse None ask False None))"

text \<open>The pair behind a liquidity token is the token's minter.\<close>

definition pair_info_by_pool :: "query_host \<Rightarrow> string \<Rightarrow> (std_error, pair_info) outcome" where
  "pair_info_by_pool H pool =
     and_then (query_failed (qh_minter H pool)) (\<lambda>minter. query_failed (qh_pair H minter))"

section \<open>Texts\<close>

definition native_asset_info :: "string \<Rightarrow> asset_info" where
  "native_asset_info denom = Asset_native denom"

definition token_asset_info :: "string \<Rightarrow> asset_info" where
  "token_asset_info contract = Asset_token contract"

primrec dex_info_text :: "asset_info \<Rightarrow> string" where
  "dex_info_text (Asset_native d) = d"
| "dex_info_text (Asset_token a) = a"

primrec dex_valid_text :: "asset_valid \<Rightarrow> string" where
  "dex_valid_text (Valid_native d) = d"
| "dex_valid_text (Valid_token a) = a"

definition dex_asset_text :: "asset_validated \<Rightarrow> string" where
  "dex_asset_text a = digits (av_amount a) @ dex_valid_text (av_info a)"

datatype pair_type = Xyk | Stable | Lsd | Custom string

primrec pair_type_text :: "pair_type \<Rightarrow> string" where
  "pair_type_text Xyk = ''xyk''"
| "pair_type_text Stable = ''stable''"
| "pair_type_text Lsd = ''lsd''"
| "pair_type_text (Custom t) = ''custom-'' @ t"

text \<open>The text of a pair type determines it, whatever the name of a custom type.\<close>

lemma pair_type_text_inj: "pair_type_text x = pair_type_text y \<Longrightarrow> x = y"
  by (cases x; cases y) simp_all

text \<open>Validation keeps the text of an asset info.\<close>

lemma validated_text: "validate_info P i = Ok v \<Longrightarrow> platform_exact P \<Longrightarrow> dex_valid_text v = dex_info_text i"
  by (cases i) (auto simp: outcome_simps dest: platform_exactD split: if_splits)

section \<open>Multi-hop swaps\<close>

text \<open>Both packages have one kind of swap operation; the fields are the offered and the asked asset.\<close>

datatype terra_operation = Terra_swap asset_info asset_info

datatype dex_operation = Dex_swap asset_info asset_info

primrec terra_target :: "terra_operation \<Rightarrow> asset_info" where
  "terra_target (Terra_swap offer ask) = ask"

primrec dex_target :: "dex_operation \<Rightarrow> asset_info" where
  "dex_target (Dex_swap offer ask) = ask"

end
