(* ===== verification/Query_Entries.thy ===== *)
theory Query_Entries
  imports Power_Sources Cw4_Group
begin

text \<open>
  The query entry points: which query each request runs, and the listing of accounts of the staking
  contract, whose storage map shares its namespace with another one.  The answers by which the
  staking contract serves as a source of voting power come through its entry point.
\<close>

definition reply :: "('a \<Rightarrow> 'b) \<Rightarrow> ('e, 'a) outcome \<Rightarrow> ('e, 'b) outcome" where
  "reply f r = and_then r (\<lambda>x. Ok (f x))"

lemma reply_Ok [simp]: "reply f r = Ok y \<longleftrightarrow> (\<exists>x. r = Ok x \<and> y = f x)"
  by (auto simp: reply_def outcome_simps)

section \<open>The accounts of the staking contract\<close>

text \<open>
  \<open>BALANCES\<close> and \<open>TOTAL_BALANCES\<close> are both stored under \<open>balance\<close>, so a range over the first also
  runs over the entries of the second.  Their keys are eight bytes, the duration in big endian, and
  their values are records where the range expects amounts.
\<close>

datatype balance_entry = Amount_entry nat | Duration_entry balance_info

definition u64_key :: "nat \<Rightarrow> string" where
  "u64_key n = map (\<lambda>i. char_of (n div 2 ^ (8 * i) mod 256)) [7, 6, 5, 4, 3, 2, 1, 0]"

text \<open>\<open>String::from_utf8\<close>: well-formed sequences of one to four bytes.\<close>

definition continues :: "nat \<Rightarrow> bool" where
  "continues b \<longleftrightarrow> 128 \<le> b \<and> b < 192"

fun utf8_ok :: "nat list \<Rightarrow> bool" where
  "utf8_ok [] = True"
| "utf8_ok (b # bs) =
     (if b < 128 then utf8_ok bs
      else if 194 \<le> b \<and> b \<le> 223 then
        (case bs of c # r \<Rightarrow> continues c \<and> utf8_ok r | [] \<Rightarrow> False)
      else if 224 \<le> b \<and> b \<le> 239 then
        (case bs of c # d # r \<Rightarrow> continues c \<and> continues d \<and> (b = 224 \<longrightarrow> 160 \<le> c) \<and> (b = 237 \<longrightarrow> c < 160) \<and> utf8_ok r
         | _ \<Rightarrow> False)
      else if 240 \<le> b \<and> b \<le> 244 then
        (case bs of c # d # x # r \<Rightarrow> continues c \<and> continues d \<and> continues x \<and> (b = 240 \<longrightarrow> 144 \<le> c)
           \<and> (b = 244 \<longrightarrow> c < 144) \<and> utf8_ok r
         | _ \<Rightarrow> False)
      else False)"

text \<open>Reading an entry as one of \<open>BALANCES\<close>: the range decodes the key first and then the value.\<close>

definition read_account :: "string \<times> balance_entry \<Rightarrow> (std_error, string) outcome" where
  "read_account e =
     (if \<not> utf8_ok (map of_char (fst e)) then Err Invalid_utf8
      else case snd e of Amount_entry n \<Rightarrow> Ok (fst e) | Duration_entry b \<Rightarrow> Err (Parse_err ''Uint128''))"

definition balance_entries :: "staking_state \<Rightarrow> (string, balance_entry) kv" where
  "balance_entries s = sort_key fst
     (map (\<lambda>(a, n). (a, Amount_entry n)) (power_balances s) @
      map (\<lambda>(d, b). (u64_key d, Duration_entry b)) (total_balances s))"

definition staking_all_accounts ::
  "staking_state \<Rightarrow> string option \<Rightarrow> nat option \<Rightarrow> (std_error, string list) outcome"
where
  "staking_all_accounts s start_after limit =
     map_ok read_account
       (take (token_page_limit limit)
         (case start_after of None \<Rightarrow> balance_entries s | Some k \<Rightarrow> filter (\<lambda>x. k < fst x) (balance_entries s)))"

section \<open>The entry point of the staking contract\<close>

datatype staking_question =
    Sq_total_reward | Sq_total_reward_in_contract | Sq_staked_by_user string nat | Sq_total_daily_reward
  | Sq_user_reward string nat | Sq_user_staked_time string nat | Sq_wait_time | Sq_freeze_lock_time
  | Sq_lock_time_frame | Sq_last_distribution_time | Sq_config | Sq_total_staked_by_duration nat
  | Sq_balance string | Sq_balance_by_duration string nat | Sq_token_info | Sq_minter
  | Sq_all_accounts "string option" "nat option" | Sq_community_addr | Sq_total_balance nat

datatype staking_answer =
    Sa_number nat | Sa_reward user_reward_response | Sa_config staking_config
  | Sa_token_info "string \<times> string \<times> nat \<times> nat" | Sa_minter "minter_data option"
  | Sa_accounts "string list" | Sa_addr addr

fun staking_query :: "platform \<Rightarrow> staking_state \<Rightarrow> env \<Rightarrow> staking_question \<Rightarrow> (std_error, staking_answer) outcome" where
  "staking_query P s e Sq_total_reward = reply Sa_number (query_total_reward s)"
| "staking_query P s e Sq_total_reward_in_contract = reply Sa_number (query_total_reward_in_contract s)"
| "staking_query P s e (Sq_staked_by_user w d) = reply Sa_number (query_staked_by_user P s w d)"
| "staking_query P s e Sq_total_daily_reward = reply Sa_number (query_total_daily_reward s)"
| "staking_query P s e (Sq_user_reward w d) = reply Sa_reward (query_user_reward P s w d)"
| "staking_query P s e (Sq_user_staked_time w d) = reply Sa_number (query_user_staked_time P s w d)"
| "staking_query P s e Sq_wait_time = reply Sa_number (query_distribution_wait_time s)"
| "staking_query P s e Sq_freeze_lock_time = reply Sa_number (query_freeze_lock_time s)"
| "staking_query P s e Sq_lock_time_frame = reply Sa_number (query_lock_time_frame s)"
| "staking_query P s e Sq_last_distribution_time = reply Sa_number (query_last_distribution_time s)"
| "staking_query P s e Sq_config = reply Sa_config (staking_query_config s)"
| "staking_query P s e (Sq_total_staked_by_duration d) = reply Sa_number (query_total_staked_by_duration s d)"
| "staking_query P s e (Sq_balance a) = reply Sa_number (staking_query_balance P s e a)"
| "staking_query P s e (Sq_balance_by_duration a d) = reply Sa_number (query_balance_by_duration P s e a d)"
| "staking_query P s e Sq_token_info = reply Sa_token_info (staking_query_token_info s)"
| "staking_query P s e Sq_minter = reply Sa_minter (staking_query_minter s)"
| "staking_query P s e (Sq_all_accounts start_after limit) = reply Sa_accounts (staking_all_accounts s start_after limit)"
| "staking_query P s e Sq_community_addr = reply Sa_addr (query_community_addr s)"
| "staking_query P s e (Sq_total_balance d) = reply Sa_number (query_total_balance s (seconds (block e)) d)"

text \<open>\<open>minter.rs\<close> has an entry point of its own for the token queries.\<close>

datatype minter_question =
    Mq_balance string | Mq_balance_by_duration string nat | Mq_token_info | Mq_minter
  | Mq_all_accounts "string option" "nat option" | Mq_total_balance nat

fun minter_query :: "platform \<Rightarrow> staking_state \<Rightarrow> env \<Rightarrow> minter_question \<Rightarrow> (std_error, staking_answer) outcome" where
  "minter_query P s e (Mq_balance a) = reply Sa_number (staking_query_balance P s e a)"
| "minter_query P s e (Mq_balance_by_duration a d) = reply Sa_number (query_balance_by_duration P s e a d)"
| "minter_query P s e Mq_token_info = reply Sa_token_info (staking_query_token_info s)"
| "minter_query P s e Mq_minter = reply Sa_minter (staking_query_minter s)"
| "minter_query P s e (Mq_all_accounts start_after limit) = reply Sa_accounts (staking_all_accounts s start_after limit)"
| "minter_query P s e (Mq_total_balance d) = reply Sa_number (query_total_balance s (seconds (block e)) d)"

section \<open>The entry points of the tokens\<close>

datatype token_question =
    Tq_balance string | Tq_token_info | Tq_minter | Tq_allowance string string
  | Tq_all_allowances string "string option" "nat option" | Tq_all_spender_allowances string "string option" "nat option"
  | Tq_all_accounts "string option" "nat option" | Tq_marketing_info | Tq_download_logo

datatype token_answer =
    Ta_number nat | Ta_token_info "string \<times> string \<times> nat \<times> nat" | Ta_minter "minter_data option"
  | Ta_allowance allowance | Ta_allowances "allowance_entry list" | Ta_accounts "addr list"
  | Ta_marketing marketing_info | Ta_logo "string \<times> bytes"

fun token_query :: "platform \<Rightarrow> token_state \<Rightarrow> token_question \<Rightarrow> (std_error, token_answer) outcome" where
  "token_query P s (Tq_balance a) = reply Ta_number (query_balance P s a)"
| "token_query P s Tq_token_info = reply Ta_token_info (query_token_info s)"
| "token_query P s Tq_minter = reply Ta_minter (query_minter s)"
| "token_query P s (Tq_allowance own spender) = reply Ta_allowance (query_allowance P s own spender)"
| "token_query P s (Tq_all_allowances own start_after limit) = reply Ta_allowances (query_owner_allowances P s own start_after limit)"
| "token_query P s (Tq_all_spender_allowances spender start_after limit) =
     reply Ta_allowances (query_spender_allowances P s spender start_after limit)"
| "token_query P s (Tq_all_accounts start_after limit) = reply Ta_accounts (query_all_accounts s start_after limit)"
| "token_query P s Tq_marketing_info = reply Ta_marketing (query_marketing_info s)"
| "token_query P s Tq_download_logo = reply Ta_logo (query_download_logo s)"

datatype vest_question =
    Vq_balance string | Vq_vesting string | Vq_delegated string | Vq_allow_list | Vq_token_info | Vq_max_complexity
  | Vq_minter | Vq_allowance string string | Vq_all_allowances string "string option" "nat option"
  | Vq_all_accounts "string option" "nat option" | Vq_marketing_info | Vq_download_logo | Vq_staking_address

datatype vest_answer =
    Va_number nat | Va_vesting vesting_response | Va_list "string list" | Va_token_info "string \<times> string \<times> nat \<times> nat"
  | Va_minter "vest_minter_response option" | Va_allowance allowance | Va_allowances "allowance_entry list"
  | Va_marketing marketing_info | Va_logo "string \<times> bytes" | Va_addr "addr option"

fun vest_query :: "platform \<Rightarrow> vest_state \<Rightarrow> env \<Rightarrow> vest_question \<Rightarrow> (std_error, vest_answer) outcome" where
  "vest_query P s e (Vq_balance a) = reply Va_number (vest_query_balance P s a)"
| "vest_query P s e (Vq_vesting a) = reply Va_vesting (query_vesting P s e a)"
| "vest_query P s e (Vq_delegated a) = reply Va_number (query_delegated P s a)"
| "vest_query P s e Vq_allow_list = reply Va_list (query_allow_list s)"
| "vest_query P s e Vq_token_info = reply Va_token_info (vest_query_token_info s)"
| "vest_query P s e Vq_max_complexity = reply Va_number (query_max_complexity s)"
| "vest_query P s e Vq_minter = reply Va_minter (vest_query_minter s e)"
| "vest_query P s e (Vq_allowance own spender) = reply Va_allowance (vest_query_allowance P s own spender)"
| "vest_query P s e (Vq_all_allowances own start_after limit) =
     reply Va_allowances (vest_query_all_allowances P s own start_after limit)"
| "vest_query P s e (Vq_all_accounts start_after limit) = reply Va_list (vest_query_all_accounts s start_after limit)"
| "vest_query P s e Vq_marketing_info = reply Va_marketing (vest_query_marketing_info s)"
| "vest_query P s e Vq_download_logo = reply Va_logo (vest_query_download_logo s)"
| "vest_query P s e Vq_staking_address = reply Va_addr (query_staking_address s)"

section \<open>The entry points of gauge, choices and governance\<close>

definition gauge_info :: "gauge_state \<Rightarrow> (gauge_error, string \<times> string) outcome" where
  "gauge_info s = map_err G_std (ok_or (Not_found ''ContractVersion'') (gs_version s))"

definition gauge_list_votes ::
  "platform \<Rightarrow> gauge_state \<Rightarrow> nat \<Rightarrow> string option \<Rightarrow> nat option \<Rightarrow> (gauge_error, gauge_vote_info list) outcome"
where
  "gauge_list_votes P s g start_after limit = query_votes_by_gauge P s g start_after limit"

datatype gauge_question =
    Gq_info | Gq_gauge nat | Gq_list_gauges "nat option" "nat option" | Gq_vote nat string
  | Gq_list_votes nat "string option" "nat option" | Gq_list_options nat "string option" "nat option"
  | Gq_selected_set nat | Gq_last_executed_set nat | Gq_vote_history nat "nat option" "nat option"
  | Gq_vote_history_reverse nat "nat option" "nat option" | Gq_version nat

datatype gauge_answer =
    Ga_info "string \<times> string" | Ga_gauge gauge_response | Ga_gauges "gauge_response list"
  | Ga_vote "gauge_vote_info option" | Ga_votes "gauge_vote_info list" | Ga_options "(string \<times> nat) list"
  | Ga_executed "(string \<times> nat) list option" | Ga_history "vote_history list" | Ga_version "nat \<times> nat"

fun gauge_query :: "platform \<Rightarrow> gauge_state \<Rightarrow> gauge_question \<Rightarrow> (gauge_error, gauge_answer) outcome" where
  "gauge_query P s Gq_info = reply Ga_info (gauge_info s)"
| "gauge_query P s (Gq_gauge i) = reply Ga_gauge (query_gauge s i)"
| "gauge_query P s (Gq_list_gauges start_after limit) = reply Ga_gauges (list_gauges s start_after limit)"
| "gauge_query P s (Gq_vote i who) = reply Ga_vote (query_gauge_vote P s i who)"
| "gauge_query P s (Gq_list_votes i start_after limit) = reply Ga_votes (gauge_list_votes P s i start_after limit)"
| "gauge_query P s (Gq_list_options i start_after limit) = reply Ga_options (list_options s i start_after limit)"
| "gauge_query P s (Gq_selected_set i) = reply Ga_options (selected_set s i)"
| "gauge_query P s (Gq_last_executed_set i) = reply Ga_executed (last_executed_set s i)"
| "gauge_query P s (Gq_vote_history i start_after limit) = reply Ga_history (list_vote_history s i start_after limit)"
| "gauge_query P s (Gq_vote_history_reverse i start_after limit) =
     reply Ga_history (list_vote_history_reverse s i start_after limit)"
| "gauge_query P s (Gq_version i) = reply Ga_version (gauge_version s i)"

definition mc_query_config :: "mc_state \<Rightarrow> mc_config" where "mc_query_config s = mc_conf s"
definition mc_query_dao :: "mc_state \<Rightarrow> string" where "mc_query_dao s = mcc_dao (mc_conf s)"
definition mc_query_proposal_count :: "mc_state \<Rightarrow> nat" where "mc_query_proposal_count s = mc_count s"
definition mc_query_info :: "mc_state \<Rightarrow> string \<times> string" where "mc_query_info s = mc_version_info s"

datatype mc_question =
    Cq_config | Cq_dao | Cq_proposal nat | Cq_list_proposals "nat option" "nat option" | Cq_count
  | Cq_get_vote nat addr "nat option" | Cq_list_votes nat "(addr \<times> string) option" "nat option" | Cq_info
  | Cq_hold_amount string | Cq_history nat "nat option" "nat option" "bool option" | Cq_version nat
  | Cq_executions nat "nat option" "nat option"

datatype mc_answer =
    Ca_config mc_config | Ca_text string | Ca_proposal "nat \<times> mc_proposal" | Ca_proposals "(nat \<times> mc_proposal) list"
  | Ca_number nat | Ca_votes "mc_vote_info list" | Ca_info "string \<times> string" | Ca_history "(nat \<times> mc_history) list"
  | Ca_executions "(nat \<times> mc_execution) list"

fun mc_query :: "platform \<Rightarrow> mc_host \<Rightarrow> mc_state \<Rightarrow> env \<Rightarrow> mc_question \<Rightarrow> (std_error, mc_answer) outcome" where
  "mc_query P H s e Cq_config = Ok (Ca_config (mc_query_config s))"
| "mc_query P H s e Cq_dao = Ok (Ca_text (mc_query_dao s))"
| "mc_query P H s e (Cq_proposal pid) = reply Ca_proposal (mc_query_proposal P H s e pid)"
| "mc_query P H s e (Cq_list_proposals start_after limit) = reply Ca_proposals (mc_list_proposals P H s e start_after limit)"
| "mc_query P H s e Cq_count = Ok (Ca_number (mc_query_proposal_count s))"
| "mc_query P H s e (Cq_get_vote pid who version) = reply Ca_votes (mc_user_votes s pid who version)"
| "mc_query P H s e (Cq_list_votes pid start_after limit) = reply Ca_votes (mc_list_votes s pid start_after limit)"
| "mc_query P H s e Cq_info = Ok (Ca_info (mc_query_info s))"
| "mc_query P H s e (Cq_hold_amount a) = Ok (Ca_number (mc_query_hold_amount s a))"
| "mc_query P H s e (Cq_history pid start_after limit rev_flag) =
     Ok (Ca_history (mc_proposal_history s pid start_after limit rev_flag))"
| "mc_query P H s e (Cq_version pid) = reply Ca_number (mc_proposal_version s pid)"
| "mc_query P H s e (Cq_executions pid start_after limit) = Ok (Ca_executions (mc_proposal_executions s pid start_after limit))"

text \<open>The governance contract stores its name and version once, when it is set up.\<close>

definition gov_query_info :: "gov_state \<Rightarrow> string \<times> string" where
  "gov_query_info s = (''crates.io:cwd-proposal-single'', ''1.0.0'')"

datatype gov_question =
    Pq_config | Pq_dao | Pq_proposal nat | Pq_list_proposals "nat option" "nat option" | Pq_count
  | Pq_get_vote nat string | Pq_list_votes nat "string option" "nat option" | Pq_info | Pq_hold_amount string

datatype gov_answer =
    Pa_config prop_config | Pa_text string | Pa_proposal proposal_response | Pa_proposals "proposal_response list"
  | Pa_number nat | Pa_vote "vote_info option" | Pa_votes "vote_info list" | Pa_info "string \<times> string"

fun gov_query :: "platform \<Rightarrow> gov_state \<Rightarrow> env \<Rightarrow> gov_question \<Rightarrow> (std_error, gov_answer) outcome" where
  "gov_query P s e Pq_config = reply Pa_config (query_gov_config s)"
| "gov_query P s e Pq_dao = reply Pa_text (query_dao s)"
| "gov_query P s e (Pq_proposal pid) = reply Pa_proposal (query_proposal P s e pid)"
| "gov_query P s e (Pq_list_proposals start_after limit) = reply Pa_proposals (query_list_proposals P s e start_after limit)"
| "gov_query P s e Pq_count = reply Pa_number (query_proposal_count s)"
| "gov_query P s e (Pq_get_vote pid who) = reply Pa_vote (query_vote P s pid who)"
| "gov_query P s e (Pq_list_votes pid start_after limit) = reply Pa_votes (query_list_votes P s pid start_after limit)"
| "gov_query P s e Pq_info = Ok (Pa_info (gov_query_info s))"
| "gov_query P s e (Pq_hold_amount a) = reply Pa_number (query_hold_amount s a)"

section \<open>Queries of contracts that ask each other\<close>

text \<open>What a contract takes from an answer that should be a number.\<close>

definition number_of :: "(std_error, staking_answer) outcome \<Rightarrow> nat option" where
  "number_of r = (case r of Ok (Sa_number n) \<Rightarrow> Some n | _ \<Rightarrow> None)"

lemma number_of_reply [simp]: "number_of (reply Sa_number r) = answer r"
  by (cases r) (simp_all add: number_of_def reply_def answer_def)

text \<open>
  The answers by which the gauge, the multiple-choice contract and the governance contract run on top
  of the staking contract are those of its entry point.
\<close>

lemma balance_at_entry:
  "balance_at P at s e at who d = number_of (staking_query P s e (Sq_balance_by_duration who d))"
  by (simp add: balance_at_def)

lemma dao_answers_entry:
  "dao_balance (dao_of_staking P at s e sz) at who = number_of (staking_query P s e (Sq_balance who))"
  "dao_total_balance (dao_of_staking P at s e sz) at d = number_of (staking_query P s e (Sq_total_balance d))"
  by (simp_all add: dao_of_staking_def)

lemma durations_at_entry:
  "durations_at at s at = and_then (staking_query P s e Sq_config) (\<lambda>a. case a of Sa_config c \<Rightarrow> Ok (duration_values c) | _ \<Rightarrow> Panic)"
  by (simp add: durations_at_def reply_def staking_query_config_def)

text \<open>The entry point of \<open>minter.rs\<close> is a part of that of the contract.\<close>

primrec minter_part :: "minter_question \<Rightarrow> staking_question" where
  "minter_part (Mq_balance a) = Sq_balance a"
| "minter_part (Mq_balance_by_duration a d) = Sq_balance_by_duration a d"
| "minter_part Mq_token_info = Sq_token_info"
| "minter_part Mq_minter = Sq_minter"
| "minter_part (Mq_all_accounts start_after limit) = Sq_all_accounts start_after limit"
| "minter_part (Mq_total_balance d) = Sq_total_balance d"

lemma minter_query_part: "minter_query P s e q = staking_query P s e (minter_part q)"
  by (cases q) simp_all

section \<open>The listing of accounts\<close>

lemma u64_key_first: "d < 2 ^ 56 \<Longrightarrow> \<exists>rest. u64_key d = CHR 0x00 # rest"
  by (simp add: u64_key_def char_of_def)

text \<open>
  The listing of all accounts of the staking contract runs over the durations as well, which come before
  all names: as soon as anybody has staked, a listing from the start is an error, whatever its limit
  (but zero).
\<close>

theorem account_listing_fails_after_a_stake:
  assumes "kv_get (total_balances s) d = Some b" "\<forall>d\<in>fst ` set (total_balances s). d < 2 ^ 56"
    and "\<forall>a\<in>fst ` set (power_balances s). a \<noteq> [] \<and> hd a \<noteq> CHR 0x00" "limit \<noteq> Some 0"
  shows "\<nexists>r. staking_query P s e (Sq_all_accounts None limit) = Ok r"
proof -
  have "(u64_key d, Duration_entry b) \<in> set (balance_entries s)"
    using kv_get_in_set [OF assms(1)] by (force simp: balance_entries_def)
  then obtain x xs where es: "balance_entries s = x # xs" by (cases "balance_entries s") auto
  have "sorted (map fst (balance_entries s))" by (simp add: balance_entries_def)
  then have "fst x \<le> u64_key d"
    using \<open>(u64_key d, Duration_entry b) \<in> set (balance_entries s)\<close> by (auto simp: es)
  have "d < 2 ^ 56" using assms(1,2) kv_get_in_set by force
  have "\<nexists>n. snd x = Amount_entry n"
  proof
    assume "\<exists>n. snd x = Amount_entry n"
    moreover have "x \<in> set (balance_entries s)" by (simp add: es)
    ultimately have "fst x \<in> fst ` set (power_balances s)" by (force simp: balance_entries_def)
    with assms(3) have "fst x \<noteq> []" "hd (fst x) \<noteq> CHR 0x00" by blast+
    then obtain c cs where "fst x = c # cs" "c \<noteq> CHR 0x00" by (cases "fst x") auto
    with \<open>fst x \<le> u64_key d\<close> u64_key_first [OF \<open>d < 2 ^ 56\<close>] show False by (auto simp: less_char_def)
  qed
  then have "\<nexists>y. read_account x = Ok y" by (cases "snd x") (auto simp: read_account_def)
  moreover have "token_page_limit limit \<noteq> 0" using assms(4) by (auto simp: token_page_limit_def split: option.splits)
  ultimately show ?thesis
    by (cases "token_page_limit limit") (auto simp: staking_all_accounts_def es outcome_simps)
qed

theorem account_listing_fails_after_a_stake_witness:
  "staking_reachable demo_platform demo_stk1 \<and>
   \<not> (\<exists>r. staking_query demo_platform demo_stk1 (at_second 1000) (Sq_all_accounts None None) = Ok r)"
proof
  show "staking_reachable demo_platform demo_stk1"
    by (rule staking_step [OF staking_start [OF demo_staking_start] demo_staking_run1])
  have "kv_get (total_balances demo_stk1) 3 = Some \<lparr> total_power = 300, total_mint_time = 1000 \<rparr>"
    by (simp add: demo_stk1_def)
  then show "\<not> (\<exists>r. staking_query demo_platform demo_stk1 (at_second 1000) (Sq_all_accounts None None) = Ok r)"
    by (rule account_listing_fails_after_a_stake) (simp_all add: demo_stk1_def)
qed

end
