(* ===== verification/Spec2Isabelle.thy ===== *)
theory Spec2Isabelle
  imports Curve_Proofs Cw4_Proofs Cw20_Proofs Dao Vesting_Props Gauge_Props Distribution Choice_Props Multisig_Props
    Vault_Props Farming_Props Synedex_Proofs Oracle_Proofs Token_System_Props
    Staking_Token Power_Sources Syneswap Dex_Queries Query_Entries
begin

text \<open>
  Verification library of the Synergistic-JUNO contracts, CosmWasm contracts in Rust.

  The program.  Each contract keeps its state in storage items and maps and is driven by
  messages: \<open>instantiate\<close> builds the state, \<open>execute\<close> handles one message and either fails
  without effect or leaves a new state and a list of messages to other contracts, \<open>query\<close> reads.
  The contracts modelled here are the token (\<open>contracts/cw20-base\<close>), the group of weighted members
  (\<open>contracts/cw4-group\<close>), the staking contract (\<open>contracts/syneswap_staking\<close>), the governance
  contract (\<open>contracts/syneswap_proposal\<close>) and its multiple-choice variant
  (\<open>contracts/syneswap_loop_multiple_choice_proposal\<close>), the token with vesting schedules
  (\<open>contracts/cw20-vesting\<close>), the gauge (\<open>contracts/synergistic_wynd_gauge\<close>), the fixed multisig
  (\<open>contracts/cw3-fixed-multisig\<close>), the payment stream (\<open>contracts/distribution\<close>), the farming contract
  (\<open>contracts/loopswap_farming\<close>), the liquid staking
  vaults (\<open>contracts/bwynd-vault\<close>, \<open>contracts/bloop-vault\<close>) and the converters that own their stake in
  the outer protocols (\<open>contracts/bwynd-converter-and-staker\<close>, \<open>contracts/bloop-converter-and-staker\<close>),
  with the packages they build on: the curves (\<open>packages/syne-curve-utils\<close>) and the controllers
  (\<open>packages/controllers\<close>).  The package \<open>packages/synedex\<close> is a library for pairs of an exchange;
  its assets, fees, checks, ownership proposals and price oracle are modelled, and so are the assets and
  queries of \<open>packages/syneswap\<close>.  Tokens enter the staking contract through the token's send hook; stakes
  give a voting power that decays over the lock; the governance contract asks the staking contract
  for that power at every vote.  The vesting token locks what it grants under a falling curve and
  stops every outgoing message from cutting into the locked part.  The gauge and the multiple-choice
  contract collect the votes of the stakers and vote with the result on a gauge outside the
  repository, once per epoch or round.  The converters pass these votes on; they mint bTokens for what
  users convert and send the rewards of the outer protocols to the vaults, where bTokens are staked.
  The farming contract pools stakes of liquidity tokens in an outer farm and shares its rewards.

  The model.  Every handler is a function of the state, the environment (block height and time,
  own address), the sender and the message, composed of the same steps in the same order as the
  source.  Its result is of type \<open>outcome\<close>: \<open>Ok\<close> with the new state and the messages sent, \<open>Err\<close>
  with the error value of the source, or \<open>Panic\<close> for an arithmetic overflow, a division by zero or
  a failed unwrap.  Neither failure carries a state, because the chain rolls the transaction back.
  \<open>u64\<close> and \<open>u128\<close> values are natural numbers with every overflow check written out (\<open>u64_add\<close>,
  \<open>u128_mul\<close>, \<open>u128_multiply_ratio\<close>, the \<open>checked\<close> variants); decimals are their 18-digit atomics.
  Definitions compute, and the witnesses evaluate them on concrete runs.

  Parameters.  Library code outside the repository is an argument of the definitions that use it:
  the record \<open>platform\<close> (\<open>Api::addr_validate\<close>, \<open>Expiration::is_expired\<close>, \<open>Duration::after\<close>) and the
  record \<open>dao_host\<close> (the answers to the three queries of the governance contract, and the
  serialised size of a proposal), the records \<open>gauge_host\<close> and \<open>mc_host\<close> (the outer gauge, its
  adapter, the staking contract, the iteration order of a hash map, the order of expirations), the
  record \<open>protocol_host\<close> (the rewards that wait in the outer staking protocols), the record
  \<open>farm_host\<close> (the answers of the outer farm to queries), the record \<open>dex_host\<close> (balances, token
  information and the configuration of the exchange's factory) with its extension \<open>swap_host\<close>, the record
  \<open>address_codec\<close> (canonical addresses) and the record \<open>cw3_lib\<close> (statuses, tallies and thresholds of the package \<open>cw3\<close>).  The laws assumed of
  them are documented behaviour: address validation accepts an address unchanged
  (\<open>platform_exact\<close>) and only if its canonical form leads back to it (\<open>codec_exact\<close>), a hash map is
  iterated in some order of its entries (\<open>hash_orders\<close>), the outer farm keeps its word
  (\<open>farm_keeps_its_word\<close>), the callback of an ownership claim sets the owner, and the
  status and tally functions of \<open>cw3\<close> (\<open>cw3_laws\<close>).

  Theories.

  \<^item> \<open>Prelude\<close>: outcomes, checked integers, environment, parameters; the rule collections
    \<open>outcome_simps\<close> and \<open>arith_simps\<close> that turn a chain of fallible steps into its success conditions.
  \<^item> \<open>Store\<close>: a storage map as an association list sorted by key; the interface \<open>keyed_store\<close>,
    its extension \<open>ledger\<close> for maps of amounts (moving, crediting and debiting against the total), and
    \<open>paginated\<close> for listings read page by page, all interpreted on the storage model.
  \<^item> \<open>Curve\<close>, \<open>Curve_Proofs\<close>: \<open>curve.rs\<close> and \<open>scalable_curve.rs\<close>: evaluation, validation, range, sum
    and scaling of curves; validated curves are monotone and in range, sums are exact at the
    breakpoints, evaluation of 64-bit curves never panics.
  \<^item> \<open>Controllers\<close>: \<open>admin.rs\<close>, \<open>hooks.rs\<close>, \<open>claim.rs\<close>; the interface \<open>access_control\<close> of the guarded
    operations, interpreted for the admin, the hooks and the owner of the staking contract.
  \<^item> \<open>Cw4_Group\<close>, \<open>Cw4_Proofs\<close>: the group; the stored total is the sum of the weights, updates do what
    their message says and need the admin, listings are complete.
  \<^item> \<open>Cw20_Base\<close>, \<open>Cw20_Proofs\<close>: the token with allowances, logos, listings and migration; the
    supply is the sum of the balances and respects the cap, balances fall only with consent, the two
    allowance maps mirror each other.
  \<^item> \<open>Staking\<close>, \<open>Staking_Contract\<close>, \<open>Staking_Proofs\<close>: \<open>minter.rs\<close> and the reward query, then the handlers
    and the distribution loop of \<open>contract.rs\<close>; every message conserves the tokens owed, totals are
    the sums of the positions, locks and the maintenance window hold, a reward that was claimed is not
    paid again before the next distribution, whatever messages come in between (\<open>quiet_run\<close>),
    distributions are bounded.
  \<^item> \<open>Proposal\<close>, \<open>Proposal_Proofs\<close>: thresholds, votes, status and handlers of the governance contract;
    tallies count every ballot, proposals follow one life cycle and execute at most once, deposits
    are exact while the deposit setting stays, the pass rules in exact arithmetic: percentages are of the
    whole power of the DAO.
  \<^item> \<open>Dao\<close>: the governance contract with the staking contract as its source of voting power.
  \<^item> \<open>Curve_Sums\<close>: sums of curves never lose more than one unit, and a merged schedule locks the
    sum of its parts.
  \<^item> \<open>Vesting\<close>, \<open>Vesting_Proofs\<close>, \<open>Vesting_Refine\<close>, \<open>Vesting_Safety\<close>, \<open>Vesting_Props\<close>: the vesting
    token; every successful message is one of the plain token on the abstracted state (which may reject
    a stale expiration of an allowance), the supply
    is the sum of the balances below the cap curve, locked tokens stay through every later run and
    are free after the last breakpoint, delegation is a round trip.
  \<^item> \<open>Token_System\<close>, \<open>Token_System_Props\<close>: either token and the staking contract together; a
    transaction (\<open>joint_tx\<close>) delivers the hooks of the token and executes the transfers the staking
    contract asks for.  What the staking contract needs of a token is the interface \<open>safe_token\<close> (other
    senders cannot lower its balance, hooks report received tokens) and its extension \<open>paying_token\<close>
    (transfers within the balance succeed); the plain token gives both, the vesting token the first.
    The staking contract always holds what it owes over either token; over the plain token payouts go
    through.
  \<^item> \<open>Staking_Token\<close>: the set-up of the voting token as the staking contract spells it out, and that
    this copy agrees with the plain token's.
  \<^item> \<open>Gauge\<close>, \<open>Gauge_Proofs\<close>, \<open>Gauge_Invariant\<close>, \<open>Gauge_Votes\<close>, \<open>Gauge_Props\<close>: the gauge; the
    sorted index and the totals mirror the tallies, the tallies count the recorded votes, the
    selection is exactly the best qualifying options (\<open>enough_points\<close>, \<open>capped_points\<close>), an execution closes the epoch.  The interface \<open>ranking\<close> of
    a sorted index is interpreted on the storage of the gauge.
  \<^item> \<open>Choice\<close>, \<open>Choice_Proofs\<close>, \<open>Choice_Ballots\<close>, \<open>Choice_Shares\<close>, \<open>Choice_Props\<close>: the
    multiple-choice proposals; the choices hold their ballots, an execution panics, sends nothing or
    sends votes that sum up to one hundred, each in exactly stated cases, finished proposals stay
    finished until a new round.
  \<^item> \<open>Multisig\<close>, \<open>Multisig_Props\<close>: the multisig; one ballot per voter with its weight, passed
    proposals wait for their execution, which happens once and sends what was proposed.
  \<^item> \<open>Power_Sources\<close>: gauge and multiple-choice contract with the staking contract as their source of
    voting power (the interface \<open>power_source\<close>, interpreted for the balance query of the staking
    contract): votes carry the decayed stake, both contracts grant the same power, and over the plain token
    what the gauge grants is backed by the tokens the staking contract holds.
  \<^item> \<open>Query_Entries\<close>: the query entry points of the contracts, the answers through which contracts ask
    each other, and the listing of the staking contract's accounts, which runs over two storage maps.
  \<^item> \<open>Distribution\<close>: the payment stream pays per whole epoch whenever it is asked.

  \<^item> \<open>Decimals\<close>: the checked operations on decimals that gauge, vaults and farming share.
  \<^item> \<open>Vault\<close>, \<open>Vault_Proofs\<close>: the vaults, with the query for waiting rewards as an argument; the books
    of a vault, exact to the atomic unit, and what every operation does to them.
  \<^item> \<open>Converter\<close>: both converters, and the instances of the vault for the two protocols.
  \<^item> \<open>Vault_System\<close>, \<open>Vault_Props\<close>: vault, converter and the vault's token balance in one transaction;
    the interface \<open>reward_deliverer\<close> of a converter is interpreted for both.  The vault stays solvent,
    a deferred action is completed in its transaction, stakers can leave, the fees cannot.
  \<^item> \<open>Farming\<close>, \<open>Farming_Proofs\<close>, \<open>Farming_System\<close>, \<open>Farming_Props\<close>: the farming contract and the
    books of its pools; the interface \<open>settlement\<close> of a step that settles an account in one reward
    token is interpreted for stakes, first stakes, claims and withdrawals.  A transaction (\<open>farm_tx\<close>)
    is the request, the reply after the farm distributed and the reply after the user's action, with
    the farm free to answer differently in each.  Two counters beside the state record what the farm
    transferred for a pool and what was spent of it: rewards stay covered, stakes add up, the treasury only
    grows.  The accounts are summed over a finite set of addresses none of which begins with another
    (\<open>apart\<close>), because the keys of the contract are concatenated strings.  What is assumed of the outer farm is
    written out in \<open>farm_keeps_its_word\<close>: it reports and lists no token twice, keeps listing a token in
    which the contract has counted rewards, and transfers at least what it has reported.

  \<^item> \<open>Synedex\<close>, \<open>Synedex_Proofs\<close>: assets and their queries, the spread check, shares of a pool, the
    referral commission, fees, the replies that set up a pair, ownership proposals: taking a referral
    undoes adding it, shares never exceed the pool, the spread check limits the loss, ownership moves
    only by consent of both sides, stated over the requests sent (\<open>own_event\<close>): a claim directly follows a
    proposal of the owner for the claimer, within its time.
  \<^item> \<open>Oracle\<close>, \<open>Oracle_Proofs\<close>: the ring buffers of prices and the history query.  \<open>tb_ok\<close> relates a
    buffer to the log of what was saved, \<open>oracle_run\<close> is a sequence of stored prices, \<open>sampled\<close> its
    entries one step apart; within the first window the history is the sampled feed, later it stays
    within the window and holds the newest sample.

  \<^item> \<open>Syneswap\<close>: assets in readable and canonical form (the interface \<open>canonical_form\<close> is interpreted
    for addresses, asset infos and assets), pools and queries; canonical forms lose nothing.
  \<^item> \<open>Dex_Queries\<close>: queries of \<open>synedex\<close> that are handed on to a factory or a pair, texts of assets and
    pair types, swap operations.

  Invariants are proved over the states reachable from instantiation by any sequence of successful
  messages (\<open>group_reachable\<close>, \<open>token_reachable\<close>, \<open>staking_reachable\<close>, \<open>gov_reachable\<close>,
  \<open>vest_reachable\<close>, \<open>gauge_reachable\<close>, \<open>mc_reachable\<close>, \<open>ms_reachable\<close>, \<open>vault_reachable\<close>, \<open>farm_run\<close>,
  \<open>joint_run\<close>), with senders, block times and
  the answers of the parameters chosen freely at every step.  Two invariants hold only where a defect
  of the code is not triggered; the excluded messages are written out in \<open>gauge_careful\<close> and
  \<open>mc_careful\<close>, and theorems of their own show what those messages do.

  Bounds and fuel.  All loops of the code run over finite lists or a counted number of days and are
  structural recursions.  The only fuel is that of \<open>read_pages\<close>, a client that reads a listing to
  its end: one request more than there are entries is enough, and the completeness theorems say so.

  Departures found.  \<open>Staking_Proofs.expired_lock_counts_twice\<close> and
  \<open>Dao.expired_lock_inflates_the_ballot\<close>: a position whose lock has ended repeats the value of the
  previous duration in the total balance.  \<open>Proposal_Proofs.outvoted_proposal_executes\<close>: passing is
  final although votes may still change.  \<open>Proposal_Proofs.raised_deposit_blocks_execution\<close>: the
  deposit released is the current setting.  \<open>Curve_Proofs.scalable_check_misses_small_steps\<close> and
  \<open>Curve_Proofs.combined_schedule_may_fail_validation\<close>: limits of the curve checks.
  \<open>Vesting_Props.migration_can_disable_minting\<close>: a migration stores an unvalidated cap.
  \<open>Gauge_Props.removed_option_traps_its_voters\<close>: removing an option keeps the votes for it.
  \<open>Choice_Props.moved_votes_are_counted_again\<close>, \<open>execution_blocked_or_empty\<close>,
  \<open>stale_execution_repeats\<close>, \<open>closing_twice_releases_twice\<close>, \<open>anybody_can_block_an_execution\<close>: votes
  counted twice, executions that panic or send nothing, rounds that are never reopened, deposits
  released again, options removed by anybody.  \<open>Multisig_Props.total_weight_is_castable\<close>: a voter
  given twice inflates the total weight.  \<open>Vault_Props.treasury_fees_are_locked\<close>: the configuration of a
  vault is never saved, so its fees can never be withdrawn.  \<open>Farming_Props.farm_treasury_is_locked\<close>,
  \<open>stale_claims_fail\<close>, \<open>unstaking_returns_the_amount\<close>: a treasury that cannot be withdrawn, claims that
  fail after a stake, and a last unit that stays staked.
  \<open>Oracle_Proofs.history_can_lose_and_disorder_prices\<close>: the window of a price buffer is moved too far.
  \<open>Token_System_Props.vault_transfers_fail\<close>: a message of the staking contract asks itself for a transfer.
  \<open>Query_Entries.account_listing_fails_after_a_stake\<close>: two maps share a storage namespace.
  \<open>Proposal_Proofs.percentage_rule_ignores_turnout\<close>: percentages are not taken of the votes cast.

  Not modelled.  Response attributes, debug output and JSON encoding; the historical reads of
  snapshot maps (a parameter over the logged writes); the unused thresholds and vote counts of the
  multiple-choice contract; storage of the farming contract that nothing reads or writes.  Of
  \<open>synedex\<close> and \<open>syneswap\<close> the message and response types of contracts outside the repository.
  Of \<open>synedao\<close> the encoding of its messages; the packages \<open>cw-core-*\<close> hold interface types and macros.
\<close>

end
